(* ===== verification/Shipyard_Prelude.thy ===== *)
theory Shipyard_Prelude
  imports Main "HOL-Library.Word" "HOL-Library.Char_ord" "HOL-Library.List_Lexorder"
    "HOL-Library.Product_Lexorder" "HOL-Library.Multiset" "HOL-Library.Sublist"
begin

text \<open>
  The prelude of the Shipyard library: the types every component shares (times, machine
  integers), the parts of the Rust standard library the sources use (saturating integer
  arithmetic, \<open>Ordering\<close>, the stable \<open>sort_by\<close>, \<open>Iterator::max_by\<close>, the find-and-assign
  idiom on vectors, \<open>BTreeMap\<close>, ASCII case folding, \<open>str::trim\<close>, decimal printing and
  parsing) and the generic lemmas about them. Two interfaces are stated as locales here:
  \<open>comparator\<close>, what \<open>sort_by\<close> and \<open>max_by\<close> need of a comparison function, and
  \<open>ordered_map\<close>, what a client may assume of a \<open>BTreeMap\<close>.
\<close>

section \<open>Collections and shared types\<close>

named_theorems row_simps \<open>how the row combinators act on keys, membership and length\<close>
named_theorems job_defs \<open>the definitions of the job transitions\<close>
named_theorems queue_defs \<open>the definitions of the queue operations\<close>

text \<open>
  A \<open>DateTime<Utc>\<close> is the number of nanoseconds since the epoch, a \<open>chrono::Duration\<close> a
  number of nanoseconds. \<open>u32\<close> values that the code adds or subtracts keep their width;
  \<open>u64\<close> identifiers are compared and printed, never computed with, so they are numbers. An
  \<open>f64\<close> is carried as its bit pattern.
\<close>

type_synonym time = int
type_synonym duration = int
type_synonym u32 = "32 word"
type_synonym u64 = nat
type_synonym f64 = "64 word"

text \<open>
  An operation that reads the wall clock several times takes the readings as a function of
  the read's index in the operation's loop.
\<close>

type_synonym clock = "nat \<Rightarrow> time"

definition nanos_per_second :: int where
  "nanos_per_second = 1000000000"

definition duration_seconds :: "int \<Rightarrow> duration" where
  "duration_seconds s = s * nanos_per_second"

text \<open>\<open>Duration::num_seconds\<close> and \<open>num_minutes\<close> truncate towards zero.\<close>

definition num_seconds :: "duration \<Rightarrow> int" where
  "num_seconds d = sgn d * (\<bar>d\<bar> div nanos_per_second)"

definition num_minutes :: "duration \<Rightarrow> int" where
  "num_minutes d = sgn d * (\<bar>d\<bar> div (60 * nanos_per_second))"

section \<open>Saturating and wrapping \<open>u32\<close> arithmetic\<close>

definition u32_saturating_add :: "u32 \<Rightarrow> u32 \<Rightarrow> u32" where
  "u32_saturating_add a b = (if 2 ^ 32 \<le> unat a + unat b then - 1 else a + b)"

definition u32_saturating_sub :: "u32 \<Rightarrow> u32 \<Rightarrow> u32" where
  "u32_saturating_sub a b = (if a < b then 0 else a - b)"

text \<open>\<open>Iterator::sum::<u32>\<close> in the release profile, which does not check for overflow.\<close>

definition u32_sum :: "u32 list \<Rightarrow> u32" where
  "u32_sum xs = foldl (+) 0 xs"

text \<open>\<open>usize::try_into::<u32>().unwrap_or(u32::MAX)\<close>.\<close>

definition u32_of_count :: "nat \<Rightarrow> u32" where
  "u32_of_count n = (if n < 2 ^ 32 then of_nat n else - 1)"

lemma unat_u32_max: "unat (- 1 :: u32) = 2 ^ 32 - 1"
  by (simp add: unsigned_minus_1_eq_mask mask_eq_exp_minus_1)

lemma unat_u32_saturating_add:
  "unat (u32_saturating_add a b) = min (2 ^ 32 - 1) (unat a + unat b)"
  by (auto simp: u32_saturating_add_def unat_u32_max unat_word_ariths)

lemma unat_u32_saturating_sub: "unat (u32_saturating_sub a b) = unat a - unat b"
  by (simp add: u32_saturating_sub_def word_less_nat_alt unat_sub_if')

lemma unat_u32_of_count: "unat (u32_of_count n) = min (2 ^ 32 - 1) n"
  by (auto simp: u32_of_count_def unat_u32_max unat_of_nat)

lemma u32_sum_eq: "u32_sum xs = sum_list xs"
proof -
  have "foldl (+) a xs = a + sum_list xs" for a :: u32
    by (induction xs arbitrary: a) (simp_all add: add.assoc)
  then show ?thesis by (simp add: u32_sum_def)
qed

lemma unat_sum_list_u32: "unat (sum_list xs :: u32) = sum_list (map unat xs) mod 2 ^ 32"
  by (induction xs) (simp_all add: unat_word_ariths mod_add_right_eq)

lemma unat_u32_sum_exact:
  "sum_list (map unat xs) < 2 ^ 32 \<Longrightarrow> unat (u32_sum xs) = sum_list (map unat xs)"
  by (simp add: u32_sum_eq unat_sum_list_u32)

section \<open>Comparison functions\<close>

datatype ordering = OrdLess | OrdEqual | OrdGreater

definition cmp :: "'a::linorder \<Rightarrow> 'a \<Rightarrow> ordering" where
  "cmp x y = (if x < y then OrdLess else if x = y then OrdEqual else OrdGreater)"

definition then_with :: "ordering \<Rightarrow> ordering \<Rightarrow> ordering" where
  "then_with a b = (if a = OrdEqual then b else a)"

text \<open>\<open>slice::sort_by\<close> is stable: an insertion sort that never passes an equal element.\<close>

fun insort_by :: "('a \<Rightarrow> 'a \<Rightarrow> ordering) \<Rightarrow> 'a \<Rightarrow> 'a list \<Rightarrow> 'a list" where
  "insort_by c x [] = [x]"
| "insort_by c x (y # ys) =
     (if c x y = OrdGreater then y # insort_by c x ys else x # y # ys)"

definition sort_by :: "('a \<Rightarrow> 'a \<Rightarrow> ordering) \<Rightarrow> 'a list \<Rightarrow> 'a list" where
  "sort_by c xs = foldr (insort_by c) xs []"

text \<open>\<open>Iterator::max_by\<close>: of two elements the later one stays unless the earlier is greater.\<close>

fun max_by_from :: "('a \<Rightarrow> 'a \<Rightarrow> ordering) \<Rightarrow> 'a \<Rightarrow> 'a list \<Rightarrow> 'a" where
  "max_by_from c m [] = m"
| "max_by_from c m (x # xs) = max_by_from c (if c m x = OrdGreater then m else x) xs"

definition max_by :: "('a \<Rightarrow> 'a \<Rightarrow> ordering) \<Rightarrow> 'a list \<Rightarrow> 'a option" where
  "max_by c xs = (case xs of [] \<Rightarrow> None | x # ys \<Rightarrow> Some (max_by_from c x ys))"

lemma mset_insort_by [simp]: "mset (insort_by c x xs) = add_mset x (mset xs)"
  by (induction xs) auto

lemma mset_sort_by [simp]: "mset (sort_by c xs) = mset xs"
  by (induction xs) (auto simp: sort_by_def)

lemma set_sort_by [simp]: "set (sort_by c xs) = set xs"
  by (metis mset_sort_by set_mset_mset)

lemma length_sort_by [simp]: "length (sort_by c xs) = length xs"
  by (metis mset_sort_by size_mset)

lemma sort_by_Nil [simp]: "sort_by c [] = []"
  by (simp add: sort_by_def)

lemma sort_by_Cons: "sort_by c (x # xs) = insort_by c x (sort_by c xs)"
  by (simp add: sort_by_def)

lemma max_by_from_in: "max_by_from c m xs \<in> insert m (set xs)"
proof (induction xs arbitrary: m)
  case (Cons x xs)
  from Cons.IH [of m] Cons.IH [of x] show ?case by auto
qed simp

lemma max_by_in: "max_by c xs = Some m \<Longrightarrow> m \<in> set xs"
  by (cases xs) (use max_by_from_in in \<open>fastforce simp: max_by_def\<close>)+

lemma max_by_None_iff [simp]: "max_by c xs = None \<longleftrightarrow> xs = []"
  by (auto simp: max_by_def split: list.splits)

text \<open>
  The law \<open>sort_by\<close> and \<open>max_by\<close> rely on: the comparison is a total preorder.
\<close>

locale comparator =
  fixes c :: "'a \<Rightarrow> 'a \<Rightarrow> ordering"
  assumes swap: "c x y = OrdLess \<longleftrightarrow> c y x = OrdGreater"
    and trans: "c x y \<noteq> OrdGreater \<Longrightarrow> c y z \<noteq> OrdGreater \<Longrightarrow> c x z \<noteq> OrdGreater"
begin

lemma refl: "c x x = OrdEqual"
  using swap [of x x] by (cases "c x x") auto

lemma equal_sym: "c x y = OrdEqual \<Longrightarrow> c y x = OrdEqual"
  using swap [of x y] swap [of y x] by (cases "c y x") auto

lemma greater_flip: "c x y = OrdGreater \<Longrightarrow> c y x \<noteq> OrdGreater"
  using swap [of y x] by auto

lemma equal_left: "c x y = OrdEqual \<Longrightarrow> c x z = c y z"
proof -
  assume eq: "c x y = OrdEqual"
  then have eq': "c y x = OrdEqual" by (rule equal_sym)
  have up: "c y z \<noteq> OrdGreater \<longleftrightarrow> c x z \<noteq> OrdGreater"
    using trans [of x y z] trans [of y x z] eq eq' by auto
  have down: "c z y \<noteq> OrdGreater \<longleftrightarrow> c z x \<noteq> OrdGreater"
    using trans [of z x y] trans [of z y x] eq eq' by auto
  show ?thesis
    using up down swap [of x z] swap [of y z] swap [of z x] swap [of z y]
    by (cases "c x z"; cases "c y z") auto
qed

lemma sorted_insort_by:
  "sorted_wrt (\<lambda>x y. c x y \<noteq> OrdGreater) xs \<Longrightarrow>
     sorted_wrt (\<lambda>x y. c x y \<noteq> OrdGreater) (insort_by c x xs)"
proof (induction xs)
  case Nil
  then show ?case by simp
next
  case (Cons y ys)
  have set: "set (insort_by c x ys) = insert x (set ys)"
    by (metis mset_insort_by set_mset_add_mset_insert set_mset_mset)
  show ?case
  proof (cases "c x y = OrdGreater")
    case True
    with Cons set show ?thesis by (auto dest: greater_flip)
  next
    case False
    with Cons.prems show ?thesis by (auto dest: trans)
  qed
qed

lemma sorted_sort_by: "sorted_wrt (\<lambda>x y. c x y \<noteq> OrdGreater) (sort_by c xs)"
  by (induction xs) (auto simp: sort_by_Cons sorted_insort_by)

lemma filter_insort_by:
  "filter (\<lambda>y. c y k = OrdEqual) (insort_by c x xs) =
     (if c x k = OrdEqual then x # filter (\<lambda>y. c y k = OrdEqual) xs
      else filter (\<lambda>y. c y k = OrdEqual) xs)"
proof (induction xs)
  case Nil
  then show ?case by simp
next
  case (Cons y ys)
  have "c x y = OrdGreater \<Longrightarrow> c x k = OrdEqual \<Longrightarrow> c y k \<noteq> OrdEqual"
    by (metis equal_left equal_sym ordering.distinct(5) ordering.distinct(6))
  with Cons show ?case by auto
qed

lemma sort_by_stable:
  "filter (\<lambda>y. c y k = OrdEqual) (sort_by c xs) = filter (\<lambda>y. c y k = OrdEqual) xs"
  by (induction xs) (auto simp: sort_by_Cons filter_insort_by)

lemma max_by_from_upper:
  "x \<in> insert m (set xs) \<Longrightarrow> c x (max_by_from c m xs) \<noteq> OrdGreater"
proof (induction xs arbitrary: m x)
  case Nil
  then show ?case by (simp add: refl)
next
  case (Cons y ys)
  define m' where "m' = (if c m y = OrdGreater then m else y)"
  have step: "c z m' \<noteq> OrdGreater" if "z = m \<or> z = y" for z
    using that greater_flip [of m y] refl by (auto simp: m'_def)
  have below: "c m' (max_by_from c m' ys) \<noteq> OrdGreater"
    by (rule Cons.IH) simp
  from Cons.prems consider "x = m \<or> x = y" | "x \<in> set ys" by auto
  then show ?case
  proof cases
    case 1
    from trans [OF step [OF 1] below] show ?thesis by (simp add: m'_def)
  next
    case 2
    from Cons.IH [of x m'] 2 show ?thesis by (simp add: m'_def)
  qed
qed

lemma max_by_upper: "max_by c xs = Some m \<Longrightarrow> x \<in> set xs \<Longrightarrow> c x m \<noteq> OrdGreater"
  by (cases xs) (use max_by_from_upper in \<open>auto simp: max_by_def\<close>)

end

lemma cmp_neq_greater [simp]: "cmp x y \<noteq> OrdGreater \<longleftrightarrow> x \<le> y"
  by (auto simp: cmp_def)

lemma cmp_eq_iffs [simp]:
  "cmp x y = OrdGreater \<longleftrightarrow> y < x"
  "cmp x y = OrdLess \<longleftrightarrow> x < y"
  "cmp x y = OrdEqual \<longleftrightarrow> x = y"
  by (auto simp: cmp_def)

interpretation cmp_order: comparator "cmp :: 'a::linorder \<Rightarrow> 'a \<Rightarrow> ordering"
  by unfold_locales auto

text \<open>A comparison by a key in a linear order, and the usual compositions, are comparators.\<close>

lemma comparator_on_key: "comparator (\<lambda>x y. cmp (f x) (f y))"
  by unfold_locales auto

lemma then_with_cmp:
  "then_with (cmp a b) (cmp c d) = cmp (a, c) (b, d)"
  by (auto simp: then_with_def cmp_def)

lemma sort_by_key: "sort_by (\<lambda>x y. cmp (f x) (f y)) xs = sort_key f xs"
proof (induction xs)
  case (Cons x xs)
  have "insort_by (\<lambda>x y. cmp (f x) (f y)) x ys = insort_key f x ys" for ys
    by (induction ys) auto
  with Cons show ?case by (simp add: sort_by_Cons)
qed simp

section \<open>Rows: find, then assign\<close>

text \<open>
  \<open>rows.iter_mut().find(p)\<close> followed by an assignment through the reference replaces the
  first row that satisfies \<open>p\<close>.
\<close>

fun assign_first :: "('a \<Rightarrow> bool) \<Rightarrow> 'a \<Rightarrow> 'a list \<Rightarrow> 'a list" where
  "assign_first P y [] = []"
| "assign_first P y (x # xs) = (if P x then y # xs else x # assign_first P y xs)"

lemma find_SomeD: "find P xs = Some x \<Longrightarrow> x \<in> set xs \<and> P x"
  by (induction xs) (auto split: if_splits)

lemma assign_first_length [row_simps]: "length (assign_first P y xs) = length xs"
  by (induction xs) auto

lemma assign_first_key [row_simps]:
  "find P xs = Some x \<Longrightarrow> k y = k x \<Longrightarrow> map k (assign_first P y xs) = map k xs"
  by (induction xs) (auto split: if_splits)

lemma assign_first_mem:
  "z \<in> set (assign_first P y xs) \<Longrightarrow> z = y \<or> z \<in> set xs"
  by (induction xs) (auto split: if_splits)

lemma assign_first_new: "find P xs = Some x \<Longrightarrow> y \<in> set (assign_first P y xs)"
  by (induction xs) (auto split: if_splits)

lemma assign_first_old:
  "find P xs = Some x \<Longrightarrow> z \<in> set xs \<Longrightarrow> z = x \<or> z \<in> set (assign_first P y xs)"
  by (induction xs) (auto split: if_splits)

lemma distinct_key_eq:
  "distinct (map k xs) \<Longrightarrow> x \<in> set xs \<Longrightarrow> y \<in> set xs \<Longrightarrow> k x = k y \<Longrightarrow> x = y"
  by (simp add: distinct_map inj_on_def)

lemma assign_first_distinct_mem:
  assumes "distinct (map k xs)" and "find P xs = Some x" and "k y = k x"
  shows "z \<in> set (assign_first P y xs) \<longleftrightarrow> z = y \<or> z \<in> set xs \<and> z \<noteq> x"
  using assms
proof (induction xs)
  case (Cons w ws)
  then show ?case by (cases "P w") (auto simp: image_iff dest: find_SomeD)
qed simp

lemma find_by_key:
  "distinct (map k xs) \<Longrightarrow> x \<in> set xs \<Longrightarrow> P x \<Longrightarrow>
     find (\<lambda>r. k r = k x \<and> P r) xs = Some x"
  by (induction xs) (auto simp: image_iff)

lemma find_key:
  "distinct (map k xs) \<Longrightarrow> x \<in> set xs \<Longrightarrow> find (\<lambda>r. k r = k x) xs = Some x"
  using find_by_key [where P = "\<lambda>_. True"] by auto

lemma find_key_Some_iff:
  "distinct (map k xs) \<Longrightarrow>
     find (\<lambda>r. k r = i \<and> P r) xs = Some x \<longleftrightarrow> x \<in> set xs \<and> k x = i \<and> P x"
  using find_by_key [of k xs x P] by (auto dest: find_SomeD)

section \<open>\<open>BTreeMap\<close>\<close>

text \<open>
  A \<open>BTreeMap\<close> is the list of its entries in ascending key order; \<open>insert\<close> replaces,
  \<open>entry(k).or_insert\<close> keeps an entry that is there.
\<close>

fun bt_insert :: "'k::linorder \<Rightarrow> 'v \<Rightarrow> ('k \<times> 'v) list \<Rightarrow> ('k \<times> 'v) list" where
  "bt_insert k v [] = [(k, v)]"
| "bt_insert k v ((k', v') # m) =
     (if k < k' then (k, v) # (k', v') # m
      else if k = k' then (k, v) # m
      else (k', v') # bt_insert k v m)"

definition bt_get :: "('k \<times> 'v) list \<Rightarrow> 'k \<Rightarrow> 'v option" where
  "bt_get m k = map_of m k"

definition bt_remove :: "'k \<Rightarrow> ('k \<times> 'v) list \<Rightarrow> ('k \<times> 'v) list" where
  "bt_remove k m = filter (\<lambda>e. fst e \<noteq> k) m"

definition bt_or_insert :: "'k::linorder \<Rightarrow> 'v \<Rightarrow> ('k \<times> 'v) list \<Rightarrow> ('k \<times> 'v) list" where
  "bt_or_insert k v m = (case bt_get m k of Some _ \<Rightarrow> m | None \<Rightarrow> bt_insert k v m)"

definition bt_wf :: "('k::linorder \<times> 'v) list \<Rightarrow> bool" where
  "bt_wf m = sorted_wrt (<) (map fst m)"

lemma bt_wf_Nil [simp]: "bt_wf []"
  by (simp add: bt_wf_def)

lemma bt_wf_distinct: "bt_wf m \<Longrightarrow> distinct (map fst m)"
  by (auto simp: bt_wf_def strict_sorted_iff)

lemma bt_wf_filter: "bt_wf m \<Longrightarrow> bt_wf (filter P m)"
  by (induction m) (auto simp: bt_wf_def)

lemma set_bt_insert_keys: "fst ` set (bt_insert k v m) = insert k (fst ` set m)"
proof (induction m)
  case (Cons e m)
  then show ?case by (cases e) (simp add: insert_commute)
qed simp

lemma bt_wf_insert: "bt_wf m \<Longrightarrow> bt_wf (bt_insert k v m)"
proof (induction m)
  case (Cons e m)
  then show ?case
    using set_bt_insert_keys [of k v m]
    by (cases e) (auto simp: bt_wf_def simp flip: image_image)
qed (simp add: bt_wf_def)

lemma bt_get_insert: "bt_wf m \<Longrightarrow> bt_get (bt_insert k v m) = (bt_get m)(k \<mapsto> v)"
proof (induction m)
  case Nil
  then show ?case by (auto simp: bt_get_def)
next
  case (Cons e m)
  obtain k' v' where e: "e = (k', v')" by (cases e)
  with Cons.prems have wf: "bt_wf m" and gt: "\<And>q. q \<in> fst ` set m \<Longrightarrow> k' < q"
    by (auto simp: bt_wf_def)
  have "map_of m k = None" if "k \<le> k'"
    using gt that by (force simp: map_of_eq_None_iff)
  with Cons.IH [OF wf] e show ?case
    by (auto simp: bt_get_def fun_eq_iff)
qed

lemma bt_get_remove: "bt_get (bt_remove k m) = (bt_get m)(k := None)"
  by (induction m) (auto simp: bt_get_def bt_remove_def fun_eq_iff)

lemma bt_wf_or_insert: "bt_wf m \<Longrightarrow> bt_wf (bt_or_insert k v m)"
  by (simp add: bt_or_insert_def bt_wf_insert split: option.split)

lemma bt_get_or_insert:
  "bt_wf m \<Longrightarrow> bt_get (bt_or_insert k v m) q =
     (if q = k \<and> bt_get m k = None then Some v else bt_get m q)"
  by (auto simp: bt_or_insert_def bt_get_insert split: option.split)

text \<open>What a client of a map relies on, and what follows for runs of insertions.\<close>

locale ordered_map =
  fixes empty :: "'m"
    and insert :: "'k \<Rightarrow> 'v \<Rightarrow> 'm \<Rightarrow> 'm"
    and remove :: "'k \<Rightarrow> 'm \<Rightarrow> 'm"
    and lookup :: "'m \<Rightarrow> 'k \<Rightarrow> 'v option"
    and invar :: "'m \<Rightarrow> bool"
  assumes lookup_empty: "lookup empty k = None"
    and lookup_insert: "invar m \<Longrightarrow> lookup (insert k v m) = (lookup m)(k \<mapsto> v)"
    and lookup_remove: "invar m \<Longrightarrow> lookup (remove k m) = (lookup m)(k := None)"
    and invar_empty: "invar empty"
    and invar_insert: "invar m \<Longrightarrow> invar (insert k v m)"
    and invar_remove: "invar m \<Longrightarrow> invar (remove k m)"
begin

lemma invar_fold: "invar m \<Longrightarrow> invar (fold (\<lambda>k. insert k (f k)) ks m)"
  by (induction ks arbitrary: m) (auto simp: invar_insert)

lemma lookup_fold:
  "invar m \<Longrightarrow> lookup (fold (\<lambda>k. insert k (f k)) ks m) q =
     (if q \<in> set ks then Some (f q) else lookup m q)"
  by (induction ks arbitrary: m) (auto simp: invar_insert lookup_insert)

lemma insert_remove: "invar m \<Longrightarrow> lookup (remove k (insert k v m)) = (lookup m)(k := None)"
  by (simp add: lookup_insert lookup_remove invar_insert)

end

interpretation bt: ordered_map "[]" bt_insert bt_remove bt_get bt_wf
proof unfold_locales
  show "bt_wf (bt_remove k m)" if "bt_wf m" for k :: 'a and m :: "('a \<times> 'b) list"
    using that by (simp add: bt_remove_def bt_wf_filter)
qed (auto simp: bt_get_insert bt_get_remove bt_wf_insert bt_get_def)

lemma bt_get_SomeD: "bt_get m k = Some v \<Longrightarrow> (k, v) \<in> set m"
  by (simp add: bt_get_def map_of_SomeD)

lemma bt_get_Some_iff: "bt_wf m \<Longrightarrow> bt_get m k = Some v \<longleftrightarrow> (k, v) \<in> set m"
  by (simp add: bt_get_def bt_wf_distinct)

lemma bt_get_filter:
  "bt_wf m \<Longrightarrow> bt_get (filter P m) k =
     (case bt_get m k of Some v \<Rightarrow> if P (k, v) then Some v else None | None \<Rightarrow> None)"
proof -
  assume wf: "bt_wf m"
  have eq: "bt_get (filter P m) k = Some v \<longleftrightarrow> bt_get m k = Some v \<and> P (k, v)" for v
    using bt_get_Some_iff [OF wf] bt_get_Some_iff [OF bt_wf_filter [OF wf]] by simp
  show ?thesis
  proof (cases "bt_get m k")
    case None
    with eq have "bt_get (filter P m) k \<noteq> Some v" for v by simp
    with None show ?thesis by (metis option.exhaust option.simps(4))
  next
    case (Some v)
    with eq have "bt_get (filter P m) k \<noteq> Some w" if "\<not> P (k, v)" for w
      using that by auto
    with Some eq [of v] show ?thesis by (auto intro: option.exhaust)
  qed
qed

lemma bt_keys_card: "bt_wf m \<Longrightarrow> card (dom (bt_get m)) = length m"
  by (metis bt_get_def bt_wf_distinct distinct_card dom_map_of_conv_image_fst length_map
      list.set_map ext)

section \<open>Strings\<close>

text \<open>
  A Rust \<open>String\<close> is its UTF-8 bytes, so a \<open>char\<close> here is one byte; the order of strings is
  the order of their bytes, as in Rust.
\<close>

definition ascii_lower_char :: "char \<Rightarrow> char" where
  "ascii_lower_char ch =
     (let n = (of_char ch :: nat) in if 65 \<le> n \<and> n \<le> 90 then char_of (n + 32) else ch)"

definition ascii_upper_char :: "char \<Rightarrow> char" where
  "ascii_upper_char ch =
     (let n = (of_char ch :: nat) in if 97 \<le> n \<and> n \<le> 122 then char_of (n - 32) else ch)"

definition to_ascii_lowercase :: "string \<Rightarrow> string" where
  "to_ascii_lowercase s = map ascii_lower_char s"

definition to_ascii_uppercase :: "string \<Rightarrow> string" where
  "to_ascii_uppercase s = map ascii_upper_char s"

definition eq_ignore_ascii_case :: "string \<Rightarrow> string \<Rightarrow> bool" where
  "eq_ignore_ascii_case a b = (to_ascii_lowercase a = to_ascii_lowercase b)"

definition is_ascii_digit :: "char \<Rightarrow> bool" where
  "is_ascii_digit ch = (let n = (of_char ch :: nat) in 48 \<le> n \<and> n \<le> 57)"

definition is_ascii_alphabetic :: "char \<Rightarrow> bool" where
  "is_ascii_alphabetic ch =
     (let n = (of_char ch :: nat) in 65 \<le> n \<and> n \<le> 90 \<or> 97 \<le> n \<and> n \<le> 122)"

definition is_ascii_alphanumeric :: "char \<Rightarrow> bool" where
  "is_ascii_alphanumeric ch = (is_ascii_digit ch \<or> is_ascii_alphabetic ch)"

definition is_ascii_hexdigit :: "char \<Rightarrow> bool" where
  "is_ascii_hexdigit ch =
     (let n = (of_char ch :: nat)
      in 48 \<le> n \<and> n \<le> 57 \<or> 65 \<le> n \<and> n \<le> 70 \<or> 97 \<le> n \<and> n \<le> 102)"

text \<open>The UTF-8 encodings of the characters with the Unicode property \<open>White_Space\<close>.\<close>

definition white_space :: "string list" where
  "white_space =
     map (\<lambda>n. [char_of (n :: nat)]) [9, 10, 11, 12, 13, 32]
     @ map (map char_of)
         [[194 :: nat, 133], [194, 160], [225, 154, 128],
          [226, 128, 128], [226, 128, 129], [226, 128, 130], [226, 128, 131], [226, 128, 132],
          [226, 128, 133], [226, 128, 134], [226, 128, 135], [226, 128, 136], [226, 128, 137],
          [226, 128, 138], [226, 128, 168], [226, 128, 169], [226, 128, 175], [226, 129, 159],
          [227, 128, 128]]"

lemma white_space_code [code]:
  "white_space =
     [[CHR 0x09], [CHR 0x0A], [CHR 0x0B], [CHR 0x0C],
      [CHR 0x0D], [CHR 0x20], [CHR 0xC2, CHR 0x85], [CHR 0xC2, CHR 0xA0],
      [CHR 0xE1, CHR 0x9A, CHR 0x80], [CHR 0xE2, CHR 0x80, CHR 0x80], [CHR 0xE2, CHR 0x80, CHR 0x81], [CHR 0xE2, CHR 0x80, CHR 0x82],
      [CHR 0xE2, CHR 0x80, CHR 0x83], [CHR 0xE2, CHR 0x80, CHR 0x84], [CHR 0xE2, CHR 0x80, CHR 0x85], [CHR 0xE2, CHR 0x80, CHR 0x86],
      [CHR 0xE2, CHR 0x80, CHR 0x87], [CHR 0xE2, CHR 0x80, CHR 0x88], [CHR 0xE2, CHR 0x80, CHR 0x89], [CHR 0xE2, CHR 0x80, CHR 0x8A],
      [CHR 0xE2, CHR 0x80, CHR 0xA8], [CHR 0xE2, CHR 0x80, CHR 0xA9], [CHR 0xE2, CHR 0x80, CHR 0xAF], [CHR 0xE2, CHR 0x81, CHR 0x9F],
      [CHR 0xE3, CHR 0x80, CHR 0x80]]"
  by (simp add: white_space_def char_of_def bit_0)

function strip_leading :: "string list \<Rightarrow> string \<Rightarrow> string" where
  "strip_leading ws s =
     (case find (\<lambda>w. w \<noteq> [] \<and> prefix w s) ws of
        Some w \<Rightarrow> strip_leading ws (drop (length w) s)
      | None \<Rightarrow> s)"
  by pat_completeness auto
termination
proof (relation "measure (\<lambda>(ws, s). length s)", goal_cases)
  case (2 ws s w)
  then have "w \<noteq> []" "prefix w s" using find_SomeD by fastforce+
  then show ?case by (cases w; cases s) auto
qed simp

definition trim :: "string \<Rightarrow> string" where
  "trim s = rev (strip_leading (map rev white_space) (rev (strip_leading white_space s)))"

declare strip_leading.simps [simp del]

text \<open>The same loop on the match it found, which evaluation does not unfold under a binder.\<close>

definition leads :: "string \<Rightarrow> string \<Rightarrow> bool" where
  "leads s w = (w \<noteq> [] \<and> prefix w s)"

fun strip_matched :: "nat \<Rightarrow> string list \<Rightarrow> string \<Rightarrow> string option \<Rightarrow> string" where
  "strip_matched (Suc n) ws s (Some w) =
     strip_matched n ws (drop (length w) s) (find (leads (drop (length w) s)) ws)"
| "strip_matched 0 ws s m = s"
| "strip_matched n ws s None = s"

lemma strip_matched:
  "length s \<le> n \<Longrightarrow> strip_leading ws s = strip_matched n ws s (find (leads s) ws)"
proof (induction n arbitrary: s)
  case 0
  then have "find (\<lambda>w. w \<noteq> [] \<and> prefix w s) ws = None" by (auto simp: find_None_iff)
  with 0 show ?case by (simp add: strip_leading.simps)
next
  case (Suc n)
  have l: "leads s = (\<lambda>w. w \<noteq> [] \<and> prefix w s)" by (simp add: leads_def fun_eq_iff)
  show ?case
  proof (cases "find (leads s) ws")
    case None
    then show ?thesis by (simp add: strip_leading.simps [of ws s] l)
  next
    case (Some w)
    then have "w \<noteq> []" using find_SomeD by (fastforce simp: leads_def)
    with Suc.prems have "length (drop (length w) s) \<le> n" by (cases w) auto
    from Suc.IH [OF this] Some show ?thesis by (simp add: strip_leading.simps [of ws s] l [symmetric])
  qed
qed

lemma strip_leading_code [code]: "strip_leading ws s = strip_matched (length s) ws s (find (leads s) ws)"
  by (simp add: strip_matched)

text \<open>A graphic ASCII character is no part of any white-space encoding.\<close>

definition is_graphic :: "char \<Rightarrow> bool" where
  "is_graphic c = (32 < (of_char c :: nat) \<and> (of_char c :: nat) < 127)"

lemma graphic_not_blank: "is_graphic c \<Longrightarrow> w \<in> set white_space \<Longrightarrow> c \<notin> set w"
  by (auto simp: is_graphic_def white_space_def)

lemma strip_leading_graphic:
  assumes "is_graphic (hd s)" and "s \<noteq> []" and "\<forall>w \<in> set ws. \<forall>c \<in> set w. \<not> is_graphic c"
  shows "strip_leading ws s = s"
proof -
  have "\<not> (w \<noteq> [] \<and> prefix w s)" if "w \<in> set ws" for w
    using assms that by (cases w; cases s) auto
  then have "find (\<lambda>w. w \<noteq> [] \<and> prefix w s) ws = None" by (auto simp: find_None_iff)
  then show ?thesis by (simp add: strip_leading.simps)
qed

lemma trim_graphic:
  assumes "s \<noteq> []" and "is_graphic (hd s)" and "is_graphic (last s)"
  shows "trim s = s"
proof -
  have ws: "\<forall>w \<in> set white_space. \<forall>c \<in> set w. \<not> is_graphic c"
    using graphic_not_blank by blast
  then have "strip_leading white_space s = s" using assms by (intro strip_leading_graphic)
  moreover have "strip_leading (map rev white_space) (rev s) = rev s"
    using assms ws by (intro strip_leading_graphic) (auto simp: hd_rev)
  ultimately show ?thesis by (simp add: trim_def)
qed

lemma strip_leading_keeps:
  "c \<in> set s \<Longrightarrow> \<forall>w \<in> set ws. c \<notin> set w \<Longrightarrow> c \<in> set (strip_leading ws s)"
proof (induction ws s rule: strip_leading.induct)
  case (1 ws s)
  show ?case
  proof (cases "find (\<lambda>w. w \<noteq> [] \<and> prefix w s) ws")
    case None
    with 1 show ?thesis by (simp add: strip_leading.simps)
  next
    case (Some w)
    then have "w \<in> set ws" "prefix w s" by (auto dest: find_SomeD)
    with 1(2,3) have "c \<in> set (drop (length w) s)" by (auto elim!: prefixE)
    with 1 Some show ?thesis by (simp add: strip_leading.simps [of ws s])
  qed
qed

lemma trim_keeps_graphic: "c \<in> set s \<Longrightarrow> is_graphic c \<Longrightarrow> c \<in> set (trim s)"
  by (simp add: trim_def strip_leading_keeps graphic_not_blank)

text \<open>\<open>char::is_control\<close> on UTF-8 text: U+0000 to U+001F, U+007F and U+0080 to U+009F.\<close>

fun any_control :: "string \<Rightarrow> bool" where
  "any_control [] = False"
| "any_control (c # cs) =
     ((of_char c :: nat) < 32 \<or> (of_char c :: nat) = 127
      \<or> ((of_char c :: nat) = 194 \<and> (case cs of d # _ \<Rightarrow> 128 \<le> (of_char d :: nat) \<and> (of_char d :: nat) < 160 | [] \<Rightarrow> False))
      \<or> any_control cs)"

fun show_nat :: "nat \<Rightarrow> string" where
  "show_nat n =
     (if n < 10 then [char_of (n + 48)] else show_nat (n div 10) @ [char_of (n mod 10 + 48)])"

declare show_nat.simps [simp del]

text \<open>\<open>str::parse::<u64>\<close>: an optional plus sign, then decimal digits, no overflow.\<close>

definition digits_value :: "string \<Rightarrow> nat" where
  "digits_value s = foldl (\<lambda>a ch. 10 * a + (of_char ch - 48)) 0 s"

definition parse_u64 :: "string \<Rightarrow> u64 option" where
  "parse_u64 s =
     (let d = (case s of ch # r \<Rightarrow> if ch = CHR ''+'' then r else s | [] \<Rightarrow> s)
      in if d \<noteq> [] \<and> list_all is_ascii_digit d \<and> digits_value d < 2 ^ 64
         then Some (digits_value d) else None)"

lemma eq_ignore_ascii_case_refl [simp]: "eq_ignore_ascii_case s s"
  by (simp add: eq_ignore_ascii_case_def)

lemma eq_ignore_ascii_case_sym:
  "eq_ignore_ascii_case a b = eq_ignore_ascii_case b a"
  by (auto simp: eq_ignore_ascii_case_def)

lemma upper_lower_char: "ascii_upper_char (ascii_lower_char c) = ascii_upper_char c"
  by (auto simp: ascii_upper_char_def ascii_lower_char_def Let_def)

lemma lower_upper_char: "ascii_lower_char (ascii_upper_char c) = ascii_lower_char c"
  by (auto simp: ascii_upper_char_def ascii_lower_char_def Let_def)

lemma eq_ignore_ascii_case_upper:
  "eq_ignore_ascii_case a b \<longleftrightarrow> to_ascii_uppercase a = to_ascii_uppercase b"
proof -
  have up: "map ascii_upper_char (map ascii_lower_char s) = map ascii_upper_char s"
    and low: "map ascii_lower_char (map ascii_upper_char s) = map ascii_lower_char s" for s
    by (simp_all add: upper_lower_char lower_upper_char)
  show ?thesis unfolding eq_ignore_ascii_case_def to_ascii_lowercase_def to_ascii_uppercase_def
    using up low by metis
qed

lemma digits_value_snoc: "digits_value (s @ [ch]) = 10 * digits_value s + (of_char ch - 48)"
  by (simp add: digits_value_def)

lemma show_nat_digits: "list_all is_ascii_digit (show_nat n) \<and> show_nat n \<noteq> []"
proof (induction n rule: show_nat.induct)
  case (1 n)
  have "is_ascii_digit (char_of (m + 48))" if "m < 10" for m :: nat
    using that by (simp add: is_ascii_digit_def)
  with "1" show ?case by (subst (1 2) show_nat.simps) auto
qed

lemma digits_value_show_nat: "digits_value (show_nat n) = n"
proof (induction n rule: show_nat.induct)
  case (1 n)
  show ?case
  proof (cases "n < 10")
    case True
    then show ?thesis by (subst show_nat.simps) (simp add: digits_value_def)
  next
    case False
    with "1" have "digits_value (show_nat (n div 10)) = n div 10" by simp
    moreover have "of_char (char_of (n mod 10 + 48) :: char) = n mod 10 + (48 :: nat)" by simp
    ultimately show ?thesis using False
      by (subst show_nat.simps) (simp add: digits_value_snoc)
  qed
qed

lemma show_nat_inj: "show_nat m = show_nat n \<longleftrightarrow> m = n"
  by (metis digits_value_show_nat)

lemma parse_u64_show_nat: "n < 2 ^ 64 \<Longrightarrow> parse_u64 (show_nat n) = Some n"
proof -
  assume n: "n < 2 ^ 64"
  obtain ch r where c: "show_nat n = ch # r" "is_ascii_digit ch"
    using show_nat_digits [of n] by (cases "show_nat n") auto
  then have "ch \<noteq> CHR ''+''" by (auto simp: is_ascii_digit_def)
  with c n show_nat_digits [of n] digits_value_show_nat [of n] show ?thesis
    by (simp add: parse_u64_def)
qed

text \<open>\<open>slice::join\<close>.\<close>

fun join :: "string \<Rightarrow> string list \<Rightarrow> string" where
  "join sep [] = []"
| "join sep [x] = x"
| "join sep (x # y # ys) = x @ sep @ join sep (y # ys)"

section \<open>Results\<close>

text \<open>
  \<open>Result<T, E>\<close> is the sum \<open>'e + 'a\<close> with the error on the left. \<open>result_bind\<close> is the
  question-mark operator; \<open>collect_results\<close> is \<open>collect::<Result<Vec<_>, _>>()\<close>, which stops
  at the first error.
\<close>

definition result_bind :: "'e + 'a \<Rightarrow> ('a \<Rightarrow> 'e + 'b) \<Rightarrow> 'e + 'b" where
  "result_bind r f = (case r of Inl e \<Rightarrow> Inl e | Inr a \<Rightarrow> f a)"

fun collect_results :: "('e + 'a) list \<Rightarrow> 'e + 'a list" where
  "collect_results [] = Inr []"
| "collect_results (Inl e # rs) = Inl e"
| "collect_results (Inr a # rs) = result_bind (collect_results rs) (\<lambda>as. Inr (a # as))"

lemma result_bind_simps [simp]:
  "result_bind (Inl e) f = Inl e" "result_bind (Inr a) f = f a"
  by (simp_all add: result_bind_def)

lemma result_bind_Inr_iff: "result_bind r f = Inr b \<longleftrightarrow> (\<exists>a. r = Inr a \<and> f a = Inr b)"
  by (cases r) simp_all

lemma result_bind_Inr:
  assumes "result_bind r f = Inr b"
  obtains a where "r = Inr a" "f a = Inr b"
  using assms by (auto simp: result_bind_Inr_iff)

lemma result_bind_cong [fundef_cong]:
  "r = r' \<Longrightarrow> (\<And>a. r' = Inr a \<Longrightarrow> f a = g a) \<Longrightarrow> result_bind r f = result_bind r' g"
  by (cases r') simp_all

lemma collect_results_Inr:
  "collect_results rs = Inr as \<longleftrightarrow> rs = map Inr as"
proof (induction rs arbitrary: as)
  case (Cons r rs)
  then show ?case by (cases r; cases as) (auto simp: result_bind_Inr_iff)
qed auto

lemma collect_results_map:
  "(\<And>x. x \<in> set xs \<Longrightarrow> f x = Inr (g x)) \<Longrightarrow> collect_results (map f xs) = Inr (map g xs)"
  by (simp add: collect_results_Inr)

lemma collect_results_map_Inr:
  "collect_results (map f xs) = Inr ys \<longleftrightarrow> list_all2 (\<lambda>x y. f x = Inr y) xs ys"
  by (simp add: collect_results_Inr list_all2_conv_all_nth list_eq_iff_nth_eq)
     (auto simp: nth_map)

lemma collect_results_source:
  "collect_results (map f xs) = Inr ys \<Longrightarrow> y \<in> set ys \<Longrightarrow> \<exists>x \<in> set xs. f x = Inr y"
  by (auto simp: collect_results_map_Inr list_all2_conv_all_nth in_set_conv_nth)
     (metis nth_mem)

text \<open>\<open>Vec::sort\<close> followed by \<open>Vec::dedup\<close>.\<close>

definition sort_dedup :: "'a::linorder list \<Rightarrow> 'a list" where
  "sort_dedup xs = remdups_adj (sort xs)"

lemma set_sort_dedup [simp]: "set (sort_dedup xs) = set xs"
  by (simp add: sort_dedup_def)

lemma sorted_remdups_adj_distinct: "sorted xs \<Longrightarrow> distinct (remdups_adj xs)"
  by (induction xs rule: remdups_adj.induct) (auto simp: order.antisym)

lemma sorted_distinct_sort_dedup: "sorted (sort_dedup xs) \<and> distinct (sort_dedup xs)"
  by (simp add: sort_dedup_def sorted_remdups_adj sorted_remdups_adj_distinct)

lemma sort_dedup_Nil_iff [simp]: "sort_dedup xs = [] \<longleftrightarrow> xs = []"
  by (metis set_empty set_sort_dedup)

section \<open>Options\<close>

text \<open>
  The combinators of \<open>Option\<close> the sources use: \<open>unwrap_or\<close>, \<open>or\<close>, \<open>zip\<close>,
  \<open>is_some_and\<close>, \<open>filter\<close> and \<open>ok_or\<close>; and on strings \<open>strip_prefix\<close>, the split at the first
  occurrence of a pattern and the one at the last.
\<close>

definition unwrap_or :: "'a option \<Rightarrow> 'a \<Rightarrow> 'a" where
  "unwrap_or x d = (case x of Some v \<Rightarrow> v | None \<Rightarrow> d)"

definition option_or :: "'a option \<Rightarrow> 'a option \<Rightarrow> 'a option" where
  "option_or a b = (case a of Some x \<Rightarrow> Some x | None \<Rightarrow> b)"

definition option_zip :: "'a option \<Rightarrow> 'b option \<Rightarrow> ('a \<times> 'b) option" where
  "option_zip a b = (case (a, b) of (Some x, Some y) \<Rightarrow> Some (x, y) | _ \<Rightarrow> None)"

definition is_some_and :: "'a option \<Rightarrow> ('a \<Rightarrow> bool) \<Rightarrow> bool" where
  "is_some_and x P = (case x of Some v \<Rightarrow> P v | None \<Rightarrow> False)"

definition option_filter :: "('a \<Rightarrow> bool) \<Rightarrow> 'a option \<Rightarrow> 'a option" where
  "option_filter P x = (case x of Some v \<Rightarrow> if P v then Some v else None | None \<Rightarrow> None)"

definition ok_or :: "'a option \<Rightarrow> 'e \<Rightarrow> 'e + 'a" where
  "ok_or x e = (case x of Some v \<Rightarrow> Inr v | None \<Rightarrow> Inl e)"

definition strip_prefix :: "string \<Rightarrow> string \<Rightarrow> string option" where
  "strip_prefix pre s = (if prefix pre s then Some (drop (length pre) s) else None)"

fun split_once :: "string \<Rightarrow> string \<Rightarrow> (string \<times> string) option" where
  "split_once pat [] = None"
| "split_once pat (c # cs) =
     (if prefix pat (c # cs) then Some ([], drop (length pat) (c # cs))
      else map_option (\<lambda>(b, a). (c # b, a)) (split_once pat cs))"

fun rsplit_once :: "string \<Rightarrow> string \<Rightarrow> (string \<times> string) option" where
  "rsplit_once pat [] = None"
| "rsplit_once pat (c # cs) = (case rsplit_once pat cs of
       Some (b, a) \<Rightarrow> Some (c # b, a)
     | None \<Rightarrow> if prefix pat (c # cs) then Some ([], drop (length pat) (c # cs)) else None)"

definition show_int :: "int \<Rightarrow> string" where
  "show_int n = (if n < 0 then CHR ''-'' # show_nat (nat (- n)) else show_nat (nat n))"

definition str_contains :: "string \<Rightarrow> string \<Rightarrow> bool" where
  "str_contains s pat = (pat = [] \<or> split_once pat s \<noteq> None)"

text \<open>\<open>Iterator::min_by_key\<close>: the first of several minima stays.\<close>

definition min_by_key :: "('a \<Rightarrow> 'b::linorder) \<Rightarrow> 'a list \<Rightarrow> 'a option" where
  "min_by_key f xs = (case xs of [] \<Rightarrow> None
     | x # ys \<Rightarrow> Some (foldl (\<lambda>m y. if f y < f m then y else m) x ys))"

lemma min_by_key_Some:
  assumes "min_by_key f xs = Some m"
  shows "m \<in> set xs \<and> (\<forall>x \<in> set xs. f m \<le> f x)"
proof -
  have loop: "foldl (\<lambda>m y. if f y < f m then y else m) x ys \<in> insert x (set ys)
      \<and> (\<forall>z \<in> insert x (set ys). f (foldl (\<lambda>m y. if f y < f m then y else m) x ys) \<le> f z)" for x ys
  proof (induction ys arbitrary: x)
    case (Cons y ys)
    from Cons.IH [of "if f y < f x then y else x"] show ?case by (auto split: if_splits)
  qed simp
  from assms obtain x ys where "xs = x # ys" "m = foldl (\<lambda>m y. if f y < f m then y else m) x ys"
    by (auto simp: min_by_key_def split: list.splits)
  with loop [of x ys] show ?thesis by auto
qed

text \<open>\<open>str::split\<close> with a character predicate: always at least one piece.\<close>

fun split_when :: "(char \<Rightarrow> bool) \<Rightarrow> string \<Rightarrow> string list" where
  "split_when P [] = [[]]"
| "split_when P (c # cs) =
     (if P c then [] # split_when P cs
      else (case split_when P cs of [] \<Rightarrow> [[c]] | w # ws \<Rightarrow> (c # w) # ws))"

lemma find_Some_ex: "(\<exists>y. find P xs = Some y) \<longleftrightarrow> (\<exists>x \<in> set xs. P x)"
  by (metis find_None_iff not_None_eq)

lemma set_map_filter_iff: "y \<in> set (List.map_filter f xs) \<longleftrightarrow> (\<exists>x \<in> set xs. f x = Some y)"
  by (induction xs) (auto simp: List.map_filter_simps split: option.splits)

lemma map_filter_Nil_iff: "List.map_filter f xs = [] \<longleftrightarrow> (\<forall>x \<in> set xs. f x = None)"
  by (induction xs) (auto simp: List.map_filter_simps split: option.splits)

section \<open>Bounded \<open>u64\<close> counters\<close>

text \<open>\<open>checked_add(1)\<close> and \<open>saturating_add(1)\<close> on 64-bit counters.\<close>

definition u64_max :: u64 where
  "u64_max = 2 ^ 64 - 1"

definition u64_checked_succ :: "u64 \<Rightarrow> u64 option" where
  "u64_checked_succ n = (if n < u64_max then Some (n + 1) else None)"

definition u64_saturating_succ :: "u64 \<Rightarrow> u64" where
  "u64_saturating_succ n = (if n < u64_max then n + 1 else u64_max)"

section \<open>UTF-8 text\<close>

text \<open>\<open>str::lines\<close>: the pieces between newlines, a carriage return before the newline dropped.\<close>

definition str_lines :: "string \<Rightarrow> string list" where
  "str_lines s =
     (let ps = split_when (\<lambda>c. c = CHR 0x0A) s;
          chomp = (\<lambda>p. if p \<noteq> [] \<and> last p = CHR 0x0D then butlast p else p)
      in map chomp (butlast ps) @ (if last ps = [] then [] else [last ps]))"

text \<open>A UTF-8 continuation byte; \<open>str::get(..n)\<close>; \<open>chars().take(n)\<close>.\<close>

definition is_continuation :: "char \<Rightarrow> bool" where
  "is_continuation c = (let n = (of_char c :: nat) in 128 \<le> n \<and> n \<le> 191)"

definition str_get_prefix :: "nat \<Rightarrow> string \<Rightarrow> string option" where
  "str_get_prefix n s =
     (if n = length s \<or> n < length s \<and> \<not> is_continuation (s ! n) then Some (take n s) else None)"

fun take_chars :: "nat \<Rightarrow> string \<Rightarrow> string" where
  "take_chars n [] = []"
| "take_chars n (c # cs) =
     (if is_continuation c then c # take_chars n cs
      else case n of 0 \<Rightarrow> [] | Suc m \<Rightarrow> c # take_chars m cs)"

fun find_map :: "('a \<Rightarrow> 'b option) \<Rightarrow> 'a list \<Rightarrow> 'b option" where
  "find_map f [] = None"
| "find_map f (x # xs) = (case f x of Some y \<Rightarrow> Some y | None \<Rightarrow> find_map f xs)"

definition map_err :: "('e \<Rightarrow> 'f) \<Rightarrow> 'e + 'a \<Rightarrow> 'f + 'a" where
  "map_err f r = (case r of Inl e \<Rightarrow> Inl (f e) | Inr a \<Rightarrow> Inr a)"

section \<open>Positions in a list\<close>

text \<open>
  \<open>slice::get\<close>, \<open>collect::<Option<Vec<_>>>()\<close>, \<open>Iterator::position\<close>, a counting loop at 32
  bits, and the last index at which a predicate holds.
\<close>

definition list_get :: "'a list \<Rightarrow> nat \<Rightarrow> 'a option" where
  "list_get xs i = (if i < length xs then Some (xs ! i) else None)"

definition option_list :: "'a option list \<Rightarrow> 'a list option" where
  "option_list xs = (if None \<in> set xs then None else Some (map the xs))"

definition find_index :: "('a \<Rightarrow> bool) \<Rightarrow> 'a list \<Rightarrow> nat option" where
  "find_index P xs = map_option fst (find (\<lambda>(_, x). P x) (enumerate 0 xs))"

lemma find_index_Some:
  "find_index P xs = Some i \<Longrightarrow> i < length xs \<and> P (xs ! i)"
  by (auto simp: find_index_def in_set_enumerate_eq dest!: find_SomeD)

lemma count_fold:
  "foldl (\<lambda>count e. if P e then count + 1 else count) (c :: u32) xs = c + of_nat (length (filter P xs))"
  by (induction xs arbitrary: c) (auto simp: algebra_simps)

text \<open>The greatest index below the end at which a predicate holds.\<close>

definition last_index :: "('a \<Rightarrow> bool) \<Rightarrow> 'a list \<Rightarrow> nat option" where
  "last_index P xs = (if list_ex P xs then Some (last (filter (\<lambda>i. P (xs ! i)) [0..<length xs])) else None)"

lemma last_index_snoc: "last_index P (xs @ [x]) = (if P x then Some (length xs) else last_index P xs)"
proof -
  have "filter (\<lambda>i. P ((xs @ [x]) ! i)) [0..<length xs] = filter (\<lambda>i. P (xs ! i)) [0..<length xs]"
    by (rule filter_cong) (simp_all add: nth_append)
  then show ?thesis by (simp add: last_index_def)
qed

lemma last_index_Nil [simp]: "last_index P [] = None"
  by (simp add: last_index_def)

lemma last_index_Some_iff:
  "last_index P xs = Some i \<longleftrightarrow> i < length xs \<and> P (xs ! i) \<and> (\<forall>k. i < k \<longrightarrow> k < length xs \<longrightarrow> \<not> P (xs ! k))"
proof (induction xs rule: rev_induct)
  case (snoc x xs)
  show ?case
  proof (cases "i = length xs")
    case False
    then show ?thesis
      by (auto simp: last_index_snoc snoc.IH nth_append less_Suc_eq)
  next
    case True
    then have "last_index P xs \<noteq> Some (length xs)" using snoc.IH by simp
    with True show ?thesis by (auto simp: last_index_snoc)
  qed
qed simp

lemma last_index_None_iff: "last_index P xs = None \<longleftrightarrow> (\<forall>x \<in> set xs. \<not> P x)"
  by (auto simp: last_index_def list_ex_iff)

lemma all_after_snoc:
  "(\<forall>k. r < k \<longrightarrow> k < length (ms @ [x]) \<longrightarrow> P ((ms @ [x]) ! k)) \<longleftrightarrow>
     (\<forall>k. r < k \<longrightarrow> k < length ms \<longrightarrow> P (ms ! k)) \<and> (r < length ms \<longrightarrow> P x)"
proof (intro iffI conjI allI impI)
  fix k assume all: "\<forall>k. r < k \<longrightarrow> k < length (ms @ [x]) \<longrightarrow> P ((ms @ [x]) ! k)" and k: "r < k" "k < length ms"
  from all [rule_format, of k] k show "P (ms ! k)" by (simp add: nth_append)
next
  assume all: "\<forall>k. r < k \<longrightarrow> k < length (ms @ [x]) \<longrightarrow> P ((ms @ [x]) ! k)" and "r < length ms"
  with all [rule_format, of "length ms"] show "P x" by simp
next
  fix k assume "(\<forall>k. r < k \<longrightarrow> k < length ms \<longrightarrow> P (ms ! k)) \<and> (r < length ms \<longrightarrow> P x)"
    and "r < k" "k < length (ms @ [x])"
  then show "P ((ms @ [x]) ! k)" by (cases "k < length ms") (simp_all add: nth_append)
qed

lemma map_option_last_index_snoc:
  "map_option (\<lambda>i. f i ((xs @ [x]) ! i)) (last_index P (xs @ [x])) =
     (if P x then Some (f (length xs) x) else map_option (\<lambda>i. f i (xs ! i)) (last_index P xs))"
proof (cases "last_index P xs")
  case (Some i)
  then have "i < length xs" by (simp add: last_index_Some_iff)
  with Some show ?thesis by (simp add: last_index_snoc nth_append)
qed (simp add: last_index_snoc)

end
