(* ===== verification/Job.thy ===== *)
theory Job
  imports Shipyard_Prelude
begin

text \<open>
  The job and target-result domain of \<open>src/src/job.rs\<close>: the lifecycle enumerations, the
  records \<open>TargetResult\<close> and \<open>Job\<close> with every field of the source, and the transitions
  \<open>start\<close>, \<open>complete\<close>, \<open>cancel\<close>, \<open>request_cancel\<close> and \<open>defer_for_scheduler\<close> as functions
  into \<open>job_transition_error + job\<close>. \<open>Utc::now()\<close> is an argument. The lemmas describe each
  transition on each branch; the lifecycle as a whole is a step relation whose terminal
  states are absorbing.
\<close>

section \<open>Data\<close>

datatype priority = PriorityLow | PriorityNormal | PriorityHigh

fun priority_value :: "priority \<Rightarrow> int" where
  "priority_value PriorityLow = 10"
| "priority_value PriorityNormal = 50"
| "priority_value PriorityHigh = 100"

text \<open>\<open>Priority\<close> derives \<open>Ord\<close>, which orders by the position of the constructor.\<close>

fun priority_position :: "priority \<Rightarrow> nat" where
  "priority_position PriorityLow = 0"
| "priority_position PriorityNormal = 1"
| "priority_position PriorityHigh = 2"

instantiation priority :: linorder
begin

definition less_eq_priority :: "priority \<Rightarrow> priority \<Rightarrow> bool" where
  "a \<le> b \<longleftrightarrow> priority_position a \<le> priority_position b"

definition less_priority :: "priority \<Rightarrow> priority \<Rightarrow> bool" where
  "a < b \<longleftrightarrow> priority_position a < priority_position b"

instance
proof
  fix a b :: priority
  show "a \<le> b \<Longrightarrow> b \<le> a \<Longrightarrow> a = b"
    by (cases a; cases b) (simp_all add: less_eq_priority_def)
qed (auto simp: less_eq_priority_def less_priority_def)

end

datatype validation_mode = FullMode | SmokeMode

datatype job_kind = RunKind | ShipKind

datatype job_status = JobPending | JobRunning | JobCompleted | JobCancelled

datatype cancellation_cause = AlreadyMerged

record cancellation_proof =
  proof_cause :: cancellation_cause
  proof_repository :: string
  proof_pull_request :: u64
  proof_head_sha :: string

datatype target_status =
    TargetPending | TargetRunning | TargetPass | TargetFail | TargetError
  | TargetUnreachable | TargetCancelled

fun target_status_is_terminal :: "target_status \<Rightarrow> bool" where
  "target_status_is_terminal TargetPending = False"
| "target_status_is_terminal TargetRunning = False"
| "target_status_is_terminal _ = True"

record route_attempt =
  ra_route_id :: string
  ra_position :: nat
  ra_outcome :: target_status
  ra_attempted_at :: time

record target_result =
  tr_target_name :: "string"
  tr_platform :: "string"
  tr_status :: "target_status"
  tr_backend :: "string"
  tr_host_pool_member_id :: "string option"
  tr_source_head_sha :: "string option"
  tr_source_tree_sha :: "string option"
  tr_source_checkout_clean :: "bool option"
  tr_full_execution :: "bool option"
  tr_duration_secs :: "f64 option"
  tr_started_at :: "time option"
  tr_completed_at :: "time option"
  tr_log_path :: "string option"
  tr_phase :: "string option"
  tr_last_output_at :: "time option"
  tr_last_heartbeat_at :: "time option"
  tr_quiet_for_secs :: "f64 option"
  tr_liveness :: "string option"
  tr_primary_backend :: "string option"
  tr_failover_reason :: "string option"
  tr_provider :: "string option"
  tr_runner_profile :: "string option"
  tr_error_message :: "string option"
  tr_contract_markers_seen :: "string list"
  tr_contract_markers_missing :: "string list"
  tr_contract_violation :: "string option"
  tr_failure_class :: "string option"
  tr_reused_from :: "string option"
  tr_cloud_run_id :: "u64 option"
  tr_cloud_job_id :: "u64 option"
  tr_cloud_job_name :: "string option"
  tr_cloud_job_url :: "string option"
  tr_cloud_failed_step :: "string option"
  tr_failure_parser :: "string option"
  tr_scheduler_defer_reason :: "string option"
  tr_route_attempts :: "route_attempt list option"

definition target_result_new :: "string \<Rightarrow> string \<Rightarrow> target_status \<Rightarrow> string \<Rightarrow> target_result" where
  "target_result_new t p s b = \<lparr>
     tr_target_name = t,
     tr_platform = p,
     tr_status = s,
     tr_backend = b,
     tr_host_pool_member_id = None,
     tr_source_head_sha = None,
     tr_source_tree_sha = None,
     tr_source_checkout_clean = None,
     tr_full_execution = None,
     tr_duration_secs = None,
     tr_started_at = None,
     tr_completed_at = None,
     tr_log_path = None,
     tr_phase = None,
     tr_last_output_at = None,
     tr_last_heartbeat_at = None,
     tr_quiet_for_secs = None,
     tr_liveness = None,
     tr_primary_backend = None,
     tr_failover_reason = None,
     tr_provider = None,
     tr_runner_profile = None,
     tr_error_message = None,
     tr_contract_markers_seen = [],
     tr_contract_markers_missing = [],
     tr_contract_violation = None,
     tr_failure_class = None,
     tr_reused_from = None,
     tr_cloud_run_id = None,
     tr_cloud_job_id = None,
     tr_cloud_job_name = None,
     tr_cloud_job_url = None,
     tr_cloud_failed_step = None,
     tr_failure_parser = None,
     tr_scheduler_defer_reason = None,
     tr_route_attempts = None\<rparr>"

definition target_result_passed :: "target_result \<Rightarrow> bool" where
  "target_result_passed r = (tr_status r = TargetPass)"

definition target_result_is_terminal :: "target_result \<Rightarrow> bool" where
  "target_result_is_terminal r = target_status_is_terminal (tr_status r)"

definition is_scheduler_deferred :: "target_result \<Rightarrow> bool" where
  "is_scheduler_deferred r = (tr_scheduler_defer_reason r \<noteq> None)"

text \<open>\<open>results\<close> is a \<open>BTreeMap\<close> from target names, kept as in the prelude.\<close>

record job =
  job_id :: string
  job_sha :: string
  job_branch :: string
  job_mode :: validation_mode
  job_kind :: "job_kind option"
  workload_scope :: "string option"
  target_names :: "string list"
  job_priority :: priority
  job_status :: job_status
  job_created_at :: time
  job_started_at :: "time option"
  job_completed_at :: "time option"
  cancellation_reason :: "string option"
  cancellation_proof :: "cancellation_proof option"
  cancel_requested_at :: "time option"
  scheduler_defer_reason :: "string option"
  scheduler_defer_count :: u32
  scheduler_defer_until :: "time option"
  resource_claims :: "string list"
  job_results :: "(string \<times> target_result) list"

datatype job_transition_error =
    InvalidStart job_status
  | InvalidComplete job_status
  | InvalidCancel job_status
  | ConflictingCancellationProof
  | InvalidDefer job_status

section \<open>Operations\<close>

fun job_status_debug :: "job_status \<Rightarrow> string" where
  "job_status_debug JobPending = ''Pending''"
| "job_status_debug JobRunning = ''Running''"
| "job_status_debug JobCompleted = ''Completed''"
| "job_status_debug JobCancelled = ''Cancelled''"

fun transition_error_string :: "job_transition_error \<Rightarrow> string" where
  "transition_error_string (InvalidStart s) = ''cannot start job in state '' @ job_status_debug s"
| "transition_error_string (InvalidComplete s) =
     ''cannot complete job in state '' @ job_status_debug s"
| "transition_error_string (InvalidCancel s) =
     ''cannot cancel job in state '' @ job_status_debug s"
| "transition_error_string ConflictingCancellationProof =
     ''cancellation proof contradicts existing authority''"
| "transition_error_string (InvalidDefer s) = ''cannot defer job in state '' @ job_status_debug s"

text \<open>
  The job id hashes a NUL-framed message; SHA-256 (truncated to three bytes, in hex) and the
  two \<open>chrono\<close> formats are parameters.
\<close>

definition id_message :: "(time \<Rightarrow> string) \<Rightarrow> time \<Rightarrow> string \<Rightarrow> string \<Rightarrow> string list \<Rightarrow> string" where
  "id_message rfc3339 created sha branch targets =
     rfc3339 created @ [CHR 0x00] @ sha @ [CHR 0x00] @ branch @ [CHR 0x00]
     @ concat (map (\<lambda>t. t @ [CHR 0x00]) targets)"

definition generate_id ::
  "(string \<Rightarrow> string) \<Rightarrow> (time \<Rightarrow> string) \<Rightarrow> (time \<Rightarrow> string) \<Rightarrow>
     time \<Rightarrow> string \<Rightarrow> string \<Rightarrow> string list \<Rightarrow> string" where
  "generate_id digest3 yyyymmdd rfc3339 created sha branch targets =
     ''sy-'' @ yyyymmdd created @ ''-'' @ digest3 (id_message rfc3339 created sha branch targets)"

definition job_create ::
  "(time \<Rightarrow> string \<Rightarrow> string \<Rightarrow> string list \<Rightarrow> string) \<Rightarrow> time \<Rightarrow>
     string \<Rightarrow> string \<Rightarrow> string list \<Rightarrow> validation_mode \<Rightarrow> priority \<Rightarrow> job" where
  "job_create gen now sha branch targets mode prio = \<lparr>
     job_id = gen now sha branch targets,
     job_sha = sha,
     job_branch = branch,
     job_mode = mode,
     job_kind = None,
     workload_scope = None,
     target_names = targets,
     job_priority = prio,
     job_status = JobPending,
     job_created_at = now,
     job_started_at = None,
     job_completed_at = None,
     cancellation_reason = None,
     cancellation_proof = None,
     cancel_requested_at = None,
     scheduler_defer_reason = None,
     scheduler_defer_count = 0,
     scheduler_defer_until = None,
     resource_claims = [],
     job_results = []\<rparr>"

definition job_start :: "time \<Rightarrow> job \<Rightarrow> job_transition_error + job" where
  [job_defs]: "job_start now j =
     (if job_status j \<noteq> JobPending then Inl (InvalidStart (job_status j))
      else Inr (j\<lparr>job_status := JobRunning,
                  job_started_at := Some now,
                  scheduler_defer_reason := None,
                  scheduler_defer_until := None\<rparr>))"

definition job_complete :: "time \<Rightarrow> job \<Rightarrow> job_transition_error + job" where
  [job_defs]: "job_complete now j =
     (if job_status j \<noteq> JobRunning then Inl (InvalidComplete (job_status j))
      else Inr (j\<lparr>job_status := JobCompleted, job_completed_at := Some now\<rparr>))"

definition cancel_with_reason_and_proof ::
  "time \<Rightarrow> string option \<Rightarrow> cancellation_proof option \<Rightarrow> job \<Rightarrow> job_transition_error + job" where
  [job_defs]: "cancel_with_reason_and_proof now reason prf j =
     (if job_status j = JobCompleted \<or> job_status j = JobCancelled
      then Inl (InvalidCancel (job_status j))
      else Inr (j\<lparr>job_status := JobCancelled,
                  job_completed_at := Some now,
                  cancellation_reason := reason,
                  cancellation_proof := prf,
                  cancel_requested_at := option_or (cancel_requested_at j) (Some now)\<rparr>))"

definition cancel_with_reason :: "time \<Rightarrow> string option \<Rightarrow> job \<Rightarrow> job_transition_error + job" where
  [job_defs]: "cancel_with_reason now reason j = cancel_with_reason_and_proof now reason None j"

definition job_cancel :: "time \<Rightarrow> job \<Rightarrow> job_transition_error + job" where
  [job_defs]: "job_cancel now j = cancel_with_reason now None j"

definition request_cancel_with_reason_and_proof ::
  "time \<Rightarrow> string option \<Rightarrow> cancellation_proof option \<Rightarrow> job \<Rightarrow> job_transition_error + job" where
  [job_defs]: "request_cancel_with_reason_and_proof now reason prf j =
     (if job_status j = JobPending then cancel_with_reason_and_proof now reason prf j
      else if job_status j \<noteq> JobRunning then Inl (InvalidCancel (job_status j))
      else if (case (cancellation_proof j, prf) of
                 (Some existing, Some replacement) \<Rightarrow> existing \<noteq> replacement
               | _ \<Rightarrow> False)
      then Inl ConflictingCancellationProof
      else
        let proof_upgrade = (cancellation_proof j = None \<and> prf \<noteq> None)
        in Inr (j\<lparr>cancellation_reason :=
                    (if proof_upgrade then option_or reason (cancellation_reason j)
                     else option_or (cancellation_reason j) reason),
                  cancellation_proof := option_or prf (cancellation_proof j),
                  cancel_requested_at := option_or (cancel_requested_at j) (Some now)\<rparr>))"

definition request_cancel_with_reason ::
  "time \<Rightarrow> string option \<Rightarrow> job \<Rightarrow> job_transition_error + job" where
  [job_defs]: "request_cancel_with_reason now reason j =
     request_cancel_with_reason_and_proof now reason None j"

definition with_kind :: "job_kind \<Rightarrow> job \<Rightarrow> job" where
  "with_kind k j = j\<lparr>job_kind := Some k\<rparr>"

definition with_workload_scope :: "string \<Rightarrow> job \<Rightarrow> job" where
  "with_workload_scope s j = j\<lparr>workload_scope := Some s\<rparr>"

definition with_resource_claims :: "string list \<Rightarrow> job \<Rightarrow> job" where
  "with_resource_claims cs j = j\<lparr>resource_claims := cs\<rparr>"

definition with_priority :: "priority \<Rightarrow> job \<Rightarrow> job" where
  "with_priority p j = j\<lparr>job_priority := p\<rparr>"

definition with_result :: "target_result \<Rightarrow> job \<Rightarrow> job" where
  "with_result r j = j\<lparr>job_results := bt_insert (tr_target_name r) r (job_results j)\<rparr>"

definition defer_for_scheduler :: "string \<Rightarrow> time option \<Rightarrow> job \<Rightarrow> job_transition_error + job" where
  [job_defs]: "defer_for_scheduler reason defer_until j =
     (if job_status j \<noteq> JobRunning then Inl (InvalidDefer (job_status j))
      else Inr (j\<lparr>job_status := JobPending,
                  job_started_at := None,
                  job_completed_at := None,
                  scheduler_defer_reason := Some reason,
                  scheduler_defer_count := u32_saturating_add (scheduler_defer_count j) 1,
                  scheduler_defer_until := defer_until,
                  job_results := filter (\<lambda>e. target_result_is_terminal (snd e)) (job_results j)\<rparr>))"

definition job_passed :: "job \<Rightarrow> bool" where
  "job_passed j =
     (job_status j = JobCompleted
      \<and> length (job_results j) = length (target_names j)
      \<and> list_all (\<lambda>e. target_result_passed (snd e)) (job_results j))"

definition all_targets_terminal :: "job \<Rightarrow> bool" where
  "all_targets_terminal j =
     (length (job_results j) = length (target_names j)
      \<and> list_all (\<lambda>e. target_result_is_terminal (snd e)) (job_results j))"

definition liveness_signals :: "job \<Rightarrow> time list" where
  "liveness_signals j =
     List.map_filter (\<lambda>e. tr_last_heartbeat_at (snd e)) (job_results j)
     @ (case job_started_at j of Some t \<Rightarrow> [t] | None \<Rightarrow> [])"

definition last_liveness_at :: "job \<Rightarrow> time option" where
  "last_liveness_at j = max_by cmp (liveness_signals j)"

definition is_stale_running :: "time \<Rightarrow> duration \<Rightarrow> job \<Rightarrow> bool" where
  "is_stale_running now stale_after j =
     (if job_status j \<noteq> JobRunning \<or> stale_after \<le> 0 then False
      else case last_liveness_at j of
        Some anchor \<Rightarrow> now - anchor \<ge> stale_after
      | None \<Rightarrow> False)"

fun status_str :: "job_status \<Rightarrow> string" where
  "status_str JobPending = ''pending''"
| "status_str JobRunning = ''running''"
| "status_str JobCompleted = ''completed''"
| "status_str JobCancelled = ''cancelled''"

text \<open>The \<open>overall\<close> member that \<open>to_json_value\<close> adds to the serialized fields.\<close>

definition job_overall :: "job \<Rightarrow> string" where
  "job_overall j =
     (if job_passed j then ''pass''
      else if job_status j = JobCompleted then ''fail''
      else status_str (job_status j))"

definition default_running_job_stale_seconds :: int where
  "default_running_job_stale_seconds = 180"

section \<open>The transitions\<close>

definition job_terminal :: "job \<Rightarrow> bool" where
  "job_terminal j = (job_status j = JobCompleted \<or> job_status j = JobCancelled)"

text \<open>Well-formed results: the \<open>BTreeMap\<close> is ordered and each entry is filed under its own name.\<close>

definition results_wf :: "job \<Rightarrow> bool" where
  "results_wf j =
     (bt_wf (job_results j) \<and> list_all (\<lambda>e. tr_target_name (snd e) = fst e) (job_results j))"

lemma priority_value_mono: "priority_value a \<le> priority_value b \<longleftrightarrow> a \<le> b"
  by (cases a; cases b) (simp_all add: less_eq_priority_def)

lemma priority_value_cmp: "cmp (priority_value a) (priority_value b) = cmp a b"
  by (metis cmp_def order.antisym nle_le priority_value_mono order_less_le)

lemma option_or_simps [simp]:
  "option_or None b = b" "option_or (Some x) b = Some x" "option_or a None = a"
  by (auto simp: option_or_def split: option.split)

lemma option_or_Some_neq_None [simp]: "option_or a (Some x) \<noteq> None"
  by (cases a) auto

text \<open>What every transition keeps: the identity and submission fields of the job.\<close>

definition same_submission :: "job \<Rightarrow> job \<Rightarrow> bool" where
  "same_submission a b =
     (job_id a = job_id b \<and> job_sha a = job_sha b \<and> job_branch a = job_branch b
      \<and> job_mode a = job_mode b \<and> job_kind a = job_kind b
      \<and> workload_scope a = workload_scope b \<and> target_names a = target_names b
      \<and> job_priority a = job_priority b \<and> job_created_at a = job_created_at b
      \<and> resource_claims a = resource_claims b)"

inductive job_step :: "job \<Rightarrow> job \<Rightarrow> bool" where
  start: "job_start now j = Inr j' \<Longrightarrow> job_step j j'"
| complete: "job_complete now j = Inr j' \<Longrightarrow> job_step j j'"
| cancel: "cancel_with_reason_and_proof now reason prf j = Inr j' \<Longrightarrow> job_step j j'"
| request: "request_cancel_with_reason_and_proof now reason prf j = Inr j' \<Longrightarrow> job_step j j'"
| defer_step: "defer_for_scheduler reason until j = Inr j' \<Longrightarrow> job_step j j'"

inductive_cases job_stepE: "job_step j j'"

lemma job_start_Inr:
  "job_start now j = Inr j' \<longleftrightarrow>
     job_status j = JobPending
     \<and> j' = j\<lparr>job_status := JobRunning, job_started_at := Some now,
              scheduler_defer_reason := None, scheduler_defer_until := None\<rparr>"
  by (auto simp: job_defs)

lemma cancel_Inr:
  "cancel_with_reason_and_proof now reason prf j = Inr j' \<longleftrightarrow>
     \<not> job_terminal j
     \<and> j' = j\<lparr>job_status := JobCancelled, job_completed_at := Some now,
              cancellation_reason := reason, cancellation_proof := prf,
              cancel_requested_at := option_or (cancel_requested_at j) (Some now)\<rparr>"
  by (auto simp: job_defs job_terminal_def)

lemma request_cancel_running:
  assumes "request_cancel_with_reason_and_proof now reason prf j = Inr j'"
    and "job_status j = JobRunning"
  shows "job_status j' = JobRunning"
    and "cancel_requested_at j' = option_or (cancel_requested_at j) (Some now)"
    and "cancellation_proof j' = option_or (cancellation_proof j) prf"
    and "\<And>p q. cancellation_proof j = Some p \<Longrightarrow> prf = Some q \<Longrightarrow> p = q"
  using assms by (auto simp: job_defs Let_def split: option.splits if_splits)

lemma request_cancel_pending:
  "job_status j = JobPending \<Longrightarrow>
     request_cancel_with_reason_and_proof now reason prf j =
       cancel_with_reason_and_proof now reason prf j"
  by (simp add: request_cancel_with_reason_and_proof_def)

lemma same_submission_refl [simp]: "same_submission j j"
  by (simp add: same_submission_def)

lemma same_submission_trans:
  "same_submission a b \<Longrightarrow> same_submission b c \<Longrightarrow> same_submission a c"
  by (simp add: same_submission_def)

lemma transition_submission:
  "job_start now j = Inr j' \<Longrightarrow> same_submission j j'"
  "job_complete now j = Inr j' \<Longrightarrow> same_submission j j'"
  "cancel_with_reason_and_proof now reason prf j = Inr j' \<Longrightarrow> same_submission j j'"
  "defer_for_scheduler why defer_until j = Inr j' \<Longrightarrow> same_submission j j'"
  by (clarsimp simp: job_defs same_submission_def split: if_splits)+

lemma request_cancel_submission:
  assumes "request_cancel_with_reason_and_proof now reason prf j = Inr j'"
  shows "same_submission j j'"
proof (cases "job_status j = JobPending")
  case True
  with assms show ?thesis by (simp add: request_cancel_pending transition_submission(3))
next
  case False
  with assms show ?thesis
    by (clarsimp simp: request_cancel_with_reason_and_proof_def Let_def same_submission_def
        split: if_splits)
qed

lemma job_step_submission: "job_step j j' \<Longrightarrow> same_submission j j'"
  by (erule job_stepE) (simp_all add: transition_submission request_cancel_submission)

lemma job_step_from_nonterminal: "job_step j j' \<Longrightarrow> \<not> job_terminal j"
  by (erule job_stepE) (auto simp: job_defs job_terminal_def split: if_splits)

text \<open>The edges of the lifecycle graph.\<close>

definition lifecycle_edges :: "(job_status \<times> job_status) set" where
  "lifecycle_edges =
     {(JobPending, JobRunning), (JobRunning, JobCompleted), (JobPending, JobCancelled),
      (JobRunning, JobCancelled), (JobRunning, JobRunning), (JobRunning, JobPending)}"

lemma request_cancel_edge:
  assumes "request_cancel_with_reason_and_proof now reason prf j = Inr j'"
  shows "(job_status j, job_status j') \<in> lifecycle_edges"
proof (cases "job_status j")
  case JobPending
  with assms show ?thesis
    by (auto simp: request_cancel_pending cancel_Inr lifecycle_edges_def)
next
  case JobRunning
  with request_cancel_running(1) [OF assms] show ?thesis by (simp add: lifecycle_edges_def)
qed (use assms in \<open>auto simp: job_defs\<close>)

lemma job_step_edges: "job_step j j' \<Longrightarrow> (job_status j, job_status j') \<in> lifecycle_edges"
  by (cases "job_status j"; erule job_stepE)
     (auto simp: request_cancel_edge lifecycle_edges_def job_start_Inr job_complete_def cancel_Inr
        defer_for_scheduler_def job_terminal_def dest: request_cancel_edge split: if_splits)

inductive job_reach :: "job \<Rightarrow> job \<Rightarrow> bool" for j0 where
  here: "job_reach j0 j0"
| step: "job_reach j0 j \<Longrightarrow> job_step j j' \<Longrightarrow> job_reach j0 j'"

lemma job_reach_submission: "job_reach j0 j \<Longrightarrow> same_submission j0 j"
  by (induction rule: job_reach.induct)
     (auto dest: job_step_submission intro: same_submission_trans)

lemma job_reach_terminal: "job_reach j0 j \<Longrightarrow> job_terminal j0 \<Longrightarrow> j = j0"
  by (induction rule: job_reach.induct) (auto dest: job_step_from_nonterminal)

section \<open>Liveness and results\<close>

lemma last_liveness_None: "last_liveness_at j = None \<longleftrightarrow> liveness_signals j = []"
  by (simp add: last_liveness_at_def)

lemma last_liveness_Some:
  "last_liveness_at j = Some t \<Longrightarrow> t \<in> set (liveness_signals j)"
  "last_liveness_at j = Some t \<Longrightarrow> u \<in> set (liveness_signals j) \<Longrightarrow> u \<le> t"
  using cmp_order.max_by_upper [of "liveness_signals j" t u]
  by (auto simp: last_liveness_at_def dest: max_by_in)

lemma results_wf_with_result: "results_wf j \<Longrightarrow> results_wf (with_result r j)"
proof -
  assume wf: "results_wf j"
  have "e \<in> set (bt_insert k v m) \<Longrightarrow> e = (k, v) \<or> e \<in> set m"
    for e and k :: string and v :: target_result and m
    by (induction m) (auto split: if_splits)
  with wf show ?thesis
    by (fastforce simp: results_wf_def with_result_def list_all_iff bt_wf_insert)
qed

lemma results_wf_defer:
  "results_wf j \<Longrightarrow> defer_for_scheduler reason until j = Inr j' \<Longrightarrow> results_wf j'"
  by (auto simp: job_defs results_wf_def list_all_iff bt_wf_filter split: if_splits)

text \<open>A concrete job for evaluation.\<close>

definition sample_job :: "string \<Rightarrow> job_status \<Rightarrow> job" where
  "sample_job i s =
     (job_create (\<lambda>_ _ _ _. i) 0 ''0a1b'' ''main'' [''mac''] FullMode PriorityNormal)
       \<lparr>job_status := s\<rparr>"

section \<open>Properties of the job lifecycle\<close>

text \<open>
  (C31) Along any sequence of the job's own transitions the submission (id, commit, branch,
  mode, targets, priority, creation time, claims) never changes, a completed or cancelled job
  admits no further transition, and every single transition is an edge of the documented
  lifecycle graph.
\<close>

theorem job_lifecycle:
  assumes "job_reach j0 j"
  shows "same_submission j0 j \<and> (job_terminal j0 \<longrightarrow> j = j0)
     \<and> (job_step j j' \<longrightarrow> (job_status j, job_status j') \<in> lifecycle_edges)"
  using assms job_reach_submission job_reach_terminal job_step_edges by blast

theorem job_lifecycle_witness:
  "job_reach (sample_job ''a'' JobPending)
     (sample_job ''a'' JobPending
        \<lparr>job_status := JobRunning, job_started_at := Some 5,
         scheduler_defer_reason := None, scheduler_defer_until := None\<rparr>)
   \<and> same_submission (sample_job ''a'' JobPending)
     (sample_job ''a'' JobPending
        \<lparr>job_status := JobRunning, job_started_at := Some 5,
         scheduler_defer_reason := None, scheduler_defer_until := None\<rparr>)"
proof -
  have step: "job_reach (sample_job ''a'' JobPending)
     (sample_job ''a'' JobPending
        \<lparr>job_status := JobRunning, job_started_at := Some 5,
         scheduler_defer_reason := None, scheduler_defer_until := None\<rparr>)"
    by (rule job_reach.step [OF job_reach.here], rule job_step.start [of 5])
       (simp add: job_start_Inr sample_job_def)
  then show ?thesis using job_lifecycle [OF step] by blast
qed

text \<open>
  Requesting cancellation of a running job: the only refusal is a proof that contradicts
  the recorded one; otherwise the job keeps running, keeps the time of its first request, and a
  proof once recorded stays, with its reason, whatever a later request brings.
\<close>

theorem request_cancel_authority:
  assumes "job_status j = JobRunning"
  shows "case request_cancel_with_reason_and_proof now reason prf j of
       Inl e \<Rightarrow> e = ConflictingCancellationProof
         \<and> (\<exists>p q. cancellation_proof j = Some p \<and> prf = Some q \<and> p \<noteq> q)
     | Inr j' \<Rightarrow> job_status j' = JobRunning
         \<and> cancel_requested_at j' = option_or (cancel_requested_at j) (Some now)
         \<and> cancellation_proof j' = option_or (cancellation_proof j) prf
         \<and> (cancellation_proof j \<noteq> None \<longrightarrow>
              cancellation_reason j' = option_or (cancellation_reason j) reason)"
  using assms
  by (cases "cancellation_proof j"; cases "prf")
     (simp_all add: request_cancel_with_reason_and_proof_def Let_def)

theorem request_cancel_authority_witness:
  "\<exists>j'. request_cancel_with_reason_and_proof 9 (Some ''again'') None
          (sample_job ''a'' JobRunning\<lparr>cancel_requested_at := Some 4\<rparr>) = Inr j'
        \<and> cancel_requested_at j' = Some 4"
  using request_cancel_authority
          [of "sample_job ''a'' JobRunning\<lparr>cancel_requested_at := Some 4\<rparr>" None 9 "Some ''again''"]
  by (simp add: sample_job_def job_create_def split: sum.splits)

text \<open>
  A job is stale exactly when it is running, the threshold is positive, it has a liveness
  signal (its start or a target heartbeat) and every one of its signals is at least the
  threshold old; one fresh heartbeat is enough to keep it.
\<close>

theorem stale_running_iff:
  "is_stale_running now stale_after j \<longleftrightarrow>
     job_status j = JobRunning \<and> 0 < stale_after \<and> liveness_signals j \<noteq> []
     \<and> list_all (\<lambda>t. t + stale_after \<le> now) (liveness_signals j)"
proof (cases "last_liveness_at j")
  case None
  moreover from this have "liveness_signals j = []" by (simp only: last_liveness_None)
  ultimately show ?thesis by (simp add: is_stale_running_def)
next
  case (Some t)
  have "t + stale_after \<le> now \<longleftrightarrow> list_all (\<lambda>u. u + stale_after \<le> now) (liveness_signals j)"
    using last_liveness_Some [OF Some] by (fastforce simp: list_all_iff)
  with Some last_liveness_None [of j] show ?thesis
    by (auto simp: is_stale_running_def)
qed

text \<open>
  For a job whose results are filed under distinct, requested target names, \<open>passed\<close> means
  what its documentation says: the job completed and every requested target has a passing
  result.
\<close>

theorem job_passed_iff:
  assumes "results_wf j" and "distinct (target_names j)"
    and "fst ` set (job_results j) \<subseteq> set (target_names j)"
  shows "job_passed j \<longleftrightarrow> job_status j = JobCompleted
     \<and> (\<forall>t \<in> set (target_names j). \<exists>r. bt_get (job_results j) t = Some r \<and> tr_status r = TargetPass)"
proof -
  have wf: "bt_wf (job_results j)" using assms(1) by (simp add: results_wf_def)
  let ?R = "job_results j" and ?T = "set (target_names j)"
  have "card (fst ` set ?R) = length ?R"
    using bt_wf_distinct [OF wf] by (metis distinct_card length_map list.set_map)
  moreover have "card ?T = length (target_names j)" using assms(2) by (rule distinct_card)
  ultimately have keys: "length ?R = length (target_names j) \<longleftrightarrow> fst ` set ?R = ?T"
    using assms(3) by (metis List.finite_set card_subset_eq)
  have get: "bt_get ?R t = Some r \<longleftrightarrow> (t, r) \<in> set ?R" for t r
    by (rule bt_get_Some_iff [OF wf])
  show ?thesis
  proof (cases "fst ` set ?R = ?T")
    case True
    have "tr_status r = TargetPass"
      if all: "\<forall>t \<in> ?T. \<exists>r. bt_get ?R t = Some r \<and> tr_status r = TargetPass"
        and mem: "(t, r) \<in> set ?R" for t r
    proof -
      from True mem have "t \<in> ?T" by force
      with all obtain r' where "bt_get ?R t = Some r'" "tr_status r' = TargetPass" by blast
      moreover from mem have "bt_get ?R t = Some r" by (simp only: get)
      ultimately show ?thesis by simp
    qed
    moreover have "\<exists>r. bt_get ?R t = Some r \<and> tr_status r = TargetPass"
      if all: "\<forall>(t, r) \<in> set ?R. tr_status r = TargetPass" and mem: "t \<in> ?T" for t
    proof -
      from True mem obtain r where "(t, r) \<in> set ?R" by force
      with all get show ?thesis by blast
    qed
    ultimately have all: "(\<forall>(t, r) \<in> set ?R. tr_status r = TargetPass) \<longleftrightarrow>
        (\<forall>t \<in> ?T. \<exists>r. bt_get ?R t = Some r \<and> tr_status r = TargetPass)" by blast
    have "list_all (\<lambda>e. target_result_passed (snd e)) ?R \<longleftrightarrow>
        (\<forall>(t, r) \<in> set ?R. tr_status r = TargetPass)"
      by (simp add: list_all_iff target_result_passed_def split_beta)
    also note all
    finally have "list_all (\<lambda>e. target_result_passed (snd e)) ?R \<longleftrightarrow>
        (\<forall>t \<in> ?T. \<exists>r. bt_get ?R t = Some r \<and> tr_status r = TargetPass)" .
    with True keys show ?thesis by (simp add: job_passed_def)
  next
    case False
    with assms(3) obtain t where "t \<in> ?T" "t \<notin> fst ` set ?R" by blast
    then have "\<not> (\<exists>r. (t, r) \<in> set ?R)" by force
    with False keys \<open>t \<in> ?T\<close> show ?thesis by (auto simp: job_passed_def get)
  qed
qed

theorem job_passed_iff_witness:
  "job_passed (with_result (target_result_new ''mac'' ''macos'' TargetPass ''local'')
     (sample_job ''a'' JobCompleted))"
proof -
  let ?j = "with_result (target_result_new ''mac'' ''macos'' TargetPass ''local'')
     (sample_job ''a'' JobCompleted)"
  have "results_wf ?j" "distinct (target_names ?j)"
    "fst ` set (job_results ?j) \<subseteq> set (target_names ?j)"
    by (simp_all add: results_wf_def with_result_def sample_job_def job_create_def
        target_result_new_def bt_wf_def)
  from job_passed_iff [OF this] show ?thesis
    by (simp add: with_result_def sample_job_def job_create_def target_result_new_def bt_get_def)
qed

end
