(* ===== verification/Queue_Request.thy ===== *)
theory Queue_Request
  imports Job
begin

text \<open>
  The durable execution requests of \<open>src/src/queue_request.rs\<close>: the resolved targets a
  submitter hands over (the configuration types of \<open>src/src/executor\<close>), their serializable
  snapshots, the conversion in both directions, and the resource plan the scheduler reads.
  A stale-integration checkout (\<open>'co\<close>) and its snapshot (\<open>'cs\<close>) are opaque: capturing and
  restoring one runs Git, so both conversions are arguments here, as are
  \<open>fs::canonicalize\<close> and SHA-256.
\<close>

section \<open>Resolved targets\<close>

record contract_config =
  cc_markers :: "string list"
  cc_require_at_least_one :: bool
  cc_enforce :: bool

datatype ssh_validation = SshCommand string | SshStages "(string \<times> string) list"

datatype windows_validation = WindowsCommand string | WindowsStages "(string \<times> string) list"

record local_target_config =
  lt_name :: string
  lt_platform :: string
  lt_cwd :: "string option"
  lt_timeout_secs :: u64

record ssh_target_config =
  st_name :: string
  st_platform :: string
  st_host :: "string option"
  st_repo_path :: string
  st_ssh_options :: "string list"
  st_identity_file :: "string option"
  st_remote_bundle_path :: string
  st_local_repo_dir :: "string option"
  st_timeout_secs :: u64
  st_bundle_upload_timeout_secs :: u64
  st_bundle_apply_timeout_secs :: u64

record windows_target_config =
  wt_name :: string
  wt_platform :: string
  wt_host :: "string option"
  wt_repo_path :: string
  wt_ssh_options :: "string list"
  wt_identity_file :: "string option"
  wt_remote_bundle_path :: string
  wt_local_repo_dir :: "string option"
  wt_timeout_secs :: u64
  wt_bundle_upload_timeout_secs :: u64
  wt_bundle_apply_timeout_secs :: u64
  wt_windows_vs_detect :: bool
  wt_windows_host_mutex :: bool
  wt_windows_host_mutex_name :: string

record cloud_target_config =
  ct_name :: string
  ct_platform :: string
  ct_workflow :: string
  ct_repository :: "string option"
  ct_runner_provider :: "string option"
  ct_runner_selector :: "string option"
  ct_runner_overrides :: "(string \<times> string) list"
  ct_poll_interval_secs :: u64
  ct_dispatch_settle_secs :: u64
  ct_max_poll_secs :: u64
  ct_failure_parser :: "string option"

record 'co local_validation_config =
  lv_command :: "string option"
  lv_stages :: "(string \<times> string) list"
  lv_contract :: "contract_config option"
  lv_prepared_state_enabled :: bool
  lv_allow_tree_drift :: bool
  lv_machine_environment :: "string list"
  lv_environment :: "(string \<times> string) list"
  lv_reuse_record_repository :: "string option"
  lv_integration_cleanup :: "'co option"

datatype 'co resolved_validation =
    ValidationLocal "'co local_validation_config"
  | ValidationSsh ssh_validation "contract_config option"
  | ValidationWindows windows_validation "contract_config option"
  | ValidationCloud
  | ValidationHostPool
  | ValidationFallback

text \<open>The recursive structures are datatypes with the fields as selectors.\<close>

datatype 'co resolved_target = ResolvedTarget
    (rt_name: string) (rt_validation_build_type: "string option") (rt_platform: string)
    (rt_backend_name: string) (rt_warm_keepalive_seconds: u32) (rt_host: "string option")
    (rt_backend: "'co resolved_backend") (rt_validation: "'co resolved_validation")
    (rt_failure_parser: "string option")
and 'co resolved_backend =
    BackendLocal local_target_config
  | BackendSsh ssh_target_config
  | BackendWindows windows_target_config
  | BackendCloud cloud_target_config
  | BackendHostPool "'co resolved_host_pool_config"
  | BackendFallback "'co fallback_target_config"
and 'co resolved_host_pool_config = ResolvedHostPoolConfig
    (hp_pool_name: string) (hp_strategy: string) (hp_lease_stale_seconds: u64)
    (hp_heartbeat_interval_seconds: u64) (hp_requires: "string list")
    (hp_members: "'co resolved_host_pool_member list")
and 'co resolved_host_pool_member = ResolvedHostPoolMember
    (hm_id: string) (hm_target: "'co resolved_target") (hm_label: string)
    (hm_profile_label: string) (hm_max_concurrency: u32) (hm_capabilities: "string list")
and 'co fallback_target_config = FallbackTargetConfig
    (fb_backends: "'co fallback_backend list") (fb_requires: "string list")
    (fb_heartbeat_stale_secs: u64)
and 'co fallback_backend = FallbackBackend
    (fe_target: "'co resolved_target") (fe_label: string) (fe_profile_label: string)
    (fe_capabilities: "string list")

section \<open>Snapshots\<close>

record queued_contract =
  qc_markers :: "string list"
  qc_require_at_least_one :: bool
  qc_enforce :: bool

datatype queued_remote_validation = RemoteCommand string | RemoteStages "(string \<times> string) list"

record queued_local_target =
  qlt_name :: string
  qlt_platform :: string
  qlt_cwd :: "string option"
  qlt_timeout_secs :: u64

record queued_ssh_target =
  qst_name :: string
  qst_platform :: string
  qst_host :: "string option"
  qst_repo_path :: string
  qst_ssh_options :: "string list"
  qst_identity_file :: "string option"
  qst_remote_bundle_path :: string
  qst_local_repo_dir :: "string option"
  qst_timeout_secs :: u64
  qst_bundle_upload_timeout_secs :: u64
  qst_bundle_apply_timeout_secs :: u64

record queued_windows_target =
  qwt_ssh :: queued_ssh_target
  qwt_windows_vs_detect :: bool
  qwt_windows_host_mutex :: bool
  qwt_windows_host_mutex_name :: string

record queued_cloud_target =
  qct_name :: string
  qct_platform :: string
  qct_workflow :: string
  qct_repository :: "string option"
  qct_runner_provider :: "string option"
  qct_runner_selector :: "string option"
  qct_runner_overrides :: "(string \<times> string) list"
  qct_poll_interval_secs :: u64
  qct_dispatch_settle_secs :: u64
  qct_max_poll_secs :: u64
  qct_failure_parser :: "string option"

record 'cs queued_local_validation =
  qlv_command :: "string option"
  qlv_stages :: "(string \<times> string) list"
  qlv_contract :: "queued_contract option"
  qlv_prepared_state_enabled :: bool
  qlv_allow_tree_drift :: bool
  qlv_machine_environment :: "string list"
  qlv_environment :: "(string \<times> string) list"
  qlv_reuse_record_repository :: "string option"
  qlv_integration_cleanup :: "'cs option"

datatype 'cs queued_validation_snapshot =
    QueuedValidationLocal "'cs queued_local_validation"
  | QueuedValidationSsh queued_remote_validation "queued_contract option"
  | QueuedValidationWindows queued_remote_validation "queued_contract option"
  | QueuedValidationCloud
  | QueuedValidationHostPool
  | QueuedValidationFallback

datatype 'cs queued_resolved_target = QueuedResolvedTarget
    (qt_name: string) (qt_validation_build_type: "string option") (qt_platform: string)
    (qt_backend_name: string) (qt_warm_keepalive_seconds: u32) (qt_host: "string option")
    (qt_backend: "'cs queued_backend_snapshot") (qt_validation: "'cs queued_validation_snapshot")
    (qt_failure_parser: "string option")
and 'cs queued_backend_snapshot =
    QueuedLocal queued_local_target
  | QueuedSsh queued_ssh_target
  | QueuedWindows queued_windows_target
  | QueuedCloud queued_cloud_target
  | QueuedHostPool "'cs queued_host_pool_target"
  | QueuedFallback "'cs queued_fallback_target"
and 'cs queued_host_pool_target = QueuedHostPoolTarget
    (qhp_pool_name: string) (qhp_strategy: string) (qhp_lease_stale_seconds: u64)
    (qhp_heartbeat_interval_seconds: u64) (qhp_requires: "string list")
    (qhp_members: "'cs queued_host_pool_member list")
and 'cs queued_host_pool_member = QueuedHostPoolMember
    (qhm_id: string) (qhm_target: "'cs queued_resolved_target") (qhm_label: string)
    (qhm_profile_label: string) (qhm_max_concurrency: u32) (qhm_capabilities: "string list")
and 'cs queued_fallback_target = QueuedFallbackTarget
    (qfb_backends: "'cs queued_fallback_backend list") (qfb_requires: "string list")
    (qfb_heartbeat_stale_secs: u64)
and 'cs queued_fallback_backend = QueuedFallbackBackend
    (qfe_target: "'cs queued_resolved_target") (qfe_label: string) (qfe_profile_label: string)
    (qfe_capabilities: "string list")

subsection \<open>Taking a snapshot\<close>

definition snapshot_contract :: "contract_config \<Rightarrow> queued_contract" where
  "snapshot_contract c = \<lparr>
     qc_markers = cc_markers c,
     qc_require_at_least_one = cc_require_at_least_one c,
     qc_enforce = cc_enforce c\<rparr>"

fun snapshot_ssh_validation :: "ssh_validation \<Rightarrow> queued_remote_validation" where
  "snapshot_ssh_validation (SshCommand c) = RemoteCommand c"
| "snapshot_ssh_validation (SshStages s) = RemoteStages s"

fun snapshot_windows_validation :: "windows_validation \<Rightarrow> queued_remote_validation" where
  "snapshot_windows_validation (WindowsCommand c) = RemoteCommand c"
| "snapshot_windows_validation (WindowsStages s) = RemoteStages s"

definition snapshot_local_target :: "local_target_config \<Rightarrow> queued_local_target" where
  "snapshot_local_target t = \<lparr>
     qlt_name = lt_name t,
     qlt_platform = lt_platform t,
     qlt_cwd = lt_cwd t,
     qlt_timeout_secs = lt_timeout_secs t\<rparr>"

definition snapshot_ssh_target :: "ssh_target_config \<Rightarrow> queued_ssh_target" where
  "snapshot_ssh_target t = \<lparr>
     qst_name = st_name t,
     qst_platform = st_platform t,
     qst_host = st_host t,
     qst_repo_path = st_repo_path t,
     qst_ssh_options = st_ssh_options t,
     qst_identity_file = st_identity_file t,
     qst_remote_bundle_path = st_remote_bundle_path t,
     qst_local_repo_dir = st_local_repo_dir t,
     qst_timeout_secs = st_timeout_secs t,
     qst_bundle_upload_timeout_secs = st_bundle_upload_timeout_secs t,
     qst_bundle_apply_timeout_secs = st_bundle_apply_timeout_secs t\<rparr>"

definition snapshot_windows_target :: "windows_target_config \<Rightarrow> queued_windows_target" where
  "snapshot_windows_target t = \<lparr>
     qwt_ssh = \<lparr>
       qst_name = wt_name t,
       qst_platform = wt_platform t,
       qst_host = wt_host t,
       qst_repo_path = wt_repo_path t,
       qst_ssh_options = wt_ssh_options t,
       qst_identity_file = wt_identity_file t,
       qst_remote_bundle_path = wt_remote_bundle_path t,
       qst_local_repo_dir = wt_local_repo_dir t,
       qst_timeout_secs = wt_timeout_secs t,
       qst_bundle_upload_timeout_secs = wt_bundle_upload_timeout_secs t,
       qst_bundle_apply_timeout_secs = wt_bundle_apply_timeout_secs t\<rparr>,
     qwt_windows_vs_detect = wt_windows_vs_detect t,
     qwt_windows_host_mutex = wt_windows_host_mutex t,
     qwt_windows_host_mutex_name = wt_windows_host_mutex_name t\<rparr>"

definition snapshot_cloud_target :: "cloud_target_config \<Rightarrow> queued_cloud_target" where
  "snapshot_cloud_target t = \<lparr>
     qct_name = ct_name t,
     qct_platform = ct_platform t,
     qct_workflow = ct_workflow t,
     qct_repository = ct_repository t,
     qct_runner_provider = ct_runner_provider t,
     qct_runner_selector = ct_runner_selector t,
     qct_runner_overrides = ct_runner_overrides t,
     qct_poll_interval_secs = ct_poll_interval_secs t,
     qct_dispatch_settle_secs = ct_dispatch_settle_secs t,
     qct_max_poll_secs = ct_max_poll_secs t,
     qct_failure_parser = ct_failure_parser t\<rparr>"

definition snapshot_local_validation ::
  "('co \<Rightarrow> 'cs) \<Rightarrow> 'co local_validation_config \<Rightarrow> 'cs queued_local_validation" where
  "snapshot_local_validation co_snapshot v = \<lparr>
     qlv_command = lv_command v,
     qlv_stages = lv_stages v,
     qlv_contract = map_option snapshot_contract (lv_contract v),
     qlv_prepared_state_enabled = lv_prepared_state_enabled v,
     qlv_allow_tree_drift = lv_allow_tree_drift v,
     qlv_machine_environment = lv_machine_environment v,
     qlv_environment = lv_environment v,
     qlv_reuse_record_repository = lv_reuse_record_repository v,
     qlv_integration_cleanup = map_option co_snapshot (lv_integration_cleanup v)\<rparr>"

fun snapshot_validation ::
  "('co \<Rightarrow> 'cs) \<Rightarrow> 'co resolved_validation \<Rightarrow> 'cs queued_validation_snapshot" where
  "snapshot_validation co_snapshot (ValidationLocal v) =
     QueuedValidationLocal (snapshot_local_validation co_snapshot v)"
| "snapshot_validation co_snapshot (ValidationSsh v c) =
     QueuedValidationSsh (snapshot_ssh_validation v) (map_option snapshot_contract c)"
| "snapshot_validation co_snapshot (ValidationWindows v c) =
     QueuedValidationWindows (snapshot_windows_validation v) (map_option snapshot_contract c)"
| "snapshot_validation co_snapshot ValidationCloud = QueuedValidationCloud"
| "snapshot_validation co_snapshot ValidationHostPool = QueuedValidationHostPool"
| "snapshot_validation co_snapshot ValidationFallback = QueuedValidationFallback"

primrec snapshot_target ::
    "('co \<Rightarrow> 'cs) \<Rightarrow> 'co resolved_target \<Rightarrow> 'cs queued_resolved_target"
  and snapshot_backend ::
    "('co \<Rightarrow> 'cs) \<Rightarrow> 'co resolved_backend \<Rightarrow> 'cs queued_backend_snapshot"
  and snapshot_host_pool ::
    "('co \<Rightarrow> 'cs) \<Rightarrow> 'co resolved_host_pool_config \<Rightarrow> 'cs queued_host_pool_target"
  and snapshot_host_pool_member ::
    "('co \<Rightarrow> 'cs) \<Rightarrow> 'co resolved_host_pool_member \<Rightarrow> 'cs queued_host_pool_member"
  and snapshot_fallback ::
    "('co \<Rightarrow> 'cs) \<Rightarrow> 'co fallback_target_config \<Rightarrow> 'cs queued_fallback_target"
  and snapshot_fallback_backend ::
    "('co \<Rightarrow> 'cs) \<Rightarrow> 'co fallback_backend \<Rightarrow> 'cs queued_fallback_backend" where
  "snapshot_target co_snapshot (ResolvedTarget n bt p bn w h b v fp) =
     QueuedResolvedTarget n bt p bn w h (snapshot_backend co_snapshot b)
       (snapshot_validation co_snapshot v) fp"
| "snapshot_backend co_snapshot (BackendLocal t) = QueuedLocal (snapshot_local_target t)"
| "snapshot_backend co_snapshot (BackendSsh t) = QueuedSsh (snapshot_ssh_target t)"
| "snapshot_backend co_snapshot (BackendWindows t) = QueuedWindows (snapshot_windows_target t)"
| "snapshot_backend co_snapshot (BackendCloud t) = QueuedCloud (snapshot_cloud_target t)"
| "snapshot_backend co_snapshot (BackendHostPool t) =
     QueuedHostPool (snapshot_host_pool co_snapshot t)"
| "snapshot_backend co_snapshot (BackendFallback t) =
     QueuedFallback (snapshot_fallback co_snapshot t)"
| "snapshot_host_pool co_snapshot (ResolvedHostPoolConfig n s ls hb rq ms) =
     QueuedHostPoolTarget n s ls hb rq (map (snapshot_host_pool_member co_snapshot) ms)"
| "snapshot_host_pool_member co_snapshot (ResolvedHostPoolMember i t l pl mc cs) =
     QueuedHostPoolMember i (snapshot_target co_snapshot t) l pl mc cs"
| "snapshot_fallback co_snapshot (FallbackTargetConfig bs rq hb) =
     QueuedFallbackTarget (map (snapshot_fallback_backend co_snapshot) bs) rq hb"
| "snapshot_fallback_backend co_snapshot (FallbackBackend t l pl cs) =
     QueuedFallbackBackend (snapshot_target co_snapshot t) l pl cs"

definition snapshot_targets ::
  "('co \<Rightarrow> 'cs) \<Rightarrow> 'co resolved_target list \<Rightarrow> 'cs queued_resolved_target list" where
  "snapshot_targets co_snapshot ts = map (snapshot_target co_snapshot) ts"

subsection \<open>Restoring a snapshot\<close>

datatype queue_request_error =
    RequestIo string
  | RequestJson string
  | UnsupportedSchema u32
  | InvalidSnapshot string

definition restore_contract :: "queued_contract \<Rightarrow> contract_config" where
  "restore_contract c = \<lparr>
     cc_markers = qc_markers c,
     cc_require_at_least_one = qc_require_at_least_one c,
     cc_enforce = qc_enforce c\<rparr>"

fun restore_ssh_validation :: "queued_remote_validation \<Rightarrow> ssh_validation" where
  "restore_ssh_validation (RemoteCommand c) = SshCommand c"
| "restore_ssh_validation (RemoteStages s) = SshStages s"

fun restore_windows_validation :: "queued_remote_validation \<Rightarrow> windows_validation" where
  "restore_windows_validation (RemoteCommand c) = WindowsCommand c"
| "restore_windows_validation (RemoteStages s) = WindowsStages s"

definition restore_local_target :: "queued_local_target \<Rightarrow> local_target_config" where
  "restore_local_target t = \<lparr>
     lt_name = qlt_name t,
     lt_platform = qlt_platform t,
     lt_cwd = qlt_cwd t,
     lt_timeout_secs = qlt_timeout_secs t\<rparr>"

definition restore_ssh_target :: "queued_ssh_target \<Rightarrow> ssh_target_config" where
  "restore_ssh_target t = \<lparr>
     st_name = qst_name t,
     st_platform = qst_platform t,
     st_host = qst_host t,
     st_repo_path = qst_repo_path t,
     st_ssh_options = qst_ssh_options t,
     st_identity_file = qst_identity_file t,
     st_remote_bundle_path = qst_remote_bundle_path t,
     st_local_repo_dir = qst_local_repo_dir t,
     st_timeout_secs = qst_timeout_secs t,
     st_bundle_upload_timeout_secs = qst_bundle_upload_timeout_secs t,
     st_bundle_apply_timeout_secs = qst_bundle_apply_timeout_secs t\<rparr>"

definition restore_windows_target :: "queued_windows_target \<Rightarrow> windows_target_config" where
  "restore_windows_target t = \<lparr>
     wt_name = qst_name (qwt_ssh t),
     wt_platform = qst_platform (qwt_ssh t),
     wt_host = qst_host (qwt_ssh t),
     wt_repo_path = qst_repo_path (qwt_ssh t),
     wt_ssh_options = qst_ssh_options (qwt_ssh t),
     wt_identity_file = qst_identity_file (qwt_ssh t),
     wt_remote_bundle_path = qst_remote_bundle_path (qwt_ssh t),
     wt_local_repo_dir = qst_local_repo_dir (qwt_ssh t),
     wt_timeout_secs = qst_timeout_secs (qwt_ssh t),
     wt_bundle_upload_timeout_secs = qst_bundle_upload_timeout_secs (qwt_ssh t),
     wt_bundle_apply_timeout_secs = qst_bundle_apply_timeout_secs (qwt_ssh t),
     wt_windows_vs_detect = qwt_windows_vs_detect t,
     wt_windows_host_mutex = qwt_windows_host_mutex t,
     wt_windows_host_mutex_name = qwt_windows_host_mutex_name t\<rparr>"

definition restore_cloud_target :: "queued_cloud_target \<Rightarrow> cloud_target_config" where
  "restore_cloud_target t = \<lparr>
     ct_name = qct_name t,
     ct_platform = qct_platform t,
     ct_workflow = qct_workflow t,
     ct_repository = qct_repository t,
     ct_runner_provider = qct_runner_provider t,
     ct_runner_selector = qct_runner_selector t,
     ct_runner_overrides = qct_runner_overrides t,
     ct_poll_interval_secs = qct_poll_interval_secs t,
     ct_dispatch_settle_secs = qct_dispatch_settle_secs t,
     ct_max_poll_secs = qct_max_poll_secs t,
     ct_failure_parser = qct_failure_parser t\<rparr>"

text \<open>\<open>as_ref().map(restore).transpose()\<close> with the error wrapped.\<close>

definition restore_cleanup ::
  "('cs \<Rightarrow> string + 'co) \<Rightarrow> 'cs option \<Rightarrow> queue_request_error + 'co option" where
  "restore_cleanup co_restore s = (case s of
       None \<Rightarrow> Inr None
     | Some snap \<Rightarrow> (case co_restore snap of
         Inl e \<Rightarrow> Inl (InvalidSnapshot (''restore integration checkout: '' @ e))
       | Inr co \<Rightarrow> Inr (Some co)))"

definition restore_local_validation ::
  "('cs \<Rightarrow> string + 'co) \<Rightarrow> 'cs queued_local_validation
     \<Rightarrow> queue_request_error + 'co local_validation_config" where
  "restore_local_validation co_restore v =
     result_bind (restore_cleanup co_restore (qlv_integration_cleanup v)) (\<lambda>cleanup. Inr \<lparr>
       lv_command = qlv_command v,
       lv_stages = qlv_stages v,
       lv_contract = map_option restore_contract (qlv_contract v),
       lv_prepared_state_enabled = qlv_prepared_state_enabled v,
       lv_allow_tree_drift = qlv_allow_tree_drift v,
       lv_machine_environment = qlv_machine_environment v,
       lv_environment = qlv_environment v,
       lv_reuse_record_repository = qlv_reuse_record_repository v,
       lv_integration_cleanup = cleanup\<rparr>)"

fun restore_validation ::
  "('cs \<Rightarrow> string + 'co) \<Rightarrow> 'cs queued_validation_snapshot
     \<Rightarrow> queue_request_error + 'co resolved_validation" where
  "restore_validation co_restore (QueuedValidationLocal v) =
     result_bind (restore_local_validation co_restore v) (\<lambda>l. Inr (ValidationLocal l))"
| "restore_validation co_restore (QueuedValidationSsh v c) =
     Inr (ValidationSsh (restore_ssh_validation v) (map_option restore_contract c))"
| "restore_validation co_restore (QueuedValidationWindows v c) =
     Inr (ValidationWindows (restore_windows_validation v) (map_option restore_contract c))"
| "restore_validation co_restore QueuedValidationCloud = Inr ValidationCloud"
| "restore_validation co_restore QueuedValidationHostPool = Inr ValidationHostPool"
| "restore_validation co_restore QueuedValidationFallback = Inr ValidationFallback"

text \<open>The custody check of \<open>restore_target\<close>.\<close>

definition check_custody ::
  "('co \<Rightarrow> string) \<Rightarrow> 'co resolved_backend \<Rightarrow> 'co resolved_validation \<Rightarrow> queue_request_error option"
where
  "check_custody co_path backend validation = (case validation of
       ValidationLocal lv \<Rightarrow> (case lv_integration_cleanup lv of
           Some cleanup \<Rightarrow> (case backend of
               BackendLocal lt \<Rightarrow>
                 (if lt_cwd lt \<noteq> Some (co_path cleanup)
                  then Some (InvalidSnapshot
                    ''integration checkout custody does not match local execution cwd'')
                  else None)
             | _ \<Rightarrow> Some (InvalidSnapshot ''integration checkout custody requires a local backend''))
         | None \<Rightarrow> None)
     | _ \<Rightarrow> None)"

primrec restore_target ::
    "('cs \<Rightarrow> string + 'co) \<Rightarrow> ('co \<Rightarrow> string) \<Rightarrow> 'cs queued_resolved_target
       \<Rightarrow> queue_request_error + 'co resolved_target"
  and restore_backend ::
    "('cs \<Rightarrow> string + 'co) \<Rightarrow> ('co \<Rightarrow> string) \<Rightarrow> 'cs queued_backend_snapshot
       \<Rightarrow> queue_request_error + 'co resolved_backend"
  and restore_host_pool ::
    "('cs \<Rightarrow> string + 'co) \<Rightarrow> ('co \<Rightarrow> string) \<Rightarrow> 'cs queued_host_pool_target
       \<Rightarrow> queue_request_error + 'co resolved_host_pool_config"
  and restore_host_pool_member ::
    "('cs \<Rightarrow> string + 'co) \<Rightarrow> ('co \<Rightarrow> string) \<Rightarrow> 'cs queued_host_pool_member
       \<Rightarrow> queue_request_error + 'co resolved_host_pool_member"
  and restore_fallback ::
    "('cs \<Rightarrow> string + 'co) \<Rightarrow> ('co \<Rightarrow> string) \<Rightarrow> 'cs queued_fallback_target
       \<Rightarrow> queue_request_error + 'co fallback_target_config"
  and restore_fallback_backend ::
    "('cs \<Rightarrow> string + 'co) \<Rightarrow> ('co \<Rightarrow> string) \<Rightarrow> 'cs queued_fallback_backend
       \<Rightarrow> queue_request_error + 'co fallback_backend" where
  "restore_target co_restore co_path (QueuedResolvedTarget n bt p bn w h b v fp) =
     result_bind (restore_backend co_restore co_path b) (\<lambda>backend.
     result_bind (restore_validation co_restore v) (\<lambda>validation.
     (case check_custody co_path backend validation of
        Some e \<Rightarrow> Inl e
      | None \<Rightarrow> Inr (ResolvedTarget n bt p bn w h backend validation fp))))"
| "restore_backend co_restore co_path (QueuedLocal t) = Inr (BackendLocal (restore_local_target t))"
| "restore_backend co_restore co_path (QueuedSsh t) = Inr (BackendSsh (restore_ssh_target t))"
| "restore_backend co_restore co_path (QueuedWindows t) =
     Inr (BackendWindows (restore_windows_target t))"
| "restore_backend co_restore co_path (QueuedCloud t) = Inr (BackendCloud (restore_cloud_target t))"
| "restore_backend co_restore co_path (QueuedHostPool t) =
     result_bind (restore_host_pool co_restore co_path t) (\<lambda>p. Inr (BackendHostPool p))"
| "restore_backend co_restore co_path (QueuedFallback t) =
     result_bind (restore_fallback co_restore co_path t) (\<lambda>f. Inr (BackendFallback f))"
| "restore_host_pool co_restore co_path (QueuedHostPoolTarget n s ls hb rq ms) =
     result_bind (collect_results (map (restore_host_pool_member co_restore co_path) ms))
       (\<lambda>members. Inr (ResolvedHostPoolConfig n s ls hb rq members))"
| "restore_host_pool_member co_restore co_path (QueuedHostPoolMember i t l pl mc cs) =
     result_bind (restore_target co_restore co_path t)
       (\<lambda>target. Inr (ResolvedHostPoolMember i target l pl mc cs))"
| "restore_fallback co_restore co_path (QueuedFallbackTarget bs rq hb) =
     result_bind (collect_results (map (restore_fallback_backend co_restore co_path) bs))
       (\<lambda>backends. Inr (FallbackTargetConfig backends rq hb))"
| "restore_fallback_backend co_restore co_path (QueuedFallbackBackend t l pl cs) =
     result_bind (restore_target co_restore co_path t)
       (\<lambda>target. Inr (FallbackBackend target l pl cs))"

definition restore_targets ::
  "('cs \<Rightarrow> string + 'co) \<Rightarrow> ('co \<Rightarrow> string) \<Rightarrow> 'cs queued_resolved_target list
     \<Rightarrow> queue_request_error + 'co resolved_target list" where
  "restore_targets co_restore co_path ts = collect_results (map (restore_target co_restore co_path) ts)"

text \<open>The \<open>Display\<close> form of an error.\<close>

fun request_error_string :: "queue_request_error \<Rightarrow> string" where
  "request_error_string (RequestIo e) = ''queue request I/O failed: '' @ e"
| "request_error_string (RequestJson e) = ''queue request JSON failed: '' @ e"
| "request_error_string (UnsupportedSchema v) =
     ''unsupported queue request schema version '' @ show_nat (unat v)"
| "request_error_string (InvalidSnapshot r) = ''invalid queue request snapshot: '' @ r"

section \<open>Custody\<close>

text \<open>
  A target has its custody in order when a stale-integration checkout it carries is the
  working directory of a local backend, and so for every member of a pool or chain.
\<close>

primrec custody_target :: "('co \<Rightarrow> string) \<Rightarrow> 'co resolved_target \<Rightarrow> bool"
  and custody_backend :: "('co \<Rightarrow> string) \<Rightarrow> 'co resolved_backend \<Rightarrow> bool"
  and custody_host_pool :: "('co \<Rightarrow> string) \<Rightarrow> 'co resolved_host_pool_config \<Rightarrow> bool"
  and custody_host_pool_member :: "('co \<Rightarrow> string) \<Rightarrow> 'co resolved_host_pool_member \<Rightarrow> bool"
  and custody_fallback :: "('co \<Rightarrow> string) \<Rightarrow> 'co fallback_target_config \<Rightarrow> bool"
  and custody_fallback_backend :: "('co \<Rightarrow> string) \<Rightarrow> 'co fallback_backend \<Rightarrow> bool" where
  "custody_target co_path (ResolvedTarget n bt p bn w h b v fp) =
     (custody_backend co_path b
      \<and> (case v of
           ValidationLocal lv \<Rightarrow> (case lv_integration_cleanup lv of
               Some co \<Rightarrow> (\<exists>lt. b = BackendLocal lt \<and> lt_cwd lt = Some (co_path co))
             | None \<Rightarrow> True)
         | _ \<Rightarrow> True))"
| "custody_backend co_path (BackendLocal t) = True"
| "custody_backend co_path (BackendSsh t) = True"
| "custody_backend co_path (BackendWindows t) = True"
| "custody_backend co_path (BackendCloud t) = True"
| "custody_backend co_path (BackendHostPool t) = custody_host_pool co_path t"
| "custody_backend co_path (BackendFallback t) = custody_fallback co_path t"
| "custody_host_pool co_path (ResolvedHostPoolConfig n s ls hb rq ms) =
     list_all id (map (custody_host_pool_member co_path) ms)"
| "custody_host_pool_member co_path (ResolvedHostPoolMember i t l pl mc cs) =
     custody_target co_path t"
| "custody_fallback co_path (FallbackTargetConfig bs rq hb) =
     list_all id (map (custody_fallback_backend co_path) bs)"
| "custody_fallback_backend co_path (FallbackBackend t l pl cs) = custody_target co_path t"


lemma restore_snapshot_contract [simp]: "restore_contract (snapshot_contract c) = c"
  by (simp add: restore_contract_def snapshot_contract_def)

lemma restore_snapshot_contract_option [simp]:
  "map_option (restore_contract \<circ> snapshot_contract) c = c"
  by (cases c) simp_all

lemma restore_snapshot_remote [simp]:
  "restore_ssh_validation (snapshot_ssh_validation v) = v"
  "restore_windows_validation (snapshot_windows_validation w) = w"
  by (cases v, simp_all) (cases w, simp_all)

lemma restore_snapshot_flat_targets [simp]:
  "restore_local_target (snapshot_local_target a) = a"
  "restore_ssh_target (snapshot_ssh_target b) = b"
  "restore_windows_target (snapshot_windows_target c) = c"
  "restore_cloud_target (snapshot_cloud_target d) = d"
  by (simp_all add: restore_local_target_def snapshot_local_target_def restore_ssh_target_def
      snapshot_ssh_target_def restore_windows_target_def snapshot_windows_target_def
      restore_cloud_target_def snapshot_cloud_target_def)

lemma restore_snapshot_validation:
  assumes "\<And>co. co_restore (co_snapshot co) = Inr co"
  shows "restore_validation co_restore (snapshot_validation co_snapshot v) = Inr v"
proof (cases v)
  case (ValidationLocal lv)
  have "restore_cleanup co_restore (map_option co_snapshot c) = Inr c" for c
    using assms by (cases c) (simp_all add: restore_cleanup_def)
  with ValidationLocal show ?thesis
    by (simp add: restore_local_validation_def snapshot_local_validation_def option.map_comp)
qed (simp_all add: option.map_comp)

lemma check_custody_None:
  "check_custody co_path b v = None \<longleftrightarrow>
     (case v of
        ValidationLocal lv \<Rightarrow> (case lv_integration_cleanup lv of
            Some co \<Rightarrow> (\<exists>lt. b = BackendLocal lt \<and> lt_cwd lt = Some (co_path co))
          | None \<Rightarrow> True)
      | _ \<Rightarrow> True)"
  by (cases v; cases b)
     (auto simp: check_custody_def split: option.splits)

lemma restore_snapshot:
  assumes rs: "\<And>co. co_restore (co_snapshot co) = Inr co"
  shows "custody_target co_path t \<Longrightarrow>
           restore_target co_restore co_path (snapshot_target co_snapshot t) = Inr t"
    and "custody_backend co_path b \<Longrightarrow>
           restore_backend co_restore co_path (snapshot_backend co_snapshot b) = Inr b"
    and "custody_host_pool co_path hp \<Longrightarrow>
           restore_host_pool co_restore co_path (snapshot_host_pool co_snapshot hp) = Inr hp"
    and "custody_host_pool_member co_path hm \<Longrightarrow>
           restore_host_pool_member co_restore co_path
             (snapshot_host_pool_member co_snapshot hm) = Inr hm"
    and "custody_fallback co_path fb \<Longrightarrow>
           restore_fallback co_restore co_path (snapshot_fallback co_snapshot fb) = Inr fb"
    and "custody_fallback_backend co_path fe \<Longrightarrow>
           restore_fallback_backend co_restore co_path
             (snapshot_fallback_backend co_snapshot fe) = Inr fe"
proof (induction t and b and hp and hm and fb and fe)
  case (ResolvedTarget n bt p bn w h b v fp)
  then have "restore_backend co_restore co_path (snapshot_backend co_snapshot b) = Inr b"
    and "check_custody co_path b v = None"
    by (auto simp: check_custody_None)
  then show ?case by (simp add: restore_snapshot_validation [of co_restore co_snapshot, OF rs])
next
  case (ResolvedHostPoolConfig n s ls hb rq ms)
  then show ?case
    by (auto simp: list_all_iff collect_results_Inr intro!: result_bind_Inr_iff [THEN iffD2])
next
  case (FallbackTargetConfig bs rq hb)
  then show ?case
    by (auto simp: list_all_iff collect_results_Inr intro!: result_bind_Inr_iff [THEN iffD2])
qed simp_all

lemma restore_custody:
  "\<And>t. restore_target co_restore co_path qt = Inr t \<Longrightarrow> custody_target co_path t"
  "\<And>b. restore_backend co_restore co_path qb = Inr b \<Longrightarrow> custody_backend co_path b"
  "\<And>hp. restore_host_pool co_restore co_path qhp = Inr hp \<Longrightarrow> custody_host_pool co_path hp"
  "\<And>hm. restore_host_pool_member co_restore co_path qhm = Inr hm \<Longrightarrow>
          custody_host_pool_member co_path hm"
  "\<And>fb. restore_fallback co_restore co_path qfb = Inr fb \<Longrightarrow> custody_fallback co_path fb"
  "\<And>fe. restore_fallback_backend co_restore co_path qfe = Inr fe \<Longrightarrow>
          custody_fallback_backend co_path fe"
proof (induction qt and qb and qhp and qhm and qfb and qfe)
  case (QueuedResolvedTarget n bt p bn w h b v fp)
  from QueuedResolvedTarget.prems obtain backend validation
    where "restore_backend co_restore co_path b = Inr backend"
      and "check_custody co_path backend validation = None"
      and "t = ResolvedTarget n bt p bn w h backend validation fp"
    by (auto simp: result_bind_Inr_iff split: option.splits)
  with QueuedResolvedTarget.IH show ?case by (simp add: check_custody_None)
next
  case (QueuedHostPoolTarget n s ls hb rq ms)
  then show ?case
    by (fastforce simp: result_bind_Inr_iff collect_results_map_Inr list_all_iff
        list_all2_conv_all_nth in_set_conv_nth)
next
  case (QueuedFallbackTarget bs rq hb)
  then show ?case
    by (fastforce simp: result_bind_Inr_iff collect_results_map_Inr list_all_iff
        list_all2_conv_all_nth in_set_conv_nth)
qed (auto simp: result_bind_Inr_iff)

lemma restore_targets_snapshot:
  assumes "\<And>co. co_restore (co_snapshot co) = Inr co" and "list_all (custody_target co_path) ts"
  shows "restore_targets co_restore co_path (snapshot_targets co_snapshot ts) = Inr ts"
  using assms restore_snapshot(1) [of co_restore co_snapshot co_path]
  by (simp add: restore_targets_def snapshot_targets_def collect_results_Inr list_all_iff o_def)

section \<open>Requests and envelopes\<close>

record hosted_check_observation =
  hc_name :: string
  hc_status :: string
  hc_conclusion :: string
  hc_producer :: string

record metadata_authority_receipt =
  mar_schema_version :: u32
  mar_repository :: string
  mar_pull_request :: u64
  mar_base_ref :: string
  mar_base_sha :: string
  mar_head_sha :: string
  mar_tree_sha :: string
  mar_observation_target :: string
  mar_policy_digest :: string
  mar_changed_paths_digest :: string
  mar_required_checks_digest :: string
  mar_changed_paths :: "string list"
  mar_required_checks :: "string list"
  mar_hosted_checks :: "hosted_check_observation list"

text \<open>\<open>advisory_targets\<close> is a \<open>BTreeSet\<close>, kept as its ordered list of elements.\<close>

record 'co ship_execution_request =
  ser_pr :: u64
  ser_repo :: string
  ser_branch :: string
  ser_base_branch :: string
  ser_sha :: string
  ser_commit_subject :: string
  ser_pr_url :: "string option"
  ser_pr_title :: "string option"
  ser_mode :: validation_mode
  ser_priority :: priority
  ser_warm_disabled :: bool
  ser_fail_fast :: bool
  ser_resume_from :: "string option"
  ser_advisory_targets :: "string list"
  ser_adopt_head :: bool
  ser_pr_snapshot_file :: "string option"
  ser_metadata_authority_receipt :: "metadata_authority_receipt option"
  ser_leave_unarmed :: bool
  ser_targets :: "'co resolved_target list"

record 'co run_execution_request =
  rer_branch :: string
  rer_sha :: string
  rer_mode :: validation_mode
  rer_priority :: priority
  rer_warm_disabled :: bool
  rer_fail_fast :: bool
  rer_resume_from :: "string option"
  rer_targets :: "'co resolved_target list"

record 'cs queued_run_request =
  qrr_branch :: string
  qrr_sha :: string
  qrr_mode :: validation_mode
  qrr_priority :: priority
  qrr_warm_disabled :: bool
  qrr_fail_fast :: bool
  qrr_resume_from :: "string option"
  qrr_targets :: "'cs queued_resolved_target list"

record 'cs queued_ship_request =
  qsr_pr :: u64
  qsr_repo :: string
  qsr_branch :: string
  qsr_base_branch :: string
  qsr_sha :: string
  qsr_commit_subject :: string
  qsr_pr_url :: "string option"
  qsr_pr_title :: "string option"
  qsr_mode :: validation_mode
  qsr_priority :: priority
  qsr_warm_disabled :: bool
  qsr_fail_fast :: bool
  qsr_resume_from :: "string option"
  qsr_advisory_targets :: "string list"
  qsr_adopt_head :: bool
  qsr_metadata_authority_receipt :: "metadata_authority_receipt option"
  qsr_leave_unarmed :: bool
  qsr_targets :: "'cs queued_resolved_target list"

definition queued_run_request_from ::
  "('co \<Rightarrow> 'cs) \<Rightarrow> 'co run_execution_request \<Rightarrow> 'cs queued_run_request" where
  "queued_run_request_from co_snapshot r = \<lparr>
     qrr_branch = rer_branch r,
     qrr_sha = rer_sha r,
     qrr_mode = rer_mode r,
     qrr_priority = rer_priority r,
     qrr_warm_disabled = rer_warm_disabled r,
     qrr_fail_fast = rer_fail_fast r,
     qrr_resume_from = rer_resume_from r,
     qrr_targets = snapshot_targets co_snapshot (rer_targets r)\<rparr>"

definition run_to_execution_request ::
  "('cs \<Rightarrow> string + 'co) \<Rightarrow> ('co \<Rightarrow> string) \<Rightarrow> 'cs queued_run_request
     \<Rightarrow> queue_request_error + 'co run_execution_request" where
  "run_to_execution_request co_restore co_path r =
     result_bind (restore_targets co_restore co_path (qrr_targets r)) (\<lambda>ts. Inr \<lparr>
       rer_branch = qrr_branch r,
       rer_sha = qrr_sha r,
       rer_mode = qrr_mode r,
       rer_priority = qrr_priority r,
       rer_warm_disabled = qrr_warm_disabled r,
       rer_fail_fast = qrr_fail_fast r,
       rer_resume_from = qrr_resume_from r,
       rer_targets = ts\<rparr>)"

definition queued_ship_request_from ::
  "('co \<Rightarrow> 'cs) \<Rightarrow> 'co ship_execution_request \<Rightarrow> 'cs queued_ship_request" where
  "queued_ship_request_from co_snapshot r = \<lparr>
     qsr_pr = ser_pr r,
     qsr_repo = ser_repo r,
     qsr_branch = ser_branch r,
     qsr_base_branch = ser_base_branch r,
     qsr_sha = ser_sha r,
     qsr_commit_subject = ser_commit_subject r,
     qsr_pr_url = ser_pr_url r,
     qsr_pr_title = ser_pr_title r,
     qsr_mode = ser_mode r,
     qsr_priority = ser_priority r,
     qsr_warm_disabled = ser_warm_disabled r,
     qsr_fail_fast = ser_fail_fast r,
     qsr_resume_from = ser_resume_from r,
     qsr_advisory_targets = ser_advisory_targets r,
     qsr_adopt_head = ser_adopt_head r,
     qsr_metadata_authority_receipt = ser_metadata_authority_receipt r,
     qsr_leave_unarmed = ser_leave_unarmed r,
     qsr_targets = snapshot_targets co_snapshot (ser_targets r)\<rparr>"

definition ship_to_execution_request ::
  "('cs \<Rightarrow> string + 'co) \<Rightarrow> ('co \<Rightarrow> string) \<Rightarrow> 'cs queued_ship_request
     \<Rightarrow> queue_request_error + 'co ship_execution_request" where
  "ship_to_execution_request co_restore co_path r =
     result_bind (restore_targets co_restore co_path (qsr_targets r)) (\<lambda>ts. Inr \<lparr>
       ser_pr = qsr_pr r,
       ser_repo = qsr_repo r,
       ser_branch = qsr_branch r,
       ser_base_branch = qsr_base_branch r,
       ser_sha = qsr_sha r,
       ser_commit_subject = qsr_commit_subject r,
       ser_pr_url = qsr_pr_url r,
       ser_pr_title = qsr_pr_title r,
       ser_mode = qsr_mode r,
       ser_priority = qsr_priority r,
       ser_warm_disabled = qsr_warm_disabled r,
       ser_fail_fast = qsr_fail_fast r,
       ser_resume_from = qsr_resume_from r,
       ser_advisory_targets = qsr_advisory_targets r,
       ser_adopt_head = qsr_adopt_head r,
       ser_pr_snapshot_file = None,
       ser_metadata_authority_receipt = qsr_metadata_authority_receipt r,
       ser_leave_unarmed = qsr_leave_unarmed r,
       ser_targets = ts\<rparr>)"

datatype queued_execution_owner = OwnerLegacyUnspecified | OwnerForeground | OwnerDaemon

datatype queued_execution_kind = QueuedRunKind | QueuedShipKind

datatype 'cs queued_execution_request =
    QueuedRun "'cs queued_run_request"
  | QueuedShip "'cs queued_ship_request"

record execution_provenance =
  ep_canonical_cwd :: string
  ep_repo_root :: string
  ep_repo_slug :: "string option"
  ep_head_sha :: string
  ep_tree_signature :: string
  ep_config_signature :: "string option"

record host_pool_demand =
  hpd_pool_name :: string
  hpd_requires :: "string list"
  hpd_slots :: u32
  hpd_capability_key :: string

record vm_slot_demand =
  vsd_key :: string
  vsd_slots :: u32

record job_resource_plan =
  plan_targets :: "string list"
  exclusive_claims :: "string list"
  cloud_targets :: "string list"
  host_pools :: "host_pool_demand list"
  vm_slots :: "vm_slot_demand list"

record 'cs queued_execution_envelope =
  env_schema_version :: u32
  env_job_id :: string
  env_kind :: queued_execution_kind
  env_cwd :: string
  env_created_at :: time
  execution_owner :: queued_execution_owner
  provenance :: "execution_provenance option"
  resource_plan :: job_resource_plan
  env_request :: "'cs queued_execution_request"

definition queued_execution_schema_version :: u32 where
  "queued_execution_schema_version = 4"

definition is_metadata_authority_controller :: "'cs queued_execution_envelope \<Rightarrow> bool" where
  "is_metadata_authority_controller e = (case env_request e of
       QueuedShip r \<Rightarrow>
         qsr_metadata_authority_receipt r \<noteq> None \<and> qsr_targets r = []
         \<and> plan_targets (resource_plan e) = [] \<and> cloud_targets (resource_plan e) = []
         \<and> host_pools (resource_plan e) = [] \<and> vm_slots (resource_plan e) = []
     | QueuedRun _ \<Rightarrow> False)"

text \<open>\<open>provenance.as_ref().and_then(|p| p.config_signature.as_ref())\<close>.\<close>

definition envelope_config_signature :: "'cs queued_execution_envelope \<Rightarrow> string option" where
  "envelope_config_signature e = Option.bind (provenance e) ep_config_signature"

definition is_daemon_owned :: "'cs queued_execution_envelope \<Rightarrow> bool" where
  "is_daemon_owned e = (execution_owner e = OwnerDaemon)"

definition is_daemon_admissible :: "'cs queued_execution_envelope \<Rightarrow> bool" where
  "is_daemon_admissible e =
     ((execution_owner e = OwnerDaemon \<or> execution_owner e = OwnerLegacyUnspecified)
      \<and> envelope_config_signature e \<noteq> None)"

definition is_foreground_owned :: "'cs queued_execution_envelope \<Rightarrow> bool" where
  "is_foreground_owned e =
     (execution_owner e = OwnerForeground
      \<or> execution_owner e = OwnerLegacyUnspecified \<and> envelope_config_signature e = None)"

definition to_run_request ::
  "('cs \<Rightarrow> string + 'co) \<Rightarrow> ('co \<Rightarrow> string) \<Rightarrow> 'cs queued_execution_envelope
     \<Rightarrow> queue_request_error + 'co run_execution_request" where
  "to_run_request co_restore co_path e = (case env_request e of
       QueuedRun r \<Rightarrow> run_to_execution_request co_restore co_path r
     | QueuedShip _ \<Rightarrow> Inl (InvalidSnapshot ''queued request is not a run request''))"

definition to_ship_request ::
  "('cs \<Rightarrow> string + 'co) \<Rightarrow> ('co \<Rightarrow> string) \<Rightarrow> 'cs queued_execution_envelope
     \<Rightarrow> queue_request_error + 'co ship_execution_request" where
  "to_ship_request co_restore co_path e = (case env_request e of
       QueuedShip r \<Rightarrow> ship_to_execution_request co_restore co_path r
     | QueuedRun _ \<Rightarrow> Inl (InvalidSnapshot ''queued request is not a ship request''))"

definition canonical_repository :: "string \<Rightarrow> string" where
  "canonical_repository repository = to_ascii_lowercase (trim repository)"

text \<open>\<open>canonical\<close> stands for \<open>fs::canonicalize\<close>, falling back to the path itself.\<close>

definition run_evidence_scope :: "(string \<Rightarrow> string) \<Rightarrow> string \<Rightarrow> string" where
  "run_evidence_scope canonical cwd = ''run:'' @ canonical cwd"

definition repository_ship_evidence_scope :: "string \<Rightarrow> u64 \<Rightarrow> string" where
  "repository_ship_evidence_scope repository pr =
     ''ship:'' @ canonical_repository repository @ '':pr-'' @ show_nat pr"

definition ship_evidence_scope :: "(string \<Rightarrow> string) \<Rightarrow> string \<Rightarrow> u64 \<Rightarrow> string \<Rightarrow> string" where
  "ship_evidence_scope canonical repository pr cwd =
     (if trim repository = [] then run_evidence_scope canonical cwd @ '':ship-pr-'' @ show_nat pr
      else repository_ship_evidence_scope repository pr)"

definition envelope_workload_scope ::
  "(string \<Rightarrow> string) \<Rightarrow> 'cs queued_execution_envelope \<Rightarrow> string" where
  "envelope_workload_scope canonical e = (case env_request e of
       QueuedRun _ \<Rightarrow> run_evidence_scope canonical (env_cwd e)
     | QueuedShip r \<Rightarrow> ''ship:'' @ canonical_repository (qsr_repo r) @ '':pr-'' @ show_nat (qsr_pr r))"

section \<open>The resource plan\<close>

definition vm_slot_key :: "string \<Rightarrow> string option" where
  "vm_slot_key platform =
     (let os = to_ascii_lowercase (trim (takeWhile (\<lambda>c. c \<noteq> CHR ''-'' \<and> c \<noteq> CHR ''_'') platform))
      in if os = ''macos'' \<or> os = ''darwin'' then Some ''macos'' else None)"

definition capability_key :: "string list \<Rightarrow> string" where
  "capability_key requires = (if requires = [] then ''*'' else join ''+'' requires)"

definition push_host_pool_demand :: "host_pool_demand \<Rightarrow> job_resource_plan \<Rightarrow> job_resource_plan" where
  "push_host_pool_demand d plan =
     (let same = (\<lambda>e. hpd_pool_name e = hpd_pool_name d \<and> hpd_capability_key e = hpd_capability_key d
                      \<and> hpd_requires e = hpd_requires d)
      in case find same (host_pools plan) of
           Some e \<Rightarrow> plan\<lparr>host_pools := assign_first same
               (e\<lparr>hpd_slots := u32_saturating_add (hpd_slots e) (hpd_slots d)\<rparr>) (host_pools plan)\<rparr>
         | None \<Rightarrow> plan\<lparr>host_pools := host_pools plan @ [d]\<rparr>)"

definition push_vm_slot_demand :: "vm_slot_demand \<Rightarrow> job_resource_plan \<Rightarrow> job_resource_plan" where
  "push_vm_slot_demand d plan =
     (let same = (\<lambda>e. vsd_key e = vsd_key d)
      in case find same (vm_slots plan) of
           Some e \<Rightarrow> plan\<lparr>vm_slots := assign_first same
               (e\<lparr>vsd_slots := u32_saturating_add (vsd_slots e) (vsd_slots d)\<rparr>) (vm_slots plan)\<rparr>
         | None \<Rightarrow> plan\<lparr>vm_slots := vm_slots plan @ [d]\<rparr>)"

definition push_target_vm_slot_demand :: "string \<Rightarrow> job_resource_plan \<Rightarrow> job_resource_plan" where
  "push_target_vm_slot_demand platform plan = (case vm_slot_key platform of
       None \<Rightarrow> plan
     | Some key \<Rightarrow> push_vm_slot_demand \<lparr>vsd_key = key, vsd_slots = 1\<rparr> plan)"

definition push_claim :: "string \<Rightarrow> job_resource_plan \<Rightarrow> job_resource_plan" where
  "push_claim c plan = plan\<lparr>exclusive_claims := exclusive_claims plan @ [c]\<rparr>"

text \<open>
  What one target demands. A fallback chain is charged for its first backend only, so the
  function recurses into that backend's target.
\<close>

function (sequential) collect_backend_resource_demands ::
  "(string \<Rightarrow> string) \<Rightarrow> string \<Rightarrow> 'co resolved_target \<Rightarrow> job_resource_plan \<Rightarrow> job_resource_plan"
where
  "collect_backend_resource_demands canonical cwd
     (ResolvedTarget n bt p bn w h (BackendLocal t) v fp) plan =
     push_target_vm_slot_demand p
       (push_claim (''local-cwd:'' @ canonical (unwrap_or (lt_cwd t) cwd)) plan)"
| "collect_backend_resource_demands canonical cwd
     (ResolvedTarget n bt p bn w h (BackendSsh t) v fp) plan =
     push_target_vm_slot_demand p
       (push_claim (''ssh-repo:'' @ unwrap_or (st_host t) ''?'' @ '':'' @ st_repo_path t) plan)"
| "collect_backend_resource_demands canonical cwd
     (ResolvedTarget n bt p bn w h (BackendWindows t) v fp) plan =
     push_target_vm_slot_demand p
       (push_claim (''ssh-windows-repo:'' @ unwrap_or (wt_host t) ''?'' @ '':'' @ wt_repo_path t) plan)"
| "collect_backend_resource_demands canonical cwd
     (ResolvedTarget n bt p bn w h (BackendCloud t) v fp) plan =
     plan\<lparr>cloud_targets := cloud_targets plan @ [n]\<rparr>"
| "collect_backend_resource_demands canonical cwd
     (ResolvedTarget n bt p bn w h (BackendHostPool pool) v fp) plan =
     (let requires = sort_dedup (hp_requires pool)
      in push_host_pool_demand
           \<lparr>hpd_pool_name = hp_pool_name pool, hpd_requires = requires, hpd_slots = 1,
            hpd_capability_key = capability_key requires\<rparr>
           (push_target_vm_slot_demand p plan))"
| "collect_backend_resource_demands canonical cwd
     (ResolvedTarget n bt p bn w h (BackendFallback (FallbackTargetConfig (primary # rest) rq hb)) v fp)
     plan = collect_backend_resource_demands canonical cwd (fe_target primary) plan"
| "collect_backend_resource_demands canonical cwd
     (ResolvedTarget n bt p bn w h (BackendFallback (FallbackTargetConfig [] rq hb)) v fp) plan = plan"
  by pat_completeness auto

lemma size_fallback_target: "size (fe_target b) < size b"
  by (cases b) simp

termination collect_backend_resource_demands
  by (relation "measure (\<lambda>(c, cwd, t, p). size t)") (auto intro: less_trans [OF size_fallback_target])

definition be_bytes8 :: "nat \<Rightarrow> string" where
  "be_bytes8 n = map (\<lambda>i. char_of (n div 256 ^ (7 - i) mod 256 :: nat)) [0..<8]"

definition framed :: "string list \<Rightarrow> string" where
  "framed cs = concat (map (\<lambda>c. be_bytes8 (length c) @ c) cs)"

definition is_utf8_continuation :: "char \<Rightarrow> bool" where
  "is_utf8_continuation c = (128 \<le> (of_char c :: nat) \<and> (of_char c :: nat) < 192)"

text \<open>Each character has one byte that is not a continuation byte.\<close>

definition sanitize_component :: "string \<Rightarrow> string" where
  "sanitize_component value =
     (let s = map (\<lambda>c. if is_ascii_alphanumeric c \<or> c = CHR ''-'' \<or> c = CHR ''_'' \<or> c = CHR ''.''
                       then c else CHR ''-'')
                  (filter (\<lambda>c. \<not> is_utf8_continuation c) value)
      in if s = [] then ''command-evidence'' else s)"

text \<open>\<open>digest\<close> is the lower-case hexadecimal SHA-256 of a byte string.\<close>

definition evidence_resource_claim ::
  "(string \<Rightarrow> string) \<Rightarrow> string \<Rightarrow> string \<Rightarrow> string \<Rightarrow> string" where
  "evidence_resource_claim digest scope branch target =
     ''evidence:'' @ digest (framed [scope, branch, target]) @ '':'' @ sanitize_component target"

definition eligible_backends :: "string list" where
  "eligible_backends = [''ssh'', ''ssh-windows'', ''local'', ''host-pool'']"

definition is_backend_eligible :: "string \<Rightarrow> bool" where
  "is_backend_eligible backend =
     (map (\<lambda>c. if c = CHR ''_'' then CHR ''-'' else c) (to_ascii_lowercase (trim backend))
        \<in> set eligible_backends)"

definition warm_host_key :: "string option \<Rightarrow> string" where
  "warm_host_key host = (case map_option trim host of
       Some h \<Rightarrow> if h = [] then ''local'' else h
     | None \<Rightarrow> ''local'')"

text \<open>One iteration of the loop over the targets.\<close>

definition add_target_demands ::
  "(string \<Rightarrow> string) \<Rightarrow> (string \<Rightarrow> string) \<Rightarrow> string \<Rightarrow> string \<Rightarrow> string
     \<Rightarrow> 'co resolved_target \<Rightarrow> job_resource_plan \<Rightarrow> job_resource_plan" where
  "add_target_demands canonical digest branch cwd evidence_scope t plan =
     (let plan1 = (if branch \<noteq> [] then
                     push_claim (evidence_resource_claim digest evidence_scope branch (rt_name t)) plan
                   else plan);
          plan2 = (if 0 < rt_warm_keepalive_seconds t \<and> is_backend_eligible (rt_backend_name t) then
                     push_claim (''warm:'' @ rt_name t @ '':'' @ warm_host_key (rt_host t)) plan1
                   else plan1)
      in collect_backend_resource_demands canonical cwd t plan2)"

definition ship_state_claim :: "string \<Rightarrow> u64 \<Rightarrow> string" where
  "ship_state_claim repo pr =
     ''ship-state:'' @ canonical_repository repo @ '':pr-'' @ show_nat pr"

definition initial_plan :: "(string \<times> u64) option \<Rightarrow> 'co resolved_target list \<Rightarrow> job_resource_plan" where
  "initial_plan ship_scope ts = \<lparr>
     plan_targets = map rt_name ts,
     exclusive_claims = (case ship_scope of Some (repo, pr) \<Rightarrow> [ship_state_claim repo pr] | None \<Rightarrow> []),
     cloud_targets = [],
     host_pools = [],
     vm_slots = []\<rparr>"

definition from_targets_with_context ::
  "(string \<Rightarrow> string) \<Rightarrow> (string \<Rightarrow> string) \<Rightarrow> string \<Rightarrow> string \<Rightarrow> (string \<times> u64) option \<Rightarrow> string
     \<Rightarrow> 'co resolved_target list \<Rightarrow> job_resource_plan" where
  "from_targets_with_context canonical digest branch cwd ship_scope evidence_scope ts =
     (let plan = fold (add_target_demands canonical digest branch cwd evidence_scope) ts
                   (initial_plan ship_scope ts)
      in plan\<lparr>exclusive_claims := sort_dedup (exclusive_claims plan),
              cloud_targets := sort_dedup (cloud_targets plan),
              host_pools := sort_by (\<lambda>l r. cmp (hpd_pool_name l) (hpd_pool_name r)) (host_pools plan),
              vm_slots := sort_by (\<lambda>l r. cmp (vsd_key l) (vsd_key r)) (vm_slots plan)\<rparr>)"

definition plan_from_targets ::
  "(string \<Rightarrow> string) \<Rightarrow> (string \<Rightarrow> string) \<Rightarrow> 'co resolved_target list \<Rightarrow> job_resource_plan" where
  "plan_from_targets canonical digest ts =
     from_targets_with_context canonical digest '''' ''.'' None ''legacy'' ts"

definition plan_from_run_request ::
  "(string \<Rightarrow> string) \<Rightarrow> (string \<Rightarrow> string) \<Rightarrow> string \<Rightarrow> 'co run_execution_request \<Rightarrow> job_resource_plan"
where
  "plan_from_run_request canonical digest cwd r =
     from_targets_with_context canonical digest (rer_branch r) cwd None
       (run_evidence_scope canonical cwd) (rer_targets r)"

definition plan_from_ship_request ::
  "(string \<Rightarrow> string) \<Rightarrow> (string \<Rightarrow> string) \<Rightarrow> string \<Rightarrow> 'co ship_execution_request \<Rightarrow> job_resource_plan"
where
  "plan_from_ship_request canonical digest cwd r =
     from_targets_with_context canonical digest (ser_branch r) cwd (Some (ser_repo r, ser_pr r))
       (ship_evidence_scope canonical (ser_repo r) (ser_pr r) cwd) (ser_targets r)"

text \<open>
  \<open>capture\<close> is \<open>ExecutionProvenance::capture\<close>, which reads the checkout with Git.
\<close>

definition envelope_from_run_request ::
  "(string \<Rightarrow> string option \<Rightarrow> string \<Rightarrow> execution_provenance option) \<Rightarrow> (string \<Rightarrow> string)
     \<Rightarrow> (string \<Rightarrow> string) \<Rightarrow> ('co \<Rightarrow> 'cs) \<Rightarrow> time \<Rightarrow> string \<Rightarrow> string \<Rightarrow> 'co run_execution_request
     \<Rightarrow> 'cs queued_execution_envelope" where
  "envelope_from_run_request capture canonical digest co_snapshot now jid cwd r = \<lparr>
     env_schema_version = queued_execution_schema_version,
     env_job_id = jid,
     env_kind = QueuedRunKind,
     env_cwd = cwd,
     env_created_at = now,
     execution_owner = OwnerForeground,
     provenance = capture cwd None (rer_sha r),
     resource_plan = plan_from_run_request canonical digest cwd r,
     env_request = QueuedRun (queued_run_request_from co_snapshot r)\<rparr>"

definition envelope_from_ship_request ::
  "(string \<Rightarrow> string option \<Rightarrow> string \<Rightarrow> execution_provenance option) \<Rightarrow> (string \<Rightarrow> string)
     \<Rightarrow> (string \<Rightarrow> string) \<Rightarrow> ('co \<Rightarrow> 'cs) \<Rightarrow> time \<Rightarrow> string \<Rightarrow> string \<Rightarrow> 'co ship_execution_request
     \<Rightarrow> 'cs queued_execution_envelope" where
  "envelope_from_ship_request capture canonical digest co_snapshot now jid cwd r = \<lparr>
     env_schema_version = queued_execution_schema_version,
     env_job_id = jid,
     env_kind = QueuedShipKind,
     env_cwd = cwd,
     env_created_at = now,
     execution_owner = OwnerForeground,
     provenance = capture cwd (Some (ser_repo r)) (ser_sha r),
     resource_plan = plan_from_ship_request canonical digest cwd r,
     env_request = QueuedShip (queued_ship_request_from co_snapshot r)\<rparr>"

section \<open>Properties of the plan\<close>

lemma push_claim_simps [simp]:
  "set (exclusive_claims (push_claim c p)) = insert c (set (exclusive_claims p))"
  "cloud_targets (push_claim c p) = cloud_targets p"
  "host_pools (push_claim c p) = host_pools p"
  "vm_slots (push_claim c p) = vm_slots p"
  "plan_targets (push_claim c p) = plan_targets p"
  by (simp_all add: push_claim_def)

lemma push_vm_slot_claims [simp]:
  "exclusive_claims (push_target_vm_slot_demand pl p) = exclusive_claims p"
  "plan_targets (push_target_vm_slot_demand pl p) = plan_targets p"
  by (simp_all add: push_target_vm_slot_demand_def push_vm_slot_demand_def Let_def
      split: option.splits)

lemma push_host_pool_claims [simp]:
  "exclusive_claims (push_host_pool_demand d p) = exclusive_claims p"
  "vm_slots (push_host_pool_demand d p) = vm_slots p"
  "plan_targets (push_host_pool_demand d p) = plan_targets p"
  by (simp_all add: push_host_pool_demand_def Let_def split: option.splits)

lemma collect_claims_mono:
  "set (exclusive_claims p) \<subseteq>
     set (exclusive_claims (collect_backend_resource_demands canonical cwd t p))"
  by (induction canonical cwd t p rule: collect_backend_resource_demands.induct)
     (auto simp: Let_def)

lemma collect_plan_targets [simp]:
  "plan_targets (collect_backend_resource_demands canonical cwd t p) = plan_targets p"
  by (induction canonical cwd t p rule: collect_backend_resource_demands.induct)
     (auto simp: Let_def)

lemma add_target_claims:
  "set (exclusive_claims p) \<subseteq> set (exclusive_claims (add_target_demands canonical digest br cwd es t p))"
  "br \<noteq> [] \<Longrightarrow> evidence_resource_claim digest es br (rt_name t)
     \<in> set (exclusive_claims (add_target_demands canonical digest br cwd es t p))"
  using collect_claims_mono by (fastforce simp: add_target_demands_def Let_def)+

lemma fold_add_target_claims:
  "set (exclusive_claims p) \<subseteq>
     set (exclusive_claims (fold (add_target_demands canonical digest br cwd es) ts p))"
  by (induction ts arbitrary: p) (use add_target_claims(1) in \<open>fastforce+\<close>)

lemma fold_add_target_evidence:
  assumes "br \<noteq> []" and "t \<in> set ts"
  shows "evidence_resource_claim digest es br (rt_name t)
     \<in> set (exclusive_claims (fold (add_target_demands canonical digest br cwd es) ts p))"
  using assms(2)
proof (induction ts arbitrary: p)
  case (Cons u ts)
  then show ?case
    using add_target_claims(2) [OF assms(1)] fold_add_target_claims by fastforce
qed simp

lemma plan_claims:
  "sorted (exclusive_claims (from_targets_with_context canonical digest br cwd scope es ts))"
  "distinct (exclusive_claims (from_targets_with_context canonical digest br cwd scope es ts))"
  "scope = Some (repo, pr) \<Longrightarrow> ship_state_claim repo pr
     \<in> set (exclusive_claims (from_targets_with_context canonical digest br cwd scope es ts))"
  "br \<noteq> [] \<Longrightarrow> t \<in> set ts \<Longrightarrow> evidence_resource_claim digest es br (rt_name t)
     \<in> set (exclusive_claims (from_targets_with_context canonical digest br cwd scope es ts))"
  using sorted_distinct_sort_dedup fold_add_target_evidence
    fold_add_target_claims [of "initial_plan scope ts" canonical digest br cwd es ts]
  by (auto simp: from_targets_with_context_def Let_def initial_plan_def)

text \<open>The macOS VM slots a target asks for: those of the backend the chain starts with.\<close>

function (sequential) vm_demand :: "'co resolved_target \<Rightarrow> bool" where
  "vm_demand (ResolvedTarget n bt p bn w h (BackendCloud t) v fp) = False"
| "vm_demand (ResolvedTarget n bt p bn w h
     (BackendFallback (FallbackTargetConfig (primary # rest) rq hb)) v fp) =
     vm_demand (fe_target primary)"
| "vm_demand (ResolvedTarget n bt p bn w h (BackendFallback (FallbackTargetConfig [] rq hb)) v fp) =
     False"
| "vm_demand (ResolvedTarget n bt p bn w h b v fp) = (vm_slot_key p \<noteq> None)"
  by pat_completeness auto
termination vm_demand
  by (relation "measure size") (auto intro: less_trans [OF size_fallback_target])

definition vm_entry :: "nat \<Rightarrow> vm_slot_demand list" where
  "vm_entry n = (if n = 0 then [] else [\<lparr>vsd_key = ''macos'', vsd_slots = u32_of_count n\<rparr>])"

lemma u32_of_count_Suc: "u32_saturating_add (u32_of_count n) 1 = u32_of_count (Suc n)"
  by (rule word_unat_eq_iff [THEN iffD2])
     (simp add: unat_u32_saturating_add unat_u32_of_count min_def)

lemma push_target_vm_entry:
  "vm_slots p = vm_entry n \<Longrightarrow>
     vm_slots (push_target_vm_slot_demand pl p) =
       vm_entry (n + (if vm_slot_key pl \<noteq> None then 1 else 0))"
proof -
  assume p: "vm_slots p = vm_entry n"
  have one: "u32_of_count 1 = 1"
    by (rule word_unat_eq_iff [THEN iffD2]) (simp add: unat_u32_of_count)
  have key: "vm_slot_key pl = None \<or> vm_slot_key pl = Some ''macos''"
    by (simp add: vm_slot_key_def Let_def)
  show ?thesis
    using p key one u32_of_count_Suc [of n]
    by (cases "n = 0")
       (auto simp: push_target_vm_slot_demand_def push_vm_slot_demand_def vm_entry_def Let_def)
qed

lemma collect_vm_entry:
  "vm_slots p = vm_entry n \<Longrightarrow>
     vm_slots (collect_backend_resource_demands canonical cwd t p) =
       vm_entry (n + (if vm_demand t then 1 else 0))"
  by (induction canonical cwd t p rule: collect_backend_resource_demands.induct)
     (simp_all add: Let_def push_target_vm_entry del: One_nat_def)

lemma add_target_vm_entry:
  "vm_slots p = vm_entry n \<Longrightarrow>
     vm_slots (add_target_demands canonical digest br cwd es t p) =
       vm_entry (n + (if vm_demand t then 1 else 0))"
  by (simp add: add_target_demands_def Let_def collect_vm_entry del: One_nat_def)

lemma fold_vm_entry:
  "vm_slots p = vm_entry n \<Longrightarrow>
     vm_slots (fold (add_target_demands canonical digest br cwd es) ts p) =
       vm_entry (n + length (filter vm_demand ts))"
proof (induction ts arbitrary: p n)
  case (Cons t ts)
  from Cons.prems have "vm_slots (add_target_demands canonical digest br cwd es t p) =
      vm_entry (n + (if vm_demand t then 1 else 0))"
    by (rule add_target_vm_entry)
  from Cons.IH [OF this] show ?case by (cases "vm_demand t") simp_all
qed simp

lemma plan_vm_slots:
  "vm_slots (from_targets_with_context canonical digest br cwd scope es ts) =
     vm_entry (length (filter vm_demand ts))"
proof -
  have "vm_slots (fold (add_target_demands canonical digest br cwd es) ts (initial_plan scope ts)) =
      vm_entry (0 + length (filter vm_demand ts))"
    by (rule fold_vm_entry) (simp add: initial_plan_def vm_entry_def)
  moreover have "sort_by c (vm_entry n) = vm_entry n" for c n
    by (simp add: vm_entry_def sort_by_def)
  ultimately show ?thesis by (simp add: from_targets_with_context_def Let_def)
qed

lemma canonical_repository_claim:
  "canonical_repository r = canonical_repository r' \<Longrightarrow> ship_state_claim r pr = ship_state_claim r' pr"
  by (simp add: ship_state_claim_def)

subsection \<open>The framing of the evidence digest\<close>

lemma be_bytes8_length [simp]: "length (be_bytes8 n) = 8"
  by (simp add: be_bytes8_def)

lemma be_bytes8_inj:
  assumes "m < 256 ^ 8" and "n < 256 ^ 8" and "be_bytes8 m = be_bytes8 n"
  shows "m = n"
proof -
  have digit: "m div 256 ^ (7 - i) mod 256 = n div 256 ^ (7 - i) mod 256" if "i < 8" for i
  proof -
    have "be_bytes8 m ! i = be_bytes8 n ! i" using assms(3) by simp
    then have "of_char (be_bytes8 m ! i) = (of_char (be_bytes8 n ! i) :: nat)" by simp
    with that show ?thesis by (simp add: be_bytes8_def)
  qed
  have "m mod 256 ^ k = n mod 256 ^ k" if "k \<le> 8" for k
    using that
  proof (induction k)
    case (Suc k)
    have split: "x mod 256 ^ Suc k = 256 ^ k * (x div 256 ^ k mod 256) + x mod 256 ^ k" for x :: nat
      by (simp add: mod_mult2_eq mult.commute [of 256])
    show ?case using Suc digit [of "7 - k"] by (simp only: split) simp
  qed simp
  from this [of 8] assms(1,2) show ?thesis by simp
qed

lemma framed_inj:
  assumes "length xs = length ys" and "framed xs = framed ys"
    and "list_all (\<lambda>s. length s < 256 ^ 8) xs" and "list_all (\<lambda>s. length s < 256 ^ 8) ys"
  shows "xs = ys"
  using assms
proof (induction xs ys rule: list_induct2)
  case (Cons x xs y ys)
  have "be_bytes8 (length x) = be_bytes8 (length y)
      \<and> x @ framed xs = y @ framed ys"
    using Cons.prems(1) by (simp add: framed_def)
  moreover from this Cons.prems have "length x = length y" by (simp add: be_bytes8_inj)
  ultimately show ?case using Cons by simp
qed simp

section \<open>Properties of the requests\<close>

text \<open>
  (C33) A queued request comes back as it was submitted: whenever capturing and restoring a
  stale-integration checkout round-trips and the targets have their custody in order, the run
  request an envelope yields is the submitted one, and the ship request too but for the offline
  snapshot file, which is never queued; asking an envelope for the other kind is refused.
\<close>

theorem envelope_roundtrip:
  assumes "\<And>co. co_restore (co_snapshot co) = Inr co"
    and "list_all (custody_target co_path) (rer_targets r)"
    and "list_all (custody_target co_path) (ser_targets s)"
  shows "to_run_request co_restore co_path
           (envelope_from_run_request capture canonical digest co_snapshot now jid cwd r) = Inr r
     \<and> to_ship_request co_restore co_path
           (envelope_from_ship_request capture canonical digest co_snapshot now jid cwd s)
         = Inr (s\<lparr>ser_pr_snapshot_file := None\<rparr>)
     \<and> to_ship_request co_restore co_path
           (envelope_from_run_request capture canonical digest co_snapshot now jid cwd r)
         = Inl (InvalidSnapshot ''queued request is not a ship request'')
     \<and> to_run_request co_restore co_path
           (envelope_from_ship_request capture canonical digest co_snapshot now jid cwd s)
         = Inl (InvalidSnapshot ''queued request is not a run request'')"
proof -
  note ts = restore_targets_snapshot [of co_restore co_snapshot co_path, OF assms(1)]
  show ?thesis
    by (simp add: to_run_request_def to_ship_request_def envelope_from_run_request_def
        envelope_from_ship_request_def run_to_execution_request_def ship_to_execution_request_def
        queued_run_request_from_def queued_ship_request_from_def ts [OF assms(2)] ts [OF assms(3)])
qed

text \<open>A request with one local target that runs in an integration checkout.\<close>

definition sample_target :: "string resolved_target" where
  "sample_target = ResolvedTarget ''mac'' None ''macos-arm64'' ''local'' 0 None
     (BackendLocal \<lparr>lt_name = ''mac'', lt_platform = ''macos-arm64'', lt_cwd = Some ''/w'',
        lt_timeout_secs = 60\<rparr>)
     (ValidationLocal \<lparr>lv_command = Some ''make'', lv_stages = [], lv_contract = None,
        lv_prepared_state_enabled = False, lv_allow_tree_drift = False,
        lv_machine_environment = [], lv_environment = [], lv_reuse_record_repository = None,
        lv_integration_cleanup = Some ''/w''\<rparr>) None"

definition sample_run_request :: "string run_execution_request" where
  "sample_run_request = \<lparr>rer_branch = ''main'', rer_sha = ''0a1b'', rer_mode = FullMode,
     rer_priority = PriorityNormal, rer_warm_disabled = False, rer_fail_fast = False,
     rer_resume_from = None, rer_targets = [sample_target]\<rparr>"

definition sample_ship_request :: "string \<Rightarrow> string ship_execution_request" where
  "sample_ship_request repo = \<lparr>ser_pr = 7, ser_repo = repo, ser_branch = ''topic'',
     ser_base_branch = ''main'', ser_sha = ''0a1b'', ser_commit_subject = [], ser_pr_url = None,
     ser_pr_title = None, ser_mode = FullMode, ser_priority = PriorityNormal,
     ser_warm_disabled = False, ser_fail_fast = False, ser_resume_from = None,
     ser_advisory_targets = [], ser_adopt_head = False, ser_pr_snapshot_file = Some ''snap'',
     ser_metadata_authority_receipt = None, ser_leave_unarmed = False,
     ser_targets = [sample_target]\<rparr>"

theorem envelope_roundtrip_witness:
  "to_run_request (\<lambda>s. Inr s) id
     (envelope_from_run_request (\<lambda>_ _ _. None) id id id 0 ''j'' ''/'' sample_run_request)
     = Inr sample_run_request
   \<and> to_ship_request (\<lambda>s. Inr s) id
     (envelope_from_ship_request (\<lambda>_ _ _. None) id id id 0 ''j'' ''/'' (sample_ship_request ''o/r''))
     = Inr (sample_ship_request ''o/r''\<lparr>ser_pr_snapshot_file := None\<rparr>)"
proof -
  have "list_all (custody_target id) (rer_targets sample_run_request)"
    and "list_all (custody_target id) (ser_targets (sample_ship_request ''o/r''))"
    by (simp_all add: sample_run_request_def sample_ship_request_def sample_target_def)
  then show ?thesis
    using envelope_roundtrip [of "\<lambda>s. Inr s" id id sample_run_request "sample_ship_request ''o/r''"]
    by simp
qed

text \<open>
  Restoring fails closed: whatever snapshot is on disk and whatever the checkout
  restoration returns, every target of a restored request that carries a stale-integration
  checkout runs locally in exactly that checkout, at every depth of pools and fallback chains.
\<close>

theorem restored_custody:
  assumes "restore_targets co_restore co_path qs = Inr ts"
  shows "list_all (custody_target co_path) ts"
proof -
  from assms have "list_all2 (\<lambda>q t. restore_target co_restore co_path q = Inr t) qs ts"
    by (simp add: restore_targets_def collect_results_map_Inr)
  then show ?thesis
    by (auto simp: list_all_length list_all2_conv_all_nth intro: restore_custody(1))
qed

theorem restored_custody_witness:
  "restore_targets (\<lambda>s. Inr s) id [snapshot_target id sample_target] = Inr [sample_target]
   \<and> list_all (custody_target id) [sample_target]"
proof -
  have "restore_targets (\<lambda>s. Inr s) id [snapshot_target id sample_target] = Inr [sample_target]"
    using restore_targets_snapshot [of "\<lambda>s. Inr s" id id "[sample_target]"]
    by (simp add: snapshot_targets_def sample_target_def)
  with restored_custody [OF this] show ?thesis by blast
qed

text \<open>
  Ownership is exclusive: no envelope is both admissible to the daemon and owned by a
  foreground drain; an envelope written before explicit ownership existed belongs to exactly one
  of the two; and a fresh envelope is always the foreground's.
\<close>

theorem envelope_ownership:
  "\<not> (is_daemon_admissible e \<and> is_foreground_owned e)
   \<and> (execution_owner e = OwnerLegacyUnspecified \<longrightarrow>
        is_foreground_owned e = (\<not> is_daemon_admissible e))
   \<and> is_foreground_owned
       (envelope_from_run_request capture canonical digest co_snapshot now jid cwd r)
   \<and> is_foreground_owned
       (envelope_from_ship_request capture canonical digest co_snapshot now jid cwd s)"
  by (cases "execution_owner e"; cases "envelope_config_signature e")
     (simp_all add: is_daemon_admissible_def is_foreground_owned_def
      envelope_from_run_request_def envelope_from_ship_request_def)

theorem envelope_ownership_witness:
  "is_foreground_owned ((envelope_from_run_request (\<lambda>_ _ _. None) id id id 0 ''j'' ''/''
      sample_run_request)\<lparr>execution_owner := OwnerLegacyUnspecified\<rparr>)"
  using envelope_ownership [of "(envelope_from_run_request (\<lambda>_ _ _. None) id id id 0 ''j'' ''/''
      sample_run_request)\<lparr>execution_owner := OwnerLegacyUnspecified\<rparr>"
      "\<lambda>_ _ _. None" id id id 0 "''j''" "''/''" sample_run_request "sample_ship_request ''o/r''"]
  by (simp add: is_daemon_admissible_def envelope_config_signature_def envelope_from_run_request_def)

text \<open>
  The scheduler's exclusive claims of a ship request are ordered and free of duplicates,
  include the ship-state claim of its pull request (the same one for every spelling of the
  repository that differs in case or surrounding blanks) and, on a named branch, the evidence
  claim of each of its targets; the macOS slots demanded are one per target whose first backend
  runs on macOS, saturating at the width of the counter.
\<close>

theorem ship_plan_claims:
  "let plan = plan_from_ship_request canonical digest cwd s in
     sorted (exclusive_claims plan) \<and> distinct (exclusive_claims plan)
   \<and> (\<forall>repo. canonical_repository repo = canonical_repository (ser_repo s) \<longrightarrow>
        ship_state_claim repo (ser_pr s) \<in> set (exclusive_claims plan))
   \<and> (ser_branch s \<noteq> [] \<longrightarrow> (\<forall>t \<in> set (ser_targets s).
        evidence_resource_claim digest (ship_evidence_scope canonical (ser_repo s) (ser_pr s) cwd)
          (ser_branch s) (rt_name t) \<in> set (exclusive_claims plan)))
   \<and> vm_slots plan = vm_entry (length (filter vm_demand (ser_targets s)))"
proof -
  have "ship_state_claim repo (ser_pr s)
      \<in> set (exclusive_claims (plan_from_ship_request canonical digest cwd s))"
    if "canonical_repository repo = canonical_repository (ser_repo s)" for repo
    using canonical_repository_claim [OF that]
    by (simp add: plan_from_ship_request_def plan_claims(3))
  then show ?thesis
    by (simp add: Let_def plan_from_ship_request_def plan_vm_slots plan_claims(1,2,4))
qed

theorem ship_plan_claims_witness:
  "ship_state_claim ''o/r'' 7
     \<in> set (exclusive_claims (plan_from_ship_request id id ''/'' (sample_ship_request ''o/r'')))"
proof -
  have "ser_pr (sample_ship_request ''o/r'') = 7"
    and "ser_repo (sample_ship_request ''o/r'') = ''o/r''"
    by (simp_all add: sample_ship_request_def)
  then show ?thesis
    using ship_plan_claims [of id id "''/''" "sample_ship_request ''o/r''"] by (simp add: Let_def)
qed

text \<open>
  The tuple hashed into an evidence claim is framed unambiguously: for components whose
  lengths fit the eight-byte prefix, equal messages come from equal scope, branch and target.
\<close>

theorem evidence_message_injective:
  assumes "framed [scope, branch, target] = framed [scope', branch', target']"
    and "list_all (\<lambda>s. length s < 2 ^ 64) [scope, branch, target, scope', branch', target']"
  shows "scope = scope' \<and> branch = branch' \<and> target = target'"
  using framed_inj [OF _ assms(1)] assms(2) by simp

theorem evidence_message_injective_witness:
  "framed [''a'', ''b'', ''c''] = framed [''a'', ''b'', ''c''] \<and> ''a'' = ''a''"
  using evidence_message_injective [of "''a''" "''b''" "''c''" "''a''" "''b''" "''c''"] by simp

end
