(* ===== verification/Json_Value.thy ===== *)
theory Json_Value
  imports Shipyard_Prelude
begin

text \<open>
  \<open>serde_json::Value\<close> and the accessors the sources use. Parsing and printing are the
  library's and stay parameters of the components; what is modelled here is how a parsed value
  is inspected. A number keeps the three representations of \<open>serde_json::Number\<close>: a
  non-negative integer, a negative integer, or a float (its bit pattern).
\<close>

datatype json_number = PosInt nat | NegInt int | FloatNum f64

datatype json =
    JNull
  | JBool bool
  | JNumber json_number
  | JString string
  | JArray "json list"
  | JObject "(string \<times> json) list"

definition json_get :: "string \<Rightarrow> json \<Rightarrow> json option" where
  "json_get k v = (case v of JObject m \<Rightarrow> map_of m k | _ \<Rightarrow> None)"

definition as_array :: "json \<Rightarrow> json list option" where
  "as_array v = (case v of JArray xs \<Rightarrow> Some xs | _ \<Rightarrow> None)"

definition as_str :: "json \<Rightarrow> string option" where
  "as_str v = (case v of JString s \<Rightarrow> Some s | _ \<Rightarrow> None)"

definition as_bool :: "json \<Rightarrow> bool option" where
  "as_bool v = (case v of JBool b \<Rightarrow> Some b | _ \<Rightarrow> None)"

definition as_u64 :: "json \<Rightarrow> u64 option" where
  "as_u64 v = (case v of JNumber (PosInt n) \<Rightarrow> Some n | _ \<Rightarrow> None)"

definition is_null :: "json \<Rightarrow> bool" where
  "is_null v = (v = JNull)"

text \<open>\<open>Value::pointer\<close> for a path of object keys.\<close>

fun json_path :: "string list \<Rightarrow> json \<Rightarrow> json option" where
  "json_path [] v = Some v"
| "json_path (k # ks) v = Option.bind (json_get k v) (json_path ks)"

text \<open>A string field, an object test, and a field that is present and not null.\<close>

definition get_str :: "string \<Rightarrow> json \<Rightarrow> string option" where
  "get_str k v = Option.bind (json_get k v) as_str"

definition is_object :: "json \<Rightarrow> bool" where
  "is_object v = (case v of JObject _ \<Rightarrow> True | _ \<Rightarrow> False)"

definition non_null :: "string \<Rightarrow> json \<Rightarrow> json option" where
  "non_null k v = option_filter (\<lambda>x. \<not> is_null x) (json_get k v)"

lemma json_get_object [simp]: "json_get k (JObject m) = map_of m k"
  by (simp add: json_get_def)

lemma as_array_simps [simp]: "as_array (JArray xs) = Some xs" "as_array JNull = None"
  by (simp_all add: as_array_def)

lemma as_u64_Some: "as_u64 v = Some n \<longleftrightarrow> v = JNumber (PosInt n)"
  by (simp add: as_u64_def split: json.splits json_number.splits)

end
