(* ===== verification/Job_Queue.thy ===== *)
theory Job_Queue
  imports Queue_Request Json_Value
begin

text \<open>
  The durable job queue of \<open>src/src/queue.rs\<close>. The state is the vector of jobs stored in
  \<open>queue.json\<close>; each method of \<open>Queue\<close> is the function it runs under the state lock, in the
  order of the source, and \<open>with_jobs_locked\<close> and its strict variant lift such a function to
  the file content. \<open>Utc::now()\<close> is a clock argument, the request store, the JSON codec and
  the log-retention module are parameters. The lemmas state what every operation keeps of the
  rows (locale \<open>queue_operation\<close>), the order in which pending jobs are served, supersession,
  recovery admission, and the all-or-nothing behaviour of the file update.
\<close>

section \<open>Data\<close>

definition keep_completed :: nat where
  "keep_completed = 25"

definition stale_recovery_message :: string where
  "stale_recovery_message = ''Process died mid-validation; job recovered on startup''"

definition stale_running_cancel_reason :: string where
  "stale_running_cancel_reason =
     ''Running worker heartbeat stale; cancelled to unblock queued work''"

definition orphan_request_message :: string where
  "orphan_request_message = ''Queued request envelope missing or unreadable''"

definition superseded_message :: string where
  "superseded_message =
     ''Superseded by a newer queued job for the same branch, targets, and mode.''"

definition already_merged_cancel_reason :: string where
  "already_merged_cancel_reason = ''PR already merged''"

datatype queue_terminal_disposition = Clean | CancelledMidRun | Uncertain | NoTiming

record queue_pending_cancellation =
  qpc_job_id :: string
  qpc_reason :: string
  qpc_proof :: "cancellation_proof option"

record queue_deferred_requeue =
  qdr_job_id :: string
  qdr_reason :: string
  qdr_defer_until :: "time option"

datatype recovery_enqueue = Inserted | Existing | OwnedBy string

datatype queue_error = QueueIo string | QueueJson string | StateConflict string

fun is_terminal_job :: "job_status \<Rightarrow> bool" where
  "is_terminal_job JobCompleted = True"
| "is_terminal_job JobCancelled = True"
| "is_terminal_job _ = False"

definition classify_queue_terminal :: "job \<Rightarrow> job \<Rightarrow> queue_terminal_disposition option" where
  "classify_queue_terminal prior next =
     (if \<not> is_terminal_job (job_status next) then None
      else if job_status prior = JobPending \<and> job_status next = JobCancelled then Some NoTiming
      else if job_status prior = JobRunning \<and> job_status next = JobCancelled
      then Some CancelledMidRun
      else if job_status prior \<noteq> JobRunning \<or> job_status next \<noteq> JobCompleted then Some Uncertain
      else if job_id prior \<noteq> job_id next
        \<or> job_created_at prior \<noteq> job_created_at next
        \<or> job_sha prior \<noteq> job_sha next
        \<or> job_branch prior \<noteq> job_branch next
        \<or> job_mode prior \<noteq> job_mode next
        \<or> target_names prior \<noteq> target_names next
        \<or> cancel_requested_at next \<noteq> None then Some Uncertain
      else
        let timed = is_some_and (option_zip (job_started_at next) (job_completed_at next))
              (\<lambda>(started, completed). started \<le> completed);
            complete_results = (target_names next \<noteq> []
              \<and> list_all (\<lambda>target. is_some_and (bt_get (job_results next) target)
                   (\<lambda>r. tr_failure_class r \<noteq> Some ''UNCERTAIN''
                        \<and> tr_error_message r \<noteq> Some stale_recovery_message)) (target_names next))
        in if timed \<and> complete_results then Some Clean else Some Uncertain)"

fun mode_debug :: "validation_mode \<Rightarrow> string" where
  "mode_debug FullMode = ''Full''"
| "mode_debug SmokeMode = ''Smoke''"

definition queue_timing_identity :: "(time \<Rightarrow> string) \<Rightarrow> job \<Rightarrow> string" where
  "queue_timing_identity rfc3339 j =
     join [CHR 0x1F] [rfc3339 (job_created_at j), job_sha j, job_branch j,
       mode_debug (job_mode j), join '','' (target_names j)]"

section \<open>Helpers on the job vector\<close>

definition ok_of :: "'e + 'a \<Rightarrow> 'a option" where
  "ok_of r = (case r of Inr a \<Rightarrow> Some a | Inl _ \<Rightarrow> None)"

text \<open>
  \<open>for job in jobs.iter_mut().filter(sel)\<close> with a body that assigns and collects the changed
  job: the collected jobs and the new vector. The clock ticks once per visited row.
\<close>

fun update_rows ::
  "clock \<Rightarrow> (job \<Rightarrow> bool) \<Rightarrow> (time \<Rightarrow> job \<Rightarrow> job option) \<Rightarrow> job list \<Rightarrow> job list \<times> job list" where
  "update_rows clk sel f [] = ([], [])"
| "update_rows clk sel f (j # js) =
     (let (changed, js') = update_rows (clk \<circ> Suc) sel f js
      in if sel j then
           (case f (clk 0) j of
              Some j' \<Rightarrow> (j' # changed, j' # js')
            | None \<Rightarrow> (changed, j # js'))
         else (changed, j # js'))"

text \<open>
  \<open>for c in commands\<close> over job ids: skip an id seen before, find the first row with the id
  that the filter accepts, transition it in place and collect it.
\<close>

fun select_loop ::
  "clock \<Rightarrow> ('c \<Rightarrow> string) \<Rightarrow> ('c \<Rightarrow> job \<Rightarrow> bool) \<Rightarrow> ('c \<Rightarrow> time \<Rightarrow> job \<Rightarrow> job option)
     \<Rightarrow> string list \<Rightarrow> 'c list \<Rightarrow> job list \<Rightarrow> job list \<times> job list" where
  "select_loop clk key sel step seen [] js = ([], js)"
| "select_loop clk key sel step seen (c # cs) js =
     (if key c \<in> set seen then select_loop clk key sel step seen cs js
      else let seen' = key c # seen; P = (\<lambda>j. job_id j = key c \<and> sel c j)
        in case find P js of
             None \<Rightarrow> select_loop clk key sel step seen' cs js
           | Some j \<Rightarrow> (case step c (clk 0) j of
               None \<Rightarrow> select_loop (clk \<circ> Suc) key sel step seen' cs js
             | Some j' \<Rightarrow>
                 (let (out, js') = select_loop (clk \<circ> Suc) key sel step seen' cs (assign_first P j' js)
                  in (j' # out, js'))))"

definition completed_sort_time :: "job \<Rightarrow> time" where
  "completed_sort_time j = unwrap_or (job_completed_at j) (job_created_at j)"

definition sort_recent_completed :: "job list \<Rightarrow> job list" where
  "sort_recent_completed js =
     sort_by (\<lambda>l r. cmp (completed_sort_time r) (completed_sort_time l)) js"

definition compare_pending_jobs :: "job \<Rightarrow> job \<Rightarrow> ordering" where
  "compare_pending_jobs l r =
     then_with (cmp (priority_value (job_priority r)) (priority_value (job_priority l)))
               (cmp (job_created_at l) (job_created_at r))"

definition pending_jobs_sorted :: "job list \<Rightarrow> job list" where
  "pending_jobs_sorted js =
     sort_by compare_pending_jobs (filter (\<lambda>j. job_status j = JobPending) js)"

text \<open>The removed ids are the difference of two \<open>BTreeSet\<close>s, in order.\<close>

definition trim_terminal :: "job list \<Rightarrow> string list \<times> job list" where
  "trim_terminal js =
     (let terminal = filter (\<lambda>j. is_terminal_job (job_status j)) js;
          completed = take keep_completed (sort_recent_completed terminal);
          retained = filter (\<lambda>j. \<not> is_terminal_job (job_status j)) js
      in (sort_dedup (filter (\<lambda>i. i \<notin> set (map job_id completed)) (map job_id terminal)),
          retained @ completed))"

definition stale_recovery_result :: "string \<Rightarrow> target_result" where
  "stale_recovery_result t =
     (target_result_new t ''unknown'' TargetError ''unknown'')
       \<lparr>tr_error_message := Some stale_recovery_message\<rparr>"

text \<open>The loop of \<open>complete_running_uncertain\<close> and \<open>reclassify_completed_uncertain\<close>.\<close>

definition uncertain_results ::
  "string \<Rightarrow> string list \<Rightarrow> (string \<times> target_result) list \<Rightarrow> (string \<times> target_result) list" where
  "uncertain_results reason names results =
     fold (\<lambda>t. bt_insert t ((stale_recovery_result t)
             \<lparr>tr_error_message := Some reason, tr_failure_class := Some ''UNCERTAIN''\<rparr>)) names results"

definition same_workload_scope :: "job \<Rightarrow> job \<Rightarrow> bool" where
  "same_workload_scope l r = (case (workload_scope l, workload_scope r) of
       (Some a, Some b) \<Rightarrow> a = b
     | (None, None) \<Rightarrow> True
     | _ \<Rightarrow> False)"

definition envelope_target_names :: "'cs queued_execution_envelope \<Rightarrow> string list" where
  "envelope_target_names e = (case env_request e of
       QueuedRun r \<Rightarrow> map qt_name (qrr_targets r)
     | QueuedShip r \<Rightarrow> map qt_name (qsr_targets r))"

definition recovery_envelope_matches_job :: "'cs queued_execution_envelope \<Rightarrow> job \<Rightarrow> bool" where
  "recovery_envelope_matches_job e j =
     (if env_job_id e \<noteq> job_id j then False
      else if plan_targets (resource_plan e) \<noteq> target_names j
        \<or> envelope_target_names e \<noteq> target_names j then False
      else case (env_kind e, env_request e) of
        (QueuedRunKind, QueuedRun r) \<Rightarrow>
          (job_kind j = None \<or> job_kind j = Some RunKind)
          \<and> qrr_sha r = job_sha j \<and> qrr_branch r = job_branch j \<and> qrr_mode r = job_mode j
      | (QueuedShipKind, QueuedShip r) \<Rightarrow>
          (job_kind j = None \<or> job_kind j = Some ShipKind)
          \<and> qsr_sha r = job_sha j \<and> qsr_branch r = job_branch j \<and> qsr_mode r = job_mode j
      | _ \<Rightarrow> False)"

text \<open>
  The request store is an argument: \<open>None\<close> when it cannot be opened, otherwise the envelope a
  job id loads, if it loads at all. \<open>canonical\<close> is as in the envelope's workload scope.
\<close>

definition backfill_scope ::
  "(string \<Rightarrow> string) \<Rightarrow> (string \<Rightarrow> 'cs queued_execution_envelope option) \<Rightarrow> job \<Rightarrow> job" where
  "backfill_scope canonical load j = (case load (job_id j) of
       None \<Rightarrow> j
     | Some e \<Rightarrow> if recovery_envelope_matches_job e j
                then j\<lparr>workload_scope := Some (envelope_workload_scope canonical e)\<rparr> else j)"

definition backfill_pending_workload_scopes ::
  "(string \<Rightarrow> string) \<Rightarrow> (string \<Rightarrow> 'cs queued_execution_envelope option) option
     \<Rightarrow> job list \<Rightarrow> job list" where
  "backfill_pending_workload_scopes canonical store js = (case store of
       None \<Rightarrow> js
     | Some load \<Rightarrow> map (\<lambda>j. if job_status j = JobPending \<and> workload_scope j = None
                          then backfill_scope canonical load j else j) js)"

definition backfill_recovery_owner_scopes ::
  "(string \<Rightarrow> string) \<Rightarrow> (string \<Rightarrow> 'cs queued_execution_envelope option) option
     \<Rightarrow> job list \<Rightarrow> job list" where
  "backfill_recovery_owner_scopes canonical store js = (case store of
       None \<Rightarrow> js
     | Some load \<Rightarrow> map (\<lambda>j. if workload_scope j = None
                          then backfill_scope canonical load j else j) js)"

definition supersedes :: "job \<Rightarrow> job \<Rightarrow> bool" where
  "supersedes j q =
     (same_workload_scope q j \<and> job_branch q = job_branch j \<and> job_status q = JobPending
      \<and> target_names q = target_names j \<and> job_mode q = job_mode j)"

definition cancel_superseded_pending :: "clock \<Rightarrow> job \<Rightarrow> job list \<Rightarrow> job list" where
  "cancel_superseded_pending clk j js =
     snd (update_rows clk (supersedes j)
            (\<lambda>now q. ok_of (cancel_with_reason now (Some superseded_message) q)) js)"

datatype repeated_work_kind = DuplicateExactHeadConfig | SupersededExactHead

record repeated_work_observation =
  rwo_kind :: repeated_work_kind
  rwo_branch :: string
  rwo_sha :: string
  rwo_target_config :: string
  rwo_mode :: string
  rwo_job_id :: string
  rwo_superseded_job_id :: string
  rwo_superseded_sha :: string

fun mode_str :: "validation_mode \<Rightarrow> string" where
  "mode_str FullMode = ''full''"
| "mode_str SmokeMode = ''smoke''"

text \<open>\<open>show_config\<close> prints the JSON object of targets, mode, kind and scope.\<close>

definition repeated_work_observations ::
  "(job \<Rightarrow> string) \<Rightarrow> job list \<Rightarrow> job \<Rightarrow> repeated_work_observation list" where
  "repeated_work_observations show_config js j =
     map (\<lambda>q. \<lparr>
         rwo_kind = (if job_sha q = job_sha j then DuplicateExactHeadConfig else SupersededExactHead),
         rwo_branch = job_branch j,
         rwo_sha = job_sha j,
         rwo_target_config = show_config j,
         rwo_mode = mode_str (job_mode j),
         rwo_job_id = job_id j,
         rwo_superseded_job_id = job_id q,
         rwo_superseded_sha = job_sha q\<rparr>)
       (filter (supersedes j) js)"

definition recover_running_jobs_matching ::
  "clock \<Rightarrow> (job \<Rightarrow> bool) \<Rightarrow> job list \<Rightarrow> job list \<times> job list" where
  "recover_running_jobs_matching clk selected js =
     update_rows clk (\<lambda>j. job_status j = JobRunning \<and> selected j)
       (\<lambda>now j. Some (j\<lparr>
          job_results := fold (\<lambda>t. bt_or_insert t (stale_recovery_result t)) (target_names j)
                           (job_results j),
          job_status := JobCompleted,
          job_completed_at := Some now\<rparr>)) js"

definition recover_stale_running_jobs :: "clock \<Rightarrow> job list \<Rightarrow> job list \<times> job list" where
  "recover_stale_running_jobs clk js = recover_running_jobs_matching clk (\<lambda>_. True) js"

section \<open>Operations\<close>

text \<open>
  Each operation is the body the code runs under the state lock: a function of the job vector
  to its output and the new vector, with the error first when it can fail. \<open>with_jobs_locked\<close>
  below lifts a body to the file.
\<close>

definition enqueue ::
  "(string \<Rightarrow> string) \<Rightarrow> (string \<Rightarrow> 'cs queued_execution_envelope option) option \<Rightarrow> (job \<Rightarrow> string)
     \<Rightarrow> bool \<Rightarrow> clock \<Rightarrow> job \<Rightarrow> job list \<Rightarrow> repeated_work_observation list \<times> job list" where
  "enqueue canonical store show_config collect clk j js =
     (let js1 = backfill_pending_workload_scopes canonical store js;
          observations = (if collect then repeated_work_observations show_config js1 j else [])
      in (observations, cancel_superseded_pending clk j js1 @ [j]))"

definition enqueue_recovery_if_unowned ::
  "(string \<Rightarrow> string) \<Rightarrow> (string \<Rightarrow> 'cs queued_execution_envelope option) option
     \<Rightarrow> job \<Rightarrow> time \<Rightarrow> job list \<Rightarrow> recovery_enqueue \<times> job list" where
  "enqueue_recovery_if_unowned canonical store j ownership_cutoff js0 =
     (let js = backfill_recovery_owner_scopes canonical store js0
      in if list_ex (\<lambda>q. job_id q = job_id j) js then (Existing, js)
         else case find (\<lambda>q.
             (job_status q = JobPending \<or> job_status q = JobRunning
              \<or> job_created_at q > ownership_cutoff)
             \<and> (same_workload_scope q j \<or> workload_scope q = None)) js of
           Some owner \<Rightarrow> (OwnedBy (job_id owner), js)
         | None \<Rightarrow> (Inserted, js @ [j]))"

text \<open>
  The effects of \<open>update\<close> beside the vector: the manifest it publishes for a terminal job and
  the timing row it records when observations are on. \<open>invalidate\<close> is the retention module's
  removal of a conflicting manifest, with its I/O error.
\<close>

record queue_terminal_timing =
  qtt_queue_job_id :: string
  qtt_queue_identity :: string
  qtt_disposition :: string
  qtt_started_at :: "time option"
  qtt_completed_at :: "time option"
  qtt_total_ms :: "int option"

text \<open>\<open>num_milliseconds\<close> truncates towards zero.\<close>

definition num_milliseconds :: "duration \<Rightarrow> int" where
  "num_milliseconds d = sgn d * (\<bar>d\<bar> div 1000000)"

definition classification_prior :: "job \<Rightarrow> job \<Rightarrow> job" where
  "classification_prior prior j =
     (if job_status prior = job_status j \<and> is_terminal_job (job_status j)
         \<and> (job_status j = JobCompleted \<or> job_started_at j \<noteq> None)
      then prior\<lparr>job_status := JobRunning\<rparr> else prior)"

fun disposition_str :: "queue_terminal_disposition \<Rightarrow> string option" where
  "disposition_str Clean = Some ''clean''"
| "disposition_str CancelledMidRun = Some ''cancelled_mid_run''"
| "disposition_str Uncertain = Some ''uncertain''"
| "disposition_str NoTiming = None"

definition update_timing :: "(time \<Rightarrow> string) \<Rightarrow> job \<Rightarrow> job \<Rightarrow> queue_terminal_timing option" where
  "update_timing rfc3339 prior j =
     map_option (\<lambda>d. \<lparr>
         qtt_queue_job_id = job_id j,
         qtt_queue_identity = queue_timing_identity rfc3339 j,
         qtt_disposition = d,
         qtt_started_at = job_started_at j,
         qtt_completed_at = job_completed_at j,
         qtt_total_ms = map_option (\<lambda>(s, e). num_milliseconds (e - s))
           (option_zip (job_started_at j) (job_completed_at j))\<rparr>)
       (Option.bind (classify_queue_terminal (classification_prior prior j) j) disposition_str)"

definition queue_update ::
  "(job \<Rightarrow> string option) \<Rightarrow> (time \<Rightarrow> string) \<Rightarrow> bool \<Rightarrow> job \<Rightarrow> job list
     \<Rightarrow> queue_error + (job option \<times> queue_terminal_timing option) \<times> job list" where
  "queue_update invalidate rfc3339 observe j js =
     (case find (\<lambda>q. job_id q = job_id j) js of
        None \<Rightarrow> Inl (StateConflict (''job '' @ job_id j @ '' is not present in the durable queue''))
      | Some queued \<Rightarrow>
          if job_status queued = JobRunning \<and> cancel_requested_at queued \<noteq> None
             \<and> (cancel_requested_at j \<noteq> cancel_requested_at queued
                \<or> cancellation_reason j \<noteq> cancellation_reason queued
                \<or> cancellation_proof j \<noteq> cancellation_proof queued)
          then Inl (StateConflict (''job '' @ job_id j @ '' has a newer cancellation request''))
          else if is_terminal_job (job_status queued) \<and> job_status queued \<noteq> job_status j
          then Inl (StateConflict (''job '' @ job_id j @ '' is already terminal as ''
                     @ job_status_debug (job_status queued)))
          else let terminal = is_terminal_job (job_status j)
            in case (if terminal then invalidate j else None) of
                 Some e \<Rightarrow> Inl (QueueIo e)
               | None \<Rightarrow> Inr ((if terminal then Some j else None,
                              if observe then update_timing rfc3339 queued j else None),
                    snd (trim_terminal (assign_first (\<lambda>q. job_id q = job_id j) j js))))"

text \<open>The manifest the recovery pass publishes; \<open>manifest_of\<close> is the retention module's.\<close>

definition publish_terminal_manifest_if_current ::
  "(job \<Rightarrow> 'm) \<Rightarrow> job \<Rightarrow> job list \<Rightarrow> job option" where
  "publish_terminal_manifest_if_current manifest_of recovered js =
     (case find (\<lambda>j. job_id j = job_id recovered) js of
        None \<Rightarrow> None
      | Some current \<Rightarrow>
          if \<not> is_terminal_job (job_status current)
             \<or> manifest_of current \<noteq> manifest_of recovered then None else Some current)"

definition request_cancel_with_proof ::
  "time \<Rightarrow> string \<Rightarrow> string option \<Rightarrow> cancellation_proof option \<Rightarrow> job list
     \<Rightarrow> queue_error + job option \<times> job list" where
  "request_cancel_with_proof now jid reason prf js =
     (case find (\<lambda>j. job_id j = jid) js of
        None \<Rightarrow> Inr (None, js)
      | Some j \<Rightarrow> (case request_cancel_with_reason_and_proof now reason prf j of
          Inl e \<Rightarrow> Inl (StateConflict (transition_error_string e))
        | Inr requested \<Rightarrow>
            Inr (Some requested,
                 snd (trim_terminal (assign_first (\<lambda>j. job_id j = jid) requested js)))))"

definition request_cancel ::
  "time \<Rightarrow> string \<Rightarrow> string option \<Rightarrow> job list \<Rightarrow> queue_error + job option \<times> job list" where
  "request_cancel now jid reason js = request_cancel_with_proof now jid reason None js"

definition queue_get :: "string \<Rightarrow> job list \<Rightarrow> job option" where
  "queue_get jid js = find (\<lambda>j. job_id j = jid) js"

definition get_running :: "job list \<Rightarrow> job list" where
  "get_running js = filter (\<lambda>j. job_status j = JobRunning) js"

definition get_active :: "job list \<Rightarrow> job option" where
  "get_active js = (case get_running js of [] \<Rightarrow> None | j # _ \<Rightarrow> Some j)"

definition get_recent :: "nat \<Rightarrow> job list \<Rightarrow> job list" where
  "get_recent limit js =
     take limit (sort_recent_completed (filter (\<lambda>j. is_terminal_job (job_status j)) js))"

definition get_pending :: "job list \<Rightarrow> job list" where
  "get_pending js = pending_jobs_sorted js"

definition next_pending :: "job list \<Rightarrow> job option" where
  "next_pending js = (case get_pending js of [] \<Rightarrow> None | j # _ \<Rightarrow> Some j)"

definition pending_count :: "job list \<Rightarrow> nat" where
  "pending_count js = length (filter (\<lambda>j. job_status j = JobPending) js)"

definition running_count :: "job list \<Rightarrow> nat" where
  "running_count js = length (filter (\<lambda>j. job_status j = JobRunning) js)"

text \<open>\<open>let _ = trim_terminal(jobs)\<close> after a body.\<close>

definition then_trim :: "'a \<times> job list \<Rightarrow> 'a \<times> job list" where
  "then_trim r = (fst r, snd (trim_terminal (snd r)))"

definition recover_stale_running_jobs_for_drain :: "clock \<Rightarrow> job list \<Rightarrow> job list \<times> job list" where
  "recover_stale_running_jobs_for_drain clk js = then_trim (recover_stale_running_jobs clk js)"

definition recover_selected_running_jobs_for_drain ::
  "clock \<Rightarrow> string list \<Rightarrow> job list \<Rightarrow> job list \<times> job list" where
  "recover_selected_running_jobs_for_drain clk ids js =
     then_trim (recover_running_jobs_matching clk (\<lambda>j. job_id j \<in> set ids) js)"

definition trim_terminal_jobs_for_drain :: "job list \<Rightarrow> string list \<times> job list" where
  "trim_terminal_jobs_for_drain js = trim_terminal js"

text \<open>\<open>request_status\<close> is the caller's envelope probe.\<close>

definition cancel_orphan_pending_jobs_for_drain ::
  "clock \<Rightarrow> (job \<Rightarrow> string + bool) \<Rightarrow> job list \<Rightarrow> job list \<times> job list" where
  "cancel_orphan_pending_jobs_for_drain clk request_status js =
     then_trim (update_rows clk (\<lambda>j. job_status j = JobPending \<and> request_status j \<noteq> Inr True)
       (\<lambda>now j. ok_of (cancel_with_reason now
          (Some (case request_status j of
                   Inl e \<Rightarrow> orphan_request_message @ '': '' @ e
                 | Inr _ \<Rightarrow> orphan_request_message)) j)) js)"

definition start_pending_jobs_for_drain ::
  "clock \<Rightarrow> string list \<Rightarrow> job list \<Rightarrow> job list \<times> job list" where
  "start_pending_jobs_for_drain clk ids js =
     select_loop clk id (\<lambda>_ j. job_status j = JobPending) (\<lambda>_ now j. ok_of (job_start now j)) [] ids js"

definition cancel_pending_jobs_for_drain ::
  "clock \<Rightarrow> queue_pending_cancellation list \<Rightarrow> job list \<Rightarrow> job list \<times> job list" where
  "cancel_pending_jobs_for_drain clk cancellations js =
     then_trim (select_loop clk qpc_job_id (\<lambda>_ j. job_status j = JobPending)
       (\<lambda>c now j. ok_of (cancel_with_reason_and_proof now (Some (qpc_reason c)) (qpc_proof c) j))
       [] cancellations js)"

definition cancel_stale_running_jobs ::
  "clock \<Rightarrow> string list \<Rightarrow> time \<Rightarrow> duration \<Rightarrow> string \<Rightarrow> job list \<Rightarrow> job list \<times> job list" where
  "cancel_stale_running_jobs clk ids now stale_after reason js =
     then_trim (select_loop clk id (\<lambda>_ j. is_stale_running now stale_after j)
       (\<lambda>_ t j. ok_of (cancel_with_reason t (Some reason) j)) [] ids js)"

definition requeue_deferred_running_jobs ::
  "queue_deferred_requeue list \<Rightarrow> job list \<Rightarrow> job list \<times> job list" where
  "requeue_deferred_running_jobs requeues js =
     select_loop (\<lambda>_. 0) qdr_job_id (\<lambda>_ j. job_status j = JobRunning)
       (\<lambda>r _ j. if cancel_requested_at j \<noteq> None then Some j
                else ok_of (defer_for_scheduler (qdr_reason r) (qdr_defer_until r) j))
       [] requeues js"

text \<open>
  The operations that find one row, change it in place and return it:
  \<open>jobs.iter_mut().find(sel)\<close>.
\<close>

definition update_one :: "(job \<Rightarrow> bool) \<Rightarrow> (job \<Rightarrow> job) \<Rightarrow> job list \<Rightarrow> job option \<times> job list" where
  "update_one sel f js = (case find sel js of
       None \<Rightarrow> (None, js)
     | Some j \<Rightarrow> (Some (f j), assign_first sel (f j) js))"

definition requeue_deferred_daemon_worker ::
  "queue_deferred_requeue \<Rightarrow> job list \<Rightarrow> job option \<times> job list" where
  "requeue_deferred_daemon_worker r js =
     update_one (\<lambda>j. job_id j = qdr_job_id r \<and> job_status j = JobRunning)
       (\<lambda>j. if cancel_requested_at j = None
            then j\<lparr>scheduler_defer_reason := Some (qdr_reason r),
                   scheduler_defer_count := u32_saturating_add (scheduler_defer_count j) 1,
                   scheduler_defer_until := qdr_defer_until r\<rparr>
            else j) js"

definition requeue_running_after_reboot ::
  "string \<Rightarrow> string \<Rightarrow> job list \<Rightarrow> job option \<times> job list" where
  "requeue_running_after_reboot jid reason js =
     update_one (\<lambda>j. job_id j = jid \<and> job_status j = JobRunning \<and> cancel_requested_at j = None)
       (\<lambda>j. j\<lparr>scheduler_defer_reason := Some reason,
              scheduler_defer_count := u32_saturating_add (scheduler_defer_count j) 1,
              scheduler_defer_until := None,
              job_status := JobPending\<rparr>) js"

definition finalize_deferred_daemon_worker :: "string \<Rightarrow> job list \<Rightarrow> job option \<times> job list" where
  "finalize_deferred_daemon_worker jid js =
     update_one (\<lambda>j. job_id j = jid \<and> job_status j = JobRunning \<and> cancel_requested_at j = None
                     \<and> scheduler_defer_reason j \<noteq> None)
       (\<lambda>j. j\<lparr>job_status := JobPending\<rparr>) js"

definition complete_running_uncertain ::
  "(job \<Rightarrow> string option) \<Rightarrow> time \<Rightarrow> string \<Rightarrow> string \<Rightarrow> job list \<Rightarrow> queue_error + job option \<times> job list"
where
  "complete_running_uncertain invalidate now jid reason js =
     (let sel = (\<lambda>j. job_id j = jid \<and> job_status j = JobRunning)
      in case find sel js of
           None \<Rightarrow> Inr (None, js)
         | Some j \<Rightarrow>
             if cancel_requested_at j \<noteq> None then Inr (Some j, js)
             else let completed = j\<lparr>
                      job_results := uncertain_results reason (target_names j) (job_results j),
                      job_status := JobCompleted,
                      job_completed_at := Some now\<rparr>
               in case invalidate completed of
                    Some e \<Rightarrow> Inl (QueueIo e)
                  | None \<Rightarrow> Inr (Some completed, snd (trim_terminal (assign_first sel completed js))))"

definition finalize_audited_receiptless_cancel ::
  "(job \<Rightarrow> string option) \<Rightarrow> time \<Rightarrow> job list \<Rightarrow> job \<Rightarrow> string \<Rightarrow> cancellation_proof \<Rightarrow> job list
     \<Rightarrow> queue_error + job option \<times> job list" where
  "finalize_audited_receiptless_cancel invalidate now expected_jobs expected reason prf js =
     (if js \<noteq> expected_jobs
      then Inl (StateConflict ''queue changed after receiptless orphan audit'')
      else case find (\<lambda>j. job_id j = job_id expected) js of
        None \<Rightarrow> Inr (None, js)
      | Some j \<Rightarrow>
          if j \<noteq> expected
          then Inl (StateConflict (''receiptless orphan '' @ job_id expected @ '' changed after audit''))
          else if job_status j \<noteq> JobRunning \<or> cancel_requested_at j = None
          then Inl (StateConflict (''receiptless orphan '' @ job_id expected
                     @ '' is not a cancel-requested running job''))
          else case cancel_with_reason_and_proof now (Some reason) (Some prf) j of
            Inl e \<Rightarrow> Inl (StateConflict (transition_error_string e))
          | Inr cancelled \<Rightarrow> (case invalidate cancelled of
              Some e \<Rightarrow> Inl (QueueIo e)
            | None \<Rightarrow> Inr (Some cancelled,
                assign_first (\<lambda>j. job_id j = job_id expected) cancelled js)))"

definition reclassify_completed_uncertain ::
  "(job \<Rightarrow> string option) \<Rightarrow> job \<Rightarrow> string \<Rightarrow> job list \<Rightarrow> queue_error + job option \<times> job list" where
  "reclassify_completed_uncertain invalidate expected reason js =
     (let sel = (\<lambda>j. job_id j = job_id expected \<and> j = expected)
      in case find sel js of
           None \<Rightarrow> Inr (None, js)
         | Some j \<Rightarrow>
             if job_status j \<noteq> JobCompleted then Inr (None, js)
             else let completed = j\<lparr>
                      job_results := uncertain_results reason (target_names j) (job_results j)\<rparr>
               in case invalidate completed of
                    Some e \<Rightarrow> Inl (QueueIo e)
                  | None \<Rightarrow> Inr (Some completed, snd (trim_terminal (assign_first sel completed js))))"

section \<open>The queue file\<close>

text \<open>
  \<open>parse_value\<close>, \<open>print_value\<close>, \<open>job_from_value\<close>, \<open>jobs_from_value\<close> and \<open>job_to_value\<close> are
  \<open>serde_json\<close> on the derived formats. The file is its content, or absent.
\<close>

record codec =
  parse_value :: "string \<Rightarrow> string + json"
  print_value :: "json \<Rightarrow> string + string"
  job_from_value :: "json \<Rightarrow> string + job"
  jobs_from_value :: "json \<Rightarrow> string + job list"
  job_to_value :: "job \<Rightarrow> json"

definition parse_jobs_payload :: "codec \<Rightarrow> string \<Rightarrow> job list" where
  "parse_jobs_payload c raw =
     (if trim raw = [] then []
      else case parse_value c raw of
        Inl _ \<Rightarrow> []
      | Inr parsed \<Rightarrow> (case Option.bind (json_get ''jobs'' parsed) as_array of
          None \<Rightarrow> []
        | Some rows \<Rightarrow> (case collect_results (map (job_from_value c) rows) of
            Inl _ \<Rightarrow> []
          | Inr js \<Rightarrow> js)))"

definition parse_jobs_payload_strict :: "codec \<Rightarrow> string \<Rightarrow> queue_error + job list" where
  "parse_jobs_payload_strict c raw =
     (case parse_value c raw of
        Inl e \<Rightarrow> Inl (QueueJson e)
      | Inr parsed \<Rightarrow> (case json_get ''jobs'' parsed of
          None \<Rightarrow> Inl (StateConflict ''durable queue payload is missing its jobs array'')
        | Some rows \<Rightarrow> (case jobs_from_value c rows of
            Inl e \<Rightarrow> Inl (QueueJson e)
          | Inr js \<Rightarrow> Inr js)))"

text \<open>
  \<open>read_fault\<close> is a read error other than \<open>NotFound\<close>, \<open>write_fault\<close> an error of any write
  before the atomic rename has replaced the file.
\<close>

definition read_jobs_from_disk ::
  "codec \<Rightarrow> string option \<Rightarrow> string option \<Rightarrow> queue_error + job list" where
  "read_jobs_from_disk c read_fault disk = (case read_fault of
       Some e \<Rightarrow> Inl (QueueIo e)
     | None \<Rightarrow> (case disk of None \<Rightarrow> Inr [] | Some raw \<Rightarrow> Inr (parse_jobs_payload c raw)))"

definition read_jobs_from_disk_strict ::
  "codec \<Rightarrow> string option \<Rightarrow> string option \<Rightarrow> queue_error + job list" where
  "read_jobs_from_disk_strict c read_fault disk = (case read_fault of
       Some e \<Rightarrow> Inl (QueueIo e)
     | None \<Rightarrow> (case disk of None \<Rightarrow> Inr [] | Some raw \<Rightarrow> parse_jobs_payload_strict c raw))"

definition save_jobs_to_disk ::
  "codec \<Rightarrow> string option \<Rightarrow> job list \<Rightarrow> queue_error + string" where
  "save_jobs_to_disk c write_fault js =
     (case print_value c (JObject [(''jobs'', JArray (map (job_to_value c) js))]) of
        Inl e \<Rightarrow> Inl (QueueJson e)
      | Inr payload \<Rightarrow> (case write_fault of
          Some e \<Rightarrow> Inl (QueueIo e)
        | None \<Rightarrow> Inr (payload @ [CHR 0x0A])))"

definition locked_with ::
  "(string option \<Rightarrow> queue_error + job list) \<Rightarrow> codec \<Rightarrow> string option
     \<Rightarrow> (job list \<Rightarrow> queue_error + 'a \<times> job list) \<Rightarrow> string option
     \<Rightarrow> (queue_error + 'a) \<times> string option" where
  "locked_with read c write_fault f disk =
     (case read disk of
        Inl e \<Rightarrow> (Inl e, disk)
      | Inr js \<Rightarrow> (case f js of
          Inl e \<Rightarrow> (Inl e, disk)
        | Inr (out, js') \<Rightarrow> (case save_jobs_to_disk c write_fault js' of
            Inl e \<Rightarrow> (Inl e, disk)
          | Inr payload \<Rightarrow> (Inr out, Some payload))))"

definition with_jobs_locked ::
  "codec \<Rightarrow> string option \<Rightarrow> string option \<Rightarrow> (job list \<Rightarrow> queue_error + 'a \<times> job list)
     \<Rightarrow> string option \<Rightarrow> (queue_error + 'a) \<times> string option" where
  "with_jobs_locked c read_fault write_fault f disk =
     locked_with (read_jobs_from_disk c read_fault) c write_fault f disk"

definition with_jobs_locked_strict ::
  "codec \<Rightarrow> string option \<Rightarrow> string option \<Rightarrow> (job list \<Rightarrow> queue_error + 'a \<times> job list)
     \<Rightarrow> string option \<Rightarrow> (queue_error + 'a) \<times> string option" where
  "with_jobs_locked_strict c read_fault write_fault f disk =
     locked_with (read_jobs_from_disk_strict c read_fault) c write_fault f disk"

section \<open>Replacing the file\<close>

record replace_retry_policy =
  attempts :: nat
  base_delay :: nat

definition default_replace_retry_policy :: replace_retry_policy where
  "default_replace_retry_policy = \<lparr>attempts = 18, base_delay = 50000000\<rparr>"

datatype replace_error = PermissionDenied string | OtherIoError string

text \<open>Durations here are numbers of nanoseconds, multiplied in \<open>u128\<close> and capped at \<open>u64\<close>.\<close>

definition scaled_delay :: "nat \<Rightarrow> nat \<Rightarrow> nat" where
  "scaled_delay base multiplier = min (min (base * multiplier) (2 ^ 128 - 1)) (2 ^ 64 - 1)"

definition random_jitter :: "nat \<Rightarrow> nat \<Rightarrow> nat" where
  "random_jitter seed max_nanos =
     (if max_nanos = 0 then 0 else min (seed mod max_nanos) (2 ^ 64 - 1))"

text \<open>
  The attempt loop: \<open>replace i\<close> is the outcome of attempt \<open>i\<close>, \<open>jitter i\<close> the jitter drawn
  after it. The value is the outcome with the sleeps made; \<open>None\<close> is the \<open>expect\<close> failing.
\<close>

fun retry_attempts ::
  "(nat \<Rightarrow> replace_error option) \<Rightarrow> (nat \<Rightarrow> nat \<Rightarrow> nat) \<Rightarrow> nat \<Rightarrow> nat \<Rightarrow> replace_error option \<Rightarrow> nat
     \<Rightarrow> nat \<Rightarrow> replace_error option option \<times> nat list" where
  "retry_attempts replace jitter base limit last_error i 0 =
     (case last_error of None \<Rightarrow> (None, []) | Some e \<Rightarrow> (Some (Some e), []))"
| "retry_attempts replace jitter base limit last_error i (Suc n) =
     (case replace i of
        None \<Rightarrow> (Some None, [])
      | Some (PermissionDenied m) \<Rightarrow>
          if i + 1 = limit then (Some (Some (PermissionDenied m)), [])
          else let d = scaled_delay base (i + 1);
                   (r, sleeps) = retry_attempts replace jitter base limit
                     (Some (PermissionDenied m)) (i + 1) n
               in (r, (d div 2 + jitter i d) # sleeps)
      | Some (OtherIoError m) \<Rightarrow> (Some (Some (OtherIoError m)), []))"

definition retry_replace_with_strategy ::
  "bool \<Rightarrow> replace_retry_policy \<Rightarrow> (nat \<Rightarrow> replace_error option) \<Rightarrow> (nat \<Rightarrow> nat \<Rightarrow> nat)
     \<Rightarrow> replace_error option option \<times> nat list" where
  "retry_replace_with_strategy is_windows policy replace jitter =
     (if \<not> is_windows then (Some (replace 0), [])
      else let limit = max (attempts policy) 1
        in retry_attempts replace jitter (base_delay policy) limit None 0 limit)"

section \<open>What every operation keeps\<close>

lemma is_terminal_job_iff [simp]: "is_terminal_job (job_status j) \<longleftrightarrow> job_terminal j"
  by (cases "job_status j") (simp_all add: job_terminal_def)

text \<open>
  One row's change within an operation: its id stays, a terminal status stays, and so does the
  time of a cancellation request.
\<close>

definition advances :: "job \<Rightarrow> job \<Rightarrow> bool" where
  "advances j j' =
     (job_id j' = job_id j \<and> (job_terminal j \<longrightarrow> job_status j' = job_status j)
      \<and> (cancel_requested_at j \<noteq> None \<longrightarrow> cancel_requested_at j' = cancel_requested_at j))"

text \<open>The weaker form \<open>update\<close> guarantees: the request is protected while the job runs.\<close>

definition guarded :: "job \<Rightarrow> job \<Rightarrow> bool" where
  "guarded j j' =
     (job_id j' = job_id j \<and> (job_terminal j \<longrightarrow> job_status j' = job_status j)
      \<and> (job_status j = JobRunning \<and> cancel_requested_at j \<noteq> None \<longrightarrow>
           cancel_requested_at j' = cancel_requested_at j))"

lemma advances_guarded: "advances j j' \<Longrightarrow> guarded j j'"
  by (simp add: advances_def guarded_def)

lemma guarded_refl [simp]: "guarded j j"
  by (simp add: guarded_def)

lemma advances_refl [simp]: "advances j j"
  by (simp add: advances_def)

lemma advances_trans: "advances a b \<Longrightarrow> advances b c \<Longrightarrow> advances a c"
  by (auto simp: advances_def job_terminal_def)

text \<open>
  The contract of a queue operation on the rows: no id appears that was not there, ids stay
  unique, a terminal status never changes, a running job's cancellation request is not lost,
  and a row is dropped only when the bounded history of terminal rows is full.
\<close>

locale queue_operation =
  fixes op :: "job list \<Rightarrow> job list"
  assumes ids: "job_id ` set (op js) \<subseteq> job_id ` set js"
    and unique: "distinct (map job_id js) \<Longrightarrow> distinct (map job_id (op js))"
    and terminal_kept: "distinct (map job_id js) \<Longrightarrow> j \<in> set js \<Longrightarrow> j' \<in> set (op js) \<Longrightarrow>
          job_id j' = job_id j \<Longrightarrow> job_terminal j \<Longrightarrow> job_status j' = job_status j"
    and request_kept: "distinct (map job_id js) \<Longrightarrow> j \<in> set js \<Longrightarrow> j' \<in> set (op js) \<Longrightarrow>
          job_id j' = job_id j \<Longrightarrow> job_status j = JobRunning \<Longrightarrow> cancel_requested_at j = Some t \<Longrightarrow>
          cancel_requested_at j' = Some t"
    and dropped: "j \<in> set js \<Longrightarrow> job_id j \<notin> job_id ` set (op js) \<Longrightarrow>
          length (filter job_terminal (op js)) = keep_completed"
begin

lemma absent_stays: "jid \<notin> job_id ` set js \<Longrightarrow> queue_get jid (op js) = None"
  using ids by (auto simp: queue_get_def find_None_iff)

lemma kept_below_bound:
  assumes "j \<in> set js" and "length (filter job_terminal (op js)) < keep_completed"
  shows "\<exists>j'. queue_get (job_id j) (op js) = Some j' \<and> job_id j' = job_id j"
proof -
  have "job_id j \<in> job_id ` set (op js)" using dropped [OF assms(1)] assms(2) by auto
  then show ?thesis
    by (cases "queue_get (job_id j) (op js)")
       (auto simp: queue_get_def find_None_iff dest: find_SomeD)
qed

lemma terminal_found:
  assumes "distinct (map job_id js)" and "queue_get jid js = Some j" and "job_terminal j"
  shows "\<forall>j'. queue_get jid (op js) = Some j' \<longrightarrow> job_status j' = job_status j"
  using assms terminal_kept by (auto simp: queue_get_def dest!: find_SomeD)

end

locale request_preserving_operation = queue_operation +
  assumes any_request_kept: "distinct (map job_id js) \<Longrightarrow> j \<in> set js \<Longrightarrow> j' \<in> set (op js) \<Longrightarrow>
          job_id j' = job_id j \<Longrightarrow> cancel_requested_at j = Some t \<Longrightarrow>
          cancel_requested_at j' = Some t"

lemma list_all2_guarded_ids: "list_all2 guarded js js' \<Longrightarrow> map job_id js' = map job_id js"
  by (induction rule: list_all2_induct) (auto simp: guarded_def)

lemma list_all2_advances_refl [simp]: "list_all2 advances js js"
  by (simp add: list_all2_same)

lemma list_all2_row:
  assumes "list_all2 R js js'" and "\<And>a b. R a b \<Longrightarrow> job_id b = job_id a"
    and "distinct (map job_id js)" and "j \<in> set js" and "j' \<in> set js'" and "job_id j' = job_id j"
  shows "R j j'"
proof -
  from assms(1,5) obtain i where i: "i < length js" "j' = js' ! i" "R (js ! i) j'"
    by (auto simp: in_set_conv_nth list_all2_conv_all_nth)
  then have "job_id (js ! i) = job_id j" using assms(2,6) by metis
  with assms(3,4) i have "js ! i = j" using distinct_key_eq nth_mem by metis
  with i show ?thesis by simp
qed

lemma rowwise_queue_operation:
  assumes "\<And>js. list_all2 guarded js (op js)"
  shows "queue_operation op"
proof
  fix js j j' t
  have ids: "map job_id (op js) = map job_id js" using assms list_all2_guarded_ids by blast
  then have set_ids: "job_id ` set (op js) = job_id ` set js" by (metis list.set_map)
  show "job_id ` set (op js) \<subseteq> job_id ` set js" by (simp add: set_ids)
  show "distinct (map job_id js) \<Longrightarrow> distinct (map job_id (op js))" by (simp add: ids)
  show "j \<in> set js \<Longrightarrow> job_id j \<notin> job_id ` set (op js) \<Longrightarrow>
      length (filter job_terminal (op js)) = keep_completed"
    by (simp add: set_ids)
  assume "distinct (map job_id js)" "j \<in> set js" "j' \<in> set (op js)" "job_id j' = job_id j"
  then have adv: "guarded j j'" using list_all2_row [OF assms] by (simp add: guarded_def)
  then show "job_terminal j \<Longrightarrow> job_status j' = job_status j"
    and "job_status j = JobRunning \<Longrightarrow> cancel_requested_at j = Some t \<Longrightarrow>
      cancel_requested_at j' = Some t" by (simp_all add: guarded_def)
qed

lemma rowwise_operation:
  assumes "\<And>js. list_all2 advances js (op js)"
  shows "request_preserving_operation op"
proof (rule request_preserving_operation.intro)
  show "queue_operation op"
    by (rule rowwise_queue_operation) (metis assms advances_guarded list_all2_mono)
  show "request_preserving_operation_axioms op"
  proof
    fix js j j' t
    assume "distinct (map job_id js)" "j \<in> set js" "j' \<in> set (op js)" "job_id j' = job_id j"
      and t: "cancel_requested_at j = Some t"
    then have "advances j j'" using list_all2_row [OF assms] by (simp add: advances_def)
    with t show "cancel_requested_at j' = Some t" by (simp add: advances_def)
  qed
qed

subsection \<open>The loops\<close>

lemma assign_first_advances:
  "find P js = Some j \<Longrightarrow> advances j j' \<Longrightarrow> list_all2 advances js (assign_first P j' js)"
  by (induction js) (auto split: if_splits)

lemma assign_first_guarded:
  "find P js = Some j \<Longrightarrow> guarded j j' \<Longrightarrow> list_all2 guarded js (assign_first P j' js)"
  by (induction js) (auto split: if_splits simp: list_all2_same guarded_def)

lemma update_rows_advances:
  assumes "\<And>now j j'. sel j \<Longrightarrow> f now j = Some j' \<Longrightarrow> advances j j'"
  shows "list_all2 advances js (snd (update_rows clk sel f js))"
proof (induction js arbitrary: clk)
  case (Cons j js)
  with assms show ?case by (cases "f (clk 0) j") (auto simp: split_beta)
qed simp

lemma list_all2_advances_trans:
  "list_all2 advances a b \<Longrightarrow> list_all2 advances b c \<Longrightarrow> list_all2 advances a c"
  by (rule list_all2_trans [of advances advances advances, OF advances_trans])

lemma select_loop_advances:
  assumes "\<And>c now j j'. sel c j \<Longrightarrow> step c now j = Some j' \<Longrightarrow> advances j j'"
  shows "list_all2 advances js (snd (select_loop clk key sel step seen cs js))"
proof (induction cs arbitrary: clk seen js)
  case (Cons c cs)
  let ?P = "\<lambda>j. job_id j = key c \<and> sel c j"
  show ?case
  proof (cases "key c \<in> set seen")
    case True
    then show ?thesis using Cons.IH by simp
  next
    case new: False
    show ?thesis
    proof (cases "find ?P js")
      case None
      with new Cons.IH show ?thesis by simp
    next
      case (Some j)
      show ?thesis
      proof (cases "step c (clk 0) j")
        case None
        with new Some Cons.IH show ?thesis by simp
      next
        case (Some j')
        have "advances j j'"
          using assms \<open>find ?P js = Some j\<close> Some by (blast dest: find_SomeD)
        from assign_first_advances [OF \<open>find ?P js = Some j\<close> this] Cons.IH
        have "list_all2 advances js (snd (select_loop (clk \<circ> Suc) key sel step (key c # seen) cs
            (assign_first ?P j' js)))"
          by (rule list_all2_advances_trans)
        with new Some \<open>find ?P js = Some j\<close> show ?thesis by (simp add: split_beta Let_def)
      qed
    qed
  qed
qed simp

lemma update_one_advances:
  "(\<And>j. sel j \<Longrightarrow> advances j (f j)) \<Longrightarrow> list_all2 advances js (snd (update_one sel f js))"
  by (auto simp: update_one_def split: option.split intro!: assign_first_advances
      dest: find_SomeD)

lemma cancel_advances: "cancel_with_reason_and_proof now reason prf j = Inr j' \<Longrightarrow> advances j j'"
  by (auto simp: cancel_Inr advances_def)

lemma transition_advances:
  "ok_of (job_start now j) = Some j' \<Longrightarrow> advances j j'"
  "ok_of (cancel_with_reason_and_proof now reason prf j) = Some j' \<Longrightarrow> advances j j'"
  "ok_of (cancel_with_reason now reason j) = Some j' \<Longrightarrow> advances j j'"
  "ok_of (defer_for_scheduler why til j) = Some j' \<Longrightarrow> advances j j'"
  by (auto simp: ok_of_def job_defs advances_def job_terminal_def option_or_def
      split: sum.splits if_splits option.splits)

lemma request_cancel_advances:
  assumes "request_cancel_with_reason_and_proof now reason prf j = Inr j'"
  shows "advances j j'"
  using assms
  by (cases "job_status j")
     (auto simp: request_cancel_with_reason_and_proof_def cancel_with_reason_and_proof_def Let_def
        advances_def job_terminal_def option_or_def split: if_splits option.splits)

subsection \<open>Trimming\<close>

lemma sort_recent_completed_mset [simp]: "mset (sort_recent_completed js) = mset js"
  by (simp add: sort_recent_completed_def)

lemma sort_recent_completed_set [simp]: "set (sort_recent_completed js) = set js"
  by (simp add: sort_recent_completed_def)

lemma trim_terminal_rows:
  "snd (trim_terminal js) = filter (\<lambda>j. \<not> job_terminal j) js
     @ take keep_completed (sort_recent_completed (filter job_terminal js))"
  by (simp add: trim_terminal_def Let_def)

lemma trim_terminal_subset: "set (snd (trim_terminal js)) \<subseteq> set js"
  using set_take_subset by (fastforce simp: trim_terminal_rows)

lemma trim_terminal_live:
  "filter (\<lambda>j. \<not> job_terminal j) (snd (trim_terminal js)) = filter (\<lambda>j. \<not> job_terminal j) js"
proof -
  have "filter (\<lambda>j. \<not> job_terminal j) (take keep_completed (sort_recent_completed (filter job_terminal js))) = []"
    using set_take_subset by (fastforce simp: filter_empty_conv)
  then show ?thesis by (simp add: trim_terminal_rows)
qed

lemma distinct_map_mset: "mset xs = mset ys \<Longrightarrow> distinct (map f xs) = distinct (map f ys)"
  by (metis mset_eq_imp_distinct_iff mset_map)

lemma distinct_map_filter_split:
  "distinct (map f xs) \<Longrightarrow> distinct (map f (filter P xs))"
  "distinct (map f xs) \<Longrightarrow> f ` set (filter P xs) \<inter> f ` set (filter (\<lambda>x. \<not> P x) xs) = {}"
  by (auto simp: distinct_map inj_on_def)

lemma trim_terminal_distinct:
  assumes "distinct (map job_id js)"
  shows "distinct (map job_id (snd (trim_terminal js)))"
proof -
  let ?kept = "take keep_completed (sort_recent_completed (filter job_terminal js))"
  have "distinct (map job_id (sort_recent_completed (filter job_terminal js)))"
    using distinct_map_filter_split(1) [OF assms] distinct_map_mset sort_recent_completed_mset
    by blast
  then have "distinct (map job_id ?kept)"
    by (metis distinct_take take_map)
  moreover have "set ?kept \<subseteq> set (filter job_terminal js)"
    using set_take_subset by fastforce
  ultimately show ?thesis
    using distinct_map_filter_split [OF assms, of "\<lambda>j. \<not> job_terminal j"]
    by (auto simp: trim_terminal_rows)
qed

text \<open>At most 25 terminal rows are left, and they are the most recently finished ones.\<close>

lemma trim_terminal_bound:
  "length (filter job_terminal (snd (trim_terminal js))) =
     min keep_completed (length (filter job_terminal js))"
proof -
  let ?kept = "take keep_completed (sort_recent_completed (filter job_terminal js))"
  have "filter job_terminal ?kept = ?kept"
    using set_take_subset by (fastforce intro: filter_True)
  then show ?thesis
    by (simp add: trim_terminal_rows sort_recent_completed_def filter_empty_conv)
qed

lemma recent_comparator:
  "comparator (\<lambda>l r. cmp (completed_sort_time r) (completed_sort_time l))"
proof -
  have "comparator (\<lambda>l r. cmp (- completed_sort_time l) (- completed_sort_time r))"
    by (rule comparator_on_key)
  moreover have "cmp (- completed_sort_time l) (- completed_sort_time r) =
      cmp (completed_sort_time r) (completed_sort_time l)" for l r
    by (simp add: cmp_def)
  ultimately show ?thesis by simp
qed

interpretation recent: comparator "\<lambda>l r. cmp (completed_sort_time r) (completed_sort_time l)"
  by (rule recent_comparator)

lemma trim_terminal_newest:
  assumes "k \<in> set (snd (trim_terminal js))" and "job_terminal k"
    and "d \<in> set js" and "job_terminal d" and "d \<notin> set (snd (trim_terminal js))"
  shows "completed_sort_time d \<le> completed_sort_time k"
proof -
  let ?s = "sort_recent_completed (filter job_terminal js)"
  have "sorted_wrt (\<lambda>x y. completed_sort_time y \<le> completed_sort_time x)
      (take keep_completed ?s @ drop keep_completed ?s)"
    using recent.sorted_sort_by [of "filter job_terminal js"]
    by (simp add: sort_recent_completed_def not_less)
  moreover from assms(3,4,5) have "d \<in> set ?s" "d \<notin> set (take keep_completed ?s)"
    by (auto simp: trim_terminal_rows)
  then have "d \<in> set (drop keep_completed ?s)" by (metis Un_iff append_take_drop_id set_append)
  moreover have "k \<in> set (take keep_completed ?s)"
    using assms(1,2) by (auto simp: trim_terminal_rows)
  ultimately show ?thesis unfolding sorted_wrt_append by blast
qed

lemma trim_terminal_dropped:
  assumes "j \<in> set js" and "job_id j \<notin> job_id ` set (snd (trim_terminal js))"
  shows "length (filter job_terminal (snd (trim_terminal js))) = keep_completed"
proof -
  let ?s = "sort_recent_completed (filter job_terminal js)"
  from assms have "j \<notin> set (snd (trim_terminal js))" by blast
  with assms(1) have "j \<in> set ?s" "j \<notin> set (take keep_completed ?s)"
    by (auto simp: trim_terminal_rows)
  then have "keep_completed < length ?s" by (metis leI take_all)
  then show ?thesis
    unfolding trim_terminal_bound by (simp add: sort_recent_completed_def)
qed

lemma trimmed_queue_operation:
  assumes "queue_operation op"
  shows "queue_operation (\<lambda>js. snd (trim_terminal (op js)))"
proof
  note op = queue_operation.ids [OF assms] queue_operation.unique [OF assms]
    queue_operation.terminal_kept [OF assms] queue_operation.request_kept [OF assms]
    queue_operation.dropped [OF assms]
  fix js j j' t
  show "job_id ` set (snd (trim_terminal (op js))) \<subseteq> job_id ` set js"
    using op(1) [of js] trim_terminal_subset [of "op js"] by blast
  show "distinct (map job_id js) \<Longrightarrow> distinct (map job_id (snd (trim_terminal (op js))))"
    by (simp add: op(2) trim_terminal_distinct)
  show "j \<in> set js \<Longrightarrow> job_id j \<notin> job_id ` set (snd (trim_terminal (op js))) \<Longrightarrow>
      length (filter job_terminal (snd (trim_terminal (op js)))) = keep_completed"
  proof (cases "job_id j \<in> job_id ` set (op js)")
    case True
    assume "job_id j \<notin> job_id ` set (snd (trim_terminal (op js)))"
    with True trim_terminal_dropped show ?thesis by (metis imageE)
  next
    case False
    assume "j \<in> set js"
    with False op(5) show ?thesis by (simp add: trim_terminal_bound)
  qed
  assume "distinct (map job_id js)" "j \<in> set js" "j' \<in> set (snd (trim_terminal (op js)))"
    "job_id j' = job_id j"
  moreover from this have "j' \<in> set (op js)" using trim_terminal_subset by blast
  ultimately show "job_terminal j \<Longrightarrow> job_status j' = job_status j"
    and "job_status j = JobRunning \<Longrightarrow> cancel_requested_at j = Some t \<Longrightarrow>
        cancel_requested_at j' = Some t"
    using op(3,4) by blast+
qed

lemma trimmed_operation:
  assumes "request_preserving_operation op"
  shows "request_preserving_operation (\<lambda>js. snd (trim_terminal (op js)))"
proof (rule request_preserving_operation.intro)
  show "queue_operation (\<lambda>js. snd (trim_terminal (op js)))"
    using assms by (simp add: request_preserving_operation_def trimmed_queue_operation)
  show "request_preserving_operation_axioms (\<lambda>js. snd (trim_terminal (op js)))"
  proof
    fix js j j' t
    assume "distinct (map job_id js)" "j \<in> set js" "j' \<in> set (snd (trim_terminal (op js)))"
      "job_id j' = job_id j" "cancel_requested_at j = Some t"
    moreover from this have "j' \<in> set (op js)" using trim_terminal_subset by blast
    ultimately show "cancel_requested_at j' = Some t"
      using request_preserving_operation.any_request_kept [OF assms] by blast
  qed
qed

text \<open>An operation that may fail leaves the rows as they are when it does.\<close>

definition committed :: "(job list \<Rightarrow> queue_error + 'a \<times> job list) \<Rightarrow> job list \<Rightarrow> job list" where
  "committed f js = (case f js of Inl _ \<Rightarrow> js | Inr (_, js') \<Rightarrow> js')"

lemma identity_operation: "request_preserving_operation (\<lambda>js. js)"
  by (rule rowwise_operation) simp

text \<open>Two operations, chosen by a condition on the rows, make an operation.\<close>

lemma queue_operation_if:
  assumes "queue_operation f" and "queue_operation g"
  shows "queue_operation (\<lambda>js. if c js then f js else g js)"
proof
  note f = queue_operation.ids [OF assms(1)] queue_operation.unique [OF assms(1)]
    queue_operation.terminal_kept [OF assms(1)] queue_operation.request_kept [OF assms(1)]
    queue_operation.dropped [OF assms(1)]
  note g = queue_operation.ids [OF assms(2)] queue_operation.unique [OF assms(2)]
    queue_operation.terminal_kept [OF assms(2)] queue_operation.request_kept [OF assms(2)]
    queue_operation.dropped [OF assms(2)]
  fix js j j' t
  let ?op = "\<lambda>js. if c js then f js else g js"
  show "job_id ` set (?op js) \<subseteq> job_id ` set js" using f(1) g(1) by simp
  show "distinct (map job_id js) \<Longrightarrow> distinct (map job_id (?op js))" using f(2) g(2) by simp
  show "j \<in> set js \<Longrightarrow> job_id j \<notin> job_id ` set (?op js) \<Longrightarrow>
      length (filter job_terminal (?op js)) = keep_completed" using f(5) g(5) by (cases "c js") simp_all
  assume "distinct (map job_id js)" "j \<in> set js" "j' \<in> set (?op js)" "job_id j' = job_id j"
  then show "job_terminal j \<Longrightarrow> job_status j' = job_status j"
    and "job_status j = JobRunning \<Longrightarrow> cancel_requested_at j = Some t \<Longrightarrow>
        cancel_requested_at j' = Some t"
    using f(3,4) g(3,4) by (cases "c js"; simp)+
qed

lemma request_preserving_if:
  assumes "request_preserving_operation f" and "request_preserving_operation g"
  shows "request_preserving_operation (\<lambda>js. if c js then f js else g js)"
proof (rule request_preserving_operation.intro)
  show "queue_operation (\<lambda>js. if c js then f js else g js)"
    using assms by (simp add: request_preserving_operation_def queue_operation_if)
  show "request_preserving_operation_axioms (\<lambda>js. if c js then f js else g js)"
    using request_preserving_operation.any_request_kept [OF assms(1)]
      request_preserving_operation.any_request_kept [OF assms(2)]
    by (simp add: request_preserving_operation_axioms_def)
qed

section \<open>The operations keep the contract\<close>

lemma backfill_scope_advances: "advances j (backfill_scope canonical load j)"
  by (simp add: backfill_scope_def advances_def job_terminal_def split: option.splits)

lemma backfill_advances:
  "list_all2 advances js (backfill_pending_workload_scopes canonical store js)"
  "list_all2 advances js (backfill_recovery_owner_scopes canonical store js)"
  using backfill_scope_advances
  by (auto simp: backfill_pending_workload_scopes_def backfill_recovery_owner_scopes_def
      list.rel_map list_all2_same split: option.splits)

lemma cancel_superseded_advances: "list_all2 advances js (cancel_superseded_pending clk j js)"
  unfolding cancel_superseded_pending_def
  by (rule update_rows_advances) (auto dest: transition_advances)

lemma recover_running_advances:
  "list_all2 advances js (snd (recover_running_jobs_matching clk sel js))"
  unfolding recover_running_jobs_matching_def
  by (rule update_rows_advances) (auto simp: advances_def job_terminal_def)

lemma then_trim_snd: "snd (then_trim r) = snd (trim_terminal (snd r))"
  by (simp add: then_trim_def)

interpretation trim_op: request_preserving_operation "\<lambda>js. snd (trim_terminal_jobs_for_drain js)"
  using trimmed_operation [OF identity_operation] by (simp add: trim_terminal_jobs_for_drain_def)

interpretation supersede_op: request_preserving_operation
  "\<lambda>js. cancel_superseded_pending clk j (backfill_pending_workload_scopes canonical store js)"
  for clk j canonical store
  by (rule rowwise_operation)
     (rule list_all2_advances_trans [OF backfill_advances(1) cancel_superseded_advances])

interpretation owner_op: request_preserving_operation
  "backfill_recovery_owner_scopes canonical store" for canonical store
  by (rule rowwise_operation) (rule backfill_advances(2))

interpretation start_op: request_preserving_operation
  "\<lambda>js. snd (start_pending_jobs_for_drain clk ids js)" for clk ids
  unfolding start_pending_jobs_for_drain_def
  by (rule rowwise_operation, rule select_loop_advances) (rule transition_advances)

interpretation cancel_pending_op: request_preserving_operation
  "\<lambda>js. snd (cancel_pending_jobs_for_drain clk cs js)" for clk cs
  unfolding cancel_pending_jobs_for_drain_def then_trim_snd
  by (rule trimmed_operation, rule rowwise_operation, rule select_loop_advances)
     (rule transition_advances)

interpretation cancel_stale_op: request_preserving_operation
  "\<lambda>js. snd (cancel_stale_running_jobs clk ids now stale_after reason js)"
  for clk ids now stale_after reason
  unfolding cancel_stale_running_jobs_def then_trim_snd
  by (rule trimmed_operation, rule rowwise_operation, rule select_loop_advances)
     (rule transition_advances)

interpretation cancel_orphan_op: request_preserving_operation
  "\<lambda>js. snd (cancel_orphan_pending_jobs_for_drain clk status js)" for clk status
  unfolding cancel_orphan_pending_jobs_for_drain_def then_trim_snd
  by (rule trimmed_operation, rule rowwise_operation, rule update_rows_advances)
     (rule transition_advances)

interpretation requeue_op: request_preserving_operation
  "\<lambda>js. snd (requeue_deferred_running_jobs rs js)" for rs
  unfolding requeue_deferred_running_jobs_def
  by (rule rowwise_operation, rule select_loop_advances)
     (auto split: if_splits dest: transition_advances)

interpretation requeue_daemon_op: request_preserving_operation
  "\<lambda>js. snd (requeue_deferred_daemon_worker r js)" for r
  unfolding requeue_deferred_daemon_worker_def
  by (rule rowwise_operation, rule update_one_advances) (simp add: advances_def job_terminal_def)

interpretation reboot_op: request_preserving_operation
  "\<lambda>js. snd (requeue_running_after_reboot jid reason js)" for jid reason
  unfolding requeue_running_after_reboot_def
  by (rule rowwise_operation, rule update_one_advances) (simp add: advances_def job_terminal_def)

interpretation finalize_deferred_op: request_preserving_operation
  "\<lambda>js. snd (finalize_deferred_daemon_worker jid js)" for jid
  unfolding finalize_deferred_daemon_worker_def
  by (rule rowwise_operation, rule update_one_advances) (simp add: advances_def job_terminal_def)

interpretation recover_stale_op: request_preserving_operation
  "\<lambda>js. snd (recover_stale_running_jobs_for_drain clk js)" for clk
  unfolding recover_stale_running_jobs_for_drain_def recover_stale_running_jobs_def then_trim_snd
  by (rule trimmed_operation, rule rowwise_operation) (rule recover_running_advances)

interpretation recover_selected_op: request_preserving_operation
  "\<lambda>js. snd (recover_selected_running_jobs_for_drain clk ids js)" for clk ids
  unfolding recover_selected_running_jobs_for_drain_def then_trim_snd
  by (rule trimmed_operation, rule rowwise_operation) (rule recover_running_advances)

text \<open>The operations that replace one row and may fail.\<close>

definition replace_row :: "(job \<Rightarrow> bool) \<Rightarrow> (job \<Rightarrow> job option) \<Rightarrow> job list \<Rightarrow> job list" where
  "replace_row sel f js = (case find sel js of
       None \<Rightarrow> js
     | Some j \<Rightarrow> (case f j of None \<Rightarrow> js | Some j' \<Rightarrow> assign_first sel j' js))"

lemma replace_row_operation:
  assumes "\<And>j j'. sel j \<Longrightarrow> f j = Some j' \<Longrightarrow> advances j j'"
  shows "request_preserving_operation (replace_row sel f)"
  using assms
  by (intro rowwise_operation)
     (auto simp: replace_row_def split: option.splits intro!: assign_first_advances dest: find_SomeD)

lemma replace_row_queue_operation:
  assumes "\<And>j j'. sel j \<Longrightarrow> f j = Some j' \<Longrightarrow> guarded j j'"
  shows "queue_operation (replace_row sel f)"
  using assms
  by (intro rowwise_queue_operation)
     (auto simp: replace_row_def list_all2_same split: option.splits
        intro!: assign_first_guarded dest: find_SomeD)

text \<open>Replace a row and trim; nothing happens when no row is found or no replacement is made.\<close>

definition row_transaction :: "(job \<Rightarrow> bool) \<Rightarrow> (job \<Rightarrow> job option) \<Rightarrow> job list \<Rightarrow> job list" where
  "row_transaction sel f js =
     (if (\<exists>j. find sel js = Some j \<and> f j \<noteq> None)
      then snd (trim_terminal (replace_row sel f js)) else js)"

lemma row_transaction_simps:
  "find sel js = None \<Longrightarrow> row_transaction sel f js = js"
  "find sel js = Some j \<Longrightarrow> row_transaction sel f js =
     (case f j of None \<Rightarrow> js | Some j' \<Rightarrow> snd (trim_terminal (assign_first sel j' js)))"
  by (simp_all add: row_transaction_def replace_row_def split: option.splits)

lemma committed_transaction:
  assumes "\<And>js. find sel js = None \<Longrightarrow> committed op js = js"
    and "\<And>js j. find sel js = Some j \<Longrightarrow> committed op js =
       (case f j of None \<Rightarrow> js | Some j' \<Rightarrow> snd (trim_terminal (assign_first sel j' js)))"
  shows "committed op = row_transaction sel f"
proof
  fix js
  show "committed op js = row_transaction sel f js"
    by (cases "find sel js") (simp_all add: assms row_transaction_simps)
qed

lemma row_transaction_fun:
  "row_transaction sel f =
     (\<lambda>js. if (\<exists>j. find sel js = Some j \<and> f j \<noteq> None)
            then snd (trim_terminal (replace_row sel f js)) else js)"
  by (rule ext) (rule row_transaction_def)

lemma row_transaction_operation:
  assumes "\<And>j j'. sel j \<Longrightarrow> f j = Some j' \<Longrightarrow> advances j j'"
  shows "request_preserving_operation (row_transaction sel f)"
  unfolding row_transaction_fun
  by (rule request_preserving_if [OF trimmed_operation [OF replace_row_operation] identity_operation])
     (rule assms)

lemma row_transaction_queue_operation:
  assumes "\<And>j j'. sel j \<Longrightarrow> f j = Some j' \<Longrightarrow> guarded j j'"
  shows "queue_operation (row_transaction sel f)"
  unfolding row_transaction_fun
  by (rule queue_operation_if [OF trimmed_queue_operation [OF replace_row_queue_operation]
        request_preserving_operation.axioms(1) [OF identity_operation]]) (rule assms)

lemma request_cancel_committed:
  "committed (request_cancel_with_proof now jid reason prf) =
     row_transaction (\<lambda>j. job_id j = jid)
       (\<lambda>j. ok_of (request_cancel_with_reason_and_proof now reason prf j))"
  by (rule ext)
     (auto simp: Let_def committed_def request_cancel_with_proof_def row_transaction_def replace_row_def
        ok_of_def split: option.splits sum.splits)

interpretation request_op: request_preserving_operation
  "committed (request_cancel_with_proof now jid reason prf)" for now jid reason "prf"
  unfolding request_cancel_committed
  by (rule row_transaction_operation)
     (auto simp: ok_of_def split: sum.splits dest: request_cancel_advances)

definition uncertain_completion :: "(job \<Rightarrow> string option) \<Rightarrow> time \<Rightarrow> string \<Rightarrow> job \<Rightarrow> job option" where
  "uncertain_completion invalidate now reason j =
     (if cancel_requested_at j \<noteq> None then None
      else let completed = j\<lparr>
              job_results := uncertain_results reason (target_names j) (job_results j),
              job_status := JobCompleted, job_completed_at := Some now\<rparr>
        in if invalidate completed = None then Some completed else None)"

lemma complete_uncertain_committed:
  "committed (complete_running_uncertain invalidate now jid reason) =
     row_transaction (\<lambda>j. job_id j = jid \<and> job_status j = JobRunning)
       (uncertain_completion invalidate now reason)"
  by (rule committed_transaction)
     (simp_all add: committed_def complete_running_uncertain_def Let_def uncertain_completion_def split: option.splits)

interpretation complete_uncertain_op: request_preserving_operation
  "committed (complete_running_uncertain invalidate now jid reason)" for invalidate now jid reason
  unfolding complete_uncertain_committed
  by (rule row_transaction_operation)
     (auto simp: uncertain_completion_def Let_def advances_def job_terminal_def split: if_splits)

definition reclassification :: "(job \<Rightarrow> string option) \<Rightarrow> string \<Rightarrow> job \<Rightarrow> job option" where
  "reclassification invalidate reason j =
     (if job_status j \<noteq> JobCompleted then None
      else let completed = j\<lparr>
              job_results := uncertain_results reason (target_names j) (job_results j)\<rparr>
        in if invalidate completed = None then Some completed else None)"

lemma reclassify_committed:
  "committed (reclassify_completed_uncertain invalidate expected reason) =
     row_transaction (\<lambda>j. job_id j = job_id expected \<and> j = expected)
       (reclassification invalidate reason)"
  by (rule committed_transaction)
     (simp_all add: committed_def reclassify_completed_uncertain_def Let_def reclassification_def
        split: option.splits)

interpretation reclassify_op: request_preserving_operation
  "committed (reclassify_completed_uncertain invalidate expected reason)"
  for invalidate expected reason
  unfolding reclassify_committed
  by (rule row_transaction_operation)
     (auto simp: reclassification_def Let_def advances_def job_terminal_def split: if_splits)

definition audited_cancellation ::
  "(job \<Rightarrow> string option) \<Rightarrow> time \<Rightarrow> job \<Rightarrow> string \<Rightarrow> cancellation_proof \<Rightarrow> job \<Rightarrow> job option" where
  "audited_cancellation invalidate now expected reason prf j =
     (if j \<noteq> expected \<or> job_status j \<noteq> JobRunning \<or> cancel_requested_at j = None then None
      else case cancel_with_reason_and_proof now (Some reason) (Some prf) j of
        Inl _ \<Rightarrow> None
      | Inr cancelled \<Rightarrow> if invalidate cancelled = None then Some cancelled else None)"

lemma finalize_audited_committed:
  "committed (finalize_audited_receiptless_cancel invalidate now expected_jobs expected reason prf) =
     (\<lambda>js. if js = expected_jobs then
        replace_row (\<lambda>j. job_id j = job_id expected)
          (audited_cancellation invalidate now expected reason prf) js else js)"
  by (rule ext)
     (auto simp: committed_def finalize_audited_receiptless_cancel_def replace_row_def
        audited_cancellation_def split: option.splits sum.splits)

interpretation audited_op: request_preserving_operation
  "committed (finalize_audited_receiptless_cancel invalidate now expected_jobs expected reason prf)"
  for invalidate now expected_jobs expected reason "prf"
  unfolding finalize_audited_committed
  by (rule request_preserving_if [OF replace_row_operation identity_operation])
     (auto simp: audited_cancellation_def split: if_splits sum.splits dest: cancel_advances)

definition accepted_update :: "(job \<Rightarrow> string option) \<Rightarrow> job \<Rightarrow> job \<Rightarrow> job option" where
  "accepted_update invalidate j queued =
     (if job_status queued = JobRunning \<and> cancel_requested_at queued \<noteq> None
         \<and> (cancel_requested_at j \<noteq> cancel_requested_at queued
            \<or> cancellation_reason j \<noteq> cancellation_reason queued
            \<or> cancellation_proof j \<noteq> cancellation_proof queued) then None
      else if job_terminal queued \<and> job_status queued \<noteq> job_status j then None
      else if job_terminal j \<and> invalidate j \<noteq> None then None
      else Some j)"

lemma update_committed:
  "committed (queue_update invalidate rfc3339 observe j) =
     row_transaction (\<lambda>q. job_id q = job_id j) (accepted_update invalidate j)"
  by (rule committed_transaction)
     (auto simp: committed_def queue_update_def accepted_update_def Let_def split: option.split)

interpretation update_op: queue_operation "committed (queue_update invalidate rfc3339 observe j)"
  for invalidate rfc3339 observe j
  unfolding update_committed
  by (rule row_transaction_queue_operation)
     (auto simp: accepted_update_def guarded_def split: if_splits)

section \<open>Rows after the loops\<close>

lemma update_rows_length [simp]: "length (snd (update_rows clk sel f js)) = length js"
  by (induction js arbitrary: clk) (auto simp: split_beta Let_def split: option.split)

lemma update_rows_nth:
  "i < length js \<Longrightarrow> snd (update_rows clk sel f js) ! i =
     (if sel (js ! i) then (case f (clk i) (js ! i) of Some j' \<Rightarrow> j' | None \<Rightarrow> js ! i) else js ! i)"
proof (induction js arbitrary: clk i)
  case (Cons j js)
  then show ?case
    by (cases i) (auto simp: split_beta Let_def split: option.split)
qed simp

lemma update_rows_mem:
  assumes "j' \<in> set (snd (update_rows clk sel f js))"
  shows "\<exists>j \<in> set js. \<exists>now. j' = (if sel j then (case f now j of Some x \<Rightarrow> x | None \<Rightarrow> j) else j)"
proof -
  from assms obtain i where "i < length js" "j' = snd (update_rows clk sel f js) ! i"
    by (auto simp: in_set_conv_nth)
  then show ?thesis using update_rows_nth [of i js clk sel f] nth_mem by metis
qed

text \<open>
  What \<open>select_loop\<close> does to one row when ids are unique: the first command for its id decides,
  and a row no command names stays.
\<close>

definition decided ::
  "('c \<Rightarrow> string) \<Rightarrow> ('c \<Rightarrow> job \<Rightarrow> bool) \<Rightarrow> ('c \<Rightarrow> time \<Rightarrow> job \<Rightarrow> job option) \<Rightarrow> 'c list \<Rightarrow> job \<Rightarrow> job \<Rightarrow> bool"
where
  "decided key sel step cs j j' = (case find (\<lambda>c. key c = job_id j) cs of
       None \<Rightarrow> j' = j
     | Some c \<Rightarrow> if sel c j then (\<exists>now. j' = unwrap_or (step c now j) j) else j' = j)"

lemma decided_Nil: "decided key sel step [] j j' \<longleftrightarrow> j' = j"
  by (simp add: decided_def)

lemma decided_Cons:
  "decided key sel step (c # cs) j j' \<longleftrightarrow>
     (if key c = job_id j then (if sel c j then (\<exists>now. j' = unwrap_or (step c now j) j) else j' = j)
      else decided key sel step cs j j')"
  by (simp add: decided_def)

lemma find_unique_row:
  assumes "distinct (map job_id js)" and "j \<in> set js"
  shows "find (\<lambda>r. job_id r = job_id j \<and> P r) js = (if P j then Some j else None)"
proof -
  have "r = j" if "r \<in> set js" "job_id r = job_id j" for r
    using that distinct_key_eq [OF assms(1)] assms(2) by blast
  then show ?thesis
    using assms(2) by (cases "find (\<lambda>r. job_id r = job_id j \<and> P r) js")
      (auto simp: find_None_iff dest!: find_SomeD)
qed

lemma list_all2_advances_ids:
  assumes "list_all2 advances js js'"
  shows "map job_id js' = map job_id js"
  using assms advances_guarded by (blast intro: list_all2_guarded_ids list_all2_mono)

lemma assign_first_ids:
  assumes "find P js = Some j" and "job_id j' = job_id j"
  shows "map job_id (assign_first P j' js) = map job_id js"
  using assms by (induction js) (auto split: if_splits)

lemma select_loop_row:
  assumes keep: "\<And>c now j j'. sel c j \<Longrightarrow> step c now j = Some j' \<Longrightarrow> job_id j' = job_id j"
  shows "distinct (map job_id js) \<Longrightarrow> j \<in> set js \<Longrightarrow>
     j' \<in> set (snd (select_loop clk key sel step seen cs js)) \<Longrightarrow> job_id j' = job_id j \<Longrightarrow>
     (if job_id j \<in> set seen then j' = j else decided key sel step cs j j')"
proof (induction cs arbitrary: clk seen js j)
  case Nil
  then show ?case by (auto simp: decided_Nil dest: distinct_key_eq)
next
  case (Cons c cs)
  let ?P = "\<lambda>r. job_id r = key c \<and> sel c r"
  show ?case
  proof (cases "key c \<in> set seen")
    case True
    with Cons.prems Cons.IH [of js j clk seen] show ?thesis by (auto simp: decided_Cons)
  next
    case new: False
    show ?thesis
    proof (cases "find ?P js")
      case None
      then have "job_id j = key c \<Longrightarrow> \<not> sel c j" using Cons.prems(2) by (auto simp: find_None_iff)
      with None new Cons.prems Cons.IH [of js j clk "key c # seen"] show ?thesis
        by (auto simp: decided_Cons Let_def)
    next
      case (Some r)
      then have r: "r \<in> set js" "job_id r = key c" "sel c r" by (auto dest: find_SomeD)
      have same: "job_id j = key c \<Longrightarrow> j = r"
        using r Cons.prems(1,2) by (metis distinct_key_eq)
      show ?thesis
      proof (cases "step c (clk 0) r")
        case None
        with Some new Cons.prems(3)
        have "j' \<in> set (snd (select_loop (clk \<circ> Suc) key sel step (key c # seen) cs js))"
          by (simp add: Let_def)
        from Cons.IH [OF Cons.prems(1,2) this Cons.prems(4)]
        have "if job_id j \<in> set (key c # seen) then j' = j else decided key sel step cs j j'" .
        moreover have "j = unwrap_or (step c (clk 0) j) j" if "job_id j = key c"
          using same [OF that] None by (simp add: unwrap_or_def)
        ultimately show ?thesis using r same new by (auto simp: decided_Cons)
      next
        case step: (Some r')
        let ?js = "assign_first ?P r' js"
        have id: "job_id r' = job_id r" using keep r step by blast
        have d: "distinct (map job_id ?js)"
          using assign_first_ids [OF Some id] Cons.prems(1) by simp
        have mem: "j' \<in> set (snd (select_loop (clk \<circ> Suc) key sel step (key c # seen) cs ?js))"
          using Cons.prems(3) new Some step by (simp add: Let_def split_beta)
        show ?thesis
        proof (cases "job_id j = key c")
          case True
          then have "j' = r'"
            using Cons.IH [OF d assign_first_new [OF Some] mem] Cons.prems(4) same r id by simp
          then have "j' = unwrap_or (step c (clk 0) j) j"
            using True same step by (simp add: unwrap_or_def)
          with True same r new show ?thesis by (auto simp: decided_Cons)
        next
          case False
          then have "j \<in> set ?js" using assign_first_old [OF Some Cons.prems(2)] r by auto
          from Cons.IH [OF d this mem Cons.prems(4)] False show ?thesis
            by (simp add: decided_Cons)
        qed
      qed
    qed
  qed
qed


section \<open>Order, supersession and recovery\<close>

text \<open>The pending order compares by a key in a linear order: priority down, then time up.\<close>

definition pending_key :: "job \<Rightarrow> int \<times> time" where
  "pending_key j = (- priority_value (job_priority j), job_created_at j)"

lemma compare_pending_key: "compare_pending_jobs l r = cmp (pending_key l) (pending_key r)"
  by (auto simp: compare_pending_jobs_def then_with_def cmp_def pending_key_def less_prod_def
      split: if_splits ordering.splits)

lemma pending_jobs_sort_key:
  "pending_jobs_sorted js = sort_key pending_key (filter (\<lambda>j. job_status j = JobPending) js)"
  unfolding pending_jobs_sorted_def
  using sort_by_key [of pending_key] by (simp add: compare_pending_key [abs_def])

lemma pending_key_le:
  "pending_key l \<le> pending_key r \<longleftrightarrow>
     job_priority r < job_priority l
     \<or> job_priority l = job_priority r \<and> job_created_at l \<le> job_created_at r"
  by (cases "job_priority l"; cases "job_priority r")
     (simp_all add: pending_key_def less_priority_def)

lemma supersede_cancelled:
  assumes "supersedes j q"
  shows "ok_of (cancel_with_reason now (Some superseded_message) q) =
     Some (q\<lparr>job_status := JobCancelled, job_completed_at := Some now,
             cancellation_reason := Some superseded_message, cancellation_proof := None,
             cancel_requested_at := option_or (cancel_requested_at q) (Some now)\<rparr>)"
  using assms by (simp add: supersedes_def ok_of_def job_defs)

lemma cancel_superseded_rows:
  assumes "i < length js"
  shows "cancel_superseded_pending clk j js ! i =
     (if supersedes j (js ! i)
      then (js ! i)\<lparr>job_status := JobCancelled, job_completed_at := Some (clk i),
             cancellation_reason := Some superseded_message, cancellation_proof := None,
             cancel_requested_at := option_or (cancel_requested_at (js ! i)) (Some (clk i))\<rparr>
      else js ! i)"
  using assms by (simp add: cancel_superseded_pending_def update_rows_nth supersede_cancelled)

lemma cancel_superseded_none_left:
  "q \<in> set (cancel_superseded_pending clk j js) \<Longrightarrow> \<not> supersedes j q"
proof -
  assume "q \<in> set (cancel_superseded_pending clk j js)"
  then obtain i where "i < length js" "q = cancel_superseded_pending clk j js ! i"
    by (auto simp: in_set_conv_nth cancel_superseded_pending_def)
  then show ?thesis
    by (cases "supersedes j (js ! i)") (auto simp: cancel_superseded_rows supersedes_def)
qed

section \<open>The step relation\<close>

text \<open>
  Every way the durable vector changes, one rule per method. The checkout snapshots inside
  stored envelopes are their serialized text here. A submitter's job id is fresh.
\<close>

inductive queue_step :: "job list \<Rightarrow> job list \<Rightarrow> bool" where
  q_enqueue: "job_id j \<notin> job_id ` set js \<Longrightarrow>
    queue_step js (snd (enqueue canonical
      (store :: (string \<Rightarrow> string queued_execution_envelope option) option) show_config collect clk j js))"
| q_recovery: "queue_step js (snd (enqueue_recovery_if_unowned canonical
      (store :: (string \<Rightarrow> string queued_execution_envelope option) option) j cutoff js))"
| q_update: "queue_step js (committed (queue_update invalidate rfc3339 observe j) js)"
| q_request_cancel: "queue_step js (committed (request_cancel_with_proof now jid reason prf) js)"
| q_recover_stale: "queue_step js (snd (recover_stale_running_jobs_for_drain clk js))"
| q_recover_selected: "queue_step js (snd (recover_selected_running_jobs_for_drain clk ids js))"
| q_trim: "queue_step js (snd (trim_terminal_jobs_for_drain js))"
| q_cancel_orphan: "queue_step js (snd (cancel_orphan_pending_jobs_for_drain clk status js))"
| q_start: "queue_step js (snd (start_pending_jobs_for_drain clk ids js))"
| q_cancel_pending: "queue_step js (snd (cancel_pending_jobs_for_drain clk cs js))"
| q_cancel_stale: "queue_step js (snd (cancel_stale_running_jobs clk ids now stale_after why js))"
| q_requeue: "queue_step js (snd (requeue_deferred_running_jobs rs js))"
| q_requeue_daemon: "queue_step js (snd (requeue_deferred_daemon_worker r js))"
| q_reboot: "queue_step js (snd (requeue_running_after_reboot jid why js))"
| q_finalize_deferred: "queue_step js (snd (finalize_deferred_daemon_worker jid js))"
| q_complete_uncertain: "queue_step js (committed (complete_running_uncertain invalidate now jid why) js)"
| q_audited: "queue_step js
    (committed (finalize_audited_receiptless_cancel invalidate now expected_jobs expected why p) js)"
| q_reclassify: "queue_step js (committed (reclassify_completed_uncertain invalidate expected why) js)"

inductive_cases queue_stepE: "queue_step js js'"

text \<open>The contract as a relation between the vectors before and after.\<close>

definition queue_contract :: "job list \<Rightarrow> job list \<Rightarrow> bool" where
  "queue_contract js js' =
     (distinct (map job_id js')
      \<and> (\<forall>j \<in> set js. \<forall>j' \<in> set js'. job_id j' = job_id j \<longrightarrow>
           (job_terminal j \<longrightarrow> job_status j' = job_status j)
         \<and> (\<forall>t. job_status j = JobRunning \<longrightarrow> cancel_requested_at j = Some t \<longrightarrow>
                cancel_requested_at j' = Some t))
      \<and> (\<forall>j \<in> set js. job_id j \<notin> job_id ` set js' \<longrightarrow>
           length (filter job_terminal js') = keep_completed))"

lemma queue_contractI:
  assumes "queue_operation op" and "distinct (map job_id js)"
  shows "queue_contract js (op js)"
  using assms(2) queue_operation.unique [OF assms(1)] queue_operation.terminal_kept [OF assms(1)]
    queue_operation.request_kept [OF assms(1)] queue_operation.dropped [OF assms(1)]
  unfolding queue_contract_def by blast

text \<open>Appending a job with a fresh id keeps the contract.\<close>

lemma queue_contract_append:
  assumes "queue_contract js js'" and "job_id ` set js' \<subseteq> job_id ` set js"
    and "job_id j \<notin> job_id ` set js" and "job_id ` set js \<subseteq> job_id ` set js'"
  shows "queue_contract js (js' @ [j])"
proof -
  have new: "job_id j \<notin> job_id ` set js'" using assms(2,3) by blast
  then show ?thesis using assms unfolding queue_contract_def by auto
qed

lemma rowwise_contract_append:
  assumes "list_all2 advances js js'" and "distinct (map job_id js)"
    and "job_id j \<notin> job_id ` set js"
  shows "queue_contract js (js' @ [j])"
proof -
  have ids: "job_id ` set js' = job_id ` set js"
    using list_all2_advances_ids [OF assms(1)] by (metis list.set_map)
  have row: "advances r r'" if "r \<in> set js" "r' \<in> set js'" "job_id r' = job_id r" for r r'
    using list_all2_row [OF assms(1) _ assms(2) that] by (simp add: advances_def)
  have "queue_contract js js'"
    unfolding queue_contract_def
    using row list_all2_advances_ids [OF assms(1)] assms(2) ids
    by (auto simp: advances_def)
  then show ?thesis by (rule queue_contract_append) (use ids assms(3) in auto)
qed

lemma enqueue_contract:
  assumes "distinct (map job_id js)" and "job_id j \<notin> job_id ` set js"
  shows "queue_contract js (snd (enqueue canonical store show_config collect clk j js))"
  unfolding enqueue_def Let_def snd_conv
  by (rule rowwise_contract_append [OF _ assms])
     (rule list_all2_advances_trans [OF backfill_advances(1) cancel_superseded_advances])

lemma recovery_contract:
  assumes "distinct (map job_id js)"
  shows "queue_contract js (snd (enqueue_recovery_if_unowned canonical store j cutoff js))"
proof -
  let ?b = "backfill_recovery_owner_scopes canonical store js"
  have "job_id ` set ?b = job_id ` set js"
    using list_all2_advances_ids [OF backfill_advances(2)] by (metis list.set_map)
  then have fresh: "job_id j \<notin> job_id ` set js" if "\<not> list_ex (\<lambda>q. job_id q = job_id j) ?b"
    using that unfolding list_ex_iff by (metis imageE)
  have "queue_contract js ?b"
    by (rule queue_contractI [OF _ assms]) (rule owner_op.queue_operation_axioms)
  with rowwise_contract_append [OF backfill_advances(2) assms fresh]
  show ?thesis by (auto simp: enqueue_recovery_if_unowned_def Let_def split: option.splits)
qed

lemmas queue_operations =
  update_op.queue_operation_axioms request_op.queue_operation_axioms
  recover_stale_op.queue_operation_axioms recover_selected_op.queue_operation_axioms
  trim_op.queue_operation_axioms cancel_orphan_op.queue_operation_axioms
  start_op.queue_operation_axioms cancel_pending_op.queue_operation_axioms
  cancel_stale_op.queue_operation_axioms requeue_op.queue_operation_axioms
  requeue_daemon_op.queue_operation_axioms reboot_op.queue_operation_axioms
  finalize_deferred_op.queue_operation_axioms complete_uncertain_op.queue_operation_axioms
  audited_op.queue_operation_axioms reclassify_op.queue_operation_axioms

lemma queue_step_contract:
  assumes "queue_step js js'" and "distinct (map job_id js)"
  shows "queue_contract js js'"
  using assms(1)
  by (cases rule: queue_step.cases)
     (simp_all add: enqueue_contract recovery_contract assms(2)
        queue_operations [THEN queue_contractI, OF assms(2)])

inductive queue_reach :: "job list \<Rightarrow> bool" where
  empty: "queue_reach []"
| step: "queue_reach js \<Longrightarrow> queue_step js js' \<Longrightarrow> queue_reach js'"

lemma queue_reach_distinct: "queue_reach js \<Longrightarrow> distinct (map job_id js)"
  by (induction rule: queue_reach.induct)
     (auto dest: queue_step_contract simp: queue_contract_def)

section \<open>Properties of the queue\<close>

abbreviation no_store :: "(string \<Rightarrow> string queued_execution_envelope option) option" where
  "no_store \<equiv> None"



text \<open>
  Pending jobs are served by descending priority, then by submission time, then in storage
  order: the pending list is a reordering of exactly the pending rows, ordered so, equal keys in
  their stored order; the next job is one no other pending job precedes.
\<close>

theorem pending_order:
  "mset (get_pending js) = mset (filter (\<lambda>j. job_status j = JobPending) js)
   \<and> sorted_wrt (\<lambda>l r. job_priority r < job_priority l
        \<or> job_priority l = job_priority r \<and> job_created_at l \<le> job_created_at r) (get_pending js)
   \<and> filter (\<lambda>r. pending_key r = k) (get_pending js) =
       filter (\<lambda>r. job_status r = JobPending \<and> pending_key r = k) js
   \<and> (case next_pending js of
        None \<Rightarrow> pending_count js = 0
      | Some j \<Rightarrow> j \<in> set js \<and> job_status j = JobPending
          \<and> (\<forall>q \<in> set js. job_status q = JobPending \<longrightarrow> pending_key j \<le> pending_key q))"
proof -
  let ?p = "filter (\<lambda>j. job_status j = JobPending) js"
  have g: "get_pending js = sort_key pending_key ?p"
    by (simp add: get_pending_def pending_jobs_sort_key)
  have sorted: "sorted_wrt (\<lambda>l r. pending_key l \<le> pending_key r) (get_pending js)"
    by (metis g sorted_map sorted_sort_key)
  have first: "case next_pending js of
        None \<Rightarrow> pending_count js = 0
      | Some j \<Rightarrow> j \<in> set js \<and> job_status j = JobPending
          \<and> (\<forall>q \<in> set js. job_status q = JobPending \<longrightarrow> pending_key j \<le> pending_key q)"
  proof (cases "get_pending js")
    case Nil
    then have "?p = []" by (metis g length_0_conv length_sort)
    with Nil show ?thesis by (simp add: next_pending_def pending_count_def)
  next
    case (Cons j rest)
    then have "set (j # rest) = set ?p" by (metis g set_sort)
    moreover from sorted Cons have "\<forall>q \<in> set rest. pending_key j \<le> pending_key q" by simp
    ultimately show ?thesis using Cons by (auto simp: next_pending_def)
  qed
  have "filter (\<lambda>r. pending_key r = k) (get_pending js) = filter (\<lambda>r. pending_key r = k) ?p"
    unfolding g by (rule sort_key_stable)
  then show ?thesis
    using sorted first by (simp add: g pending_key_le conj_commute)
qed

theorem pending_order_witness:
  "next_pending [sample_job ''a'' JobPending, sample_job ''b'' JobPending] = Some (sample_job ''a'' JobPending)
   \<and> pending_key (sample_job ''a'' JobPending) \<le> pending_key (sample_job ''b'' JobPending)"
proof -
  have "next_pending [sample_job ''a'' JobPending, sample_job ''b'' JobPending] =
      Some (sample_job ''a'' JobPending)"
    by (simp add: next_pending_def get_pending_def pending_jobs_sorted_def sort_by_def sample_job_def
        job_create_def compare_pending_jobs_def then_with_def cmp_def)
  moreover have "job_status (sample_job ''b'' JobPending) = JobPending" by (simp add: sample_job_def)
  ultimately show ?thesis
    using pending_order [of "[sample_job ''a'' JobPending, sample_job ''b'' JobPending]"] by simp
qed

text \<open>
  Enqueueing stores the new job last, cancels every pending row of the same workload,
  branch, targets and mode with the supersession reason, changes no other row beyond the
  backfilled scope, and leaves no superseded row pending.
\<close>

theorem enqueue_supersedes:
  "let js1 = backfill_pending_workload_scopes canonical store js;
       js' = snd (enqueue canonical store show_config collect clk j js)
   in length js' = Suc (length js) \<and> last js' = j
    \<and> (\<forall>i < length js. js' ! i =
         (if supersedes j (js1 ! i)
          then (js1 ! i)\<lparr>job_status := JobCancelled, job_completed_at := Some (clk i),
                 cancellation_reason := Some superseded_message, cancellation_proof := None,
                 cancel_requested_at := option_or (cancel_requested_at (js1 ! i)) (Some (clk i))\<rparr>
          else js1 ! i))
    \<and> list_all (\<lambda>q. \<not> supersedes j q) (butlast js')"
proof -
  let ?js1 = "backfill_pending_workload_scopes canonical store js"
  have len: "length ?js1 = length js" "length (cancel_superseded_pending clk j ?js1) = length ?js1"
    by (simp_all add: backfill_pending_workload_scopes_def cancel_superseded_pending_def
        split: option.split)
  then show ?thesis
    using cancel_superseded_rows [of _ ?js1 clk j] cancel_superseded_none_left [of _ clk j ?js1]
    by (simp add: enqueue_def Let_def nth_append list_all_iff)
qed

theorem enqueue_supersedes_witness:
  "map job_status (snd (enqueue id no_store (\<lambda>_. []) True (\<lambda>_. 9) (sample_job ''b'' JobPending)
     [sample_job ''a'' JobPending])) = [JobCancelled, JobPending]"
proof -
  let ?js = "[sample_job ''a'' JobPending]" and ?j = "sample_job ''b'' JobPending"
  let ?r = "snd (enqueue id no_store (\<lambda>_. []) True (\<lambda>_. 9) ?j ?js)"
  have sup: "supersedes ?j (?js ! 0)"
    by (simp add: supersedes_def same_workload_scope_def sample_job_def job_create_def)
  have f: "length ?r = 2" "last ?r = ?j" "job_status (?r ! 0) = JobCancelled"
    using enqueue_supersedes [of id no_store ?js "\<lambda>_. []" True "\<lambda>_. 9" ?j] sup
    by (simp_all add: backfill_pending_workload_scopes_def Let_def)
  then obtain x where "?r = [x, ?j]"
    by (cases ?r rule: rev_cases) (auto simp: length_Suc_conv numeral_2_eq_2)
  with f show ?thesis by (simp add: sample_job_def job_create_def)
qed

text \<open>
  A recovery job is inserted only into a queue where no row has its id and no pending or
  running row, nor one created after the cutoff, owns its workload or has unknown scope; the
  answer otherwise names such a row, and nothing is appended.
\<close>

theorem recovery_exclusive:
  "let js1 = backfill_recovery_owner_scopes canonical store js;
       owns = (\<lambda>q. (job_status q = JobPending \<or> job_status q = JobRunning \<or> cutoff < job_created_at q)
                   \<and> (same_workload_scope q j \<or> workload_scope q = None))
   in case enqueue_recovery_if_unowned canonical store j cutoff js of
        (Inserted, js') \<Rightarrow> js' = js1 @ [j] \<and> job_id j \<notin> job_id ` set js1 \<and> list_all (\<lambda>q. \<not> owns q) js1
      | (Existing, js') \<Rightarrow> js' = js1 \<and> job_id j \<in> job_id ` set js1
      | (OwnedBy i, js') \<Rightarrow> js' = js1 \<and> job_id j \<notin> job_id ` set js1
          \<and> (\<exists>q \<in> set js1. job_id q = i \<and> owns q)"
proof -
  let ?js1 = "backfill_recovery_owner_scopes canonical store js"
  let ?owns = "\<lambda>q. (job_status q = JobPending \<or> job_status q = JobRunning \<or> cutoff < job_created_at q)
                   \<and> (same_workload_scope q j \<or> workload_scope q = None)"
  have present: "list_ex (\<lambda>q. job_id q = job_id j) ?js1 \<longleftrightarrow> job_id j \<in> job_id ` set ?js1"
    by (auto simp: list_ex_iff image_iff) metis
  show ?thesis
  proof (cases "job_id j \<in> job_id ` set ?js1")
    case True
    with present show ?thesis by (simp add: enqueue_recovery_if_unowned_def Let_def)
  next
    case False
    show ?thesis
    proof (cases "find ?owns ?js1")
      case None
      then have "list_all (\<lambda>q. \<not> ?owns q) ?js1" by (auto simp: find_None_iff list_all_iff)
      with None False present show ?thesis by (simp add: enqueue_recovery_if_unowned_def Let_def)
    next
      case (Some q)
      with False present find_SomeD [OF Some] show ?thesis
        by (simp add: enqueue_recovery_if_unowned_def Let_def) blast
    qed
  qed
qed

theorem recovery_exclusive_witness:
  "fst (enqueue_recovery_if_unowned id no_store (sample_job ''b'' JobPending) 5
     [sample_job ''a'' JobRunning]) = OwnedBy ''a''
   \<and> (\<exists>q \<in> set [sample_job ''a'' JobRunning]. job_id q = ''a'' \<and> job_status q = JobRunning)"
proof -
  have e: "enqueue_recovery_if_unowned id no_store (sample_job ''b'' JobPending) 5
      [sample_job ''a'' JobRunning] = (OwnedBy ''a'', [sample_job ''a'' JobRunning])"
    by (simp add: enqueue_recovery_if_unowned_def backfill_recovery_owner_scopes_def
        same_workload_scope_def sample_job_def job_create_def)
  show ?thesis
    using recovery_exclusive [of id no_store "[sample_job ''a'' JobRunning]" 5 "sample_job ''b'' JobPending"]
    unfolding e Let_def by (simp add: e sample_job_def job_create_def)
qed

lemma select_loop_decided:
  assumes "\<And>c now j j'. sel c j \<Longrightarrow> step c now j = Some j' \<Longrightarrow> advances j j'"
    and "distinct (map job_id js)" and "j \<in> set js"
    and "j' \<in> set (snd (select_loop clk key sel step [] cs js))" and "job_id j' = job_id j"
  shows "decided key sel step cs j j'"
proof -
  have "\<And>c now j j'. sel c j \<Longrightarrow> step c now j = Some j' \<Longrightarrow> job_id j' = job_id j"
    using assms(1) by (simp add: advances_def)
  from select_loop_row [OF this assms(2-5)] show ?thesis by simp
qed

text \<open>
  Starting jobs for the drain changes exactly the named pending rows: each of them becomes
  running at some clock time with its deferral cleared, and every other row stays as it is.
\<close>

theorem start_pending_exact:
  assumes "distinct (map job_id js)" and "j \<in> set js"
    and "j' \<in> set (snd (start_pending_jobs_for_drain clk ids js))" and "job_id j' = job_id j"
  shows "if job_id j \<in> set ids \<and> job_status j = JobPending
     then \<exists>now. j' = j\<lparr>job_status := JobRunning, job_started_at := Some now,
            scheduler_defer_reason := None, scheduler_defer_until := None\<rparr>
     else j' = j"
proof -
  have "decided id (\<lambda>_ j. job_status j = JobPending) (\<lambda>_ now j. ok_of (job_start now j)) ids j j'"
    using assms unfolding start_pending_jobs_for_drain_def
    by (rule select_loop_decided [rotated]) (rule transition_advances)
  then show ?thesis
    by (auto simp: decided_def ok_of_def job_defs unwrap_or_def find_None_iff
        split: option.splits if_splits dest: find_SomeD)
qed

theorem start_pending_exact_witness:
  "\<exists>j'. snd (start_pending_jobs_for_drain (\<lambda>_. 3) [''a''] [sample_job ''a'' JobPending]) = [j']
     \<and> job_status j' = JobRunning"
proof -
  let ?j = "sample_job ''a'' JobPending"
  let ?r = "snd (start_pending_jobs_for_drain (\<lambda>_. 3) [''a''] [?j])"
  obtain j' where r: "?r = [j']" and "job_id j' = job_id ?j"
    by (simp add: start_pending_jobs_for_drain_def sample_job_def job_create_def job_start_def ok_of_def)
  then have "\<exists>now. j' = ?j\<lparr>job_status := JobRunning, job_started_at := Some now,
      scheduler_defer_reason := None, scheduler_defer_until := None\<rparr>"
    using start_pending_exact [of "[?j]" ?j j' "\<lambda>_. 3" "[''a'']"]
    by (simp add: sample_job_def job_create_def)
  with r show ?thesis by auto
qed

text \<open>
  Reaping stale workers re-checks staleness under the lock: before the trim, a row that is
  not running, not named, or has a fresh liveness signal stays untouched, and a named stale row
  is cancelled with the given reason.
\<close>

theorem reap_only_stale:
  assumes "distinct (map job_id js)" and "j \<in> set js"
    and "j' \<in> set (snd (cancel_stale_running_jobs clk ids now stale_after reason js))"
    and "job_id j' = job_id j"
  shows "if job_id j \<in> set ids \<and> is_stale_running now stale_after j
     then job_status j' = JobCancelled \<and> cancellation_reason j' = Some reason
     else j' = j"
proof -
  let ?sel = "\<lambda>_ j. is_stale_running now stale_after j"
  let ?step = "\<lambda>_ t j. ok_of (cancel_with_reason t (Some reason) j)"
  have "j' \<in> set (snd (select_loop clk id ?sel ?step [] ids js))"
    using assms(3) trim_terminal_subset by (fastforce simp: cancel_stale_running_jobs_def then_trim_def)
  from assms(1,2) this assms(4) have "decided id ?sel ?step ids j j'"
    by (rule select_loop_decided [rotated]) (rule transition_advances)
  moreover have "job_status j = JobRunning" if "is_stale_running now stale_after j"
    using that by (simp add: is_stale_running_def split: if_splits)
  ultimately show ?thesis
    by (auto simp: decided_def ok_of_def job_defs unwrap_or_def find_None_iff
        split: option.splits if_splits dest: find_SomeD)
qed

theorem reap_only_stale_witness:
  "snd (cancel_stale_running_jobs (\<lambda>_. 0) [''a''] 100 50 ''stale''
     [sample_job ''a'' JobRunning\<lparr>job_started_at := Some 90\<rparr>])
   = [sample_job ''a'' JobRunning\<lparr>job_started_at := Some 90\<rparr>]"
proof -
  let ?j = "sample_job ''a'' JobRunning\<lparr>job_started_at := Some 90\<rparr>"
  let ?r = "snd (cancel_stale_running_jobs (\<lambda>_. 0) [''a''] 100 50 ''stale'' [?j])"
  have fresh: "\<not> is_stale_running 100 50 ?j"
    by (simp add: is_stale_running_def last_liveness_at_def liveness_signals_def max_by_def
        sample_job_def job_create_def)
  then obtain j' where r: "?r = [j']" and "job_id j' = job_id ?j"
    by (simp add: cancel_stale_running_jobs_def then_trim_def trim_terminal_rows job_terminal_def
        sort_recent_completed_def sample_job_def job_create_def)
  then have "j' = ?j"
    using reap_only_stale [of "[?j]" ?j j' "\<lambda>_. 0" "[''a'']" 100 50 "''stale''"] fresh by simp
  with r show ?thesis by simp
qed





text \<open>
  A clean timing row is trustworthy: it is produced only when a running job completed with
  the same identity, no cancellation was requested, it has targets, its start does not follow its
  end, and every target has a result that is neither uncertain nor made up by recovery.
\<close>

theorem clean_classification:
  assumes "classify_queue_terminal prior j = Some Clean"
  shows "job_status prior = JobRunning \<and> job_status j = JobCompleted
     \<and> job_id prior = job_id j \<and> job_sha prior = job_sha j \<and> job_branch prior = job_branch j
     \<and> cancel_requested_at j = None \<and> target_names j \<noteq> []
     \<and> (\<exists>s e. job_started_at j = Some s \<and> job_completed_at j = Some e \<and> s \<le> e)
     \<and> (\<forall>t \<in> set (target_names j). \<exists>r. bt_get (job_results j) t = Some r
          \<and> tr_failure_class r \<noteq> Some ''UNCERTAIN'' \<and> tr_error_message r \<noteq> Some stale_recovery_message)"
  using assms
  by (auto simp: classify_queue_terminal_def Let_def is_some_and_def option_zip_def list_all_iff
      split: if_splits option.splits)

definition sample_finished :: job where
  "sample_finished =
     with_result (target_result_new ''mac'' ''macos'' TargetPass ''local'')
       (sample_job ''a'' JobCompleted\<lparr>job_started_at := Some 1, job_completed_at := Some 2\<rparr>)"

theorem clean_classification_witness:
  "classify_queue_terminal (sample_job ''a'' JobRunning) sample_finished = Some Clean
   \<and> target_names sample_finished \<noteq> []"
proof -
  have "classify_queue_terminal (sample_job ''a'' JobRunning) sample_finished = Some Clean"
    by (simp add: classify_queue_terminal_def sample_finished_def with_result_def sample_job_def
        job_create_def target_result_new_def is_some_and_def option_zip_def bt_get_def
        stale_recovery_message_def)
  with clean_classification [OF this] show ?thesis by blast
qed

lemma fold_or_insert_keeps:
  "bt_wf m \<Longrightarrow> bt_get m t = Some v \<Longrightarrow>
     bt_get (fold (\<lambda>t. bt_or_insert t (stale_recovery_result t)) ts m) t = Some v"
proof (induction ts arbitrary: m)
  case (Cons u ts)
  have "bt_get (bt_or_insert u (stale_recovery_result u) m) t = Some v"
    using Cons.prems by (auto simp: bt_get_or_insert)
  with Cons.IH [OF bt_wf_or_insert [OF Cons.prems(1)]] show ?case by simp
qed simp

lemma fold_or_insert_missing:
  "bt_wf m \<Longrightarrow> bt_get m t = None \<Longrightarrow> t \<in> set ts \<Longrightarrow>
     bt_get (fold (\<lambda>t. bt_or_insert t (stale_recovery_result t)) ts m) t =
       Some (stale_recovery_result t)"
proof (induction ts arbitrary: m)
  case (Cons u ts)
  note wf = bt_wf_or_insert [OF Cons.prems(1), of u "stale_recovery_result u"]
  show ?case
  proof (cases "u = t")
    case True
    with Cons.prems fold_or_insert_keeps [OF wf, of t "stale_recovery_result t" ts]
    show ?thesis by (simp add: bt_get_or_insert)
  next
    case False
    with Cons.IH [OF wf] Cons.prems show ?thesis by (simp add: bt_get_or_insert)
  qed
qed simp

lemma fold_uncertain:
  assumes "bt_wf m" and "t \<in> set ts"
  shows "is_some_and (bt_get (uncertain_results reason ts m) t)
           (\<lambda>r. tr_failure_class r = Some ''UNCERTAIN'')"
proof -
  have "bt_get (uncertain_results reason ts m) t =
      Some ((stale_recovery_result t)
        \<lparr>tr_error_message := Some reason, tr_failure_class := Some ''UNCERTAIN''\<rparr>)"
    unfolding uncertain_results_def using bt.lookup_fold [OF assms(1)] assms(2) by simp
  then show ?thesis by (simp add: is_some_and_def)
qed

lemma not_clean_uncertain:
  "job_status j = JobCompleted \<Longrightarrow> classify_queue_terminal prior j \<noteq> Some Clean \<Longrightarrow>
     classify_queue_terminal prior j = Some Uncertain"
  by (auto simp: classify_queue_terminal_def Let_def split: if_splits)

lemma clean_results:
  "classify_queue_terminal prior j = Some Clean \<Longrightarrow> t \<in> set (target_names j) \<Longrightarrow>
     bt_get (job_results j) t = Some r \<Longrightarrow>
     tr_failure_class r \<noteq> Some ''UNCERTAIN'' \<and> tr_error_message r \<noteq> Some stale_recovery_message"
  by (auto simp: classify_queue_terminal_def Let_def is_some_and_def list_all_iff
      split: if_splits option.splits)

lemma recovered_row:
  assumes "i < length js" and "job_status (js ! i) = JobRunning" and "sel (js ! i)"
  shows "snd (recover_running_jobs_matching clk sel js) ! i = (js ! i)\<lparr>
     job_results := fold (\<lambda>t. bt_or_insert t (stale_recovery_result t)) (target_names (js ! i))
                      (job_results (js ! i)),
     job_status := JobCompleted, job_completed_at := Some (clk i)\<rparr>"
  using assms by (simp add: recover_running_jobs_matching_def update_rows_nth)

lemma complete_running_uncertain_row:
  assumes "complete_running_uncertain invalidate now jid reason js = Inr (Some j', js')"
    and "job_status j' = JobCompleted"
  obtains j where "j \<in> set js" and "j' = j\<lparr>
     job_results := uncertain_results reason (target_names j) (job_results j),
     job_status := JobCompleted, job_completed_at := Some now\<rparr>"
  using assms
  by (auto simp: complete_running_uncertain_def Let_def split: option.splits if_splits
      dest!: find_SomeD)

text \<open>
  Recovered work never counts as clean timing: a running row that the startup recovery
  completes while one of its targets had no result, and a job that the fail-closed completion
  completes, are both classified uncertain against any stored predecessor.
\<close>

theorem recovery_is_uncertain:
  assumes "list_all (\<lambda>j. bt_wf (job_results j)) js"
  shows "(\<forall>i < length js. job_status (js ! i) = JobRunning \<and> sel (js ! i)
        \<and> (\<exists>t \<in> set (target_names (js ! i)). bt_get (job_results (js ! i)) t = None) \<longrightarrow>
        classify_queue_terminal prior (snd (recover_running_jobs_matching clk sel js) ! i)
          = Some Uncertain)
     \<and> (\<forall>j' js'. complete_running_uncertain invalidate now jid reason js = Inr (Some j', js')
        \<and> job_status j' = JobCompleted \<longrightarrow> classify_queue_terminal prior j' = Some Uncertain)"
proof (intro conjI allI impI)
  fix i
  assume i: "i < length js"
  assume "job_status (js ! i) = JobRunning \<and> sel (js ! i)
    \<and> (\<exists>t \<in> set (target_names (js ! i)). bt_get (job_results (js ! i)) t = None)"
  then obtain t where j: "job_status (js ! i) = JobRunning" "sel (js ! i)"
    and t: "t \<in> set (target_names (js ! i))" "bt_get (job_results (js ! i)) t = None" by blast
  have wf: "bt_wf (job_results (js ! i))" using assms i by (simp add: list_all_length)
  note row = recovered_row [of i js sel clk, OF i j]
  from clean_results [of prior "snd (recover_running_jobs_matching clk sel js) ! i" t
      "stale_recovery_result t"] fold_or_insert_missing [OF wf t(2,1)] t
  have "classify_queue_terminal prior (snd (recover_running_jobs_matching clk sel js) ! i) \<noteq> Some Clean"
    by (auto simp: row stale_recovery_result_def)
  then show "classify_queue_terminal prior (snd (recover_running_jobs_matching clk sel js) ! i)
      = Some Uncertain"
    by (rule not_clean_uncertain [rotated]) (simp add: row)
next
  fix j' js'
  assume "complete_running_uncertain invalidate now jid reason js = Inr (Some j', js')
    \<and> job_status j' = JobCompleted"
  then obtain j where j: "j \<in> set js" and j': "j' = j\<lparr>
      job_results := uncertain_results reason (target_names j) (job_results j),
      job_status := JobCompleted, job_completed_at := Some now\<rparr>"
    using complete_running_uncertain_row by blast
  have wf: "bt_wf (job_results j)" using assms j by (simp add: list_all_iff)
  have "classify_queue_terminal prior j' \<noteq> Some Clean"
  proof
    assume clean: "classify_queue_terminal prior j' = Some Clean"
    then obtain t where t: "t \<in> set (target_names j)"
      by (cases "target_names j") (auto simp: classify_queue_terminal_def Let_def j' split: if_splits)
    with fold_uncertain [OF wf t, of reason] clean_results [OF clean, of t] show False
      by (auto simp: j' is_some_and_def split: option.splits)
  qed
  then show "classify_queue_terminal prior j' = Some Uncertain"
    by (rule not_clean_uncertain [rotated]) (simp add: j')
qed

theorem recovery_is_uncertain_witness:
  "classify_queue_terminal (sample_job ''a'' JobRunning)
     (snd (recover_running_jobs_matching (\<lambda>_. 5) (\<lambda>_. True) [sample_job ''a'' JobRunning]) ! 0)
     = Some Uncertain"
  using recovery_is_uncertain [of "[sample_job ''a'' JobRunning]" "\<lambda>_. True" "sample_job ''a'' JobRunning"
      "\<lambda>_. 5" "\<lambda>_. None" 0 "[]" "[]"]
  by (simp add: sample_job_def job_create_def bt_get_def)

text \<open>
  Trimming keeps every job that is not terminal, in order, keeps the most recently finished
  terminal jobs up to the bound of 25, and drops none that is more recent than one it keeps.
\<close>

theorem trim_keeps_live_and_newest:
  "let js' = snd (trim_terminal js) in
     filter (\<lambda>j. \<not> job_terminal j) js' = filter (\<lambda>j. \<not> job_terminal j) js
   \<and> length (filter job_terminal js') = min 25 (length (filter job_terminal js))
   \<and> (\<forall>k \<in> set js'. \<forall>d \<in> set js. job_terminal k \<and> job_terminal d \<and> d \<notin> set js' \<longrightarrow>
        completed_sort_time d \<le> completed_sort_time k)"
  using trim_terminal_newest [of _ js]
  by (auto simp: Let_def trim_terminal_live trim_terminal_bound keep_completed_def)

theorem trim_keeps_live_and_newest_witness:
  "length (filter job_terminal (snd (trim_terminal (replicate 40 (sample_job ''a'' JobCompleted))))) = 25"
  using trim_keeps_live_and_newest [of "replicate 40 (sample_job ''a'' JobCompleted)"]
  by (simp add: Let_def job_terminal_def sample_job_def job_create_def)

section \<open>The file\<close>

definition queue_payload :: "codec \<Rightarrow> job list \<Rightarrow> json" where
  "queue_payload c js = JObject [(''jobs'', JArray (map (job_to_value c) js))]"

text \<open>
  What the queue relies on of \<open>serde_json\<close> for a vector it stores: the printed payload parses
  back and is not blank, and each job's serialized form reads back as the job, alone and in the
  array.
\<close>

definition codec_roundtrips :: "codec \<Rightarrow> job list \<Rightarrow> bool" where
  "codec_roundtrips c js =
     ((\<forall>s. print_value c (queue_payload c js) = Inr s \<longrightarrow>
         parse_value c (s @ [CHR 0x0A]) = Inr (queue_payload c js) \<and> trim (s @ [CHR 0x0A]) \<noteq> [])
      \<and> list_all (\<lambda>j. job_from_value c (job_to_value c j) = Inr j) js
      \<and> jobs_from_value c (JArray (map (job_to_value c) js)) = Inr js)"

lemma save_then_read:
  assumes "codec_roundtrips c js" and "save_jobs_to_disk c wfault js = Inr raw"
  shows "parse_jobs_payload c raw = js" and "parse_jobs_payload_strict c raw = Inr js"
proof -
  from assms(2) obtain s where s: "print_value c (queue_payload c js) = Inr s"
      and raw: "raw = s @ [CHR 0x0A]"
    by (auto simp: save_jobs_to_disk_def queue_payload_def split: sum.splits option.splits)
  have parsed: "parse_value c raw = Inr (queue_payload c js)" "trim raw \<noteq> []"
    using assms(1) s raw unfolding codec_roundtrips_def by blast+
  have "collect_results (map (job_from_value c) (map (job_to_value c) js)) = Inr js"
    using assms(1) by (simp add: codec_roundtrips_def collect_results_Inr list_all_iff)
  moreover have "jobs_from_value c (JArray (map (job_to_value c) js)) = Inr js"
    using assms(1) by (simp add: codec_roundtrips_def)
  ultimately show "parse_jobs_payload c raw = js" and "parse_jobs_payload_strict c raw = Inr js"
    using parsed
    by (simp_all add: parse_jobs_payload_def parse_jobs_payload_strict_def queue_payload_def)
qed


text \<open>A codec for evaluation: it knows one job by its id and prints one payload.\<close>

definition sample_codec :: codec where
  "sample_codec = \<lparr>
     parse_value = (\<lambda>s. if s = ''x'' @ [CHR 0x0A]
        then Inr (JObject [(''jobs'', JArray [JString ''a''])]) else Inl ''syntax''),
     print_value = (\<lambda>v. if v = JObject [(''jobs'', JArray [JString ''a''])]
        then Inr ''x'' else Inl ''unsupported''),
     job_from_value = (\<lambda>v. case v of JString i \<Rightarrow> Inr (sample_job i JobPending) | _ \<Rightarrow> Inl ''job''),
     jobs_from_value = (\<lambda>v. case v of
         JArray [JString i] \<Rightarrow> Inr [sample_job i JobPending] | _ \<Rightarrow> Inl ''jobs''),
     job_to_value = (\<lambda>j. JString (job_id j))\<rparr>"

lemma sample_job_id [simp]: "job_id (sample_job i s) = i"
  by (simp add: sample_job_def job_create_def)

lemma trim_sample: "CHR ''x'' \<in> set s \<Longrightarrow> trim s \<noteq> []"
  using trim_keeps_graphic [of "CHR ''x''" s] by (auto simp: is_graphic_def)


text \<open>
  Recovery admission fails closed where ordinary mutation tolerates: on a payload that does
  not parse, the strict mutation reports the JSON error and leaves the file alone, whereas the
  ordinary one runs its body on the empty vector, so that a successful write replaces the
  malformed payload.
\<close>

theorem malformed_payload:
  assumes "parse_value c raw = Inl e" and "trim raw \<noteq> []"
  shows "with_jobs_locked_strict c None wfault f (Some raw) = (Inl (QueueJson e), Some raw)
     \<and> with_jobs_locked c None wfault f (Some raw) =
         (case f [] of
            Inl x \<Rightarrow> (Inl x, Some raw)
          | Inr (out, js') \<Rightarrow> (case save_jobs_to_disk c wfault js' of
              Inl x \<Rightarrow> (Inl x, Some raw)
            | Inr raw' \<Rightarrow> (Inr out, Some raw')))"
  using assms
  by (simp add: with_jobs_locked_strict_def with_jobs_locked_def locked_with_def
      read_jobs_from_disk_def read_jobs_from_disk_strict_def parse_jobs_payload_def
      parse_jobs_payload_strict_def)

theorem malformed_payload_witness:
  "with_jobs_locked_strict sample_codec None None
     (\<lambda>_. Inr ((), [sample_job ''a'' JobPending])) (Some ''x'') = (Inl (QueueJson ''syntax''), Some ''x'')"
proof -
  have "trim ''x'' \<noteq> []" by (simp add: trim_sample)
  then show ?thesis
    using malformed_payload [of sample_codec "''x''" "''syntax''" None
        "\<lambda>_. Inr ((), [sample_job ''a'' JobPending])"]
    by (simp add: sample_codec_def)
qed

section \<open>Replacing the file on Windows\<close>

definition permission_denied :: "replace_error option \<Rightarrow> bool" where
  "permission_denied r = (case r of Some (PermissionDenied _) \<Rightarrow> True | _ \<Rightarrow> False)"

lemma retry_attempts_outcome:
  assumes "i + n = limit" and "0 < n"
  shows "let (r, sleeps) = retry_attempts replace jitter base limit last_error i n;
             k = length sleeps
         in k < n \<and> r = Some (replace (i + k))
          \<and> (\<forall>m < k. permission_denied (replace (i + m))
               \<and> sleeps ! m = scaled_delay base (i + m + 1) div 2
                              + jitter (i + m) (scaled_delay base (i + m + 1)))
          \<and> (Suc (i + k) = limit \<or> \<not> permission_denied (replace (i + k)))"
  using assms
proof (induction n arbitrary: i last_error)
  case (Suc n)
  show ?case
  proof (cases "\<exists>e. replace i = Some (PermissionDenied e) \<and> Suc i \<noteq> limit")
    case False
    then show ?thesis
      by (auto simp: permission_denied_def split: option.splits replace_error.splits)
  next
    case True
    then obtain e where e: "replace i = Some (PermissionDenied e)" "Suc i \<noteq> limit" by blast
    obtain r sl where rec: "retry_attempts replace jitter base limit (Some (PermissionDenied e)) (Suc i) n
        = (r, sl)" by (cases "retry_attempts replace jitter base limit (Some (PermissionDenied e)) (Suc i) n")
    have whole: "retry_attempts replace jitter base limit last_error i (Suc n) =
        (r, (scaled_delay base (Suc i) div 2 + jitter i (scaled_delay base (Suc i))) # sl)"
      using e rec by (simp add: Let_def)
    from Suc.IH [of "Suc i" "Some (PermissionDenied e)"] Suc.prems e(2) rec
    have ih: "length sl < n" "r = Some (replace (Suc i + length sl))"
      "\<forall>m < length sl. permission_denied (replace (Suc i + m))
         \<and> sl ! m = scaled_delay base (Suc i + m + 1) div 2
                    + jitter (Suc i + m) (scaled_delay base (Suc i + m + 1))"
      "Suc (Suc i + length sl) = limit \<or> \<not> permission_denied (replace (Suc i + length sl))"
      by (auto simp: Let_def)
    show ?thesis
      unfolding whole using ih e(1)
      by (auto simp: permission_denied_def nth_Cons split: nat.split)
  qed
qed simp

text \<open>
  (C39) Replacing the queue file terminates with a result: off Windows it is one attempt without
  a sleep; on Windows the result is that of the first attempt not refused for permission, or of
  the last of the allowed attempts (the \<open>expect\<close> never fails), and each sleep between
  attempts lies between half and one and a half of the attempt's scaled delay for the jitter the
  code draws.
\<close>

theorem retry_replace_outcome:
  "let (r, sleeps) = retry_replace_with_strategy is_windows policy replace
          (\<lambda>i. random_jitter (seed i));
       k = length sleeps; n = (if is_windows then max (attempts policy) 1 else 1)
   in k < n \<and> r = Some (replace k)
    \<and> (\<forall>m < k. permission_denied (replace m)
         \<and> scaled_delay (base_delay policy) (m + 1) div 2 \<le> sleeps ! m
         \<and> sleeps ! m \<le> scaled_delay (base_delay policy) (m + 1) div 2
                         + scaled_delay (base_delay policy) (m + 1))
    \<and> (Suc k = n \<or> \<not> permission_denied (replace k))"
proof -
  have "random_jitter s d \<le> d" for s d
    by (simp add: random_jitter_def min.coboundedI1 mod_le_divisor)
  then show ?thesis
    using retry_attempts_outcome [of 0 "max (attempts policy) 1" "max (attempts policy) 1" replace
        "\<lambda>i. random_jitter (seed i)" "base_delay policy" None]
    by (auto simp: retry_replace_with_strategy_def Let_def split_beta)
qed

theorem retry_replace_outcome_witness:
  "fst (retry_replace_with_strategy True default_replace_retry_policy
     (\<lambda>i. if i < 2 then Some (PermissionDenied ''busy'') else None) (\<lambda>i. random_jitter 3)) = Some None"
proof -
  let ?rep = "\<lambda>i::nat. if i < 2 then Some (PermissionDenied ''busy'') else None"
  obtain r sl where eq: "retry_replace_with_strategy True default_replace_retry_policy ?rep
      (\<lambda>i. random_jitter 3) = (r, sl)" by fastforce
  have n: "max (attempts default_replace_retry_policy) 1 = 18"
    by (simp add: default_replace_retry_policy_def)
  from retry_replace_outcome [of True default_replace_retry_policy ?rep "\<lambda>_. 3"] eq n
  have "r = Some (?rep (length sl))" and "Suc (length sl) = 18 \<or> \<not> permission_denied (?rep (length sl))"
    by (simp_all add: Let_def)
  then have "r = Some None" by (auto simp: permission_denied_def split: if_splits)
  with eq show ?thesis by simp
qed

end
