(* ===== verification/Host_Pool.thy ===== *)
theory Host_Pool
  imports Shipyard_Prelude
begin

text \<open>
  The host pools of \<open>src/src/host_pool.rs\<close>: the configuration parser over a TOML table and
  the lease store. A store operation is a function of the leases on file to its result and the
  new file content; \<open>None\<close> stands for a panic of the date arithmetic, whose addition
  (\<open>now + Duration::seconds(n)\<close> of \<open>chrono\<close>) is the parameter \<open>add_seconds\<close>. The lemmas show
  that a member never holds more leases than its concurrency, in every history of the store.
\<close>

section \<open>Configuration\<close>

datatype toml =
    TString string
  | TInteger int
  | TFloat f64
  | TBoolean bool
  | TDatetime string
  | TArray "toml list"
  | TTable "(string \<times> toml) list"

type_synonym toml_table = "(string \<times> toml) list"

definition toml_as_table :: "toml \<Rightarrow> toml_table option" where
  "toml_as_table v = (case v of TTable t \<Rightarrow> Some t | _ \<Rightarrow> None)"

definition toml_as_array :: "toml \<Rightarrow> toml list option" where
  "toml_as_array v = (case v of TArray t \<Rightarrow> Some t | _ \<Rightarrow> None)"

definition toml_as_str :: "toml \<Rightarrow> string option" where
  "toml_as_str v = (case v of TString t \<Rightarrow> Some t | _ \<Rightarrow> None)"

definition toml_as_integer :: "toml \<Rightarrow> int option" where
  "toml_as_integer v = (case v of TInteger t \<Rightarrow> Some t | _ \<Rightarrow> None)"

record host_pool_member_config =
  hpm_id :: string
  hpm_backend_type :: string
  hpm_host :: "string option"
  hpm_repo_path :: "string option"
  hpm_cwd :: "string option"
  hpm_max_concurrency :: u32
  hpm_capabilities :: "string list"

record host_pool_config =
  hpc_name :: string
  hpc_strategy :: string
  hpc_lease_stale_seconds :: u64
  hpc_heartbeat_interval_seconds :: u64
  hpc_members :: "host_pool_member_config list"

text \<open>The parse error carries the place and the offending value instead of the message.\<close>

datatype host_pool_config_error =
    PoolNotTable string
  | UnsupportedStrategy string string
  | MembersNotArray string
  | MemberNotTable string nat
  | MembersEmpty string
  | MemberIdRequired string nat
  | UnsupportedMemberType string nat string
  | MemberHostRequired string nat

definition default_lease_stale_seconds :: u64 where
  "default_lease_stale_seconds = 180"

definition default_heartbeat_interval_seconds :: u64 where
  "default_heartbeat_interval_seconds = 15"

definition string_value :: "toml_table \<Rightarrow> string \<Rightarrow> string option" where
  "string_value t k = (case Option.bind (map_of t k) toml_as_str of
       Some s \<Rightarrow> if trim s = [] then None else Some (trim s)
     | None \<Rightarrow> None)"

text \<open>A TOML integer is an \<open>i64\<close>.\<close>

definition u64_value :: "toml_table \<Rightarrow> string \<Rightarrow> u64 option" where
  "u64_value t k = (case Option.bind (map_of t k) toml_as_integer of
       Some n \<Rightarrow> if 0 \<le> n then Some (nat n) else None
     | None \<Rightarrow> None)"

definition u32_value :: "toml_table \<Rightarrow> string \<Rightarrow> u32 option" where
  "u32_value t k = (case u64_value t k of
       Some n \<Rightarrow> if n < 2 ^ 32 then Some (of_nat n) else None
     | None \<Rightarrow> None)"

definition string_array :: "toml_table \<Rightarrow> string \<Rightarrow> string list" where
  "string_array t k = (case Option.bind (map_of t k) toml_as_array of
       Some vs \<Rightarrow> filter (\<lambda>s. s \<noteq> []) (map trim (List.map_filter toml_as_str vs))
     | None \<Rightarrow> [])"

definition parse_member ::
  "string \<Rightarrow> nat \<Rightarrow> toml_table \<Rightarrow> host_pool_config_error + host_pool_member_config" where
  "parse_member pool index t =
     (case string_value t ''id'' of
        None \<Rightarrow> Inl (MemberIdRequired pool index)
      | Some i \<Rightarrow>
          if trim i = [] then Inl (MemberIdRequired pool index)
          else let backend = map (\<lambda>c. if c = CHR ''_'' then CHR ''-'' else c)
                     (to_ascii_lowercase (trim (unwrap_or (string_value t ''type'') ''ssh'')))
            in if backend \<noteq> ''ssh'' \<and> backend \<noteq> ''local''
               then Inl (UnsupportedMemberType pool index backend)
               else if backend = ''ssh'' \<and> string_value t ''host'' = None
               then Inl (MemberHostRequired pool index)
               else Inr \<lparr>
                 hpm_id = i,
                 hpm_backend_type = backend,
                 hpm_host = string_value t ''host'',
                 hpm_repo_path = string_value t ''repo_path'',
                 hpm_cwd = string_value t ''cwd'',
                 hpm_max_concurrency = max (unwrap_or (u32_value t ''max_concurrency'') 1) 1,
                 hpm_capabilities = string_array t ''capabilities''\<rparr>)"

definition parse_host_pool ::
  "string \<Rightarrow> toml_table \<Rightarrow> host_pool_config_error + host_pool_config" where
  "parse_host_pool name t =
     (let strategy = unwrap_or (string_value t ''strategy'') ''ordered''
      in if strategy \<noteq> ''ordered'' then Inl (UnsupportedStrategy name strategy)
         else case Option.bind (map_of t ''members'') toml_as_array of
           None \<Rightarrow> Inl (MembersNotArray name)
         | Some vs \<Rightarrow>
             result_bind (collect_results (map (\<lambda>(index, v). case toml_as_table v of
                  None \<Rightarrow> Inl (MemberNotTable name index)
                | Some m \<Rightarrow> parse_member name index m) (enumerate 0 vs)))
               (\<lambda>members. if members = [] then Inl (MembersEmpty name)
                  else Inr \<lparr>
                    hpc_name = name,
                    hpc_strategy = strategy,
                    hpc_lease_stale_seconds =
                      unwrap_or (u64_value t ''lease_stale_seconds'') default_lease_stale_seconds,
                    hpc_heartbeat_interval_seconds =
                      unwrap_or (u64_value t ''heartbeat_interval_seconds'')
                        default_heartbeat_interval_seconds,
                    hpc_members = members\<rparr>))"

definition parse_host_pools :: "toml_table \<Rightarrow> host_pool_config_error + host_pool_config list" where
  "parse_host_pools data =
     (case Option.bind (map_of data ''host_pools'') toml_as_table of
        None \<Rightarrow> Inr []
      | Some pools \<Rightarrow> collect_results (map (\<lambda>(name, v). case toml_as_table v of
          None \<Rightarrow> Inl (PoolNotTable name)
        | Some t \<Rightarrow> parse_host_pool name t) pools))"

section \<open>Leases\<close>

record host_pool_lease =
  lease_id :: string
  lease_pool_name :: string
  lease_member_id :: string
  lease_target_name :: string
  lease_backend :: string
  lease_host :: "string option"
  lease_job_id :: "string option"
  lease_branch :: string
  lease_sha :: string
  lease_owner_pid :: nat
  lease_acquired_at :: time
  lease_heartbeat_at :: time
  lease_expires_at :: time

record host_pool_lease_request =
  lr_pool_name :: string
  lr_member_id :: string
  lr_target_name :: string
  lr_backend :: string
  lr_host :: "string option"
  lr_job_id :: "string option"
  lr_branch :: string
  lr_sha :: string
  lr_max_concurrency :: u32
  lr_lease_stale_seconds :: u64

datatype host_pool_lease_error = LeaseIo string | LeaseJson string

definition lease_is_stale :: "time \<Rightarrow> host_pool_lease \<Rightarrow> bool" where
  "lease_is_stale now l = (lease_expires_at l \<le> now)"

text \<open>\<open>timestamp_nanos_opt\<close> falls back to seconds outside the \<open>i64\<close> range of nanoseconds.\<close>

definition new_lease_id :: "nat \<Rightarrow> time \<Rightarrow> string" where
  "new_lease_id pid now =
     show_nat pid @ ''-'' @
     show_int (if - (2 ^ 63) \<le> now \<and> now < 2 ^ 63 then now else now div nanos_per_second)"

text \<open>\<open>i64::try_from(seconds).unwrap_or(i64::MAX)\<close>, then added to \<open>now\<close>.\<close>

definition expiry :: "(time \<Rightarrow> int \<Rightarrow> time option) \<Rightarrow> time \<Rightarrow> u64 \<Rightarrow> time option" where
  "expiry add_seconds now secs = add_seconds now (int (min secs (2 ^ 63 - 1)))"

definition new_lease :: "nat \<Rightarrow> time \<Rightarrow> time \<Rightarrow> host_pool_lease_request \<Rightarrow> host_pool_lease" where
  "new_lease pid now expires r = \<lparr>
     lease_id = new_lease_id pid now,
     lease_pool_name = lr_pool_name r,
     lease_member_id = lr_member_id r,
     lease_target_name = lr_target_name r,
     lease_backend = lr_backend r,
     lease_host = lr_host r,
     lease_job_id = lr_job_id r,
     lease_branch = lr_branch r,
     lease_sha = lr_sha r,
     lease_owner_pid = pid,
     lease_acquired_at = now,
     lease_heartbeat_at = now,
     lease_expires_at = expires\<rparr>"

definition for_member :: "string \<Rightarrow> string \<Rightarrow> host_pool_lease \<Rightarrow> bool" where
  "for_member pool member l = (lease_pool_name l = pool \<and> lease_member_id l = member)"

definition retain_fresh :: "time \<Rightarrow> host_pool_lease list \<Rightarrow> host_pool_lease list" where
  "retain_fresh now ls = filter (\<lambda>l. \<not> lease_is_stale now l) ls"

definition lease_acquire ::
  "(time \<Rightarrow> int \<Rightarrow> time option) \<Rightarrow> nat \<Rightarrow> time \<Rightarrow> host_pool_lease_request \<Rightarrow> host_pool_lease list
     \<Rightarrow> (host_pool_lease option \<times> host_pool_lease list) option" where
  "lease_acquire add_seconds pid now r ls0 =
     (let ls = retain_fresh now ls0;
          active = length (filter (for_member (lr_pool_name r) (lr_member_id r)) ls)
      in if unat (lr_max_concurrency r) \<le> active then Some (None, ls)
         else map_option (\<lambda>e. let l = new_lease pid now e r in (Some l, ls @ [l]))
                (expiry add_seconds now (lr_lease_stale_seconds r)))"

definition same_job_lease :: "host_pool_lease_request \<Rightarrow> host_pool_lease \<Rightarrow> bool" where
  "same_job_lease r l = (lease_job_id l = lr_job_id r \<and> lease_pool_name l = lr_pool_name r)"

definition contradicts :: "host_pool_lease_request \<Rightarrow> host_pool_lease \<Rightarrow> bool" where
  "contradicts r l =
     (lease_member_id l \<noteq> lr_member_id r \<or> lease_target_name l \<noteq> lr_target_name r
      \<or> lease_backend l \<noteq> lr_backend r \<or> lease_host l \<noteq> lr_host r
      \<or> lease_branch l \<noteq> lr_branch r \<or> lease_sha l \<noteq> lr_sha r)"

definition refresh :: "time \<Rightarrow> time \<Rightarrow> host_pool_lease \<Rightarrow> host_pool_lease" where
  "refresh now expires l = l\<lparr>lease_heartbeat_at := now, lease_expires_at := expires\<rparr>"

definition acquire_or_heartbeat_exact ::
  "(time \<Rightarrow> int \<Rightarrow> time option) \<Rightarrow> nat \<Rightarrow> time \<Rightarrow> host_pool_lease_request \<Rightarrow> host_pool_lease list
     \<Rightarrow> (host_pool_lease_error + host_pool_lease option \<times> host_pool_lease list) option" where
  "acquire_or_heartbeat_exact add_seconds pid now r ls0 =
     (let ls = retain_fresh now ls0
      in case find (same_job_lease r) ls of
           Some existing \<Rightarrow>
             if contradicts r existing
             then Some (Inl (LeaseIo ''existing lease contradicts exact logical-job authority''))
             else map_option (\<lambda>e. let l = refresh now e existing
                                  in Inr (Some l, assign_first (same_job_lease r) l ls))
                    (expiry add_seconds now (lr_lease_stale_seconds r))
         | None \<Rightarrow> map_option Inr (lease_acquire add_seconds pid now r ls0))"

definition heartbeat_existing_job ::
  "(time \<Rightarrow> int \<Rightarrow> time option) \<Rightarrow> time \<Rightarrow> string \<Rightarrow> string \<Rightarrow> string \<Rightarrow> u64 \<Rightarrow> host_pool_lease list
     \<Rightarrow> (bool \<times> host_pool_lease list) option" where
  "heartbeat_existing_job add_seconds now pool member jid secs ls0 =
     (let ls = retain_fresh now ls0; sel = (\<lambda>l. for_member pool member l \<and> lease_job_id l = Some jid)
      in case find sel ls of
           None \<Rightarrow> Some (False, ls)
         | Some existing \<Rightarrow>
             map_option (\<lambda>e. (True, assign_first sel (refresh now e existing) ls))
               (expiry add_seconds now secs))"

definition lease_heartbeat ::
  "(time \<Rightarrow> int \<Rightarrow> time option) \<Rightarrow> time \<Rightarrow> string \<Rightarrow> u64 \<Rightarrow> host_pool_lease list
     \<Rightarrow> (bool \<times> host_pool_lease list) option" where
  "lease_heartbeat add_seconds now lid secs ls =
     (if list_ex (\<lambda>l. lease_id l = lid) ls
      then map_option (\<lambda>e. (True, map (\<lambda>l. if lease_id l = lid then refresh now e l else l) ls))
             (expiry add_seconds now secs)
      else Some (False, ls))"

definition lease_release :: "string \<Rightarrow> host_pool_lease list \<Rightarrow> bool \<times> host_pool_lease list" where
  "lease_release lid ls =
     (let ls' = filter (\<lambda>l. lease_id l \<noteq> lid) ls in (length ls' \<noteq> length ls, ls'))"

definition release_for_job :: "string \<Rightarrow> host_pool_lease list \<Rightarrow> nat \<times> host_pool_lease list" where
  "release_for_job jid ls =
     (let ls' = filter (\<lambda>l. lease_job_id l \<noteq> Some jid) ls in (length ls - length ls', ls'))"

definition prune_stale :: "time \<Rightarrow> host_pool_lease list \<Rightarrow> nat \<times> host_pool_lease list" where
  "prune_stale now ls =
     (let ls' = filter (\<lambda>l. \<not> lease_is_stale now l) ls in (length ls - length ls', ls'))"

section \<open>The lease histories\<close>

definition member_count :: "string \<Rightarrow> string \<Rightarrow> host_pool_lease list \<Rightarrow> nat" where
  "member_count pool member ls = length (filter (for_member pool member) ls)"

text \<open>
  Every way the file changes. \<open>cap\<close> is the configured concurrency of each member, which the
  requests carry.
\<close>

inductive lease_step ::
  "(string \<Rightarrow> string \<Rightarrow> u32) \<Rightarrow> host_pool_lease list \<Rightarrow> host_pool_lease list \<Rightarrow> bool" for cap where
  l_acquire: "lr_max_concurrency r = cap (lr_pool_name r) (lr_member_id r) \<Longrightarrow>
    lease_acquire add_seconds pid now r ls = Some (out, ls') \<Longrightarrow> lease_step cap ls ls'"
| l_exact: "lr_max_concurrency r = cap (lr_pool_name r) (lr_member_id r) \<Longrightarrow>
    acquire_or_heartbeat_exact add_seconds pid now r ls = Some (Inr (out, ls')) \<Longrightarrow>
    lease_step cap ls ls'"
| l_heartbeat_job: "heartbeat_existing_job add_seconds now pool member jid secs ls = Some (ok, ls') \<Longrightarrow>
    lease_step cap ls ls'"
| l_heartbeat: "lease_heartbeat add_seconds now lid secs ls = Some (ok, ls') \<Longrightarrow> lease_step cap ls ls'"
| l_release: "lease_step cap ls (snd (lease_release lid ls))"
| l_release_job: "lease_step cap ls (snd (release_for_job jid ls))"
| l_prune: "lease_step cap ls (snd (prune_stale now ls))"

inductive lease_reach :: "(string \<Rightarrow> string \<Rightarrow> u32) \<Rightarrow> host_pool_lease list \<Rightarrow> bool" for cap where
  none: "lease_reach cap []"
| step: "lease_reach cap ls \<Longrightarrow> lease_step cap ls ls' \<Longrightarrow> lease_reach cap ls'"


lemma member_count_filter: "member_count p m (filter P ls) \<le> member_count p m ls"
  by (induction ls) (auto simp: member_count_def)

lemma member_count_append [simp]: "member_count p m (a @ b) = member_count p m a + member_count p m b"
  by (simp add: member_count_def)

lemma member_count_fresh: "member_count p m (retain_fresh now ls) \<le> member_count p m ls"
  by (simp add: retain_fresh_def member_count_filter)

lemma for_member_refresh [simp]: "for_member p m (refresh now e l) = for_member p m l"
  by (simp add: for_member_def refresh_def)

lemma member_count_map_refresh:
  "member_count p m (map (\<lambda>l. if P l then refresh now e l else l) ls) = member_count p m ls"
  by (induction ls) (auto simp: member_count_def)

lemma member_count_assign:
  assumes "find P ls = Some l"
  shows "member_count p m (assign_first P (refresh now e l) ls) = member_count p m ls"
  using assms by (induction ls) (auto simp: member_count_def split: if_splits)

lemma for_member_new [simp]:
  "for_member p m (new_lease pid now e r) \<longleftrightarrow> lr_pool_name r = p \<and> lr_member_id r = m"
  by (simp add: for_member_def new_lease_def)

lemma member_count_new:
  "member_count p m [new_lease pid now e r] = (if lr_pool_name r = p \<and> lr_member_id r = m then 1 else 0)"
  by (simp add: member_count_def)

lemma lease_acquire_count:
  assumes "lease_acquire add_seconds pid now r ls = Some (out, ls')"
  shows "member_count p m ls' \<le> member_count p m ls
    \<or> (p = lr_pool_name r \<and> m = lr_member_id r
       \<and> member_count p m ls' \<le> unat (lr_max_concurrency r))"
proof (cases out)
  case None
  with assms member_count_fresh show ?thesis
    by (auto simp: lease_acquire_def Let_def split: if_splits)
next
  case (Some l)
  with assms obtain e where ls': "ls' = retain_fresh now ls @ [new_lease pid now e r]"
    and room: "member_count (lr_pool_name r) (lr_member_id r) (retain_fresh now ls)
      < unat (lr_max_concurrency r)"
    by (auto simp: lease_acquire_def Let_def member_count_def split: if_splits)
  show ?thesis
  proof (cases "lr_pool_name r = p \<and> lr_member_id r = m")
    case True
    with room show ?thesis by (simp add: ls' member_count_new)
  next
    case False
    with member_count_fresh [of p m now ls] show ?thesis by (auto simp: ls' member_count_new)
  qed
qed

lemma lease_step_count:
  assumes "lease_step cap ls ls'" and "\<And>p m. member_count p m ls \<le> unat (cap p m)"
  shows "member_count p m ls' \<le> unat (cap p m)"
  using assms(1)
proof cases
  case (l_acquire r add_seconds pid now out)
  with lease_acquire_count [OF l_acquire(2), of p m] assms(2) [of p m] show ?thesis by auto
next
  case (l_exact r add_seconds pid now out)
  show ?thesis
  proof (cases "find (same_job_lease r) (retain_fresh now ls)")
    case None
    with l_exact(2) have "lease_acquire add_seconds pid now r ls = Some (out, ls')"
      by (auto simp: acquire_or_heartbeat_exact_def Let_def)
    from lease_acquire_count [OF this, of p m] assms(2) [of p m] l_exact(1) show ?thesis by auto
  next
    case (Some l)
    with l_exact(2) obtain e
      where "ls' = assign_first (same_job_lease r) (refresh now e l) (retain_fresh now ls)"
      by (auto simp: acquire_or_heartbeat_exact_def Let_def split: if_splits)
    then have "member_count p m ls' = member_count p m (retain_fresh now ls)"
      using member_count_assign [OF Some] by simp
    with member_count_fresh [of p m now ls] assms(2) [of p m] show ?thesis by linarith
  qed
next
  case (l_heartbeat_job add_seconds now pool member jid secs ok)
  then have "member_count p m ls' = member_count p m (retain_fresh now ls)"
    using member_count_assign
    by (auto simp: heartbeat_existing_job_def Let_def split: option.splits)
  with member_count_fresh [of p m now ls] assms(2) [of p m] show ?thesis by linarith
next
  case (l_heartbeat add_seconds now lid secs ok)
  then have "member_count p m ls' = member_count p m ls"
    by (auto simp: lease_heartbeat_def member_count_map_refresh split: if_splits)
  with assms(2) [of p m] show ?thesis by simp
next
  case (l_release lid)
  then show ?thesis
    using order_trans [OF member_count_filter assms(2)] by (simp add: lease_release_def Let_def)
next
  case (l_release_job jid)
  then show ?thesis
    using order_trans [OF member_count_filter assms(2)] by (simp add: release_for_job_def Let_def)
next
  case (l_prune now)
  then show ?thesis
    using order_trans [OF member_count_filter assms(2)] by (simp add: prune_stale_def Let_def)
qed

section \<open>Properties of the lease store\<close>

text \<open>
  (C6) In every history of the lease file, under any interleaving of acquisitions, heartbeats,
  releases and prunings by any number of processes, no member holds more leases, stale ones
  included, than the concurrency its requests carry.
\<close>

theorem lease_capacity:
  assumes "lease_reach cap ls"
  shows "member_count pool member ls \<le> unat (cap pool member)"
  using assms
proof (induction arbitrary: pool member rule: lease_reach.induct)
  case none
  then show ?case by (simp add: member_count_def)
next
  case (step ls ls')
  from lease_step_count [OF step.hyps(2) step.IH] show ?case .
qed

definition sample_request :: host_pool_lease_request where
  "sample_request = \<lparr>lr_pool_name = ''p'', lr_member_id = ''m'', lr_target_name = ''mac'',
     lr_backend = ''local'', lr_host = None, lr_job_id = Some ''a'', lr_branch = ''main'',
     lr_sha = ''0a1b'', lr_max_concurrency = 1, lr_lease_stale_seconds = 180\<rparr>"

definition add_seconds_exact :: "time \<Rightarrow> int \<Rightarrow> time option" where
  "add_seconds_exact now s = Some (now + duration_seconds s)"

theorem lease_capacity_witness:
  "member_count ''p'' ''m''
     [new_lease 7 0 (duration_seconds 180) sample_request] \<le> unat (1 :: u32)"
proof -
  have acq: "lease_acquire add_seconds_exact 7 0 sample_request [] =
      Some (Some (new_lease 7 0 (duration_seconds 180) sample_request),
            [new_lease 7 0 (duration_seconds 180) sample_request])"
    by (simp add: lease_acquire_def retain_fresh_def Let_def sample_request_def expiry_def
        add_seconds_exact_def)
  have "lease_reach (\<lambda>_ _. 1) [new_lease 7 0 (duration_seconds 180) sample_request]"
    by (rule lease_reach.step [OF lease_reach.none], rule l_acquire [OF _ acq])
       (simp add: sample_request_def)
  from lease_capacity [OF this] show ?thesis .
qed

text \<open>
  Acquiring a lease: when the date arithmetic succeeds the operation returns, drops exactly
  the stale leases, and grants a lease if and only if fewer fresh leases than the requested
  concurrency are held on the member; the granted lease is the last on file, names the request's
  pool, member and job, and expires when the arithmetic says.
\<close>

theorem lease_acquire_exact:
  assumes "expiry add_seconds now (lr_lease_stale_seconds r) = Some e"
  shows "lease_acquire add_seconds pid now r ls =
     (let fresh = filter (\<lambda>l. now < lease_expires_at l) ls in
      if member_count (lr_pool_name r) (lr_member_id r) fresh < unat (lr_max_concurrency r)
      then Some (Some (new_lease pid now e r), fresh @ [new_lease pid now e r])
      else Some (None, fresh))"
  using assms
  by (simp add: lease_acquire_def retain_fresh_def lease_is_stale_def member_count_def Let_def
      not_le not_less)

theorem lease_acquire_exact_witness:
  "lease_acquire add_seconds_exact 7 0 sample_request
     [new_lease 7 0 (duration_seconds 180) sample_request]
   = Some (None, [new_lease 7 0 (duration_seconds 180) sample_request])"
  using lease_acquire_exact [of add_seconds_exact 0 sample_request "duration_seconds 180" 7
      "[new_lease 7 0 (duration_seconds 180) sample_request]"]
  by (simp add: expiry_def add_seconds_exact_def sample_request_def new_lease_def member_count_def
      for_member_def duration_seconds_def nanos_per_second_def)

text \<open>
  The restart-safe acquisition: a fresh lease of the same job and pool that names another
  member, target, backend, host, branch or commit is refused without touching the file; one that
  agrees is only refreshed, so the number of leases of no member grows; without one the
  operation is an ordinary acquisition.
\<close>

theorem exact_lease_authority:
  assumes "expiry add_seconds now (lr_lease_stale_seconds r) = Some e"
  shows "case find (same_job_lease r) (retain_fresh now ls) of
       None \<Rightarrow> acquire_or_heartbeat_exact add_seconds pid now r ls
                = map_option Inr (lease_acquire add_seconds pid now r ls)
     | Some l \<Rightarrow> (if contradicts r l
         then \<exists>m. acquire_or_heartbeat_exact add_seconds pid now r ls = Some (Inl (LeaseIo m))
         else \<exists>ls'. acquire_or_heartbeat_exact add_seconds pid now r ls
                      = Some (Inr (Some (refresh now e l), ls'))
               \<and> refresh now e l \<in> set ls'
               \<and> (\<forall>p m. member_count p m ls' = member_count p m (retain_fresh now ls)))"
proof (cases "find (same_job_lease r) (retain_fresh now ls)")
  case None
  then show ?thesis by (simp add: acquire_or_heartbeat_exact_def Let_def)
next
  case (Some l)
  with assms member_count_assign [OF Some] assign_first_new [OF Some] show ?thesis
    by (simp add: acquire_or_heartbeat_exact_def Let_def)
qed

theorem exact_lease_authority_witness:
  "\<exists>m. acquire_or_heartbeat_exact add_seconds_exact 7 5 (sample_request\<lparr>lr_sha := ''ffff''\<rparr>)
     [new_lease 7 0 (duration_seconds 180) sample_request] = Some (Inl (LeaseIo m))"
proof -
  let ?l = "new_lease 7 0 (duration_seconds 180) sample_request"
    and ?r = "sample_request\<lparr>lr_sha := ''ffff''\<rparr>"
  have "expiry add_seconds_exact 5 (lr_lease_stale_seconds ?r) = Some (5 + duration_seconds 180)"
    by (simp add: expiry_def add_seconds_exact_def sample_request_def)
  moreover have "find (same_job_lease ?r) (retain_fresh 5 [?l]) = Some ?l" and "contradicts ?r ?l"
    by (simp_all add: same_job_lease_def retain_fresh_def lease_is_stale_def contradicts_def
        new_lease_def sample_request_def duration_seconds_def nanos_per_second_def)
  ultimately show ?thesis
    using exact_lease_authority [of add_seconds_exact 5 ?r "5 + duration_seconds 180" 7 "[?l]"]
    by simp
qed

lemma string_value_nonempty: "string_value t k = Some s \<Longrightarrow> s \<noteq> []"
  by (auto simp: string_value_def split: option.splits if_splits)

definition member_usable :: "host_pool_member_config \<Rightarrow> bool" where
  "member_usable m =
     (hpm_id m \<noteq> [] \<and> 1 \<le> hpm_max_concurrency m
      \<and> (hpm_backend_type m = ''local'' \<or> hpm_backend_type m = ''ssh'' \<and> hpm_host m \<noteq> None))"

definition pool_usable :: "host_pool_config \<Rightarrow> bool" where
  "pool_usable p =
     (hpc_strategy p = ''ordered'' \<and> hpc_members p \<noteq> [] \<and> list_all member_usable (hpc_members p))"

lemma parse_member_usable:
  assumes "parse_member n i t = Inr m"
  shows "member_usable m"
proof -
  obtain x where x: "string_value t ''id'' = Some x"
    using assms by (cases "string_value t ''id''") (simp_all add: parse_member_def)
  with assms string_value_nonempty [OF x] show ?thesis
    by (clarsimp simp: parse_member_def member_usable_def Let_def split: if_splits)
qed

lemma parse_host_pool_usable:
  assumes "parse_host_pool n t = Inr p"
  shows "pool_usable p"
proof -
  let ?f = "\<lambda>(i, v). case toml_as_table v of
      None \<Rightarrow> Inl (MemberNotTable n i) | Some t \<Rightarrow> parse_member n i t"
  from assms obtain vs where vs: "collect_results (map ?f (enumerate 0 vs)) = Inr (hpc_members p)"
    and rest: "hpc_strategy p = ''ordered''" "hpc_members p \<noteq> []"
    by (auto simp: parse_host_pool_def Let_def result_bind_Inr_iff split: if_splits option.splits)
  have "member_usable m" if "m \<in> set (hpc_members p)" for m
  proof -
    from collect_results_source [OF vs that] obtain i v where "?f (i, v) = Inr m" by force
    then show ?thesis by (auto split: option.splits intro: parse_member_usable)
  qed
  with rest show ?thesis by (simp add: pool_usable_def list_all_iff)
qed



end
