(* ===== verification/Queue_Scheduler.thy ===== *)
theory Queue_Scheduler
  imports Job_Queue Host_Pool
begin

text \<open>
  The drain scheduler of \<open>src/src/queue_scheduler.rs\<close>: the capacity arithmetic, the greedy
  admit pass, the same-pull-request rules, the observer that cancels ships whose pull request
  has merged, and the application of a pass to the queue. The request store is the function
  \<open>load\<close> with its errors; plans are pure functions of the snapshots they are given. The lemmas
  show that a pass never admits two jobs with a common exclusive claim, stays within host and VM
  capacity, admits at most one ship per pull request, and starts nothing when its picture of the
  running jobs is incomplete.
\<close>

section \<open>Data\<close>

definition orphaned_pending_request_reason :: string where
  "orphaned_pending_request_reason = ''Queued request envelope missing or unreadable''"

record pending_admission_request =
  par_job_id :: string
  par_resource_plan :: "job_resource_plan option"
  par_missing_request_reason :: "string option"

definition pending_loaded :: "'cs queued_execution_envelope \<Rightarrow> pending_admission_request" where
  "pending_loaded e = \<lparr>par_job_id = env_job_id e, par_resource_plan = Some (resource_plan e),
     par_missing_request_reason = None\<rparr>"

definition pending_missing :: "string \<Rightarrow> string \<Rightarrow> pending_admission_request" where
  "pending_missing jid reason = \<lparr>par_job_id = jid, par_resource_plan = None,
     par_missing_request_reason = Some reason\<rparr>"

record host_pool_capacity_deficit =
  hpd_deficit_pool_name :: string
  hpd_deficit_capability_key :: string
  hpd_requested_slots :: u32
  hpd_available_slots :: u32

record vm_slot_capacity =
  vsc_key :: string
  vsc_slots :: u32

record vm_slot_capacity_deficit =
  vsd_deficit_key :: string
  vsd_requested_slots :: u32
  vsd_available_slots :: u32

datatype scheduler_admission_blocker =
    ExclusiveClaim string
  | HostPoolCapacity host_pool_capacity_deficit
  | VmSlotCapacity vm_slot_capacity_deficit

record deferred_admission =
  da_job_id :: string
  da_blockers :: "scheduler_admission_blocker list"

record orphaned_pending_job =
  opj_job_id :: string
  opj_reason :: string

record admit_pass_plan =
  admitted :: "string list"
  deferred :: "deferred_admission list"
  orphaned :: "orphaned_pending_job list"

record request_load_error =
  rle_job_id :: string
  rle_reason :: string

record already_merged_cancellation =
  amc_job_id :: string
  amc_pr :: u64
  amc_repository :: string
  amc_head_sha :: string

record same_pr_ship_pending_cancellation =
  sppc_job_id :: string
  sppc_superseded_by_job_id :: string
  sppc_repo :: string
  sppc_pr :: u64
  sppc_reason :: string

record same_pr_ship_stale_running_cancellation =
  spsc_job_id :: string
  spsc_repo :: string
  spsc_pr :: u64
  spsc_reason :: string

record same_pr_ship_running_conflict =
  sprc_pending_job_id :: string
  sprc_running_job_id :: string
  sprc_repo :: string
  sprc_pr :: u64
  sprc_reason :: string

record same_pr_ship_admission =
  pending_cancellations :: "same_pr_ship_pending_cancellation list"
  running_conflicts :: "same_pr_ship_running_conflict list"
  stale_running_cancellations :: "same_pr_ship_stale_running_cancellation list"

record request_backed_admit_pass =
  pass_plan :: admit_pass_plan
  running_request_errors :: "request_load_error list"
  pass_same_pr :: same_pr_ship_admission
  already_merged_cancellations :: "already_merged_cancellation list"

record applied_admit_pass =
  applied_started :: "job list"
  applied_cancelled :: "job list"
  skipped_starts_due_to_running_request_errors :: bool
  skipped_starts_due_to_revived_stale_running :: bool
  stale_running_cancelled :: "job list"

section \<open>Capacity\<close>

definition eligible_member_ids :: "host_pool_config \<Rightarrow> string list \<Rightarrow> string set" where
  "eligible_member_ids pool requires =
     hpm_id ` set (filter (\<lambda>m. list_all (\<lambda>r. r \<in> set (hpm_capabilities m)) requires) (hpc_members pool))"

text \<open>The pools collected into a map by name: the last of two equal names stays.\<close>

definition pool_map :: "host_pool_config list \<Rightarrow> string \<Rightarrow> host_pool_config option" where
  "pool_map pools n = map_of (rev (map (\<lambda>p. (hpc_name p, p)) pools)) n"

definition available_slots_for ::
  "host_pool_demand \<Rightarrow> (string \<Rightarrow> host_pool_config option) \<Rightarrow> job_resource_plan list
     \<Rightarrow> host_pool_lease list \<Rightarrow> time \<Rightarrow> u32" where
  "available_slots_for d pools running leases now =
     (case pools (hpd_pool_name d) of
        None \<Rightarrow> 0
      | Some pool \<Rightarrow>
          let eligible = eligible_member_ids pool (hpd_requires d);
              capacity = u32_sum (map hpm_max_concurrency
                (filter (\<lambda>m. hpm_id m \<in> eligible) (hpc_members pool)));
              active = u32_of_count (length (filter (\<lambda>l. lease_pool_name l = hpd_pool_name d
                \<and> lease_member_id l \<in> eligible \<and> \<not> lease_is_stale now l) leases));
              reservations = u32_sum (map hpd_slots (filter (\<lambda>r. hpd_pool_name r = hpd_pool_name d
                \<and> eligible_member_ids pool (hpd_requires r) \<inter> eligible \<noteq> {})
                (concat (map host_pools running))))
          in u32_saturating_sub (u32_saturating_sub capacity active) reservations)"

definition same_demand :: "host_pool_demand \<Rightarrow> host_pool_demand \<Rightarrow> bool" where
  "same_demand d e =
     (hpd_pool_name e = hpd_pool_name d \<and> hpd_capability_key e = hpd_capability_key d
      \<and> hpd_requires e = hpd_requires d)"

definition combine_demand :: "host_pool_demand \<Rightarrow> host_pool_demand list \<Rightarrow> host_pool_demand list" where
  "combine_demand d acc = (case find (same_demand d) acc of
       Some e \<Rightarrow> assign_first (same_demand d)
                   (e\<lparr>hpd_slots := u32_saturating_add (hpd_slots e) (hpd_slots d)\<rparr>) acc
     | None \<Rightarrow> acc @ [d])"

definition combined_demands :: "host_pool_demand list \<Rightarrow> host_pool_demand list" where
  "combined_demands ds = fold combine_demand ds []"

definition combine_vm_demand :: "vm_slot_demand \<Rightarrow> vm_slot_demand list \<Rightarrow> vm_slot_demand list" where
  "combine_vm_demand d acc = (case find (\<lambda>e. vsd_key e = vsd_key d) acc of
       Some e \<Rightarrow> assign_first (\<lambda>e. vsd_key e = vsd_key d)
                   (e\<lparr>vsd_slots := u32_saturating_add (vsd_slots e) (vsd_slots d)\<rparr>) acc
     | None \<Rightarrow> acc @ [d])"

definition combined_vm_demands :: "vm_slot_demand list \<Rightarrow> vm_slot_demand list" where
  "combined_vm_demands ds = fold combine_vm_demand ds []"

definition running_vm_reservations :: "job_resource_plan list \<Rightarrow> string \<Rightarrow> u32" where
  "running_vm_reservations running key =
     u32_sum (map vsd_slots (filter (\<lambda>d. vsd_key d = key) (concat (map vm_slots running))))"

definition host_pool_capacity_deficits ::
  "job_resource_plan \<Rightarrow> job_resource_plan list \<Rightarrow> host_pool_config list \<Rightarrow> host_pool_lease list \<Rightarrow> time
     \<Rightarrow> host_pool_capacity_deficit list" where
  "host_pool_capacity_deficits candidate running pools leases now =
     List.map_filter (\<lambda>d.
       let capacity = available_slots_for d (pool_map pools) running leases now
       in if capacity < hpd_slots d
          then Some \<lparr>hpd_deficit_pool_name = hpd_pool_name d,
                     hpd_deficit_capability_key = hpd_capability_key d,
                     hpd_requested_slots = hpd_slots d, hpd_available_slots = capacity\<rparr>
          else None) (combined_demands (host_pools candidate))"

definition vm_capacity_of :: "vm_slot_capacity list \<Rightarrow> string \<Rightarrow> u32" where
  "vm_capacity_of capacities key =
     unwrap_or (map_of (rev (map (\<lambda>c. (vsc_key c, vsc_slots c)) capacities)) key) 0"

definition vm_slot_capacity_deficits ::
  "job_resource_plan \<Rightarrow> job_resource_plan list \<Rightarrow> vm_slot_capacity list
     \<Rightarrow> vm_slot_capacity_deficit list" where
  "vm_slot_capacity_deficits candidate running capacities =
     (if capacities = [] \<or> vm_slots candidate = [] then []
      else List.map_filter (\<lambda>d.
        let available = u32_saturating_sub (vm_capacity_of capacities (vsd_key d))
                          (running_vm_reservations running (vsd_key d))
        in if available < vsd_slots d
           then Some \<lparr>vsd_deficit_key = vsd_key d, vsd_requested_slots = vsd_slots d,
                      vsd_available_slots = available\<rparr>
           else None) (combined_vm_demands (vm_slots candidate)))"

definition exclusive_claim_blockers ::
  "job_resource_plan \<Rightarrow> job_resource_plan list \<Rightarrow> scheduler_admission_blocker list" where
  "exclusive_claim_blockers candidate running =
     map ExclusiveClaim (sort_dedup (filter
       (\<lambda>c. c \<in> set (concat (map exclusive_claims running))) (exclusive_claims candidate)))"

definition admission_blockers_with_vm_slots ::
  "job_resource_plan \<Rightarrow> job_resource_plan list \<Rightarrow> host_pool_config list \<Rightarrow> host_pool_lease list
     \<Rightarrow> vm_slot_capacity list \<Rightarrow> time \<Rightarrow> scheduler_admission_blocker list" where
  "admission_blockers_with_vm_slots candidate running pools leases capacities now =
     exclusive_claim_blockers candidate running
     @ map HostPoolCapacity (host_pool_capacity_deficits candidate running pools leases now)
     @ map VmSlotCapacity (vm_slot_capacity_deficits candidate running capacities)"

definition admission_blockers ::
  "job_resource_plan \<Rightarrow> job_resource_plan list \<Rightarrow> host_pool_config list \<Rightarrow> host_pool_lease list
     \<Rightarrow> time \<Rightarrow> scheduler_admission_blocker list" where
  "admission_blockers candidate running pools leases now =
     admission_blockers_with_vm_slots candidate running pools leases [] now"

definition can_admit ::
  "job_resource_plan \<Rightarrow> job_resource_plan list \<Rightarrow> host_pool_config list \<Rightarrow> host_pool_lease list
     \<Rightarrow> time \<Rightarrow> bool" where
  "can_admit candidate running pools leases now =
     (admission_blockers_with_vm_slots candidate running pools leases [] now = [])"

section \<open>The admit pass\<close>

definition orphan_reason :: "string option \<Rightarrow> string" where
  "orphan_reason detail = (case detail of
       None \<Rightarrow> orphaned_pending_request_reason
     | Some d \<Rightarrow>
         if trim d = [] then orphaned_pending_request_reason
         else if d = orphaned_pending_request_reason then orphaned_pending_request_reason
         else orphaned_pending_request_reason @ '': '' @ d)"

fun admit_loop ::
  "host_pool_config list \<Rightarrow> host_pool_lease list \<Rightarrow> vm_slot_capacity list \<Rightarrow> time
     \<Rightarrow> job_resource_plan list \<Rightarrow> pending_admission_request list \<Rightarrow> admit_pass_plan" where
  "admit_loop pools leases capacities now occupied [] = \<lparr>admitted = [], deferred = [], orphaned = []\<rparr>"
| "admit_loop pools leases capacities now occupied (c # cs) =
     (case par_resource_plan c of
        None \<Rightarrow>
          let p = admit_loop pools leases capacities now occupied cs
          in p\<lparr>orphaned := \<lparr>opj_job_id = par_job_id c,
                 opj_reason = orphan_reason (par_missing_request_reason c)\<rparr> # orphaned p\<rparr>
      | Some rp \<Rightarrow>
          let blockers = admission_blockers_with_vm_slots rp occupied pools leases capacities now
          in if blockers = [] then
               let p = admit_loop pools leases capacities now (occupied @ [rp]) cs
               in p\<lparr>admitted := par_job_id c # admitted p\<rparr>
             else
               let p = admit_loop pools leases capacities now occupied cs
               in p\<lparr>deferred := \<lparr>da_job_id = par_job_id c, da_blockers = blockers\<rparr> # deferred p\<rparr>)"

definition plan_admit_pass_with_vm_slots ::
  "pending_admission_request list \<Rightarrow> job_resource_plan list \<Rightarrow> host_pool_config list
     \<Rightarrow> host_pool_lease list \<Rightarrow> vm_slot_capacity list \<Rightarrow> time \<Rightarrow> admit_pass_plan" where
  "plan_admit_pass_with_vm_slots pending running pools leases capacities now =
     admit_loop pools leases capacities now running pending"

definition plan_admit_pass ::
  "pending_admission_request list \<Rightarrow> job_resource_plan list \<Rightarrow> host_pool_config list
     \<Rightarrow> host_pool_lease list \<Rightarrow> time \<Rightarrow> admit_pass_plan" where
  "plan_admit_pass pending running pools leases now =
     plan_admit_pass_with_vm_slots pending running pools leases [] now"

text \<open>\<open>load\<close> is the request store: an error, no envelope, or the envelope of a job id.\<close>

type_synonym 'cs request_load = "string \<Rightarrow> queue_request_error + 'cs queued_execution_envelope option"

definition load_resource_plan ::
  "'cs request_load \<Rightarrow> string \<Rightarrow> queue_request_error + job_resource_plan option" where
  "load_resource_plan load jid =
     result_bind (load jid) (\<lambda>found. case found of
         None \<Rightarrow> Inr None
       | Some e \<Rightarrow>
           if env_job_id e \<noteq> jid
           then Inl (InvalidSnapshot (''queued execution request for '' @ jid @ '' belongs to ''
                      @ env_job_id e))
           else Inr (Some (resource_plan e)))"

definition to_pending_admission_request ::
  "'cs request_load \<Rightarrow> job \<Rightarrow> pending_admission_request" where
  "to_pending_admission_request load j = (case load_resource_plan load (job_id j) of
       Inr (Some rp) \<Rightarrow> \<lparr>par_job_id = job_id j, par_resource_plan = Some rp,
                       par_missing_request_reason = None\<rparr>
     | Inr None \<Rightarrow> pending_missing (job_id j) orphaned_pending_request_reason
     | Inl e \<Rightarrow> pending_missing (job_id j) (request_error_string e))"

definition load_ship_key :: "'cs request_load \<Rightarrow> string \<Rightarrow> ((string \<times> u64) \<times> bool) option" where
  "load_ship_key load jid = (case load jid of
       Inr (Some e) \<Rightarrow>
         if env_job_id e \<noteq> jid then None
         else (case env_request e of
             QueuedShip r \<Rightarrow> Some ((canonical_repository (qsr_repo r), qsr_pr r), is_foreground_owned e)
           | QueuedRun _ \<Rightarrow> None)
     | _ \<Rightarrow> None)"

record same_pr_ship_group =
  group_pending :: "job list"
  group_running :: "job list"
  group_stale_running :: "job list"

definition empty_group :: same_pr_ship_group where
  "empty_group = \<lparr>group_pending = [], group_running = [], group_stale_running = []\<rparr>"

definition add_to_group ::
  "time \<Rightarrow> duration \<Rightarrow> bool \<Rightarrow> job \<Rightarrow> same_pr_ship_group \<Rightarrow> same_pr_ship_group" where
  "add_to_group now stale_after foreground j g = (case job_status j of
       JobPending \<Rightarrow> g\<lparr>group_pending := group_pending g @ [j]\<rparr>
     | JobRunning \<Rightarrow>
         if foreground \<and> is_stale_running now stale_after j
         then g\<lparr>group_stale_running := group_stale_running g @ [j]\<rparr>
         else g\<lparr>group_running := group_running g @ [j]\<rparr>
     | _ \<Rightarrow> g)"

definition group_step ::
  "'cs request_load \<Rightarrow> time \<Rightarrow> duration \<Rightarrow> job \<Rightarrow> ((string \<times> u64) \<times> same_pr_ship_group) list
     \<Rightarrow> ((string \<times> u64) \<times> same_pr_ship_group) list" where
  "group_step load now stale_after j m =
     (if job_status j = JobPending \<or> job_status j = JobRunning then
        (case load_ship_key load (job_id j) of
           None \<Rightarrow> m
         | Some (key, foreground) \<Rightarrow>
             bt_insert key (add_to_group now stale_after foreground j
               (unwrap_or (bt_get m key) empty_group)) m)
      else m)"

definition ship_groups ::
  "'cs request_load \<Rightarrow> time \<Rightarrow> duration \<Rightarrow> job list \<Rightarrow> ((string \<times> u64) \<times> same_pr_ship_group) list" where
  "ship_groups load now stale_after js = fold (group_step load now stale_after) js []"

definition same_pr_superseded_reason :: "string \<Rightarrow> u64 \<Rightarrow> string \<Rightarrow> string" where
  "same_pr_superseded_reason repo pr jid =
     ''Superseded by newer queued ship for '' @ repo @ ''#'' @ show_nat pr @ '' ('' @ jid @ '')''"

definition same_pr_running_reason :: "string \<Rightarrow> u64 \<Rightarrow> string \<Rightarrow> string" where
  "same_pr_running_reason repo pr jid =
     ''Same-PR ship already running for '' @ repo @ ''#'' @ show_nat pr @ '' ('' @ jid @ '')''"

definition by_creation :: "job list \<Rightarrow> job list" where
  "by_creation js = sort_by (\<lambda>l r. then_with (cmp (job_created_at l) (job_created_at r))
                                              (cmp (job_id l) (job_id r))) js"

definition group_decisions ::
  "(string \<times> u64) \<times> same_pr_ship_group \<Rightarrow> same_pr_ship_admission \<Rightarrow> same_pr_ship_admission" where
  "group_decisions = (\<lambda>((repo, pr), group) a.
     let running = by_creation (group_running group);
         pending = by_creation (group_pending group);
         a1 = a\<lparr>stale_running_cancellations := stale_running_cancellations a @
                 map (\<lambda>s. \<lparr>spsc_job_id = job_id s, spsc_repo = repo, spsc_pr = pr,
                           spsc_reason = stale_running_cancel_reason\<rparr>) (group_stale_running group)\<rparr>
     in case running of
          first # _ \<Rightarrow> a1\<lparr>running_conflicts := running_conflicts a1 @
            map (\<lambda>p. \<lparr>sprc_pending_job_id = job_id p, sprc_running_job_id = job_id first,
                      sprc_repo = repo, sprc_pr = pr,
                      sprc_reason = same_pr_running_reason repo pr (job_id first)\<rparr>) pending\<rparr>
        | [] \<Rightarrow> (case rev pending of
            [] \<Rightarrow> a1
          | newest # older \<Rightarrow> a1\<lparr>pending_cancellations := pending_cancellations a1 @
              map (\<lambda>p. \<lparr>sppc_job_id = job_id p, sppc_superseded_by_job_id = job_id newest,
                        sppc_repo = repo, sppc_pr = pr,
                        sppc_reason = same_pr_superseded_reason repo pr (job_id newest)\<rparr>) older\<rparr>))"

definition compute_same_pr_ship_admission ::
  "'cs request_load \<Rightarrow> time \<Rightarrow> duration \<Rightarrow> job list \<Rightarrow> same_pr_ship_admission" where
  "compute_same_pr_ship_admission load now stale_after js =
     fold group_decisions (ship_groups load now stale_after js)
       \<lparr>pending_cancellations = [], running_conflicts = [], stale_running_cancellations = []\<rparr>"

definition sorted_pending_jobs :: "job list \<Rightarrow> job list" where
  "sorted_pending_jobs js =
     sort_by (\<lambda>l r. then_with (cmp (job_priority r) (job_priority l))
                               (cmp (job_created_at l) (job_created_at r)))
       (filter (\<lambda>j. job_status j = JobPending) js)"

definition same_pr_excluded :: "same_pr_ship_admission \<Rightarrow> string list" where
  "same_pr_excluded a =
     map sppc_job_id (pending_cancellations a) @ map sprc_pending_job_id (running_conflicts a)"

definition running_plan :: "'cs request_load \<Rightarrow> job \<Rightarrow> request_load_error + job_resource_plan" where
  "running_plan load j = (case load_resource_plan load (job_id j) of
       Inr (Some rp) \<Rightarrow> Inr rp
     | Inr None \<Rightarrow> Inl \<lparr>rle_job_id = job_id j, rle_reason = orphaned_pending_request_reason\<rparr>
     | Inl e \<Rightarrow> Inl \<lparr>rle_job_id = job_id j,
                    rle_reason = orphaned_pending_request_reason @ '': '' @ request_error_string e\<rparr>)"

definition plan_admit_pass_from_jobs_with_vm_slots ::
  "'cs request_load \<Rightarrow> job list \<Rightarrow> host_pool_config list \<Rightarrow> host_pool_lease list
     \<Rightarrow> vm_slot_capacity list \<Rightarrow> time \<Rightarrow> request_backed_admit_pass" where
  "plan_admit_pass_from_jobs_with_vm_slots load js pools leases capacities now =
     (let stale_after = duration_seconds default_running_job_stale_seconds;
          admission = compute_same_pr_ship_admission load now stale_after js;
          excluded = same_pr_excluded admission;
          pending = map (to_pending_admission_request load)
            (filter (\<lambda>j. job_id j \<notin> set excluded
                         \<and> (case scheduler_defer_until j of None \<Rightarrow> True | Some t \<Rightarrow> t \<le> now))
              (sorted_pending_jobs js));
          stale_reaped = map spsc_job_id (stale_running_cancellations admission);
          loads = map (running_plan load)
            (filter (\<lambda>j. job_status j = JobRunning \<and> job_id j \<notin> set stale_reaped) js);
          running = List.map_filter ok_of loads;
          errors = List.map_filter (\<lambda>r. case r of Inl e \<Rightarrow> Some e | Inr _ \<Rightarrow> None) loads
      in \<lparr>pass_plan = plan_admit_pass_with_vm_slots pending running pools leases capacities now,
          running_request_errors = errors,
          pass_same_pr = admission,
          already_merged_cancellations = []\<rparr>)"

definition plan_admit_pass_from_jobs ::
  "'cs request_load \<Rightarrow> job list \<Rightarrow> host_pool_config list \<Rightarrow> host_pool_lease list \<Rightarrow> time
     \<Rightarrow> request_backed_admit_pass" where
  "plan_admit_pass_from_jobs load js pools leases now =
     plan_admit_pass_from_jobs_with_vm_slots load js pools leases [] now"

section \<open>Applying a pass\<close>

definition admit_pass_cancellations ::
  "request_backed_admit_pass \<Rightarrow> queue_pending_cancellation list" where
  "admit_pass_cancellations pass =
     map (\<lambda>o'. \<lparr>qpc_job_id = opj_job_id o', qpc_reason = opj_reason o', qpc_proof = None\<rparr>)
       (orphaned (pass_plan pass))
     @ map (\<lambda>c. \<lparr>qpc_job_id = sppc_job_id c, qpc_reason = sppc_reason c, qpc_proof = None\<rparr>)
         (pending_cancellations (pass_same_pr pass))
     @ map (\<lambda>c. \<lparr>qpc_job_id = amc_job_id c, qpc_reason = already_merged_cancel_reason,
                 qpc_proof = Some \<lparr>proof_cause = AlreadyMerged, proof_repository = amc_repository c,
                   proof_pull_request = amc_pr c, proof_head_sha = amc_head_sha c\<rparr>\<rparr>)
         (already_merged_cancellations pass)"

text \<open>The clocks are those of the three queue operations; \<open>now\<close> is read between the first two.\<close>

definition apply_admit_pass_for_drain ::
  "clock \<Rightarrow> time \<Rightarrow> clock \<Rightarrow> clock \<Rightarrow> request_backed_admit_pass \<Rightarrow> job list
     \<Rightarrow> applied_admit_pass \<times> job list" where
  "apply_admit_pass_for_drain clk1 now clk2 clk3 pass js =
     (let (cancelled, js1) = cancel_pending_jobs_for_drain clk1 (admit_pass_cancellations pass) js;
          stale_ids = map spsc_job_id (stale_running_cancellations (pass_same_pr pass));
          (stale_cancelled, js2) = cancel_stale_running_jobs clk2 stale_ids now
            (duration_seconds default_running_job_stale_seconds) stale_running_cancel_reason js1;
          revived = (length stale_cancelled < length stale_ids);
          request_errors = (running_request_errors pass \<noteq> []);
          (started, js3) = (if request_errors \<or> revived then ([], js2)
            else start_pending_jobs_for_drain clk3 (admitted (pass_plan pass)) js2)
      in (\<lparr>applied_started = started, applied_cancelled = cancelled,
           skipped_starts_due_to_running_request_errors = request_errors,
           skipped_starts_due_to_revived_stale_running = revived,
           stale_running_cancelled = stale_cancelled\<rparr>, js3))"

section \<open>The merged-pull-request observer\<close>

datatype merged_pr_observation = PrMerged string | PrNotMerged | PrUnknown

text \<open>Instants and durations are nanoseconds of a monotonic clock.\<close>

record cached_merged_observation =
  cmo_observed_at :: int
  cmo_result :: merged_pr_observation
  cmo_unknown_reobserve_interval :: "int option"

record already_merged_observer =
  observations :: "((string \<times> u64) \<times> cached_merged_observation) list"
  pending_deadline_cursor :: "(string \<times> u64) option"
  running_deadline_cursor :: "(string \<times> u64) option"

definition already_merged_reobserve_interval :: int where
  "already_merged_reobserve_interval = 30 * nanos_per_second"

definition unknown_merged_reobserve_initial :: int where
  "unknown_merged_reobserve_initial = already_merged_reobserve_interval"

definition unknown_merged_reobserve_max :: int where
  "unknown_merged_reobserve_max = already_merged_reobserve_interval"

definition min_merged_provider_lookup_budget :: int where
  "min_merged_provider_lookup_budget = nanos_per_second"

definition saturating_duration_since :: "int \<Rightarrow> int \<Rightarrow> int" where
  "saturating_duration_since later earlier = max 0 (later - earlier)"

definition observed_jobs_step ::
  "'cs request_load \<Rightarrow> job_status \<Rightarrow> job \<Rightarrow> ((string \<times> u64) \<times> (string \<times> string) list) list
     \<Rightarrow> ((string \<times> u64) \<times> (string \<times> string) list) list" where
  "observed_jobs_step load status j m =
     (if job_status j \<noteq> status then m
      else case load (job_id j) of
        Inr (Some e) \<Rightarrow> (case env_request e of
            QueuedShip r \<Rightarrow>
              let key = (canonical_repository (qsr_repo r), qsr_pr r)
              in bt_insert key (unwrap_or (bt_get m key) [] @ [(job_id j, qsr_sha r)]) m
          | QueuedRun _ \<Rightarrow> m)
      | _ \<Rightarrow> m)"

definition jobs_by_pr ::
  "'cs request_load \<Rightarrow> job_status \<Rightarrow> job list \<Rightarrow> ((string \<times> u64) \<times> (string \<times> string) list) list" where
  "jobs_by_pr load status js = fold (observed_jobs_step load status) js []"

text \<open>\<open>entries.rotate_left(index)\<close> at the first key after the cursor.\<close>

definition rotate_after :: "'k::linorder option \<Rightarrow> ('k \<times> 'v) list \<Rightarrow> ('k \<times> 'v) list" where
  "rotate_after cursor entries = (case cursor of
       None \<Rightarrow> entries
     | Some c \<Rightarrow>
         let before = takeWhile (\<lambda>e. \<not> c < fst e) entries
         in if length before = length entries then entries
            else drop (length before) entries @ before)"

definition next_unknown_interval :: "cached_merged_observation option \<Rightarrow> int" where
  "next_unknown_interval previous =
     (case Option.bind previous cmo_unknown_reobserve_interval of
        Some p \<Rightarrow> min (p * 2) unknown_merged_reobserve_max
      | None \<Rightarrow> unknown_merged_reobserve_initial)"

record observe_state =
  os_observations :: "((string \<times> u64) \<times> cached_merged_observation) list"
  os_last_key :: "(string \<times> u64) option"
  os_exhausted :: bool
  os_cancellations :: "already_merged_cancellation list"

definition fresh_cached ::
  "int \<Rightarrow> ((string \<times> u64) \<times> cached_merged_observation) list \<Rightarrow> string \<times> u64
     \<Rightarrow> cached_merged_observation option" where
  "fresh_cached now m key = (case bt_get m key of
       None \<Rightarrow> None
     | Some c \<Rightarrow>
         if saturating_duration_since now (cmo_observed_at c)
              < unwrap_or (cmo_unknown_reobserve_interval c) already_merged_reobserve_interval
         then Some c else None)"

text \<open>
  One iteration: the result used, if any, and the state. \<open>t1\<close> is the instant at which the
  remaining time is read, \<open>t2\<close> the one stored with a fetched observation.
\<close>

definition observe_entry ::
  "int \<Rightarrow> int option \<Rightarrow> (string \<Rightarrow> u64 \<Rightarrow> int option \<Rightarrow> merged_pr_observation) \<Rightarrow> int \<Rightarrow> int
     \<Rightarrow> string \<times> u64 \<Rightarrow> observe_state \<Rightarrow> merged_pr_observation option \<times> observe_state" where
  "observe_entry now deadline fetch t1 t2 key st =
     (case fresh_cached now (os_observations st) key of
        Some c \<Rightarrow> (Some (cmo_result c), st)
      | None \<Rightarrow>
          let remaining = map_option (\<lambda>d. saturating_duration_since d t1) deadline
          in if os_exhausted st \<or> is_some_and remaining (\<lambda>r. r < min_merged_provider_lookup_budget)
             then (None, st)
             else let result = fetch (fst key) (snd key) remaining;
                      interval = (if result = PrUnknown
                        then Some (next_unknown_interval (bt_get (os_observations st) key)) else None)
               in (Some result, st\<lparr>
                     os_exhausted := (os_exhausted st \<or> result = PrUnknown),
                     os_observations := bt_insert key \<lparr>cmo_observed_at = t2, cmo_result = result,
                       cmo_unknown_reobserve_interval = interval\<rparr> (os_observations st),
                     os_last_key := Some key\<rparr>))"

definition entry_cancellations ::
  "string \<times> u64 \<Rightarrow> merged_pr_observation option \<Rightarrow> (string \<times> string) list
     \<Rightarrow> already_merged_cancellation list" where
  "entry_cancellations key result observed = (case result of
       Some (PrMerged head) \<Rightarrow>
         map (\<lambda>(jid, _). \<lparr>amc_job_id = jid, amc_pr = snd key, amc_repository = fst key,
                          amc_head_sha = head\<rparr>)
           (filter (\<lambda>(_, expected). head = expected) observed)
     | _ \<Rightarrow> [])"

fun observe_loop ::
  "int \<Rightarrow> int option \<Rightarrow> (string \<Rightarrow> u64 \<Rightarrow> int option \<Rightarrow> merged_pr_observation) \<Rightarrow> (nat \<Rightarrow> int)
     \<Rightarrow> ((string \<times> u64) \<times> (string \<times> string) list) list \<Rightarrow> observe_state \<Rightarrow> observe_state" where
  "observe_loop now deadline fetch clk [] st = st"
| "observe_loop now deadline fetch clk ((key, observed) # entries) st =
     (let (result, st1) = observe_entry now deadline fetch (clk 0) (clk 1) key st
      in observe_loop now deadline fetch (clk \<circ> Suc \<circ> Suc) entries
           (st1\<lparr>os_cancellations := os_cancellations st1 @ entry_cancellations key result observed\<rparr>))"

definition observe_ship_with_status ::
  "'cs request_load \<Rightarrow> job list \<Rightarrow> job_status \<Rightarrow> int option
     \<Rightarrow> (string \<Rightarrow> u64 \<Rightarrow> int option \<Rightarrow> merged_pr_observation) \<Rightarrow> int \<Rightarrow> (nat \<Rightarrow> int)
     \<Rightarrow> already_merged_observer \<Rightarrow> already_merged_cancellation list \<times> already_merged_observer" where
  "observe_ship_with_status load js status deadline fetch now clk ob =
     (let cursor = (case status of
            JobPending \<Rightarrow> pending_deadline_cursor ob
          | JobRunning \<Rightarrow> running_deadline_cursor ob
          | _ \<Rightarrow> None);
          all = jobs_by_pr load status js;
          entries = (if deadline \<noteq> None then rotate_after cursor all else all);
          st = observe_loop now deadline fetch clk entries
            \<lparr>os_observations = observations ob, os_last_key = None, os_exhausted = False,
             os_cancellations = []\<rparr>;
          ob1 = ob\<lparr>observations := os_observations st\<rparr>;
          ob2 = (if deadline \<noteq> None then (case status of
                JobPending \<Rightarrow> ob1\<lparr>pending_deadline_cursor :=
                  option_or (os_last_key st) (pending_deadline_cursor ob1)\<rparr>
              | JobRunning \<Rightarrow> ob1\<lparr>running_deadline_cursor :=
                  option_or (os_last_key st) (running_deadline_cursor ob1)\<rparr>
              | _ \<Rightarrow> ob1) else ob1)
      in (os_cancellations st, ob2))"

definition observation_of_head :: "string option \<Rightarrow> merged_pr_observation" where
  "observation_of_head head = (case head of Some h \<Rightarrow> PrMerged h | None \<Rightarrow> PrNotMerged)"

definition observe_pending_with ::
  "'cs request_load \<Rightarrow> job list \<Rightarrow> (string \<Rightarrow> u64 \<Rightarrow> string option) \<Rightarrow> int \<Rightarrow> (nat \<Rightarrow> int)
     \<Rightarrow> already_merged_observer \<Rightarrow> already_merged_cancellation list \<times> already_merged_observer" where
  "observe_pending_with load js fetch now clk ob =
     observe_ship_with_status load js JobPending None
       (\<lambda>repo pr _. observation_of_head (fetch repo pr)) now clk ob"

definition observe_running_with ::
  "'cs request_load \<Rightarrow> job list \<Rightarrow> (string \<Rightarrow> u64 \<Rightarrow> string option) \<Rightarrow> int \<Rightarrow> (nat \<Rightarrow> int)
     \<Rightarrow> already_merged_observer \<Rightarrow> already_merged_cancellation list \<times> already_merged_observer" where
  "observe_running_with load js fetch now clk ob =
     observe_ship_with_status load js JobRunning None
       (\<lambda>repo pr _. observation_of_head (fetch repo pr)) now clk ob"

text \<open>With a deadline the remaining time is always there, so \<open>expect\<close> never fails.\<close>

definition observe_pending_with_deadline ::
  "'cs request_load \<Rightarrow> job list \<Rightarrow> int \<Rightarrow> (string \<Rightarrow> u64 \<Rightarrow> int \<Rightarrow> merged_pr_observation) \<Rightarrow> int
     \<Rightarrow> (nat \<Rightarrow> int) \<Rightarrow> already_merged_observer
     \<Rightarrow> already_merged_cancellation list \<times> already_merged_observer" where
  "observe_pending_with_deadline load js deadline fetch now clk ob =
     observe_ship_with_status load js JobPending (Some deadline)
       (\<lambda>repo pr remaining. fetch repo pr (the remaining)) now clk ob"

definition observe_running_with_deadline ::
  "'cs request_load \<Rightarrow> job list \<Rightarrow> int \<Rightarrow> (string \<Rightarrow> u64 \<Rightarrow> int \<Rightarrow> merged_pr_observation) \<Rightarrow> int
     \<Rightarrow> (nat \<Rightarrow> int) \<Rightarrow> already_merged_observer
     \<Rightarrow> already_merged_cancellation list \<times> already_merged_observer" where
  "observe_running_with_deadline load js deadline fetch now clk ob =
     observe_ship_with_status load js JobRunning (Some deadline)
       (\<lambda>repo pr remaining. fetch repo pr (the remaining)) now clk ob"

section \<open>Blockers and capacity\<close>

definition claims_disjoint :: "job_resource_plan \<Rightarrow> job_resource_plan \<Rightarrow> bool" where
  "claims_disjoint a b = (set (exclusive_claims a) \<inter> set (exclusive_claims b) = {})"

lemma exclusive_claim_blockers_Nil:
  "exclusive_claim_blockers c running = [] \<longleftrightarrow> list_all (claims_disjoint c) running"
  by (auto simp: exclusive_claim_blockers_def filter_empty_conv claims_disjoint_def list_all_iff)

text \<open>The slots of one key that a list of demands asks for, as a number.\<close>

definition vm_total :: "string \<Rightarrow> vm_slot_demand list \<Rightarrow> nat" where
  "vm_total k ds = sum_list (map (unat \<circ> vsd_slots) (filter (\<lambda>d. vsd_key d = k) ds))"

lemma vm_total_simps [simp]:
  "vm_total k [] = 0"
  "vm_total k (d # ds) = (if vsd_key d = k then unat (vsd_slots d) else 0) + vm_total k ds"
  "vm_total k (xs @ ys) = vm_total k xs + vm_total k ys"
  by (simp_all add: vm_total_def)

lemma combine_vm_keys:
  assumes "distinct (map vsd_key acc)"
  shows "distinct (map vsd_key (combine_vm_demand d acc))"
proof (cases "find (\<lambda>e. vsd_key e = vsd_key d) acc")
  case None
  then have "vsd_key d \<notin> vsd_key ` set acc" by (auto simp: find_None_iff)
  with assms None show ?thesis by (simp add: combine_vm_demand_def)
next
  case (Some e)
  have "map vsd_key (assign_first (\<lambda>e. vsd_key e = vsd_key d)
      (e\<lparr>vsd_slots := u32_saturating_add (vsd_slots e) (vsd_slots d)\<rparr>) acc) = map vsd_key acc"
    using Some by (induction acc) (auto split: if_splits)
  with assms Some show ?thesis by (simp add: combine_vm_demand_def)
qed

lemma combine_vm_key_set:
  "vsd_key ` set (combine_vm_demand d acc) = insert (vsd_key d) (vsd_key ` set acc)"
proof (cases "find (\<lambda>e. vsd_key e = vsd_key d) acc")
  case None
  then show ?thesis by (auto simp: combine_vm_demand_def)
next
  case (Some e)
  have "map vsd_key (assign_first (\<lambda>e. vsd_key e = vsd_key d)
      (e\<lparr>vsd_slots := u32_saturating_add (vsd_slots e) (vsd_slots d)\<rparr>) acc) = map vsd_key acc"
    using Some by (induction acc) (auto split: if_splits)
  then have "vsd_key ` set (combine_vm_demand d acc) = vsd_key ` set acc"
    using Some by (simp add: combine_vm_demand_def) (metis list.set_map)
  moreover have "vsd_key d \<in> vsd_key ` set acc" using find_SomeD [OF Some] by (metis imageI)
  ultimately show ?thesis by blast
qed

lemma combine_vm_total:
  assumes "vm_total k acc + (if vsd_key d = k then unat (vsd_slots d) else 0) < 2 ^ 32"
  shows "vm_total k (combine_vm_demand d acc) =
     vm_total k acc + (if vsd_key d = k then unat (vsd_slots d) else 0)"
proof (cases "find (\<lambda>e. vsd_key e = vsd_key d) acc")
  case None
  then show ?thesis by (simp add: combine_vm_demand_def)
next
  case (Some e)
  have "vm_total k (assign_first (\<lambda>e. vsd_key e = vsd_key d)
      (e\<lparr>vsd_slots := u32_saturating_add (vsd_slots e) (vsd_slots d)\<rparr>) acc) =
      vm_total k acc + (if vsd_key d = k then unat (vsd_slots d) else 0)"
    using Some assms
    by (induction acc) (auto simp: unat_u32_saturating_add split: if_splits)
  with Some show ?thesis by (simp add: combine_vm_demand_def)
qed

lemma fold_combine_vm:
  "distinct (map vsd_key acc) \<Longrightarrow> vm_total k acc + vm_total k ds < 2 ^ 32 \<Longrightarrow>
     vm_total k (fold combine_vm_demand ds acc) = vm_total k acc + vm_total k ds
     \<and> distinct (map vsd_key (fold combine_vm_demand ds acc))
     \<and> vsd_key ` set (fold combine_vm_demand ds acc) = vsd_key ` set acc \<union> vsd_key ` set ds"
proof (induction ds arbitrary: acc)
  case (Cons d ds)
  then have eq: "vm_total k (combine_vm_demand d acc) =
      vm_total k acc + (if vsd_key d = k then unat (vsd_slots d) else 0)"
    by (intro combine_vm_total) (simp split: if_splits)
  from Cons.IH [OF combine_vm_keys [OF Cons.prems(1)], of d] Cons.prems(2) eq
  show ?case by (auto simp: combine_vm_key_set)
qed simp

lemma vm_total_single:
  "distinct (map vsd_key ds) \<Longrightarrow> d \<in> set ds \<Longrightarrow> vm_total (vsd_key d) ds = unat (vsd_slots d)"
proof (induction ds)
  case (Cons e ds)
  have "vm_total k ds = 0" if "k \<notin> vsd_key ` set ds" for k
    using that by (induction ds) auto
  with Cons show ?case by auto
qed simp

lemma vm_total_absent: "k \<notin> vsd_key ` set ds \<Longrightarrow> vm_total k ds = 0"
  by (induction ds) auto

text \<open>The slots of a key the occupied plans hold.\<close>

definition vm_in_use :: "string \<Rightarrow> job_resource_plan list \<Rightarrow> nat" where
  "vm_in_use k plans = sum_list (map (\<lambda>p. vm_total k (vm_slots p)) plans)"

lemma vm_in_use_append [simp]: "vm_in_use k (a @ b) = vm_in_use k a + vm_in_use k b"
  by (simp add: vm_in_use_def)

lemma unat_running_vm_reservations:
  assumes "vm_in_use k running < 2 ^ 32"
  shows "unat (running_vm_reservations running k) = vm_in_use k running"
proof -
  have "sum_list (map unat (map vsd_slots (filter (\<lambda>d. vsd_key d = k) (concat (map vm_slots running)))))
      = vm_in_use k running"
    by (induction running) (simp_all add: vm_in_use_def vm_total_def)
  with assms show ?thesis
    unfolding running_vm_reservations_def by (simp add: unat_u32_sum_exact)
qed

lemma vm_deficits_Nil:
  assumes "vm_slot_capacity_deficits c running capacities = []" and "capacities \<noteq> []"
    and "vm_in_use k running + vm_total k (vm_slots c) < 2 ^ 32"
  shows "vm_total k (vm_slots c) \<le> unat (vm_capacity_of capacities k) - vm_in_use k running"
proof (cases "k \<in> vsd_key ` set (vm_slots c)")
  case False
  then show ?thesis by (simp add: vm_total_absent)
next
  case True
  have comb: "vm_total k (combined_vm_demands (vm_slots c)) = vm_total k (vm_slots c)
      \<and> distinct (map vsd_key (combined_vm_demands (vm_slots c)))
      \<and> vsd_key ` set (combined_vm_demands (vm_slots c)) = vsd_key ` set (vm_slots c)"
    using fold_combine_vm [of "[]" k "vm_slots c"] assms(3) by (simp add: combined_vm_demands_def)
  with True obtain d where d: "d \<in> set (combined_vm_demands (vm_slots c))" "vsd_key d = k"
    by (metis imageE)
  from True have "vm_slots c \<noteq> []" by auto
  with assms(1,2) d have "\<not> u32_saturating_sub (vm_capacity_of capacities k)
      (running_vm_reservations running k) < vsd_slots d"
    by (fastforce simp: vm_slot_capacity_deficits_def map_filter_Nil_iff Let_def split: if_splits)
  then have "unat (vsd_slots d) \<le> unat (vm_capacity_of capacities k) - vm_in_use k running"
    using assms(3)
    by (simp add: not_less word_le_nat_alt unat_u32_saturating_sub unat_running_vm_reservations)
  moreover have "vm_total k (vm_slots c) = unat (vsd_slots d)"
    using comb d vm_total_single by metis
  ultimately show ?thesis by simp
qed

section \<open>The greedy pass\<close>

text \<open>
  The admitted requests of a pass, in order: each was free of blockers beside the running plans
  and the plans admitted before it.
\<close>

fun admissible_in_order ::
  "host_pool_config list \<Rightarrow> host_pool_lease list \<Rightarrow> vm_slot_capacity list \<Rightarrow> time
     \<Rightarrow> job_resource_plan list \<Rightarrow> job_resource_plan list \<Rightarrow> bool" where
  "admissible_in_order pools leases capacities now running [] = True"
| "admissible_in_order pools leases capacities now running (p # ps) =
     (admission_blockers_with_vm_slots p running pools leases capacities now = []
      \<and> admissible_in_order pools leases capacities now (running @ [p]) ps)"

lemma admit_loop_admitted:
  "\<exists>cs plans. subseq cs pending \<and> map par_job_id cs = admitted (admit_loop pools leases capacities now running pending)
     \<and> map par_resource_plan cs = map Some plans
     \<and> admissible_in_order pools leases capacities now running plans"
proof (induction pending arbitrary: running)
  case Nil
  then show ?case by (auto intro!: exI [of _ "[]"])
next
  case (Cons c pending)
  show ?case
  proof (cases "par_resource_plan c")
    case None
    with Cons.IH [of running] show ?thesis by (auto simp: Let_def intro: subseq_Cons')
  next
    case (Some rp)
    show ?thesis
    proof (cases "admission_blockers_with_vm_slots rp running pools leases capacities now = []")
      case True
      from Cons.IH [of "running @ [rp]"] obtain cs plans
        where h: "subseq cs pending"
          "map par_job_id cs = admitted (admit_loop pools leases capacities now (running @ [rp]) pending)"
          "map par_resource_plan cs = map Some plans"
          "admissible_in_order pools leases capacities now (running @ [rp]) plans" by blast
      with Some True show ?thesis
        by (intro exI [of _ "c # cs"] exI [of _ "rp # plans"])
           (simp add: Let_def)
    next
      case False
      with Some Cons.IH [of running] show ?thesis by (auto simp: Let_def intro: subseq_Cons')
    qed
  qed
qed

lemma claims_disjoint_sym: "claims_disjoint a b \<longleftrightarrow> claims_disjoint b a"
  by (auto simp: claims_disjoint_def)

lemma admissible_claims:
  assumes "admissible_in_order pools leases capacities now running plans"
  shows "sorted_wrt claims_disjoint plans \<and> (\<forall>p \<in> set plans. \<forall>r \<in> set running. claims_disjoint p r)"
  using assms
proof (induction plans arbitrary: running)
  case (Cons p plans)
  have "list_all (claims_disjoint p) running"
    using Cons.prems exclusive_claim_blockers_Nil [of p running]
    by (simp add: admission_blockers_with_vm_slots_def)
  moreover have "sorted_wrt claims_disjoint plans"
    and "\<forall>q \<in> set plans. \<forall>r \<in> set (running @ [p]). claims_disjoint q r"
    using Cons.IH [of "running @ [p]"] Cons.prems by simp_all
  ultimately show ?case by (auto simp: list_all_iff claims_disjoint_sym)
qed simp

lemma admissible_vm:
  assumes "admissible_in_order pools leases capacities now running plans" and "capacities \<noteq> []"
    and "vm_in_use k (running @ plans) < 2 ^ 32"
    and "vm_in_use k running \<le> unat (vm_capacity_of capacities k)"
  shows "vm_in_use k (running @ plans) \<le> unat (vm_capacity_of capacities k)"
  using assms
proof (induction plans arbitrary: running)
  case (Cons p plans)
  have blockers: "vm_slot_capacity_deficits p running capacities = []"
    using Cons.prems(1) by (simp add: admission_blockers_with_vm_slots_def)
  have one: "vm_in_use k [p] = vm_total k (vm_slots p)" by (simp add: vm_in_use_def)
  have "vm_in_use k running + vm_total k (vm_slots p) < 2 ^ 32"
    using Cons.prems(3) one vm_in_use_append [of k "[p]" plans] by simp
  from vm_deficits_Nil [OF blockers Cons.prems(2) this] Cons.prems(4) one
  have "vm_in_use k (running @ [p]) \<le> unat (vm_capacity_of capacities k)" by simp
  with Cons.IH [of "running @ [p]"] Cons.prems show ?case by simp
qed simp

section \<open>Properties of the scheduler\<close>

text \<open>
  (C3) The admit pass respects exclusive claims: the jobs it admits are pending candidates whose
  plans are pairwise free of common claims and share no claim with any running plan.
\<close>

theorem admitted_claims_exclusive:
  "\<exists>cs plans. subseq cs pending
     \<and> map par_job_id cs = admitted (plan_admit_pass_with_vm_slots pending running pools leases capacities now)
     \<and> map par_resource_plan cs = map Some plans
     \<and> sorted_wrt claims_disjoint plans
     \<and> list_all (\<lambda>p. list_all (claims_disjoint p) running) plans"
  using admit_loop_admitted [of pending pools leases capacities now running] admissible_claims
  unfolding plan_admit_pass_with_vm_slots_def list_all_iff by (metis (no_types, lifting))

text \<open>
  (C36) The admit pass stays within VM capacity: when a capacity snapshot is supplied, the slots
  in use fit it and the slots asked for do not overflow the counter, the running jobs and
  everything the pass admits together fit the capacity of every slot key.
\<close>

theorem admitted_within_vm_capacity:
  assumes "capacities \<noteq> []"
    and "vm_in_use key running \<le> unat (vm_capacity_of capacities key)"
    and "vm_in_use key running
           + sum_list (map (\<lambda>c. case par_resource_plan c of None \<Rightarrow> 0
                 | Some p \<Rightarrow> vm_total key (vm_slots p)) pending) < 2 ^ 32"
  shows "\<exists>cs plans. subseq cs pending
     \<and> map par_job_id cs = admitted (plan_admit_pass_with_vm_slots pending running pools leases capacities now)
     \<and> map par_resource_plan cs = map Some plans
     \<and> vm_in_use key (running @ plans) \<le> unat (vm_capacity_of capacities key)"
proof -
  let ?w = "\<lambda>c. case par_resource_plan c of None \<Rightarrow> 0 | Some p \<Rightarrow> vm_total key (vm_slots p)"
  obtain cs plans where h: "subseq cs pending"
      "map par_job_id cs = admitted (admit_loop pools leases capacities now running pending)"
      "map par_resource_plan cs = map Some plans"
      "admissible_in_order pools leases capacities now running plans"
    using admit_loop_admitted by blast
  have "sum_list (map ?w cs) \<le> sum_list (map ?w pending)"
    using h(1) by (induction rule: list_emb.induct) auto
  moreover have "sum_list (map ?w cs) = vm_in_use key plans"
  proof -
    have "map ?w cs = map (\<lambda>p. vm_total key (vm_slots p)) plans"
      using h(3) by (induction cs arbitrary: plans) auto
    then show ?thesis by (simp add: vm_in_use_def)
  qed
  ultimately have "vm_in_use key (running @ plans) < 2 ^ 32" using assms(3) by simp
  from admissible_vm [OF h(4) assms(1) this assms(2)] h show ?thesis
    unfolding plan_admit_pass_with_vm_slots_def by blast
qed

lemma admit_loop_partition:
  "mset (admitted (admit_loop pools leases capacities now running pending))
     + mset (map da_job_id (deferred (admit_loop pools leases capacities now running pending)))
     + mset (map opj_job_id (orphaned (admit_loop pools leases capacities now running pending)))
   = mset (map par_job_id pending)
   \<and> list_all (\<lambda>d. da_blockers d \<noteq> []) (deferred (admit_loop pools leases capacities now running pending))
   \<and> map opj_job_id (orphaned (admit_loop pools leases capacities now running pending))
     = map par_job_id (filter (\<lambda>c. par_resource_plan c = None) pending)"
  by (induction pending arbitrary: running) (auto simp: Let_def split: option.split)

text \<open>
  The admit pass loses no job: admitted, deferred and orphaned ids together are exactly the
  candidates, each as often as it was given; the orphans are exactly the candidates without a
  loadable plan, and every deferral names at least one blocker.
\<close>

theorem admit_pass_partition:
  "let p = plan_admit_pass_with_vm_slots pending running pools leases capacities now in
     mset (admitted p) + mset (map da_job_id (deferred p)) + mset (map opj_job_id (orphaned p))
       = mset (map par_job_id pending)
   \<and> map opj_job_id (orphaned p) = map par_job_id (filter (\<lambda>c. par_resource_plan c = None) pending)
   \<and> list_all (\<lambda>d. da_blockers d \<noteq> []) (deferred p)"
  using admit_loop_partition by (simp add: plan_admit_pass_with_vm_slots_def Let_def)

text \<open>
  The scheduler's pending order, which compares the derived order of the priorities, is the
  queue's, which compares their numeric values.
\<close>

theorem scheduler_order_is_queue_order: "sorted_pending_jobs js = get_pending js"
proof -
  have "(\<lambda>l r. then_with (cmp (job_priority r) (job_priority l)) (cmp (job_created_at l) (job_created_at r)))
      = compare_pending_jobs"
    by (intro ext) (simp add: compare_pending_jobs_def priority_value_cmp)
  then show ?thesis by (simp add: sorted_pending_jobs_def get_pending_def pending_jobs_sorted_def)
qed

section \<open>Same-pull-request admission\<close>

definition ship_key :: "'cs request_load \<Rightarrow> job \<Rightarrow> (string \<times> u64) option" where
  "ship_key load j = map_option fst (load_ship_key load (job_id j))"

definition live_running :: "'cs request_load \<Rightarrow> time \<Rightarrow> duration \<Rightarrow> job \<Rightarrow> bool" where
  "live_running load now stale_after j =
     (job_status j = JobRunning
      \<and> \<not> (map_option snd (load_ship_key load (job_id j)) = Some True
            \<and> is_stale_running now stale_after j))"

definition group_at ::
  "((string \<times> u64) \<times> same_pr_ship_group) list \<Rightarrow> string \<times> u64 \<Rightarrow> same_pr_ship_group" where
  "group_at m key = unwrap_or (bt_get m key) empty_group"

lemma group_at_step:
  assumes "bt_wf m"
  shows "bt_wf (group_step load now sa j m)"
    and "group_pending (group_at (group_step load now sa j m) key) = group_pending (group_at m key)
       @ (if job_status j = JobPending \<and> ship_key load j = Some key then [j] else [])"
    and "group_running (group_at (group_step load now sa j m) key) = group_running (group_at m key)
       @ (if live_running load now sa j \<and> ship_key load j = Some key then [j] else [])"
  using assms
  by (cases "job_status j";
      auto simp: group_step_def group_at_def ship_key_def live_running_def add_to_group_def
        bt_wf_insert bt_get_insert unwrap_or_def split: option.splits)+

lemma fold_group_step:
  "bt_wf m \<Longrightarrow> bt_wf (fold (group_step load now sa) js m)
     \<and> group_pending (group_at (fold (group_step load now sa) js m) key) = group_pending (group_at m key)
         @ filter (\<lambda>j. job_status j = JobPending \<and> ship_key load j = Some key) js
     \<and> group_running (group_at (fold (group_step load now sa) js m) key) = group_running (group_at m key)
         @ filter (\<lambda>j. live_running load now sa j \<and> ship_key load j = Some key) js"
proof (induction js arbitrary: m)
  case (Cons j js)
  from Cons.IH [of "group_step load now sa j m"] group_at_step [OF Cons.prems, of load now sa j]
    group_at_step(2,3) [OF Cons.prems, of load now sa j key]
  show ?case by simp
qed simp

lemma ship_group_at:
  "bt_wf (ship_groups load now sa js)"
  "group_pending (group_at (ship_groups load now sa js) key) =
     filter (\<lambda>j. job_status j = JobPending \<and> ship_key load j = Some key) js"
  "group_running (group_at (ship_groups load now sa js) key) =
     filter (\<lambda>j. live_running load now sa j \<and> ship_key load j = Some key) js"
  using fold_group_step [of "[]" load now sa js key]
  by (simp_all add: ship_groups_def group_at_def bt_get_def unwrap_or_def empty_group_def)

definition group_excluded :: "same_pr_ship_group \<Rightarrow> string list" where
  "group_excluded g =
     (if group_running g \<noteq> [] then map job_id (by_creation (group_pending g))
      else map job_id (tl (rev (by_creation (group_pending g)))))"

lemma by_creation_set [simp]: "set (by_creation js) = set js"
  by (simp add: by_creation_def)

lemma by_creation_Nil [simp]: "by_creation js = [] \<longleftrightarrow> js = []"
  by (metis by_creation_set set_empty)

lemma group_decisions_excluded:
  "set (same_pr_excluded (group_decisions e a)) = set (same_pr_excluded a) \<union> set (group_excluded (snd e))"
proof -
  obtain repo pr g where e: "e = ((repo, pr), g)" by (metis prod.collapse)
  show ?thesis
  proof (cases "by_creation (group_running g)")
    case Nil
    then have "group_running g = []" by simp
    with Nil show ?thesis
      unfolding e group_decisions_def group_excluded_def Let_def prod.case snd_conv
      by (cases "rev (by_creation (group_pending g))") (auto simp: same_pr_excluded_def image_image simp del: by_creation_Nil)
  next
    case (Cons r rs)
    then have "group_running g \<noteq> []" by (metis by_creation_Nil list.distinct(1))
    with Cons show ?thesis
      unfolding e group_decisions_def group_excluded_def Let_def prod.case snd_conv
      by (simp add: same_pr_excluded_def image_image Un_assoc del: by_creation_Nil)
  qed
qed

lemma fold_decisions_excluded:
  "set (same_pr_excluded (fold group_decisions es a)) =
     set (same_pr_excluded a) \<union> (\<Union>e \<in> set es. set (group_excluded (snd e)))"
  by (induction es arbitrary: a) (auto simp: group_decisions_excluded)

lemma excluded_of_key:
  "set (group_excluded (group_at (ship_groups load now sa js) key))
     \<subseteq> set (same_pr_excluded (compute_same_pr_ship_admission load now sa js))"
proof (cases "bt_get (ship_groups load now sa js) key")
  case None
  then have "group_at (ship_groups load now sa js) key = empty_group"
    by (simp add: group_at_def unwrap_or_def)
  then show ?thesis by (simp add: group_excluded_def empty_group_def by_creation_def)
next
  case (Some g)
  then have "(key, g) \<in> set (ship_groups load now sa js)" by (rule bt_get_SomeD)
  with Some show ?thesis
    by (force simp: compute_same_pr_ship_admission_def fold_decisions_excluded group_at_def
        unwrap_or_def)
qed

lemma same_pr_at_most_one:
  assumes "distinct (map job_id js)"
    and "a \<in> set js" "job_status a = JobPending" "ship_key load a = Some key"
    and "b \<in> set js" "job_status b = JobPending" "ship_key load b = Some key"
    and "job_id a \<notin> set (same_pr_excluded (compute_same_pr_ship_admission load now sa js))"
    and "job_id b \<notin> set (same_pr_excluded (compute_same_pr_ship_admission load now sa js))"
  shows "a = b \<and> list_all (\<lambda>r. \<not> (live_running load now sa r \<and> ship_key load r = Some key)) js"
proof -
  let ?g = "group_at (ship_groups load now sa js) key"
  let ?p = "rev (by_creation (group_pending ?g))"
  have mem: "a \<in> set ?p" "b \<in> set ?p" using assms(2-7) by (simp_all add: ship_group_at(2))
  have out: "job_id a \<notin> set (group_excluded ?g)" "job_id b \<notin> set (group_excluded ?g)"
    using assms(8,9) excluded_of_key by blast+
  have idle: "group_running ?g = []"
  proof (rule ccontr)
    assume "group_running ?g \<noteq> []"
    with mem(1) have "job_id a \<in> set (group_excluded ?g)" by (simp add: group_excluded_def)
    with out(1) show False by blast
  qed
  then have "a \<notin> set (tl ?p)" "b \<notin> set (tl ?p)" using out by (auto simp: group_excluded_def)
  then have "a = hd ?p" "b = hd ?p" using mem by (cases ?p; auto)+
  moreover have "list_all (\<lambda>r. \<not> (live_running load now sa r \<and> ship_key load r = Some key)) js"
    using idle by (simp add: ship_group_at(3) filter_empty_conv list_all_iff)
  ultimately show ?thesis by simp
qed

lemma admitted_subset: "set (admitted (admit_loop pools leases capacities now running pending)) \<subseteq> par_job_id ` set pending"
  using admit_loop_partition [of pools leases capacities now running pending]
  by (metis (no_types, lifting) list.set_map mset_subset_eq_add_left set_mset_mono set_mset_mset add.assoc)

lemma to_pending_id [simp]: "par_job_id (to_pending_admission_request load j) = job_id j"
  by (auto simp: to_pending_admission_request_def pending_missing_def split: sum.splits option.splits)

lemma set_sorted_pending: "set (sorted_pending_jobs js) = {j \<in> set js. job_status j = JobPending}"
  by (auto simp: sorted_pending_jobs_def)

lemma admitted_from_jobs:
  assumes "i \<in> set (admitted (pass_plan (plan_admit_pass_from_jobs_with_vm_slots load js pools leases capacities now)))"
  obtains j where "j \<in> set js" "job_id j = i" "job_status j = JobPending"
    "job_id j \<notin> set (same_pr_excluded (compute_same_pr_ship_admission load now
        (duration_seconds default_running_job_stale_seconds) js))"
    "\<forall>t. scheduler_defer_until j = Some t \<longrightarrow> t \<le> now"
proof -
  let ?ex = "same_pr_excluded (compute_same_pr_ship_admission load now
      (duration_seconds default_running_job_stale_seconds) js)"
  let ?f = "filter (\<lambda>j. job_id j \<notin> set ?ex
      \<and> (case scheduler_defer_until j of None \<Rightarrow> True | Some t \<Rightarrow> t \<le> now)) (sorted_pending_jobs js)"
  from assms admitted_subset
  have "i \<in> par_job_id ` set (map (to_pending_admission_request load) ?f)"
    by (fastforce simp: plan_admit_pass_from_jobs_with_vm_slots_def plan_admit_pass_with_vm_slots_def Let_def)
  then obtain j where "j \<in> set ?f" "i = job_id j" by auto
  with that show ?thesis by (auto simp: set_sorted_pending split: option.splits)
qed

text \<open>
  One ship per pull request: of the jobs a pass admits, no two are ships of the same pull
  request, and none is a ship of a pull request with a live running ship. A job deferred to a
  later time is not admitted before it.
\<close>

theorem same_pr_admission_exclusive:
  assumes "distinct (map job_id js)"
    and "a \<in> set js" and "b \<in> set js"
    and "job_id a \<in> set (admitted (pass_plan
           (plan_admit_pass_from_jobs_with_vm_slots load js pools leases capacities now)))"
    and "job_id b \<in> set (admitted (pass_plan
           (plan_admit_pass_from_jobs_with_vm_slots load js pools leases capacities now)))"
    and "ship_key load a = Some key" and "ship_key load b = Some key"
  shows "a = b \<and> job_status a = JobPending
     \<and> (\<forall>t. scheduler_defer_until a = Some t \<longrightarrow> t \<le> now)
     \<and> (\<forall>r \<in> set js. ship_key load r = Some key \<longrightarrow>
          \<not> live_running load now (duration_seconds default_running_job_stale_seconds) r)"
proof -
  let ?ex = "same_pr_excluded (compute_same_pr_ship_admission load now
        (duration_seconds default_running_job_stale_seconds) js)"
  have ok: "job_status j = JobPending \<and> job_id j \<notin> set ?ex
      \<and> (\<forall>t. scheduler_defer_until j = Some t \<longrightarrow> t \<le> now)"
    if "j \<in> set js" "job_id j \<in> set (admitted (pass_plan
           (plan_admit_pass_from_jobs_with_vm_slots load js pools leases capacities now)))" for j
  proof -
    from admitted_from_jobs [OF that(2)] obtain j' where "j' \<in> set js" "job_id j' = job_id j"
      "job_status j' = JobPending" "job_id j' \<notin> set ?ex"
      "\<forall>t. scheduler_defer_until j' = Some t \<longrightarrow> t \<le> now" by metis
    with that(1) assms(1) show ?thesis using distinct_key_eq by metis
  qed
  from same_pr_at_most_one [OF assms(1) assms(2) _ assms(6) assms(3) _ assms(7)]
    ok [OF assms(2,4)] ok [OF assms(3,5)]
  show ?thesis by (auto simp: list_all_iff)
qed

section \<open>The queue as the drain uses it\<close>

text \<open>
  The drain's interface to the queue: the three operations \<open>apply_admit_pass_for_drain\<close> calls,
  with what each of them may do to a row. Cancelling acts on named pending rows only, reaping on
  named stale rows only and reports every row it reaped, starting on named pending rows only.
\<close>

locale drain_queue =
  fixes cancel :: "clock \<Rightarrow> queue_pending_cancellation list \<Rightarrow> job list \<Rightarrow> job list \<times> job list"
    and reap :: "clock \<Rightarrow> string list \<Rightarrow> time \<Rightarrow> duration \<Rightarrow> string \<Rightarrow> job list \<Rightarrow> job list \<times> job list"
    and start :: "clock \<Rightarrow> string list \<Rightarrow> job list \<Rightarrow> job list \<times> job list"
  assumes cancel_ids: "job_id ` set (snd (cancel clk cs js)) \<subseteq> job_id ` set js"
    and cancel_unique: "distinct (map job_id js) \<Longrightarrow> distinct (map job_id (snd (cancel clk cs js)))"
    and cancel_row: "distinct (map job_id js) \<Longrightarrow> j \<in> set js \<Longrightarrow> j' \<in> set (snd (cancel clk cs js)) \<Longrightarrow>
          job_id j' = job_id j \<Longrightarrow>
          if job_id j \<in> qpc_job_id ` set cs \<and> job_status j = JobPending
          then job_status j' = JobCancelled else j' = j"
    and reap_ids: "job_id ` set (snd (reap clk ids now sa r js)) \<subseteq> job_id ` set js"
    and reap_unique: "distinct (map job_id js) \<Longrightarrow> distinct (map job_id (snd (reap clk ids now sa r js)))"
    and reap_row: "distinct (map job_id js) \<Longrightarrow> j \<in> set js \<Longrightarrow>
          j' \<in> set (snd (reap clk ids now sa r js)) \<Longrightarrow> job_id j' = job_id j \<Longrightarrow>
          if job_id j \<in> set ids \<and> is_stale_running now sa j
          then job_status j' = JobCancelled else j' = j"
    and reap_complete: "length ids \<le> length (fst (reap clk ids now sa r js)) \<Longrightarrow>
          \<forall>i \<in> set ids. \<exists>j \<in> set js. job_id j = i \<and> is_stale_running now sa j"
    and start_ids: "job_id ` set (snd (start clk ids js)) \<subseteq> job_id ` set js"
    and start_row: "distinct (map job_id js) \<Longrightarrow> j \<in> set js \<Longrightarrow> j' \<in> set (snd (start clk ids js)) \<Longrightarrow>
          job_id j' = job_id j \<Longrightarrow>
          if job_id j \<in> set ids \<and> job_status j = JobPending
          then job_status j' = JobRunning else j' = j"
begin

definition drain_fate where
  "drain_fate cs ids now sa adm j j' =
     (if job_id j \<in> qpc_job_id ` set cs \<and> job_status j = JobPending
         \<or> job_id j \<in> set ids \<and> is_stale_running now sa j then job_status j' = JobCancelled
      else if job_id j \<in> set adm \<and> job_status j = JobPending then job_status j' = JobRunning
      else j' = j)"

lemma cancel_then_reap:
  assumes "distinct (map job_id js)" and "j \<in> set js"
    and "j' \<in> set (snd (reap clk2 ids now sa r (snd (cancel clk1 cs js))))" and "job_id j' = job_id j"
  shows "drain_fate cs ids now sa [] j j'"
proof -
  let ?js1 = "snd (cancel clk1 cs js)"
  from assms(3) reap_ids obtain j1 where j1: "j1 \<in> set ?js1" "job_id j1 = job_id j'"
    by (metis (no_types, lifting) image_iff subsetD)
  have c: "if job_id j \<in> qpc_job_id ` set cs \<and> job_status j = JobPending
      then job_status j1 = JobCancelled else j1 = j"
    by (rule cancel_row) (use assms(1,2,4) j1 in simp_all)
  have p: "if job_id j1 \<in> set ids \<and> is_stale_running now sa j1
      then job_status j' = JobCancelled else j' = j1"
    by (rule reap_row) (use cancel_unique assms(1,3) j1 in auto)
  have stale: "is_stale_running now sa x \<Longrightarrow> job_status x = JobRunning" for x
    by (simp add: is_stale_running_def split: if_splits)
  show ?thesis
  proof (cases "job_id j \<in> qpc_job_id ` set cs \<and> job_status j = JobPending")
    case True
    with c stale [of j1] have "j' = j1 \<and> job_status j1 = JobCancelled" using p by (auto split: if_splits)
    with True show ?thesis by (simp add: drain_fate_def)
  next
    case False
    with c have "j1 = j" by simp
    with False p show ?thesis by (auto simp: drain_fate_def)
  qed
qed

lemma cancel_reap_start:
  assumes "distinct (map job_id js)" and "j \<in> set js" and "job_id j' = job_id j"
    and "j' \<in> set (snd (start clk3 adm (snd (reap clk2 ids now sa r (snd (cancel clk1 cs js))))))"
  shows "drain_fate cs ids now sa adm j j'"
proof -
  let ?js2 = "snd (reap clk2 ids now sa r (snd (cancel clk1 cs js)))"
  from assms(4) start_ids obtain j2 where j2: "j2 \<in> set ?js2" "job_id j2 = job_id j'"
    by (metis (no_types, lifting) image_iff subsetD)
  have cr: "drain_fate cs ids now sa [] j j2"
    using cancel_then_reap [OF assms(1,2) j2(1)] j2(2) assms(3) by simp
  have s: "if job_id j2 \<in> set adm \<and> job_status j2 = JobPending
      then job_status j' = JobRunning else j' = j2"
    by (rule start_row) (use cancel_unique reap_unique assms(1,4) j2 in auto)
  show ?thesis
    using cr s j2(2) assms(3) by (auto simp: drain_fate_def split: if_splits)
qed

lemma reaped_before:
  assumes "distinct (map job_id js)"
    and "length ids \<le> length (fst (reap clk2 ids now sa r (snd (cancel clk1 cs js))))"
    and "i \<in> set ids"
  shows "\<exists>j \<in> set js. job_id j = i \<and> is_stale_running now sa j"
proof -
  from reap_complete [OF assms(2)] assms(3) obtain j1
    where j1: "j1 \<in> set (snd (cancel clk1 cs js))" "job_id j1 = i" "is_stale_running now sa j1" by blast
  then obtain j where j: "j \<in> set js" "job_id j1 = job_id j"
    using cancel_ids by (metis (no_types, lifting) image_iff subsetD)
  from cancel_row [OF assms(1) j(1) j1(1) j(2)] j1(3) have "j1 = j"
    by (auto simp: is_stale_running_def split: if_splits)
  with j j1 show ?thesis by blast
qed

end

lemma select_loop_all:
  assumes "\<And>c t j j'. step c t j = Some j' \<Longrightarrow> job_id j' = job_id j"
  shows "length (fst (select_loop clk key sel step seen cs js)) \<le> length cs
     \<and> (length cs \<le> length (fst (select_loop clk key sel step seen cs js)) \<longrightarrow>
          (\<forall>c \<in> set cs. key c \<notin> set seen \<and> (\<exists>j \<in> set js. job_id j = key c \<and> sel c j)))"
proof (induction cs arbitrary: clk seen js)
  case (Cons c cs)
  let ?P = "\<lambda>j. job_id j = key c \<and> sel c j"
  consider "key c \<in> set seen" | "key c \<notin> set seen" "find ?P js = None"
    | j where "key c \<notin> set seen" "find ?P js = Some j" "step c (clk 0) j = None"
    | j j' where "key c \<notin> set seen" "find ?P js = Some j" "step c (clk 0) j = Some j'"
    by (metis not_None_eq)
  then show ?case
  proof cases
    case 1
    with Cons.IH [of clk seen js] show ?thesis by auto
  next
    case 2
    with Cons.IH [of clk "key c # seen" js] show ?thesis by (auto simp: Let_def)
  next
    case 3
    then have "fst (select_loop clk key sel step seen (c # cs) js) =
        fst (select_loop (clk \<circ> Suc) key sel step (key c # seen) cs js)"
      by (simp add: Let_def)
    moreover have "length (fst (select_loop (clk \<circ> Suc) key sel step (key c # seen) cs js)) \<le> length cs"
      using Cons.IH by blast
    ultimately show ?thesis by (simp only: list.size) linarith
  next
    case (4 j j')
    let ?r = "select_loop (clk \<circ> Suc) key sel step (key c # seen) cs (assign_first ?P j' js)"
    have j: "j \<in> set js" "job_id j = key c" "sel c j" using find_SomeD [OF 4(2)] by auto
    have id': "job_id j' = key c" using assms [OF 4(3)] j by simp
    have mem: "x \<in> set js" if "x \<in> set (assign_first ?P j' js)" "job_id x \<noteq> key c" for x
      using that id' by (induction js) (auto split: if_splits)
    have "fst (select_loop clk key sel step seen (c # cs) js) = j' # fst ?r"
      using 4 by (simp add: Let_def split_beta)
    moreover have "length (fst ?r) \<le> length cs" using Cons.IH by blast
    moreover have "\<forall>c' \<in> set cs. key c' \<notin> set seen \<and> (\<exists>x \<in> set js. job_id x = key c' \<and> sel c' x)"
      if "length cs \<le> length (fst ?r)"
    proof
      fix c' assume "c' \<in> set cs"
      with Cons.IH [of "clk \<circ> Suc" "key c # seen" "assign_first ?P j' js"] that
      have "key c' \<notin> set (key c # seen)"
        "\<exists>x \<in> set (assign_first ?P j' js). job_id x = key c' \<and> sel c' x" by blast+
      with mem show "key c' \<notin> set seen \<and> (\<exists>x \<in> set js. job_id x = key c' \<and> sel c' x)"
        by (metis list.set_intros)
    qed
    ultimately show ?thesis using 4(1) j by (simp only: list.size list.set ball_simps) auto
  qed
qed simp

lemma ok_of_transition:
  "ok_of (cancel_with_reason_and_proof t r p j) = Some j' \<Longrightarrow> job_id j' = job_id j"
  "ok_of (cancel_with_reason t r j) = Some j' \<Longrightarrow> job_id j' = job_id j"
  by (auto simp: ok_of_def job_defs split: sum.splits if_splits)

interpretation drain: drain_queue cancel_pending_jobs_for_drain cancel_stale_running_jobs
  start_pending_jobs_for_drain
proof
  fix clk :: clock and cs :: "queue_pending_cancellation list" and ids :: "string list"
    and now :: time and sa :: duration and r :: string and js :: "job list" and j j' :: job
  show "job_id ` set (snd (cancel_pending_jobs_for_drain clk cs js)) \<subseteq> job_id ` set js"
    by (rule cancel_pending_op.ids)
  show "distinct (map job_id js) \<Longrightarrow> distinct (map job_id (snd (cancel_pending_jobs_for_drain clk cs js)))"
    by (rule cancel_pending_op.unique)
  show "job_id ` set (snd (cancel_stale_running_jobs clk ids now sa r js)) \<subseteq> job_id ` set js"
    by (rule cancel_stale_op.ids)
  show "distinct (map job_id js) \<Longrightarrow> distinct (map job_id (snd (cancel_stale_running_jobs clk ids now sa r js)))"
    by (rule cancel_stale_op.unique)
  show "job_id ` set (snd (start_pending_jobs_for_drain clk ids js)) \<subseteq> job_id ` set js"
    by (rule start_op.ids)
  show "length ids \<le> length (fst (cancel_stale_running_jobs clk ids now sa r js)) \<Longrightarrow>
      \<forall>i \<in> set ids. \<exists>j \<in> set js. job_id j = i \<and> is_stale_running now sa j"
    using select_loop_all [of "\<lambda>_ t j. ok_of (cancel_with_reason t (Some r) j)" clk id
        "\<lambda>_ j. is_stale_running now sa j" "[]" ids js, OF ok_of_transition(2)]
    by (simp add: cancel_stale_running_jobs_def then_trim_def split_beta)
  assume row: "distinct (map job_id js)" "j \<in> set js" "job_id j' = job_id j"
  {
    assume "j' \<in> set (snd (start_pending_jobs_for_drain clk ids js))"
    from row(1,2) this row(3)
    have "decided id (\<lambda>_ j. job_status j = JobPending) (\<lambda>_ now j. ok_of (job_start now j)) ids j j'"
      unfolding start_pending_jobs_for_drain_def
      by (rule select_loop_decided [rotated]) (rule transition_advances)
    then show "if job_id j \<in> set ids \<and> job_status j = JobPending
        then job_status j' = JobRunning else j' = j"
      by (auto simp: decided_def ok_of_def job_defs unwrap_or_def find_None_iff
          split: option.splits if_splits dest: find_SomeD)
  next
    let ?sel = "\<lambda>_ j. is_stale_running now sa j"
    let ?step = "\<lambda>_ t j. ok_of (cancel_with_reason t (Some r) j)"
    assume "j' \<in> set (snd (cancel_stale_running_jobs clk ids now sa r js))"
    then have "j' \<in> set (snd (select_loop clk id ?sel ?step [] ids js))"
      using trim_terminal_subset by (fastforce simp: cancel_stale_running_jobs_def then_trim_def)
    from row(1,2) this row(3) have "decided id ?sel ?step ids j j'"
      by (rule select_loop_decided [rotated]) (rule transition_advances)
    moreover have "job_status j = JobRunning" if "is_stale_running now sa j"
      using that by (simp add: is_stale_running_def split: if_splits)
    ultimately show "if job_id j \<in> set ids \<and> is_stale_running now sa j
        then job_status j' = JobCancelled else j' = j"
      by (auto simp: decided_def ok_of_def job_defs unwrap_or_def find_None_iff
          split: option.splits if_splits dest: find_SomeD)
  next
    let ?sel = "\<lambda>_ j. job_status j = JobPending"
    let ?step = "\<lambda>c now j. ok_of (cancel_with_reason_and_proof now (Some (qpc_reason c)) (qpc_proof c) j)"
    assume "j' \<in> set (snd (cancel_pending_jobs_for_drain clk cs js))"
    then have "j' \<in> set (snd (select_loop clk qpc_job_id ?sel ?step [] cs js))"
      using trim_terminal_subset by (fastforce simp: cancel_pending_jobs_for_drain_def then_trim_def)
    from row(1,2) this row(3) have "decided qpc_job_id ?sel ?step cs j j'"
      by (rule select_loop_decided [rotated]) (rule transition_advances)
    note d = this
    show "if job_id j \<in> qpc_job_id ` set cs \<and> job_status j = JobPending
        then job_status j' = JobCancelled else j' = j"
    proof (cases "find (\<lambda>c. qpc_job_id c = job_id j) cs")
      case None
      with d show ?thesis by (auto simp: decided_def find_None_iff split: if_splits)
    next
      case (Some c)
      then have "job_id j \<in> qpc_job_id ` set cs" 
        using find_SomeD [OF Some] by (auto intro: rev_image_eqI)
      with Some d show ?thesis
        by (auto simp: decided_def ok_of_def job_defs unwrap_or_def)
    qed
  }
qed

text \<open>
  (C5) Applying a pass starts only what the pass admitted, and nothing when its picture of the
  running jobs was incomplete: a row that becomes running was pending, admitted and not
  cancelled by the same pass; no running request failed to load; and every stale worker whose
  resources the plan counted as free was still stale when it was reaped. A row is cancelled
  exactly when the pass names it and it is still pending, or still stale; every other row is
  left as it is.
\<close>

theorem apply_pass_starts_only_admitted:
  fixes pass js
  assumes "distinct (map job_id js)" and "j \<in> set js" and "job_id j' = job_id j"
    and "j' \<in> set (snd (apply_admit_pass_for_drain clk1 now clk2 clk3 pass js))"
  defines "sa \<equiv> duration_seconds default_running_job_stale_seconds"
    and "stale_ids \<equiv> map spsc_job_id (stale_running_cancellations (pass_same_pr pass))"
  shows "if job_id j \<in> qpc_job_id ` set (admit_pass_cancellations pass) \<and> job_status j = JobPending
            \<or> job_id j \<in> set stale_ids \<and> is_stale_running now sa j
         then job_status j' = JobCancelled
         else j' = j \<or> job_status j = JobPending \<and> job_status j' = JobRunning
            \<and> job_id j \<in> set (admitted (pass_plan pass)) \<and> running_request_errors pass = []
            \<and> (\<forall>i \<in> set stale_ids. \<exists>r \<in> set js. job_id r = i \<and> is_stale_running now sa r)"
proof -
  let ?cs = "admit_pass_cancellations pass"
  let ?js1 = "snd (cancel_pending_jobs_for_drain clk1 ?cs js)"
  let ?reap = "cancel_stale_running_jobs clk2 stale_ids now sa stale_running_cancel_reason ?js1"
  let ?skip = "running_request_errors pass \<noteq> [] \<or> length (fst ?reap) < length stale_ids"
  have js': "snd (apply_admit_pass_for_drain clk1 now clk2 clk3 pass js) =
      (if ?skip then snd ?reap
       else snd (start_pending_jobs_for_drain clk3 (admitted (pass_plan pass)) (snd ?reap)))"
    by (simp add: apply_admit_pass_for_drain_def Let_def split_beta sa_def stale_ids_def)
  show ?thesis
  proof (cases ?skip)
    case True
    with assms(4) js' have "j' \<in> set (snd ?reap)" by simp
    from drain.cancel_then_reap [OF assms(1,2) this assms(3)]
    show ?thesis by (auto simp: drain.drain_fate_def split: if_splits)
  next
    case False
    with assms(4) js' have "j' \<in> set (snd (start_pending_jobs_for_drain clk3
        (admitted (pass_plan pass)) (snd ?reap)))" by simp
    from drain.cancel_reap_start [OF assms(1-3) this] drain.reaped_before [OF assms(1)] False
    show ?thesis by (fastforce simp: drain.drain_fate_def not_less split: if_splits)
  qed
qed

section \<open>What the observer may cancel\<close>

lemma jobs_by_pr_rows:
  assumes "bt_wf m"
  shows "bt_wf (fold (observed_jobs_step load status) js m)
     \<and> (\<forall>key obs jid sha. bt_get (fold (observed_jobs_step load status) js m) key = Some obs
          \<and> (jid, sha) \<in> set obs \<longrightarrow>
        (\<exists>obs0. bt_get m key = Some obs0 \<and> (jid, sha) \<in> set obs0)
        \<or> (\<exists>j e r. j \<in> set js \<and> job_status j = status \<and> job_id j = jid
            \<and> load jid = Inr (Some e) \<and> env_request e = QueuedShip r \<and> qsr_sha r = sha
            \<and> key = (canonical_repository (qsr_repo r), qsr_pr r)))"
  using assms
proof (induction js arbitrary: m)
  case (Cons j js)
  let ?m = "observed_jobs_step load status j m"
  have wf: "bt_wf ?m"
    using Cons.prems by (auto simp: observed_jobs_step_def bt_wf_insert Let_def
        split: sum.splits option.splits queued_execution_request.splits)
  have one: "(\<exists>obs0. bt_get m key = Some obs0 \<and> (jid, sha) \<in> set obs0)
      \<or> (\<exists>e r. job_status j = status \<and> job_id j = jid \<and> load jid = Inr (Some e)
          \<and> env_request e = QueuedShip r \<and> qsr_sha r = sha
          \<and> key = (canonical_repository (qsr_repo r), qsr_pr r))"
    if "bt_get ?m key = Some obs" "(jid, sha) \<in> set obs" for key obs jid sha
    using that Cons.prems
    by (auto simp: observed_jobs_step_def bt_get_insert Let_def unwrap_or_def
        split: sum.splits option.splits queued_execution_request.splits if_splits)
  show ?case
  proof (intro conjI allI impI, goal_cases)
    case 1
    from Cons.IH [OF wf] show ?case by simp
  next
    case (2 key obs jid sha)
    with Cons.IH [OF wf] consider obs0 where "bt_get ?m key = Some obs0" "(jid, sha) \<in> set obs0"
      | j' e r where "j' \<in> set js" "job_status j' = status" "job_id j' = jid" "load jid = Inr (Some e)"
          "env_request e = QueuedShip r" "qsr_sha r = sha"
          "key = (canonical_repository (qsr_repo r), qsr_pr r)"
      by (simp only: fold_simps(2) comp_apply) blast
    then show ?case
    proof cases
      case 1
      from one [OF this] show ?thesis
      proof (elim disjE exE)
        fix e r
        assume "job_status j = status \<and> job_id j = jid \<and> load jid = Inr (Some e)
          \<and> env_request e = QueuedShip r \<and> qsr_sha r = sha
          \<and> key = (canonical_repository (qsr_repo r), qsr_pr r)"
        then show ?thesis by (intro disjI2 exI [of _ j] exI [of _ e] exI [of _ r]) simp
      qed blast
    next
      case (2 j' e r)
      then show ?thesis by (intro disjI2 exI [of _ j'] exI [of _ e] exI [of _ r]) simp
    qed
  qed
qed simp

text \<open>The evidence for a cancellation: a fetch or a cached observation that is still fresh.\<close>

definition merge_evidence ::
  "int \<Rightarrow> (string \<Rightarrow> u64 \<Rightarrow> int option \<Rightarrow> merged_pr_observation)
     \<Rightarrow> ((string \<times> u64) \<times> cached_merged_observation) list \<Rightarrow> string \<times> u64 \<Rightarrow> string \<Rightarrow> bool" where
  "merge_evidence now fetch m key head =
     ((\<exists>c. fresh_cached now m key = Some c \<and> cmo_result c = PrMerged head)
      \<or> (\<exists>remaining. fetch (fst key) (snd key) remaining = PrMerged head
          \<and> (\<forall>left. remaining = Some left \<longrightarrow> min_merged_provider_lookup_budget \<le> left)))"

lemma observe_entry_facts:
  assumes "observe_entry now deadline fetch t1 t2 key st = (result, st1)" and "bt_wf (os_observations st)"
  shows "bt_wf (os_observations st1)"
    and "key' \<noteq> key \<Longrightarrow> bt_get (os_observations st1) key' = bt_get (os_observations st) key'"
    and "os_cancellations st1 = os_cancellations st"
    and "result = Some (PrMerged head) \<Longrightarrow> merge_evidence now fetch (os_observations st) key head"
  using assms
  by (auto simp: observe_entry_def merge_evidence_def Let_def bt_wf_insert bt_get_insert
      is_some_and_def not_less split: option.splits if_splits)

lemma observe_loop_evidence:
  assumes "bt_wf (os_observations st)" and "distinct (map fst entries)"
    and "c \<in> set (os_cancellations (observe_loop now deadline fetch clk entries st))"
  shows "c \<in> set (os_cancellations st) \<or> (\<exists>observed.
     ((amc_repository c, amc_pr c), observed) \<in> set entries
       \<and> (amc_job_id c, amc_head_sha c) \<in> set observed
       \<and> merge_evidence now fetch (os_observations st) (amc_repository c, amc_pr c) (amc_head_sha c))"
  using assms
proof (induction entries arbitrary: clk st)
  case (Cons entry entries)
  obtain key observed where entry: "entry = (key, observed)" by (metis prod.collapse)
  obtain result st1 where e: "observe_entry now deadline fetch (clk 0) (clk 1) key st = (result, st1)"
    by (metis prod.collapse)
  note f = observe_entry_facts [OF e Cons.prems(1)]
  let ?st = "st1\<lparr>os_cancellations := os_cancellations st1 @ entry_cancellations key result observed\<rparr>"
  have same: "merge_evidence now fetch (os_observations ?st) k h
      \<longleftrightarrow> merge_evidence now fetch (os_observations st) k h" if "k \<noteq> key" for k h
    using f(2) [OF that] by (simp add: merge_evidence_def fresh_cached_def)
  have "observe_loop now deadline fetch clk (entry # entries) st =
      observe_loop now deadline fetch (clk \<circ> Suc \<circ> Suc) entries ?st" by (simp add: entry e [simplified])
  with Cons.prems(3) have "c \<in> set (os_cancellations
      (observe_loop now deadline fetch (clk \<circ> Suc \<circ> Suc) entries ?st))" by metis
  moreover have "bt_wf (os_observations ?st)" using f(1) by simp
  moreover have "distinct (map fst entries)" using Cons.prems(2) by simp
  ultimately have "c \<in> set (os_cancellations ?st) \<or> (\<exists>observed.
     ((amc_repository c, amc_pr c), observed) \<in> set entries
       \<and> (amc_job_id c, amc_head_sha c) \<in> set observed
       \<and> merge_evidence now fetch (os_observations ?st) (amc_repository c, amc_pr c) (amc_head_sha c))"
    using Cons.IH by blast
  then consider "c \<in> set (os_cancellations st)" | "c \<in> set (entry_cancellations key result observed)"
    | obs where "((amc_repository c, amc_pr c), obs) \<in> set entries"
       "(amc_job_id c, amc_head_sha c) \<in> set obs"
       "merge_evidence now fetch (os_observations ?st) (amc_repository c, amc_pr c) (amc_head_sha c)"
    using f(3) by auto
  then show ?case
  proof cases
    case 2
    then show ?thesis using f(4)
      by (auto simp: entry entry_cancellations_def split: option.splits merged_pr_observation.splits)
  next
    case 3
    moreover have "(amc_repository c, amc_pr c) \<noteq> key" using 3(1) Cons.prems(2) by (force simp: entry)
    ultimately show ?thesis using same by auto
  qed simp
qed simp

lemma rotate_after_mset: "mset (rotate_after cursor entries) = mset entries"
proof (cases cursor)
  case (Some c)
  let ?n = "length (takeWhile (\<lambda>e. \<not> c < fst e) entries)"
  have "mset (takeWhile (\<lambda>e. \<not> c < fst e) entries @ dropWhile (\<lambda>e. \<not> c < fst e) entries) = mset entries"
    by simp
  then have "mset (drop ?n entries @ takeWhile (\<lambda>e. \<not> c < fst e) entries) = mset entries"
    by (simp only: dropWhile_eq_drop mset_append add.commute)
  with Some show ?thesis by (simp add: rotate_after_def Let_def)
qed (simp add: rotate_after_def)

text \<open>
  The observer cancels a ship only on evidence about exactly its head: the job has the
  observed status, its stored request is a ship of that pull request at that commit, and the
  pull request was reported merged at that commit, by a fetch that had a full lookup budget or
  by a cached observation that is still fresh. An unknown or unmerged result never cancels.
\<close>

theorem observer_cancels_only_merged_heads:
  assumes "bt_wf (observations ob)"
    and "c \<in> set (fst (observe_ship_with_status load js status deadline fetch now clk ob))"
  shows "\<exists>j e r. j \<in> set js \<and> job_status j = status \<and> job_id j = amc_job_id c
     \<and> load (job_id j) = Inr (Some e) \<and> env_request e = QueuedShip r \<and> qsr_sha r = amc_head_sha c
     \<and> (canonical_repository (qsr_repo r), qsr_pr r) = (amc_repository c, amc_pr c)
     \<and> merge_evidence now fetch (observations ob) (amc_repository c, amc_pr c) (amc_head_sha c)"
proof -
  let ?all = "jobs_by_pr load status js"
  let ?st = "\<lparr>os_observations = observations ob, os_last_key = None, os_exhausted = False,
             os_cancellations = []\<rparr>"
  have all: "bt_wf ?all" unfolding jobs_by_pr_def
    using jobs_by_pr_rows [of "[]" load status js] by simp
  obtain entries where entries: "mset entries = mset ?all"
    and c: "c \<in> set (os_cancellations (observe_loop now deadline fetch clk entries ?st))"
    using assms(2) rotate_after_mset
    by (auto simp: observe_ship_with_status_def Let_def split: if_splits)
  have "distinct (map fst entries)"
    using bt_wf_distinct [OF all] distinct_map_mset [OF entries] by metis
  from observe_loop_evidence [OF _ this c] assms(1) obtain observed where
    o: "((amc_repository c, amc_pr c), observed) \<in> set entries"
      "(amc_job_id c, amc_head_sha c) \<in> set observed"
      "merge_evidence now fetch (observations ob) (amc_repository c, amc_pr c) (amc_head_sha c)" by auto
  have "bt_get ?all (amc_repository c, amc_pr c) = Some observed"
    using o(1) mset_eq_setD [OF entries] by (simp add: bt_get_Some_iff [OF all])
  with jobs_by_pr_rows [of "[]" load status js] o(2) obtain j e r
    where "j \<in> set js" "job_status j = status" "job_id j = amc_job_id c"
      "load (amc_job_id c) = Inr (Some e)" "env_request e = QueuedShip r" "qsr_sha r = amc_head_sha c"
      "(amc_repository c, amc_pr c) = (canonical_repository (qsr_repo r), qsr_pr r)"
    unfolding jobs_by_pr_def by (simp add: bt_get_def) blast
  with o(3) show ?thesis by metis
qed

section \<open>Witnesses\<close>

definition sample_plan :: "u32 \<Rightarrow> job_resource_plan" where
  "sample_plan n = \<lparr>plan_targets = [], exclusive_claims = [], cloud_targets = [], host_pools = [],
     vm_slots = [\<lparr>vsd_key = ''vm'', vsd_slots = n\<rparr>]\<rparr>"

definition sample_admission :: "string \<Rightarrow> u32 \<Rightarrow> pending_admission_request" where
  "sample_admission i n = \<lparr>par_job_id = i, par_resource_plan = Some (sample_plan n),
     par_missing_request_reason = None\<rparr>"

text \<open>A store in which every job is a ship of one pull request that needs no capacity.\<close>

definition sample_load :: "string request_load" where
  "sample_load jid = Inr (Some ((envelope_from_ship_request (\<lambda>_ _ _. None) id id id 0 jid ''/''
     (sample_ship_request ''o/r''))\<lparr>resource_plan := sample_plan 0\<rparr>))"

lemma canonical_sample: "canonical_repository ''o/r'' = ''o/r''"
  by (simp add: canonical_repository_def trim_graphic is_graphic_def to_ascii_lowercase_def
      ascii_lower_char_def)

lemma sample_load_key [simp]: "load_ship_key sample_load jid = Some ((''o/r'', 7), True)"
  by (simp add: load_ship_key_def sample_load_def envelope_from_ship_request_def is_foreground_owned_def
      queued_ship_request_from_def sample_ship_request_def canonical_sample)

lemma sample_load_plan [simp]: "load_resource_plan sample_load jid = Inr (Some (sample_plan 0))"
  by (simp add: load_resource_plan_def sample_load_def envelope_from_ship_request_def result_bind_def)

theorem admitted_within_vm_capacity_witness:
  "\<exists>cs plans. subseq cs [sample_admission ''a'' 2, sample_admission ''b'' 2]
     \<and> map par_job_id cs = [''a'']
     \<and> map par_resource_plan cs = map Some plans
     \<and> vm_in_use ''vm'' ([sample_plan 1] @ plans) \<le> unat (3 :: u32)"
proof -
  let ?caps = "[\<lparr>vsc_key = ''vm'', vsc_slots = 3\<rparr>]"
  have adm: "admitted (plan_admit_pass_with_vm_slots [sample_admission ''a'' 2, sample_admission ''b'' 2]
      [sample_plan 1] [] [] ?caps 0) = [''a'']" by code_simp
  have cap: "vm_capacity_of ?caps ''vm'' = 3"
    by (simp add: vm_capacity_of_def unwrap_or_def)
  show ?thesis
    using admitted_within_vm_capacity [of ?caps "''vm''" "[sample_plan 1]"
        "[sample_admission ''a'' 2, sample_admission ''b'' 2]" "[]" "[]" 0]
    by (simp add: adm cap) (simp add: vm_in_use_def sample_plan_def sample_admission_def)
qed

theorem same_pr_admission_exclusive_witness:
  "let js = [sample_job ''a'' JobPending, sample_job ''b'' JobPending] in
   admitted (pass_plan (plan_admit_pass_from_jobs_with_vm_slots sample_load js [] [] [] 9)) = [''b'']
   \<and> job_status (sample_job ''b'' JobPending) = JobPending
   \<and> \<not> live_running sample_load 9 (duration_seconds default_running_job_stale_seconds)
        (sample_job ''a'' JobPending)"
proof -
  let ?a = "sample_job ''a'' JobPending" and ?b = "sample_job ''b'' JobPending"
  have adm: "admitted (pass_plan (plan_admit_pass_from_jobs_with_vm_slots sample_load [?a, ?b] [] [] [] 9))
      = [''b'']"
  proof -
    let ?sa = "duration_seconds default_running_job_stale_seconds"
    have ab: "by_creation [?a, ?b] = [?a, ?b]" "by_creation [] = []" by code_simp (simp add: by_creation_def)
    have "ship_groups sample_load 9 ?sa [?a, ?b] = [((''o/r'', 7), \<lparr>group_pending = [?a, ?b],
        group_running = [], group_stale_running = []\<rparr>)]"
      by (simp add: ship_groups_def group_step_def add_to_group_def bt_get_def unwrap_or_def
          empty_group_def sample_job_def job_create_def)
    then have "same_pr_excluded (compute_same_pr_ship_admission sample_load 9 ?sa [?a, ?b]) = [''a'']"
      by (simp add: compute_same_pr_ship_admission_def group_decisions_def same_pr_excluded_def
          ab)
    moreover have "sorted_pending_jobs [?a, ?b] = [?a, ?b]" by code_simp
    moreover have "scheduler_defer_until ?b = None" by (simp add: sample_job_def job_create_def)
    moreover have "admission_blockers_with_vm_slots (sample_plan 0) [] [] [] [] 9 = []" by code_simp
    ultimately show ?thesis
      by (simp add: plan_admit_pass_from_jobs_with_vm_slots_def plan_admit_pass_with_vm_slots_def
          to_pending_admission_request_def Let_def sample_job_def job_create_def List.map_filter_simps)
  qed
  have key: "ship_key sample_load j = Some (''o/r'', 7)" for j by (simp add: ship_key_def)
  have ids: "job_id ?a = ''a''" "job_id ?b = ''b''" by simp_all
  show ?thesis
    using same_pr_admission_exclusive [of "[?a, ?b]" ?b ?b sample_load "[]" "[]" "[]" 9 "(''o/r'', 7)"]
    by (simp add: adm key ids)
qed

theorem apply_pass_starts_only_admitted_witness:
  "let pass = \<lparr>pass_plan = \<lparr>admitted = [''a''], deferred = [], orphaned = []\<rparr>,
          running_request_errors = [],
          pass_same_pr = \<lparr>pending_cancellations = [], running_conflicts = [],
            stale_running_cancellations = []\<rparr>, already_merged_cancellations = []\<rparr>;
       js' = snd (apply_admit_pass_for_drain (\<lambda>_. 1) 2 (\<lambda>_. 3) (\<lambda>_. 4) pass [sample_job ''a'' JobPending])
   in \<exists>j'. js' = [j'] \<and> job_status j' = JobRunning"
proof -
  let ?pass = "\<lparr>pass_plan = \<lparr>admitted = [''a''], deferred = [], orphaned = []\<rparr>,
          running_request_errors = [],
          pass_same_pr = \<lparr>pending_cancellations = [], running_conflicts = [],
            stale_running_cancellations = []\<rparr>, already_merged_cancellations = []\<rparr>"
  let ?j = "sample_job ''a'' JobPending"
  let ?js' = "snd (apply_admit_pass_for_drain (\<lambda>_. 1) 2 (\<lambda>_. 3) (\<lambda>_. 4) ?pass [?j])"
  obtain j' where j': "?js' = [j']" "job_id j' = job_id ?j" "j' \<noteq> ?j"
    by (simp add: apply_admit_pass_for_drain_def admit_pass_cancellations_def
        cancel_pending_jobs_for_drain_def cancel_stale_running_jobs_def then_trim_def
        trim_terminal_rows job_terminal_def sort_recent_completed_def
        start_pending_jobs_for_drain_def sample_job_def job_create_def job_start_def ok_of_def Let_def)
  have "job_status j' = JobRunning"
    using apply_pass_starts_only_admitted [of "[?j]" ?j j' "\<lambda>_. 1" 2 "\<lambda>_. 3" "\<lambda>_. 4" ?pass] j'
    by (simp add: admit_pass_cancellations_def)
  with j' show ?thesis by (simp add: Let_def)
qed

theorem observer_cancels_only_merged_heads_witness:
  "let c = \<lparr>amc_job_id = ''j'', amc_pr = 7, amc_repository = ''o/r'', amc_head_sha = ''0a1b''\<rparr>;
       fetch = (\<lambda>_ _ _. PrMerged ''0a1b'');
       ob = \<lparr>observations = [], pending_deadline_cursor = None, running_deadline_cursor = None\<rparr>
   in fst (observe_ship_with_status sample_load [sample_job ''j'' JobPending] JobPending None fetch 0
            (\<lambda>_. 0) ob) = [c]
      \<and> merge_evidence 0 fetch [] (''o/r'', 7) ''0a1b''"
proof -
  let ?c = "\<lparr>amc_job_id = ''j'', amc_pr = 7, amc_repository = ''o/r'', amc_head_sha = ''0a1b''\<rparr>"
  let ?fetch = "\<lambda>_ _ _. PrMerged ''0a1b''"
  let ?ob = "\<lparr>observations = [], pending_deadline_cursor = None, running_deadline_cursor = None\<rparr>"
  have r: "fst (observe_ship_with_status sample_load [sample_job ''j'' JobPending] JobPending None
      ?fetch 0 (\<lambda>_. 0) ?ob) = [?c]"
  proof -
    have "jobs_by_pr sample_load JobPending [sample_job ''j'' JobPending]
        = [((''o/r'', 7), [(''j'', ''0a1b'')])]"
      by (simp add: jobs_by_pr_def observed_jobs_step_def sample_load_def envelope_from_ship_request_def
          queued_ship_request_from_def sample_ship_request_def canonical_sample bt_get_def unwrap_or_def
          sample_job_def job_create_def)
    then show ?thesis
      by (simp add: observe_ship_with_status_def observe_entry_def fresh_cached_def bt_get_def
          is_some_and_def entry_cancellations_def Let_def)
  qed
  with observer_cancels_only_merged_heads [of ?ob ?c sample_load "[sample_job ''j'' JobPending]"
      JobPending None ?fetch 0 "\<lambda>_. 0"]
  have "merge_evidence 0 ?fetch [] (''o/r'', 7) ''0a1b''" by auto
  with r show ?thesis by (simp add: Let_def)
qed

end
