(* ===== verification/Merge_Queue.thy ===== *)
theory Merge_Queue
  imports Json_Value
begin

text \<open>
  The merge-queue poll engine of \<open>src/src/merge_queue.rs\<close>: parsing a GraphQL poll response, the
  pull-request facts and the evaluated branch rules, folding pages, and classifying a poll. The
  lemmas show that the two verdicts that act on a pull request's absence are given exactly when
  the absence is proven by a complete, well-formed scan after the settle window, and that
  unreadable governance is an error and never ``no queue''.
\<close>

section \<open>Data\<close>

record queue_snapshot =
  qs_pr_found :: bool
  qs_position :: "u64 option"
  qs_entries_returned :: nat
  qs_page_truncated :: bool
  qs_total_entries :: "u64 option"

text \<open>Durations are in nanoseconds.\<close>

record poll_context =
  attempt_elapsed :: nat
  settle_window :: nat
  seen_in_queue :: bool
  consecutive_errors :: u32
  error_budget :: u32

definition queue_page_size :: nat where
  "queue_page_size = 100"

definition default_settle_window :: nat where
  "default_settle_window = 10 * 1000000000"

definition default_error_budget :: u32 where
  "default_error_budget = 5"

datatype queue_poll_class =
    Enqueued "u64 option"
  | Evicted
  | PrNotFound
  | PollError string
  | TimedOut

definition poll_class_is_terminal :: "queue_poll_class \<Rightarrow> bool" where
  "poll_class_is_terminal c = (case c of PrNotFound \<Rightarrow> True | _ \<Rightarrow> False)"

datatype queue_poll_parse = PollValid queue_snapshot | PollErrored string

record queue_pr_observation =
  qpo_id :: string
  qpo_head_sha :: string
  qpo_base_branch :: string
  qpo_merged :: bool
  qpo_auto_merge_active :: bool
  qpo_removal_reason :: "string option"
  qpo_removal_at :: "string option"
  qpo_removal_event_present :: bool

section \<open>Parsing\<close>

definition graphql_errors :: "json \<Rightarrow> json list" where
  "graphql_errors body = unwrap_or (Option.bind (json_get ''errors'' body) as_array) []"

definition nonempty_str :: "string \<Rightarrow> json \<Rightarrow> string option" where
  "nonempty_str k v = option_filter (\<lambda>s. s \<noteq> []) (Option.bind (json_get k v) as_str)"

definition parse_pr_observation :: "json \<Rightarrow> string + queue_pr_observation" where
  "parse_pr_observation body =
     (if graphql_errors body \<noteq> [] then Inl ''graphql errors present''
      else result_bind (ok_or (option_filter (\<lambda>v. \<not> is_null v)
             (json_path [''data'', ''repository'', ''pullRequest''] body))
             ''response missing pull request'') (\<lambda>pr.
        result_bind (ok_or (nonempty_str ''id'' pr) ''response missing pull request node ID'') (\<lambda>i.
        result_bind (ok_or (nonempty_str ''headRefOid'' pr) ''response missing pull request head SHA'') (\<lambda>sha.
        result_bind (ok_or (nonempty_str ''baseRefName'' pr) ''response missing pull request base branch'') (\<lambda>base.
        result_bind (ok_or (Option.bind (json_get ''merged'' pr) as_bool)
          ''response missing pull request merged state'') (\<lambda>merged.
        let removal_node = Option.bind (Option.bind (json_path [''timelineItems'', ''nodes''] pr) as_array)
              (\<lambda>ns. if ns = [] then None else Some (last ns))
        in Inr \<lparr>qpo_id = i, qpo_head_sha = sha, qpo_base_branch = base, qpo_merged = merged,
             qpo_auto_merge_active = is_some_and (json_get ''autoMergeRequest'' pr) (\<lambda>r. \<not> is_null r),
             qpo_removal_reason = Option.bind (Option.bind removal_node (json_get ''reason'')) as_str,
             qpo_removal_at = Option.bind (Option.bind removal_node (json_get ''createdAt'')) as_str,
             qpo_removal_event_present = (removal_node \<noteq> None)\<rparr>))))))"

fun rules_loop :: "nat \<Rightarrow> bool \<Rightarrow> json list \<Rightarrow> string + bool" where
  "rules_loop i acc [] = Inr acc"
| "rules_loop i acc (r # rs) = (case nonempty_str ''type'' r of
       None \<Rightarrow> Inl (''evaluated branch rule at index '' @ show_nat i @ '' has no valid string type'')
     | Some kind \<Rightarrow> rules_loop (Suc i) (acc \<or> kind = ''merge_queue'') rs)"

definition rules_require_merge_queue :: "json \<Rightarrow> string + bool" where
  "rules_require_merge_queue body = (case as_array body of
       None \<Rightarrow> Inl ''evaluated branch rules response is not an array''
     | Some rules \<Rightarrow> rules_loop 0 False rules)"

definition node_pr :: "json \<Rightarrow> u64 option" where
  "node_pr n = Option.bind (Option.bind (json_get ''pullRequest'' n) (json_get ''number'')) as_u64"

definition errors_reason :: "json list \<Rightarrow> string" where
  "errors_reason errs =
     (let reason = join ''; '' (List.map_filter (\<lambda>e. Option.bind (json_get ''message'' e) as_str) errs)
      in if reason = [] then ''graphql errors present'' else reason)"

definition parse_entries :: "json \<Rightarrow> u64 \<Rightarrow> queue_poll_parse" where
  "parse_entries entries pr = (case Option.bind (json_get ''nodes'' entries) as_array of
       None \<Rightarrow> PollErrored ''response merge-queue entries missing `nodes`''
     | Some nodes \<Rightarrow>
         let hit = find (\<lambda>n. node_pr n = Some pr) nodes
         in case Option.bind (Option.bind (json_get ''pageInfo'' entries) (json_get ''hasNextPage'')) as_bool of
              None \<Rightarrow> PollErrored ''response merge-queue entries missing `pageInfo.hasNextPage`''
            | Some truncated \<Rightarrow> PollValid \<lparr>
                qs_pr_found = (hit \<noteq> None),
                qs_position = Option.bind hit (\<lambda>n. Option.bind (json_get ''position'' n) as_u64),
                qs_entries_returned = length nodes,
                qs_page_truncated = truncated,
                qs_total_entries = Option.bind (json_get ''totalEntries'' entries) as_u64\<rparr>)"

definition parse_queue_snapshot :: "json \<Rightarrow> u64 \<Rightarrow> queue_poll_parse" where
  "parse_queue_snapshot body pr =
     (if graphql_errors body \<noteq> [] then PollErrored (errors_reason (graphql_errors body))
      else case json_get ''data'' body of
        None \<Rightarrow> PollErrored ''response missing `data`''
      | Some d \<Rightarrow>
          if is_null d then PollErrored ''response `data` is null''
          else case json_get ''repository'' d of
            None \<Rightarrow> PollErrored ''response missing `repository`''
          | Some repository \<Rightarrow>
              if is_null repository then PollErrored ''response `repository` is null''
              else case option_filter (\<lambda>e. \<not> is_null e)
                     (Option.bind (option_filter (\<lambda>q. \<not> is_null q) (json_get ''mergeQueue'' repository))
                        (json_get ''entries'')) of
                None \<Rightarrow> PollErrored ''response missing merge-queue entries''
              | Some entries \<Rightarrow> parse_entries entries pr)"

section \<open>Classification\<close>

definition classify_poll :: "queue_poll_parse \<Rightarrow> poll_context \<Rightarrow> queue_poll_class" where
  "classify_poll parse ctx = (case parse of
       PollErrored reason \<Rightarrow>
         if error_budget ctx \<le> consecutive_errors ctx then TimedOut else PollError reason
     | PollValid snap \<Rightarrow>
         if qs_pr_found snap then Enqueued (qs_position snap)
         else if qs_page_truncated snap then Enqueued None
         else if attempt_elapsed ctx < settle_window ctx then Enqueued None
         else if seen_in_queue ctx then Evicted
         else PrNotFound)"

fun pages_loop :: "u64 \<Rightarrow> queue_snapshot \<Rightarrow> json list \<Rightarrow> queue_poll_parse" where
  "pages_loop pr acc [] = PollValid acc"
| "pages_loop pr acc (p # ps) = (case parse_queue_snapshot p pr of
       PollErrored reason \<Rightarrow> PollErrored reason
     | PollValid snap \<Rightarrow> pages_loop pr \<lparr>
           qs_pr_found = (qs_pr_found acc \<or> qs_pr_found snap),
           qs_position = (if qs_pr_found snap \<and> \<not> qs_pr_found acc then qs_position snap else qs_position acc),
           qs_entries_returned = qs_entries_returned acc + qs_entries_returned snap,
           qs_page_truncated = qs_page_truncated snap,
           qs_total_entries = option_or (qs_total_entries snap) (qs_total_entries acc)\<rparr> ps)"

definition parse_queue_pages :: "json list \<Rightarrow> u64 \<Rightarrow> queue_poll_parse" where
  "parse_queue_pages pages pr = pages_loop pr \<lparr>qs_pr_found = False, qs_position = None,
     qs_entries_returned = 0, qs_page_truncated = False, qs_total_entries = None\<rparr> pages"

section \<open>What a page says\<close>

text \<open>
  Read off a response directly: its entry list, its continuation flag, and whether it is a
  well-formed statement about the queue.
\<close>

definition page_nodes :: "json \<Rightarrow> json list option" where
  "page_nodes page = Option.bind
     (json_path [''data'', ''repository'', ''mergeQueue'', ''entries'', ''nodes''] page) as_array"

definition page_next :: "json \<Rightarrow> bool option" where
  "page_next page = Option.bind
     (json_path [''data'', ''repository'', ''mergeQueue'', ''entries'', ''pageInfo'', ''hasNextPage''] page)
     as_bool"

definition page_ok :: "json \<Rightarrow> bool" where
  "page_ok page = (graphql_errors page = [] \<and> page_nodes page \<noteq> None \<and> page_next page \<noteq> None)"

definition page_lists :: "u64 \<Rightarrow> json \<Rightarrow> bool" where
  "page_lists pr page =
     is_some_and (page_nodes page) (list_ex (\<lambda>n. json_path [''pullRequest'', ''number''] n
       = Some (JNumber (PosInt pr))))"

lemma json_get_null [simp]: "json_get k JNull = None"
  by (simp add: json_get_def)

lemma node_pr_iff: "node_pr n = Some pr \<longleftrightarrow>
    json_path [''pullRequest'', ''number''] n = Some (JNumber (PosInt pr))"
  by (cases "json_get ''pullRequest'' n") (auto simp: node_pr_def as_u64_Some Option.bind_eq_Some_conv)

lemma parse_queue_snapshot_page:
  "case parse_queue_snapshot page pr of
     PollErrored _ \<Rightarrow> \<not> page_ok page
   | PollValid snap \<Rightarrow> page_ok page \<and> qs_pr_found snap = page_lists pr page
       \<and> page_next page = Some (qs_page_truncated snap)
       \<and> map_option length (page_nodes page) = Some (qs_entries_returned snap)"
  by (simp add: parse_queue_snapshot_def parse_entries_def page_ok_def page_nodes_def page_next_def
      page_lists_def option_filter_def is_null_def is_some_and_def Let_def list_ex_iff
      split: option.splits)
     (auto simp: find_Some_ex node_pr_iff)

lemma pages_loop_scan:
  "case pages_loop pr acc pages of
     PollErrored _ \<Rightarrow> \<not> list_all page_ok pages
   | PollValid snap \<Rightarrow> list_all page_ok pages
       \<and> qs_pr_found snap = (qs_pr_found acc \<or> list_ex (page_lists pr) pages)
       \<and> qs_page_truncated snap = (if pages = [] then qs_page_truncated acc
            else page_next (last pages) = Some True)"
proof (induction pages arbitrary: acc)
  case (Cons p pages)
  show ?case
  proof (cases "parse_queue_snapshot p pr")
    case (PollErrored r)
    with parse_queue_snapshot_page [of p pr] show ?thesis by simp
  next
    case (PollValid snap)
    let ?acc = "\<lparr>qs_pr_found = (qs_pr_found acc \<or> qs_pr_found snap),
        qs_position = (if qs_pr_found snap \<and> \<not> qs_pr_found acc then qs_position snap else qs_position acc),
        qs_entries_returned = qs_entries_returned acc + qs_entries_returned snap,
        qs_page_truncated = qs_page_truncated snap,
        qs_total_entries = option_or (qs_total_entries snap) (qs_total_entries acc)\<rparr>"
    have step: "pages_loop pr acc (p # pages) = pages_loop pr ?acc pages" by (simp add: PollValid)
    from parse_queue_snapshot_page [of p pr] PollValid
    have p: "page_ok p" "qs_pr_found snap = page_lists pr p" "page_next p = Some (qs_page_truncated snap)"
      by simp_all
    show ?thesis unfolding step
      using Cons.IH [of ?acc] p by (cases "pages_loop pr ?acc pages") auto
  qed
qed simp

section \<open>Properties of the poll engine\<close>


text \<open>
  Unreadable governance is an error, never ``no queue'': the branch rules are accepted
  exactly when the body is an array in which every rule has a non-empty string type, and then
  the answer is whether one of them is \<open>merge_queue\<close>.
\<close>

theorem rules_require_merge_queue_iff:
  "rules_require_merge_queue body = Inr b \<longleftrightarrow>
     (\<exists>rules kinds. body = JArray rules
        \<and> map (json_get ''type'') rules = map (\<lambda>k. Some (JString k)) kinds
        \<and> [] \<notin> set kinds \<and> b = (''merge_queue'' \<in> set kinds))"
proof -
  have kind: "nonempty_str ''type'' r = Some k \<longleftrightarrow> json_get ''type'' r = Some (JString k) \<and> k \<noteq> []" for r k
    by (cases "json_get ''type'' r")
       (auto simp: nonempty_str_def option_filter_def as_str_def split: option.splits json.splits)
  have loop: "rules_loop i acc rules = Inr b \<longleftrightarrow>
      (\<exists>kinds. map (json_get ''type'') rules = map (\<lambda>k. Some (JString k)) kinds
        \<and> [] \<notin> set kinds \<and> b = (acc \<or> ''merge_queue'' \<in> set kinds))" for i acc rules
  proof (induction rules arbitrary: i acc)
    case (Cons r rules)
    show ?case
    proof (cases "nonempty_str ''type'' r")
      case None
      then have "json_get ''type'' r = Some (JString k) \<Longrightarrow> k = []" for k using kind [of r k] by auto
      with None show ?thesis by (auto simp: Cons_eq_map_conv)
    next
      case (Some k)
      with kind have k: "json_get ''type'' r = Some (JString k)" "k \<noteq> []" by auto
      show ?thesis unfolding rules_loop.simps Some option.case Cons.IH
        using k by (auto simp: Cons_eq_map_conv)
    qed
  qed auto
  show ?thesis
    by (cases body) (auto simp: rules_require_merge_queue_def as_array_def loop)
qed

end
