(* ===== verification/Merge_Steward.thy ===== *)
theory Merge_Steward
  imports Shipyard_Prelude
begin

text \<open>
  The merge steward of \<open>src/src/merge_steward.rs\<close>: classification of a pull request at its current
  head, selection of the check that decides a required rule, the capacity-preemption plan and the
  coalescing of superseded queued runs; with \<open>clamp_rerun_budget\<close> of
  \<open>src/src/transient_interruption.rs\<close> and \<open>merge_group_pr\<close> of \<open>src/src/merge_queue_liveness.rs\<close>.
  The lemmas show exactly when a head is armed, that a rerun is only proposed for an
  unattempted cancelled required check, and that both cancellation planners name only runs that
  satisfy every safety condition.
\<close>

section \<open>Data\<close>

datatype steward_check_source = CheckRun | StatusContext

record steward_check =
  sc_name :: string
  sc_source :: steward_check_source
  sc_app_id :: "u64 option"
  sc_status :: string
  sc_conclusion :: "string option"
  sc_run_id :: "u64 option"
  sc_observed_at :: "string option"
  sc_check_id :: "u64 option"

record required_check =
  rc_context :: string
  rc_app_id :: "u64 option"

definition required_check_label :: "required_check \<Rightarrow> string" where
  "required_check_label r = (case rc_app_id r of
       None \<Rightarrow> rc_context r
     | Some a \<Rightarrow> rc_context r @ '' (app_id='' @ show_nat a @ '')'')"

definition github_actions_app_id :: u64 where
  "github_actions_app_id = 15368"

definition github_actions_bot_user_id :: u64 where
  "github_actions_bot_user_id = 41898282"

definition status_creator_app_id :: "string option \<Rightarrow> u64 option \<Rightarrow> u64 option" where
  "status_creator_app_id login user_id =
     (if login = Some ''github-actions[bot]'' \<and> user_id = Some github_actions_bot_user_id
      then Some github_actions_app_id else None)"

record steward_pull_request =
  spr_number :: u64
  spr_head_sha :: string
  spr_head_branch :: string
  spr_author :: "string option"
  spr_draft :: bool
  spr_merge_state :: string
  spr_auto_merge_active :: bool
  spr_queue_position :: "u64 option"
  spr_labels :: "string list"
  spr_checks :: "steward_check list"

record steward_policy =
  sp_merge_queue :: bool
  sp_native_auto_merge :: bool
  sp_approval_context :: string
  sp_required_checks :: "required_check list"
  sp_opt_out_label :: string
  sp_provenance_blocking_labels :: "string list"
  sp_managed_label :: "string option"
  sp_handoff_context :: string
  sp_max_transient_reruns :: u32

definition default_approval_context :: string where
  "default_approval_context = ''review-verdict''"

definition server_enforced_exact_head_merge :: "steward_policy \<Rightarrow> bool" where
  "server_enforced_exact_head_merge p =
     (let context = trim (sp_approval_context p)
      in \<not> sp_merge_queue p \<and> context \<noteq> []
         \<and> list_ex (\<lambda>c. rc_context c = context \<and> rc_app_id c \<noteq> None) (sp_required_checks p))"

definition merge_path :: "steward_policy \<Rightarrow> string" where
  "merge_path p =
     (if sp_merge_queue p then ''native_queue_exact_head''
      else if server_enforced_exact_head_merge p then ''server_enforced_exact_head_merge''
      else ''direct_merge_refused_server_enforcement_required'')"

datatype direct_merge_refusal =
    RequiredCheckMaterializationNotAuthoritative
  | ValidatedBaseRevisionNotAtomic

datatype steward_decision =
    Unmanaged
  | HandoffMissing
  | StewardQueued u64
  | OptedOut
  | ExcludedLabel string
  | ProvenanceBlocked "string list"
  | Draft
  | InvalidHead
  | NeedsUpdate string
  | WaitingRequired "string list"
  | RequiredFailed "string list"
  | RerunTransient "u64 list"
  | ArmMergeQueue
  | DirectMergeRefused "direct_merge_refusal list"

datatype internal_enqueue_verdict =
    EnqueueAdmit
  | RefuseEjectedSameHead string "string option"
  | EnqueueUnknown string

section \<open>Which observation decides a rule\<close>

definition is_full_sha :: "string \<Rightarrow> bool" where
  "is_full_sha v = (length v = 40 \<and> list_all is_ascii_hexdigit v)"

definition completed_status :: "string \<Rightarrow> bool" where
  "completed_status s = eq_ignore_ascii_case s ''COMPLETED''"

definition cmp_id_then_time :: "u64 option \<Rightarrow> u64 option \<Rightarrow> 'a::linorder \<Rightarrow> 'a \<Rightarrow> ordering" where
  "cmp_id_then_time l r lt rt = (case (l, r) of
       (Some a, Some b) \<Rightarrow> cmp a b
     | _ \<Rightarrow> cmp lt rt)"

definition check_recency :: "steward_check \<Rightarrow> bool \<times> string \<times> bool" where
  "check_recency c =
     (sc_observed_at c = None \<and> \<not> completed_status (sc_status c),
      unwrap_or (sc_observed_at c) [],
      completed_status (sc_status c))"

definition cmp_recency :: "steward_check \<Rightarrow> steward_check \<Rightarrow> ordering" where
  "cmp_recency l r =
     (let same = (sc_source l = sc_source r)
      in cmp_id_then_time (if same then sc_check_id l else None) (if same then sc_check_id r else None)
           (check_recency l) (check_recency r))"

definition selected_required_check :: "steward_check list \<Rightarrow> required_check \<Rightarrow> steward_check option" where
  "selected_required_check checks r =
     max_by cmp_recency (filter (\<lambda>c. eq_ignore_ascii_case (sc_name c) (rc_context r)
        \<and> (case rc_app_id r of None \<Rightarrow> True | Some a \<Rightarrow> sc_app_id c = Some a)) checks)"

definition selected_checks ::
  "steward_pull_request \<Rightarrow> steward_policy \<Rightarrow> (string \<times> steward_check option) list" where
  "selected_checks pr p =
     map (\<lambda>r. (required_check_label r, selected_required_check (spr_checks pr) r)) (sp_required_checks p)"

definition good_conclusion :: "steward_check \<Rightarrow> bool" where
  "good_conclusion c =
     (to_ascii_uppercase (unwrap_or (sc_conclusion c) []) \<in> {''SUCCESS'', ''NEUTRAL'', ''SKIPPED''})"

definition required_checks_green :: "steward_check list \<Rightarrow> required_check list \<Rightarrow> bool" where
  "required_checks_green checks required =
     (required \<noteq> [] \<and> list_all (\<lambda>r. is_some_and (selected_required_check checks r)
        (\<lambda>c. completed_status (sc_status c) \<and> good_conclusion c)) required)"

definition required_checks_all_succeeded :: "steward_pull_request \<Rightarrow> steward_policy \<Rightarrow> bool" where
  "required_checks_all_succeeded pr p = required_checks_green (spr_checks pr) (sp_required_checks p)"

definition has_successful_status :: "steward_pull_request \<Rightarrow> string \<Rightarrow> bool" where
  "has_successful_status pr context =
     list_ex (\<lambda>c. eq_ignore_ascii_case (sc_name c) context \<and> sc_source c = StatusContext
        \<and> completed_status (sc_status c)
        \<and> is_some_and (sc_conclusion c) (\<lambda>v. eq_ignore_ascii_case v ''SUCCESS'')) (spr_checks pr)"

text \<open>The newest commit status named after the approval context.\<close>

definition approval_status :: "steward_pull_request \<Rightarrow> steward_policy \<Rightarrow> steward_check option" where
  "approval_status pr p =
     max_by cmp_recency (filter (\<lambda>c. sc_source c = StatusContext
        \<and> eq_ignore_ascii_case (sc_name c) (trim (sp_approval_context p))) (spr_checks pr))"

definition approval_status_pending :: "steward_pull_request \<Rightarrow> steward_policy \<Rightarrow> bool" where
  "approval_status_pending pr p =
     (trim (sp_approval_context p) \<noteq> []
      \<and> is_some_and (approval_status pr p) (\<lambda>c. \<not> completed_status (sc_status c)))"

definition approval_status_agrees :: "steward_pull_request \<Rightarrow> steward_policy \<Rightarrow> bool" where
  "approval_status_agrees pr p = (case approval_status pr p of
       None \<Rightarrow> True
     | Some c \<Rightarrow> completed_status (sc_status c)
         \<and> is_some_and (sc_conclusion c) (\<lambda>v. eq_ignore_ascii_case v ''SUCCESS''))"

definition approval_status_refusal ::
  "steward_pull_request \<Rightarrow> steward_policy \<Rightarrow> steward_decision option" where
  "approval_status_refusal pr p =
     (if \<not> server_enforced_exact_head_merge p \<or> approval_status_agrees pr p then None
      else let contexts = [trim (sp_approval_context p) @ '' (commit status)'']
        in Some (if approval_status_pending pr p then WaitingRequired contexts
                 else RequiredFailed contexts))"

definition is_transient_conclusion :: "string \<Rightarrow> bool" where
  "is_transient_conclusion c = (c = ''CANCELLED'')"

definition rerun_budget :: u32 where
  "rerun_budget = 1"

definition clamp_rerun_budget :: "u32 \<Rightarrow> u32" where
  "clamp_rerun_budget configured = (if configured < rerun_budget then configured else rerun_budget)"

datatype check_bucket =
    BucketWaiting string
  | BucketApproval string
  | BucketGreen
  | BucketTransient u64
  | BucketFailed string

definition transient_run :: "steward_policy \<Rightarrow> (u64 \<times> u32) list \<Rightarrow> steward_check \<Rightarrow> u64 option" where
  "transient_run p tries c =
     (if is_transient_conclusion (to_ascii_uppercase (unwrap_or (sc_conclusion c) []))
      then (case sc_run_id c of
          None \<Rightarrow> None
        | Some run \<Rightarrow> if unwrap_or (bt_get tries run) 0 < clamp_rerun_budget (sp_max_transient_reruns p)
            then Some run else None)
      else None)"

text \<open>One iteration of the loop: where a required rule's context goes.\<close>

definition check_bucket_of ::
  "steward_pull_request \<Rightarrow> steward_policy \<Rightarrow> (u64 \<times> u32) list \<Rightarrow> string \<times> steward_check option
     \<Rightarrow> check_bucket" where
  "check_bucket_of pr p tries = (\<lambda>(context, check). case check of
       None \<Rightarrow> BucketWaiting context
     | Some c \<Rightarrow>
         if \<not> completed_status (sc_status c) then BucketWaiting context
         else if approval_status_pending pr p
                \<and> eq_ignore_ascii_case (sc_name c) (trim (sp_approval_context p)) then BucketApproval context
         else if good_conclusion c then BucketGreen
         else (case transient_run p tries c of
             Some run \<Rightarrow> BucketTransient run
           | None \<Rightarrow> BucketFailed context))"

definition bucket_required_checks ::
  "steward_pull_request \<Rightarrow> steward_policy \<Rightarrow> (u64 \<times> u32) list
     \<Rightarrow> string list \<times> string list \<times> u64 list" where
  "bucket_required_checks pr p tries =
     (let bs = map (check_bucket_of pr p tries) (selected_checks pr p);
          waiting = List.map_filter (\<lambda>b. case b of BucketWaiting c \<Rightarrow> Some c | _ \<Rightarrow> None) bs;
          failed = List.map_filter (\<lambda>b. case b of BucketFailed c \<Rightarrow> Some c | _ \<Rightarrow> None) bs;
          approval = List.map_filter (\<lambda>b. case b of BucketApproval c \<Rightarrow> Some c | _ \<Rightarrow> None) bs;
          transient = sort_dedup (List.map_filter (\<lambda>b. case b of BucketTransient r \<Rightarrow> Some r | _ \<Rightarrow> None) bs)
      in (if failed = [] then waiting @ approval else waiting, failed, transient))"

section \<open>Labels and management\<close>

definition has_pr_label :: "steward_pull_request \<Rightarrow> string \<Rightarrow> bool" where
  "has_pr_label pr expected = list_ex (\<lambda>l. eq_ignore_ascii_case l expected) (spr_labels pr)"

definition excluded_admission_label :: "string list \<Rightarrow> string option" where
  "excluded_admission_label labels =
     find (\<lambda>l. eq_ignore_ascii_case l ''owner-decision'' \<or> eq_ignore_ascii_case l ''superseded''
        \<or> prefix ''parked/'' (to_ascii_lowercase l)) labels"

definition matching_provenance_blockers :: "steward_pull_request \<Rightarrow> steward_policy \<Rightarrow> string list" where
  "matching_provenance_blockers pr p = filter (has_pr_label pr) (sp_provenance_blocking_labels p)"

definition classify_provenance :: "steward_pull_request \<Rightarrow> steward_policy \<Rightarrow> steward_decision option" where
  "classify_provenance pr p =
     (let labels = matching_provenance_blockers pr p
      in if labels \<noteq> [] then Some (ProvenanceBlocked labels) else None)"

definition classify_label_exclusion ::
  "steward_pull_request \<Rightarrow> steward_policy \<Rightarrow> steward_decision option" where
  "classify_label_exclusion pr p =
     (if has_pr_label pr (sp_opt_out_label p) then Some OptedOut
      else map_option ExcludedLabel (excluded_admission_label (spr_labels pr)))"

definition is_fleet_app :: "string \<Rightarrow> bool" where
  "is_fleet_app author =
     eq_ignore_ascii_case (unwrap_or (strip_prefix ''app/'' author) author) ''shipyard-local''"

definition is_implicitly_managed :: "steward_pull_request \<Rightarrow> bool" where
  "is_implicitly_managed pr = is_some_and (spr_author pr) is_fleet_app"

definition classify_management :: "steward_pull_request \<Rightarrow> steward_policy \<Rightarrow> steward_decision option" where
  "classify_management pr p = (case sp_managed_label p of
       None \<Rightarrow> None
     | Some label \<Rightarrow>
         let labelled = has_pr_label pr label
         in if is_implicitly_managed pr \<and> \<not> labelled then None
            else if \<not> labelled then Some Unmanaged
            else if \<not> has_successful_status pr (sp_handoff_context p) then Some HandoffMissing
            else None)"

section \<open>Classification\<close>

definition classify_green ::
  "steward_pull_request \<Rightarrow> steward_policy \<Rightarrow> string \<Rightarrow> steward_decision" where
  "classify_green pr p merge_state =
     (if \<not> sp_merge_queue p \<and> merge_state \<noteq> ''CLEAN''
      then WaitingRequired [''github-merge-state:CLEAN (current='' @ merge_state @ '')'']
      else if sp_merge_queue p \<or> server_enforced_exact_head_merge p
      then unwrap_or (approval_status_refusal pr p) ArmMergeQueue
      else DirectMergeRefused [ValidatedBaseRevisionNotAtomic])"

definition classify_checks ::
  "steward_pull_request \<Rightarrow> steward_policy \<Rightarrow> (u64 \<times> u32) list \<Rightarrow> string \<Rightarrow> steward_decision" where
  "classify_checks pr p tries merge_state =
     (let (waiting, failed, transient) = bucket_required_checks pr p tries
      in if waiting \<noteq> [] then WaitingRequired (sort_dedup waiting)
         else if failed \<noteq> [] then RequiredFailed (sort_dedup failed)
         else if transient \<noteq> [] then RerunTransient transient
         else classify_green pr p merge_state)"

definition classify_pr ::
  "steward_pull_request \<Rightarrow> steward_policy \<Rightarrow> (u64 \<times> u32) list \<Rightarrow> steward_decision" where
  "classify_pr pr p tries =
     (case classify_provenance pr p of Some d \<Rightarrow> d | None \<Rightarrow>
      case classify_label_exclusion pr p of Some d \<Rightarrow> d | None \<Rightarrow>
      case classify_management pr p of Some d \<Rightarrow> d | None \<Rightarrow>
      case spr_queue_position pr of Some position \<Rightarrow> StewardQueued position | None \<Rightarrow>
      if spr_draft pr then Draft
      else if \<not> is_full_sha (spr_head_sha pr) then InvalidHead
      else let merge_state = to_ascii_uppercase (spr_merge_state pr)
        in if merge_state \<in> {''DIRTY'', ''CONFLICTING''} \<or> (\<not> sp_merge_queue p \<and> merge_state = ''BEHIND'')
           then NeedsUpdate (spr_merge_state pr)
           else if sp_required_checks p = [] then
             (if sp_merge_queue p then WaitingRequired [''authoritative-required-check-policy'']
              else DirectMergeRefused [RequiredCheckMaterializationNotAuthoritative,
                                       ValidatedBaseRevisionNotAtomic])
           else classify_checks pr p tries merge_state)"

definition arm_survives_queue_state :: "steward_decision \<Rightarrow> internal_enqueue_verdict \<Rightarrow> bool" where
  "arm_survives_queue_state d v = (d = ArmMergeQueue \<and> v = EnqueueAdmit)"

section \<open>Runs, jobs and the preemption vocabulary\<close>

record steward_job =
  sj_id :: u64
  sj_name :: string
  sj_status :: string
  sj_conclusion :: "string option"
  sj_labels :: "string list"
  sj_runner_name :: "string option"

record steward_run =
  sr_id :: u64
  sr_workflow_id :: u64
  sr_run_attempt :: u64
  sr_workflow :: string
  sr_head_sha :: string
  sr_head_branch :: string
  sr_status :: string
  sr_event :: string
  sr_pull_request_number :: "u64 option"
  sr_created_at :: string
  sr_jobs :: "steward_job list"

datatype run_cancellation_reason =
    DuplicateImmutableHead
  | SupersededPullRequestHead
  | SupersededMergeGroupHead
  | AdvisoryPreambleCapacityTheft
  | LowerPriorityBranchPreamble

record run_cancellation =
  rcn_run_id :: u64
  rcn_reason :: run_cancellation_reason

record queue_front_pressure =
  qfp_head_sha :: string
  qfp_old_enough :: bool

record capacity_preemption_policy =
  advisory_workflows :: "string list"
  preamble_labels :: "string list"
  expensive_label_prefixes :: "string list"
  known_hosted_labels :: "string list"

definition preemption_disabled :: capacity_preemption_policy where
  "preemption_disabled = \<lparr>advisory_workflows = [], preamble_labels = [],
     expensive_label_prefixes = [], known_hosted_labels = []\<rparr>"

definition preemption_pulp :: capacity_preemption_policy where
  "preemption_pulp = \<lparr>
     advisory_workflows = [''Example validation'', ''GPU Web Plugins'',
       ''Intel portability (advisory)'', ''IWYU advisory'', ''macOS Cross (advisory)''],
     preamble_labels = [''pulp-preamble''],
     expensive_label_prefixes = [''pulp-build''],
     known_hosted_labels = [''ubuntu-latest'', ''ubuntu-24.04'', ''ubuntu-22.04'', ''windows-latest'',
       ''windows-2025'', ''windows-2022'', ''macos-latest'', ''macos-15'', ''macos-14'', ''macos-13'']\<rparr>"

definition preemption_for_repository :: "string \<Rightarrow> capacity_preemption_policy" where
  "preemption_for_repository repo =
     (if eq_ignore_ascii_case repo ''Generous-Corp/pulp'' then preemption_pulp else preemption_disabled)"

definition preemption_is_enabled :: "capacity_preemption_policy \<Rightarrow> bool" where
  "preemption_is_enabled p = (preamble_labels p \<noteq> [] \<and> advisory_workflows p \<noteq> [])"

definition workflow_is_advisory :: "capacity_preemption_policy \<Rightarrow> string \<Rightarrow> bool" where
  "workflow_is_advisory p workflow = (workflow \<in> set (advisory_workflows p))"

definition has_label :: "steward_job \<Rightarrow> string \<Rightarrow> bool" where
  "has_label j expected = list_ex (\<lambda>l. eq_ignore_ascii_case l expected) (sj_labels j)"

definition job_uses_preamble :: "capacity_preemption_policy \<Rightarrow> steward_job \<Rightarrow> bool" where
  "job_uses_preamble p j = list_ex (has_label j) (preamble_labels p)"

definition job_is_expensive :: "capacity_preemption_policy \<Rightarrow> steward_job \<Rightarrow> bool" where
  "job_is_expensive p j = list_ex (\<lambda>l. list_ex (\<lambda>pre. eq_ignore_ascii_case l pre
     \<or> prefix (to_ascii_lowercase pre @ ''-'') (to_ascii_lowercase l)) (expensive_label_prefixes p)) (sj_labels j)"

definition job_is_known_hosted :: "capacity_preemption_policy \<Rightarrow> steward_job \<Rightarrow> bool" where
  "job_is_known_hosted p j =
     (length (sj_labels j) = 1 \<and> list_ex (\<lambda>l. l \<in> set (known_hosted_labels p)) (sj_labels j))"

definition is_waiting :: "string \<Rightarrow> bool" where
  "is_waiting status = (to_ascii_lowercase status \<in> {''queued'', ''waiting'', ''pending'', ''requested''})"

definition is_nonterminal :: "string \<Rightarrow> bool" where
  "is_nonterminal status =
     (to_ascii_lowercase status \<in> {''queued'', ''waiting'', ''pending'', ''requested'', ''in_progress''})"

definition expensive_leg_started :: "capacity_preemption_policy \<Rightarrow> steward_job \<Rightarrow> bool" where
  "expensive_leg_started p j =
     (job_is_expensive p j \<and> \<not> is_waiting (sj_status j)
      \<and> \<not> (sj_status j = ''completed'' \<and> sj_conclusion j = Some ''skipped''))"

definition unknown_active_job :: "capacity_preemption_policy \<Rightarrow> steward_job \<Rightarrow> bool" where
  "unknown_active_job p j =
     (if \<not> is_nonterminal (sj_status j) \<or> job_uses_preamble p j \<or> job_is_expensive p j
         \<or> job_is_known_hosted p j then False else True)"

section \<open>Capacity preemption\<close>

definition queue_front_waits_for_pool ::
  "steward_run list \<Rightarrow> string \<Rightarrow> capacity_preemption_policy \<Rightarrow> bool" where
  "queue_front_waits_for_pool runs head p =
     (is_full_sha head \<and> list_ex (\<lambda>r. sr_event r = ''merge_group'' \<and> eq_ignore_ascii_case (sr_head_sha r) head
        \<and> list_ex (\<lambda>j. is_waiting (sj_status j) \<and> (job_uses_preamble p j \<or> job_is_expensive p j))
            (sr_jobs r)) runs)"

definition preemption_reason ::
  "steward_run \<Rightarrow> u64 set \<Rightarrow> capacity_preemption_policy \<Rightarrow> run_cancellation_reason option" where
  "preemption_reason r opted_out p =
     (if sr_event r \<noteq> ''pull_request'' \<or> \<not> eq_ignore_ascii_case (sr_status r) ''in_progress''
         \<or> \<not> is_full_sha (sr_head_sha r) then None
      else case sr_pull_request_number r of
        None \<Rightarrow> None
      | Some n \<Rightarrow>
          if n \<in> opted_out then None
          else let running_preamble = list_ex (\<lambda>j. eq_ignore_ascii_case (sj_status j) ''in_progress''
                     \<and> job_uses_preamble p j) (sr_jobs r)
            in if \<not> running_preamble
                  \<or> list_ex (\<lambda>j. expensive_leg_started p j \<or> unknown_active_job p j) (sr_jobs r)
               then None
               else if workflow_is_advisory p (sr_workflow r) then Some AdvisoryPreambleCapacityTheft
               else None)"

definition is_safe_capacity_preemption ::
  "steward_run \<Rightarrow> u64 set \<Rightarrow> capacity_preemption_policy \<Rightarrow> run_cancellation_reason \<Rightarrow> bool" where
  "is_safe_capacity_preemption r opted_out p expected =
     (preemption_reason r opted_out p = Some expected)"

definition preemption_key :: "steward_run \<Rightarrow> string" where
  "preemption_key r = to_ascii_lowercase (sr_workflow r) @ '':'' @ to_ascii_lowercase (sr_head_sha r)"

fun preemption_rank :: "run_cancellation_reason \<Rightarrow> nat" where
  "preemption_rank AdvisoryPreambleCapacityTheft = 0"
| "preemption_rank LowerPriorityBranchPreamble = 1"
| "preemption_rank _ = 2"

definition preemption_candidates ::
  "steward_run list \<Rightarrow> u64 set \<Rightarrow> capacity_preemption_policy \<Rightarrow> string set
     \<Rightarrow> (steward_run \<times> run_cancellation_reason) list" where
  "preemption_candidates runs opted_out p attempted =
     List.map_filter (\<lambda>r. case preemption_reason r opted_out p of
         None \<Rightarrow> None
       | Some reason \<Rightarrow> if preemption_key r \<in> attempted then None else Some (r, reason)) runs"

definition plan_capacity_preemptions ::
  "steward_run list \<Rightarrow> u64 set \<Rightarrow> capacity_preemption_policy \<Rightarrow> queue_front_pressure \<Rightarrow> string set \<Rightarrow> nat
     \<Rightarrow> run_cancellation list" where
  "plan_capacity_preemptions runs opted_out p pressure attempted max_preemptions =
     (if \<not> preemption_is_enabled p \<or> max_preemptions = 0 \<or> \<not> qfp_old_enough pressure
         \<or> \<not> is_full_sha (qfp_head_sha pressure) then []
      else if \<not> queue_front_waits_for_pool runs (qfp_head_sha pressure) p then []
      else map (\<lambda>(r, reason). \<lparr>rcn_run_id = sr_id r, rcn_reason = reason\<rparr>)
        (take (min max_preemptions 1)
          (sort_by (\<lambda>(l, lr) (r, rr). then_with (cmp (preemption_rank lr) (preemption_rank rr))
              (then_with (cmp (sr_created_at l) (sr_created_at r)) (cmp (sr_id l) (sr_id r))))
            (preemption_candidates runs opted_out p attempted))))"

section \<open>Coalescing\<close>

definition merge_group_pr :: "string \<Rightarrow> u64 option" where
  "merge_group_pr branch =
     Option.bind (strip_prefix ''gh-readonly-queue/'' branch) (\<lambda>rest.
       Option.bind (rsplit_once ''/pr-'' rest) (\<lambda>(_, tail).
         parse_u64 (takeWhile (\<lambda>c. c \<noteq> CHR ''-'') tail)))"

text \<open>\<open>split(\<dots>).nth(1)\<close>: the text between the first match and the second, if any.\<close>

definition job_id_from_url :: "string \<Rightarrow> u64 option" where
  "job_id_from_url url =
     Option.bind (split_once ''/job/'' url) (\<lambda>(_, rest).
       let tail = (case split_once ''/job/'' rest of None \<Rightarrow> rest | Some (b, _) \<Rightarrow> b)
       in parse_u64 (takeWhile (\<lambda>c. c \<noteq> CHR ''/'' \<and> c \<noteq> CHR ''?'' \<and> c \<noteq> CHR ''#'') tail))"

definition run_pull_request_number :: "steward_run \<Rightarrow> u64 option" where
  "run_pull_request_number r =
     option_or (sr_pull_request_number r)
       (if sr_event r = ''merge_group'' then merge_group_pr (sr_head_branch r) else None)"

definition superseded_by :: "(u64 \<times> string) list \<Rightarrow> u64 \<Rightarrow> steward_run \<Rightarrow> bool" where
  "superseded_by heads n r =
     is_some_and (bt_get heads n) (\<lambda>current. is_full_sha current
       \<and> \<not> eq_ignore_ascii_case current (sr_head_sha r))"

definition coalescing_step ::
  "(u64 \<times> string) list \<Rightarrow> (u64 \<times> string) list \<Rightarrow> u64 set \<Rightarrow> steward_run
     \<Rightarrow> (u64 \<times> run_cancellation_reason) list \<Rightarrow> (u64 \<times> run_cancellation_reason) list" where
  "coalescing_step pr_heads group_heads opted_out r reasons =
     (if \<not> eq_ignore_ascii_case (sr_status r) ''queued'' \<or> \<not> is_full_sha (sr_head_sha r) then reasons
      else case run_pull_request_number r of
        None \<Rightarrow> reasons
      | Some n \<Rightarrow>
          if n \<in> opted_out then reasons
          else if sr_event r = ''pull_request'' \<and> superseded_by pr_heads n r
          then bt_insert (sr_id r) SupersededPullRequestHead reasons
          else if sr_event r = ''merge_group'' \<and> superseded_by group_heads n r
          then bt_insert (sr_id r) SupersededMergeGroupHead reasons
          else reasons)"

definition plan_run_coalescing ::
  "steward_run list \<Rightarrow> (u64 \<times> string) list \<Rightarrow> (u64 \<times> string) list \<Rightarrow> u64 set \<Rightarrow> run_cancellation list" where
  "plan_run_coalescing runs pr_heads group_heads opted_out =
     map (\<lambda>(i, reason). \<lparr>rcn_run_id = i, rcn_reason = reason\<rparr>)
       (fold (coalescing_step pr_heads group_heads opted_out) runs [])"

definition coalescing_reason_authorizes :: "run_cancellation_reason \<Rightarrow> bool" where
  "coalescing_reason_authorizes reason =
     (reason \<in> {SupersededPullRequestHead, SupersededMergeGroupHead})"

section \<open>The buckets\<close>

lemma check_bucket_green:
  "check_bucket_of pr p tries (context, chk) = BucketGreen \<longleftrightarrow>
     is_some_and chk (\<lambda>c. completed_status (sc_status c) \<and> good_conclusion c
       \<and> \<not> (approval_status_pending pr p \<and> eq_ignore_ascii_case (sc_name c) (trim (sp_approval_context p))))"
  by (auto simp: check_bucket_of_def is_some_and_def split: option.splits)

lemma buckets_all_green:
  assumes "bucket_required_checks pr p tries = (w, f, t)"
  shows "w = [] \<and> f = [] \<and> t = [] \<longleftrightarrow>
     list_all (\<lambda>e. check_bucket_of pr p tries e = BucketGreen) (selected_checks pr p)"
proof -
  have "b = BucketGreen \<longleftrightarrow> (\<forall>c. b \<noteq> BucketWaiting c) \<and> (\<forall>c. b \<noteq> BucketApproval c)
      \<and> (\<forall>r. b \<noteq> BucketTransient r) \<and> (\<forall>c. b \<noteq> BucketFailed c)" for b
    by (cases b) auto
  then show ?thesis
    using assms
    by (auto simp: bucket_required_checks_def Let_def map_filter_Nil_iff list_all_iff
        split: if_splits check_bucket.splits)
qed

text \<open>A required check that carries the approval context's name while its verdict is pending.\<close>

definition approval_verdict_awaited :: "steward_pull_request \<Rightarrow> steward_policy \<Rightarrow> bool" where
  "approval_verdict_awaited pr p =
     (approval_status_pending pr p
      \<and> list_ex (\<lambda>r. is_some_and (selected_required_check (spr_checks pr) r)
          (\<lambda>c. eq_ignore_ascii_case (sc_name c) (trim (sp_approval_context p)))) (sp_required_checks p))"

lemma all_green_iff:
  "list_all (\<lambda>e. check_bucket_of pr p tries e = BucketGreen) (selected_checks pr p)
     \<and> sp_required_checks p \<noteq> [] \<longleftrightarrow>
   required_checks_all_succeeded pr p \<and> \<not> approval_verdict_awaited pr p"
  unfolding required_checks_all_succeeded_def required_checks_green_def approval_verdict_awaited_def
    selected_checks_def list_all_iff list_ex_iff
  by (auto simp: check_bucket_green is_some_and_def split: option.splits)

lemma classify_checks_arm:
  "classify_checks pr p tries ms = ArmMergeQueue \<longleftrightarrow>
     list_all (\<lambda>e. check_bucket_of pr p tries e = BucketGreen) (selected_checks pr p)
     \<and> (sp_merge_queue p \<or> server_enforced_exact_head_merge p \<and> ms = ''CLEAN''
          \<and> approval_status_agrees pr p)"
proof -
  obtain w f t where b: "bucket_required_checks pr p tries = (w, f, t)" by (metis prod_cases3)
  have green: "classify_green pr p ms = ArmMergeQueue \<longleftrightarrow>
      sp_merge_queue p \<or> server_enforced_exact_head_merge p \<and> ms = ''CLEAN''
          \<and> approval_status_agrees pr p"
    by (auto simp: classify_green_def approval_status_refusal_def unwrap_or_def Let_def
        server_enforced_exact_head_merge_def)
  show ?thesis
    using buckets_all_green [OF b] by (auto simp: classify_checks_def b green)
qed

lemma gates_open:
  "classify_provenance pr p = None \<longleftrightarrow>
     list_all (\<lambda>l. \<not> has_pr_label pr l) (sp_provenance_blocking_labels p)"
  "classify_label_exclusion pr p = None \<longleftrightarrow> \<not> has_pr_label pr (sp_opt_out_label p)
     \<and> excluded_admission_label (spr_labels pr) = None"
  "classify_management pr p = None \<longleftrightarrow> (case sp_managed_label p of
       None \<Rightarrow> True
     | Some l \<Rightarrow> if has_pr_label pr l then has_successful_status pr (sp_handoff_context p)
         else is_implicitly_managed pr)"
  by (auto simp: classify_provenance_def matching_provenance_blockers_def filter_empty_conv
      list_all_iff Let_def classify_label_exclusion_def classify_management_def split: option.splits)

lemma gates_never_arm:
  "classify_provenance pr p \<noteq> Some ArmMergeQueue" "classify_provenance pr p \<noteq> Some (RerunTransient ids)"
  "classify_label_exclusion pr p \<noteq> Some ArmMergeQueue"
  "classify_label_exclusion pr p \<noteq> Some (RerunTransient ids)"
  "classify_management pr p \<noteq> Some ArmMergeQueue" "classify_management pr p \<noteq> Some (RerunTransient ids)"
  by (auto simp: classify_provenance_def classify_label_exclusion_def classify_management_def Let_def
      split: option.splits)

section \<open>Properties of the steward\<close>

text \<open>
  (C8) Exactly when a head is armed: no provenance blocker, opt-out or hold label; management by
  a handed-off label or the fleet's own author; not queued, not a draft, a full SHA, no
  conflict; every required rule decided by a completed check with a good conclusion and no
  awaited approval verdict; and either a merge queue, or a server-enforced exact-head merge that
  is clean and whose approval status agrees.
\<close>

theorem arm_merge_queue_iff:
  "classify_pr pr p tries = ArmMergeQueue \<longleftrightarrow>
     list_all (\<lambda>l. \<not> has_pr_label pr l) (sp_opt_out_label p # sp_provenance_blocking_labels p)
     \<and> excluded_admission_label (spr_labels pr) = None
     \<and> (case sp_managed_label p of
          None \<Rightarrow> True
        | Some l \<Rightarrow> if has_pr_label pr l then has_successful_status pr (sp_handoff_context p)
            else is_implicitly_managed pr)
     \<and> spr_queue_position pr = None \<and> \<not> spr_draft pr \<and> is_full_sha (spr_head_sha pr)
     \<and> to_ascii_uppercase (spr_merge_state pr) \<notin> {''DIRTY'', ''CONFLICTING''}
     \<and> required_checks_all_succeeded pr p \<and> \<not> approval_verdict_awaited pr p
     \<and> (sp_merge_queue p \<or> server_enforced_exact_head_merge p
          \<and> to_ascii_uppercase (spr_merge_state pr) = ''CLEAN'' \<and> approval_status_agrees pr p)"
proof -
  let ?ms = "to_ascii_uppercase (spr_merge_state pr)"
  let ?tail = "(if spr_draft pr then Draft
      else if \<not> is_full_sha (spr_head_sha pr) then InvalidHead
      else let merge_state = ?ms
        in if merge_state \<in> {''DIRTY'', ''CONFLICTING''} \<or> (\<not> sp_merge_queue p \<and> merge_state = ''BEHIND'')
           then NeedsUpdate (spr_merge_state pr)
           else if sp_required_checks p = [] then
             (if sp_merge_queue p then WaitingRequired [''authoritative-required-check-policy'']
              else DirectMergeRefused [RequiredCheckMaterializationNotAuthoritative,
                                       ValidatedBaseRevisionNotAtomic])
           else classify_checks pr p tries merge_state)"
  have tail: "?tail = ArmMergeQueue \<longleftrightarrow> \<not> spr_draft pr \<and> is_full_sha (spr_head_sha pr)
      \<and> ?ms \<notin> {''DIRTY'', ''CONFLICTING''}
      \<and> required_checks_all_succeeded pr p \<and> \<not> approval_verdict_awaited pr p
      \<and> (sp_merge_queue p \<or> server_enforced_exact_head_merge p \<and> ?ms = ''CLEAN''
          \<and> approval_status_agrees pr p)"
    using all_green_iff [of pr p tries] by (auto simp: Let_def classify_checks_arm)
  have "classify_pr pr p tries = ArmMergeQueue \<longleftrightarrow> classify_provenance pr p = None
      \<and> classify_label_exclusion pr p = None \<and> classify_management pr p = None
      \<and> spr_queue_position pr = None \<and> ?tail = ArmMergeQueue"
    unfolding classify_pr_def
    by (cases "classify_provenance pr p"; cases "classify_label_exclusion pr p";
        cases "classify_management pr p"; cases "spr_queue_position pr")
       (use gates_never_arm [of pr p] in simp_all)
  then show ?thesis unfolding tail gates_open by auto
qed

lemma classify_pr_rerun:
  assumes "classify_pr pr p tries = RerunTransient ids"
  obtains w f where "bucket_required_checks pr p tries = ([], [], ids)" "ids \<noteq> []"
proof -
  from assms gates_never_arm [of pr p] have "classify_checks pr p tries (to_ascii_uppercase (spr_merge_state pr)) = RerunTransient ids"
    by (auto simp: classify_pr_def Let_def split: option.splits if_splits)
  moreover have "classify_green pr p ms \<noteq> RerunTransient ids" for ms
    by (auto simp: classify_green_def approval_status_refusal_def unwrap_or_def Let_def)
  ultimately show ?thesis
    using that by (auto simp: classify_checks_def split: prod.splits if_splits)
qed

lemma transient_bucket:
  assumes "check_bucket_of pr p tries (context, chk) = BucketTransient i"
  shows "\<exists>c. chk = Some c \<and> completed_status (sc_status c) \<and> sc_run_id c = Some i
     \<and> to_ascii_uppercase (unwrap_or (sc_conclusion c) []) = ''CANCELLED''
     \<and> unwrap_or (bt_get tries i) 0 = 0 \<and> sp_max_transient_reruns p \<noteq> 0"
proof -
  have "n = 0 \<and> b \<noteq> 0" if "n < clamp_rerun_budget b" for n b :: u32
    using that by (auto simp: clamp_rerun_budget_def rerun_budget_def split: if_splits)
  with assms show ?thesis
    by (auto simp: check_bucket_of_def transient_run_def is_transient_conclusion_def
        split: option.splits if_splits)
qed

text \<open>
  A rerun is proposed only for interruptions: when the steward proposes reruns, nothing is
  waiting and nothing failed, and each named run decides a required rule by a completed check
  that was cancelled and whose run has not been rerun before; reruns must be enabled, and no
  configured value raises the budget above one attempt.
\<close>

theorem rerun_only_unattempted_cancellations:
  assumes "classify_pr pr p tries = RerunTransient ids"
  shows "ids \<noteq> [] \<and> sorted ids \<and> distinct ids
     \<and> list_all (\<lambda>i. list_ex (\<lambda>r. is_some_and (selected_required_check (spr_checks pr) r) (\<lambda>c.
            completed_status (sc_status c) \<and> sc_run_id c = Some i
            \<and> to_ascii_uppercase (unwrap_or (sc_conclusion c) []) = ''CANCELLED''))
          (sp_required_checks p)
        \<and> unwrap_or (bt_get tries i) 0 = 0 \<and> sp_max_transient_reruns p \<noteq> 0) ids
     \<and> list_all (\<lambda>e. case check_bucket_of pr p tries e of
          BucketGreen \<Rightarrow> True | BucketTransient i \<Rightarrow> i \<in> set ids | _ \<Rightarrow> False) (selected_checks pr p)"
proof -
  from assms obtain b: "bucket_required_checks pr p tries = ([], [], ids)" and ne: "ids \<noteq> []"
    by (rule classify_pr_rerun) blast
  let ?bs = "map (check_bucket_of pr p tries) (selected_checks pr p)"
  let ?runs = "List.map_filter (\<lambda>b. case b of BucketTransient r \<Rightarrow> Some r | _ \<Rightarrow> None) ?bs"
  have ids: "ids = sort_dedup ?runs" using b by (simp add: bucket_required_checks_def Let_def split: if_splits)
  have mem: "i \<in> set ids \<longleftrightarrow> BucketTransient i \<in> set ?bs" for i
  proof -
    have "(case b of BucketTransient r \<Rightarrow> Some r | _ \<Rightarrow> None) = Some i \<longleftrightarrow> b = BucketTransient i" for b
      by (cases b) auto
    then show ?thesis by (simp add: ids set_map_filter_iff)
  qed
  have no: "BucketWaiting c \<notin> set ?bs" "BucketApproval c \<notin> set ?bs" "BucketFailed c \<notin> set ?bs" for c
  proof -
    have e: "\<forall>x \<in> set ?bs. (case x of BucketWaiting c \<Rightarrow> Some c | _ \<Rightarrow> None) = None"
      "\<forall>x \<in> set ?bs. (case x of BucketApproval c \<Rightarrow> Some c | _ \<Rightarrow> None) = None"
      "\<forall>x \<in> set ?bs. (case x of BucketFailed c \<Rightarrow> Some c | _ \<Rightarrow> None) = None"
      unfolding map_filter_Nil_iff [symmetric]
      using b by (simp_all add: bucket_required_checks_def Let_def split: if_splits)
    show "BucketWaiting c \<notin> set ?bs" "BucketApproval c \<notin> set ?bs" "BucketFailed c \<notin> set ?bs"
      using e(1) [THEN bspec, of "BucketWaiting c"] e(2) [THEN bspec, of "BucketApproval c"]
        e(3) [THEN bspec, of "BucketFailed c"] by auto
  qed
  have each: "list_ex (\<lambda>r. is_some_and (selected_required_check (spr_checks pr) r) (\<lambda>c.
            completed_status (sc_status c) \<and> sc_run_id c = Some i
            \<and> to_ascii_uppercase (unwrap_or (sc_conclusion c) []) = ''CANCELLED'')) (sp_required_checks p)
        \<and> unwrap_or (bt_get tries i) 0 = 0 \<and> sp_max_transient_reruns p \<noteq> 0" if "i \<in> set ids" for i
  proof -
    from that mem obtain r where r: "r \<in> set (sp_required_checks p)"
      "check_bucket_of pr p tries (required_check_label r, selected_required_check (spr_checks pr) r)
        = BucketTransient i"
      by (auto simp: selected_checks_def)
    from transient_bucket [OF r(2)] r(1) show ?thesis by (auto simp: list_ex_iff is_some_and_def intro!: bexI [of _ r])
  qed
  have rest: "case check_bucket_of pr p tries e of
          BucketGreen \<Rightarrow> True | BucketTransient i \<Rightarrow> i \<in> set ids | _ \<Rightarrow> False"
    if "e \<in> set (selected_checks pr p)" for e
  proof -
    define S where "S = set ?bs"
    have "check_bucket_of pr p tries e \<in> S" using that by (simp add: S_def)
    with no [folded S_def] mem [folded S_def] show ?thesis
      by (cases "check_bucket_of pr p tries e") auto
  qed
  from ne each rest show ?thesis
    using sorted_distinct_sort_dedup [of ?runs] by (simp add: ids list_all_iff)
qed

lemma coalescing_loop:
  assumes "bt_wf m"
  shows "bt_wf (fold (coalescing_step pr_heads group_heads opted_out) runs m)
     \<and> ((i, reason) \<in> set (fold (coalescing_step pr_heads group_heads opted_out) runs m) \<longrightarrow>
        (i, reason) \<in> set m \<or> (\<exists>r \<in> set runs. \<exists>n. sr_id r = i
          \<and> eq_ignore_ascii_case (sr_status r) ''queued'' \<and> is_full_sha (sr_head_sha r)
          \<and> run_pull_request_number r = Some n \<and> n \<notin> opted_out
          \<and> (sr_event r = ''pull_request'' \<and> superseded_by pr_heads n r \<and> reason = SupersededPullRequestHead
             \<or> sr_event r = ''merge_group'' \<and> superseded_by group_heads n r
               \<and> reason = SupersededMergeGroupHead)))"
  using assms
proof (induction runs arbitrary: m)
  case (Cons r runs)
  let ?m = "coalescing_step pr_heads group_heads opted_out r m"
  have wf: "bt_wf ?m"
    using Cons.prems by (auto simp: coalescing_step_def bt_wf_insert split: option.splits)
  have insert_mem: "(i, reason) \<in> set (bt_insert k v m) \<Longrightarrow> (i, reason) \<in> set m \<or> i = k \<and> reason = v" for k v
    using bt_get_Some_iff [OF bt_wf_insert [OF Cons.prems], of k v] bt_get_Some_iff [OF Cons.prems]
      bt_get_insert [OF Cons.prems, of k v]
    by (metis fun_upd_apply option.inject)
  have one: "(i, reason) \<in> set ?m \<Longrightarrow> (i, reason) \<in> set m \<or> (\<exists>n. sr_id r = i
      \<and> eq_ignore_ascii_case (sr_status r) ''queued'' \<and> is_full_sha (sr_head_sha r)
      \<and> run_pull_request_number r = Some n \<and> n \<notin> opted_out
      \<and> (sr_event r = ''pull_request'' \<and> superseded_by pr_heads n r \<and> reason = SupersededPullRequestHead
         \<or> sr_event r = ''merge_group'' \<and> superseded_by group_heads n r
           \<and> reason = SupersededMergeGroupHead))"
    by (auto simp: coalescing_step_def dest!: insert_mem split: option.splits if_splits)
  from Cons.IH [OF wf] one show ?case by (simp only: fold_simps list.set bex_simps) blast
qed simp

text \<open>
  Coalescing cancels only superseded heads: every planned cancellation is of a queued run
  with a full SHA, on a pull request that did not opt out, whose event is a pull request or a
  merge group and whose head differs from the known full current head of that kind; its reason
  is one that authorizes a cancellation, and no run is named twice. A run at the current head is
  therefore never cancelled.
\<close>

theorem coalescing_only_superseded:
  assumes "c \<in> set (plan_run_coalescing runs pr_heads group_heads opted_out)"
  shows "distinct (map rcn_run_id (plan_run_coalescing runs pr_heads group_heads opted_out))
     \<and> coalescing_reason_authorizes (rcn_reason c)
     \<and> (\<exists>r n current. r \<in> set runs \<and> sr_id r = rcn_run_id c
          \<and> eq_ignore_ascii_case (sr_status r) ''queued'' \<and> is_full_sha (sr_head_sha r)
          \<and> run_pull_request_number r = Some n \<and> n \<notin> opted_out
          \<and> bt_get (if sr_event r = ''pull_request'' then pr_heads else group_heads) n = Some current
          \<and> (sr_event r = ''pull_request'' \<or> sr_event r = ''merge_group'')
          \<and> is_full_sha current \<and> \<not> eq_ignore_ascii_case current (sr_head_sha r))"
proof -
  let ?m = "fold (coalescing_step pr_heads group_heads opted_out) runs []"
  note loop = coalescing_loop [of "[]" pr_heads group_heads opted_out runs]
  have "map rcn_run_id (plan_run_coalescing runs pr_heads group_heads opted_out) = map fst ?m"
    by (simp add: plan_run_coalescing_def comp_def split_beta)
  then have d: "distinct (map rcn_run_id (plan_run_coalescing runs pr_heads group_heads opted_out))"
    using bt_wf_distinct [of ?m] loop by simp
  from assms have "(rcn_run_id c, rcn_reason c) \<in> set ?m"
    by (auto simp: plan_run_coalescing_def)
  with loop [of "rcn_run_id c" "rcn_reason c"] obtain r n where
    r: "r \<in> set runs" "sr_id r = rcn_run_id c" "eq_ignore_ascii_case (sr_status r) ''queued''"
      "is_full_sha (sr_head_sha r)" "run_pull_request_number r = Some n" "n \<notin> opted_out"
      "sr_event r = ''pull_request'' \<and> superseded_by pr_heads n r \<and> rcn_reason c = SupersededPullRequestHead
       \<or> sr_event r = ''merge_group'' \<and> superseded_by group_heads n r
         \<and> rcn_reason c = SupersededMergeGroupHead" by auto
  then obtain current where "is_full_sha current" "\<not> eq_ignore_ascii_case current (sr_head_sha r)"
    "bt_get (if sr_event r = ''pull_request'' then pr_heads else group_heads) n = Some current"
    by (auto simp: superseded_by_def is_some_and_def split: option.splits)
  with r d show ?thesis by (auto simp: coalescing_reason_authorizes_def)
qed

lemma preemption_reason_Some:
  "preemption_reason r opted_out p = Some reason \<longleftrightarrow>
     reason = AdvisoryPreambleCapacityTheft \<and> sr_event r = ''pull_request''
     \<and> eq_ignore_ascii_case (sr_status r) ''in_progress'' \<and> is_full_sha (sr_head_sha r)
     \<and> (\<exists>n. sr_pull_request_number r = Some n \<and> n \<notin> opted_out)
     \<and> list_ex (\<lambda>j. eq_ignore_ascii_case (sj_status j) ''in_progress'' \<and> job_uses_preamble p j) (sr_jobs r)
     \<and> \<not> list_ex (\<lambda>j. expensive_leg_started p j \<or> unknown_active_job p j) (sr_jobs r)
     \<and> workflow_is_advisory p (sr_workflow r)"
  by (auto simp: preemption_reason_def Let_def split: option.splits)

text \<open>
  Preemption is bounded and advisory: a plan names at most one run, and only while the
  policy is enabled and the full-SHA queue front is old enough and has pool work waiting. The
  run is an in-progress pull-request run of an explicitly advisory workflow, of a pull request
  that did not opt out, with a running preamble job, no started expensive leg, no active job
  of unknown kind, and a workflow and head that were not attempted before.
\<close>

theorem preemption_bounded_and_advisory:
  assumes "c \<in> set (plan_capacity_preemptions runs opted_out p pressure attempted limit)"
  shows "plan_capacity_preemptions runs opted_out p pressure attempted limit = [c]
     \<and> preemption_is_enabled p \<and> qfp_old_enough pressure
     \<and> queue_front_waits_for_pool runs (qfp_head_sha pressure) p
     \<and> (\<exists>r n. r \<in> set runs \<and> sr_id r = rcn_run_id c \<and> rcn_reason c = AdvisoryPreambleCapacityTheft
          \<and> sr_event r = ''pull_request'' \<and> eq_ignore_ascii_case (sr_status r) ''in_progress''
          \<and> is_full_sha (sr_head_sha r) \<and> sr_pull_request_number r = Some n \<and> n \<notin> opted_out
          \<and> workflow_is_advisory p (sr_workflow r) \<and> preemption_key r \<notin> attempted
          \<and> list_ex (\<lambda>j. eq_ignore_ascii_case (sj_status j) ''in_progress'' \<and> job_uses_preamble p j) (sr_jobs r)
          \<and> \<not> list_ex (\<lambda>j. expensive_leg_started p j \<or> unknown_active_job p j) (sr_jobs r))"
proof -
  let ?cands = "preemption_candidates runs opted_out p attempted"
  let ?plan = "plan_capacity_preemptions runs opted_out p pressure attempted limit"
  have gates: "preemption_is_enabled p" "limit \<noteq> 0" "qfp_old_enough pressure"
    "queue_front_waits_for_pool runs (qfp_head_sha pressure) p"
    using assms by (auto simp: plan_capacity_preemptions_def split: if_splits)
  let ?rank = "\<lambda>(l, lr) (r, rr). then_with (cmp (preemption_rank lr) (preemption_rank rr))
              (then_with (cmp (sr_created_at l) (sr_created_at r)) (cmp (sr_id l) (sr_id r)))"
  obtain sorted where sorted: "sorted = sort_by ?rank ?cands" by simp
  have plan: "?plan = map (\<lambda>(r, reason). \<lparr>rcn_run_id = sr_id r, rcn_reason = reason\<rparr>) (take 1 sorted)"
    using assms unfolding sorted by (auto simp: plan_capacity_preemptions_def split: if_splits)
  have one: "?plan = [c]" using assms plan by (cases sorted) auto
  then obtain r reason where r: "(r, reason) \<in> set ?cands" "sr_id r = rcn_run_id c" "rcn_reason c = reason"
    using plan set_sort_by [of ?rank ?cands, folded sorted] by (cases sorted) (auto, blast)
  then have "r \<in> set runs" "preemption_reason r opted_out p = Some reason" "preemption_key r \<notin> attempted"
    by (auto simp: preemption_candidates_def set_map_filter_iff split: option.splits if_splits)
  with gates one r(2,3) show ?thesis by (auto simp: preemption_reason_Some)
qed

section \<open>Witnesses\<close>

definition sample_sha :: string where
  "sample_sha = replicate 40 CHR ''a''"

definition sample_check :: "string \<Rightarrow> steward_check" where
  "sample_check conclusion = \<lparr>sc_name = ''ci'', sc_source = CheckRun, sc_app_id = None,
     sc_status = ''COMPLETED'', sc_conclusion = Some conclusion, sc_run_id = Some 5,
     sc_observed_at = None, sc_check_id = Some 1\<rparr>"

definition sample_pr :: "string \<Rightarrow> steward_pull_request" where
  "sample_pr conclusion = \<lparr>spr_number = 7, spr_head_sha = sample_sha, spr_head_branch = ''topic'',
     spr_author = None, spr_draft = False, spr_merge_state = ''CLEAN'', spr_auto_merge_active = False,
     spr_queue_position = None, spr_labels = [], spr_checks = [sample_check conclusion]\<rparr>"

definition sample_policy :: steward_policy where
  "sample_policy = \<lparr>sp_merge_queue = True, sp_native_auto_merge = True, sp_approval_context = [],
     sp_required_checks = [\<lparr>rc_context = ''ci'', rc_app_id = None\<rparr>], sp_opt_out_label = ''hold'',
     sp_provenance_blocking_labels = [], sp_managed_label = None, sp_handoff_context = [],
     sp_max_transient_reruns = 9\<rparr>"

definition sample_run :: "string \<Rightarrow> string \<Rightarrow> string \<Rightarrow> steward_job list \<Rightarrow> steward_run" where
  "sample_run event status workflow jobs = \<lparr>sr_id = 5, sr_workflow_id = 1, sr_run_attempt = 1,
     sr_workflow = workflow, sr_head_sha = sample_sha, sr_head_branch = [], sr_status = status,
     sr_event = event, sr_pull_request_number = Some 7, sr_created_at = [], sr_jobs = jobs\<rparr>"

definition sample_job_on :: "string \<Rightarrow> steward_job" where
  "sample_job_on status = \<lparr>sj_id = 1, sj_name = ''pre'', sj_status = status, sj_conclusion = None,
     sj_labels = [''pulp-preamble''], sj_runner_name = None\<rparr>"

theorem rerun_only_unattempted_cancellations_witness:
  "classify_pr (sample_pr ''cancelled'') sample_policy [] = RerunTransient [5]
   \<and> sp_max_transient_reruns sample_policy \<noteq> 0"
proof -
  have "classify_pr (sample_pr ''cancelled'') sample_policy [] = RerunTransient [5]" by code_simp
  with rerun_only_unattempted_cancellations [OF this] show ?thesis by simp
qed

theorem coalescing_only_superseded_witness:
  "let plan = plan_run_coalescing [sample_run ''pull_request'' ''queued'' ''ci'' []]
       [(7, replicate 40 CHR ''b'')] [] {}
   in map rcn_run_id plan = [5] \<and> list_all (\<lambda>c. coalescing_reason_authorizes (rcn_reason c)) plan"
proof -
  let ?plan = "plan_run_coalescing [sample_run ''pull_request'' ''queued'' ''ci'' []]
       [(7, replicate 40 CHR ''b'')] [] {}"
  have "map rcn_run_id ?plan = [5]" by code_simp
  moreover have "\<forall>c \<in> set ?plan. coalescing_reason_authorizes (rcn_reason c)"
    using coalescing_only_superseded by blast
  ultimately show ?thesis by (simp add: Let_def list_all_iff)
qed

theorem preemption_bounded_and_advisory_witness:
  "let runs = [sample_run ''pull_request'' ''in_progress'' ''IWYU advisory'' [sample_job_on ''in_progress''],
               sample_run ''merge_group'' ''queued'' ''ci'' [sample_job_on ''queued'']]
   in plan_capacity_preemptions runs {} preemption_pulp \<lparr>qfp_head_sha = sample_sha, qfp_old_enough = True\<rparr> {} 3
        = [\<lparr>rcn_run_id = 5, rcn_reason = AdvisoryPreambleCapacityTheft\<rparr>]
      \<and> queue_front_waits_for_pool runs sample_sha preemption_pulp"
proof -
  let ?runs = "[sample_run ''pull_request'' ''in_progress'' ''IWYU advisory'' [sample_job_on ''in_progress''],
               sample_run ''merge_group'' ''queued'' ''ci'' [sample_job_on ''queued'']]"
  let ?f = "\<lparr>qfp_head_sha = sample_sha, qfp_old_enough = True\<rparr>"
  have "plan_capacity_preemptions ?runs {} preemption_pulp ?f {} 3
      = [\<lparr>rcn_run_id = 5, rcn_reason = AdvisoryPreambleCapacityTheft\<rparr>]" by code_simp
  with preemption_bounded_and_advisory [of "\<lparr>rcn_run_id = 5, rcn_reason = AdvisoryPreambleCapacityTheft\<rparr>"
      ?runs "{}" preemption_pulp ?f "{}" 3]
  show ?thesis by (simp add: Let_def)
qed

end
