(* ===== verification/Queue_Drain.thy ===== *)
theory Queue_Drain
  imports Merge_Steward
begin

text \<open>
  The backlog drain of \<open>src/src/queue_drain.rs\<close>: triage of active runs, the priority jump of one
  pull request, detection of unblocking pull requests, the restore ledger and the decision to
  resume a cancelled run. The lemmas show that triage and prioritisation only ever name
  pull-request runs outside the merge queue that satisfy every stated condition, that the ledger
  is a map from repository and run to entry, and when an entry is re-run.
\<close>

section \<open>Data\<close>

definition unblock_label :: string where
  "unblock_label = ''shipyard:unblock''"

definition fix_words :: "string list" where
  "fix_words = [''fix'', ''fixes'', ''fixed'', ''fixing'', ''unblock'', ''unblocks'', ''unblocked'',
     ''unblocking'', ''repair'', ''repairs'', ''repaired'', ''restore'', ''restores'', ''restored'',
     ''revert'', ''reverts'', ''reverted'']"

record drain_pull_request =
  dp_pr :: steward_pull_request
  dp_title :: string
  dp_body :: string

record drain_job =
  dj_id :: u64
  dj_name :: string
  dj_status :: string
  dj_labels :: "string list"
  dj_created_at :: string

datatype doom_reason =
    SupersededHead string
  | Conflicting string
  | RequiredCheckFailed "string list"

datatype run_verdict = Viable | Doomed doom_reason | NotPullRequest | InMergeQueue | Unattributed

record run_triage =
  tri_run_id :: u64
  tri_workflow :: string
  tri_status :: string
  tri_event :: string
  tri_pr_number :: "u64 option"
  tri_head_sha :: string
  tri_created_at :: string
  tri_verdict :: run_verdict
  tri_cancel :: bool

record drain_run =
  dr_run :: steward_run
  dr_jobs :: "drain_job list"

datatype prioritize_refusal =
    RefusedNotOpen | RefusedDraft | RefusedDoomed doom_reason | RefusedNothingWaiting | RefusedInMergeQueue

record yield_entry =
  yl_run_id :: u64
  yl_workflow :: string
  yl_pr_number :: "u64 option"
  yl_head_sha :: string
  yl_competing_jobs :: "string list"

record kept_ahead =
  ka_run_id :: u64
  ka_pr_number :: "u64 option"
  ka_reason :: string

record prioritize_plan =
  pp_pr_number :: u64
  pp_head_sha :: "string option"
  pp_refusal :: "prioritize_refusal option"
  pp_target_jobs :: "u64 list"
  pp_yields :: "yield_entry list"
  pp_kept :: "kept_ahead list"

section \<open>Triage\<close>

definition job_is_waiting :: "string \<Rightarrow> bool" where
  "job_is_waiting status = (to_ascii_lowercase status \<in> {''queued'', ''waiting'', ''pending'', ''requested''})"

definition run_is_active :: "string \<Rightarrow> bool" where
  "run_is_active status = (job_is_waiting status \<or> eq_ignore_ascii_case status ''in_progress'')"

fun may_cancel_doomed :: "doom_reason \<Rightarrow> string \<Rightarrow> bool" where
  "may_cancel_doomed (SupersededHead _) status = run_is_active status"
| "may_cancel_doomed (Conflicting _) status = run_is_active status"
| "may_cancel_doomed (RequiredCheckFailed _) status = job_is_waiting status"

definition pull_request_for_run ::
  "steward_run \<Rightarrow> drain_pull_request list \<Rightarrow> drain_pull_request option" where
  "pull_request_for_run run prs = (case sr_pull_request_number run of
       Some n \<Rightarrow> find (\<lambda>p. spr_number (dp_pr p) = n) prs
     | None \<Rightarrow> (case filter (\<lambda>p. sr_head_branch run \<noteq> [] \<and> spr_head_branch (dp_pr p) = sr_head_branch run) prs of
           [p] \<Rightarrow> Some p
         | _ \<Rightarrow> None))"

definition failed_required_contexts ::
  "steward_check list \<Rightarrow> required_check list \<Rightarrow> u64 option \<Rightarrow> string list" where
  "failed_required_contexts checks required ignore_run_id =
     sort_dedup (List.map_filter (\<lambda>r. case selected_required_check checks r of
         None \<Rightarrow> None
       | Some c \<Rightarrow>
           let terminal_failure = completed_status (sc_status c)
                 \<and> is_some_and (sc_conclusion c)
                     (\<lambda>s. to_ascii_uppercase s \<in> {''FAILURE'', ''ACTION_REQUIRED''});
               produced_by_ignored_run = (ignore_run_id \<noteq> None \<and> sc_run_id c = ignore_run_id)
           in if terminal_failure \<and> \<not> produced_by_ignored_run then Some (required_check_label r) else None)
       required)"

definition doom_reason_of ::
  "u64 option \<Rightarrow> string \<Rightarrow> drain_pull_request \<Rightarrow> required_check list \<Rightarrow> doom_reason option" where
  "doom_reason_of run_id run_head p required =
     (if is_full_sha (spr_head_sha (dp_pr p)) \<and> \<not> eq_ignore_ascii_case (spr_head_sha (dp_pr p)) run_head
      then Some (SupersededHead (spr_head_sha (dp_pr p)))
      else if to_ascii_uppercase (spr_merge_state (dp_pr p)) \<in> {''DIRTY'', ''CONFLICTING''}
      then Some (Conflicting (spr_merge_state (dp_pr p)))
      else let contexts = failed_required_contexts (spr_checks (dp_pr p)) required run_id
        in if contexts \<noteq> [] then Some (RequiredCheckFailed contexts) else None)"

definition is_pull_request_run :: "steward_run \<Rightarrow> bool" where
  "is_pull_request_run run =
     (sr_event run = ''pull_request'' \<and> \<not> prefix ''gh-readonly-queue/'' (sr_head_branch run))"

definition in_merge_queue :: "drain_pull_request \<Rightarrow> bool" where
  "in_merge_queue p = (spr_queue_position (dp_pr p) \<noteq> None)"

definition triage_verdict ::
  "drain_pull_request list \<Rightarrow> required_check list \<Rightarrow> steward_run \<Rightarrow> run_verdict" where
  "triage_verdict prs required run =
     (let p = (if is_pull_request_run run then pull_request_for_run run prs else None)
      in if \<not> is_pull_request_run run then NotPullRequest
         else if \<not> is_full_sha (sr_head_sha run) then Unattributed
         else if is_some_and p in_merge_queue then InMergeQueue
         else case p of
           Some q \<Rightarrow> (case doom_reason_of (Some (sr_id run)) (sr_head_sha run) q required of
               None \<Rightarrow> Viable | Some reason \<Rightarrow> Doomed reason)
         | None \<Rightarrow> Unattributed)"

definition triage_run ::
  "drain_pull_request list \<Rightarrow> required_check list \<Rightarrow> steward_run \<Rightarrow> run_triage" where
  "triage_run prs required run =
     (let p = (if is_pull_request_run run then pull_request_for_run run prs else None);
          verdict = triage_verdict prs required run
      in \<lparr>tri_run_id = sr_id run, tri_workflow = sr_workflow run, tri_status = sr_status run,
          tri_event = sr_event run, tri_pr_number = map_option (\<lambda>q. spr_number (dp_pr q)) p,
          tri_head_sha = sr_head_sha run, tri_created_at = sr_created_at run,
          tri_verdict = verdict,
          tri_cancel = (case verdict of Doomed reason \<Rightarrow> may_cancel_doomed reason (sr_status run)
                        | _ \<Rightarrow> False)\<rparr>)"

definition plan_triage ::
  "steward_run list \<Rightarrow> drain_pull_request list \<Rightarrow> required_check list \<Rightarrow> run_triage list" where
  "plan_triage runs prs required =
     sort_key tri_run_id (map (triage_run prs required) (filter (\<lambda>r. run_is_active (sr_status r)) runs))"

section \<open>Prioritisation\<close>

text \<open>\<open>parse_time\<close> is chrono's RFC 3339 parser.\<close>

definition queues_ahead :: "(string \<Rightarrow> time option) \<Rightarrow> drain_job \<Rightarrow> drain_job \<Rightarrow> bool" where
  "queues_ahead parse_time j target = (case (parse_time (dj_created_at j), parse_time (dj_created_at target)) of
       (Some a, Some b) \<Rightarrow> a < b
     | _ \<Rightarrow> False)"

definition labels_compete :: "drain_job \<Rightarrow> drain_job \<Rightarrow> bool" where
  "labels_compete l r =
     (let ls = to_ascii_lowercase ` set (dj_labels l); rs = to_ascii_lowercase ` set (dj_labels r)
      in if ls = {} \<or> rs = {} then False else ls \<subseteq> rs \<or> rs \<subseteq> ls)"

definition target_waiting_jobs ::
  "u64 \<Rightarrow> string \<Rightarrow> drain_run list \<Rightarrow> drain_pull_request list \<Rightarrow> drain_job list" where
  "target_waiting_jobs target head runs prs =
     filter (\<lambda>j. job_is_waiting (dj_status j)) (concat (map dr_jobs (filter (\<lambda>d.
       is_pull_request_run (dr_run d) \<and> eq_ignore_ascii_case (sr_head_sha (dr_run d)) head
       \<and> is_some_and (pull_request_for_run (dr_run d) prs) (\<lambda>p. spr_number (dp_pr p) = target)) runs)))"

definition competing_jobs ::
  "(string \<Rightarrow> time option) \<Rightarrow> drain_job list \<Rightarrow> drain_run \<Rightarrow> drain_job list" where
  "competing_jobs parse_time targets d =
     filter (\<lambda>j. list_ex (\<lambda>t. queues_ahead parse_time j t \<and> labels_compete j t) targets)
       (filter (\<lambda>j. job_is_waiting (dj_status j)) (dr_jobs d))"

definition prioritize_step ::
  "(string \<Rightarrow> time option) \<Rightarrow> u64 \<Rightarrow> drain_job list \<Rightarrow> drain_pull_request list \<Rightarrow> drain_run
     \<Rightarrow> prioritize_plan \<Rightarrow> prioritize_plan" where
  "prioritize_step parse_time target targets prs d plan =
     (let run = dr_run d
      in if \<not> is_pull_request_run run \<or> \<not> run_is_active (sr_status run) then plan
         else let owner_pr = pull_request_for_run run prs;
                  owner = map_option (\<lambda>p. spr_number (dp_pr p)) owner_pr
           in if owner = Some target then plan
              else let competing = map dj_name (competing_jobs parse_time targets d)
                in if competing = [] then plan
                   else if is_some_and owner_pr in_merge_queue
                   then plan\<lparr>pp_kept := pp_kept plan @ [\<lparr>ka_run_id = sr_id run, ka_pr_number = owner,
                     ka_reason = ''its pull request is in the merge queue''\<rparr>]\<rparr>
                   else if list_ex (\<lambda>j. eq_ignore_ascii_case (dj_status j) ''in_progress'') (dr_jobs d)
                   then plan\<lparr>pp_kept := pp_kept plan @ [\<lparr>ka_run_id = sr_id run, ka_pr_number = owner,
                     ka_reason = ''a job of this run is already in progress''\<rparr>]\<rparr>
                   else plan\<lparr>pp_yields := pp_yields plan @ [\<lparr>yl_run_id = sr_id run,
                     yl_workflow = sr_workflow run, yl_pr_number = owner, yl_head_sha = sr_head_sha run,
                     yl_competing_jobs = competing\<rparr>]\<rparr>)"

definition plan_prioritize ::
  "(string \<Rightarrow> time option) \<Rightarrow> u64 \<Rightarrow> drain_run list \<Rightarrow> drain_pull_request list \<Rightarrow> required_check list
     \<Rightarrow> prioritize_plan" where
  "plan_prioritize parse_time target runs prs required =
     (let plan = \<lparr>pp_pr_number = target, pp_head_sha = None, pp_refusal = None, pp_target_jobs = [],
            pp_yields = [], pp_kept = []\<rparr>
      in case find (\<lambda>p. spr_number (dp_pr p) = target) prs of
           None \<Rightarrow> plan\<lparr>pp_refusal := Some RefusedNotOpen\<rparr>
         | Some p \<Rightarrow>
             let head = spr_head_sha (dp_pr p); plan1 = plan\<lparr>pp_head_sha := Some head\<rparr>
             in if spr_draft (dp_pr p) then plan1\<lparr>pp_refusal := Some RefusedDraft\<rparr>
                else if in_merge_queue p then plan1\<lparr>pp_refusal := Some RefusedInMergeQueue\<rparr>
                else case doom_reason_of None head p required of
                    Some reason \<Rightarrow> plan1\<lparr>pp_refusal := Some (RefusedDoomed reason)\<rparr>
                  | None \<Rightarrow>
                      let targets = target_waiting_jobs target head runs prs
                      in if targets = [] then plan1\<lparr>pp_refusal := Some RefusedNothingWaiting\<rparr>
                         else let plan2 = fold (prioritize_step parse_time target targets prs) runs
                                    (plan1\<lparr>pp_target_jobs := map dj_id targets\<rparr>)
                           in plan2\<lparr>pp_yields := sort_key yl_run_id (pp_yields plan2),
                                    pp_kept := sort_key ka_run_id (pp_kept plan2)\<rparr>)"

section \<open>Unblocking pull requests\<close>

definition red_required_contexts :: "steward_check list \<Rightarrow> required_check list \<Rightarrow> string list" where
  "red_required_contexts base_checks required =
     sort_dedup (map rc_context (filter (\<lambda>r. is_some_and (selected_required_check base_checks r) (\<lambda>c.
       completed_status (sc_status c) \<and> is_some_and (sc_conclusion c)
         (\<lambda>s. to_ascii_uppercase s \<in> {''FAILURE'', ''ACTION_REQUIRED'', ''TIMED_OUT''}))) required))"

record unblock_candidate =
  uc_pr_number :: u64
  uc_evidence :: "string list"

definition has_fix_word :: "string \<Rightarrow> bool" where
  "has_fix_word text =
     list_ex (\<lambda>w. w \<in> set fix_words) (split_when (\<lambda>c. \<not> is_ascii_alphanumeric c) text)"

definition is_ident :: "char \<Rightarrow> bool" where
  "is_ident c = (is_ascii_alphanumeric c \<or> c = CHR ''-'' \<or> c = CHR ''_'')"

text \<open>
  \<open>match_indices\<close> yields the matches from left to right without overlap; \<open>prev\<close> is the
  character before the rest of the haystack.
\<close>

function bounded_match :: "char option \<Rightarrow> string \<Rightarrow> string \<Rightarrow> bool" where
  "bounded_match prev needle hay =
     (if needle = [] \<or> hay = [] then False
      else if prefix needle hay
      then (let rest = drop (length needle) hay
            in \<not> is_some_and prev is_ident
                 \<and> \<not> is_some_and (if rest = [] then None else Some (hd rest)) is_ident
               \<or> bounded_match (Some (last needle)) needle rest)
      else bounded_match (Some (hd hay)) needle (tl hay))"
  by pat_completeness auto
termination
  by (relation "measure (\<lambda>(_, _, hay). length hay)") (auto simp: Suc_diff_le)

declare bounded_match.simps [simp del]

definition contains_bounded :: "string \<Rightarrow> string \<Rightarrow> bool" where
  "contains_bounded haystack needle = (if needle = [] then False else bounded_match None needle haystack)"

definition unblock_evidence :: "drain_pull_request \<Rightarrow> string list \<Rightarrow> string list" where
  "unblock_evidence p red_contexts =
     (let labelled = (if has_pr_label (dp_pr p) unblock_label
            then [''label `'' @ unblock_label @ ''`''] else []);
          text = to_ascii_lowercase (dp_title p @ [CHR 0x0A] @ dp_body p)
      in labelled @ (if has_fix_word text
           then map (\<lambda>c. ''mentions red required check `'' @ c @ ''`'')
                  (filter (\<lambda>c. contains_bounded text (to_ascii_lowercase c)) red_contexts)
           else []))"

definition unblocking_candidates ::
  "drain_pull_request list \<Rightarrow> string list \<Rightarrow> required_check list \<Rightarrow> unblock_candidate list" where
  "unblocking_candidates prs red_contexts required =
     List.map_filter (\<lambda>p.
       if spr_draft (dp_pr p) \<or> doom_reason_of None (spr_head_sha (dp_pr p)) p required \<noteq> None then None
       else let evidence = unblock_evidence p red_contexts
         in if evidence \<noteq> [] then Some \<lparr>uc_pr_number = spr_number (dp_pr p), uc_evidence = evidence\<rparr>
            else None) prs"

section \<open>The restore ledger\<close>

datatype cancel_cause = CauseDoomed doom_reason | CauseYieldedTo u64

record restore_entry =
  re_repo :: string
  re_base :: string
  re_run_id :: u64
  re_workflow :: string
  re_pr_number :: u64
  re_head_sha :: string
  re_status_at_cancel :: string
  re_cause :: cancel_cause
  re_recorded_at :: string

record restore_ledger =
  rl_version :: u32
  rl_entries :: "(string \<times> restore_entry) list"

definition ledger_version :: u32 where
  "ledger_version = 1"

definition ledger_key :: "string \<Rightarrow> u64 \<Rightarrow> string" where
  "ledger_key repo run_id = to_ascii_lowercase repo @ ''#'' @ show_nat run_id"

definition ledger_record :: "restore_entry \<Rightarrow> restore_ledger \<Rightarrow> restore_ledger" where
  "ledger_record e l = l\<lparr>rl_version := ledger_version,
     rl_entries := bt_insert (ledger_key (re_repo e) (re_run_id e)) e (rl_entries l)\<rparr>"

definition ledger_remove ::
  "string \<Rightarrow> u64 \<Rightarrow> restore_ledger \<Rightarrow> restore_entry option \<times> restore_ledger" where
  "ledger_remove repo run_id l =
     (bt_get (rl_entries l) (ledger_key repo run_id),
      l\<lparr>rl_entries := bt_remove (ledger_key repo run_id) (rl_entries l)\<rparr>)"

definition ledger_for_repo :: "string \<Rightarrow> restore_ledger \<Rightarrow> restore_entry list" where
  "ledger_for_repo repo l =
     sort_key re_run_id (filter (\<lambda>e. eq_ignore_ascii_case (re_repo e) repo) (map snd (rl_entries l)))"

datatype resume_decision = Rerun | DropEntry string | KeepEntry doom_reason | HoldForMergeQueue

definition resume_decision_of ::
  "restore_entry \<Rightarrow> drain_pull_request list \<Rightarrow> required_check list \<Rightarrow> resume_decision" where
  "resume_decision_of e prs required = (case find (\<lambda>p. spr_number (dp_pr p) = re_pr_number e) prs of
       None \<Rightarrow> DropEntry ''pull request is no longer open on the base''
     | Some p \<Rightarrow> (case doom_reason_of (Some (re_run_id e)) (re_head_sha e) p required of
           None \<Rightarrow> if in_merge_queue p then HoldForMergeQueue else Rerun
         | Some (SupersededHead current) \<Rightarrow>
             DropEntry (''pull request advanced to '' @ current @ ''; its new head has its own runs'')
         | Some reason \<Rightarrow> KeepEntry reason))"

definition verify_live_run :: "restore_entry \<Rightarrow> steward_run \<Rightarrow> string option \<Rightarrow> string + unit" where
  "verify_live_run e live pr_head_branch =
     (if sr_id live \<noteq> re_run_id e
      then Inl (''live run is '' @ show_nat (sr_id live) @ '' but the entry names '' @ show_nat (re_run_id e))
      else if \<not> is_pull_request_run live
      then Inl (''run '' @ show_nat (sr_id live) @ '' is a `'' @ sr_event live @ ''` run on `''
             @ sr_head_branch live @ ''`, not pull-request CI'')
      else if \<not> is_full_sha (sr_head_sha live) \<or> \<not> eq_ignore_ascii_case (sr_head_sha live) (re_head_sha e)
      then Inl (''run '' @ show_nat (sr_id live) @ '' is at '' @ sr_head_sha live
             @ '', not the recorded head '' @ re_head_sha e)
      else let owned = (case sr_pull_request_number live of
                 Some n \<Rightarrow> n = re_pr_number e
               | None \<Rightarrow> is_some_and pr_head_branch (\<lambda>b. b = sr_head_branch live))
        in if \<not> owned
           then Inl (''run '' @ show_nat (sr_id live) @ '' does not belong to pull request #''
                  @ show_nat (re_pr_number e))
           else Inr ())"

section \<open>Properties of the drain\<close>

lemma triage_run_cancel:
  "tri_cancel (triage_run prs required run) \<longleftrightarrow>
     is_pull_request_run run \<and> is_full_sha (sr_head_sha run)
     \<and> (\<exists>p reason. pull_request_for_run run prs = Some p \<and> \<not> in_merge_queue p
          \<and> doom_reason_of (Some (sr_id run)) (sr_head_sha run) p required = Some reason
          \<and> may_cancel_doomed reason (sr_status run))"
  by (auto simp: triage_run_def triage_verdict_def is_some_and_def Let_def split: option.splits)

lemma pull_request_for_run_mem: "pull_request_for_run run prs = Some p \<Longrightarrow> p \<in> set prs"
proof (cases "sr_pull_request_number run")
  case None
  assume "pull_request_for_run run prs = Some p"
  then have "filter (\<lambda>p. sr_head_branch run \<noteq> [] \<and> spr_head_branch (dp_pr p) = sr_head_branch run) prs = [p]"
    using None by (auto simp: pull_request_for_run_def split: list.splits)
  then have "p \<in> set (filter (\<lambda>p. sr_head_branch run \<noteq> []
      \<and> spr_head_branch (dp_pr p) = sr_head_branch run) prs)" by simp
  then show ?thesis by simp
qed (auto simp: pull_request_for_run_def dest: find_SomeD)

lemma failed_required_contexts_Nil:
  "failed_required_contexts checks required ignored = [] \<longleftrightarrow>
     list_all (\<lambda>r. \<not> is_some_and (selected_required_check checks r) (\<lambda>c. completed_status (sc_status c)
        \<and> is_some_and (sc_conclusion c) (\<lambda>s. to_ascii_uppercase s \<in> {''FAILURE'', ''ACTION_REQUIRED''})
        \<and> \<not> (ignored \<noteq> None \<and> sc_run_id c = ignored))) required"
  by (auto simp: failed_required_contexts_def map_filter_Nil_iff list_all_iff is_some_and_def Let_def
      split: option.splits if_splits)

text \<open>
  (C40) Triage cancels only proven dead work: a run marked for cancellation is an active
  pull-request run at a full SHA, off any merge-queue branch, owned by an open pull request that
  holds no merge-queue entry, and that pull request has moved to another full head, conflicts
  with its base, or has a required check that completed as a failure in another run; on the
  last, weaker evidence only a run that has not started is cancelled.
\<close>

theorem triage_cancels_only_doomed:
  assumes "t \<in> set (plan_triage runs prs required)" and "tri_cancel t"
  shows "\<exists>run p. run \<in> set runs \<and> p \<in> set prs \<and> t = triage_run prs required run
     \<and> pull_request_for_run run prs = Some p
     \<and> sr_event run = ''pull_request'' \<and> \<not> prefix ''gh-readonly-queue/'' (sr_head_branch run)
     \<and> is_full_sha (sr_head_sha run) \<and> spr_queue_position (dp_pr p) = None
     \<and> (is_full_sha (spr_head_sha (dp_pr p))
           \<and> \<not> eq_ignore_ascii_case (spr_head_sha (dp_pr p)) (sr_head_sha run) \<and> run_is_active (sr_status run)
        \<or> to_ascii_uppercase (spr_merge_state (dp_pr p)) \<in> {''DIRTY'', ''CONFLICTING''}
           \<and> run_is_active (sr_status run)
        \<or> failed_required_contexts (spr_checks (dp_pr p)) required (Some (sr_id run)) \<noteq> []
           \<and> job_is_waiting (sr_status run))"
proof -
  from assms(1) obtain run where run: "run \<in> set runs" "t = triage_run prs required run"
    by (auto simp: plan_triage_def)
  with assms(2) obtain p reason where p: "is_pull_request_run run" "is_full_sha (sr_head_sha run)"
    "pull_request_for_run run prs = Some p" "\<not> in_merge_queue p"
    "doom_reason_of (Some (sr_id run)) (sr_head_sha run) p required = Some reason"
    "may_cancel_doomed reason (sr_status run)" by (auto simp: triage_run_cancel)
  from p(5,6) have "is_full_sha (spr_head_sha (dp_pr p))
           \<and> \<not> eq_ignore_ascii_case (spr_head_sha (dp_pr p)) (sr_head_sha run) \<and> run_is_active (sr_status run)
        \<or> to_ascii_uppercase (spr_merge_state (dp_pr p)) \<in> {''DIRTY'', ''CONFLICTING''}
           \<and> run_is_active (sr_status run)
        \<or> failed_required_contexts (spr_checks (dp_pr p)) required (Some (sr_id run)) \<noteq> []
           \<and> job_is_waiting (sr_status run)"
    by (auto simp: doom_reason_of_def Let_def split: if_splits)
  with run p pull_request_for_run_mem [OF p(3)] show ?thesis
    by (auto simp: is_pull_request_run_def in_merge_queue_def intro!: exI [of _ run] exI [of _ p])
qed

text \<open>What one run adds to the plan: a yield for a competing idle run of another pull request.\<close>

definition yields_to ::
  "(string \<Rightarrow> time option) \<Rightarrow> u64 \<Rightarrow> drain_job list \<Rightarrow> drain_pull_request list \<Rightarrow> drain_run \<Rightarrow> bool" where
  "yields_to parse_time target targets prs d =
     (is_pull_request_run (dr_run d) \<and> run_is_active (sr_status (dr_run d))
      \<and> \<not> is_some_and (pull_request_for_run (dr_run d) prs)
            (\<lambda>p. spr_number (dp_pr p) = target \<or> in_merge_queue p)
      \<and> competing_jobs parse_time targets d \<noteq> []
      \<and> \<not> list_ex (\<lambda>j. eq_ignore_ascii_case (dj_status j) ''in_progress'') (dr_jobs d))"

lemma prioritize_step_yields:
  "y \<in> set (pp_yields (prioritize_step parse_time target targets prs d plan)) \<Longrightarrow>
     y \<in> set (pp_yields plan) \<or> yields_to parse_time target targets prs d \<and> yl_run_id y = sr_id (dr_run d)"
  "pp_refusal (prioritize_step parse_time target targets prs d plan) = pp_refusal plan"
  by (auto simp: prioritize_step_def yields_to_def is_some_and_def Let_def split: if_splits option.splits)

lemma fold_prioritize_yields:
  "y \<in> set (pp_yields (fold (prioritize_step parse_time target targets prs) runs plan)) \<Longrightarrow>
     y \<in> set (pp_yields plan)
     \<or> (\<exists>d \<in> set runs. yields_to parse_time target targets prs d \<and> yl_run_id y = sr_id (dr_run d))"
  by (induction runs arbitrary: plan) (auto dest: prioritize_step_yields(1))

lemma fold_prioritize_refusal:
  "pp_refusal (fold (prioritize_step parse_time target targets prs) runs plan) = pp_refusal plan"
  by (induction runs arbitrary: plan) (auto simp: prioritize_step_yields(2))

text \<open>
  A priority jump displaces only idle competitors: a run that yields is an active
  pull-request run off the merge-queue branches, not of the prioritised pull request and not of
  one in the merge queue, none of its jobs is in progress, and it has a waiting job that entered
  the queue strictly before a waiting job of the target on compatible runner labels. Nothing
  yields when the jump is refused: the target is not open, is a draft, is in the merge queue,
  cannot merge at its head, or has nothing waiting.
\<close>

theorem prioritize_displaces_only_idle:
  assumes "y \<in> set (pp_yields (plan_prioritize parse_time target runs prs required))"
  shows "pp_refusal (plan_prioritize parse_time target runs prs required) = None
     \<and> (\<exists>p d j t. find (\<lambda>p. spr_number (dp_pr p) = target) prs = Some p \<and> \<not> spr_draft (dp_pr p)
          \<and> \<not> in_merge_queue p \<and> doom_reason_of None (spr_head_sha (dp_pr p)) p required = None
          \<and> d \<in> set runs \<and> yl_run_id y = sr_id (dr_run d)
          \<and> is_pull_request_run (dr_run d) \<and> run_is_active (sr_status (dr_run d))
          \<and> \<not> is_some_and (pull_request_for_run (dr_run d) prs)
                (\<lambda>q. spr_number (dp_pr q) = target \<or> in_merge_queue q)
          \<and> \<not> list_ex (\<lambda>j. eq_ignore_ascii_case (dj_status j) ''in_progress'') (dr_jobs d)
          \<and> j \<in> set (dr_jobs d) \<and> job_is_waiting (dj_status j)
          \<and> t \<in> set (target_waiting_jobs target (spr_head_sha (dp_pr p)) runs prs)
          \<and> queues_ahead parse_time j t \<and> labels_compete j t)"
proof -
  from assms obtain p where p: "find (\<lambda>p. spr_number (dp_pr p) = target) prs = Some p"
    "\<not> spr_draft (dp_pr p)" "\<not> in_merge_queue p" "doom_reason_of None (spr_head_sha (dp_pr p)) p required = None"
    "target_waiting_jobs target (spr_head_sha (dp_pr p)) runs prs \<noteq> []"
    by (auto simp: plan_prioritize_def Let_def split: option.splits if_splits)
  let ?ts = "target_waiting_jobs target (spr_head_sha (dp_pr p)) runs prs"
  from assms p fold_prioritize_yields obtain d where
    d: "d \<in> set runs" "yields_to parse_time target ?ts prs d" "yl_run_id y = sr_id (dr_run d)"
    by (fastforce simp: plan_prioritize_def Let_def)
  then obtain j t where "j \<in> set (dr_jobs d)" "job_is_waiting (dj_status j)" "t \<in> set ?ts"
    "queues_ahead parse_time j t" "labels_compete j t"
    by (fastforce simp: yields_to_def competing_jobs_def filter_empty_conv list_ex_iff)
  moreover have "pp_refusal (plan_prioritize parse_time target runs prs required) = None"
    using p by (simp add: plan_prioritize_def Let_def fold_prioritize_refusal)
  ultimately show ?thesis using p d unfolding yields_to_def by blast
qed

lemma ledger_key_inject:
  "ledger_key r i = ledger_key r' i' \<longleftrightarrow> eq_ignore_ascii_case r r' \<and> i = i'"
proof
  assume eq: "ledger_key r i = ledger_key r' i'"
  have digits: "CHR ''#'' \<notin> set (show_nat n)" for n
    using show_nat_digits [of n] by (auto simp: list_all_iff is_ascii_digit_def)
  have last: "takeWhile (\<lambda>c. c \<noteq> CHR ''#'') (rev (ledger_key s n)) = rev (show_nat n)"
    "dropWhile (\<lambda>c. c \<noteq> CHR ''#'') (rev (ledger_key s n)) = CHR ''#'' # rev (to_ascii_lowercase s)" for s n
    using digits [of n] by (auto simp: ledger_key_def takeWhile_append dropWhile_append)
  from eq last [of r i] last [of r' i'] have "show_nat i = show_nat i'"
    and "to_ascii_lowercase r = to_ascii_lowercase r'" by (metis rev_rev_ident list.inject)+
  then show "eq_ignore_ascii_case r r' \<and> i = i'"
    by (simp add: eq_ignore_ascii_case_def show_nat_inj)
qed (auto simp: ledger_key_def eq_ignore_ascii_case_def)

text \<open>
  The ledger is a map from repository and run: after recording an entry, looking it up by
  any spelling of its repository finds it and every other key keeps what it had; removing it
  returns it and leaves the other keys alone, so record then remove restores a ledger that did
  not have the key.
\<close>

theorem ledger_record_remove:
  assumes "bt_wf (rl_entries l)"
  shows "let l1 = ledger_record e l; k = ledger_key (re_repo e) (re_run_id e) in
     bt_wf (rl_entries l1)
     \<and> (\<forall>repo run. bt_get (rl_entries l1) (ledger_key repo run) =
          (if eq_ignore_ascii_case repo (re_repo e) \<and> run = re_run_id e then Some e
           else bt_get (rl_entries l) (ledger_key repo run)))
     \<and> (\<forall>repo. eq_ignore_ascii_case repo (re_repo e) \<longrightarrow>
          fst (ledger_remove repo (re_run_id e) l1) = Some e
          \<and> bt_get (rl_entries (snd (ledger_remove repo (re_run_id e) l1)))
              = (bt_get (rl_entries l))(k := None))"
proof -
  have "ledger_key repo (re_run_id e) = ledger_key (re_repo e) (re_run_id e)"
    if "eq_ignore_ascii_case repo (re_repo e)" for repo
    using that by (simp add: ledger_key_def eq_ignore_ascii_case_def)
  note key = this
  have remove: "fst (ledger_remove repo (re_run_id e) (ledger_record e l)) = Some e
      \<and> bt_get (rl_entries (snd (ledger_remove repo (re_run_id e) (ledger_record e l))))
        = (bt_get (rl_entries l))(ledger_key (re_repo e) (re_run_id e) := None)"
    if "eq_ignore_ascii_case repo (re_repo e)" for repo
    using assms unfolding ledger_remove_def ledger_record_def key [OF that]
    by (simp add: bt_get_insert bt_get_remove)
  from assms remove show ?thesis
    by (simp add: Let_def ledger_record_def bt_wf_insert bt_get_insert ledger_key_inject)
qed

text \<open>
  When a cancelled run is run again: exactly when its pull request is still open and not in
  the merge queue, has not moved to another full head, does not conflict, and has no required
  check that completed as a failure in another run.
\<close>

theorem resume_rerun_iff:
  "resume_decision_of e prs required = Rerun \<longleftrightarrow>
     (\<exists>p. find (\<lambda>p. spr_number (dp_pr p) = re_pr_number e) prs = Some p \<and> \<not> in_merge_queue p
        \<and> \<not> (is_full_sha (spr_head_sha (dp_pr p))
              \<and> \<not> eq_ignore_ascii_case (spr_head_sha (dp_pr p)) (re_head_sha e))
        \<and> to_ascii_uppercase (spr_merge_state (dp_pr p)) \<notin> {''DIRTY'', ''CONFLICTING''}
        \<and> list_all (\<lambda>r. \<not> is_some_and (selected_required_check (spr_checks (dp_pr p)) r)
            (\<lambda>c. completed_status (sc_status c)
              \<and> is_some_and (sc_conclusion c) (\<lambda>s. to_ascii_uppercase s \<in> {''FAILURE'', ''ACTION_REQUIRED''})
              \<and> sc_run_id c \<noteq> Some (re_run_id e))) required)"
proof -
  have doom: "doom_reason_of (Some i) head p required = None \<longleftrightarrow>
      \<not> (is_full_sha (spr_head_sha (dp_pr p)) \<and> \<not> eq_ignore_ascii_case (spr_head_sha (dp_pr p)) head)
      \<and> to_ascii_uppercase (spr_merge_state (dp_pr p)) \<notin> {''DIRTY'', ''CONFLICTING''}
      \<and> failed_required_contexts (spr_checks (dp_pr p)) required (Some i) = []" for i head p
    by (auto simp: doom_reason_of_def Let_def)
  have "resume_decision_of e prs required = Rerun \<longleftrightarrow>
      (\<exists>p. find (\<lambda>p. spr_number (dp_pr p) = re_pr_number e) prs = Some p \<and> \<not> in_merge_queue p
        \<and> doom_reason_of (Some (re_run_id e)) (re_head_sha e) p required = None)"
    by (auto simp: resume_decision_of_def split: option.splits doom_reason.splits if_splits)
  then show ?thesis unfolding doom failed_required_contexts_Nil by simp
qed

section \<open>Witnesses\<close>

definition sample_drain_pr :: "u64 \<Rightarrow> string \<Rightarrow> drain_pull_request" where
  "sample_drain_pr n head = \<lparr>dp_pr = (sample_pr ''success'')\<lparr>spr_number := n, spr_head_sha := head\<rparr>,
     dp_title = [], dp_body = []\<rparr>"

definition sample_entry :: restore_entry where
  "sample_entry = \<lparr>re_repo = ''O/R'', re_base = ''main'', re_run_id = 5, re_workflow = ''ci'',
     re_pr_number = 7, re_head_sha = sample_sha, re_status_at_cancel = ''queued'',
     re_cause = CauseYieldedTo 8, re_recorded_at = []\<rparr>"

definition sample_drain_run :: "u64 \<Rightarrow> u64 \<Rightarrow> string \<Rightarrow> drain_run" where
  "sample_drain_run i n queued_at = \<lparr>
     dr_run = (sample_run ''pull_request'' ''queued'' ''ci'' [])\<lparr>sr_id := i, sr_pull_request_number := Some n\<rparr>,
     dr_jobs = [\<lparr>dj_id = i, dj_name = ''build'', dj_status = ''queued'', dj_labels = [''mac''],
                 dj_created_at = queued_at\<rparr>]\<rparr>"

theorem triage_cancels_only_doomed_witness:
  "let prs = [sample_drain_pr 7 (replicate 40 CHR ''b'')];
       plan = plan_triage [sample_run ''pull_request'' ''queued'' ''ci'' []] prs []
   in map tri_cancel plan = [True] \<and> (\<exists>p. p \<in> set prs \<and> spr_queue_position (dp_pr p) = None)"
proof -
  let ?prs = "[sample_drain_pr 7 (replicate 40 CHR ''b'')]"
  let ?plan = "plan_triage [sample_run ''pull_request'' ''queued'' ''ci'' []] ?prs []"
  have c: "map tri_cancel ?plan = [True]" by code_simp
  then obtain t where "?plan = [t]" "tri_cancel t" by auto
  with triage_cancels_only_doomed [of t _ ?prs "[]"] have "\<exists>p. p \<in> set ?prs \<and> spr_queue_position (dp_pr p) = None"
    by (metis list.set_intros(1))
  with c show ?thesis by (simp add: Let_def)
qed

theorem prioritize_displaces_only_idle_witness:
  "let parse = (\<lambda>s. if s = ''early'' then Some 1 else Some 2);
       plan = plan_prioritize parse 8 [sample_drain_run 1 7 ''early'', sample_drain_run 2 8 ''late'']
         [sample_drain_pr 7 sample_sha, sample_drain_pr 8 sample_sha] []
   in map yl_run_id (pp_yields plan) = [1] \<and> pp_refusal plan = None"
proof -
  let ?parse = "\<lambda>s. if s = ''early'' then Some 1 else Some (2 :: time)"
  let ?runs = "[sample_drain_run 1 7 ''early'', sample_drain_run 2 8 ''late'']"
  let ?prs = "[sample_drain_pr 7 sample_sha, sample_drain_pr 8 sample_sha]"
  let ?plan = "plan_prioritize ?parse 8 ?runs ?prs []"
  have y: "map yl_run_id (pp_yields ?plan) = [1]" by code_simp
  then obtain e where "e \<in> set (pp_yields ?plan)" by (cases "pp_yields ?plan") auto
  from prioritize_displaces_only_idle [OF this] y show ?thesis by (simp add: Let_def)
qed

theorem ledger_record_remove_witness:
  "let l = \<lparr>rl_version = 1, rl_entries = []\<rparr>; l1 = ledger_record sample_entry l in
     bt_get (rl_entries l1) (ledger_key ''o/r'' 5) = Some sample_entry
     \<and> bt_get (rl_entries l1) (ledger_key ''o/r'' 6) = None
     \<and> fst (ledger_remove ''o/r'' 5 l1) = Some sample_entry"
proof -
  let ?l = "\<lparr>rl_version = 1, rl_entries = []\<rparr>"
  have "eq_ignore_ascii_case ''o/r'' (re_repo sample_entry)" by code_simp
  moreover have "re_run_id sample_entry = 5" by (simp add: sample_entry_def)
  ultimately show ?thesis
    using ledger_record_remove [of ?l sample_entry] by (simp add: Let_def bt_get_def)
qed

end
