(* ===== verification/Run_Repair.thy ===== *)
theory Run_Repair
  imports Merge_Steward Json_Value
begin

text \<open>
  Two narrow repairs of workflow runs: the stale pull-request wedge of
  \<open>src/src/stale_pr_wedge.rs\<close>, which may cancel one run of a superseded head that holds a
  concurrency slot, and the interruption signature of \<open>src/src/transient_interruption.rs\<close>, which
  decides whether a cancelled run may be re-run. The lemmas show that each acts exactly on its
  stated evidence.
\<close>

section \<open>The stale pull-request wedge\<close>

record stale_pr_run_wedge_candidate =
  wc_repo :: string
  wc_pr_number :: u64
  wc_old_run_id :: u64
  wc_old_head_sha :: string
  wc_old_run_attempt :: u64
  wc_new_run_id :: u64
  wc_new_head_sha :: string
  wc_new_run_attempt :: u64
  wc_workflow_id :: u64
  wc_workflow :: string
  wc_head_ref :: string
  wc_local_required_job :: steward_job

definition required_local_macos_job :: "steward_job \<Rightarrow> bool" where
  "required_local_macos_job j =
     (sj_id j \<noteq> 0 \<and> sj_name j = ''macos''
      \<and> to_ascii_lowercase (sj_status j) \<in> {''queued'', ''waiting'', ''pending'', ''requested'', ''in_progress''}
      \<and> sj_conclusion j = None
      \<and> list_all (\<lambda>expected. list_ex (\<lambda>l. eq_ignore_ascii_case l expected) (sj_labels j))
          [''self-hosted'', ''macos'', ''arm64'', ''pulp-build'', ''pulp-build-vm'', ''pulp-build-pr-head''])"

definition newer_wedged_run ::
  "steward_run list \<Rightarrow> steward_run \<Rightarrow> u64 \<Rightarrow> steward_pull_request \<Rightarrow> steward_run option" where
  "newer_wedged_run runs old pr_number pr =
     min_by_key sr_id (filter (\<lambda>r. sr_id old < sr_id r \<and> sr_created_at old < sr_created_at r
        \<and> sr_event r = ''pull_request'' \<and> sr_pull_request_number r = Some pr_number
        \<and> sr_workflow_id r = sr_workflow_id old \<and> sr_workflow r = sr_workflow old
        \<and> sr_head_branch r = spr_head_branch pr \<and> eq_ignore_ascii_case (sr_head_sha r) (spr_head_sha pr)
        \<and> eq_ignore_ascii_case (sr_status r) ''pending'' \<and> sr_jobs r = []) runs)"

definition wedge_candidate ::
  "string \<Rightarrow> steward_run list \<Rightarrow> steward_pull_request list \<Rightarrow> steward_run
     \<Rightarrow> stale_pr_run_wedge_candidate option" where
  "wedge_candidate repo runs prs old =
     (if sr_event old \<noteq> ''pull_request'' \<or> sr_workflow old \<noteq> ''Build and Test''
         \<or> to_ascii_lowercase (sr_status old) \<notin> {''queued'', ''in_progress''}
         \<or> \<not> is_full_sha (sr_head_sha old) then None
      else case sr_pull_request_number old of None \<Rightarrow> None | Some n \<Rightarrow>
        (case find (\<lambda>p. spr_number p = n) prs of None \<Rightarrow> None | Some pr \<Rightarrow>
          if \<not> is_full_sha (spr_head_sha pr) \<or> eq_ignore_ascii_case (sr_head_sha old) (spr_head_sha pr)
             \<or> sr_head_branch old \<noteq> spr_head_branch pr then None
          else case filter required_local_macos_job (sr_jobs old) of
              [j] \<Rightarrow> (case newer_wedged_run runs old n pr of
                  None \<Rightarrow> None
                | Some newer \<Rightarrow> Some \<lparr>wc_repo = repo, wc_pr_number = n, wc_old_run_id = sr_id old,
                    wc_old_head_sha = sr_head_sha old, wc_old_run_attempt = sr_run_attempt old,
                    wc_new_run_id = sr_id newer, wc_new_head_sha = sr_head_sha newer,
                    wc_new_run_attempt = sr_run_attempt newer, wc_workflow_id = sr_workflow_id old,
                    wc_workflow = sr_workflow old, wc_head_ref = spr_head_branch pr,
                    wc_local_required_job = j\<rparr>)
            | _ \<Rightarrow> None))"

definition plan_stale_pr_run_wedges ::
  "string \<Rightarrow> steward_run list \<Rightarrow> steward_pull_request list \<Rightarrow> required_check list
     \<Rightarrow> stale_pr_run_wedge_candidate list" where
  "plan_stale_pr_run_wedges repo runs prs required =
     (if \<not> eq_ignore_ascii_case repo ''Generous-Corp/pulp''
         \<or> \<not> list_ex (\<lambda>c. rc_context c = ''macos'') required then []
      else take 1 (sort_key wc_old_run_id (List.map_filter (wedge_candidate repo runs prs) runs)))"

section \<open>The interruption signature\<close>

record interruption_job =
  ij_name :: string
  ij_conclusion :: "string option"
  ij_runner_name :: "string option"
  ij_created_at :: "time option"
  ij_completed_at :: "time option"
  ij_superseded :: bool
  ij_cancelled_by_actor :: bool

record interruption_hit =
  ih_signature :: string
  ih_job :: string
  ih_waited_minutes :: int

definition runnerless_cancel_min_minutes :: int where
  "runnerless_cancel_min_minutes = 16"

definition runnerless_cancel_max_minutes :: int where
  "runnerless_cancel_max_minutes = 20"

definition interruption_passed :: "interruption_job \<Rightarrow> bool" where
  "interruption_passed j = (ij_conclusion j \<in> {Some ''success'', Some ''skipped'', Some ''neutral''})"

definition has_runner :: "interruption_job \<Rightarrow> bool" where
  "has_runner j = is_some_and (ij_runner_name j) (\<lambda>n. trim n \<noteq> [])"

definition is_runnerless_cancel :: "interruption_job \<Rightarrow> bool" where
  "is_runnerless_cancel j = (ij_conclusion j = Some ''cancelled'' \<and> \<not> has_runner j)"

definition classify_job :: "interruption_job \<Rightarrow> string + interruption_hit" where
  "classify_job j =
     (let conclusion = unwrap_or (ij_conclusion j) ''none''
      in if conclusion \<noteq> ''cancelled''
         then Inl (''job `'' @ ij_name j @ ''` concluded `'' @ conclusion
                @ ''`, which is a result, not an interruption'')
         else if has_runner j
         then Inl (''job `'' @ ij_name j @ ''` was cancelled after runner `''
                @ unwrap_or (ij_runner_name j) [] @ ''` took it'')
         else if ij_superseded j
         then Inl (''job `'' @ ij_name j
                @ ''` was superseded by a higher-priority run in its concurrency group'')
         else if ij_cancelled_by_actor j
         then Inl (''job `'' @ ij_name j @ ''` was cancelled by a person or tool, whose decision stands'')
         else case (ij_created_at j, ij_completed_at j) of
             (Some created, Some completed) \<Rightarrow>
               (let waited = num_minutes (completed - created)
                in if \<not> (runnerless_cancel_min_minutes \<le> waited \<and> waited \<le> runnerless_cancel_max_minutes)
                   then Inl (''job `'' @ ij_name j @ ''` was cancelled with no runner after ''
                          @ show_int waited @ '' min, outside the '' @ show_int runnerless_cancel_min_minutes
                          @ ''-'' @ show_int runnerless_cancel_max_minutes
                          @ '' min runner-assignment timeout'')
                   else Inr \<lparr>ih_signature = ''runnerless_cancel'', ih_job = ij_name j,
                             ih_waited_minutes = waited\<rparr>)
           | _ \<Rightarrow> Inl (''job `'' @ ij_name j @ ''` has no readable created or completed time''))"

definition classify_jobs :: "interruption_job list \<Rightarrow> string + interruption_hit list" where
  "classify_jobs jobs =
     result_bind (collect_results (map classify_job (filter (\<lambda>j. \<not> interruption_passed j) jobs)))
       (\<lambda>hits. if hits = []
          then Inl ''no job of the run failed, so there is no interruption to repair''
          else Inr hits)"

text \<open>\<open>parse_time\<close> is chrono's RFC 3339 parser.\<close>

definition job_from_api :: "(string \<Rightarrow> time option) \<Rightarrow> json \<Rightarrow> interruption_job" where
  "job_from_api parse_time row =
     (let text = (\<lambda>k. Option.bind (json_get k row) as_str);
          at = (\<lambda>k. Option.bind (text k) parse_time)
      in \<lparr>ij_name = unwrap_or (text ''name'') [],
          ij_conclusion = map_option to_ascii_lowercase (text ''conclusion''),
          ij_runner_name = text ''runner_name'',
          ij_created_at = at ''created_at'', ij_completed_at = at ''completed_at'',
          ij_superseded = False, ij_cancelled_by_actor = False\<rparr>)"

definition cancelled_by_actor_annotation :: string where
  "cancelled_by_actor_annotation = ''The run was canceled by @''"

definition superseded_annotations :: "string list" where
  "superseded_annotations = [''higher priority waiting request'']"

definition annotation_messages :: "json \<Rightarrow> string list" where
  "annotation_messages annotations =
     List.map_filter (\<lambda>a. Option.bind (json_get ''message'' a) as_str) (unwrap_or (as_array annotations) [])"

definition annotations_mark_superseded :: "json \<Rightarrow> bool" where
  "annotations_mark_superseded annotations =
     list_ex (\<lambda>m. list_ex (str_contains m) superseded_annotations) (annotation_messages annotations)"

definition mark_from_annotations :: "json \<Rightarrow> interruption_job \<Rightarrow> interruption_job" where
  "mark_from_annotations annotations j =
     j\<lparr>ij_superseded := annotations_mark_superseded annotations,
       ij_cancelled_by_actor := list_ex (prefix cancelled_by_actor_annotation) (annotation_messages annotations)\<rparr>"

section \<open>Properties\<close>

lemma wedge_candidate_Some:
  assumes "wedge_candidate repo runs prs old = Some c"
  shows "\<exists>pr newer. pr \<in> set prs \<and> newer \<in> set runs
     \<and> sr_id old = wc_old_run_id c \<and> sr_id newer = wc_new_run_id c \<and> spr_number pr = wc_pr_number c
     \<and> sr_event old = ''pull_request'' \<and> sr_workflow old = ''Build and Test''
     \<and> to_ascii_lowercase (sr_status old) \<in> {''queued'', ''in_progress''}
     \<and> sr_pull_request_number old = Some (spr_number pr) \<and> sr_head_branch old = spr_head_branch pr
     \<and> is_full_sha (sr_head_sha old) \<and> is_full_sha (spr_head_sha pr)
     \<and> \<not> eq_ignore_ascii_case (sr_head_sha old) (spr_head_sha pr)
     \<and> filter required_local_macos_job (sr_jobs old) = [wc_local_required_job c]
     \<and> sr_id old < sr_id newer \<and> sr_created_at old < sr_created_at newer
     \<and> sr_workflow_id newer = sr_workflow_id old \<and> sr_pull_request_number newer = Some (spr_number pr)
     \<and> sr_head_branch newer = spr_head_branch pr
     \<and> eq_ignore_ascii_case (sr_head_sha newer) (spr_head_sha pr)
     \<and> eq_ignore_ascii_case (sr_status newer) ''pending'' \<and> sr_jobs newer = []"
proof -
  from assms obtain n pr j newer where
    h: "sr_pull_request_number old = Some n" "find (\<lambda>p. spr_number p = n) prs = Some pr"
      "filter required_local_macos_job (sr_jobs old) = [j]" "newer_wedged_run runs old n pr = Some newer"
      "c = \<lparr>wc_repo = repo, wc_pr_number = n, wc_old_run_id = sr_id old,
                    wc_old_head_sha = sr_head_sha old, wc_old_run_attempt = sr_run_attempt old,
                    wc_new_run_id = sr_id newer, wc_new_head_sha = sr_head_sha newer,
                    wc_new_run_attempt = sr_run_attempt newer, wc_workflow_id = sr_workflow_id old,
                    wc_workflow = sr_workflow old, wc_head_ref = spr_head_branch pr,
                    wc_local_required_job = j\<rparr>"
      "sr_event old = ''pull_request''" "sr_workflow old = ''Build and Test''"
      "to_ascii_lowercase (sr_status old) \<in> {''queued'', ''in_progress''}" "is_full_sha (sr_head_sha old)"
      "is_full_sha (spr_head_sha pr)" "\<not> eq_ignore_ascii_case (sr_head_sha old) (spr_head_sha pr)"
      "sr_head_branch old = spr_head_branch pr"
    by (auto simp: wedge_candidate_def split: option.splits if_splits list.splits)
  have "newer \<in> set (filter (\<lambda>r. sr_id old < sr_id r \<and> sr_created_at old < sr_created_at r
        \<and> sr_event r = ''pull_request'' \<and> sr_pull_request_number r = Some n
        \<and> sr_workflow_id r = sr_workflow_id old \<and> sr_workflow r = sr_workflow old
        \<and> sr_head_branch r = spr_head_branch pr \<and> eq_ignore_ascii_case (sr_head_sha r) (spr_head_sha pr)
        \<and> eq_ignore_ascii_case (sr_status r) ''pending'' \<and> sr_jobs r = []) runs)"
    by (rule min_by_key_Some [OF h(4) [unfolded newer_wedged_run_def], THEN conjunct1])
  then have n: "newer \<in> set runs \<and> sr_id old < sr_id newer \<and> sr_created_at old < sr_created_at newer
     \<and> sr_workflow_id newer = sr_workflow_id old \<and> sr_pull_request_number newer = Some n
     \<and> sr_head_branch newer = spr_head_branch pr
     \<and> eq_ignore_ascii_case (sr_head_sha newer) (spr_head_sha pr)
     \<and> eq_ignore_ascii_case (sr_status newer) ''pending'' \<and> sr_jobs newer = []" by simp
  have p: "pr \<in> set prs" "spr_number pr = n" using find_SomeD [OF h(2)] by simp_all
  show ?thesis
    by (intro exI [of _ pr] exI [of _ newer]) (use n p h in simp)
qed

text \<open>
  The stale wedge is narrow: a plan names at most one run, only in the Pulp repository with
  a required macOS check; it is a queued or running pull-request run of the build workflow at a
  full head the pull request has left, with exactly one live required macOS job, and a younger
  pending run of the same workflow without jobs waits at the pull request's current head.
  A run at the current head is never named.
\<close>

theorem stale_wedge_evidence:
  assumes "c \<in> set (plan_stale_pr_run_wedges repo runs prs required)"
  shows "plan_stale_pr_run_wedges repo runs prs required = [c]
     \<and> eq_ignore_ascii_case repo ''Generous-Corp/pulp'' \<and> list_ex (\<lambda>r. rc_context r = ''macos'') required
     \<and> (\<exists>old newer pr. old \<in> set runs \<and> newer \<in> set runs \<and> pr \<in> set prs
          \<and> sr_id old = wc_old_run_id c \<and> sr_id newer = wc_new_run_id c \<and> spr_number pr = wc_pr_number c
          \<and> sr_event old = ''pull_request'' \<and> sr_workflow old = ''Build and Test''
          \<and> to_ascii_lowercase (sr_status old) \<in> {''queued'', ''in_progress''}
          \<and> sr_pull_request_number old = Some (spr_number pr)
          \<and> is_full_sha (sr_head_sha old) \<and> is_full_sha (spr_head_sha pr)
          \<and> \<not> eq_ignore_ascii_case (sr_head_sha old) (spr_head_sha pr)
          \<and> filter required_local_macos_job (sr_jobs old) = [wc_local_required_job c]
          \<and> sr_id old < sr_id newer \<and> sr_workflow_id newer = sr_workflow_id old
          \<and> sr_pull_request_number newer = Some (spr_number pr)
          \<and> eq_ignore_ascii_case (sr_head_sha newer) (spr_head_sha pr)
          \<and> eq_ignore_ascii_case (sr_status newer) ''pending'' \<and> sr_jobs newer = [])"
proof -
  let ?cands = "List.map_filter (wedge_candidate repo runs prs) runs"
  have gate: "eq_ignore_ascii_case repo ''Generous-Corp/pulp''" "list_ex (\<lambda>r. rc_context r = ''macos'') required"
    and plan: "plan_stale_pr_run_wedges repo runs prs required = take 1 (sort_key wc_old_run_id ?cands)"
    using assms by (auto simp: plan_stale_pr_run_wedges_def split: if_splits)
  have one: "plan_stale_pr_run_wedges repo runs prs required = [c]"
    using assms unfolding plan by (cases "sort_key wc_old_run_id ?cands") auto
  have "c \<in> set ?cands"
    using assms unfolding plan by (metis in_set_takeD set_sort)
  then obtain old where "old \<in> set runs" "wedge_candidate repo runs prs old = Some c"
    by (auto simp: set_map_filter_iff)
  from wedge_candidate_Some [OF this(2)] this(1) one gate show ?thesis by blast
qed

lemma classify_job_Inr:
  "classify_job j = Inr h \<longleftrightarrow>
     is_runnerless_cancel j \<and> \<not> ij_superseded j \<and> \<not> ij_cancelled_by_actor j
     \<and> (\<exists>created completed. ij_created_at j = Some created \<and> ij_completed_at j = Some completed
          \<and> 16 \<le> num_minutes (completed - created) \<and> num_minutes (completed - created) \<le> 20
          \<and> h = \<lparr>ih_signature = ''runnerless_cancel'', ih_job = ij_name j,
                 ih_waited_minutes = num_minutes (completed - created)\<rparr>)"
  by (cases "ij_conclusion j")
     (auto simp: classify_job_def is_runnerless_cancel_def unwrap_or_def Let_def
        runnerless_cancel_min_minutes_def runnerless_cancel_max_minutes_def split: option.splits)

text \<open>
  A run is an interruption exactly when some job did not pass and every job that did not
  pass was cancelled before a runner took it, neither superseded nor cancelled by an actor,
  between sixteen and twenty whole minutes after it was created; then there is one hit for each
  of those jobs, in order. One job with any other result, or a missing time, makes the whole run
  a result.
\<close>

theorem interruption_iff:
  "classify_jobs jobs = Inr hits \<longleftrightarrow>
     hits \<noteq> [] \<and> list_all2 (\<lambda>j h. is_runnerless_cancel j \<and> \<not> ij_superseded j \<and> \<not> ij_cancelled_by_actor j
        \<and> (\<exists>created completed. ij_created_at j = Some created \<and> ij_completed_at j = Some completed
             \<and> 16 \<le> num_minutes (completed - created) \<and> num_minutes (completed - created) \<le> 20
             \<and> h = \<lparr>ih_signature = ''runnerless_cancel'', ih_job = ij_name j,
                    ih_waited_minutes = num_minutes (completed - created)\<rparr>))
       (filter (\<lambda>j. \<not> interruption_passed j) jobs) hits"
  unfolding classify_jobs_def result_bind_Inr_iff collect_results_map_Inr classify_job_Inr by auto

section \<open>Witness\<close>

definition sample_macos_job :: steward_job where
  "sample_macos_job = \<lparr>sj_id = 3, sj_name = ''macos'', sj_status = ''in_progress'', sj_conclusion = None,
     sj_labels = [''self-hosted'', ''macOS'', ''arm64'', ''pulp-build'', ''pulp-build-vm'', ''pulp-build-pr-head''],
     sj_runner_name = None\<rparr>"

theorem stale_wedge_evidence_witness:
  "let old = (sample_run ''pull_request'' ''in_progress'' ''Build and Test'' [sample_macos_job])
               \<lparr>sr_head_branch := ''topic'', sr_head_sha := replicate 40 CHR ''b'', sr_created_at := ''1''\<rparr>;
       new = (sample_run ''pull_request'' ''pending'' ''Build and Test'' [])
               \<lparr>sr_id := 6, sr_head_branch := ''topic'', sr_created_at := ''2''\<rparr>;
       plan = plan_stale_pr_run_wedges ''Generous-Corp/pulp'' [old, new] [sample_pr []]
                [\<lparr>rc_context = ''macos'', rc_app_id = None\<rparr>]
   in map wc_old_run_id plan = [5] \<and> length plan = 1"
proof -
  let ?old = "(sample_run ''pull_request'' ''in_progress'' ''Build and Test'' [sample_macos_job])
               \<lparr>sr_head_branch := ''topic'', sr_head_sha := replicate 40 CHR ''b'', sr_created_at := ''1''\<rparr>"
  let ?new = "(sample_run ''pull_request'' ''pending'' ''Build and Test'' [])
               \<lparr>sr_id := 6, sr_head_branch := ''topic'', sr_created_at := ''2''\<rparr>"
  let ?plan = "plan_stale_pr_run_wedges ''Generous-Corp/pulp'' [?old, ?new] [sample_pr []]
                [\<lparr>rc_context = ''macos'', rc_app_id = None\<rparr>]"
  have ids: "map wc_old_run_id ?plan = [5]" by code_simp
  then obtain c where c: "c \<in> set ?plan" by (cases ?plan) auto
  have "?plan = [c]" by (rule stale_wedge_evidence [OF c, THEN conjunct1])
  then have "length ?plan = 1" by simp
  with ids show ?thesis by (simp only: Let_def simp_thms)
qed

end
