(* ===== verification/Pr_Queue_State.thy ===== *)
theory Pr_Queue_State
  imports Merge_Steward Json_Value
begin

text \<open>
  The merge-queue state of one pull request, \<open>src/src/pr_queue_state.rs\<close>: reading the GraphQL
  response, attributing each queue removal to a head by its commit ids, the single walk over the
  timeline, and the verdict that decides whether Shipyard may enqueue a head again. Timestamps
  are read by \<open>parse_time\<close>, chrono's RFC 3339 parser. The lemmas give the walk a declarative
  reading (last removal, last push, the re-adds of an unchanged head) and show that a refusal and
  an unreadable state are never mistaken for permission.
\<close>

section \<open>Data\<close>

datatype pr_queue_state =
    QMerged
  | QClosed
  | QQueued "string option" "u64 option" u32
  | QArmedNotQueued "string option" u32
  | QNeverArmed
  | QEjected string "string option" bool u32
  | QUnknown string

record queue_fact =
  qf_name :: string
  qf_value :: json
  qf_source :: string

datatype new_head_basis = RemovedHeadSha | PushAfterRemoval | SuiteAfterRemoval | NoEvidence

record ejection =
  ej_reason :: string
  ej_at :: "string option"
  ej_new_head_since :: bool
  ej_removed_head :: "string option"
  ej_new_head_basis :: new_head_basis
  ej_timeline_index :: nat
  ej_merge_group_commit :: "string option"

record pr_queue_report =
  qr_pr :: "u64 option"
  qr_head_oid :: "string option"
  qr_state :: pr_queue_state
  qr_last_ejection :: "ejection option"
  qr_requeues_without_new_head :: u32
  qr_ejections_of_current_head :: u32
  qr_timeline_complete :: "bool option"
  qr_facts :: "queue_fact list"

section \<open>Removal reasons and the enqueue verdict\<close>

definition retry_hazard_reasons :: "string list" where
  "retry_hazard_reasons = [''failed_checks'', ''merge_conflict'']"

definition same_head_requeue_cascades :: "string \<Rightarrow> bool" where
  "same_head_requeue_cascades reason = list_ex (eq_ignore_ascii_case reason) retry_hazard_reasons"

definition same_head_requeue_allowed :: "string \<Rightarrow> bool" where
  "same_head_requeue_allowed reason = eq_ignore_ascii_case reason ''invalid_merge_commit''"

definition enqueue_refusal :: "internal_enqueue_verdict \<Rightarrow> u64 \<Rightarrow> string \<Rightarrow> string option" where
  "enqueue_refusal v pr head = (case v of
       EnqueueAdmit \<Rightarrow> None
     | RefuseEjectedSameHead reason at \<Rightarrow>
         Some (''merge queue removed PR #'' @ show_nat pr @ '' at head '' @ head @ '' for '' @ reason
           @ (case at of None \<Rightarrow> [] | Some t \<Rightarrow> '' at '' @ t)
           @ '' and no new head has been pushed since; refusing to re-enqueue the same head (a fresh ''
           @ ''ship-state does not change the head that failed). Push a fix, or have an operator ''
           @ ''re-enqueue it deliberately'')
     | EnqueueUnknown detail \<Rightarrow>
         Some (''merge-queue state of PR #'' @ show_nat pr @ '' could not be determined ('' @ detail
           @ ''); refusing to enqueue head '' @ head @ '' blind''))"

definition internal_enqueue_verdict_of :: "pr_queue_report \<Rightarrow> string \<Rightarrow> internal_enqueue_verdict" where
  "internal_enqueue_verdict_of report head = (case qr_state report of
       QUnknown detail \<Rightarrow> EnqueueUnknown detail
     | QEjected reason at new_head _ \<Rightarrow>
         if \<not> new_head \<and> same_head_requeue_cascades reason
            \<and> is_some_and (qr_head_oid report) (\<lambda>live. eq_ignore_ascii_case live head)
         then RefuseEjectedSameHead reason at else EnqueueAdmit
     | _ \<Rightarrow> EnqueueAdmit)"

section \<open>Reading the timeline\<close>

definition pull_request_node :: "json \<Rightarrow> (json \<times> string) option" where
  "pull_request_node response =
     (case option_filter is_object (json_path [''data'', ''repository'', ''pullRequest''] response) of
        Some n \<Rightarrow> Some (n, ''data.repository.pullRequest'')
      | None \<Rightarrow> (case option_filter is_object (json_path [''data'', ''node''] response) of
          Some n \<Rightarrow> Some (n, ''data.node'')
        | None \<Rightarrow> if is_object response \<and> json_get ''state'' response \<noteq> None
            then Some (response, ''pullRequest'') else None))"

definition unknown_report :: "string \<Rightarrow> queue_fact list \<Rightarrow> pr_queue_report" where
  "unknown_report detail facts = \<lparr>qr_pr = None, qr_head_oid = None, qr_state = QUnknown detail,
     qr_last_ejection = None, qr_requeues_without_new_head = 0, qr_ejections_of_current_head = 0,
     qr_timeline_complete = None, qr_facts = facts\<rparr>"

definition typename :: "json \<Rightarrow> string option" where
  "typename node = get_str ''__typename'' node"

definition is_new_head :: "string \<Rightarrow> bool" where
  "is_new_head t = (t \<in> {''PullRequestCommit'', ''HeadRefForcePushedEvent''})"

definition is_removal :: "json \<Rightarrow> bool" where
  "is_removal node = (typename node = Some ''RemovedFromMergeQueueEvent'')"

definition pushed_oid :: "json \<Rightarrow> string option" where
  "pushed_oid node = Option.bind (typename node) (\<lambda>t.
     if t = ''PullRequestCommit'' then Option.bind (json_path [''commit'', ''oid''] node) as_str
     else if t = ''HeadRefForcePushedEvent'' then Option.bind (json_path [''afterCommit'', ''oid''] node) as_str
     else None)"

definition is_known_head :: "string list \<Rightarrow> string \<Rightarrow> bool" where
  "is_known_head known oid = list_ex (\<lambda>seen. eq_ignore_ascii_case seen oid) known"

definition removed_head :: "string list \<Rightarrow> json \<Rightarrow> string option" where
  "removed_head known node =
     Option.bind (option_filter is_object (json_get ''beforeCommit'' node)) (\<lambda>group_commit.
       case option_filter (is_known_head known) (get_str ''oid'' group_commit) of
         Some oid \<Rightarrow> Some oid
       | None \<Rightarrow>
           Option.bind (Option.bind (json_path [''parents'', ''nodes''] group_commit) as_array) (\<lambda>ps.
             Option.bind (option_list (map (get_str ''oid'') ps)) (\<lambda>parents.
               case parents of
                 [_, head] \<Rightarrow> if is_known_head known head then Some head else None
               | _ \<Rightarrow> None)))"

definition same_head_re_add ::
  "json list \<Rightarrow> string option list \<Rightarrow> nat \<Rightarrow> nat \<Rightarrow> string option \<Rightarrow> bool option" where
  "same_head_re_add nodes removed_heads removal add queued_head =
     Option.bind (Option.bind (list_get removed_heads removal) (\<lambda>h. h)) (\<lambda>removed.
       Option.bind
         (case find (\<lambda>(_, node). is_removal node) (drop (add + 1) (enumerate 0 nodes)) of
            Some (index, _) \<Rightarrow> Option.bind (list_get removed_heads index) (\<lambda>h. h)
          | None \<Rightarrow> queued_head)
         (\<lambda>re_added. Some (eq_ignore_ascii_case re_added removed)))"

definition earliest_suite :: "(string \<Rightarrow> time option) \<Rightarrow> json \<Rightarrow> time option" where
  "earliest_suite parse_time node =
     Option.bind (Option.bind (json_path [''commit'', ''checkSuites'', ''nodes''] node) as_array) (\<lambda>suites.
       min_by_key (\<lambda>t. t) (List.map_filter parse_time (List.map_filter (get_str ''createdAt'') suites)))"

definition pushes_head :: "string \<Rightarrow> json \<Rightarrow> bool" where
  "pushes_head head node = is_some_and (pushed_oid node) (\<lambda>oid. eq_ignore_ascii_case oid head)"

definition suite_after_removal :: "(string \<Rightarrow> time option) \<Rightarrow> json list \<Rightarrow> nat \<Rightarrow> string \<Rightarrow> bool" where
  "suite_after_removal parse_time nodes index head =
     is_some_and (Option.bind (get_str ''createdAt'' (nodes ! index)) parse_time) (\<lambda>removed_at.
       list_ex (\<lambda>node. typename node = Some ''PullRequestCommit'' \<and> pushes_head head node
         \<and> is_some_and (earliest_suite parse_time node) (\<lambda>suite. removed_at < suite)) nodes)"

definition new_head_since ::
  "(string \<Rightarrow> time option) \<Rightarrow> json list \<Rightarrow> nat \<Rightarrow> string option \<Rightarrow> string option \<Rightarrow> bool \<times> new_head_basis" where
  "new_head_since parse_time nodes index removed head = (case head of
       None \<Rightarrow> (False, NoEvidence)
     | Some h \<Rightarrow> (case removed of
         Some r \<Rightarrow> (\<not> eq_ignore_ascii_case r h, RemovedHeadSha)
       | None \<Rightarrow>
           if list_ex (pushes_head h) (drop (index + 1) nodes) then (True, PushAfterRemoval)
           else if suite_after_removal parse_time nodes index h then (True, SuiteAfterRemoval)
           else (False, NoEvidence)))"

section \<open>The walk\<close>

record timeline_walk =
  tw_requeues :: u32
  tw_requeue_indices :: "nat list"
  tw_hazard_pending :: "(nat \<times> bool) option"
  tw_last_removal :: "(nat \<times> string \<times> string option) option"
  tw_last_new_head :: "nat option"

definition walk_start :: timeline_walk where
  "walk_start = \<lparr>tw_requeues = 0, tw_requeue_indices = [], tw_hazard_pending = None,
     tw_last_removal = None, tw_last_new_head = None\<rparr>"

definition walk_step ::
  "json list \<Rightarrow> string option list \<Rightarrow> string option \<Rightarrow> nat \<times> json \<Rightarrow> timeline_walk \<Rightarrow> timeline_walk" where
  "walk_step nodes removed_heads queued_head = (\<lambda>(index, node) w.
     let t = unwrap_or (typename node) []
     in if is_new_head t then
          w\<lparr>tw_hazard_pending := map_option (\<lambda>(r, _). (r, True)) (tw_hazard_pending w),
            tw_last_new_head := Some index\<rparr>
        else if t = ''RemovedFromMergeQueueEvent'' then
          let reason = unwrap_or (get_str ''reason'' node) ''UNKNOWN''
          in w\<lparr>tw_hazard_pending := if same_head_requeue_cascades reason then Some (index, False) else None,
               tw_last_removal := Some (index, reason, get_str ''createdAt'' node)\<rparr>
        else if t = ''AddedToMergeQueueEvent'' then
          let requeue = is_some_and (tw_hazard_pending w) (\<lambda>(removal, pushed).
                unwrap_or (same_head_re_add nodes removed_heads removal index queued_head) (\<not> pushed))
          in w\<lparr>tw_requeues := if requeue then tw_requeues w + 1 else tw_requeues w,
               tw_requeue_indices := if requeue then tw_requeue_indices w @ [index] else tw_requeue_indices w,
               tw_hazard_pending := None\<rparr>
        else w)"

definition walk_timeline ::
  "json list \<Rightarrow> string option list \<Rightarrow> string option \<Rightarrow> timeline_walk" where
  "walk_timeline nodes removed_heads queued_head =
     fold (walk_step nodes removed_heads queued_head) (enumerate 0 nodes) walk_start"

definition ejection_charged ::
  "string option list \<Rightarrow> string \<Rightarrow> nat option \<Rightarrow> nat \<times> json \<Rightarrow> bool" where
  "ejection_charged removed_heads head first_push = (\<lambda>(index, node).
     is_removal node \<and> same_head_requeue_cascades (unwrap_or (get_str ''reason'' node) [])
     \<and> (case Option.bind (list_get removed_heads index) (\<lambda>h. h) of
          Some removed \<Rightarrow> eq_ignore_ascii_case removed head
        | None \<Rightarrow> (case first_push of None \<Rightarrow> True | Some first \<Rightarrow> first < index)))"

definition count_ejections_of_head ::
  "json list \<Rightarrow> string option list \<Rightarrow> string option \<Rightarrow> u32" where
  "count_ejections_of_head nodes removed_heads head = (case head of
       None \<Rightarrow> 0
     | Some h \<Rightarrow> foldl (\<lambda>count e.
         if ejection_charged removed_heads h (find_index (pushes_head h) nodes) e
         then count + 1 else count) 0 (enumerate 0 nodes))"

section \<open>Classification\<close>

definition fact_of :: "string \<Rightarrow> string \<Rightarrow> json \<Rightarrow> string \<Rightarrow> queue_fact" where
  "fact_of root name value field = \<lparr>qf_name = name, qf_value = value, qf_source = root @ ''.'' @ field\<rparr>"

definition opt_json :: "('a \<Rightarrow> json) \<Rightarrow> 'a option \<Rightarrow> json" where
  "opt_json f x = (case x of None \<Rightarrow> JNull | Some v \<Rightarrow> f v)"

definition u32_json :: "u32 \<Rightarrow> json" where
  "u32_json n = JNumber (PosInt (unat n))"

definition basis_name :: "new_head_basis \<Rightarrow> string" where
  "basis_name b = (case b of RemovedHeadSha \<Rightarrow> ''removed_head_sha'' | PushAfterRemoval \<Rightarrow> ''push_after_removal''
     | SuiteAfterRemoval \<Rightarrow> ''suite_after_removal'' | NoEvidence \<Rightarrow> ''no_evidence'')"

definition basis_text :: "new_head_basis \<Rightarrow> string" where
  "basis_text b = (case b of
       RemovedHeadSha \<Rightarrow> ''new head = headRefOid differs from beforeCommit'' @ [CHR 0x27] @ ''s second parent''
     | PushAfterRemoval \<Rightarrow> ''no removed head named; new head = a later PullRequestCommit or ''
         @ ''HeadRefForcePushedEvent whose oid is headRefOid''
     | SuiteAfterRemoval \<Rightarrow> ''no removed head named; new head = headRefOid'' @ [CHR 0x27]
         @ ''s earliest check suite was created after this removal''
     | NoEvidence \<Rightarrow> ''no removed head named and no later push of headRefOid; no new head assumed'')"

definition requeues_source :: "nat list \<Rightarrow> string" where
  "requeues_source ixs = ''timelineItems.nodes['' @ join '', '' (map show_nat ixs)
     @ ''] (AddedToMergeQueueEvent directly after a failed_checks/merge_conflict RemovedFromMergeQueueEvent ''
     @ ''of the same head: the removed heads'' @ [CHR 0x27]
     @ '' SHAs when both removals name one, else no commit or force-push between in timeline order)''"

definition ejections_source :: string where
  "ejections_source = ''timelineItems.nodes[] (failed_checks/merge_conflict RemovedFromMergeQueueEvent whose ''
     @ ''removed head is headRefOid; a removal naming no head counts once it follows the first push of headRefOid)''"

definition known_heads_of :: "json list \<Rightarrow> string option \<Rightarrow> string list" where
  "known_heads_of nodes head_oid =
     List.map_filter pushed_oid nodes @ (case head_oid of None \<Rightarrow> [] | Some h \<Rightarrow> [h])"

definition removed_heads_of :: "json list \<Rightarrow> string option \<Rightarrow> string option list" where
  "removed_heads_of nodes head_oid =
     map (\<lambda>node. if is_removal node then removed_head (known_heads_of nodes head_oid) node else None) nodes"

definition ejection_of ::
  "(string \<Rightarrow> time option) \<Rightarrow> json list \<Rightarrow> string option \<Rightarrow> (nat \<times> string \<times> string option) option
     \<Rightarrow> ejection option" where
  "ejection_of parse_time nodes head_oid last_removal =
     map_option (\<lambda>(index, reason, at).
         let removed = removed_heads_of nodes head_oid ! index;
             (since, basis) = new_head_since parse_time nodes index removed head_oid
         in \<lparr>ej_reason = reason, ej_at = at, ej_new_head_since = since, ej_removed_head = removed,
             ej_new_head_basis = basis, ej_timeline_index = index,
             ej_merge_group_commit = Option.bind (json_path [''beforeCommit'', ''oid''] (nodes ! index)) as_str\<rparr>)
       (option_filter (\<lambda>(_, reason, _). \<not> eq_ignore_ascii_case reason ''merged'') last_removal)"

definition ejection_fact :: "string \<Rightarrow> string option \<Rightarrow> ejection \<Rightarrow> queue_fact" where
  "ejection_fact root head_oid e = fact_of root ''last_ejection''
     (JObject [(''at'', opt_json JString (ej_at e)), (''basis'', JString (basis_name (ej_new_head_basis e))),
        (''head'', opt_json JString head_oid), (''new_head_since'', JBool (ej_new_head_since e)),
        (''reason'', JString (ej_reason e)), (''removed_head'', opt_json JString (ej_removed_head e))])
     (''timelineItems.nodes['' @ show_nat (ej_timeline_index e) @ ''] (RemovedFromMergeQueueEvent; ''
        @ basis_text (ej_new_head_basis e) @ '')'')"

definition truncated_detail :: string where
  "truncated_detail = ''timelineItems window is truncated and contains no queue removal and ''
     @ ''no new head, so an older ejection of this head cannot be ruled out''"

definition queue_state_of ::
  "string \<Rightarrow> bool \<Rightarrow> json option \<Rightarrow> json option \<Rightarrow> bool option \<Rightarrow> timeline_walk \<Rightarrow> ejection option
     \<Rightarrow> pr_queue_state" where
  "queue_state_of state in_queue entry auto_merge complete w eject =
     (let s = to_ascii_uppercase state; requeues = tw_requeues w
      in if s = ''MERGED'' then QMerged
         else if s = ''CLOSED'' then QClosed
         else if s = ''OPEN'' then
           (if in_queue then QQueued (Option.bind entry (get_str ''state''))
              (Option.bind (Option.bind entry (json_get ''position'')) as_u64) requeues
            else if auto_merge \<noteq> None then QArmedNotQueued (Option.bind auto_merge (get_str ''enabledAt'')) requeues
            else case eject of
                Some e \<Rightarrow> QEjected (ej_reason e) (ej_at e) (ej_new_head_since e) requeues
              | None \<Rightarrow>
                  if complete = Some False \<and> tw_last_removal w = None \<and> tw_last_new_head w = None
                  then QUnknown truncated_detail else QNeverArmed)
         else QUnknown (''unrecognized pull request state `'' @ s @ ''`''))"

definition explain_timeline ::
  "(string \<Rightarrow> time option) \<Rightarrow> string \<Rightarrow> json \<Rightarrow> string \<Rightarrow> bool \<Rightarrow> json list \<Rightarrow> queue_fact list
     \<Rightarrow> pr_queue_report" where
  "explain_timeline parse_time root pr state in_queue nodes facts =
     (let head_oid = get_str ''headRefOid'' pr;
          complete = map_option Not
            (Option.bind (json_path [''timelineItems'', ''pageInfo'', ''hasPreviousPage''] pr) as_bool);
          removed_heads = removed_heads_of nodes head_oid;
          w = walk_timeline nodes removed_heads (if in_queue then head_oid else None);
          eject = ejection_of parse_time nodes head_oid (tw_last_removal w);
          count = count_ejections_of_head nodes removed_heads head_oid
      in \<lparr>qr_pr = Option.bind (json_get ''number'' pr) as_u64,
          qr_head_oid = head_oid,
          qr_state = queue_state_of state in_queue (non_null ''mergeQueueEntry'' pr)
            (non_null ''autoMergeRequest'' pr) complete w eject,
          qr_last_ejection = eject,
          qr_requeues_without_new_head = tw_requeues w,
          qr_ejections_of_current_head = count,
          qr_timeline_complete = complete,
          qr_facts = facts
            @ [fact_of root ''timeline_complete'' (opt_json JBool complete) ''timelineItems.pageInfo.hasPreviousPage'',
               fact_of root ''requeues_without_new_head'' (u32_json (tw_requeues w))
                 (requeues_source (tw_requeue_indices w)),
               fact_of root ''ejections_of_current_head'' (u32_json count) ejections_source]
            @ (case eject of None \<Rightarrow> [] | Some e \<Rightarrow> [ejection_fact root head_oid e])\<rparr>)"

definition explain_pr_queue_state :: "(string \<Rightarrow> time option) \<Rightarrow> json \<Rightarrow> pr_queue_report" where
  "explain_pr_queue_state parse_time response =
     (let errors = unwrap_or (Option.bind (json_get ''errors'' response) as_array) []
      in if errors \<noteq> []
         then unknown_report (''GraphQL errors: '' @ join ''; '' (List.map_filter (get_str ''message'') errors)) []
         else case pull_request_node response of
           None \<Rightarrow> unknown_report ''response carries no pull request object'' []
         | Some (pr, root) \<Rightarrow> (case get_str ''state'' pr of
             None \<Rightarrow> unknown_report (root @ ''.state is missing'') []
           | Some state \<Rightarrow>
               let facts1 = [fact_of root ''state'' (JString state) ''state'']
               in case Option.bind (json_get ''isInMergeQueue'' pr) as_bool of
                 None \<Rightarrow> unknown_report (root @ ''.isInMergeQueue is missing'') facts1
               | Some in_queue \<Rightarrow>
                   let facts2 = facts1
                     @ [fact_of root ''is_in_merge_queue'' (JBool in_queue) ''isInMergeQueue'',
                        fact_of root ''merge_queue_entry'' (opt_json id (non_null ''mergeQueueEntry'' pr)) ''mergeQueueEntry'',
                        fact_of root ''auto_merge_request'' (opt_json id (non_null ''autoMergeRequest'' pr)) ''autoMergeRequest'']
                   in case Option.bind (json_path [''timelineItems'', ''nodes''] pr) as_array of
                     None \<Rightarrow> unknown_report (root @ ''.timelineItems.nodes is missing'') facts2
                   | Some nodes \<Rightarrow> explain_timeline parse_time root pr state in_queue nodes facts2))"

definition classify_pr_queue_state :: "(string \<Rightarrow> time option) \<Rightarrow> json \<Rightarrow> pr_queue_state" where
  "classify_pr_queue_state parse_time response = qr_state (explain_pr_queue_state parse_time response)"

definition state_class :: "pr_queue_state \<Rightarrow> string" where
  "state_class s = (case s of QMerged \<Rightarrow> ''merged'' | QClosed \<Rightarrow> ''closed'' | QQueued _ _ _ \<Rightarrow> ''queued''
     | QArmedNotQueued _ _ \<Rightarrow> ''armed_not_queued'' | QNeverArmed \<Rightarrow> ''never_armed''
     | QEjected _ _ _ _ \<Rightarrow> ''ejected'' | QUnknown _ \<Rightarrow> ''unknown'')"

section \<open>What the walk computes\<close>

definition is_add :: "json \<Rightarrow> bool" where
  "is_add node = (typename node = Some ''AddedToMergeQueueEvent'')"

definition is_push :: "json \<Rightarrow> bool" where
  "is_push node = is_new_head (unwrap_or (typename node) [])"

definition removal_reason :: "json \<Rightarrow> string" where
  "removal_reason node = unwrap_or (get_str ''reason'' node) ''UNKNOWN''"

definition is_hazard :: "json \<Rightarrow> bool" where
  "is_hazard node = (is_removal node \<and> same_head_requeue_cascades (removal_reason node))"

text \<open>The removal at \<open>r\<close> cascades and neither a removal nor an addition follows it.\<close>

definition hazard_open :: "json list \<Rightarrow> nat \<Rightarrow> bool" where
  "hazard_open ms r = (r < length ms \<and> is_hazard (ms ! r)
     \<and> (\<forall>k. r < k \<longrightarrow> k < length ms \<longrightarrow> \<not> is_removal (ms ! k) \<and> \<not> is_add (ms ! k)))"

definition pushed_since :: "json list \<Rightarrow> nat \<Rightarrow> bool" where
  "pushed_since ms r = (\<exists>k. r < k \<and> k < length ms \<and> is_push (ms ! k))"

text \<open>
  The addition at \<open>i\<close> re-adds the unchanged head: it is the first queue event after a cascading
  removal, and the commit ids say so, or they cannot say and no push lies between.
\<close>

definition requeue_at :: "json list \<Rightarrow> string option list \<Rightarrow> string option \<Rightarrow> nat \<Rightarrow> bool" where
  "requeue_at nodes heads queued i = (i < length nodes \<and> is_add (nodes ! i)
     \<and> (\<exists>r. hazard_open (take i nodes) r
          \<and> unwrap_or (same_head_re_add nodes heads r i queued) (\<not> pushed_since (take i nodes) r)))"

lemma hazard_open_unique: "hazard_open ms r \<Longrightarrow> hazard_open ms r' \<Longrightarrow> r = r'"
  by (rule linorder_cases [of r r']) (auto simp: hazard_open_def is_hazard_def)

lemma node_kind_cases:
  obtains (push) "is_push x" "\<not> is_removal x" "\<not> is_add x"
    | (removal) "\<not> is_push x" "is_removal x" "\<not> is_add x"
    | (add) "\<not> is_push x" "\<not> is_removal x" "is_add x"
    | (other) "\<not> is_push x" "\<not> is_removal x" "\<not> is_add x"
proof -
  have "is_push x \<Longrightarrow> \<not> is_removal x \<and> \<not> is_add x" "\<not> (is_removal x \<and> is_add x)"
    by (auto simp: is_push_def is_removal_def is_add_def is_new_head_def unwrap_or_def)
  then show thesis using that by blast
qed

lemma hazard_open_snoc:
  "hazard_open (ms @ [x]) r \<longleftrightarrow>
     (if is_removal x then is_hazard x \<and> r = length ms else \<not> is_add x \<and> hazard_open ms r)"
proof (cases "r < length ms")
  case True
  have ne: "r \<noteq> length ms" using True by simp
  from True show ?thesis
    unfolding hazard_open_def all_after_snoc [where P = "\<lambda>y. \<not> is_removal y \<and> \<not> is_add y"]
    by (simp add: nth_append ne) blast
next
  case False
  have "is_hazard x \<Longrightarrow> is_removal x" by (simp add: is_hazard_def)
  with False show ?thesis by (cases "r = length ms") (auto simp: hazard_open_def)
qed

lemma pushed_since_snoc: "r < length ms \<Longrightarrow> pushed_since (ms @ [x]) r \<longleftrightarrow> is_push x \<or> pushed_since ms r"
  using all_after_snoc [of r ms x "\<lambda>y. \<not> is_push y"] unfolding pushed_since_def by blast

definition walk_spec :: "json list \<Rightarrow> string option list \<Rightarrow> string option \<Rightarrow> json list \<Rightarrow> timeline_walk \<Rightarrow> bool" where
  "walk_spec nodes heads queued ms w =
     (tw_requeue_indices w = filter (requeue_at nodes heads queued) [0..<length ms]
      \<and> tw_requeues w = of_nat (length (tw_requeue_indices w))
      \<and> (\<forall>r p. tw_hazard_pending w = Some (r, p) \<longleftrightarrow> hazard_open ms r \<and> p = pushed_since ms r)
      \<and> tw_last_removal w = map_option (\<lambda>i. (i, removal_reason (ms ! i), get_str ''createdAt'' (ms ! i)))
          (last_index is_removal ms)
      \<and> tw_last_new_head w = last_index is_push ms)"

lemma walk_step_cases:
  "walk_step nodes heads queued (i, x) w =
    (if is_push x then w\<lparr>tw_hazard_pending := map_option (\<lambda>(r, _). (r, True)) (tw_hazard_pending w),
            tw_last_new_head := Some i\<rparr>
     else if is_removal x then
       w\<lparr>tw_hazard_pending := if is_hazard x then Some (i, False) else None,
         tw_last_removal := Some (i, removal_reason x, get_str ''createdAt'' x)\<rparr>
     else if is_add x then
       (let requeue = is_some_and (tw_hazard_pending w) (\<lambda>(removal, pushed).
                unwrap_or (same_head_re_add nodes heads removal i queued) (\<not> pushed))
        in w\<lparr>tw_requeues := if requeue then tw_requeues w + 1 else tw_requeues w,
               tw_requeue_indices := if requeue then tw_requeue_indices w @ [i] else tw_requeue_indices w,
               tw_hazard_pending := None\<rparr>)
     else w)"
proof -
  have "unwrap_or (typename x) [] = ''RemovedFromMergeQueueEvent'' \<longleftrightarrow> is_removal x"
    "unwrap_or (typename x) [] = ''AddedToMergeQueueEvent'' \<longleftrightarrow> is_add x"
    by (auto simp: is_removal_def is_add_def unwrap_or_def split: option.splits)
  then show ?thesis
    by (simp add: walk_step_def is_push_def is_hazard_def removal_reason_def Let_def)
qed

lemma walk_spec_step:
  assumes spec: "walk_spec nodes heads queued ms w" and pre: "prefix (ms @ [x]) nodes"
  shows "walk_spec nodes heads queued (ms @ [x]) (walk_step nodes heads queued (length ms, x) w)"
proof -
  have ix: "tw_requeue_indices w = filter (requeue_at nodes heads queued) [0..<length ms]"
    and cnt: "tw_requeues w = of_nat (length (tw_requeue_indices w))"
    and hz: "\<And>r p. tw_hazard_pending w = Some (r, p) \<longleftrightarrow> hazard_open ms r \<and> p = pushed_since ms r"
    and rem: "tw_last_removal w = map_option (\<lambda>i. (i, removal_reason (ms ! i), get_str ''createdAt'' (ms ! i)))
          (last_index is_removal ms)"
    and psh: "tw_last_new_head w = last_index is_push ms"
    using spec unfolding walk_spec_def by blast+
  have at: "nodes ! length ms = x" "length ms < length nodes" "take (length ms) nodes = ms"
    using pre by (auto simp: prefix_def)
  have re: "requeue_at nodes heads queued (length ms) \<longleftrightarrow> is_add x
      \<and> is_some_and (tw_hazard_pending w) (\<lambda>(removal, pushed).
          unwrap_or (same_head_re_add nodes heads removal (length ms) queued) (\<not> pushed))"
  proof (cases "tw_hazard_pending w")
    case None
    then have "\<not> hazard_open ms r" for r using hz [of r "pushed_since ms r"] by simp
    with None show ?thesis by (simp add: requeue_at_def at is_some_and_def)
  next
    case (Some h)
    obtain r p where h: "h = (r, p)" by (cases h)
    with Some have "hazard_open ms r" "p = pushed_since ms r" using hz [of r p] by auto
    moreover from this have "hazard_open ms q \<longleftrightarrow> q = r" for q using hazard_open_unique by blast
    ultimately show ?thesis using Some h at(2) by (simp add: requeue_at_def at is_some_and_def)
  qed
  have open_lt: "hazard_open ms r \<Longrightarrow> r < length ms" for r by (simp add: hazard_open_def)
  have nopush: "pushed_since (ms @ [x]) (length ms) \<longleftrightarrow> False"
    by (simp add: pushed_since_def)
  have hz': "tw_hazard_pending (walk_step nodes heads queued (length ms, x) w) = Some (r, p) \<longleftrightarrow>
      hazard_open (ms @ [x]) r \<and> p = pushed_since (ms @ [x]) r" for r p
    by (cases x rule: node_kind_cases)
       (auto simp: walk_step_cases hazard_open_snoc pushed_since_snoc open_lt nopush hz Let_def)
  have "tw_requeue_indices (walk_step nodes heads queued (length ms, x) w)
      = tw_requeue_indices w @ (if requeue_at nodes heads queued (length ms) then [length ms] else [])"
    "tw_requeues (walk_step nodes heads queued (length ms, x) w)
      = tw_requeues w + (if requeue_at nodes heads queued (length ms) then 1 else 0)"
    "tw_last_removal (walk_step nodes heads queued (length ms, x) w)
      = (if is_removal x then Some (length ms, removal_reason x, get_str ''createdAt'' x) else tw_last_removal w)"
    "tw_last_new_head (walk_step nodes heads queued (length ms, x) w)
      = (if is_push x then Some (length ms) else tw_last_new_head w)"
    by (cases x rule: node_kind_cases; simp add: re walk_step_cases Let_def)+
  then show ?thesis
    unfolding walk_spec_def
      map_option_last_index_snoc [where f = "\<lambda>i y. (i, removal_reason y, get_str ''createdAt'' y)"]
    unfolding last_index_snoc using hz' by (simp add: ix cnt rem psh)
qed

lemma walk_spec_all:
  "prefix ms nodes \<Longrightarrow> walk_spec nodes heads queued ms (fold (walk_step nodes heads queued) (enumerate 0 ms) walk_start)"
proof (induction ms rule: rev_induct)
  case Nil
  then show ?case by (simp add: walk_spec_def walk_start_def hazard_open_def)
next
  case (snoc x ms)
  have "prefix ms nodes" using snoc.prems by (rule append_prefixD)
  from walk_spec_step [OF snoc.IH [OF this] snoc.prems] show ?case
    by (simp add: enumerate_append_eq)
qed

lemma walk_timeline_spec: "walk_spec nodes heads queued nodes (walk_timeline nodes heads queued)"
  unfolding walk_timeline_def by (rule walk_spec_all) simp

lemma walk_last_removal:
  "tw_last_removal (walk_timeline nodes heads queued) =
     map_option (\<lambda>i. (i, removal_reason (nodes ! i), get_str ''createdAt'' (nodes ! i))) (last_index is_removal nodes)"
  and walk_last_new_head: "tw_last_new_head (walk_timeline nodes heads queued) = last_index is_push nodes"
  using walk_timeline_spec [of nodes heads queued] unfolding walk_spec_def by blast+

text \<open>
  The requeue count of the single walk is exact: the indices it reports are precisely the
  additions that re-add an unchanged head (the first queue event after a \<open>failed_checks\<close> or
  \<open>merge_conflict\<close> removal, same head by the commit ids or, where those cannot say, with no push in
  between), in timeline order, and the counter is their number at 32 bits.
\<close>

theorem requeues_exact:
  "tw_requeue_indices (walk_timeline nodes heads queued)
     = filter (requeue_at nodes heads queued) [0..<length nodes]
   \<and> tw_requeues (walk_timeline nodes heads queued)
     = of_nat (card {i. requeue_at nodes heads queued i})"
proof -
  have "{i. requeue_at nodes heads queued i} = set (filter (requeue_at nodes heads queued) [0..<length nodes])"
    by (auto simp: requeue_at_def)
  moreover have "distinct (filter (requeue_at nodes heads queued) [0..<length nodes])" by simp
  ultimately have "card {i. requeue_at nodes heads queued i}
      = length (filter (requeue_at nodes heads queued) [0..<length nodes])"
    using distinct_card by metis
  then show ?thesis using walk_timeline_spec [of nodes heads queued] unfolding walk_spec_def by simp
qed

section \<open>What a verdict rests on\<close>

text \<open>
  A readable, error-free response: its pull request object, the declared state, queue membership
  and timeline.
\<close>

definition readable_pr :: "json \<Rightarrow> json \<Rightarrow> string \<Rightarrow> bool \<Rightarrow> json list \<Rightarrow> bool" where
  "readable_pr response pr state in_queue nodes =
     (unwrap_or (Option.bind (json_get ''errors'' response) as_array) [] = []
      \<and> map_option fst (pull_request_node response) = Some pr
      \<and> get_str ''state'' pr = Some state
      \<and> Option.bind (json_get ''isInMergeQueue'' pr) as_bool = Some in_queue
      \<and> Option.bind (json_path [''timelineItems'', ''nodes''] pr) as_array = Some nodes)"

text \<open>No new head since the removal at \<open>i\<close> of the pull request at \<open>live\<close>.\<close>

definition head_unchanged :: "(string \<Rightarrow> time option) \<Rightarrow> json list \<Rightarrow> string \<Rightarrow> nat \<Rightarrow> bool" where
  "head_unchanged parse_time nodes live i = (case removed_heads_of nodes (Some live) ! i of
       Some removed \<Rightarrow> eq_ignore_ascii_case removed live
     | None \<Rightarrow> \<not> list_ex (pushes_head live) (drop (i + 1) nodes)
         \<and> \<not> suite_after_removal parse_time nodes i live)"

lemma new_head_since_unchanged:
  "fst (new_head_since parse_time nodes i (removed_heads_of nodes (Some live) ! i) (Some live))
     = (\<not> head_unchanged parse_time nodes live i)"
  by (simp add: new_head_since_def head_unchanged_def split: option.split)

lemma explain_cases:
  obtains (unreadable) detail facts where
      "explain_pr_queue_state parse_time response = unknown_report detail facts"
      "\<And>pr state in_queue nodes. \<not> readable_pr response pr state in_queue nodes"
  | (readable) pr state in_queue nodes root facts where
      "readable_pr response pr state in_queue nodes"
      "explain_pr_queue_state parse_time response =
         explain_timeline parse_time root pr state in_queue nodes facts"
proof -
  let ?e = "unwrap_or (Option.bind (json_get ''errors'' response) as_array) []"
  consider (err) "?e \<noteq> []" | (node) "?e = []" "pull_request_node response = None"
    | (pr) pr root where "?e = []" "pull_request_node response = Some (pr, root)"
    by (cases "pull_request_node response") auto
  then show thesis
  proof cases
    case err
    then show ?thesis by (intro unreadable) (simp_all add: explain_pr_queue_state_def readable_pr_def)
  next
    case node
    then show ?thesis by (intro unreadable) (simp_all add: explain_pr_queue_state_def readable_pr_def)
  next
    case pr
    note d = explain_pr_queue_state_def Let_def readable_pr_def pr
    show ?thesis
    proof (cases "get_str ''state'' pr")
      case None
      then show ?thesis by (intro unreadable) (auto simp: d)
    next
      case state: (Some state)
      show ?thesis
      proof (cases "Option.bind (json_get ''isInMergeQueue'' pr) as_bool")
        case None
        then show ?thesis by (intro unreadable) (auto simp: d state)
      next
        case queue: (Some in_queue)
        show ?thesis
        proof (cases "Option.bind (json_path [''timelineItems'', ''nodes''] pr) as_array")
          case None
          then show ?thesis by (intro unreadable) (auto simp: d state queue)
        next
          case nodes: (Some nodes)
          show ?thesis
          proof (rule readable)
            show "readable_pr response pr state in_queue nodes"
              by (simp only: readable_pr_def pr state queue nodes option.map fst_conv simp_thms)
          qed (simp only: d state queue nodes option.case prod.case not_True_eq_False if_False simp_thms)
        qed
      qed
    qed
  qed
qed

lemma readable_pr_unique:
  "readable_pr r pr s q ns \<Longrightarrow> readable_pr r pr' s' q' ns' \<longleftrightarrow> pr' = pr \<and> s' = s \<and> q' = q \<and> ns' = ns"
  by (auto simp: readable_pr_def)

lemma cascades_not_merged: "same_head_requeue_cascades r \<Longrightarrow> \<not> eq_ignore_ascii_case r ''merged''"
  unfolding same_head_requeue_cascades_def retry_hazard_reasons_def eq_ignore_ascii_case_def
  by (auto simp: to_ascii_lowercase_def ascii_lower_char_def)

lemma ejection_of_walk:
  "ejection_of parse_time nodes head_oid (tw_last_removal (walk_timeline nodes heads queued)) =
     (case last_index is_removal nodes of
        None \<Rightarrow> None
      | Some i \<Rightarrow> if eq_ignore_ascii_case (removal_reason (nodes ! i)) ''merged'' then None
          else Some (let removed = removed_heads_of nodes head_oid ! i;
             (since, basis) = new_head_since parse_time nodes i removed head_oid
         in \<lparr>ej_reason = removal_reason (nodes ! i), ej_at = get_str ''createdAt'' (nodes ! i),
             ej_new_head_since = since, ej_removed_head = removed,
             ej_new_head_basis = basis, ej_timeline_index = i,
             ej_merge_group_commit = Option.bind (json_path [''beforeCommit'', ''oid''] (nodes ! i)) as_str\<rparr>))"
  by (simp add: ejection_of_def walk_last_removal option_filter_def split: option.split)

lemma queue_state_of_ejected:
  "queue_state_of state in_queue entry auto_merge complete w eject = QEjected r a n q \<longleftrightarrow>
     to_ascii_uppercase state = ''OPEN'' \<and> \<not> in_queue \<and> auto_merge = None \<and> q = tw_requeues w
     \<and> (\<exists>e. eject = Some e \<and> r = ej_reason e \<and> a = ej_at e \<and> n = ej_new_head_since e)"
  by (auto simp: queue_state_of_def Let_def split: option.splits)

lemma verdict_refuse:
  "internal_enqueue_verdict_of report head = RefuseEjectedSameHead reason at \<longleftrightarrow>
     (\<exists>q live. qr_state report = QEjected reason at False q \<and> same_head_requeue_cascades reason
        \<and> qr_head_oid report = Some live \<and> eq_ignore_ascii_case live head)"
  by (auto simp: internal_enqueue_verdict_of_def is_some_and_def split: pr_queue_state.splits option.splits)

lemma explain_timeline_refuse:
  "internal_enqueue_verdict_of (explain_timeline parse_time root pr state in_queue nodes facts) head
       = RefuseEjectedSameHead reason at \<longleftrightarrow>
     \<not> in_queue \<and> to_ascii_uppercase state = ''OPEN'' \<and> non_null ''autoMergeRequest'' pr = None
     \<and> (\<exists>live i. get_str ''headRefOid'' pr = Some live \<and> eq_ignore_ascii_case live head
          \<and> last_index is_removal nodes = Some i \<and> reason = removal_reason (nodes ! i)
          \<and> at = get_str ''createdAt'' (nodes ! i) \<and> same_head_requeue_cascades reason
          \<and> head_unchanged parse_time nodes live i)"
  (is "?l \<longleftrightarrow> ?r")
proof -
  let ?live = "get_str ''headRefOid'' pr"
  have eject: "(\<exists>e. ejection_of parse_time nodes ?live
        (tw_last_removal (walk_timeline nodes heads queued)) = Some e
        \<and> reason = ej_reason e \<and> at = ej_at e \<and> False = ej_new_head_since e) \<longleftrightarrow>
      (\<exists>i. last_index is_removal nodes = Some i \<and> reason = removal_reason (nodes ! i)
         \<and> \<not> eq_ignore_ascii_case reason ''merged'' \<and> at = get_str ''createdAt'' (nodes ! i)
         \<and> \<not> fst (new_head_since parse_time nodes i (removed_heads_of nodes ?live ! i) ?live))" for heads queued
    by (auto simp: ejection_of_walk Let_def split: option.splits prod.splits)
  show ?thesis
    unfolding verdict_refuse explain_timeline_def Let_def pr_queue_report.simps queue_state_of_ejected eject
    using new_head_since_unchanged cascades_not_merged by (cases ?live) auto
qed

text \<open>
  (C7) Re-enqueueing a head is refused exactly when the queue removed that head and nothing newer
  exists: a readable response of an open pull request that is neither queued nor armed, whose
  last queue removal was for \<open>failed_checks\<close> or \<open>merge_conflict\<close>, whose live head is the one asked
  for, and where the removal names that head, or names none and neither a later push of it nor a
  check suite created after the removal is visible.
\<close>

theorem enqueue_refused_iff:
  "internal_enqueue_verdict_of (explain_pr_queue_state parse_time response) head
       = RefuseEjectedSameHead reason at \<longleftrightarrow>
     (\<exists>pr state nodes live i. readable_pr response pr state False nodes
        \<and> to_ascii_uppercase state = ''OPEN'' \<and> non_null ''autoMergeRequest'' pr = None
        \<and> get_str ''headRefOid'' pr = Some live \<and> eq_ignore_ascii_case live head
        \<and> last_index is_removal nodes = Some i \<and> reason = removal_reason (nodes ! i)
        \<and> at = get_str ''createdAt'' (nodes ! i) \<and> same_head_requeue_cascades reason
        \<and> head_unchanged parse_time nodes live i)"
proof (cases rule: explain_cases [of parse_time response])
  case (unreadable detail facts)
  then show ?thesis by (simp add: verdict_refuse unknown_report_def)
next
  case (readable pr state in_queue nodes root facts)
  show ?thesis
    unfolding readable(2) explain_timeline_refuse readable_pr_unique [OF readable(1)] by auto
qed

lemma is_removal_not_push: "is_removal node \<Longrightarrow> \<not> pushes_head h node"
  by (auto simp: is_removal_def pushes_head_def pushed_oid_def is_some_and_def split: option.splits)

lemma count_ejections_pos:
  assumes "i < length nodes" and "length nodes < 2 ^ 32"
    and "ejection_charged heads h (find_index (pushes_head h) nodes) (i, nodes ! i)"
  shows "0 < count_ejections_of_head nodes heads (Some h)"
proof -
  let ?charged = "filter (ejection_charged heads h (find_index (pushes_head h) nodes)) (enumerate 0 nodes)"
  have "(i, nodes ! i) \<in> set (enumerate 0 nodes)" using assms(1) by (simp add: in_set_enumerate_eq)
  with assms(3) have "?charged \<noteq> []" by (auto simp: filter_empty_conv)
  moreover have "length ?charged < 2 ^ 32"
    using assms(2) by (intro le_less_trans [OF length_filter_le]) simp
  ultimately have "unat (of_nat (length ?charged) :: u32) \<noteq> 0"
    by (simp add: unat_of_nat)
  then have "(of_nat (length ?charged) :: u32) \<noteq> 0" by auto
  then show ?thesis by (simp add: count_ejections_of_head_def count_fold word_neq_0_conv)
qed

lemma unchanged_is_charged:
  assumes "last_index is_removal nodes = Some i" and "same_head_requeue_cascades (removal_reason (nodes ! i))"
    and "head_unchanged parse_time nodes live i"
  shows "ejection_charged (removed_heads_of nodes (Some live)) live (find_index (pushes_head live) nodes) (i, nodes ! i)"
proof -
  have i: "i < length nodes" "is_removal (nodes ! i)" using assms(1) by (simp_all add: last_index_Some_iff)
  have reason: "same_head_requeue_cascades (unwrap_or (get_str ''reason'' (nodes ! i)) [])"
    using assms(2) unfolding removal_reason_def
    by (cases "get_str ''reason'' (nodes ! i)")
       (simp_all add: unwrap_or_def same_head_requeue_cascades_def retry_hazard_reasons_def eq_ignore_ascii_case_def
         to_ascii_lowercase_def ascii_lower_char_def)
  have heads: "list_get (removed_heads_of nodes (Some live)) i = Some (removed_heads_of nodes (Some live) ! i)"
    using i(1) by (simp add: list_get_def removed_heads_of_def)
  have "p < i" if "removed_heads_of nodes (Some live) ! i = None" "find_index (pushes_head live) nodes = Some p" for p
  proof (rule ccontr)
    assume "\<not> p < i"
    have p: "p < length nodes" "pushes_head live (nodes ! p)" using find_index_Some [OF that(2)] by simp_all
    with i(2) is_removal_not_push have "p \<noteq> i" by metis
    with \<open>\<not> p < i\<close> have "i < p" by simp
    then have "nodes ! p \<in> set (drop (i + 1) nodes)" using p(1)
      by (auto simp: in_set_conv_nth intro!: exI [of _ "p - (i + 1)"])
    with p(2) assms(3) that(1) show False by (auto simp: head_unchanged_def list_ex_iff)
  qed
  with assms(3) show ?thesis
    using i reason unfolding ejection_charged_def
    by (auto simp: head_unchanged_def heads split: option.splits)
qed

text \<open>
  The two readings of a removal agree: whenever a re-enqueue is refused, the independent count of
  ejections of the current head is positive, so a refusal always comes with the removal it rests
  on. The timeline is shorter than \<open>2\<^sup>3\<^sup>2\<close> items (the query asks for 100), so the 32-bit
  count does not wrap.
\<close>

theorem refused_head_was_ejected:
  assumes "internal_enqueue_verdict_of (explain_pr_queue_state parse_time response) head
      = RefuseEjectedSameHead reason at"
    and "readable_pr response pr state in_queue nodes" and "length nodes < 2 ^ 32"
  shows "0 < qr_ejections_of_current_head (explain_pr_queue_state parse_time response)"
proof (cases rule: explain_cases [of parse_time response])
  case (unreadable detail facts)
  with assms(2) show ?thesis by blast
next
  case (readable pr' state' in_queue' nodes' root facts)
  have nodes: "nodes' = nodes" using readable_pr_unique [OF readable(1), THEN iffD1, OF assms(2)] by simp
  from assms(1) obtain live i where h: "get_str ''headRefOid'' pr' = Some live"
      "last_index is_removal nodes = Some i" "same_head_requeue_cascades (removal_reason (nodes ! i))"
      "head_unchanged parse_time nodes live i"
    unfolding readable(2) explain_timeline_refuse nodes by (elim conjE exE) (rule that, simp_all)
  have "i < length nodes" using h(2) by (simp add: last_index_Some_iff)
  from count_ejections_pos [OF this assms(3) unchanged_is_charged [OF h(2-4)]]
  show ?thesis unfolding readable(2) explain_timeline_def nodes by (simp add: h(1) Let_def)
qed

text \<open>
  ``Never armed'' is not the answer to a window that could hide an ejection: it is given exactly
  for a readable open pull request that is neither queued nor armed, whose last visible removal,
  if any, was its merge, and whose timeline window is not known to be cut off, or shows that
  removal or a push.
\<close>

theorem never_armed_iff:
  "classify_pr_queue_state parse_time response = QNeverArmed \<longleftrightarrow>
     (\<exists>pr state nodes. readable_pr response pr state False nodes
        \<and> to_ascii_uppercase state = ''OPEN'' \<and> non_null ''autoMergeRequest'' pr = None
        \<and> (\<forall>i. last_index is_removal nodes = Some i \<longrightarrow>
              eq_ignore_ascii_case (removal_reason (nodes ! i)) ''merged'')
        \<and> (Option.bind (json_path [''timelineItems'', ''pageInfo'', ''hasPreviousPage''] pr) as_bool = Some True
             \<longrightarrow> list_ex (\<lambda>n. is_removal n \<or> is_push n) nodes))"
proof (cases rule: explain_cases [of parse_time response])
  case (unreadable detail facts)
  then show ?thesis by (simp add: classify_pr_queue_state_def unknown_report_def)
next
  case (readable pr state in_queue nodes root facts)
  have no_eject: "ejection_of parse_time nodes oid (tw_last_removal (walk_timeline nodes heads queued)) = None \<longleftrightarrow>
      (\<forall>i. last_index is_removal nodes = Some i \<longrightarrow>
         eq_ignore_ascii_case (removal_reason (nodes ! i)) ''merged'')" for oid heads queued
    by (simp add: ejection_of_walk Let_def split: option.split)
  have hidden: "tw_last_removal (walk_timeline nodes heads queued) = None
      \<and> tw_last_new_head (walk_timeline nodes heads queued) = None
      \<longleftrightarrow> \<not> list_ex (\<lambda>n. is_removal n \<or> is_push n) nodes" for heads queued
    by (auto simp: walk_last_removal walk_last_new_head last_index_None_iff list_ex_iff)
  have state: "queue_state_of state in_queue entry auto_merge complete w eject = QNeverArmed \<longleftrightarrow>
      to_ascii_uppercase state = ''OPEN'' \<and> \<not> in_queue \<and> auto_merge = None \<and> eject = None
      \<and> (complete = Some False \<longrightarrow> \<not> (tw_last_removal w = None \<and> tw_last_new_head w = None))"
    for entry auto_merge complete w eject
    by (auto simp: queue_state_of_def Let_def split: option.splits)
  show ?thesis
    unfolding classify_pr_queue_state_def readable(2) explain_timeline_def Let_def pr_queue_report.simps
      state no_eject hidden readable_pr_unique [OF readable(1)]
    by (cases "Option.bind (json_path [''timelineItems'', ''pageInfo'', ''hasPreviousPage''] pr) as_bool") auto
qed

section \<open>Witness\<close>

definition sample_timeline :: "json list" where
  "sample_timeline =
     [JObject [(''__typename'', JString ''PullRequestCommit''),
               (''commit'', JObject [(''oid'', JString ''aaaa'')])],
      JObject [(''__typename'', JString ''AddedToMergeQueueEvent'')],
      JObject [(''__typename'', JString ''RemovedFromMergeQueueEvent''),
               (''reason'', JString ''FAILED_CHECKS''), (''createdAt'', JString ''t1''),
               (''beforeCommit'', JObject [(''oid'', JString ''9999''), (''parents'',
                  JObject [(''nodes'', JArray [JObject [(''oid'', JString ''bbbb'')],
                                              JObject [(''oid'', JString ''aaaa'')]])])])]]"

definition sample_queue_response :: json where
  "sample_queue_response = JObject [(''data'', JObject [(''repository'', JObject [(''pullRequest'',
     JObject [(''number'', JNumber (PosInt 7)), (''state'', JString ''OPEN''),
              (''headRefOid'', JString ''aaaa''), (''isInMergeQueue'', JBool False),
              (''autoMergeRequest'', JNull),
              (''timelineItems'', JObject [(''nodes'', JArray sample_timeline)])])])])]"

theorem refused_head_was_ejected_witness:
  "internal_enqueue_verdict_of (explain_pr_queue_state (\<lambda>_. None) sample_queue_response) ''aaaa''
      = RefuseEjectedSameHead ''FAILED_CHECKS'' (Some ''t1'')
   \<and> 0 < qr_ejections_of_current_head (explain_pr_queue_state (\<lambda>_. None) sample_queue_response)"
proof
  show v: "internal_enqueue_verdict_of (explain_pr_queue_state (\<lambda>_. None) sample_queue_response) ''aaaa''
      = RefuseEjectedSameHead ''FAILED_CHECKS'' (Some ''t1'')" by code_simp
  have "\<exists>pr. readable_pr sample_queue_response pr ''OPEN'' False sample_timeline"
    by (simp add: readable_pr_def sample_queue_response_def pull_request_node_def option_filter_def is_object_def
        get_str_def as_str_def as_bool_def as_array_def unwrap_or_def)
  then obtain pr where "readable_pr sample_queue_response pr ''OPEN'' False sample_timeline" by blast
  from refused_head_was_ejected [OF v this]
  show "0 < qr_ejections_of_current_head (explain_pr_queue_state (\<lambda>_. None) sample_queue_response)"
    by (simp add: sample_timeline_def)
qed

end
