(* ===== verification/Queue_Liveness.thy ===== *)
theory Queue_Liveness
  imports Merge_Steward Json_Value
begin

text \<open>
  Merge-queue and release liveness, \<open>src/src/merge_queue_liveness.rs\<close>: parsing the queue and check
  observations, the current observation per check name, stalled and failed required contexts, the
  jobs that hold eligible capacity away from the front, the report with its reason codes, and
  release freshness. chrono's parser and its printing, and the printing of a JSON value, are
  parameters. The lemmas show that one latest observation decides each check, that an alarm needs
  an aged front, that the front's own run is never an occupier, and that a report asks for
  attention exactly when it carries an actionable reason.
\<close>

section \<open>Data\<close>

record merge_queue_entry =
  mqe_pr :: u64
  mqe_position :: u64
  mqe_head_sha :: "string option"
  mqe_enqueued_at :: "string option"
  mqe_head_observed_at :: "string option"

record check_observation =
  co_name :: string
  co_status :: string
  co_started_at :: "string option"
  co_conclusion :: "string option"

record job_observation =
  jo_name :: string
  jo_status :: string
  jo_runner_name :: "string option"
  jo_labels :: "string list"

record active_run_observation =
  aro_run_id :: u64
  aro_workflow :: string
  aro_head_branch :: string
  aro_head_sha :: "string option"
  aro_status :: string
  aro_created_at :: "string option"
  aro_pull_requests :: "u64 list"
  aro_url :: "string option"
  aro_jobs :: "job_observation list"

datatype occupier_kind = OptionalNonQueue | NonFront | SupersededRun

datatype liveness_reason =
    QueueEmpty
  | NormalSerialWait
  | FrontRequiredStaleOrMissing
  | FrontRequiredFailed
  | IdleEligibleCapacity
  | OptionalCapacityTheft
  | SupersededCapacityTheft
  | NonFrontCapacityOwner
  | AutoMergeEnrollmentCleared
  | ObservationTruncated

record capacity_occupier =
  occ_run_id :: u64
  occ_pr :: "u64 option"
  occ_workflow :: string
  occ_job :: string
  occ_runner_name :: string
  occ_kind :: occupier_kind
  occ_url :: "string option"

record merge_queue_liveness_report =
  qlr_front :: "merge_queue_entry option"
  qlr_required_contexts :: "string list"
  qlr_materialized_required_checks :: nat
  qlr_progressed_required_checks :: nat
  qlr_stalled_required_contexts :: "string list"
  qlr_failed_required_contexts :: "string list"
  qlr_front_stalled_with_idle_capacity :: bool
  qlr_front_blocked_by_capacity_occupiers :: bool
  qlr_capacity_occupiers :: "capacity_occupier list"
  qlr_enrollment_cleared_prs :: "u64 list"
  qlr_reason_codes :: "liveness_reason list"

record release_liveness_report =
  rl_tag :: string
  rl_published_at :: string
  rl_commits_ahead :: u64
  rl_releasable_commits_ahead :: u64
  rl_oldest_releasable_commit_at :: "string option"
  rl_base_version :: "string option"
  rl_released_version :: string
  rl_version_unchanged :: "bool option"
  rl_open_release_incident_issues :: "u64 option"
  rl_latest_successful_release_workflow_at :: "string option"
  rl_age_secs :: int
  rl_stale_with_unreleased_commits :: bool

record merge_queue_liveness_inputs =
  li_entries :: "merge_queue_entry list"
  li_checks :: "check_observation list"
  li_active_runs :: "active_run_observation list"
  li_required_contexts :: "string list"
  li_eligible_host_classes :: "string list"
  li_routable_free_slots :: u32
  li_stall_threshold_secs :: int
  li_now :: time
  li_enrollment_cleared_prs :: "u64 list"
  li_observation_truncated :: bool

section \<open>Release freshness\<close>

text \<open>\<open>parse\<close> is \<open>DateTime::parse_from_rfc3339\<close>, its error on the left; \<open>shown\<close> prints a time.\<close>

definition release_age ::
  "(string \<Rightarrow> string + time) \<Rightarrow> (time \<Rightarrow> string) \<Rightarrow> time \<Rightarrow> time \<Rightarrow> u64 \<Rightarrow> string option \<Rightarrow> string + int" where
  "release_age parse shown published now releasable oldest = (case oldest of
       None \<Rightarrow> Inr (if 0 < releasable then max 0 (num_seconds (now - published)) else 0)
     | Some text \<Rightarrow> (case parse text of
         Inl e \<Rightarrow> Inl (''invalid oldest releasable commit timestamp: '' @ e)
       | Inr committed \<Rightarrow>
           if now < committed
           then Inl (''oldest releasable commit timestamp '' @ shown committed @ '' is in the future'')
           else Inr (max 0 (num_seconds (now - max committed published)))))"

definition trim_v :: "string \<Rightarrow> string" where
  "trim_v s = dropWhile (\<lambda>c. c = CHR ''v'') s"

definition assess_release_liveness ::
  "(string \<Rightarrow> string + time) \<Rightarrow> (time \<Rightarrow> string) \<Rightarrow> string \<Rightarrow> string \<Rightarrow> u64 \<Rightarrow> u64 \<Rightarrow> string option
     \<Rightarrow> string option \<Rightarrow> u64 option \<Rightarrow> string option \<Rightarrow> int \<Rightarrow> time \<Rightarrow> string + release_liveness_report" where
  "assess_release_liveness parse shown tag published_at commits_ahead releasable oldest base_version
      incidents workflow_at stale_threshold_secs now =
     (case parse published_at of
        Inl e \<Rightarrow> Inl (''invalid latest release published_at: '' @ e)
      | Inr published \<Rightarrow>
          if now < published
          then Inl (''latest release published_at '' @ shown published @ '' is in the future'')
          else result_bind (release_age parse shown published now releasable oldest) (\<lambda>age.
            Inr \<lparr>rl_tag = tag, rl_published_at = published_at, rl_commits_ahead = commits_ahead,
              rl_releasable_commits_ahead = releasable, rl_oldest_releasable_commit_at = oldest,
              rl_base_version = base_version, rl_released_version = trim_v tag,
              rl_version_unchanged = map_option (\<lambda>v. trim_v v = trim_v tag) base_version,
              rl_open_release_incident_issues = incidents,
              rl_latest_successful_release_workflow_at = workflow_at,
              rl_age_secs = age,
              rl_stale_with_unreleased_commits = (0 < releasable \<and> max 0 stale_threshold_secs \<le> age)\<rparr>))"

section \<open>Parsing\<close>

definition nonempty_text :: "string option \<Rightarrow> string option" where
  "nonempty_text t = option_filter (\<lambda>s. s \<noteq> []) t"

definition queue_error_detail :: "(json \<Rightarrow> string) \<Rightarrow> json \<Rightarrow> string" where
  "queue_error_detail json_text e = (case get_str ''message'' e of
       None \<Rightarrow> json_text e
     | Some message \<Rightarrow> message @ '' ('' @ json_text e @ '')'')"

definition parse_merge_queue_node :: "json \<Rightarrow> string + merge_queue_entry" where
  "parse_merge_queue_node node =
     result_bind (ok_or (Option.bind (json_path [''pullRequest'', ''number''] node) as_u64)
         ''merge-queue entry missing pullRequest.number'') (\<lambda>pr.
       result_bind (ok_or (Option.bind (json_get ''position'' node) as_u64)
           (''merge-queue entry for PR #'' @ show_nat pr @ '' missing position'')) (\<lambda>pos.
         Inr \<lparr>mqe_pr = pr, mqe_position = pos,
           mqe_head_sha = nonempty_text (Option.bind (json_path [''headCommit'', ''oid''] node) as_str),
           mqe_enqueued_at = nonempty_text (get_str ''enqueuedAt'' node),
           mqe_head_observed_at = None\<rparr>))"

definition parse_merge_queue_entries :: "(json \<Rightarrow> string) \<Rightarrow> json \<Rightarrow> string + merge_queue_entry list" where
  "parse_merge_queue_entries json_text body =
     (let errors = unwrap_or (Option.bind (json_get ''errors'' body) as_array) []
      in if errors \<noteq> []
         then Inl (''merge-queue GraphQL response contains errors: ''
                @ join ''; '' (map (queue_error_detail json_text) errors))
         else result_bind (ok_or (json_path [''data'', ''repository'', ''mergeQueue''] body)
             ''merge-queue response missing repository.mergeQueue'') (\<lambda>queue.
           if is_null queue then Inr []
           else result_bind (ok_or (Option.bind (json_path [''entries'', ''nodes''] queue) as_array)
               ''merge-queue response missing entries.nodes'') (\<lambda>nodes.
             result_bind (collect_results (map parse_merge_queue_node nodes)) (\<lambda>entries.
               Inr (sort_key mqe_position entries)))))"

definition parse_check_observation :: "json \<Rightarrow> check_observation option" where
  "parse_check_observation check =
     Option.bind (get_str ''name'' check) (\<lambda>name. Option.bind (get_str ''status'' check) (\<lambda>status.
       Some \<lparr>co_name = name, co_status = status,
         co_started_at = option_or (get_str ''started_at'' check) (get_str ''created_at'' check),
         co_conclusion = get_str ''conclusion'' check\<rparr>))"

definition parse_check_observations :: "json \<Rightarrow> string + check_observation list" where
  "parse_check_observations body =
     result_bind (ok_or (Option.bind (json_get ''check_runs'' body) as_array)
         ''check-runs response missing check_runs'') (\<lambda>checks.
       Inr (List.map_filter parse_check_observation checks))"

section \<open>Assessment\<close>

text \<open>An unreadable timestamp gives no start at all; otherwise the later of the present ones.\<close>

definition entry_liveness_started_at :: "(string \<Rightarrow> string + time) \<Rightarrow> merge_queue_entry \<Rightarrow> time option" where
  "entry_liveness_started_at parse entry =
     (let read = (\<lambda>t. case t of None \<Rightarrow> Some None
            | Some text \<Rightarrow> (case parse text of Inl _ \<Rightarrow> None | Inr time \<Rightarrow> Some (Some time)))
      in Option.bind (read (mqe_enqueued_at entry)) (\<lambda>enqueued.
           Option.bind (read (mqe_head_observed_at entry)) (\<lambda>observed.
             case (enqueued, observed) of
               (Some a, Some b) \<Rightarrow> Some (max a b)
             | (Some a, None) \<Rightarrow> Some a
             | (None, b) \<Rightarrow> b)))"

definition check_observation_recency :: "check_observation \<Rightarrow> bool \<times> string \<times> bool" where
  "check_observation_recency c =
     (co_started_at c = None \<and> \<not> eq_ignore_ascii_case (co_status c) ''completed'',
      unwrap_or (co_started_at c) [],
      eq_ignore_ascii_case (co_status c) ''completed'')"

definition observe_check ::
  "(string \<times> check_observation) list \<Rightarrow> check_observation \<Rightarrow> (string \<times> check_observation) list" where
  "observe_check m c =
     (let k = to_ascii_lowercase (co_name c)
      in case bt_get m k of
           Some observed \<Rightarrow>
             if check_observation_recency observed < check_observation_recency c then bt_insert k c m else m
         | None \<Rightarrow> bt_insert k c m)"

definition current_check_observations :: "check_observation list \<Rightarrow> check_observation list" where
  "current_check_observations checks = map snd (foldl observe_check [] checks)"

definition is_terminal_failure :: "string option \<Rightarrow> bool" where
  "is_terminal_failure conclusion =
     (conclusion \<in> Some ` {''failure'', ''cancelled'', ''timed_out'', ''action_required'', ''startup_failure'', ''stale''})"

definition delimited_class_match :: "string \<Rightarrow> string \<Rightarrow> bool" where
  "delimited_class_match value cls =
     (cls \<noteq> [] \<and> list_ex (\<lambda>start.
        let stop = start + length cls
        in eq_ignore_ascii_case (take (length cls) (drop start value)) cls
           \<and> (start = 0 \<or> \<not> is_ascii_alphanumeric (value ! (start - 1)))
           \<and> (stop = length value \<or> \<not> is_ascii_alphanumeric (value ! stop)))
      [0..<Suc (length value) - length cls])"

definition job_is_on_eligible_host :: "job_observation \<Rightarrow> string list \<Rightarrow> bool" where
  "job_is_on_eligible_host job classes =
     list_ex (\<lambda>value. list_ex (delimited_class_match value) classes)
       ((case jo_runner_name job of None \<Rightarrow> [] | Some n \<Rightarrow> [n]) @ jo_labels job)"

definition check_stalled :: "(string \<Rightarrow> string + time) \<Rightarrow> int \<Rightarrow> time \<Rightarrow> check_observation \<Rightarrow> bool" where
  "check_stalled parse threshold now c =
     (co_status c = ''queued''
      \<or> co_status c = ''in_progress'' \<and> is_some_and (co_started_at c) (\<lambda>text.
          case parse text of Inl _ \<Rightarrow> False
          | Inr started \<Rightarrow> max 0 threshold \<le> num_seconds (now - started)))"

definition stalled_contexts ::
  "(string \<Rightarrow> string + time) \<Rightarrow> check_observation list \<Rightarrow> string list \<Rightarrow> int \<Rightarrow> time \<Rightarrow> bool \<Rightarrow> string list" where
  "stalled_contexts parse checks required threshold now front_old_enough =
     (let stalled = check_stalled parse threshold now
      in if \<not> front_old_enough then []
         else if required = [] then
           (if checks = [] \<and> front_old_enough then [''at-least-one-current-head-check'']
            else map co_name (filter stalled checks))
         else filter (\<lambda>r.
           let matches = filter (\<lambda>c. eq_ignore_ascii_case r (co_name c)) checks
           in matches = [] \<or> list_all stalled matches) required)"

definition failed_contexts :: "check_observation list \<Rightarrow> string list \<Rightarrow> string list" where
  "failed_contexts checks required =
     (if required = []
      then sort_dedup (map co_name (filter (\<lambda>c. is_terminal_failure (co_conclusion c)) checks))
      else filter (\<lambda>r. list_ex (\<lambda>c. eq_ignore_ascii_case r (co_name c) \<and> is_terminal_failure (co_conclusion c))
             checks) required)"

definition exact_front :: "merge_queue_entry option \<Rightarrow> active_run_observation \<Rightarrow> bool" where
  "exact_front front run =
     (merge_group_pr (aro_head_branch run) = map_option mqe_pr front
      \<and> is_some_and (option_zip (Option.bind front mqe_head_sha) (aro_head_sha run)) (\<lambda>(f, r). f = r))"

definition occupier_kind_of :: "u64 option \<Rightarrow> u64 list \<Rightarrow> u64 option \<Rightarrow> occupier_kind" where
  "occupier_kind_of front_pr queued_prs merge_pr = (case merge_pr of
       None \<Rightarrow> OptionalNonQueue
     | Some pr \<Rightarrow> if Some pr = front_pr then SupersededRun
         else if pr \<in> set queued_prs then NonFront else SupersededRun)"

definition run_occupiers ::
  "merge_queue_entry option \<Rightarrow> u64 list \<Rightarrow> string list \<Rightarrow> active_run_observation \<Rightarrow> capacity_occupier list" where
  "run_occupiers front queued_prs classes run =
     (let merge_pr = merge_group_pr (aro_head_branch run)
      in if exact_front front run then []
         else List.map_filter (\<lambda>job.
           if jo_status job \<noteq> ''in_progress'' \<or> \<not> job_is_on_eligible_host job classes then None
           else map_option (\<lambda>runner. \<lparr>occ_run_id = aro_run_id run,
               occ_pr = option_or merge_pr (case aro_pull_requests run of [] \<Rightarrow> None | p # _ \<Rightarrow> Some p),
               occ_workflow = aro_workflow run, occ_job = jo_name job, occ_runner_name = runner,
               occ_kind = occupier_kind_of (map_option mqe_pr front) queued_prs merge_pr,
               occ_url = aro_url run\<rparr>) (jo_runner_name job)) (aro_jobs run))"

fun occupier_reason :: "occupier_kind \<Rightarrow> liveness_reason" where
  "occupier_reason OptionalNonQueue = OptionalCapacityTheft"
| "occupier_reason SupersededRun = SupersededCapacityTheft"
| "occupier_reason NonFront = NonFrontCapacityOwner"

definition push_occupier_reason ::
  "bool \<Rightarrow> liveness_reason list \<Rightarrow> capacity_occupier \<Rightarrow> liveness_reason list" where
  "push_occupier_reason blocked reasons occ =
     (if \<not> blocked \<and> occ_kind occ \<noteq> SupersededRun then reasons
      else let reason = occupier_reason (occ_kind occ)
        in if reason \<in> set reasons then reasons else reasons @ [reason])"

definition reason_if :: "bool \<Rightarrow> liveness_reason \<Rightarrow> liveness_reason list" where
  "reason_if b r = (if b then [r] else [])"

definition assess_merge_queue_liveness ::
  "(string \<Rightarrow> string + time) \<Rightarrow> merge_queue_liveness_inputs \<Rightarrow> merge_queue_liveness_report" where
  "assess_merge_queue_liveness parse i =
     (let front = min_by_key mqe_position (li_entries i);
          required = li_required_contexts i;
          front_old_enough = is_some_and front (\<lambda>e. is_some_and (entry_liveness_started_at parse e)
            (\<lambda>started. max 0 (li_stall_threshold_secs i) \<le> num_seconds (li_now i - started)));
          current = current_check_observations (li_checks i);
          matching = filter (\<lambda>c. required = [] \<or> list_ex (\<lambda>r. eq_ignore_ascii_case r (co_name c)) required) current;
          stalled = stalled_contexts parse current required (li_stall_threshold_secs i) (li_now i) front_old_enough;
          failed = failed_contexts current required;
          occupiers = concat (map (run_occupiers front (map mqe_pr (li_entries i)) (li_eligible_host_classes i))
            (li_active_runs i));
          work_stalled = (front_old_enough \<and> stalled \<noteq> []);
          idle = (work_stalled \<and> 0 < li_routable_free_slots i);
          blocked = (work_stalled \<and> occupiers \<noteq> []);
          reasons = reason_if (front = None) QueueEmpty
            @ reason_if (front \<noteq> None \<and> stalled = [] \<and> failed = []) NormalSerialWait
            @ reason_if (stalled \<noteq> []) FrontRequiredStaleOrMissing
            @ reason_if (failed \<noteq> []) FrontRequiredFailed
            @ reason_if idle IdleEligibleCapacity
            @ reason_if (li_enrollment_cleared_prs i \<noteq> []) AutoMergeEnrollmentCleared
            @ reason_if (li_observation_truncated i) ObservationTruncated
      in \<lparr>qlr_front = front, qlr_required_contexts = required,
          qlr_materialized_required_checks = length matching,
          qlr_progressed_required_checks = length (filter (\<lambda>c. co_status c \<noteq> ''queued'') matching),
          qlr_stalled_required_contexts = stalled, qlr_failed_required_contexts = failed,
          qlr_front_stalled_with_idle_capacity = idle,
          qlr_front_blocked_by_capacity_occupiers = blocked,
          qlr_capacity_occupiers = occupiers,
          qlr_enrollment_cleared_prs = li_enrollment_cleared_prs i,
          qlr_reason_codes = foldl (push_occupier_reason blocked) reasons occupiers\<rparr>)"

definition needs_attention :: "merge_queue_liveness_report \<Rightarrow> bool" where
  "needs_attention r =
     (qlr_failed_required_contexts r \<noteq> [] \<or> qlr_front_stalled_with_idle_capacity r
      \<or> qlr_front_blocked_by_capacity_occupiers r
      \<or> list_ex (\<lambda>occ. occ_kind occ = SupersededRun) (qlr_capacity_occupiers r)
      \<or> qlr_enrollment_cleared_prs r \<noteq> [])"

section \<open>One current observation per check\<close>

definition observed_inv :: "(string \<times> check_observation) list \<Rightarrow> check_observation list \<Rightarrow> bool" where
  "observed_inv m cs =
     (bt_wf m \<and> (\<forall>(k, ob) \<in> set m. k = to_ascii_lowercase (co_name ob) \<and> ob \<in> set cs)
      \<and> (\<forall>c \<in> set cs. \<exists>ob. bt_get m (to_ascii_lowercase (co_name c)) = Some ob
           \<and> check_observation_recency c \<le> check_observation_recency ob))"

lemma set_bt_insert_sub: "set (bt_insert k v m) \<subseteq> insert (k, v) (set m)"
  by (induction m rule: bt_insert.induct) (auto split: if_splits)

lemma observed_inv_step:
  assumes "observed_inv m cs"
  shows "observed_inv (observe_check m c) (cs @ [c])"
proof -
  let ?k = "to_ascii_lowercase (co_name c)" and ?r = check_observation_recency
  have wf: "bt_wf m" and keys: "\<And>k ob. (k, ob) \<in> set m \<Longrightarrow> k = to_ascii_lowercase (co_name ob) \<and> ob \<in> set cs"
    and best: "\<And>d. d \<in> set cs \<Longrightarrow> \<exists>ob. bt_get m (to_ascii_lowercase (co_name d)) = Some ob \<and> ?r d \<le> ?r ob"
    using assms unfolding observed_inv_def by blast+
  show ?thesis
  proof (cases "\<exists>ob. bt_get m ?k = Some ob \<and> ?r c \<le> ?r ob")
    case True
    then have "observe_check m c = m" by (auto simp: observe_check_def Let_def)
    then show ?thesis unfolding observed_inv_def using wf keys best True by auto
  next
    case False
    then have ins: "observe_check m c = bt_insert ?k c m"
      by (auto simp: observe_check_def Let_def not_le split: option.splits)
    have "(k, ob) \<in> set (bt_insert ?k c m) \<Longrightarrow> k = to_ascii_lowercase (co_name ob) \<and> ob \<in> set (cs @ [c])" for k ob
      using set_bt_insert_sub [of ?k c m] keys by fastforce
    moreover have "\<exists>ob. bt_get (bt_insert ?k c m) (to_ascii_lowercase (co_name d)) = Some ob \<and> ?r d \<le> ?r ob"
      if "d \<in> set (cs @ [c])" for d
    proof (cases "to_ascii_lowercase (co_name d) = ?k")
      case True
      then have "d = c \<or> d \<in> set cs" using that by auto
      then have "?r d \<le> ?r c"
      proof
        assume "d \<in> set cs"
        from best [OF this] True False show ?thesis by force
      qed simp
      then show ?thesis using True by (simp add: bt_get_insert [OF wf])
    next
      case False
      then have "d \<in> set cs" using that by auto
      from best [OF this] False show ?thesis by (simp add: bt_get_insert [OF wf])
    qed
    ultimately show ?thesis unfolding ins observed_inv_def using bt_wf_insert [OF wf] by blast
  qed
qed

lemma observed_inv_all: "observed_inv (foldl observe_check [] cs) cs"
  by (induction cs rule: rev_induct) (simp_all add: observed_inv_step, simp add: observed_inv_def)

text \<open>
  Re-runs of a check do not blur its state: the current observations have one entry per check
  name (ignoring case), each one of the input, and every input observation of that name is at
  most as recent as it.
\<close>

theorem current_checks_latest:
  "distinct (map (\<lambda>c. to_ascii_lowercase (co_name c)) (current_check_observations cs))
   \<and> set (current_check_observations cs) \<subseteq> set cs
   \<and> list_all (\<lambda>c. list_ex (\<lambda>ob. eq_ignore_ascii_case (co_name ob) (co_name c)
        \<and> check_observation_recency c \<le> check_observation_recency ob) (current_check_observations cs)) cs"
proof -
  let ?m = "foldl observe_check [] cs"
  note inv = observed_inv_all [of cs, unfolded observed_inv_def]
  from inv have wf: "bt_wf ?m" and keys: "\<And>k ob. (k, ob) \<in> set ?m \<Longrightarrow> k = to_ascii_lowercase (co_name ob) \<and> ob \<in> set cs"
    by auto
  have names: "map (\<lambda>c. to_ascii_lowercase (co_name c)) (current_check_observations cs) = map fst ?m"
    unfolding current_check_observations_def using keys by (auto intro!: map_cong)
  have "set (current_check_observations cs) \<subseteq> set cs"
    using keys by (auto simp: current_check_observations_def)
  moreover have "list_ex (\<lambda>ob. eq_ignore_ascii_case (co_name ob) (co_name c)
        \<and> check_observation_recency c \<le> check_observation_recency ob) (current_check_observations cs)"
    if "c \<in> set cs" for c
  proof -
    from inv that obtain ob where ob: "bt_get ?m (to_ascii_lowercase (co_name c)) = Some ob"
      "check_observation_recency c \<le> check_observation_recency ob" by blast
    from bt_get_SomeD [OF ob(1)] have mem: "(to_ascii_lowercase (co_name c), ob) \<in> set ?m" .
    with keys have "to_ascii_lowercase (co_name c) = to_ascii_lowercase (co_name ob)" by blast
    with mem ob(2) show ?thesis
      by (auto simp: list_ex_iff current_check_observations_def eq_ignore_ascii_case_def intro!: bexI [of _ "(_, ob)"])
  qed
  ultimately show ?thesis
    unfolding names list_all_iff using bt_wf_distinct [OF wf] by blast
qed

section \<open>Reasons and attention\<close>

lemma set_push_reason:
  "set (push_occupier_reason blocked rs oc) =
     set rs \<union> (if blocked \<or> occ_kind oc = SupersededRun then {occupier_reason (occ_kind oc)} else {})"
  by (auto simp: push_occupier_reason_def Let_def)

lemma set_push_reasons:
  "set (foldl (push_occupier_reason blocked) rs occs) =
     set rs \<union> (\<Union>oc \<in> set occs. if blocked \<or> occ_kind oc = SupersededRun then {occupier_reason (occ_kind oc)} else {})"
  by (induction occs arbitrary: rs) (simp_all only: foldl.simps set_push_reason list.set UN_empty UN_insert Un_empty_right Un_assoc)

lemma distinct_push_reasons:
  "distinct rs \<Longrightarrow> distinct (foldl (push_occupier_reason blocked) rs occs)"
  by (induction occs arbitrary: rs) (simp_all add: push_occupier_reason_def Let_def)

definition actionable :: "liveness_reason \<Rightarrow> bool" where
  "actionable r = (r \<in> {FrontRequiredFailed, IdleEligibleCapacity, OptionalCapacityTheft,
     SupersededCapacityTheft, NonFrontCapacityOwner, AutoMergeEnrollmentCleared})"

lemma actionable_occupier [simp]: "actionable (occupier_reason k)"
  by (cases k) (simp_all add: actionable_def)

lemma reason_if_set [simp]: "set (reason_if b r) = (if b then {r} else {})"
  by (simp add: reason_if_def)

lemma reason_list_distinct:
  "distinct (reason_if a QueueEmpty @ reason_if b NormalSerialWait @ reason_if c FrontRequiredStaleOrMissing
       @ reason_if failed FrontRequiredFailed @ reason_if idle IdleEligibleCapacity
       @ reason_if cleared AutoMergeEnrollmentCleared @ reason_if d ObservationTruncated)"
  by (simp add: reason_if_def)

lemma reasons_actionable:
  "list_ex actionable (foldl (push_occupier_reason blocked)
      (reason_if a QueueEmpty @ reason_if b NormalSerialWait @ reason_if c FrontRequiredStaleOrMissing
       @ reason_if failed FrontRequiredFailed @ reason_if idle IdleEligibleCapacity
       @ reason_if cleared AutoMergeEnrollmentCleared @ reason_if d ObservationTruncated) occs) \<longleftrightarrow>
     failed \<or> idle \<or> cleared \<or> (\<exists>oc \<in> set occs. blocked \<or> occ_kind oc = SupersededRun)"
proof -
  have "(\<exists>r \<in> (\<Union>oc \<in> set occs. if blocked \<or> occ_kind oc = SupersededRun then {occupier_reason (occ_kind oc)} else {}).
      actionable r) \<longleftrightarrow> (\<exists>oc \<in> set occs. blocked \<or> occ_kind oc = SupersededRun)"
    by (auto split: if_splits)
  then show ?thesis
    unfolding list_ex_iff set_push_reasons bex_Un set_append reason_if_set
    by (simp add: actionable_def)
qed

text \<open>
  The exit status and the reason codes of a liveness report never disagree: the report asks for
  attention exactly when it carries an actionable reason (a failed required check, idle eligible
  capacity beside a stalled front, capacity held by other work, a cleared enrolment), a normal
  wait or a merely truncated observation never does, and no reason is listed twice.
\<close>

theorem attention_iff_actionable:
  "needs_attention (assess_merge_queue_liveness parse i)
     = list_ex actionable (qlr_reason_codes (assess_merge_queue_liveness parse i))
   \<and> distinct (qlr_reason_codes (assess_merge_queue_liveness parse i))"
proof
  let ?r = "assess_merge_queue_liveness parse i"
  show "distinct (qlr_reason_codes ?r)"
    unfolding assess_merge_queue_liveness_def Let_def merge_queue_liveness_report.simps
    by (rule distinct_push_reasons [OF reason_list_distinct])
  have blocked: "qlr_front_blocked_by_capacity_occupiers ?r \<longrightarrow> qlr_capacity_occupiers ?r \<noteq> []"
    by (simp add: assess_merge_queue_liveness_def Let_def)
  have reasons: "list_ex actionable (qlr_reason_codes ?r) \<longleftrightarrow>
      qlr_failed_required_contexts ?r \<noteq> [] \<or> qlr_front_stalled_with_idle_capacity ?r
      \<or> qlr_enrollment_cleared_prs ?r \<noteq> []
      \<or> (\<exists>oc \<in> set (qlr_capacity_occupiers ?r). qlr_front_blocked_by_capacity_occupiers ?r \<or> occ_kind oc = SupersededRun)"
    unfolding assess_merge_queue_liveness_def Let_def merge_queue_liveness_report.simps reasons_actionable
    by (rule refl)
  show "needs_attention ?r = list_ex actionable (qlr_reason_codes ?r)"
    unfolding reasons needs_attention_def using blocked
    by (cases "qlr_capacity_occupiers ?r") (auto simp: list_ex_iff)
qed

section \<open>Age\<close>

lemma num_seconds_le: "0 \<le> d \<Longrightarrow> num_seconds d * nanos_per_second \<le> d \<and> 0 \<le> num_seconds d"
proof -
  assume d: "0 \<le> d"
  have n: "0 < nanos_per_second" by (simp add: nanos_per_second_def)
  have "num_seconds d = d div nanos_per_second" using d by (cases "d = 0") (simp_all add: num_seconds_def)
  moreover have "0 \<le> d mod nanos_per_second" "0 \<le> d div nanos_per_second"
    using n d by (simp_all add: pos_imp_zdiv_nonneg_iff)
  moreover have "d div nanos_per_second * nanos_per_second \<le> d"
    using div_mult_mod_eq [of d nanos_per_second] calculation(2) by linarith
  ultimately show ?thesis by simp
qed

text \<open>
  An alarm on the front needs an aged front: when a report says the front stalls beside idle
  capacity or is blocked by other work, the entry of least position has readable times, at least
  the threshold has passed since the later of its enqueue and the first sight of its head, and
  some required context is stalled.
\<close>

theorem alarm_needs_aged_front:
  fixes parse i
  defines "r \<equiv> assess_merge_queue_liveness parse i"
  assumes "qlr_front_stalled_with_idle_capacity r \<or> qlr_front_blocked_by_capacity_occupiers r"
  shows "\<exists>e started. qlr_front r = Some e \<and> e \<in> set (li_entries i)
     \<and> list_all (\<lambda>e'. mqe_position e \<le> mqe_position e') (li_entries i)
     \<and> entry_liveness_started_at parse e = Some started
     \<and> max 0 (li_stall_threshold_secs i) \<le> num_seconds (li_now i - started)
     \<and> qlr_stalled_required_contexts r \<noteq> []"
proof -
  from assms(2) obtain e started where e: "min_by_key mqe_position (li_entries i) = Some e"
      "entry_liveness_started_at parse e = Some started"
      "max 0 (li_stall_threshold_secs i) \<le> num_seconds (li_now i - started)"
      "qlr_stalled_required_contexts r \<noteq> []"
    unfolding r_def assess_merge_queue_liveness_def Let_def merge_queue_liveness_report.simps
    by (auto simp: is_some_and_def split: option.splits)
  moreover have "qlr_front r = min_by_key mqe_position (li_entries i)"
    by (simp add: r_def assess_merge_queue_liveness_def Let_def)
  ultimately show ?thesis using min_by_key_Some [OF e(1)] by (auto simp: list_all_iff)
qed

text \<open>
  Release age is measured from publication at the earliest: an accepted assessment has a
  publication time that is not in the future and an age between zero and the seconds since it;
  it is stale exactly when releasable commits exist and the age reaches the threshold, and
  without releasable or dated work the age is zero.
\<close>

theorem release_age_bounds:
  assumes "assess_release_liveness parse shown tag published_at ahead releasable oldest base incidents workflow_at
      threshold now = Inr r"
  shows "\<exists>published. parse published_at = Inr published \<and> published \<le> now
     \<and> 0 \<le> rl_age_secs r \<and> rl_age_secs r * nanos_per_second \<le> now - published
     \<and> (releasable = 0 \<and> oldest = None \<longrightarrow> rl_age_secs r = 0)
     \<and> (rl_stale_with_unreleased_commits r \<longleftrightarrow> 0 < releasable \<and> max 0 threshold \<le> rl_age_secs r)"
proof -
  from assms obtain published where p: "parse published_at = Inr published" "published \<le> now"
      and age: "release_age parse shown published now releasable oldest = Inr (rl_age_secs r)"
      and st: "rl_stale_with_unreleased_commits r \<longleftrightarrow> 0 < releasable \<and> max 0 threshold \<le> rl_age_secs r"
    by (auto simp: assess_release_liveness_def result_bind_Inr_iff split: sum.splits if_splits)
  have start: "\<exists>t. published \<le> t \<and> t \<le> now \<and>
      (rl_age_secs r = 0 \<or> rl_age_secs r = max 0 (num_seconds (now - t)))"
  proof (cases oldest)
    case None
    with age p(2) show ?thesis by (auto simp: release_age_def split: if_splits)
  next
    case (Some stamp)
    with age obtain committed where "committed \<le> now" "rl_age_secs r = max 0 (num_seconds (now - max committed published))"
      by (auto simp: release_age_def not_less split: sum.splits if_splits)
    then show ?thesis using p(2) by (intro exI [of _ "max committed published"]) simp
  qed
  then obtain t where f: "published \<le> t" "t \<le> now"
    "rl_age_secs r = 0 \<or> rl_age_secs r = max 0 (num_seconds (now - t))" by blast
  have "num_seconds (now - t) * nanos_per_second \<le> now - t \<and> 0 \<le> num_seconds (now - t)"
    using f(2) by (intro num_seconds_le) simp
  with f have bounds: "0 \<le> rl_age_secs r" "rl_age_secs r * nanos_per_second \<le> now - published"
    using p(2) by (auto simp: max_def)
  have "releasable = 0 \<and> oldest = None \<longrightarrow> rl_age_secs r = 0"
    using age by (auto simp: release_age_def)
  with p st bounds show ?thesis by blast
qed

section \<open>Witnesses\<close>

definition sample_liveness :: merge_queue_liveness_inputs where
  "sample_liveness = \<lparr>li_entries = [\<lparr>mqe_pr = 9, mqe_position = 1, mqe_head_sha = Some ''aa'',
       mqe_enqueued_at = Some ''t'', mqe_head_observed_at = None\<rparr>],
     li_checks = [], li_active_runs = [], li_required_contexts = [''macos''], li_eligible_host_classes = [''m3''],
     li_routable_free_slots = 1, li_stall_threshold_secs = 60, li_now = 100 * 1000000000,
     li_enrollment_cleared_prs = [], li_observation_truncated = False\<rparr>"

theorem alarm_needs_aged_front_witness:
  "qlr_front_stalled_with_idle_capacity (assess_merge_queue_liveness (\<lambda>_. Inr 0) sample_liveness)
   \<and> qlr_stalled_required_contexts (assess_merge_queue_liveness (\<lambda>_. Inr 0) sample_liveness) \<noteq> []"
proof
  show a: "qlr_front_stalled_with_idle_capacity (assess_merge_queue_liveness (\<lambda>_. Inr 0) sample_liveness)"
    by code_simp
  then show "qlr_stalled_required_contexts (assess_merge_queue_liveness (\<lambda>_. Inr 0) sample_liveness) \<noteq> []"
    using alarm_needs_aged_front [of "\<lambda>_. Inr 0" sample_liveness] by blast
qed

theorem release_age_bounds_witness:
  "case assess_release_liveness (\<lambda>_. Inr 0) (\<lambda>_. []) ''v1'' ''t'' 3 2 None None None None 60 (90 * 1000000000) of
     Inl _ \<Rightarrow> False
   | Inr r \<Rightarrow> rl_age_secs r = 90 \<and> rl_stale_with_unreleased_commits r \<and> 0 \<le> rl_age_secs r"
proof -
  let ?a = "assess_release_liveness (\<lambda>_. Inr 0) (\<lambda>_. []) ''v1'' ''t'' 3 2 None None None None 60 (90 * 1000000000)"
  obtain r where r: "?a = Inr r" "rl_age_secs r = 90"
    by (simp add: assess_release_liveness_def release_age_def num_seconds_def nanos_per_second_def)
  from release_age_bounds [OF r(1)] r(2) have "rl_stale_with_unreleased_commits r" by auto
  with r show ?thesis by simp
qed

end
