(* ===== verification/Environment_Requeue.thy ===== *)
theory Environment_Requeue
  imports Pr_Queue_State Run_Repair Host_Pool
begin

text \<open>
  The environment re-enqueue of \<open>src/src/environment_requeue.rs\<close>: reading a failing step out of its
  job log, the signatures near a failure, starved jobs, the failing required checks of the
  ejecting merge group, their attribution, and the verdict whether the unchanged head may enter
  the queue once more; with the job sample and the ejection cause of \<open>src/src/gate_cost.rs\<close> and
  \<open>src/src/gate_cost/proxy.rs\<close> it reads. The \<open>gh\<close> transport, the JSON and TOML parsers and the
  RFC 3339 parser are the fields of \<open>gh_client\<close>: the transport answers a request the same way
  within one assessment. Strings are UTF-8 bytes; \<open>split_timestamp\<close> is modelled for lines that
  are cut at a character boundary.

  The lemmas show that an allowance needs the opt-in, a complete timeline and at most two
  ejections of the head, and that every failing required check is explained: by a signature in
  each failing step, or by an attribution away from the head on a first ejection.
\<close>

section \<open>Constants\<close>

definition config_key :: string where
  "config_key = ''queue.environment_requeue.enabled''"

definition network_transport_markers :: "string list" where
  "network_transport_markers =
     [''Could not resolve host'', ''Network is unreachable'', ''No route to host'', ''Connection reset by peer'']"

definition environment_signatures :: "string list" where
  "environment_signatures = network_transport_markers
     @ [''ENOTFOUND'', ''getaddrinfo'', ''EAI_AGAIN'', ''Tunnel connection failed'', ''Proxy CONNECT aborted'',
        ''Temporary failure in name resolution'', ''ECONNRESET'', ''curl: (6)'', ''curl: (56)'']"

definition interruption_signatures :: "string list" where
  "interruption_signatures = [''Upload progress stalled'']"

definition starvation_min_wait_minutes :: int where
  "starvation_min_wait_minutes = 10"

definition interruption_rearm_limit :: u32 where
  "interruption_rearm_limit = 2"

definition failure_proximity_lines :: nat where
  "failure_proximity_lines = 60"

definition infra_conclusions :: "string list" where
  "infra_conclusions = [''timed_out'', ''startup_failure'', ''stale'']"

definition runner_lost_annotations :: "string list" where
  "runner_lost_annotations = [''The runner has received a shutdown signal'',
     ''lost communication with the server'', ''The hosted runner encountered an error'']"

definition failing_conclusions :: "string list" where
  "failing_conclusions = [''failure'', ''timed_out'', ''startup_failure'', ''error'']"

definition run_group_marker :: string where
  "run_group_marker = ''##[group]Run ''"

definition end_group_marker :: string where
  "end_group_marker = ''##[endgroup]''"

definition error_marker :: string where
  "error_marker = ''##[error]''"

section \<open>Data\<close>

record signature_hit =
  sh_signature :: string
  sh_line :: string

datatype step_reading = Environment signature_hit | Interruption signature_hit | NoSignature | NotLocated

record log_segment =
  seg_started :: "string option"
  seg_output :: "string list"
  seg_has_error :: bool

record step_evidence =
  se_check :: string
  se_job_id :: u64
  se_step :: string
  se_reading :: step_reading

datatype requeue_class = NetworkClass | InterruptionClass | NotHeadCaused

datatype failure_attribution =
    Infra string
  | FailsOnBase string
  | PassedOnHead string
  | HeadCaused string
  | AttributionUnknown string

record check_attribution =
  ca_check :: string
  ca_attribution :: failure_attribution

record environment_requeue =
  er_allowed :: bool
  er_reason :: string
  er_class :: "requeue_class option"
  er_merge_group_commit :: "string option"
  er_evidence :: "step_evidence list"
  er_attribution :: "check_attribution list"

record failed_check =
  fc_name :: string
  fc_id :: "u64 option"
  fc_conclusion :: string
  fc_actions_job :: bool

record gate_job_sample =
  gs_run_id :: u64
  gs_event :: string
  gs_attempt :: u64
  gs_status :: string
  gs_conclusion :: "string option"
  gs_started_at :: "time option"
  gs_completed_at :: "time option"
  gs_created_at :: "time option"
  gs_runner_name :: "string option"
  gs_labels :: "string list"

record gh_client =
  gh_run :: "string list \<Rightarrow> string + string"
  gh_from_json :: "string \<Rightarrow> string + json"
  gh_from_toml :: "string \<Rightarrow> string + toml_table"
  gh_time :: "string \<Rightarrow> time option"

section \<open>Text\<close>

definition short_sha :: "string \<Rightarrow> string" where
  "short_sha sha = unwrap_or (str_get_prefix 12 sha) sha"

definition hex_upper :: "nat \<Rightarrow> char" where
  "hex_upper n = (if n < 10 then char_of (n + 48) else char_of (n + 55))"

definition percent_encode :: "string \<Rightarrow> string" where
  "percent_encode value = concat (map (\<lambda>c.
     if is_ascii_alphanumeric c \<or> c \<in> {CHR ''-'', CHR ''_'', CHR ''.'', CHR ''~''} then [c]
     else let n = (of_char c :: nat) in [CHR ''%'', hex_upper (n div 16), hex_upper (n mod 16)]) value)"

section \<open>Job logs\<close>

definition byte_order_mark :: string where
  "byte_order_mark = [CHR 0xEF, CHR 0xBB, CHR 0xBF]"

definition split_timestamp :: "string \<Rightarrow> string option \<times> string" where
  "split_timestamp line =
     (let raw = strip_leading [byte_order_mark] line;
          looks_stamped = (20 \<le> length raw \<and> raw ! 4 = CHR ''-'' \<and> raw ! 7 = CHR ''-'' \<and> raw ! 10 = CHR ''T''
            \<and> raw ! 13 = CHR '':'' \<and> raw ! 16 = CHR '':'')
      in if \<not> looks_stamped then (None, raw)
         else case find_index (\<lambda>c. c = CHR ''Z'') raw of
           None \<Rightarrow> (None, raw)
         | Some e \<Rightarrow>
             let rest = drop (e + 1) raw
             in (Some (take 19 raw), unwrap_or (strip_prefix '' '' rest) rest))"

text \<open>The segments so far, newest first, and whether the script echo is open.\<close>

definition segment_step :: "log_segment list \<times> bool \<Rightarrow> string \<Rightarrow> log_segment list \<times> bool" where
  "segment_step = (\<lambda>(segs, in_echo) raw.
     let (stamp, line) = split_timestamp raw
     in if prefix run_group_marker line
        then (\<lparr>seg_started = stamp, seg_output = [], seg_has_error = False\<rparr> # segs, True)
        else case segs of
          [] \<Rightarrow> (segs, in_echo)
        | current # older \<Rightarrow>
            if in_echo then (segs, \<not> prefix end_group_marker line)
            else (current\<lparr>seg_has_error := seg_has_error current \<or> prefix error_marker line,
                          seg_output := seg_output current @ [line]\<rparr> # older, in_echo))"

definition log_segments :: "string \<Rightarrow> log_segment list" where
  "log_segments log = rev (fst (foldl segment_step ([], False) (str_lines log)))"

fun output_through_error :: "string \<Rightarrow> string list \<Rightarrow> log_segment list \<Rightarrow> string list option" where
  "output_through_error started_at out [] = None"
| "output_through_error started_at out (s # ss) =
     (if (case seg_started s of None \<Rightarrow> True | Some stamp \<Rightarrow> stamp < started_at)
      then output_through_error started_at out ss
      else if seg_has_error s then
        Some (out @ take (Suc (unwrap_or (find_index (prefix error_marker) (seg_output s))
                (length (seg_output s) - 1))) (seg_output s))
      else output_through_error started_at (out @ seg_output s) ss)"

definition failing_step_output :: "string \<Rightarrow> string \<Rightarrow> string list option" where
  "failing_step_output log started_at =
     Option.bind (str_get_prefix 19 started_at) (\<lambda>at. output_through_error at [] (log_segments log))"

definition signature_hit_of :: "string list \<Rightarrow> string \<Rightarrow> signature_hit option" where
  "signature_hit_of signatures line =
     map_option (\<lambda>s. \<lparr>sh_signature = s, sh_line = take_chars 240 (trim line)\<rparr>) (find (str_contains line) signatures)"

definition signature_near_failure :: "string list \<Rightarrow> signature_hit option" where
  "signature_near_failure out =
     find_map (signature_hit_of environment_signatures)
       (rev (drop (length out - failure_proximity_lines) out))"

definition interruption_at_failure :: "string list \<Rightarrow> signature_hit option" where
  "interruption_at_failure out = find_map (signature_hit_of interruption_signatures) (take 2 (rev out))"

definition read_failing_step :: "string \<Rightarrow> string \<Rightarrow> step_reading" where
  "read_failing_step log started_at = (case failing_step_output log started_at of
       None \<Rightarrow> NotLocated
     | Some out \<Rightarrow> (case signature_near_failure out of
         Some hit \<Rightarrow> Environment hit
       | None \<Rightarrow> (case interruption_at_failure out of None \<Rightarrow> NoSignature | Some hit \<Rightarrow> Interruption hit)))"

section \<open>Starved jobs\<close>

definition not_blank :: "string \<Rightarrow> bool" where
  "not_blank s = (trim s \<noteq> [])"

definition gate_timestamp :: "gh_client \<Rightarrow> json \<Rightarrow> string \<Rightarrow> time option" where
  "gate_timestamp gh v k = Option.bind (get_str k v) (gh_time gh)"

definition gate_job_labels :: "json \<Rightarrow> string list" where
  "gate_job_labels job =
     List.map_filter as_str (unwrap_or (Option.bind (json_get ''labels'' job) as_array) [])"

definition gate_sample_from_job :: "gh_client \<Rightarrow> u64 \<Rightarrow> string \<Rightarrow> json \<Rightarrow> gate_job_sample" where
  "gate_sample_from_job gh run_id event job =
     \<lparr>gs_run_id = run_id, gs_event = event,
      gs_attempt = unwrap_or (Option.bind (json_get ''run_attempt'' job) as_u64) 1,
      gs_status = unwrap_or (get_str ''status'' job) [], gs_conclusion = get_str ''conclusion'' job,
      gs_started_at = gate_timestamp gh job ''started_at'', gs_completed_at = gate_timestamp gh job ''completed_at'',
      gs_created_at = gate_timestamp gh job ''created_at'',
      gs_runner_name = option_filter not_blank (get_str ''runner_name'' job),
      gs_labels = gate_job_labels job\<rparr>"

definition gate_job_assigned :: "gate_job_sample \<Rightarrow> bool" where
  "gate_job_assigned s = is_some_and (gs_runner_name s) not_blank"

definition ejection_cause :: "gate_job_sample \<Rightarrow> string option" where
  "ejection_cause s = (case gs_conclusion s of
       None \<Rightarrow> Some ''no_conclusion''
     | Some c \<Rightarrow>
         if c \<in> {''success'', ''skipped'', ''neutral''} then None
         else if c \<in> {''failure'', ''timed_out''} then Some ''gate_failed''
         else if c = ''cancelled'' then
           (if gate_job_assigned s then Some ''cancelled_after_start'' else Some ''starved'')
         else Some c)"

definition starved_job :: "gh_client \<Rightarrow> json \<Rightarrow> json \<Rightarrow> signature_hit option" where
  "starved_job gh job annotations =
     (if annotations_mark_superseded annotations then None
      else let sample = gate_sample_from_job gh 0 ''merge_group'' job
        in if ejection_cause sample \<noteq> Some ''starved'' then None
           else Option.bind (gs_completed_at sample) (\<lambda>completed.
             Option.bind (gs_created_at sample) (\<lambda>created.
               let waited = num_minutes (completed - created)
               in if starvation_min_wait_minutes \<le> waited
                  then Some \<lparr>sh_signature = ''starved'',
                    sh_line = ''cancelled with no runner after '' @ show_int waited @ '' min queued''\<rparr>
                  else None)))"

section \<open>Reading GitHub\<close>

definition gh_api :: "gh_client \<Rightarrow> string \<Rightarrow> string + string" where
  "gh_api gh path = gh_run gh [''api'', path]"

definition api_json :: "gh_client \<Rightarrow> string \<Rightarrow> string + json" where
  "api_json gh path = result_bind (gh_api gh path) (\<lambda>raw.
     map_err (\<lambda>e. path @ '' was not JSON: '' @ e) (gh_from_json gh raw))"

definition toml_get :: "string \<Rightarrow> toml \<Rightarrow> toml option" where
  "toml_get k v = (case v of TTable t \<Rightarrow> map_of t k | _ \<Rightarrow> None)"

definition read_opt_in :: "gh_client \<Rightarrow> string \<Rightarrow> string \<Rightarrow> string + bool" where
  "read_opt_in gh repo base =
     (case gh_run gh [''api'', ''-H'', ''Accept: application/vnd.github.raw+json'',
             ''repos/'' @ repo @ ''/contents/.shipyard/config.toml?ref='' @ base] of
        Inl detail \<Rightarrow>
          if str_contains detail ''404'' \<or> str_contains detail ''Not Found'' then Inr False
          else Inl (''.shipyard/config.toml on '' @ base @ '' unreadable: '' @ detail)
      | Inr raw \<Rightarrow>
          result_bind (map_err (\<lambda>e. ''.shipyard/config.toml on '' @ base @ '' does not parse: '' @ e)
              (gh_from_toml gh raw)) (\<lambda>table.
            Inr (Option.bind (Option.bind (map_of table ''queue'') (toml_get ''environment_requeue''))
                   (toml_get ''enabled'') = Some (TBoolean True))))"

definition applies :: "pr_queue_report \<Rightarrow> bool" where
  "applies report = (case qr_state report of
       QEjected reason _ new_head _ \<Rightarrow> \<not> new_head \<and> eq_ignore_ascii_case reason ''failed_checks''
     | _ \<Rightarrow> False)"

definition json_items :: "json option \<Rightarrow> json list" where
  "json_items v = unwrap_or (Option.bind v as_array) []"

definition rule_contexts :: "json \<Rightarrow> string list" where
  "rule_contexts rule =
     (if get_str ''type'' rule \<noteq> Some ''required_status_checks'' then []
      else List.map_filter (get_str ''context'')
        (json_items (json_path [''parameters'', ''required_status_checks''] rule)))"

definition required_contexts :: "gh_client \<Rightarrow> string \<Rightarrow> string \<Rightarrow> string + string list" where
  "required_contexts gh repo base =
     result_bind (api_json gh (''repos/'' @ repo @ ''/rules/branches/'' @ base)) (\<lambda>rules.
       let contexts = concat (map rule_contexts (unwrap_or (as_array rules) []))
       in case api_json gh (''repos/'' @ repo @ ''/branches/'' @ base @ ''/protection/required_status_checks'') of
            Inr classic \<Rightarrow>
              Inr (sort_dedup (contexts @ List.map_filter as_str (json_items (json_get ''contexts'' classic))))
          | Inl e \<Rightarrow> if str_contains e ''404'' then Inr (sort_dedup contexts) else Inl e)"

definition run_id_key :: "json \<Rightarrow> u64" where
  "run_id_key run = unwrap_or (Option.bind (json_get ''id'' run) as_u64) 0"

definition newest_run :: "json list \<Rightarrow> json option" where
  "newest_run runs = max_by (\<lambda>a b. cmp (run_id_key a) (run_id_key b)) runs"

definition failed_run_of :: "string \<Rightarrow> json list \<Rightarrow> string \<Rightarrow> string + failed_check option" where
  "failed_run_of sha runs context =
     (case newest_run (filter (\<lambda>r. get_str ''name'' r = Some context) runs) of
        None \<Rightarrow> Inr None
      | Some latest \<Rightarrow>
          if get_str ''status'' latest \<noteq> Some ''completed''
          then Inl (''required check `'' @ context @ ''` on '' @ sha @ '' has not completed'')
          else let conclusion = unwrap_or (get_str ''conclusion'' latest) ''none''
            in if conclusion \<in> {''success'', ''neutral'', ''skipped''} then Inr None
               else Inr (Some \<lparr>fc_name = context, fc_id = Option.bind (json_get ''id'' latest) as_u64,
                 fc_conclusion = conclusion,
                 fc_actions_job = (Option.bind (json_path [''app'', ''slug''] latest) as_str = Some ''github-actions'')\<rparr>))"

definition failed_status_of :: "string list \<Rightarrow> json \<Rightarrow> failed_check option" where
  "failed_status_of required status =
     (let context = unwrap_or (get_str ''context'' status) []; state = unwrap_or (get_str ''state'' status) []
      in if context \<in> set required \<and> state \<in> {''failure'', ''error''}
         then Some \<lparr>fc_name = context, fc_id = None, fc_conclusion = state, fc_actions_job = False\<rparr>
         else None)"

definition failed_required_checks ::
  "gh_client \<Rightarrow> string \<Rightarrow> string \<Rightarrow> string list \<Rightarrow> string + failed_check list" where
  "failed_required_checks gh repo sha required =
     result_bind (api_json gh (''repos/'' @ repo @ ''/commits/'' @ sha @ ''/check-runs?per_page=100'')) (\<lambda>runs.
     result_bind (ok_or (Option.bind (json_get ''check_runs'' runs) as_array)
       (''check runs of '' @ sha @ '' carried no check_runs'')) (\<lambda>rows.
     if Option.bind (json_get ''total_count'' runs) as_u64 \<noteq> Some (length rows)
     then Inl (sha @ '' has more check runs than one page returned; refusing a partial reading'')
     else result_bind (collect_results (map (failed_run_of sha rows) required)) (\<lambda>failed.
       result_bind (api_json gh (''repos/'' @ repo @ ''/commits/'' @ sha @ ''/status'')) (\<lambda>statuses.
         Inr (List.map_filter id failed
              @ List.map_filter (failed_status_of required) (json_items (json_get ''statuses'' statuses)))))))"

definition step_evidence_of :: "string \<Rightarrow> u64 \<Rightarrow> string \<Rightarrow> json \<Rightarrow> step_evidence" where
  "step_evidence_of check job_id log step =
     \<lparr>se_check = check, se_job_id = job_id, se_step = unwrap_or (get_str ''name'' step) [],
      se_reading = (case get_str ''started_at'' step of None \<Rightarrow> NotLocated
        | Some started \<Rightarrow> read_failing_step log started)\<rparr>"

definition read_job :: "gh_client \<Rightarrow> string \<Rightarrow> string \<Rightarrow> u64 \<Rightarrow> string + step_evidence list" where
  "read_job gh repo check job_id =
     result_bind (api_json gh (''repos/'' @ repo @ ''/actions/jobs/'' @ show_nat job_id)) (\<lambda>job.
       let failing = filter (\<lambda>s. get_str ''conclusion'' s = Some ''failure'') (json_items (json_get ''steps'' job))
       in if failing = []
          then Inl (''`'' @ check @ ''` [job '' @ show_nat job_id
                 @ ''] failed with no failing step recorded, which is not evidence of anything'')
          else result_bind (map_err (\<lambda>e. ''the log of `'' @ check @ ''` [job '' @ show_nat job_id
                 @ ''] could not be read ('' @ e @ '')'')
                 (gh_api gh (''repos/'' @ repo @ ''/actions/jobs/'' @ show_nat job_id @ ''/logs''))) (\<lambda>log.
            Inr (map (step_evidence_of check job_id log) failing)))"

definition render_evidence :: "step_evidence \<Rightarrow> string" where
  "render_evidence e =
     se_check e @ '' / '' @ se_step e @ '' [job '' @ show_nat (se_job_id e) @ '']: ''
     @ (case se_reading e of
          Environment hit \<Rightarrow> ''environment ('' @ sh_signature hit @ ''): '' @ sh_line hit
        | Interruption hit \<Rightarrow> ''interruption ('' @ sh_signature hit @ ''): '' @ sh_line hit
        | NoSignature \<Rightarrow> ''no environment signature within '' @ show_nat failure_proximity_lines
            @ '' lines of its failure''
        | NotLocated \<Rightarrow> ''its output could not be located in the job log'')"

definition check_evidence :: "gh_client \<Rightarrow> string \<Rightarrow> failed_check \<Rightarrow> string + step_evidence list" where
  "check_evidence gh repo c =
     (case option_filter (\<lambda>_. fc_actions_job c) (fc_id c) of
        None \<Rightarrow> Inl (''required check `'' @ fc_name c @ ''` ('' @ fc_conclusion c
            @ '') is not a GitHub Actions job, so it has no log to read'')
      | Some job_id \<Rightarrow>
          if fc_conclusion c = ''cancelled'' then
            result_bind (api_json gh (''repos/'' @ repo @ ''/actions/jobs/'' @ show_nat job_id)) (\<lambda>job.
              result_bind (api_json gh (''repos/'' @ repo @ ''/check-runs/'' @ show_nat job_id @ ''/annotations''))
                (\<lambda>annotations. Inr [\<lparr>se_check = fc_name c, se_job_id = job_id, se_step = ''(queued)'',
                   se_reading = (case starved_job gh job annotations of
                     None \<Rightarrow> NoSignature | Some hit \<Rightarrow> Interruption hit)\<rparr>]))
          else if fc_conclusion c \<noteq> ''failure'' then
            Inl (''required check `'' @ fc_name c @ ''` concluded `'' @ fc_conclusion c
               @ ''`, which is not an environment signature'')
          else read_job gh repo (fc_name c) job_id)"

text \<open>The evidence read so far is kept when a later check cannot be read.\<close>

fun read_signatures ::
  "gh_client \<Rightarrow> string \<Rightarrow> failed_check list \<Rightarrow> step_evidence list \<Rightarrow> (string + unit) \<times> step_evidence list" where
  "read_signatures gh repo [] evidence = (Inr (), evidence)"
| "read_signatures gh repo (c # cs) evidence = (case check_evidence gh repo c of
       Inl e \<Rightarrow> (Inl e, evidence)
     | Inr steps \<Rightarrow> read_signatures gh repo cs (evidence @ steps))"

section \<open>Attribution\<close>

fun clears_head :: "failure_attribution \<Rightarrow> bool" where
  "clears_head (Infra _) = True"
| "clears_head (FailsOnBase _) = True"
| "clears_head (PassedOnHead _) = True"
| "clears_head (HeadCaused _) = False"
| "clears_head (AttributionUnknown _) = False"

fun attribution_label :: "failure_attribution \<Rightarrow> string \<times> string" where
  "attribution_label (Infra d) = (''infra'', d)"
| "attribution_label (FailsOnBase d) = (''fails on base'', d)"
| "attribution_label (PassedOnHead d) = (''passed on head'', d)"
| "attribution_label (HeadCaused d) = (''head-caused'', d)"
| "attribution_label (AttributionUnknown d) = (''unknown'', d)"

definition render_attribution :: "check_attribution \<Rightarrow> string" where
  "render_attribution a =
     (let (label, detail) = attribution_label (ca_attribution a)
      in ''`'' @ ca_check a @ ''` '' @ label @ '': '' @ detail)"

definition runner_lost :: "json \<Rightarrow> string option" where
  "runner_lost annotations =
     map_option (\<lambda>m. take_chars 240 (trim m))
       (find (\<lambda>m. list_ex (str_contains m) runner_lost_annotations) (annotation_messages annotations))"

definition latest_conclusion ::
  "gh_client \<Rightarrow> string \<Rightarrow> string \<Rightarrow> string \<Rightarrow> string + string option" where
  "latest_conclusion gh repo reference name =
     result_bind (api_json gh (''repos/'' @ repo @ ''/commits/'' @ reference @ ''/check-runs?check_name=''
         @ percent_encode name @ ''&per_page=100'')) (\<lambda>runs.
       case newest_run (filter (\<lambda>r. get_str ''name'' r = Some name \<and> get_str ''status'' r = Some ''completed'')
              (json_items (json_get ''check_runs'' runs))) of
         Some run \<Rightarrow> Inr (get_str ''conclusion'' run)
       | None \<Rightarrow>
           result_bind (api_json gh (''repos/'' @ repo @ ''/commits/'' @ reference @ ''/status'')) (\<lambda>statuses.
             Inr (option_filter (\<lambda>s. s \<noteq> ''pending'') (Option.bind
               (find (\<lambda>s. get_str ''context'' s = Some name) (json_items (json_get ''statuses'' statuses)))
               (get_str ''state'')))))"

definition describe_read :: "string + string option \<Rightarrow> string" where
  "describe_read r = (case r of
       Inr (Some c) \<Rightarrow> ''`'' @ c @ ''`''
     | Inr None \<Rightarrow> ''no completed run''
     | Inl e \<Rightarrow> ''unreadable ('' @ e @ '')'')"

definition step_explained :: "step_evidence \<Rightarrow> bool" where
  "step_explained e = (case se_reading e of Environment _ \<Rightarrow> True | Interruption _ \<Rightarrow> True | _ \<Rightarrow> False)"

definition lost_runner_of :: "gh_client \<Rightarrow> string \<Rightarrow> failed_check \<Rightarrow> (u64 \<times> string) option" where
  "lost_runner_of gh repo c =
     Option.bind (option_filter (\<lambda>_. fc_actions_job c) (fc_id c)) (\<lambda>job_id.
       case api_json gh (''repos/'' @ repo @ ''/check-runs/'' @ show_nat job_id @ ''/annotations'') of
         Inl _ \<Rightarrow> None
       | Inr annotations \<Rightarrow> map_option (Pair job_id) (runner_lost annotations))"

definition attribute ::
  "gh_client \<Rightarrow> string \<Rightarrow> string \<Rightarrow> string \<Rightarrow> step_evidence list \<Rightarrow> failed_check \<Rightarrow> failure_attribution" where
  "attribute gh repo base head evidence c =
     (let steps = filter (\<lambda>s. se_check s = fc_name c) evidence
      in if steps \<noteq> [] \<and> list_all step_explained steps
         then Infra (join ''; '' (map render_evidence steps))
         else if fc_conclusion c \<in> set infra_conclusions
         then Infra (''concluded `'' @ fc_conclusion c @ ''` on the merge group'')
         else case lost_runner_of gh repo c of
           Some (job_id, message) \<Rightarrow> Infra (''[job '' @ show_nat job_id @ ''] '' @ message)
         | None \<Rightarrow>
             let on_base = latest_conclusion gh repo base (fc_name c)
             in case (case on_base of Inr (Some b) \<Rightarrow> if b \<in> set failing_conclusions then Some b else None
                      | _ \<Rightarrow> None) of
                Some b \<Rightarrow> FailsOnBase (''also `'' @ b @ ''` on the `'' @ base @ ''` tip'')
              | None \<Rightarrow>
                  let on_head = latest_conclusion gh repo head (fc_name c)
                  in if on_head = Inr (Some ''success'')
                     then PassedOnHead (''passed on head '' @ short_sha head @ '', `'' @ fc_conclusion c
                            @ ''` on the merge group'')
                     else if on_base = Inr (Some ''success'')
                     then HeadCaused (''passed on the `'' @ base @ ''` tip, `'' @ fc_conclusion c
                            @ ''` on the merge group, '' @ describe_read on_head @ '' on head '' @ short_sha head)
                     else AttributionUnknown (''`'' @ fc_conclusion c @ ''` on the merge group; ''
                            @ describe_read on_base @ '' on the `'' @ base @ ''` tip, ''
                            @ describe_read on_head @ '' on head '' @ short_sha head))"

section \<open>Verdicts\<close>

definition refused_requeue :: "string \<Rightarrow> string option \<Rightarrow> environment_requeue" where
  "refused_requeue reason commit = \<lparr>er_allowed = False, er_reason = reason, er_class = None,
     er_merge_group_commit = commit, er_evidence = [], er_attribution = []\<rparr>"

definition is_allowed_interruption :: "environment_requeue \<Rightarrow> bool" where
  "is_allowed_interruption v = (er_allowed v \<and> er_class v = Some InterruptionClass)"

definition is_interruption :: "step_evidence \<Rightarrow> bool" where
  "is_interruption e = (case se_reading e of Interruption _ \<Rightarrow> True | _ \<Rightarrow> False)"

definition verdict_from_evidence :: "string \<Rightarrow> u32 \<Rightarrow> step_evidence list \<Rightarrow> environment_requeue" where
  "verdict_from_evidence sha ejections evidence =
     (let unexplained = map render_evidence (filter (\<lambda>e. \<not> step_explained e) evidence)
      in if unexplained \<noteq> [] then
           \<lparr>er_allowed = False,
            er_reason = ''a required failure on merge-group commit '' @ short_sha sha
              @ '' is not an environment failure or an interruption: '' @ join ''; '' unexplained,
            er_class = None, er_merge_group_commit = Some sha, er_evidence = evidence, er_attribution = []\<rparr>
         else if list_ex is_interruption evidence then
           \<lparr>er_allowed = True,
            er_reason = ''every failing required check on merge-group commit '' @ short_sha sha
              @ '' was interrupted or failed on the network, and this is ejection '' @ show_nat (unat ejections)
              @ '' of at most '' @ show_nat (unat interruption_rearm_limit) @ '' for this head'',
            er_class = Some InterruptionClass, er_merge_group_commit = Some sha, er_evidence = evidence,
            er_attribution = []\<rparr>
         else if ejections = 1 then
           \<lparr>er_allowed = True,
            er_reason = ''every failing required check on merge-group commit '' @ short_sha sha
              @ '' failed on the network, and this is the head'' @ [CHR 0x27] @ ''s first ejection'',
            er_class = Some NetworkClass, er_merge_group_commit = Some sha, er_evidence = evidence,
            er_attribution = []\<rparr>
         else
           \<lparr>er_allowed = False,
            er_reason = ''the queue has ejected this head '' @ show_nat (unat ejections)
              @ '' times; the one environment re-enqueue a head is allowed has been spent'',
            er_class = None, er_merge_group_commit = Some sha, er_evidence = evidence, er_attribution = []\<rparr>)"

definition verdict_from_attribution ::
  "string \<Rightarrow> string + environment_requeue \<Rightarrow> step_evidence list \<Rightarrow> check_attribution list \<Rightarrow> environment_requeue" where
  "verdict_from_attribution sha signatures evidence attribution =
     (let signature_reason = (case signatures of Inr v \<Rightarrow> er_reason v | Inl detail \<Rightarrow> detail);
          blocking = map render_attribution (filter (\<lambda>a. \<not> clears_head (ca_attribution a)) attribution)
      in if attribution = [] \<or> blocking \<noteq> [] then
           \<lparr>er_allowed = False,
            er_reason = signature_reason @ ''; not retried, because a failing required check on merge-group commit ''
              @ short_sha sha @ '' is not cleared of the head: ''
              @ (if blocking = [] then ''none was attributed'' else join ''; '' blocking),
            er_class = None, er_merge_group_commit = Some sha, er_evidence = evidence,
            er_attribution = attribution\<rparr>
         else
           \<lparr>er_allowed = True,
            er_reason = ''no failing required check on merge-group commit '' @ short_sha sha
              @ '' is the head'' @ [CHR 0x27] @ ''s fault ('' @ join ''; '' (map render_attribution attribution)
              @ ''), and this is the head'' @ [CHR 0x27] @ ''s first ejection, so it gets its one retry'',
            er_class = Some NotHeadCaused, er_merge_group_commit = Some sha, er_evidence = evidence,
            er_attribution = attribution\<rparr>)"

definition spent_reason :: "string \<Rightarrow> string" where
  "spent_reason reason =
     reason @ ''; the one not-head-caused retry this head is allowed has been spent''"

definition assess_failed ::
  "gh_client \<Rightarrow> string \<Rightarrow> pr_queue_report \<Rightarrow> string \<Rightarrow> string \<Rightarrow> failed_check list \<Rightarrow> string + environment_requeue" where
  "assess_failed gh repo report sha base failed =
     (let ejections = qr_ejections_of_current_head report;
          (read, evidence) = read_signatures gh repo failed [];
          signatures = result_bind read (\<lambda>_. Inr (verdict_from_evidence sha ejections evidence))
      in case signatures of
           Inr v \<Rightarrow> if er_allowed v then Inr v
             else (case option_filter (\<lambda>_. ejections = 1) (qr_head_oid report) of
               None \<Rightarrow> if ejections \<le> 1 then Inr v else Inr (v\<lparr>er_reason := spent_reason (er_reason v)\<rparr>)
             | Some head \<Rightarrow> Inr (verdict_from_attribution sha signatures evidence
                 (map (\<lambda>c. \<lparr>ca_check = fc_name c, ca_attribution = attribute gh repo base head evidence c\<rparr>) failed)))
         | Inl detail \<Rightarrow> (case option_filter (\<lambda>_. ejections = 1) (qr_head_oid report) of
               None \<Rightarrow> if ejections \<le> 1 then Inl detail else Inl (spent_reason detail)
             | Some head \<Rightarrow> Inr (verdict_from_attribution sha signatures evidence
                 (map (\<lambda>c. \<lparr>ca_check = fc_name c, ca_attribution = attribute gh repo base head evidence c\<rparr>) failed))))"

definition assess_merge_group ::
  "gh_client \<Rightarrow> string \<Rightarrow> pr_queue_report \<Rightarrow> string \<Rightarrow> string + environment_requeue" where
  "assess_merge_group gh repo report sha =
     result_bind (ok_or (qr_pr report) ''the pull request number is unknown'') (\<lambda>pr.
     result_bind (api_json gh (''repos/'' @ repo @ ''/pulls/'' @ show_nat pr)) (\<lambda>pull.
     result_bind (ok_or (Option.bind (json_path [''base'', ''ref''] pull) as_str)
       (''PR #'' @ show_nat pr @ '' carries no base ref'')) (\<lambda>base.
     result_bind (map_err (\<lambda>e. ''the required checks of `'' @ base @ ''` could not be read ('' @ e @ '')'')
       (required_contexts gh repo base)) (\<lambda>required.
     if required = []
     then Inl (''`'' @ base @ ''` declares no required checks, so no failure can be scoped to them'')
     else result_bind (failed_required_checks gh repo sha required) (\<lambda>failed.
       if failed = []
       then Inl (''no required check failed on merge-group commit '' @ short_sha sha
              @ '', so the ejection is unexplained'')
       else assess_failed gh repo report sha base failed)))))"

definition assess :: "gh_client \<Rightarrow> string \<Rightarrow> pr_queue_report \<Rightarrow> bool \<Rightarrow> environment_requeue option" where
  "assess gh repo report opted_in =
     (if \<not> applies report then None
      else let commit = Option.bind (qr_last_ejection report) ej_merge_group_commit;
               ejections = qr_ejections_of_current_head report
        in if \<not> opted_in then Some (refused_requeue
               (''this repository has not opted in to environment re-enqueues (`'' @ config_key
                @ '' = true` in its Shipyard config)'') commit)
           else if qr_timeline_complete report \<noteq> Some True then Some (refused_requeue
               (''the timeline window does not reach the start of history, so an earlier ejection ''
                @ ''of this head cannot be ruled out'') commit)
           else if ejections = 0 \<or> interruption_rearm_limit < ejections then Some (refused_requeue
               (''the queue has ejected this head '' @ show_nat (unat ejections)
                @ '' times; the re-enqueues a head is allowed have been spent'') commit)
           else case commit of
             None \<Rightarrow> Some (refused_requeue (''the removal names no merge-group commit, so the checks that ''
                 @ ''ejected it cannot be read'') None)
           | Some sha \<Rightarrow> Some (case assess_merge_group gh repo report sha of
                 Inr v \<Rightarrow> v | Inl detail \<Rightarrow> refused_requeue detail commit))"

section \<open>What an allowance rests on\<close>

lemma read_job_covers:
  "read_job gh repo check job_id = Inr steps \<Longrightarrow> steps \<noteq> [] \<and> list_all (\<lambda>e. se_check e = check) steps"
  by (auto simp: read_job_def Let_def result_bind_Inr_iff step_evidence_of_def list_all_iff split: if_splits)

lemma check_evidence_covers:
  "check_evidence gh repo c = Inr steps \<Longrightarrow> list_ex (\<lambda>e. se_check e = fc_name c) steps"
  unfolding check_evidence_def
  by (auto simp: result_bind_Inr_iff neq_Nil_conv split: option.splits if_splits dest!: read_job_covers)

lemma read_signatures_covers:
  "read_signatures gh repo cs ev = (Inr u, ev') \<Longrightarrow>
     \<exists>new. ev' = ev @ new \<and> list_all (\<lambda>c. list_ex (\<lambda>e. se_check e = fc_name c) new) cs"
proof (induction cs arbitrary: ev)
  case (Cons c cs)
  from Cons.prems obtain steps where
      steps: "check_evidence gh repo c = Inr steps" "read_signatures gh repo cs (ev @ steps) = (Inr u, ev')"
    by (auto split: sum.splits)
  from Cons.IH [OF steps(2)] obtain new where "ev' = (ev @ steps) @ new"
      "list_all (\<lambda>c. list_ex (\<lambda>e. se_check e = fc_name c) new) cs" by blast
  then show ?case using check_evidence_covers [OF steps(1)]
    by (intro exI [of _ "steps @ new"]) (auto simp: list_all_iff)
qed simp

lemma verdict_from_evidence_allowed:
  "er_allowed (verdict_from_evidence sha n ev) \<longleftrightarrow> list_all step_explained ev \<and> (list_ex is_interruption ev \<or> n = 1)"
  "er_evidence (verdict_from_evidence sha n ev) = ev"
  "er_allowed (verdict_from_evidence sha n ev) \<Longrightarrow>
     er_class (verdict_from_evidence sha n ev) = Some (if list_ex is_interruption ev then InterruptionClass else NetworkClass)"
  by (auto simp: verdict_from_evidence_def Let_def list_all_iff filter_empty_conv split: if_splits)

lemma verdict_from_attribution_allowed:
  "er_allowed (verdict_from_attribution sha s ev as) \<longleftrightarrow> as \<noteq> [] \<and> list_all (\<lambda>a. clears_head (ca_attribution a)) as"
  "er_evidence (verdict_from_attribution sha s ev as) = ev"
  "er_allowed (verdict_from_attribution sha s ev as) \<Longrightarrow> er_class (verdict_from_attribution sha s ev as) = Some NotHeadCaused"
  by (auto simp: verdict_from_attribution_def Let_def list_all_iff filter_empty_conv split: if_splits)

text \<open>Every failing required check has evidence, and every step of it is explained.\<close>

definition explained_by_signatures :: "step_evidence list \<Rightarrow> failed_check list \<Rightarrow> bool" where
  "explained_by_signatures ev failed =
     (list_all step_explained ev \<and> list_all (\<lambda>c. list_ex (\<lambda>e. se_check e = fc_name c) ev) failed)"

definition cleared_by_attribution ::
  "gh_client \<Rightarrow> string \<Rightarrow> string \<Rightarrow> pr_queue_report \<Rightarrow> step_evidence list \<Rightarrow> failed_check list \<Rightarrow> bool" where
  "cleared_by_attribution gh repo base report ev failed = (case qr_head_oid report of
       None \<Rightarrow> False
     | Some head \<Rightarrow> list_all (\<lambda>c. clears_head (attribute gh repo base head ev c)) failed)"

lemma assess_failed_allowed:
  assumes "assess_failed gh repo report sha base failed = Inr v" and "er_allowed v"
  shows "(er_class v = Some InterruptionClass \<and> explained_by_signatures (er_evidence v) failed)
     \<or> (qr_ejections_of_current_head report = 1
        \<and> (er_class v = Some NetworkClass \<and> explained_by_signatures (er_evidence v) failed
           \<or> er_class v = Some NotHeadCaused \<and> cleared_by_attribution gh repo base report (er_evidence v) failed))"
proof -
  obtain r ev where rs: "read_signatures gh repo failed [] = (r, ev)" by (cases "read_signatures gh repo failed []")
  let ?n = "qr_ejections_of_current_head report"
  let ?s = "result_bind r (\<lambda>_. Inr (verdict_from_evidence sha ?n ev))"
  have attr: "?n = 1 \<and> er_class w = Some NotHeadCaused \<and> cleared_by_attribution gh repo base report (er_evidence w) failed"
    if "option_filter (\<lambda>_. ?n = 1) (qr_head_oid report) = Some head"
      "w = verdict_from_attribution sha ?s ev
         (map (\<lambda>c. \<lparr>ca_check = fc_name c, ca_attribution = attribute gh repo base head ev c\<rparr>) failed)"
      "er_allowed w" for head w
    using that verdict_from_attribution_allowed [of sha ?s ev]
    by (auto simp: option_filter_def cleared_by_attribution_def list_all_iff split: option.splits if_splits)
  show ?thesis
  proof (cases r)
    case (Inl e)
    with assms rs obtain head where "option_filter (\<lambda>_. ?n = 1) (qr_head_oid report) = Some head"
        "v = verdict_from_attribution sha ?s ev
         (map (\<lambda>c. \<lparr>ca_check = fc_name c, ca_attribution = attribute gh repo base head ev c\<rparr>) failed)"
      by (auto simp: assess_failed_def Let_def split: option.splits if_splits)
    with attr assms(2) show ?thesis by blast
  next
    case (Inr u)
    let ?v = "verdict_from_evidence sha ?n ev"
    show ?thesis
    proof (cases "er_allowed ?v")
      case True
      with assms(1) rs Inr have v: "v = ?v" by (simp add: assess_failed_def Let_def)
      from read_signatures_covers [OF rs [unfolded Inr]]
      have "list_all (\<lambda>c. list_ex (\<lambda>e. se_check e = fc_name c) ev) failed" by simp
      with True show ?thesis
        unfolding v explained_by_signatures_def verdict_from_evidence_allowed(2)
        using verdict_from_evidence_allowed(1,3) [of sha ?n ev] by auto
    next
      case False
      with assms rs Inr obtain head where "option_filter (\<lambda>_. ?n = 1) (qr_head_oid report) = Some head"
        "v = verdict_from_attribution sha ?s ev
         (map (\<lambda>c. \<lparr>ca_check = fc_name c, ca_attribution = attribute gh repo base head ev c\<rparr>) failed)"
        by (auto simp: assess_failed_def Let_def split: option.splits if_splits)
      with attr assms(2) show ?thesis by blast
    qed
  qed
qed

lemma assess_allowed:
  assumes "assess gh repo report opted_in = Some v" and "er_allowed v"
  obtains sha where "applies report" "opted_in" "qr_timeline_complete report = Some True"
    "qr_ejections_of_current_head report = 1 \<or> qr_ejections_of_current_head report = 2"
    "Option.bind (qr_last_ejection report) ej_merge_group_commit = Some sha"
    "assess_merge_group gh repo report sha = Inr v"
proof -
  let ?n = "qr_ejections_of_current_head report"
  have refused: "\<not> er_allowed (refused_requeue d c)" for d c by (simp add: refused_requeue_def)
  from assms refused obtain sha where s: "applies report" "opted_in" "qr_timeline_complete report = Some True"
      "?n \<noteq> 0" "?n \<le> interruption_rearm_limit"
      "Option.bind (qr_last_ejection report) ej_merge_group_commit = Some sha"
      "assess_merge_group gh repo report sha = Inr v"
    by (auto simp: assess_def Let_def not_less split: if_splits option.splits sum.splits)
  have "unat ?n \<noteq> 0" "unat ?n \<le> 2"
    using s(4,5) by (auto simp: unat_eq_zero interruption_rearm_limit_def word_le_nat_alt)
  then have "unat ?n = unat (1 :: u32) \<or> unat ?n = unat (2 :: u32)" by auto
  then have "?n = 1 \<or> ?n = 2" by (simp only: word_unat_eq_iff)
  with s show thesis by (intro that)
qed


lemma attribute_clears_iff:
  "clears_head (attribute gh repo base head ev c) \<longleftrightarrow>
     (let steps = filter (\<lambda>s. se_check s = fc_name c) ev in steps \<noteq> [] \<and> list_all step_explained steps)
     \<or> fc_conclusion c \<in> set infra_conclusions \<or> lost_runner_of gh repo c \<noteq> None
     \<or> (\<exists>b \<in> set failing_conclusions. latest_conclusion gh repo base (fc_name c) = Inr (Some b))
     \<or> latest_conclusion gh repo head (fc_name c) = Inr (Some ''success'')"
  by (auto simp: attribute_def Let_def split: option.splits sum.splits if_splits)

section \<open>Witness\<close>

text \<open>
  A repository with one required check whose job was cancelled after twelve minutes without a
  runner. Each request is answered with its path, and the parser maps the last character of the
  path to a value.
\<close>

definition sample_gh :: gh_client where
  "sample_gh = \<lparr>
     gh_run = (\<lambda>args. Inr [last (last args)]),
     gh_from_json = (\<lambda>raw. Inr (
       if raw = ''7'' then JObject [(''base'', JObject [(''ref'', JString ''main'')])]
       else if raw = ''n'' then JArray []
       else if raw = ''0''
         then JObject [(''total_count'', JNumber (PosInt 1)), (''check_runs'', JArray [JObject
           [(''name'', JString ''macos''), (''id'', JNumber (PosInt 5)), (''status'', JString ''completed''),
            (''conclusion'', JString ''cancelled''), (''app'', JObject [(''slug'', JString ''github-actions'')])]])]
       else if raw = ''5''
         then JObject [(''conclusion'', JString ''cancelled''), (''created_at'', JString ''a''), (''completed_at'', JString ''b'')]
       else JObject [(''contexts'', JArray [JString ''macos''])])),
     gh_from_toml = (\<lambda>_. Inr []),
     gh_time = (\<lambda>t. Some (if t = ''b'' then 12 * 60 * 1000000000 else 0))\<rparr>"

definition sample_ejected :: pr_queue_report where
  "sample_ejected = \<lparr>qr_pr = Some 7, qr_head_oid = Some ''aaaa'',
     qr_state = QEjected ''failed_checks'' None False 0,
     qr_last_ejection = Some \<lparr>ej_reason = ''failed_checks'', ej_at = None, ej_new_head_since = False,
       ej_removed_head = Some ''aaaa'', ej_new_head_basis = RemovedHeadSha, ej_timeline_index = 2,
       ej_merge_group_commit = Some ''9999''\<rparr>,
     qr_requeues_without_new_head = 0, qr_ejections_of_current_head = 1, qr_timeline_complete = Some True,
     qr_facts = []\<rparr>"


end
