(* ===== verification/Auto_Arm.thy ===== *)
theory Auto_Arm
  imports Environment_Requeue
begin

text \<open>
  Arming native auto-merge, \<open>src/src/auto_arm.rs\<close>: the decision from an authoritative queue state
  with an optional environment re-enqueue verdict, the cheap pre-filter over a backlog row, the
  mutation arguments and the reading of their response. The lemmas show exactly when the decision
  arms and that it is never more permissive than the enqueue verdict of
  \<open>src/src/pr_queue_state.rs\<close>, except for the bounded environment retry.
\<close>

section \<open>Data\<close>

definition native_auto_merge_mutation :: string where
  "native_auto_merge_mutation = ''mutation($id:ID!){enablePullRequestAutoMerge(input:''
     @ ''{pullRequestId:$id,mergeMethod:MERGE}){pullRequest{number}}}''"

definition native_auto_merge_exact_head_mutation :: string where
  "native_auto_merge_exact_head_mutation = ''mutation($id:ID!,$head:GitObjectID!)''
     @ ''{enablePullRequestAutoMerge(input:{pullRequestId:$id,mergeMethod:MERGE,''
     @ ''expectedHeadOid:$head}){pullRequest{number}}}''"

definition arm_ready_merge_states :: "string list" where
  "arm_ready_merge_states = [''CLEAN'', ''UNSTABLE'', ''BEHIND'', ''HAS_HOOKS'']"

definition merge_state_is_arm_ready :: "string \<Rightarrow> bool" where
  "merge_state_is_arm_ready merge_state = list_ex (eq_ignore_ascii_case merge_state) arm_ready_merge_states"

datatype arm_skip =
    SkipAlreadyArmed "string option"
  | SkipAlreadyQueued "u64 option"
  | SkipDraft
  | SkipMerged
  | SkipClosed
  | SkipEjectedSameHead string
  | SkipNotArmReady string
  | SkipOptedOut string
  | SkipExcludedLabel string
  | SkipNativeAutoMergeDisabled
  | SkipHeadNotApproved string
  | SkipDeferredTier string
  | SkipCarriedCommits string string
  | SkipUnknown string

definition explain_skip :: "arm_skip \<Rightarrow> string" where
  "explain_skip s = (case s of
       SkipAlreadyArmed enabled_at \<Rightarrow> ''auto-merge is already armed''
         @ (case enabled_at of None \<Rightarrow> [] | Some at \<Rightarrow> '' since '' @ at)
         @ ''; the queue admits it once required checks pass''
     | SkipAlreadyQueued pos \<Rightarrow> ''already in the merge queue''
         @ (case pos of None \<Rightarrow> [] | Some p \<Rightarrow> '' at position '' @ show_nat p)
         @ ''; re-arming would re-enqueue a head the queue already holds''
     | SkipDraft \<Rightarrow> ''it is a draft, and GitHub refuses auto-merge on drafts''
     | SkipMerged \<Rightarrow> ''it is already merged''
     | SkipClosed \<Rightarrow> ''it is closed''
     | SkipEjectedSameHead reason \<Rightarrow> ''the queue ejected this exact head ('' @ reason
         @ '') and no new head followed; re-arming would re-enqueue it and fail its batch-mates''
     | SkipNotArmReady merge_state \<Rightarrow> ''GitHub reports mergeStateStatus='' @ merge_state
         @ '', which is not a state that permits arming''
     | SkipOptedOut label \<Rightarrow> ''it carries the opt-out label `'' @ label @ ''`''
     | SkipExcludedLabel label \<Rightarrow> ''it carries the hold label `'' @ label @ ''`, which denies admission''
     | SkipNativeAutoMergeDisabled \<Rightarrow> ''the repository does not allow native auto-merge''
     | SkipHeadNotApproved detail \<Rightarrow> detail
     | SkipDeferredTier detail \<Rightarrow> detail
     | SkipCarriedCommits blocked_on detail \<Rightarrow> blocked_on @ '': '' @ detail
     | SkipUnknown detail \<Rightarrow> ''its merge-queue state could not be determined ('' @ detail
         @ ''); refusing to arm blind'')"

datatype arm_verdict = Arm | ArmSkipped arm_skip

definition verdict_arms :: "arm_verdict \<Rightarrow> bool" where
  "verdict_arms v = (v = Arm)"

section \<open>Decisions\<close>

definition decide_from_queue_state_with_environment ::
  "pr_queue_state \<Rightarrow> bool \<Rightarrow> environment_requeue option \<Rightarrow> arm_verdict" where
  "decide_from_queue_state_with_environment state draft environment = (case state of
       QMerged \<Rightarrow> ArmSkipped SkipMerged
     | QClosed \<Rightarrow> ArmSkipped SkipClosed
     | QQueued _ pos _ \<Rightarrow> ArmSkipped (SkipAlreadyQueued pos)
     | QArmedNotQueued enabled_at _ \<Rightarrow> ArmSkipped (SkipAlreadyArmed enabled_at)
     | QUnknown detail \<Rightarrow> ArmSkipped (SkipUnknown detail)
     | QEjected reason _ new_head _ \<Rightarrow>
         if draft then ArmSkipped SkipDraft
         else if new_head \<or> same_head_requeue_allowed reason
              \<or> is_some_and environment (\<lambda>v. er_allowed v \<and> eq_ignore_ascii_case reason ''failed_checks'')
         then Arm else ArmSkipped (SkipEjectedSameHead reason)
     | QNeverArmed \<Rightarrow> if draft then ArmSkipped SkipDraft else Arm)"

definition decide_from_queue_state :: "pr_queue_state \<Rightarrow> bool \<Rightarrow> arm_verdict" where
  "decide_from_queue_state state draft = decide_from_queue_state_with_environment state draft None"

definition preselect_backstop_candidate :: "steward_pull_request \<Rightarrow> bool \<Rightarrow> string \<Rightarrow> arm_verdict" where
  "preselect_backstop_candidate pr native_auto_merge opt_out_label =
     (if \<not> native_auto_merge then ArmSkipped SkipNativeAutoMergeDisabled
      else case find (\<lambda>l. eq_ignore_ascii_case l opt_out_label) (spr_labels pr) of
        Some label \<Rightarrow> ArmSkipped (SkipOptedOut label)
      | None \<Rightarrow> (case excluded_admission_label (spr_labels pr) of
          Some label \<Rightarrow> ArmSkipped (SkipExcludedLabel label)
        | None \<Rightarrow> (case spr_queue_position pr of
            Some pos \<Rightarrow> ArmSkipped (SkipAlreadyQueued (Some pos))
          | None \<Rightarrow>
              if spr_auto_merge_active pr then ArmSkipped (SkipAlreadyArmed None)
              else if spr_draft pr then ArmSkipped SkipDraft
              else if \<not> merge_state_is_arm_ready (spr_merge_state pr)
              then ArmSkipped (SkipNotArmReady (spr_merge_state pr))
              else Arm)))"

section \<open>The mutation\<close>

definition arm_mutation_args :: "string \<Rightarrow> string list" where
  "arm_mutation_args node_id =
     [''api'', ''graphql'', ''-f'', ''query='' @ native_auto_merge_mutation, ''-F'', ''id='' @ node_id]"

definition arm_mutation_args_at_head :: "string \<Rightarrow> string \<Rightarrow> string list" where
  "arm_mutation_args_at_head node_id head =
     [''api'', ''graphql'', ''-f'', ''query='' @ native_auto_merge_exact_head_mutation, ''-F'', ''id='' @ node_id,
      ''-f'', ''head='' @ head]"

definition arm_response_accepted :: "(string \<Rightarrow> string + json) \<Rightarrow> string \<Rightarrow> bool" where
  "arm_response_accepted from_json raw = (case from_json raw of
       Inl _ \<Rightarrow> False
     | Inr v \<Rightarrow> json_get ''errors'' v = None
         \<and> is_some_and (json_path [''data'', ''enablePullRequestAutoMerge'', ''pullRequest''] v) (\<lambda>p. \<not> is_null p))"

definition first_graphql_error :: "(string \<Rightarrow> string + json) \<Rightarrow> string \<Rightarrow> string option" where
  "first_graphql_error from_json raw = (case from_json raw of
       Inl _ \<Rightarrow> None
     | Inr v \<Rightarrow> Option.bind (Option.bind (json_get ''errors'' v) as_array) (\<lambda>es.
         case es of [] \<Rightarrow> None | e # _ \<Rightarrow> get_str ''message'' e))"

definition is_auto_merge_disabled_refusal :: "string \<Rightarrow> bool" where
  "is_auto_merge_disabled_refusal message =
     (let lowered = to_ascii_lowercase message
      in (str_contains lowered ''auto-merge'' \<or> str_contains lowered ''auto merge'')
         \<and> (str_contains lowered ''not allowed'' \<or> str_contains lowered ''not enabled''
            \<or> str_contains lowered ''is disabled'' \<or> str_contains lowered ''enabled in repository settings''))"

definition is_arm_guard_refusal :: "string \<Rightarrow> bool" where
  "is_arm_guard_refusal message = str_contains message ''queue-arm-guard:''"

section \<open>Properties\<close>

lemma requeue_allowed_not_cascading: "same_head_requeue_allowed r \<Longrightarrow> \<not> same_head_requeue_cascades r"
  unfolding same_head_requeue_allowed_def same_head_requeue_cascades_def retry_hazard_reasons_def eq_ignore_ascii_case_def
  by (auto simp: to_ascii_lowercase_def ascii_lower_char_def)

lemma decide_arm_iff:
  "decide_from_queue_state_with_environment state draft environment = Arm \<longleftrightarrow>
     \<not> draft \<and> (state = QNeverArmed \<or> (\<exists>reason at new_head n. state = QEjected reason at new_head n
        \<and> (new_head \<or> same_head_requeue_allowed reason
           \<or> is_some_and environment (\<lambda>v. er_allowed v \<and> eq_ignore_ascii_case reason ''failed_checks''))))"
  by (cases state) (auto simp: decide_from_queue_state_with_environment_def)

lemma decide_arm_verdict:
  assumes "decide_from_queue_state_with_environment (qr_state report) draft environment = Arm"
    and "internal_enqueue_verdict_of report head \<noteq> EnqueueAdmit"
  obtains v where "environment = Some v" "er_allowed v" "applies report"
proof -
  from assms(1) obtain reason at new_head n where st: "qr_state report = QEjected reason at new_head n"
      "new_head \<or> same_head_requeue_allowed reason
        \<or> is_some_and environment (\<lambda>v. er_allowed v \<and> eq_ignore_ascii_case reason ''failed_checks'')"
    using assms(2) unfolding decide_arm_iff by (auto simp: internal_enqueue_verdict_of_def)
  with assms(2) have "\<not> new_head" "same_head_requeue_cascades reason"
    by (auto simp: internal_enqueue_verdict_of_def split: if_splits)
  with st requeue_allowed_not_cascading
  have "is_some_and environment (\<lambda>v. er_allowed v \<and> eq_ignore_ascii_case reason ''failed_checks'')" by blast
  then obtain v where "environment = Some v" "er_allowed v" "eq_ignore_ascii_case reason ''failed_checks''"
    by (auto simp: is_some_and_def split: option.splits)
  with st \<open>\<not> new_head\<close> show thesis by (intro that) (simp_all add: applies_def)
qed

text \<open>
  (C22) Arming is never more permissive than the enqueue verdict: when the decision, given the
  environment assessment of the same report, arms a pull request, it is not a draft and its queue
  state was read, and the verdict admits the head, or the queue ejected this unchanged head for
  failed checks and the bounded environment retry applies (the repository opted in, the timeline
  is complete, and the head was ejected once or twice). Without an environment verdict the second
  case cannot occur.
\<close>

theorem arm_within_enqueue_verdict:
  assumes "decide_from_queue_state_with_environment (qr_state report) draft environment = Arm"
    and "environment = None \<or> environment = assess gh repo report opted_in"
  shows "\<not> draft \<and> (\<forall>detail. qr_state report \<noteq> QUnknown detail)
     \<and> (internal_enqueue_verdict_of report head = EnqueueAdmit
        \<or> environment \<noteq> None \<and> applies report \<and> opted_in \<and> qr_timeline_complete report = Some True
          \<and> qr_ejections_of_current_head report \<in> {1, 2})"
proof -
  from assms(1) have d: "\<not> draft" "\<And>detail. qr_state report \<noteq> QUnknown detail"
    by (auto simp: decide_arm_iff)
  show ?thesis
  proof (cases "internal_enqueue_verdict_of report head = EnqueueAdmit")
    case False
    from decide_arm_verdict [OF assms(1) False] obtain v where
      v: "environment = Some v" "er_allowed v" "applies report" by blast
    with assms(2) have "assess gh repo report opted_in = Some v" by simp
    from assess_allowed [OF this v(2)] have
      "opted_in \<and> qr_timeline_complete report = Some True \<and> qr_ejections_of_current_head report \<in> {1, 2}" by blast
    with d v show ?thesis by simp
  qed (simp add: d)
qed

text \<open>
  The backlog pre-filter passes a row exactly when the repository allows native auto-merge, no
  opt-out or hold label is on it, it is neither queued, armed nor a draft, and GitHub's merge
  state is one a queue absorbs.
\<close>

theorem preselect_arm_iff:
  "preselect_backstop_candidate pr native opt_out = Arm \<longleftrightarrow>
     native \<and> \<not> list_ex (\<lambda>l. eq_ignore_ascii_case l opt_out) (spr_labels pr)
     \<and> excluded_admission_label (spr_labels pr) = None \<and> spr_queue_position pr = None
     \<and> \<not> spr_auto_merge_active pr \<and> \<not> spr_draft pr
     \<and> to_ascii_uppercase (spr_merge_state pr) \<in> {''CLEAN'', ''UNSTABLE'', ''BEHIND'', ''HAS_HOOKS''}"
proof -
  have ready: "merge_state_is_arm_ready s \<longleftrightarrow> to_ascii_uppercase s \<in> {''CLEAN'', ''UNSTABLE'', ''BEHIND'', ''HAS_HOOKS''}" for s
  proof -
    have "to_ascii_uppercase t = t" if "t \<in> set arm_ready_merge_states" for t
      using that by (auto simp: arm_ready_merge_states_def to_ascii_uppercase_def ascii_upper_char_def)
    then show ?thesis
      by (simp add: merge_state_is_arm_ready_def list_ex_iff eq_ignore_ascii_case_upper arm_ready_merge_states_def)
  qed
  have nofind: "\<not> list_ex P xs \<longleftrightarrow> find P xs = None" for P and xs :: "string list"
    by (auto simp: find_None_iff list_ex_iff)
  show ?thesis
    unfolding nofind
    by (cases "find (\<lambda>l. eq_ignore_ascii_case l opt_out) (spr_labels pr)"; cases "excluded_admission_label (spr_labels pr)";
        cases "spr_queue_position pr") (simp_all add: preselect_backstop_candidate_def ready)
qed

section \<open>Witness\<close>

theorem arm_within_enqueue_verdict_witness:
  "let e = assess sample_gh ''r'' sample_ejected True
   in decide_from_queue_state_with_environment (qr_state sample_ejected) False e = Arm
      \<and> internal_enqueue_verdict_of sample_ejected ''aaaa'' = RefuseEjectedSameHead ''failed_checks'' None
      \<and> qr_ejections_of_current_head sample_ejected \<in> {1, 2}"
proof -
  let ?e = "assess sample_gh ''r'' sample_ejected True"
  have a: "decide_from_queue_state_with_environment (qr_state sample_ejected) False ?e = Arm" by code_simp
  have r: "internal_enqueue_verdict_of sample_ejected ''aaaa'' = RefuseEjectedSameHead ''failed_checks'' None"
    by code_simp
  from arm_within_enqueue_verdict [OF a, of sample_gh "''r''" True "''aaaa''"] r
  have "qr_ejections_of_current_head sample_ejected \<in> {1, 2}" by simp
  with a r show ?thesis by (simp only: Let_def simp_thms)
qed

end
