(* ===== verification/Merge_Train.thy ===== *)
theory Merge_Train
  imports Environment_Requeue Complex_Main
begin

text \<open>
  The merge train of \<open>src/src/merge_train.rs\<close>: its switches, the stage of a pull request and the
  metrics over recorded samples, with the host opt-out record \<open>read_opt_out\<close> of
  \<open>src/src/head_approval.rs\<close>. The file system is the state found at a path, the TOML and JSON
  parsers and the time parser are parameters, and the three floating-point figures are given as
  the exact quotient before rounding. The lemmas show that the batch histogram accounts for every
  merge, that the idle figure is a part of the observed span and that the latency figures are
  nearest-rank percentiles.
\<close>

section \<open>Switches\<close>

definition kill_env :: string where
  "kill_env = ''SHIPYARD_TRAIN''"

definition pause_file :: string where
  "pause_file = ''train.pause''"

definition max_sample_gap_minutes :: int where
  "max_sample_gap_minutes = 30"

definition batch_window_seconds :: int where
  "batch_window_seconds = 90"

datatype off_by = KillEnv string | KillPause string | ConfigOff | ConfigUnreadable string

datatype train_switch = TrainOn | TrainOff off_by

definition train_is_on :: "train_switch \<Rightarrow> bool" where
  "train_is_on s = (s = TrainOn)"

definition explain_switch :: "train_switch \<Rightarrow> string" where
  "explain_switch s = (case s of
       TrainOn \<Rightarrow> ''on: `[train] enabled = true` in the base config''
     | TrainOff by \<Rightarrow> (case by of
         KillEnv value \<Rightarrow> ''off: killed by '' @ kill_env @ ''='' @ value
       | KillPause reason \<Rightarrow> ''off: paused by the guards-dir '' @ pause_file @ '' ('' @ reason @ '')''
       | ConfigOff \<Rightarrow> ''off: the base config does not set `[train] enabled = true`''
       | ConfigUnreadable detail \<Rightarrow> ''off: the base config is unreadable ('' @ detail @ '')''))"

definition env_kills :: "string \<Rightarrow> string \<Rightarrow> bool" where
  "env_kills value repo =
     (list_ex (eq_ignore_ascii_case value) [''off'', ''0'', ''false'']
      \<or> is_some_and (split_once '':'' value) (\<lambda>(word, target).
          eq_ignore_ascii_case word ''off'' \<and> eq_ignore_ascii_case (trim target) repo))"

definition kill_switch :: "string option \<Rightarrow> string option \<Rightarrow> string \<Rightarrow> off_by option" where
  "kill_switch env pause repo =
     (case map_option trim env of
        Some value \<Rightarrow> if env_kills value repo then Some (KillEnv value) else map_option KillPause pause
      | None \<Rightarrow> map_option KillPause pause)"

datatype path_state = PathAbsent | PathFault string | NotRegular | ReadFault string | RegularFile string

datatype opt_out = OptOutAbsent | OptOutValid string string | OptOutInvalid string

definition opt_out_field :: "json option \<Rightarrow> string \<Rightarrow> string option" where
  "opt_out_field parsed key =
     option_filter (\<lambda>t. t \<noteq> []) (map_option trim (Option.bind parsed (get_str key)))"

definition read_opt_out :: "(string \<Rightarrow> string + json) \<Rightarrow> path_state \<Rightarrow> opt_out" where
  "read_opt_out from_json path = (case path of
       PathAbsent \<Rightarrow> OptOutAbsent
     | PathFault detail \<Rightarrow> OptOutInvalid detail
     | NotRegular \<Rightarrow> OptOutInvalid ''not a regular file''
     | ReadFault detail \<Rightarrow> OptOutInvalid detail
     | RegularFile contents \<Rightarrow>
         let entry = trim contents; parsed = (case from_json entry of Inl _ \<Rightarrow> None | Inr v \<Rightarrow> Some v)
         in case (opt_out_field parsed ''reason'', opt_out_field parsed ''at'', opt_out_field parsed ''by'') of
              (Some reason, Some _, Some _) \<Rightarrow> OptOutValid reason entry
            | _ \<Rightarrow> OptOutInvalid ''not an opt-out record (needs JSON with reason, at and by)'')"

definition read_pause :: "(string \<Rightarrow> string + json) \<Rightarrow> path_state \<Rightarrow> string option" where
  "read_pause from_json path = (case read_opt_out from_json path of
       OptOutAbsent \<Rightarrow> None
     | OptOutValid reason _ \<Rightarrow> Some reason
     | OptOutInvalid detail \<Rightarrow> Some (''unparseable pause file, which still pauses: '' @ detail))"

definition enabled_in_config ::
  "(string \<Rightarrow> string + toml_table) \<Rightarrow> (toml \<Rightarrow> string) \<Rightarrow> string \<Rightarrow> string + bool" where
  "enabled_in_config from_toml shown contents = (case from_toml contents of
       Inl e \<Rightarrow> Inl (''does not parse: '' @ e)
     | Inr table \<Rightarrow> (case Option.bind (map_of table ''train'') (toml_get ''enabled'') of
         None \<Rightarrow> Inr False
       | Some (TBoolean b) \<Rightarrow> Inr b
       | Some v \<Rightarrow> Inl (''`train.enabled` is '' @ shown v @ '', not a boolean'')))"

section \<open>Stages and samples\<close>

datatype stage =
    StageDraft | StageQueued | StageConflict | ChecksRunning | ChecksFailed | ChecksInterrupted
  | StageEjectedSameHead | Armed | NeedsReview | Held | TierBlocked | Ready

definition stage_approved :: "stage \<Rightarrow> bool" where
  "stage_approved s = (s \<in> {Ready, TierBlocked, StageQueued, Armed})"

definition stage_from_decision :: "steward_decision \<Rightarrow> stage option" where
  "stage_from_decision d = (case d of
       StewardQueued _ \<Rightarrow> Some StageQueued
     | Draft \<Rightarrow> Some StageDraft
     | NeedsUpdate _ \<Rightarrow> Some StageConflict
     | WaitingRequired _ \<Rightarrow> Some ChecksRunning
     | RequiredFailed _ \<Rightarrow> Some ChecksFailed
     | RerunTransient _ \<Rightarrow> Some ChecksInterrupted
     | ArmMergeQueue \<Rightarrow> None
     | _ \<Rightarrow> Some Held)"

record pr_sample =
  ps_stage :: stage
  ps_head :: string

record merge_record =
  mr_number :: u64
  mr_merged_at :: string

record train_sample =
  ts_at :: string
  ts_queue_depth :: u64
  ts_prs :: "(u64 \<times> pr_sample) list"
  ts_merged :: "merge_record list"

definition ready_count :: "train_sample \<Rightarrow> nat" where
  "ready_count s = length (filter (\<lambda>(_, pr). ps_stage pr = Ready) (ts_prs s))"

section \<open>Metrics\<close>

record train_metrics =
  tm_samples :: nat
  tm_hours :: rat
  tm_merges :: nat
  tm_merges_per_hour :: rat
  tm_p50_minutes :: "int option"
  tm_p95_minutes :: "int option"
  tm_latency_population :: nat
  tm_queue_empty_while_ready_minutes :: int
  tm_batch_sizes :: "(nat \<times> nat) list"
  tm_heads_per_merged_pr :: "rat option"

definition percentile :: "int list \<Rightarrow> nat \<Rightarrow> int option" where
  "percentile vs percent =
     (if vs = [] then None
      else let rank = max 1 ((percent * length vs + 99) div 100) in list_get vs (rank - 1))"

definition count_size :: "nat \<Rightarrow> (nat \<times> nat) list \<Rightarrow> (nat \<times> nat) list" where
  "count_size n sizes = bt_insert n (unwrap_or (bt_get sizes n) 0 + 1) sizes"

text \<open>The loop over sorted times: the first merge of the open batch, its size, and the histogram.\<close>

fun batch_loop :: "time option \<Rightarrow> nat \<Rightarrow> (nat \<times> nat) list \<Rightarrow> time list \<Rightarrow> (nat \<times> nat) list" where
  "batch_loop start n sizes [] = (if 0 < n then count_size n sizes else sizes)"
| "batch_loop start n sizes (t # ts) =
     (if is_some_and start (\<lambda>first. t - first \<le> duration_seconds batch_window_seconds)
      then batch_loop start (n + 1) sizes ts
      else batch_loop (Some t) 1 (if 0 < n then count_size n sizes else sizes) ts)"

definition batch_sizes :: "time list \<Rightarrow> (nat \<times> nat) list" where
  "batch_sizes merged = batch_loop None 0 [] (sort merged)"

record metrics_state =
  ms_first_approved :: "(u64 \<times> time) list"
  ms_heads :: "(u64 \<times> string list) list"
  ms_merge_times :: "(u64 \<times> time) list"
  ms_idle_minutes :: int

definition observe_pr :: "time \<Rightarrow> u64 \<times> pr_sample \<Rightarrow> metrics_state \<Rightarrow> metrics_state" where
  "observe_pr seen = (\<lambda>(n, pr) st.
     st\<lparr>ms_heads := bt_insert n (List.insert (ps_head pr) (unwrap_or (bt_get (ms_heads st) n) [])) (ms_heads st),
        ms_first_approved := if stage_approved (ps_stage pr) then bt_or_insert n seen (ms_first_approved st)
          else ms_first_approved st\<rparr>)"

definition observe_merge :: "(string \<Rightarrow> time option) \<Rightarrow> merge_record \<Rightarrow> metrics_state \<Rightarrow> metrics_state" where
  "observe_merge parse_time m st = (case parse_time (mr_merged_at m) of
       None \<Rightarrow> st
     | Some seen \<Rightarrow> st\<lparr>ms_merge_times := bt_or_insert (mr_number m) seen (ms_merge_times st)\<rparr>)"

definition idle_gap :: "time \<Rightarrow> train_sample \<Rightarrow> (time \<times> train_sample) list \<Rightarrow> int" where
  "idle_gap seen s rest = (case rest of
       [] \<Rightarrow> 0
     | (next_at, _) # _ \<Rightarrow>
         let gap = num_minutes (next_at - seen)
         in if ts_queue_depth s = 0 \<and> 0 < ready_count s \<and> gap \<le> max_sample_gap_minutes then gap else 0)"

fun metrics_loop ::
  "(string \<Rightarrow> time option) \<Rightarrow> metrics_state \<Rightarrow> (time \<times> train_sample) list \<Rightarrow> metrics_state" where
  "metrics_loop parse_time st [] = st"
| "metrics_loop parse_time st ((seen, s) # rest) =
     (let st1 = fold (observe_merge parse_time) (ts_merged s) (fold (observe_pr seen) (ts_prs s) st)
      in metrics_loop parse_time (st1\<lparr>ms_idle_minutes := ms_idle_minutes st1 + idle_gap seen s rest\<rparr>) rest)"

definition ordered_samples ::
  "(string \<Rightarrow> time option) \<Rightarrow> train_sample list \<Rightarrow> (time \<times> train_sample) list" where
  "ordered_samples parse_time samples =
     sort_key fst (List.map_filter (\<lambda>s. map_option (\<lambda>t. (t, s)) (parse_time (ts_at s))) samples)"

definition i32_or_max :: "int \<Rightarrow> int" where
  "i32_or_max n = (if - (2 ^ 31) \<le> n \<and> n < 2 ^ 31 then n else 2 ^ 31 - 1)"

definition u32_or_max :: "nat \<Rightarrow> nat" where
  "u32_or_max n = (if n < 2 ^ 32 then n else 2 ^ 32 - 1)"

definition latency_of :: "(u64 \<times> time) list \<Rightarrow> u64 \<times> time \<Rightarrow> int option" where
  "latency_of first_approved = (\<lambda>(n, merged_at).
     Option.bind (bt_get first_approved n) (\<lambda>approved.
       if approved \<le> merged_at then Some (num_minutes (merged_at - approved)) else None))"

definition train_metrics_of :: "(string \<Rightarrow> time option) \<Rightarrow> train_sample list \<Rightarrow> train_metrics" where
  "train_metrics_of parse_time samples =
     (let ordered = ordered_samples parse_time samples;
          hours = (if ordered = [] then 0
            else of_int (i32_or_max (num_seconds (fst (last ordered) - fst (hd ordered)))) / 3600);
          st = metrics_loop parse_time
            \<lparr>ms_first_approved = [], ms_heads = [], ms_merge_times = [], ms_idle_minutes = 0\<rparr> ordered;
          latencies = sort (List.map_filter (latency_of (ms_first_approved st)) (ms_merge_times st));
          merges = length (ms_merge_times st);
          churn = List.map_filter (\<lambda>(n, _). map_option length (bt_get (ms_heads st) n)) (ms_merge_times st)
      in \<lparr>tm_samples = length ordered, tm_hours = hours, tm_merges = merges,
          tm_merges_per_hour = (if 0 < hours then of_nat (u32_or_max merges) / hours else 0),
          tm_p50_minutes = percentile latencies 50, tm_p95_minutes = percentile latencies 95,
          tm_latency_population = length latencies,
          tm_queue_empty_while_ready_minutes = ms_idle_minutes st,
          tm_batch_sizes = batch_sizes (map snd (ms_merge_times st)),
          tm_heads_per_merged_pr = (if churn = [] then None
            else Some (of_nat (u32_or_max (sum_list churn)) / of_nat (u32_or_max (length churn))))\<rparr>)"

section \<open>Batches\<close>

definition histogram_total :: "(nat \<times> nat) list \<Rightarrow> nat" where
  "histogram_total sizes = sum_list (map (\<lambda>(n, k). n * k) sizes)"

lemma histogram_count:
  "bt_wf sizes \<Longrightarrow> histogram_total (count_size n sizes) = histogram_total sizes + n"
proof -
  have "histogram_total (bt_insert n v m) + n * unwrap_or (bt_get m n) 0 = histogram_total m + n * v" if "bt_wf m" for v m
    using that
  proof (induction m)
    case (Cons e m)
    obtain k w where e: "e = (k, w)" by (cases e)
    have wf: "bt_wf m" and lt: "\<And>k'. k' \<in> fst ` set m \<Longrightarrow> k < k'"
      using Cons.prems by (auto simp: bt_wf_def e)
    have "n < k \<Longrightarrow> bt_get m n = None" using lt [of n]
      by (auto simp: bt_get_def map_of_eq_None_iff)
    with Cons.IH [OF wf] show ?case
      by (auto simp: e histogram_total_def bt_get_def unwrap_or_def split: if_splits)
  qed (simp add: histogram_total_def bt_get_def unwrap_or_def)
  from this [of sizes "unwrap_or (bt_get sizes n) 0 + 1"] show "bt_wf sizes \<Longrightarrow> ?thesis"
    by (simp add: count_size_def)
qed

lemma count_size_wf: "bt_wf sizes \<Longrightarrow> bt_wf (count_size n sizes)"
  by (simp add: count_size_def bt_wf_insert)

lemma batch_loop_total:
  "bt_wf sizes \<Longrightarrow> histogram_total (batch_loop start n sizes ts) = histogram_total sizes + n + length ts"
  by (induction start n sizes ts rule: batch_loop.induct) (auto simp: histogram_count count_size_wf)

lemma batch_sizes_total: "histogram_total (batch_sizes ts) = length ts"
  by (simp add: batch_sizes_def batch_loop_total) (simp add: histogram_total_def)

section \<open>Percentiles\<close>

lemma sorted_count_below:
  assumes "sorted vs" and "i < length vs"
  shows "length (filter (\<lambda>x. x < vs ! i) vs) \<le> i" and "i < length (filter (\<lambda>x. x \<le> vs ! i) vs)"
proof -
  have "filter (\<lambda>x. x < vs ! i) (drop i vs) = []"
    using assms by (auto simp: filter_empty_conv in_set_conv_nth sorted_nth_mono not_less)
  then have "filter (\<lambda>x. x < vs ! i) vs = filter (\<lambda>x. x < vs ! i) (take i vs)"
    using filter_append [of "\<lambda>x. x < vs ! i" "take i vs" "drop i vs"] by simp
  then show "length (filter (\<lambda>x. x < vs ! i) vs) \<le> i"
    using length_filter_le [of "\<lambda>x. x < vs ! i" "take i vs"] assms(2) by simp
  have "filter (\<lambda>x. x \<le> vs ! i) (take (Suc i) vs) = take (Suc i) vs"
    using assms by (auto simp: filter_id_conv in_set_conv_nth less_Suc_eq_le intro!: sorted_nth_mono)
  then have "length (filter (\<lambda>x. x \<le> vs ! i) vs)
      = Suc i + length (filter (\<lambda>x. x \<le> vs ! i) (drop (Suc i) vs))"
    using filter_append [of "\<lambda>x. x \<le> vs ! i" "take (Suc i) vs" "drop (Suc i) vs"] assms(2)
    by (simp add: min_def)
  then show "i < length (filter (\<lambda>x. x \<le> vs ! i) vs)" by simp
qed

text \<open>
  The latency figures are nearest-rank percentiles: for a non-empty sorted list and a percentage
  between 1 and 100 the result is a value of the list such that at least that share of the values
  is no larger, and less than that share is smaller.
\<close>

theorem percentile_nearest_rank:
  assumes "sorted vs" and "vs \<noteq> []" and "0 < p" and "p \<le> 100"
  shows "\<exists>v. percentile vs p = Some v \<and> v \<in> set vs
     \<and> p * length vs \<le> 100 * length (filter (\<lambda>x. x \<le> v) vs)
     \<and> 100 * length (filter (\<lambda>x. x < v) vs) < p * length vs"
proof -
  let ?n = "length vs" and ?rank = "(p * length vs + 99) div 100"
  have pos: "0 < p * ?n" using assms by simp
  have rank: "1 \<le> ?rank" "100 * (?rank - 1) < p * ?n" "p * ?n \<le> 100 * ?rank" using pos by linarith+
  have "p * ?n \<le> 100 * ?n" using assms(4) by simp
  then have i: "?rank - 1 < ?n" using rank by linarith
  let ?v = "vs ! (?rank - 1)"
  have "percentile vs p = Some ?v"
    using assms(2) rank(1) i by (simp add: percentile_def list_get_def Let_def max_def)
  moreover have "?v \<in> set vs" using i by (rule nth_mem)
  ultimately show ?thesis
    using sorted_count_below [OF assms(1) i] rank by (intro exI [of _ ?v] conjI) linarith+
qed

section \<open>Idle time\<close>

lemma num_minutes_nonneg: "0 \<le> d \<Longrightarrow> num_minutes d = d div (60 * nanos_per_second)"
  by (cases "d = 0") (simp_all add: num_minutes_def)

lemma num_minutes_add: "0 \<le> a \<Longrightarrow> 0 \<le> b \<Longrightarrow> num_minutes a + num_minutes b \<le> num_minutes (a + b)"
  by (simp add: num_minutes_nonneg nanos_per_second_def)

lemma fold_idle [simp]:
  "ms_idle_minutes (fold (observe_pr seen) prs st) = ms_idle_minutes st"
  "ms_idle_minutes (fold (observe_merge parse_time) ms st) = ms_idle_minutes st"
  subgoal by (induction prs arbitrary: st) (simp_all add: observe_pr_def split: prod.split)
  subgoal by (induction ms arbitrary: st) (simp_all add: observe_merge_def split: option.split)
  done

lemma metrics_loop_idle:
  "sorted (map fst os) \<Longrightarrow> os \<noteq> [] \<Longrightarrow>
     ms_idle_minutes st \<le> ms_idle_minutes (metrics_loop parse_time st os)
     \<and> ms_idle_minutes (metrics_loop parse_time st os)
         \<le> ms_idle_minutes st + num_minutes (fst (last os) - fst (hd os))"
proof (induction os arbitrary: st)
  case (Cons e rest)
  obtain seen s where e: "e = (seen, s)" by (cases e)
  show ?case
  proof (cases rest)
    case Nil
    then show ?thesis by (simp add: e Let_def idle_gap_def num_minutes_def)
  next
    case (Cons f more)
    obtain next_at s' where f: "f = (next_at, s')" by (cases f)
    let ?gap = "num_minutes (next_at - seen)"
    let ?st1 = "fold (observe_merge parse_time) (ts_merged s) (fold (observe_pr seen) (ts_prs s) st)"
    have ord: "seen \<le> next_at" "next_at \<le> fst (last rest)" "sorted (map fst rest)"
      using Cons.prems Cons by (auto simp: e f)
    have gap: "0 \<le> ?gap" using ord(1) num_minutes_nonneg [of "next_at - seen"]
      by (simp add: pos_imp_zdiv_nonneg_iff nanos_per_second_def)
    have "0 \<le> idle_gap seen s rest" "idle_gap seen s rest \<le> ?gap"
      using gap by (simp_all add: idle_gap_def Cons f Let_def)
    moreover have "?gap + num_minutes (fst (last rest) - next_at) \<le> num_minutes (fst (last rest) - seen)"
      using num_minutes_add [of "next_at - seen" "fst (last rest) - next_at"] ord by simp
    moreover have "metrics_loop parse_time st (e # rest) = metrics_loop parse_time (?st1\<lparr>ms_idle_minutes :=
        ms_idle_minutes ?st1 + idle_gap seen s rest\<rparr>) rest"
      by (simp add: e Let_def)
    moreover have "ms_idle_minutes ?st1 = ms_idle_minutes st" by simp
    moreover have "rest \<noteq> []" "hd rest = f" using Cons by simp_all
    ultimately show ?thesis
      using Cons.IH [OF ord(3), of "?st1\<lparr>ms_idle_minutes := ms_idle_minutes ?st1 + idle_gap seen s rest\<rparr>"]
      by (simp add: e f)
  qed
qed simp

text \<open>
  The waste figure is a part of the window: the minutes the queue counts as empty while a ready
  pull request waited are at least zero and at most the minutes between the first and the last
  readable sample, whatever the order of the samples; without a readable sample they are zero.
  And the batch histogram loses no merge: batch sizes times their counts sum to the merges.
\<close>

theorem train_metrics_conserve:
  fixes parse_time samples
  defines "m \<equiv> train_metrics_of parse_time samples"
    and "os \<equiv> ordered_samples parse_time samples"
  shows "0 \<le> tm_queue_empty_while_ready_minutes m
     \<and> tm_queue_empty_while_ready_minutes m \<le> (if os = [] then 0 else num_minutes (fst (last os) - fst (hd os)))
     \<and> histogram_total (tm_batch_sizes m) = tm_merges m"
proof -
  have "sorted (map fst os)" by (simp add: os_def ordered_samples_def)
  from metrics_loop_idle [OF this, of "\<lparr>ms_first_approved = [], ms_heads = [], ms_merge_times = [], ms_idle_minutes = 0\<rparr>" parse_time]
  show ?thesis
    unfolding m_def train_metrics_of_def Let_def os_def [symmetric]
    by (simp add: batch_sizes_total)
qed

section \<open>Witness\<close>

theorem percentile_nearest_rank_witness:
  "percentile [3, 5, 8, 13] 50 = Some 5 \<and> 100 * length (filter (\<lambda>x. x < (5 :: int)) [3, 5, 8, 13]) < 50 * 4"
proof -
  have "percentile [3, 5, 8, 13] 50 = Some 5" by code_simp
  moreover from percentile_nearest_rank [of "[3, 5, 8, 13]" 50] this
  have "100 * length (filter (\<lambda>x. x < (5 :: int)) [3, 5, 8, 13]) < 50 * length [3, 5, 8, 13 :: int]" by force
  ultimately show ?thesis by simp
qed

end
