(* ===== verification/Ship_State.thy ===== *)
theory Ship_State
  imports Queue_Request "HOL-Library.Product_Lexorder"
begin

text \<open>
  Ship states, \<open>src/src/ship_state.rs\<close>: the durable record of one pull request's ship, the
  reviewer-claim fence, and the repository-scoped store with its legacy mirror and collision markers;
  with \<open>ship_terminal_verdict\<close> of \<open>src/src/watch.rs\<close>. A state file is parsed or corrupt, the lock of a pull request makes
  an operation one step, reads and writes succeed, and the current time, the archive stamp and the
  SHA-256 digest (in hexadecimal) are inputs.

  The lemmas show that a superseded reviewer claim is never current again, that the store is a map
  from repository and pull request to a state whatever its files look like (saving updates one key,
  a refused save changes nothing, deleting and archiving remove one key), and that operations given
  only a pull-request number refuse when two repositories share it.
\<close>

section \<open>Ship states\<close>

definition ship_state_schema_version :: u32 where
  "ship_state_schema_version = 2"

record dispatched_run =
  dr_target :: string
  dr_provider :: string
  dr_run_id :: string
  dr_status :: string
  dr_started_at :: time
  dr_updated_at :: time
  dr_attempt :: u32
  dr_last_heartbeat_at :: "time option"
  dr_phase :: "string option"
  dr_required :: bool

record abandon_record =
  ar_reason :: string
  ar_evidence :: string
  ar_stalled_minutes :: int
  ar_job_id :: "string option"
  ar_abandoned_at :: time

record reviewer_claim =
  rc_head_sha :: string
  rc_epoch :: u64
  rc_reviewer :: string
  rc_claimed_at :: time
  rc_deadline_at :: time

record reviewer_claim_request =
  rq_repository :: string
  rq_pr :: u64
  rq_head_sha :: string
  rq_reviewer :: string
  rq_claimed_at :: time
  rq_deadline_at :: time
  rq_now :: time

record ship_state =
  ss_schema_version :: u32
  ss_pr :: u64
  ss_repo :: string
  ss_branch :: string
  ss_base_branch :: string
  ss_head_sha :: string
  ss_policy_signature :: string
  ss_pr_url :: string
  ss_pr_title :: string
  ss_commit_subject :: string
  ss_dispatched_runs :: "dispatched_run list"
  ss_evidence_snapshot :: "(string \<times> string) list"
  ss_attempt :: u32
  ss_source_job_id :: "string option"
  ss_created_at :: time
  ss_updated_at :: time
  ss_merge_queue_observed_at :: "time option"
  ss_merge_queue_attempt_started_at :: "time option"
  ss_merge_queue_enqueue_succeeded_at :: "time option"
  ss_merge_queue_enqueue_started_at :: "time option"
  ss_abandoned :: "abandon_record option"
  ss_reviewer_claim_epoch :: u64
  ss_active_reviewer_claim :: "reviewer_claim option"

definition receipt_material :: "string \<Rightarrow> u64 \<Rightarrow> reviewer_claim \<Rightarrow> string" where
  "receipt_material repository pr c =
     ''shipyard-reviewer-claim/v1:'' @ canonical_repository repository @ '':'' @ show_nat pr @ '':''
     @ rc_head_sha c @ '':'' @ show_nat (rc_epoch c) @ '':'' @ to_ascii_lowercase (trim (rc_reviewer c))"

definition receipt_id :: "(string \<Rightarrow> string) \<Rightarrow> string \<Rightarrow> u64 \<Rightarrow> reviewer_claim \<Rightarrow> string" where
  "receipt_id digest repository pr c =
     ''shipyard-reviewer-claim/v1/'' @ digest (receipt_material repository pr c)"

definition ship_state_new ::
  "time \<Rightarrow> u64 \<Rightarrow> string \<Rightarrow> string \<Rightarrow> string \<Rightarrow> string \<Rightarrow> string \<Rightarrow> ship_state" where
  "ship_state_new now pr repo branch base_branch head_sha policy_signature = \<lparr>
     ss_schema_version = ship_state_schema_version, ss_pr = pr, ss_repo = repo, ss_branch = branch,
     ss_base_branch = base_branch, ss_head_sha = head_sha, ss_policy_signature = policy_signature,
     ss_pr_url = [], ss_pr_title = [], ss_commit_subject = [], ss_dispatched_runs = [],
     ss_evidence_snapshot = [], ss_attempt = 1, ss_source_job_id = None, ss_created_at = now,
     ss_updated_at = now, ss_merge_queue_observed_at = None, ss_merge_queue_attempt_started_at = None,
     ss_merge_queue_enqueue_succeeded_at = None, ss_merge_queue_enqueue_started_at = None,
     ss_abandoned = None, ss_reviewer_claim_epoch = 0, ss_active_reviewer_claim = None\<rparr>"

definition is_abandoned :: "ship_state \<Rightarrow> bool" where
  "is_abandoned s = (ss_abandoned s \<noteq> None)"

definition ship_touch :: "time \<Rightarrow> ship_state \<Rightarrow> ship_state" where
  "ship_touch now s = s\<lparr>ss_updated_at := now\<rparr>"

definition mark_abandoned :: "time \<Rightarrow> abandon_record \<Rightarrow> ship_state \<Rightarrow> ship_state" where
  "mark_abandoned now r s = ship_touch now (s\<lparr>ss_abandoned := Some r\<rparr>)"

definition same_run :: "dispatched_run \<Rightarrow> dispatched_run \<Rightarrow> bool" where
  "same_run run existing = (dr_target existing = dr_target run \<and> dr_run_id existing = dr_run_id run)"

definition upsert_run :: "time \<Rightarrow> dispatched_run \<Rightarrow> ship_state \<Rightarrow> ship_state" where
  "upsert_run now run s = ship_touch now (s\<lparr>ss_dispatched_runs :=
     (if list_ex (same_run run) (ss_dispatched_runs s)
      then assign_first (same_run run) run (ss_dispatched_runs s)
      else ss_dispatched_runs s @ [run])\<rparr>)"

definition get_run :: "string \<Rightarrow> ship_state \<Rightarrow> dispatched_run option" where
  "get_run target s = max_by (\<lambda>a b. cmp (dr_updated_at a) (dr_updated_at b))
     (filter (\<lambda>r. dr_target r = target) (ss_dispatched_runs s))"

definition has_target :: "string \<Rightarrow> ship_state \<Rightarrow> bool" where
  "has_target target s = list_ex (\<lambda>r. dr_target r = target) (ss_dispatched_runs s)"

definition append_run :: "time \<Rightarrow> dispatched_run \<Rightarrow> ship_state \<Rightarrow> ship_state" where
  "append_run now run s = ship_touch now (s\<lparr>ss_dispatched_runs := ss_dispatched_runs s @ [run]\<rparr>)"

definition update_evidence :: "time \<Rightarrow> string \<Rightarrow> string \<Rightarrow> ship_state \<Rightarrow> ship_state" where
  "update_evidence now target status s =
     ship_touch now (s\<lparr>ss_evidence_snapshot := bt_insert target status (ss_evidence_snapshot s)\<rparr>)"

definition is_sha_drift :: "string \<Rightarrow> ship_state \<Rightarrow> bool" where
  "is_sha_drift current_sha s = (current_sha \<noteq> ss_head_sha s)"

definition ship_terminal_verdict :: "ship_state \<Rightarrow> bool option" where
  "ship_terminal_verdict s =
     (if is_abandoned s then Some False
      else if ss_evidence_snapshot s = [] then None
      else if list_ex (\<lambda>(_, status). status \<noteq> ''pass'' \<and> status \<noteq> ''fail'') (ss_evidence_snapshot s) then None
      else let advisory = map dr_target (filter (\<lambda>r. \<not> dr_required r) (ss_dispatched_runs s));
               required = map dr_target (filter dr_required (ss_dispatched_runs s));
               seen = map fst (ss_evidence_snapshot s)
        in if list_ex (\<lambda>t. t \<notin> set seen) required then None
           else Some (list_all (\<lambda>(target, status). status = ''pass'' \<or> target \<in> set advisory)
                  (ss_evidence_snapshot s)))"

section \<open>Reviewer claims\<close>

definition claim_blocked :: "time \<Rightarrow> ship_state \<Rightarrow> bool" where
  "claim_blocked now s = (case ss_active_reviewer_claim s of
       None \<Rightarrow> False
     | Some active \<Rightarrow> ss_schema_version s < ship_state_schema_version \<or> rc_epoch active = 0
         \<or> ss_reviewer_claim_epoch s \<noteq> rc_epoch active \<or> now < rc_deadline_at active)"

text \<open>\<open>clock\<close> is the time \<open>touch\<close> reads; \<open>now\<close> the caller's observation time.\<close>

definition claim_reviewer ::
  "time \<Rightarrow> string \<Rightarrow> string \<Rightarrow> time \<Rightarrow> time \<Rightarrow> time \<Rightarrow> ship_state \<Rightarrow> (reviewer_claim \<times> ship_state) option" where
  "claim_reviewer clock_now head_sha reviewer claimed_at deadline_at now s =
     (if head_sha \<noteq> ss_head_sha s \<or> deadline_at \<le> claimed_at \<or> now < claimed_at then None
      else if claim_blocked now s then None
      else map_option (\<lambda>epoch.
        let claim = \<lparr>rc_head_sha = head_sha, rc_epoch = epoch, rc_reviewer = reviewer,
              rc_claimed_at = claimed_at, rc_deadline_at = deadline_at\<rparr>
        in (claim, ship_touch clock_now (s\<lparr>ss_schema_version := ship_state_schema_version,
              ss_reviewer_claim_epoch := epoch, ss_active_reviewer_claim := Some claim\<rparr>)))
        (u64_checked_succ (ss_reviewer_claim_epoch s)))"

definition revoke_reviewer_claim ::
  "time \<Rightarrow> string \<Rightarrow> u64 \<Rightarrow> string \<Rightarrow> ship_state \<Rightarrow> bool \<times> ship_state" where
  "revoke_reviewer_claim clock_now head_sha epoch reviewer s =
     (if ss_schema_version s < ship_state_schema_version \<or> epoch = 0 \<or> ss_reviewer_claim_epoch s \<noteq> epoch
      then (False, s)
      else if \<not> is_some_and (ss_active_reviewer_claim s) (\<lambda>c. rc_head_sha c = head_sha \<and> rc_epoch c = epoch
                \<and> rc_reviewer c = reviewer \<and> ss_head_sha s = head_sha)
      then (False, s)
      else case u64_checked_succ (ss_reviewer_claim_epoch s) of
        None \<Rightarrow> (False, s)
      | Some next_epoch \<Rightarrow> (True, ship_touch clock_now (s\<lparr>ss_reviewer_claim_epoch := next_epoch,
          ss_active_reviewer_claim := None\<rparr>)))"

definition fence_reviewer_claim :: "time \<Rightarrow> ship_state \<Rightarrow> bool \<times> ship_state" where
  "fence_reviewer_claim clock_now s = (case u64_checked_succ (ss_reviewer_claim_epoch s) of
       None \<Rightarrow> (False, s)
     | Some next_epoch \<Rightarrow> (True, ship_touch clock_now (s\<lparr>ss_schema_version := ship_state_schema_version,
         ss_reviewer_claim_epoch := next_epoch, ss_active_reviewer_claim := None\<rparr>)))"

definition reviewer_claim_is_current :: "ship_state \<Rightarrow> string \<Rightarrow> u64 \<Rightarrow> string \<Rightarrow> time \<Rightarrow> bool" where
  "reviewer_claim_is_current s head_sha epoch reviewer now =
     (if ss_schema_version s < ship_state_schema_version \<or> epoch = 0 then False
      else is_some_and (ss_active_reviewer_claim s) (\<lambda>c. ss_head_sha s = head_sha \<and> rc_head_sha c = head_sha
        \<and> rc_epoch c = epoch \<and> rc_reviewer c = reviewer \<and> ss_reviewer_claim_epoch s = epoch
        \<and> rc_claimed_at c \<le> now \<and> now < rc_deadline_at c))"

text \<open>The record of a fresh attempt; the increment of \<open>attempt\<close> is 32-bit.\<close>

definition next_attempt :: "time \<Rightarrow> u32 option \<Rightarrow> ship_state \<Rightarrow> string + ship_state" where
  "next_attempt now new_attempt s = (case u64_checked_succ (ss_reviewer_claim_epoch s) of
       None \<Rightarrow> Inl ''reviewer claim epoch exhausted''
     | Some epoch \<Rightarrow> Inr (s\<lparr>ss_schema_version := ship_state_schema_version,
         ss_attempt := unwrap_or new_attempt (ss_attempt s + 1), ss_source_job_id := None,
         ss_dispatched_runs := [], ss_evidence_snapshot := [], ss_created_at := now, ss_updated_at := now,
         ss_merge_queue_observed_at := None, ss_merge_queue_attempt_started_at := None,
         ss_merge_queue_enqueue_succeeded_at := None, ss_merge_queue_enqueue_started_at := None,
         ss_abandoned := None, ss_reviewer_claim_epoch := epoch, ss_active_reviewer_claim := None\<rparr>))"

section \<open>The fence\<close>

text \<open>
  Every way the record changes that touches the fence, and any other change, which keeps the
  epoch and the active claim.
\<close>

inductive review_step :: "ship_state \<Rightarrow> ship_state \<Rightarrow> bool" where
  claim: "claim_reviewer clk h r from_t until now s = Some (c, s') \<Longrightarrow> review_step s s'"
| revoke: "revoke_reviewer_claim clk h e r s = (b, s') \<Longrightarrow> review_step s s'"
| fence: "fence_reviewer_claim clk s = (b, s') \<Longrightarrow> review_step s s'"
| attempt: "next_attempt now n s = Inr s' \<Longrightarrow> review_step s s'"
| other: "ss_reviewer_claim_epoch s' = ss_reviewer_claim_epoch s \<Longrightarrow>
     ss_active_reviewer_claim s' = ss_active_reviewer_claim s \<Longrightarrow> review_step s s'"

definition claim_wf :: "ship_state \<Rightarrow> bool" where
  "claim_wf s = (case ss_active_reviewer_claim s of None \<Rightarrow> True | Some c \<Rightarrow> rc_epoch c \<le> ss_reviewer_claim_epoch s)"

lemma succ_Some_iff: "u64_checked_succ n = Some m \<longleftrightarrow> n < u64_max \<and> m = n + 1"
  by (auto simp: u64_checked_succ_def)

lemma review_step_cases:
  assumes "review_step s s'"
  shows "ss_reviewer_claim_epoch s' = ss_reviewer_claim_epoch s
       \<and> ss_active_reviewer_claim s' = ss_active_reviewer_claim s
     \<or> ss_reviewer_claim_epoch s' = ss_reviewer_claim_epoch s + 1
       \<and> (case ss_active_reviewer_claim s' of None \<Rightarrow> True | Some c \<Rightarrow> rc_epoch c = ss_reviewer_claim_epoch s')"
  using assms
proof cases
  case (claim clk h r from_t until now c)
  then show ?thesis
    by (auto simp: claim_reviewer_def ship_touch_def succ_Some_iff Let_def split: if_splits)
next
  case (revoke clk h e r b)
  then show ?thesis
    by (auto simp: revoke_reviewer_claim_def ship_touch_def succ_Some_iff split: if_splits option.splits)
next
  case (fence clk b)
  then show ?thesis
    by (auto simp: fence_reviewer_claim_def ship_touch_def succ_Some_iff split: option.splits)
next
  case (attempt now n)
  then show ?thesis by (auto simp: next_attempt_def succ_Some_iff split: option.splits)
qed simp

lemma review_steps_fence:
  assumes "review_step\<^sup>*\<^sup>* s s'"
  shows "ss_reviewer_claim_epoch s \<le> ss_reviewer_claim_epoch s'
     \<and> (ss_reviewer_claim_epoch s' = ss_reviewer_claim_epoch s \<longrightarrow>
          ss_active_reviewer_claim s' = ss_active_reviewer_claim s)
     \<and> (claim_wf s \<longrightarrow> claim_wf s')
     \<and> (ss_active_reviewer_claim s' = ss_active_reviewer_claim s \<or>
        (case ss_active_reviewer_claim s' of None \<Rightarrow> True | Some c \<Rightarrow> ss_reviewer_claim_epoch s < rc_epoch c))"
  using assms
proof (induction rule: rtranclp_induct)
  case (step t u)
  from review_step_cases [OF step(2)] step.IH show ?case
    by (auto simp: claim_wf_def split: option.splits)
qed (simp split: option.split)

text \<open>
  (C13) A reviewer that lost its claim cannot publish late: once a claim was issued (to its epoch) and
  the record then changed by any sequence of claims, revocations, fences, fresh attempts and other
  updates that ends with a different active claim or none, that claim is not current at any later
  time, for any head or reviewer name it presents. And the fence only moves forward.
\<close>

theorem late_verdict_fenced:
  assumes "claim_reviewer clk h r from_t until now s0 = Some (c, s)" and "review_step\<^sup>*\<^sup>* s s'"
    and "ss_active_reviewer_claim s' \<noteq> Some c"
  shows "\<not> reviewer_claim_is_current s' h' (rc_epoch c) r' t
     \<and> rc_epoch c \<le> ss_reviewer_claim_epoch s'"
proof -
  from assms(1) have c: "ss_active_reviewer_claim s = Some c" "ss_reviewer_claim_epoch s = rc_epoch c"
    by (auto simp: claim_reviewer_def ship_touch_def Let_def split: if_splits)
  from review_steps_fence [OF assms(2)] c assms(3) have
    "rc_epoch c \<le> ss_reviewer_claim_epoch s'" "ss_reviewer_claim_epoch s' \<noteq> rc_epoch c"
    by auto
  then show ?thesis by (auto simp: reviewer_claim_is_current_def is_some_and_def split: option.splits)
qed

section \<open>The store\<close>

text \<open>
  A state file is readable or not. The store keeps \<open>PR.json\<close> (the legacy mirror), the files
  \<open>scoped/KEY/PR.json\<close>, the markers \<open>PR.scoped-collision\<close> and the archive by path below its
  directory. \<open>digest\<close> is SHA-256 in hexadecimal; a directory is listed in the order of its names.
\<close>

datatype state_file = Corrupt | Good ship_state

record ship_store =
  sf_legacy :: "(u64 \<times> state_file) list"
  sf_scoped :: "((string \<times> u64) \<times> state_file) list"
  sf_collision :: "u64 list"
  sf_archive :: "(string \<times> state_file) list"

fun parsed :: "state_file option \<Rightarrow> ship_state option" where
  "parsed (Some (Good st)) = Some st"
| "parsed _ = None"

definition same_repository :: "string \<Rightarrow> string \<Rightarrow> bool" where
  "same_repository l r = (canonical_repository l = canonical_repository r)"

definition of_repository :: "string \<Rightarrow> ship_state \<Rightarrow> bool" where
  "of_repository repository st = same_repository (ss_repo st) repository"

definition starts_char :: "char \<Rightarrow> bool" where
  "starts_char ch = (\<not> is_continuation ch)"

definition key_char :: "char \<Rightarrow> char" where
  "key_char ch = (if is_ascii_alphanumeric ch \<or> ch \<in> set ''-_.'' then ch else CHR ''-'')"

definition repository_key :: "(string \<Rightarrow> string) \<Rightarrow> string \<Rightarrow> string" where
  "repository_key digest repository =
     (let canonical = canonical_repository repository
      in take 48 (map key_char (filter starts_char canonical)) @ ''--'' @ digest canonical)"

definition get_unlocked :: "ship_store \<Rightarrow> u64 \<Rightarrow> ship_state option" where
  "get_unlocked s pr = parsed (bt_get (sf_legacy s) pr)"

definition scoped_get :: "ship_store \<Rightarrow> string \<Rightarrow> u64 \<Rightarrow> ship_state option" where
  "scoped_get s key pr = parsed (bt_get (sf_scoped s) (key, pr))"

definition collides :: "ship_store \<Rightarrow> u64 \<Rightarrow> bool" where
  "collides s pr = (pr \<in> set (sf_collision s))"

definition persist_state_at :: "ship_state \<Rightarrow> string \<times> u64 \<Rightarrow> ship_store \<Rightarrow> ship_store" where
  "persist_state_at st path s = s\<lparr>sf_scoped := bt_insert path (Good st) (sf_scoped s)\<rparr>"

definition save_locked :: "ship_state \<Rightarrow> ship_store \<Rightarrow> ship_store" where
  "save_locked st s = s\<lparr>sf_legacy := bt_insert (ss_pr st) (Good st) (sf_legacy s)\<rparr>"

definition remove_legacy :: "u64 \<Rightarrow> ship_store \<Rightarrow> ship_store" where
  "remove_legacy pr s = s\<lparr>sf_legacy := bt_remove pr (sf_legacy s)\<rparr>"

definition remove_matching_legacy :: "string \<Rightarrow> u64 \<Rightarrow> ship_store \<Rightarrow> ship_store" where
  "remove_matching_legacy repository pr s =
     (if is_some_and (get_unlocked s pr) (of_repository repository)
      then remove_legacy pr s else s)"

definition scoped_states_for_pr :: "ship_store \<Rightarrow> u64 \<Rightarrow> ship_state list" where
  "scoped_states_for_pr s pr =
     List.map_filter (\<lambda>((_, p), f). if p = pr then parsed (Some f) else None) (sf_scoped s)"

definition legacy_is_preserved :: "(string \<Rightarrow> string) \<Rightarrow> ship_store \<Rightarrow> ship_state \<Rightarrow> bool" where
  "legacy_is_preserved digest s legacy =
     (collides s (ss_pr legacy)
      \<or> is_some_and (scoped_get s (repository_key digest (ss_repo legacy)) (ss_pr legacy))
          (\<lambda>scoped. ss_updated_at legacy \<le> ss_updated_at scoped))"

definition ensure_legacy_is_preserved :: "(string \<Rightarrow> string) \<Rightarrow> u64 \<Rightarrow> ship_store \<Rightarrow> string + unit" where
  "ensure_legacy_is_preserved digest pr s = (case get_unlocked s pr of
       None \<Rightarrow> Inr ()
     | Some legacy \<Rightarrow> if legacy_is_preserved digest s legacy then Inr ()
         else Inl (''legacy ship-state for '' @ ss_repo legacy @ '' PR #'' @ show_nat (ss_pr legacy)
                @ '' is not yet preserved in its repository namespace''))"

definition newer_than :: "ship_state \<Rightarrow> ship_state option \<Rightarrow> bool" where
  "newer_than legacy scoped = (case scoped of None \<Rightarrow> True | Some sc \<Rightarrow> ss_updated_at sc < ss_updated_at legacy)"

definition migrate_unrepresented_legacy :: "(string \<Rightarrow> string) \<Rightarrow> u64 \<Rightarrow> ship_store \<Rightarrow> ship_store" where
  "migrate_unrepresented_legacy digest pr s =
     (if collides s pr then s
      else case get_unlocked s pr of
        None \<Rightarrow> s
      | Some legacy \<Rightarrow>
          if legacy_is_preserved digest s legacy then s
          else let path = (repository_key digest (ss_repo legacy), pr)
               in if newer_than legacy (scoped_get s (fst path) pr) then persist_state_at legacy path s else s)"

definition sync_legacy_mirror_for_pr :: "(string \<Rightarrow> string) \<Rightarrow> u64 \<Rightarrow> ship_store \<Rightarrow> (string + unit) \<times> ship_store" where
  "sync_legacy_mirror_for_pr digest pr s = (case ensure_legacy_is_preserved digest pr s of
       Inl e \<Rightarrow> (Inl e, s)
     | Inr _ \<Rightarrow> (Inr (), case scoped_states_for_pr s pr of
           [st] \<Rightarrow> s\<lparr>sf_legacy := bt_insert pr (Good st) (sf_legacy s),
                     sf_collision := removeAll pr (sf_collision s)\<rparr>
         | [] \<Rightarrow> (remove_legacy pr s)\<lparr>sf_collision := removeAll pr (sf_collision s)\<rparr>
         | _ \<Rightarrow> (remove_legacy pr s)\<lparr>sf_collision := List.insert pr (sf_collision s)\<rparr>))"

definition migrate_matching_legacy_locked ::
  "(string \<Rightarrow> string) \<Rightarrow> string \<Rightarrow> u64 \<Rightarrow> ship_store \<Rightarrow> (string + unit) \<times> ship_store" where
  "migrate_matching_legacy_locked digest repository pr s =
     (if collides s pr then (Inr (), s)
      else case get_unlocked s pr of
        None \<Rightarrow> (Inr (), s)
      | Some legacy \<Rightarrow>
          if \<not> same_repository (ss_repo legacy) repository then (Inr (), s)
          else let path = (repository_key digest repository, pr);
                   s' = (if newer_than legacy (scoped_get s (fst path) pr) then persist_state_at legacy path s else s)
               in sync_legacy_mirror_for_pr digest pr s')"

text \<open>Taking the lock: what happens to the files on the way.\<close>

definition lock_pr_scoped :: "(string \<Rightarrow> string) \<Rightarrow> string \<Rightarrow> u64 \<Rightarrow> ship_store \<Rightarrow> (string + unit) \<times> ship_store" where
  "lock_pr_scoped digest repository pr s =
     migrate_matching_legacy_locked digest repository pr (migrate_unrepresented_legacy digest pr s)"

definition get_locked_scoped :: "(string \<Rightarrow> string) \<Rightarrow> ship_store \<Rightarrow> string \<Rightarrow> u64 \<Rightarrow> ship_state option" where
  "get_locked_scoped digest s repository pr =
     (case scoped_get s (repository_key digest repository) pr of
        Some st \<Rightarrow> if same_repository (ss_repo st) repository \<and> ss_pr st = pr then Some st else None
      | None \<Rightarrow> if collides s pr then None
          else case get_unlocked s pr of
            None \<Rightarrow> None
          | Some legacy \<Rightarrow> if same_repository (ss_repo legacy) repository \<and> ss_pr legacy = pr then Some legacy
              else None)"

definition get_scoped :: "(string \<Rightarrow> string) \<Rightarrow> string \<Rightarrow> u64 \<Rightarrow> ship_store \<Rightarrow> ship_state option \<times> ship_store" where
  "get_scoped digest repository pr s = (case lock_pr_scoped digest repository pr s of
       (Inl _, s') \<Rightarrow> (None, s')
     | (Inr _, s') \<Rightarrow> (get_locked_scoped digest s' repository pr, s'))"

definition save_scoped_locked :: "(string \<Rightarrow> string) \<Rightarrow> ship_state \<Rightarrow> ship_store \<Rightarrow> (string + unit) \<times> ship_store" where
  "save_scoped_locked digest st s = (case ensure_legacy_is_preserved digest (ss_pr st) s of
       Inl e \<Rightarrow> (Inl e, s)
     | Inr _ \<Rightarrow> sync_legacy_mirror_for_pr digest (ss_pr st)
         (persist_state_at st (repository_key digest (ss_repo st), ss_pr st) s))"

definition ship_save :: "(string \<Rightarrow> string) \<Rightarrow> ship_state \<Rightarrow> ship_store \<Rightarrow> (string + unit) \<times> ship_store" where
  "ship_save digest st s = (case lock_pr_scoped digest (ss_repo st) (ss_pr st) s of
       (Inl e, s') \<Rightarrow> (Inl e, s')
     | (Inr _, s') \<Rightarrow> save_scoped_locked digest st s')"

definition delete_scoped_locked :: "(string \<Rightarrow> string) \<Rightarrow> string \<Rightarrow> u64 \<Rightarrow> ship_store \<Rightarrow> (string + unit) \<times> ship_store" where
  "delete_scoped_locked digest repository pr s = sync_legacy_mirror_for_pr digest pr
     (remove_matching_legacy repository pr
       (s\<lparr>sf_scoped := bt_remove (repository_key digest repository, pr) (sf_scoped s)\<rparr>))"

definition delete_scoped :: "(string \<Rightarrow> string) \<Rightarrow> string \<Rightarrow> u64 \<Rightarrow> ship_store \<Rightarrow> (string + unit) \<times> ship_store" where
  "delete_scoped digest repository pr s = (case lock_pr_scoped digest repository pr s of
       (Inl e, s') \<Rightarrow> (Inl e, s')
     | (Inr _, s') \<Rightarrow> delete_scoped_locked digest repository pr s')"

definition delete_scoped_if_matches ::
  "(string \<Rightarrow> string) \<Rightarrow> string \<Rightarrow> u64 \<Rightarrow> ship_state \<Rightarrow> ship_store \<Rightarrow> (string + bool) \<times> ship_store" where
  "delete_scoped_if_matches digest repository pr expected s = (case lock_pr_scoped digest repository pr s of
       (Inl e, s') \<Rightarrow> (Inl e, s')
     | (Inr _, s') \<Rightarrow> (case get_locked_scoped digest s' repository pr of
           None \<Rightarrow> (Inr False, s')
         | Some current \<Rightarrow> if current \<noteq> expected then (Inr False, s')
             else (case delete_scoped_locked digest repository pr s' of
                 (Inl e, s'') \<Rightarrow> (Inl e, s'')
               | (Inr _, s'') \<Rightarrow> (Inr True, s''))))"

definition archive_path :: "string \<Rightarrow> u64 \<Rightarrow> string \<Rightarrow> string" where
  "archive_path key pr stamp = key @ ''/'' @ show_nat pr @ ''-'' @ stamp @ ''.json''"

definition archive_scoped_locked ::
  "(string \<Rightarrow> string) \<Rightarrow> string \<Rightarrow> string \<Rightarrow> u64 \<Rightarrow> ship_store \<Rightarrow> (string + string option) \<times> ship_store" where
  "archive_scoped_locked digest stamp repository pr s =
     (let key = repository_key digest repository; dest = archive_path key pr stamp;
          finish = (\<lambda>moved. case sync_legacy_mirror_for_pr digest pr (remove_matching_legacy repository pr moved) of
             (Inl e, s') \<Rightarrow> (Inl e, s')
           | (Inr _, s') \<Rightarrow> (Inr (Some dest), s'))
      in case bt_get (sf_scoped s) (key, pr) of
           Some file \<Rightarrow> finish (s\<lparr>sf_scoped := bt_remove (key, pr) (sf_scoped s),
               sf_archive := bt_insert dest file (sf_archive s)\<rparr>)
         | None \<Rightarrow> (case get_unlocked s pr of
               None \<Rightarrow> (Inr None, s)
             | Some legacy \<Rightarrow> if \<not> same_repository (ss_repo legacy) repository then (Inr None, s)
                 else finish ((remove_legacy pr s)\<lparr>sf_archive := bt_insert dest (Good legacy) (sf_archive s)\<rparr>)))"

definition archive_scoped ::
  "(string \<Rightarrow> string) \<Rightarrow> string \<Rightarrow> string \<Rightarrow> u64 \<Rightarrow> ship_store \<Rightarrow> (string + string option) \<times> ship_store" where
  "archive_scoped digest stamp repository pr s = (case lock_pr_scoped digest repository pr s of
       (Inl e, s') \<Rightarrow> (Inl e, s')
     | (Inr _, s') \<Rightarrow> archive_scoped_locked digest stamp repository pr s')"

definition archive_and_replace_locked ::
  "(string \<Rightarrow> string) \<Rightarrow> string \<Rightarrow> time \<Rightarrow> ship_state \<Rightarrow> u32 option \<Rightarrow> ship_store \<Rightarrow> (string + ship_state) \<times> ship_store" where
  "archive_and_replace_locked digest stamp now st new_attempt s = (case next_attempt now new_attempt st of
       Inl e \<Rightarrow> (Inl e, s)
     | Inr fresh \<Rightarrow> (case archive_scoped_locked digest stamp (ss_repo st) (ss_pr st) s of
           (Inl e, s') \<Rightarrow> (Inl e, s')
         | (Inr _, s') \<Rightarrow> (Inr fresh, s')))"

definition archive_and_replace ::
  "(string \<Rightarrow> string) \<Rightarrow> string \<Rightarrow> time \<Rightarrow> ship_state \<Rightarrow> u32 option \<Rightarrow> ship_store \<Rightarrow> (string + ship_state) \<times> ship_store" where
  "archive_and_replace digest stamp now st new_attempt s = (case lock_pr_scoped digest (ss_repo st) (ss_pr st) s of
       (Inl e, s') \<Rightarrow> (Inl e, s')
     | (Inr _, s') \<Rightarrow> archive_and_replace_locked digest stamp now st new_attempt s')"

definition with_pr_state_scoped_locked ::
  "(string \<Rightarrow> string) \<Rightarrow> string \<Rightarrow> u64 \<Rightarrow> (ship_state option \<Rightarrow> string + 'a \<times> ship_state option)
   \<Rightarrow> ship_store \<Rightarrow> (string + 'a) \<times> ship_store" where
  "with_pr_state_scoped_locked digest repository pr f s = (case lock_pr_scoped digest repository pr s of
       (Inl e, s1) \<Rightarrow> (Inl e, s1)
     | (Inr _, s1) \<Rightarrow> (case f (get_locked_scoped digest s1 repository pr) of
           Inl e \<Rightarrow> (Inl e, s1)
         | Inr (output, state) \<Rightarrow>
             (case (case state of Some st \<Rightarrow> save_scoped_locked digest st s1
                             | None \<Rightarrow> delete_scoped_locked digest repository pr s1) of
                (Inl e, s2) \<Rightarrow> (Inl e, s2)
              | (Inr _, s2) \<Rightarrow> (Inr output, s2))))"

text \<open>\<open>clock\<close> is read by \<open>touch\<close> when the claim is made and again when it is revoked.\<close>

definition claim_reviewer_and_publish ::
  "(string \<Rightarrow> string) \<Rightarrow> clock \<Rightarrow> reviewer_claim_request \<Rightarrow> (reviewer_claim \<Rightarrow> string + 'a)
   \<Rightarrow> ship_store \<Rightarrow> (string + 'a) \<times> ship_store" where
  "claim_reviewer_and_publish digest clock request publisher s =
     (case lock_pr_scoped digest (rq_repository request) (rq_pr request) s of
        (Inl e, s1) \<Rightarrow> (Inl e, s1)
      | (Inr _, s1) \<Rightarrow> (case get_locked_scoped digest s1 (rq_repository request) (rq_pr request) of
          None \<Rightarrow> (Inl (''no active ship state for '' @ rq_repository request @ '' PR #''
                    @ show_nat (rq_pr request)), s1)
        | Some state \<Rightarrow> (case claim_reviewer (clock 0) (rq_head_sha request) (rq_reviewer request)
              (rq_claimed_at request) (rq_deadline_at request) (rq_now request) state of
            None \<Rightarrow> (Inl (''cannot claim reviewer '' @ rq_reviewer request @ '' for '' @ rq_repository request
                      @ '' PR #'' @ show_nat (rq_pr request) @ '' at '' @ rq_head_sha request), s1)
          | Some (claim, claimed) \<Rightarrow> (case save_scoped_locked digest claimed s1 of
              (Inl e, s2) \<Rightarrow> (Inl e, s2)
            | (Inr _, s2) \<Rightarrow> (case publisher claim of
                Inr value \<Rightarrow> (Inr value, s2)
              | Inl publish_error \<Rightarrow>
                  (case revoke_reviewer_claim (clock 1) (rq_head_sha request) (rc_epoch claim)
                          (rq_reviewer request) claimed of
                     (False, _) \<Rightarrow> (Inl (''reviewer receipt publication failed ('' @ publish_error
                                     @ '') and claim revocation failed''), s2)
                   | (True, revoked) \<Rightarrow> (case save_scoped_locked digest revoked s2 of
                       (Inl e, s3) \<Rightarrow> (Inl e, s3)
                     | (Inr _, s3) \<Rightarrow> (Inl publish_error, s3))))))))"

section \<open>Listing\<close>

definition insert_newest_state ::
  "ship_state \<Rightarrow> ((string \<times> u64) \<times> ship_state) list \<Rightarrow> ((string \<times> u64) \<times> ship_state) list" where
  "insert_newest_state state states =
     (let key = (canonical_repository (ss_repo state), ss_pr state)
      in if newer_than state (bt_get states key) then bt_insert key state states else states)"

definition state_order :: "ship_state \<Rightarrow> ship_state \<Rightarrow> ordering" where
  "state_order l r = then_with (cmp (ss_pr l) (ss_pr r))
     (cmp (canonical_repository (ss_repo l)) (canonical_repository (ss_repo r)))"

definition list_active :: "ship_store \<Rightarrow> ship_state list" where
  "list_active s =
     (let legacy = filter (\<lambda>st. \<not> collides s (ss_pr st))
            (List.map_filter (\<lambda>(_, f). parsed (Some f)) (sf_legacy s));
          scoped = List.map_filter (\<lambda>(_, f). parsed (Some f)) (sf_scoped s)
      in sort_by state_order (map snd (fold insert_newest_state (legacy @ scoped) [])))"

definition list_in_flight :: "ship_store \<Rightarrow> ship_state list" where
  "list_in_flight s = filter (\<lambda>st. ship_terminal_verdict st = None) (list_active s)"

definition states_for_pr :: "ship_store \<Rightarrow> u64 \<Rightarrow> ship_state list" where
  "states_for_pr s pr = filter (\<lambda>st. ss_pr st = pr) (list_active s)"

definition ship_get :: "ship_store \<Rightarrow> u64 \<Rightarrow> ship_state option" where
  "ship_get s pr = (case states_for_pr s pr of [st] \<Rightarrow> Some st | _ \<Rightarrow> None)"

definition ambiguous :: "u64 \<Rightarrow> string" where
  "ambiguous pr = ''PR #'' @ show_nat pr @ '' is ambiguous across repositories; repository is required''"

definition ship_delete :: "(string \<Rightarrow> string) \<Rightarrow> u64 \<Rightarrow> ship_store \<Rightarrow> (string + unit) \<times> ship_store" where
  "ship_delete digest pr s = (case states_for_pr s pr of
       [] \<Rightarrow> (Inr (), s)
     | [state] \<Rightarrow> delete_scoped digest (ss_repo state) pr s
     | _ \<Rightarrow> (Inl (ambiguous pr), s))"

definition ship_archive :: "(string \<Rightarrow> string) \<Rightarrow> string \<Rightarrow> u64 \<Rightarrow> ship_store \<Rightarrow> (string + string option) \<times> ship_store" where
  "ship_archive digest stamp pr s = (case states_for_pr s pr of
       [] \<Rightarrow> (Inr None, s)
     | [state] \<Rightarrow> archive_scoped digest stamp (ss_repo state) pr s
     | _ \<Rightarrow> (Inl (ambiguous pr), s))"

definition archive_locked :: "string \<Rightarrow> u64 \<Rightarrow> ship_store \<Rightarrow> string option \<times> ship_store" where
  "archive_locked stamp pr s = (case bt_get (sf_legacy s) pr of
       None \<Rightarrow> (None, s)
     | Some file \<Rightarrow> let dest = show_nat pr @ ''-'' @ stamp @ ''.json''
         in (Some dest, (remove_legacy pr s)\<lparr>sf_archive := bt_insert dest file (sf_archive s)\<rparr>))"

definition with_pr_state_locked ::
  "(string \<Rightarrow> string) \<Rightarrow> u64 \<Rightarrow> (ship_state option \<Rightarrow> string + 'a \<times> ship_state option)
   \<Rightarrow> ship_store \<Rightarrow> (string + 'a) \<times> ship_store" where
  "with_pr_state_locked digest pr f s = (case states_for_pr s pr of
       [state] \<Rightarrow> with_pr_state_scoped_locked digest (ss_repo state) pr f s
     | [] \<Rightarrow> (case f (get_unlocked s pr) of
           Inl e \<Rightarrow> (Inl e, s)
         | Inr (output, Some st) \<Rightarrow> (Inr output, save_locked st s)
         | Inr (output, None) \<Rightarrow> (Inr output, remove_legacy pr s))
     | _ \<Rightarrow> (Inl (ambiguous pr), s))"

section \<open>What the files of the store say\<close>

definition store_wf :: "(string \<Rightarrow> string) \<Rightarrow> string set \<Rightarrow> ship_store \<Rightarrow> bool" where
  "store_wf digest repos s \<longleftrightarrow>
     bt_wf (sf_legacy s) \<and> bt_wf (sf_scoped s) \<and> bt_wf (sf_archive s)
     \<and> (\<forall>pr st. get_unlocked s pr = Some st \<longrightarrow> ss_pr st = pr \<and> ss_repo st \<in> repos)
     \<and> (\<forall>key pr st. scoped_get s key pr = Some st \<longrightarrow>
          ss_pr st = pr \<and> ss_repo st \<in> repos \<and> key = repository_key digest (ss_repo st))"

text \<open>No two of the repositories share a directory: their digests differ.\<close>

definition names_apart :: "(string \<Rightarrow> string) \<Rightarrow> string set \<Rightarrow> bool" where
  "names_apart digest repos \<longleftrightarrow>
     (\<forall>r \<in> repos. \<forall>r' \<in> repos. repository_key digest r = repository_key digest r' \<longrightarrow> same_repository r r')"

definition store_inv :: "(string \<Rightarrow> string) \<Rightarrow> string set \<Rightarrow> ship_store \<Rightarrow> bool" where
  "store_inv digest repos s \<longleftrightarrow> names_apart digest repos \<and> store_wf digest repos s"

text \<open>
  The abstract store: the state of a repository's pull request is the newer of its scoped file and,
  unless a collision marker disowns it, the legacy file when that is its own.
\<close>

definition legacy_of :: "ship_store \<Rightarrow> string \<Rightarrow> u64 \<Rightarrow> ship_state option" where
  "legacy_of s r pr = (if collides s pr then None
     else option_filter (of_repository r) (get_unlocked s pr))"

definition newest :: "ship_state option \<Rightarrow> ship_state option \<Rightarrow> ship_state option" where
  "newest sc lg = (case lg of None \<Rightarrow> sc | Some l \<Rightarrow> if newer_than l sc then Some l else sc)"

definition ship_view :: "(string \<Rightarrow> string) \<Rightarrow> ship_store \<Rightarrow> string \<Rightarrow> u64 \<Rightarrow> ship_state option" where
  "ship_view digest s r pr = newest (scoped_get s (repository_key digest r) pr) (legacy_of s r pr)"

definition put_view ::
  "string \<Rightarrow> u64 \<Rightarrow> ship_state option \<Rightarrow> (string \<Rightarrow> u64 \<Rightarrow> ship_state option) \<Rightarrow> string \<Rightarrow> u64 \<Rightarrow> ship_state option" where
  "put_view r pr v m = (\<lambda>r' pr'. if same_repository r' r \<and> pr' = pr then v else m r' pr')"

named_theorems store_simps \<open>how the file operations act on what the files say\<close>

lemma of_repository_iff [simp]: "of_repository r st \<longleftrightarrow> same_repository (ss_repo st) r"
  by (simp add: of_repository_def)

lemma same_repository_refl [simp]: "same_repository r r"
  by (simp add: same_repository_def)

lemma same_repository_sym: "same_repository r r' \<longleftrightarrow> same_repository r' r"
  by (auto simp: same_repository_def)

lemma repository_key_same: "same_repository r r' \<Longrightarrow> repository_key digest r = repository_key digest r'"
  by (simp add: same_repository_def repository_key_def)

lemma names_apart_iff:
  "names_apart digest repos \<Longrightarrow> r \<in> repos \<Longrightarrow> r' \<in> repos \<Longrightarrow>
   repository_key digest r = repository_key digest r' \<longleftrightarrow> same_repository r r'"
  by (auto simp: names_apart_def dest: repository_key_same)

lemma persist_simps [store_simps]:
  "bt_wf (sf_scoped s) \<Longrightarrow> scoped_get (persist_state_at st (k, p) s) k' p' =
     (if k' = k \<and> p' = p then Some st else scoped_get s k' p')"
  "get_unlocked (persist_state_at st (k, p) s) = get_unlocked s"
  "collides (persist_state_at st (k, p) s) = collides s"
  "sf_archive (persist_state_at st (k, p) s) = sf_archive s"
  by (auto simp: persist_state_at_def scoped_get_def get_unlocked_def collides_def bt_get_insert fun_eq_iff)

lemma remove_legacy_simps [store_simps]:
  "scoped_get (remove_legacy p s) = scoped_get s"
  "get_unlocked (remove_legacy p s) = (get_unlocked s)(p := None)"
  "collides (remove_legacy p s) = collides s"
  "sf_archive (remove_legacy p s) = sf_archive s"
  by (auto simp: remove_legacy_def scoped_get_def get_unlocked_def collides_def bt_get_remove fun_eq_iff)

lemma remove_scoped_simps [store_simps]:
  "scoped_get (s\<lparr>sf_scoped := bt_remove (k, p) (sf_scoped s)\<rparr>) k' p' =
     (if k' = k \<and> p' = p then None else scoped_get s k' p')"
  "get_unlocked (s\<lparr>sf_scoped := m\<rparr>) = get_unlocked s"
  "collides (s\<lparr>sf_scoped := m\<rparr>) = collides s"
  by (auto simp: scoped_get_def get_unlocked_def collides_def bt_get_remove fun_eq_iff)

lemma archive_simps [store_simps]:
  "scoped_get (s\<lparr>sf_archive := a\<rparr>) = scoped_get s"
  "get_unlocked (s\<lparr>sf_archive := a\<rparr>) = get_unlocked s"
  "collides (s\<lparr>sf_archive := a\<rparr>) = collides s"
  by (auto simp: scoped_get_def get_unlocked_def collides_def fun_eq_iff)

lemma collision_simps [store_simps]:
  "scoped_get (s\<lparr>sf_collision := c\<rparr>) = scoped_get s"
  "get_unlocked (s\<lparr>sf_collision := c\<rparr>) = get_unlocked s"
  "collides (s\<lparr>sf_collision := c\<rparr>) p \<longleftrightarrow> p \<in> set c"
  "p \<in> set (sf_collision s) \<longleftrightarrow> collides s p"
  by (auto simp: scoped_get_def get_unlocked_def collides_def fun_eq_iff)

lemma mirror_simps [store_simps]:
  "scoped_get (s\<lparr>sf_legacy := m\<rparr>) = scoped_get s"
  "bt_wf (sf_legacy s) \<Longrightarrow>
     get_unlocked (s\<lparr>sf_legacy := bt_insert p (Good st) (sf_legacy s)\<rparr>) = (get_unlocked s)(p \<mapsto> st)"
  by (auto simp: scoped_get_def get_unlocked_def bt_get_insert fun_eq_iff)

lemma store_wfD:
  assumes "store_wf digest repos s"
  shows "bt_wf (sf_legacy s)" "bt_wf (sf_scoped s)"
    "get_unlocked s pr = Some st \<Longrightarrow> ss_pr st = pr \<and> ss_repo st \<in> repos"
    "scoped_get s key pr = Some st \<Longrightarrow>
       ss_pr st = pr \<and> ss_repo st \<in> repos \<and> key = repository_key digest (ss_repo st)"
  using assms by (auto simp: store_wf_def)

text \<open>Every file that the operations write or drop keeps the store well formed.\<close>

lemma bt_wf_remove: "bt_wf m \<Longrightarrow> bt_wf (bt_remove k m)"
  by (simp add: bt_remove_def bt_wf_filter)

lemma wf_persist:
  assumes "store_wf digest repos s" "ss_pr st = p" "ss_repo st \<in> repos" "k = repository_key digest (ss_repo st)"
  shows "store_wf digest repos (persist_state_at st (k, p) s)"
proof -
  have "bt_wf (sf_scoped (persist_state_at st (k, p) s))"
    using store_wfD(2) [OF assms(1)] by (simp add: persist_state_at_def bt_wf_insert)
  moreover have "bt_wf (sf_legacy (persist_state_at st (k, p) s))" "bt_wf (sf_archive (persist_state_at st (k, p) s))"
    using assms(1) by (simp_all add: persist_state_at_def store_wf_def)
  ultimately show ?thesis
    using assms unfolding store_wf_def by (auto simp: store_simps split: if_splits)
qed

lemma wf_remove_legacy: "store_wf digest repos s \<Longrightarrow> store_wf digest repos (remove_legacy p s)"
  unfolding store_wf_def by (auto simp: store_simps split: if_splits) (auto simp: remove_legacy_def bt_wf_remove)

lemma wf_remove_scoped:
  "store_wf digest repos s \<Longrightarrow> store_wf digest repos (s\<lparr>sf_scoped := bt_remove (k, p) (sf_scoped s)\<rparr>)"
  unfolding store_wf_def by (auto simp: store_simps bt_wf_remove split: if_splits)

lemma wf_remove_matching: "store_wf digest repos s \<Longrightarrow> store_wf digest repos (remove_matching_legacy r p s)"
  by (simp add: remove_matching_legacy_def wf_remove_legacy)

lemma wf_collision: "store_wf digest repos s \<Longrightarrow> store_wf digest repos (s\<lparr>sf_collision := c\<rparr>)"
  unfolding store_wf_def by (simp add: store_simps)

lemma wf_archive:
  "store_wf digest repos s \<Longrightarrow> bt_wf a \<Longrightarrow> store_wf digest repos (s\<lparr>sf_archive := a\<rparr>)"
  unfolding store_wf_def by (simp add: store_simps)

lemma wf_mirror:
  assumes "store_wf digest repos s" "ss_pr st = p" "ss_repo st \<in> repos"
  shows "store_wf digest repos (s\<lparr>sf_legacy := bt_insert p (Good st) (sf_legacy s), sf_collision := c\<rparr>)"
  using assms unfolding store_wf_def by (auto simp: store_simps bt_wf_insert split: if_splits)

text \<open>The scoped states of a pull request, as the directory listing gives them.\<close>

lemma parsed_Some_iff: "parsed f = Some st \<longleftrightarrow> f = Some (Good st)"
  by (cases f rule: parsed.cases) auto

lemma scoped_get_mem:
  "store_wf digest repos s \<Longrightarrow> scoped_get s k pr = Some st \<longleftrightarrow> ((k, pr), Good st) \<in> set (sf_scoped s)"
  by (simp add: scoped_get_def parsed_Some_iff bt_get_Some_iff store_wfD(2))

lemma scoped_states_mem:
  assumes "store_wf digest repos s"
  shows "st \<in> set (scoped_states_for_pr s pr) \<longleftrightarrow>
     scoped_get s (repository_key digest (ss_repo st)) pr = Some st"
proof -
  have "st \<in> set (scoped_states_for_pr s pr) \<longleftrightarrow> (\<exists>k. ((k, pr), Good st) \<in> set (sf_scoped s))"
    unfolding scoped_states_for_pr_def set_map_filter_iff
    by (auto simp: parsed_Some_iff split: if_splits) (force simp: parsed_Some_iff)
  also have "\<dots> \<longleftrightarrow> (\<exists>k. scoped_get s k pr = Some st)"
    by (simp add: scoped_get_mem [OF assms])
  also have "\<dots> \<longleftrightarrow> scoped_get s (repository_key digest (ss_repo st)) pr = Some st"
    using store_wfD(4) [OF assms] by (metis)
  finally show ?thesis .
qed

section \<open>The store implements the abstract one\<close>

definition preserved :: "(string \<Rightarrow> string) \<Rightarrow> ship_store \<Rightarrow> u64 \<Rightarrow> bool" where
  "preserved digest s pr \<longleftrightarrow> ensure_legacy_is_preserved digest pr s = Inr ()"

lemma preserved_iff:
  assumes "store_wf digest repos s"
  shows "preserved digest s pr \<longleftrightarrow> collides s pr \<or>
     (\<forall>l. get_unlocked s pr = Some l \<longrightarrow>
        (\<exists>sc. scoped_get s (repository_key digest (ss_repo l)) pr = Some sc \<and> ss_updated_at l \<le> ss_updated_at sc))"
  using store_wfD(3) [OF assms]
  by (auto simp: preserved_def ensure_legacy_is_preserved_def legacy_is_preserved_def is_some_and_def
           split: option.splits)

text \<open>The legacy file that still speaks is a copy of its scoped one.\<close>

definition mirrored :: "(string \<Rightarrow> string) \<Rightarrow> ship_store \<Rightarrow> u64 \<Rightarrow> bool" where
  "mirrored digest s pr \<longleftrightarrow> collides s pr \<or>
     (\<forall>l. get_unlocked s pr = Some l \<longrightarrow> scoped_get s (repository_key digest (ss_repo l)) pr = Some l)"

lemma view_preserved:
  assumes wf: "store_wf digest repos s" and "preserved digest s pr"
  shows "ship_view digest s r pr = scoped_get s (repository_key digest r) pr"
  using assms(2) unfolding preserved_iff [OF wf]
  by (auto simp: ship_view_def legacy_of_def newest_def option_filter_def newer_than_def not_less
           dest!: repository_key_same [where digest = digest] split: option.splits)

lemma sync_error: "\<not> preserved digest s pr \<Longrightarrow>
   \<exists>e. sync_legacy_mirror_for_pr digest pr s = (Inl e, s)"
  by (auto simp: preserved_def sync_legacy_mirror_for_pr_def split: sum.splits)

text \<open>The mirror changes only how the states are stored, and leaves the store preserved.\<close>

lemma sync_ok:
  assumes wf: "store_wf digest repos s" and "preserved digest s pr"
  obtains s' where "sync_legacy_mirror_for_pr digest pr s = (Inr (), s')" "store_wf digest repos s'"
    "scoped_get s' = scoped_get s" "sf_archive s' = sf_archive s"
    "preserved digest s' pr" "mirrored digest s' pr"
    "\<forall>p. p \<noteq> pr \<longrightarrow> get_unlocked s' p = get_unlocked s p \<and> (collides s' p \<longleftrightarrow> collides s p)"
proof -
  let ?xs = "scoped_states_for_pr s pr"
  from assms(2) have e: "ensure_legacy_is_preserved digest pr s = Inr ()" by (simp add: preserved_def)
  note mem = scoped_states_mem [OF wf, of _ pr]
  note sync = sync_legacy_mirror_for_pr_def [of digest pr s, unfolded e, simplified]
  consider "?xs = []" | st where "?xs = [st]" | a b xs where "?xs = a # b # xs"
    by (cases ?xs rule: remdups_adj.cases) auto
  then show thesis
  proof cases
    case 1
    let ?s = "(remove_legacy pr s)\<lparr>sf_collision := removeAll pr (sf_collision s)\<rparr>"
    have wf': "store_wf digest repos ?s" by (intro wf_collision wf_remove_legacy wf)
    show ?thesis
      by (rule that [of ?s]) (use 1 wf' in \<open>simp_all add: sync store_simps preserved_iff [OF wf'] mirrored_def\<close>)
  next
    case (2 st)
    let ?s = "s\<lparr>sf_legacy := bt_insert pr (Good st) (sf_legacy s), sf_collision := removeAll pr (sf_collision s)\<rparr>"
    from 2 mem [of st] have st: "scoped_get s (repository_key digest (ss_repo st)) pr = Some st" by simp
    with store_wfD(4) [OF wf] have wf': "store_wf digest repos ?s" by (intro wf_mirror wf) auto
    show ?thesis
      by (rule that [of ?s])
         (use 2 wf' st store_wfD(1) [OF wf] in \<open>simp_all add: sync store_simps preserved_iff [OF wf'] mirrored_def\<close>)
  next
    case (3 a b xs)
    let ?s = "(remove_legacy pr s)\<lparr>sf_collision := List.insert pr (sf_collision s)\<rparr>"
    have wf': "store_wf digest repos ?s" by (intro wf_collision wf_remove_legacy wf)
    show ?thesis
      by (rule that [of ?s]) (use 3 wf' in \<open>simp_all add: sync store_simps preserved_iff [OF wf'] mirrored_def\<close>)
  qed
qed

definition store_locked :: "(string \<Rightarrow> string) \<Rightarrow> string \<Rightarrow> u64 \<Rightarrow> ship_store \<Rightarrow> bool" where
  "store_locked digest r pr s \<longleftrightarrow> preserved digest s pr \<and>
     (collides s pr \<or> (\<forall>l. get_unlocked s pr = Some l \<longrightarrow> same_repository (ss_repo l) r \<longrightarrow>
        scoped_get s (repository_key digest r) pr = Some l))"

definition views_agree :: "string set \<Rightarrow> (string \<Rightarrow> u64 \<Rightarrow> 'a) \<Rightarrow> (string \<Rightarrow> u64 \<Rightarrow> 'a) \<Rightarrow> bool" where
  "views_agree repos m m' \<longleftrightarrow> (\<forall>r \<in> repos. \<forall>p. m r p = m' r p)"

lemma views_agree_refl [simp]: "views_agree repos m m"
  by (simp add: views_agree_def)

lemma views_agree_trans: "views_agree repos m m' \<Longrightarrow> views_agree repos m' m'' \<Longrightarrow> views_agree repos m m''"
  by (simp add: views_agree_def)

lemma views_agree_put: "views_agree repos m m' \<Longrightarrow> views_agree repos (put_view r p v m) (put_view r p v m')"
  by (simp add: views_agree_def put_view_def)

lemma mirrored_locked: "preserved digest s pr \<Longrightarrow> mirrored digest s pr \<Longrightarrow> store_locked digest r pr s"
  by (auto simp: store_locked_def mirrored_def dest: repository_key_same [where digest = digest])

lemma locked_same: "same_repository r r' \<Longrightarrow> store_locked digest r p s = store_locked digest r' p s"
  using repository_key_same [of r r' digest] by (simp add: store_locked_def same_repository_def)

lemma view_cong:
  "scoped_get s' (repository_key digest r) p = scoped_get s (repository_key digest r) p \<Longrightarrow>
   get_unlocked s' p = get_unlocked s p \<Longrightarrow> collides s' p = collides s p \<Longrightarrow>
   ship_view digest s' r p = ship_view digest s r p"
  by (simp add: ship_view_def legacy_of_def)

text \<open>A preserved store after a change of its scoped files, its mirror synchronised.\<close>

lemma synced_view:
  assumes "store_wf digest repos s" "preserved digest s pr"
  obtains s' where "sync_legacy_mirror_for_pr digest pr s = (Inr (), s')" "store_wf digest repos s'"
    "preserved digest s' pr" "mirrored digest s' pr" "sf_archive s' = sf_archive s"
    "ship_view digest s' = ship_view digest s"
proof -
  from sync_ok [OF assms] obtain s' where s': "sync_legacy_mirror_for_pr digest pr s = (Inr (), s')"
    "store_wf digest repos s'" "scoped_get s' = scoped_get s" "sf_archive s' = sf_archive s"
    "preserved digest s' pr" "mirrored digest s' pr"
    and other: "\<forall>p. p \<noteq> pr \<longrightarrow> get_unlocked s' p = get_unlocked s p \<and> (collides s' p \<longleftrightarrow> collides s p)" .
  have "ship_view digest s' r p = ship_view digest s r p" for r p
  proof (cases "p = pr")
    case True
    then show ?thesis by (simp add: view_preserved [OF s'(2,5)] view_preserved [OF assms] s'(3))
  next
    case False
    with other show ?thesis by (intro view_cong) (simp_all add: s'(3))
  qed
  then have "ship_view digest s' = ship_view digest s" by blast
  then show thesis using that s' by metis
qed

lemma persist_legacy:
  assumes inv: "store_inv digest repos s" and l: "get_unlocked s pr = Some l" "\<not> collides s pr"
    and newer: "newer_than l (scoped_get s (repository_key digest (ss_repo l)) pr)"
    and s': "s' = persist_state_at l (repository_key digest (ss_repo l), pr) s"
  shows "store_inv digest repos s'" "preserved digest s' pr" "sf_archive s' = sf_archive s"
    "views_agree repos (ship_view digest s') (ship_view digest s)"
proof -
  from inv have wf: "store_wf digest repos s" and na: "names_apart digest repos" by (auto simp: store_inv_def)
  from store_wfD(3) [OF wf l(1)] have lr: "ss_pr l = pr" "ss_repo l \<in> repos" by auto
  show wf': "store_inv digest repos s'" unfolding s' store_inv_def using na wf_persist [OF wf lr] by simp
  then have wf': "store_wf digest repos s'" by (simp add: store_inv_def)
  note obs = persist_simps [where s = s and st = l and k = "repository_key digest (ss_repo l)" and p = pr, folded s']
  show pres: "preserved digest s' pr"
    unfolding preserved_iff [OF wf'] using l store_wfD(2) [OF wf] by (auto simp: obs)
  show "sf_archive s' = sf_archive s" by (simp add: obs)
  show "views_agree repos (ship_view digest s') (ship_view digest s)"
    unfolding views_agree_def
  proof (intro ballI allI)
    fix r p assume r: "r \<in> repos"
    show "ship_view digest s' r p = ship_view digest s r p"
    proof (cases "p = pr")
      case True
      have "ship_view digest s' r pr = (if same_repository (ss_repo l) r then Some l
          else scoped_get s (repository_key digest r) pr)"
        using names_apart_iff [OF na lr(2) r] store_wfD(2) [OF wf]
        by (auto simp: view_preserved [OF wf' pres] obs)
      moreover have "ship_view digest s r pr = (if same_repository (ss_repo l) r then Some l
          else scoped_get s (repository_key digest r) pr)"
        using l newer repository_key_same [of "ss_repo l" r digest]
        by (auto simp: ship_view_def legacy_of_def newest_def option_filter_def)
      ultimately show ?thesis using True by simp
    next
      case False
      then show ?thesis using store_wfD(2) [OF wf] by (intro view_cong) (simp_all add: obs)
    qed
  qed
qed

lemma not_preserved_newer:
  "\<not> legacy_is_preserved digest s l \<Longrightarrow>
   newer_than l (scoped_get s (repository_key digest (ss_repo l)) (ss_pr l)) \<and> \<not> collides s (ss_pr l)"
  by (auto simp: legacy_is_preserved_def newer_than_def is_some_and_def split: option.splits)

lemma migrate_unrepresented:
  assumes inv: "store_inv digest repos s" and s': "s' = migrate_unrepresented_legacy digest pr s"
  shows "store_inv digest repos s' \<and> preserved digest s' pr \<and> sf_archive s' = sf_archive s
     \<and> views_agree repos (ship_view digest s') (ship_view digest s)"
proof (cases "preserved digest s pr")
  case True
  then have "s' = s" unfolding s' migrate_unrepresented_legacy_def
    by (auto simp: preserved_def ensure_legacy_is_preserved_def split: option.splits if_splits)
  with True inv show ?thesis by simp
next
  case False
  then obtain l where l: "get_unlocked s pr = Some l" "\<not> legacy_is_preserved digest s l"
    by (auto simp: preserved_def ensure_legacy_is_preserved_def split: option.splits if_splits)
  from inv l(1) have "ss_pr l = pr" by (auto simp: store_inv_def dest: store_wfD)
  with not_preserved_newer [OF l(2)] have n:
    "newer_than l (scoped_get s (repository_key digest (ss_repo l)) pr)" "\<not> collides s pr" by auto
  then have "s' = persist_state_at l (repository_key digest (ss_repo l), pr) s"
    using l by (simp add: s' migrate_unrepresented_legacy_def Let_def)
  from persist_legacy [OF inv l(1) n(2,1) this] show ?thesis by simp
qed

lemma migrate_matching:
  assumes inv: "store_inv digest repos s" and pres: "preserved digest s pr"
  obtains s' where "migrate_matching_legacy_locked digest r pr s = (Inr (), s')" "store_inv digest repos s'"
    "store_locked digest r pr s'" "sf_archive s' = sf_archive s"
    "ship_view digest s' = ship_view digest s"
proof -
  from inv have wf: "store_wf digest repos s" by (simp add: store_inv_def)
  show thesis
  proof (cases "\<not> collides s pr \<and> (\<exists>l. get_unlocked s pr = Some l \<and> same_repository (ss_repo l) r)")
    case True
    then obtain l where l: "\<not> collides s pr" "get_unlocked s pr = Some l" "same_repository (ss_repo l) r" by blast
    with pres have "\<not> newer_than l (scoped_get s (repository_key digest r) pr)"
      by (auto simp: preserved_iff [OF wf] newer_than_def not_less repository_key_same [OF l(3), symmetric, where digest = digest])
    with l have m: "migrate_matching_legacy_locked digest r pr s = sync_legacy_mirror_for_pr digest pr s"
      by (simp add: migrate_matching_legacy_locked_def)
    from synced_view [OF wf pres] obtain s' where "sync_legacy_mirror_for_pr digest pr s = (Inr (), s')"
      "store_wf digest repos s'" "preserved digest s' pr" "mirrored digest s' pr" "sf_archive s' = sf_archive s"
      "ship_view digest s' = ship_view digest s" .
    with inv m show thesis by (intro that [of s']) (auto simp: store_inv_def mirrored_locked)
  next
    case False
    then have "migrate_matching_legacy_locked digest r pr s = (Inr (), s)"
      by (auto simp: migrate_matching_legacy_locked_def split: option.splits)
    moreover from False pres have "store_locked digest r pr s" by (auto simp: store_locked_def)
    ultimately show thesis using inv by (intro that [of s]) auto
  qed
qed

lemma lock_ok:
  assumes "store_inv digest repos s"
  obtains s' where "lock_pr_scoped digest r pr s = (Inr (), s')" "store_inv digest repos s'"
    "store_locked digest r pr s'" "sf_archive s' = sf_archive s"
    "views_agree repos (ship_view digest s') (ship_view digest s)"
proof -
  let ?m = "migrate_unrepresented_legacy digest pr s"
  from migrate_unrepresented [OF assms refl, of pr] have m: "store_inv digest repos ?m" "preserved digest ?m pr"
    "sf_archive ?m = sf_archive s" "views_agree repos (ship_view digest ?m) (ship_view digest s)" by auto
  from migrate_matching [OF m(1,2), of r] obtain s' where
    "migrate_matching_legacy_locked digest r pr ?m = (Inr (), s')" "store_inv digest repos s'"
    "store_locked digest r pr s'" "sf_archive s' = sf_archive ?m" "ship_view digest s' = ship_view digest ?m" .
  with m that show thesis by (auto simp: lock_pr_scoped_def)
qed

lemma read_ok:
  assumes inv: "store_inv digest repos s" and "r \<in> repos" and "store_locked digest r pr s"
  shows "get_locked_scoped digest s r pr = ship_view digest s r pr"
proof -
  from inv have wf: "store_wf digest repos s" and na: "names_apart digest repos" by (auto simp: store_inv_def)
  from assms(3) have pres: "preserved digest s pr" by (simp add: store_locked_def)
  show ?thesis
  proof (cases "scoped_get s (repository_key digest r) pr")
    case None
    with assms(3) show ?thesis
      by (auto simp: view_preserved [OF wf pres] get_locked_scoped_def store_locked_def split: option.splits)
  next
    case (Some st)
    from store_wfD(4) [OF wf this] have st: "ss_pr st = pr" "ss_repo st \<in> repos"
      "repository_key digest r = repository_key digest (ss_repo st)" by auto
    with names_apart_iff [OF na assms(2) st(2)] have "same_repository (ss_repo st) r"
      by (simp add: same_repository_sym)
    with Some st show ?thesis by (simp add: view_preserved [OF wf pres] get_locked_scoped_def)
  qed
qed

lemma persist_preserved:
  assumes wf: "store_wf digest repos s" and na: "names_apart digest repos" and "ss_repo st \<in> repos"
    and locked: "store_locked digest (ss_repo st) (ss_pr st) s"
    and s': "s' = persist_state_at st (repository_key digest (ss_repo st), ss_pr st) s"
    and stale: "\<not> preserved digest s' (ss_pr st)"
  obtains l where "ship_view digest s (ss_repo st) (ss_pr st) = Some l" "ss_updated_at st < ss_updated_at l"
    "\<not> collides s (ss_pr st)" "get_unlocked s (ss_pr st) = Some l" "same_repository (ss_repo l) (ss_repo st)"
proof -
  let ?p = "ss_pr st"
  have wf': "store_wf digest repos s'" unfolding s' by (rule wf_persist [OF wf refl assms(3) refl])
  note obs = persist_simps [where s = s and st = st and k = "repository_key digest (ss_repo st)" and p = ?p, folded s']
  from stale obtain l where l: "\<not> collides s ?p" "get_unlocked s ?p = Some l"
    and n: "\<And>sc. scoped_get s' (repository_key digest (ss_repo l)) ?p = Some sc \<Longrightarrow> ss_updated_at sc < ss_updated_at l"
    by (auto simp: preserved_iff [OF wf'] obs not_le)
  from locked have pres: "preserved digest s ?p" by (simp add: store_locked_def)
  with l obtain sc where sc: "scoped_get s (repository_key digest (ss_repo l)) ?p = Some sc"
    "ss_updated_at l \<le> ss_updated_at sc" by (auto simp: preserved_iff [OF wf])
  from n [of sc] sc have key: "repository_key digest (ss_repo l) = repository_key digest (ss_repo st)"
    using store_wfD(2) [OF wf]
    by (cases "repository_key digest (ss_repo l) = repository_key digest (ss_repo st)") (auto simp: obs)
  from store_wfD(3) [OF wf l(2)] have "ss_repo l \<in> repos" by simp
  from names_apart_iff [OF na this assms(3)] key have same: "same_repository (ss_repo l) (ss_repo st)" by simp
  from locked l same have "scoped_get s (repository_key digest (ss_repo st)) ?p = Some l"
    by (auto simp: store_locked_def)
  with view_preserved [OF wf pres] have "ship_view digest s (ss_repo st) ?p = Some l" by simp
  moreover from n [of st] key have "ss_updated_at st < ss_updated_at l"
    using store_wfD(2) [OF wf] by (simp add: obs)
  ultimately show thesis using that l same by blast
qed

text \<open>
  Saving under the lock updates exactly one key of the abstract store, or is refused as older than
  what the legacy mirror holds and changes none.
\<close>

lemma save_view:
  assumes inv: "store_inv digest repos s" and st: "ss_repo st \<in> repos"
    and locked: "store_locked digest (ss_repo st) (ss_pr st) s"
  obtains (saved) s' where "save_scoped_locked digest st s = (Inr (), s')" "store_inv digest repos s'"
      "store_locked digest (ss_repo st) (ss_pr st) s'" "sf_archive s' = sf_archive s"
      "views_agree repos (ship_view digest s') (put_view (ss_repo st) (ss_pr st) (Some st) (ship_view digest s))"
  | (stale) e s' l where "save_scoped_locked digest st s = (Inl e, s')" "store_inv digest repos s'"
      "views_agree repos (ship_view digest s') (ship_view digest s)" "sf_archive s' = sf_archive s"
      "ship_view digest s (ss_repo st) (ss_pr st) = Some l" "ss_updated_at st < ss_updated_at l"
proof -
  let ?p = "ss_pr st" and ?r = "ss_repo st" and ?k = "repository_key digest (ss_repo st)"
  from inv have wf: "store_wf digest repos s" and na: "names_apart digest repos" by (auto simp: store_inv_def)
  define s1 where "s1 = persist_state_at st (?k, ?p) s"
  have wf1: "store_wf digest repos s1" unfolding s1_def by (rule wf_persist [OF wf refl st refl])
  from locked have pres: "preserved digest s ?p" by (simp add: store_locked_def)
  have sv: "save_scoped_locked digest st s = sync_legacy_mirror_for_pr digest ?p s1"
    using pres by (simp add: save_scoped_locked_def preserved_def s1_def)
  note obs = persist_simps [where s = s and st = st and k = ?k and p = ?p, folded s1_def]
  have key: "repository_key digest r = ?k \<longleftrightarrow> same_repository r ?r" if "r \<in> repos" for r
    by (rule names_apart_iff [OF na that st])
  have other: "ship_view digest s1 r p = ship_view digest s r p" if "r \<in> repos" "\<not> (same_repository r ?r \<and> p = ?p)" for r p
    using that key [OF that(1)] store_wfD(2) [OF wf] by (intro view_cong) (auto simp: obs)
  show thesis
  proof (cases "preserved digest s1 ?p")
    case True
    from synced_view [OF wf1 True] obtain s' where s': "sync_legacy_mirror_for_pr digest ?p s1 = (Inr (), s')"
      "store_wf digest repos s'" "preserved digest s' ?p" "mirrored digest s' ?p" "sf_archive s' = sf_archive s1"
      "ship_view digest s' = ship_view digest s1" .
    have "views_agree repos (ship_view digest s') (put_view ?r ?p (Some st) (ship_view digest s))"
      unfolding views_agree_def s'(6) put_view_def
      using other key store_wfD(2) [OF wf] by (auto simp: view_preserved [OF wf1 True] obs)
    with s' na show thesis
      by (intro saved [of s']) (auto simp: sv store_inv_def obs mirrored_locked)
  next
    case False
    from persist_preserved [OF wf na st locked s1_def False] obtain l where
      l: "ship_view digest s ?r ?p = Some l" "ss_updated_at st < ss_updated_at l"
      "\<not> collides s ?p" "get_unlocked s ?p = Some l" "same_repository (ss_repo l) ?r" .
    from sync_error [OF False] obtain e where e: "sync_legacy_mirror_for_pr digest ?p s1 = (Inl e, s1)" by blast
    have "ship_view digest s1 r ?p = ship_view digest s r ?p" if r: "r \<in> repos" "same_repository r ?r" for r
    proof -
      from r l(5) have "same_repository (ss_repo l) r" by (simp add: same_repository_def)
      then have "ship_view digest s1 r ?p = Some l"
        using key [OF r(1)] r(2) l store_wfD(2) [OF wf]
        by (simp add: ship_view_def legacy_of_def newest_def option_filter_def newer_than_def obs)
      moreover have "ship_view digest s r ?p = ship_view digest s ?r ?p"
        unfolding view_preserved [OF wf pres] using key [OF r(1)] r(2) by simp
      ultimately show ?thesis using l by simp
    qed
    with other have "views_agree repos (ship_view digest s1) (ship_view digest s)"
      unfolding views_agree_def by metis
    with wf1 na e l show thesis by (intro stale [of e s1 l]) (auto simp: sv store_inv_def obs)
  qed
qed

text \<open>A store from which the files of one repository's pull request are gone.\<close>

definition dropped :: "(string \<Rightarrow> string) \<Rightarrow> string \<Rightarrow> u64 \<Rightarrow> ship_store \<Rightarrow> ship_store \<Rightarrow> bool" where
  "dropped digest r p s s' \<longleftrightarrow>
     (\<forall>k' p'. scoped_get s' k' p' = (if k' = repository_key digest r \<and> p' = p then None else scoped_get s k' p'))
     \<and> get_unlocked s' = (get_unlocked s)(p := option_filter (\<lambda>l. \<not> same_repository (ss_repo l) r) (get_unlocked s p))
     \<and> collides s' = collides s"

lemma remove_matching_get:
  "get_unlocked (remove_matching_legacy r p s) =
     (get_unlocked s)(p := option_filter (\<lambda>l. \<not> same_repository (ss_repo l) r) (get_unlocked s p))"
  by (auto simp: remove_matching_legacy_def is_some_and_def option_filter_def store_simps split: option.splits)

lemma remove_matching_other [store_simps]:
  "scoped_get (remove_matching_legacy r p s) = scoped_get s"
  "collides (remove_matching_legacy r p s) = collides s"
  "sf_archive (remove_matching_legacy r p s) = sf_archive s"
  by (simp_all add: remove_matching_legacy_def store_simps)

lemma dropped_scoped:
  "dropped digest r p s (remove_matching_legacy r p (s\<lparr>sf_scoped := bt_remove (repository_key digest r, p) (sf_scoped s)\<rparr>))"
  by (simp add: dropped_def remove_matching_get store_simps)

lemma dropped_view:
  assumes inv: "store_inv digest repos s" and r: "r \<in> repos" and locked: "store_locked digest r p s"
    and s': "store_wf digest repos s'" "dropped digest r p s s'"
  obtains s'' where "sync_legacy_mirror_for_pr digest p s' = (Inr (), s'')" "store_inv digest repos s''"
    "sf_archive s'' = sf_archive s'"
    "views_agree repos (ship_view digest s'') (put_view r p None (ship_view digest s))"
proof -
  from inv have wf: "store_wf digest repos s" and na: "names_apart digest repos" by (auto simp: store_inv_def)
  from locked have pres: "preserved digest s p" by (simp add: store_locked_def)
  have key: "repository_key digest r' = repository_key digest r \<longleftrightarrow> same_repository r' r" if "r' \<in> repos" for r'
    by (rule names_apart_iff [OF na that r])
  from s'(2) have sc: "\<And>k' p'. scoped_get s' k' p' = (if k' = repository_key digest r \<and> p' = p then None else scoped_get s k' p')"
    and lg: "get_unlocked s' = (get_unlocked s)(p := option_filter (\<lambda>l. \<not> same_repository (ss_repo l) r) (get_unlocked s p))"
    and co: "collides s' = collides s" by (simp_all add: dropped_def)
  have pres': "preserved digest s' p"
    unfolding preserved_iff [OF s'(1)] using pres [unfolded preserved_iff [OF wf]] key store_wfD(3) [OF wf]
    by (auto simp: sc lg co option_filter_def split: option.splits if_splits)
  from synced_view [OF s'(1) pres'] obtain s'' where s'': "sync_legacy_mirror_for_pr digest p s' = (Inr (), s'')"
    "store_wf digest repos s''" "preserved digest s'' p" "mirrored digest s'' p" "sf_archive s'' = sf_archive s'"
    "ship_view digest s'' = ship_view digest s'" .
  have "ship_view digest s' r' p' = put_view r p None (ship_view digest s) r' p'" if r': "r' \<in> repos" for r' p'
  proof (cases "p' = p")
    case True
    then show ?thesis using key [OF r']
      by (auto simp: view_preserved [OF s'(1) pres'] view_preserved [OF wf pres] sc put_view_def)
  next
    case False
    then have "ship_view digest s' r' p' = ship_view digest s r' p'"
      by (intro view_cong) (simp_all add: sc lg co)
    with False show ?thesis by (simp add: put_view_def)
  qed
  then have "views_agree repos (ship_view digest s'') (put_view r p None (ship_view digest s))"
    by (simp add: views_agree_def s''(6))
  with s'' na that show thesis by (auto simp: store_inv_def)
qed

lemma delete_view:
  assumes inv: "store_inv digest repos s" and r: "r \<in> repos" and locked: "store_locked digest r p s"
  obtains s' where "delete_scoped_locked digest r p s = (Inr (), s')" "store_inv digest repos s'"
    "views_agree repos (ship_view digest s') (put_view r p None (ship_view digest s))" "sf_archive s' = sf_archive s"
proof -
  let ?s = "remove_matching_legacy r p (s\<lparr>sf_scoped := bt_remove (repository_key digest r, p) (sf_scoped s)\<rparr>)"
  have "store_wf digest repos ?s" using inv by (intro wf_remove_matching wf_remove_scoped) (simp add: store_inv_def)
  from dropped_view [OF inv r locked this dropped_scoped] obtain s'' where
    "sync_legacy_mirror_for_pr digest p ?s = (Inr (), s'')" "store_inv digest repos s''"
    "sf_archive s'' = sf_archive ?s" "views_agree repos (ship_view digest s'') (put_view r p None (ship_view digest s))" .
  then show thesis by (intro that [of s'']) (simp_all add: delete_scoped_locked_def store_simps)
qed

text \<open>Archiving moves the state there and removes the key.\<close>

lemma archive_view:
  assumes inv: "store_inv digest repos s" and r: "r \<in> repos" and locked: "store_locked digest r p s"
    and st: "ship_view digest s r p = Some st"
  obtains s' where
    "archive_scoped_locked digest stamp r p s = (Inr (Some (archive_path (repository_key digest r) p stamp)), s')"
    "store_inv digest repos s'" "views_agree repos (ship_view digest s') (put_view r p None (ship_view digest s))"
    "bt_get (sf_archive s') = (bt_get (sf_archive s))(archive_path (repository_key digest r) p stamp \<mapsto> Good st)"
proof -
  let ?k = "repository_key digest r" and ?d = "archive_path (repository_key digest r) p stamp"
  from inv have wf: "store_wf digest repos s" by (simp add: store_inv_def)
  then have aw: "bt_wf (sf_archive s)" by (simp add: store_wf_def)
  from locked have "preserved digest s p" by (simp add: store_locked_def)
  with st view_preserved [OF wf] have fl: "bt_get (sf_scoped s) (?k, p) = Some (Good st)"
    by (simp add: scoped_get_def parsed_Some_iff)
  let ?m = "s\<lparr>sf_scoped := bt_remove (?k, p) (sf_scoped s), sf_archive := bt_insert ?d (Good st) (sf_archive s)\<rparr>"
  let ?s = "remove_matching_legacy r p ?m"
  have "store_wf digest repos ?s"
    using wf_archive [OF wf_remove_scoped [OF wf, of ?k p] bt_wf_insert [OF aw, of ?d "Good st"]]
    by (intro wf_remove_matching) simp
  moreover have "dropped digest r p s ?s" by (simp add: dropped_def remove_matching_get store_simps)
  ultimately obtain s'' where s'': "sync_legacy_mirror_for_pr digest p ?s = (Inr (), s'')" "store_inv digest repos s''"
    "sf_archive s'' = sf_archive ?s" "views_agree repos (ship_view digest s'') (put_view r p None (ship_view digest s))"
    using dropped_view [OF inv r locked] by metis
  then show thesis
    by (intro that [of s'']) (simp_all add: archive_scoped_locked_def Let_def fl store_simps bt_get_insert [OF aw])
qed

section \<open>Transactions on a keyed store\<close>

text \<open>What the clients of the store rely on, and what follows for a locked read-modify-write.\<close>

locale scoped_states =
  fixes invar :: "'s \<Rightarrow> bool" and repos :: "string set"
    and view :: "'s \<Rightarrow> string \<Rightarrow> u64 \<Rightarrow> ship_state option"
    and locked :: "string \<Rightarrow> u64 \<Rightarrow> 's \<Rightarrow> bool"
    and lock :: "string \<Rightarrow> u64 \<Rightarrow> 's \<Rightarrow> (string + unit) \<times> 's"
    and read :: "'s \<Rightarrow> string \<Rightarrow> u64 \<Rightarrow> ship_state option"
    and store :: "ship_state \<Rightarrow> 's \<Rightarrow> (string + unit) \<times> 's"
    and remove :: "string \<Rightarrow> u64 \<Rightarrow> 's \<Rightarrow> (string + unit) \<times> 's"
  assumes lock_law: "invar s \<Longrightarrow> \<exists>s'. lock r p s = (Inr (), s') \<and> invar s' \<and> locked r p s'
      \<and> views_agree repos (view s') (view s)"
    and locked_law: "same_repository r r' \<Longrightarrow> locked r p s = locked r' p s"
    and key_law: "invar s \<Longrightarrow> r \<in> repos \<Longrightarrow> view s r p = Some st \<Longrightarrow>
      same_repository (ss_repo st) r \<and> ss_pr st = p \<and> ss_repo st \<in> repos"
    and same_view: "invar s \<Longrightarrow> r \<in> repos \<Longrightarrow> r' \<in> repos \<Longrightarrow> same_repository r r' \<Longrightarrow> view s r p = view s r' p"
    and read_law: "invar s \<Longrightarrow> r \<in> repos \<Longrightarrow> locked r p s \<Longrightarrow> read s r p = view s r p"
    and store_law: "invar s \<Longrightarrow> ss_repo st \<in> repos \<Longrightarrow> locked (ss_repo st) (ss_pr st) s \<Longrightarrow>
      (\<exists>s'. store st s = (Inr (), s') \<and> invar s' \<and> locked (ss_repo st) (ss_pr st) s'
         \<and> views_agree repos (view s') (put_view (ss_repo st) (ss_pr st) (Some st) (view s)))
      \<or> (\<exists>e s' l. store st s = (Inl e, s') \<and> invar s' \<and> views_agree repos (view s') (view s)
         \<and> view s (ss_repo st) (ss_pr st) = Some l \<and> ss_updated_at st < ss_updated_at l)"
    and remove_law: "invar s \<Longrightarrow> r \<in> repos \<Longrightarrow> locked r p s \<Longrightarrow>
      \<exists>s'. remove r p s = (Inr (), s') \<and> invar s' \<and> views_agree repos (view s') (put_view r p None (view s))"
begin

lemma put_same: "same_repository q r \<Longrightarrow> put_view q p v m = put_view r p v m"
  by (simp add: put_view_def same_repository_def fun_eq_iff)

lemma open_transaction:
  assumes "invar s" "r \<in> repos"
  obtains s1 where "lock r p s = (Inr (), s1)" "invar s1" "locked r p s1" "read s1 r p = view s r p"
    "views_agree repos (view s1) (view s)"
proof -
  from lock_law [OF assms(1)] obtain s1 where s1: "lock r p s = (Inr (), s1)" "invar s1" "locked r p s1"
    "views_agree repos (view s1) (view s)" by blast
  with read_law [OF s1(2) assms(2) s1(3)] assms(2) show thesis
    by (intro that [of s1]) (auto simp: views_agree_def)
qed

lemma store_cases:
  assumes "invar s1" "locked r p s1" "views_agree repos (view s1) m" "r \<in> repos"
    and st: "ss_repo st \<in> repos" "same_repository (ss_repo st) r" "ss_pr st = p"
  obtains (saved) s' where "store st s1 = (Inr (), s')" "invar s'" "locked r p s'"
      "views_agree repos (view s') (put_view r p (Some st) m)"
  | (stale) e s' l where "store st s1 = (Inl e, s')" "invar s'" "views_agree repos (view s') m"
      "m r p = Some l" "ss_updated_at st < ss_updated_at l"
proof -
  from assms(2) locked_law [OF st(2)] st(3) have "locked (ss_repo st) (ss_pr st) s1" by simp
  from store_law [OF assms(1) st(1) this] show thesis
  proof (elim disjE exE conjE)
    fix s' assume s': "store st s1 = (Inr (), s')" "invar s'" "locked (ss_repo st) (ss_pr st) s'"
      "views_agree repos (view s') (put_view (ss_repo st) (ss_pr st) (Some st) (view s1))"
    from s'(3) locked_law [OF st(2)] st(3) have "locked r p s'" by simp
    moreover from s'(4) views_agree_put [OF assms(3)] have
      "views_agree repos (view s') (put_view r p (Some st) m)"
      unfolding put_same [OF st(2)] st(3) by (rule views_agree_trans)
    ultimately show thesis using s' saved by blast
  next
    fix e s' l assume s': "store st s1 = (Inl e, s')" "invar s'" "views_agree repos (view s') (view s1)"
      "view s1 (ss_repo st) (ss_pr st) = Some l" "ss_updated_at st < ss_updated_at l"
    have "view s1 r p = Some l"
      using s'(4) st(3) same_view [OF assms(1) st(1) assms(4) st(2)] by simp
    with assms(3,4) have "m r p = Some l" by (auto simp: views_agree_def)
    with s' views_agree_trans [OF s'(3) assms(3)] stale show thesis by blast
  qed
qed

end

lemma view_key:
  assumes inv: "store_inv digest repos s" and "r \<in> repos" and st: "ship_view digest s r p = Some st"
  shows "same_repository (ss_repo st) r \<and> ss_pr st = p \<and> ss_repo st \<in> repos"
proof -
  from inv have wf: "store_wf digest repos s" and na: "names_apart digest repos" by (auto simp: store_inv_def)
  from st consider "scoped_get s (repository_key digest r) p = Some st"
    | "get_unlocked s p = Some st" "same_repository (ss_repo st) r"
    by (auto simp: ship_view_def newest_def legacy_of_def option_filter_def split: option.splits if_splits)
  then show ?thesis
  proof cases
    case 1
    from store_wfD(4) [OF wf this] names_apart_iff [OF na assms(2), of "ss_repo st"] show ?thesis
      by (auto simp: same_repository_sym)
  next
    case 2
    with store_wfD(3) [OF wf 2(1)] show ?thesis by simp
  qed
qed

lemma view_same: "same_repository r r' \<Longrightarrow> ship_view digest s r p = ship_view digest s r' p"
  using repository_key_same [of r r' digest]
  by (simp add: ship_view_def legacy_of_def option_filter_def same_repository_def cong: option.case_cong)

interpretation ships: scoped_states "store_inv digest repos" repos "ship_view digest" "store_locked digest"
    "lock_pr_scoped digest" "get_locked_scoped digest" "save_scoped_locked digest" "delete_scoped_locked digest"
  for digest repos
proof unfold_locales
  fix s r p assume "store_inv digest repos s"
  from lock_ok [OF this, of r p] show "\<exists>s'. lock_pr_scoped digest r p s = (Inr (), s') \<and> store_inv digest repos s'
      \<and> store_locked digest r p s' \<and> views_agree repos (ship_view digest s') (ship_view digest s)" by metis
next
  fix s and st :: ship_state assume "store_inv digest repos s" "ss_repo st \<in> repos" "store_locked digest (ss_repo st) (ss_pr st) s"
  then show "(\<exists>s'. save_scoped_locked digest st s = (Inr (), s') \<and> store_inv digest repos s'
         \<and> store_locked digest (ss_repo st) (ss_pr st) s'
         \<and> views_agree repos (ship_view digest s') (put_view (ss_repo st) (ss_pr st) (Some st) (ship_view digest s)))
      \<or> (\<exists>e s' l. save_scoped_locked digest st s = (Inl e, s') \<and> store_inv digest repos s'
         \<and> views_agree repos (ship_view digest s') (ship_view digest s)
         \<and> ship_view digest s (ss_repo st) (ss_pr st) = Some l \<and> ss_updated_at st < ss_updated_at l)"
    by (cases rule: save_view [consumes 3]) metis+
next
  fix s r p assume "store_inv digest repos s" "r \<in> repos" "store_locked digest r p s"
  from delete_view [OF this] show "\<exists>s'. delete_scoped_locked digest r p s = (Inr (), s')
      \<and> store_inv digest repos s' \<and> views_agree repos (ship_view digest s') (put_view r p None (ship_view digest s))"
    by metis
qed (simp_all add: locked_same view_key read_ok view_same)


definition claim_request :: "clock \<Rightarrow> reviewer_claim_request \<Rightarrow> ship_state \<Rightarrow> (reviewer_claim \<times> ship_state) option" where
  "claim_request clock q st = claim_reviewer (clock 0) (rq_head_sha q) (rq_reviewer q)
     (rq_claimed_at q) (rq_deadline_at q) (rq_now q) st"

lemma claim_request_Some:
  assumes "claim_request clock q st = Some (c, st')"
  shows "ss_repo st' = ss_repo st" "ss_pr st' = ss_pr st" "ss_updated_at st' = clock 0"
    "revoke_reviewer_claim t (rq_head_sha q) (rc_epoch c) (rq_reviewer q) st' =
       (if rc_epoch c < u64_max
        then (True, ship_touch t (st'\<lparr>ss_reviewer_claim_epoch := rc_epoch c + 1, ss_active_reviewer_claim := None\<rparr>))
        else (False, st'))"
    "ss_active_reviewer_claim st' = Some c"
  using assms
  by (auto simp: claim_request_def claim_reviewer_def ship_touch_def succ_Some_iff Let_def
        revoke_reviewer_claim_def is_some_and_def u64_checked_succ_def split: if_splits)

lemma put_put: "put_view r p v (put_view r p w m) = put_view r p v m"
  by (simp add: put_view_def fun_eq_iff)

lemma revocation_saved:
  assumes c: "claim_request clock q st = Some (c, claimed)" and clock: "clock 0 \<le> clock 1" and room: "rc_epoch c \<noteq> u64_max"
    and own: "ss_repo claimed \<in> repos" "same_repository (ss_repo claimed) (rq_repository q)" "ss_pr claimed = rq_pr q"
    and r: "rq_repository q \<in> repos"
    and s2: "store_inv digest repos s2" "store_locked digest (rq_repository q) (rq_pr q) s2"
      "views_agree repos (ship_view digest s2) (put_view (rq_repository q) (rq_pr q) (Some claimed) m)"
  obtains revoked s3 where
    "revoke_reviewer_claim (clock 1) (rq_head_sha q) (rc_epoch c) (rq_reviewer q) claimed = (True, revoked)"
    "save_scoped_locked digest revoked s2 = (Inr (), s3)" "store_inv digest repos s3"
    "views_agree repos (ship_view digest s3) (put_view (rq_repository q) (rq_pr q) (Some revoked) m)"
    "ss_active_reviewer_claim revoked = None" "ss_reviewer_claim_epoch revoked = rc_epoch c + 1"
proof -
  define revoked where "revoked =
    ship_touch (clock 1) (claimed\<lparr>ss_reviewer_claim_epoch := rc_epoch c + 1, ss_active_reviewer_claim := None\<rparr>)"
  note cl = claim_request_Some [OF c]
  from c have "rc_epoch c \<le> u64_max"
    by (auto simp: claim_request_def claim_reviewer_def succ_Some_iff Let_def split: if_splits)
  with room cl(4) [of "clock 1"] have rv:
    "revoke_reviewer_claim (clock 1) (rq_head_sha q) (rc_epoch c) (rq_reviewer q) claimed = (True, revoked)"
    by (simp add: revoked_def)
  have none: "ss_active_reviewer_claim revoked = None" "ss_reviewer_claim_epoch revoked = rc_epoch c + 1"
    by (simp_all add: revoked_def ship_touch_def)
  from own have "ss_repo revoked \<in> repos" "same_repository (ss_repo revoked) (rq_repository q)" "ss_pr revoked = rq_pr q"
    by (simp_all add: revoked_def ship_touch_def)
  with s2 r show thesis
  proof (cases rule: ships.store_cases [consumes 7])
    case (saved s3)
    with that [OF rv] none show thesis by (simp add: put_put)
  next
    case (stale e s3 l)
    with clock cl(3) show thesis by (simp add: put_view_def revoked_def ship_touch_def)
  qed
qed

text \<open>
  Publishing under a claim: a published receipt means the claim on the stored state is the one the
  receipt was made for, and it is stored; a failed publication leaves no active claim, with the
  fence moved past the failed one; any other failure leaves every state as it was. The exception is
  an exhausted epoch counter, which is reported as a failed revocation. The clock does not go back
  between the two writes.
\<close>

theorem claim_published_or_revoked:
  assumes inv: "store_inv digest repos s" and r: "rq_repository q \<in> repos" and clock: "clock 0 \<le> clock 1"
    and run: "claim_reviewer_and_publish digest clock q publisher s = (res, s')"
  shows "store_inv digest repos s' \<and>
    (views_agree repos (ship_view digest s') (ship_view digest s) \<and> (\<exists>e. res = Inl e)
     \<or> (\<exists>st c claimed. ship_view digest s (rq_repository q) (rq_pr q) = Some st
          \<and> claim_request clock q st = Some (c, claimed)
          \<and> (case publisher c of
               Inr v \<Rightarrow> res = Inr v \<and> views_agree repos (ship_view digest s')
                   (put_view (rq_repository q) (rq_pr q) (Some claimed) (ship_view digest s))
             | Inl e \<Rightarrow> rc_epoch c = u64_max
                 \<or> (\<exists>st''. res = Inl e \<and> views_agree repos (ship_view digest s')
                     (put_view (rq_repository q) (rq_pr q) (Some st'') (ship_view digest s))
                   \<and> ss_active_reviewer_claim st'' = None
                   \<and> ss_reviewer_claim_epoch st'' = rc_epoch c + 1))))"
    (is "_ \<and> ?outcome")
proof -
  let ?r = "rq_repository q" and ?p = "rq_pr q"
  from ships.open_transaction [OF inv r] obtain s1 where s1: "lock_pr_scoped digest ?r ?p s = (Inr (), s1)"
    "store_inv digest repos s1" "store_locked digest ?r ?p s1"
    "get_locked_scoped digest s1 ?r ?p = ship_view digest s ?r ?p"
    "views_agree repos (ship_view digest s1) (ship_view digest s)" .
  note run' = run [unfolded claim_reviewer_and_publish_def s1(1) prod.case sum.case s1(4), folded claim_request_def]
  show ?thesis
  proof (cases "\<exists>st c claimed. ship_view digest s ?r ?p = Some st \<and> claim_request clock q st = Some (c, claimed)")
    case False
    then have "s' = s1 \<and> (\<exists>e. res = Inl e)" using run' by (auto split: option.splits prod.splits)
    with s1 show ?thesis by blast
  next
    case True
    then obtain st c claimed where st: "ship_view digest s ?r ?p = Some st"
      and c: "claim_request clock q st = Some (c, claimed)" by blast
    note cl = claim_request_Some [OF c]
    from ships.key_law [OF inv r st] cl have own: "ss_repo claimed \<in> repos" "same_repository (ss_repo claimed) ?r"
      "ss_pr claimed = ?p" by simp_all
    note run2 = run' [unfolded st option.case c prod.case]
    from s1(2,3,5) r own show ?thesis
    proof (cases rule: ships.store_cases [consumes 7])
      case (stale e s2 l)
      with run2 show ?thesis by auto
    next
      case (saved s2)
      show ?thesis
      proof (cases "publisher c")
        case (Inr v)
        with run2 saved(1) have "res = Inr v" "s' = s2" by simp_all
        with Inr saved st c show ?thesis by simp
      next
        case (Inl e)
        show ?thesis
        proof (cases "rc_epoch c = u64_max")
          case True
          with run2 saved(1) Inl cl(4) have "s' = s2" by simp
          with True saved Inl st c show ?thesis by simp
        next
          case False
          from revocation_saved [OF c clock False own r saved(2-4)] obtain revoked s3 where rv:
            "revoke_reviewer_claim (clock 1) (rq_head_sha q) (rc_epoch c) (rq_reviewer q) claimed = (True, revoked)"
            "save_scoped_locked digest revoked s2 = (Inr (), s3)" "store_inv digest repos s3"
            "views_agree repos (ship_view digest s3) (put_view ?r ?p (Some revoked) (ship_view digest s))"
            "ss_active_reviewer_claim revoked = None" "ss_reviewer_claim_epoch revoked = rc_epoch c + 1" .
          with run2 saved(1) Inl have "res = Inl e" "s' = s3" by simp_all
          then show ?thesis using rv(3-6) Inl st c by (auto simp del: add_Suc_right)
        qed
      qed
    qed
  qed
qed

text \<open>
  A fresh attempt archives the old one: the state that was current is in the archive under its
  repository's key, the repository's pull request has no active state any more and no other state
  changed, and the fresh record starts with no runs, evidence or abandonment and behind a fence
  that excludes every earlier claim.
\<close>

theorem archive_and_replace_moves:
  assumes inv: "store_inv digest repos s" and r: "ss_repo st \<in> repos"
    and cur: "ship_view digest s (ss_repo st) (ss_pr st) = Some cur"
    and room: "ss_reviewer_claim_epoch st < u64_max"
  shows "\<exists>fresh s'. archive_and_replace digest stamp now st n s = (Inr fresh, s') \<and> store_inv digest repos s'
     \<and> views_agree repos (ship_view digest s') (put_view (ss_repo st) (ss_pr st) None (ship_view digest s))
     \<and> bt_get (sf_archive s') (archive_path (repository_key digest (ss_repo st)) (ss_pr st) stamp) = Some (Good cur)
     \<and> ss_dispatched_runs fresh = [] \<and> ss_evidence_snapshot fresh = [] \<and> ss_abandoned fresh = None
     \<and> ss_active_reviewer_claim fresh = None \<and> ss_reviewer_claim_epoch fresh = ss_reviewer_claim_epoch st + 1
     \<and> ss_head_sha fresh = ss_head_sha st \<and> ss_repo fresh = ss_repo st \<and> ss_pr fresh = ss_pr st"
proof -
  let ?r = "ss_repo st" and ?p = "ss_pr st"
  from lock_ok [OF inv] obtain s1 where s1: "lock_pr_scoped digest ?r ?p s = (Inr (), s1)" "store_inv digest repos s1"
    "store_locked digest ?r ?p s1" "sf_archive s1 = sf_archive s"
    "views_agree repos (ship_view digest s1) (ship_view digest s)" .
  from s1(5) r cur have "ship_view digest s1 ?r ?p = Some cur" by (simp add: views_agree_def)
  from archive_view [OF s1(2) r s1(3) this, of stamp] obtain s' where s':
    "archive_scoped_locked digest stamp ?r ?p s1 = (Inr (Some (archive_path (repository_key digest ?r) ?p stamp)), s')"
    "store_inv digest repos s'" "views_agree repos (ship_view digest s') (put_view ?r ?p None (ship_view digest s1))"
    "bt_get (sf_archive s') = (bt_get (sf_archive s1))(archive_path (repository_key digest ?r) ?p stamp \<mapsto> Good cur)" .
  from views_agree_trans [OF s'(3) views_agree_put [OF s1(5)]] s' s1(1) room show ?thesis
    by (simp add: archive_and_replace_def archive_and_replace_locked_def next_attempt_def u64_checked_succ_def)
qed

text \<open>
  Compare-and-delete: a cleanup deletes a state only if the store still has exactly the state it
  looked at, and says whether it did.
\<close>

theorem delete_if_matches_exact:
  assumes inv: "store_inv digest repos s" and r: "r \<in> repos"
  shows "\<exists>s'. delete_scoped_if_matches digest r p expected s = (Inr (ship_view digest s r p = Some expected), s')
     \<and> store_inv digest repos s'
     \<and> views_agree repos (ship_view digest s')
         (if ship_view digest s r p = Some expected then put_view r p None (ship_view digest s) else ship_view digest s)"
proof -
  from ships.open_transaction [OF inv r] obtain s1 where s1: "lock_pr_scoped digest r p s = (Inr (), s1)"
    "store_inv digest repos s1" "store_locked digest r p s1" "get_locked_scoped digest s1 r p = ship_view digest s r p"
    "views_agree repos (ship_view digest s1) (ship_view digest s)" .
  show ?thesis
  proof (cases "ship_view digest s r p = Some expected")
    case True
    from ships.remove_law [OF s1(2) r s1(3)] obtain s2 where s2: "delete_scoped_locked digest r p s1 = (Inr (), s2)"
      "store_inv digest repos s2" "views_agree repos (ship_view digest s2) (put_view r p None (ship_view digest s1))"
      by blast
    with views_agree_trans [OF s2(3) views_agree_put [OF s1(5)]] True s1 show ?thesis
      by (simp add: delete_scoped_if_matches_def)
  next
    case False
    with s1 show ?thesis by (auto simp: delete_scoped_if_matches_def split: option.splits)
  qed
qed

section \<open>Operations without a repository\<close>

definition state_key :: "ship_state \<Rightarrow> string \<times> u64" where
  "state_key st = (canonical_repository (ss_repo st), ss_pr st)"

lemma newest_keys:
  "bt_wf m \<Longrightarrow> \<forall>(k, st) \<in> set m. k = state_key st \<Longrightarrow>
   (let m' = fold insert_newest_state sts m in
    (\<forall>(k, st) \<in> set m'. k = state_key st) \<and> fst ` set m' = fst ` set m \<union> state_key ` set sts)"
proof (induction sts arbitrary: m)
  case (Cons st sts)
  let ?m = "insert_newest_state st m"
  have wf: "bt_wf ?m" using Cons.prems(1) by (simp add: insert_newest_state_def Let_def bt_wf_insert)
  have keys: "fst ` set ?m = insert (state_key st) (fst ` set m)"
  proof (cases "newer_than st (bt_get m (state_key st))")
    case True
    then show ?thesis by (simp add: insert_newest_state_def state_key_def [symmetric] set_bt_insert_keys)
  next
    case False
    then obtain e where "bt_get m (state_key st) = Some e" by (auto simp: newer_than_def split: option.splits)
    with bt_get_SomeD [OF this] False show ?thesis
      by (force simp: insert_newest_state_def state_key_def [symmetric])
  qed
  have ok: "\<forall>(k, st) \<in> set ?m. k = state_key st"
  proof (clarify)
    fix a b v assume "((a, b), v) \<in> set ?m"
    then have "bt_get ?m (a, b) = Some v" using bt_get_Some_iff [OF wf] by simp
    then have "(a, b) = state_key st \<and> v = st \<or> bt_get m (a, b) = Some v"
      using Cons.prems(1)
      by (auto simp: insert_newest_state_def state_key_def [symmetric] Let_def bt_get_insert split: if_splits)
    with Cons.prems(2) show "(a, b) = state_key v" by (auto dest: bt_get_SomeD)
  qed
  from Cons.IH [OF wf ok] keys show ?case by (simp add: Let_def)
qed simp

lemma list_active_keys:
  "state_key ` set (list_active s) =
   state_key ` ({st. \<exists>p. (p, Good st) \<in> set (sf_legacy s) \<and> \<not> collides s (ss_pr st)}
     \<union> {st. \<exists>k. (k, Good st) \<in> set (sf_scoped s)})"
proof -
  let ?l = "filter (\<lambda>st. \<not> collides s (ss_pr st)) (List.map_filter (\<lambda>(_, f). parsed (Some f)) (sf_legacy s))"
  let ?c = "List.map_filter (\<lambda>(_, f). parsed (Some f)) (sf_scoped s)"
  let ?m = "fold insert_newest_state (?l @ ?c) []"
  have set: "set (?l @ ?c) = {st. \<exists>p. (p, Good st) \<in> set (sf_legacy s) \<and> \<not> collides s (ss_pr st)}
     \<union> {st. \<exists>k. (k, Good st) \<in> set (sf_scoped s)}"
    by (auto simp: set_map_filter_iff parsed_Some_iff) (force simp: parsed_Some_iff)+
  from newest_keys [of "[]" "?l @ ?c"] have m: "\<forall>(k, st) \<in> set ?m. k = state_key st"
    "fst ` set ?m = state_key ` set (?l @ ?c)" by (simp_all add: Let_def)
  have "state_key ` set (list_active s) = state_key ` snd ` set ?m"
    by (simp add: list_active_def Let_def)
  also have "\<dots> = fst ` set ?m" using m(1) by (force simp: image_image)
  finally show ?thesis using m(2) set by simp
qed

lemma view_listed:
  assumes inv: "store_inv digest repos s" and "r \<in> repos" and "ship_view digest s r p = Some st"
  shows "\<exists>st' \<in> set (states_for_pr s p). same_repository (ss_repo st') r"
proof -
  from view_key [OF assms] have st: "same_repository (ss_repo st) r" "ss_pr st = p" by auto
  from assms(3) have "(\<exists>k. (k, Good st) \<in> set (sf_scoped s))
     \<or> (\<exists>p. (p, Good st) \<in> set (sf_legacy s)) \<and> \<not> collides s (ss_pr st)"
    using st(2)
    by (auto simp: ship_view_def newest_def legacy_of_def option_filter_def scoped_get_def get_unlocked_def
          parsed_Some_iff split: option.splits if_splits dest: bt_get_SomeD)
  then have "state_key st \<in> state_key ` set (list_active s)" unfolding list_active_keys by auto
  then obtain st' where "st' \<in> set (list_active s)" "state_key st' = state_key st" by force
  with st show ?thesis by (auto simp: states_for_pr_def state_key_def same_repository_def)
qed

text \<open>
  When two repositories both have an active state for a pull-request number, the operations that
  are given the number alone refuse and touch nothing.
\<close>

theorem ambiguous_number_refused:
  assumes "store_inv digest repos s" "r \<in> repos" "r' \<in> repos" "\<not> same_repository r r'"
    and "ship_view digest s r p = Some a" "ship_view digest s r' p = Some b"
  shows "ship_delete digest p s = (Inl (ambiguous p), s) \<and> ship_archive digest stamp p s = (Inl (ambiguous p), s)
     \<and> with_pr_state_locked digest p f s = (Inl (ambiguous p), s) \<and> ship_get s p = None"
proof -
  from view_listed [OF assms(1,2,5)] view_listed [OF assms(1,3,6)] obtain x y where
    "x \<in> set (states_for_pr s p)" "same_repository (ss_repo x) r"
    "y \<in> set (states_for_pr s p)" "same_repository (ss_repo y) r'" by blast
  moreover from this assms(4) have "x \<noteq> y" by (auto simp: same_repository_def)
  ultimately obtain u v rest where "states_for_pr s p = u # v # rest"
    by (cases "states_for_pr s p" rule: remdups_adj.cases) auto
  then show ?thesis by (simp add: ship_delete_def ship_archive_def with_pr_state_locked_def ship_get_def)
qed

section \<open>Concrete stores\<close>

definition sample_ship :: "string \<Rightarrow> ship_state" where
  "sample_ship repo = ship_state_new 5 7 repo ''topic'' ''main'' ''abc'' ''policy''"

text \<open>A store an older release left behind: one legacy file, and a corrupt scoped one.\<close>

definition sample_store :: ship_store where
  "sample_store = \<lparr>sf_legacy = [(7, Good (sample_ship ''o/r''))],
     sf_scoped = [((''elsewhere'', 7), Corrupt)], sf_collision = [], sf_archive = []\<rparr>"

lemma sample_names: "names_apart (\<lambda>x. x) {''o/r'', ''x/y''}"
proof -
  have "repository_key (\<lambda>x. x) ''o/r'' \<noteq> repository_key (\<lambda>x. x) ''x/y''" by code_simp
  then show ?thesis by (simp add: names_apart_def)
qed

lemma sample_inv: "store_inv (\<lambda>x. x) {''o/r'', ''x/y''} sample_store"
  using sample_names
  by (simp add: store_inv_def store_wf_def sample_store_def bt_wf_def get_unlocked_def scoped_get_def bt_get_def
      sample_ship_def ship_state_new_def split: if_splits)

lemma sample_view: "ship_view (\<lambda>x. x) sample_store ''o/r'' 7 = Some (sample_ship ''o/r'')"
  by code_simp

theorem late_verdict_fenced_witness:
  "\<not> reviewer_claim_is_current
     (snd (fence_reviewer_claim 3 (snd (the (claim_reviewer 2 ''abc'' ''rev'' 1 9 2 (sample_ship ''o/r'')))))) ''abc'' 1 ''rev'' 4"
proof -
  let ?cs = "the (claim_reviewer 2 ''abc'' ''rev'' 1 9 2 (sample_ship ''o/r''))"
  let ?c = "fst ?cs" and ?s = "snd ?cs" and ?s' = "snd (fence_reviewer_claim 3 (snd ?cs))"
  have "claim_reviewer 2 ''abc'' ''rev'' 1 9 2 (sample_ship ''o/r'') = Some (?c, ?s)"
    "ss_active_reviewer_claim ?s' \<noteq> Some ?c" "rc_epoch ?c = 1"
    by (simp_all add: claim_reviewer_def fence_reviewer_claim_def claim_blocked_def ship_touch_def sample_ship_def
        ship_state_new_def u64_checked_succ_def u64_max_def Let_def)
  moreover have "review_step\<^sup>*\<^sup>* ?s ?s'"
    by (rule r_into_rtranclp, rule review_step.fence [OF surjective_pairing])
  ultimately show ?thesis using late_verdict_fenced by metis
qed


definition sample_request :: reviewer_claim_request where
  "sample_request = \<lparr>rq_repository = ''o/r'', rq_pr = 7, rq_head_sha = ''abc'', rq_reviewer = ''rev'',
     rq_claimed_at = 6, rq_deadline_at = 90, rq_now = 6\<rparr>"

theorem claim_published_or_revoked_witness:
  "map_option ss_active_reviewer_claim (ship_view (\<lambda>x. x)
     (snd (claim_reviewer_and_publish (\<lambda>x. x) (\<lambda>n. 10) sample_request (\<lambda>c. Inl ''offline'' :: string + unit) sample_store))
     ''o/r'' 7) = Some None"
proof -
  let ?run = "claim_reviewer_and_publish (\<lambda>x. x) (\<lambda>n. 10) sample_request (\<lambda>c. Inl ''offline'' :: string + unit) sample_store"
  have q: "rq_repository sample_request = ''o/r''" "rq_pr sample_request = 7" by (simp_all add: sample_request_def)
  have claim: "rc_epoch c = 1" if "claim_request (\<lambda>n. 10) sample_request (sample_ship ''o/r'') = Some (c, st)" for c st
    using that by (auto simp: claim_request_def claim_reviewer_def sample_request_def sample_ship_def ship_state_new_def
        u64_checked_succ_def Let_def split: if_splits)
  have "ss_active_reviewer_claim (sample_ship ''o/r'') = None" by (simp add: sample_ship_def ship_state_new_def)
  with claim_published_or_revoked [OF sample_inv _ _ surjective_pairing, of sample_request "\<lambda>n. 10" "\<lambda>c. Inl ''offline'' :: string + unit"]
  show ?thesis
    by (auto simp: q sample_view views_agree_def put_view_def u64_max_def dest!: claim)
qed

theorem archive_and_replace_moves_witness:
  "\<exists>fresh s'. archive_and_replace (\<lambda>x. x) ''20260101T000000Z'' 9 (sample_ship ''o/r'') None sample_store = (Inr fresh, s')
     \<and> bt_get (sf_archive s') (archive_path (repository_key (\<lambda>x. x) ''o/r'') 7 ''20260101T000000Z'') = Some (Good (sample_ship ''o/r''))
     \<and> ss_reviewer_claim_epoch fresh = 1"
  using archive_and_replace_moves [OF sample_inv, of "sample_ship ''o/r''" "sample_ship ''o/r''"] sample_view
  by (simp add: sample_ship_def ship_state_new_def u64_max_def) metis

theorem delete_if_matches_exact_witness:
  "\<exists>s'. delete_scoped_if_matches (\<lambda>x. x) ''o/r'' 7 (sample_ship ''o/r'') sample_store = (Inr True, s')
     \<and> ship_view (\<lambda>x. x) s' ''o/r'' 7 = None"
  using delete_if_matches_exact [OF sample_inv, of "''o/r''" 7 "sample_ship ''o/r''"] sample_view
  by (auto simp: views_agree_def put_view_def)

definition shared_number_store :: ship_store where
  "shared_number_store = snd (ship_save (\<lambda>x. x) (sample_ship ''x/y'') sample_store)"

theorem ambiguous_number_refused_witness:
  "ship_delete (\<lambda>x. x) 7 shared_number_store = (Inl (ambiguous 7), shared_number_store)"
proof -
  have "ship_view (\<lambda>x. x) shared_number_store ''o/r'' 7 = Some (sample_ship ''o/r'')"
    "ship_view (\<lambda>x. x) shared_number_store ''x/y'' 7 = Some (sample_ship ''x/y'')"
    "\<not> same_repository ''o/r'' ''x/y''" by code_simp+
  moreover have "store_inv (\<lambda>x. x) {''o/r'', ''x/y''} shared_number_store"
  proof -
    from ships.open_transaction [OF sample_inv, of "''x/y''" 7] obtain s1 where
      s1: "lock_pr_scoped (\<lambda>x. x) ''x/y'' 7 sample_store = (Inr (), s1)"
      "store_inv (\<lambda>x. x) {''o/r'', ''x/y''} s1" "store_locked (\<lambda>x. x) ''x/y'' 7 s1" by blast
    have r: "ss_repo (sample_ship ''x/y'') = ''x/y''" "ss_pr (sample_ship ''x/y'') = 7"
      by (simp_all add: sample_ship_def ship_state_new_def)
    with s1 ships.store_law [OF s1(2), of "sample_ship ''x/y''"] show ?thesis
      by (auto simp: shared_number_store_def ship_save_def)
  qed
  ultimately show ?thesis using ambiguous_number_refused by blast
qed

end
