(* ===== verification/Work_Item.thy ===== *)
theory Work_Item
  imports Queue_Request
begin

text \<open>
  Work items, the second half of \<open>src/src/ship_state.rs\<close>: records that let external agents hand work
  over, stored one file per key beside the ship states, with the repository slug test of
  \<open>src/src/record_identity.rs\<close>. The digest of a key's JSON (its file name) is an input; a file is
  an item or does not parse, with the parser's message; the work-item lock makes an operation one
  step, and reads and writes succeed.

  The lemmas show that updates are compare-and-set on the state version, and that the owner's epoch
  fences a superseded owner for good.
\<close>

section \<open>Records\<close>

record work_item_key =
  wk_repository :: string
  wk_base :: string
  wk_work_kind :: string
  wk_external_id :: string

record work_item_owner =
  wo_host :: string
  wo_session :: string
  wo_epoch :: u64
  wo_expires_at :: time
  wo_capability_version :: string

record work_item_checkpoint =
  wc_generation :: u64
  wc_head_or_input_digest :: string
  wc_completed_steps :: "string list"
  wc_next_action :: string
  wc_blockers :: "string list"
  wc_remote_receipt :: "string option"

record work_item =
  wi_schema_version :: u32
  wi_key :: work_item_key
  wi_generation :: u64
  wi_state_version :: u64
  wi_state :: string
  wi_protocol_version :: string
  wi_capability_version :: string
  wi_idempotency_key :: string
  wi_owner :: "work_item_owner option"
  wi_checkpoint :: "work_item_checkpoint option"
  wi_created_at :: time
  wi_updated_at :: time

definition work_item_schema_version :: u32 where
  "work_item_schema_version = 1"

section \<open>Validation\<close>

definition is_ascii_lowercase :: "char \<Rightarrow> bool" where
  "is_ascii_lowercase c = (97 \<le> (of_char c :: nat) \<and> (of_char c :: nat) \<le> 122)"

definition is_valid_repository_slug :: "string \<Rightarrow> bool" where
  "is_valid_repository_slug value =
     (case split_once ''/'' (canonical_repository value) of
        None \<Rightarrow> False
      | Some (owner, repository) \<Rightarrow>
          CHR ''/'' \<notin> set repository \<and> owner \<noteq> [] \<and> repository \<noteq> []
          \<and> list_all (\<lambda>b. is_ascii_lowercase b \<or> is_ascii_digit b \<or> b = CHR ''-'') owner
          \<and> list_all (\<lambda>b. is_ascii_lowercase b \<or> is_ascii_digit b \<or> b \<in> set ''-_.'') repository)"

definition key_field_ok :: "string \<Rightarrow> bool" where
  "key_field_ok value = (value \<noteq> [] \<and> \<not> any_control value \<and> trim value = value)"

definition validate_work_item_key :: "work_item_key \<Rightarrow> string + unit" where
  "validate_work_item_key key =
     (if \<not> is_valid_repository_slug (wk_repository key) \<or> wk_repository key \<noteq> canonical_repository (wk_repository key)
      then Inl ''work item repository must be a canonical owner/repository slug''
      else if \<not> list_all key_field_ok [wk_base key, wk_work_kind key, wk_external_id key]
      then Inl ''work item key fields must be non-empty and whitespace-free''
      else Inr ())"

definition validate_work_item_schema :: "work_item \<Rightarrow> string + unit" where
  "validate_work_item_schema item =
     (if wi_schema_version item \<noteq> work_item_schema_version
      then Inl (''unsupported work-item schema '' @ show_nat (unat (wi_schema_version item)))
      else validate_work_item_key (wi_key item))"

section \<open>The store\<close>

datatype work_item_file = Unparsed string | Item work_item

type_synonym work_items = "(string \<times> work_item_file) list"

definition get_unlocked_work_item :: "work_items \<Rightarrow> string \<Rightarrow> string + work_item option" where
  "get_unlocked_work_item w path = (case bt_get w path of
       None \<Rightarrow> Inr None
     | Some (Unparsed e) \<Rightarrow> Inl e
     | Some (Item item) \<Rightarrow> result_bind (validate_work_item_schema item) (\<lambda>_. Inr (Some item)))"

definition get_work_item :: "(work_item_key \<Rightarrow> string) \<Rightarrow> work_item_key \<Rightarrow> work_items \<Rightarrow> string + work_item option" where
  "get_work_item digest key w =
     result_bind (validate_work_item_key key) (\<lambda>_. get_unlocked_work_item w (digest key))"

text \<open>An operation returns the item it wrote or found, or an error with nothing written.\<close>

definition register_work_item ::
  "(work_item_key \<Rightarrow> string) \<Rightarrow> work_item_key \<Rightarrow> string \<Rightarrow> string \<Rightarrow> string \<Rightarrow> time \<Rightarrow> work_items
   \<Rightarrow> string + (work_item \<times> work_items)" where
  "register_work_item digest key protocol capability idempotency now w =
     result_bind (validate_work_item_key key) (\<lambda>_.
     result_bind (get_unlocked_work_item w (digest key)) (\<lambda>found. case found of
       Some existing \<Rightarrow>
         if wi_key existing \<noteq> key \<or> wi_protocol_version existing \<noteq> protocol
            \<or> wi_capability_version existing \<noteq> capability \<or> wi_idempotency_key existing \<noteq> idempotency
         then Inl ''work item identity or protocol mismatch'' else Inr (existing, w)
     | None \<Rightarrow>
         let item = \<lparr>wi_schema_version = work_item_schema_version, wi_key = key, wi_generation = 1,
               wi_state_version = 1, wi_state = ''planned'', wi_protocol_version = protocol,
               wi_capability_version = capability, wi_idempotency_key = idempotency, wi_owner = None,
               wi_checkpoint = None, wi_created_at = now, wi_updated_at = now\<rparr>
         in Inr (item, bt_insert (digest key) (Item item) w)))"

definition claim_epoch :: "time \<Rightarrow> work_item \<Rightarrow> string + u64" where
  "claim_epoch now item = (case wi_owner item of
       Some current \<Rightarrow> if now < wo_expires_at current then Inl ''work item is already claimed''
         else Inr (u64_saturating_succ (wo_epoch current))
     | None \<Rightarrow> Inr (wi_generation item))"

definition claim_work_item ::
  "(work_item_key \<Rightarrow> string) \<Rightarrow> work_item_key \<Rightarrow> work_item_owner \<Rightarrow> u64 \<Rightarrow> time \<Rightarrow> work_items
   \<Rightarrow> string + (work_item \<times> work_items)" where
  "claim_work_item digest key owner expected now w =
     result_bind (validate_work_item_key key) (\<lambda>_.
     result_bind (get_unlocked_work_item w (digest key)) (\<lambda>found. case found of
       None \<Rightarrow> Inl ''work item is not registered''
     | Some item \<Rightarrow>
         if wi_key item \<noteq> key then Inl ''work item identity mismatch''
         else result_bind (validate_work_item_schema item) (\<lambda>_.
           if wi_state_version item \<noteq> expected then Inl ''work item state version conflict''
           else if wo_capability_version owner \<noteq> wi_capability_version item
           then Inl ''work item owner capability mismatch''
           else result_bind (claim_epoch now item) (\<lambda>epoch.
             let item' = item\<lparr>wi_owner := Some (owner\<lparr>wo_epoch := epoch\<rparr>), wi_state := ''claimed'',
                   wi_state_version := u64_saturating_succ (wi_state_version item), wi_updated_at := now\<rparr>
             in Inr (item', bt_insert (digest key) (Item item') w)))))"

definition checkpoint_work_item ::
  "(work_item_key \<Rightarrow> string) \<Rightarrow> work_item_key \<Rightarrow> u64 \<Rightarrow> work_item_checkpoint \<Rightarrow> u64 \<Rightarrow> time \<Rightarrow> work_items
   \<Rightarrow> string + (work_item \<times> work_items)" where
  "checkpoint_work_item digest key epoch checkpoint expected now w =
     result_bind (validate_work_item_key key) (\<lambda>_.
     result_bind (get_unlocked_work_item w (digest key)) (\<lambda>found. case found of
       None \<Rightarrow> Inl ''work item is not registered''
     | Some item \<Rightarrow>
         if wi_key item \<noteq> key \<or> \<not> is_some_and (wi_owner item) (\<lambda>o'. wo_epoch o' = epoch)
         then Inl ''stale or missing work-item owner epoch''
         else result_bind (validate_work_item_schema item) (\<lambda>_.
           if wi_state_version item \<noteq> expected then Inl ''work item state version conflict''
           else if is_some_and (wi_owner item) (\<lambda>o'. wo_expires_at o' \<le> now)
           then Inl ''work item owner lease has expired''
           else if wc_generation checkpoint \<noteq> wi_generation item then Inl ''checkpoint generation is stale''
           else let item' = item\<lparr>wi_checkpoint := Some checkpoint, wi_state := ''checkpointed'',
                      wi_state_version := u64_saturating_succ (wi_state_version item), wi_updated_at := now\<rparr>
                in Inr (item', bt_insert (digest key) (Item item') w))))"

section \<open>Compare-and-set and fencing\<close>

definition stored :: "work_items \<Rightarrow> string \<Rightarrow> work_item option" where
  "stored w path = (case bt_get w path of Some (Item item) \<Rightarrow> Some item | _ \<Rightarrow> None)"

inductive work_step :: "(work_item_key \<Rightarrow> string) \<Rightarrow> work_items \<Rightarrow> work_items \<Rightarrow> bool"
  for digest :: "work_item_key \<Rightarrow> string" where
  register: "register_work_item digest key pv cv ik now w = Inr (item, w') \<Longrightarrow> work_step digest w w'"
| claim: "claim_work_item digest key ow v now w = Inr (item, w') \<Longrightarrow> work_step digest w w'"
| checkpoint: "checkpoint_work_item digest key e cp v now w = Inr (item, w') \<Longrightarrow> work_step digest w w'"

lemma get_unlocked_Inr:
  "get_unlocked_work_item w path = Inr found \<Longrightarrow> stored w path = found"
  by (auto simp: get_unlocked_work_item_def stored_def result_bind_Inr_iff split: option.splits work_item_file.splits)

lemma stored_insert: "bt_wf w \<Longrightarrow> stored (bt_insert path (Item item) w) = (stored w)(path \<mapsto> item)"
  by (auto simp: stored_def bt_get_insert fun_eq_iff)

lemma register_Inr:
  assumes "register_work_item digest key pv cv ik now w = Inr (item, w')"
  shows "w' = w \<or> stored w (digest key) = None \<and> w' = bt_insert (digest key) (Item item) w"
  using assms unfolding register_work_item_def result_bind_Inr_iff
  by (elim exE conjE, case_tac aa) (auto simp: Let_def dest: get_unlocked_Inr split: if_split_asm)

text \<open>A claim: the item found at the expected version, its owner replaced, everything else kept.\<close>

lemma claim_Inr:
  assumes "claim_work_item digest key ow v now w = Inr (item', w')"
  obtains item o' where "stored w (digest key) = Some item" "wi_state_version item = v" "wi_key item = key"
    "w' = bt_insert (digest key) (Item item') w" "wi_state_version item' = u64_saturating_succ v"
    "wi_key item' = key" "wi_owner item' = Some o'"
    "wi_owner item = None \<longrightarrow> wo_epoch o' = wi_generation item"
    "\<forall>c. wi_owner item = Some c \<longrightarrow> wo_expires_at c \<le> now \<and> wo_epoch o' = u64_saturating_succ (wo_epoch c)"
proof -
  from assms obtain item epoch where item: "get_unlocked_work_item w (digest key) = Inr (Some item)"
    and rest: "wi_key item = key" "wi_state_version item = v" "claim_epoch now item = Inr epoch"
      "item' = item\<lparr>wi_owner := Some (ow\<lparr>wo_epoch := epoch\<rparr>), wi_state := ''claimed'',
         wi_state_version := u64_saturating_succ (wi_state_version item), wi_updated_at := now\<rparr>"
      "w' = bt_insert (digest key) (Item item') w"
    unfolding claim_work_item_def result_bind_Inr_iff
    by (elim exE conjE, case_tac aa) (simp_all add: result_bind_Inr_iff Let_def split: if_split_asm, metis)
  from get_unlocked_Inr [OF item] rest show thesis
    by (intro that [of item "ow\<lparr>wo_epoch := epoch\<rparr>"]) (auto simp: claim_epoch_def not_less split: option.splits if_splits)
qed

lemma checkpoint_Inr:
  assumes "checkpoint_work_item digest key e cp v now w = Inr (item', w')"
  obtains item ow where "stored w (digest key) = Some item" "wi_state_version item = v" "wi_key item = key"
    "w' = bt_insert (digest key) (Item item') w" "wi_state_version item' = u64_saturating_succ v"
    "wi_key item' = key" "wi_owner item = Some ow" "wi_owner item' = Some ow" "wo_epoch ow = e"
    "now < wo_expires_at ow" "wi_checkpoint item' = Some cp" "wc_generation cp = wi_generation item"
proof -
  from assms obtain item where item: "get_unlocked_work_item w (digest key) = Inr (Some item)"
    and rest: "wi_key item = key" "is_some_and (wi_owner item) (\<lambda>o'. wo_epoch o' = e)" "wi_state_version item = v"
      "\<not> is_some_and (wi_owner item) (\<lambda>o'. wo_expires_at o' \<le> now)" "wc_generation cp = wi_generation item"
      "item' = item\<lparr>wi_checkpoint := Some cp, wi_state := ''checkpointed'',
                      wi_state_version := u64_saturating_succ (wi_state_version item), wi_updated_at := now\<rparr>"
      "w' = bt_insert (digest key) (Item item') w"
    by (auto simp: checkpoint_work_item_def result_bind_Inr_iff Let_def split: option.splits if_splits)
  from rest(2) obtain ow where "wi_owner item = Some ow" "wo_epoch ow = e"
    by (auto simp: is_some_and_def split: option.splits)
  with get_unlocked_Inr [OF item] rest show thesis
    by (intro that [of item ow]) (auto simp: is_some_and_def)
qed

text \<open>How an item changes under any step: its version never goes back, and its owner's epoch neither.\<close>

definition advanced :: "work_item \<Rightarrow> work_item \<Rightarrow> bool" where
  "advanced a b \<longleftrightarrow> a = b \<or> (wi_key b = wi_key a \<and> wi_state_version b = u64_saturating_succ (wi_state_version a)
     \<and> (\<forall>o'. wi_owner a = Some o' \<longrightarrow> (\<exists>o''. wi_owner b = Some o'' \<and>
            (o'' = o' \<or> wo_epoch o'' = u64_saturating_succ (wo_epoch o')))))"

lemma work_step_advanced:
  assumes "work_step digest w w'" "bt_wf w" "stored w path = Some a"
  shows "bt_wf w' \<and> (\<exists>b. stored w' path = Some b \<and> advanced a b)"
  using assms(1)
proof cases
  case (register key pv cv ik now item)
  from register_Inr [OF this] assms(2,3) show ?thesis
    by (auto simp: stored_insert bt_wf_insert advanced_def)
next
  case (claim key ow v now item')
  from claim_Inr [OF this] obtain item o' where "stored w (digest key) = Some item" "wi_state_version item = v"
    "wi_key item = key" "w' = bt_insert (digest key) (Item item') w" "wi_state_version item' = u64_saturating_succ v"
    "wi_key item' = key" "wi_owner item' = Some o'"
    "wi_owner item = None \<longrightarrow> wo_epoch o' = wi_generation item"
    "\<forall>c. wi_owner item = Some c \<longrightarrow> wo_expires_at c \<le> now \<and> wo_epoch o' = u64_saturating_succ (wo_epoch c)" .
  with assms(2,3) show ?thesis
    by (auto simp: stored_insert bt_wf_insert advanced_def split: option.splits)
next
  case (checkpoint key e cp v now item')
  from checkpoint_Inr [OF this] obtain item ow where "stored w (digest key) = Some item" "wi_state_version item = v"
    "wi_key item = key" "w' = bt_insert (digest key) (Item item') w" "wi_state_version item' = u64_saturating_succ v"
    "wi_key item' = key" "wi_owner item = Some ow" "wi_owner item' = Some ow" by metis
  with assms(2,3) show ?thesis
    by (auto simp: stored_insert bt_wf_insert advanced_def)
qed

lemma work_steps_monotone:
  assumes "(work_step digest)\<^sup>*\<^sup>* w w'" "bt_wf w" "stored w path = Some a"
  shows "bt_wf w' \<and> (\<exists>b. stored w' path = Some b
     \<and> min (wi_state_version a) u64_max \<le> wi_state_version b
     \<and> (\<forall>o'. wi_owner a = Some o' \<longrightarrow> (\<exists>o''. wi_owner b = Some o'' \<and> min (wo_epoch o') u64_max \<le> wo_epoch o'')))"
  using assms
proof (induction rule: rtranclp_induct)
  case base
  then show ?case by auto
next
  case (step y z)
  then obtain b where b: "stored y path = Some b" "bt_wf y" "min (wi_state_version a) u64_max \<le> wi_state_version b"
    and ow: "\<forall>o'. wi_owner a = Some o' \<longrightarrow> (\<exists>o''. wi_owner b = Some o'' \<and> min (wo_epoch o') u64_max \<le> wo_epoch o'')"
    by auto
  from work_step_advanced [OF step(2) b(2,1)] obtain c where c: "bt_wf z" "stored z path = Some c" "advanced b c" by auto
  have "min (wi_state_version a) u64_max \<le> wi_state_version c"
    using c(3) b(3) by (auto simp: advanced_def u64_saturating_succ_def)
  moreover have "\<exists>o''. wi_owner c = Some o'' \<and> min (wo_epoch o') u64_max \<le> wo_epoch o''"
    if "wi_owner a = Some o'" for o'
    using ow [rule_format, OF that] c(3) by (fastforce simp: advanced_def u64_saturating_succ_def)
  ultimately show ?case using c by auto
qed

text \<open>
  (C32) Work items change by compare-and-set under a fence. Once a claim has gone through at version
  \<open>v\<close>, whatever registrations, claims and checkpoints follow, no operation that still expects
  \<open>v\<close> goes through again; and no checkpoint under an epoch below the new owner's does, whatever
  version it expects. So of two agents that read the same version one wins, and an agent whose
  claim was taken over after its lease expired cannot write again.
\<close>

theorem work_item_fenced:
  assumes claim: "claim_work_item digest key ow v now w = Inr (item, w1)" and "bt_wf w" "v < u64_max"
    and later: "(work_step digest)\<^sup>*\<^sup>* w1 w2"
    and old: "e < wo_epoch (the (wi_owner item))" "wo_epoch (the (wi_owner item)) \<le> u64_max"
  shows "(\<forall>ow' now'. \<exists>err. claim_work_item digest key ow' v now' w2 = Inl err)
     \<and> (\<forall>e' cp now'. \<exists>err. checkpoint_work_item digest key e' cp v now' w2 = Inl err)
     \<and> (\<forall>v' cp now'. \<exists>err. checkpoint_work_item digest key e cp v' now' w2 = Inl err)"
proof -
  from claim_Inr [OF claim] obtain prev o' where
    w1: "w1 = bt_insert (digest key) (Item item) w" "wi_state_version item = u64_saturating_succ v"
    and o': "wi_owner item = Some o'" .
  have "stored w1 (digest key) = Some item" "bt_wf w1" using w1 \<open>bt_wf w\<close> by (simp_all add: stored_insert bt_wf_insert)
  from work_steps_monotone [OF later this(2,1)] w1(2) o' old \<open>v < u64_max\<close> obtain b o'' where
    b: "stored w2 (digest key) = Some b" "v < wi_state_version b" "wi_owner b = Some o''" "e < wo_epoch o''"
    by (auto simp: u64_saturating_succ_def)
  have "claim_work_item digest key ow' v now' w2 \<noteq> Inr x" for ow' now' x
    using b by (cases x) (auto elim!: claim_Inr)
  moreover have "checkpoint_work_item digest key e' cp v now' w2 \<noteq> Inr x" for e' cp now' x
    using b by (cases x) (auto elim!: checkpoint_Inr)
  moreover have "checkpoint_work_item digest key e cp v' now' w2 \<noteq> Inr x" for v' cp now' x
    using b by (cases x) (auto elim!: checkpoint_Inr)
  ultimately show ?thesis by (metis sum.exhaust)
qed

definition sample_key :: work_item_key where
  "sample_key = \<lparr>wk_repository = ''o/r'', wk_base = ''main'', wk_work_kind = ''repair'', wk_external_id = ''pr-7''\<rparr>"

definition sample_owner :: "time \<Rightarrow> work_item_owner" where
  "sample_owner t = \<lparr>wo_host = ''h'', wo_session = ''s'', wo_epoch = 0, wo_expires_at = t, wo_capability_version = ''c''\<rparr>"

definition sample_item :: work_item where
  "sample_item = \<lparr>wi_schema_version = 1, wi_key = sample_key, wi_generation = 1, wi_state_version = 2,
     wi_state = ''claimed'', wi_protocol_version = ''p'', wi_capability_version = ''c'', wi_idempotency_key = ''i'',
     wi_owner = Some (sample_owner 5), wi_checkpoint = None, wi_created_at = 0, wi_updated_at = 0\<rparr>"

lemma sample_valid: "validate_work_item_key sample_key = Inr ()"
  by code_simp

text \<open>A second agent takes over after the lease of epoch 0 ran out; the first one's checkpoint is refused.\<close>

theorem work_item_fenced_witness:
  "\<exists>item w1 err. claim_work_item (\<lambda>k. ''d'') sample_key (sample_owner 99) 2 7 [(''d'', Item sample_item)] = Inr (item, w1)
     \<and> checkpoint_work_item (\<lambda>k. ''d'') sample_key 0
          \<lparr>wc_generation = 1, wc_head_or_input_digest = ''h'', wc_completed_steps = [], wc_next_action = ''n'',
           wc_blockers = [], wc_remote_receipt = None\<rparr> 3 8 w1 = Inl err"
proof -
  define item where "item = sample_item\<lparr>wi_owner := Some ((sample_owner 99)\<lparr>wo_epoch := 1\<rparr>), wi_state := ''claimed'',
     wi_state_version := 3, wi_updated_at := 7\<rparr>"
  have k: "wi_key sample_item = sample_key" "wi_schema_version sample_item = 1" "wi_state_version sample_item = 2"
    "wi_capability_version sample_item = ''c''" "wi_owner sample_item = Some (sample_owner 5)"
    by (simp_all add: sample_item_def)
  have claim: "claim_work_item (\<lambda>k. ''d'') sample_key (sample_owner 99) 2 7 [(''d'', Item sample_item)]
      = Inr (item, bt_insert ''d'' (Item item) [(''d'', Item sample_item)])"
    by (simp add: claim_work_item_def sample_valid get_unlocked_work_item_def bt_get_def validate_work_item_schema_def
        work_item_schema_version_def k claim_epoch_def sample_owner_def u64_saturating_succ_def u64_max_def item_def Let_def)
  have "0 < wo_epoch (the (wi_owner item))" "wo_epoch (the (wi_owner item)) \<le> u64_max" "(2 :: u64) < u64_max"
    by (simp_all add: item_def u64_max_def)
  from work_item_fenced [OF claim _ this(3) rtranclp.rtrancl_refl this(1,2)] claim show ?thesis
    by (simp add: bt_wf_def)
qed

end
