(* ===== verification/Proof_Records.thy ===== *)
theory Proof_Records
  imports Shipyard_Prelude
begin

text \<open>
  The records of \<open>src/src/parallel_proof.rs\<close>: build-once, sharded test proof. This theory holds the
  error type, digests, the record types in the source's order and the field validators; the plan of
  the shards is \<open>Test_Plan\<close>, assignments and receipts are \<open>Shadow_Proof\<close>, their aggregation is
  \<open>Shadow_Aggregate\<close>.

  SHA-256, hexadecimal printing and the JSON encoder are inputs, bundled in the record
  \<open>proof_codec\<close>; the encoder takes a value of the datatype \<open>proof_value\<close>, one constructor for each
  thing the code serialises. Shard ids, attempts and versions are compared and printed only, and the
  counters are bounded before they are used, so they are naturals.
\<close>

section \<open>Errors and limits\<close>

text \<open>The last constructor is not a value of the source's type: it is a panic of the code that returns it.\<close>

datatype proof_error =
    UnsupportedSchemaVersion nat
  | InvalidDigest
  | InvalidField string
  | LimitExceeded string nat nat
  | NonCanonical string
  | UnknownTest string
  | InvalidPartition string
  | TopologyViolation string
  | BindingMismatch string
  | AuthenticationFailed
  | InvalidAttemptSequence string
  | ImmutableConflict string
  | MissingRecord string
  | CorruptRecord string
  | CrashInjected string
  | JsonError string
  | IoError string
  | Panicked string

type_synonym 'a proof_result = "proof_error + 'a"
type_synonym sha256 = string

definition proof_schema_version :: nat where "proof_schema_version = 1"
definition max_tests :: nat where "max_tests = 100000"
definition max_shards :: nat where "max_shards = 4096"
definition max_identifier_bytes :: nat where "max_identifier_bytes = 512"
definition max_capabilities :: nat where "max_capabilities = 256"
definition max_attempts_per_shard :: nat where "max_attempts_per_shard = 32"
definition max_attempt_records :: nat where "max_attempt_records = 16384"
definition max_relations :: nat where "max_relations = 1000000"
definition max_record_bytes :: nat where "max_record_bytes = 16 * 1024 * 1024"
definition max_payload_bytes :: nat where "max_payload_bytes = 16 * 1024 * 1024 - 4096"

text \<open>The outcome of an immutable write.\<close>

datatype write_outcome = Created | AlreadyPresent

section \<open>Tests and plans\<close>

datatype lock_scope = HostScope | FleetScope

instantiation lock_scope :: linorder
begin

definition less_eq_lock_scope :: "lock_scope \<Rightarrow> lock_scope \<Rightarrow> bool" where
  "less_eq_lock_scope a b = (a = HostScope \<or> b = FleetScope)"

definition less_lock_scope :: "lock_scope \<Rightarrow> lock_scope \<Rightarrow> bool" where
  "less_lock_scope a b = (a = HostScope \<and> b = FleetScope)"

instance
proof
  fix a b c :: lock_scope
  show "(a < b) = (a \<le> b \<and> \<not> b \<le> a)" by (cases a; cases b) (simp_all add: less_eq_lock_scope_def less_lock_scope_def)
  show "a \<le> a" by (cases a) (simp_all add: less_eq_lock_scope_def)
  show "a \<le> b \<Longrightarrow> b \<le> c \<Longrightarrow> a \<le> c" by (cases a; cases b; cases c) (simp_all add: less_eq_lock_scope_def)
  show "a \<le> b \<Longrightarrow> b \<le> a \<Longrightarrow> a = b" by (cases a; cases b) (simp_all add: less_eq_lock_scope_def)
  show "a \<le> b \<or> b \<le> a" by (cases a; cases b) (simp_all add: less_eq_lock_scope_def)
qed

end

text \<open>A lock claim is its name and scope, ordered as the derived \<open>Ord\<close> orders them.\<close>

type_synonym resource_lock = "string \<times> lock_scope"

record test_case =
  tc_id :: string
  tc_dependencies :: "string list"
  tc_fixture_setup :: "string list"
  tc_fixture_required :: "string list"
  tc_fixture_cleanup :: "string list"
  tc_run_serial :: bool
  tc_resource_locks :: "resource_lock list"
  tc_required_capabilities :: "string list"

record test_inventory =
  iv_schema_version :: nat
  iv_tests :: "test_case list"

datatype execution_mode = Parallel | FleetExclusive

record test_shard =
  sh_id :: nat
  sh_execution_mode :: execution_mode
  sh_test_ids :: "string list"

record shard_plan =
  pl_schema_version :: nat
  pl_inventory_digest :: sha256
  pl_total_tests :: nat
  pl_shards :: "test_shard list"

section \<open>The manifest\<close>

datatype proof_subject = PullRequest u64 | MergeGroup string

record source_identity =
  so_repository_id :: u64
  so_repository :: string
  so_subject :: proof_subject
  so_head_sha :: string
  so_tree_sha :: string

record build_identity =
  bu_contract_sha256 :: sha256
  bu_toolchain_sha256 :: sha256
  bu_target_triple :: string
  bu_profile :: string

record artifact_identity =
  ar_source_tree_sha :: string
  ar_build_contract_sha256 :: sha256
  ar_payload_sha256 :: sha256
  ar_layout_sha256 :: sha256
  ar_size_bytes :: u64

datatype artifact_trust_class = TrustedController | UntrustedContributor

datatype execution_boundary = TrustedHost | DisposableGuest

record trust_identity =
  tr_producer_identity_sha256 :: sha256
  tr_image_sha256 :: sha256
  tr_policy_sha256 :: sha256
  tr_artifact_class :: artifact_trust_class
  tr_execution_boundary :: execution_boundary
  tr_network_enabled :: bool
  tr_writable_host_mounts :: bool

record proof_manifest =
  ma_schema_version :: nat
  ma_shadow_only :: bool
  ma_source :: source_identity
  ma_build :: build_identity
  ma_artifact :: artifact_identity
  ma_trust :: trust_identity
  ma_inventory_digest :: sha256
  ma_plan_digest :: sha256

section \<open>Assignments, dispositions and receipts\<close>

record authenticated_worker =
  wk_host_id :: string
  wk_identity_sha256 :: sha256
  wk_capabilities :: "string list"
  wk_session_generation :: u64

record controller_key =
  ck_id :: string
  ck_secret :: string

record assignment_claims =
  ac_schema_version :: nat
  ac_manifest_digest :: sha256
  ac_inventory_digest :: sha256
  ac_plan_digest :: sha256
  ac_artifact_sha256 :: sha256
  ac_shard_id :: nat
  ac_shard_digest :: sha256
  ac_attempt :: nat
  ac_fence :: u64
  ac_host_id :: string
  ac_worker_identity_sha256 :: sha256
  ac_capabilities :: "string list"
  ac_session_generation :: u64
  ac_execution_mode :: execution_mode
  ac_execution_boundary :: execution_boundary

record controller_assignment =
  as_claims :: assignment_claims
  as_controller_key_id :: string
  as_authentication :: sha256

datatype test_outcome_status = TestPassed | TestFailed | TestNotRun

record test_outcome =
  oc_test_id :: string
  oc_status :: test_outcome_status
  oc_duration_ms :: u64

record worker_report =
  wr_schema_version :: nat
  wr_assignment_digest :: sha256
  wr_observed_artifact_sha256 :: sha256
  wr_observed_build_contract_sha256 :: sha256
  wr_observed_head_sha :: string
  wr_observed_tree_sha :: string
  wr_outcomes :: "test_outcome list"
  wr_log_sha256 :: sha256

record controller_observation =
  ob_started_at_ms :: u64
  ob_completed_at_ms :: u64
  ob_artifact_verified :: bool
  ob_execution_boundary :: execution_boundary
  ob_guest_teardown_confirmed :: bool

datatype disposition_kind =
    FencedBeforeStart
  | Executed u64 u64 execution_boundary bool

record attempt_disposition =
  di_schema_version :: nat
  di_manifest_digest :: sha256
  di_assignment_digest :: sha256
  di_shard_id :: nat
  di_attempt :: nat
  di_fence :: u64
  di_kind :: disposition_kind
  di_controller_key_id :: string
  di_authentication :: sha256

datatype receipt_status = ReceiptPassed | ReceiptFailed

record shard_receipt =
  sr_schema_version :: nat
  sr_manifest_digest :: sha256
  sr_inventory_digest :: sha256
  sr_plan_digest :: sha256
  sr_assignment_digest :: sha256
  sr_disposition_digest :: sha256
  sr_artifact_sha256 :: sha256
  sr_shard_id :: nat
  sr_attempt :: nat
  sr_fence :: u64
  sr_host_id :: string
  sr_worker_identity_sha256 :: sha256
  sr_session_generation :: u64
  sr_execution_mode :: execution_mode
  sr_execution_boundary :: execution_boundary
  sr_outcomes :: "test_outcome list"
  sr_outcomes_digest :: sha256
  sr_log_sha256 :: sha256
  sr_started_at_ms :: u64
  sr_completed_at_ms :: u64
  sr_status :: receipt_status
  sr_artifact_verified :: bool
  sr_guest_teardown_confirmed :: bool
  sr_controller_key_id :: string
  sr_acceptance_authentication :: sha256

datatype shadow_status =
    Passed
  | Incomplete "nat list"
  | Failed "nat list"
  | IncompleteAndFailed "nat list" "nat list"

record shadow_aggregate =
  ag_schema_version :: nat
  ag_manifest_digest :: sha256
  ag_inventory_digest :: sha256
  ag_plan_digest :: sha256
  ag_active_assignment_digests :: "sha256 list"
  ag_attempt_disposition_digests :: "sha256 list"
  ag_receipt_digests :: "sha256 list"
  ag_status :: shadow_status

section \<open>Serialisation and digests\<close>

text \<open>
  What the code encodes. The last two are a record without its authentication field, which the
  encoder is given as the empty string.
\<close>

datatype proof_value =
    TestsValue "test_case list"
  | InventoryValue test_inventory
  | AssignmentsValue "string list list"
  | ShardValue test_shard
  | PlanValue shard_plan
  | ManifestValue proof_manifest
  | ClaimsValue assignment_claims
  | AssignmentValue controller_assignment
  | DispositionValue attempt_disposition
  | OutcomesValue "test_outcome list"
  | ReceiptValue shard_receipt
  | ReportValue worker_report
  | AggregateValue shadow_aggregate
  | CorpusValue "controller_assignment list" "attempt_disposition list" "shard_receipt list"
  | UnsignedDisposition attempt_disposition
  | UnsignedReceipt shard_receipt

record proof_codec =
  pc_digest :: "string \<Rightarrow> string"
  pc_hex :: "string \<Rightarrow> string"
  pc_json :: "proof_value \<Rightarrow> string"

text \<open>\<open>u64::to_be_bytes\<close>.\<close>

fun be_bytes :: "nat \<Rightarrow> nat \<Rightarrow> string" where
  "be_bytes 0 n = []"
| "be_bytes (Suc k) n = be_bytes k (n div 256) @ [char_of (n mod 256)]"

definition framed_digest :: "proof_codec \<Rightarrow> string \<Rightarrow> string \<Rightarrow> sha256" where
  "framed_digest cd domain bytes =
     pc_hex cd (pc_digest cd (be_bytes 8 (length domain) @ domain @ be_bytes 8 (length bytes) @ bytes))"

definition canonical_digest :: "proof_codec \<Rightarrow> string \<Rightarrow> proof_value \<Rightarrow> sha256" where
  "canonical_digest cd domain v = framed_digest cd domain (pc_json cd v)"

definition ensure_serialized_bound :: "proof_codec \<Rightarrow> string \<Rightarrow> proof_value \<Rightarrow> unit proof_result" where
  "ensure_serialized_bound cd field v =
     (if max_payload_bytes < length (pc_json cd v)
      then Inl (LimitExceeded field max_payload_bytes (max_payload_bytes + 1)) else Inr ())"

section \<open>Field validation\<close>

definition validate_version :: "nat \<Rightarrow> unit proof_result" where
  "validate_version version =
     (if version = proof_schema_version then Inr () else Inl (UnsupportedSchemaVersion version))"

definition validate_identifier :: "string \<Rightarrow> string \<Rightarrow> unit proof_result" where
  "validate_identifier field value =
     (if value = [] \<or> trim value \<noteq> value \<or> max_identifier_bytes < length value \<or> any_control value
      then Inl (InvalidField field) else Inr ())"

definition is_lower_hex :: "char \<Rightarrow> bool" where
  "is_lower_hex b = (is_ascii_digit b \<or> (97 \<le> (of_char b :: nat) \<and> (of_char b :: nat) \<le> 102))"

definition sha256_parse :: "string \<Rightarrow> sha256 proof_result" where
  "sha256_parse value = (if length value = 64 \<and> list_all is_lower_hex value then Inr value else Inl InvalidDigest)"

definition validate_git_sha :: "string \<Rightarrow> string \<Rightarrow> unit proof_result" where
  "validate_git_sha field value =
     (if (length value = 40 \<or> length value = 64) \<and> list_all is_lower_hex value
      then Inr () else Inl (InvalidField field))"

definition ensure_count :: "string \<Rightarrow> nat \<Rightarrow> nat \<Rightarrow> nat \<Rightarrow> unit proof_result" where
  "ensure_count field found minimum maximum =
     (if found < minimum then Inl (InvalidField field)
      else if maximum < found then Inl (LimitExceeded field maximum found) else Inr ())"

fun strictly_sorted :: "string list \<Rightarrow> bool" where
  "strictly_sorted (x # y # zs) = (x < y \<and> strictly_sorted (y # zs))"
| "strictly_sorted _ = True"

fun reject_adjacent_duplicates :: "string \<Rightarrow> string list \<Rightarrow> unit proof_result" where
  "reject_adjacent_duplicates field (x # y # zs) =
     (if x = y then Inl (NonCanonical field) else reject_adjacent_duplicates field (y # zs))"
| "reject_adjacent_duplicates field _ = Inr ()"

text \<open>A loop whose body only checks: it stops at the first error.\<close>

fun check_all :: "('a \<Rightarrow> unit proof_result) \<Rightarrow> 'a list \<Rightarrow> unit proof_result" where
  "check_all f [] = Inr ()"
| "check_all f (x # xs) = result_bind (f x) (\<lambda>_. check_all f xs)"

definition validate_sorted_identifiers :: "string \<Rightarrow> string list \<Rightarrow> unit proof_result" where
  "validate_sorted_identifiers field values =
     (if max_relations < length values then Inl (LimitExceeded field max_relations (length values))
      else result_bind (check_all (validate_identifier field) values) (\<lambda>_.
        if strictly_sorted values then Inr () else Inl (NonCanonical field)))"

lemma check_all_Inr [simp]: "check_all f xs = Inr () \<longleftrightarrow> (\<forall>x \<in> set xs. f x = Inr ())"
  by (induction xs) (auto simp: result_bind_Inr_iff)

lemma strictly_sorted_iff: "strictly_sorted xs \<longleftrightarrow> sorted_wrt (<) xs"
proof (induction xs rule: strictly_sorted.induct)
  case (1 x y zs)
  then show ?case by (auto dest: less_trans)
qed auto

lemma strictly_sorted_distinct: "strictly_sorted xs \<Longrightarrow> sorted xs \<and> distinct xs"
  by (simp add: strictly_sorted_iff strict_sorted_iff)

lemma reject_adjacent_duplicates_Inr:
  "sorted xs \<Longrightarrow> reject_adjacent_duplicates field xs = Inr () \<longleftrightarrow> distinct xs"
proof (induction xs rule: reject_adjacent_duplicates.induct)
  case (1 field x y zs)
  then show ?case by auto
qed auto

lemma ensure_count_Inr [simp]: "ensure_count field n lo hi = Inr () \<longleftrightarrow> lo \<le> n \<and> n \<le> hi"
  by (simp add: ensure_count_def)

lemma ensure_serialized_bound_Inr [simp]:
  "ensure_serialized_bound cd field v = Inr () \<longleftrightarrow> length (pc_json cd v) \<le> max_payload_bytes"
  by (simp add: ensure_serialized_bound_def)

lemma validate_version_Inr [simp]: "validate_version v = Inr () \<longleftrightarrow> v = proof_schema_version"
  by (simp add: validate_version_def)

end
