(* ===== verification/Canary_Job.thy ===== *)
theory Canary_Job
  imports Proof_Records
begin

text \<open>
  Custody of canary jobs, \<open>src/src/parallel_proof_canary_job/\<close> (\<open>model.rs\<close>, \<open>store.rs\<close>, \<open>lifecycle.rs\<close>):
  an approved job is recorded, launched at most once, and followed through a hash-chained list of
  immutable receipts to one terminal receipt; with the publication rule of
  \<open>src/src/immutable_store.rs\<close> (a record is written once, the same bytes again are accepted, other
  bytes conflict).

  SHA-256 and the JSON encoder and decoder are inputs, bundled in a record. A file of the store is
  readable as a value of its type or not, with the decoder's message; two values have the same bytes
  when they are equal. The logical keys of the records differ in their suffix, so each kind is a map
  of its own. Sequence numbers, counts and sizes are naturals: the job's own bounds keep them far
  below 32 bits. File-system failures are left out.

  The lemmas show that a job is launched at most once whatever other processes do in between, that a
  loaded chain follows the life cycle and is closed by its terminal receipt, that success needs the
  stored response of this very launch, and that an acknowledged wake is not delivered again.
\<close>

section \<open>The job\<close>

record canary_operation =
  co_repository_id :: u64
  co_repository :: string
  co_target :: string
  co_target_triple :: string
  co_builder_host_id :: string
  co_worker_host_id :: string
  co_manifest_sha256 :: sha256
  co_request_sha256 :: sha256
  co_release_sha256 :: sha256
  co_builder_session_generation :: u64
  co_worker_session_generation :: u64
  co_cache_authority_sha256 :: sha256
  co_storage_authority_sha256 :: sha256
  co_artifact_bytes_total :: u64
  co_invocation_authority_sha256 :: sha256
  co_adapter_executable_sha256 :: sha256
  co_worker_executable_sha256 :: sha256

record canary_owner =
  cw_controller_id :: string
  cw_controller_incarnation :: string
  cw_approval_sha256 :: sha256

record success_predicate =
  sp_required_exit_code :: int
  sp_artifact_schema_version :: nat
  sp_max_artifact_bytes :: nat

record cancellation_policy =
  cn_grace_ms :: u64
  cn_cancel_at_deadline :: bool

record wake_predicate =
  wp_on_success :: bool
  wp_on_actionable_failure :: bool

record log_policy =
  lp_segment_bytes :: nat
  lp_max_segments :: nat

record canary_job =
  cj_schema_version :: nat
  cj_job_id :: string
  cj_correlation_id :: string
  cj_owner :: canary_owner
  cj_operation :: canary_operation
  cj_approved_at_ms :: u64
  cj_deadline_at_ms :: u64
  cj_heartbeat_interval_ms :: u64
  cj_heartbeat_timeout_ms :: u64
  cj_max_heartbeat_receipts :: nat
  cj_success :: success_predicate
  cj_cancellation :: cancellation_policy
  cj_wake :: wake_predicate
  cj_logs :: log_policy

record process_identity =
  pi_pid :: nat
  pi_tree_id :: string
  pi_birth_token :: string
  pi_os_start_identity_sha256 :: sha256
  pi_launch_nonce_sha256 :: sha256
  pi_executable_sha256 :: sha256
  pi_launched_at_ms :: u64

record canary_artifact =
  cf_schema_version :: nat
  cf_operation_sha256 :: sha256
  cf_content_sha256 :: sha256
  cf_bytes :: nat

datatype delivery_mode = FullTransfer | VerifiedPrefixResume | ImmutableObjectReuse

record interrupted_transfer =
  it_interrupted_partial_sha256 :: sha256
  it_verified_prefix_sha256 :: sha256
  it_bytes_before_interruption :: u64
  it_verified_resume_offset_bytes :: u64
  it_bytes_after_resume :: u64

record artifact_delivery =
  ad_mode :: delivery_mode
  ad_artifact_bytes_total :: u64
  ad_artifact_bytes_reused :: u64
  ad_artifact_bytes_transferred :: u64
  ad_interruption :: "interrupted_transfer option"

text \<open>The fields of the observation that the validation reads; \<open>'c\<close> is the recorded cache use.\<close>

record 'c execution_observation =
  eo_delivery :: artifact_delivery
  eo_setup_ms :: u64
  eo_transfer_ms :: u64
  eo_verification_ms :: u64
  eo_dispatch_ms :: u64
  eo_shard_execution_ms :: u64
  eo_worker_active_ms :: u64
  eo_submit_to_receipt_ms :: u64
  eo_caches :: "'c list"

record 'c canary_response =
  cr_schema_version :: nat
  cr_operation_sha256 :: sha256
  cr_job_sha256 :: sha256
  cr_launch_nonce_sha256 :: sha256
  cr_observation :: "'c execution_observation"

datatype process_observation =
    Alive process_identity
  | Exited process_identity "int option" u64 "canary_artifact option"
  | Missing
  | IdentityMismatch

datatype cancellation_observation = Terminated | StillAlive | CancelMissing

record cancellation_request =
  cq_job_sha256 :: sha256
  cq_controller_id :: string
  cq_approval_sha256 :: sha256
  cq_requested_at_ms :: u64

record wake_acknowledgement =
  wa_job_sha256 :: sha256
  wa_receipt_sha256 :: sha256
  wa_controller_id :: string
  wa_approval_sha256 :: sha256
  wa_acknowledged_at_ms :: u64

datatype terminal_outcome =
  Succeeded | Failed | Cancelled | CancelledBeforeLaunch | CancellationUncertain | Lost | HeartbeatLimit

datatype receipt_state =
    Prepared sha256
  | Launching sha256 u64
  | Running process_identity
  | Heartbeat process_identity u64
  | CancellationRequested process_identity sha256 u64
  | CancellationRequestedBeforeIdentity sha256 sha256 u64
  | Terminal terminal_outcome "process_identity option" "canary_artifact option" "sha256 option" u64

record canary_receipt =
  re_schema_version :: nat
  re_job_sha256 :: sha256
  re_sequence :: nat
  re_previous_receipt_sha256 :: "sha256 option"
  re_receipt :: receipt_state

record canary_snapshot =
  sn_job :: canary_job
  sn_receipts :: "canary_receipt list"

record canary_transition =
  ct_snapshot :: canary_snapshot
  ct_wake :: bool
  ct_wake_receipt_sequence :: "nat option"
  ct_retryable_failure_sha256 :: "sha256 option"
  ct_launched :: bool

text \<open>SHA-256 of bytes, and the JSON bytes of what is hashed or stored.\<close>

record 'c canary_codec =
  cd_sha :: "string \<Rightarrow> sha256"
  cd_operation :: "canary_operation \<Rightarrow> string"
  cd_job :: "canary_job \<Rightarrow> string"
  cd_nonce :: "sha256 \<Rightarrow> string \<Rightarrow> string"
  cd_receipt :: "canary_receipt \<Rightarrow> string"
  cd_request :: "cancellation_request \<Rightarrow> string"
  cd_text :: "string \<Rightarrow> string"
  cd_response :: "'c canary_response \<Rightarrow> string"
  cd_read_response :: "string \<Rightarrow> string + 'c canary_response"

record backend =
  be_launch :: "canary_job \<Rightarrow> sha256 \<Rightarrow> u64 \<Rightarrow> string + process_identity"
  be_discover :: "canary_job \<Rightarrow> sha256 \<Rightarrow> string + process_observation"
  be_observe :: "canary_job \<Rightarrow> process_identity \<Rightarrow> string + process_observation"
  be_cancel :: "canary_job \<Rightarrow> process_identity \<Rightarrow> u64 \<Rightarrow> string + cancellation_observation"

definition domain_digest :: "'c canary_codec \<Rightarrow> string \<Rightarrow> string \<Rightarrow> sha256" where
  "domain_digest cd domain json = cd_sha cd (domain @ [CHR 0x00] @ json)"

section \<open>Validation\<close>

definition id_byte :: "char \<Rightarrow> bool" where
  "id_byte b = (is_ascii_alphanumeric b \<or> b \<in> set ''-_.:/'')"

definition validate_id :: "string \<Rightarrow> string \<Rightarrow> unit proof_result" where
  "validate_id value field =
     (if value = [] \<or> 160 < length value \<or> \<not> list_all id_byte value then Inl (InvalidField field) else Inr ())"

definition operation_validate :: "canary_operation \<Rightarrow> unit proof_result" where
  "operation_validate op =
     (if co_repository_id op = 0 \<or> count_list (co_repository op) (CHR ''/'') \<noteq> 1
         \<or> prefix ''/'' (co_repository op) \<or> suffix ''/'' (co_repository op)
      then Inl (InvalidField ''canary job repository'')
      else result_bind (validate_id (co_repository op) ''canary job repository'') (\<lambda>_.
        result_bind (validate_id (co_target op) ''canary job target'') (\<lambda>_.
        result_bind (validate_id (co_target_triple op) ''canary job target triple'') (\<lambda>_.
        result_bind (validate_id (co_builder_host_id op) ''canary job builder host'') (\<lambda>_.
        result_bind (validate_id (co_worker_host_id op) ''canary job worker host'') (\<lambda>_.
          if co_builder_host_id op = co_worker_host_id op \<or> co_builder_session_generation op = 0
             \<or> co_worker_session_generation op = 0 \<or> co_artifact_bytes_total op = 0
          then Inl (InvalidField ''canary job distinct hosts'') else Inr ()))))))"

definition operation_digest :: "'c canary_codec \<Rightarrow> canary_operation \<Rightarrow> sha256 proof_result" where
  "operation_digest cd op = result_bind (operation_validate op) (\<lambda>_.
     Inr (domain_digest cd ''shipyard.canary-job.operation.v1'' (cd_operation cd op)))"

definition max_record_bytes :: nat where "max_record_bytes = 1024 * 1024"
definition max_input_bytes :: nat where "max_input_bytes = 4 * 1024 * 1024"
definition max_heartbeats :: nat where "max_heartbeats = 128"
definition max_log_segments :: nat where "max_log_segments = 32"
definition max_log_segment_bytes :: nat where "max_log_segment_bytes = 256 * 1024"

definition job_validate :: "'c canary_codec \<Rightarrow> canary_job \<Rightarrow> unit proof_result" where
  "job_validate cd job =
     (if cj_schema_version job \<notin> {1, 3} then Inl (UnsupportedSchemaVersion (cj_schema_version job))
      else result_bind (validate_id (cj_job_id job) ''canary job id'') (\<lambda>_.
        result_bind (validate_id (cj_correlation_id job) ''canary correlation id'') (\<lambda>_.
        result_bind (validate_id (cw_controller_id (cj_owner job)) ''canary controller id'') (\<lambda>_.
        result_bind (validate_id (cw_controller_incarnation (cj_owner job)) ''canary controller incarnation'') (\<lambda>_.
          if cj_approved_at_ms job = 0 \<or> cj_deadline_at_ms job \<le> cj_approved_at_ms job
             \<or> cj_heartbeat_interval_ms job = 0 \<or> cj_heartbeat_timeout_ms job < cj_heartbeat_interval_ms job
             \<or> cj_max_heartbeat_receipts job = 0 \<or> max_heartbeats < cj_max_heartbeat_receipts job
             \<or> sp_artifact_schema_version (cj_success job) = 0 \<or> sp_max_artifact_bytes (cj_success job) = 0
             \<or> max_record_bytes < sp_max_artifact_bytes (cj_success job)
             \<or> lp_segment_bytes (cj_logs job) = 0 \<or> max_log_segment_bytes < lp_segment_bytes (cj_logs job)
             \<or> lp_max_segments (cj_logs job) = 0 \<or> max_log_segments < lp_max_segments (cj_logs job)
             \<or> cn_grace_ms (cj_cancellation job) = 0
          then Inl (InvalidField ''canary job policy'')
          else result_bind (operation_validate (cj_operation job)) (\<lambda>_.
            result_bind (operation_digest cd (cj_operation job)) (\<lambda>_. Inr ())))))))"

definition job_digest :: "'c canary_codec \<Rightarrow> canary_job \<Rightarrow> sha256 proof_result" where
  "job_digest cd job = result_bind (job_validate cd job) (\<lambda>_. Inr (domain_digest cd
     (if cj_schema_version job = 1 then ''shipyard.canary-job.envelope.v1'' else ''shipyard.canary-job.envelope.v3'')
     (cd_job cd job)))"

definition process_validate :: "canary_job \<Rightarrow> sha256 \<Rightarrow> process_identity \<Rightarrow> unit proof_result" where
  "process_validate job nonce p =
     result_bind (validate_id (pi_tree_id p) ''canary process tree id'') (\<lambda>_.
     result_bind (validate_id (pi_birth_token p) ''canary process birth token'') (\<lambda>_.
       if pi_pid p = 0 \<or> pi_launched_at_ms p < cj_approved_at_ms job \<or> cj_deadline_at_ms job \<le> pi_launched_at_ms p
          \<or> pi_launch_nonce_sha256 p \<noteq> nonce
          \<or> pi_executable_sha256 p \<noteq> co_worker_executable_sha256 (cj_operation job)
       then Inl (BindingMismatch ''canary process identity'') else Inr ()))"

text \<open>\<open>checked_add\<close> of two 64-bit counts.\<close>

definition u64_checked_add :: "u64 \<Rightarrow> u64 \<Rightarrow> u64 option" where
  "u64_checked_add a b = (if a + b \<le> u64_max then Some (a + b) else None)"

definition validate_distributed_observation :: "u64 \<Rightarrow> 'c execution_observation \<Rightarrow> unit proof_result" where
  "validate_distributed_observation expected ob =
     (let d = eo_delivery ob in
      if ad_artifact_bytes_total d \<noteq> expected
         \<or> u64_checked_add (ad_artifact_bytes_reused d) (ad_artifact_bytes_transferred d) \<noteq> Some expected
         \<or> eo_submit_to_receipt_ms ob = 0 \<or> eo_worker_active_ms ob < eo_shard_execution_ms ob
      then Inl (BindingMismatch ''canary typed response counters'')
      else if (case (ad_mode d, ad_interruption d) of
             (FullTransfer, None) \<Rightarrow> ad_artifact_bytes_reused d = 0 \<and> ad_artifact_bytes_transferred d = expected
           | (ImmutableObjectReuse, None) \<Rightarrow> ad_artifact_bytes_reused d = expected \<and> ad_artifact_bytes_transferred d = 0
           | (VerifiedPrefixResume, Some i) \<Rightarrow>
               it_verified_resume_offset_bytes i = ad_artifact_bytes_reused d
               \<and> it_verified_resume_offset_bytes i \<le> it_bytes_before_interruption i
               \<and> it_bytes_after_resume i = ad_artifact_bytes_transferred d
               \<and> 0 < it_verified_resume_offset_bytes i \<and> it_verified_resume_offset_bytes i < expected
           | _ \<Rightarrow> False)
      then Inr () else Inl (InvalidField ''canary typed response delivery''))"

definition response_validate :: "'c canary_codec \<Rightarrow> canary_job \<Rightarrow> sha256 \<Rightarrow> 'c canary_response \<Rightarrow> unit proof_result" where
  "response_validate cd job nonce r =
     (if cr_schema_version r \<noteq> sp_artifact_schema_version (cj_success job)
      then Inl (BindingMismatch ''canary response identity'')
      else result_bind (operation_digest cd (cj_operation job)) (\<lambda>od.
        if cr_operation_sha256 r \<noteq> od then Inl (BindingMismatch ''canary response identity'')
        else result_bind (job_digest cd job) (\<lambda>jd.
          if cr_job_sha256 r \<noteq> jd \<or> cr_launch_nonce_sha256 r \<noteq> nonce
          then Inl (BindingMismatch ''canary response identity'')
          else validate_distributed_observation (co_artifact_bytes_total (cj_operation job)) (cr_observation r))))"

definition receipt_schema_version :: nat where "receipt_schema_version = 1"

definition receipt_digest :: "'c canary_codec \<Rightarrow> canary_receipt \<Rightarrow> sha256 proof_result" where
  "receipt_digest cd r =
     (if re_schema_version r \<noteq> receipt_schema_version
         \<or> (re_sequence r = 0) \<noteq> (re_previous_receipt_sha256 r = None)
      then Inl (CorruptRecord ''canary job receipt chain'')
      else Inr (domain_digest cd ''shipyard.canary-job.receipt.v1'' (cd_receipt cd r)))"

fun is_terminal_state :: "receipt_state \<Rightarrow> bool" where
  "is_terminal_state (Terminal _ _ _ _ _) = True"
| "is_terminal_state _ = False"

fun is_prepared :: "receipt_state \<Rightarrow> bool" where
  "is_prepared (Prepared _) = True"
| "is_prepared _ = False"

definition latest :: "canary_snapshot \<Rightarrow> canary_receipt" where
  "latest s = last (sn_receipts s)"

definition snapshot_terminal :: "canary_snapshot \<Rightarrow> bool" where
  "snapshot_terminal s = is_terminal_state (re_receipt (latest s))"

fun receipt_process :: "receipt_state \<Rightarrow> process_identity option" where
  "receipt_process (Running p) = Some p"
| "receipt_process (Heartbeat p _) = Some p"
| "receipt_process (CancellationRequested p _ _) = Some p"
| "receipt_process _ = None"

fun receipt_observed_at_ms :: "receipt_state \<Rightarrow> u64 option" where
  "receipt_observed_at_ms (Launching _ t) = Some t"
| "receipt_observed_at_ms (Running p) = Some (pi_launched_at_ms p)"
| "receipt_observed_at_ms (Heartbeat _ t) = Some t"
| "receipt_observed_at_ms (CancellationRequested _ _ t) = Some t"
| "receipt_observed_at_ms (CancellationRequestedBeforeIdentity _ _ t) = Some t"
| "receipt_observed_at_ms _ = None"

fun launch_claimed_at_ms :: "receipt_state \<Rightarrow> u64 option" where
  "launch_claimed_at_ms (Launching _ t) = Some t"
| "launch_claimed_at_ms _ = None"

fun prepared_nonce :: "receipt_state \<Rightarrow> sha256 option" where
  "prepared_nonce (Prepared n) = Some n"
| "prepared_nonce _ = None"

definition last_state :: "canary_receipt list \<Rightarrow> receipt_state option" where
  "last_state rs = (if rs = [] then None else Some (re_receipt (last rs)))"

definition required_nonce :: "sha256 option \<Rightarrow> sha256 proof_result" where
  "required_nonce nonce = ok_or nonce (CorruptRecord ''canary launch nonce'')"

definition corrupt :: "string \<Rightarrow> 'a proof_result" where
  "corrupt message = Inl (CorruptRecord message)"

definition corrupt_unless :: "bool \<Rightarrow> string \<Rightarrow> unit proof_result" where
  "corrupt_unless ok message = (if ok then Inr () else corrupt message)"

fun follows_launch_claim :: "receipt_state option \<Rightarrow> bool" where
  "follows_launch_claim (Some (Launching _ _)) = True"
| "follows_launch_claim (Some (CancellationRequestedBeforeIdentity _ _ _)) = True"
| "follows_launch_claim _ = False"

text \<open>The latest receipt, from the end, that says something: \<open>iter().rev().find_map\<close>.\<close>

definition latest_of :: "(receipt_state \<Rightarrow> 'a option) \<Rightarrow> canary_receipt list \<Rightarrow> 'a option" where
  "latest_of f rs = find_map (\<lambda>r. f (re_receipt r)) (rev rs)"

definition terminal_semantics ::
  "canary_job \<Rightarrow> canary_receipt list \<Rightarrow> terminal_outcome \<Rightarrow> process_identity option
   \<Rightarrow> canary_artifact option \<Rightarrow> u64 \<Rightarrow> bool" where
  "terminal_semantics job previous outcome process artifact completed =
     (let prior_process = latest_of receipt_process previous;
          claimed = follows_launch_claim (last_state previous)
      in unwrap_or (latest_of receipt_observed_at_ms previous) (cj_approved_at_ms job) \<le> completed
         \<and> (outcome = Succeeded) = (artifact \<noteq> None)
         \<and> (outcome \<in> {Succeeded, Cancelled, CancellationUncertain, HeartbeatLimit} \<longrightarrow> process \<noteq> None)
         \<and> (prior_process \<noteq> None \<longrightarrow> process = prior_process)
         \<and> (prior_process = None \<and> process \<noteq> None \<longrightarrow> claimed)
         \<and> (claimed \<longrightarrow> (case process of None \<Rightarrow> True
              | Some p \<Rightarrow> latest_of launch_claimed_at_ms previous = Some (pi_launched_at_ms p))))"

definition validate_terminal_receipt ::
  "'c canary_codec \<Rightarrow> canary_job \<Rightarrow> canary_receipt list \<Rightarrow> terminal_outcome \<Rightarrow> process_identity option
   \<Rightarrow> canary_artifact option \<Rightarrow> u64 \<Rightarrow> sha256 option \<Rightarrow> unit proof_result" where
  "validate_terminal_receipt cd job previous outcome process artifact completed nonce =
     result_bind (corrupt_unless (terminal_semantics job previous outcome process artifact completed)
                    ''canary terminal semantics'') (\<lambda>_.
     result_bind (case process of None \<Rightarrow> Inr ()
         | Some p \<Rightarrow> result_bind (required_nonce nonce) (\<lambda>n. process_validate job n p)) (\<lambda>_.
       case artifact of None \<Rightarrow> Inr ()
       | Some a \<Rightarrow>
           if cf_schema_version a \<noteq> sp_artifact_schema_version (cj_success job)
           then corrupt ''canary terminal artifact predicate''
           else result_bind (operation_digest cd (cj_operation job)) (\<lambda>od.
             corrupt_unless (cf_operation_sha256 a = od \<and> cf_bytes a \<noteq> 0 \<and> cf_bytes a \<le> sp_max_artifact_bytes (cj_success job))
               ''canary terminal artifact predicate'')))"

text \<open>The binding to the chain, then one case per state.\<close>

definition validate_chain ::
  "'c canary_codec \<Rightarrow> canary_receipt list \<Rightarrow> canary_receipt \<Rightarrow> sha256 \<Rightarrow> unit proof_result" where
  "validate_chain cd previous r job_sha256 =
     result_bind (receipt_digest cd r) (\<lambda>_.
     result_bind (corrupt_unless (re_job_sha256 r = job_sha256 \<and> re_sequence r = length previous)
                    ''canary job receipt identity'') (\<lambda>_.
       if previous = [] then Inr ()
       else result_bind (receipt_digest cd (last previous)) (\<lambda>d.
         corrupt_unless (re_previous_receipt_sha256 r = Some d \<and> \<not> is_terminal_state (re_receipt (last previous)))
           ''canary job receipt ordering'')))"

definition launch_nonce :: "'c canary_codec \<Rightarrow> canary_job \<Rightarrow> sha256 \<Rightarrow> sha256" where
  "launch_nonce cd job job_sha256 = domain_digest cd ''shipyard.canary-job.launch-nonce.v1''
     (cd_nonce cd job_sha256 (cw_controller_incarnation (cj_owner job)))"

definition same_process_after ::
  "canary_job \<Rightarrow> canary_receipt list \<Rightarrow> sha256 option \<Rightarrow> process_identity \<Rightarrow> u64 \<Rightarrow> bool \<Rightarrow> string \<Rightarrow> string
   \<Rightarrow> unit proof_result" where
  "same_process_after job previous nonce p t heartbeat missing mismatch =
     (case Option.bind (last_state previous) receipt_process of
        None \<Rightarrow> corrupt missing
      | Some prior \<Rightarrow>
          let since = unwrap_or (Option.bind (last_state previous) receipt_observed_at_ms) (pi_launched_at_ms prior)
          in if p \<noteq> prior \<or> t < since \<or> (heartbeat \<and> t < pi_launched_at_ms p) then corrupt mismatch
             else result_bind (required_nonce nonce) (\<lambda>n. process_validate job n p))"

definition validate_state ::
  "'c canary_codec \<Rightarrow> canary_job \<Rightarrow> canary_receipt list \<Rightarrow> canary_receipt \<Rightarrow> sha256 \<Rightarrow> unit proof_result" where
  "validate_state cd job previous r job_sha256 =
     (let nonce = (case previous of [] \<Rightarrow> None | first # _ \<Rightarrow> prepared_nonce (re_receipt first))
      in case re_receipt r of
        Prepared n \<Rightarrow>
          if re_sequence r = 0 then corrupt_unless (n = launch_nonce cd job job_sha256) ''canary prepared launch nonce''
          else corrupt ''canary job receipt transition''
      | Launching n claimed \<Rightarrow>
          corrupt_unless ((case last_state previous of Some s \<Rightarrow> is_prepared s | None \<Rightarrow> False)
                   \<and> Some n = nonce \<and> cj_approved_at_ms job \<le> claimed) ''canary launching transition''
      | Running p \<Rightarrow>
          (case Option.bind (last_state previous) launch_claimed_at_ms of
             None \<Rightarrow> corrupt ''canary running transition''
           | Some claimed \<Rightarrow> result_bind (required_nonce nonce) (\<lambda>n.
               result_bind (process_validate job n p) (\<lambda>_.
                 corrupt_unless (claimed = pi_launched_at_ms p) ''canary process launch claim time'')))
      | Heartbeat p t \<Rightarrow> same_process_after job previous nonce p t True
          ''canary heartbeat transition'' ''canary heartbeat identity or time''
      | CancellationRequested p _ t \<Rightarrow> same_process_after job previous nonce p t False
          ''canary cancellation request transition'' ''canary cancellation request identity or time''
      | CancellationRequestedBeforeIdentity n _ t \<Rightarrow>
          (case Option.bind (last_state previous) launch_claimed_at_ms of
             None \<Rightarrow> corrupt ''canary pre-identity cancellation transition''
           | Some claimed \<Rightarrow> corrupt_unless (Some n = nonce \<and> claimed \<le> t) ''canary pre-identity cancellation binding'')
      | Terminal outcome p a _ t \<Rightarrow> validate_terminal_receipt cd job previous outcome p a t nonce)"

definition validate_receipt ::
  "'c canary_codec \<Rightarrow> canary_job \<Rightarrow> canary_receipt list \<Rightarrow> canary_receipt \<Rightarrow> sha256 \<Rightarrow> unit proof_result" where
  "validate_receipt cd job previous r job_sha256 =
     result_bind (validate_chain cd previous r job_sha256) (\<lambda>_. validate_state cd job previous r job_sha256)"

definition terminal_receipt ::
  "'c canary_codec \<Rightarrow> terminal_outcome \<Rightarrow> process_identity option \<Rightarrow> canary_artifact option \<Rightarrow> string option \<Rightarrow> u64
   \<Rightarrow> receipt_state proof_result" where
  "terminal_receipt cd outcome process artifact failure completed =
     (if completed = 0 \<or> (outcome = Succeeded) \<noteq> (artifact \<noteq> None)
      then Inl (InvalidField ''canary terminal receipt'')
      else Inr (Terminal outcome process artifact
        (map_option (\<lambda>m. domain_digest cd ''shipyard.canary-job.failure.v1'' (cd_text cd m)) failure) completed))"

definition active_identity :: "canary_snapshot \<Rightarrow> (sha256 \<times> process_identity option) proof_result" where
  "active_identity s = (case prepared_nonce (re_receipt (hd (sn_receipts s))) of
       None \<Rightarrow> corrupt ''canary prepared receipt''
     | Some nonce \<Rightarrow> Inr (nonce, latest_of receipt_process (sn_receipts s)))"

definition last_observed_at_ms :: "canary_snapshot \<Rightarrow> u64" where
  "last_observed_at_ms s = unwrap_or (latest_of receipt_observed_at_ms (sn_receipts s)) (cj_approved_at_ms (sn_job s))"

fun is_heartbeat :: "receipt_state \<Rightarrow> bool" where
  "is_heartbeat (Heartbeat _ _) = True"
| "is_heartbeat _ = False"

definition heartbeat_count :: "canary_receipt list \<Rightarrow> nat" where
  "heartbeat_count rs = length (filter (\<lambda>r. is_heartbeat (re_receipt r)) rs)"

section \<open>The store\<close>

datatype 'a immutable_file = Unreadable string | Readable 'a

record canary_store =
  cs_envelopes :: "(string \<times> canary_job immutable_file) list"
  cs_receipts :: "((string \<times> nat) \<times> canary_receipt immutable_file) list"
  cs_acks :: "(string \<times> wake_acknowledgement immutable_file) list"
  cs_inputs :: "(string \<times> string) list"
  cs_artifacts :: "(string \<times> string) list"
  cs_logs :: "((string \<times> nat) \<times> string) list"

text \<open>\<open>ImmutableByteStore::put\<close>; the size limit is checked first where the content can exceed it.\<close>

definition store_put :: "string \<Rightarrow> 'k::linorder \<Rightarrow> 'v \<Rightarrow> ('k \<times> 'v) list \<Rightarrow> (write_outcome \<times> ('k \<times> 'v) list) proof_result" where
  "store_put name key v m = (case bt_get m key of
       Some old \<Rightarrow> if old = v then Inr (AlreadyPresent, m) else Inl (ImmutableConflict name)
     | None \<Rightarrow> Inr (Created, bt_insert key v m))"

definition record_bytes :: "nat \<Rightarrow> string \<Rightarrow> unit proof_result" where
  "record_bytes limit bytes =
     (if limit < length bytes then Inl (LimitExceeded ''canary job record bytes'' limit (length bytes)) else Inr ())"

text \<open>\<open>{:03}\<close>.\<close>

definition show_nat3 :: "nat \<Rightarrow> string" where
  "show_nat3 n = replicate (3 - length (show_nat n)) (CHR ''0'') @ show_nat n"

definition envelope_key :: "string \<Rightarrow> string" where "envelope_key job_id = ''job-'' @ job_id @ ''-envelope''"
definition input_key :: "string \<Rightarrow> string" where "input_key job_id = ''job-'' @ job_id @ ''-input''"
definition receipt_key :: "string \<Rightarrow> nat \<Rightarrow> string" where
  "receipt_key job_id sequence = ''job-'' @ job_id @ ''-receipt-'' @ show_nat3 sequence"
definition wake_ack_key :: "string \<Rightarrow> string" where "wake_ack_key job_id = ''job-'' @ job_id @ ''-wake-ack''"
definition log_key :: "string \<Rightarrow> nat \<Rightarrow> string" where
  "log_key job_id sequence = ''job-'' @ job_id @ ''-log-'' @ show_nat3 sequence"
definition artifact_key :: "string \<Rightarrow> string" where "artifact_key job_id = ''job-'' @ job_id @ ''-artifact''"

definition read_file :: "'a immutable_file \<Rightarrow> 'a proof_result" where
  "read_file f = (case f of Readable v \<Rightarrow> Inr v | Unreadable e \<Rightarrow> Inl (JsonError e))"

definition put_receipt :: "'c canary_codec \<Rightarrow> string \<Rightarrow> canary_receipt \<Rightarrow> canary_store \<Rightarrow> (write_outcome \<times> canary_store) proof_result" where
  "put_receipt cd job_id r st =
     result_bind (receipt_digest cd r) (\<lambda>_.
     result_bind (store_put (receipt_key job_id (re_sequence r)) (job_id, re_sequence r) (Readable r) (cs_receipts st))
       (\<lambda>(outcome, m). Inr (outcome, st\<lparr>cs_receipts := m\<rparr>)))"

text \<open>The loop over the sequence numbers: \<open>n\<close> more may follow the receipts read.\<close>

fun load_receipts ::
  "'c canary_codec \<Rightarrow> canary_job \<Rightarrow> sha256 \<Rightarrow> string \<Rightarrow> canary_store \<Rightarrow> nat \<Rightarrow> canary_receipt list \<Rightarrow> canary_receipt list proof_result" where
  "load_receipts cd job sha job_id st 0 previous = Inr previous"
| "load_receipts cd job sha job_id st (Suc n) previous =
     (case bt_get (cs_receipts st) (job_id, length previous) of
        None \<Rightarrow> Inr previous
      | Some f \<Rightarrow> result_bind (read_file f) (\<lambda>r. result_bind (validate_receipt cd job previous r sha)
          (\<lambda>_. load_receipts cd job sha job_id st n (previous @ [r]))))"

definition load_receipt_chain :: "'c canary_codec \<Rightarrow> string \<Rightarrow> canary_store \<Rightarrow> canary_snapshot proof_result" where
  "load_receipt_chain cd job_id st =
     result_bind (validate_id job_id ''canary job id'') (\<lambda>_.
     result_bind (ok_or (bt_get (cs_envelopes st) job_id) (MissingRecord (envelope_key job_id))) (\<lambda>f.
     result_bind (read_file f) (\<lambda>job.
     result_bind (job_validate cd job) (\<lambda>_.
       if cj_job_id job \<noteq> job_id then corrupt ''canary job logical key''
       else result_bind (job_digest cd job) (\<lambda>sha.
         let maximum = cj_max_heartbeat_receipts job + 5 in
         result_bind (load_receipts cd job sha job_id st maximum []) (\<lambda>receipts.
           if receipts = [] then corrupt ''canary job missing prepared receipt''
           else if bt_get (cs_receipts st) (job_id, maximum) \<noteq> None then corrupt ''canary job receipt limit''
           else Inr \<lparr>sn_job = job, sn_receipts = receipts\<rparr>))))))"

definition artifact_matches :: "'c canary_codec \<Rightarrow> string \<Rightarrow> canary_artifact \<Rightarrow> canary_store \<Rightarrow> bool proof_result" where
  "artifact_matches cd job_id a st = (case bt_get (cs_artifacts st) job_id of
       None \<Rightarrow> Inr False
     | Some bytes \<Rightarrow>
         result_bind (load_receipt_chain cd job_id st) (\<lambda>s.
         result_bind (map_err JsonError (cd_read_response cd bytes)) (\<lambda>response.
         result_bind (active_identity s) (\<lambda>(nonce, _).
         result_bind (response_validate cd (sn_job s) nonce response) (\<lambda>_.
           Inr (length bytes = cf_bytes a \<and> cd_sha cd bytes = cf_content_sha256 a))))))"

fun success_artifact :: "receipt_state \<Rightarrow> canary_artifact option" where
  "success_artifact (Terminal Succeeded _ a _ _) = a"
| "success_artifact _ = None"

definition canary_load :: "'c canary_codec \<Rightarrow> string \<Rightarrow> canary_store \<Rightarrow> canary_snapshot proof_result" where
  "canary_load cd job_id st =
     result_bind (load_receipt_chain cd job_id st) (\<lambda>s.
       case success_artifact (re_receipt (latest s)) of
         Some a \<Rightarrow> result_bind (artifact_matches cd job_id a st) (\<lambda>ok.
           if ok then Inr s else corrupt ''canary job success artifact'')
       | None \<Rightarrow> Inr s)"

definition next_receipt :: "'c canary_codec \<Rightarrow> canary_snapshot \<Rightarrow> receipt_state \<Rightarrow> canary_receipt proof_result" where
  "next_receipt cd s state =
     result_bind (job_digest cd (sn_job s)) (\<lambda>sha.
     result_bind (receipt_digest cd (latest s)) (\<lambda>previous.
     let r = \<lparr>re_schema_version = receipt_schema_version, re_job_sha256 = sha, re_sequence = re_sequence (latest s) + 1,
              re_previous_receipt_sha256 = Some previous, re_receipt = state\<rparr>
     in result_bind (validate_receipt cd (sn_job s) (sn_receipts s) r sha) (\<lambda>_. Inr r)))"

text \<open>Publishing the next receipt after a snapshot, which may be stale by then.\<close>

definition publish_next ::
  "'c canary_codec \<Rightarrow> canary_snapshot \<Rightarrow> receipt_state \<Rightarrow> canary_store \<Rightarrow> (write_outcome \<times> canary_store) proof_result" where
  "publish_next cd s state st =
     result_bind (next_receipt cd s state) (\<lambda>r. put_receipt cd (cj_job_id (sn_job s)) r st)"

text \<open>
  An operation that can fail after it has written: its result and the store it leaves.
\<close>

type_synonym 'a custody = "'a proof_result \<times> canary_store"

definition custody_bind :: "'a custody \<Rightarrow> ('a \<Rightarrow> canary_store \<Rightarrow> 'b custody) \<Rightarrow> 'b custody" where
  "custody_bind m f = (case m of (Inl e, st) \<Rightarrow> (Inl e, st) | (Inr a, st) \<Rightarrow> f a st)"

definition written :: "canary_store \<Rightarrow> ('a \<times> canary_store) proof_result \<Rightarrow> 'a custody" where
  "written st r = (case r of Inl e \<Rightarrow> (Inl e, st) | Inr (a, st') \<Rightarrow> (Inr a, st'))"

definition canary_append :: "'c canary_codec \<Rightarrow> canary_snapshot \<Rightarrow> receipt_state \<Rightarrow> canary_store \<Rightarrow> canary_snapshot custody" where
  "canary_append cd s state st =
     (if snapshot_terminal s then (Inl (InvalidAttemptSequence ''canary job is terminal''), st)
      else custody_bind (written st (publish_next cd s state st)) (\<lambda>_ st'.
        (canary_load cd (cj_job_id (sn_job s)) st', st')))"

definition claim_launch ::
  "'c canary_codec \<Rightarrow> canary_snapshot \<Rightarrow> sha256 \<Rightarrow> u64 \<Rightarrow> canary_store \<Rightarrow> (canary_snapshot \<times> write_outcome) custody" where
  "claim_launch cd s nonce claimed st =
     custody_bind (written st (publish_next cd s (Launching nonce claimed) st)) (\<lambda>outcome st'.
       (result_bind (canary_load cd (cj_job_id (sn_job s)) st') (\<lambda>s'. Inr (s', outcome)), st'))"

definition canary_submit :: "'c canary_codec \<Rightarrow> canary_job \<Rightarrow> canary_store \<Rightarrow> write_outcome custody" where
  "canary_submit cd job st = (case job_digest cd job of
       Inl e \<Rightarrow> (Inl e, st)
     | Inr sha \<Rightarrow>
         custody_bind (written st (result_bind
             (store_put (envelope_key (cj_job_id job)) (cj_job_id job) (Readable job) (cs_envelopes st))
             (\<lambda>(outcome, m). Inr (outcome, st\<lparr>cs_envelopes := m\<rparr>)))) (\<lambda>envelope_outcome st1.
         let prepared = \<lparr>re_schema_version = receipt_schema_version, re_job_sha256 = sha, re_sequence = 0,
               re_previous_receipt_sha256 = None, re_receipt = Prepared (launch_nonce cd job sha)\<rparr>
         in custody_bind (validate_receipt cd job [] prepared sha, st1) (\<lambda>_ st1.
            custody_bind (written st1 (put_receipt cd (cj_job_id job) prepared st1)) (\<lambda>receipt_outcome st2.
              (Inr (if envelope_outcome = Created \<or> receipt_outcome = Created then Created else AlreadyPresent), st2)))))"

definition record_input :: "'c canary_codec \<Rightarrow> canary_job \<Rightarrow> string \<Rightarrow> canary_store \<Rightarrow> write_outcome custody" where
  "record_input cd job bytes st = written st
     (result_bind (job_validate cd job) (\<lambda>_.
      if cd_sha cd bytes \<noteq> co_request_sha256 (cj_operation job) then Inl (BindingMismatch ''canary job request bytes'')
      else result_bind (record_bytes max_input_bytes bytes) (\<lambda>_.
        result_bind (store_put (input_key (cj_job_id job)) (cj_job_id job) bytes (cs_inputs st))
          (\<lambda>(outcome, m). Inr (outcome, st\<lparr>cs_inputs := m\<rparr>)))))"

definition load_input :: "'c canary_codec \<Rightarrow> canary_job \<Rightarrow> canary_store \<Rightarrow> string proof_result" where
  "load_input cd job st = result_bind (job_validate cd job) (\<lambda>_.
     result_bind (ok_or (bt_get (cs_inputs st) (cj_job_id job)) (MissingRecord (input_key (cj_job_id job)))) (\<lambda>bytes.
       if cd_sha cd bytes \<noteq> co_request_sha256 (cj_operation job) then Inl (BindingMismatch ''canary job request bytes'')
       else Inr bytes))"

definition selected_for_wake :: "canary_job \<Rightarrow> terminal_outcome \<Rightarrow> bool" where
  "selected_for_wake job outcome = (case outcome of
       Succeeded \<Rightarrow> wp_on_success (cj_wake job)
     | Cancelled \<Rightarrow> False
     | CancelledBeforeLaunch \<Rightarrow> False
     | _ \<Rightarrow> wp_on_actionable_failure (cj_wake job))"

definition ack_authentic ::
  "'c canary_codec \<Rightarrow> canary_snapshot \<Rightarrow> wake_acknowledgement \<Rightarrow> u64 \<Rightarrow> unit proof_result" where
  "ack_authentic cd s ack completed =
     result_bind (job_digest cd (sn_job s)) (\<lambda>sha.
       if wa_job_sha256 ack \<noteq> sha then Inl AuthenticationFailed
       else result_bind (receipt_digest cd (latest s)) (\<lambda>d.
         if wa_receipt_sha256 ack \<noteq> d \<or> wa_controller_id ack \<noteq> cw_controller_id (cj_owner (sn_job s))
            \<or> wa_approval_sha256 ack \<noteq> cw_approval_sha256 (cj_owner (sn_job s))
            \<or> wa_acknowledged_at_ms ack < completed
         then Inl AuthenticationFailed else Inr ()))"

fun terminal_of :: "receipt_state \<Rightarrow> (terminal_outcome \<times> u64) option" where
  "terminal_of (Terminal outcome _ _ _ completed) = Some (outcome, completed)"
| "terminal_of _ = None"

definition wake_pending :: "'c canary_codec \<Rightarrow> canary_snapshot \<Rightarrow> canary_store \<Rightarrow> bool proof_result" where
  "wake_pending cd s st = (case terminal_of (re_receipt (latest s)) of
       Some (outcome, completed) \<Rightarrow>
         if \<not> selected_for_wake (sn_job s) outcome then Inr False
         else (case bt_get (cs_acks st) (cj_job_id (sn_job s)) of
             None \<Rightarrow> Inr True
           | Some f \<Rightarrow> result_bind (read_file f) (\<lambda>ack.
               result_bind (ack_authentic cd s ack completed) (\<lambda>_. Inr False)))
     | None \<Rightarrow> Inr False)"

definition acknowledge_wake ::
  "'c canary_codec \<Rightarrow> string \<Rightarrow> wake_acknowledgement \<Rightarrow> canary_store \<Rightarrow> write_outcome custody" where
  "acknowledge_wake cd job_id ack st = written st
     (result_bind (canary_load cd job_id st) (\<lambda>s. case terminal_of (re_receipt (latest s)) of
        Some (outcome, completed) \<Rightarrow>
          if \<not> selected_for_wake (sn_job s) outcome then Inl AuthenticationFailed
          else result_bind (ack_authentic cd s ack completed) (\<lambda>_.
            result_bind (store_put (wake_ack_key job_id) job_id (Readable ack) (cs_acks st))
              (\<lambda>(outcome, m). Inr (outcome, st\<lparr>cs_acks := m\<rparr>)))
      | None \<Rightarrow> Inl (InvalidAttemptSequence ''canary wake is not terminal'')))"

definition safe_values :: "string \<Rightarrow> string list option" where
  "safe_values key =
     (if key = ''phase'' then Some [''prepare'', ''transfer'', ''verify'', ''dispatch'', ''aggregate'', ''cancel'', ''complete'']
      else if key = ''status'' then Some [''started'', ''running'', ''succeeded'', ''failed'', ''cancelled'']
      else None)"

text \<open>\<open>parse::<u8>\<close>: an optional plus sign and digits with a value below 256.\<close>

definition parse_u8 :: "string \<Rightarrow> nat option" where
  "parse_u8 s = (let ds = (case s of c # cs \<Rightarrow> if c = CHR ''+'' then cs else s | [] \<Rightarrow> [])
     in if ds \<noteq> [] \<and> list_all is_ascii_digit ds \<and> digits_value ds < 256 then Some (digits_value ds) else None)"

definition strip_percent :: "string \<Rightarrow> string" where
  "strip_percent value = (if suffix ''%'' value then butlast value else value)"

definition safe_structured_log_line :: "string \<Rightarrow> bool" where
  "safe_structured_log_line line = (case split_once ''='' line of
       None \<Rightarrow> False
     | Some (key, value) \<Rightarrow> (case safe_values key of
           Some values \<Rightarrow> value \<in> set values
         | None \<Rightarrow> key = ''progress'' \<and> is_some_and (parse_u8 (strip_percent value)) (\<lambda>p. p \<le> 100)))"

text \<open>\<open>utf8_lossy\<close> is \<open>String::from_utf8_lossy\<close>, the identity on UTF-8 text.\<close>

definition redact_log :: "(string \<Rightarrow> string) \<Rightarrow> string \<Rightarrow> nat \<Rightarrow> string proof_result" where
  "redact_log utf8_lossy bytes limit =
     (if limit < length bytes then Inl (LimitExceeded ''canary log segment bytes'' limit (length bytes))
      else let output = concat (map (\<lambda>line. (if safe_structured_log_line line then line else ''[REDACTED]'') @ [CHR 0x0A])
                (str_lines (utf8_lossy bytes)))
        in if limit < length output then Inl (LimitExceeded ''redacted canary log segment bytes'' limit (length output))
           else Inr output)"

definition record_log_segment ::
  "'c canary_codec \<Rightarrow> (string \<Rightarrow> string) \<Rightarrow> string \<Rightarrow> nat \<Rightarrow> string \<Rightarrow> canary_store \<Rightarrow> write_outcome custody" where
  "record_log_segment cd utf8_lossy job_id sequence bytes st = written st
     (result_bind (canary_load cd job_id st) (\<lambda>s.
      if lp_max_segments (cj_logs (sn_job s)) \<le> sequence
      then Inl (LimitExceeded ''canary log segments'' (lp_max_segments (cj_logs (sn_job s))) (sequence + 1))
      else result_bind (redact_log utf8_lossy bytes (lp_segment_bytes (cj_logs (sn_job s)))) (\<lambda>redacted.
        result_bind (store_put (log_key job_id sequence) (job_id, sequence) redacted (cs_logs st))
          (\<lambda>(outcome, m). Inr (outcome, st\<lparr>cs_logs := m\<rparr>)))))"

definition load_log_segment :: "'c canary_codec \<Rightarrow> string \<Rightarrow> nat \<Rightarrow> canary_store \<Rightarrow> string proof_result" where
  "load_log_segment cd job_id sequence st = result_bind (canary_load cd job_id st) (\<lambda>s.
     if lp_max_segments (cj_logs (sn_job s)) \<le> sequence then Inl (InvalidField ''canary log sequence'')
     else ok_or (bt_get (cs_logs st) (job_id, sequence)) (MissingRecord (log_key job_id sequence)))"

fun no_launch_custody :: "receipt_state \<Rightarrow> bool" where
  "no_launch_custody (Prepared _) = True"
| "no_launch_custody (CancellationRequestedBeforeIdentity _ _ _) = True"
| "no_launch_custody (Terminal _ _ _ _ _) = True"
| "no_launch_custody _ = False"

definition record_artifact ::
  "'c canary_codec \<Rightarrow> string \<Rightarrow> 'c canary_response \<Rightarrow> canary_store \<Rightarrow> canary_artifact custody" where
  "record_artifact cd job_id response st = written st
     (result_bind (canary_load cd job_id st) (\<lambda>s.
      if no_launch_custody (re_receipt (latest s))
      then Inl (InvalidAttemptSequence ''canary artifact requires launch custody'')
      else result_bind (active_identity s) (\<lambda>(nonce, _).
        result_bind (response_validate cd (sn_job s) nonce response) (\<lambda>_.
        let bytes = cd_response cd response; limit = sp_max_artifact_bytes (cj_success (sn_job s)) in
        if bytes = [] \<or> limit < length bytes
        then Inl (LimitExceeded ''canary job artifact bytes'' limit (length bytes))
        else result_bind (operation_digest cd (cj_operation (sn_job s))) (\<lambda>od.
          result_bind (record_bytes max_record_bytes bytes) (\<lambda>_.
          result_bind (store_put (artifact_key job_id) job_id bytes (cs_artifacts st)) (\<lambda>(_, m).
            Inr (\<lparr>cf_schema_version = sp_artifact_schema_version (cj_success (sn_job s)), cf_operation_sha256 = od,
                  cf_content_sha256 = cd_sha cd bytes, cf_bytes = length bytes\<rparr>,
                 st\<lparr>cs_artifacts := m\<rparr>))))))))"

fun pending_cancel_request :: "receipt_state \<Rightarrow> sha256 option" where
  "pending_cancel_request (CancellationRequested _ q _) = Some q"
| "pending_cancel_request (CancellationRequestedBeforeIdentity _ q _) = Some q"
| "pending_cancel_request _ = None"

fun cancellation_requested_at_ms :: "receipt_state \<Rightarrow> u64 option" where
  "cancellation_requested_at_ms (CancellationRequested _ _ t) = Some t"
| "cancellation_requested_at_ms (CancellationRequestedBeforeIdentity _ _ t) = Some t"
| "cancellation_requested_at_ms _ = None"

section \<open>Cancellation requests\<close>

definition lost_arbitration :: "'a proof_result" where
  "lost_arbitration = Inl (InvalidAttemptSequence ''canary cancellation lost terminal arbitration'')"

definition request_authentic :: "'c canary_codec \<Rightarrow> canary_snapshot \<Rightarrow> cancellation_request \<Rightarrow> unit proof_result" where
  "request_authentic cd s q =
     result_bind (validate_id (cq_controller_id q) ''canary cancel controller'') (\<lambda>_.
     result_bind (job_digest cd (sn_job s)) (\<lambda>sha.
       if cq_job_sha256 q \<noteq> sha \<or> cq_controller_id q \<noteq> cw_controller_id (cj_owner (sn_job s))
          \<or> cq_approval_sha256 q \<noteq> cw_approval_sha256 (cj_owner (sn_job s))
          \<or> cq_requested_at_ms q < cj_approved_at_ms (sn_job s)
       then Inl AuthenticationFailed else Inr ()))"

text \<open>A request before any launch competes for the receipt that the launch claim would take.\<close>

definition cancel_before_launch ::
  "'c canary_codec \<Rightarrow> canary_snapshot \<Rightarrow> cancellation_request \<Rightarrow> canary_store \<Rightarrow> write_outcome custody" where
  "cancel_before_launch cd s q st = written st
     (result_bind (terminal_receipt cd CancelledBeforeLaunch None None None (cq_requested_at_ms q))
       (\<lambda>terminal. publish_next cd s terminal st))"

definition cancellation_state ::
  "canary_snapshot \<Rightarrow> cancellation_request \<Rightarrow> sha256 \<Rightarrow> receipt_state proof_result" where
  "cancellation_state s q request_sha256 =
     result_bind (active_identity s) (\<lambda>(nonce, process). case process of
         Some p \<Rightarrow> Inr (CancellationRequested p request_sha256 (cq_requested_at_ms q))
       | None \<Rightarrow> (case re_receipt (latest s) of
             Launching _ _ \<Rightarrow> Inr (CancellationRequestedBeforeIdentity nonce request_sha256 (cq_requested_at_ms q))
           | _ \<Rightarrow> Inl (InvalidAttemptSequence ''canary cancellation has no launch custody'')))"

definition cancel_conflict :: "'c canary_codec \<Rightarrow> string \<Rightarrow> sha256 \<Rightarrow> canary_store \<Rightarrow> write_outcome proof_result" where
  "cancel_conflict cd job_id request_sha256 st =
     result_bind (canary_load cd job_id st) (\<lambda>s.
       if pending_cancel_request (re_receipt (latest s)) = Some request_sha256 then Inr AlreadyPresent
       else if snapshot_terminal s then lost_arbitration
       else Inl (ImmutableConflict job_id))"

definition request_cancel_launched ::
  "'c canary_codec \<Rightarrow> string \<Rightarrow> cancellation_request \<Rightarrow> canary_store \<Rightarrow> write_outcome custody" where
  "request_cancel_launched cd job_id q st =
     (let request_sha256 = domain_digest cd ''shipyard.canary-job.cancel-request.v1'' (cd_request cd q) in
      custody_bind (canary_load cd job_id st, st) (\<lambda>s st.
        case pending_cancel_request (re_receipt (latest s)) of
          Some existing \<Rightarrow>
            (if existing = request_sha256 then Inr AlreadyPresent else Inl (ImmutableConflict job_id), st)
        | None \<Rightarrow>
            if snapshot_terminal s then (lost_arbitration, st)
            else custody_bind (cancellation_state s q request_sha256, st) (\<lambda>state st.
              case written st (publish_next cd s state st) of
                (Inl (ImmutableConflict _), st') \<Rightarrow> (cancel_conflict cd job_id request_sha256 st', st')
              | outcome \<Rightarrow> outcome)))"

definition request_cancel_once ::
  "'c canary_codec \<Rightarrow> string \<Rightarrow> cancellation_request \<Rightarrow> canary_store \<Rightarrow> write_outcome custody" where
  "request_cancel_once cd job_id q st =
     custody_bind (canary_load cd job_id st, st) (\<lambda>s st.
     custody_bind (request_authentic cd s q, st) (\<lambda>_ st.
       case re_receipt (latest s) of
         Terminal outcome _ _ _ _ \<Rightarrow>
           (if outcome = CancelledBeforeLaunch then Inr AlreadyPresent else lost_arbitration, st)
       | Prepared _ \<Rightarrow> (case cancel_before_launch cd s q st of
             (Inl (ImmutableConflict _), st') \<Rightarrow> request_cancel_launched cd job_id q st'
           | outcome \<Rightarrow> outcome)
       | _ \<Rightarrow> request_cancel_launched cd job_id q st))"

fun request_cancel_attempts ::
  "nat \<Rightarrow> 'c canary_codec \<Rightarrow> string \<Rightarrow> cancellation_request \<Rightarrow> canary_store \<Rightarrow> write_outcome custody" where
  "request_cancel_attempts 0 cd job_id q st = (Inl (ImmutableConflict job_id), st)"
| "request_cancel_attempts (Suc n) cd job_id q st = (case request_cancel_once cd job_id q st of
     (Inl (ImmutableConflict _), st') \<Rightarrow> request_cancel_attempts n cd job_id q st'
   | outcome \<Rightarrow> outcome)"

definition canary_request_cancel ::
  "'c canary_codec \<Rightarrow> string \<Rightarrow> cancellation_request \<Rightarrow> canary_store \<Rightarrow> write_outcome custody" where
  "canary_request_cancel = request_cancel_attempts 3"

section \<open>Launch and reconciliation\<close>

definition plain_transition :: "canary_snapshot \<Rightarrow> bool \<Rightarrow> canary_transition" where
  "plain_transition s launched = \<lparr>ct_snapshot = s, ct_wake = False, ct_wake_receipt_sequence = None,
     ct_retryable_failure_sha256 = None, ct_launched = launched\<rparr>"

definition retryable_transition :: "canary_snapshot \<Rightarrow> sha256 \<Rightarrow> canary_transition" where
  "retryable_transition s failure = \<lparr>ct_snapshot = s, ct_wake = False, ct_wake_receipt_sequence = None,
     ct_retryable_failure_sha256 = Some failure, ct_launched = False\<rparr>"

definition wake_transition :: "canary_snapshot \<Rightarrow> bool \<Rightarrow> canary_transition" where
  "wake_transition s wake = \<lparr>ct_snapshot = s, ct_wake = wake,
     ct_wake_receipt_sequence = (if wake then Some (re_sequence (latest s)) else None),
     ct_retryable_failure_sha256 = None, ct_launched = False\<rparr>"

definition terminal_transition :: "canary_snapshot \<Rightarrow> canary_transition" where
  "terminal_transition s = wake_transition s (case re_receipt (latest s) of
     Terminal outcome _ _ _ _ \<Rightarrow> selected_for_wake (sn_job s) outcome | _ \<Rightarrow> False)"

definition replay_transition :: "'c canary_codec \<Rightarrow> canary_store \<Rightarrow> canary_snapshot \<Rightarrow> canary_transition proof_result" where
  "replay_transition cd st s = result_bind (wake_pending cd s st) (\<lambda>wake. Inr (wake_transition s wake))"

text \<open>What a call to the backend's launch returned, after its claim was recorded.\<close>

definition launch_outcome ::
  "'c canary_codec \<Rightarrow> backend \<Rightarrow> canary_job \<Rightarrow> sha256 \<Rightarrow> u64 \<Rightarrow> canary_snapshot \<Rightarrow> canary_store \<Rightarrow> canary_transition custody" where
  "launch_outcome cd be job nonce now s st = (case be_launch be job nonce now of
       Inl error \<Rightarrow> (Inr (retryable_transition s
           (domain_digest cd ''shipyard.canary-job.launch-error.v1'' (cd_text cd error))), st)
     | Inr process \<Rightarrow>
         custody_bind (process_validate job nonce process, st) (\<lambda>_ st.
         custody_bind (canary_append cd s (Running process) st) (\<lambda>s' st'.
           (Inr (plain_transition s' True), st'))))"

definition launch_canary_job ::
  "'c canary_codec \<Rightarrow> backend \<Rightarrow> canary_job \<Rightarrow> u64 \<Rightarrow> canary_store \<Rightarrow> canary_transition custody" where
  "launch_canary_job cd be job now st =
     (if now < cj_approved_at_ms job \<or> cj_deadline_at_ms job \<le> now
      then (Inl (InvalidField ''canary launch controller time''), st)
      else custody_bind (canary_submit cd job st) (\<lambda>_ st.
        custody_bind (canary_load cd (cj_job_id job) st, st) (\<lambda>s st.
          if length (sn_receipts s) \<noteq> 1 then (replay_transition cd st s, st)
          else case re_receipt (latest s) of
            Prepared nonce \<Rightarrow> (case claim_launch cd s nonce now st of
                (Inl (ImmutableConflict _), st') \<Rightarrow>
                  (result_bind (canary_load cd (cj_job_id job) st') (replay_transition cd st'), st')
              | (Inl e, st') \<Rightarrow> (Inl e, st')
              | (Inr (s', outcome), st') \<Rightarrow>
                  if outcome \<noteq> Created then (Inr (plain_transition s' False), st')
                  else launch_outcome cd be job nonce now s' st')
          | _ \<Rightarrow> (corrupt ''canary initial receipt'', st))))"

definition finish_terminal :: "'c canary_codec \<Rightarrow> canary_snapshot \<Rightarrow> receipt_state proof_result \<Rightarrow> canary_store \<Rightarrow> canary_transition custody" where
  "finish_terminal cd s terminal st =
     custody_bind (terminal, st) (\<lambda>t st. custody_bind (canary_append cd s t st) (\<lambda>s' st'.
       (Inr (terminal_transition s'), st')))"

definition finish_lost :: "'c canary_codec \<Rightarrow> canary_snapshot \<Rightarrow> u64 \<Rightarrow> canary_store \<Rightarrow> canary_transition custody" where
  "finish_lost cd s now st = custody_bind (active_identity s, st) (\<lambda>(_, process) st.
     finish_terminal cd s (terminal_receipt cd Lost process None None now) st)"

definition exit_artifact_valid ::
  "'c canary_codec \<Rightarrow> canary_snapshot \<Rightarrow> canary_artifact option \<Rightarrow> canary_store \<Rightarrow> bool proof_result" where
  "exit_artifact_valid cd s artifact st =
     result_bind (operation_digest cd (cj_operation (sn_job s))) (\<lambda>od. case artifact of
         None \<Rightarrow> Inr False
       | Some a \<Rightarrow>
           if cf_schema_version a = sp_artifact_schema_version (cj_success (sn_job s))
              \<and> cf_operation_sha256 a = od \<and> 0 < cf_bytes a \<and> cf_bytes a \<le> sp_max_artifact_bytes (cj_success (sn_job s))
           then artifact_matches cd (cj_job_id (sn_job s)) a st else Inr False)"

definition exit_succeeded :: "canary_job \<Rightarrow> int option \<Rightarrow> u64 \<Rightarrow> bool \<Rightarrow> bool" where
  "exit_succeeded job exit_code exited_at valid_artifact =
     (exit_code = Some (sp_required_exit_code (cj_success job)) \<and> valid_artifact
      \<and> (\<not> cn_cancel_at_deadline (cj_cancellation job) \<or> exited_at \<le> cj_deadline_at_ms job))"

definition finish_exit ::
  "'c canary_codec \<Rightarrow> canary_snapshot \<Rightarrow> process_identity \<Rightarrow> int option \<Rightarrow> u64 \<Rightarrow> canary_artifact option \<Rightarrow> u64
   \<Rightarrow> canary_store \<Rightarrow> canary_transition custody" where
  "finish_exit cd s process exit_code exited_at artifact now st =
     custody_bind (exit_artifact_valid cd s artifact st, st) (\<lambda>valid_artifact st.
       if exited_at < pi_launched_at_ms process \<or> now < exited_at
       then (Inl (BindingMismatch ''canary process exit time''), st)
       else let succeeded = exit_succeeded (sn_job s) exit_code exited_at valid_artifact
         in finish_terminal cd s (terminal_receipt cd (if succeeded then Succeeded else Failed) (Some process)
              (if succeeded then artifact else None)
              (if succeeded then None else Some ''exit or artifact predicate failed'') now) st)"

definition cancellation_verdict ::
  "terminal_outcome \<Rightarrow> string + cancellation_observation \<Rightarrow> terminal_outcome \<times> string option" where
  "cancellation_verdict terminated observed = (case observed of
       Inr Terminated \<Rightarrow> (terminated, None)
     | Inr StillAlive \<Rightarrow> (CancellationUncertain, Some ''process tree remained alive'')
     | Inr CancelMissing \<Rightarrow> (CancellationUncertain, Some ''process identity disappeared during cancellation'')
     | Inl error \<Rightarrow> (CancellationUncertain, Some error))"

definition reconcile_cancellation ::
  "'c canary_codec \<Rightarrow> backend \<Rightarrow> canary_snapshot \<Rightarrow> process_identity \<Rightarrow> u64 \<Rightarrow> terminal_outcome \<Rightarrow> canary_store
   \<Rightarrow> canary_transition custody" where
  "reconcile_cancellation cd be s process now terminated st =
     (let (outcome, failure) = cancellation_verdict terminated
            (be_cancel be (sn_job s) process (cn_grace_ms (cj_cancellation (sn_job s))))
      in finish_terminal cd s (terminal_receipt cd outcome (Some process) None failure now) st)"

definition reconcile_alive ::
  "'c canary_codec \<Rightarrow> backend \<Rightarrow> canary_snapshot \<Rightarrow> u64 \<Rightarrow> process_identity option \<Rightarrow> process_identity \<Rightarrow> canary_store
   \<Rightarrow> canary_transition custody" where
  "reconcile_alive cd be s now process observed st =
     (let cancel_requested = (pending_cancel_request (re_receipt (latest s)) \<noteq> None);
          deadline_cancel = (cn_cancel_at_deadline (cj_cancellation (sn_job s)) \<and> cj_deadline_at_ms (sn_job s) \<le> now);
          heartbeat_expired = (process \<noteq> None \<and> cj_heartbeat_timeout_ms (sn_job s) < now - last_observed_at_ms s)
      in if cancel_requested \<or> deadline_cancel \<or> heartbeat_expired
         then reconcile_cancellation cd be s observed now Cancelled st
         else if process \<noteq> None \<and> now - last_observed_at_ms s < cj_heartbeat_interval_ms (sn_job s)
         then (Inr (plain_transition s False), st)
         else if cj_max_heartbeat_receipts (sn_job s) \<le> heartbeat_count (sn_receipts s)
         then reconcile_cancellation cd be s observed now HeartbeatLimit st
         else custody_bind (canary_append cd s (if process = None then Running observed else Heartbeat observed now) st)
           (\<lambda>s' st'. (Inr (plain_transition s' False), st')))"

definition reconcile_exited ::
  "'c canary_codec \<Rightarrow> canary_snapshot \<Rightarrow> u64 \<Rightarrow> process_identity \<Rightarrow> int option \<Rightarrow> u64 \<Rightarrow> canary_artifact option
   \<Rightarrow> canary_store \<Rightarrow> canary_transition custody" where
  "reconcile_exited cd s now observed exit_code exited_at artifact st =
     (if is_some_and (cancellation_requested_at_ms (re_receipt (latest s))) (\<lambda>requested. requested \<le> exited_at)
      then finish_terminal cd s (terminal_receipt cd Cancelled (Some observed) None None now) st
      else finish_exit cd s observed exit_code exited_at artifact now st)"

definition reconcile_observation ::
  "'c canary_codec \<Rightarrow> backend \<Rightarrow> canary_snapshot \<Rightarrow> u64 \<Rightarrow> sha256 \<Rightarrow> process_identity option \<Rightarrow> process_observation
   \<Rightarrow> canary_store \<Rightarrow> canary_transition custody" where
  "reconcile_observation cd be s now nonce process observation st =
     (let seen = (\<lambda>observed next. custody_bind (process_validate (sn_job s) nonce observed, st) (\<lambda>_ st.
            if process \<noteq> None \<and> process \<noteq> Some observed then finish_lost cd s now st else next st))
      in case observation of
        Alive observed \<Rightarrow> seen observed (reconcile_alive cd be s now process observed)
      | Exited observed exit_code exited_at artifact \<Rightarrow>
          seen observed (reconcile_exited cd s now observed exit_code exited_at artifact)
      | _ \<Rightarrow> finish_lost cd s now st)"

definition reconcile_canary_job ::
  "'c canary_codec \<Rightarrow> backend \<Rightarrow> string \<Rightarrow> u64 \<Rightarrow> canary_store \<Rightarrow> canary_transition custody" where
  "reconcile_canary_job cd be job_id now st =
     custody_bind (canary_load cd job_id st, st) (\<lambda>s st.
       if snapshot_terminal s then (replay_transition cd st s, st)
       else if is_prepared (re_receipt (latest s)) then (Inr (plain_transition s False), st)
       else if now < last_observed_at_ms s then (Inl (InvalidField ''canary reconcile controller time''), st)
       else custody_bind (active_identity s, st) (\<lambda>(nonce, process) st.
         case (case process of Some p \<Rightarrow> be_observe be (sn_job s) p | None \<Rightarrow> be_discover be (sn_job s) nonce) of
           Inl error \<Rightarrow> (Inr (retryable_transition s
               (domain_digest cd ''shipyard.canary-job.observation-error.v1'' (cd_text cd error))), st)
         | Inr observation \<Rightarrow> reconcile_observation cd be s now nonce process observation st))"

text \<open>The jobs a daemon tick follows: readable envelopes whose chain loads and is not terminal.\<close>

definition pending_scan_ids :: "'c canary_codec \<Rightarrow> canary_store \<Rightarrow> string list" where
  "pending_scan_ids cd st = sort_dedup (List.map_filter (\<lambda>(_, f). case f of
       Unreadable _ \<Rightarrow> None
     | Readable job \<Rightarrow> (case result_bind (job_validate cd job) (\<lambda>_. canary_load cd (cj_job_id job) st) of
           Inr s \<Rightarrow> if snapshot_terminal s then None else Some (cj_job_id job)
         | Inl _ \<Rightarrow> None)) (cs_envelopes st))"

section \<open>Loaded chains\<close>

lemma corrupt_unless_Inr [simp]: "corrupt_unless ok m = Inr () \<longleftrightarrow> ok"
  by (simp add: corrupt_unless_def corrupt_def)

lemma corrupt_Inr [simp]: "corrupt m \<noteq> Inr x"
  by (simp add: corrupt_def)

definition valid_chain :: "'c canary_codec \<Rightarrow> canary_job \<Rightarrow> sha256 \<Rightarrow> canary_receipt list \<Rightarrow> bool" where
  "valid_chain cd job sha rs \<longleftrightarrow> (\<forall>i < length rs. validate_receipt cd job (take i rs) (rs ! i) sha = Inr ())"

lemma valid_chain_snoc:
  "valid_chain cd job sha (rs @ [r]) \<longleftrightarrow> valid_chain cd job sha rs \<and> validate_receipt cd job rs r sha = Inr ()"
  by (auto simp: valid_chain_def nth_append less_Suc_eq)

lemma valid_chain_take: "valid_chain cd job sha rs \<Longrightarrow> valid_chain cd job sha (take n rs)"
  by (auto simp: valid_chain_def min_def)

lemma load_receipts_Inr:
  assumes "load_receipts cd job sha job_id st n previous = Inr rs"
  shows "prefix previous rs \<and> length rs \<le> length previous + n
     \<and> (\<forall>i. length previous \<le> i \<and> i < length rs \<longrightarrow>
          bt_get (cs_receipts st) (job_id, i) = Some (Readable (rs ! i))
          \<and> validate_receipt cd job (take i rs) (rs ! i) sha = Inr ())
     \<and> (length rs < length previous + n \<longrightarrow> bt_get (cs_receipts st) (job_id, length rs) = None)"
  using assms
proof (induction n arbitrary: previous)
  case (Suc n)
  show ?case
  proof (cases "bt_get (cs_receipts st) (job_id, length previous)")
    case None
    with Suc.prems show ?thesis by auto
  next
    case (Some f)
    with Suc.prems obtain r where r: "f = Readable r" "validate_receipt cd job previous r sha = Inr ()"
      "load_receipts cd job sha job_id st n (previous @ [r]) = Inr rs"
      by (auto simp: result_bind_Inr_iff read_file_def split: immutable_file.splits)
    note IH = Suc.IH [OF r(3)]
    then obtain ys where ys: "rs = previous @ r # ys" by (auto simp: prefix_def)
    have "bt_get (cs_receipts st) (job_id, i) = Some (Readable (rs ! i))
          \<and> validate_receipt cd job (take i rs) (rs ! i) sha = Inr ()"
      if "length previous \<le> i" "i < length rs" for i
      using that IH Some r ys by (cases "i = length previous") auto
    with IH show ?thesis by (auto simp: prefix_def)
  qed
qed auto

lemma load_receipts_cong:
  assumes "load_receipts cd job sha job_id st n previous = Inr rs"
    and "\<And>i. length previous \<le> i \<Longrightarrow> i \<le> length rs \<Longrightarrow> i < length previous + n \<Longrightarrow>
       bt_get (cs_receipts st') (job_id, i) = bt_get (cs_receipts st) (job_id, i)"
  shows "load_receipts cd job sha job_id st' n previous = Inr rs"
  using assms
proof (induction n arbitrary: previous)
  case (Suc n)
  have le: "length previous \<le> length rs" using load_receipts_Inr [OF Suc.prems(1)] by (auto dest: prefix_length_le)
  with Suc.prems(2) have same: "bt_get (cs_receipts st') (job_id, length previous) = bt_get (cs_receipts st) (job_id, length previous)"
    by simp
  show ?case
  proof (cases "bt_get (cs_receipts st) (job_id, length previous)")
    case None
    with Suc.prems same show ?thesis by auto
  next
    case (Some f)
    with Suc.prems obtain r where r: "f = Readable r" "validate_receipt cd job previous r sha = Inr ()"
      "load_receipts cd job sha job_id st n (previous @ [r]) = Inr rs"
      by (auto simp: result_bind_Inr_iff read_file_def split: immutable_file.splits)
    have "load_receipts cd job sha job_id st' n (previous @ [r]) = Inr rs"
      using Suc.prems(2) by (intro Suc.IH [OF r(3)]) auto
    with same Some r show ?thesis by (simp add: read_file_def)
  qed
qed auto

text \<open>What a successful load says of the store and of the chain.\<close>

definition chain_in :: "'c canary_codec \<Rightarrow> string \<Rightarrow> canary_store \<Rightarrow> canary_snapshot \<Rightarrow> bool" where
  "chain_in cd job_id st s \<longleftrightarrow>
     (let job = sn_job s; rs = sn_receipts s; maximum = cj_max_heartbeat_receipts job + 5 in
      bt_get (cs_envelopes st) job_id = Some (Readable job) \<and> cj_job_id job = job_id
      \<and> (\<exists>sha. job_digest cd job = Inr sha \<and> valid_chain cd job sha rs)
      \<and> rs \<noteq> [] \<and> length rs \<le> maximum
      \<and> (\<forall>i < length rs. bt_get (cs_receipts st) (job_id, i) = Some (Readable (rs ! i)))
      \<and> bt_get (cs_receipts st) (job_id, length rs) = None)"

lemma load_chain_in:
  assumes "load_receipt_chain cd job_id st = Inr s"
  shows "chain_in cd job_id st s"
proof -
  from assms obtain f job sha rs where f: "bt_get (cs_envelopes st) job_id = Some f" "read_file f = Inr job"
    "cj_job_id job = job_id" "job_digest cd job = Inr sha"
    and rs: "load_receipts cd job sha job_id st (cj_max_heartbeat_receipts job + 5) [] = Inr rs" "rs \<noteq> []"
    "bt_get (cs_receipts st) (job_id, cj_max_heartbeat_receipts job + 5) = None"
    "s = \<lparr>sn_job = job, sn_receipts = rs\<rparr>"
    by (auto simp: load_receipt_chain_def result_bind_Inr_iff Let_def ok_or_def split: option.splits if_splits)
  from f(2) have "f = Readable job" by (auto simp: read_file_def split: immutable_file.splits)
  moreover from load_receipts_Inr [OF rs(1)] rs(3) have
    "length rs \<le> cj_max_heartbeat_receipts job + 5" "bt_get (cs_receipts st) (job_id, length rs) = None"
    "\<forall>i < length rs. bt_get (cs_receipts st) (job_id, i) = Some (Readable (rs ! i))" "valid_chain cd job sha rs"
    by (auto simp: valid_chain_def le_less)
  ultimately show ?thesis using f rs by (auto simp: chain_in_def Let_def)
qed

lemma canary_load_chain: "canary_load cd job_id st = Inr s \<Longrightarrow> load_receipt_chain cd job_id st = Inr s"
  by (auto simp: canary_load_def result_bind_Inr_iff split: option.splits if_splits)

text \<open>The transitions that the receipt table admits.\<close>

fun is_launching :: "receipt_state \<Rightarrow> bool" where
  "is_launching (Launching _ _) = True"
| "is_launching _ = False"

lemma validate_receipt_Inr:
  "validate_receipt cd job previous r sha = Inr () \<longleftrightarrow>
   validate_chain cd previous r sha = Inr () \<and> validate_state cd job previous r sha = Inr ()"
  by (auto simp: validate_receipt_def result_bind_Inr_iff)

lemma validate_chain_Inr:
  "validate_chain cd previous r sha = Inr () \<longleftrightarrow>
   (\<exists>d. receipt_digest cd r = Inr d) \<and> re_job_sha256 r = sha \<and> re_sequence r = length previous
   \<and> (previous \<noteq> [] \<longrightarrow> (\<exists>d. receipt_digest cd (last previous) = Inr d \<and> re_previous_receipt_sha256 r = Some d)
        \<and> \<not> is_terminal_state (re_receipt (last previous)))"
  by (auto simp: validate_chain_def result_bind_Inr_iff)

lemma last_state_Some: "last_state rs = Some x \<longleftrightarrow> rs \<noteq> [] \<and> re_receipt (last rs) = x"
  by (auto simp: last_state_def)

text \<open>The life cycle: which state may follow which, with the process and the time they share.\<close>

fun follows :: "receipt_state \<Rightarrow> receipt_state \<Rightarrow> bool" where
  "follows (Prepared n) (Launching m _) = (n = m)"
| "follows (Prepared n) (Terminal _ p _ _ _) = (p = None)"
| "follows (Launching n t) (Running p) = (pi_launched_at_ms p = t)"
| "follows (Launching n t) (CancellationRequestedBeforeIdentity m _ u) = (t \<le> u)"
| "follows (Launching n t) (Terminal _ p _ _ u) = (t \<le> u \<and> (case p of None \<Rightarrow> True | Some q \<Rightarrow> pi_launched_at_ms q = t))"
| "follows (CancellationRequestedBeforeIdentity n _ t) (Terminal _ p _ _ u) = (t \<le> u)"
| "follows (Running p) (Heartbeat q u) = (p = q \<and> pi_launched_at_ms p \<le> u)"
| "follows (Running p) (CancellationRequested q _ u) = (p = q \<and> pi_launched_at_ms p \<le> u)"
| "follows (Running p) (Terminal _ q _ _ u) = (q = Some p \<and> pi_launched_at_ms p \<le> u)"
| "follows (Heartbeat p t) (Heartbeat q u) = (p = q \<and> t \<le> u)"
| "follows (Heartbeat p t) (CancellationRequested q _ u) = (p = q \<and> t \<le> u)"
| "follows (Heartbeat p t) (Terminal _ q _ _ u) = (q = Some p \<and> t \<le> u)"
| "follows (CancellationRequested p _ t) (Heartbeat q u) = (p = q \<and> t \<le> u)"
| "follows (CancellationRequested p _ t) (CancellationRequested q _ u) = (p = q \<and> t \<le> u)"
| "follows (CancellationRequested p _ t) (Terminal _ q _ _ u) = (q = Some p \<and> t \<le> u)"
| "follows _ _ = False"

lemma follows_step:
  assumes "validate_receipt cd job previous r sha = Inr ()" "previous \<noteq> []"
    and "prepared_nonce (re_receipt (hd previous)) = Some n"
    and "\<forall>m. re_receipt (last previous) = Prepared m \<longrightarrow> previous = [last previous]"
    and proc: "latest_of receipt_process previous = receipt_process (re_receipt (last previous))"
    and obs: "latest_of receipt_observed_at_ms previous = receipt_observed_at_ms (re_receipt (last previous))"
    and clm: "\<And>m t. re_receipt (last previous) = Launching m t \<Longrightarrow> latest_of launch_claimed_at_ms previous = Some t"
  shows "follows (re_receipt (last previous)) (re_receipt r)"
proof -
  from assms(1) have c: "re_sequence r = length previous" "\<not> is_terminal_state (re_receipt (last previous))"
    and v: "validate_state cd job previous r sha = Inr ()"
    using assms(2) by (auto simp: validate_receipt_Inr validate_chain_Inr)
  have nonce: "(case previous of [] \<Rightarrow> None | first # _ \<Rightarrow> prepared_nonce (re_receipt first)) = Some n"
    using assms(2,3) by (cases previous) auto
  have last: "last_state previous = Some (re_receipt (last previous))" using assms(2) by (simp add: last_state_def)
  note v' = v [unfolded validate_state_def nonce Let_def last]
  show ?thesis
  proof (cases "re_receipt r")
    case (Prepared m)
    with v' c assms(2) show ?thesis by simp
  next
    case (Launching m t)
    with v' assms(3,4) show ?thesis by (cases "re_receipt (last previous)") (auto, metis last.simps list.sel(1) option.inject prepared_nonce.simps(1))
  next
    case (Running p)
    with v' show ?thesis by (cases "re_receipt (last previous)") (auto simp: result_bind_Inr_iff)
  next
    case (Heartbeat p t)
    with v' last show ?thesis
      by (cases "re_receipt (last previous)") (auto simp: same_process_after_def unwrap_or_def Let_def split: if_splits)
  next
    case (CancellationRequested p q t)
    with v' last show ?thesis
      by (cases "re_receipt (last previous)") (auto simp: same_process_after_def unwrap_or_def Let_def split: if_splits)
  next
    case (CancellationRequestedBeforeIdentity m q t)
    with v' show ?thesis by (cases "re_receipt (last previous)") auto
  next
    case (Terminal out p a f t)
    with v' have sem: "terminal_semantics job previous out p a t"
      by (auto simp: validate_terminal_receipt_def result_bind_Inr_iff)
    show ?thesis
      using sem [unfolded terminal_semantics_def Let_def proc obs last] c(2) Terminal clm
      by (cases "re_receipt (last previous)") (auto simp: unwrap_or_def split: option.splits)
  qed
qed

text \<open>
  A valid chain, by its last state: consecutive states follow the life cycle, and what the loops
  that search from the end find is what the last state says.
\<close>

definition chain_inv :: "canary_receipt list \<Rightarrow> bool" where
  "chain_inv rs \<longleftrightarrow> (rs \<noteq> [] \<longrightarrow>
     (is_prepared (re_receipt (hd rs)) \<or> length rs = 1 \<and> is_terminal_state (re_receipt (hd rs)))
     \<and> (is_prepared (re_receipt (last rs)) \<longrightarrow> length rs = 1)
     \<and> (\<forall>i. Suc i < length rs \<longrightarrow> follows (re_receipt (rs ! i)) (re_receipt (rs ! Suc i)))
     \<and> (\<not> is_terminal_state (re_receipt (last rs)) \<longrightarrow>
          latest_of receipt_process rs = receipt_process (re_receipt (last rs))
          \<and> latest_of receipt_observed_at_ms rs = receipt_observed_at_ms (re_receipt (last rs))
          \<and> (\<forall>m t. re_receipt (last rs) = Launching m t \<longrightarrow> latest_of launch_claimed_at_ms rs = Some t)))"

lemma latest_of_snoc: "latest_of f (rs @ [r]) = (case f (re_receipt r) of Some x \<Rightarrow> Some x | None \<Rightarrow> latest_of f rs)"
  by (simp add: latest_of_def split: option.split)

lemma chain_inv_first:
  assumes "validate_receipt cd job [] r sha = Inr ()"
  shows "chain_inv [r]"
proof -
  from assms have "is_prepared (re_receipt r) \<or> is_terminal_state (re_receipt r)"
    by (cases "re_receipt r")
       (auto simp: validate_receipt_Inr validate_state_def last_state_def same_process_after_def
          validate_terminal_receipt_def terminal_semantics_def latest_of_def result_bind_Inr_iff)
  then show ?thesis by (cases "re_receipt r") (auto simp: chain_inv_def latest_of_def)
qed

lemma chain_inv_open:
  assumes "chain_inv rs" "rs \<noteq> []" "\<not> is_terminal_state (re_receipt (last rs))"
  shows "is_prepared (re_receipt (hd rs))" "is_prepared (re_receipt (last rs)) \<Longrightarrow> rs = [last rs]"
    "latest_of receipt_process rs = receipt_process (re_receipt (last rs))"
    "latest_of receipt_observed_at_ms rs = receipt_observed_at_ms (re_receipt (last rs))"
    "re_receipt (last rs) = Launching m t \<Longrightarrow> latest_of launch_claimed_at_ms rs = Some t"
proof -
  have one: "last rs = hd rs" if "length rs = 1" using that by (cases rs) auto
  show hd: "is_prepared (re_receipt (hd rs))"
    using assms one unfolding chain_inv_def by metis
  show "rs = [last rs]" if "is_prepared (re_receipt (last rs))"
  proof -
    have "length rs = 1" using assms(1,2) that unfolding chain_inv_def by blast
    then show ?thesis by (cases rs) simp_all
  qed
  show "latest_of receipt_process rs = receipt_process (re_receipt (last rs))"
    "latest_of receipt_observed_at_ms rs = receipt_observed_at_ms (re_receipt (last rs))"
    "re_receipt (last rs) = Launching m t \<Longrightarrow> latest_of launch_claimed_at_ms rs = Some t"
    using assms hd unfolding chain_inv_def by blast+
qed

lemma chain_inv_step:
  assumes v: "validate_receipt cd job rs r sha = Inr ()" and IH: "chain_inv rs" and ne: "rs \<noteq> []"
  shows "chain_inv (rs @ [r])"
proof -
  from v ne have "\<not> is_terminal_state (re_receipt (last rs))" by (auto simp: validate_receipt_Inr validate_chain_Inr)
  note inv = chain_inv_open [OF IH ne this]
  from inv(1) obtain n where n: "prepared_nonce (re_receipt (hd rs)) = Some n" by (cases "re_receipt (hd rs)") auto
  have single: "\<forall>m. re_receipt (last rs) = Prepared m \<longrightarrow> rs = [last rs]" using inv(2) by simp
  have f: "follows (re_receipt (last rs)) (re_receipt r)"
    by (rule follows_step [OF v ne n single inv(3,4,5)])
  have steps: "follows (re_receipt ((rs @ [r]) ! i)) (re_receipt ((rs @ [r]) ! Suc i))" if "Suc i < length (rs @ [r])" for i
  proof (cases "Suc i = length rs")
    case True
    then have "last rs = rs ! i" using ne by (metis diff_Suc_1 last_conv_nth)
    with True f show ?thesis by (simp add: nth_append)
  next
    case neq: False
    with that IH ne show ?thesis by (simp add: chain_inv_def nth_append)
  qed
  have "\<not> is_prepared (re_receipt r)" using f by (cases "re_receipt (last rs)"; cases "re_receipt r") auto
  moreover have "latest_of receipt_process (rs @ [r]) = receipt_process (re_receipt r)
      \<and> latest_of receipt_observed_at_ms (rs @ [r]) = receipt_observed_at_ms (re_receipt r)
      \<and> (\<forall>m t. re_receipt r = Launching m t \<longrightarrow> latest_of launch_claimed_at_ms (rs @ [r]) = Some t)"
    if "\<not> is_terminal_state (re_receipt r)"
    using that f inv(3,4) by (cases "re_receipt (last rs)"; cases "re_receipt r") (auto simp: latest_of_snoc)
  ultimately show ?thesis using steps inv(1) ne by (simp add: chain_inv_def)
qed

lemma valid_chain_inv: "valid_chain cd job sha rs \<Longrightarrow> chain_inv rs"
proof (induction rs rule: rev_induct)
  case (snoc r rs)
  then have "validate_receipt cd job rs r sha = Inr ()" "chain_inv rs" by (simp_all add: valid_chain_snoc)
  then show ?case by (cases "rs = []") (auto intro: chain_inv_first chain_inv_step)
qed (simp add: chain_inv_def)

lemma chain_times:
  assumes "chain_inv rs" "i < j" "j < length rs" "receipt_observed_at_ms (re_receipt (rs ! i)) = Some t"
  shows "\<exists>u. (receipt_observed_at_ms (re_receipt (rs ! j)) = Some u
              \<or> (\<exists>out p a f. re_receipt (rs ! j) = Terminal out p a f u)) \<and> t \<le> u"
  using assms(2,3)
proof (induction j)
  case (Suc j)
  from assms(1) Suc.prems have step: "follows (re_receipt (rs ! j)) (re_receipt (rs ! Suc j))"
    by (auto simp: chain_inv_def)
  have "\<exists>u. receipt_observed_at_ms (re_receipt (rs ! j)) = Some u \<and> t \<le> u"
  proof (cases "i = j")
    case False
    with Suc obtain u where "receipt_observed_at_ms (re_receipt (rs ! j)) = Some u
       \<or> (\<exists>out p a f. re_receipt (rs ! j) = Terminal out p a f u)" "t \<le> u" by auto
    with step show ?thesis by auto
  qed (use assms(4) in auto)
  then obtain u where u: "receipt_observed_at_ms (re_receipt (rs ! j)) = Some u" "t \<le> u" by blast
  with step show ?case
    by (cases "re_receipt (rs ! j)"; cases "re_receipt (rs ! Suc j)") auto
qed simp

lemma chain_process:
  assumes "chain_inv rs" "i \<le> j" "j < length rs" "receipt_process (re_receipt (rs ! i)) = Some p"
  shows "receipt_process (re_receipt (rs ! j)) = Some p \<or> (\<exists>out a f u. re_receipt (rs ! j) = Terminal out (Some p) a f u)"
  using assms(2,3)
proof (induction j)
  case (Suc j)
  show ?case
  proof (cases "i = Suc j")
    case False
    from assms(1) Suc.prems have step: "follows (re_receipt (rs ! j)) (re_receipt (rs ! Suc j))"
      by (auto simp: chain_inv_def)
    from Suc False have "receipt_process (re_receipt (rs ! j)) = Some p
        \<or> (\<exists>out a f u. re_receipt (rs ! j) = Terminal out (Some p) a f u)" by auto
    with step show ?thesis by (cases "re_receipt (rs ! j)"; cases "re_receipt (rs ! Suc j)") auto
  qed (use assms(4) in auto)
qed (use assms(4) in auto)

lemma follows_not_prepared: "follows x y \<Longrightarrow> \<not> is_prepared y"
  by (cases x; cases y) auto

lemma follows_launching: "follows x y \<Longrightarrow> is_launching y \<Longrightarrow> is_prepared x"
  by (cases x; cases y) auto

lemma follows_not_terminal: "follows x y \<Longrightarrow> \<not> is_terminal_state x"
  by (cases x; cases y) auto

lemma chain_positions:
  assumes "chain_inv rs" "i < length rs"
  shows "is_prepared (re_receipt (rs ! i)) \<Longrightarrow> i = 0" "is_launching (re_receipt (rs ! i)) \<Longrightarrow> i = 1"
    "is_terminal_state (re_receipt (rs ! i)) \<Longrightarrow> Suc i = length rs"
proof -
  have step: "follows (re_receipt (rs ! k)) (re_receipt (rs ! Suc k))" if "Suc k < length rs" for k
    using assms(1) that by (auto simp: chain_inv_def)
  have prep: "j = 0" if "is_prepared (re_receipt (rs ! j))" "j < length rs" for j
  proof (cases j)
    case (Suc k)
    with step [of k] that show ?thesis by (auto dest: follows_not_prepared)
  qed
  then show "is_prepared (re_receipt (rs ! i)) \<Longrightarrow> i = 0" using assms(2) by blast
  show "i = 1" if l: "is_launching (re_receipt (rs ! i))"
  proof (cases i)
    case 0
    from assms have "is_prepared (re_receipt (rs ! 0)) \<or> is_terminal_state (re_receipt (rs ! 0))"
      by (cases rs) (auto simp: chain_inv_def)
    with 0 l show ?thesis by (cases "re_receipt (rs ! 0)") auto
  next
    case (Suc k)
    with assms(2) step [of k] l have "is_prepared (re_receipt (rs ! k))" by (auto dest: follows_launching)
    with prep Suc assms(2) show ?thesis by simp
  qed
  show "Suc i = length rs" if "is_terminal_state (re_receipt (rs ! i))"
    using that step [of i] assms(2) follows_not_terminal by (cases "Suc i < length rs") auto
qed


text \<open>
  Success is never inferred: a job that loads with the outcome \<open>Succeeded\<close> has a process that carries
  this launch's nonce and the approved executable, and the store holds the response it answers with,
  of the recorded size and digest, which names this job, this operation and this launch and whose
  transfer counters add up.
\<close>

theorem success_has_authentic_response:
  assumes "canary_load cd job_id st = Inr s"
    and "re_receipt (latest s) = Terminal Succeeded process artifact failure completed"
  shows "\<exists>p a nonce bytes response. process = Some p \<and> artifact = Some a
     \<and> pi_launch_nonce_sha256 p = nonce \<and> pi_executable_sha256 p = co_worker_executable_sha256 (cj_operation (sn_job s))
     \<and> re_receipt (hd (sn_receipts s)) = Prepared nonce
     \<and> bt_get (cs_artifacts st) job_id = Some bytes \<and> cd_read_response cd bytes = Inr response
     \<and> length bytes = cf_bytes a \<and> 0 < cf_bytes a \<and> cf_bytes a \<le> sp_max_artifact_bytes (cj_success (sn_job s))
     \<and> cd_sha cd bytes = cf_content_sha256 a \<and> cr_launch_nonce_sha256 response = nonce
     \<and> Inr (cr_job_sha256 response) = job_digest cd (sn_job s)
     \<and> Inr (cr_operation_sha256 response) = operation_digest cd (cj_operation (sn_job s))
     \<and> ad_artifact_bytes_reused (eo_delivery (cr_observation response))
         + ad_artifact_bytes_transferred (eo_delivery (cr_observation response))
         = co_artifact_bytes_total (cj_operation (sn_job s))"
proof -
  note chain = canary_load_chain [OF assms(1)]
  from load_chain_in [OF chain] obtain sha where
    c: "valid_chain cd (sn_job s) sha (sn_receipts s)" "sn_receipts s \<noteq> []"
    by (auto simp: chain_in_def Let_def)
  then have rs: "sn_receipts s = butlast (sn_receipts s) @ [latest s]" by (simp add: latest_def)
  have v: "validate_state cd (sn_job s) (butlast (sn_receipts s)) (latest s) sha = Inr ()"
    using c(1) by (subst (asm) rs) (simp add: valid_chain_snoc validate_receipt_Inr)
  then have t: "terminal_semantics (sn_job s) (butlast (sn_receipts s)) Succeeded process artifact completed"
    and pv: "\<forall>p. process = Some p \<longrightarrow> (\<exists>n. (case butlast (sn_receipts s) of [] \<Rightarrow> None
         | first # _ \<Rightarrow> prepared_nonce (re_receipt first)) = Some n \<and> process_validate (sn_job s) n p = Inr ())"
    and av: "\<forall>a. artifact = Some a \<longrightarrow> cf_bytes a \<noteq> 0 \<and> cf_bytes a \<le> sp_max_artifact_bytes (cj_success (sn_job s))"
    by (auto simp: validate_state_def Let_def assms(2) validate_terminal_receipt_def result_bind_Inr_iff
        required_nonce_def ok_or_def split: option.splits if_splits)
  from t obtain p a where pa: "process = Some p" "artifact = Some a"
    by (auto simp: terminal_semantics_def Let_def)
  from pv pa(1) obtain n where n: "butlast (sn_receipts s) \<noteq> []" "process_validate (sn_job s) n p = Inr ()"
    "prepared_nonce (re_receipt (hd (butlast (sn_receipts s)))) = Some n"
    by (cases "butlast (sn_receipts s)") auto
  have "hd (sn_receipts s) = hd (butlast (sn_receipts s))" using n(1) by (subst rs) (rule hd_append2)
  with n(3) have hd: "re_receipt (hd (sn_receipts s)) = Prepared n"
    by (cases "re_receipt (hd (sn_receipts s))") auto
  from assms pa(2) have "artifact_matches cd job_id a st = Inr True"
    by (auto simp: canary_load_def chain result_bind_Inr_iff split: if_splits)
  then obtain bytes response where b: "bt_get (cs_artifacts st) job_id = Some bytes" "cd_read_response cd bytes = Inr response"
    "response_validate cd (sn_job s) n response = Inr ()" "length bytes = cf_bytes a" "cd_sha cd bytes = cf_content_sha256 a"
    by (auto simp: artifact_matches_def chain result_bind_Inr_iff active_identity_def hd map_err_def
        split: option.splits sum.splits prod.splits)
  from b(3) have resp: "cr_launch_nonce_sha256 response = n" "Inr (cr_job_sha256 response) = job_digest cd (sn_job s)"
    "Inr (cr_operation_sha256 response) = operation_digest cd (cj_operation (sn_job s))"
    "ad_artifact_bytes_reused (eo_delivery (cr_observation response))
       + ad_artifact_bytes_transferred (eo_delivery (cr_observation response))
       = co_artifact_bytes_total (cj_operation (sn_job s))"
    by (auto simp: response_validate_def result_bind_Inr_iff validate_distributed_observation_def Let_def
        u64_checked_add_def split: if_splits)
  from n(2) have "pi_launch_nonce_sha256 p = n" "pi_executable_sha256 p = co_worker_executable_sha256 (cj_operation (sn_job s))"
    by (auto simp: process_validate_def result_bind_Inr_iff split: if_splits)
  with pa hd b resp av show ?thesis by auto
qed

section \<open>Interleavings\<close>

definition canary_wf :: "canary_store \<Rightarrow> bool" where
  "canary_wf st \<longleftrightarrow> bt_wf (cs_envelopes st) \<and> bt_wf (cs_receipts st) \<and> bt_wf (cs_acks st)
     \<and> bt_wf (cs_inputs st) \<and> bt_wf (cs_artifacts st) \<and> bt_wf (cs_logs st)"

definition store_extends :: "canary_store \<Rightarrow> canary_store \<Rightarrow> bool" where
  "store_extends st st' \<longleftrightarrow> bt_get (cs_envelopes st) \<subseteq>\<^sub>m bt_get (cs_envelopes st')
     \<and> bt_get (cs_receipts st) \<subseteq>\<^sub>m bt_get (cs_receipts st') \<and> bt_get (cs_artifacts st) \<subseteq>\<^sub>m bt_get (cs_artifacts st')
     \<and> bt_get (cs_acks st) \<subseteq>\<^sub>m bt_get (cs_acks st')"

text \<open>
  One access to the store by any process. A receipt is published after a snapshot that was loaded
  from this store at some earlier time; the label names the job when the access created a launch
  claim, which is when its process goes on to call the backend.
\<close>

inductive canary_access :: "'c canary_codec \<Rightarrow> canary_store \<Rightarrow> string option \<Rightarrow> canary_store \<Rightarrow> bool" for cd :: "'c canary_codec" where
  publish: "load_receipt_chain cd job_id st0 = Inr s \<Longrightarrow> store_extends st0 st \<Longrightarrow>
     publish_next cd s state st = Inr (outcome, st') \<Longrightarrow>
     canary_access cd st (if is_launching state \<and> outcome = Created then Some job_id else None) st'"
| submit: "canary_submit cd job st = (r, st') \<Longrightarrow> canary_access cd st None st'"
| input: "record_input cd job bytes st = (r, st') \<Longrightarrow> canary_access cd st None st'"
| acknowledge: "acknowledge_wake cd job_id ack st = (r, st') \<Longrightarrow> canary_access cd st None st'"
| log: "record_log_segment cd lossy job_id n bytes st = (r, st') \<Longrightarrow> canary_access cd st None st'"
| artifact: "record_artifact cd job_id response st = (r', st') \<Longrightarrow> canary_access cd st None st'"

inductive canary_run :: "'c canary_codec \<Rightarrow> canary_store \<Rightarrow> string option list \<Rightarrow> canary_store \<Rightarrow> bool" for cd :: "'c canary_codec" where
  finished: "canary_run cd st [] st"
| step: "canary_access cd st l st' \<Longrightarrow> canary_run cd st' ls st'' \<Longrightarrow> canary_run cd st (l # ls) st''"

lemma store_put_Inr:
  assumes "store_put name k v m = Inr (outcome, m')" "bt_wf m"
  shows "bt_wf m'" "bt_get m' = (bt_get m)(k \<mapsto> v)" "bt_get m \<subseteq>\<^sub>m bt_get m'" "outcome = Created \<longleftrightarrow> bt_get m k = None"
    "outcome = AlreadyPresent \<Longrightarrow> m' = m"
  using assms by (auto simp: store_put_def bt_get_insert bt_wf_insert map_le_def split: option.splits if_splits)

lemma store_extends_refl [simp]: "store_extends st st"
  by (simp add: store_extends_def)

lemma written_cases:
  assumes "written st r = (res, st')"
  obtains "st' = st" | a where "r = Inr (a, st')" "res = Inr a"
  using assms by (auto simp: written_def split: sum.splits)

text \<open>An access that writes no receipt.\<close>

definition quiet :: "canary_store \<Rightarrow> canary_store \<Rightarrow> bool" where
  "quiet st st' \<longleftrightarrow> canary_wf st' \<and> store_extends st st' \<and> cs_receipts st' = cs_receipts st"

lemma quiet_refl: "canary_wf st \<Longrightarrow> quiet st st"
  by (simp add: quiet_def)

lemma quiet_put:
  assumes "canary_wf st"
  shows "store_put n k v (cs_envelopes st) = Inr (o1, m1) \<Longrightarrow> quiet st (st\<lparr>cs_envelopes := m1\<rparr>)"
    "store_put n k v2 (cs_acks st) = Inr (o2, m2) \<Longrightarrow> quiet st (st\<lparr>cs_acks := m2\<rparr>)"
    "store_put n k v3 (cs_inputs st) = Inr (o3, m3) \<Longrightarrow> quiet st (st\<lparr>cs_inputs := m3\<rparr>)"
    "store_put n k v4 (cs_artifacts st) = Inr (o4, m4) \<Longrightarrow> quiet st (st\<lparr>cs_artifacts := m4\<rparr>)"
    "store_put n k5 v5 (cs_logs st) = Inr (o5, m5) \<Longrightarrow> quiet st (st\<lparr>cs_logs := m5\<rparr>)"
  using assms by (auto simp: quiet_def canary_wf_def store_extends_def dest: store_put_Inr)

lemma quiet_written:
  assumes "written st r = (res, st')" "canary_wf st" "\<And>a st1. r = Inr (a, st1) \<Longrightarrow> quiet st st1"
  shows "quiet st st'"
  using assms(1) by (cases rule: written_cases) (use assms(2,3) in \<open>auto intro: quiet_refl\<close>)

lemma put_receipt_Inr:
  assumes "put_receipt cd job_id r st = Inr (outcome, st')" "canary_wf st"
  shows "canary_wf st'" "store_extends st st'"
    "bt_get (cs_receipts st') = (bt_get (cs_receipts st))((job_id, re_sequence r) \<mapsto> Readable r)"
    "outcome = Created \<longleftrightarrow> bt_get (cs_receipts st) (job_id, re_sequence r) = None"
    "outcome = AlreadyPresent \<Longrightarrow> st' = st"
    "cs_envelopes st' = cs_envelopes st" "cs_artifacts st' = cs_artifacts st" "cs_acks st' = cs_acks st"
proof -
  from assms(1) obtain m where m: "store_put (receipt_key job_id (re_sequence r)) (job_id, re_sequence r) (Readable r) (cs_receipts st)
      = Inr (outcome, m)" "st' = st\<lparr>cs_receipts := m\<rparr>"
    by (auto simp: put_receipt_def result_bind_Inr_iff)
  from assms(2) have "bt_wf (cs_receipts st)" by (simp add: canary_wf_def)
  note p = store_put_Inr [OF m(1) this]
  show "canary_wf st'" "store_extends st st'"
    "bt_get (cs_receipts st') = (bt_get (cs_receipts st))((job_id, re_sequence r) \<mapsto> Readable r)"
    "outcome = Created \<longleftrightarrow> bt_get (cs_receipts st) (job_id, re_sequence r) = None"
    "outcome = AlreadyPresent \<Longrightarrow> st' = st"
    "cs_envelopes st' = cs_envelopes st" "cs_artifacts st' = cs_artifacts st" "cs_acks st' = cs_acks st"
    using p assms(2) m(2) by (auto simp: canary_wf_def store_extends_def)
qed

lemma publish_Inr:
  assumes "publish_next cd s state st = Inr (outcome, st')" and "chain_in cd job_id st0 s"
  obtains r where "put_receipt cd job_id r st = Inr (outcome, st')" "re_sequence r = length (sn_receipts s)"
    "re_receipt r = state" "\<not> snapshot_terminal s"
    "is_launching state \<Longrightarrow> length (sn_receipts s) = 1 \<and> is_prepared (re_receipt (latest s))"
proof -
  from assms(2) obtain sha where c: "cj_job_id (sn_job s) = job_id" "job_digest cd (sn_job s) = Inr sha"
    "valid_chain cd (sn_job s) sha (sn_receipts s)" "sn_receipts s \<noteq> []"
    by (auto simp: chain_in_def Let_def)
  from assms(1) c obtain r where r: "put_receipt cd job_id r st = Inr (outcome, st')" "re_receipt r = state"
    "validate_receipt cd (sn_job s) (sn_receipts s) r sha = Inr ()"
    by (auto simp: publish_next_def next_receipt_def result_bind_Inr_iff Let_def)
  then have nt: "re_sequence r = length (sn_receipts s)" "\<not> snapshot_terminal s"
    using c(4) by (auto simp: validate_receipt_Inr validate_chain_Inr snapshot_terminal_def latest_def)
  from r c have "chain_inv (sn_receipts s @ [r])"
    by (intro valid_chain_inv [of cd "sn_job s" sha]) (simp add: valid_chain_snoc)
  from chain_positions(2) [OF this, of "length (sn_receipts s)"] r(2) nt
  have one: "length (sn_receipts s) = 1" if "is_launching state" using that by simp
  moreover have "is_prepared (re_receipt (latest s))" if "is_launching state"
  proof -
    from \<open>chain_inv (sn_receipts s @ [r])\<close> one [OF that] have "follows (re_receipt (latest s)) (re_receipt r)"
      by (cases "sn_receipts s") (auto simp: chain_inv_def latest_def)
    with that r(2) show ?thesis by (auto dest: follows_launching)
  qed
  ultimately show thesis using that r nt by blast
qed

text \<open>Submitting writes the envelope and the first receipt, if they are not there.\<close>

lemma submit_store:
  assumes "canary_submit cd job st = (res, st')" "canary_wf st"
  shows "canary_wf st' \<and> store_extends st st'
     \<and> (cs_receipts st' = cs_receipts st \<or> (\<exists>r. bt_get (cs_receipts st') = (bt_get (cs_receipts st))((cj_job_id job, 0) \<mapsto> r)))
     \<and> (\<forall>x. res = Inr x \<longrightarrow> bt_get (cs_receipts st') (cj_job_id job, 0) \<noteq> None)"
proof (cases "job_digest cd job")
  case (Inl e)
  with assms show ?thesis by (auto simp: canary_submit_def)
next
  case (Inr sha)
  define env where "env = result_bind (store_put (envelope_key (cj_job_id job)) (cj_job_id job) (Readable job) (cs_envelopes st))
             (\<lambda>(outcome, m). Inr (outcome, st\<lparr>cs_envelopes := m\<rparr>))"
  define r where "r = \<lparr>re_schema_version = receipt_schema_version, re_job_sha256 = sha, re_sequence = 0,
               re_previous_receipt_sha256 = None, re_receipt = Prepared (launch_nonce cd job sha)\<rparr>"
  show ?thesis
  proof (cases env)
    case Inl': (Inl e)
    with assms Inr show ?thesis by (auto simp: canary_submit_def env_def [symmetric] written_def custody_bind_def)
  next
    case Inr': (Inr x)
    then obtain o1 st1 where env: "env = Inr (o1, st1)" by (cases x) auto
    then have q: "quiet st st1" using assms(2) by (auto simp: env_def result_bind_Inr_iff intro: quiet_put)
    have sub: "canary_submit cd job st = custody_bind (validate_receipt cd job [] r sha, st1) (\<lambda>_ st1.
            custody_bind (written st1 (put_receipt cd (cj_job_id job) r st1)) (\<lambda>receipt_outcome st2.
              (Inr (if o1 = Created \<or> receipt_outcome = Created then Created else AlreadyPresent), st2)))"
      using Inr env by (simp add: canary_submit_def env_def [symmetric] written_def custody_bind_def r_def Let_def)
    show ?thesis
    proof (cases "\<exists>o2 st2. validate_receipt cd job [] r sha = Inr () \<and> put_receipt cd (cj_job_id job) r st1 = Inr (o2, st2)")
      case False
      then have "st' = st1 \<and> (\<exists>e. res = Inl e)"
        using assms(1) unfolding sub by (auto simp: custody_bind_def written_def split: sum.splits)
      with q show ?thesis by (auto simp: quiet_def)
    next
      case True
      then obtain o2 st2 where p: "validate_receipt cd job [] r sha = Inr ()" "put_receipt cd (cj_job_id job) r st1 = Inr (o2, st2)"
        by blast
      then have "st' = st2" using assms(1) unfolding sub by (auto simp: custody_bind_def written_def)
      moreover have "canary_wf st1" using q by (simp add: quiet_def)
      note put = put_receipt_Inr [OF p(2) this]
      ultimately show ?thesis using q put
        by (auto simp: quiet_def r_def store_extends_def dest: map_le_trans)
    qed
  qed
qed

lemma acknowledge_quiet:
  assumes "acknowledge_wake cd job_id ack st = (r, st')" "canary_wf st"
  shows "quiet st st'"
  using assms unfolding acknowledge_wake_def
  by (rule quiet_written)
     (auto simp: result_bind_Inr_iff split: if_split_asm option.split_asm, metis quiet_put(2) [OF assms(2)])

lemma access_quiet:
  assumes "canary_access cd st l st'" "canary_wf st"
  shows "quiet st st' \<and> l = None
    \<or> (\<exists>job r. canary_submit cd job st = (r, st') \<and> l = None)
    \<or> (\<exists>job_id st0 s state outcome. load_receipt_chain cd job_id st0 = Inr s \<and> store_extends st0 st
         \<and> publish_next cd s state st = Inr (outcome, st')
         \<and> l = (if is_launching state \<and> outcome = Created then Some job_id else None))"
  using assms(1)
proof cases
  case (publish job_id st0 s state outcome)
  then show ?thesis by blast
next
  case (submit job r)
  then show ?thesis by blast
next
  case (input job bytes r)
  from input(2) assms(2) have "quiet st st'" unfolding record_input_def
    by (rule quiet_written) (auto simp: result_bind_Inr_iff split: if_splits intro: quiet_put [OF assms(2)])
  with input show ?thesis by simp
next
  case (acknowledge job_id ack r)
  with acknowledge_quiet [OF acknowledge(2) assms(2)] show ?thesis by simp
next
  case (log lossy job_id n bytes r)
  from log(2) assms(2) have "quiet st st'" unfolding record_log_segment_def
    by (rule quiet_written) (auto simp: result_bind_Inr_iff split: if_splits intro: quiet_put [OF assms(2)])
  with log show ?thesis by simp
next
  case (artifact job_id response r')
  from artifact(2) assms(2) have "quiet st st'" unfolding record_artifact_def
    by (rule quiet_written) (auto simp: result_bind_Inr_iff Let_def split: if_splits intro: quiet_put [OF assms(2)])
  with artifact show ?thesis by simp
qed

lemma access_grows:
  assumes "canary_access cd st l st'" "canary_wf st"
  shows "canary_wf st' \<and> store_extends st st'
     \<and> (\<forall>job_id. l = Some job_id \<longrightarrow>
          bt_get (cs_receipts st) (job_id, 1) = None \<and> bt_get (cs_receipts st') (job_id, 1) \<noteq> None)"
  using access_quiet [OF assms]
proof (elim disjE exE conjE)
  fix job :: canary_job and r assume "canary_submit cd job st = (r, st')" "l = None"
  with submit_store [OF _ assms(2)] show ?thesis by blast
next
  fix job_id st0 s state outcome
  assume s: "load_receipt_chain cd job_id st0 = Inr s" "publish_next cd s state st = Inr (outcome, st')"
    and l: "l = (if is_launching state \<and> outcome = Created then Some job_id else None)"
  from publish_Inr [OF s(2) load_chain_in [OF s(1)]] obtain r where
    r: "put_receipt cd job_id r st = Inr (outcome, st')" "re_sequence r = length (sn_receipts s)"
    "is_launching state \<Longrightarrow> length (sn_receipts s) = 1" by metis
  from put_receipt_Inr [OF r(1) assms(2)] r(2,3) l show ?thesis by auto
qed (auto simp: quiet_def)

lemma extends_receipt:
  "store_extends st st' \<Longrightarrow> bt_get (cs_receipts st) k = Some r \<Longrightarrow> bt_get (cs_receipts st') k = Some r"
  unfolding store_extends_def map_le_def by (metis domI)

lemma run_claimed:
  assumes "canary_run cd st ls st'" "canary_wf st"
  shows "canary_wf st' \<and> store_extends st st'
    \<and> (bt_get (cs_receipts st) (job_id, 1) \<noteq> None \<longrightarrow> Some job_id \<notin> set ls)
    \<and> (Some job_id \<in> set ls \<longrightarrow> bt_get (cs_receipts st') (job_id, 1) \<noteq> None) \<and> count_list ls (Some job_id) \<le> 1"
  using assms
proof induction
  case (step st l st' ls st'')
  from access_grows [OF step(1) step.prems] have a: "canary_wf st'" "store_extends st st'"
    "l = Some job_id \<longrightarrow> bt_get (cs_receipts st) (job_id, 1) = None \<and> bt_get (cs_receipts st') (job_id, 1) \<noteq> None"
    by auto
  from step.IH [OF a(1)] have IH: "canary_wf st''" "store_extends st' st''"
    "bt_get (cs_receipts st') (job_id, 1) \<noteq> None \<longrightarrow> Some job_id \<notin> set ls"
    "Some job_id \<in> set ls \<longrightarrow> bt_get (cs_receipts st'') (job_id, 1) \<noteq> None" "count_list ls (Some job_id) \<le> 1" by auto
  have "store_extends st st''" using a(2) IH(2) by (auto simp: store_extends_def dest: map_le_trans)
  moreover have kept: "bt_get (cs_receipts st'') (job_id, 1) \<noteq> None" if "bt_get (cs_receipts st') (job_id, 1) \<noteq> None"
    using that extends_receipt [OF IH(2)] by blast
  moreover have "bt_get (cs_receipts st') (job_id, 1) \<noteq> None" if "bt_get (cs_receipts st) (job_id, 1) \<noteq> None"
    using that extends_receipt [OF a(2)] by blast
  moreover have "count_list ls (Some job_id) = 0" if "Some job_id \<notin> set ls"
    using that by (simp add: count_list_0_iff)
  ultimately show ?case using a(3) IH by (cases "l = Some job_id") auto
qed simp


section \<open>Terminal receipts are final\<close>

lemma load_receipts_same:
  "(\<And>i. bt_get (cs_receipts st') (job_id, i) = bt_get (cs_receipts st) (job_id, i)) \<Longrightarrow>
   load_receipts cd job sha job_id st' n previous = load_receipts cd job sha job_id st n previous"
  by (induction n arbitrary: previous) (auto split: option.split intro!: arg_cong2 [of _ _ _ _ result_bind] ext)

lemma load_stable:
  assumes "canary_load cd job_id st = Inr s" "store_extends st st'"
    and same: "\<And>i. bt_get (cs_receipts st') (job_id, i) = bt_get (cs_receipts st) (job_id, i)"
  shows "canary_load cd job_id st' = Inr s"
proof -
  from load_chain_in [OF canary_load_chain [OF assms(1)]] have "bt_get (cs_envelopes st) job_id = Some (Readable (sn_job s))"
    by (simp add: chain_in_def Let_def)
  with assms(2) have "bt_get (cs_envelopes st') job_id = bt_get (cs_envelopes st) job_id"
    by (auto simp: store_extends_def map_le_def dom_def)
  then have chain: "load_receipt_chain cd job_id st' = load_receipt_chain cd job_id st"
    by (simp add: load_receipt_chain_def load_receipts_same [OF same] same Let_def cong: if_cong)
  have "artifact_matches cd job_id a st' = Inr True" if "artifact_matches cd job_id a st = Inr True" for a
  proof -
    from that obtain bytes where "bt_get (cs_artifacts st) job_id = Some bytes"
      by (auto simp: artifact_matches_def split: option.splits)
    with assms(2) have "bt_get (cs_artifacts st') job_id = bt_get (cs_artifacts st) job_id"
      by (auto simp: store_extends_def map_le_def dom_def)
    with that show ?thesis by (simp add: artifact_matches_def chain cong: option.case_cong)
  qed
  with assms(1) show ?thesis
    by (auto simp: canary_load_def chain result_bind_Inr_iff split: option.splits if_splits)
qed

text \<open>A snapshot from an earlier store is a prefix of what the store holds now.\<close>

lemma snapshot_prefix:
  assumes "chain_in cd job_id st0 s0" "store_extends st0 st" "chain_in cd job_id st s"
  shows "length (sn_receipts s0) \<le> length (sn_receipts s)
     \<and> (\<forall>i < length (sn_receipts s0). sn_receipts s0 ! i = sn_receipts s ! i)"
proof -
  have at: "bt_get (cs_receipts st) (job_id, i) = Some (Readable (sn_receipts s0 ! i))" if "i < length (sn_receipts s0)" for i
    using assms(1,2) that by (auto simp: chain_in_def Let_def intro: extends_receipt)
  then have "length (sn_receipts s0) \<le> length (sn_receipts s)"
    using assms(3) by (metis (mono_tags, lifting) chain_in_def not_le option.distinct(1))
  with at assms(3) show ?thesis by (auto simp: chain_in_def Let_def)
qed

lemma terminal_publish:
  assumes "load_receipt_chain cd job_id st0 = Inr s0" "store_extends st0 st" "publish_next cd s0 state st = Inr (outcome, st')"
    "canary_wf st" "load_receipt_chain cd job_id st = Inr s" "snapshot_terminal s"
  shows "st' = st \<and> outcome \<noteq> Created"
proof -
  note S0 = load_chain_in [OF assms(1)] and S = load_chain_in [OF assms(5)]
  from publish_Inr [OF assms(3) S0] obtain r where r: "put_receipt cd job_id r st = Inr (outcome, st')"
    "re_sequence r = length (sn_receipts s0)" "\<not> snapshot_terminal s0" by metis
  note put = put_receipt_Inr [OF r(1) assms(4)]
  from snapshot_prefix [OF S0 assms(2) S] have pre: "length (sn_receipts s0) \<le> length (sn_receipts s)"
    "\<forall>i < length (sn_receipts s0). sn_receipts s0 ! i = sn_receipts s ! i" by auto
  have "length (sn_receipts s0) \<noteq> length (sn_receipts s)"
  proof
    assume "length (sn_receipts s0) = length (sn_receipts s)"
    with pre(2) have "sn_receipts s0 = sn_receipts s" by (simp add: list_eq_iff_nth_eq)
    with r(3) assms(6) show False by (simp add: snapshot_terminal_def latest_def)
  qed
  with pre(1) S r(2) have "bt_get (cs_receipts st) (job_id, re_sequence r) \<noteq> None"
    by (auto simp: chain_in_def Let_def)
  with put(4,5) show ?thesis by (cases outcome) auto
qed

lemma terminal_step:
  assumes "canary_access cd st l st'" "canary_wf st" "canary_load cd job_id st = Inr s" "snapshot_terminal s"
  shows "canary_load cd job_id st' = Inr s \<and> l \<noteq> Some job_id"
proof -
  note S = load_chain_in [OF canary_load_chain [OF assms(3)]]
  have grow: "store_extends st st'" using access_grows [OF assms(1,2)] by simp
  from access_quiet [OF assms(1,2)] show ?thesis
  proof (elim disjE exE conjE)
    assume "quiet st st'" "l = None"
    then show ?thesis using load_stable [OF assms(3) grow] by (simp add: quiet_def)
  next
    fix job :: canary_job and r assume sub: "canary_submit cd job st = (r, st')" and l: "l = None"
    have "bt_get (cs_receipts st') (job_id, i) = bt_get (cs_receipts st) (job_id, i)" for i
    proof (cases "i = 0")
      case True
      from S have "bt_get (cs_receipts st) (job_id, 0) \<noteq> None" by (auto simp: chain_in_def Let_def)
      with True extends_receipt [OF grow] show ?thesis by fastforce
    qed (use submit_store [OF sub assms(2)] in auto)
    from load_stable [OF assms(3) grow this] l show ?thesis by simp
  next
    fix job_id' st0 s0 state outcome
    assume p: "load_receipt_chain cd job_id' st0 = Inr s0" "store_extends st0 st" "publish_next cd s0 state st = Inr (outcome, st')"
      and l: "l = (if is_launching state \<and> outcome = Created then Some job_id' else None)"
    show ?thesis
    proof (cases "job_id' = job_id")
      case True
      with terminal_publish [OF p assms(2)] assms(3,4) canary_load_chain [OF assms(3)] l show ?thesis by auto
    next
      case False
      from publish_Inr [OF p(3) load_chain_in [OF p(1)]] obtain r where "put_receipt cd job_id' r st = Inr (outcome, st')" by metis
      from put_receipt_Inr(3) [OF this assms(2)] False
      have "bt_get (cs_receipts st') (job_id, i) = bt_get (cs_receipts st) (job_id, i)" for i by simp
      from load_stable [OF assms(3) grow this] False l show ?thesis by simp
    qed
  qed
qed

text \<open>
  A terminal receipt is final: whatever any controller does afterwards, with whatever snapshots, the
  job loads as it was, and it is not launched.
\<close>

theorem terminal_is_final:
  assumes "canary_run cd st ls st'" "canary_wf st" "canary_load cd job_id st = Inr s" "snapshot_terminal s"
  shows "canary_load cd job_id st' = Inr s \<and> Some job_id \<notin> set ls"
  using assms
proof induction
  case (step st l st' ls st'')
  from terminal_step [OF step(1) step.prems] access_grows [OF step(1) step.prems(1)] step.IH step.prems(3)
  show ?case by auto
qed simp

text \<open>
  A wake is delivered until it is acknowledged and not afterwards: a terminal job selected for a wake
  reports it at every reconciliation before an acknowledgement, and an accepted acknowledgement makes
  every later reconciliation report none, without touching the store.
\<close>

theorem wake_until_acknowledged:
  assumes "canary_load cd job_id st = Inr s" "terminal_of (re_receipt (latest s)) = Some (outcome, completed)"
    and "selected_for_wake (sn_job s) outcome" and "canary_wf st"
  shows "(bt_get (cs_acks st) job_id = None \<longrightarrow>
            reconcile_canary_job cd be job_id now st = (Inr (wake_transition s True), st))
     \<and> (\<forall>ack r st'. acknowledge_wake cd job_id ack st = (Inr r, st') \<longrightarrow>
            reconcile_canary_job cd be job_id now st' = (Inr (wake_transition s False), st'))"
proof -
  from load_chain_in [OF canary_load_chain [OF assms(1)]] have id: "cj_job_id (sn_job s) = job_id"
    by (simp add: chain_in_def Let_def)
  have fin: "snapshot_terminal s" using assms(2) by (cases "re_receipt (latest s)") (auto simp: snapshot_terminal_def)
  have rec: "reconcile_canary_job cd be job_id now st1 = (replay_transition cd st1 s, st1)"
    if "canary_load cd job_id st1 = Inr s" for st1
    using that fin by (simp add: reconcile_canary_job_def custody_bind_def)
  show ?thesis
  proof (intro conjI impI allI)
    assume "bt_get (cs_acks st) job_id = None"
    with rec [OF assms(1)] assms(2,3) id show "reconcile_canary_job cd be job_id now st = (Inr (wake_transition s True), st)"
      by (simp add: replay_transition_def wake_pending_def)
  next
    fix ack r st' assume ack: "acknowledge_wake cd job_id ack st = (Inr r, st')"
    note q = acknowledge_quiet [OF ack assms(4)]
    from ack assms(1,2,3) obtain m where m: "ack_authentic cd s ack completed = Inr ()"
      "store_put (wake_ack_key job_id) job_id (Readable ack) (cs_acks st) = Inr (r, m)" "st' = st\<lparr>cs_acks := m\<rparr>"
      by (auto simp: acknowledge_wake_def written_def result_bind_Inr_iff split: sum.splits)
    from assms(4) have "bt_wf (cs_acks st)" by (simp add: canary_wf_def)
    from store_put_Inr(2) [OF m(2) this] m(3) have "bt_get (cs_acks st') job_id = Some (Readable ack)" by simp
    moreover from q have "canary_load cd job_id st' = Inr s" by (intro load_stable [OF assms(1)]) (simp_all add: quiet_def)
    ultimately show "reconcile_canary_job cd be job_id now st' = (Inr (wake_transition s False), st')"
      using rec m(1) assms(2,3) id by (simp add: replay_transition_def wake_pending_def read_file_def)
  qed
qed


section \<open>Overdue jobs\<close>

lemma load_receipts_complete:
  assumes "valid_chain cd job sha rs" "bt_get (cs_receipts st) (job_id, length rs) = None"
    and "\<And>i. i < length rs \<Longrightarrow> bt_get (cs_receipts st) (job_id, i) = Some (Readable (rs ! i))"
    and "k \<le> length rs" "length rs \<le> k + n"
  shows "load_receipts cd job sha job_id st n (take k rs) = Inr rs"
  using assms(4,5)
proof (induction n arbitrary: k)
  case (Suc n)
  show ?case
  proof (cases "k = length rs")
    case False
    with Suc.prems have k: "k < length rs" by simp
    with assms(1) have "validate_receipt cd job (take k rs) (rs ! k) sha = Inr ()" by (simp add: valid_chain_def)
    with k assms(3) [OF k] Suc.IH [of "Suc k"] Suc.prems show ?thesis
      by (simp add: read_file_def take_Suc_conv_app_nth)
  qed (use assms(2) in simp)
qed simp

lemma append_next:
  assumes load: "load_receipt_chain cd job_id st = Inr s" and wf: "canary_wf st"
    and room: "length (sn_receipts s) < cj_max_heartbeat_receipts (sn_job s) + 5"
    and clear: "\<And>i. length (sn_receipts s) < i \<Longrightarrow> bt_get (cs_receipts st) (job_id, i) = None"
    and r: "next_receipt cd s state = Inr r" and ns: "success_artifact state = None"
  shows "\<exists>st'. canary_append cd s state st = (Inr (s\<lparr>sn_receipts := sn_receipts s @ [r]\<rparr>), st')
     \<and> canary_load cd job_id st' = Inr (s\<lparr>sn_receipts := sn_receipts s @ [r]\<rparr>) \<and> re_receipt r = state"
proof -
  let ?s = "s\<lparr>sn_receipts := sn_receipts s @ [r]\<rparr>"
  from load_chain_in [OF load] obtain sha where c: "bt_get (cs_envelopes st) job_id = Some (Readable (sn_job s))"
    "cj_job_id (sn_job s) = job_id" "job_digest cd (sn_job s) = Inr sha" "valid_chain cd (sn_job s) sha (sn_receipts s)"
    "sn_receipts s \<noteq> []" "\<And>i. i < length (sn_receipts s) \<Longrightarrow> bt_get (cs_receipts st) (job_id, i) = Some (Readable (sn_receipts s ! i))"
    "bt_get (cs_receipts st) (job_id, length (sn_receipts s)) = None"
    by (auto simp: chain_in_def Let_def)
  from load have ids: "validate_id job_id ''canary job id'' = Inr ()" "job_validate cd (sn_job s) = Inr ()"
    using c(1) by (auto simp: load_receipt_chain_def result_bind_Inr_iff ok_or_def read_file_def Let_def split: if_splits)
  from r c(3) have v: "validate_receipt cd (sn_job s) (sn_receipts s) r sha = Inr ()" and state: "re_receipt r = state"
    by (auto simp: next_receipt_def result_bind_Inr_iff Let_def)
  then obtain d where d: "receipt_digest cd r = Inr d" "re_sequence r = length (sn_receipts s)"
    "\<not> is_terminal_state (re_receipt (last (sn_receipts s)))"
    using c(5) by (auto simp: validate_receipt_Inr validate_chain_Inr)
  obtain st' where put: "put_receipt cd job_id r st = Inr (Created, st')"
    using d c(7) by (simp add: put_receipt_def store_put_def)
  note st' = put_receipt_Inr [OF put wf, unfolded d(2)]
  have "load_receipts cd (sn_job s) sha job_id st' (cj_max_heartbeat_receipts (sn_job s) + 5) (take 0 (sn_receipts s @ [r]))
      = Inr (sn_receipts s @ [r])"
    by (rule load_receipts_complete)
       (use v c(4,6) clear room in \<open>auto simp: valid_chain_snoc st'(3) nth_append\<close>)
  then have "load_receipt_chain cd job_id st' = Inr ?s"
    using c ids room clear by (simp add: load_receipt_chain_def st'(3,6) ok_or_def read_file_def)
  then have "canary_load cd job_id st' = Inr ?s" using ns state by (simp add: canary_load_def latest_def)
  moreover have "publish_next cd s state st = Inr (Created, st')" using r put c(2) by (simp add: publish_next_def)
  ultimately show ?thesis using d(3) c(2) state
    by (auto simp: canary_append_def snapshot_terminal_def latest_def written_def custody_bind_def)
qed

lemma last_process_valid:
  assumes "valid_chain cd job sha rs" "rs \<noteq> []" "receipt_process (re_receipt (last rs)) = Some p"
  obtains n where "prepared_nonce (re_receipt (hd rs)) = Some n" "process_validate job n p = Inr ()"
proof -
  from assms(2) obtain qs r where rs: "rs = qs @ [r]" by (metis append_butlast_last_id)
  with assms have v: "validate_receipt cd job qs r sha = Inr ()" by (simp add: valid_chain_snoc)
  from rs assms(3) have p: "receipt_process (re_receipt r) = Some p" by simp
  then have "\<not> is_terminal_state (re_receipt r)" by (cases "re_receipt r") auto
  with chain_inv_open(1) [OF valid_chain_inv [OF assms(1)]] rs have pr: "is_prepared (re_receipt (hd rs))" by simp
  with p rs obtain q qs' where qs: "qs = q # qs'" by (cases qs; cases "re_receipt r") auto
  from pr rs qs obtain n where n: "prepared_nonce (re_receipt q) = Some n" by (cases "re_receipt q") auto
  have "process_validate job n p = Inr ()"
    using v p unfolding validate_receipt_Inr validate_state_def qs list.case n Let_def
    by (cases "re_receipt r") (auto simp: result_bind_Inr_iff required_nonce_def ok_or_def same_process_after_def Let_def
        split: option.splits if_splits)
  with that n rs qs show thesis by simp
qed

lemma next_terminal:
  assumes load: "load_receipt_chain cd job_id st = Inr s"
    and p: "receipt_process (re_receipt (latest s)) = Some p"
    and now: "last_observed_at_ms s \<le> now" and out: "outcome \<noteq> Succeeded"
  shows "\<exists>r. next_receipt cd s (Terminal outcome (Some p) None failure now) = Inr r"
proof -
  let ?rs = "sn_receipts s"
  from load_chain_in [OF load] obtain sha where c: "job_digest cd (sn_job s) = Inr sha"
    "valid_chain cd (sn_job s) sha ?rs" "?rs \<noteq> []" by (auto simp: chain_in_def Let_def)
  have lst: "latest s = last ?rs" by (simp add: latest_def)
  from p lst have nt: "\<not> is_terminal_state (re_receipt (last ?rs))" "\<not> follows_launch_claim (last_state ?rs)"
    "last_state ?rs \<noteq> None"
    using c(3) by (cases "re_receipt (last ?rs)"; simp add: last_state_def)+
  note inv = chain_inv_open [OF valid_chain_inv [OF c(2)] c(3) nt(1)]
  from last_process_valid [OF c(2,3)] p lst obtain n where n: "prepared_nonce (re_receipt (hd ?rs)) = Some n"
    "process_validate (sn_job s) n p = Inr ()" by metis
  obtain qs where rs: "?rs = qs @ [last ?rs]" using c(3) by (metis append_butlast_last_id)
  with c(2) valid_chain_snoc [of cd "sn_job s" sha qs "last ?rs"]
  have "validate_receipt cd (sn_job s) qs (last ?rs) sha = Inr ()" by simp
  then obtain d where d: "receipt_digest cd (last ?rs) = Inr d" and "re_sequence (last ?rs) = length qs"
    unfolding validate_receipt_Inr validate_chain_Inr by blast
  then have seq: "Suc (re_sequence (last ?rs)) = length ?rs" using arg_cong [OF rs, of length] by simp
  have "(case ?rs of [] \<Rightarrow> None | first # _ \<Rightarrow> prepared_nonce (re_receipt first)) = Some n"
    using n(1) c(3) by (cases ?rs) auto
  moreover have "terminal_semantics (sn_job s) ?rs outcome (Some p) None now"
    using inv(3) p lst now nt(2) out by (simp add: terminal_semantics_def Let_def last_observed_at_ms_def)
  ultimately have final: "validate_terminal_receipt cd (sn_job s) ?rs outcome (Some p) None now
      (case ?rs of [] \<Rightarrow> None | first # _ \<Rightarrow> prepared_nonce (re_receipt first)) = Inr ()"
    using n(2) by (simp add: validate_terminal_receipt_def required_nonce_def ok_or_def corrupt_unless_def)
  define r where "r = \<lparr>re_schema_version = receipt_schema_version, re_job_sha256 = sha, re_sequence = length ?rs,
    re_previous_receipt_sha256 = Some d, re_receipt = Terminal outcome (Some p) None failure now\<rparr>"
  have "\<exists>e. receipt_digest cd r = Inr e" using c(3) by (simp add: r_def receipt_digest_def)
  then have "validate_receipt cd (sn_job s) ?rs r sha = Inr ()"
    using final d nt(1) by (simp add: validate_receipt_Inr validate_chain_Inr validate_state_def Let_def r_def)
  with c(1) d seq lst have "next_receipt cd s (Terminal outcome (Some p) None failure now) = Inr r"
    by (simp add: next_receipt_def Let_def r_def)
  then show ?thesis ..
qed

lemma finish_terminal_closes:
  assumes load: "canary_load cd job_id st = Inr s" and wf: "canary_wf st"
    and p: "receipt_process (re_receipt (latest s)) = Some p"
    and room: "length (sn_receipts s) < cj_max_heartbeat_receipts (sn_job s) + 5"
    and clear: "\<And>i. length (sn_receipts s) < i \<Longrightarrow> bt_get (cs_receipts st) (job_id, i) = None"
    and now: "last_observed_at_ms s \<le> now" "0 < now" and out: "outcome \<noteq> Succeeded"
  shows "\<exists>t st' f. finish_terminal cd s (terminal_receipt cd outcome (Some p) None failure now) st = (Inr t, st')
     \<and> canary_load cd job_id st' = Inr (ct_snapshot t)
     \<and> re_receipt (latest (ct_snapshot t)) = Terminal outcome (Some p) None f now"
proof -
  define f where "f = map_option (\<lambda>m. domain_digest cd ''shipyard.canary-job.failure.v1'' (cd_text cd m)) failure"
  have t: "terminal_receipt cd outcome (Some p) None failure now = Inr (Terminal outcome (Some p) None f now)"
    using now(2) out by (simp add: terminal_receipt_def f_def)
  note chain = canary_load_chain [OF load]
  from next_terminal [OF chain p now(1) out] obtain r where
    r: "next_receipt cd s (Terminal outcome (Some p) None f now) = Inr r" by blast
  have "success_artifact (Terminal outcome (Some p) None f now) = None" using out by (cases outcome) auto
  from append_next [OF chain wf room clear r this] show ?thesis
    by (auto simp: finish_terminal_def custody_bind_def t terminal_transition_def wake_transition_def latest_def)
qed


section \<open>A concrete job\<close>

definition sample_delivery :: artifact_delivery where
  "sample_delivery = \<lparr>ad_mode = FullTransfer, ad_artifact_bytes_total = 3, ad_artifact_bytes_reused = 0,
     ad_artifact_bytes_transferred = 3, ad_interruption = None\<rparr>"

definition sample_response :: "unit canary_response" where
  "sample_response = \<lparr>cr_schema_version = 1, cr_operation_sha256 = ''d'', cr_job_sha256 = ''d'', cr_launch_nonce_sha256 = ''d'',
     cr_observation = \<lparr>eo_delivery = sample_delivery, eo_setup_ms = 0, eo_transfer_ms = 0, eo_verification_ms = 0,
       eo_dispatch_ms = 0, eo_shard_execution_ms = 0, eo_worker_active_ms = 0, eo_submit_to_receipt_ms = 1, eo_caches = []\<rparr>\<rparr>"

definition canary_sample_codec :: "unit canary_codec" where
  "canary_sample_codec = \<lparr>cd_sha = (\<lambda>_. ''d''), cd_operation = (\<lambda>_. []), cd_job = (\<lambda>_. []), cd_nonce = (\<lambda>_ _. []),
     cd_receipt = (\<lambda>_. []), cd_request = (\<lambda>_. []), cd_text = (\<lambda>_. []), cd_response = (\<lambda>_. ''resp''),
     cd_read_response = (\<lambda>_. Inr sample_response)\<rparr>"

definition sample_operation :: canary_operation where
  "sample_operation = \<lparr>co_repository_id = 1, co_repository = ''o/r'', co_target = ''mac'', co_target_triple = ''t'',
     co_builder_host_id = ''b'', co_worker_host_id = ''w'', co_manifest_sha256 = ''d'', co_request_sha256 = ''d'',
     co_release_sha256 = ''d'', co_builder_session_generation = 1, co_worker_session_generation = 1,
     co_cache_authority_sha256 = ''d'', co_storage_authority_sha256 = ''d'', co_artifact_bytes_total = 3,
     co_invocation_authority_sha256 = ''d'', co_adapter_executable_sha256 = ''d'', co_worker_executable_sha256 = ''d''\<rparr>"

definition sample_canary :: canary_job where
  "sample_canary = \<lparr>cj_schema_version = 3, cj_job_id = ''j'', cj_correlation_id = ''c'',
     cj_owner = \<lparr>cw_controller_id = ''k'', cw_controller_incarnation = ''i'', cw_approval_sha256 = ''d''\<rparr>,
     cj_operation = sample_operation, cj_approved_at_ms = 1, cj_deadline_at_ms = 99, cj_heartbeat_interval_ms = 1,
     cj_heartbeat_timeout_ms = 9, cj_max_heartbeat_receipts = 1,
     cj_success = \<lparr>sp_required_exit_code = 0, sp_artifact_schema_version = 1, sp_max_artifact_bytes = 9\<rparr>,
     cj_cancellation = \<lparr>cn_grace_ms = 1, cn_cancel_at_deadline = True\<rparr>,
     cj_wake = \<lparr>wp_on_success = True, wp_on_actionable_failure = True\<rparr>,
     cj_logs = \<lparr>lp_segment_bytes = 9, lp_max_segments = 1\<rparr>\<rparr>"

definition sample_process :: process_identity where
  "sample_process = \<lparr>pi_pid = 7, pi_tree_id = ''t'', pi_birth_token = ''b'', pi_os_start_identity_sha256 = ''d'',
     pi_launch_nonce_sha256 = ''d'', pi_executable_sha256 = ''d'', pi_launched_at_ms = 5\<rparr>"

definition sample_artifact :: canary_artifact where
  "sample_artifact = \<lparr>cf_schema_version = 1, cf_operation_sha256 = ''d'', cf_content_sha256 = ''d'', cf_bytes = 4\<rparr>"

definition sample_receipt :: "nat \<Rightarrow> receipt_state \<Rightarrow> canary_receipt" where
  "sample_receipt n state = \<lparr>re_schema_version = 1, re_job_sha256 = ''d'', re_sequence = n,
     re_previous_receipt_sha256 = (if n = 0 then None else Some ''d''), re_receipt = state\<rparr>"

definition sample_receipts :: "canary_receipt list" where
  "sample_receipts = [sample_receipt 0 (Prepared ''d''), sample_receipt 1 (Launching ''d'' 5),
     sample_receipt 2 (Running sample_process),
     sample_receipt 3 (Terminal Succeeded (Some sample_process) (Some sample_artifact) None 9)]"

definition sample_custody :: "nat \<Rightarrow> canary_store" where
  "sample_custody n = \<lparr>cs_envelopes = [(''j'', Readable sample_canary)],
     cs_receipts = take n [((''j'', 0), Readable (sample_receipts ! 0)), ((''j'', 1), Readable (sample_receipts ! 1)),
       ((''j'', 2), Readable (sample_receipts ! 2)), ((''j'', 3), Readable (sample_receipts ! 3))],
     cs_acks = [], cs_inputs = [], cs_artifacts = [(''j'', ''resp'')], cs_logs = []\<rparr>"

lemma sample_digest [simp]: "domain_digest canary_sample_codec d x = ''d''"
  by (simp add: domain_digest_def canary_sample_codec_def)

lemma sample_operation_digest: "operation_validate sample_operation = Inr ()" "operation_digest canary_sample_codec sample_operation = Inr ''d''"
  by (simp_all add: operation_digest_def operation_validate_def sample_operation_def validate_id_def id_byte_def
      is_ascii_alphanumeric_def is_ascii_alphabetic_def is_ascii_digit_def suffix_def)

lemma sample_job_digest: "job_validate canary_sample_codec sample_canary = Inr ()" "job_digest canary_sample_codec sample_canary = Inr ''d''"
  using sample_operation_digest
  by (simp_all add: job_digest_def job_validate_def sample_canary_def validate_id_def id_byte_def is_ascii_alphanumeric_def
      is_ascii_alphabetic_def is_ascii_digit_def max_heartbeats_def max_record_bytes_def max_log_segment_bytes_def
      max_log_segments_def)

lemma sample_receipt_digest: "receipt_digest canary_sample_codec (sample_receipt n state) = Inr ''d''"
  by (simp add: receipt_digest_def sample_receipt_def receipt_schema_version_def)

lemma sample_process_valid: "process_validate sample_canary ''d'' sample_process = Inr ()"
  by (simp add: process_validate_def sample_process_def sample_canary_def sample_operation_def validate_id_def id_byte_def
      is_ascii_alphanumeric_def is_ascii_alphabetic_def is_ascii_digit_def)

lemma sample_fields: "re_receipt (sample_receipt n x) = x" "re_sequence (sample_receipt n x) = n"
  "re_job_sha256 (sample_receipt n x) = ''d''"
  "re_previous_receipt_sha256 (sample_receipt n x) = (if n = 0 then None else Some ''d'')"
  "cj_approved_at_ms sample_canary = 1" "pi_launched_at_ms sample_process = 5"
  "cj_operation sample_canary = sample_operation" "cj_job_id sample_canary = ''j''"
  "cj_max_heartbeat_receipts sample_canary = 1"
  by (simp_all add: sample_receipt_def sample_canary_def sample_process_def)

lemma canary_sample_valid:
  assumes "i < 4"
  shows "validate_receipt canary_sample_codec sample_canary (take i sample_receipts) (sample_receipts ! i) ''d'' = Inr ()"
proof -
  have art: "cf_schema_version sample_artifact = sp_artifact_schema_version (cj_success sample_canary)"
    "cf_operation_sha256 sample_artifact = ''d''" "cf_bytes sample_artifact = 4" "sp_max_artifact_bytes (cj_success sample_canary) = 9"
    by (simp_all add: sample_artifact_def sample_canary_def)
  from assms consider "i = 0" | "i = 1" | "i = 2" | "i = 3" by linarith
  then show ?thesis
    by cases (simp_all add: validate_receipt_Inr validate_chain_Inr validate_state_def Let_def sample_receipts_def
      sample_receipt_digest sample_fields launch_nonce_def last_state_def required_nonce_def ok_or_def
      sample_process_valid validate_terminal_receipt_def terminal_semantics_def latest_of_def unwrap_or_def
      sample_operation_digest art result_bind_Inr_iff)
qed

lemma sample_get:
  "bt_get (cs_receipts (sample_custody n)) (''j'', i) = (if i < min n 4 then Some (Readable (sample_receipts ! i)) else None)"
proof -
  consider "n = 0" | "n = 1" | "n = 2" | "n = 3" | "4 \<le> n" by linarith
  then show ?thesis
    by cases (auto simp: sample_custody_def bt_get_def sample_receipts_def less_Suc_eq numeral_eq_Suc)
qed

lemma sample_load_receipts:
  assumes "n \<le> 4" "k \<le> n"
  shows "load_receipts canary_sample_codec sample_canary ''d'' ''j'' (sample_custody n) (6 - k) (take k sample_receipts)
     = Inr (take n sample_receipts)"
  using assms(2)
proof (induction "n - k" arbitrary: k)
  case 0
  then have "k = n" using assms by simp
  moreover have "length (take n sample_receipts) = n" using assms(1) by (simp add: sample_receipts_def)
  moreover obtain m where "6 - n = Suc m" using assms(1) by (cases "6 - n") auto
  ultimately show ?case using sample_get [of n n] by simp
next
  case (Suc d)
  then have k: "k < n" "d = n - Suc k" by auto
  have len: "length (take k sample_receipts) = k" using k assms(1) by (simp add: sample_receipts_def)
  have "6 - k = Suc (6 - Suc k)" using k assms(1) by simp
  moreover have "take k sample_receipts @ [sample_receipts ! k] = take (Suc k) sample_receipts"
    using k assms(1) by (intro take_Suc_conv_app_nth [symmetric]) (simp add: sample_receipts_def)
  moreover have "load_receipts canary_sample_codec sample_canary ''d'' ''j'' (sample_custody n) (6 - Suc k) (take (Suc k) sample_receipts)
     = Inr (take n sample_receipts)" using Suc.hyps(1) [OF k(2)] k(1) by simp
  ultimately show ?case using k assms(1) sample_get [of n k] canary_sample_valid [of k] len by (simp add: read_file_def)
qed

lemma sample_chain:
  assumes "0 < n" "n \<le> 4"
  shows "load_receipt_chain canary_sample_codec ''j'' (sample_custody n) = Inr \<lparr>sn_job = sample_canary, sn_receipts = take n sample_receipts\<rparr>"
proof -
  have "bt_get (cs_envelopes (sample_custody n)) ''j'' = Some (Readable sample_canary)"
    by (simp add: sample_custody_def bt_get_def)
  moreover have "validate_id ''j'' ''canary job id'' = Inr ()" by code_simp
  moreover have "sample_receipts \<noteq> []" by (simp add: sample_receipts_def)
  ultimately show ?thesis
    using assms sample_load_receipts [of n 0] sample_get [of n 6] sample_job_digest
    by (simp add: load_receipt_chain_def sample_fields ok_or_def read_file_def)
qed

lemma sample_load: "canary_load canary_sample_codec ''j'' (sample_custody 4) = Inr \<lparr>sn_job = sample_canary, sn_receipts = sample_receipts\<rparr>"
proof -
  let ?s = "\<lparr>sn_job = sample_canary, sn_receipts = sample_receipts\<rparr>"
  have chain: "load_receipt_chain canary_sample_codec ''j'' (sample_custody 4) = Inr ?s"
    using sample_chain [of 4] by (simp add: sample_receipts_def)
  have "response_validate canary_sample_codec sample_canary ''d'' sample_response = Inr ()"
    by (simp add: response_validate_def sample_fields sample_operation_digest sample_job_digest)
       (simp add: sample_response_def sample_canary_def sample_operation_def validate_distributed_observation_def
          sample_delivery_def u64_checked_add_def u64_max_def)
  moreover have "bt_get (cs_artifacts (sample_custody 4)) ''j'' = Some ''resp''"
    by (simp add: sample_custody_def bt_get_def)
  moreover have "cd_read_response canary_sample_codec ''resp'' = Inr sample_response" "cd_sha canary_sample_codec ''resp'' = ''d''"
    by (simp_all add: canary_sample_codec_def)
  moreover have "\<exists>p. active_identity ?s = Inr (''d'', p)"
    by (simp add: active_identity_def sample_receipts_def sample_fields)
  ultimately have "artifact_matches canary_sample_codec ''j'' sample_artifact (sample_custody 4) = Inr True"
    by (auto simp: artifact_matches_def chain map_err_def sample_artifact_def)
  moreover have "success_artifact (re_receipt (latest ?s)) = Some sample_artifact"
    by (simp add: latest_def sample_receipts_def sample_fields)
  ultimately show ?thesis by (simp add: canary_load_def chain)
qed

lemma sample_wf: "canary_wf (sample_custody n)"
proof -
  have "bt_wf [((''j'', 0 :: nat), Readable (sample_receipts ! 0)), ((''j'', 1), Readable (sample_receipts ! 1)),
     ((''j'', 2), Readable (sample_receipts ! 2)), ((''j'', 3), Readable (sample_receipts ! 3))]"
    by (simp add: bt_wf_def less_prod_def)
  then show ?thesis
    by (simp add: canary_wf_def sample_custody_def) (auto simp: bt_wf_def sorted_wrt_take take_map [symmetric])
qed


theorem success_has_authentic_response_witness:
  "\<exists>bytes. bt_get (cs_artifacts (sample_custody 4)) ''j'' = Some bytes \<and> length bytes = 4"
proof -
  have "re_receipt (latest \<lparr>sn_job = sample_canary, sn_receipts = sample_receipts\<rparr>)
      = Terminal Succeeded (Some sample_process) (Some sample_artifact) None 9"
    by (simp add: latest_def sample_receipts_def sample_fields)
  from success_has_authentic_response [OF sample_load this] show ?thesis by (auto simp: sample_artifact_def)
qed

theorem terminal_is_final_witness:
  "canary_load canary_sample_codec ''j'' (snd (canary_submit canary_sample_codec sample_canary (sample_custody 4)))
   = Inr \<lparr>sn_job = sample_canary, sn_receipts = sample_receipts\<rparr>"
proof -
  have "snapshot_terminal \<lparr>sn_job = sample_canary, sn_receipts = sample_receipts\<rparr>"
    by (simp add: snapshot_terminal_def latest_def sample_receipts_def sample_fields)
  from terminal_is_final [OF canary_run.step [OF canary_access.submit [OF surjective_pairing] canary_run.finished] sample_wf sample_load this]
  show ?thesis by simp
qed

definition sample_backend :: "string \<Rightarrow> backend" where
  "sample_backend error = \<lparr>be_launch = (\<lambda>_ _ _. Inl error), be_discover = (\<lambda>_ _. Inl error), be_observe = (\<lambda>_ _. Inl error),
     be_cancel = (\<lambda>_ _ _. Inl error)\<rparr>"

theorem wake_until_acknowledged_witness:
  "reconcile_canary_job canary_sample_codec (sample_backend ''e'') ''j'' 50 (sample_custody 4)
   = (Inr (wake_transition \<lparr>sn_job = sample_canary, sn_receipts = sample_receipts\<rparr> True), sample_custody 4)"
proof -
  have "terminal_of (re_receipt (latest \<lparr>sn_job = sample_canary, sn_receipts = sample_receipts\<rparr>)) = Some (Succeeded, 9)"
    "bt_get (cs_acks (sample_custody 4)) ''j'' = None" "selected_for_wake sample_canary Succeeded"
    by (simp_all add: latest_def sample_receipts_def sample_fields sample_custody_def bt_get_def selected_for_wake_def sample_canary_def)
  with wake_until_acknowledged [OF sample_load _ _ sample_wf, of Succeeded 9] show ?thesis by simp
qed




end
