(* ===== verification/Test_Inventory.thy ===== *)
theory Test_Inventory
  imports Proof_Records
begin

text \<open>
  Test inventories, \<open>TestInventory\<close> of \<open>src/src/parallel_proof.rs\<close>: canonicalisation and
  validation of the tests, of the locks and fixtures they name and of the dependency graph, with the
  loop that takes the tests whose dependencies have all been taken.

  The lemmas show which inventories are accepted, in particular that the dependency check accepts
  exactly the acyclic graphs, and that the canonical inventory does not depend on the order of the
  input.
\<close>

section \<open>Canonical tests\<close>

definition relation_counts :: "test_case \<Rightarrow> nat list" where
  "relation_counts t = [length (tc_dependencies t), length (tc_fixture_setup t), length (tc_fixture_required t),
     length (tc_fixture_cleanup t), length (tc_resource_locks t), length (tc_required_capabilities t)]"

text \<open>The running total stays at most \<open>MAX_RELATIONS\<close>, so \<open>checked_add\<close> does not overflow.\<close>

fun relation_total :: "nat \<Rightarrow> nat list \<Rightarrow> unit proof_result" where
  "relation_total n [] = Inr ()"
| "relation_total n (c # cs) =
     (if max_relations < n + c then Inl (LimitExceeded ''test relations'' max_relations (n + c))
      else relation_total (n + c) cs)"

definition ensure_test_relation_bound :: "test_case list \<Rightarrow> unit proof_result" where
  "ensure_test_relation_bound tests = relation_total 0 (concat (map relation_counts tests))"

definition sort_unique_strings :: "string \<Rightarrow> string list \<Rightarrow> string list proof_result" where
  "sort_unique_strings field values =
     result_bind (check_all (validate_identifier field) values) (\<lambda>_.
     result_bind (reject_adjacent_duplicates field (sort values)) (\<lambda>_. Inr (sort values)))"

definition sort_unique_locks :: "resource_lock list \<Rightarrow> resource_lock list proof_result" where
  "sort_unique_locks locks =
     result_bind (check_all (\<lambda>lock. validate_identifier ''resource lock'' (fst lock)) locks) (\<lambda>_.
       if distinct_adj (sort locks) then Inr (sort locks) else Inl (NonCanonical ''resource locks''))"

definition canonicalize_test :: "test_case \<Rightarrow> test_case proof_result" where
  "canonicalize_test t =
     result_bind (validate_identifier ''test id'' (tc_id t)) (\<lambda>_.
     result_bind (sort_unique_strings ''dependencies'' (tc_dependencies t)) (\<lambda>dependencies.
     result_bind (sort_unique_strings ''fixture setup'' (tc_fixture_setup t)) (\<lambda>setup.
     result_bind (sort_unique_strings ''fixture required'' (tc_fixture_required t)) (\<lambda>required.
     result_bind (sort_unique_strings ''fixture cleanup'' (tc_fixture_cleanup t)) (\<lambda>cleanup.
     result_bind (sort_unique_strings ''required capabilities'' (tc_required_capabilities t)) (\<lambda>capabilities.
     result_bind (sort_unique_locks (tc_resource_locks t)) (\<lambda>locks.
       Inr (t\<lparr>tc_dependencies := dependencies, tc_fixture_setup := setup, tc_fixture_required := required,
              tc_fixture_cleanup := cleanup, tc_required_capabilities := capabilities,
              tc_resource_locks := locks\<rparr>))))))))"

definition validate_canonical_test :: "test_case \<Rightarrow> unit proof_result" where
  "validate_canonical_test t = result_bind (canonicalize_test t) (\<lambda>canonical.
     if canonical = t then Inr () else Inl (NonCanonical ''test metadata''))"

section \<open>The dependency graph\<close>

definition bt_collect :: "('k::linorder \<times> 'v) list \<Rightarrow> ('k \<times> 'v) list" where
  "bt_collect es = fold (\<lambda>(k, v) m. bt_insert k v m) es []"

definition push_dependent :: "string \<Rightarrow> string \<Rightarrow> (string \<times> string list) list \<Rightarrow> (string \<times> string list) list" where
  "push_dependent dependency dependent m =
     bt_insert dependency (unwrap_or (bt_get m dependency) [] @ [dependent]) m"

definition dependents_of :: "test_case list \<Rightarrow> (string \<times> string list) list" where
  "dependents_of tests = fold (\<lambda>t. fold (\<lambda>d. push_dependent d (tc_id t)) (tc_dependencies t)) tests []"

text \<open>Assignment through \<open>get_mut\<close>: the entry of the key is changed in place.\<close>

fun bt_set :: "'k \<Rightarrow> 'v \<Rightarrow> ('k \<times> 'v) list \<Rightarrow> ('k \<times> 'v) list" where
  "bt_set k v [] = []"
| "bt_set k v ((k', v') # m) = (if k = k' then (k, v) # m else (k', v') # bt_set k v m)"

text \<open>The inner loop over the tests that depend on the one taken; a count of zero cannot be decremented.\<close>

fun release :: "string list \<Rightarrow> (string \<times> nat) list \<Rightarrow> string list \<Rightarrow> ((string \<times> nat) list \<times> string list) proof_result" where
  "release [] indegree ready = Inr (indegree, ready)"
| "release (child # children) indegree ready = (case bt_get indegree child of
       None \<Rightarrow> Inl (UnknownTest child)
     | Some n \<Rightarrow>
         if n = 0 then Inl (Panicked ''attempt to subtract with overflow'')
         else release children (bt_set child (n - 1) indegree)
                (if n - 1 = 0 then insort_insert child ready else ready))"

lemma bt_set_sum:
  "bt_get m k = Some c \<Longrightarrow> sum_list (map snd (bt_set k (c' :: nat) m)) + c = sum_list (map snd m) + c'"
  by (induction m) (auto simp: bt_get_def split: if_splits)

lemma bt_get_set: "bt_get (bt_set k v m) = (if bt_get m k = None then bt_get m else (bt_get m)(k \<mapsto> v))"
  by (induction m) (auto simp: bt_get_def fun_eq_iff)

lemma release_measure:
  assumes "release cs indegree ready = Inr (indegree', ready')"
  shows "2 * sum_list (map snd indegree') + length ready' \<le> 2 * sum_list (map snd indegree) + length ready"
  using assms
proof (induction cs arbitrary: indegree ready)
  case (Cons child cs)
  then obtain n where c: "bt_get indegree child = Some n" "0 < n"
    "release cs (bt_set child (n - 1) indegree) (if n - 1 = 0 then insort_insert child ready else ready) = Inr (indegree', ready')"
    by (auto split: option.splits if_splits)
  have "length (insort_insert child ready) \<le> Suc (length ready)" by (simp add: insort_insert_key_def)
  with Cons.IH [OF c(3)] bt_set_sum [OF c(1), of "n - 1"] c(2)
  show ?case by (auto split: if_splits)
qed simp

text \<open>The loop that takes the least ready test, with the number of tests taken so far.\<close>

function take_ready ::
  "(string \<times> string list) list \<Rightarrow> (string \<times> nat) list \<Rightarrow> string list \<Rightarrow> nat \<Rightarrow> nat proof_result" where
  "take_ready dependents indegree [] visited = Inr visited"
| "take_ready dependents indegree (tid # ready) visited =
     (case release (unwrap_or (bt_get dependents tid) []) indegree ready of
        Inl e \<Rightarrow> Inl e
      | Inr (indegree', ready') \<Rightarrow> take_ready dependents indegree' ready' (visited + 1))"
  by pat_completeness auto
termination
  by (relation "measure (\<lambda>(d, indegree, ready, v). 2 * sum_list (map snd indegree) + length ready)")
     (auto dest!: release_measure)

definition validate_dependency_acyclic :: "test_inventory \<Rightarrow> unit proof_result" where
  "validate_dependency_acyclic iv =
     (let tests = iv_tests iv;
          indegree = bt_collect (map (\<lambda>t. (tc_id t, length (tc_dependencies t))) tests);
          ready = map fst (filter (\<lambda>(_, n). n = 0) indegree)
      in result_bind (take_ready (dependents_of tests) indegree ready 0) (\<lambda>visited.
           if visited = length tests then Inr ()
           else Inl (TopologyViolation ''dependency graph contains a cycle'')))"

section \<open>Inventories\<close>

fun check_dependencies :: "string list \<Rightarrow> string \<Rightarrow> string list \<Rightarrow> unit proof_result" where
  "check_dependencies ids tid [] = Inr ()"
| "check_dependencies ids tid (d # ds) =
     (if d = tid then Inl (TopologyViolation (''test '' @ tid @ '' depends on itself''))
      else if d \<notin> set ids then Inl (UnknownTest d)
      else check_dependencies ids tid ds)"

text \<open>A loop that inserts into a map and fails when a key already has another value.\<close>

fun note_all :: "('k \<Rightarrow> proof_error) \<Rightarrow> ('k::linorder \<times> 'v) list \<Rightarrow> ('k \<times> 'v) list \<Rightarrow> ('k \<times> 'v) list proof_result" where
  "note_all err [] m = Inr m"
| "note_all err ((k, v) # ps) m =
     (if is_some_and (bt_get m k) (\<lambda>previous. previous \<noteq> v) then Inl (err k)
      else note_all err ps (bt_insert k v m))"

definition note_locks :: "resource_lock list \<Rightarrow> (string \<times> lock_scope) list \<Rightarrow> (string \<times> lock_scope) list proof_result" where
  "note_locks = note_all (\<lambda>name. TopologyViolation (''resource lock '' @ name @ '' has inconsistent scope''))"

definition count_fixtures :: "string list \<Rightarrow> (string \<times> nat) list \<Rightarrow> (string \<times> nat) list" where
  "count_fixtures = fold (\<lambda>f m. bt_insert f (unwrap_or (bt_get m f) 0 + 1) m)"

fun check_tests ::
  "string list \<Rightarrow> test_case list \<Rightarrow> (string \<times> nat) list \<Rightarrow> (string \<times> lock_scope) list \<Rightarrow> (string \<times> nat) list proof_result" where
  "check_tests ids [] setups scopes = Inr setups"
| "check_tests ids (t # ts) setups scopes =
     result_bind (validate_canonical_test t) (\<lambda>_.
     result_bind (check_dependencies ids (tc_id t) (tc_dependencies t)) (\<lambda>_.
     result_bind (note_locks (tc_resource_locks t) scopes) (\<lambda>scopes'.
       check_tests ids ts (count_fixtures (tc_fixture_setup t) setups) scopes')))"

definition check_fixture :: "(string \<times> nat) list \<Rightarrow> string \<Rightarrow> unit proof_result" where
  "check_fixture setups f = (if bt_get setups f = None
     then Inl (TopologyViolation (''fixture '' @ f @ '' has no setup test'')) else Inr ())"

definition inventory_validate :: "proof_codec \<Rightarrow> test_inventory \<Rightarrow> unit proof_result" where
  "inventory_validate cd iv =
     result_bind (validate_version (iv_schema_version iv)) (\<lambda>_.
     result_bind (ensure_count ''tests'' (length (iv_tests iv)) 1 max_tests) (\<lambda>_.
     result_bind (ensure_test_relation_bound (iv_tests iv)) (\<lambda>_.
     result_bind (ensure_serialized_bound cd ''inventory bytes'' (InventoryValue iv)) (\<lambda>_.
       if \<not> strictly_sorted (map tc_id (iv_tests iv)) then Inl (NonCanonical ''test ids'')
       else result_bind (check_tests (map tc_id (iv_tests iv)) (iv_tests iv) [] []) (\<lambda>setups.
         result_bind (check_all (\<lambda>t. check_all (check_fixture setups) (tc_fixture_required t @ tc_fixture_cleanup t))
                        (iv_tests iv)) (\<lambda>_.
           validate_dependency_acyclic iv))))))"

definition inventory_new :: "proof_codec \<Rightarrow> test_case list \<Rightarrow> test_inventory proof_result" where
  "inventory_new cd tests =
     result_bind (ensure_count ''tests'' (length tests) 1 max_tests) (\<lambda>_.
     result_bind (ensure_test_relation_bound tests) (\<lambda>_.
     result_bind (ensure_serialized_bound cd ''inventory input bytes'' (TestsValue tests)) (\<lambda>_.
     result_bind (collect_results (map canonicalize_test tests)) (\<lambda>canonical.
     let ordered = sort_key tc_id canonical in
     result_bind (reject_adjacent_duplicates ''test ids'' (map tc_id ordered)) (\<lambda>_.
     let iv = \<lparr>iv_schema_version = proof_schema_version, iv_tests = ordered\<rparr> in
     result_bind (inventory_validate cd iv) (\<lambda>_. Inr iv))))))"

definition inventory_digest :: "proof_codec \<Rightarrow> test_inventory \<Rightarrow> sha256 proof_result" where
  "inventory_digest cd iv = result_bind (inventory_validate cd iv) (\<lambda>_.
     Inr (canonical_digest cd ''shipyard.parallel-proof.inventory.v1'' (InventoryValue iv)))"

section \<open>Maps built by loops\<close>

lemma bt_get_Nil: "bt_get [] = Map.empty"
  by (simp add: bt_get_def fun_eq_iff)

lemma bt_wf_insert_all: "bt_wf m \<Longrightarrow> bt_wf (fold (\<lambda>(k, v) m. bt_insert k v m) es m)"
  by (induction es arbitrary: m) (auto simp: bt_wf_insert)

lemma bt_get_insert_all:
  "bt_wf m \<Longrightarrow> distinct (map fst es) \<Longrightarrow>
   bt_get (fold (\<lambda>(k, v) m. bt_insert k v m) es m) = bt_get m ++ map_of es"
proof (induction es arbitrary: m)
  case (Cons e es)
  obtain k v where e: "e = (k, v)" by (cases e)
  with Cons.prems have "k \<notin> dom (map_of es)" by (simp add: dom_map_of_conv_image_fst)
  then have none: "map_of es k = None" by auto
  have "bt_get (fold (\<lambda>(k, v) m. bt_insert k v m) (e # es) m) = bt_get (bt_insert k v m) ++ map_of es"
    using Cons.IH [OF bt_wf_insert [OF Cons.prems(1)]] Cons.prems(2) by (simp add: e)
  also have "\<dots> = bt_get m ++ map_of (e # es)"
    by (rule ext) (simp add: e map_add_def bt_get_insert [OF Cons.prems(1)] none split: option.splits)
  finally show ?case .
qed simp

lemma bt_get_collect: "distinct (map fst es) \<Longrightarrow> bt_get (bt_collect es) = map_of es"
  using bt_get_insert_all [of "[]" es] by (simp add: bt_collect_def fun_eq_iff map_add_def bt_get_def split: option.splits)

lemma bt_get_collect_key:
  assumes "distinct (map key ts)"
  shows "bt_get (bt_collect (map (\<lambda>t. (key t, f t)) ts)) k = Some v \<longleftrightarrow> (\<exists>t \<in> set ts. k = key t \<and> v = f t)"
    "bt_get (bt_collect (map (\<lambda>t. (key t, f t)) ts)) k = None \<longleftrightarrow> k \<notin> key ` set ts"
proof -
  have d: "distinct (map fst (map (\<lambda>t. (key t, f t)) ts))" using assms by (simp add: comp_def)
  show "bt_get (bt_collect (map (\<lambda>t. (key t, f t)) ts)) k = Some v \<longleftrightarrow> (\<exists>t \<in> set ts. k = key t \<and> v = f t)"
    unfolding bt_get_collect [OF d] map_of_eq_Some_iff [OF d] by auto
  show "bt_get (bt_collect (map (\<lambda>t. (key t, f t)) ts)) k = None \<longleftrightarrow> k \<notin> key ` set ts"
    unfolding bt_get_collect [OF d] map_of_eq_None_iff by (simp add: image_image)
qed

lemma bt_wf_collect [simp]: "bt_wf (bt_collect es)"
  by (simp add: bt_collect_def bt_wf_insert_all)

lemma single_valued_insert:
  "single_valued (insert (k, v) A) \<longleftrightarrow> single_valued A \<and> (\<forall>w. (k, w) \<in> A \<longrightarrow> w = v)"
  by (auto simp: single_valued_def)

lemma note_all_Inr:
  assumes "bt_wf m"
  shows "note_all err ps m = Inr m' \<longleftrightarrow>
     single_valued (Map.graph (bt_get m) \<union> set ps) \<and> m' = fold (\<lambda>(k, v) m. bt_insert k v m) ps m"
  using assms
proof (induction ps arbitrary: m)
  case Nil
  then show ?case by (auto simp: single_valued_def Map.graph_def)
next
  case (Cons p ps)
  obtain k v where p: "p = (k, v)" by (cases p)
  show ?case
  proof (cases "is_some_and (bt_get m k) (\<lambda>previous. previous \<noteq> v)")
    case True
    then show ?thesis using p by (auto simp: is_some_and_def single_valued_def Map.graph_def split: option.splits)
  next
    case False
    then have "Map.graph (bt_get (bt_insert k v m)) = insert (k, v) (Map.graph (bt_get m))"
      using Cons.prems by (auto simp: bt_get_insert Map.graph_def is_some_and_def split: if_splits option.splits)
    with False p Cons.IH [OF bt_wf_insert [OF Cons.prems]] show ?thesis by simp
  qed
qed

lemma note_all_graph:
  assumes "note_all err ps m = Inr m'" "bt_wf m"
  shows "bt_wf m'" "Map.graph (bt_get m') = Map.graph (bt_get m) \<union> set ps"
proof -
  from assms note_all_Inr [OF assms(2)] show "bt_wf m'" by (auto intro: bt_wf_insert_all)
  show "Map.graph (bt_get m') = Map.graph (bt_get m) \<union> set ps"
    using assms
  proof (induction ps arbitrary: m)
    case (Cons p ps)
    obtain k v where p: "p = (k, v)" by (cases p)
    with Cons.prems have n: "\<not> is_some_and (bt_get m k) (\<lambda>previous. previous \<noteq> v)" "note_all err ps (bt_insert k v m) = Inr m'"
      by (auto split: if_splits)
    then have "Map.graph (bt_get (bt_insert k v m)) = insert (k, v) (Map.graph (bt_get m))"
      using Cons.prems by (auto simp: bt_get_insert Map.graph_def is_some_and_def split: if_splits option.splits)
    with Cons.IH [OF n(2) bt_wf_insert [OF Cons.prems(2)]] p show ?case by simp
  qed simp
qed

section \<open>Valid inventories\<close>

lemma sort_unique_strings_fix:
  "sort_unique_strings field xs = Inr xs \<longleftrightarrow> (\<forall>x \<in> set xs. validate_identifier field x = Inr ()) \<and> strictly_sorted xs"
proof -
  have "sort xs = xs \<longleftrightarrow> sorted xs" by (metis sorted_sort sorted_sort_id)
  then show ?thesis
    by (auto simp: sort_unique_strings_def result_bind_Inr_iff reject_adjacent_duplicates_Inr
        strictly_sorted_iff strict_sorted_iff)
qed

text \<open>What \<open>validate_canonical_test\<close> accepts.\<close>

definition canonical_test :: "test_case \<Rightarrow> bool" where
  "canonical_test t \<longleftrightarrow> validate_identifier ''test id'' (tc_id t) = Inr ()
     \<and> sort_unique_strings ''dependencies'' (tc_dependencies t) = Inr (tc_dependencies t)
     \<and> sort_unique_strings ''fixture setup'' (tc_fixture_setup t) = Inr (tc_fixture_setup t)
     \<and> sort_unique_strings ''fixture required'' (tc_fixture_required t) = Inr (tc_fixture_required t)
     \<and> sort_unique_strings ''fixture cleanup'' (tc_fixture_cleanup t) = Inr (tc_fixture_cleanup t)
     \<and> sort_unique_strings ''required capabilities'' (tc_required_capabilities t) = Inr (tc_required_capabilities t)
     \<and> sort_unique_locks (tc_resource_locks t) = Inr (tc_resource_locks t)"

lemma validate_canonical_test_Inr: "validate_canonical_test t = Inr () \<longleftrightarrow> canonical_test t"
proof -
  have "canonicalize_test t = Inr t \<longleftrightarrow> canonical_test t"
    by (cases t) (auto simp: canonicalize_test_def canonical_test_def result_bind_Inr_iff)
  then show ?thesis by (auto simp: validate_canonical_test_def result_bind_Inr_iff)
qed

lemma check_dependencies_Inr: "check_dependencies ids tid ds = Inr () \<longleftrightarrow> (\<forall>d \<in> set ds. d \<noteq> tid \<and> d \<in> set ids)"
  by (induction ds) auto

lemma count_fixtures_keys:
  "bt_wf m \<Longrightarrow> bt_wf (count_fixtures fs m) \<and> dom (bt_get (count_fixtures fs m)) = dom (bt_get m) \<union> set fs"
  by (induction fs arbitrary: m) (auto simp: count_fixtures_def bt_wf_insert bt_get_insert)

lemma check_tests_setups:
  assumes "check_tests ids ts setups scopes = Inr m" "bt_wf setups"
  shows "dom (bt_get m) = dom (bt_get setups) \<union> (\<Union>t \<in> set ts. set (tc_fixture_setup t))"
  using assms
proof (induction ts arbitrary: setups scopes)
  case (Cons t ts)
  then obtain s where s: "check_tests ids ts (count_fixtures (tc_fixture_setup t) setups) s = Inr m"
    by (auto simp: result_bind_Inr_iff)
  from Cons.IH [OF s] count_fixtures_keys [OF Cons.prems(2), of "tc_fixture_setup t"] show ?case by auto
qed simp

lemma check_tests_Inr:
  assumes "bt_wf scopes"
  shows "(\<exists>m. check_tests ids ts setups scopes = Inr m) \<longleftrightarrow>
     (\<forall>t \<in> set ts. canonical_test t \<and> (\<forall>d \<in> set (tc_dependencies t). d \<noteq> tc_id t \<and> d \<in> set ids))
     \<and> single_valued (Map.graph (bt_get scopes) \<union> (\<Union>t \<in> set ts. set (tc_resource_locks t)))"
  using assms
proof (induction ts arbitrary: setups scopes)
  case Nil
  show ?case by (auto simp: single_valued_def Map.graph_def)
next
  case (Cons t ts)
  show ?case
  proof (cases "\<exists>s. note_locks (tc_resource_locks t) scopes = Inr s")
    case True
    then obtain s where s: "note_locks (tc_resource_locks t) scopes = Inr s" by blast
    note g = note_all_graph [OF s [unfolded note_locks_def] Cons.prems]
    from s g(2) Cons.IH [OF g(1), of "count_fixtures (tc_fixture_setup t) setups"]
    show ?thesis
      by (auto simp: result_bind_Inr_iff validate_canonical_test_Inr check_dependencies_Inr Un_assoc)
  next
    case False
    then have "\<not> single_valued (Map.graph (bt_get scopes) \<union> set (tc_resource_locks t))"
      using note_all_Inr [OF Cons.prems] by (auto simp: note_locks_def)
    then have "\<not> single_valued (Map.graph (bt_get scopes) \<union> (\<Union>t \<in> set (t # ts). set (tc_resource_locks t)))"
      by (auto simp: single_valued_def)
    with False show ?thesis by (auto simp: result_bind_Inr_iff)
  qed
qed

section \<open>The dependency check accepts exactly the acyclic graphs\<close>

definition depends :: "test_case list \<Rightarrow> (string \<times> string) set" where
  "depends ts = {(d, tc_id t) | t d. t \<in> set ts \<and> d \<in> set (tc_dependencies t)}"

definition pushed :: "(string \<times> string list) list \<Rightarrow> string \<Rightarrow> string list" where
  "pushed m d = unwrap_or (bt_get m d) []"

lemma push_dependents:
  assumes "bt_wf m" "distinct ds"
  shows "bt_wf (fold (\<lambda>d. push_dependent d x) ds m)
     \<and> pushed (fold (\<lambda>d. push_dependent d x) ds m) d' = pushed m d' @ (if d' \<in> set ds then [x] else [])"
  using assms
proof (induction ds arbitrary: m)
  case (Cons d ds)
  have "bt_wf (push_dependent d x m)" "pushed (push_dependent d x m) d' = pushed m d' @ (if d' = d then [x] else [])"
    using Cons.prems(1) by (simp_all add: push_dependent_def bt_wf_insert pushed_def bt_get_insert unwrap_or_def)
  with Cons show ?case by auto
qed simp

lemma dependents_pushed:
  assumes "\<forall>t \<in> set ts. distinct (tc_dependencies t)"
  shows "pushed (dependents_of ts) d = map tc_id (filter (\<lambda>t. d \<in> set (tc_dependencies t)) ts)"
proof -
  have "bt_wf m \<Longrightarrow> pushed (fold (\<lambda>t. fold (\<lambda>d. push_dependent d (tc_id t)) (tc_dependencies t)) ts m) d
      = pushed m d @ map tc_id (filter (\<lambda>t. d \<in> set (tc_dependencies t)) ts)" for m
    using assms
  proof (induction ts arbitrary: m)
    case (Cons t ts)
    with push_dependents [OF Cons.prems(1), of "tc_dependencies t" "tc_id t" d] show ?case by auto
  qed simp
  from this [of "[]"] show ?thesis by (simp add: dependents_of_def pushed_def unwrap_or_def bt_get_def)
qed

lemma release_Inr:
  assumes "distinct cs" "\<forall>c \<in> set cs. \<exists>n > 0. bt_get indegree c = Some n" "distinct ready"
  shows "\<exists>indegree' ready'. release cs indegree ready = Inr (indegree', ready')
     \<and> bt_get indegree' = (\<lambda>x. if x \<in> set cs then map_option (\<lambda>n. n - 1) (bt_get indegree x) else bt_get indegree x)
     \<and> set ready' = set ready \<union> {c \<in> set cs. bt_get indegree c = Some 1} \<and> distinct ready'"
  using assms
proof (induction cs arbitrary: indegree ready)
  case (Cons c cs)
  then obtain n where n: "bt_get indegree c = Some n" "0 < n" by auto
  let ?i = "bt_set c (n - 1) indegree" and ?r = "if n - 1 = 0 then insort_insert c ready else ready"
  have get: "bt_get ?i = (bt_get indegree)(c \<mapsto> n - 1)" using n by (simp add: bt_get_set)
  have ready: "distinct ?r" "set ?r = set ready \<union> (if n = 1 then {c} else {})"
    using Cons.prems(3) n by (auto simp: distinct_insort_insert set_insort_insert)
  have "\<forall>x \<in> set cs. \<exists>m > 0. bt_get ?i x = Some m" using Cons.prems get by auto
  with Cons.IH [of ?i ?r] Cons.prems(1) ready(1) obtain indegree' ready' where
    r: "release cs ?i ?r = Inr (indegree', ready')"
    "bt_get indegree' = (\<lambda>x. if x \<in> set cs then map_option (\<lambda>n. n - 1) (bt_get ?i x) else bt_get ?i x)"
    "set ready' = set ?r \<union> {x \<in> set cs. bt_get ?i x = Some 1}" "distinct ready'"
    by auto
  have "release (c # cs) indegree ready = Inr (indegree', ready')" using r(1) n by simp
  moreover have "bt_get indegree' x = (if x \<in> set (c # cs) then map_option (\<lambda>n. n - 1) (bt_get indegree x) else bt_get indegree x)" for x
    using Cons.prems(1) n by (auto simp: r(2) bt_get_set)
  moreover have "set ready' = set ready \<union> {x \<in> set (c # cs). bt_get indegree x = Some 1}"
    using Cons.prems(1) n unfolding r(3) ready(2) get by auto
  ultimately show ?case using r(4) by blast
qed simp

text \<open>
  The state of the loop, with the set of tests taken: each count is the number of dependencies not
  taken yet, and the ready tests are those not taken whose dependencies all are.
\<close>

definition needs :: "test_case list \<Rightarrow> string \<Rightarrow> string set" where
  "needs ts x = {d. (d, x) \<in> depends ts}"

definition kahn_state :: "test_case list \<Rightarrow> string set \<Rightarrow> (string \<times> nat) list \<Rightarrow> string list \<Rightarrow> nat \<Rightarrow> bool" where
  "kahn_state ts V indegree ready visited \<longleftrightarrow>
     V \<subseteq> tc_id ` set ts \<and> visited = card V \<and> V \<subseteq> Wellfounded.acc (depends ts) \<and> distinct ready
     \<and> (\<forall>x \<in> V. needs ts x \<subseteq> V)
     \<and> (\<forall>x. bt_get indegree x = (if x \<in> tc_id ` set ts then Some (card (needs ts x - V)) else None))
     \<and> set ready = {x \<in> tc_id ` set ts - V. needs ts x \<subseteq> V}"

lemma needs_finite: "finite (needs ts x)"
proof -
  have "needs ts x \<subseteq> (\<Union>t \<in> set ts. set (tc_dependencies t))" by (auto simp: needs_def depends_def)
  then show ?thesis by (rule finite_subset) simp
qed

lemma needs_distinct:
  assumes "distinct (map tc_id ts)" "t \<in> set ts"
  shows "needs ts (tc_id t) = set (tc_dependencies t)"
  using assms by (auto simp: needs_def depends_def distinct_map inj_on_def)

lemma kahn_step:
  assumes K: "kahn_state ts V indegree (x # ready) visited"
    and ids: "distinct (map tc_id ts)" and deps: "\<forall>t \<in> set ts. distinct (tc_dependencies t)"
  shows "\<exists>indegree' ready'. release (pushed (dependents_of ts) x) indegree ready = Inr (indegree', ready')
     \<and> kahn_state ts (insert x V) indegree' ready' (visited + 1)"
proof -
  let ?ids = "tc_id ` set ts" and ?cs = "pushed (dependents_of ts) x"
  have ready: "distinct ready" "x \<notin> set ready" "insert x (set ready) = {y \<in> ?ids - V. needs ts y \<subseteq> V}"
    and closed: "\<forall>y \<in> V. needs ts y \<subseteq> V" and V: "V \<subseteq> ?ids" "V \<subseteq> Wellfounded.acc (depends ts)"
    and ind: "\<And>y. bt_get indegree y = (if y \<in> ?ids then Some (card (needs ts y - V)) else None)"
    using K by (auto simp: kahn_state_def)
  from ready(3) have x: "x \<in> ?ids" "x \<notin> V" "needs ts x \<subseteq> V" by blast+
  have cs: "set ?cs = {y \<in> ?ids. x \<in> needs ts y}" "distinct ?cs"
    using ids needs_distinct [OF ids] by (auto simp: dependents_pushed [OF deps] distinct_map_filter)
  have minus: "card (needs ts y - insert x V) = card (needs ts y - V) - 1" "0 < card (needs ts y - V)" if "x \<in> needs ts y" for y
  proof -
    have "needs ts y - insert x V = (needs ts y - V) - {x}" by blast
    moreover have "x \<in> needs ts y - V" using that x(2) by blast
    ultimately show "card (needs ts y - insert x V) = card (needs ts y - V) - 1" "0 < card (needs ts y - V)"
      using needs_finite [of ts y] by (auto simp: card_gt_0_iff)
  qed
  have "\<forall>c \<in> set ?cs. \<exists>n > 0. bt_get indegree c = Some n" using cs(1) minus(2) by (auto simp: ind)
  from release_Inr [OF cs(2) this ready(1)] obtain indegree' ready' where
    r: "release ?cs indegree ready = Inr (indegree', ready')"
    "bt_get indegree' = (\<lambda>y. if y \<in> set ?cs then map_option (\<lambda>n. n - 1) (bt_get indegree y) else bt_get indegree y)"
    "set ready' = set ready \<union> {c \<in> set ?cs. bt_get indegree c = Some 1}" "distinct ready'" by blast
  have same: "needs ts y - insert x V = needs ts y - V" if "x \<notin> needs ts y" for y using that by blast
  have "bt_get indegree' y = (if y \<in> ?ids then Some (card (needs ts y - insert x V)) else None)" for y
    using cs(1) minus(1) same by (simp add: r(2) ind)
  moreover have "set ready' = {y \<in> ?ids - insert x V. needs ts y \<subseteq> insert x V}"
  proof -
    have new: "bt_get indegree y = Some 1 \<longleftrightarrow> needs ts y \<subseteq> insert x V" if "y \<in> set ?cs" for y
    proof -
      from that cs(1) have "y \<in> ?ids" "x \<in> needs ts y" by auto
      with minus [of y] have "bt_get indegree y = Some 1 \<longleftrightarrow> card (needs ts y - insert x V) = 0" by (auto simp: ind)
      also have "\<dots> \<longleftrightarrow> needs ts y \<subseteq> insert x V" using needs_finite [of ts y] by (simp add: card_eq_0_iff)
      finally show ?thesis .
    qed
    have notV: "y \<notin> insert x V" if "y \<in> set ?cs" for y using that cs(1) closed x by auto
    have old: "set ready = {y \<in> ?ids - insert x V. needs ts y \<subseteq> V}" using ready(2,3) by blast
    have "needs ts y \<subseteq> insert x V \<longleftrightarrow> needs ts y \<subseteq> V" if "x \<notin> needs ts y" for y using that by blast
    moreover have "\<not> needs ts y \<subseteq> V" if "x \<in> needs ts y" for y using that x(2) by blast
    ultimately have "y \<in> set ready \<or> y \<in> set ?cs \<and> bt_get indegree y = Some 1
        \<longleftrightarrow> y \<in> ?ids \<and> y \<notin> insert x V \<and> needs ts y \<subseteq> insert x V" for y
      using new [of y] notV [of y] cs(1) old by (cases "x \<in> needs ts y") auto
    then show ?thesis unfolding r(3) by blast
  qed
  moreover have "x \<in> Wellfounded.acc (depends ts)" by (rule acc.accI) (use x(3) V(2) in \<open>auto simp: needs_def\<close>)
  moreover have "card (insert x V) = visited + 1"
    using K x(2) finite_subset [OF V(1)] by (simp add: kahn_state_def)
  ultimately have "kahn_state ts (insert x V) indegree' ready' (visited + 1)"
    using V x closed r(4) unfolding kahn_state_def by auto
  with r(1) show ?thesis by blast
qed

lemma kahn_finishes:
  assumes "kahn_state ts V indegree ready visited" "distinct (map tc_id ts)" "\<forall>t \<in> set ts. distinct (tc_dependencies t)"
  shows "\<exists>V' indegree'. take_ready (dependents_of ts) indegree ready visited = Inr (card V') \<and> kahn_state ts V' indegree' [] (card V')"
  using assms(1)
proof (induction "dependents_of ts" indegree ready visited arbitrary: V rule: take_ready.induct)
  case (1 indegree visited)
  then have "take_ready (dependents_of ts) indegree [] visited = Inr (card V) \<and> kahn_state ts V indegree [] (card V)"
    by (simp add: kahn_state_def)
  then show ?case by blast
next
  case (2 indegree x ready visited)
  from kahn_step [OF 2(2) assms(2,3)] obtain indegree' ready' where
    r: "release (pushed (dependents_of ts) x) indegree ready = Inr (indegree', ready')"
    "kahn_state ts (insert x V) indegree' ready' (visited + 1)" by blast
  from 2(1) [OF r(1) [unfolded pushed_def] refl r(2)] r(1) show ?case by (simp add: pushed_def)
qed

lemma kahn_start:
  assumes "distinct (map tc_id ts)" "\<forall>t \<in> set ts. distinct (tc_dependencies t)"
  shows "kahn_state ts {} (bt_collect (map (\<lambda>t. (tc_id t, length (tc_dependencies t))) ts))
     (map fst (filter (\<lambda>(_, n). n = 0) (bt_collect (map (\<lambda>t. (tc_id t, length (tc_dependencies t))) ts)))) 0"
    (is "kahn_state ts {} ?m ?ready 0")
proof -
  have get: "bt_get ?m x = (if x \<in> tc_id ` set ts then Some (card (needs ts x)) else None)" for x
  proof (cases "x \<in> tc_id ` set ts")
    case True
    then obtain t where t: "t \<in> set ts" "x = tc_id t" by blast
    with assms needs_distinct [OF assms(1)] have "card (needs ts x) = length (tc_dependencies t)"
      by (simp add: distinct_card)
    moreover have "bt_get ?m x = Some (length (tc_dependencies t))"
      unfolding bt_get_collect_key(1) [OF assms(1)] using t by blast
    ultimately show ?thesis using True by simp
  qed (use bt_get_collect_key(2) [OF assms(1), of "\<lambda>t. length (tc_dependencies t)"] in simp)
  have wf: "bt_wf ?m" by simp
  have "x \<in> set ?ready \<longleftrightarrow> x \<in> tc_id ` set ts \<and> needs ts x \<subseteq> {}" for x
  proof -
    have "x \<in> set ?ready \<longleftrightarrow> bt_get ?m x = Some 0" using bt_get_Some_iff [OF wf] by force
    then show ?thesis using needs_finite [of ts x] by (auto simp: get)
  qed
  moreover have "distinct ?ready"
    using bt_wf_distinct [OF bt_wf_filter [OF wf, of "\<lambda>(_, n). n = 0"]] .
  ultimately show ?thesis using get by (auto simp: kahn_state_def)
qed

lemma kahn_done:
  assumes "kahn_state ts V indegree [] visited" "\<forall>t \<in> set ts. set (tc_dependencies t) \<subseteq> tc_id ` set ts"
  shows "V = tc_id ` set ts \<longleftrightarrow> acyclic (depends ts)"
proof
  assume V: "V = tc_id ` set ts"
  have "x \<in> Wellfounded.acc (depends ts)" for x
  proof (cases "x \<in> V")
    case True
    with assms(1) show ?thesis by (auto simp: kahn_state_def)
  next
    case False
    with V show ?thesis by (intro acc.accI [of x]) (auto simp: depends_def)
  qed
  then show "acyclic (depends ts)" by (intro wf_acyclic acc_wfI) simp
next
  assume ac: "acyclic (depends ts)"
  have "depends ts \<subseteq> (\<Union>t \<in> set ts. set (tc_dependencies t)) \<times> tc_id ` set ts" by (auto simp: depends_def)
  then have "finite (depends ts)" by (rule finite_subset) simp
  from finite_acyclic_wf [OF this ac] have wf: "wf (depends ts)" .
  show "V = tc_id ` set ts"
  proof (rule ccontr)
    assume "V \<noteq> tc_id ` set ts"
    with assms(1) obtain y where "y \<in> tc_id ` set ts - V" by (auto simp: kahn_state_def)
    from wfE_min [OF wf this] obtain z where z: "z \<in> tc_id ` set ts - V"
      "\<And>d. (d, z) \<in> depends ts \<Longrightarrow> d \<notin> tc_id ` set ts - V" by blast
    then have "needs ts z \<subseteq> V" using assms(2) by (fastforce simp: needs_def depends_def)
    with z(1) assms(1) show False by (auto simp: kahn_state_def)
  qed
qed

lemma acyclic_check:
  assumes "distinct (map tc_id (iv_tests iv))" "\<forall>t \<in> set (iv_tests iv). distinct (tc_dependencies t)"
    and "\<forall>t \<in> set (iv_tests iv). set (tc_dependencies t) \<subseteq> tc_id ` set (iv_tests iv)"
  shows "validate_dependency_acyclic iv = (if acyclic (depends (iv_tests iv)) then Inr ()
     else Inl (TopologyViolation ''dependency graph contains a cycle''))"
proof -
  from kahn_finishes [OF kahn_start [OF assms(1,2)] assms(1,2)] obtain V indegree where
    V: "take_ready (dependents_of (iv_tests iv)) (bt_collect (map (\<lambda>t. (tc_id t, length (tc_dependencies t))) (iv_tests iv)))
      (map fst (filter (\<lambda>(_, n). n = 0) (bt_collect (map (\<lambda>t. (tc_id t, length (tc_dependencies t))) (iv_tests iv))))) 0
      = Inr (card V)" "kahn_state (iv_tests iv) V indegree [] (card V)" by blast
  have "card (tc_id ` set (iv_tests iv)) = length (iv_tests iv)"
    using assms(1) distinct_card by (metis length_map set_map)
  moreover have "V \<subseteq> tc_id ` set (iv_tests iv)" using V(2) by (simp add: kahn_state_def)
  ultimately have "card V = length (iv_tests iv) \<longleftrightarrow> V = tc_id ` set (iv_tests iv)"
    by (metis card_subset_eq finite_imageI finite_set)
  with kahn_done [OF V(2) assms(3)] V(1) show ?thesis by (simp add: validate_dependency_acyclic_def Let_def)
qed

section \<open>What an inventory must satisfy\<close>

lemma relation_total_Inr: "n \<le> max_relations \<Longrightarrow> relation_total n cs = Inr () \<longleftrightarrow> n + sum_list cs \<le> max_relations"
  by (induction cs arbitrary: n) auto

definition inventory_ok :: "test_inventory \<Rightarrow> bool" where
  "inventory_ok iv \<longleftrightarrow> sorted_wrt (<) (map tc_id (iv_tests iv))
     \<and> (\<forall>t \<in> set (iv_tests iv). canonical_test t
          \<and> (\<forall>d \<in> set (tc_dependencies t). d \<noteq> tc_id t \<and> d \<in> tc_id ` set (iv_tests iv)))
     \<and> single_valued (\<Union>t \<in> set (iv_tests iv). set (tc_resource_locks t))
     \<and> (\<forall>t \<in> set (iv_tests iv). set (tc_fixture_required t) \<union> set (tc_fixture_cleanup t)
          \<subseteq> (\<Union>u \<in> set (iv_tests iv). set (tc_fixture_setup u)))
     \<and> acyclic (depends (iv_tests iv))"

lemma canonical_dependencies: "canonical_test t \<Longrightarrow> distinct (tc_dependencies t)"
  by (auto simp: canonical_test_def sort_unique_strings_fix dest: strictly_sorted_distinct)

lemma inventory_validate_Inr:
  "inventory_validate cd iv = Inr () \<longleftrightarrow> iv_schema_version iv = proof_schema_version
     \<and> 1 \<le> length (iv_tests iv) \<and> length (iv_tests iv) \<le> max_tests
     \<and> sum_list (concat (map relation_counts (iv_tests iv))) \<le> max_relations
     \<and> length (pc_json cd (InventoryValue iv)) \<le> max_payload_bytes \<and> inventory_ok iv"
proof -
  let ?ts = "iv_tests iv"
  define tested where "tested = check_tests (map tc_id ?ts) ?ts [] []"
  define fixtures where "fixtures m = check_all (\<lambda>t. check_all (check_fixture m) (tc_fixture_required t @ tc_fixture_cleanup t)) ?ts" for m
  define set_up where "set_up \<longleftrightarrow> (\<forall>t \<in> set ?ts. set (tc_fixture_required t) \<union> set (tc_fixture_cleanup t)
     \<subseteq> (\<Union>u \<in> set ?ts. set (tc_fixture_setup u)))"
  have fix_ok: "fixtures m = Inr () \<longleftrightarrow> set_up" if "tested = Inr m" for m
  proof -
    have "dom (bt_get m) = (\<Union>u \<in> set ?ts. set (tc_fixture_setup u))"
      using check_tests_setups [OF that [unfolded tested_def] bt_wf_Nil] by (simp add: bt_get_Nil)
    then show ?thesis
      by (simp add: fixtures_def set_up_def check_fixture_def domIff [symmetric] subset_iff Ball_def) blast
  qed
  have tests_ok: "(\<exists>m. tested = Inr m) \<longleftrightarrow> (\<forall>t \<in> set ?ts. canonical_test t
        \<and> (\<forall>d \<in> set (tc_dependencies t). d \<noteq> tc_id t \<and> d \<in> tc_id ` set ?ts))
      \<and> single_valued (\<Union>t \<in> set ?ts. set (tc_resource_locks t))"
    using check_tests_Inr [OF bt_wf_Nil, of "map tc_id ?ts" ?ts "[]"] by (simp add: tested_def bt_get_Nil)
  have acyc: "validate_dependency_acyclic iv = Inr () \<longleftrightarrow> acyclic (depends ?ts)"
    if "sorted_wrt (<) (map tc_id ?ts)" "tested = Inr m" for m
    using acyclic_check [of iv] that tests_ok canonical_dependencies
    by (auto simp: strict_sorted_iff subset_iff)
  have split: "inventory_ok iv \<longleftrightarrow> sorted_wrt (<) (map tc_id ?ts) \<and> (\<exists>m. tested = Inr m) \<and> set_up \<and> acyclic (depends ?ts)"
    unfolding tests_ok set_up_def inventory_ok_def by blast
  have "inventory_validate cd iv = Inr () \<longleftrightarrow> iv_schema_version iv = proof_schema_version
     \<and> 1 \<le> length ?ts \<and> length ?ts \<le> max_tests \<and> sum_list (concat (map relation_counts ?ts)) \<le> max_relations
     \<and> length (pc_json cd (InventoryValue iv)) \<le> max_payload_bytes \<and> sorted_wrt (<) (map tc_id ?ts)
     \<and> (\<exists>m. tested = Inr m \<and> fixtures m = Inr () \<and> validate_dependency_acyclic iv = Inr ())"
    by (auto simp: inventory_validate_def result_bind_Inr_iff tested_def fixtures_def strictly_sorted_iff
        ensure_test_relation_bound_def relation_total_Inr simp del: check_all_Inr)
  also have "\<dots> \<longleftrightarrow> iv_schema_version iv = proof_schema_version
     \<and> 1 \<le> length ?ts \<and> length ?ts \<le> max_tests \<and> sum_list (concat (map relation_counts ?ts)) \<le> max_relations
     \<and> length (pc_json cd (InventoryValue iv)) \<le> max_payload_bytes \<and> inventory_ok iv"
    unfolding split using fix_ok acyc by auto
  finally show ?thesis .
qed

lemma inventory_okD:
  assumes "inventory_ok iv"
  shows "distinct (map tc_id (iv_tests iv))" "sorted (map tc_id (iv_tests iv))"
    "t \<in> set (iv_tests iv) \<Longrightarrow> d \<in> set (tc_dependencies t) \<Longrightarrow> d \<in> tc_id ` set (iv_tests iv)"
    "t \<in> set (iv_tests iv) \<Longrightarrow> validate_identifier field (tc_id t) = Inr ()"
  using assms by (auto simp: inventory_ok_def strict_sorted_iff canonical_test_def validate_identifier_def split: if_splits)

text \<open>
  (C19) An inventory is accepted exactly when its version and sizes are within bounds, its tests are
  strictly sorted and canonical, dependencies name other tests of the inventory and form no cycle,
  every lock name has one scope, and every fixture that is required or cleaned up has a test that
  sets it up.
\<close>

theorem inventory_accepted_iff:
  "inventory_validate cd iv = Inr () \<longleftrightarrow> iv_schema_version iv = proof_schema_version
     \<and> 1 \<le> length (iv_tests iv) \<and> length (iv_tests iv) \<le> max_tests
     \<and> sum_list (concat (map relation_counts (iv_tests iv))) \<le> max_relations
     \<and> length (pc_json cd (InventoryValue iv)) \<le> max_payload_bytes
     \<and> sorted_wrt (<) (map tc_id (iv_tests iv))
     \<and> (\<forall>t \<in> set (iv_tests iv). canonicalize_test t = Inr t \<and> set (tc_dependencies t) \<subseteq> tc_id ` set (iv_tests iv) - {tc_id t})
     \<and> single_valued (\<Union>t \<in> set (iv_tests iv). set (tc_resource_locks t))
     \<and> (\<forall>t \<in> set (iv_tests iv). set (tc_fixture_required t) \<union> set (tc_fixture_cleanup t)
          \<subseteq> (\<Union>u \<in> set (iv_tests iv). set (tc_fixture_setup u)))
     \<and> acyclic {(d, tc_id t) | t d. t \<in> set (iv_tests iv) \<and> d \<in> set (tc_dependencies t)}"
proof -
  have "canonical_test t \<longleftrightarrow> canonicalize_test t = Inr t" for t
    using validate_canonical_test_Inr [of t] by (auto simp: validate_canonical_test_def result_bind_Inr_iff split: if_splits)
  then have "(\<forall>t \<in> set (iv_tests iv). canonical_test t
        \<and> (\<forall>d \<in> set (tc_dependencies t). d \<noteq> tc_id t \<and> d \<in> tc_id ` set (iv_tests iv))) \<longleftrightarrow>
      (\<forall>t \<in> set (iv_tests iv). canonicalize_test t = Inr t \<and> set (tc_dependencies t) \<subseteq> tc_id ` set (iv_tests iv) - {tc_id t})"
    by (simp add: subset_iff) blast
  then show ?thesis
    unfolding inventory_validate_Inr inventory_ok_def depends_def by (simp only: conj_assoc)
qed

lemma relation_sum_mset: "mset ts = mset us \<Longrightarrow> sum_list (concat (map relation_counts ts)) = sum_list (concat (map relation_counts us))"
proof -
  have eq: "sum_list (concat (map relation_counts ts)) = sum_mset (image_mset (\<lambda>t. sum_list (relation_counts t)) (mset ts))" for ts
    by (induction ts) auto
  assume "mset ts = mset us"
  then show ?thesis by (simp add: eq)
qed

lemma sort_key_sorted_id: "sorted (map f xs) \<Longrightarrow> sort_key f xs = xs"
  by (induction xs) (auto simp: insort_is_Cons)

lemma canonicalize_id: "canonicalize_test t = Inr t' \<Longrightarrow> tc_id t' = tc_id t"
  by (auto simp: canonicalize_test_def result_bind_Inr_iff)

lemma collect_results_mset:
  assumes "collect_results (map f xs) = Inr ys" "mset xs' = mset xs"
  shows "\<exists>ys'. collect_results (map f xs') = Inr ys' \<and> mset ys' = mset ys"
proof -
  from assms(1) have ys: "map f xs = map Inr ys" by (simp add: collect_results_Inr)
  have m: "mset (map f xs') = mset (map Inr ys)" using assms(2) by (simp flip: ys)
  then have "set (map f xs') = set (map Inr ys)" by (rule mset_eq_setD)
  then have inr: "r = Inr (projr r)" if "r \<in> set (map f xs')" for r using that by auto
  have "map f xs' = map Inr (map projr (map f xs'))" using inr by (simp add: map_idI [symmetric])
  then have "collect_results (map f xs') = Inr (map projr (map f xs'))" unfolding collect_results_Inr .
  moreover have "mset (map projr (map f xs')) = mset ys"
    using arg_cong [OF m, of "image_mset projr"] by (simp flip: mset_map) (simp add: comp_def)
  ultimately show ?thesis by blast
qed

lemma inventory_new_fixed:
  assumes valid: "inventory_validate cd iv = Inr ()" and size: "length (pc_json cd (TestsValue (iv_tests iv))) \<le> max_payload_bytes"
  shows "inventory_new cd (iv_tests iv) = Inr iv"
proof -
  have ok: "inventory_ok iv" "ensure_test_relation_bound (iv_tests iv) = Inr ()" "iv_tests iv \<noteq> []" "length (iv_tests iv) \<le> max_tests"
    "iv_schema_version iv = proof_schema_version"
    using valid by (auto simp: inventory_validate_Inr ensure_test_relation_bound_def relation_total_Inr)
  have "collect_results (map canonicalize_test (iv_tests iv)) = Inr (iv_tests iv)"
    using ok(1) validate_canonical_test_Inr unfolding inventory_ok_def
    by (intro collect_results_map [where g = id, simplified])
       (force simp: validate_canonical_test_def result_bind_Inr_iff split: if_splits)
  moreover have "sort_key tc_id (iv_tests iv) = iv_tests iv"
    using inventory_okD(2) [OF ok(1)] by (rule sort_key_sorted_id)
  moreover have "\<lparr>iv_schema_version = proof_schema_version, iv_tests = iv_tests iv\<rparr> = iv" using ok(5) by simp
  moreover have "reject_adjacent_duplicates ''test ids'' (map tc_id (iv_tests iv)) = Inr ()"
    using inventory_okD(1,2) [OF ok(1)] by (simp add: reject_adjacent_duplicates_Inr)
  moreover have "\<not> length (iv_tests iv) < 1" using ok(3) by (cases "iv_tests iv") auto
  ultimately show ?thesis
    using size ok(1-4) valid by (simp add: inventory_new_def ensure_count_def ensure_serialized_bound_def Let_def)
qed

text \<open>
  The canonical inventory does not depend on the order in which the tests were listed, it is valid,
  it has the tests of the input, and making an inventory of its own tests gives it back.
\<close>

theorem inventory_new_canonical:
  assumes "inventory_new cd tests = Inr iv"
  shows "inventory_validate cd iv = Inr () \<and> mset (map tc_id (iv_tests iv)) = mset (map tc_id tests)
     \<and> (\<forall>ts. mset ts = mset tests \<and> length (pc_json cd (TestsValue ts)) \<le> max_payload_bytes \<longrightarrow> inventory_new cd ts = Inr iv)
     \<and> (length (pc_json cd (TestsValue (iv_tests iv))) \<le> max_payload_bytes \<longrightarrow> inventory_new cd (iv_tests iv) = Inr iv)"
proof (intro conjI allI impI)
  from assms obtain cs where n: "1 \<le> length tests" "length tests \<le> max_tests" "ensure_test_relation_bound tests = Inr ()"
    and cs: "collect_results (map canonicalize_test tests) = Inr cs"
    and dup: "reject_adjacent_duplicates ''test ids'' (map tc_id (sort_key tc_id cs)) = Inr ()"
    and iv: "iv = \<lparr>iv_schema_version = proof_schema_version, iv_tests = sort_key tc_id cs\<rparr>"
    and valid: "inventory_validate cd iv = Inr ()"
    by (auto simp: inventory_new_def result_bind_Inr_iff Let_def)
  show "inventory_validate cd iv = Inr ()" by (rule valid)
  from cs have "list_all2 (\<lambda>t t'. canonicalize_test t = Inr t') tests cs" by (simp add: collect_results_map_Inr)
  then have "map tc_id cs = map tc_id tests"
    by (induction rule: list_all2_induct) (auto dest: canonicalize_id)
  then show "mset (map tc_id (iv_tests iv)) = mset (map tc_id tests)"
    by (simp add: iv) (metis mset_map)
  have dist: "distinct (map tc_id cs)"
    using dup reject_adjacent_duplicates_Inr [of "map tc_id (sort_key tc_id cs)"] by (simp add: distinct_map)
  { fix ts assume ts: "mset ts = mset tests \<and> length (pc_json cd (TestsValue ts)) \<le> max_payload_bytes"
    from collect_results_mset [OF cs] ts obtain cs' where
      cs': "collect_results (map canonicalize_test ts) = Inr cs'" "mset cs' = mset cs" by blast
    have len: "length ts = length tests" using ts by (metis size_mset)
    have "sum_list (concat (map relation_counts ts)) = sum_list (concat (map relation_counts tests))"
      using ts by (intro relation_sum_mset) simp
    then have "ensure_test_relation_bound ts = Inr ()" using n(3) by (simp add: ensure_test_relation_bound_def relation_total_Inr)
    moreover have "sort_key tc_id cs' = sort_key tc_id cs"
      using cs'(2) dist by (intro sort_key_inj_key_eq) (auto simp: distinct_map dest: mset_eq_setD)
    ultimately show "inventory_new cd ts = Inr iv"
      using ts len n cs' dup valid by (auto simp: inventory_new_def iv ensure_count_def ensure_serialized_bound_def) }
  show "inventory_new cd (iv_tests iv) = Inr iv" if "length (pc_json cd (TestsValue (iv_tests iv))) \<le> max_payload_bytes"
    by (rule inventory_new_fixed [OF valid that])
qed

section \<open>A sample inventory\<close>

text \<open>Four tests: the second depends on the first, the third has a lock and the fourth runs serially.\<close>

definition plain_test :: "string \<Rightarrow> string list \<Rightarrow> bool \<Rightarrow> test_case" where
  "plain_test name dependencies serial = \<lparr>tc_id = name, tc_dependencies = dependencies, tc_fixture_setup = [],
     tc_fixture_required = [], tc_fixture_cleanup = [], tc_run_serial = serial,
     tc_resource_locks = [], tc_required_capabilities = []\<rparr>"

definition plan_sample :: "test_inventory" where
  "plan_sample = \<lparr>iv_schema_version = 1, iv_tests =
     [(plain_test ''a'' [] False)\<lparr>tc_fixture_setup := [''db'']\<rparr>, plain_test ''b'' [''a''] False,
      (plain_test ''c'' [] False)\<lparr>tc_resource_locks := [(''gpu'', HostScope)]\<rparr>, plain_test ''d'' [] True]\<rparr>"

definition plan_codec :: proof_codec where
  "plan_codec = \<lparr>pc_digest = id, pc_hex = (\<lambda>_. ''d''), pc_json = (\<lambda>_. ''{}'')\<rparr>"

lemmas plan_sample_defs = plan_sample_def plain_test_def plan_codec_def

lemma plan_sample_tests:
  "check_tests (map tc_id (iv_tests plan_sample)) (iv_tests plan_sample) [] [] = Inr [(''db'', 1)]" by code_simp

lemma plan_sample_acyclic: "validate_dependency_acyclic plan_sample = Inr ()" by code_simp

lemma plan_sample_valid: "inventory_validate plan_codec plan_sample = Inr ()"
proof -
  have "ensure_test_relation_bound (iv_tests plan_sample) = Inr ()" "strictly_sorted (map tc_id (iv_tests plan_sample))"
    "validate_version (iv_schema_version plan_sample) = Inr ()" "ensure_count ''tests'' (length (iv_tests plan_sample)) 1 max_tests = Inr ()"
    "ensure_serialized_bound plan_codec ''inventory bytes'' (InventoryValue plan_sample) = Inr ()"
    "check_all (\<lambda>t. check_all (check_fixture [(''db'', 1)]) (tc_fixture_required t @ tc_fixture_cleanup t)) (iv_tests plan_sample) = Inr ()"
    by (simp_all add: plan_sample_defs ensure_test_relation_bound_def relation_counts_def max_relations_def max_tests_def
        max_payload_bytes_def proof_schema_version_def)
  then show ?thesis unfolding inventory_validate_def plan_sample_tests using plan_sample_acyclic by (simp only: result_bind_simps if_True simp_thms if_False)
qed

theorem inventory_accepted_iff_witness:
  "inventory_validate plan_codec plan_sample = Inr ()
   \<and> acyclic {(d, tc_id t) | t d. t \<in> set (iv_tests plan_sample) \<and> d \<in> set (tc_dependencies t)}"
  using inventory_accepted_iff [of plan_codec plan_sample] plan_sample_valid by simp

theorem inventory_new_canonical_witness:
  "inventory_new plan_codec (rev (iv_tests plan_sample)) = Inr plan_sample"
proof -
  have size: "length (pc_json plan_codec v) \<le> max_payload_bytes" for v by (simp add: plan_codec_def max_payload_bytes_def)
  from inventory_new_canonical [OF inventory_new_fixed [OF plan_sample_valid size]] size show ?thesis by simp
qed

end
