(* ===== verification/Union_Find.thy ===== *)
theory Union_Find
  imports Proof_Records
begin

text \<open>
  The disjoint-set forest of \<open>src/src/parallel_proof.rs\<close> (\<open>find\<close> with path compression and
  \<open>union\<close>): a vector of parents, a root being its own parent. The two loops of \<open>find\<close> are recursions
  with the length of the vector as fuel; \<open>find_root_climbs\<close> shows that the fuel reaches a root. The locale
  \<open>disjoint_sets\<close> is what a client may assume of such a structure, and the equivalence that a
  sequence of unions generates is proved once there.
\<close>

section \<open>The operations\<close>

fun find_root :: "nat \<Rightarrow> nat list \<Rightarrow> nat \<Rightarrow> nat" where
  "find_root 0 parent root = root"
| "find_root (Suc k) parent root = (if parent ! root = root then root else find_root k parent (parent ! root))"

fun compress :: "nat \<Rightarrow> nat \<Rightarrow> nat list \<Rightarrow> nat \<Rightarrow> nat list" where
  "compress 0 root parent current = parent"
| "compress (Suc k) root parent current =
     (if parent ! current = current then parent
      else compress k root (parent[current := root]) (parent ! current))"

definition uf_find :: "nat list \<Rightarrow> nat \<Rightarrow> nat \<times> nat list" where
  "uf_find parent index = (let root = find_root (length parent) parent index
     in (root, compress (length parent) root parent index))"

definition uf_union :: "nat list \<Rightarrow> nat \<Rightarrow> nat \<Rightarrow> nat list" where
  "uf_union parent left right = (case uf_find parent left of (left_root, parent1) \<Rightarrow>
     (case uf_find parent1 right of (right_root, parent2) \<Rightarrow>
        if left_root \<noteq> right_root then parent2[right_root := left_root] else parent2))"

section \<open>Climbing to the root\<close>

text \<open>\<open>climbs p n i r\<close>: following parents from \<open>i\<close> for \<open>n\<close> steps ends at the root \<open>r\<close>.\<close>

inductive climbs :: "nat list \<Rightarrow> nat \<Rightarrow> nat \<Rightarrow> nat \<Rightarrow> bool" for p where
  root: "p ! r = r \<Longrightarrow> climbs p 0 r r"
| step: "p ! i \<noteq> i \<Longrightarrow> climbs p n (p ! i) r \<Longrightarrow> climbs p (Suc n) i r"

inductive_cases climbs_0E: "climbs p 0 i r"
inductive_cases climbs_SucE: "climbs p (Suc n) i r"

definition uf_wf :: "nat list \<Rightarrow> bool" where
  "uf_wf p \<longleftrightarrow> (\<forall>i < length p. p ! i < length p \<and> (\<exists>n r. climbs p n i r))"

definition rep :: "nat list \<Rightarrow> nat \<Rightarrow> nat" where
  "rep p i = find_root (length p) p i"

lemma uf_wfI:
  assumes "\<And>i. i < length p \<Longrightarrow> p ! i < length p" "\<And>i. i < length p \<Longrightarrow> \<exists>n. climbs p n i (f i)"
  shows "uf_wf p"
  using assms unfolding uf_wf_def by blast

lemma climbs_root: "climbs p n i r \<Longrightarrow> p ! r = r"
  by (induction rule: climbs.induct) auto

lemma climbs_unique: "climbs p n i r \<Longrightarrow> climbs p m i s \<Longrightarrow> n = m \<and> r = s"
proof (induction arbitrary: m rule: climbs.induct)
  case (root r)
  then show ?case by (cases m) (auto elim: climbs_0E climbs_SucE)
next
  case (step i n r)
  then show ?case by (cases m) (auto elim: climbs_0E climbs_SucE)
qed

lemma climbs_levels:
  assumes "climbs p n i r" "uf_wf p" "i < length p" "m \<le> n"
  shows "\<exists>j < length p. climbs p m j r"
  using assms
proof (induction rule: climbs.induct)
  case (step i n r)
  then show ?case by (cases "m = Suc n") (auto simp: uf_wf_def intro: climbs.step)
qed (auto intro: climbs.root)

lemma climbs_bound:
  assumes "climbs p n i r" "uf_wf p" "i < length p"
  shows "n < length p"
proof -
  from climbs_levels [OF assms] have "\<forall>m \<in> {..n}. \<exists>j. j < length p \<and> climbs p m j r" by auto
  then obtain f where f: "\<forall>m \<in> {..n}. f m < length p \<and> climbs p m (f m) r" by metis
  then have "inj_on f {..n}" using climbs_unique by (intro inj_onI) metis
  moreover have "f ` {..n} \<subseteq> {..<length p}" using f by auto
  ultimately have "card {..n} \<le> card {..<length p}" by (intro card_inj_on_le [of f]) auto
  then show ?thesis by simp
qed

lemma find_root_enough: "climbs p n i r \<Longrightarrow> n \<le> k \<Longrightarrow> find_root k p i = r"
proof (induction arbitrary: k rule: climbs.induct)
  case (root r)
  then show ?case by (cases k) auto
next
  case (step i n r)
  then show ?case by (cases k) auto
qed

lemma find_root_climbs:
  assumes "uf_wf p" "i < length p"
  shows "\<exists>n < length p. climbs p n i (rep p i)"
proof -
  from assms obtain n r where n: "climbs p n i r" by (auto simp: uf_wf_def)
  with climbs_bound [OF n assms] find_root_enough [OF n] show ?thesis by (auto simp: rep_def)
qed

lemma rep_eq: "uf_wf p \<Longrightarrow> i < length p \<Longrightarrow> climbs p n i r \<Longrightarrow> rep p i = r"
  using find_root_climbs climbs_unique by metis

lemma climbs_below: "climbs p n i r \<Longrightarrow> uf_wf p \<Longrightarrow> i < length p \<Longrightarrow> r < length p"
  by (induction rule: climbs.induct) (auto simp: uf_wf_def)

lemma rep_facts:
  assumes "uf_wf p" "i < length p"
  shows "rep p i < length p" "p ! rep p i = rep p i" "rep p (rep p i) = rep p i"
proof -
  from find_root_climbs [OF assms] obtain n where n: "climbs p n i (rep p i)" by blast
  show "rep p i < length p" using climbs_below [OF n assms] .
  moreover show "p ! rep p i = rep p i" using climbs_root [OF n] .
  ultimately show "rep p (rep p i) = rep p i" using rep_eq [OF assms(1)] climbs.root by blast
qed

section \<open>Path compression\<close>

lemma redirect:
  assumes "climbs p n j x" "climbs p m i r" "p ! i \<noteq> i" "i < length p"
  shows "\<exists>n' \<le> n. climbs (p[i := r]) n' j x"
  using assms(1)
proof (induction rule: climbs.induct)
  case (root x)
  with assms(3) have "p[i := r] ! x = x" by (cases "x = i") auto
  then show ?case by (auto intro: climbs.root)
next
  case (step j n x)
  show ?case
  proof (cases "j = i")
    case True
    from step climbs.step have "climbs p (Suc n) j x" by blast
    with climbs_unique [OF assms(2)] True have "x = r" by blast
    have r: "p ! r = r" using climbs_root [OF assms(2)] .
    with assms(3) have "i \<noteq> r" by auto
    then have "climbs (p[i := r]) 0 r r" using r by (intro climbs.root) simp
    then have "climbs (p[i := r]) (Suc 0) i r" using assms(4) \<open>i \<noteq> r\<close> by (intro climbs.step) auto
    with True \<open>x = r\<close> show ?thesis by (intro exI [of _ "Suc 0"]) auto
  next
    case False
    then have "p[i := r] ! j = p ! j" by simp
    with step show ?thesis by (metis Suc_le_mono climbs.step)
  qed
qed

lemma redirect_wf:
  assumes "uf_wf p" "climbs p m i r" "p ! i \<noteq> i" "i < length p"
  shows "uf_wf (p[i := r])" "j < length p \<Longrightarrow> rep (p[i := r]) j = rep p j"
proof -
  have r: "r < length p" using climbs_below [OF assms(2,1,4)] .
  have reach: "\<exists>n'. climbs (p[i := r]) n' j (rep p j)" if "j < length p" for j
    using find_root_climbs [OF assms(1) that] redirect [OF _ assms(2-4)] by blast
  have "p[i := r] ! j < length (p[i := r])" if "j < length (p[i := r])" for j
    using that assms(1) r by (cases "j = i") (auto simp: uf_wf_def)
  then show wf: "uf_wf (p[i := r])" by (rule uf_wfI) (use reach in simp_all)
  show "rep (p[i := r]) j = rep p j" if "j < length p" using reach [OF that] rep_eq [OF wf] that by auto
qed

lemma compress_wf:
  assumes "uf_wf p" "climbs p n i r" "i < length p" "n \<le> k"
  shows "uf_wf (compress k r p i) \<and> length (compress k r p i) = length p
     \<and> (\<forall>j < length p. rep (compress k r p i) j = rep p j)"
  using assms
proof (induction k arbitrary: p i n)
  case (Suc k)
  show ?case
  proof (cases "p ! i = i")
    case False
    with Suc.prems obtain n' where n': "n = Suc n'" "climbs p n' (p ! i) r" by (auto elim: climbs.cases)
    note wf = redirect_wf [OF Suc.prems(1,2) False Suc.prems(3)]
    from redirect [OF n'(2) Suc.prems(2) False Suc.prems(3)] obtain m where
      m: "m \<le> n'" "climbs (p[i := r]) m (p ! i) r" by blast
    have "p ! i < length (p[i := r])" using Suc.prems by (auto simp: uf_wf_def)
    from Suc.IH [OF wf(1) m(2) this] m(1) n'(1) Suc.prems(4) wf(2) False show ?thesis by simp
  qed (use Suc.prems in simp)
qed auto

lemma uf_find_correct:
  assumes "uf_wf p" "i < length p"
  shows "fst (uf_find p i) = rep p i" "uf_wf (snd (uf_find p i))" "length (snd (uf_find p i)) = length p"
    "j < length p \<Longrightarrow> rep (snd (uf_find p i)) j = rep p j"
proof -
  from find_root_climbs [OF assms] obtain n where n: "climbs p n i (rep p i)" "n \<le> length p" by (metis less_imp_le)
  from compress_wf [OF assms(1) n(1) assms(2) n(2)]
  show "fst (uf_find p i) = rep p i" "uf_wf (snd (uf_find p i))" "length (snd (uf_find p i)) = length p"
    "j < length p \<Longrightarrow> rep (snd (uf_find p i)) j = rep p j"
    by (simp_all add: uf_find_def Let_def rep_def [symmetric])
qed

section \<open>Union\<close>

lemma link_climbs:
  assumes "climbs p n j x" "p ! a = a" "p ! b = b" "a \<noteq> b" "b < length p"
  shows "\<exists>n'. climbs (p[b := a]) n' j (if x = b then a else x)"
  using assms(1)
proof (induction rule: climbs.induct)
  case (root x)
  have "climbs (p[b := a]) 0 a a" using assms by (intro climbs.root) simp
  then have "climbs (p[b := a]) (Suc 0) b a" using assms by (intro climbs.step) auto
  moreover have "climbs (p[b := a]) 0 x x" if "x \<noteq> b" using root that by (intro climbs.root) simp
  ultimately show ?case by (cases "x = b") auto
next
  case (step j n x)
  then have "j \<noteq> b" using assms(3) by auto
  moreover from step.IH obtain n' where "climbs (p[b := a]) n' (p ! j) (if x = b then a else x)" by blast
  ultimately have "climbs (p[b := a]) (Suc n') j (if x = b then a else x)"
    using step(1) by (intro climbs.step) simp_all
  then show ?case ..
qed

lemma uf_union_correct:
  assumes "uf_wf p" "l < length p" "r < length p"
  shows "uf_wf (uf_union p l r)" "length (uf_union p l r) = length p"
    "i < length p \<Longrightarrow> rep (uf_union p l r) i = (if rep p i = rep p r then rep p l else rep p i)"
proof -
  define q where "q = snd (uf_find (snd (uf_find p l)) r)"
  note f1 = uf_find_correct [OF assms(1,2)]
  note f2 = uf_find_correct [OF f1(2), unfolded f1(3), OF assms(3)]
  have q: "uf_wf q" "length q = length p" "\<And>i. i < length p \<Longrightarrow> rep q i = rep p i"
    using f1 f2 by (simp_all add: q_def)
  have un: "uf_union p l r = (if rep p l \<noteq> rep p r then q[rep p r := rep p l] else q)"
    using f1 f2 assms by (simp add: uf_union_def q_def split: prod.splits)
      (metis fst_conv snd_conv)
  have roots: "q ! rep p l = rep p l" "q ! rep p r = rep p r" "rep p l < length q" "rep p r < length q"
    using rep_facts [OF q(1)] q assms by (metis rep_facts(1))+
  show "length (uf_union p l r) = length p" using q by (simp add: un)
  have linked: "\<exists>n. climbs (q[rep p r := rep p l]) n i (if rep p i = rep p r then rep p l else rep p i)"
    if "rep p l \<noteq> rep p r" "i < length p" for i
    using find_root_climbs [OF q(1), of i] q that link_climbs [OF _ roots(1,2) that(1) roots(4)] by fastforce
  show wf: "uf_wf (uf_union p l r)"
  proof (cases "rep p l = rep p r")
    case False
    have "q[rep p r := rep p l] ! i < length (q[rep p r := rep p l])" if "i < length (q[rep p r := rep p l])" for i
      using that q roots by (cases "i = rep p r") (auto simp: uf_wf_def)
    then have "uf_wf (q[rep p r := rep p l])"
      by (rule uf_wfI [where f = "\<lambda>i. if rep p i = rep p r then rep p l else rep p i"]) (use linked [OF False] q(2) in simp_all)
    with False show ?thesis by (simp add: un)
  qed (use q in \<open>simp add: un\<close>)
  show "rep (uf_union p l r) i = (if rep p i = rep p r then rep p l else rep p i)" if "i < length p"
  proof (cases "rep p l = rep p r")
    case False
    with linked [OF False that] rep_eq [OF wf] that q show ?thesis by (auto simp: un)
  qed (use q that in \<open>simp add: un\<close>)
qed

section \<open>The interface\<close>

definition connected :: "(nat \<times> nat) set \<Rightarrow> nat \<Rightarrow> nat \<Rightarrow> bool" where
  "connected E i j \<longleftrightarrow> (i, j) \<in> (E \<union> E\<inverse>)\<^sup>*"

lemma connected_refl [simp]: "connected E i i"
  by (simp add: connected_def)

lemma connected_sym: "connected E i j \<Longrightarrow> connected E j i"
  unfolding connected_def by (metis converse_Un converse_converse rtrancl_converseI sup_commute)

lemma connected_trans: "connected E i j \<Longrightarrow> connected E j k \<Longrightarrow> connected E i k"
  unfolding connected_def by (rule rtrancl_trans)

lemma connected_edge: "(i, j) \<in> E \<Longrightarrow> connected E i j"
  unfolding connected_def by auto

lemma connected_mono: "E \<subseteq> F \<Longrightarrow> connected E i j \<Longrightarrow> connected F i j"
  unfolding connected_def using rtrancl_mono [of "E \<union> E\<inverse>" "F \<union> F\<inverse>"] by blast

lemma connected_insert:
  "connected (insert (l, r) E) i j \<longleftrightarrow>
   connected E i j \<or> connected E i l \<and> connected E r j \<or> connected E i r \<and> connected E l j"
proof
  let ?once = "\<lambda>x y. connected E x y \<or> connected E x r \<and> connected E l y"
  have "insert (l, r) E \<union> (insert (l, r) E)\<inverse> = insert (l, r) (insert (r, l) (E \<union> E\<inverse>))" by auto
  moreover assume "connected (insert (l, r) E) i j"
  ultimately have "?once i j \<or> ?once i l \<and> ?once r j" unfolding connected_def by (simp add: rtrancl_insert)
  then show "connected E i j \<or> connected E i l \<and> connected E r j \<or> connected E i r \<and> connected E l j"
    using connected_trans by metis
next
  have "connected (insert (l, r) E) l r" "connected (insert (l, r) E) r l"
    by (auto intro: connected_edge connected_sym)
  moreover have "connected (insert (l, r) E) a b" if "connected E a b" for a b
    using connected_mono [OF _ that] by auto
  moreover assume "connected E i j \<or> connected E i l \<and> connected E r j \<or> connected E i r \<and> connected E l j"
  ultimately show "connected (insert (l, r) E) i j" using connected_trans by metis
qed

text \<open>A structure that keeps a representative for each of the elements below its size.\<close>

locale disjoint_sets =
  fixes invar :: "'p \<Rightarrow> bool" and size_of :: "'p \<Rightarrow> nat" and rep_of :: "'p \<Rightarrow> nat \<Rightarrow> nat"
    and join :: "'p \<Rightarrow> nat \<Rightarrow> nat \<Rightarrow> 'p"
  assumes join_invar: "invar p \<Longrightarrow> l < size_of p \<Longrightarrow> r < size_of p \<Longrightarrow> invar (join p l r)"
    and join_size: "invar p \<Longrightarrow> l < size_of p \<Longrightarrow> r < size_of p \<Longrightarrow> size_of (join p l r) = size_of p"
    and join_rep: "invar p \<Longrightarrow> l < size_of p \<Longrightarrow> r < size_of p \<Longrightarrow> i < size_of p \<Longrightarrow>
       rep_of (join p l r) i = (if rep_of p i = rep_of p r then rep_of p l else rep_of p i)"
begin

definition classes :: "'p \<Rightarrow> (nat \<times> nat) set \<Rightarrow> bool" where
  "classes p E \<longleftrightarrow> invar p
     \<and> (\<forall>i j. i < size_of p \<and> j < size_of p \<longrightarrow> (rep_of p i = rep_of p j \<longleftrightarrow> connected E i j))"

lemma classes_join:
  assumes "classes p E" "l < size_of p" "r < size_of p"
  shows "classes (join p l r) (insert (l, r) E)"
  unfolding classes_def
proof (intro conjI allI impI)
  have inv: "invar p" using assms(1) by (simp add: classes_def)
  show "invar (join p l r)" using join_invar [OF inv assms(2,3)] .
  fix i j assume ij: "i < size_of (join p l r) \<and> j < size_of (join p l r)"
  then have b: "i < size_of p" "j < size_of p" using join_size [OF inv assms(2,3)] by simp_all
  have eq: "rep_of p x = rep_of p y \<longleftrightarrow> connected E x y" if "x < size_of p" "y < size_of p" for x y
    using assms(1) that by (simp add: classes_def)
  show "rep_of (join p l r) i = rep_of (join p l r) j \<longleftrightarrow> connected (insert (l, r) E) i j"
    unfolding connected_insert using join_rep [OF inv assms(2,3)] b eq assms(2,3)
    by (auto split: if_splits) (metis connected_sym connected_trans)+
qed

lemma classes_fold:
  assumes "classes p E" "\<forall>(l, r) \<in> set es. l < size_of p \<and> r < size_of p"
  shows "classes (fold (\<lambda>(l, r) p. join p l r) es p) (E \<union> set es)
     \<and> size_of (fold (\<lambda>(l, r) p. join p l r) es p) = size_of p"
  using assms
proof (induction es arbitrary: p E)
  case (Cons e es)
  obtain l r where e: "e = (l, r)" by (cases e)
  with Cons.prems have lr: "l < size_of p" "r < size_of p" "invar p" by (auto simp: classes_def)
  note size = join_size [OF lr(3,1,2)]
  have "\<forall>(l', r') \<in> set es. l' < size_of (join p l r) \<and> r' < size_of (join p l r)"
    using Cons.prems(2) size by auto
  from Cons.IH [OF classes_join [OF Cons.prems(1) lr(1,2)] this] e size show ?case by simp
qed simp

end

interpretation forest: disjoint_sets uf_wf length rep uf_union
  by unfold_locales (simp_all add: uf_union_correct)

lemma singletons: "forest.classes [0..<n] {}"
proof -
  have c: "climbs [0..<n] 0 i i" if "i < n" for i using that by (intro climbs.root) simp
  then have wf: "uf_wf [0..<n]" by (intro uf_wfI [where f = id]) auto
  have "rep [0..<n] i = i" if "i < n" for i using rep_eq [OF wf _ c [OF that]] that by simp
  with wf show ?thesis by (simp add: forest.classes_def connected_def)
qed

end
