(* ===== verification/Test_Plan.thy ===== *)
theory Test_Plan
  imports Test_Inventory Union_Find
begin

text \<open>
  Shard plans, \<open>ShardPlan\<close> of \<open>src/src/parallel_proof.rs\<close>: the components of tests that must stay
  together, the balanced plan and the validation of a plan against its inventory.

  The lemmas show that the components are the classes of the relation generated by dependencies and
  shared fixtures, that a plan is accepted exactly when it is a partition of the inventory that
  splits no dependency and no fixture and isolates serial tests, and when the balanced plan exists
  and how far its loads can differ.
\<close>

section \<open>Components\<close>

definition test_fixtures :: "test_case \<Rightarrow> string list" where
  "test_fixtures t = tc_fixture_setup t @ tc_fixture_required t @ tc_fixture_cleanup t"

fun join_dependencies :: "(string \<times> nat) list \<Rightarrow> nat \<Rightarrow> string list \<Rightarrow> nat list \<Rightarrow> nat list proof_result" where
  "join_dependencies indexes index [] parent = Inr parent"
| "join_dependencies indexes index (d # ds) parent = (case bt_get indexes d of
       None \<Rightarrow> Inl (UnknownTest d)
     | Some other \<Rightarrow> join_dependencies indexes index ds (uf_union parent index other))"

fun join_all_dependencies :: "(string \<times> nat) list \<Rightarrow> (nat \<times> test_case) list \<Rightarrow> nat list \<Rightarrow> nat list proof_result" where
  "join_all_dependencies indexes [] parent = Inr parent"
| "join_all_dependencies indexes ((index, t) # ts) parent =
     result_bind (join_dependencies indexes index (tc_dependencies t) parent) (join_all_dependencies indexes ts)"

text \<open>A fixture joins each test that names it with the test before that named it.\<close>

definition join_fixture :: "nat \<Rightarrow> string \<Rightarrow> (string \<times> nat) list \<times> nat list \<Rightarrow> (string \<times> nat) list \<times> nat list" where
  "join_fixture index f state = (case state of (owner, parent) \<Rightarrow>
     (bt_insert f index owner,
      (case bt_get owner f of None \<Rightarrow> parent | Some previous \<Rightarrow> uf_union parent index previous)))"

definition join_fixtures :: "(nat \<times> test_case) list \<Rightarrow> nat list \<Rightarrow> nat list" where
  "join_fixtures tests parent =
     snd (fold (\<lambda>(index, t). fold (join_fixture index) (test_fixtures t)) tests ([], parent))"

fun group_by_root :: "nat list \<Rightarrow> nat list \<Rightarrow> (nat \<times> nat list) list \<Rightarrow> (nat \<times> nat list) list" where
  "group_by_root parent [] groups = groups"
| "group_by_root parent (index # indexes) groups = (case uf_find parent index of (root, parent') \<Rightarrow>
     group_by_root parent' indexes (bt_insert root (unwrap_or (bt_get groups root) [] @ [index]) groups))"

definition first_id :: "test_inventory \<Rightarrow> nat list \<Rightarrow> string" where
  "first_id iv component = tc_id (iv_tests iv ! hd component)"

definition topology_components :: "test_inventory \<Rightarrow> nat list list proof_result" where
  "topology_components iv =
     (let tests = enumerate 0 (iv_tests iv);
          indexes = bt_collect (map (\<lambda>(index, t). (tc_id t, index)) tests)
      in result_bind (join_all_dependencies indexes tests [0..<length tests]) (\<lambda>parent.
           let groups = group_by_root (join_fixtures tests parent) [0..<length tests] []
           in Inr (sort_key (first_id iv) (map snd groups))))"

section \<open>Plans\<close>

definition inventory_lookup :: "test_inventory \<Rightarrow> (string \<times> test_case) list" where
  "inventory_lookup iv = bt_collect (map (\<lambda>t. (tc_id t, t)) (iv_tests iv))"

text \<open>Indexing a map panics when the key is missing.\<close>

definition bt_index :: "('k \<times> 'v) list \<Rightarrow> 'k \<Rightarrow> 'v proof_result" where
  "bt_index m k = ok_or (bt_get m k) (Panicked ''no entry found for key'')"

definition validate_input_bounds :: "proof_codec \<Rightarrow> shard_plan \<Rightarrow> nat \<Rightarrow> unit proof_result" where
  "validate_input_bounds cd plan expected =
     (let memberships = sum_list (map (length \<circ> sh_test_ids) (pl_shards plan)) in
      result_bind (ensure_serialized_bound cd ''shard plan bytes'' (PlanValue plan)) (\<lambda>_.
      result_bind (ensure_count ''shard test memberships'' memberships 1 max_tests) (\<lambda>_.
        if memberships \<noteq> expected then Inl (InvalidPartition ''shard membership count does not match inventory'')
        else check_all (\<lambda>s. check_all (validate_identifier ''shard test id'') (sh_test_ids s)) (pl_shards plan))))"

fun place_tests ::
  "(string \<times> test_case) list \<Rightarrow> nat \<Rightarrow> string list \<Rightarrow> (string \<times> nat) list \<Rightarrow> bool \<Rightarrow> ((string \<times> nat) list \<times> bool) proof_result" where
  "place_tests lookup shard [] membership serial = Inr (membership, serial)"
| "place_tests lookup shard (tid # ids) membership serial = (case bt_get lookup tid of
       None \<Rightarrow> Inl (UnknownTest tid)
     | Some t \<Rightarrow>
         if bt_get membership tid \<noteq> None then Inl (InvalidPartition ''test appears in more than one shard'')
         else place_tests lookup shard ids (bt_insert tid shard membership) (serial \<or> tc_run_serial t))"

definition mode_of :: "bool \<Rightarrow> execution_mode" where
  "mode_of serial = (if serial then FleetExclusive else Parallel)"

fun place_shards ::
  "(string \<times> test_case) list \<Rightarrow> nat \<Rightarrow> test_shard list \<Rightarrow> (string \<times> nat) list \<Rightarrow> (string \<times> nat) list proof_result" where
  "place_shards lookup index [] membership = Inr membership"
| "place_shards lookup index (s # shards) membership =
     (if sh_id s \<noteq> index then Inl (NonCanonical ''shard ids'')
      else if sh_test_ids s = [] \<or> \<not> strictly_sorted (sh_test_ids s) then Inl (NonCanonical ''shard test ids'')
      else result_bind (place_tests lookup (sh_id s) (sh_test_ids s) membership False) (\<lambda>(membership', serial).
        if sh_execution_mode s \<noteq> mode_of serial then Inl (BindingMismatch ''shard execution mode'')
        else if serial \<and> length (sh_test_ids s) \<noteq> 1
        then Inl (TopologyViolation (''RUN_SERIAL shard '' @ show_nat (sh_id s) @ '' contains multiple tests''))
        else place_shards lookup (index + 1) shards membership'))"

definition dependencies_inside :: "(string \<times> nat) list \<Rightarrow> test_case \<Rightarrow> unit proof_result" where
  "dependencies_inside membership t = result_bind (bt_index membership (tc_id t)) (\<lambda>shard.
     check_all (\<lambda>d. result_bind (bt_index membership d) (\<lambda>other.
       if other \<noteq> shard then Inl (TopologyViolation (''dependency '' @ tc_id t @ '' -> '' @ d @ '' crosses shards''))
       else Inr ())) (tc_dependencies t))"

definition fixtures_inside :: "nat \<Rightarrow> string list \<Rightarrow> (string \<times> nat) list \<Rightarrow> (string \<times> nat) list proof_result" where
  "fixtures_inside shard fs = note_all (\<lambda>f. TopologyViolation (''fixture '' @ f @ '' crosses shards''))
     (map (\<lambda>f. (f, shard)) fs)"

fun all_fixtures_inside :: "(string \<times> nat) list \<Rightarrow> test_case list \<Rightarrow> (string \<times> nat) list \<Rightarrow> unit proof_result" where
  "all_fixtures_inside membership [] owners = Inr ()"
| "all_fixtures_inside membership (t # ts) owners = result_bind (bt_index membership (tc_id t)) (\<lambda>shard.
     result_bind (fixtures_inside shard (test_fixtures t) owners) (all_fixtures_inside membership ts))"

definition plan_validate_against :: "proof_codec \<Rightarrow> shard_plan \<Rightarrow> test_inventory \<Rightarrow> unit proof_result" where
  "plan_validate_against cd plan iv =
     result_bind (validate_version (pl_schema_version plan)) (\<lambda>_.
     result_bind (inventory_validate cd iv) (\<lambda>_.
     result_bind (ensure_count ''shards'' (length (pl_shards plan)) 1 max_shards) (\<lambda>_.
     result_bind (validate_input_bounds cd plan (length (iv_tests iv))) (\<lambda>_.
     result_bind (inventory_digest cd iv) (\<lambda>digest.
       if pl_inventory_digest plan \<noteq> digest then Inl (BindingMismatch ''inventory digest'')
       else if pl_total_tests plan \<noteq> length (iv_tests iv) then Inl (BindingMismatch ''test count'')
       else result_bind (place_shards (inventory_lookup iv) 0 (pl_shards plan) []) (\<lambda>membership.
         if length membership \<noteq> length (iv_tests iv) then Inl (InvalidPartition ''one or more tests are unassigned'')
         else result_bind (check_all (dependencies_inside membership) (iv_tests iv)) (\<lambda>_.
           all_fixtures_inside membership (iv_tests iv) [])))))))"

definition make_shard :: "(string \<times> test_case) list \<Rightarrow> nat \<Rightarrow> string list \<Rightarrow> test_shard proof_result" where
  "make_shard lookup index ids =
     result_bind (reject_adjacent_duplicates ''shard test ids'' (sort ids)) (\<lambda>_.
       Inr \<lparr>sh_id = index,
            sh_execution_mode = mode_of (\<exists>tid \<in> set ids. is_some_and (bt_get lookup tid) tc_run_serial),
            sh_test_ids = sort ids\<rparr>)"

definition check_assignment :: "string list \<Rightarrow> unit proof_result" where
  "check_assignment ids = (if ids = [] then Inl (InvalidPartition ''empty shard'')
     else check_all (validate_identifier ''shard test id'') ids)"

definition plan_from_assignments :: "proof_codec \<Rightarrow> test_inventory \<Rightarrow> string list list \<Rightarrow> shard_plan proof_result" where
  "plan_from_assignments cd iv assignments =
     (let memberships = sum_list (map length assignments) in
      result_bind (inventory_validate cd iv) (\<lambda>_.
      result_bind (ensure_count ''shards'' (length assignments) 1 max_shards) (\<lambda>_.
      result_bind (ensure_count ''shard test memberships'' memberships 1 max_tests) (\<lambda>_.
        if memberships \<noteq> length (iv_tests iv)
        then Inl (InvalidPartition ''shard membership count does not match inventory'')
        else result_bind (check_all check_assignment assignments) (\<lambda>_.
          result_bind (ensure_serialized_bound cd ''shard assignments bytes'' (AssignmentsValue assignments)) (\<lambda>_.
          result_bind (collect_results (map (\<lambda>(index, ids). make_shard (inventory_lookup iv) index ids)
                         (enumerate 0 assignments))) (\<lambda>shards.
          result_bind (inventory_digest cd iv) (\<lambda>digest.
          let plan = \<lparr>pl_schema_version = proof_schema_version, pl_inventory_digest = digest,
                      pl_total_tests = length (iv_tests iv), pl_shards = shards\<rparr> in
          result_bind (plan_validate_against cd plan iv) (\<lambda>_. Inr plan)))))))))"

definition plan_digest :: "proof_codec \<Rightarrow> shard_plan \<Rightarrow> test_inventory \<Rightarrow> sha256 proof_result" where
  "plan_digest cd plan iv = result_bind (plan_validate_against cd plan iv) (\<lambda>_.
     Inr (canonical_digest cd ''shipyard.parallel-proof.plan.v1'' (PlanValue plan)))"

definition plan_shard :: "shard_plan \<Rightarrow> nat \<Rightarrow> test_shard option" where
  "plan_shard plan shard_id = list_get (pl_shards plan) shard_id"

section \<open>The balanced plan\<close>

definition has_serial :: "test_inventory \<Rightarrow> nat list \<Rightarrow> bool" where
  "has_serial iv component = list_ex (\<lambda>index. tc_run_serial (iv_tests iv ! index)) component"

fun split_serial :: "test_inventory \<Rightarrow> nat list list \<Rightarrow> (nat list list \<times> nat list list) proof_result" where
  "split_serial iv [] = Inr ([], [])"
| "split_serial iv (c # cs) =
     (if has_serial iv c \<and> length c \<noteq> 1
      then Inl (TopologyViolation (''RUN_SERIAL test '' @ first_id iv c @ '' is coupled to other tests''))
      else result_bind (split_serial iv cs) (\<lambda>(serial, regular).
        Inr (if has_serial iv c then (c # serial, regular) else (serial, c # regular))))"

text \<open>One component goes to the least loaded shard, the first of several; the load is what it holds.\<close>

fun assign_components ::
  "test_inventory \<Rightarrow> nat list list \<Rightarrow> nat list \<Rightarrow> string list list \<Rightarrow> (nat list \<times> string list list) proof_result" where
  "assign_components iv [] loads assignments = Inr (loads, assignments)"
| "assign_components iv (c # cs) loads assignments =
     (case min_by_key (\<lambda>(index, load). (load, index)) (enumerate 0 loads) of
        None \<Rightarrow> Inl (InvalidPartition ''no parallel shard'')
      | Some (target, load) \<Rightarrow>
          assign_components iv cs (loads[target := load + length c])
            (assignments[target := assignments ! target @ map (\<lambda>index. tc_id (iv_tests iv ! index)) c]))"

definition deterministic_balanced :: "proof_codec \<Rightarrow> test_inventory \<Rightarrow> nat \<Rightarrow> shard_plan proof_result" where
  "deterministic_balanced cd iv shard_count =
     result_bind (inventory_validate cd iv) (\<lambda>_.
     result_bind (ensure_count ''shards'' shard_count 1 max_shards) (\<lambda>_.
     result_bind (topology_components iv) (\<lambda>components.
       if length components < shard_count
       then Inl (InvalidPartition ''requested more non-empty shards than topology components'')
       else result_bind (split_serial iv components) (\<lambda>(serial, regular).
         if shard_count < length serial \<or> (regular \<noteq> [] \<and> length serial = shard_count)
         then Inl (InvalidPartition ''not enough shards to isolate RUN_SERIAL tests'')
         else if length regular < shard_count - length serial
         then Inl (InvalidPartition ''not enough independent topology components for requested shards'')
         else let regular_shards = shard_count - length serial in
           result_bind (assign_components iv (sort_key (first_id iv) regular)
               (replicate regular_shards 0) (replicate regular_shards [])) (\<lambda>(_, assigned).
             plan_from_assignments cd iv
               (map (map (\<lambda>index. tc_id (iv_tests iv ! index))) serial @ assigned))))))"

section \<open>Components are the connected classes\<close>

text \<open>Two tests are coupled when one depends on the other or both name a fixture.\<close>

definition coupled :: "test_inventory \<Rightarrow> (nat \<times> nat) set" where
  "coupled iv = {(i, j). i < length (iv_tests iv) \<and> j < length (iv_tests iv)
     \<and> (tc_id (iv_tests iv ! j) \<in> set (tc_dependencies (iv_tests iv ! i))
        \<or> set (test_fixtures (iv_tests iv ! i)) \<inter> set (test_fixtures (iv_tests iv ! j)) \<noteq> {})}"

definition dependency_edges :: "test_inventory \<Rightarrow> (nat \<times> nat) set" where
  "dependency_edges iv = {(i, j). i < length (iv_tests iv) \<and> j < length (iv_tests iv)
     \<and> tc_id (iv_tests iv ! j) \<in> set (tc_dependencies (iv_tests iv ! i))}"

lemma join_dependencies_classes:
  assumes "forest.classes p E" "index < length p"
    and "\<And>d. d \<in> set ds \<Longrightarrow> \<exists>j < length p. bt_get indexes d = Some j"
  shows "\<exists>q. join_dependencies indexes index ds p = Inr q \<and> length q = length p
     \<and> forest.classes q (E \<union> {(index, j) | j d. d \<in> set ds \<and> bt_get indexes d = Some j})"
  using assms
proof (induction ds arbitrary: p E)
  case (Cons d ds)
  from Cons.prems(3) obtain j where j: "j < length p" "bt_get indexes d = Some j" by auto
  have inv: "uf_wf p" using Cons.prems(1) by (simp add: forest.classes_def)
  note joined = forest.classes_join [OF Cons.prems(1,2) j(1)]
  have len: "length (uf_union p index j) = length p" using uf_union_correct(2) [OF inv Cons.prems(2) j(1)] .
  have "insert (index, j) E \<union> {(index, j') | j' d'. d' \<in> set ds \<and> bt_get indexes d' = Some j'}
      = E \<union> {(index, j') | j' d'. d' \<in> set (d # ds) \<and> bt_get indexes d' = Some j'}" using j(2) by auto
  with Cons.IH [OF joined] Cons.prems(2,3) len j(2) show ?case by auto
qed auto

lemma join_all_classes:
  assumes "forest.classes p E"
    and "\<forall>(i, t) \<in> set ts. i < length p \<and> (\<forall>d \<in> set (tc_dependencies t). \<exists>j < length p. bt_get indexes d = Some j)"
  shows "\<exists>q. join_all_dependencies indexes ts p = Inr q \<and> length q = length p
     \<and> forest.classes q (E \<union> {(i, j) | i j t d. (i, t) \<in> set ts \<and> d \<in> set (tc_dependencies t) \<and> bt_get indexes d = Some j})"
  using assms
proof (induction ts arbitrary: p E)
  case (Cons it ts)
  obtain i t where it: "it = (i, t)" by (cases it)
  from Cons.prems(2) it join_dependencies_classes [OF Cons.prems(1), of i "tc_dependencies t" indexes]
  obtain q where q: "join_dependencies indexes i (tc_dependencies t) p = Inr q" "length q = length p"
    "forest.classes q (E \<union> {(i, j) | j d. d \<in> set (tc_dependencies t) \<and> bt_get indexes d = Some j})" by auto
  have "E \<union> {(i, j) | j d. d \<in> set (tc_dependencies t) \<and> bt_get indexes d = Some j}
       \<union> {(i', j) | i' j t' d. (i', t') \<in> set ts \<and> d \<in> set (tc_dependencies t') \<and> bt_get indexes d = Some j}
     = E \<union> {(i', j) | i' j t' d. (i', t') \<in> set (it # ts) \<and> d \<in> set (tc_dependencies t') \<and> bt_get indexes d = Some j}"
    using it by auto
  with Cons.IH [OF q(3)] Cons.prems(2) q(1,2) it show ?case by auto
qed auto

text \<open>The fixture loop as one loop over the pairs of a test and a fixture it names.\<close>

lemma join_fixtures_flat:
  "join_fixtures ts p = snd (fold (\<lambda>(i, f). join_fixture i f) (concat (map (\<lambda>(i, t). map (Pair i) (test_fixtures t)) ts)) ([], p))"
proof -
  have "fold (\<lambda>(i, t). fold (join_fixture i) (test_fixtures t)) ts s
      = fold (\<lambda>(i, f). join_fixture i f) (concat (map (\<lambda>(i, t). map (Pair i) (test_fixtures t)) ts)) s" for s
    by (induction ts arbitrary: s) (auto simp: fold_map comp_def)
  then show ?thesis by (simp add: join_fixtures_def)
qed

definition sharing :: "(nat \<times> string) set \<Rightarrow> (nat \<times> nat) set" where
  "sharing P = {(i, j). \<exists>f. (i, f) \<in> P \<and> (j, f) \<in> P}"

definition fixtures_joined ::
  "(nat \<times> nat) set \<Rightarrow> nat \<Rightarrow> (nat \<times> string) set \<Rightarrow> (string \<times> nat) list \<times> nat list \<Rightarrow> bool" where
  "fixtures_joined E n P state \<longleftrightarrow> (\<exists>F. forest.classes (snd state) (E \<union> F) \<and> length (snd state) = n
     \<and> bt_wf (fst state) \<and> F \<subseteq> sharing P
     \<and> (\<forall>(i, f) \<in> P. \<exists>h. bt_get (fst state) f = Some h \<and> connected F i h)
     \<and> (\<forall>f h. bt_get (fst state) f = Some h \<longrightarrow> (h, f) \<in> P))"

lemma fixtures_joined_step:
  assumes "fixtures_joined E n P state" "i < n" "\<forall>(j, f) \<in> P. j < n"
  shows "fixtures_joined E n (insert (i, f) P) (join_fixture i f state)"
proof -
  obtain owner p where st: "state = (owner, p)" by (cases state)
  from assms(1) st obtain F where F: "forest.classes p (E \<union> F)" "length p = n" "bt_wf owner" "F \<subseteq> sharing P"
    "\<forall>(i, f) \<in> P. \<exists>h. bt_get owner f = Some h \<and> connected F i h" "\<forall>f h. bt_get owner f = Some h \<longrightarrow> (h, f) \<in> P"
    by (auto simp: fixtures_joined_def)
  note get = bt_get_insert [OF F(3), of f i]
  have mono: "sharing P \<subseteq> sharing (insert (i, f) P)" by (auto simp: sharing_def)
  show ?thesis
  proof (cases "bt_get owner f")
    case None
    then have "\<forall>(j, g) \<in> insert (i, f) P. \<exists>h. bt_get (bt_insert f i owner) g = Some h \<and> connected F j h"
      using F(5) by (fastforce simp: get)
    moreover have "\<forall>g h. bt_get (bt_insert f i owner) g = Some h \<longrightarrow> (h, g) \<in> insert (i, f) P"
      using F(6) by (auto simp: get)
    ultimately show ?thesis unfolding fixtures_joined_def using F(1-4) mono None
      by (intro exI [of _ F]) (auto simp: st join_fixture_def bt_wf_insert)
  next
    case (Some h)
    with F(6) assms(3) F(2) have h: "(h, f) \<in> P" "h < length p" by fastforce+
    have inv: "uf_wf p" using F(1) by (simp add: forest.classes_def)
    have i: "i < length p" using assms(2) F(2) by simp
    let ?F = "insert (i, h) F"
    have "connected ?F j i" if "(j, f) \<in> P" for j
    proof -
      from F(5) that Some have "connected F j h" by fastforce
      then have "connected ?F j h" using connected_mono [of F ?F] by blast
      moreover have "connected ?F h i" by (intro connected_sym [OF connected_edge]) simp
      ultimately show ?thesis by (rule connected_trans)
    qed
    moreover have "connected F j g \<Longrightarrow> connected ?F j g" for j g using connected_mono [of F ?F] by blast
    ultimately have "\<forall>(j, g) \<in> insert (i, f) P. \<exists>h. bt_get (bt_insert f i owner) g = Some h \<and> connected ?F j h"
      using F(5) by (fastforce simp: get)
    moreover have "\<forall>g h. bt_get (bt_insert f i owner) g = Some h \<longrightarrow> (h, g) \<in> insert (i, f) P"
      using F(6) by (auto simp: get)
    moreover have "?F \<subseteq> sharing (insert (i, f) P)" using F(4) mono h(1) by (auto simp: sharing_def)
    moreover have "forest.classes (uf_union p i h) (E \<union> ?F)" using forest.classes_join [OF F(1) i h(2)] by simp
    ultimately show ?thesis unfolding fixtures_joined_def using F(2,3) Some uf_union_correct(2) [OF inv i h(2)]
      by (intro exI [of _ ?F]) (auto simp: st join_fixture_def bt_wf_insert)
  qed
qed

lemma fixtures_joined_fold:
  assumes "fixtures_joined E n P state" "\<forall>(j, f) \<in> P \<union> set ps. j < n"
  shows "fixtures_joined E n (P \<union> set ps) (fold (\<lambda>(i, f). join_fixture i f) ps state)"
  using assms
proof (induction ps arbitrary: P state)
  case (Cons q ps)
  obtain i f where q: "q = (i, f)" by (cases q)
  from Cons.prems q have "fixtures_joined E n (insert (i, f) P) (join_fixture i f state)"
    by (intro fixtures_joined_step) auto
  from Cons.IH [OF this] Cons.prems(2) q show ?case by simp
qed simp

lemma connected_generated:
  assumes "F \<subseteq> S" "\<And>i j. (i, j) \<in> S \<Longrightarrow> connected F i j"
  shows "connected (E \<union> F) i j \<longleftrightarrow> connected (E \<union> S) i j"
proof
  show "connected (E \<union> F) i j \<Longrightarrow> connected (E \<union> S) i j" using connected_mono [of "E \<union> F" "E \<union> S"] assms(1) by blast
  have edge: "connected (E \<union> F) a b" if "(a, b) \<in> (E \<union> S) \<union> (E \<union> S)\<inverse>" for a b
  proof -
    have "connected F c d \<Longrightarrow> connected (E \<union> F) c d" for c d using connected_mono [of F "E \<union> F"] by blast
    with that assms(2) show ?thesis by (auto intro: connected_edge connected_sym)
  qed
  assume "connected (E \<union> S) i j"
  then have "(i, j) \<in> ((E \<union> S) \<union> (E \<union> S)\<inverse>)\<^sup>*" by (simp add: connected_def)
  then show "connected (E \<union> F) i j"
    by (induction rule: rtrancl_induct) (auto intro: connected_trans edge)
qed

lemma join_fixtures_classes:
  assumes "forest.classes p E" "\<forall>(i, t) \<in> set ts. i < length p"
  shows "forest.classes (join_fixtures ts p) (E \<union> sharing {(i, f) | i f t. (i, t) \<in> set ts \<and> f \<in> set (test_fixtures t)})"
    "length (join_fixtures ts p) = length p"
proof -
  let ?ps = "concat (map (\<lambda>(i, t). map (Pair i) (test_fixtures t)) ts)"
  have ps: "set ?ps = {(i, f) | i f t. (i, t) \<in> set ts \<and> f \<in> set (test_fixtures t)}" by auto
  have "fixtures_joined E (length p) {} ([], p)"
    using assms(1) unfolding fixtures_joined_def by (intro exI [of _ "{}"]) (simp add: bt_get_Nil)
  from fixtures_joined_fold [OF this, of ?ps] assms(2) ps have "fixtures_joined E (length p) (set ?ps)
      (fold (\<lambda>(i, f). join_fixture i f) ?ps ([], p))" by fastforce
  then obtain F where F: "forest.classes (join_fixtures ts p) (E \<union> F)" "length (join_fixtures ts p) = length p"
    "F \<subseteq> sharing (set ?ps)" "\<And>i f. (i, f) \<in> set ?ps \<Longrightarrow> \<exists>h. bt_get (fst (fold (\<lambda>(i, f). join_fixture i f) ?ps ([], p))) f = Some h \<and> connected F i h"
    unfolding fixtures_joined_def join_fixtures_flat by blast
  show "length (join_fixtures ts p) = length p" by (rule F(2))
  have "connected F i j" if "(i, j) \<in> sharing (set ?ps)" for i j
  proof -
    from that obtain f where "(i, f) \<in> set ?ps" "(j, f) \<in> set ?ps" unfolding sharing_def by blast
    with F(4) obtain h h' where "connected F i h" "connected F j h'"
      "bt_get (fst (fold (\<lambda>(i, f). join_fixture i f) ?ps ([], p))) f = Some h"
      "bt_get (fst (fold (\<lambda>(i, f). join_fixture i f) ?ps ([], p))) f = Some h'" by blast
    then show ?thesis by (metis connected_sym connected_trans option.inject)
  qed
  from connected_generated [OF F(3) this] F(1)
  show "forest.classes (join_fixtures ts p) (E \<union> sharing {(i, f) | i f t. (i, t) \<in> set ts \<and> f \<in> set (test_fixtures t)})"
    unfolding ps by (simp add: forest.classes_def)
qed

lemma group_by_root_get:
  assumes "uf_wf p" "\<forall>i \<in> set is. i < length p" "bt_wf groups"
  shows "bt_wf (group_by_root p is groups)
     \<and> bt_get (group_by_root p is groups) r = (case filter (\<lambda>i. rep p i = r) is of
           [] \<Rightarrow> bt_get groups r | added \<Rightarrow> Some (unwrap_or (bt_get groups r) [] @ added))"
  using assms
proof (induction "is" arbitrary: p groups)
  case (Cons i js)
  obtain root q where q: "uf_find p i = (root, q)" by fastforce
  from uf_find_correct [OF Cons.prems(1), of i] Cons.prems(2) q
  have f: "root = rep p i" "uf_wf q" "length q = length p" "\<And>j. j < length p \<Longrightarrow> rep q j = rep p j" by auto
  let ?g = "bt_insert root (unwrap_or (bt_get groups root) [] @ [i]) groups"
  have "filter (\<lambda>j. rep q j = r) js = filter (\<lambda>j. rep p j = r) js" using f(4) Cons.prems(2) by (intro filter_cong) auto
  with Cons.IH [OF f(2), of ?g] f(3) Cons.prems(2,3) have
    IH: "bt_wf (group_by_root q js ?g)"
      "bt_get (group_by_root q js ?g) r = (case filter (\<lambda>j. rep p j = r) js of
           [] \<Rightarrow> bt_get ?g r | added \<Rightarrow> Some (unwrap_or (bt_get ?g r) [] @ added))"
    by (auto simp: bt_wf_insert)
  show ?case using IH q f(1) by (auto simp: bt_get_insert [OF Cons.prems(3)] unwrap_or_def split: list.splits)
qed simp

lemma group_by_root_all:
  assumes "uf_wf p" "length p = n"
  shows "bt_wf (group_by_root p [0..<n] [])"
    "bt_get (group_by_root p [0..<n] []) r = Some c \<longleftrightarrow> c = filter (\<lambda>i. rep p i = r) [0..<n] \<and> c \<noteq> []"
  using group_by_root_get [OF assms(1), of "[0..<n]" "[]" r] assms(2)
  by (auto simp: bt_get_Nil unwrap_or_def split: list.splits)

definition grouped :: "nat list \<Rightarrow> nat \<Rightarrow> nat list list \<Rightarrow> bool" where
  "grouped p n cs \<longleftrightarrow> distinct cs \<and> (\<forall>c. c \<in> set cs \<longleftrightarrow> c \<noteq> [] \<and> (\<exists>r. c = filter (\<lambda>i. rep p i = r) [0..<n]))"

lemma group_by_root_grouped:
  assumes "uf_wf p" "length p = n"
  shows "grouped p n (sort_key key (map snd (group_by_root p [0..<n] [])))"
proof -
  let ?g = "group_by_root p [0..<n] []"
  note g = group_by_root_all [OF assms]
  have mem: "(r, c) \<in> set ?g \<longleftrightarrow> c = filter (\<lambda>i. rep p i = r) [0..<n] \<and> c \<noteq> []" for r c
    using g(2) bt_get_Some_iff [OF g(1)] by auto
  have "inj_on snd (set ?g)"
  proof (rule inj_onI)
    fix e e' assume e: "e \<in> set ?g" "e' \<in> set ?g" "snd e = snd e'"
    obtain r c r' c' where rc: "e = (r, c)" "e' = (r', c')" by (cases e; cases e')
    with e mem have "c \<noteq> []" "c = filter (\<lambda>i. rep p i = r) [0..<n]" "c = filter (\<lambda>i. rep p i = r') [0..<n]" by auto
    then obtain i where "i \<in> set (filter (\<lambda>i. rep p i = r) [0..<n])" "i \<in> set (filter (\<lambda>i. rep p i = r') [0..<n])"
      by (metis hd_in_set)
    with rc e show "e = e'" by auto
  qed
  moreover have "distinct ?g" using bt_wf_distinct [OF g(1)] by (simp add: distinct_map)
  ultimately have "distinct (map snd ?g)" by (simp add: distinct_map)
  moreover have "c \<in> set (map snd ?g) \<longleftrightarrow> c \<noteq> [] \<and> (\<exists>r. c = filter (\<lambda>i. rep p i = r) [0..<n])" for c
  proof -
    have "c \<in> set (map snd ?g) \<longleftrightarrow> (\<exists>r. (r, c) \<in> set ?g)" by force
    then show ?thesis unfolding mem by blast
  qed
  ultimately show ?thesis unfolding grouped_def by (simp only: distinct_sort set_sort) simp
qed

lemma grouped_partition:
  assumes "grouped p n cs"
  shows "distinct (concat cs)" "set (concat cs) = {..<n}" "c \<in> set cs \<Longrightarrow> c \<noteq> [] \<and> sorted_wrt (<) c"
    "i < n \<Longrightarrow> j < n \<Longrightarrow> (\<exists>c \<in> set cs. i \<in> set c \<and> j \<in> set c) \<longleftrightarrow> rep p i = rep p j"
proof -
  have cs: "distinct cs" "\<And>c. c \<in> set cs \<longleftrightarrow> c \<noteq> [] \<and> (\<exists>r. c = filter (\<lambda>i. rep p i = r) [0..<n])"
    using assms unfolding grouped_def by blast+
  show "distinct (concat cs)"
  proof (rule distinct_concat [OF cs(1)])
    fix c assume "c \<in> set cs"
    then obtain r where "c = filter (\<lambda>i. rep p i = r) [0..<n]" using cs(2) by metis
    then show "distinct c" by simp
  next
    fix c d assume "c \<in> set cs" "d \<in> set cs" "c \<noteq> d"
    then obtain r s where "c = filter (\<lambda>i. rep p i = r) [0..<n]" "d = filter (\<lambda>i. rep p i = s) [0..<n]" using cs(2) by metis
    with \<open>c \<noteq> d\<close> show "set c \<inter> set d = {}" by auto
  qed
  have own: "\<exists>c \<in> set cs. i \<in> set c" if "i < n" for i
  proof -
    have "filter (\<lambda>j. rep p j = rep p i) [0..<n] \<in> set cs" unfolding cs(2) using that by (auto simp: filter_empty_conv)
    then show ?thesis using that by (intro bexI) auto
  qed
  show "set (concat cs) = {..<n}"
  proof
    show "set (concat cs) \<subseteq> {..<n}"
    proof
      fix i assume "i \<in> set (concat cs)"
      then obtain c where "c \<in> set cs" "i \<in> set c" by auto
      moreover from this obtain r where "c = filter (\<lambda>i. rep p i = r) [0..<n]" using cs(2) by metis
      ultimately show "i \<in> {..<n}" by simp
    qed
  qed (use own in auto)
  show "c \<noteq> [] \<and> sorted_wrt (<) c" if "c \<in> set cs"
  proof -
    from that obtain r where "c \<noteq> []" "c = filter (\<lambda>i. rep p i = r) [0..<n]" using cs(2) by metis
    then show ?thesis by (simp add: sorted_wrt_filter)
  qed
  show "(\<exists>c \<in> set cs. i \<in> set c \<and> j \<in> set c) \<longleftrightarrow> rep p i = rep p j" if "i < n" "j < n"
  proof
    assume "\<exists>c \<in> set cs. i \<in> set c \<and> j \<in> set c"
    then obtain c where c: "c \<in> set cs" "i \<in> set c" "j \<in> set c" by blast
    then obtain r where "c = filter (\<lambda>i. rep p i = r) [0..<n]" using cs(2) by metis
    with c show "rep p i = rep p j" by simp
  next
    assume "rep p i = rep p j"
    moreover have "filter (\<lambda>k. rep p k = rep p i) [0..<n] \<in> set cs" unfolding cs(2) using that by (auto simp: filter_empty_conv)
    ultimately show "\<exists>c \<in> set cs. i \<in> set c \<and> j \<in> set c" using that by (intro bexI) auto
  qed
qed

lemma topology_components_classes:
  assumes "inventory_ok iv"
  shows "\<exists>p. forest.classes p (coupled iv) \<and> length p = length (iv_tests iv)
     \<and> topology_components iv = Inr (sort_key (first_id iv) (map snd (group_by_root p [0..<length (iv_tests iv)] [])))"
proof -
  let ?ts = "iv_tests iv" and ?es = "enumerate 0 (iv_tests iv)"
  let ?n = "length ?ts" and ?ix = "bt_collect (map (\<lambda>(index, t). (tc_id t, index)) ?es)"
  note ok = inventory_okD [OF assms]
  have ids: "distinct (map (\<lambda>it. tc_id (snd it)) ?es)" 
  proof -
    have "map (\<lambda>it. tc_id (snd it)) ?es = map tc_id (map snd ?es)" by (simp add: comp_def del: map_snd_enumerate)
    then show ?thesis using ok(1) by simp
  qed
  have ix: "bt_get ?ix d = Some j \<longleftrightarrow> j < ?n \<and> d = tc_id (?ts ! j)" for d j
    using bt_get_collect_key(1) [OF ids, of fst d j] by (simp add: case_prod_beta' Bex_def in_set_enumerate_eq)
  have dep: "\<exists>j < ?n. bt_get ?ix d = Some j" if "t \<in> set ?ts" "d \<in> set (tc_dependencies t)" for t d
  proof -
    from ok(3) [OF that] obtain j where "j < ?n" "d = tc_id (?ts ! j)" by (auto simp: in_set_conv_nth)
    then show ?thesis using ix by blast
  qed
  have "\<forall>(i, t) \<in> set ?es. i < ?n \<and> (\<forall>d \<in> set (tc_dependencies t). \<exists>j < ?n. bt_get ?ix d = Some j)"
    using dep [OF nth_mem] by (auto simp: in_set_enumerate_eq)
  with join_all_classes [OF singletons [of ?n], of ?es ?ix] obtain q where
    q: "join_all_dependencies ?ix ?es [0..<?n] = Inr q" "length q = ?n"
    "forest.classes q {(i, j) | i j t d. (i, t) \<in> set ?es \<and> d \<in> set (tc_dependencies t) \<and> bt_get ?ix d = Some j}"
    by auto
  have F: "\<forall>(i, t) \<in> set ?es. i < length q" using q(2) by (auto simp: in_set_enumerate_eq)
  note jf = join_fixtures_classes [OF q(3) F]
  have "{(i, j) | i j t d. (i, t) \<in> set ?es \<and> d \<in> set (tc_dependencies t) \<and> bt_get ?ix d = Some j}
      \<union> sharing {(i, f) | i f t. (i, t) \<in> set ?es \<and> f \<in> set (test_fixtures t)} = coupled iv"
    by (auto simp: coupled_def sharing_def in_set_enumerate_eq ix)
  with jf q show ?thesis
    by (intro exI [of _ "join_fixtures ?es q"]) (simp add: topology_components_def Let_def)
qed

lemma components_partition:
  assumes "inventory_ok iv"
  obtains cs where "topology_components iv = Inr cs" "distinct (concat cs)" "set (concat cs) = {..<length (iv_tests iv)}"
    "\<And>c. c \<in> set cs \<Longrightarrow> c \<noteq> [] \<and> sorted_wrt (<) c" "sorted (map (first_id iv) cs)"
    "\<And>i j. i < length (iv_tests iv) \<Longrightarrow> j < length (iv_tests iv) \<Longrightarrow>
       (\<exists>c \<in> set cs. i \<in> set c \<and> j \<in> set c) \<longleftrightarrow> connected (coupled iv) i j"
proof -
  from topology_components_classes [OF assms] obtain p where p: "forest.classes p (coupled iv)" "length p = length (iv_tests iv)"
    "topology_components iv = Inr (sort_key (first_id iv) (map snd (group_by_root p [0..<length (iv_tests iv)] [])))" by blast
  have wf: "uf_wf p" using p(1) by (simp add: forest.classes_def)
  note part = grouped_partition [OF group_by_root_grouped [OF wf p(2), of "first_id iv"]]
  show thesis
    by (rule that [OF p(3) part(1,2,3) sorted_sort_key]) (use part(4) p(1,2) in \<open>simp_all add: forest.classes_def\<close>)
qed

text \<open>
  (C20) The components of an accepted inventory: every test is in exactly one, and two tests are in the
  same one exactly when a chain of dependencies and shared fixtures, in either direction, connects
  them. The components are listed by their first test.
\<close>

theorem components_are_classes:
  assumes "inventory_validate cd iv = Inr ()"
  shows "\<exists>cs. topology_components iv = Inr cs \<and> distinct (concat cs) \<and> set (concat cs) = {..<length (iv_tests iv)}
     \<and> [] \<notin> set cs \<and> sorted (map (first_id iv) cs)
     \<and> (\<forall>i j. i < length (iv_tests iv) \<and> j < length (iv_tests iv) \<longrightarrow>
          ((\<exists>c \<in> set cs. i \<in> set c \<and> j \<in> set c) \<longleftrightarrow> (i, j) \<in> (coupled iv \<union> (coupled iv)\<inverse>)\<^sup>*))"
proof -
  have "inventory_ok iv" using assms by (simp add: inventory_validate_Inr)
  then show ?thesis by (rule components_partition) (auto simp: connected_def)
qed

section \<open>Valid plans are partitions\<close>

definition serial_in :: "(string \<times> test_case) list \<Rightarrow> string list \<Rightarrow> bool" where
  "serial_in lookup ids = (\<exists>tid \<in> set ids. is_some_and (bt_get lookup tid) tc_run_serial)"

definition shard_ok :: "(string \<times> test_case) list \<Rightarrow> test_shard \<Rightarrow> bool" where
  "shard_ok lookup s \<longleftrightarrow> sh_test_ids s \<noteq> [] \<and> strictly_sorted (sh_test_ids s)
     \<and> (\<forall>tid \<in> set (sh_test_ids s). bt_get lookup tid \<noteq> None)
     \<and> sh_execution_mode s = mode_of (serial_in lookup (sh_test_ids s))
     \<and> (serial_in lookup (sh_test_ids s) \<longrightarrow> length (sh_test_ids s) = 1)"

definition entries :: "nat \<Rightarrow> string list \<Rightarrow> (string \<times> nat) list" where
  "entries shard ids = map (\<lambda>tid. (tid, shard)) ids"

definition all_entries :: "test_shard list \<Rightarrow> (string \<times> nat) list" where
  "all_entries ss = concat (map (\<lambda>s. entries (sh_id s) (sh_test_ids s)) ss)"

abbreviation insert_entries :: "(string \<times> nat) list \<Rightarrow> (string \<times> nat) list \<Rightarrow> (string \<times> nat) list" where
  "insert_entries es m \<equiv> fold (\<lambda>(k, v) m. bt_insert k v m) es m"

lemma place_tests_Inr:
  assumes "bt_wf m"
  shows "place_tests lookup shard ids m b = Inr (m', b') \<longleftrightarrow>
     (\<forall>tid \<in> set ids. bt_get lookup tid \<noteq> None \<and> bt_get m tid = None) \<and> distinct ids
     \<and> m' = insert_entries (entries shard ids) m \<and> b' = (b \<or> serial_in lookup ids)"
  using assms
proof (induction ids arbitrary: m b)
  case (Cons tid ids)
  then show ?case
    using Cons.IH [OF bt_wf_insert [OF Cons.prems], of tid shard]
    by (auto simp: bt_get_insert entries_def serial_in_def is_some_and_def split: option.splits if_splits)
qed (auto simp: entries_def serial_in_def)

lemma entries_keys [simp]: "map fst (entries shard ids) = ids" "fst ` set (entries shard ids) = set ids"
  by (auto simp: entries_def comp_def image_image)

lemma entries_map_of: "map_of (entries shard ids) tid = (if tid \<in> set ids then Some shard else None)"
  by (induction ids) (auto simp: entries_def)

lemma all_entries_keys: "map fst (all_entries ss) = concat (map sh_test_ids ss)"
  by (induction ss) (auto simp: all_entries_def)

lemma place_shards_Inr:
  assumes "bt_wf m"
  shows "place_shards lookup k ss m = Inr m' \<longleftrightarrow>
     map sh_id ss = [k..<k + length ss] \<and> (\<forall>s \<in> set ss. shard_ok lookup s)
     \<and> distinct (concat (map sh_test_ids ss)) \<and> (\<forall>tid \<in> set (concat (map sh_test_ids ss)). bt_get m tid = None)
     \<and> m' = insert_entries (all_entries ss) m"
  using assms
proof (induction ss arbitrary: m k)
  case (Cons s ss)
  let ?m = "insert_entries (entries (sh_id s) (sh_test_ids s)) m"
  have up: "[k..<k + length (s # ss)] = k # [Suc k..<Suc k + length ss]" by (subst upt_conv_Cons) simp_all
  have get: "bt_get ?m tid = (if tid \<in> set (sh_test_ids s) then Some (sh_id s) else bt_get m tid)"
    if "distinct (sh_test_ids s)" for tid
    using bt_get_insert_all [OF Cons.prems, of "entries (sh_id s) (sh_test_ids s)"] that
    by (simp add: map_add_def entries_map_of)
  show ?case
  proof (cases "sh_id s = k \<and> shard_ok lookup s \<and> (\<forall>tid \<in> set (sh_test_ids s). bt_get m tid = None)")
    case True
    then have ss: "sh_test_ids s \<noteq> []" "strictly_sorted (sh_test_ids s)" "distinct (sh_test_ids s)"
      by (auto simp: shard_ok_def dest: strictly_sorted_distinct)
    have "place_tests lookup (sh_id s) (sh_test_ids s) m False = Inr (?m, serial_in lookup (sh_test_ids s))"
      unfolding place_tests_Inr [OF Cons.prems] using True ss by (auto simp: shard_ok_def)
    then have "place_shards lookup k (s # ss) m = Inr m' \<longleftrightarrow> place_shards lookup (Suc k) ss ?m = Inr m'"
      using True ss by (auto simp: shard_ok_def)
    also have "\<dots> \<longleftrightarrow> map sh_id ss = [Suc k..<Suc k + length ss] \<and> (\<forall>s \<in> set ss. shard_ok lookup s)
       \<and> distinct (concat (map sh_test_ids ss)) \<and> (\<forall>tid \<in> set (concat (map sh_test_ids ss)). bt_get ?m tid = None)
       \<and> m' = insert_entries (all_entries ss) ?m" by (rule Cons.IH [OF bt_wf_insert_all [OF Cons.prems]])
    also have "(\<forall>tid \<in> set (concat (map sh_test_ids ss)). bt_get ?m tid = None) \<longleftrightarrow>
       set (sh_test_ids s) \<inter> set (concat (map sh_test_ids ss)) = {} \<and> (\<forall>tid \<in> set (concat (map sh_test_ids ss)). bt_get m tid = None)"
      unfolding get [OF ss(3)] by (auto simp del: set_concat)
    finally show ?thesis unfolding up using True ss(3)
      by (simp add: all_entries_def conj_ac del: set_concat) blast
  next
    case False
    have "place_shards lookup k (s # ss) m \<noteq> Inr m'"
    proof
      assume "place_shards lookup k (s # ss) m = Inr m'"
      then obtain m1 b where "sh_id s = k" "sh_test_ids s \<noteq> []" "strictly_sorted (sh_test_ids s)"
        "place_tests lookup (sh_id s) (sh_test_ids s) m False = Inr (m1, b)" "sh_execution_mode s = mode_of b"
        "b \<longrightarrow> length (sh_test_ids s) = 1"
        by (auto simp: result_bind_Inr_iff split: if_splits)
      with False show False unfolding place_tests_Inr [OF Cons.prems] by (auto simp: shard_ok_def)
    qed
    with False show ?thesis unfolding up by auto
  qed
qed (auto simp: all_entries_def)

lemma dependencies_inside_Inr:
  "dependencies_inside m t = Inr () \<longleftrightarrow>
     (\<exists>shard. bt_get m (tc_id t) = Some shard \<and> (\<forall>d \<in> set (tc_dependencies t). bt_get m d = Some shard))"
  by (auto simp: dependencies_inside_def bt_index_def ok_or_def result_bind_Inr_iff split: option.splits if_splits)

definition fixture_homes :: "(string \<times> nat) list \<Rightarrow> test_case list \<Rightarrow> (string \<times> nat) set" where
  "fixture_homes m ts = {(f, shard). \<exists>t \<in> set ts. f \<in> set (test_fixtures t) \<and> bt_get m (tc_id t) = Some shard}"

lemma fixture_homes_Cons:
  "fixture_homes m (t # ts) = {(f, shard). f \<in> set (test_fixtures t) \<and> bt_get m (tc_id t) = Some shard} \<union> fixture_homes m ts"
  by (auto simp: fixture_homes_def)

lemma all_fixtures_inside_Inr:
  assumes "bt_wf owners"
  shows "all_fixtures_inside m ts owners = Inr () \<longleftrightarrow>
     (\<forall>t \<in> set ts. bt_get m (tc_id t) \<noteq> None) \<and> single_valued (Map.graph (bt_get owners) \<union> fixture_homes m ts)"
  using assms
proof (induction ts arbitrary: owners)
  case Nil
  then show ?case by (auto simp: fixture_homes_def single_valued_def Map.graph_def)
next
  case (Cons t ts)
  show ?case
  proof (cases "bt_get m (tc_id t)")
    case None
    then show ?thesis by (simp add: bt_index_def ok_or_def)
  next
    case (Some shard)
    let ?ps = "map (\<lambda>f. (f, shard)) (test_fixtures t)"
    have homes: "fixture_homes m (t # ts) = set ?ps \<union> fixture_homes m ts"
      using Some by (auto simp: fixture_homes_Cons)
    show ?thesis
    proof (cases "fixtures_inside shard (test_fixtures t) owners")
      case (Inl e)
      have "\<not> single_valued (Map.graph (bt_get owners) \<union> set ?ps)"
        using note_all_Inr [OF Cons.prems, of _ ?ps] Inl by (metis fixtures_inside_def sum.distinct(1))
      then have "\<not> single_valued (Map.graph (bt_get owners) \<union> fixture_homes m (t # ts))"
        unfolding homes by (meson Un_mono Un_upper1 order_refl single_valued_subset)
      with Inl Some show ?thesis by (simp add: bt_index_def ok_or_def)
    next
      case (Inr owners')
      note g = note_all_graph [OF Inr [unfolded fixtures_inside_def] Cons.prems]
      show ?thesis using Cons.IH [OF g(1)] Some Inr by (simp add: bt_index_def ok_or_def homes g(2) Un_assoc)
    qed
  qed
qed

text \<open>Where a plan puts a test.\<close>

definition placed :: "shard_plan \<Rightarrow> (string \<times> nat) list" where
  "placed plan = insert_entries (all_entries (pl_shards plan)) []"

lemma placed_get:
  assumes "distinct (concat (map sh_test_ids (pl_shards plan)))"
  shows "bt_get (placed plan) tid = Some k \<longleftrightarrow> (\<exists>s \<in> set (pl_shards plan). sh_id s = k \<and> tid \<in> set (sh_test_ids s))"
    "length (placed plan) = length (concat (map sh_test_ids (pl_shards plan)))"
proof -
  let ?es = "all_entries (pl_shards plan)"
  have d: "distinct (map fst ?es)" using assms by (simp add: all_entries_keys)
  have get: "bt_get (placed plan) = map_of ?es"
    using bt_get_insert_all [of "[]" ?es] d by (simp add: placed_def bt_get_Nil)
  show "bt_get (placed plan) tid = Some k \<longleftrightarrow> (\<exists>s \<in> set (pl_shards plan). sh_id s = k \<and> tid \<in> set (sh_test_ids s))"
    unfolding get map_of_eq_Some_iff [OF d] by (auto simp: all_entries_def entries_def)
  have wf: "bt_wf (placed plan)" by (simp add: placed_def bt_wf_insert_all)
  have "bt_get (placed plan) = map_of (placed plan)" by (simp add: fun_eq_iff bt_get_def)
  then have "fst ` set (placed plan) = dom (bt_get (placed plan))" by (simp add: dom_map_of_conv_image_fst)
  also have "\<dots> = set (map fst ?es)" by (simp add: get dom_map_of_conv_image_fst)
  finally have "set (map fst (placed plan)) = set (map fst ?es)" by simp
  then have "card (set (map fst (placed plan))) = card (set (map fst ?es))" by simp
  then have "length (placed plan) = length ?es"
    unfolding distinct_card [OF d] distinct_card [OF bt_wf_distinct [OF wf]] by simp
  then show "length (placed plan) = length (concat (map sh_test_ids (pl_shards plan)))"
    by (metis all_entries_keys length_map)
qed

definition tied :: "test_case \<Rightarrow> test_case \<Rightarrow> bool" where
  "tied t u \<longleftrightarrow> tc_id u \<in> set (tc_dependencies t) \<or> set (test_fixtures t) \<inter> set (test_fixtures u) \<noteq> {}"

definition together :: "test_shard list \<Rightarrow> test_case \<Rightarrow> test_case \<Rightarrow> bool" where
  "together ss t u \<longleftrightarrow> (\<exists>s \<in> set ss. tc_id t \<in> set (sh_test_ids s) \<and> tc_id u \<in> set (sh_test_ids s))"

definition plan_ok :: "test_inventory \<Rightarrow> test_shard list \<Rightarrow> bool" where
  "plan_ok iv ss \<longleftrightarrow> map sh_id ss = [0..<length ss] \<and> (\<forall>s \<in> set ss. shard_ok (inventory_lookup iv) s)
     \<and> distinct (concat (map sh_test_ids ss)) \<and> set (concat (map sh_test_ids ss)) = tc_id ` set (iv_tests iv)
     \<and> (\<forall>t \<in> set (iv_tests iv). \<forall>u \<in> set (iv_tests iv). tied t u \<longrightarrow> together ss t u)"

lemma shard_ids_unique: "map sh_id ss = [0..<length ss] \<Longrightarrow> s \<in> set ss \<Longrightarrow> s' \<in> set ss \<Longrightarrow> sh_id s = sh_id s' \<Longrightarrow> s = s'"
  by (metis distinct_map distinct_upt inj_onD)

lemma placed_together:
  assumes "map sh_id (pl_shards plan) = [0..<length (pl_shards plan)]" "distinct (concat (map sh_test_ids (pl_shards plan)))"
  shows "(\<exists>k. bt_get (placed plan) (tc_id t) = Some k \<and> bt_get (placed plan) (tc_id u) = Some k) \<longleftrightarrow> together (pl_shards plan) t u"
  unfolding placed_get(1) [OF assms(2)] together_def using shard_ids_unique [OF assms(1)] by metis

lemma check_inside_iff:
  assumes iv: "inventory_ok iv" and ids: "map sh_id (pl_shards plan) = [0..<length (pl_shards plan)]"
    and d: "distinct (concat (map sh_test_ids (pl_shards plan)))"
    and all: "set (concat (map sh_test_ids (pl_shards plan))) = tc_id ` set (iv_tests iv)"
  shows "(\<forall>t \<in> set (iv_tests iv). dependencies_inside (placed plan) t = Inr ()) \<and> all_fixtures_inside (placed plan) (iv_tests iv) [] = Inr ()
     \<longleftrightarrow> (\<forall>t \<in> set (iv_tests iv). \<forall>u \<in> set (iv_tests iv). tied t u \<longrightarrow> together (pl_shards plan) t u)"
proof -
  let ?ts = "iv_tests iv" and ?at = "bt_get (placed plan)"
  have home: "\<exists>k. ?at (tc_id t) = Some k" if "t \<in> set ?ts" for t
  proof -
    from that all have "tc_id t \<in> set (concat (map sh_test_ids (pl_shards plan)))" by simp
    then show ?thesis unfolding placed_get(1) [OF d] by auto
  qed
  note same = placed_together [OF ids d, symmetric]
  have deps: "dependencies_inside (placed plan) t = Inr () \<longleftrightarrow>
      (\<forall>u \<in> set ?ts. tc_id u \<in> set (tc_dependencies t) \<longrightarrow> together (pl_shards plan) t u)" if t: "t \<in> set ?ts" for t
  proof -
    from home [OF t] obtain k where k: "?at (tc_id t) = Some k" by blast
    have "dependencies_inside (placed plan) t = Inr () \<longleftrightarrow> (\<forall>d \<in> set (tc_dependencies t). ?at d = Some k)"
      using k by (simp add: dependencies_inside_Inr)
    also have "\<dots> \<longleftrightarrow> (\<forall>u \<in> set ?ts. tc_id u \<in> set (tc_dependencies t) \<longrightarrow> ?at (tc_id u) = Some k)"
      using inventory_okD(3) [OF iv t] by blast
    finally show ?thesis unfolding same using k by simp
  qed
  have fix_iff: "all_fixtures_inside (placed plan) ?ts [] = Inr () \<longleftrightarrow>
      (\<forall>t \<in> set ?ts. \<forall>u \<in> set ?ts. set (test_fixtures t) \<inter> set (test_fixtures u) \<noteq> {} \<longrightarrow> together (pl_shards plan) t u)"
  proof -
    have "Map.graph (bt_get ([] :: (string \<times> nat) list)) = {}" by (simp add: bt_get_Nil)
    moreover have "\<forall>t \<in> set ?ts. ?at (tc_id t) \<noteq> None" using home by force
    ultimately have "all_fixtures_inside (placed plan) ?ts [] = Inr () \<longleftrightarrow> single_valued (fixture_homes (placed plan) ?ts)"
      using all_fixtures_inside_Inr [of "[]" "placed plan" ?ts] by simp
    also have "\<dots> \<longleftrightarrow> (\<forall>t \<in> set ?ts. \<forall>u \<in> set ?ts. \<forall>f j k. f \<in> set (test_fixtures t) \<and> f \<in> set (test_fixtures u)
        \<and> ?at (tc_id t) = Some j \<and> ?at (tc_id u) = Some k \<longrightarrow> j = k)"
      unfolding fixture_homes_def single_valued_def by blast
    also have "\<dots> \<longleftrightarrow> (\<forall>t \<in> set ?ts. \<forall>u \<in> set ?ts. set (test_fixtures t) \<inter> set (test_fixtures u) \<noteq> {} \<longrightarrow> together (pl_shards plan) t u)"
    proof (intro ball_cong refl)
      fix t u assume "t \<in> set ?ts" "u \<in> set ?ts"
      then obtain j k where "?at (tc_id t) = Some j" "?at (tc_id u) = Some k" using home by blast
      then show "(\<forall>f j k. f \<in> set (test_fixtures t) \<and> f \<in> set (test_fixtures u)
          \<and> ?at (tc_id t) = Some j \<and> ?at (tc_id u) = Some k \<longrightarrow> j = k)
        \<longleftrightarrow> (set (test_fixtures t) \<inter> set (test_fixtures u) \<noteq> {} \<longrightarrow> together (pl_shards plan) t u)"
        unfolding same by auto
    qed
    finally show ?thesis .
  qed
  show ?thesis unfolding fix_iff tied_def using deps by blast
qed

lemma lookup_get: "inventory_ok iv \<Longrightarrow> bt_get (inventory_lookup iv) tid = Some t \<longleftrightarrow> t \<in> set (iv_tests iv) \<and> tc_id t = tid"
  "inventory_ok iv \<Longrightarrow> bt_get (inventory_lookup iv) tid = None \<longleftrightarrow> tid \<notin> tc_id ` set (iv_tests iv)"
  using bt_get_collect_key [OF inventory_okD(1), of iv "\<lambda>t. t"] by (auto simp: inventory_lookup_def)

lemma serial_in_iff:
  assumes "inventory_ok iv"
  shows "serial_in (inventory_lookup iv) ids \<longleftrightarrow> (\<exists>t \<in> set (iv_tests iv). tc_run_serial t \<and> tc_id t \<in> set ids)"
proof -
  have "is_some_and v P \<longleftrightarrow> (\<exists>x. v = Some x \<and> P x)" for v :: "test_case option" and P by (cases v) (auto simp: is_some_and_def)
  then show ?thesis unfolding serial_in_def by (auto simp: lookup_get(1) [OF assms])
qed

lemma memberships_length: "sum_list (map (length \<circ> sh_test_ids) ss) = length (concat (map sh_test_ids ss))"
  by (simp add: length_concat comp_def)

lemma validate_input_bounds_Inr:
  "validate_input_bounds cd plan n = Inr () \<longleftrightarrow> length (pc_json cd (PlanValue plan)) \<le> max_payload_bytes
     \<and> 1 \<le> n \<and> n \<le> max_tests \<and> length (concat (map sh_test_ids (pl_shards plan))) = n
     \<and> (\<forall>s \<in> set (pl_shards plan). \<forall>tid \<in> set (sh_test_ids s). validate_identifier ''shard test id'' tid = Inr ())"
  by (auto simp: validate_input_bounds_def Let_def result_bind_Inr_iff memberships_length simp del: length_concat)

lemma plan_validate_Inr:
  "plan_validate_against cd plan iv = Inr () \<longleftrightarrow> pl_schema_version plan = proof_schema_version
     \<and> inventory_validate cd iv = Inr () \<and> 1 \<le> length (pl_shards plan) \<and> length (pl_shards plan) \<le> max_shards
     \<and> length (pc_json cd (PlanValue plan)) \<le> max_payload_bytes
     \<and> inventory_digest cd iv = Inr (pl_inventory_digest plan) \<and> pl_total_tests plan = length (iv_tests iv)
     \<and> plan_ok iv (pl_shards plan)"
proof (cases "inventory_validate cd iv = Inr ()")
  case True
  let ?ss = "pl_shards plan" and ?ts = "iv_tests iv"
  let ?ids = "concat (map sh_test_ids ?ss)"
  have ok: "inventory_ok iv" "1 \<le> length ?ts" "length ?ts \<le> max_tests" using True by (auto simp: inventory_validate_Inr)
  have card: "card (tc_id ` set ?ts) = length ?ts" using inventory_okD(1) [OF ok(1)] by (metis distinct_card length_map set_map)
  have place: "place_shards (inventory_lookup iv) 0 ?ss [] = Inr m \<longleftrightarrow>
      map sh_id ?ss = [0..<length ?ss] \<and> (\<forall>s \<in> set ?ss. shard_ok (inventory_lookup iv) s) \<and> distinct ?ids \<and> m = placed plan" for m
    using place_shards_Inr [of "[]" "inventory_lookup iv" 0 ?ss m] by (simp add: placed_def bt_get_Nil)
  have known: "set ?ids \<subseteq> tc_id ` set ?ts" if "\<forall>s \<in> set ?ss. shard_ok (inventory_lookup iv) s"
    using that lookup_get(2) [OF ok(1)] by (auto simp: shard_ok_def)
  have full: "length ?ids = length ?ts \<longleftrightarrow> set ?ids = tc_id ` set ?ts"
    if "\<forall>s \<in> set ?ss. shard_ok (inventory_lookup iv) s" "distinct ?ids"
    using known [OF that(1)] card distinct_card [OF that(2)] by (metis card_subset_eq finite_imageI finite_set)
  have names: "validate_identifier field tid = Inr ()" if "set ?ids = tc_id ` set ?ts" "tid \<in> set ?ids" for field tid
    using that inventory_okD(4) [OF ok(1)] by auto
  have "plan_validate_against cd plan iv = Inr () \<longleftrightarrow> pl_schema_version plan = proof_schema_version
     \<and> 1 \<le> length ?ss \<and> length ?ss \<le> max_shards
     \<and> length (pc_json cd (PlanValue plan)) \<le> max_payload_bytes \<and> length ?ids = length ?ts
     \<and> (\<forall>s \<in> set ?ss. \<forall>tid \<in> set (sh_test_ids s). validate_identifier ''shard test id'' tid = Inr ())
     \<and> inventory_digest cd iv = Inr (pl_inventory_digest plan) \<and> pl_total_tests plan = length ?ts
     \<and> map sh_id ?ss = [0..<length ?ss] \<and> (\<forall>s \<in> set ?ss. shard_ok (inventory_lookup iv) s) \<and> distinct ?ids
     \<and> (\<forall>t \<in> set ?ts. dependencies_inside (placed plan) t = Inr ()) \<and> all_fixtures_inside (placed plan) ?ts [] = Inr ()"
    (is "_ \<longleftrightarrow> ?A \<and> ?B \<and> ?C \<and> ?D \<and> ?E \<and> ?N \<and> ?G \<and> ?T \<and> ?I \<and> ?S \<and> ?X \<and> ?F")
    using True ok(2,3) placed_get(2) [of plan]
    by (simp add: plan_validate_against_def result_bind_Inr_iff validate_input_bounds_Inr place inventory_digest_def
        del: length_concat cong: conj_cong)
  also have "\<dots> \<longleftrightarrow> ?A \<and> ?B \<and> ?C \<and> ?D \<and> ?G \<and> ?T \<and> plan_ok iv ?ss"
  proof (cases "?I \<and> ?S \<and> ?X \<and> set ?ids = tc_id ` set ?ts")
    case c: True
    then have ?E using full by blast
    moreover have ?N
    proof (intro ballI)
      fix s tid assume "s \<in> set ?ss" "tid \<in> set (sh_test_ids s)"
      then have "tid \<in> set ?ids" by auto
      with names c show "validate_identifier ''shard test id'' tid = Inr ()" by blast
    qed
    ultimately show ?thesis using c check_inside_iff [OF ok(1), of plan] unfolding plan_ok_def by blast
  next
    case False
    then show ?thesis using full unfolding plan_ok_def by blast
  qed
  finally show ?thesis using True by blast
qed (auto simp: plan_validate_against_def result_bind_Inr_iff)

text \<open>
  (C18) A plan is accepted exactly when it is bound to the inventory and within the limits, its shards are
  numbered in order, none is empty, each lists its tests in order, the shards partition the tests, a
  test that runs serially is alone in a fleet-exclusive shard and every other shard is parallel, and
  tests tied by a dependency or a shared fixture are in the same shard.
\<close>

theorem plan_accepted_iff:
  "plan_validate_against cd plan iv = Inr () \<longleftrightarrow> pl_schema_version plan = proof_schema_version
     \<and> inventory_validate cd iv = Inr () \<and> 1 \<le> length (pl_shards plan) \<and> length (pl_shards plan) \<le> max_shards
     \<and> length (pc_json cd (PlanValue plan)) \<le> max_payload_bytes
     \<and> inventory_digest cd iv = Inr (pl_inventory_digest plan) \<and> pl_total_tests plan = length (iv_tests iv)
     \<and> map sh_id (pl_shards plan) = [0..<length (pl_shards plan)]
     \<and> distinct (concat (map sh_test_ids (pl_shards plan)))
     \<and> set (concat (map sh_test_ids (pl_shards plan))) = tc_id ` set (iv_tests iv)
     \<and> (\<forall>s \<in> set (pl_shards plan). sh_test_ids s \<noteq> [] \<and> sorted_wrt (<) (sh_test_ids s)
          \<and> (if \<exists>t \<in> set (iv_tests iv). tc_run_serial t \<and> tc_id t \<in> set (sh_test_ids s)
             then sh_execution_mode s = FleetExclusive \<and> length (sh_test_ids s) = 1
             else sh_execution_mode s = Parallel))
     \<and> (\<forall>t \<in> set (iv_tests iv). \<forall>u \<in> set (iv_tests iv).
          tc_id u \<in> set (tc_dependencies t) \<or> set (test_fixtures t) \<inter> set (test_fixtures u) \<noteq> {} \<longrightarrow>
          (\<exists>s \<in> set (pl_shards plan). tc_id t \<in> set (sh_test_ids s) \<and> tc_id u \<in> set (sh_test_ids s)))"
proof (cases "inventory_validate cd iv = Inr ()")
  case True
  then have iv: "inventory_ok iv" by (simp add: inventory_validate_Inr)
  have shard: "shard_ok (inventory_lookup iv) s \<longleftrightarrow> sh_test_ids s \<noteq> [] \<and> sorted_wrt (<) (sh_test_ids s)
      \<and> (if \<exists>t \<in> set (iv_tests iv). tc_run_serial t \<and> tc_id t \<in> set (sh_test_ids s)
         then sh_execution_mode s = FleetExclusive \<and> length (sh_test_ids s) = 1
         else sh_execution_mode s = Parallel)"
    if "set (concat (map sh_test_ids (pl_shards plan))) = tc_id ` set (iv_tests iv)" "s \<in> set (pl_shards plan)" for s
  proof -
    have "set (sh_test_ids s) \<subseteq> tc_id ` set (iv_tests iv)" using that by auto
    then show ?thesis using lookup_get(2) [OF iv]
      by (auto simp: shard_ok_def serial_in_iff [OF iv] strictly_sorted_iff mode_of_def)
  qed
  have "set (concat (map sh_test_ids (pl_shards plan))) = tc_id ` set (iv_tests iv) \<longrightarrow>
      (\<forall>s \<in> set (pl_shards plan). shard_ok (inventory_lookup iv) s) =
      (\<forall>s \<in> set (pl_shards plan). sh_test_ids s \<noteq> [] \<and> sorted_wrt (<) (sh_test_ids s)
      \<and> (if \<exists>t \<in> set (iv_tests iv). tc_run_serial t \<and> tc_id t \<in> set (sh_test_ids s)
         then sh_execution_mode s = FleetExclusive \<and> length (sh_test_ids s) = 1
         else sh_execution_mode s = Parallel))"
    by (intro impI ball_cong refl shard)
  then show ?thesis unfolding plan_validate_Inr plan_ok_def tied_def together_def by argo
qed (simp add: plan_validate_Inr)

section \<open>The balanced plan\<close>

definition names_of :: "test_inventory \<Rightarrow> nat list \<Rightarrow> string list" where
  "names_of iv c = map (\<lambda>index. tc_id (iv_tests iv ! index)) c"

definition empties :: "string list list \<Rightarrow> nat" where
  "empties as = length (filter (\<lambda>a. a = []) as)"

definition within :: "nat \<Rightarrow> string list list \<Rightarrow> bool" where
  "within b as \<longleftrightarrow> (\<forall>x \<in> set as. \<forall>y \<in> set as. length x \<le> length y + b)"

lemma least_loaded:
  assumes "loads \<noteq> []"
  shows "\<exists>i < length loads. min_by_key (\<lambda>(index, load). (load, index)) (enumerate 0 loads) = Some (i, loads ! i)
     \<and> (\<forall>j < length loads. loads ! i \<le> loads ! j)"
proof -
  from assms obtain m where m: "min_by_key (\<lambda>(index, load). (load, index)) (enumerate 0 loads) = Some m"
    by (cases loads) (auto simp: min_by_key_def)
  obtain i l where il: "m = (i, l)" by (cases m)
  note least = min_by_key_Some [OF m]
  from least il have i: "i < length loads" "l = loads ! i" by (auto simp: in_set_enumerate_eq)
  have "loads ! i \<le> loads ! j" if "j < length loads" for j
  proof -
    have "(j, loads ! j) \<in> set (enumerate 0 loads)" using that by (simp add: in_set_enumerate_eq)
    with least il i show ?thesis by (auto simp: less_eq_prod_def)
  qed
  with m il i show ?thesis by blast
qed

lemma empties_update:
  assumes "i < length as" "a' \<noteq> []"
  shows "empties (as[i := a']) = (if as ! i = [] then empties as - 1 else empties as)"
  using assms
proof (induction as arbitrary: i)
  case (Cons a as)
  have "0 < empties as" if "j < length as" "as ! j = []" for j
    using that nth_mem [OF that(1)] by (auto simp: empties_def filter_empty_conv)
  with Cons show ?case by (cases i) (auto simp: empties_def)
qed simp

lemma mset_concat_update:
  "i < length as \<Longrightarrow> mset (concat (as[i := as ! i @ xs])) = mset (concat as) + mset xs"
proof (induction as arbitrary: i)
  case (Cons a as)
  then show ?case by (cases i) auto
qed simp

text \<open>One step: the component goes to a shard with the least load.\<close>

lemma assign_step:
  assumes "loads = map length as" "as \<noteq> []"
  obtains i where "i < length as" "\<forall>a \<in> set as. length (as ! i) \<le> length a"
    "assign_components iv (c # cs) loads as = assign_components iv cs
       (map length (as[i := as ! i @ names_of iv c])) (as[i := as ! i @ names_of iv c])"
proof -
  from least_loaded [of loads] assms obtain i where i: "i < length as"
    "min_by_key (\<lambda>(index, load). (load, index)) (enumerate 0 loads) = Some (i, length (as ! i))"
    "\<forall>j < length as. length (as ! i) \<le> length (as ! j)" by auto
  have "map length (as[i := as ! i @ names_of iv c]) = loads[i := length (as ! i) + length c]"
    by (simp add: assms(1) map_update names_of_def)
  with i(2) have "assign_components iv (c # cs) loads as = assign_components iv cs
       (map length (as[i := as ! i @ names_of iv c])) (as[i := as ! i @ names_of iv c])"
    by (simp add: names_of_def)
  moreover have "\<forall>a \<in> set as. length (as ! i) \<le> length a" using i(3) by (metis in_set_conv_nth)
  ultimately show thesis using that i(1) by blast
qed

lemma within_update:
  assumes "within b as" "\<forall>a \<in> set as. length (as ! i) \<le> length a" "length xs \<le> b"
  shows "within b (as[i := as ! i @ xs])"
proof -
  have new: "length (as ! i @ xs) \<le> length y + b" if "y \<in> set as" for y using assms(2,3) that by force
  have "length x \<le> length (as ! i @ xs) + b" if "x \<in> set as" "i < length as" for x
    using assms(1) nth_mem [OF that(2)] that(1) by (force simp: within_def)
  with new assms(1) show ?thesis
    by (cases "i < length as") (auto simp: within_def list_update_beyond dest!: subsetD [OF set_update_subset_insert])
qed

lemma empties_least:
  assumes "\<forall>a \<in> set as. length (as ! i) \<le> length a" "i < length as" "xs \<noteq> []"
  shows "empties (as[i := as ! i @ xs]) \<le> empties as - 1"
proof (cases "as ! i = []")
  case False
  then have "empties as = 0" using assms(1) by (fastforce simp: empties_def filter_empty_conv)
  with False assms(2,3) show ?thesis by (simp add: empties_update)
qed (use assms(2,3) in \<open>simp add: empties_update\<close>)

lemma assign_components_Inr:
  assumes "loads = map length as" "as \<noteq> []" "\<forall>c \<in> set cs. c \<noteq> [] \<and> length c \<le> b" "within b as"
  shows "\<exists>loads' as'. assign_components iv cs loads as = Inr (loads', as') \<and> length as' = length as
     \<and> mset (concat as') = mset (concat as) + mset (names_of iv (concat cs))
     \<and> (\<forall>i < length as. set (as ! i) \<subseteq> set (as' ! i)) \<and> (\<forall>c \<in> set cs. \<exists>a \<in> set as'. set (names_of iv c) \<subseteq> set a)
     \<and> within b as' \<and> empties as' \<le> empties as - length cs"
  using assms
proof (induction cs arbitrary: loads as)
  case (Cons c cs)
  from assign_step [OF Cons.prems(1,2)] obtain i where i: "i < length as" "\<forall>a \<in> set as. length (as ! i) \<le> length a"
    "assign_components iv (c # cs) loads as = assign_components iv cs
       (map length (as[i := as ! i @ names_of iv c])) (as[i := as ! i @ names_of iv c])" by metis
  let ?as = "as[i := as ! i @ names_of iv c]"
  have c: "names_of iv c \<noteq> []" "length (names_of iv c) \<le> b" using Cons.prems(3) by (auto simp: names_of_def)
  have "within b ?as" using within_update [OF Cons.prems(4) i(2) c(2)] .
  with Cons.IH [of "map length ?as" ?as] Cons.prems(2,3) obtain loads' as' where
    IH: "assign_components iv cs (map length ?as) ?as = Inr (loads', as')" "length as' = length as"
    "mset (concat as') = mset (concat ?as) + mset (names_of iv (concat cs))"
    "\<forall>j < length as. set (?as ! j) \<subseteq> set (as' ! j)" "\<forall>c \<in> set cs. \<exists>a \<in> set as'. set (names_of iv c) \<subseteq> set a"
    "within b as'" "empties as' \<le> empties ?as - length cs" by auto
  have "mset (concat as') = mset (concat as) + mset (names_of iv (concat (c # cs)))"
    using IH(3) mset_concat_update [OF i(1)] by (simp add: names_of_def)
  moreover have sub: "\<forall>j < length as. set (as ! j) \<subseteq> set (as' ! j)"
    using IH(4) i(1) by (auto simp: nth_list_update split: if_splits)
  moreover have "set (names_of iv c) \<subseteq> set (as' ! i)" "as' ! i \<in> set as'" using IH(2) IH(4) [rule_format, OF i(1)] i(1) by auto
  then have "\<forall>c \<in> set (c # cs). \<exists>a \<in> set as'. set (names_of iv c) \<subseteq> set a" using IH(5) by auto
  moreover have "empties as' \<le> empties as - length (c # cs)" using IH(7) empties_least [OF i(2,1) c(1)] by simp
  ultimately show ?case using IH(1,2,6) i(3) by auto
qed (simp add: names_of_def)

lemma split_serial_Inr:
  "split_serial iv cs = Inr r \<longleftrightarrow> (\<forall>c \<in> set cs. has_serial iv c \<longrightarrow> length c = 1)
     \<and> r = (filter (has_serial iv) cs, filter (\<lambda>c. \<not> has_serial iv c) cs)"
proof (induction cs arbitrary: r)
  case (Cons c cs)
  then show ?case by (cases "split_serial iv cs") (auto split: if_splits)
qed auto

text \<open>The shards that \<open>plan_from_assignments\<close> makes of lists of test names.\<close>

definition shards_of :: "test_inventory \<Rightarrow> string list list \<Rightarrow> test_shard list" where
  "shards_of iv as = map (\<lambda>(index, ids). \<lparr>sh_id = index, sh_execution_mode = mode_of (serial_in (inventory_lookup iv) ids),
     sh_test_ids = sort ids\<rparr>) (enumerate 0 as)"

definition assignments_ok :: "test_inventory \<Rightarrow> string list list \<Rightarrow> bool" where
  "assignments_ok iv as \<longleftrightarrow> mset (concat as) = mset (map tc_id (iv_tests iv)) \<and> [] \<notin> set as
     \<and> (\<forall>a \<in> set as. serial_in (inventory_lookup iv) a \<longrightarrow> length a = 1)
     \<and> (\<forall>t \<in> set (iv_tests iv). \<forall>u \<in> set (iv_tests iv). tied t u \<longrightarrow> (\<exists>a \<in> set as. tc_id t \<in> set a \<and> tc_id u \<in> set a))"

lemma shards_of_sets:
  "s \<in> set (shards_of iv as) \<Longrightarrow> \<exists>a \<in> set as. sh_test_ids s = sort a \<and> sh_execution_mode s = mode_of (serial_in (inventory_lookup iv) a)"
  "a \<in> set as \<Longrightarrow> \<exists>s \<in> set (shards_of iv as). sh_test_ids s = sort a"
  "length (shards_of iv as) = length as" "map sh_id (shards_of iv as) = [0..<length as]"
  "map sh_test_ids (shards_of iv as) = map sort as"
proof -
  show "s \<in> set (shards_of iv as) \<Longrightarrow> \<exists>a \<in> set as. sh_test_ids s = sort a \<and> sh_execution_mode s = mode_of (serial_in (inventory_lookup iv) a)"
    by (auto simp: shards_of_def in_set_enumerate_eq)
  have "map sh_test_ids (shards_of iv as) = map sort (map snd (enumerate 0 as))"
    by (simp add: shards_of_def comp_def case_prod_beta del: map_snd_enumerate)
  then show ids: "map sh_test_ids (shards_of iv as) = map sort as" by simp
  show "a \<in> set as \<Longrightarrow> \<exists>s \<in> set (shards_of iv as). sh_test_ids s = sort a"
    using arg_cong [OF ids, of set] by (metis image_iff set_map)
  show "length (shards_of iv as) = length as" by (simp add: shards_of_def)
  have "map sh_id (shards_of iv as) = map fst (enumerate 0 as)"
    by (simp add: shards_of_def comp_def case_prod_beta del: map_fst_enumerate)
  then show "map sh_id (shards_of iv as) = [0..<length as]" by simp
qed

lemma concat_map_sort_mset: "mset (concat (map sort as)) = mset (concat as)"
  by (induction as) auto

lemma shards_of_ok:
  assumes iv: "inventory_ok iv" and as: "assignments_ok iv as"
  shows "plan_ok iv (shards_of iv as)"
proof -
  have m: "mset (concat (map sh_test_ids (shards_of iv as))) = mset (map tc_id (iv_tests iv))"
    using as by (simp add: shards_of_sets(5) concat_map_sort_mset assignments_ok_def)
  have d: "distinct (concat (map sh_test_ids (shards_of iv as)))"
    using inventory_okD(1) [OF iv] m by (metis mset_eq_imp_distinct_iff)
  have s: "set (concat (map sh_test_ids (shards_of iv as))) = tc_id ` set (iv_tests iv)"
    using mset_eq_setD [OF m] by simp
  have "shard_ok (inventory_lookup iv) sh" if sh: "sh \<in> set (shards_of iv as)" for sh
  proof -
    from shards_of_sets(1) [OF sh] obtain a where a: "a \<in> set as" "sh_test_ids sh = sort a"
      "sh_execution_mode sh = mode_of (serial_in (inventory_lookup iv) a)" by blast
    have "distinct (sh_test_ids sh)" using d sh by (auto simp: distinct_concat_iff)
    then have "strictly_sorted (sh_test_ids sh)" by (simp add: strictly_sorted_iff strict_sorted_iff a(2))
    moreover have "bt_get (inventory_lookup iv) tid \<noteq> None" if "tid \<in> set (sh_test_ids sh)" for tid
    proof -
      from that sh have "tid \<in> set (concat (map sh_test_ids (shards_of iv as)))" by auto
      then have "tid \<in> tc_id ` set (iv_tests iv)" unfolding s .
      then show ?thesis using lookup_get(2) [OF iv, of tid] by blast
    qed
    moreover have "serial_in (inventory_lookup iv) (sort a) = serial_in (inventory_lookup iv) a" by (simp add: serial_in_def)
    moreover have "sort a \<noteq> []" using as a(1) by (metis assignments_ok_def length_0_conv length_sort)
    ultimately show ?thesis using as a unfolding shard_ok_def assignments_ok_def by auto
  qed
  moreover have "together (shards_of iv as) t u" if "t \<in> set (iv_tests iv)" "u \<in> set (iv_tests iv)" "tied t u" for t u
  proof -
    from as that obtain a where "a \<in> set as" "tc_id t \<in> set a" "tc_id u \<in> set a" unfolding assignments_ok_def by blast
    with shards_of_sets(2) [of a as iv] show ?thesis by (force simp: together_def)
  qed
  ultimately show ?thesis using d s unfolding plan_ok_def by (simp add: shards_of_sets(3,4) del: set_concat)
qed

lemma make_shards:
  assumes "\<forall>a \<in> set as. distinct a"
  shows "collect_results (map (\<lambda>(index, ids). make_shard (inventory_lookup iv) index ids) (enumerate 0 as)) = Inr (shards_of iv as)"
  unfolding shards_of_def using assms
  by (intro collect_results_map)
     (auto simp: make_shard_def serial_in_def result_bind_Inr_iff reject_adjacent_duplicates_Inr in_set_enumerate_eq intro!: nth_mem)

definition over_limit :: "string \<Rightarrow> proof_error" where
  "over_limit field = LimitExceeded field max_payload_bytes (max_payload_bytes + 1)"

text \<open>Admissible assignments give a valid plan, unless an encoding is too large.\<close>

lemma plan_from_assignments_ok:
  assumes iv: "inventory_validate cd iv = Inr ()" and as: "assignments_ok iv as" "1 \<le> length as" "length as \<le> max_shards"
  shows "(\<exists>plan. plan_from_assignments cd iv as = Inr plan)
     \<or> plan_from_assignments cd iv as \<in> {Inl (over_limit ''shard assignments bytes''), Inl (over_limit ''shard plan bytes'')}"
proof -
  have ok: "inventory_ok iv" "1 \<le> length (iv_tests iv)" "length (iv_tests iv) \<le> max_tests"
    using iv by (auto simp: inventory_validate_Inr)
  have m: "mset (concat as) = mset (map tc_id (iv_tests iv))" using as(1) by (simp add: assignments_ok_def)
  then have n: "sum_list (map length as) = length (iv_tests iv)" by (metis length_concat length_map size_mset)
  have "distinct (concat as)" using m inventory_okD(1) [OF ok(1)] by (metis mset_eq_imp_distinct_iff)
  then have "\<forall>a \<in> set as. distinct a" by (auto simp: distinct_concat_iff)
  note shards = make_shards [OF this, of iv]
  have s: "(\<Union>a \<in> set as. set a) = tc_id ` set (iv_tests iv)" using mset_eq_setD [OF m] by simp
  have "check_assignment a = Inr ()" if "a \<in> set as" for a
  proof -
    have "validate_identifier f tid = Inr ()" if t: "tid \<in> set a" for f tid
    proof -
      from s \<open>a \<in> set as\<close> t have "tid \<in> tc_id ` set (iv_tests iv)" by blast
      then show ?thesis using inventory_okD(4) [OF ok(1)] by auto
    qed
    moreover have "a \<noteq> []" using that as(1) unfolding assignments_ok_def by metis
    ultimately show ?thesis by (simp add: check_assignment_def)
  qed
  then have c: "check_all check_assignment as = Inr ()" by simp
  have count: "ensure_count ''shards'' (length as) 1 max_shards = Inr ()"
    "ensure_count ''shard test memberships'' (length (iv_tests iv)) 1 max_tests = Inr ()" using as(2,3) ok(2,3) by simp_all
  obtain digest where digest: "inventory_digest cd iv = Inr digest" using iv by (simp add: inventory_digest_def)
  define plan where "plan = \<lparr>pl_schema_version = proof_schema_version, pl_inventory_digest = digest,
    pl_total_tests = length (iv_tests iv), pl_shards = shards_of iv as\<rparr>"
  have run: "plan_from_assignments cd iv as =
      result_bind (ensure_serialized_bound cd ''shard assignments bytes'' (AssignmentsValue as)) (\<lambda>_.
      result_bind (plan_validate_against cd plan iv) (\<lambda>_. Inr plan))"
    unfolding plan_from_assignments_def Let_def plan_def using iv n c shards digest count
    by (simp only: result_bind_simps if_False simp_thms)
  show ?thesis
  proof (cases "length (pc_json cd (PlanValue plan)) \<le> max_payload_bytes")
    case True
    then have "plan_validate_against cd plan iv = Inr ()"
      unfolding plan_validate_Inr using iv as(2,3) shards_of_ok [OF ok(1) as(1)] digest by (simp add: plan_def shards_of_sets(3))
    then show ?thesis unfolding run by (simp add: ensure_serialized_bound_def over_limit_def)
  next
    case False
    have "validate_version (pl_schema_version plan) = Inr ()" "length (pl_shards plan) = length as"
      by (simp_all add: plan_def shards_of_sets(3))
    then have "plan_validate_against cd plan iv = Inl (over_limit ''shard plan bytes'')"
      unfolding plan_validate_against_def using False iv count(1)
      by (simp only: result_bind_simps) (simp add: validate_input_bounds_def ensure_serialized_bound_def over_limit_def)
    then show ?thesis unfolding run by (simp add: ensure_serialized_bound_def over_limit_def)
  qed
qed

lemma components_of:
  assumes "inventory_ok iv" "topology_components iv = Inr cs"
  shows "distinct (concat cs)" "set (concat cs) = {..<length (iv_tests iv)}" "c \<in> set cs \<Longrightarrow> c \<noteq> []"
    "i < length (iv_tests iv) \<Longrightarrow> j < length (iv_tests iv) \<Longrightarrow> connected (coupled iv) i j \<Longrightarrow> \<exists>c \<in> set cs. i \<in> set c \<and> j \<in> set c"
proof -
  obtain cs' where P: "topology_components iv = Inr cs'" "distinct (concat cs')" "set (concat cs') = {..<length (iv_tests iv)}"
    "\<And>c. c \<in> set cs' \<Longrightarrow> c \<noteq> [] \<and> sorted_wrt (<) c" "sorted (map (first_id iv) cs')"
    "\<And>i j. i < length (iv_tests iv) \<Longrightarrow> j < length (iv_tests iv) \<Longrightarrow> (\<exists>c \<in> set cs'. i \<in> set c \<and> j \<in> set c) \<longleftrightarrow> connected (coupled iv) i j"
    by (rule components_partition [OF assms(1)], rule that)
  have cs: "cs' = cs" using P(1) assms(2) by simp
  show "distinct (concat cs)" "set (concat cs) = {..<length (iv_tests iv)}" using P(2,3) unfolding cs .
  show "c \<in> set cs \<Longrightarrow> c \<noteq> []" using P(4) unfolding cs by simp
  show "i < length (iv_tests iv) \<Longrightarrow> j < length (iv_tests iv) \<Longrightarrow> connected (coupled iv) i j \<Longrightarrow> \<exists>c \<in> set cs. i \<in> set c \<and> j \<in> set c"
    using P(6) unfolding cs by simp
qed

lemma names_of_concat: "concat (map (names_of iv) cs) = names_of iv (concat cs)"
  by (induction cs) (auto simp: names_of_def)

lemma mset_names_of: "mset (names_of iv c) = image_mset (\<lambda>index. tc_id (iv_tests iv ! index)) (mset c)"
  by (simp add: names_of_def)

lemma names_of_all:
  assumes "distinct is" "set is = {..<length (iv_tests iv)}"
  shows "mset (names_of iv is) = mset (map tc_id (iv_tests iv))"
proof -
  have "mset is = mset [0..<length (iv_tests iv)]"
    using assms by (intro set_eq_iff_mset_eq_distinct [THEN iffD1]) (auto simp: atLeast0LessThan)
  then have "mset (names_of iv is) = mset (names_of iv [0..<length (iv_tests iv)])" by (simp add: names_of_def)
  also have "names_of iv [0..<length (iv_tests iv)] = map tc_id (iv_tests iv)"
    by (rule nth_equalityI) (simp_all add: names_of_def)
  finally show ?thesis .
qed

lemma tied_connected:
  assumes "t \<in> set (iv_tests iv)" "u \<in> set (iv_tests iv)" "tied t u"
  obtains i j where "i < length (iv_tests iv)" "j < length (iv_tests iv)" "t = iv_tests iv ! i" "u = iv_tests iv ! j"
    "connected (coupled iv) i j"
proof -
  from assms obtain i j where ij: "i < length (iv_tests iv)" "j < length (iv_tests iv)" "t = iv_tests iv ! i" "u = iv_tests iv ! j"
    by (metis in_set_conv_nth)
  with assms(3) have "(i, j) \<in> coupled iv" by (simp add: coupled_def tied_def)
  with that ij show thesis by (metis connected_edge)
qed

lemma not_serial:
  assumes "inventory_ok iv" "\<not> has_serial iv c" "set c \<subseteq> {..<length (iv_tests iv)}" "set ids \<subseteq> set (names_of iv c)"
  shows "\<not> serial_in (inventory_lookup iv) ids"
proof
  assume "serial_in (inventory_lookup iv) ids"
  then obtain t where t: "t \<in> set (iv_tests iv)" "tc_run_serial t" "tc_id t \<in> set ids" by (auto simp: serial_in_iff [OF assms(1)])
  with assms(4) obtain i where i: "i \<in> set c" "tc_id t = tc_id (iv_tests iv ! i)" by (auto simp: names_of_def)
  with assms(3) have "iv_tests iv ! i \<in> set (iv_tests iv)" by auto
  with t(1) i(2) inventory_okD(1) [OF assms(1)] have "t = iv_tests iv ! i" by (auto simp: distinct_map inj_on_def)
  with t(2) i(1) assms(2) show False by (auto simp: has_serial_def list_ex_iff)
qed

lemma balanced_assignments:
  assumes iv: "inventory_ok iv" and cs: "topology_components iv = Inr cs"
    and alone: "\<forall>c \<in> set cs. has_serial iv c \<longrightarrow> length c = 1" and bound: "\<forall>c \<in> set cs. length c \<le> b"
    and regular: "regular = filter (\<lambda>c. \<not> has_serial iv c) cs" "1 \<le> n \<or> regular = []" "n \<le> length regular"
  shows "\<exists>loads assigned. assign_components iv (sort_key (first_id iv) regular) (replicate n 0) (replicate n []) = Inr (loads, assigned)
     \<and> length assigned = n \<and> within b assigned
     \<and> assignments_ok iv (map (names_of iv) (filter (has_serial iv) cs) @ assigned)"
proof -
  let ?serial = "filter (has_serial iv) cs" and ?reg = "sort_key (first_id iv) regular"
  note part = components_of [OF iv cs]
  have "\<exists>loads assigned. assign_components iv ?reg (replicate n 0) (replicate n []) = Inr (loads, assigned) \<and> length assigned = n
     \<and> mset (concat assigned) = mset (names_of iv (concat ?reg)) \<and> (\<forall>c \<in> set regular. \<exists>a \<in> set assigned. set (names_of iv c) \<subseteq> set a)
     \<and> within b assigned \<and> empties assigned \<le> n - length regular"
  proof (cases "n = 0")
    case True
    then show ?thesis using regular(2) by (simp add: names_of_def within_def empties_def)
  next
    case False
    have "empties (replicate n []) = n" "within b (replicate n [])" by (auto simp: empties_def within_def)
    with False assign_components_Inr [of "replicate n 0" "replicate n []" ?reg b iv] part(3) bound regular(1) show ?thesis by auto
  qed
  then obtain loads as where A: "assign_components iv ?reg (replicate n 0) (replicate n []) = Inr (loads, as)" "length as = n"
    "mset (concat as) = mset (names_of iv (concat ?reg))" "\<forall>c \<in> set regular. \<exists>a \<in> set as. set (names_of iv c) \<subseteq> set a"
    "within b as" "empties as \<le> n - length regular" by blast
  have "mset (concat ?reg) = mset (concat regular)" 
    unfolding mset_concat by (metis mset_map mset_sort sum_mset_sum_list)
  moreover have "mset (concat cs) = mset (concat ?serial) + mset (concat regular)" unfolding regular(1) by (induction cs) auto
  ultimately have "mset (concat (map (names_of iv) ?serial @ as)) = mset (names_of iv (concat cs))"
    using A(3) by (simp add: names_of_concat mset_names_of)
  then have m: "mset (concat (map (names_of iv) ?serial @ as)) = mset (map tc_id (iv_tests iv))"
    using names_of_all [OF part(1,2)] by simp
  have "set (concat as) = set (names_of iv (concat regular))" using mset_eq_setD [OF A(3)] by (auto simp: names_of_def)
  then have quiet: "\<not> serial_in (inventory_lookup iv) a" if "a \<in> set as" for a
    using that part(2) regular(1) by (intro not_serial [OF iv, of "concat regular"]) (auto simp: has_serial_def list_ex_iff)
  have "[] \<notin> set as" using A(6) regular(3) by (auto simp: empties_def filter_empty_conv)
  then have ne: "[] \<notin> set (map (names_of iv) ?serial @ as)" using part(3) by (auto simp: names_of_def)
  have "\<exists>a \<in> set (map (names_of iv) ?serial @ as). tc_id t \<in> set a \<and> tc_id u \<in> set a"
    if tu: "t \<in> set (iv_tests iv)" "u \<in> set (iv_tests iv)" "tied t u" for t u
  proof -
    from tied_connected [OF tu] part(4) obtain i j c where c: "c \<in> set cs" "i \<in> set c" "j \<in> set c" "t = iv_tests iv ! i" "u = iv_tests iv ! j"
      by metis
    then have n: "tc_id t \<in> set (names_of iv c)" "tc_id u \<in> set (names_of iv c)" by (auto simp: names_of_def)
    show ?thesis
    proof (cases "has_serial iv c")
      case True
      with c(1) have "names_of iv c \<in> set (map (names_of iv) ?serial @ as)" by auto
      with n show ?thesis by blast
    next
      case False
      with c(1) regular(1) A(4) obtain a where "a \<in> set as" "set (names_of iv c) \<subseteq> set a" by auto
      with n show ?thesis by auto
    qed
  qed
  moreover have "\<forall>a \<in> set (map (names_of iv) ?serial @ as). serial_in (inventory_lookup iv) a \<longrightarrow> length a = 1"
    using quiet alone by (auto simp: names_of_def)
  ultimately show ?thesis using A(1,2,5) m ne unfolding assignments_ok_def by blast
qed

lemma balanced_cases:
  assumes iv: "inventory_validate cd iv = Inr ()" and cs: "topology_components iv = Inr cs"
    and serial: "serial = filter (has_serial iv) cs" and regular: "regular = filter (\<lambda>c. \<not> has_serial iv c) cs"
    and b: "\<forall>c \<in> set cs. length c \<le> b"
    and k: "1 \<le> k" "k \<le> max_shards" "k \<le> length cs" "length serial \<le> k" "regular \<noteq> [] \<Longrightarrow> length serial < k"
    and alone: "\<forall>c \<in> set cs. has_serial iv c \<longrightarrow> length c = 1"
  shows "\<exists>as. deterministic_balanced cd iv k = plan_from_assignments cd iv (map (names_of iv) serial @ as)
     \<and> length serial + length as = k \<and> within b as \<and> assignments_ok iv (map (names_of iv) serial @ as)"
proof -
  have len: "length cs = length serial + length regular" unfolding serial regular using sum_length_filter_compl [of "has_serial iv" cs] by simp
  have "1 \<le> k - length serial \<or> regular = []" "k - length serial \<le> length regular" using k len by auto
  from balanced_assignments [OF _ cs alone b regular this] iv obtain loads as where
    A: "assign_components iv (sort_key (first_id iv) regular) (replicate (k - length serial) 0) (replicate (k - length serial) []) = Inr (loads, as)"
    "length as = k - length serial" "within b as" "assignments_ok iv (map (names_of iv) serial @ as)"
    unfolding serial inventory_validate_Inr by blast
  have "split_serial iv cs = Inr (serial, regular)" using alone by (simp add: split_serial_Inr serial regular)
  moreover have "ensure_count ''shards'' k 1 max_shards = Inr ()" using k(1,2) by simp
  moreover have "\<not> (k < length serial \<or> (regular \<noteq> [] \<and> length serial = k))" "\<not> length cs < k" "\<not> length regular < k - length serial"
    using k len by auto
  moreover have "map (map (\<lambda>index. tc_id (iv_tests iv ! index))) serial = map (names_of iv) serial" by (simp add: names_of_def)
  ultimately have "deterministic_balanced cd iv k = plan_from_assignments cd iv (map (names_of iv) serial @ as)"
    unfolding deterministic_balanced_def using iv cs A(1)
    by (simp only: result_bind_simps Let_def prod.case if_False)
  with A k(4) show ?thesis by auto
qed

lemma balanced_succeeds:
  assumes "deterministic_balanced cd iv k = Inr plan"
  obtains cs where "inventory_validate cd iv = Inr ()" "topology_components iv = Inr cs" "1 \<le> k" "k \<le> max_shards" "k \<le> length cs"
    "\<forall>c \<in> set cs. has_serial iv c \<longrightarrow> length c = 1" "length (filter (has_serial iv) cs) \<le> k"
    "filter (\<lambda>c. \<not> has_serial iv c) cs \<noteq> [] \<Longrightarrow> length (filter (has_serial iv) cs) < k"
proof -
  from assms obtain cs where cs: "inventory_validate cd iv = Inr ()" "topology_components iv = Inr cs"
    "ensure_count ''shards'' k 1 max_shards = Inr ()"
    by (auto simp: deterministic_balanced_def result_bind_Inr_iff)
  with assms obtain sr where "split_serial iv cs = Inr sr" "k \<le> length cs"
    "\<not> (k < length (fst sr) \<or> (snd sr \<noteq> [] \<and> length (fst sr) = k))"
    by (auto simp: deterministic_balanced_def result_bind_Inr_iff split: if_splits)
  with cs show thesis by (intro that [of cs]) (auto simp: split_serial_Inr)
qed

lemma make_shard_ids: "make_shard lookup index ids = Inr s \<Longrightarrow> sh_test_ids s = sort ids"
  by (auto simp: make_shard_def result_bind_Inr_iff)

lemma plan_from_assignments_shards:
  assumes "plan_from_assignments cd iv as = Inr plan"
  shows "plan_validate_against cd plan iv = Inr ()" "length (pl_shards plan) = length as"
    "i < length as \<Longrightarrow> sh_test_ids (pl_shards plan ! i) = sort (as ! i)"
proof -
  from assms obtain shards where s: "plan_validate_against cd plan iv = Inr ()" "pl_shards plan = shards"
    "collect_results (map (\<lambda>(index, ids). make_shard (inventory_lookup iv) index ids) (enumerate 0 as)) = Inr shards"
    by (auto simp: plan_from_assignments_def Let_def result_bind_Inr_iff split: if_splits)
  show "plan_validate_against cd plan iv = Inr ()" by (rule s(1))
  note shards = s(3) [unfolded collect_results_map_Inr list_all2_conv_all_nth]
  then show "length (pl_shards plan) = length as" by (simp add: s(2))
  assume "i < length as"
  with shards have "make_shard (inventory_lookup iv) i (as ! i) = Inr (pl_shards plan ! i)"
    by (auto simp: s(2) nth_enumerate_eq)
  then show "sh_test_ids (pl_shards plan ! i) = sort (as ! i)" by (rule make_shard_ids)
qed

lemma parallel_shard:
  assumes plan: "plan_from_assignments cd iv (map (names_of iv) serial @ as) = Inr plan" and iv: "inventory_ok iv"
    and serial: "\<forall>c \<in> set serial. has_serial iv c \<and> set c \<subseteq> {..<length (iv_tests iv)}"
    and s: "s \<in> set (pl_shards plan)" "sh_execution_mode s = Parallel"
  shows "\<exists>a \<in> set as. length (sh_test_ids s) = length a"
proof -
  note P = plan_from_assignments_shards [OF plan]
  from s(1) P(2) obtain i where i: "i < length serial + length as" "s = pl_shards plan ! i" by (auto simp: in_set_conv_nth)
  have ids: "sh_test_ids s = sort ((map (names_of iv) serial @ as) ! i)" using P(3) [of i] i by simp
  have "\<not> serial_in (inventory_lookup iv) (sh_test_ids s)"
    using P(1) s by (auto simp: plan_validate_Inr plan_ok_def shard_ok_def mode_of_def split: if_splits)
  then have quiet: "tc_run_serial t \<Longrightarrow> t \<in> set (iv_tests iv) \<Longrightarrow> tc_id t \<notin> set (sh_test_ids s)" for t
    by (auto simp: serial_in_iff [OF iv])
  have "\<not> i < length serial"
  proof
    assume l: "i < length serial"
    from serial nth_mem [OF l] have "has_serial iv (serial ! i)" "set (serial ! i) \<subseteq> {..<length (iv_tests iv)}" by blast+
    then obtain j where j: "j \<in> set (serial ! i)" "tc_run_serial (iv_tests iv ! j)" "j < length (iv_tests iv)"
      by (auto simp: has_serial_def list_ex_iff)
    then show False using quiet [of "iv_tests iv ! j"] ids l by (auto simp: nth_append names_of_def)
  qed
  then show ?thesis using ids i(1) by (auto simp: nth_append intro!: bexI [of _ "as ! (i - length serial)"])
qed

text \<open>
  (C34) Whenever the balanced plan is made it has as many shards as requested, it is valid, and the sizes
  of two parallel shards differ by no more than the size of the largest component.
\<close>

theorem balanced_plan_is_balanced:
  assumes "deterministic_balanced cd iv k = Inr plan"
  shows "\<exists>cs. topology_components iv = Inr cs \<and> plan_validate_against cd plan iv = Inr () \<and> length (pl_shards plan) = k
     \<and> (\<forall>b. (\<forall>c \<in> set cs. length c \<le> b) \<longrightarrow>
          (\<forall>s \<in> set (pl_shards plan). \<forall>s' \<in> set (pl_shards plan). sh_execution_mode s = Parallel \<and> sh_execution_mode s' = Parallel \<longrightarrow>
             length (sh_test_ids s) \<le> length (sh_test_ids s') + b))"
proof -
  from balanced_succeeds [OF assms] obtain cs where B: "inventory_validate cd iv = Inr ()" "topology_components iv = Inr cs"
    "1 \<le> k" "k \<le> max_shards" "k \<le> length cs"
    "\<forall>c \<in> set cs. has_serial iv c \<longrightarrow> length c = 1" "length (filter (has_serial iv) cs) \<le> k"
    "filter (\<lambda>c. \<not> has_serial iv c) cs \<noteq> [] \<Longrightarrow> length (filter (has_serial iv) cs) < k" by metis
  let ?serial = "map (names_of iv) (filter (has_serial iv) cs)"
  have balanced: "\<exists>as. plan_from_assignments cd iv (?serial @ as) = Inr plan \<and> length ?serial + length as = k \<and> within b as"
    if "\<forall>c \<in> set cs. length c \<le> b" for b
    using balanced_cases [OF B(1,2) refl refl that B(3-5) B(7) B(8) B(6)] assms by auto
  obtain b where "\<forall>c \<in> set cs. length c \<le> b" using finite_nat_set_iff_bounded_le [of "length ` set cs"] by auto
  from balanced [OF this] have "plan_validate_against cd plan iv = Inr ()" "length (pl_shards plan) = k"
    using plan_from_assignments_shards(1,2) by fastforce+
  moreover have "length (sh_test_ids s) \<le> length (sh_test_ids s') + b"
    if b: "\<forall>c \<in> set cs. length c \<le> b" and s: "s \<in> set (pl_shards plan)" "sh_execution_mode s = Parallel"
      "s' \<in> set (pl_shards plan)" "sh_execution_mode s' = Parallel" for b s s'
  proof -
    from balanced [OF b] obtain as where as: "plan_from_assignments cd iv (?serial @ as) = Inr plan" "within b as" by blast
    have ok: "inventory_ok iv" using B(1) by (simp add: inventory_validate_Inr)
    have "\<exists>a \<in> set as. length (sh_test_ids s) = length a" if "s \<in> set (pl_shards plan)" "sh_execution_mode s = Parallel" for s
      using components_of(2) [OF ok B(2)] by (intro parallel_shard [OF as(1) ok _ that]) auto
    with s obtain a a' where "a \<in> set as" "a' \<in> set as" "length (sh_test_ids s) = length a" "length (sh_test_ids s') = length a'"
      by metis
    with as(2) show ?thesis by (simp add: within_def)
  qed
  ultimately show ?thesis using B(2) by blast
qed

text \<open>
  A balanced plan with \<open>k\<close> shards exists whenever every serial test is a component of its own, there
  are at least \<open>k\<close> components and \<open>k\<close> leaves a shard for the other tests beside the serial ones: the
  only other outcome is that an encoding exceeds the size limit.
\<close>

theorem balanced_plan_exists:
  assumes "inventory_validate cd iv = Inr ()" and "topology_components iv = Inr cs"
    and "1 \<le> k" "k \<le> max_shards" "k \<le> length cs"
    and "\<forall>c \<in> set cs. has_serial iv c \<longrightarrow> length c = 1"
    and "length (filter (has_serial iv) cs) + (if \<forall>c \<in> set cs. has_serial iv c then 0 else 1) \<le> k"
  shows "(\<exists>plan. deterministic_balanced cd iv k = Inr plan)
     \<or> (\<exists>field \<in> {''shard assignments bytes'', ''shard plan bytes''}.
          deterministic_balanced cd iv k = Inl (LimitExceeded field max_payload_bytes (max_payload_bytes + 1)))"
proof -
  have serial: "length (filter (has_serial iv) cs) \<le> k"
    "filter (\<lambda>c. \<not> has_serial iv c) cs \<noteq> [] \<Longrightarrow> length (filter (has_serial iv) cs) < k"
    using assms(7) by (auto simp: filter_empty_conv split: if_splits)
  obtain b where "\<forall>c \<in> set cs. length c \<le> b" using finite_nat_set_iff_bounded_le [of "length ` set cs"] by auto
  from balanced_cases [OF assms(1,2) refl refl this assms(3-5) serial assms(6)] obtain as where
    as: "deterministic_balanced cd iv k = plan_from_assignments cd iv (map (names_of iv) (filter (has_serial iv) cs) @ as)"
    "length (filter (has_serial iv) cs) + length as = k"
    "assignments_ok iv (map (names_of iv) (filter (has_serial iv) cs) @ as)" by blast
  from plan_from_assignments_ok [OF assms(1) as(3)] as(2) assms(3,4) show ?thesis by (auto simp: as(1) over_limit_def)
qed

section \<open>The plan of the sample inventory\<close>

lemma plan_sample_components: "topology_components plan_sample = Inr [[0, 1], [2], [3]]" by code_simp

theorem components_are_classes_witness:
  "\<exists>cs. topology_components plan_sample = Inr cs \<and> (\<exists>c \<in> set cs. 0 \<in> set c \<and> 1 \<in> set c)
     \<and> (0, 1) \<in> (coupled plan_sample \<union> (coupled plan_sample)\<inverse>)\<^sup>*"
proof -
  have len: "0 < length (iv_tests plan_sample) \<and> 1 < length (iv_tests plan_sample)" by (simp add: plan_sample_def)
  from components_are_classes [OF plan_sample_valid] obtain cs where cs: "topology_components plan_sample = Inr cs"
    "\<forall>i j. i < length (iv_tests plan_sample) \<and> j < length (iv_tests plan_sample) \<longrightarrow>
       ((\<exists>c \<in> set cs. i \<in> set c \<and> j \<in> set c) \<longleftrightarrow> (i, j) \<in> (coupled plan_sample \<union> (coupled plan_sample)\<inverse>)\<^sup>*)" by blast
  from cs(1) plan_sample_components have "cs = [[0, 1], [2], [3]]" by simp
  then have "\<exists>c \<in> set cs. 0 \<in> set c \<and> 1 \<in> set c" by simp
  with cs len show ?thesis by blast
qed

definition sample_plan :: shard_plan where
  "sample_plan = \<lparr>pl_schema_version = 1,
     pl_inventory_digest = canonical_digest plan_codec ''shipyard.parallel-proof.inventory.v1'' (InventoryValue plan_sample),
     pl_total_tests = 4, pl_shards =
       [\<lparr>sh_id = 0, sh_execution_mode = FleetExclusive, sh_test_ids = [''d'']\<rparr>,
        \<lparr>sh_id = 1, sh_execution_mode = Parallel, sh_test_ids = [''a'', ''b'']\<rparr>,
        \<lparr>sh_id = 2, sh_execution_mode = Parallel, sh_test_ids = [''c'']\<rparr>]\<rparr>"

lemma sample_plan_placed:
  "place_shards (inventory_lookup plan_sample) 0 (pl_shards sample_plan) [] = Inr [(''a'', 1), (''b'', 1), (''c'', 2), (''d'', 0)]"
  by code_simp

lemma plan_sample_digest: "inventory_digest plan_codec plan_sample = Inr (pl_inventory_digest sample_plan)"
  by (simp add: inventory_digest_def plan_sample_valid sample_plan_def)

lemma sample_plan_valid: "plan_validate_against plan_codec sample_plan plan_sample = Inr ()"
proof -
  have "check_all (dependencies_inside [(''a'', 1), (''b'', 1), (''c'', 2), (''d'', 0)]) (iv_tests plan_sample) = Inr ()"
    "all_fixtures_inside [(''a'', 1), (''b'', 1), (''c'', 2), (''d'', 0)] (iv_tests plan_sample) [] = Inr ()"
    "check_all (\<lambda>s. check_all (validate_identifier ''shard test id'') (sh_test_ids s)) (pl_shards sample_plan) = Inr ()"
    by code_simp+
  moreover have "validate_version (pl_schema_version sample_plan) = Inr ()"
    "ensure_count ''shards'' (length (pl_shards sample_plan)) 1 max_shards = Inr ()"
    "length (pc_json plan_codec (PlanValue sample_plan)) \<le> max_payload_bytes" "4 \<le> max_tests"
    "pl_total_tests sample_plan = length (iv_tests plan_sample)" "length (iv_tests plan_sample) = 4"
    "length (concat (map sh_test_ids (pl_shards sample_plan))) = 4"
    by (simp_all add: sample_plan_def plan_sample_defs proof_schema_version_def max_shards_def max_tests_def max_payload_bytes_def)
  ultimately show ?thesis unfolding plan_validate_against_def sample_plan_placed
    using plan_sample_valid plan_sample_digest by (simp add: validate_input_bounds_Inr result_bind_Inr_iff)
qed

theorem plan_accepted_iff_witness:
  "plan_validate_against plan_codec sample_plan plan_sample = Inr () \<and> distinct (concat (map sh_test_ids (pl_shards sample_plan)))"
  using plan_accepted_iff [of plan_codec sample_plan plan_sample] sample_plan_valid by simp

lemma sample_balanced: "deterministic_balanced plan_codec plan_sample 3 = Inr sample_plan"
proof -
  have count: "ensure_count ''shards'' 3 1 max_shards = Inr ()" "ensure_count ''shard test memberships'' 4 1 max_tests = Inr ()"
    "ensure_serialized_bound plan_codec ''shard assignments bytes'' v = Inr ()" for v
    by (simp_all add: max_shards_def max_tests_def plan_codec_def max_payload_bytes_def)
  have run: "split_serial plan_sample [[0, 1], [2], [3]] = Inr ([[3]], [[0, 1], [2]])"
    "assign_components plan_sample (sort_key (first_id plan_sample) [[0, 1], [2]]) (replicate 2 0) (replicate 2 []) = Inr ([2, 1], [[''a'', ''b''], [''c'']])"
    "map (map (\<lambda>index. tc_id (iv_tests plan_sample ! index))) [[3]] = [[''d'']]"
    "check_all check_assignment [[''d''], [''a'', ''b''], [''c'']] = Inr ()"
    "collect_results (map (\<lambda>(index, ids). make_shard (inventory_lookup plan_sample) index ids)
       (enumerate 0 [[''d''], [''a'', ''b''], [''c'']])) = Inr (pl_shards sample_plan)"
    by code_simp+
  have plan: "\<lparr>pl_schema_version = proof_schema_version, pl_inventory_digest = pl_inventory_digest sample_plan, pl_total_tests = 4,
     pl_shards = pl_shards sample_plan\<rparr> = sample_plan" by (simp add: sample_plan_def proof_schema_version_def)
  have len: "length (iv_tests plan_sample) = 4" by (simp add: plan_sample_def)
  have "plan_from_assignments plan_codec plan_sample [[''d''], [''a'', ''b''], [''c'']] = Inr sample_plan"
    unfolding plan_from_assignments_def len using count plan_sample_valid run(4,5) plan_sample_digest plan sample_plan_valid
    by (simp add: result_bind_Inr_iff)
  with count(1) plan_sample_valid run(1-3) plan_sample_components show ?thesis
    unfolding deterministic_balanced_def by (simp del: ensure_count_Inr check_all_Inr)
qed

theorem balanced_plan_is_balanced_witness:
  "plan_validate_against plan_codec sample_plan plan_sample = Inr () \<and> length (pl_shards sample_plan) = 3"
  using balanced_plan_is_balanced [OF sample_balanced] by blast

theorem balanced_plan_exists_witness:
  "\<exists>plan. deterministic_balanced plan_codec plan_sample 3 = Inr plan"
proof -
  have serial: "\<forall>c \<in> set [[0, 1], [2], [3]]. has_serial plan_sample c \<longrightarrow> length c = 1"
    "length (filter (has_serial plan_sample) [[0, 1], [2], [3]])
      + (if \<forall>c \<in> set [[0, 1], [2], [3]]. has_serial plan_sample c then 0 else 1) \<le> 3"
    by (simp_all add: has_serial_def plan_sample_defs)
  have "1 \<le> (3 :: nat)" "3 \<le> max_shards" "3 \<le> length [[0, 1], [2], [3 :: nat]]" by (simp_all add: max_shards_def)
  from balanced_plan_exists [OF plan_sample_valid plan_sample_components this serial] sample_balanced show ?thesis by blast
qed

end
