(* ===== verification/Shadow_Proof.thy ===== *)
theory Shadow_Proof
  imports Test_Plan
begin

text \<open>
  Manifests, controller assignments, attempt dispositions and shard receipts of
  \<open>src/src/parallel_proof.rs\<close>: how the controller binds a proof to a source, an artifact and a plan,
  mints an assignment for a worker, closes an attempt and accepts a worker's report, and the checks
  that read these records back. SHA-256 and the encoder come with \<open>proof_codec\<close>; the HMAC and the
  comparison of authenticators are written out.

  The lemmas show that the constant-time comparison is equality, that what the controller mints
  passes its own checks, and what an authenticated record guarantees.
\<close>

unbundle bit_operations_syntax

section \<open>The manifest\<close>

definition repository_byte :: "char \<Rightarrow> bool" where
  "repository_byte b = (97 \<le> (of_char b :: nat) \<and> (of_char b :: nat) \<le> 122 \<or> is_ascii_digit b \<or> b \<in> set ''-_.'')"

definition valid_repository_component :: "string \<Rightarrow> bool" where
  "valid_repository_component c = (c \<noteq> [] \<and> list_ex is_ascii_alphanumeric c \<and> list_all repository_byte c)"

definition valid_repository :: "string \<Rightarrow> bool" where
  "valid_repository r = (case split_when (\<lambda>c. c = CHR ''/'') r of
     [owner, name] \<Rightarrow> valid_repository_component owner \<and> valid_repository_component name | _ \<Rightarrow> False)"

definition validate_subject :: "proof_subject \<Rightarrow> unit proof_result" where
  "validate_subject subject = (case subject of
     PullRequest n \<Rightarrow> if n > 0 then Inr () else Inl (InvalidField ''pull request number'')
   | MergeGroup gid \<Rightarrow> validate_identifier ''merge group id'' gid)"

definition validate_source :: "source_identity \<Rightarrow> unit proof_result" where
  "validate_source so =
     (if so_repository_id so = 0 then Inl (InvalidField ''repository id'')
      else result_bind (validate_identifier ''repository'' (so_repository so)) (\<lambda>_.
        if \<not> valid_repository (so_repository so) then Inl (InvalidField ''repository'')
        else result_bind (validate_subject (so_subject so)) (\<lambda>_.
          result_bind (validate_git_sha ''head sha'' (so_head_sha so)) (\<lambda>_.
          result_bind (validate_git_sha ''tree sha'' (so_tree_sha so)) (\<lambda>_.
            if length (so_head_sha so) \<noteq> length (so_tree_sha so) then Inl (InvalidField ''git object format'')
            else Inr ())))))"

definition validate_build :: "build_identity \<Rightarrow> unit proof_result" where
  "validate_build bu = result_bind (validate_identifier ''target triple'' (bu_target_triple bu)) (\<lambda>_.
     validate_identifier ''build profile'' (bu_profile bu))"

definition validate_artifact :: "artifact_identity \<Rightarrow> unit proof_result" where
  "validate_artifact ar = result_bind (validate_git_sha ''artifact source tree'' (ar_source_tree_sha ar)) (\<lambda>_.
     if ar_size_bytes ar = 0 then Inl (InvalidField ''artifact size'') else Inr ())"

definition validate_trust :: "trust_identity \<Rightarrow> unit proof_result" where
  "validate_trust tr =
     (if tr_artifact_class tr = UntrustedContributor
         \<and> (tr_execution_boundary tr \<noteq> DisposableGuest \<or> tr_network_enabled tr \<or> tr_writable_host_mounts tr)
      then Inl (InvalidField ''untrusted artifact boundary'') else Inr ())"

definition manifest_validate :: "proof_codec \<Rightarrow> proof_manifest \<Rightarrow> test_inventory \<Rightarrow> shard_plan \<Rightarrow> unit proof_result" where
  "manifest_validate cd ma iv plan =
     result_bind (validate_version (ma_schema_version ma)) (\<lambda>_.
     if \<not> ma_shadow_only ma then Inl (InvalidField ''shadow_only'')
     else result_bind (validate_source (ma_source ma)) (\<lambda>_.
       result_bind (validate_build (ma_build ma)) (\<lambda>_.
       result_bind (validate_artifact (ma_artifact ma)) (\<lambda>_.
       result_bind (validate_trust (ma_trust ma)) (\<lambda>_.
       if ar_source_tree_sha (ma_artifact ma) \<noteq> so_tree_sha (ma_source ma) then Inl (BindingMismatch ''artifact source tree'')
       else if ar_build_contract_sha256 (ma_artifact ma) \<noteq> bu_contract_sha256 (ma_build ma)
       then Inl (BindingMismatch ''artifact build contract'')
       else result_bind (inventory_digest cd iv) (\<lambda>inventory.
         if ma_inventory_digest ma \<noteq> inventory then Inl (BindingMismatch ''manifest inventory'')
         else result_bind (plan_digest cd plan iv) (\<lambda>pd.
           if ma_plan_digest ma \<noteq> pd then Inl (BindingMismatch ''manifest plan'') else Inr ())))))))"

definition manifest_new ::
  "proof_codec \<Rightarrow> source_identity \<Rightarrow> build_identity \<Rightarrow> artifact_identity \<Rightarrow> trust_identity \<Rightarrow> test_inventory \<Rightarrow> shard_plan
   \<Rightarrow> proof_manifest proof_result" where
  "manifest_new cd so bu ar tr iv plan =
     result_bind (inventory_digest cd iv) (\<lambda>inventory.
     result_bind (plan_digest cd plan iv) (\<lambda>pd.
     let ma = \<lparr>ma_schema_version = proof_schema_version, ma_shadow_only = True, ma_source = so, ma_build = bu,
               ma_artifact = ar, ma_trust = tr, ma_inventory_digest = inventory, ma_plan_digest = pd\<rparr> in
     result_bind (manifest_validate cd ma iv plan) (\<lambda>_. Inr ma)))"

definition manifest_digest :: "proof_codec \<Rightarrow> proof_manifest \<Rightarrow> test_inventory \<Rightarrow> shard_plan \<Rightarrow> sha256 proof_result" where
  "manifest_digest cd ma iv plan = result_bind (manifest_validate cd ma iv plan) (\<lambda>_.
     Inr (canonical_digest cd ''shipyard.parallel-proof.manifest.v1'' (ManifestValue ma)))"

definition manifest_satisfies_merge_readiness :: "proof_manifest \<Rightarrow> bool" where
  "manifest_satisfies_merge_readiness ma = False"

section \<open>The context of a proof\<close>

record proof_context =
  pf_manifest :: proof_manifest
  pf_inventory :: test_inventory
  pf_plan :: shard_plan

definition context_new :: "proof_codec \<Rightarrow> proof_manifest \<Rightarrow> test_inventory \<Rightarrow> shard_plan \<Rightarrow> proof_context proof_result" where
  "context_new cd ma iv plan = result_bind (manifest_validate cd ma iv plan) (\<lambda>_.
     Inr \<lparr>pf_manifest = ma, pf_inventory = iv, pf_plan = plan\<rparr>)"

definition context_validate :: "proof_codec \<Rightarrow> proof_context \<Rightarrow> unit proof_result" where
  "context_validate cd pf = manifest_validate cd (pf_manifest pf) (pf_inventory pf) (pf_plan pf)"

text \<open>The capabilities the tests of a shard need, as a sorted set; an unknown test panics.\<close>

definition required_capabilities :: "test_inventory \<Rightarrow> test_shard \<Rightarrow> string list proof_result" where
  "required_capabilities iv s =
     result_bind (collect_results (map (bt_index (inventory_lookup iv)) (sh_test_ids s))) (\<lambda>tests.
       Inr (sort_dedup (concat (map tc_required_capabilities tests))))"

record shard_binding =
  sb_digest :: sha256
  sb_required_capabilities :: "string list"
  sb_execution_mode :: execution_mode

record proof_bindings =
  bn_manifest_digest :: sha256
  bn_inventory_digest :: sha256
  bn_plan_digest :: sha256
  bn_shards :: "shard_binding list"

definition shard_digest :: "proof_codec \<Rightarrow> test_shard \<Rightarrow> sha256" where
  "shard_digest cd s = canonical_digest cd ''shipyard.parallel-proof.shard.v1'' (ShardValue s)"

definition bind_shard :: "proof_codec \<Rightarrow> test_inventory \<Rightarrow> test_shard \<Rightarrow> shard_binding proof_result" where
  "bind_shard cd iv s = result_bind (required_capabilities iv s) (\<lambda>required.
     Inr \<lparr>sb_digest = shard_digest cd s, sb_required_capabilities = required, sb_execution_mode = sh_execution_mode s\<rparr>)"

definition from_validated :: "proof_codec \<Rightarrow> proof_context \<Rightarrow> proof_bindings proof_result" where
  "from_validated cd pf =
     result_bind (collect_results (map (bind_shard cd (pf_inventory pf)) (pl_shards (pf_plan pf)))) (\<lambda>shards.
       Inr \<lparr>bn_manifest_digest = canonical_digest cd ''shipyard.parallel-proof.manifest.v1'' (ManifestValue (pf_manifest pf)),
            bn_inventory_digest = canonical_digest cd ''shipyard.parallel-proof.inventory.v1'' (InventoryValue (pf_inventory pf)),
            bn_plan_digest = canonical_digest cd ''shipyard.parallel-proof.plan.v1'' (PlanValue (pf_plan pf)),
            bn_shards = shards\<rparr>)"

section \<open>Authenticators\<close>

definition hmac_block_bytes :: nat where "hmac_block_bytes = 64"

definition byte_xor :: "char \<Rightarrow> char \<Rightarrow> char" where
  "byte_xor a b = char_of ((of_char a :: nat) XOR of_char b)"

text \<open>A key longer than a block is replaced by its digest; the rest of the block is zero.\<close>

definition normalized_key :: "proof_codec \<Rightarrow> string \<Rightarrow> string" where
  "normalized_key cd key =
     (let k = if hmac_block_bytes < length key then pc_digest cd key else key
      in k @ replicate (hmac_block_bytes - length k) (char_of (0 :: nat)))"

definition hmac_sha256 :: "proof_codec \<Rightarrow> string \<Rightarrow> string \<Rightarrow> string \<Rightarrow> string" where
  "hmac_sha256 cd key domain message =
     (let normalized = normalized_key cd key;
          inner = map (byte_xor (char_of (54 :: nat))) normalized;
          outer = map (byte_xor (char_of (92 :: nat))) normalized;
          inner_digest = pc_digest cd
            (inner @ be_bytes 8 (length domain) @ domain @ be_bytes 8 (length message) @ message)
      in pc_digest cd (outer @ inner_digest))"

definition authentication :: "proof_codec \<Rightarrow> controller_key \<Rightarrow> string \<Rightarrow> proof_value \<Rightarrow> sha256" where
  "authentication cd key domain v = pc_hex cd (hmac_sha256 cd (ck_secret key) domain (pc_json cd v))"

definition assignment_authentication :: "proof_codec \<Rightarrow> controller_key \<Rightarrow> assignment_claims \<Rightarrow> sha256" where
  "assignment_authentication cd key claims =
     authentication cd key ''shipyard.parallel-proof.assignment-auth.v1'' (ClaimsValue claims)"

text \<open>The authenticated bytes of a disposition and of a receipt leave out the authenticator itself.\<close>

definition disposition_authentication :: "proof_codec \<Rightarrow> controller_key \<Rightarrow> attempt_disposition \<Rightarrow> sha256" where
  "disposition_authentication cd key d =
     authentication cd key ''shipyard.parallel-proof.disposition-auth.v1'' (UnsignedDisposition (d\<lparr>di_authentication := []\<rparr>))"

definition receipt_authentication :: "proof_codec \<Rightarrow> controller_key \<Rightarrow> shard_receipt \<Rightarrow> sha256" where
  "receipt_authentication cd key r =
     authentication cd key ''shipyard.parallel-proof.receipt-auth.v1'' (UnsignedReceipt (r\<lparr>sr_acceptance_authentication := []\<rparr>))"

definition digest_placeholder :: "proof_codec \<Rightarrow> sha256" where
  "digest_placeholder cd = pc_hex cd (pc_digest cd ''pending controller receipt authentication'')"

text \<open>The differences of all bytes are collected before the result is known.\<close>

definition constant_time_eq :: "string \<Rightarrow> string \<Rightarrow> bool" where
  "constant_time_eq left right =
     (length left = length right
      \<and> fold (\<lambda>(l, r) difference. difference OR ((of_char l :: 8 word) XOR of_char r)) (zip left right) 0 = 0)"

section \<open>Keys, workers and assignments\<close>

definition controller_key_new :: "string \<Rightarrow> string \<Rightarrow> controller_key proof_result" where
  "controller_key_new kid secret = result_bind (validate_identifier ''controller key id'' kid) (\<lambda>_.
     if \<not> (32 \<le> length secret \<and> length secret \<le> 64) then Inl (InvalidField ''controller key length'')
     else Inr \<lparr>ck_id = kid, ck_secret = secret\<rparr>)"

definition worker_validate :: "authenticated_worker \<Rightarrow> unit proof_result" where
  "worker_validate w =
     result_bind (validate_identifier ''host id'' (wk_host_id w)) (\<lambda>_.
     result_bind (ensure_count ''worker capabilities'' (length (wk_capabilities w)) 0 max_capabilities) (\<lambda>_.
     result_bind (validate_sorted_identifiers ''worker capabilities'' (wk_capabilities w)) (\<lambda>_.
       if wk_session_generation w = 0 then Inl (InvalidField ''session generation'') else Inr ())))"

definition assignment_verify :: "proof_codec \<Rightarrow> controller_key \<Rightarrow> controller_assignment \<Rightarrow> unit proof_result" where
  "assignment_verify cd key a = (let claims = as_claims a in
     result_bind (validate_version (ac_schema_version claims)) (\<lambda>_.
     if as_controller_key_id a \<noteq> ck_id key then Inl AuthenticationFailed
     else result_bind (validate_identifier ''host id'' (ac_host_id claims)) (\<lambda>_.
       result_bind (ensure_count ''assignment capabilities'' (length (ac_capabilities claims)) 0 max_capabilities) (\<lambda>_.
       result_bind (validate_sorted_identifiers ''assignment capabilities'' (ac_capabilities claims)) (\<lambda>_.
       if ac_attempt claims = 0 \<or> ac_fence claims = 0 \<or> ac_session_generation claims = 0
       then Inl (InvalidField ''assignment counters'')
       else result_bind (ensure_count ''assignment attempt'' (ac_attempt claims) 1 max_attempts_per_shard) (\<lambda>_.
         result_bind (ensure_serialized_bound cd ''assignment bytes'' (AssignmentValue a)) (\<lambda>_.
         if \<not> constant_time_eq (assignment_authentication cd key claims) (as_authentication a)
         then Inl AuthenticationFailed else Inr ())))))))"

definition assignment_digest :: "proof_codec \<Rightarrow> controller_assignment \<Rightarrow> sha256" where
  "assignment_digest cd a = canonical_digest cd ''shipyard.parallel-proof.assignment.v1'' (AssignmentValue a)"

definition attempt_key :: "sha256 \<Rightarrow> nat \<Rightarrow> nat \<Rightarrow> string" where
  "attempt_key digest shard attempt = digest @ '':'' @ show_nat shard @ '':'' @ show_nat attempt"

definition assignment_logical_key :: "controller_assignment \<Rightarrow> string" where
  "assignment_logical_key a =
     attempt_key (ac_manifest_digest (as_claims a)) (ac_shard_id (as_claims a)) (ac_attempt (as_claims a))"

definition assignment_mint ::
  "proof_codec \<Rightarrow> controller_key \<Rightarrow> proof_context \<Rightarrow> nat \<Rightarrow> nat \<Rightarrow> u64 \<Rightarrow> authenticated_worker
   \<Rightarrow> controller_assignment proof_result" where
  "assignment_mint cd key pf shard_id attempt fence w =
     result_bind (context_validate cd pf) (\<lambda>_.
     result_bind (worker_validate w) (\<lambda>_.
     result_bind (ok_or (plan_shard (pf_plan pf) shard_id) (InvalidField ''shard id'')) (\<lambda>shard.
     if attempt = 0 \<or> fence = 0 then Inl (InvalidField ''attempt or fence'')
     else result_bind (required_capabilities (pf_inventory pf) shard) (\<lambda>required.
       if \<not> set required \<subseteq> set (wk_capabilities w) then Inl (BindingMismatch ''worker capabilities'')
       else result_bind (manifest_digest cd (pf_manifest pf) (pf_inventory pf) (pf_plan pf)) (\<lambda>md.
         result_bind (inventory_digest cd (pf_inventory pf)) (\<lambda>inventory.
         result_bind (plan_digest cd (pf_plan pf) (pf_inventory pf)) (\<lambda>pd.
         let claims = \<lparr>ac_schema_version = proof_schema_version, ac_manifest_digest = md, ac_inventory_digest = inventory,
               ac_plan_digest = pd, ac_artifact_sha256 = ar_payload_sha256 (ma_artifact (pf_manifest pf)),
               ac_shard_id = shard_id, ac_shard_digest = shard_digest cd shard, ac_attempt = attempt, ac_fence = fence,
               ac_host_id = wk_host_id w, ac_worker_identity_sha256 = wk_identity_sha256 w,
               ac_capabilities = wk_capabilities w, ac_session_generation = wk_session_generation w,
               ac_execution_mode = sh_execution_mode shard,
               ac_execution_boundary = tr_execution_boundary (ma_trust (pf_manifest pf))\<rparr>;
             a = \<lparr>as_claims = claims, as_controller_key_id = ck_id key,
                  as_authentication = assignment_authentication cd key claims\<rparr>
         in result_bind (assignment_verify cd key a) (\<lambda>_. Inr a))))))))"

definition binding_shard :: "proof_bindings \<Rightarrow> nat \<Rightarrow> shard_binding option" where
  "binding_shard b shard_id = list_get (bn_shards b) shard_id"

definition claims_bound :: "proof_manifest \<Rightarrow> proof_bindings \<Rightarrow> shard_binding \<Rightarrow> assignment_claims \<Rightarrow> bool" where
  "claims_bound ma b s claims \<longleftrightarrow> ac_manifest_digest claims = bn_manifest_digest b
     \<and> ac_inventory_digest claims = bn_inventory_digest b \<and> ac_plan_digest claims = bn_plan_digest b
     \<and> ac_artifact_sha256 claims = ar_payload_sha256 (ma_artifact ma) \<and> ac_shard_digest claims = sb_digest s
     \<and> ac_execution_mode claims = sb_execution_mode s
     \<and> ac_execution_boundary claims = tr_execution_boundary (ma_trust ma)"

definition validate_assignment_binding_cached ::
  "proof_manifest \<Rightarrow> proof_bindings \<Rightarrow> controller_assignment \<Rightarrow> unit proof_result" where
  "validate_assignment_binding_cached ma b a = (let claims = as_claims a in
     result_bind (ok_or (binding_shard b (ac_shard_id claims)) (InvalidField ''shard id'')) (\<lambda>shard.
     if \<not> claims_bound ma b shard claims then Inl (BindingMismatch ''assignment claims'')
     else if set (sb_required_capabilities shard) \<subseteq> set (ac_capabilities claims) then Inr ()
     else Inl (BindingMismatch ''assignment capabilities'')))"

definition validate_assignment_binding ::
  "proof_codec \<Rightarrow> proof_manifest \<Rightarrow> test_inventory \<Rightarrow> shard_plan \<Rightarrow> controller_assignment \<Rightarrow> unit proof_result" where
  "validate_assignment_binding cd ma iv plan a =
     (let pf = \<lparr>pf_manifest = ma, pf_inventory = iv, pf_plan = plan\<rparr> in
      result_bind (context_validate cd pf) (\<lambda>_.
      result_bind (from_validated cd pf) (\<lambda>b. validate_assignment_binding_cached ma b a)))"

section \<open>Dispositions and receipts\<close>

definition validate_controller_observation :: "controller_assignment \<Rightarrow> controller_observation \<Rightarrow> unit proof_result" where
  "validate_controller_observation a ob =
     (if ob_execution_boundary ob \<noteq> ac_execution_boundary (as_claims a) then Inl (BindingMismatch ''execution boundary'')
      else if ob_started_at_ms ob \<ge> ob_completed_at_ms ob then Inl (InvalidField ''controller interval'') else Inr ())"

definition disposition_bound :: "proof_codec \<Rightarrow> controller_key \<Rightarrow> controller_assignment \<Rightarrow> attempt_disposition \<Rightarrow> bool" where
  "disposition_bound cd key a d \<longleftrightarrow> di_controller_key_id d = ck_id key
     \<and> di_manifest_digest d = ac_manifest_digest (as_claims a) \<and> di_assignment_digest d = assignment_digest cd a
     \<and> di_shard_id d = ac_shard_id (as_claims a) \<and> di_attempt d = ac_attempt (as_claims a)
     \<and> di_fence d = ac_fence (as_claims a)"

definition validate_disposition_kind :: "controller_assignment \<Rightarrow> disposition_kind \<Rightarrow> unit proof_result" where
  "validate_disposition_kind a kind = (case kind of
     FencedBeforeStart \<Rightarrow> Inr ()
   | Executed started completed boundary teardown \<Rightarrow>
       if started \<ge> completed \<or> boundary \<noteq> ac_execution_boundary (as_claims a)
          \<or> (boundary = DisposableGuest \<and> \<not> teardown)
       then Inl (InvalidField ''attempt execution disposition'') else Inr ())"

definition disposition_verify ::
  "proof_codec \<Rightarrow> controller_key \<Rightarrow> controller_assignment \<Rightarrow> attempt_disposition \<Rightarrow> unit proof_result" where
  "disposition_verify cd key a d =
     result_bind (validate_version (di_schema_version d)) (\<lambda>_.
     result_bind (assignment_verify cd key a) (\<lambda>_.
     if \<not> disposition_bound cd key a d then Inl (BindingMismatch ''attempt disposition'')
     else result_bind (validate_disposition_kind a (di_kind d)) (\<lambda>_.
       result_bind (ensure_serialized_bound cd ''attempt disposition bytes'' (DispositionValue d)) (\<lambda>_.
       if \<not> constant_time_eq (disposition_authentication cd key d) (di_authentication d)
       then Inl AuthenticationFailed else Inr ()))))"

definition disposition_mint ::
  "proof_codec \<Rightarrow> controller_key \<Rightarrow> controller_assignment \<Rightarrow> disposition_kind \<Rightarrow> attempt_disposition proof_result" where
  "disposition_mint cd key a kind =
     (let d = \<lparr>di_schema_version = proof_schema_version, di_manifest_digest = ac_manifest_digest (as_claims a),
               di_assignment_digest = assignment_digest cd a, di_shard_id = ac_shard_id (as_claims a),
               di_attempt = ac_attempt (as_claims a), di_fence = ac_fence (as_claims a), di_kind = kind,
               di_controller_key_id = ck_id key, di_authentication = digest_placeholder cd\<rparr>;
          d = d\<lparr>di_authentication := disposition_authentication cd key d\<rparr>
      in result_bind (disposition_verify cd key a d) (\<lambda>_. Inr d))"

definition fenced_before_start :: "proof_codec \<Rightarrow> controller_key \<Rightarrow> controller_assignment \<Rightarrow> attempt_disposition proof_result" where
  "fenced_before_start cd key a = result_bind (assignment_verify cd key a) (\<lambda>_. disposition_mint cd key a FencedBeforeStart)"

definition executed ::
  "proof_codec \<Rightarrow> controller_key \<Rightarrow> controller_assignment \<Rightarrow> controller_observation \<Rightarrow> attempt_disposition proof_result" where
  "executed cd key a ob =
     result_bind (assignment_verify cd key a) (\<lambda>_.
     result_bind (validate_controller_observation a ob) (\<lambda>_.
     if ob_execution_boundary ob = DisposableGuest \<and> \<not> ob_guest_teardown_confirmed ob then Inl (InvalidField ''guest teardown'')
     else disposition_mint cd key a (Executed (ob_started_at_ms ob) (ob_completed_at_ms ob) (ob_execution_boundary ob)
            (ob_guest_teardown_confirmed ob))))"

definition disposition_digest :: "proof_codec \<Rightarrow> attempt_disposition \<Rightarrow> sha256" where
  "disposition_digest cd d = canonical_digest cd ''shipyard.parallel-proof.attempt-disposition.v1'' (DispositionValue d)"

definition disposition_logical_key :: "attempt_disposition \<Rightarrow> string" where
  "disposition_logical_key d = attempt_key (di_manifest_digest d) (di_shard_id d) (di_attempt d)"

definition outcomes_digest :: "proof_codec \<Rightarrow> test_outcome list \<Rightarrow> sha256" where
  "outcomes_digest cd os = canonical_digest cd ''shipyard.parallel-proof.outcomes.v1'' (OutcomesValue os)"

definition all_passed :: "test_outcome list \<Rightarrow> bool" where
  "all_passed os = list_all (\<lambda>outcome. oc_status outcome = TestPassed) os"

definition expected_status :: "shard_receipt \<Rightarrow> receipt_status" where
  "expected_status r =
     (if sr_artifact_verified r \<and> all_passed (sr_outcomes r)
         \<and> (sr_execution_boundary r \<noteq> DisposableGuest \<or> sr_guest_teardown_confirmed r)
      then ReceiptPassed else ReceiptFailed)"

definition validate_structural :: "proof_codec \<Rightarrow> shard_receipt \<Rightarrow> unit proof_result" where
  "validate_structural cd r =
     result_bind (validate_version (sr_schema_version r)) (\<lambda>_.
     result_bind (validate_identifier ''host id'' (sr_host_id r)) (\<lambda>_.
     if sr_attempt r = 0 \<or> sr_fence r = 0 \<or> sr_session_generation r = 0 then Inl (InvalidField ''receipt counters'')
     else if sr_started_at_ms r \<ge> sr_completed_at_ms r then Inl (InvalidField ''receipt interval'')
     else result_bind (ensure_count ''receipt outcomes'' (length (sr_outcomes r)) 1 max_tests) (\<lambda>_.
       if \<not> strictly_sorted (map oc_test_id (sr_outcomes r)) then Inl (NonCanonical ''receipt outcomes'')
       else result_bind (check_all (\<lambda>outcome. validate_identifier ''outcome test id'' (oc_test_id outcome)) (sr_outcomes r)) (\<lambda>_.
         if sr_outcomes_digest r \<noteq> outcomes_digest cd (sr_outcomes r) then Inl (BindingMismatch ''outcomes digest'')
         else if sr_status r \<noteq> expected_status r then Inl (BindingMismatch ''receipt status'')
         else ensure_serialized_bound cd ''receipt bytes'' (ReceiptValue r)))))"

definition receipt_digest_of :: "proof_codec \<Rightarrow> shard_receipt \<Rightarrow> sha256 proof_result" where
  "receipt_digest_of cd r = result_bind (validate_structural cd r) (\<lambda>_.
     Inr (canonical_digest cd ''shipyard.parallel-proof.receipt.v1'' (ReceiptValue r)))"

definition receipt_verify :: "proof_codec \<Rightarrow> controller_key \<Rightarrow> shard_receipt \<Rightarrow> unit proof_result" where
  "receipt_verify cd key r =
     result_bind (validate_structural cd r) (\<lambda>_.
     if sr_controller_key_id r \<noteq> ck_id key then Inl AuthenticationFailed
     else if \<not> constant_time_eq (receipt_authentication cd key r) (sr_acceptance_authentication r)
     then Inl AuthenticationFailed else Inr ())"

definition receipt_logical_key :: "shard_receipt \<Rightarrow> string" where
  "receipt_logical_key r = attempt_key (sr_manifest_digest r) (sr_shard_id r) (sr_attempt r)"

section \<open>Accepting a worker's report\<close>

definition validate_worker_report_binding ::
  "proof_codec \<Rightarrow> proof_manifest \<Rightarrow> controller_assignment \<Rightarrow> worker_report \<Rightarrow> unit proof_result" where
  "validate_worker_report_binding cd ma a wr =
     result_bind (validate_version (wr_schema_version wr)) (\<lambda>_.
     result_bind (ensure_serialized_bound cd ''worker report bytes'' (ReportValue wr)) (\<lambda>_.
     if wr_assignment_digest wr \<noteq> assignment_digest cd a then Inl (BindingMismatch ''assignment digest'')
     else if wr_observed_artifact_sha256 wr \<noteq> ar_payload_sha256 (ma_artifact ma) then Inl (BindingMismatch ''observed artifact'')
     else if wr_observed_build_contract_sha256 wr \<noteq> bu_contract_sha256 (ma_build ma)
     then Inl (BindingMismatch ''observed build contract'')
     else if wr_observed_head_sha wr \<noteq> so_head_sha (ma_source ma) then Inl (BindingMismatch ''observed head'')
     else if wr_observed_tree_sha wr \<noteq> so_tree_sha (ma_source ma) then Inl (BindingMismatch ''observed tree'')
     else Inr ()))"

definition validate_report_outcomes :: "test_shard \<Rightarrow> test_outcome list \<Rightarrow> unit proof_result" where
  "validate_report_outcomes s os =
     result_bind (ensure_count ''worker outcomes'' (length os) 1 max_tests) (\<lambda>_.
     if \<not> strictly_sorted (map oc_test_id os) then Inl (NonCanonical ''worker outcomes'')
     else result_bind (check_all (\<lambda>outcome. validate_identifier ''outcome test id'' (oc_test_id outcome)) os) (\<lambda>_.
       if map oc_test_id os \<noteq> sh_test_ids s then Inl (BindingMismatch ''executed test set'') else Inr ()))"

definition observation_boundary_passed :: "proof_manifest \<Rightarrow> controller_observation \<Rightarrow> bool" where
  "observation_boundary_passed ma ob = (case tr_artifact_class (ma_trust ma) of
     TrustedController \<Rightarrow> ob_execution_boundary ob = tr_execution_boundary (ma_trust ma)
   | UntrustedContributor \<Rightarrow> ob_execution_boundary ob = DisposableGuest \<and> ob_guest_teardown_confirmed ob)"

definition worker_matches :: "authenticated_worker \<Rightarrow> assignment_claims \<Rightarrow> bool" where
  "worker_matches w claims \<longleftrightarrow> wk_host_id w = ac_host_id claims \<and> wk_identity_sha256 w = ac_worker_identity_sha256 claims
     \<and> wk_capabilities w = ac_capabilities claims \<and> wk_session_generation w = ac_session_generation claims"

definition unsigned_receipt ::
  "proof_codec \<Rightarrow> controller_key \<Rightarrow> proof_manifest \<Rightarrow> controller_assignment \<Rightarrow> controller_observation \<Rightarrow> worker_report
   \<Rightarrow> attempt_disposition \<Rightarrow> shard_receipt" where
  "unsigned_receipt cd key ma a ob wr d = (let claims = as_claims a in
     \<lparr>sr_schema_version = proof_schema_version, sr_manifest_digest = ac_manifest_digest claims,
      sr_inventory_digest = ac_inventory_digest claims, sr_plan_digest = ac_plan_digest claims,
      sr_assignment_digest = assignment_digest cd a, sr_disposition_digest = disposition_digest cd d,
      sr_artifact_sha256 = ac_artifact_sha256 claims, sr_shard_id = ac_shard_id claims, sr_attempt = ac_attempt claims,
      sr_fence = ac_fence claims, sr_host_id = ac_host_id claims,
      sr_worker_identity_sha256 = ac_worker_identity_sha256 claims, sr_session_generation = ac_session_generation claims,
      sr_execution_mode = ac_execution_mode claims, sr_execution_boundary = ob_execution_boundary ob,
      sr_outcomes = wr_outcomes wr, sr_outcomes_digest = outcomes_digest cd (wr_outcomes wr), sr_log_sha256 = wr_log_sha256 wr,
      sr_started_at_ms = ob_started_at_ms ob, sr_completed_at_ms = ob_completed_at_ms ob,
      sr_status = (if ob_artifact_verified ob \<and> observation_boundary_passed ma ob \<and> all_passed (wr_outcomes wr)
                   then ReceiptPassed else ReceiptFailed),
      sr_artifact_verified = ob_artifact_verified ob, sr_guest_teardown_confirmed = ob_guest_teardown_confirmed ob,
      sr_controller_key_id = ck_id key, sr_acceptance_authentication = digest_placeholder cd\<rparr>)"

definition accept_worker_report ::
  "proof_codec \<Rightarrow> controller_key \<Rightarrow> proof_context \<Rightarrow> controller_assignment \<Rightarrow> authenticated_worker \<Rightarrow> controller_observation
   \<Rightarrow> worker_report \<Rightarrow> shard_receipt proof_result" where
  "accept_worker_report cd key pf a w ob wr =
     result_bind (context_validate cd pf) (\<lambda>_.
     result_bind (assignment_verify cd key a) (\<lambda>_.
     result_bind (worker_validate w) (\<lambda>_.
     result_bind (validate_assignment_binding cd (pf_manifest pf) (pf_inventory pf) (pf_plan pf) a) (\<lambda>_.
     if \<not> worker_matches w (as_claims a) then Inl AuthenticationFailed
     else result_bind (ok_or (plan_shard (pf_plan pf) (ac_shard_id (as_claims a))) (InvalidField ''shard id'')) (\<lambda>shard.
       result_bind (validate_worker_report_binding cd (pf_manifest pf) a wr) (\<lambda>_.
       result_bind (validate_controller_observation a ob) (\<lambda>_.
       result_bind (validate_report_outcomes shard (wr_outcomes wr)) (\<lambda>_.
       result_bind (executed cd key a ob) (\<lambda>d.
       let r = unsigned_receipt cd key (pf_manifest pf) a ob wr d;
           r = r\<lparr>sr_acceptance_authentication := receipt_authentication cd key r\<rparr>
       in result_bind (validate_structural cd r) (\<lambda>_. Inr r))))))))))"

definition receipt_bound :: "proof_codec \<Rightarrow> proof_manifest \<Rightarrow> test_shard \<Rightarrow> controller_assignment \<Rightarrow> shard_receipt \<Rightarrow> bool" where
  "receipt_bound cd ma s a r \<longleftrightarrow> (let claims = as_claims a in
     sr_manifest_digest r = ac_manifest_digest claims \<and> sr_inventory_digest r = ac_inventory_digest claims
     \<and> sr_plan_digest r = ac_plan_digest claims \<and> sr_assignment_digest r = assignment_digest cd a
     \<and> sr_artifact_sha256 r = ar_payload_sha256 (ma_artifact ma) \<and> sr_shard_id r = ac_shard_id claims
     \<and> sr_attempt r = ac_attempt claims \<and> sr_fence r = ac_fence claims \<and> sr_host_id r = ac_host_id claims
     \<and> sr_worker_identity_sha256 r = ac_worker_identity_sha256 claims
     \<and> sr_session_generation r = ac_session_generation claims \<and> sr_execution_mode r = ac_execution_mode claims
     \<and> sr_execution_boundary r = ac_execution_boundary claims \<and> map oc_test_id (sr_outcomes r) = sh_test_ids s)"

definition validate_receipt_binding ::
  "proof_codec \<Rightarrow> proof_manifest \<Rightarrow> shard_plan \<Rightarrow> controller_assignment \<Rightarrow> shard_receipt \<Rightarrow> unit proof_result" where
  "validate_receipt_binding cd ma plan a r =
     result_bind (ok_or (plan_shard plan (ac_shard_id (as_claims a))) (InvalidField ''shard id'')) (\<lambda>shard.
       if receipt_bound cd ma shard a r then Inr () else Inl (BindingMismatch ''receipt claims''))"

definition validate_receipt_disposition :: "proof_codec \<Rightarrow> attempt_disposition \<Rightarrow> shard_receipt \<Rightarrow> unit proof_result" where
  "validate_receipt_disposition cd d r = (case di_kind d of
     FencedBeforeStart \<Rightarrow> Inl (BindingMismatch ''receipt for unstarted attempt'')
   | Executed started completed boundary teardown \<Rightarrow>
       if sr_disposition_digest r = disposition_digest cd d \<and> sr_started_at_ms r = started
          \<and> sr_completed_at_ms r = completed \<and> sr_execution_boundary r = boundary
          \<and> sr_guest_teardown_confirmed r = teardown
       then Inr () else Inl (BindingMismatch ''receipt disposition''))"

section \<open>The comparison of authenticators\<close>

lemma of_char_word_inject: "(of_char c :: 8 word) = of_char d \<longleftrightarrow> c = d"
proof
  assume eq: "(of_char c :: 8 word) = of_char d"
  have "(word_of_nat (of_char c) :: 8 word) = word_of_nat (of_char d)" using eq by (simp add: of_nat_of_char)
  moreover have "(of_char c :: nat) < 2 ^ 8" "(of_char d :: nat) < 2 ^ 8" by (simp_all add: of_char_def)
  ultimately have "(of_char c :: nat) = of_char d" by (simp add: word_of_nat_eq_iff take_bit_nat_eq_self)
  then show "c = d" by simp
qed simp

lemma word_xor_eq_0_iff: "(a :: 8 word) XOR b = 0 \<longleftrightarrow> a = b"
  by (metis xor.assoc xor.right_neutral xor_self_eq)

lemma word_or_eq_0_iff: "(a :: 8 word) OR b = 0 \<longleftrightarrow> a = 0 \<and> b = 0"
  by (auto simp: bit_eq_iff bit_or_iff)

lemma differences_zero:
  "fold (\<lambda>(l, r) difference. difference OR ((of_char l :: 8 word) XOR of_char r)) ps d = 0
   \<longleftrightarrow> d = 0 \<and> (\<forall>(l, r) \<in> set ps. l = r)"
  by (induction ps arbitrary: d) (auto simp: word_or_eq_0_iff word_xor_eq_0_iff of_char_word_inject)

lemma constant_time_eq_iff [simp]: "constant_time_eq left right \<longleftrightarrow> left = right"
proof -
  have "length left = length right \<Longrightarrow> (\<forall>(l, r) \<in> set (zip left right). l = r) \<longleftrightarrow> left = right"
    by (induction left right rule: list_induct2) auto
  then show ?thesis by (auto simp: constant_time_eq_def differences_zero)
qed

section \<open>What the controller mints passes its own checks\<close>

lemma manifest_validate_plan:
  assumes "manifest_validate cd ma iv plan = Inr ()"
  shows "plan_validate_against cd plan iv = Inr ()" "inventory_validate cd iv = Inr ()"
  using assms by (auto simp: manifest_validate_def plan_digest_def inventory_digest_def result_bind_Inr_iff split: if_splits)

lemma context_validate_ok:
  assumes "context_validate cd pf = Inr ()"
  shows "plan_ok (pf_inventory pf) (pl_shards (pf_plan pf))" "inventory_ok (pf_inventory pf)"
    "inventory_digest cd (pf_inventory pf) = Inr (ma_inventory_digest (pf_manifest pf))"
    "plan_digest cd (pf_plan pf) (pf_inventory pf) = Inr (ma_plan_digest (pf_manifest pf))"
proof -
  note v = assms [unfolded context_validate_def]
  from manifest_validate_plan [OF v] show "plan_ok (pf_inventory pf) (pl_shards (pf_plan pf))" "inventory_ok (pf_inventory pf)"
    by (simp_all add: plan_validate_Inr inventory_validate_Inr)
  from v show "inventory_digest cd (pf_inventory pf) = Inr (ma_inventory_digest (pf_manifest pf))"
    "plan_digest cd (pf_plan pf) (pf_inventory pf) = Inr (ma_plan_digest (pf_manifest pf))"
    by (auto simp: manifest_validate_def result_bind_Inr_iff split: if_splits)
qed

text \<open>The tests of a shard of a valid plan are found in the inventory.\<close>

lemma shard_tests_found:
  assumes "inventory_ok iv" "plan_ok iv ss" "s \<in> set ss"
  obtains ts where "collect_results (map (bt_index (inventory_lookup iv)) (sh_test_ids s)) = Inr ts"
    "set ts = {t \<in> set (iv_tests iv). tc_id t \<in> set (sh_test_ids s)}" "map tc_id ts = sh_test_ids s"
proof -
  have known: "bt_get (inventory_lookup iv) tid \<noteq> None" if "tid \<in> set (sh_test_ids s)" for tid
    using assms(2,3) that by (auto simp: plan_ok_def shard_ok_def)
  define ts where "ts = map (\<lambda>tid. the (bt_get (inventory_lookup iv) tid)) (sh_test_ids s)"
  have get: "bt_get (inventory_lookup iv) tid = Some (the (bt_get (inventory_lookup iv) tid))" if "tid \<in> set (sh_test_ids s)" for tid
    using known [OF that] by simp
  then have "bt_index (inventory_lookup iv) tid = Inr (the (bt_get (inventory_lookup iv) tid))" if "tid \<in> set (sh_test_ids s)" for tid
    using that by (metis bt_index_def ok_or_def option.simps(5))
  then have "collect_results (map (bt_index (inventory_lookup iv)) (sh_test_ids s)) = Inr ts"
    unfolding ts_def by (rule collect_results_map)
  moreover have the_test: "the (bt_get (inventory_lookup iv) tid) \<in> set (iv_tests iv) \<and> tc_id (the (bt_get (inventory_lookup iv) tid)) = tid"
    if "tid \<in> set (sh_test_ids s)" for tid using get [OF that] lookup_get(1) [OF assms(1)] by metis
  then have "map tc_id ts = sh_test_ids s" by (simp add: ts_def map_idI)
  moreover have "set ts = {t \<in> set (iv_tests iv). tc_id t \<in> set (sh_test_ids s)}"
  proof (intro set_eqI iffI)
    fix t assume "t \<in> set ts"
    then obtain tid where "tid \<in> set (sh_test_ids s)" "t = the (bt_get (inventory_lookup iv) tid)" by (auto simp: ts_def)
    with the_test [of tid] show "t \<in> {t \<in> set (iv_tests iv). tc_id t \<in> set (sh_test_ids s)}" by simp
  next
    fix t assume "t \<in> {t \<in> set (iv_tests iv). tc_id t \<in> set (sh_test_ids s)}"
    then have "bt_get (inventory_lookup iv) (tc_id t) = Some t" "tc_id t \<in> set (sh_test_ids s)"
      using lookup_get(1) [OF assms(1), of "tc_id t" t] by auto
    then show "t \<in> set ts" unfolding ts_def by (auto intro!: image_eqI [of _ _ "tc_id t"])
  qed
  ultimately show thesis using that by blast
qed

lemma required_capabilities_found:
  assumes "inventory_ok iv" "plan_ok iv ss" "s \<in> set ss"
  shows "\<exists>required. required_capabilities iv s = Inr required
     \<and> set required = (\<Union>t \<in> {t \<in> set (iv_tests iv). tc_id t \<in> set (sh_test_ids s)}. set (tc_required_capabilities t))"
proof -
  obtain ts where ts: "collect_results (map (bt_index (inventory_lookup iv)) (sh_test_ids s)) = Inr ts"
    "set ts = {t \<in> set (iv_tests iv). tc_id t \<in> set (sh_test_ids s)}"
    by (rule shard_tests_found [OF assms])
  then show ?thesis by (simp add: required_capabilities_def)
qed

text \<open>The bindings of a valid context exist and describe the shards of the plan.\<close>

lemma from_validated_ok:
  assumes "context_validate cd pf = Inr ()"
  obtains b where "from_validated cd pf = Inr b" "length (bn_shards b) = length (pl_shards (pf_plan pf))"
    "manifest_digest cd (pf_manifest pf) (pf_inventory pf) (pf_plan pf) = Inr (bn_manifest_digest b)"
    "inventory_digest cd (pf_inventory pf) = Inr (bn_inventory_digest b)"
    "plan_digest cd (pf_plan pf) (pf_inventory pf) = Inr (bn_plan_digest b)"
    "\<And>i. i < length (pl_shards (pf_plan pf)) \<Longrightarrow> bind_shard cd (pf_inventory pf) (pl_shards (pf_plan pf) ! i) = Inr (bn_shards b ! i)"
proof -
  note ok = context_validate_ok [OF assms]
  note v = manifest_validate_plan [OF assms [unfolded context_validate_def]]
  have "\<exists>x. bind_shard cd (pf_inventory pf) s = Inr x" if "s \<in> set (pl_shards (pf_plan pf))" for s
    using required_capabilities_found [OF ok(2,1) that] by (auto simp: bind_shard_def)
  then obtain f where f: "\<And>s. s \<in> set (pl_shards (pf_plan pf)) \<Longrightarrow> bind_shard cd (pf_inventory pf) s = Inr (f s)" by metis
  have shards: "collect_results (map (bind_shard cd (pf_inventory pf)) (pl_shards (pf_plan pf))) = Inr (map f (pl_shards (pf_plan pf)))"
    by (rule collect_results_map) (rule f)
  have "manifest_digest cd (pf_manifest pf) (pf_inventory pf) (pf_plan pf)
      = Inr (canonical_digest cd ''shipyard.parallel-proof.manifest.v1'' (ManifestValue (pf_manifest pf)))"
    using assms by (simp add: manifest_digest_def context_validate_def)
  moreover have "inventory_digest cd (pf_inventory pf)
      = Inr (canonical_digest cd ''shipyard.parallel-proof.inventory.v1'' (InventoryValue (pf_inventory pf)))"
    using v(2) by (simp add: inventory_digest_def)
  moreover have "plan_digest cd (pf_plan pf) (pf_inventory pf)
      = Inr (canonical_digest cd ''shipyard.parallel-proof.plan.v1'' (PlanValue (pf_plan pf)))"
    using v(1) by (simp add: plan_digest_def)
  ultimately show thesis
    using f shards by (intro that [of "\<lparr>bn_manifest_digest = canonical_digest cd ''shipyard.parallel-proof.manifest.v1'' (ManifestValue (pf_manifest pf)),
            bn_inventory_digest = canonical_digest cd ''shipyard.parallel-proof.inventory.v1'' (InventoryValue (pf_inventory pf)),
            bn_plan_digest = canonical_digest cd ''shipyard.parallel-proof.plan.v1'' (PlanValue (pf_plan pf)),
            bn_shards = map f (pl_shards (pf_plan pf))\<rparr>"]) (simp_all add: from_validated_def)
qed

lemma validate_assignment_binding_Inr:
  assumes "context_validate cd pf = Inr ()" "from_validated cd pf = Inr b"
  shows "validate_assignment_binding cd (pf_manifest pf) (pf_inventory pf) (pf_plan pf) a
     = validate_assignment_binding_cached (pf_manifest pf) b a"
  using assms by (simp add: validate_assignment_binding_def context_validate_def from_validated_def)

lemma assignment_verify_Inr:
  "assignment_verify cd key a = Inr () \<longleftrightarrow> ac_schema_version (as_claims a) = proof_schema_version
     \<and> as_controller_key_id a = ck_id key \<and> validate_identifier ''host id'' (ac_host_id (as_claims a)) = Inr ()
     \<and> length (ac_capabilities (as_claims a)) \<le> max_capabilities
     \<and> validate_sorted_identifiers ''assignment capabilities'' (ac_capabilities (as_claims a)) = Inr ()
     \<and> 0 < ac_attempt (as_claims a) \<and> 0 < ac_fence (as_claims a) \<and> 0 < ac_session_generation (as_claims a)
     \<and> ac_attempt (as_claims a) \<le> max_attempts_per_shard
     \<and> length (pc_json cd (AssignmentValue a)) \<le> max_payload_bytes
     \<and> as_authentication a = assignment_authentication cd key (as_claims a)"
  by (auto simp: assignment_verify_def Let_def result_bind_Inr_iff)

lemma disposition_verify_Inr:
  "disposition_verify cd key a d = Inr () \<longleftrightarrow> di_schema_version d = proof_schema_version
     \<and> assignment_verify cd key a = Inr () \<and> disposition_bound cd key a d \<and> validate_disposition_kind a (di_kind d) = Inr ()
     \<and> length (pc_json cd (DispositionValue d)) \<le> max_payload_bytes
     \<and> di_authentication d = disposition_authentication cd key d"
  by (auto simp: disposition_verify_def result_bind_Inr_iff)

lemma receipt_verify_Inr:
  "receipt_verify cd key r = Inr () \<longleftrightarrow> validate_structural cd r = Inr () \<and> sr_controller_key_id r = ck_id key
     \<and> sr_acceptance_authentication r = receipt_authentication cd key r"
  by (auto simp: receipt_verify_def result_bind_Inr_iff)

lemma validate_assignment_binding_cached_Inr:
  "validate_assignment_binding_cached ma b a = Inr () \<longleftrightarrow> (\<exists>shard. binding_shard b (ac_shard_id (as_claims a)) = Some shard
     \<and> claims_bound ma b shard (as_claims a) \<and> set (sb_required_capabilities shard) \<subseteq> set (ac_capabilities (as_claims a)))"
  by (auto simp: validate_assignment_binding_cached_def Let_def result_bind_Inr_iff ok_or_def split: option.splits)

lemma bind_shard_Inr:
  assumes "bind_shard cd iv s = Inr x"
  shows "sb_digest x = shard_digest cd s" "required_capabilities iv s = Inr (sb_required_capabilities x)"
    "sb_execution_mode x = sh_execution_mode s"
  using assms by (auto simp: bind_shard_def result_bind_Inr_iff)

lemma validate_structural_Inr:
  assumes "validate_structural cd r = Inr ()"
  shows "sr_status r = expected_status r" "sr_started_at_ms r < sr_completed_at_ms r"
  using assms by (auto simp: validate_structural_def result_bind_Inr_iff split: if_splits)

lemma minted_assignment:
  assumes "assignment_mint cd key pf shard_id attempt fence w = Inr a"
  obtains shard required where "context_validate cd pf = Inr ()" "plan_shard (pf_plan pf) shard_id = Some shard"
    "required_capabilities (pf_inventory pf) shard = Inr required" "set required \<subseteq> set (wk_capabilities w)"
    "assignment_verify cd key a = Inr ()" "worker_matches w (as_claims a)"
    "validate_assignment_binding cd (pf_manifest pf) (pf_inventory pf) (pf_plan pf) a = Inr ()"
proof -
  from assms obtain shard required md inv pd where
    v: "context_validate cd pf = Inr ()" and shard: "plan_shard (pf_plan pf) shard_id = Some shard"
    and req: "required_capabilities (pf_inventory pf) shard = Inr required" "set required \<subseteq> set (wk_capabilities w)"
    and dig: "manifest_digest cd (pf_manifest pf) (pf_inventory pf) (pf_plan pf) = Inr md"
      "inventory_digest cd (pf_inventory pf) = Inr inv" "plan_digest cd (pf_plan pf) (pf_inventory pf) = Inr pd"
    and claims: "as_claims a = \<lparr>ac_schema_version = proof_schema_version, ac_manifest_digest = md, ac_inventory_digest = inv,
               ac_plan_digest = pd, ac_artifact_sha256 = ar_payload_sha256 (ma_artifact (pf_manifest pf)),
               ac_shard_id = shard_id, ac_shard_digest = shard_digest cd shard, ac_attempt = attempt, ac_fence = fence,
               ac_host_id = wk_host_id w, ac_worker_identity_sha256 = wk_identity_sha256 w,
               ac_capabilities = wk_capabilities w, ac_session_generation = wk_session_generation w,
               ac_execution_mode = sh_execution_mode shard,
               ac_execution_boundary = tr_execution_boundary (ma_trust (pf_manifest pf))\<rparr>"
    and ver: "assignment_verify cd key a = Inr ()"
    by (auto simp: assignment_mint_def result_bind_Inr_iff ok_or_def Let_def split: option.splits if_splits)
  obtain b where b: "from_validated cd pf = Inr b" "length (bn_shards b) = length (pl_shards (pf_plan pf))"
    "manifest_digest cd (pf_manifest pf) (pf_inventory pf) (pf_plan pf) = Inr (bn_manifest_digest b)"
    "inventory_digest cd (pf_inventory pf) = Inr (bn_inventory_digest b)"
    "plan_digest cd (pf_plan pf) (pf_inventory pf) = Inr (bn_plan_digest b)"
    "\<And>i. i < length (pl_shards (pf_plan pf)) \<Longrightarrow> bind_shard cd (pf_inventory pf) (pl_shards (pf_plan pf) ! i) = Inr (bn_shards b ! i)"
    by (rule from_validated_ok [OF v], rule that)
  from shard have i: "shard_id < length (pl_shards (pf_plan pf))" "shard = pl_shards (pf_plan pf) ! shard_id"
    by (auto simp: plan_shard_def list_get_def split: if_splits)
  have sb: "binding_shard b shard_id = Some (bn_shards b ! shard_id)" using i(1) b(2) by (simp add: binding_shard_def list_get_def)
  have "bind_shard cd (pf_inventory pf) shard = Inr (bn_shards b ! shard_id)" using b(6) [OF i(1)] i(2) by simp
  with req(1) have sbs: "sb_digest (bn_shards b ! shard_id) = shard_digest cd shard"
    "sb_required_capabilities (bn_shards b ! shard_id) = required" "sb_execution_mode (bn_shards b ! shard_id) = sh_execution_mode shard"
    using bind_shard_Inr by fastforce+
  have "validate_assignment_binding_cached (pf_manifest pf) b a = Inr ()"
    unfolding validate_assignment_binding_cached_Inr using sb sbs dig b(3-5) req(2) by (simp add: claims claims_bound_def)
  then have "validate_assignment_binding cd (pf_manifest pf) (pf_inventory pf) (pf_plan pf) a = Inr ()"
    unfolding validate_assignment_binding_Inr [OF v b(1)] .
  moreover have "worker_matches w (as_claims a)" by (simp add: claims worker_matches_def)
  ultimately show thesis using that v shard req ver by blast
qed

text \<open>
  An assignment that the controller mints verifies under its key, is bound to the proof it was
  minted for and to the session of the worker, and the worker has every capability that a test of
  the shard requires.
\<close>

theorem minted_assignment_accepted:
  assumes "assignment_mint cd key pf shard_id attempt fence w = Inr a"
  shows "assignment_verify cd key a = Inr () \<and> worker_matches w (as_claims a)
     \<and> validate_assignment_binding cd (pf_manifest pf) (pf_inventory pf) (pf_plan pf) a = Inr ()
     \<and> (\<exists>shard. plan_shard (pf_plan pf) shard_id = Some shard \<and> (\<forall>t \<in> set (iv_tests (pf_inventory pf)).
          tc_id t \<in> set (sh_test_ids shard) \<longrightarrow> set (tc_required_capabilities t) \<subseteq> set (wk_capabilities w)))"
proof -
  obtain shard required where m: "context_validate cd pf = Inr ()" "plan_shard (pf_plan pf) shard_id = Some shard"
    "required_capabilities (pf_inventory pf) shard = Inr required" "set required \<subseteq> set (wk_capabilities w)"
    "assignment_verify cd key a = Inr ()" "worker_matches w (as_claims a)"
    "validate_assignment_binding cd (pf_manifest pf) (pf_inventory pf) (pf_plan pf) a = Inr ()"
    by (rule minted_assignment [OF assms])
  have "shard \<in> set (pl_shards (pf_plan pf))" using m(2) by (auto simp: plan_shard_def list_get_def split: if_splits)
  from required_capabilities_found [OF context_validate_ok(2,1) [OF m(1)] this] m(3,4)
  have "\<forall>t \<in> set (iv_tests (pf_inventory pf)). tc_id t \<in> set (sh_test_ids shard) \<longrightarrow> set (tc_required_capabilities t) \<subseteq> set (wk_capabilities w)"
    by auto
  with m(2,5,6,7) show ?thesis by blast
qed

lemma disposition_mint_verified:
  assumes "disposition_mint cd key a kind = Inr d"
  shows "disposition_verify cd key a d = Inr ()" "di_kind d = kind"
  using assms by (auto simp: disposition_mint_def Let_def result_bind_Inr_iff)

text \<open>Every execution the controller closes is bound to its assignment, and a guest was torn down.\<close>

lemma executed_disposition:
  assumes "executed cd key a ob = Inr d"
  shows "disposition_verify cd key a d = Inr ()"
    "di_kind d = Executed (ob_started_at_ms ob) (ob_completed_at_ms ob) (ob_execution_boundary ob) (ob_guest_teardown_confirmed ob)"
    "ob_execution_boundary ob = DisposableGuest \<Longrightarrow> ob_guest_teardown_confirmed ob"
    "ob_execution_boundary ob = ac_execution_boundary (as_claims a)"
  using assms disposition_mint_verified
  by (auto simp: executed_def validate_controller_observation_def result_bind_Inr_iff split: if_splits)

lemma manifest_trust:
  assumes "manifest_validate cd ma iv plan = Inr ()" "tr_artifact_class (ma_trust ma) = UntrustedContributor"
  shows "tr_execution_boundary (ma_trust ma) = DisposableGuest"
  using assms by (auto simp: manifest_validate_def validate_trust_def result_bind_Inr_iff split: if_splits)

text \<open>
  A receipt that the controller issues for a worker's report passes every check the aggregate makes
  of it, against the disposition that closes the same execution. It is a passed receipt exactly when
  the artifact was verified and every test of the shard is reported as passed.
\<close>

theorem accepted_report_receipt:
  assumes "accept_worker_report cd key pf a w ob wr = Inr r"
  shows "receipt_verify cd key r = Inr () \<and> validate_receipt_binding cd (pf_manifest pf) (pf_plan pf) a r = Inr ()
     \<and> (\<exists>d. executed cd key a ob = Inr d \<and> disposition_verify cd key a d = Inr () \<and> validate_receipt_disposition cd d r = Inr ())
     \<and> (sr_status r = ReceiptPassed \<longleftrightarrow> ob_artifact_verified ob
          \<and> (\<exists>shard. plan_shard (pf_plan pf) (ac_shard_id (as_claims a)) = Some shard
               \<and> map oc_test_id (wr_outcomes wr) = sh_test_ids shard \<and> (\<forall>outcome \<in> set (wr_outcomes wr). oc_status outcome = TestPassed)))"
proof -
  define u where "u d = unsigned_receipt cd key (pf_manifest pf) a ob wr d" for d
  from assms obtain shard d where v: "context_validate cd pf = Inr ()"
    and bind: "validate_assignment_binding cd (pf_manifest pf) (pf_inventory pf) (pf_plan pf) a = Inr ()"
    and shard: "plan_shard (pf_plan pf) (ac_shard_id (as_claims a)) = Some shard"
    and out: "validate_report_outcomes shard (wr_outcomes wr) = Inr ()" and d: "executed cd key a ob = Inr d"
    and r: "r = (u d)\<lparr>sr_acceptance_authentication := receipt_authentication cd key (u d)\<rparr>"
    and str: "validate_structural cd r = Inr ()"
    unfolding u_def by (auto simp: accept_worker_report_def result_bind_Inr_iff ok_or_def Let_def split: option.splits if_splits)
  note e = executed_disposition [OF d]
  obtain b where "from_validated cd pf = Inr b" by (rule from_validated_ok [OF v])
  with bind have bound: "ac_artifact_sha256 (as_claims a) = ar_payload_sha256 (ma_artifact (pf_manifest pf))"
    "ac_execution_boundary (as_claims a) = tr_execution_boundary (ma_trust (pf_manifest pf))"
    by (auto simp: validate_assignment_binding_Inr [OF v] validate_assignment_binding_cached_Inr claims_bound_def)
  have ids: "map oc_test_id (wr_outcomes wr) = sh_test_ids shard"
    using out by (auto simp: validate_report_outcomes_def result_bind_Inr_iff split: if_splits)
  have "receipt_verify cd key r = Inr ()"
    unfolding receipt_verify_Inr using str by (simp add: r u_def unsigned_receipt_def Let_def receipt_authentication_def)
  moreover have "validate_receipt_binding cd (pf_manifest pf) (pf_plan pf) a r = Inr ()"
    using shard ids bound(1) e(4)
    by (simp add: validate_receipt_binding_def ok_or_def receipt_bound_def r u_def unsigned_receipt_def Let_def)
  moreover have "validate_receipt_disposition cd d r = Inr ()"
    using e(2) by (simp add: validate_receipt_disposition_def r u_def unsigned_receipt_def Let_def)
  moreover have "observation_boundary_passed (pf_manifest pf) ob"
    using e(3,4) bound(2) manifest_trust [OF v [unfolded context_validate_def]]
    by (auto simp: observation_boundary_passed_def split: artifact_trust_class.splits)
  then have "sr_status r = ReceiptPassed \<longleftrightarrow> ob_artifact_verified ob \<and> (\<forall>outcome \<in> set (wr_outcomes wr). oc_status outcome = TestPassed)"
    by (simp add: r u_def unsigned_receipt_def Let_def all_passed_def list_all_iff)
  ultimately show ?thesis using d e(1) shard ids by auto
qed

text \<open>A bound assignment has every capability that a test of its shard requires.\<close>

lemma capabilities_held:
  assumes v: "context_validate cd pf = Inr ()" "from_validated cd pf = Inr b"
    and a: "validate_assignment_binding_cached (pf_manifest pf) b a = Inr () \<and> ac_shard_id (as_claims a) = sh_id s"
    and s: "s \<in> set (pl_shards (pf_plan pf))" "tc_id t \<in> set (sh_test_ids s)" "t \<in> set (iv_tests (pf_inventory pf))"
  shows "set (tc_required_capabilities t) \<subseteq> set (ac_capabilities (as_claims a))"
proof -
  note ok = context_validate_ok(2,1) [OF v(1)]
  obtain b' where b: "from_validated cd pf = Inr b'" "length (bn_shards b') = length (pl_shards (pf_plan pf))"
    "manifest_digest cd (pf_manifest pf) (pf_inventory pf) (pf_plan pf) = Inr (bn_manifest_digest b')"
    "inventory_digest cd (pf_inventory pf) = Inr (bn_inventory_digest b')"
    "plan_digest cd (pf_plan pf) (pf_inventory pf) = Inr (bn_plan_digest b')"
    "\<And>i. i < length (pl_shards (pf_plan pf)) \<Longrightarrow> bind_shard cd (pf_inventory pf) (pl_shards (pf_plan pf) ! i) = Inr (bn_shards b' ! i)"
    by (rule from_validated_ok [OF v(1)], rule that)
  have bb: "b' = b" using b(1) v(2) by simp
  from s(1) obtain i where i: "i < length (pl_shards (pf_plan pf))" "s = pl_shards (pf_plan pf) ! i" by (auto simp: in_set_conv_nth)
  have "map sh_id (pl_shards (pf_plan pf)) = [0..<length (pl_shards (pf_plan pf))]" using ok(2) by (simp add: plan_ok_def)
  from arg_cong [OF this, of "\<lambda>xs. xs ! i"] i have "sh_id s = i" by simp
  with a i(1) b(2) bb have "set (sb_required_capabilities (bn_shards b ! i)) \<subseteq> set (ac_capabilities (as_claims a))"
    by (auto simp: validate_assignment_binding_cached_Inr binding_shard_def list_get_def)
  moreover have "required_capabilities (pf_inventory pf) s = Inr (sb_required_capabilities (bn_shards b ! i))"
    using bind_shard_Inr(2) [OF b(6) [OF i(1)]] i(2) bb by simp
  with required_capabilities_found [OF ok s(1)] s(2,3) have "set (tc_required_capabilities t) \<subseteq> set (sb_required_capabilities (bn_shards b ! i))"
    by auto
  ultimately show ?thesis by blast
qed

section \<open>A sample proof\<close>

definition sample_source :: source_identity where
  "sample_source = \<lparr>so_repository_id = 1, so_repository = ''o/r'', so_subject = PullRequest 7,
     so_head_sha = replicate 40 (CHR ''a''), so_tree_sha = replicate 40 (CHR ''b'')\<rparr>"

definition sample_manifest :: proof_manifest where
  "sample_manifest = \<lparr>ma_schema_version = 1, ma_shadow_only = True, ma_source = sample_source,
     ma_build = \<lparr>bu_contract_sha256 = ''c'', bu_toolchain_sha256 = ''t'', bu_target_triple = ''x'', bu_profile = ''p''\<rparr>,
     ma_artifact = \<lparr>ar_source_tree_sha = replicate 40 (CHR ''b''), ar_build_contract_sha256 = ''c'', ar_payload_sha256 = ''y'',
       ar_layout_sha256 = ''l'', ar_size_bytes = 1\<rparr>,
     ma_trust = \<lparr>tr_producer_identity_sha256 = ''p'', tr_image_sha256 = ''i'', tr_policy_sha256 = ''q'',
       tr_artifact_class = TrustedController, tr_execution_boundary = TrustedHost, tr_network_enabled = True,
       tr_writable_host_mounts = False\<rparr>,
     ma_inventory_digest = pl_inventory_digest sample_plan,
     ma_plan_digest = canonical_digest plan_codec ''shipyard.parallel-proof.plan.v1'' (PlanValue sample_plan)\<rparr>"

definition sample_context :: proof_context where
  "sample_context = \<lparr>pf_manifest = sample_manifest, pf_inventory = plan_sample, pf_plan = sample_plan\<rparr>"

lemma sample_fields_valid:
  "validate_source (ma_source sample_manifest) = Inr ()" "validate_build (ma_build sample_manifest) = Inr ()"
  "validate_artifact (ma_artifact sample_manifest) = Inr ()" "validate_trust (ma_trust sample_manifest) = Inr ()"
  by code_simp+

lemma sample_context_valid: "context_validate plan_codec sample_context = Inr ()"
proof -
  have "ma_schema_version sample_manifest = proof_schema_version" "ma_shadow_only sample_manifest"
    "ar_source_tree_sha (ma_artifact sample_manifest) = so_tree_sha (ma_source sample_manifest)"
    "ar_build_contract_sha256 (ma_artifact sample_manifest) = bu_contract_sha256 (ma_build sample_manifest)"
    "ma_inventory_digest sample_manifest = pl_inventory_digest sample_plan"
    "ma_plan_digest sample_manifest = canonical_digest plan_codec ''shipyard.parallel-proof.plan.v1'' (PlanValue sample_plan)"
    by (simp_all add: sample_manifest_def sample_source_def proof_schema_version_def)
  then show ?thesis using sample_fields_valid plan_sample_digest sample_plan_valid
    by (simp add: context_validate_def sample_context_def manifest_validate_def plan_digest_def validate_version_def)
qed

definition sample_key :: controller_key where
  "sample_key = \<lparr>ck_id = ''k'', ck_secret = replicate 32 (CHR ''s'')\<rparr>"

definition sample_worker :: authenticated_worker where
  "sample_worker = \<lparr>wk_host_id = ''h'', wk_identity_sha256 = ''w'', wk_capabilities = [], wk_session_generation = 1\<rparr>"

definition sample_claims :: "nat \<Rightarrow> assignment_claims" where
  "sample_claims k = \<lparr>ac_schema_version = 1,
     ac_manifest_digest = canonical_digest plan_codec ''shipyard.parallel-proof.manifest.v1'' (ManifestValue sample_manifest),
     ac_inventory_digest = pl_inventory_digest sample_plan,
     ac_plan_digest = canonical_digest plan_codec ''shipyard.parallel-proof.plan.v1'' (PlanValue sample_plan),
     ac_artifact_sha256 = ''y'', ac_shard_id = k, ac_shard_digest = shard_digest plan_codec (pl_shards sample_plan ! k),
     ac_attempt = 1, ac_fence = Suc k, ac_host_id = ''h'', ac_worker_identity_sha256 = ''w'', ac_capabilities = [],
     ac_session_generation = 1, ac_execution_mode = sh_execution_mode (pl_shards sample_plan ! k),
     ac_execution_boundary = TrustedHost\<rparr>"

definition sample_assignment :: "nat \<Rightarrow> controller_assignment" where
  "sample_assignment k = \<lparr>as_claims = sample_claims k, as_controller_key_id = ''k'',
     as_authentication = assignment_authentication plan_codec sample_key (sample_claims k)\<rparr>"

lemma sample_bound: "length (pc_json plan_codec v) \<le> max_payload_bytes"
  by (simp add: plan_codec_def max_payload_bytes_def)

lemma sample_host: "validate_identifier ''host id'' ''h'' = Inr ()"
  by code_simp

lemma sample_capabilities: "validate_sorted_identifiers f [] = Inr ()"
  by (simp add: validate_sorted_identifiers_def)

lemma sample_worker_valid: "worker_validate sample_worker = Inr ()"
  by (simp add: worker_validate_def sample_worker_def sample_host sample_capabilities ensure_count_def)

lemma sample_assignment_verified: "assignment_verify plan_codec sample_key (sample_assignment k) = Inr ()"
  unfolding assignment_verify_Inr
  by (simp add: sample_assignment_def sample_claims_def sample_key_def sample_bound sample_host sample_capabilities
      proof_schema_version_def max_capabilities_def max_attempts_per_shard_def)

lemma sample_required: "k < 3 \<Longrightarrow> required_capabilities plan_sample (pl_shards sample_plan ! k) = Inr []"
proof -
  have "\<forall>s \<in> set (pl_shards sample_plan). required_capabilities plan_sample s = Inr []" by code_simp
  moreover have "length (pl_shards sample_plan) = 3" by (simp add: sample_plan_def)
  ultimately show "k < 3 \<Longrightarrow> required_capabilities plan_sample (pl_shards sample_plan ! k) = Inr []" by simp
qed

lemma sample_digests:
  "manifest_digest plan_codec sample_manifest plan_sample sample_plan
     = Inr (canonical_digest plan_codec ''shipyard.parallel-proof.manifest.v1'' (ManifestValue sample_manifest))"
  "plan_digest plan_codec sample_plan plan_sample
     = Inr (canonical_digest plan_codec ''shipyard.parallel-proof.plan.v1'' (PlanValue sample_plan))"
  using sample_context_valid sample_plan_valid by (simp_all add: manifest_digest_def plan_digest_def context_validate_def sample_context_def)

lemma sample_minted:
  assumes "k < 3"
  shows "assignment_mint plan_codec sample_key sample_context k 1 (Suc k) sample_worker = Inr (sample_assignment k)"
proof -
  have "plan_shard sample_plan k = Some (pl_shards sample_plan ! k)" using assms by (simp add: plan_shard_def list_get_def sample_plan_def)
  moreover have "ar_payload_sha256 (ma_artifact sample_manifest) = ''y''" "tr_execution_boundary (ma_trust sample_manifest) = TrustedHost"
    by (simp_all add: sample_manifest_def)
  ultimately show ?thesis
    using sample_context_valid sample_worker_valid sample_required [OF assms] sample_digests plan_sample_digest sample_assignment_verified [of k]
    by (simp add: assignment_mint_def sample_context_def ok_or_def sample_worker_def sample_assignment_def sample_claims_def
        sample_key_def Let_def proof_schema_version_def)
qed

theorem minted_assignment_accepted_witness:
  "assignment_verify plan_codec sample_key (sample_assignment 1) = Inr ()
   \<and> validate_assignment_binding plan_codec sample_manifest plan_sample sample_plan (sample_assignment 1) = Inr ()"
proof -
  have "(1 :: nat) < 3" by simp
  from minted_assignment_accepted [OF sample_minted [OF this]] show ?thesis by (simp add: sample_context_def)
qed

lemma sample_binding:
  assumes "k < 3"
  shows "validate_assignment_binding plan_codec sample_manifest plan_sample sample_plan (sample_assignment k) = Inr ()"
  using minted_assignment [OF sample_minted [OF assms]] by (auto simp: sample_context_def)

definition sample_observation :: "nat \<Rightarrow> controller_observation" where
  "sample_observation k = \<lparr>ob_started_at_ms = 10 * k, ob_completed_at_ms = 10 * k + 5, ob_artifact_verified = True,
     ob_execution_boundary = TrustedHost, ob_guest_teardown_confirmed = False\<rparr>"

definition sample_outcomes :: "nat \<Rightarrow> test_outcome list" where
  "sample_outcomes k = map (\<lambda>tid. \<lparr>oc_test_id = tid, oc_status = TestPassed, oc_duration_ms = 1\<rparr>) (sh_test_ids (pl_shards sample_plan ! k))"

definition sample_report :: "nat \<Rightarrow> worker_report" where
  "sample_report k = \<lparr>wr_schema_version = 1, wr_assignment_digest = assignment_digest plan_codec (sample_assignment k),
     wr_observed_artifact_sha256 = ''y'', wr_observed_build_contract_sha256 = ''c'',
     wr_observed_head_sha = replicate 40 (CHR ''a''), wr_observed_tree_sha = replicate 40 (CHR ''b''),
     wr_outcomes = sample_outcomes k, wr_log_sha256 = ''l''\<rparr>"

definition sample_open_disposition :: "nat \<Rightarrow> attempt_disposition" where
  "sample_open_disposition k = \<lparr>di_schema_version = 1, di_manifest_digest = ac_manifest_digest (sample_claims k),
     di_assignment_digest = assignment_digest plan_codec (sample_assignment k), di_shard_id = k, di_attempt = 1, di_fence = Suc k,
     di_kind = Executed (10 * k) (10 * k + 5) TrustedHost False, di_controller_key_id = ''k'',
     di_authentication = digest_placeholder plan_codec\<rparr>"

definition sample_disposition :: "nat \<Rightarrow> attempt_disposition" where
  "sample_disposition k = (sample_open_disposition k)\<lparr>di_authentication :=
     disposition_authentication plan_codec sample_key (sample_open_disposition k)\<rparr>"

lemma sample_disposition_verified: "disposition_verify plan_codec sample_key (sample_assignment k) (sample_disposition k) = Inr ()"
  unfolding disposition_verify_Inr using sample_assignment_verified [of k]
  by (simp add: sample_disposition_def sample_open_disposition_def disposition_bound_def sample_bound validate_disposition_kind_def
      sample_assignment_def sample_claims_def sample_key_def proof_schema_version_def disposition_authentication_def)

lemma sample_executed: "executed plan_codec sample_key (sample_assignment k) (sample_observation k) = Inr (sample_disposition k)"
proof -
  have "validate_controller_observation (sample_assignment k) (sample_observation k) = Inr ()"
    by (simp add: validate_controller_observation_def sample_observation_def sample_assignment_def sample_claims_def)
  moreover have "disposition_mint plan_codec sample_key (sample_assignment k) (Executed (10 * k) (10 * k + 5) TrustedHost False)
      = Inr (sample_disposition k)"
    using sample_disposition_verified [of k]
    by (simp add: disposition_mint_def Let_def sample_disposition_def sample_open_disposition_def sample_assignment_def sample_claims_def
        sample_key_def proof_schema_version_def)
  ultimately show ?thesis using sample_assignment_verified [of k] by (simp add: executed_def sample_observation_def)
qed

definition sample_receipt :: "nat \<Rightarrow> shard_receipt" where
  "sample_receipt k = (let r = unsigned_receipt plan_codec sample_key sample_manifest (sample_assignment k) (sample_observation k)
       (sample_report k) (sample_disposition k)
     in r\<lparr>sr_acceptance_authentication := receipt_authentication plan_codec sample_key r\<rparr>)"

lemma sample_outcomes_valid:
  assumes "k < 3"
  shows "map oc_test_id (sample_outcomes k) = sh_test_ids (pl_shards sample_plan ! k)"
    "strictly_sorted (sh_test_ids (pl_shards sample_plan ! k))" "1 \<le> length (sample_outcomes k)" "length (sample_outcomes k) \<le> max_tests"
    "check_all (\<lambda>outcome. validate_identifier ''outcome test id'' (oc_test_id outcome)) (sample_outcomes k) = Inr ()"
    "all_passed (sample_outcomes k)"
proof -
  have "\<forall>s \<in> set (pl_shards sample_plan). strictly_sorted (sh_test_ids s) \<and> 1 \<le> length (sh_test_ids s) \<and> length (sh_test_ids s) \<le> 4
      \<and> check_all (validate_identifier ''outcome test id'') (sh_test_ids s) = Inr ()" by code_simp
  moreover have "length (pl_shards sample_plan) = 3" by (simp add: sample_plan_def)
  ultimately have s: "strictly_sorted (sh_test_ids (pl_shards sample_plan ! k))" "1 \<le> length (sh_test_ids (pl_shards sample_plan ! k))"
    "length (sh_test_ids (pl_shards sample_plan ! k)) \<le> 4"
    "check_all (validate_identifier ''outcome test id'') (sh_test_ids (pl_shards sample_plan ! k)) = Inr ()" using assms by auto
  show "strictly_sorted (sh_test_ids (pl_shards sample_plan ! k))" by (rule s(1))
  show "map oc_test_id (sample_outcomes k) = sh_test_ids (pl_shards sample_plan ! k)" "1 \<le> length (sample_outcomes k)"
    "length (sample_outcomes k) \<le> max_tests" "all_passed (sample_outcomes k)"
    using s(2,3) by (simp_all add: sample_outcomes_def comp_def max_tests_def all_passed_def list_all_iff)
  show "check_all (\<lambda>outcome. validate_identifier ''outcome test id'' (oc_test_id outcome)) (sample_outcomes k) = Inr ()"
    using s(4) by (simp add: sample_outcomes_def)
qed

lemma sample_receipt_structural:
  assumes "k < 3"
  shows "validate_structural plan_codec (sample_receipt k) = Inr ()" "sr_status (sample_receipt k) = ReceiptPassed"
proof -
  note o = sample_outcomes_valid [OF assms]
  have passed: "observation_boundary_passed sample_manifest (sample_observation k)"
    by (simp add: observation_boundary_passed_def sample_manifest_def sample_observation_def)
  then show "sr_status (sample_receipt k) = ReceiptPassed"
    using o(6) by (simp add: sample_receipt_def Let_def unsigned_receipt_def sample_report_def sample_observation_def)
  show "validate_structural plan_codec (sample_receipt k) = Inr ()"
    using o passed sample_host sample_bound
    by (simp add: validate_structural_def result_bind_Inr_iff sample_receipt_def Let_def unsigned_receipt_def sample_report_def
        sample_observation_def sample_assignment_def sample_claims_def expected_status_def proof_schema_version_def)
qed

lemma sample_accepted:
  assumes "k < 3"
  shows "accept_worker_report plan_codec sample_key sample_context (sample_assignment k) sample_worker (sample_observation k) (sample_report k)
    = Inr (sample_receipt k)"
proof -
  note o = sample_outcomes_valid [OF assms]
  have shard: "plan_shard sample_plan k = Some (pl_shards sample_plan ! k)" using assms by (simp add: plan_shard_def list_get_def sample_plan_def)
  have ids: "ac_shard_id (as_claims (sample_assignment k)) = k" by (simp add: sample_assignment_def sample_claims_def)
  have "worker_matches sample_worker (as_claims (sample_assignment k))"
    by (simp add: worker_matches_def sample_worker_def sample_assignment_def sample_claims_def)
  moreover have "validate_worker_report_binding plan_codec sample_manifest (sample_assignment k) (sample_report k) = Inr ()"
    by (simp add: validate_worker_report_binding_def result_bind_Inr_iff sample_bound sample_report_def sample_manifest_def sample_source_def proof_schema_version_def)
  moreover have "validate_controller_observation (sample_assignment k) (sample_observation k) = Inr ()"
    by (simp add: validate_controller_observation_def sample_observation_def sample_assignment_def sample_claims_def)
  moreover have "validate_report_outcomes (pl_shards sample_plan ! k) (wr_outcomes (sample_report k)) = Inr ()"
    using o by (simp add: validate_report_outcomes_def result_bind_Inr_iff sample_report_def)
  ultimately show ?thesis
    using sample_context_valid sample_assignment_verified sample_worker_valid sample_binding [OF assms] shard sample_executed
      sample_receipt_structural(1) [OF assms]
    by (simp add: accept_worker_report_def sample_context_def ids ok_or_def sample_receipt_def Let_def)
qed

theorem accepted_report_receipt_witness:
  "receipt_verify plan_codec sample_key (sample_receipt 1) = Inr () \<and> sr_status (sample_receipt 1) = ReceiptPassed"
proof -
  have k: "(1 :: nat) < 3" by simp
  from accepted_report_receipt [OF sample_accepted [OF k]] sample_receipt_structural(2) [OF k] show ?thesis by simp
qed

end
