(* ===== verification/Shadow_Aggregate.thy ===== *)
theory Shadow_Aggregate
  imports Shadow_Proof
begin

text \<open>
  The aggregation of a sharded proof, \<open>aggregate_shadow_proof\<close> of \<open>src/src/parallel_proof.rs\<close>: the
  chains of attempts, the indexes of dispositions and receipts, the four overlap checks over the
  executions the controller observed and the status.

  The lemmas show that the overlap checks accept exactly the executions of which no two conflict,
  and what a passed aggregate guarantees of every test.
\<close>

section \<open>Attempt chains\<close>

definition validate_aggregate_input_bounds ::
  "proof_codec \<Rightarrow> nat \<Rightarrow> controller_assignment list \<Rightarrow> attempt_disposition list \<Rightarrow> shard_receipt list \<Rightarrow> unit proof_result" where
  "validate_aggregate_input_bounds cd shard_count as ds rs =
     result_bind (ensure_count ''assignments'' (length as) shard_count max_attempt_records) (\<lambda>_.
     result_bind (ensure_count ''aggregate attempt records'' (length as + length ds + length rs) (length as) max_attempt_records) (\<lambda>_.
       ensure_serialized_bound cd ''aggregate input corpus bytes'' (CorpusValue as ds rs)))"

type_synonym attempt_map = "(nat \<times> controller_assignment) list"

fun group_attempts ::
  "proof_codec \<Rightarrow> controller_key \<Rightarrow> proof_manifest \<Rightarrow> proof_bindings \<Rightarrow> controller_assignment list \<Rightarrow> u64 set
   \<Rightarrow> (nat \<times> attempt_map) list \<Rightarrow> (nat \<times> attempt_map) list proof_result" where
  "group_attempts cd key ma b [] fences by_shard = Inr by_shard"
| "group_attempts cd key ma b (a # as) fences by_shard = (let claims = as_claims a in
     result_bind (assignment_verify cd key a) (\<lambda>_.
     result_bind (validate_assignment_binding_cached ma b a) (\<lambda>_.
     if ac_fence claims \<in> fences
     then Inl (InvalidAttemptSequence (''duplicate fence '' @ show_nat (ac_fence claims)))
     else let attempts = unwrap_or (bt_get by_shard (ac_shard_id claims)) [] in
       if is_some_and (bt_get attempts (ac_attempt claims)) (\<lambda>previous. previous \<noteq> a)
       then Inl (ImmutableConflict (''assignment '' @ show_nat (ac_shard_id claims) @ '':'' @ show_nat (ac_attempt claims)))
       else group_attempts cd key ma b as (insert (ac_fence claims) fences)
              (bt_insert (ac_shard_id claims) (bt_insert (ac_attempt claims) a attempts) by_shard))))"

fun check_chain :: "nat \<Rightarrow> nat \<Rightarrow> u64 \<Rightarrow> attempt_map \<Rightarrow> unit proof_result" where
  "check_chain shard index previous_fence [] = Inr ()"
| "check_chain shard index previous_fence ((attempt, a) # attempts) =
     (if attempt \<noteq> index + 1 \<or> ac_fence (as_claims a) \<le> previous_fence
      then Inl (InvalidAttemptSequence (''shard '' @ show_nat shard @ '' must have contiguous attempts and increasing fences''))
      else check_chain shard (index + 1) (ac_fence (as_claims a)) attempts)"

fun active_attempts ::
  "(nat \<times> attempt_map) list \<Rightarrow> (nat \<times> controller_assignment) list \<Rightarrow> (nat \<times> controller_assignment) list proof_result" where
  "active_attempts [] active = Inr active"
| "active_attempts ((shard, attempts) # rest) active =
     result_bind (check_chain shard 0 0 attempts) (\<lambda>_.
     if attempts = [] then Inl (InvalidAttemptSequence (''shard '' @ show_nat shard @ '' has no assignment''))
     else active_attempts rest (bt_insert shard (snd (last attempts)) active))"

definition validate_attempt_chains ::
  "proof_codec \<Rightarrow> controller_key \<Rightarrow> proof_manifest \<Rightarrow> proof_bindings \<Rightarrow> controller_assignment list
   \<Rightarrow> (nat \<times> controller_assignment) list proof_result" where
  "validate_attempt_chains cd key ma b as =
     result_bind (group_attempts cd key ma b as {} []) (\<lambda>by_shard. active_attempts by_shard [])"

section \<open>Indexes\<close>

type_synonym attempt_id = "nat \<times> nat"

definition show_attempt :: "attempt_id \<Rightarrow> string" where
  "show_attempt k = show_nat (fst k) @ '':'' @ show_nat (snd k)"

fun index_dispositions ::
  "proof_codec \<Rightarrow> controller_key \<Rightarrow> (attempt_id \<times> controller_assignment) list \<Rightarrow> attempt_disposition list
   \<Rightarrow> (attempt_id \<times> attempt_disposition) list \<Rightarrow> (attempt_id \<times> attempt_disposition) list proof_result" where
  "index_dispositions cd key assignments [] indexed = Inr indexed"
| "index_dispositions cd key assignments (d # ds) indexed =
     (let k = (di_shard_id d, di_attempt d) in
      case bt_get assignments k of
        None \<Rightarrow> Inl (ImmutableConflict (''unauthorized disposition '' @ show_attempt k))
      | Some a \<Rightarrow> result_bind (disposition_verify cd key a d) (\<lambda>_.
          if is_some_and (bt_get indexed k) (\<lambda>previous. previous \<noteq> d)
          then Inl (ImmutableConflict (''attempt disposition '' @ show_attempt k))
          else index_dispositions cd key assignments ds (bt_insert k d indexed)))"

fun index_receipts ::
  "proof_codec \<Rightarrow> controller_key \<Rightarrow> proof_context \<Rightarrow> (attempt_id \<times> controller_assignment) list
   \<Rightarrow> (attempt_id \<times> attempt_disposition) list \<Rightarrow> shard_receipt list
   \<Rightarrow> (attempt_id \<times> shard_receipt) list \<Rightarrow> (attempt_id \<times> shard_receipt) list proof_result" where
  "index_receipts cd key pf assignments dispositions [] indexed = Inr indexed"
| "index_receipts cd key pf assignments dispositions (r # rs) indexed =
     result_bind (receipt_verify cd key r) (\<lambda>_.
     let k = (sr_shard_id r, sr_attempt r) in
     case bt_get assignments k of
       None \<Rightarrow> Inl (ImmutableConflict (''unauthorized receipt '' @ show_attempt k))
     | Some a \<Rightarrow> result_bind (validate_receipt_binding cd (pf_manifest pf) (pf_plan pf) a r) (\<lambda>_.
         result_bind (ok_or (bt_get dispositions k) (MissingRecord (''attempt disposition '' @ show_attempt k))) (\<lambda>d.
         result_bind (validate_receipt_disposition cd d r) (\<lambda>_.
         if is_some_and (bt_get indexed k) (\<lambda>previous. previous \<noteq> r)
         then Inl (ImmutableConflict (''receipt '' @ show_attempt k))
         else index_receipts cd key pf assignments dispositions rs (bt_insert k r indexed)))))"

section \<open>Overlap checks\<close>

record observed_execution =
  oe_shard_id :: nat
  oe_execution_mode :: execution_mode
  oe_host_id :: string
  oe_started_at_ms :: u64
  oe_completed_at_ms :: u64

definition observed_execution_of :: "controller_assignment \<Rightarrow> attempt_disposition \<Rightarrow> observed_execution option" where
  "observed_execution_of a d = (case di_kind d of
     FencedBeforeStart \<Rightarrow> None
   | Executed started completed boundary teardown \<Rightarrow>
       Some \<lparr>oe_shard_id = ac_shard_id (as_claims a), oe_execution_mode = ac_execution_mode (as_claims a),
             oe_host_id = ac_host_id (as_claims a), oe_started_at_ms = started, oe_completed_at_ms = completed\<rparr>)"

definition still_running :: "observed_execution \<Rightarrow> observed_execution \<Rightarrow> bool" where
  "still_running e previous = (oe_completed_at_ms previous > oe_started_at_ms e)"

text \<open>The execution that ends last so far.\<close>

definition keep_furthest :: "observed_execution \<Rightarrow> observed_execution option \<Rightarrow> observed_execution option" where
  "keep_furthest e furthest = (case furthest of
     None \<Rightarrow> Some e
   | Some previous \<Rightarrow> if oe_completed_at_ms e > oe_completed_at_ms previous then Some e else furthest)"

fun same_shard_sweep :: "nat option \<Rightarrow> observed_execution option \<Rightarrow> observed_execution list \<Rightarrow> unit proof_result" where
  "same_shard_sweep current furthest [] = Inr ()"
| "same_shard_sweep current furthest (e # es) =
     (let furthest' = (if current \<noteq> Some (oe_shard_id e) then None else furthest) in
      case option_filter (still_running e) furthest' of
        Some previous \<Rightarrow> Inl (TopologyViolation (''shard '' @ show_nat (oe_shard_id e) @ '' attempts overlapped intervals ending at ''
          @ show_nat (oe_completed_at_ms previous) @ '' and starting at '' @ show_nat (oe_started_at_ms e)))
      | None \<Rightarrow> same_shard_sweep (Some (oe_shard_id e)) (keep_furthest e furthest') es)"

definition validate_same_shard_overlap :: "observed_execution list \<Rightarrow> unit proof_result" where
  "validate_same_shard_overlap es = same_shard_sweep None None
     (sort_key (\<lambda>e. (oe_shard_id e, oe_started_at_ms e, oe_completed_at_ms e)) es)"

fun exclusive_sweep ::
  "observed_execution option \<Rightarrow> observed_execution option \<Rightarrow> observed_execution list \<Rightarrow> unit proof_result" where
  "exclusive_sweep any exclusive [] = Inr ()"
| "exclusive_sweep any exclusive (e # es) =
     (case option_filter (still_running e) (if oe_execution_mode e = FleetExclusive then any else exclusive) of
        Some previous \<Rightarrow> Inl (TopologyViolation (''fleet-exclusive shard overlapped '' @ show_nat (oe_shard_id previous)
          @ '' and '' @ show_nat (oe_shard_id e)))
      | None \<Rightarrow> exclusive_sweep (keep_furthest e any)
          (if oe_execution_mode e = FleetExclusive then keep_furthest e exclusive else exclusive) es)"

definition validate_fleet_exclusive_overlap :: "observed_execution list \<Rightarrow> unit proof_result" where
  "validate_fleet_exclusive_overlap es = exclusive_sweep None None es"

type_synonym lock_table = "(string \<times> observed_execution) list"

fun lock_step :: "observed_execution \<Rightarrow> string list \<Rightarrow> lock_table \<Rightarrow> lock_table proof_result" where
  "lock_step e [] furthest = Inr furthest"
| "lock_step e (lock # locks) furthest =
     (case option_filter (still_running e) (bt_get furthest lock) of
        Some previous \<Rightarrow> Inl (TopologyViolation (''resource lock '' @ lock @ '' overlapped shards ''
          @ show_nat (oe_shard_id previous) @ '' and '' @ show_nat (oe_shard_id e)))
      | None \<Rightarrow> lock_step e locks
          (if is_some_and (bt_get furthest lock) (\<lambda>previous. oe_completed_at_ms e \<le> oe_completed_at_ms previous)
           then furthest else bt_insert lock e furthest))"

definition locks_of :: "lock_scope \<Rightarrow> resource_lock list list \<Rightarrow> nat \<Rightarrow> string list proof_result" where
  "locks_of scope shard_locks shard = result_bind (ok_or (list_get shard_locks shard) (InvalidField ''shard id'')) (\<lambda>locks.
     Inr (map fst (filter (\<lambda>lock. snd lock = scope) locks)))"

fun fleet_lock_sweep :: "resource_lock list list \<Rightarrow> lock_table \<Rightarrow> observed_execution list \<Rightarrow> unit proof_result" where
  "fleet_lock_sweep shard_locks furthest [] = Inr ()"
| "fleet_lock_sweep shard_locks furthest (e # es) =
     result_bind (locks_of FleetScope shard_locks (oe_shard_id e)) (\<lambda>locks.
     result_bind (lock_step e locks furthest) (\<lambda>furthest'. fleet_lock_sweep shard_locks furthest' es))"

definition validate_fleet_lock_overlap :: "observed_execution list \<Rightarrow> resource_lock list list \<Rightarrow> unit proof_result" where
  "validate_fleet_lock_overlap es shard_locks = fleet_lock_sweep shard_locks [] es"

fun host_lock_sweep ::
  "resource_lock list list \<Rightarrow> string option \<Rightarrow> lock_table \<Rightarrow> observed_execution list \<Rightarrow> unit proof_result" where
  "host_lock_sweep shard_locks current furthest [] = Inr ()"
| "host_lock_sweep shard_locks current furthest (e # es) =
     (let furthest' = (if current \<noteq> Some (oe_host_id e) then [] else furthest) in
      result_bind (locks_of HostScope shard_locks (oe_shard_id e)) (\<lambda>locks.
      result_bind (lock_step e locks furthest') (\<lambda>furthest''.
        host_lock_sweep shard_locks (Some (oe_host_id e)) furthest'' es)))"

definition validate_host_lock_overlap :: "observed_execution list \<Rightarrow> resource_lock list list \<Rightarrow> unit proof_result" where
  "validate_host_lock_overlap es shard_locks = host_lock_sweep shard_locks None []
     (sort_key (\<lambda>e. (oe_host_id e, oe_started_at_ms e, oe_completed_at_ms e, oe_shard_id e)) es)"

definition locks_in_shard :: "test_inventory \<Rightarrow> test_shard \<Rightarrow> resource_lock list proof_result" where
  "locks_in_shard iv s =
     result_bind (collect_results (map (bt_index (inventory_lookup iv)) (sh_test_ids s))) (\<lambda>tests.
       Inr (sort_dedup (concat (map tc_resource_locks tests))))"

definition validate_execution_overlap :: "test_inventory \<Rightarrow> shard_plan \<Rightarrow> observed_execution list \<Rightarrow> unit proof_result" where
  "validate_execution_overlap iv plan executions =
     result_bind (collect_results (map (locks_in_shard iv) (pl_shards plan))) (\<lambda>shard_locks.
     let ordered = sort_key (\<lambda>e. (oe_started_at_ms e, oe_completed_at_ms e, oe_shard_id e, oe_host_id e)) executions in
     result_bind (validate_same_shard_overlap ordered) (\<lambda>_.
     result_bind (validate_fleet_exclusive_overlap ordered) (\<lambda>_.
     result_bind (validate_fleet_lock_overlap ordered shard_locks) (\<lambda>_.
       validate_host_lock_overlap ordered shard_locks))))"

section \<open>The aggregate\<close>

text \<open>The loop over the declared shards: active assignments, active receipts, missing and failed shards.\<close>

fun scan_shards ::
  "proof_codec \<Rightarrow> (nat \<times> controller_assignment) list \<Rightarrow> (attempt_id \<times> attempt_disposition) list
   \<Rightarrow> (attempt_id \<times> shard_receipt) list \<Rightarrow> test_shard list
   \<Rightarrow> (sha256 list \<times> shard_receipt list \<times> nat list \<times> nat list) proof_result" where
  "scan_shards cd active dispositions receipts [] = Inr ([], [], [], [])"
| "scan_shards cd active dispositions receipts (s # ss) = (case bt_get active (sh_id s) of
       None \<Rightarrow> Inl (MissingRecord (''shard '' @ show_nat (sh_id s)))
     | Some a \<Rightarrow> result_bind (scan_shards cd active dispositions receipts ss) (\<lambda>(assigned, accepted, missing, failed).
         let k = (sh_id s, ac_attempt (as_claims a)) in
         case (bt_get dispositions k, bt_get receipts k) of
           (Some _, Some r) \<Rightarrow> Inr (assignment_digest cd a # assigned, r # accepted, missing,
             if sr_status r \<noteq> ReceiptPassed then sh_id s # failed else failed)
         | _ \<Rightarrow> Inr (assignment_digest cd a # assigned, accepted, sh_id s # missing, failed)))"

definition status_of :: "nat list \<Rightarrow> nat list \<Rightarrow> shadow_status" where
  "status_of missing failed =
     (if missing \<noteq> [] \<and> failed \<noteq> [] then IncompleteAndFailed missing failed
      else if missing \<noteq> [] then Incomplete missing
      else if failed \<noteq> [] then Failed failed else Passed)"

definition attempt_of :: "controller_assignment \<Rightarrow> attempt_id" where
  "attempt_of a = (ac_shard_id (as_claims a), ac_attempt (as_claims a))"

definition observed_executions ::
  "(attempt_id \<times> controller_assignment) list \<Rightarrow> (attempt_id \<times> attempt_disposition) list \<Rightarrow> observed_execution list proof_result" where
  "observed_executions assignments dispositions =
     result_bind (collect_results (map (\<lambda>(k, d). result_bind (bt_index assignments k) (\<lambda>a. Inr (observed_execution_of a d)))
       dispositions)) (\<lambda>found. Inr (List.map_filter id found))"

definition aggregate_shadow_proof ::
  "proof_codec \<Rightarrow> controller_key \<Rightarrow> proof_context \<Rightarrow> controller_assignment list \<Rightarrow> attempt_disposition list
   \<Rightarrow> shard_receipt list \<Rightarrow> shadow_aggregate proof_result" where
  "aggregate_shadow_proof cd key pf as ds rs =
     result_bind (context_validate cd pf) (\<lambda>_.
     result_bind (validate_aggregate_input_bounds cd (length (pl_shards (pf_plan pf))) as ds rs) (\<lambda>_.
     result_bind (from_validated cd pf) (\<lambda>b.
     result_bind (validate_attempt_chains cd key (pf_manifest pf) b as) (\<lambda>active.
     if length active \<noteq> length (pl_shards (pf_plan pf))
     then Inl (InvalidAttemptSequence ''every declared shard must have an assignment'')
     else let assignments = bt_collect (map (\<lambda>a. (attempt_of a, a)) as) in
       result_bind (index_dispositions cd key assignments ds []) (\<lambda>dispositions.
       result_bind (index_receipts cd key pf assignments dispositions rs []) (\<lambda>receipts.
       result_bind (observed_executions assignments dispositions) (\<lambda>executions.
       result_bind (validate_execution_overlap (pf_inventory pf) (pf_plan pf) executions) (\<lambda>_.
       let open_shards = map (\<lambda>a. ac_shard_id (as_claims a)) (filter (\<lambda>a. bt_get dispositions (attempt_of a) = None) as) in
       result_bind (scan_shards cd active dispositions receipts (pl_shards (pf_plan pf))) (\<lambda>(assigned, accepted, missing, failed).
       result_bind (collect_results (map (receipt_digest_of cd) accepted)) (\<lambda>receipt_digests.
         Inr \<lparr>ag_schema_version = proof_schema_version, ag_manifest_digest = bn_manifest_digest b,
              ag_inventory_digest = bn_inventory_digest b, ag_plan_digest = bn_plan_digest b,
              ag_active_assignment_digests = assigned,
              ag_attempt_disposition_digests = map (\<lambda>(_, d). disposition_digest cd d) dispositions,
              ag_receipt_digests = receipt_digests,
              ag_status = status_of (sort_dedup (open_shards @ missing)) failed\<rparr>))))))))))"

definition aggregate_digest :: "proof_codec \<Rightarrow> shadow_aggregate \<Rightarrow> sha256" where
  "aggregate_digest cd ag = canonical_digest cd ''shipyard.parallel-proof.aggregate.v1'' (AggregateValue ag)"

definition aggregate_satisfies_merge_readiness :: "shadow_aggregate \<Rightarrow> bool" where
  "aggregate_satisfies_merge_readiness ag = False"

section \<open>Pairwise conditions\<close>

lemma sorted_wrt_conj: "sorted_wrt (\<lambda>x y. P x y \<and> Q x y) xs \<longleftrightarrow> sorted_wrt P xs \<and> sorted_wrt Q xs"
  by (induction xs) auto

lemma sorted_wrt_cong_on:
  assumes "\<And>x y. x \<in> set xs \<Longrightarrow> y \<in> set xs \<Longrightarrow> S x y \<Longrightarrow> P x y \<longleftrightarrow> Q x y" "sorted_wrt S xs"
  shows "sorted_wrt P xs \<longleftrightarrow> sorted_wrt Q xs"
  using assms by (induction xs) auto

text \<open>A symmetric condition on all pairs does not depend on the order of the list.\<close>

lemma pairwise_mset:
  assumes "symp R"
  shows "sorted_wrt R xs \<longleftrightarrow> (\<forall>x \<in># mset xs. \<forall>y \<in># mset xs - {#x#}. R x y)"
proof (induction xs)
  case (Cons a xs)
  have sym: "R x y \<Longrightarrow> R y x" for x y using assms by (rule sympD)
  have same: "(\<forall>y \<in># add_mset a (mset xs) - {#x#}. R x y) \<longleftrightarrow> R x a \<and> (\<forall>y \<in># mset xs - {#x#}. R x y)"
    if "x \<in># mset xs" for x
  proof -
    have "add_mset a (mset xs) - {#x#} = add_mset a (mset xs - {#x#})" using that by (cases "x = a") auto
    then show ?thesis by simp
  qed
  show ?case using Cons.IH same sym by (auto simp: set_mset_mset)
qed simp

lemma pairwise_permute: "symp R \<Longrightarrow> mset xs = mset ys \<Longrightarrow> sorted_wrt R xs \<longleftrightarrow> sorted_wrt R ys"
  by (simp add: pairwise_mset)

section \<open>Sweeps\<close>

text \<open>
  A sweep walks a list of executions with a table of the furthest end seen for each key. An
  execution is checked against the keys \<open>ck\<close> and entered under the keys \<open>up\<close>; a table may forget
  the keys of a group when the next group begins.
\<close>

fun sweep_run :: "(observed_execution \<Rightarrow> 's \<Rightarrow> 's proof_result) \<Rightarrow> 's \<Rightarrow> observed_execution list \<Rightarrow> unit proof_result" where
  "sweep_run step s [] = Inr ()"
| "sweep_run step s (e # es) = result_bind (step e s) (\<lambda>s'. sweep_run step s' es)"

definition clear :: "observed_execution \<Rightarrow> u64 option \<Rightarrow> bool" where
  "clear e furthest \<longleftrightarrow> (\<forall>c. furthest = Some c \<longrightarrow> c \<le> oe_started_at_ms e)"

definition raise :: "observed_execution \<Rightarrow> u64 option \<Rightarrow> u64 option" where
  "raise e furthest = Some (case furthest of None \<Rightarrow> oe_completed_at_ms e | Some c \<Rightarrow> max c (oe_completed_at_ms e))"

locale sweep =
  fixes step :: "observed_execution \<Rightarrow> 's \<Rightarrow> 's proof_result"
    and look :: "'s \<Rightarrow> 'k \<Rightarrow> u64 option"
    and ck up :: "observed_execution \<Rightarrow> 'k set"
    and group :: "observed_execution \<Rightarrow> 'g::linorder"
    and home :: "'k \<Rightarrow> 'g"
    and ready :: "'s \<Rightarrow> observed_execution \<Rightarrow> bool"
  assumes home: "k \<in> ck e \<Longrightarrow> home k = group e"
    and accepts: "ready s e \<Longrightarrow> (\<exists>s'. step e s = Inr s') \<longleftrightarrow> (\<forall>k \<in> ck e. clear e (look s k))"
    and enters: "ready s e \<Longrightarrow> step e s = Inr s' \<Longrightarrow> group e \<le> home k \<Longrightarrow>
      look s' k = (if k \<in> up e then raise e (look s k) else look s k)"
    and follows: "ready s e \<Longrightarrow> step e s = Inr s' \<Longrightarrow> ready s e' \<Longrightarrow> group e \<le> group e' \<Longrightarrow> ready s' e'"
begin

lemma clear_raise: "clear e' (raise e f) \<longleftrightarrow> clear e' f \<and> oe_completed_at_ms e \<le> oe_started_at_ms e'"
  by (cases f) (auto simp: clear_def raise_def)

lemma run_iff:
  assumes "sorted_wrt (\<lambda>p e. group p \<le> group e) es" "\<forall>e \<in> set es. ready s e"
  shows "sweep_run step s es = Inr () \<longleftrightarrow> (\<forall>e \<in> set es. \<forall>k \<in> ck e. clear e (look s k))
     \<and> sorted_wrt (\<lambda>p e. up p \<inter> ck e \<noteq> {} \<longrightarrow> oe_completed_at_ms p \<le> oe_started_at_ms e) es"
  using assms
proof (induction es arbitrary: s)
  case (Cons e es)
  show ?case
  proof (cases "step e s")
    case (Inl x)
    then have "\<not> (\<forall>k \<in> ck e. clear e (look s k))" using accepts [of s e] Cons.prems(2) by auto
    with Inl show ?thesis by auto
  next
    case (Inr s')
    then have first: "\<forall>k \<in> ck e. clear e (look s k)" using accepts [of s e] Cons.prems(2) by auto
    have next_table: "clear e' (look s' k) \<longleftrightarrow> clear e' (look s k) \<and> (k \<in> up e \<longrightarrow> oe_completed_at_ms e \<le> oe_started_at_ms e')"
      if "e' \<in> set es" "k \<in> ck e'" for e' k
    proof -
      have "group e \<le> home k" using home [OF that(2)] Cons.prems(1) that(1) by simp
      then show ?thesis using enters [OF _ Inr, of k] Cons.prems(2) clear_raise by auto
    qed
    have "\<forall>e' \<in> set es. ready s' e'" using follows [OF _ Inr] Cons.prems by auto
    from Cons.IH [OF _ this] Cons.prems(1) have IH: "sweep_run step s' es = Inr () \<longleftrightarrow> (\<forall>e \<in> set es. \<forall>k \<in> ck e. clear e (look s' k))
       \<and> sorted_wrt (\<lambda>p e. up p \<inter> ck e \<noteq> {} \<longrightarrow> oe_completed_at_ms p \<le> oe_started_at_ms e) es" by simp
    have "(\<forall>e' \<in> set es. \<forall>k \<in> ck e'. clear e' (look s' k)) \<longleftrightarrow> (\<forall>e' \<in> set es. \<forall>k \<in> ck e'. clear e' (look s k))
       \<and> (\<forall>e' \<in> set es. up e \<inter> ck e' \<noteq> {} \<longrightarrow> oe_completed_at_ms e \<le> oe_started_at_ms e')"
      using next_table by blast
    with IH Inr first show ?thesis by auto
  qed
qed simp

end

section \<open>The four checks are sweeps\<close>

lemma filter_running: "option_filter (still_running e) f = None \<longleftrightarrow> clear e (map_option oe_completed_at_ms f)"
  by (cases f) (auto simp: option_filter_def still_running_def clear_def)

lemma furthest_raised: "map_option oe_completed_at_ms (keep_furthest e f) = raise e (map_option oe_completed_at_ms f)"
  by (cases f) (auto simp: keep_furthest_def raise_def)

subsection \<open>Attempts of one shard\<close>

definition same_shard_step ::
  "observed_execution \<Rightarrow> nat option \<times> observed_execution option \<Rightarrow> (nat option \<times> observed_execution option) proof_result" where
  "same_shard_step e = (\<lambda>(current, furthest).
     let furthest' = (if current \<noteq> Some (oe_shard_id e) then None else furthest) in
     case option_filter (still_running e) furthest' of
       Some previous \<Rightarrow> Inl (TopologyViolation (''shard '' @ show_nat (oe_shard_id e) @ '' attempts overlapped intervals ending at ''
          @ show_nat (oe_completed_at_ms previous) @ '' and starting at '' @ show_nat (oe_started_at_ms e)))
     | None \<Rightarrow> Inr (Some (oe_shard_id e), keep_furthest e furthest'))"

lemma same_shard_sweep_run: "same_shard_sweep c f es = sweep_run same_shard_step (c, f) es"
  by (induction es arbitrary: c f) (auto simp: same_shard_step_def Let_def split: option.splits)

definition shard_look :: "nat option \<times> observed_execution option \<Rightarrow> nat \<Rightarrow> u64 option" where
  "shard_look = (\<lambda>(current, furthest) k. if current = Some k then map_option oe_completed_at_ms furthest else None)"

lemma same_shard_step_iff:
  "same_shard_step e s = Inr s' \<longleftrightarrow> clear e (shard_look s (oe_shard_id e))
     \<and> s' = (Some (oe_shard_id e), keep_furthest e (if fst s \<noteq> Some (oe_shard_id e) then None else snd s))"
  using filter_running [of e "if fst s \<noteq> Some (oe_shard_id e) then None else snd s"]
  by (cases s) (auto simp: same_shard_step_def Let_def shard_look_def split: option.splits if_splits)

interpretation shard_sweep: sweep same_shard_step shard_look "\<lambda>e. {oe_shard_id e}" "\<lambda>e. {oe_shard_id e}" oe_shard_id id
  "\<lambda>s e. \<forall>x. fst s = Some x \<longrightarrow> x \<le> oe_shard_id e"
proof
  show "look \<in> {oe_shard_id e} \<Longrightarrow> id look = oe_shard_id e" for look e by simp
  show "(\<exists>s'. same_shard_step e s = Inr s') \<longleftrightarrow> (\<forall>k \<in> {oe_shard_id e}. clear e (shard_look s k))" for s e
    by (simp add: same_shard_step_iff)
next
  fix s s' :: "nat option \<times> observed_execution option" and e k
  assume "\<forall>x. fst s = Some x \<longrightarrow> x \<le> oe_shard_id e" "same_shard_step e s = Inr s'" "oe_shard_id e \<le> id k"
  then show "shard_look s' k = (if k \<in> {oe_shard_id e} then raise e (shard_look s k) else shard_look s k)"
    by (cases s) (auto simp: same_shard_step_iff shard_look_def furthest_raised)
next
  fix s s' :: "nat option \<times> observed_execution option" and e e'
  assume "same_shard_step e s = Inr s'" "oe_shard_id e \<le> oe_shard_id e'"
  then show "\<forall>x. fst s' = Some x \<longrightarrow> x \<le> oe_shard_id e'" by (simp add: same_shard_step_iff)
qed

subsection \<open>Fleet-exclusive shards\<close>

definition exclusive_step ::
  "observed_execution \<Rightarrow> observed_execution option \<times> observed_execution option
   \<Rightarrow> (observed_execution option \<times> observed_execution option) proof_result" where
  "exclusive_step e = (\<lambda>(any, exclusive).
     case option_filter (still_running e) (if oe_execution_mode e = FleetExclusive then any else exclusive) of
       Some previous \<Rightarrow> Inl (TopologyViolation (''fleet-exclusive shard overlapped '' @ show_nat (oe_shard_id previous)
          @ '' and '' @ show_nat (oe_shard_id e)))
     | None \<Rightarrow> Inr (keep_furthest e any, if oe_execution_mode e = FleetExclusive then keep_furthest e exclusive else exclusive))"

lemma exclusive_sweep_run: "exclusive_sweep any exclusive es = sweep_run exclusive_step (any, exclusive) es"
  by (induction es arbitrary: any exclusive) (auto simp: exclusive_step_def split: option.splits)

text \<open>The key \<open>True\<close> stands for the exclusive executions, \<open>False\<close> for all.\<close>

definition exclusive_look :: "observed_execution option \<times> observed_execution option \<Rightarrow> bool \<Rightarrow> u64 option" where
  "exclusive_look = (\<lambda>(any, exclusive) k. map_option oe_completed_at_ms (if k then exclusive else any))"

abbreviation is_exclusive :: "observed_execution \<Rightarrow> bool" where
  "is_exclusive e \<equiv> oe_execution_mode e = FleetExclusive"

lemma exclusive_step_iff:
  "exclusive_step e s = Inr s' \<longleftrightarrow> clear e (exclusive_look s (\<not> is_exclusive e))
     \<and> s' = (keep_furthest e (fst s), if is_exclusive e then keep_furthest e (snd s) else snd s)"
  using filter_running [of e "if is_exclusive e then fst s else snd s"]
  by (cases s) (auto simp: exclusive_step_def exclusive_look_def split: option.splits if_splits)

interpretation fleet_sweep: sweep exclusive_step exclusive_look "\<lambda>e. {\<not> is_exclusive e}" "\<lambda>e. {False, is_exclusive e}"
  "\<lambda>_. 0 :: nat" "\<lambda>_. 0" "\<lambda>_ _. True"
  by unfold_locales (auto simp: exclusive_step_iff exclusive_look_def furthest_raised split: if_splits)

subsection \<open>Locks\<close>

definition table_look :: "lock_table \<Rightarrow> string \<Rightarrow> u64 option" where
  "table_look m k = map_option oe_completed_at_ms (bt_get m k)"

lemma table_look_step:
  assumes "bt_wf m"
  shows "table_look (if is_some_and (bt_get m lock) (\<lambda>previous. oe_completed_at_ms e \<le> oe_completed_at_ms previous)
     then m else bt_insert lock e m) k = (if k = lock then raise e (table_look m k) else table_look m k)"
  using assms by (auto simp: table_look_def is_some_and_def bt_get_insert raise_def split: option.splits)

lemma lock_step_iff:
  assumes "bt_wf m" "distinct locks"
  shows "(\<exists>m'. lock_step e locks m = Inr m') \<longleftrightarrow> (\<forall>k \<in> set locks. clear e (table_look m k))"
    "lock_step e locks m = Inr m' \<Longrightarrow> bt_wf m' \<and> table_look m' k = (if k \<in> set locks then raise e (table_look m k) else table_look m k)"
proof -
  have "((\<exists>m'. lock_step e locks m = Inr m') \<longleftrightarrow> (\<forall>k \<in> set locks. clear e (table_look m k)))
     \<and> (\<forall>m'. lock_step e locks m = Inr m' \<longrightarrow>
          bt_wf m' \<and> table_look m' k = (if k \<in> set locks then raise e (table_look m k) else table_look m k))"
    using assms
  proof (induction locks arbitrary: m)
    case (Cons lock locks)
    define n where "n = (if is_some_and (bt_get m lock) (\<lambda>previous. oe_completed_at_ms e \<le> oe_completed_at_ms previous)
      then m else bt_insert lock e m)"
    have n: "bt_wf n" "\<And>k. table_look n k = (if k = lock then raise e (table_look m k) else table_look m k)"
      using Cons.prems(1) table_look_step [OF Cons.prems(1), of lock e] by (auto simp: n_def bt_wf_insert)
    have other: "k \<in> set locks \<Longrightarrow> table_look n k = table_look m k" for k using Cons.prems(2) n(2) by auto
    show ?case
    proof (cases "clear e (table_look m lock)")
      case True
      then have "lock_step e (lock # locks) m = lock_step e locks n"
        using filter_running [of e "bt_get m lock"] by (auto simp: n_def table_look_def split: option.splits)
      with Cons.IH [OF n(1)] Cons.prems(2) True other n(2) show ?thesis by (auto split: if_splits)
    next
      case False
      then obtain x where x: "lock_step e (lock # locks) m = Inl x"
        using filter_running [of e "bt_get m lock"] by (auto simp: table_look_def split: option.splits)
      show ?thesis unfolding x using False by simp
    qed
  qed simp
  then show "(\<exists>m'. lock_step e locks m = Inr m') \<longleftrightarrow> (\<forall>k \<in> set locks. clear e (table_look m k))"
    "lock_step e locks m = Inr m' \<Longrightarrow> bt_wf m' \<and> table_look m' k = (if k \<in> set locks then raise e (table_look m k) else table_look m k)"
    by blast+
qed

text \<open>The locks of one scope that the shard of an execution holds.\<close>

definition lock_names :: "lock_scope \<Rightarrow> resource_lock list list \<Rightarrow> observed_execution \<Rightarrow> string set" where
  "lock_names scope shard_locks e = {name. \<exists>locks. list_get shard_locks (oe_shard_id e) = Some locks \<and> (name, scope) \<in> set locks}"

definition known_shard :: "resource_lock list list \<Rightarrow> observed_execution \<Rightarrow> bool" where
  "known_shard shard_locks e \<longleftrightarrow> oe_shard_id e < length shard_locks \<and> (\<forall>locks \<in> set shard_locks. distinct locks)"

lemma locks_of_known:
  assumes "known_shard shard_locks e"
  obtains locks where "locks_of scope shard_locks (oe_shard_id e) = Inr locks" "distinct locks" "set locks = lock_names scope shard_locks e"
proof -
  let ?ls = "shard_locks ! oe_shard_id e"
  have ls: "list_get shard_locks (oe_shard_id e) = Some ?ls" "distinct ?ls" using assms by (auto simp: known_shard_def list_get_def)
  have "inj_on fst {l \<in> set ?ls. snd l = scope}" by (auto simp: inj_on_def)
  then have "distinct (map fst (filter (\<lambda>l. snd l = scope) ?ls))" using ls(2) by (simp add: distinct_map)
  moreover have "set (map fst (filter (\<lambda>l. snd l = scope) ?ls)) = lock_names scope shard_locks e" using ls(1) by (force simp: lock_names_def)
  moreover have "locks_of scope shard_locks (oe_shard_id e) = Inr (map fst (filter (\<lambda>l. snd l = scope) ?ls))"
    using ls(1) by (simp add: locks_of_def ok_or_def)
  ultimately show thesis using that by blast
qed

definition fleet_lock_step :: "resource_lock list list \<Rightarrow> observed_execution \<Rightarrow> lock_table \<Rightarrow> lock_table proof_result" where
  "fleet_lock_step shard_locks e m =
     result_bind (locks_of FleetScope shard_locks (oe_shard_id e)) (\<lambda>locks. lock_step e locks m)"

lemma fleet_lock_sweep_run: "fleet_lock_sweep shard_locks m es = sweep_run (fleet_lock_step shard_locks) m es"
  by (induction es arbitrary: m) (auto simp: fleet_lock_step_def result_bind_def split: sum.splits)

interpretation fleet_lock: sweep "fleet_lock_step shard_locks" table_look "lock_names FleetScope shard_locks"
  "lock_names FleetScope shard_locks" "\<lambda>_. 0 :: nat" "\<lambda>_. 0" "\<lambda>m e. bt_wf m \<and> known_shard shard_locks e"
  for shard_locks
proof
  fix m :: lock_table and e assume r: "bt_wf m \<and> known_shard shard_locks e"
  then obtain locks where l: "locks_of FleetScope shard_locks (oe_shard_id e) = Inr locks" "distinct locks"
    "set locks = lock_names FleetScope shard_locks e" using locks_of_known by blast
  have step: "fleet_lock_step shard_locks e m = lock_step e locks m" by (simp add: fleet_lock_step_def l(1))
  show "(\<exists>s'. fleet_lock_step shard_locks e m = Inr s') \<longleftrightarrow> (\<forall>k \<in> lock_names FleetScope shard_locks e. clear e (table_look m k))"
    unfolding step using lock_step_iff(1) [of m locks e] r l(2,3) by simp
  fix m' assume "fleet_lock_step shard_locks e m = Inr m'"
  then have s: "lock_step e locks m = Inr m'" unfolding step .
  show "table_look m' k = (if k \<in> lock_names FleetScope shard_locks e then raise e (table_look m k) else table_look m k)" for k
    using lock_step_iff(2) [OF _ l(2) s] r l(3) by simp
  show "bt_wf m \<and> known_shard shard_locks e' \<Longrightarrow> bt_wf m' \<and> known_shard shard_locks e'" for e'
    using lock_step_iff(2) [OF _ l(2) s] by simp
qed simp

definition host_lock_step ::
  "resource_lock list list \<Rightarrow> observed_execution \<Rightarrow> string option \<times> lock_table \<Rightarrow> (string option \<times> lock_table) proof_result" where
  "host_lock_step shard_locks e = (\<lambda>(current, m).
     result_bind (locks_of HostScope shard_locks (oe_shard_id e)) (\<lambda>locks.
     result_bind (lock_step e locks (if current \<noteq> Some (oe_host_id e) then [] else m)) (\<lambda>m'. Inr (Some (oe_host_id e), m'))))"

lemma host_lock_sweep_run: "host_lock_sweep shard_locks c m es = sweep_run (host_lock_step shard_locks) (c, m) es"
  by (induction es arbitrary: c m) (auto simp: host_lock_step_def Let_def result_bind_def split: sum.splits)

definition host_look :: "string option \<times> lock_table \<Rightarrow> string \<times> string \<Rightarrow> u64 option" where
  "host_look = (\<lambda>(current, m) (host, name). if current = Some host then table_look m name else None)"

definition host_keys :: "resource_lock list list \<Rightarrow> observed_execution \<Rightarrow> (string \<times> string) set" where
  "host_keys shard_locks e = {oe_host_id e} \<times> lock_names HostScope shard_locks e"

lemma host_lock_step_iff:
  assumes "bt_wf (snd s)" "known_shard shard_locks e"
  shows "(\<exists>s'. host_lock_step shard_locks e s = Inr s') \<longleftrightarrow> (\<forall>k \<in> host_keys shard_locks e. clear e (host_look s k))"
    "host_lock_step shard_locks e s = Inr s' \<Longrightarrow> fst s' = Some (oe_host_id e) \<and> bt_wf (snd s')
       \<and> table_look (snd s') name = (if name \<in> lock_names HostScope shard_locks e then raise e (host_look s (oe_host_id e, name))
           else host_look s (oe_host_id e, name))"
proof -
  obtain locks where l: "locks_of HostScope shard_locks (oe_shard_id e) = Inr locks" "distinct locks"
    "set locks = lock_names HostScope shard_locks e" by (rule locks_of_known [OF assms(2)])
  define m where "m = (if fst s \<noteq> Some (oe_host_id e) then [] else snd s)"
  have m: "bt_wf m" "\<And>name. table_look m name = host_look s (oe_host_id e, name)"
    using assms(1) by (cases s; auto simp: m_def host_look_def table_look_def bt_get_Nil)+
  have step: "host_lock_step shard_locks e s = result_bind (lock_step e locks m) (\<lambda>m'. Inr (Some (oe_host_id e), m'))"
    by (cases s) (simp add: host_lock_step_def l(1) m_def)
  show "(\<exists>s'. host_lock_step shard_locks e s = Inr s') \<longleftrightarrow> (\<forall>k \<in> host_keys shard_locks e. clear e (host_look s k))"
    using lock_step_iff(1) [OF m(1) l(2), of e] by (auto simp: step result_bind_Inr_iff m(2) l(3) host_keys_def)
  show "host_lock_step shard_locks e s = Inr s' \<Longrightarrow> fst s' = Some (oe_host_id e) \<and> bt_wf (snd s')
       \<and> table_look (snd s') name = (if name \<in> lock_names HostScope shard_locks e then raise e (host_look s (oe_host_id e, name))
           else host_look s (oe_host_id e, name))"
    using lock_step_iff(2) [OF m(1) l(2), of e] by (auto simp: step result_bind_Inr_iff m(2) l(3))
qed

interpretation host_lock: sweep "host_lock_step shard_locks" host_look "host_keys shard_locks" "host_keys shard_locks" oe_host_id fst
  "\<lambda>s e. bt_wf (snd s) \<and> known_shard shard_locks e \<and> (\<forall>x. fst s = Some x \<longrightarrow> x \<le> oe_host_id e)"
  for shard_locks
proof
  show "k \<in> host_keys shard_locks e \<Longrightarrow> fst k = oe_host_id e" for k e by (auto simp: host_keys_def)
next
  fix s :: "string option \<times> lock_table" and e assume r: "bt_wf (snd s) \<and> known_shard shard_locks e \<and> (\<forall>x. fst s = Some x \<longrightarrow> x \<le> oe_host_id e)"
  note step = host_lock_step_iff [of s shard_locks e]
  show "(\<exists>s'. host_lock_step shard_locks e s = Inr s') \<longleftrightarrow> (\<forall>k \<in> host_keys shard_locks e. clear e (host_look s k))"
    using step(1) r by blast
  fix s' assume s: "host_lock_step shard_locks e s = Inr s'"
  show "host_look s' k = (if k \<in> host_keys shard_locks e then raise e (host_look s k) else host_look s k)"
    if "oe_host_id e \<le> fst k" for k
  proof (cases "fst k = oe_host_id e")
    case True
    with step(2) [OF _ _ s, of "snd k"] r show ?thesis by (cases k; cases s') (auto simp: host_look_def host_keys_def)
  next
    case False
    with that r have "fst s \<noteq> Some (fst k)" by auto
    with False step(2) [OF _ _ s] r show ?thesis by (cases k; cases s; cases s') (auto simp: host_look_def host_keys_def)
  qed
  show "bt_wf (snd s) \<and> known_shard shard_locks e' \<and> (\<forall>x. fst s = Some x \<longrightarrow> x \<le> oe_host_id e') \<Longrightarrow> oe_host_id e \<le> oe_host_id e'
     \<Longrightarrow> bt_wf (snd s') \<and> known_shard shard_locks e' \<and> (\<forall>x. fst s' = Some x \<longrightarrow> x \<le> oe_host_id e')" for e'
    using step(2) [OF _ _ s] r by auto
qed

section \<open>The overlap checks are the pairwise test\<close>

definition overlap :: "observed_execution \<Rightarrow> observed_execution \<Rightarrow> bool" where
  "overlap p e \<longleftrightarrow> oe_started_at_ms p < oe_completed_at_ms e \<and> oe_started_at_ms e < oe_completed_at_ms p"

definition proper :: "observed_execution \<Rightarrow> bool" where
  "proper e \<longleftrightarrow> oe_started_at_ms e < oe_completed_at_ms e"

text \<open>A sweep in the order of the starts, for a symmetric sharing of keys, compares all pairs.\<close>

lemma sweep_pairs:
  assumes "sorted_wrt (\<lambda>p e. shares p e \<longrightarrow> oe_started_at_ms p \<le> oe_started_at_ms e) es" "\<forall>e \<in> set es. proper e"
    and "symp shares" "mset es = mset es'"
  shows "sorted_wrt (\<lambda>p e. shares p e \<longrightarrow> oe_completed_at_ms p \<le> oe_started_at_ms e) es
     \<longleftrightarrow> sorted_wrt (\<lambda>p e. \<not> (shares p e \<and> overlap p e)) es'"
proof -
  have "sorted_wrt (\<lambda>p e. shares p e \<longrightarrow> oe_completed_at_ms p \<le> oe_started_at_ms e) es
      \<longleftrightarrow> sorted_wrt (\<lambda>p e. \<not> (shares p e \<and> overlap p e)) es"
    by (rule sorted_wrt_cong_on [OF _ assms(1)]) (use assms(2) in \<open>fastforce simp: overlap_def proper_def\<close>)
  also have "\<dots> \<longleftrightarrow> sorted_wrt (\<lambda>p e. \<not> (shares p e \<and> overlap p e)) es'"
    using assms(3) by (intro pairwise_permute [OF _ assms(4)]) (auto simp: symp_def overlap_def)
  finally show ?thesis .
qed

lemma sort_key_mono: "sorted_wrt (\<lambda>p e. key p \<le> key e) (sort_key key es)"
  using sorted_sort_key [of key es] by (simp add: sorted_wrt_map)

lemma same_shard_iff:
  assumes "\<forall>e \<in> set es. proper e"
  shows "validate_same_shard_overlap es = Inr () \<longleftrightarrow> sorted_wrt (\<lambda>p e. \<not> (oe_shard_id p = oe_shard_id e \<and> overlap p e)) es"
proof -
  let ?key = "\<lambda>e. (oe_shard_id e, oe_started_at_ms e, oe_completed_at_ms e)"
  have share: "{oe_shard_id p} \<inter> {oe_shard_id e} \<noteq> {} \<longleftrightarrow> oe_shard_id p = oe_shard_id e" for p e by auto
  note sorted = sort_key_mono [of ?key es]
  have groups: "sorted_wrt (\<lambda>p e. oe_shard_id p \<le> oe_shard_id e) (sort_key ?key es)"
    by (rule sorted_wrt_mono_rel [OF _ sorted]) (auto simp: less_eq_prod_def)
  have starts: "sorted_wrt (\<lambda>p e. oe_shard_id p = oe_shard_id e \<longrightarrow> oe_started_at_ms p \<le> oe_started_at_ms e) (sort_key ?key es)"
    by (rule sorted_wrt_mono_rel [OF _ sorted]) (auto simp: less_eq_prod_def)
  have "validate_same_shard_overlap es = Inr ()
      \<longleftrightarrow> sorted_wrt (\<lambda>p e. oe_shard_id p = oe_shard_id e \<longrightarrow> oe_completed_at_ms p \<le> oe_started_at_ms e) (sort_key ?key es)"
    using shard_sweep.run_iff [OF groups, of "(None, None)"]
    unfolding share validate_same_shard_overlap_def same_shard_sweep_run by (simp add: shard_look_def clear_def)
  also have "\<dots> \<longleftrightarrow> sorted_wrt (\<lambda>p e. \<not> (oe_shard_id p = oe_shard_id e \<and> overlap p e)) es"
    using assms by (intro sweep_pairs [OF starts]) (auto simp: symp_def)
  finally show ?thesis .
qed

lemma exclusive_iff:
  assumes "\<forall>e \<in> set es. proper e" "sorted_wrt (\<lambda>p e. oe_started_at_ms p \<le> oe_started_at_ms e) es"
  shows "validate_fleet_exclusive_overlap es = Inr () \<longleftrightarrow>
     sorted_wrt (\<lambda>p e. \<not> ((is_exclusive p \<or> is_exclusive e) \<and> overlap p e)) es"
proof -
  have share: "{False, is_exclusive p} \<inter> {\<not> is_exclusive e} \<noteq> {} \<longleftrightarrow> is_exclusive p \<or> is_exclusive e" for p e by auto
  have starts: "sorted_wrt (\<lambda>p e. is_exclusive p \<or> is_exclusive e \<longrightarrow> oe_started_at_ms p \<le> oe_started_at_ms e) es"
    by (rule sorted_wrt_mono_rel [OF _ assms(2)]) simp
  have "validate_fleet_exclusive_overlap es = Inr ()
      \<longleftrightarrow> sorted_wrt (\<lambda>p e. is_exclusive p \<or> is_exclusive e \<longrightarrow> oe_completed_at_ms p \<le> oe_started_at_ms e) es"
    using fleet_sweep.run_iff [of es "(None, None)"]
    unfolding share validate_fleet_exclusive_overlap_def exclusive_sweep_run by (simp add: exclusive_look_def clear_def)
  also have "\<dots> \<longleftrightarrow> sorted_wrt (\<lambda>p e. \<not> ((is_exclusive p \<or> is_exclusive e) \<and> overlap p e)) es"
    using assms(1) by (intro sweep_pairs [OF starts]) (auto simp: symp_def)
  finally show ?thesis .
qed

lemma fleet_lock_iff:
  assumes "\<forall>e \<in> set es. proper e \<and> known_shard shard_locks e" "sorted_wrt (\<lambda>p e. oe_started_at_ms p \<le> oe_started_at_ms e) es"
  shows "validate_fleet_lock_overlap es shard_locks = Inr () \<longleftrightarrow>
     sorted_wrt (\<lambda>p e. \<not> (lock_names FleetScope shard_locks p \<inter> lock_names FleetScope shard_locks e \<noteq> {} \<and> overlap p e)) es"
proof -
  let ?share = "\<lambda>p e. lock_names FleetScope shard_locks p \<inter> lock_names FleetScope shard_locks e \<noteq> {}"
  have starts: "sorted_wrt (\<lambda>p e. ?share p e \<longrightarrow> oe_started_at_ms p \<le> oe_started_at_ms e) es"
    by (rule sorted_wrt_mono_rel [OF _ assms(2)]) simp
  have "validate_fleet_lock_overlap es shard_locks = Inr ()
      \<longleftrightarrow> sorted_wrt (\<lambda>p e. ?share p e \<longrightarrow> oe_completed_at_ms p \<le> oe_started_at_ms e) es"
    using fleet_lock.run_iff [of es "[]" shard_locks] assms(1)
    by (simp add: validate_fleet_lock_overlap_def fleet_lock_sweep_run table_look_def bt_get_Nil clear_def)
  also have "\<dots> \<longleftrightarrow> sorted_wrt (\<lambda>p e. \<not> (?share p e \<and> overlap p e)) es"
    using assms(1) by (intro sweep_pairs [OF starts]) (auto simp: symp_def)
  finally show ?thesis .
qed

lemma host_lock_iff:
  assumes "\<forall>e \<in> set es. proper e \<and> known_shard shard_locks e"
  shows "validate_host_lock_overlap es shard_locks = Inr () \<longleftrightarrow>
     sorted_wrt (\<lambda>p e. \<not> ((oe_host_id p = oe_host_id e \<and> lock_names HostScope shard_locks p \<inter> lock_names HostScope shard_locks e \<noteq> {})
       \<and> overlap p e)) es"
proof -
  let ?key = "\<lambda>e. (oe_host_id e, oe_started_at_ms e, oe_completed_at_ms e, oe_shard_id e)"
  let ?share = "\<lambda>p e. oe_host_id p = oe_host_id e \<and> lock_names HostScope shard_locks p \<inter> lock_names HostScope shard_locks e \<noteq> {}"
  have share: "host_keys shard_locks p \<inter> host_keys shard_locks e \<noteq> {} \<longleftrightarrow> ?share p e" for p e by (auto simp: host_keys_def)
  note sorted = sort_key_mono [of ?key es]
  have groups: "sorted_wrt (\<lambda>p e. oe_host_id p \<le> oe_host_id e) (sort_key ?key es)"
    by (rule sorted_wrt_mono_rel [OF _ sorted]) (auto simp: less_eq_prod_def)
  have starts: "sorted_wrt (\<lambda>p e. ?share p e \<longrightarrow> oe_started_at_ms p \<le> oe_started_at_ms e) (sort_key ?key es)"
    by (rule sorted_wrt_mono_rel [OF _ sorted]) (auto simp: less_eq_prod_def)
  have "validate_host_lock_overlap es shard_locks = Inr ()
      \<longleftrightarrow> sorted_wrt (\<lambda>p e. ?share p e \<longrightarrow> oe_completed_at_ms p \<le> oe_started_at_ms e) (sort_key ?key es)"
    using host_lock.run_iff [OF groups, of "(None, [])" shard_locks] assms
    unfolding share validate_host_lock_overlap_def host_lock_sweep_run by (auto simp: host_look_def clear_def host_keys_def bt_wf_def)
  also have "\<dots> \<longleftrightarrow> sorted_wrt (\<lambda>p e. \<not> (?share p e \<and> overlap p e)) es"
    using assms by (intro sweep_pairs [OF starts]) (auto simp: symp_def)
  finally show ?thesis .
qed

text \<open>The resource locks that the tests of a shard claim.\<close>

definition shard_locks_held :: "test_inventory \<Rightarrow> shard_plan \<Rightarrow> nat \<Rightarrow> resource_lock set" where
  "shard_locks_held iv plan k = {lock. \<exists>t \<in> set (iv_tests iv). k < length (pl_shards plan)
     \<and> tc_id t \<in> set (sh_test_ids (pl_shards plan ! k)) \<and> lock \<in> set (tc_resource_locks t)}"

definition execution_conflict :: "test_inventory \<Rightarrow> shard_plan \<Rightarrow> observed_execution \<Rightarrow> observed_execution \<Rightarrow> bool" where
  "execution_conflict iv plan p e \<longleftrightarrow> overlap p e \<and>
     (oe_shard_id p = oe_shard_id e \<or> is_exclusive p \<or> is_exclusive e
      \<or> (\<exists>name. (name, FleetScope) \<in> shard_locks_held iv plan (oe_shard_id p) \<inter> shard_locks_held iv plan (oe_shard_id e))
      \<or> oe_host_id p = oe_host_id e \<and>
          (\<exists>name. (name, HostScope) \<in> shard_locks_held iv plan (oe_shard_id p) \<inter> shard_locks_held iv plan (oe_shard_id e)))"

lemma locks_in_shards:
  assumes "inventory_ok iv" "plan_ok iv (pl_shards plan)"
  obtains locks where "collect_results (map (locks_in_shard iv) (pl_shards plan)) = Inr locks" "length locks = length (pl_shards plan)"
    "\<forall>ls \<in> set locks. distinct ls" "\<And>scope e. lock_names scope locks e = {name. (name, scope) \<in> shard_locks_held iv plan (oe_shard_id e)}"
proof -
  define f where "f s = projr (locks_in_shard iv s)" for s
  have f: "locks_in_shard iv s = Inr (f s) \<and> distinct (f s)
      \<and> set (f s) = (\<Union>t \<in> {t \<in> set (iv_tests iv). tc_id t \<in> set (sh_test_ids s)}. set (tc_resource_locks t))"
    if s: "s \<in> set (pl_shards plan)" for s
  proof -
    obtain ts where "collect_results (map (bt_index (inventory_lookup iv)) (sh_test_ids s)) = Inr ts"
      "set ts = {t \<in> set (iv_tests iv). tc_id t \<in> set (sh_test_ids s)}" by (rule shard_tests_found [OF assms s])
    then show ?thesis by (simp add: f_def locks_in_shard_def sorted_distinct_sort_dedup)
  qed
  have "collect_results (map (locks_in_shard iv) (pl_shards plan)) = Inr (map f (pl_shards plan))"
    by (rule collect_results_map) (simp add: f)
  moreover have "lock_names scope (map f (pl_shards plan)) e = {name. (name, scope) \<in> shard_locks_held iv plan (oe_shard_id e)}" for scope e
  proof (cases "oe_shard_id e < length (pl_shards plan)")
    case True
    then show ?thesis using f [OF nth_mem [OF True]] by (auto simp: lock_names_def list_get_def shard_locks_held_def)
  qed (auto simp: lock_names_def list_get_def shard_locks_held_def)
  moreover have "\<forall>ls \<in> set (map f (pl_shards plan)). distinct ls" using f by simp
  ultimately show thesis using that [of "map f (pl_shards plan)"] by (metis length_map)
qed

lemma overlap_iff:
  assumes iv: "inventory_ok iv" "plan_ok iv (pl_shards plan)"
    and es: "\<forall>e \<in> set es. proper e \<and> oe_shard_id e < length (pl_shards plan)"
  shows "validate_execution_overlap iv plan es = Inr () \<longleftrightarrow> sorted_wrt (\<lambda>p e. \<not> execution_conflict iv plan p e) es"
proof -
  let ?key = "\<lambda>e. (oe_started_at_ms e, oe_completed_at_ms e, oe_shard_id e, oe_host_id e)"
  let ?os = "sort_key ?key es"
  obtain locks where l: "collect_results (map (locks_in_shard iv) (pl_shards plan)) = Inr locks" "length locks = length (pl_shards plan)"
    "\<forall>ls \<in> set locks. distinct ls" "\<And>scope e. lock_names scope locks e = {name. (name, scope) \<in> shard_locks_held iv plan (oe_shard_id e)}"
    by (rule locks_in_shards [OF iv], rule that)
  have known: "\<forall>e \<in> set ?os. proper e \<and> known_shard locks e" using es l(2,3) by (simp add: known_shard_def)
  then have proper: "\<forall>e \<in> set ?os. proper e" by blast
  have starts: "sorted_wrt (\<lambda>p e. oe_started_at_ms p \<le> oe_started_at_ms e) ?os"
    by (rule sorted_wrt_mono_rel [OF _ sort_key_mono [of ?key es]]) (auto simp: less_eq_prod_def)
  have "validate_execution_overlap iv plan es = Inr () \<longleftrightarrow> validate_same_shard_overlap ?os = Inr ()
      \<and> validate_fleet_exclusive_overlap ?os = Inr () \<and> validate_fleet_lock_overlap ?os locks = Inr ()
      \<and> validate_host_lock_overlap ?os locks = Inr ()"
    by (simp add: validate_execution_overlap_def l(1) Let_def result_bind_Inr_iff)
  also have "\<dots> \<longleftrightarrow> sorted_wrt (\<lambda>p e. \<not> execution_conflict iv plan p e) ?os"
    unfolding same_shard_iff [OF proper] exclusive_iff [OF proper starts] fleet_lock_iff [OF known starts] host_lock_iff [OF known] l(4)
      sorted_wrt_conj [symmetric] execution_conflict_def
    by (rule arg_cong [of _ _ "\<lambda>R. sorted_wrt R ?os"]) (intro ext, auto)
  also have "\<dots> \<longleftrightarrow> sorted_wrt (\<lambda>p e. \<not> execution_conflict iv plan p e) es"
    by (rule pairwise_permute) (auto simp: symp_def execution_conflict_def overlap_def)
  finally show ?thesis .
qed

text \<open>
  (C16) On the executions of a valid plan the four sweeps accept exactly when no two executions conflict:
  two that overlap in time are never attempts of one shard, neither is fleet-exclusive, they share no
  fleet lock, and no host lock on the same host.
\<close>

theorem overlap_check_is_pairwise:
  assumes "plan_validate_against cd plan iv = Inr ()"
    and "\<forall>e \<in> set es. oe_started_at_ms e < oe_completed_at_ms e \<and> oe_shard_id e < length (pl_shards plan)"
  shows "validate_execution_overlap iv plan es = Inr () \<longleftrightarrow>
     (\<forall>i j. i < j \<and> j < length es \<longrightarrow> \<not> execution_conflict iv plan (es ! i) (es ! j))"
proof -
  from assms(1) have "inventory_ok iv" "plan_ok iv (pl_shards plan)" by (auto simp: plan_validate_Inr inventory_validate_Inr)
  from overlap_iff [OF this, of es] assms(2) show ?thesis by (auto simp: proper_def sorted_wrt_iff_nth_less)
qed

section \<open>Attempt chains\<close>

abbreviation fence_of :: "controller_assignment \<Rightarrow> u64" where "fence_of a \<equiv> ac_fence (as_claims a)"

definition attempt_at :: "(nat \<times> attempt_map) list \<Rightarrow> attempt_id \<Rightarrow> controller_assignment option" where
  "attempt_at m k = bt_get (unwrap_or (bt_get m (fst k)) []) (snd k)"

definition grouped_wf :: "(nat \<times> attempt_map) list \<Rightarrow> bool" where
  "grouped_wf m \<longleftrightarrow> bt_wf m \<and> (\<forall>k attempts. bt_get m k = Some attempts \<longrightarrow> bt_wf attempts \<and> attempts \<noteq> [])"

lemma bt_insert_not_Nil [simp]: "bt_insert k v m \<noteq> []"
  by (cases m) (auto split: if_splits)

lemma grouped_insert:
  assumes "grouped_wf m" "attempts = unwrap_or (bt_get m s) []"
  shows "grouped_wf (bt_insert s (bt_insert n a attempts) m)"
    "attempt_at (bt_insert s (bt_insert n a attempts) m) k = (if k = (s, n) then Some a else attempt_at m k)"
proof -
  have w: "bt_wf m" "bt_wf attempts" using assms(1) by (auto simp: assms(2) grouped_wf_def unwrap_or_def split: option.splits)
  show "grouped_wf (bt_insert s (bt_insert n a attempts) m)"
    using assms(1) w by (auto simp: grouped_wf_def bt_wf_insert bt_get_insert split: if_splits)
  show "attempt_at (bt_insert s (bt_insert n a attempts) m) k = (if k = (s, n) then Some a else attempt_at m k)"
    using w by (cases k) (auto simp: attempt_at_def bt_get_insert unwrap_or_def assms(2))
qed

definition attempt_valid :: "proof_codec \<Rightarrow> controller_key \<Rightarrow> proof_manifest \<Rightarrow> proof_bindings \<Rightarrow> controller_assignment \<Rightarrow> bool" where
  "attempt_valid cd key ma b a \<longleftrightarrow> assignment_verify cd key a = Inr () \<and> validate_assignment_binding_cached ma b a = Inr ()"

lemma group_attempts_Inr:
  assumes "group_attempts cd key ma b as fences m = Inr m'" "grouped_wf m"
  shows "grouped_wf m'" "\<forall>a \<in> set as. attempt_valid cd key ma b a" "distinct (map fence_of as)"
    "attempt_at m' k = Some a \<longleftrightarrow> attempt_at m k = Some a \<or> a \<in> set as \<and> attempt_of a = k"
proof -
  have "grouped_wf m' \<and> (\<forall>a \<in> set as. attempt_valid cd key ma b a) \<and> distinct (map fence_of as) \<and> fence_of ` set as \<inter> fences = {}
     \<and> (\<forall>k a. attempt_at m' k = Some a \<longleftrightarrow> attempt_at m k = Some a \<or> a \<in> set as \<and> attempt_of a = k)"
    using assms
  proof (induction as arbitrary: fences m)
    case (Cons a as)
    define attempts where "attempts = unwrap_or (bt_get m (ac_shard_id (as_claims a))) []"
    define n where "n = bt_insert (ac_shard_id (as_claims a)) (bt_insert (ac_attempt (as_claims a)) a attempts) m"
    from Cons.prems(1) have c: "attempt_valid cd key ma b a" "fence_of a \<notin> fences"
      "\<not> is_some_and (bt_get attempts (ac_attempt (as_claims a))) (\<lambda>previous. previous \<noteq> a)"
      "group_attempts cd key ma b as (insert (fence_of a) fences) n = Inr m'"
      by (auto simp: attempt_valid_def attempts_def n_def Let_def result_bind_Inr_iff split: if_splits)
    have n: "grouped_wf n" "\<And>k. attempt_at n k = (if k = attempt_of a then Some a else attempt_at m k)"
      using grouped_insert [OF Cons.prems(2) attempts_def, of "ac_attempt (as_claims a)" a] by (simp_all add: n_def attempt_of_def)
    have same: "attempt_at m (attempt_of a) = Some a' \<Longrightarrow> a' = a" for a'
      using c(3) by (auto simp: attempts_def attempt_at_def attempt_of_def is_some_and_def split: option.splits)
    have "attempt_at n k = Some a' \<longleftrightarrow> attempt_at m k = Some a' \<or> a' = a \<and> attempt_of a = k" for k a'
      using same by (auto simp: n(2))
    with Cons.IH [OF c(4) n(1)] c(1,2) show ?case by auto
  qed simp
  then show "grouped_wf m'" "\<forall>a \<in> set as. attempt_valid cd key ma b a" "distinct (map fence_of as)"
    "attempt_at m' k = Some a \<longleftrightarrow> attempt_at m k = Some a \<or> a \<in> set as \<and> attempt_of a = k" by blast+
qed

lemma check_chain_Inr:
  "check_chain shard i f m = Inr () \<longleftrightarrow> map fst m = [Suc i..<Suc i + length m] \<and> sorted_wrt (<) (f # map (fence_of \<circ> snd) m)"
proof (induction m arbitrary: i f)
  case (Cons e m)
  have up: "[Suc i..<Suc i + length (e # m)] = Suc i # [Suc (Suc i)..<Suc (Suc i) + length m]" by (subst upt_conv_Cons) simp_all
  have two: "sorted_wrt (<) (f # map (fence_of \<circ> snd) (e # m)) \<longleftrightarrow> f < fence_of (snd e) \<and> sorted_wrt (<) (fence_of (snd e) # map (fence_of \<circ> snd) m)"
    by (auto dest: less_trans)
  show ?case unfolding up two using Cons.IH [of "Suc i" "fence_of (snd e)"] by (cases e) (simp del: upt_Suc sorted_wrt.simps, auto simp: comp_def)
qed simp

lemma active_attempts_Inr:
  assumes "active_attempts m active = Inr active'" "bt_wf active" "distinct (map fst m)"
  shows "bt_wf active' \<and> (\<forall>(s, attempts) \<in> set m. attempts \<noteq> [] \<and> check_chain s 0 0 attempts = Inr ())
     \<and> (\<forall>s. bt_get active' s = (case map_of m s of None \<Rightarrow> bt_get active s | Some attempts \<Rightarrow> Some (snd (last attempts))))"
  using assms
proof (induction m arbitrary: active)
  case (Cons e m)
  obtain s attempts where e: "e = (s, attempts)" by (cases e)
  from Cons.prems(1) e have c: "check_chain s 0 0 attempts = Inr ()" "attempts \<noteq> []"
    "active_attempts m (bt_insert s (snd (last attempts)) active) = Inr active'" by (auto simp: result_bind_Inr_iff split: if_splits)
  have "map_of m s = None" using Cons.prems(3) e by (simp add: map_of_eq_None_iff)
  with Cons.IH [OF c(3)] Cons.prems c(1,2) e show ?case by (auto simp: bt_wf_insert bt_get_insert split: option.splits)
qed simp

lemma chain_entries:
  assumes "grouped_wf m" "\<And>k a. attempt_at m k = Some a \<longleftrightarrow> a \<in> set as \<and> attempt_of a = k" "bt_get m s = Some attempts"
  shows "(n, a) \<in> set attempts \<longleftrightarrow> a \<in> set as \<and> attempt_of a = (s, n)"
proof -
  have "bt_wf attempts" using assms(1,3) by (auto simp: grouped_wf_def)
  then have "(n, a) \<in> set attempts \<longleftrightarrow> attempt_at m (s, n) = Some a"
    using assms(3) by (simp add: attempt_at_def unwrap_or_def bt_get_Some_iff)
  then show ?thesis using assms(2) by simp
qed

lemma chain_last:
  assumes "check_chain s 0 0 attempts = Inr ()" "attempts \<noteq> []" "(n, a) \<in> set attempts"
  shows "n \<le> fst (last attempts)" "(n', a') \<in> set attempts \<Longrightarrow> n < n' \<Longrightarrow> fence_of a < fence_of a'"
proof -
  have keys: "map fst attempts = [1..<1 + length attempts]" and fences: "sorted_wrt (<) (map (fence_of \<circ> snd) attempts)"
    using assms(1) by (simp_all add: check_chain_Inr)
  have nth: "fst (attempts ! i) = Suc i" if "i < length attempts" for i
    using that arg_cong [OF keys, of "\<lambda>xs. xs ! i"] by (simp del: upt_Suc)
  from assms(3) obtain i where i: "i < length attempts" "attempts ! i = (n, a)" by (auto simp: in_set_conv_nth)
  show "n \<le> fst (last attempts)" using nth [OF i(1)] nth [of "length attempts - 1"] i assms(2) by (simp add: last_conv_nth)
  assume "(n', a') \<in> set attempts" "n < n'"
  then obtain j where j: "j < length attempts" "attempts ! j = (n', a')" by (auto simp: in_set_conv_nth)
  have "n = Suc i" "n' = Suc j" using nth [OF i(1)] nth [OF j(1)] i(2) j(2) by simp_all
  with \<open>n < n'\<close> have "i < j" by simp
  with sorted_wrt_nth_less [OF fences, of i j] i j show "fence_of a < fence_of a'" by simp
qed

lemma validate_attempt_chains_Inr:
  assumes "validate_attempt_chains cd key ma b as = Inr active"
  shows "bt_wf active" "a \<in> set as \<Longrightarrow> attempt_valid cd key ma b a" "distinct (map attempt_of as)"
    "bt_get active s = Some a \<longleftrightarrow> a \<in> set as \<and> ac_shard_id (as_claims a) = s
       \<and> (\<forall>a' \<in> set as. ac_shard_id (as_claims a') = s \<longrightarrow> ac_attempt (as_claims a') \<le> ac_attempt (as_claims a))"
    "a \<in> set as \<Longrightarrow> a' \<in> set as \<Longrightarrow> ac_shard_id (as_claims a) = ac_shard_id (as_claims a') \<Longrightarrow>
       ac_attempt (as_claims a) < ac_attempt (as_claims a') \<Longrightarrow> fence_of a < fence_of a'"
proof -
  from assms obtain m where m: "group_attempts cd key ma b as {} [] = Inr m" "active_attempts m [] = Inr active"
    by (auto simp: validate_attempt_chains_def result_bind_Inr_iff)
  have empty: "grouped_wf []" "attempt_at [] k = None" for k
    by (simp_all add: grouped_wf_def attempt_at_def bt_get_Nil unwrap_or_def)
  note g = group_attempts_Inr [OF m(1) empty(1)]
  have at: "attempt_at m k = Some a \<longleftrightarrow> a \<in> set as \<and> attempt_of a = k" for k a using g(4) empty(2) by simp
  have wf: "bt_wf m" using g(1) by (simp add: grouped_wf_def)
  note act = active_attempts_Inr [OF m(2) _ bt_wf_distinct [OF wf]]
  show "bt_wf active" "a \<in> set as \<Longrightarrow> attempt_valid cd key ma b a" using act g(2) by simp_all
  have "inj_on attempt_of (set as)" using at by (metis (no_types) inj_onI option.inject)
  moreover have "distinct as" using g(3) by (simp add: distinct_map)
  ultimately show "distinct (map attempt_of as)" by (simp add: distinct_map)
  have chain: "\<exists>attempts. bt_get m s = Some attempts \<and> attempts \<noteq> [] \<and> check_chain s 0 0 attempts = Inr ()
      \<and> (\<forall>n a. (n, a) \<in> set attempts \<longleftrightarrow> a \<in> set as \<and> attempt_of a = (s, n)) \<and> bt_get active s = Some (snd (last attempts))"
    if "bt_get m s \<noteq> None" for s
  proof -
    from that obtain attempts where a: "bt_get m s = Some attempts" by blast
    then have "(s, attempts) \<in> set m" using wf by (simp add: bt_get_Some_iff)
    with act chain_entries [OF g(1) at a] a show ?thesis by (fastforce simp: bt_get_def)
  qed
  have some: "a \<in> set as \<Longrightarrow> bt_get m (ac_shard_id (as_claims a)) \<noteq> None" for a
    using at [of "attempt_of a" a] by (auto simp: attempt_at_def attempt_of_def unwrap_or_def bt_get_Nil split: option.splits)
  show "bt_get active s = Some a \<longleftrightarrow> a \<in> set as \<and> ac_shard_id (as_claims a) = s
       \<and> (\<forall>a' \<in> set as. ac_shard_id (as_claims a') = s \<longrightarrow> ac_attempt (as_claims a') \<le> ac_attempt (as_claims a))" (is "_ \<longleftrightarrow> ?top a")
  proof (cases "bt_get m s")
    case None
    then have "bt_get active s = None" using act by (simp add: bt_get_Nil bt_get_def)
    then show ?thesis using None some [of a] by auto
  next
    case (Some x)
    with chain [of s] obtain attempts where c: "attempts \<noteq> []" "check_chain s 0 0 attempts = Inr ()"
      "\<And>n a. (n, a) \<in> set attempts \<longleftrightarrow> a \<in> set as \<and> attempt_of a = (s, n)" "bt_get active s = Some (snd (last attempts))" by auto
    let ?l = "snd (last attempts)"
    have l: "?l \<in> set as" "attempt_of ?l = (s, fst (last attempts))" using c(3) [of "fst (last attempts)" ?l] c(1) by auto
    have top: "?top ?l" using l chain_last(1) [OF c(2,1)] c(3) by (auto simp: attempt_of_def)
    have "a = ?l" if "?top a"
    proof -
      have "ac_attempt (as_claims a) = ac_attempt (as_claims ?l)" using that top by (intro antisym) blast+
      then have "attempt_of a = attempt_of ?l" using that top by (simp add: attempt_of_def)
      then show ?thesis using at [of "attempt_of a"] that l(1) by (metis option.inject)
    qed
    with c(4) top show ?thesis by auto
  qed
  assume a: "a \<in> set as" "a' \<in> set as" "ac_shard_id (as_claims a) = ac_shard_id (as_claims a')"
    "ac_attempt (as_claims a) < ac_attempt (as_claims a')"
  from chain [OF some [OF a(1)]] obtain attempts where c: "attempts \<noteq> []" "check_chain (ac_shard_id (as_claims a)) 0 0 attempts = Inr ()"
      "\<And>n x. (n, x) \<in> set attempts \<longleftrightarrow> x \<in> set as \<and> attempt_of x = (ac_shard_id (as_claims a), n)" by auto
  have "(ac_attempt (as_claims a), a) \<in> set attempts" "(ac_attempt (as_claims a'), a') \<in> set attempts"
    using c(3) a(1-3) by (auto simp: attempt_of_def)
  then show "fence_of a < fence_of a'" using chain_last(2) [OF c(2,1)] a(4) by blast
qed

section \<open>Indexes\<close>

definition disposition_id :: "attempt_disposition \<Rightarrow> attempt_id" where
  "disposition_id d = (di_shard_id d, di_attempt d)"

definition receipt_id :: "shard_receipt \<Rightarrow> attempt_id" where
  "receipt_id r = (sr_shard_id r, sr_attempt r)"

lemma index_dispositions_Inr:
  assumes "index_dispositions cd key assignments ds m = Inr m'" "bt_wf m"
  shows "bt_wf m' \<and> (\<forall>d \<in> set ds. \<exists>a. bt_get assignments (disposition_id d) = Some a \<and> disposition_verify cd key a d = Inr ())
     \<and> (\<forall>k d. bt_get m' k = Some d \<longleftrightarrow> bt_get m k = Some d \<or> d \<in> set ds \<and> disposition_id d = k)"
  using assms
proof (induction ds arbitrary: m)
  case (Cons d ds)
  from Cons.prems(1) obtain a where a: "bt_get assignments (disposition_id d) = Some a" "disposition_verify cd key a d = Inr ()"
    "\<not> is_some_and (bt_get m (disposition_id d)) (\<lambda>previous. previous \<noteq> d)"
    "index_dispositions cd key assignments ds (bt_insert (disposition_id d) d m) = Inr m'"
    by (auto simp: disposition_id_def Let_def result_bind_Inr_iff split: option.splits if_splits)
  have "bt_get m (disposition_id d) = Some d' \<Longrightarrow> d' = d" for d' using a(3) by (simp add: is_some_and_def)
  then have "bt_get (bt_insert (disposition_id d) d m) k = Some d' \<longleftrightarrow> bt_get m k = Some d' \<or> d' = d \<and> disposition_id d = k" for k d'
    using Cons.prems(2) by (auto simp: bt_get_insert)
  with Cons.IH [OF a(4) bt_wf_insert [OF Cons.prems(2)]] a(1,2) show ?case by auto
qed simp

lemma index_receipts_Inr:
  assumes "index_receipts cd key pf assignments dispositions rs m = Inr m'" "bt_wf m"
  shows "(\<forall>r \<in> set rs. receipt_verify cd key r = Inr () \<and> (\<exists>a d. bt_get assignments (receipt_id r) = Some a
          \<and> bt_get dispositions (receipt_id r) = Some d \<and> validate_receipt_binding cd (pf_manifest pf) (pf_plan pf) a r = Inr ()
          \<and> validate_receipt_disposition cd d r = Inr ()))
     \<and> (\<forall>k r. bt_get m' k = Some r \<longleftrightarrow> bt_get m k = Some r \<or> r \<in> set rs \<and> receipt_id r = k)"
  using assms
proof (induction rs arbitrary: m)
  case (Cons r rs)
  from Cons.prems(1) obtain a d where a: "receipt_verify cd key r = Inr ()" "bt_get assignments (receipt_id r) = Some a"
    "validate_receipt_binding cd (pf_manifest pf) (pf_plan pf) a r = Inr ()" "bt_get dispositions (receipt_id r) = Some d"
    "validate_receipt_disposition cd d r = Inr ()" "\<not> is_some_and (bt_get m (receipt_id r)) (\<lambda>previous. previous \<noteq> r)"
    "index_receipts cd key pf assignments dispositions rs (bt_insert (receipt_id r) r m) = Inr m'"
    by (auto simp: receipt_id_def Let_def result_bind_Inr_iff ok_or_def split: option.splits if_splits)
  have "bt_get m (receipt_id r) = Some r' \<Longrightarrow> r' = r" for r' using a(6) by (simp add: is_some_and_def)
  then have "bt_get (bt_insert (receipt_id r) r m) k = Some r' \<longleftrightarrow> bt_get m k = Some r' \<or> r' = r \<and> receipt_id r = k" for k r'
    using Cons.prems(2) by (auto simp: bt_get_insert)
  with Cons.IH [OF a(7) bt_wf_insert [OF Cons.prems(2)]] a(1-5) show ?case by auto
qed simp

text \<open>What the loop over the declared shards reports.\<close>

lemma scan_shards_Inr:
  assumes "scan_shards cd active dispositions receipts ss = Inr (assigned, accepted, missing, failed)"
  shows "(missing = [] \<and> failed = []) \<longleftrightarrow> (\<forall>s \<in> set ss. \<exists>a r. bt_get active (sh_id s) = Some a
     \<and> bt_get dispositions (sh_id s, ac_attempt (as_claims a)) \<noteq> None
     \<and> bt_get receipts (sh_id s, ac_attempt (as_claims a)) = Some r \<and> sr_status r = ReceiptPassed)"
  using assms
proof (induction ss arbitrary: assigned accepted missing failed)
  case (Cons s ss)
  from Cons.prems obtain a assigned' accepted' missing' failed' where
    a: "bt_get active (sh_id s) = Some a" "scan_shards cd active dispositions receipts ss = Inr (assigned', accepted', missing', failed')"
    by (auto simp: result_bind_Inr_iff split: option.splits)
  with Cons.prems have m: "missing = [] \<and> failed = [] \<longleftrightarrow> missing' = [] \<and> failed' = []
      \<and> bt_get dispositions (sh_id s, ac_attempt (as_claims a)) \<noteq> None
      \<and> is_some_and (bt_get receipts (sh_id s, ac_attempt (as_claims a))) (\<lambda>r. sr_status r = ReceiptPassed)"
    by (auto simp: Let_def is_some_and_def split: option.splits if_splits)
  have "is_some_and v P \<longleftrightarrow> (\<exists>r. v = Some r \<and> P r)" for v :: "shard_receipt option" and P by (cases v) (auto simp: is_some_and_def)
  then show ?case unfolding m using Cons.IH [OF a(2)] a(1) by auto
qed simp

lemma status_of_Passed: "status_of missing failed = Passed \<longleftrightarrow> missing = [] \<and> failed = []"
  by (auto simp: status_of_def)

lemma map_filter_pairs:
  "sorted_wrt R (List.map_filter g xs) \<longleftrightarrow> sorted_wrt (\<lambda>x y. \<forall>e e'. g x = Some e \<longrightarrow> g y = Some e' \<longrightarrow> R e e') xs"
  by (induction xs) (auto simp: List.map_filter_simps set_map_filter_iff split: option.splits)

section \<open>What an aggregate guarantees\<close>

text \<open>What the intermediate results of a successful aggregation say of its input.\<close>

definition aggregated ::
  "proof_codec \<Rightarrow> controller_key \<Rightarrow> proof_context \<Rightarrow> controller_assignment list \<Rightarrow> attempt_disposition list \<Rightarrow> shard_receipt list
   \<Rightarrow> shadow_aggregate \<Rightarrow> proof_bindings \<Rightarrow> (nat \<times> controller_assignment) list \<Rightarrow> (attempt_id \<times> attempt_disposition) list
   \<Rightarrow> (attempt_id \<times> shard_receipt) list \<Rightarrow> bool" where
  "aggregated cd key pf as ds rs ag b active dispositions receipts \<longleftrightarrow>
     (context_validate cd pf = Inr () \<and> from_validated cd pf = Inr b)
     \<and> (\<forall>a \<in> set as. attempt_valid cd key (pf_manifest pf) b a)
     \<and> (\<forall>s a. bt_get active s = Some a \<longleftrightarrow> a \<in> set as \<and> ac_shard_id (as_claims a) = s
       \<and> (\<forall>a' \<in> set as. ac_shard_id (as_claims a') = s \<longrightarrow> ac_attempt (as_claims a') \<le> ac_attempt (as_claims a)))
     \<and> (\<forall>k a. bt_get (bt_collect (map (\<lambda>a. (attempt_of a, a)) as)) k = Some a \<longleftrightarrow> a \<in> set as \<and> attempt_of a = k)
     \<and> (bt_wf dispositions \<and> (\<forall>k d. bt_get dispositions k = Some d \<longleftrightarrow> d \<in> set ds \<and> disposition_id d = k))
     \<and> (\<forall>d \<in> set ds. \<exists>a \<in> set as. attempt_of a = disposition_id d \<and> disposition_verify cd key a d = Inr ())
     \<and> (\<forall>k r. bt_get receipts k = Some r \<longleftrightarrow> r \<in> set rs \<and> receipt_id r = k)
     \<and> (\<forall>r \<in> set rs. receipt_verify cd key r = Inr () \<and> (\<exists>a \<in> set as. \<exists>d \<in> set ds. attempt_of a = receipt_id r \<and> disposition_id d = receipt_id r
       \<and> validate_receipt_binding cd (pf_manifest pf) (pf_plan pf) a r = Inr () \<and> validate_receipt_disposition cd d r = Inr ()))
     \<and> (\<exists>executions. observed_executions (bt_collect (map (\<lambda>a. (attempt_of a, a)) as)) dispositions = Inr executions
       \<and> validate_execution_overlap (pf_inventory pf) (pf_plan pf) executions = Inr ())
     \<and> (ag_status ag = Passed \<longleftrightarrow> (\<forall>a \<in> set as. bt_get dispositions (attempt_of a) \<noteq> None) \<and>
       (\<forall>s \<in> set (pl_shards (pf_plan pf)). \<exists>a r. bt_get active (sh_id s) = Some a
          \<and> bt_get dispositions (sh_id s, ac_attempt (as_claims a)) \<noteq> None
          \<and> bt_get receipts (sh_id s, ac_attempt (as_claims a)) = Some r \<and> sr_status r = ReceiptPassed))"

lemma aggregate_Inr:
  assumes "aggregate_shadow_proof cd key pf as ds rs = Inr ag"
  obtains b active dispositions receipts where "aggregated cd key pf as ds rs ag b active dispositions receipts"
proof -
  let ?A = "bt_collect (map (\<lambda>a. (attempt_of a, a)) as)"
  from assms obtain b active dispositions receipts executions assigned accepted missing failed where
    s: "context_validate cd pf = Inr ()" "from_validated cd pf = Inr b"
    "validate_attempt_chains cd key (pf_manifest pf) b as = Inr active"
    "index_dispositions cd key ?A ds [] = Inr dispositions" "index_receipts cd key pf ?A dispositions rs [] = Inr receipts"
    "observed_executions ?A dispositions = Inr executions" "validate_execution_overlap (pf_inventory pf) (pf_plan pf) executions = Inr ()"
    "scan_shards cd active dispositions receipts (pl_shards (pf_plan pf)) = Inr (assigned, accepted, missing, failed)"
    and st: "ag_status ag = status_of (sort_dedup (map (\<lambda>a. ac_shard_id (as_claims a))
      (filter (\<lambda>a. bt_get dispositions (attempt_of a) = None) as) @ missing)) failed"
    by (auto simp: aggregate_shadow_proof_def result_bind_Inr_iff Let_def split: if_splits)
  note chains = validate_attempt_chains_Inr [OF s(3)]
  have A: "bt_get ?A k = Some a \<longleftrightarrow> a \<in> set as \<and> attempt_of a = k" for k a
    unfolding bt_get_collect_key(1) [OF chains(3), of "\<lambda>a. a"] by auto
  have wf: "bt_wf ([] :: (attempt_id \<times> 'v) list)" by simp
  note D = index_dispositions_Inr [OF s(4) wf] and R = index_receipts_Inr [OF s(5) wf]
  have dget: "bt_get dispositions k = Some d \<longleftrightarrow> d \<in> set ds \<and> disposition_id d = k" for k d using D by (cases k) (simp add: bt_get_Nil)
  have rget: "bt_get receipts k = Some r \<longleftrightarrow> r \<in> set rs \<and> receipt_id r = k" for k r using R by (cases k) (simp add: bt_get_Nil)
  have status: "ag_status ag = Passed \<longleftrightarrow> (\<forall>a \<in> set as. bt_get dispositions (attempt_of a) \<noteq> None) \<and> missing = [] \<and> failed = []"
    unfolding st status_of_Passed by (auto simp: filter_empty_conv)
  show thesis
  proof (rule that)
    show "aggregated cd key pf as ds rs ag b active dispositions receipts"
      unfolding aggregated_def
    proof (intro conjI)
      show "\<forall>a \<in> set as. attempt_valid cd key (pf_manifest pf) b a" using chains(2) by blast
      show "\<forall>d \<in> set ds. \<exists>a \<in> set as. attempt_of a = disposition_id d \<and> disposition_verify cd key a d = Inr ()" using D A by blast
      show "\<forall>r \<in> set rs. receipt_verify cd key r = Inr () \<and> (\<exists>a \<in> set as. \<exists>d \<in> set ds. attempt_of a = receipt_id r \<and> disposition_id d = receipt_id r
         \<and> validate_receipt_binding cd (pf_manifest pf) (pf_plan pf) a r = Inr () \<and> validate_receipt_disposition cd d r = Inr ())"
        using R A dget by blast
    qed (use s(1,2,6,7) chains(4) A D dget rget status [unfolded scan_shards_Inr [OF s(8)]] in blast)+
  qed
qed

lemma aggregatedD:
  assumes "aggregated cd key pf as ds rs ag b active dispositions receipts"
  shows "context_validate cd pf = Inr ()" "from_validated cd pf = Inr b"
    "a \<in> set as \<Longrightarrow> attempt_valid cd key (pf_manifest pf) b a"
    "bt_get active s = Some a \<longleftrightarrow> a \<in> set as \<and> ac_shard_id (as_claims a) = s
       \<and> (\<forall>a' \<in> set as. ac_shard_id (as_claims a') = s \<longrightarrow> ac_attempt (as_claims a') \<le> ac_attempt (as_claims a))"
    "bt_get (bt_collect (map (\<lambda>a. (attempt_of a, a)) as)) k = Some a \<longleftrightarrow> a \<in> set as \<and> attempt_of a = k"
    "bt_wf dispositions" "bt_get dispositions k = Some d \<longleftrightarrow> d \<in> set ds \<and> disposition_id d = k"
    "d \<in> set ds \<Longrightarrow> \<exists>a \<in> set as. attempt_of a = disposition_id d \<and> disposition_verify cd key a d = Inr ()"
    "bt_get receipts k = Some r \<longleftrightarrow> r \<in> set rs \<and> receipt_id r = k"
    "r \<in> set rs \<Longrightarrow> receipt_verify cd key r = Inr () \<and> (\<exists>a \<in> set as. \<exists>d \<in> set ds. attempt_of a = receipt_id r \<and> disposition_id d = receipt_id r
       \<and> validate_receipt_binding cd (pf_manifest pf) (pf_plan pf) a r = Inr () \<and> validate_receipt_disposition cd d r = Inr ())"
    "\<exists>executions. observed_executions (bt_collect (map (\<lambda>a. (attempt_of a, a)) as)) dispositions = Inr executions
       \<and> validate_execution_overlap (pf_inventory pf) (pf_plan pf) executions = Inr ()"
    "ag_status ag = Passed \<longleftrightarrow> (\<forall>a \<in> set as. bt_get dispositions (attempt_of a) \<noteq> None) \<and>
       (\<forall>s \<in> set (pl_shards (pf_plan pf)). \<exists>a r. bt_get active (sh_id s) = Some a
          \<and> bt_get dispositions (sh_id s, ac_attempt (as_claims a)) \<noteq> None
          \<and> bt_get receipts (sh_id s, ac_attempt (as_claims a)) = Some r \<and> sr_status r = ReceiptPassed)"
  using assms unfolding aggregated_def by blast+

lemma aggregate_plan:
  assumes "context_validate cd pf = Inr ()"
  shows "map sh_id (pl_shards (pf_plan pf)) = [0..<length (pl_shards (pf_plan pf))]"
    "t \<in> set (iv_tests (pf_inventory pf)) \<Longrightarrow> \<exists>s \<in> set (pl_shards (pf_plan pf)). tc_id t \<in> set (sh_test_ids s)"
    "s \<in> set (pl_shards (pf_plan pf)) \<Longrightarrow> plan_shard (pf_plan pf) (sh_id s) = Some s"
proof -
  note ok = context_validate_ok(1) [OF assms]
  show ids: "map sh_id (pl_shards (pf_plan pf)) = [0..<length (pl_shards (pf_plan pf))]" using ok by (simp add: plan_ok_def)
  show "\<exists>s \<in> set (pl_shards (pf_plan pf)). tc_id t \<in> set (sh_test_ids s)" if "t \<in> set (iv_tests (pf_inventory pf))"
  proof -
    have "tc_id t \<in> set (concat (map sh_test_ids (pl_shards (pf_plan pf))))" using ok that unfolding plan_ok_def by blast
    then show ?thesis by auto
  qed
  assume "s \<in> set (pl_shards (pf_plan pf))"
  then obtain i where i: "i < length (pl_shards (pf_plan pf))" "s = pl_shards (pf_plan pf) ! i" by (auto simp: in_set_conv_nth)
  then have "sh_id s = i" using arg_cong [OF ids, of "\<lambda>xs. xs ! i"] by simp
  with i show "plan_shard (pf_plan pf) (sh_id s) = Some s" by (simp add: plan_shard_def list_get_def)
qed

text \<open>
  The status is passed exactly when every assignment was closed by a disposition and the last attempt
  of every declared shard has a passed receipt.
\<close>

theorem aggregate_passed_iff:
  assumes "aggregate_shadow_proof cd key pf as ds rs = Inr ag"
  shows "ag_status ag = Passed \<longleftrightarrow> (\<forall>a \<in> set as. \<exists>d \<in> set ds. (di_shard_id d, di_attempt d) = attempt_of a)
     \<and> (\<forall>s \<in> set (pl_shards (pf_plan pf)). \<exists>a \<in> set as. \<exists>r \<in> set rs. ac_shard_id (as_claims a) = sh_id s
          \<and> (\<forall>a' \<in> set as. ac_shard_id (as_claims a') = sh_id s \<longrightarrow> ac_attempt (as_claims a') \<le> ac_attempt (as_claims a))
          \<and> (sr_shard_id r, sr_attempt r) = attempt_of a \<and> sr_status r = ReceiptPassed)"
proof -
  obtain b active dispositions receipts where ag: "aggregated cd key pf as ds rs ag b active dispositions receipts"
    by (rule aggregate_Inr [OF assms])
  note active = aggregatedD(4) [OF ag] and dget = aggregatedD(7) [OF ag] and rget = aggregatedD(9) [OF ag]
  have closed: "bt_get dispositions k \<noteq> None \<longleftrightarrow> (\<exists>d \<in> set ds. (di_shard_id d, di_attempt d) = k)" for k
    using dget [of k] by (auto simp: disposition_id_def)
  have "(\<exists>a r. bt_get active (sh_id s) = Some a \<and> bt_get dispositions (sh_id s, ac_attempt (as_claims a)) \<noteq> None
        \<and> bt_get receipts (sh_id s, ac_attempt (as_claims a)) = Some r \<and> sr_status r = ReceiptPassed)
     \<longleftrightarrow> (\<exists>a \<in> set as. \<exists>r \<in> set rs. ac_shard_id (as_claims a) = sh_id s
          \<and> (\<forall>a' \<in> set as. ac_shard_id (as_claims a') = sh_id s \<longrightarrow> ac_attempt (as_claims a') \<le> ac_attempt (as_claims a))
          \<and> (sr_shard_id r, sr_attempt r) = attempt_of a \<and> sr_status r = ReceiptPassed)"
    if "\<forall>a \<in> set as. bt_get dispositions (attempt_of a) \<noteq> None" for s
    using that unfolding active rget receipt_id_def attempt_of_def by metis
  then show ?thesis unfolding aggregatedD(12) [OF ag] unfolding closed by blast
qed

text \<open>
  (C14) Every test of a passed proof was run and passed, in the last attempt of its shard, on the artifact
  of the manifest, which the controller verified, by a worker with the capabilities the test
  requires; the assignment and the receipt carry authenticators made with the controller's key.
\<close>

theorem passed_proof_covers_every_test:
  assumes "aggregate_shadow_proof cd key pf as ds rs = Inr ag" "ag_status ag = Passed" "t \<in> set (iv_tests (pf_inventory pf))"
  shows "\<exists>a \<in> set as. \<exists>r \<in> set rs. (\<forall>a' \<in> set as. ac_shard_id (as_claims a') = ac_shard_id (as_claims a)
        \<longrightarrow> ac_attempt (as_claims a') \<le> ac_attempt (as_claims a))
     \<and> as_authentication a = assignment_authentication cd key (as_claims a)
     \<and> sr_acceptance_authentication r = receipt_authentication cd key r
     \<and> sr_assignment_digest r = assignment_digest cd a
     \<and> sr_artifact_sha256 r = ar_payload_sha256 (ma_artifact (pf_manifest pf)) \<and> sr_artifact_verified r
     \<and> (\<exists>outcome \<in> set (sr_outcomes r). oc_test_id outcome = tc_id t \<and> oc_status outcome = TestPassed)
     \<and> set (tc_required_capabilities t) \<subseteq> set (ac_capabilities (as_claims a))"
proof -
  obtain b active dispositions receipts where ag: "aggregated cd key pf as ds rs ag b active dispositions receipts"
    by (rule aggregate_Inr [OF assms(1)])
  note v = aggregatedD(1,2) [OF ag] and valid = aggregatedD(3) [OF ag] and active = aggregatedD(4) [OF ag] and A = aggregatedD(5) [OF ag]
    and rget = aggregatedD(9) [OF ag] and rs = aggregatedD(10) [OF ag] and status = aggregatedD(12) [OF ag]
  from aggregate_plan(2) [OF v(1) assms(3)] obtain s where s: "s \<in> set (pl_shards (pf_plan pf))" "tc_id t \<in> set (sh_test_ids s)" by blast
  with status assms(2) obtain a r where ar: "bt_get active (sh_id s) = Some a"
    "bt_get receipts (sh_id s, ac_attempt (as_claims a)) = Some r" "sr_status r = ReceiptPassed" by blast
  have a: "a \<in> set as" "ac_shard_id (as_claims a) = sh_id s"
    "\<forall>a' \<in> set as. ac_shard_id (as_claims a') = ac_shard_id (as_claims a) \<longrightarrow> ac_attempt (as_claims a') \<le> ac_attempt (as_claims a)"
    using ar(1) unfolding active by auto
  have r: "r \<in> set rs" "receipt_id r = attempt_of a" using ar(2) a(2) unfolding rget by (auto simp: attempt_of_def)
  from rs [OF r(1)] r(2) obtain a' where a': "a' \<in> set as" "attempt_of a' = attempt_of a"
    "validate_receipt_binding cd (pf_manifest pf) (pf_plan pf) a' r = Inr ()" "receipt_verify cd key r = Inr ()" by auto
  have "a' = a" using A [of "attempt_of a" a] A [of "attempt_of a" a'] a(1) a'(1,2) by simp
  with a'(3) aggregate_plan(3) [OF v(1) s(1)] a(2) have bound: "receipt_bound cd (pf_manifest pf) s a r"
    by (auto simp: validate_receipt_binding_def ok_or_def split: if_splits)
  have auth: "sr_acceptance_authentication r = receipt_authentication cd key r" "sr_status r = expected_status r"
    using a'(4) validate_structural_Inr(1) by (auto simp: receipt_verify_Inr)
  have passed: "sr_artifact_verified r" "\<forall>outcome \<in> set (sr_outcomes r). oc_status outcome = TestPassed"
    using auth(2) ar(3) by (auto simp: expected_status_def all_passed_def list_all_iff split: if_splits)
  have "tc_id t \<in> set (map oc_test_id (sr_outcomes r))" using bound s(2) by (simp add: receipt_bound_def Let_def)
  then obtain outcome where "outcome \<in> set (sr_outcomes r)" "oc_test_id outcome = tc_id t" by auto
  moreover have "set (tc_required_capabilities t) \<subseteq> set (ac_capabilities (as_claims a))"
    using capabilities_held [OF v _ s assms(3)] valid [OF a(1)] a(2) by (simp add: attempt_valid_def)
  moreover have "as_authentication a = assignment_authentication cd key (as_claims a)"
    using valid [OF a(1)] by (simp add: attempt_valid_def assignment_verify_Inr)
  moreover have "sr_assignment_digest r = assignment_digest cd a" "sr_artifact_sha256 r = ar_payload_sha256 (ma_artifact (pf_manifest pf))"
    using bound by (simp_all add: receipt_bound_def Let_def)
  ultimately show ?thesis using a(1,3) r(1) auth(1) passed by blast
qed

lemma observed_executions_filter:
  assumes "observed_executions A ds = Inr es"
  shows "es = List.map_filter (\<lambda>(k, d). observed_execution_of (the (bt_get A k)) d) ds"
proof -
  from assms obtain found where f: "es = List.map_filter id found"
    "list_all2 (\<lambda>kd x. (case kd of (k, d) \<Rightarrow> result_bind (bt_index A k) (\<lambda>a. Inr (observed_execution_of a d))) = Inr x) ds found"
    by (auto simp: observed_executions_def result_bind_Inr_iff collect_results_map_Inr)
  have "List.map_filter id found = List.map_filter (\<lambda>(k, d). observed_execution_of (the (bt_get A k)) d) ds"
    using f(2)
  proof (induction rule: list_all2_induct)
    case (Cons kd ds x found)
    then have "x = (case kd of (k, d) \<Rightarrow> observed_execution_of (the (bt_get A k)) d)"
      by (auto simp: result_bind_Inr_iff bt_index_def ok_or_def split: prod.splits option.splits)
    with Cons.IH show ?case by (auto simp: List.map_filter_simps split: option.splits)
  qed (simp add: List.map_filter_simps)
  with f(1) show ?thesis by simp
qed

text \<open>An execution that the controller closed is a proper interval of a declared shard.\<close>

lemma closed_execution:
  assumes "context_validate cd pf = Inr ()" "from_validated cd pf = Inr b" "attempt_valid cd key (pf_manifest pf) b a"
    and "disposition_verify cd key a d = Inr ()" "observed_execution_of a d = Some e"
  shows "proper e" "oe_shard_id e < length (pl_shards (pf_plan pf))"
proof -
  from assms(5) obtain started completed boundary teardown where
    k: "di_kind d = Executed started completed boundary teardown" "oe_started_at_ms e = started" "oe_completed_at_ms e = completed"
      "oe_shard_id e = ac_shard_id (as_claims a)"
    by (auto simp: observed_execution_of_def split: disposition_kind.splits)
  from assms(4) k show "proper e" by (auto simp: disposition_verify_Inr validate_disposition_kind_def proper_def split: if_splits)
  obtain b' where b: "from_validated cd pf = Inr b'" "length (bn_shards b') = length (pl_shards (pf_plan pf))"
    by (rule from_validated_ok [OF assms(1)])
  with assms(2) have "length (bn_shards b) = length (pl_shards (pf_plan pf))" by simp
  with assms(3) k(4) show "oe_shard_id e < length (pl_shards (pf_plan pf))"
    by (auto simp: attempt_valid_def validate_assignment_binding_cached_Inr binding_shard_def list_get_def split: if_splits)
qed

text \<open>
  (C15) Whatever its status, an aggregate is only made of executions of which no two conflict: attempts of
  one shard did not overlap, nothing ran beside a fleet-exclusive shard, and no lock was held twice.
\<close>

theorem aggregated_executions_disjoint:
  assumes ag: "aggregate_shadow_proof cd key pf as ds rs = Inr ag"
    and a: "a \<in> set as" "d \<in> set ds" "(di_shard_id d, di_attempt d) = attempt_of a" "observed_execution_of a d = Some e"
    and a': "a' \<in> set as" "d' \<in> set ds" "(di_shard_id d', di_attempt d') = attempt_of a'" "observed_execution_of a' d' = Some e'"
    and other: "attempt_of a \<noteq> attempt_of a'"
  shows "\<not> execution_conflict (pf_inventory pf) (pf_plan pf) e e'"
proof -
  let ?A = "bt_collect (map (\<lambda>a. (attempt_of a, a)) as)"
  obtain b active dispositions receipts where agd: "aggregated cd key pf as ds rs ag b active dispositions receipts"
    by (rule aggregate_Inr [OF ag])
  note D = aggregatedD [OF agd]
  from D(11) obtain es where es: "observed_executions ?A dispositions = Inr es"
    "validate_execution_overlap (pf_inventory pf) (pf_plan pf) es = Inr ()" by blast
  define g where "g = (\<lambda>(k, d). observed_execution_of (the (bt_get ?A k)) d)"
  have esg: "es = List.map_filter g dispositions" unfolding g_def by (rule observed_executions_filter [OF es(1)])
  have entry: "(attempt_of x, y) \<in> set dispositions" "g (attempt_of x, y) = observed_execution_of x y"
    if "x \<in> set as" "y \<in> set ds" "(di_shard_id y, di_attempt y) = attempt_of x" for x y
    using that D(7) [of "attempt_of x" y, unfolded bt_get_Some_iff [OF D(6)]] D(5) [of "attempt_of x" x] by (simp_all add: disposition_id_def g_def)
  have "proper x \<and> oe_shard_id x < length (pl_shards (pf_plan pf))" if x: "x \<in> set es" for x
  proof -
    from x esg obtain k y where ky: "(k, y) \<in> set dispositions" "g (k, y) = Some x" by (auto simp: set_map_filter_iff)
    with D(6,7) have y: "y \<in> set ds" "disposition_id y = k" by (auto simp flip: bt_get_Some_iff)
    from D(8) [OF y(1)] obtain z where z: "z \<in> set as" "attempt_of z = disposition_id y" "disposition_verify cd key z y = Inr ()" by blast
    with ky(2) y(2) D(5) [of k z] have "observed_execution_of z y = Some x" by (simp add: g_def)
    with closed_execution [OF D(1,2) D(3) [OF z(1)] z(3)] show ?thesis by blast
  qed
  with overlap_iff [OF context_validate_ok(2,1) [OF D(1)], of es] es(2)
  have "sorted_wrt (\<lambda>p e. \<not> execution_conflict (pf_inventory pf) (pf_plan pf) p e) es" by blast
  then have pairs: "sorted_wrt (\<lambda>x y. \<forall>e e'. g x = Some e \<longrightarrow> g y = Some e' \<longrightarrow> \<not> execution_conflict (pf_inventory pf) (pf_plan pf) e e') dispositions"
    unfolding esg map_filter_pairs .
  from entry(1) [OF a(1-3)] obtain i where i: "i < length dispositions" "dispositions ! i = (attempt_of a, d)" by (auto simp: in_set_conv_nth)
  from entry(1) [OF a'(1-3)] obtain j where j: "j < length dispositions" "dispositions ! j = (attempt_of a', d')" by (auto simp: in_set_conv_nth)
  have sym: "execution_conflict iv plan x y \<Longrightarrow> execution_conflict iv plan y x" for iv plan x y
    by (auto simp: execution_conflict_def overlap_def)
  have "i \<noteq> j" using i j other by auto
  then consider "i < j" | "j < i" by linarith
  then show ?thesis
  proof cases
    case 1
    from sorted_wrt_nth_less [OF pairs this j(1)] i(2) j(2) entry(2) a a' show ?thesis by auto
  next
    case 2
    from sorted_wrt_nth_less [OF pairs this i(1)] i(2) j(2) entry(2) a a' sym show ?thesis by auto
  qed
qed

section \<open>A sample aggregate\<close>

abbreviation sample_shards :: "nat list" where "sample_shards \<equiv> [0, 1, 2]"

abbreviation sample_assignments :: "controller_assignment list" where
  "sample_assignments \<equiv> map sample_assignment sample_shards"

abbreviation sample_dispositions :: "attempt_disposition list" where
  "sample_dispositions \<equiv> map sample_disposition sample_shards"

abbreviation sample_receipts :: "shard_receipt list" where
  "sample_receipts \<equiv> map sample_receipt sample_shards"

definition sample_execution :: "nat \<Rightarrow> observed_execution" where
  "sample_execution k = \<lparr>oe_shard_id = k, oe_execution_mode = sh_execution_mode (pl_shards sample_plan ! k), oe_host_id = ''h'',
     oe_started_at_ms = 10 * k, oe_completed_at_ms = 10 * k + 5\<rparr>"

lemma sample_ids:
  "ac_shard_id (as_claims (sample_assignment k)) = k" "ac_attempt (as_claims (sample_assignment k)) = 1"
  "ac_fence (as_claims (sample_assignment k)) = Suc k" "attempt_of (sample_assignment k) = (k, 1)"
  "di_shard_id (sample_disposition k) = k" "di_attempt (sample_disposition k) = 1"
  "sr_shard_id (sample_receipt k) = k" "sr_attempt (sample_receipt k) = 1"
  by (simp_all add: sample_assignment_def sample_claims_def attempt_of_def sample_disposition_def sample_open_disposition_def
      sample_receipt_def Let_def unsigned_receipt_def)

lemma sample_observed: "observed_execution_of (sample_assignment k) (sample_disposition k) = Some (sample_execution k)"
  by (simp add: observed_execution_of_def sample_disposition_def sample_open_disposition_def sample_execution_def sample_assignment_def
      sample_claims_def)

lemma sample_no_overlap: "validate_execution_overlap plan_sample sample_plan (map sample_execution sample_shards) = Inr ()"
  by code_simp

theorem overlap_check_is_pairwise_witness:
  "validate_execution_overlap plan_sample sample_plan (map sample_execution sample_shards) = Inr ()
   \<and> \<not> execution_conflict plan_sample sample_plan (sample_execution 0) (sample_execution 1)"
proof -
  have "\<forall>e \<in> set (map sample_execution sample_shards). oe_started_at_ms e < oe_completed_at_ms e \<and> oe_shard_id e < length (pl_shards sample_plan)"
    by (simp add: sample_execution_def sample_plan_def)
  from overlap_check_is_pairwise [OF sample_plan_valid this] sample_no_overlap
  have "\<forall>i j. i < j \<and> j < 3 \<longrightarrow> \<not> execution_conflict plan_sample sample_plan (map sample_execution sample_shards ! i) (map sample_execution sample_shards ! j)"
    by simp
  from this [rule_format, of 0 1] sample_no_overlap show ?thesis by simp
qed

lemma sample_receipt_verified:
  assumes "k < 3"
  shows "receipt_verify plan_codec sample_key (sample_receipt k) = Inr ()"
    "validate_receipt_binding plan_codec sample_manifest sample_plan (sample_assignment k) (sample_receipt k) = Inr ()"
    "validate_receipt_disposition plan_codec (sample_disposition k) (sample_receipt k) = Inr ()"
proof -
  have shard: "plan_shard sample_plan k = Some (pl_shards sample_plan ! k)" using assms by (simp add: plan_shard_def list_get_def sample_plan_def)
  show "receipt_verify plan_codec sample_key (sample_receipt k) = Inr ()"
    unfolding receipt_verify_Inr using sample_receipt_structural(1) [OF assms]
    by (simp add: sample_receipt_def Let_def unsigned_receipt_def receipt_authentication_def)
  show "validate_receipt_binding plan_codec sample_manifest sample_plan (sample_assignment k) (sample_receipt k) = Inr ()"
    using shard sample_outcomes_valid(1) [OF assms] sample_ids(1) [of k]
    by (simp add: validate_receipt_binding_def ok_or_def receipt_bound_def sample_receipt_def Let_def unsigned_receipt_def sample_report_def
        sample_observation_def sample_manifest_def sample_assignment_def sample_claims_def)
  show "validate_receipt_disposition plan_codec (sample_disposition k) (sample_receipt k) = Inr ()"
    by (simp add: validate_receipt_disposition_def sample_receipt_def Let_def unsigned_receipt_def sample_observation_def
        sample_disposition_def sample_open_disposition_def)
qed

lemma sample_context_fields:
  "pf_manifest sample_context = sample_manifest" "pf_inventory sample_context = plan_sample" "pf_plan sample_context = sample_plan"
  by (simp_all add: sample_context_def)

abbreviation sample_active :: "(nat \<times> controller_assignment) list" where
  "sample_active \<equiv> [(0, sample_assignment 0), (1, sample_assignment 1), (2, sample_assignment 2)]"

abbreviation sample_assigned :: "(attempt_id \<times> controller_assignment) list" where
  "sample_assigned \<equiv> [((0, 1), sample_assignment 0), ((1, 1), sample_assignment 1), ((2, 1), sample_assignment 2)]"

abbreviation sample_closed :: "(attempt_id \<times> attempt_disposition) list" where
  "sample_closed \<equiv> [((0, 1), sample_disposition 0), ((1, 1), sample_disposition 1), ((2, 1), sample_disposition 2)]"

abbreviation sample_indexed :: "(attempt_id \<times> shard_receipt) list" where
  "sample_indexed \<equiv> [((0, 1), sample_receipt 0), ((1, 1), sample_receipt 1), ((2, 1), sample_receipt 2)]"

lemma sample_chains:
  assumes "from_validated plan_codec sample_context = Inr b"
  shows "validate_attempt_chains plan_codec sample_key sample_manifest b sample_assignments = Inr sample_active"
proof -
  have "validate_assignment_binding_cached sample_manifest b (sample_assignment k) = Inr ()" if "k < 3" for k
    using sample_binding [OF that] validate_assignment_binding_Inr [OF sample_context_valid assms, of "sample_assignment k"]
    by (simp add: sample_context_fields)
  from this [of 0] this [of 1] this [of 2] show ?thesis
    by (simp add: validate_attempt_chains_def Let_def sample_assignment_verified sample_ids bt_get_def unwrap_or_def is_some_and_def)
qed

lemma sample_indexes:
  "bt_collect (map (\<lambda>a. (attempt_of a, a)) sample_assignments) = sample_assigned"
  "index_dispositions plan_codec sample_key sample_assigned sample_dispositions [] = Inr sample_closed"
  "observed_executions sample_assigned sample_closed = Inr (map sample_execution sample_shards)"
  by (simp_all add: bt_collect_def sample_ids Let_def bt_get_def sample_disposition_verified is_some_and_def observed_executions_def
      bt_index_def ok_or_def sample_observed List.map_filter_simps)

lemma sample_receipts_indexed:
  "index_receipts plan_codec sample_key sample_context sample_assigned sample_closed sample_receipts [] = Inr sample_indexed"
  using sample_receipt_verified [of 0] sample_receipt_verified [of 1] sample_receipt_verified [of 2]
  by (simp add: Let_def sample_ids bt_get_def ok_or_def sample_context_fields is_some_and_def)

lemma sample_scanned:
  "scan_shards plan_codec sample_active sample_closed sample_indexed (pl_shards sample_plan)
     = Inr (map (assignment_digest plan_codec) sample_assignments, sample_receipts, [], [])"
  "\<exists>ds. collect_results (map (receipt_digest_of plan_codec) sample_receipts) = Inr ds"
  using sample_receipt_structural [of 0] sample_receipt_structural [of 1] sample_receipt_structural [of 2]
  by (simp_all add: sample_plan_def bt_get_def sample_ids receipt_digest_of_def)

lemma sample_aggregated:
  "\<exists>ag. aggregate_shadow_proof plan_codec sample_key sample_context sample_assignments sample_dispositions sample_receipts = Inr ag
     \<and> ag_status ag = Passed"
proof -
  obtain b where b: "from_validated plan_codec sample_context = Inr b" by (rule from_validated_ok [OF sample_context_valid])
  obtain ds where ds: "collect_results (map (receipt_digest_of plan_codec) sample_receipts) = Inr ds" using sample_scanned(2) by blast
  have bounds: "validate_aggregate_input_bounds plan_codec (length (pl_shards sample_plan)) sample_assignments sample_dispositions sample_receipts = Inr ()"
    by (simp add: validate_aggregate_input_bounds_def result_bind_Inr_iff sample_plan_def sample_bound max_attempt_records_def)
  have count: "(length sample_active \<noteq> length (pl_shards sample_plan)) = False" by (simp add: sample_plan_def)
  have closed: "status_of (sort_dedup (map (\<lambda>a. ac_shard_id (as_claims a)) (filter (\<lambda>a. bt_get sample_closed (attempt_of a) = None) sample_assignments) @ [])) []
      = Passed" by (simp add: bt_get_def sample_ids status_of_def sort_dedup_def)
  show ?thesis
    unfolding aggregate_shadow_proof_def Let_def sample_context_fields sample_context_valid bounds b sample_chains [OF b] sample_indexes
      sample_receipts_indexed sample_no_overlap sample_scanned(1) ds result_bind_simps case_prod_conv count if_False
    using closed by simp
qed

theorem aggregate_passed_iff_witness:
  "\<exists>ag. aggregate_shadow_proof plan_codec sample_key sample_context sample_assignments sample_dispositions sample_receipts = Inr ag
     \<and> ag_status ag = Passed \<and> (\<exists>d \<in> set sample_dispositions. (di_shard_id d, di_attempt d) = attempt_of (sample_assignment 1))"
proof -
  from sample_aggregated obtain ag where ag: "ag_status ag = Passed"
    "aggregate_shadow_proof plan_codec sample_key sample_context sample_assignments sample_dispositions sample_receipts = Inr ag" by blast
  have "sample_assignment 1 \<in> set sample_assignments" by simp
  with aggregate_passed_iff [OF ag(2)] ag show ?thesis by blast
qed

theorem passed_proof_covers_every_test_witness:
  "\<exists>r \<in> set sample_receipts. \<exists>outcome \<in> set (sr_outcomes r). oc_test_id outcome = tc_id (hd (iv_tests plan_sample)) \<and> oc_status outcome = TestPassed"
proof -
  from sample_aggregated obtain ag where ag: "ag_status ag = Passed"
    "aggregate_shadow_proof plan_codec sample_key sample_context sample_assignments sample_dispositions sample_receipts = Inr ag" by blast
  have "hd (iv_tests plan_sample) \<in> set (iv_tests (pf_inventory sample_context))" by (simp add: sample_context_fields plan_sample_def)
  from passed_proof_covers_every_test [OF ag(2,1) this] show ?thesis by blast
qed

theorem aggregated_executions_disjoint_witness:
  "\<not> execution_conflict plan_sample sample_plan (sample_execution 1) (sample_execution 2)"
proof -
  from sample_aggregated obtain ag where ag:
    "aggregate_shadow_proof plan_codec sample_key sample_context sample_assignments sample_dispositions sample_receipts = Inr ag" by blast
  have a: "sample_assignment k \<in> set sample_assignments" "sample_disposition k \<in> set sample_dispositions"
    "(di_shard_id (sample_disposition k), di_attempt (sample_disposition k)) = attempt_of (sample_assignment k)"
    if "k \<in> set sample_shards" for k using that by (auto simp: sample_ids)
  have k: "1 \<in> set sample_shards" "2 \<in> set sample_shards" "attempt_of (sample_assignment 1) \<noteq> attempt_of (sample_assignment 2)"
    by (simp_all add: sample_ids)
  from aggregated_executions_disjoint [OF ag a [OF k(1)] sample_observed a [OF k(2)] sample_observed k(3)] show ?thesis
    by (simp add: sample_context_fields)
qed

end
