(* ===== verification/Proof_Store.thy ===== *)
theory Proof_Store
  imports Shadow_Proof "HOL-Library.Sublist"
begin

text \<open>
  \<open>ParallelProofStore\<close> of \<open>src/src/parallel_proof.rs\<close>: the durable, write-once store of the records of
  a sharded proof.

  A file system is its nodes and the directory entries that a sync has made durable; a power loss
  drops every entry that is not durable, or whose directory is lost. Temporary files have names of
  their own and are left out. An exclusive lock on the record makes a publication one step; what
  another program created since the code looked is an argument of type \<open>races\<close>. Failures of the
  device are left out, and \<open>serde_json\<close> is the record \<open>store_codec\<close>.

  The lemmas show that a completed write survives every later step and power loss, that it reads
  back, that an interrupted write can be repeated, and that no other record takes its place.
\<close>

section \<open>Files\<close>

text \<open>A path is what \<open>Path::components\<close> yields; \<open>[]\<close> is the current directory.\<close>

datatype path_component = RootDir | CurDir | ParentDir | Normal string

type_synonym path = "path_component list"

datatype fs_node = RegularFile string | Directory | OtherNode

record file_system =
  fs_nodes :: "path \<Rightarrow> fs_node option"
  fs_durable :: "path \<Rightarrow> bool"

definition fs_node :: "file_system \<Rightarrow> path \<Rightarrow> fs_node option" where
  "fs_node fs p = (if p = [] then Some Directory else fs_nodes fs p)"

text \<open>A new entry is not durable before its directory is synced.\<close>

definition fs_create :: "path \<Rightarrow> fs_node \<Rightarrow> file_system \<Rightarrow> file_system" where
  "fs_create p n fs = fs\<lparr>fs_nodes := (fs_nodes fs)(p \<mapsto> n), fs_durable := (fs_durable fs)(p := False)\<rparr>"

definition fs_race :: "path \<Rightarrow> fs_node option \<Rightarrow> file_system \<Rightarrow> file_system" where
  "fs_race p race fs = (case race of Some n \<Rightarrow> if fs_node fs p = None then fs_create p n fs else fs | None \<Rightarrow> fs)"

definition sync_directory :: "path \<Rightarrow> file_system \<Rightarrow> file_system" where
  "sync_directory d fs = fs\<lparr>fs_durable := (\<lambda>p. fs_durable fs p \<or> (p \<noteq> [] \<and> butlast p = d \<and> fs_nodes fs p \<noteq> None))\<rparr>"

definition survives :: "(path \<Rightarrow> bool) \<Rightarrow> file_system \<Rightarrow> path \<Rightarrow> bool" where
  "survives kept fs p = list_all (\<lambda>q. q = [] \<or> fs_durable fs q \<or> kept q) (prefixes p)"

definition power_loss :: "(path \<Rightarrow> bool) \<Rightarrow> file_system \<Rightarrow> file_system" where
  "power_loss kept fs = fs\<lparr>fs_nodes := (\<lambda>p. if survives kept fs p then fs_nodes fs p else None),
     fs_durable := (\<lambda>p. fs_durable fs p \<and> survives kept fs p)\<rparr>"

fun component_display :: "path_component \<Rightarrow> string" where
  "component_display RootDir = []"
| "component_display CurDir = ''.''"
| "component_display ParentDir = ''..''"
| "component_display (Normal name) = name"

definition path_display :: "path \<Rightarrow> string" where
  "path_display p = (if p = [RootDir] then ''/'' else join ''/'' (map component_display p))"

type_synonym 'a fs_result = "'a proof_result \<times> file_system"

definition fs_bind :: "'a fs_result \<Rightarrow> ('a \<Rightarrow> file_system \<Rightarrow> 'b fs_result) \<Rightarrow> 'b fs_result" where
  "fs_bind m f = (case m of (Inl e, fs) \<Rightarrow> (Inl e, fs) | (Inr a, fs) \<Rightarrow> f a fs)"

definition not_real_directory :: "path \<Rightarrow> proof_error" where
  "not_real_directory d = CorruptRecord (path_display d @ '' is not a real directory'')"

text \<open>\<open>create_dir\<close> fails when the parent is not a directory, and finds what another program created meanwhile.\<close>

definition make_directory :: "path \<Rightarrow> fs_node option \<Rightarrow> file_system \<Rightarrow> unit fs_result" where
  "make_directory d race fs = (case fs_node fs d of
       Some Directory \<Rightarrow> (Inr (), fs)
     | Some _ \<Rightarrow> (Inl (not_real_directory d), fs)
     | None \<Rightarrow> (let fs' = fs_race d race fs in
         case fs_node fs' d of
           None \<Rightarrow> if fs_node fs' (butlast d) = Some Directory then (Inr (), fs_create d Directory fs')
                    else (Inl (IoError ''no such directory''), fs')
         | Some Directory \<Rightarrow> (Inr (), fs')
         | Some _ \<Rightarrow> (Inl (not_real_directory d), fs')))"

definition ensure_store_child_directory :: "path \<Rightarrow> path \<Rightarrow> fs_node option \<Rightarrow> file_system \<Rightarrow> unit fs_result" where
  "ensure_store_child_directory root d race fs = fs_bind (make_directory d race fs) (\<lambda>_ fs. (Inr (), sync_directory root fs))"

definition reject_non_regular_if_present :: "path \<Rightarrow> file_system \<Rightarrow> unit proof_result" where
  "reject_non_regular_if_present p fs = (case fs_node fs p of
       None \<Rightarrow> Inr ()
     | Some (RegularFile _) \<Rightarrow> Inr ()
     | Some _ \<Rightarrow> Inl (CorruptRecord (path_display p @ '' is not a regular file'')))"

definition read_bounded :: "path \<Rightarrow> file_system \<Rightarrow> string proof_result" where
  "read_bounded p fs = (case fs_node fs p of
       Some (RegularFile bytes) \<Rightarrow>
         if max_record_bytes < length bytes
         then Inl (LimitExceeded ''durable record bytes'' max_record_bytes (max_record_bytes + 1)) else Inr bytes
     | Some _ \<Rightarrow> Inl (IoError ''not a file'')
     | None \<Rightarrow> Inl (IoError ''no such file''))"

section \<open>Opening the store\<close>

definition has_file_name :: "path \<Rightarrow> bool" where
  "has_file_name p = (p \<noteq> [] \<and> (case last p of Normal _ \<Rightarrow> True | _ \<Rightarrow> False))"

definition store_root_parent :: "path \<Rightarrow> path proof_result" where
  "store_root_parent root = (if root = [] \<or> last root = RootDir then Inl (InvalidField ''store root parent'') else Inr (butlast root))"

definition store_open :: "path \<Rightarrow> fs_node option \<Rightarrow> file_system \<Rightarrow> unit fs_result" where
  "store_open root race fs =
     (if \<not> has_file_name root \<or> list_ex (\<lambda>c. c = CurDir \<or> c = ParentDir) root
      then (Inl (InvalidField ''store root''), fs)
      else fs_bind (store_root_parent root, fs) (\<lambda>parent fs.
        if fs_node fs parent \<noteq> Some Directory then (Inl (InvalidField ''store root parent''), fs)
        else fs_bind (make_directory root race fs) (\<lambda>_ fs.
          (Inr (), sync_directory root (sync_directory parent fs)))))"

section \<open>Writing and reading\<close>

datatype record_kind = ManifestRecord | InventoryRecord | PlanRecord | AssignmentRecord | DispositionRecord | ReceiptRecord

fun kind_directory :: "record_kind \<Rightarrow> string" where
  "kind_directory ManifestRecord = ''manifests''"
| "kind_directory InventoryRecord = ''inventories''"
| "kind_directory PlanRecord = ''plans''"
| "kind_directory AssignmentRecord = ''assignments''"
| "kind_directory DispositionRecord = ''dispositions''"
| "kind_directory ReceiptRecord = ''receipts''"

record 'j stored_envelope =
  en_schema_version :: nat
  en_kind :: record_kind
  en_logical_key :: string
  en_payload_sha256 :: sha256
  en_payload :: 'j

text \<open>
  \<open>serde_json\<close>: a record as a JSON value, the bytes of a value and of an envelope, and the three
  readers, which fail with a message.
\<close>

record 'j store_codec =
  sc_to_value :: "proof_value \<Rightarrow> 'j"
  sc_value_bytes :: "'j \<Rightarrow> string"
  sc_envelope_bytes :: "'j stored_envelope \<Rightarrow> string"
  sc_read_envelope :: "string \<Rightarrow> string + 'j stored_envelope"
  sc_read_receipt :: "'j \<Rightarrow> string + shard_receipt"
  sc_read_disposition :: "'j \<Rightarrow> string + attempt_disposition"

datatype crash_point = NoCrash | AfterTempSync | AfterPublish

record races =
  rc_directory :: "fs_node option"
  rc_destination :: "fs_node option"

definition no_races :: races where "no_races = \<lparr>rc_directory = None, rc_destination = None\<rparr>"

definition store_file_stem :: "proof_codec \<Rightarrow> record_kind \<Rightarrow> string \<Rightarrow> string" where
  "store_file_stem cd kind key =
     pc_hex cd (pc_digest cd (''shipyard.parallel-proof.store-key.v1'' @ kind_directory kind @ key))"

definition store_directory :: "path \<Rightarrow> record_kind \<Rightarrow> path" where
  "store_directory root kind = root @ [Normal (kind_directory kind)]"

definition store_file :: "proof_codec \<Rightarrow> path \<Rightarrow> record_kind \<Rightarrow> string \<Rightarrow> string \<Rightarrow> path" where
  "store_file cd root kind key extension = store_directory root kind @ [Normal (store_file_stem cd kind key @ extension)]"

text \<open>A file that is there is kept if it has the same bytes, and is a conflict otherwise.\<close>

definition retain :: "path \<Rightarrow> path \<Rightarrow> string \<Rightarrow> string \<Rightarrow> file_system \<Rightarrow> write_outcome fs_result" where
  "retain directory destination key bytes fs = fs_bind (read_bounded destination fs, fs) (\<lambda>existing fs.
     if existing = bytes then (Inr AlreadyPresent, sync_directory directory fs)
     else (Inl (ImmutableConflict key), fs))"

text \<open>The closure that runs under the lock.\<close>

definition publish_locked ::
  "path \<Rightarrow> path \<Rightarrow> fs_node option \<Rightarrow> crash_point \<Rightarrow> string \<Rightarrow> string \<Rightarrow> file_system \<Rightarrow> write_outcome fs_result" where
  "publish_locked directory destination race crash key bytes fs =
     (if fs_node fs destination \<noteq> None then retain directory destination key bytes fs
      else if crash = AfterTempSync then (Inl (CrashInjected ''after_temp_sync''), fs)
      else let fs' = fs_race destination race fs in
        if fs_node fs' destination \<noteq> None then retain directory destination key bytes fs'
        else let fs'' = fs_create destination (RegularFile bytes) fs' in
          if crash = AfterPublish then (Inl (CrashInjected ''after_publish''), fs'')
          else (Inr Created, sync_directory directory fs''))"

definition record_publish ::
  "proof_codec \<Rightarrow> path \<Rightarrow> races \<Rightarrow> crash_point \<Rightarrow> record_kind \<Rightarrow> string \<Rightarrow> string \<Rightarrow> file_system \<Rightarrow> write_outcome fs_result" where
  "record_publish cd root races crash kind key bytes fs =
     (let directory = store_directory root kind; destination = store_file cd root kind key ''.json'';
          lock = store_file cd root kind key ''.lock'' in
      fs_bind (ensure_store_child_directory root directory (rc_directory races) fs) (\<lambda>_ fs.
      fs_bind (reject_non_regular_if_present destination fs, fs) (\<lambda>_ fs.
      fs_bind (reject_non_regular_if_present lock fs, fs) (\<lambda>_ fs.
        publish_locked directory destination (rc_destination races) crash key bytes
          (fs_race lock (Some (RegularFile [])) fs)))))"

definition payload_digest :: "proof_codec \<Rightarrow> 'j store_codec \<Rightarrow> 'j \<Rightarrow> sha256" where
  "payload_digest cd sc payload = framed_digest cd ''shipyard.parallel-proof.store-payload.v1'' (sc_value_bytes sc payload)"

definition envelope_of :: "proof_codec \<Rightarrow> 'j store_codec \<Rightarrow> record_kind \<Rightarrow> string \<Rightarrow> proof_value \<Rightarrow> 'j stored_envelope" where
  "envelope_of cd sc kind key v = (let payload = sc_to_value sc v in
     \<lparr>en_schema_version = proof_schema_version, en_kind = kind, en_logical_key = key,
      en_payload_sha256 = payload_digest cd sc payload, en_payload = payload\<rparr>)"

definition record_put ::
  "proof_codec \<Rightarrow> 'j store_codec \<Rightarrow> path \<Rightarrow> races \<Rightarrow> crash_point \<Rightarrow> record_kind \<Rightarrow> string \<Rightarrow> proof_value
   \<Rightarrow> file_system \<Rightarrow> write_outcome fs_result" where
  "record_put cd sc root races crash kind key v fs =
     fs_bind (validate_identifier ''record key'' key, fs) (\<lambda>_ fs.
     let payload_bytes = sc_value_bytes sc (sc_to_value sc v) in
     if max_payload_bytes < length payload_bytes
     then (Inl (LimitExceeded ''durable payload bytes'' max_payload_bytes (length payload_bytes)), fs)
     else let bytes = sc_envelope_bytes sc (envelope_of cd sc kind key v) in
       if max_record_bytes < length bytes
       then (Inl (LimitExceeded ''durable record bytes'' max_record_bytes (length bytes)), fs)
       else record_publish cd root races crash kind key bytes fs)"

definition read_json :: "string + 'a \<Rightarrow> 'a proof_result" where
  "read_json r = (case r of Inl e \<Rightarrow> Inl (CorruptRecord e) | Inr a \<Rightarrow> Inr a)"

definition record_load ::
  "proof_codec \<Rightarrow> 'j store_codec \<Rightarrow> path \<Rightarrow> record_kind \<Rightarrow> ('j \<Rightarrow> string + 'a) \<Rightarrow> string \<Rightarrow> file_system \<Rightarrow> 'a proof_result" where
  "record_load cd sc root kind read key fs =
     result_bind (validate_identifier ''record key'' key) (\<lambda>_.
     let p = store_file cd root kind key ''.json'' in
     result_bind (reject_non_regular_if_present p fs) (\<lambda>_.
     if fs_node fs p = None then Inl (MissingRecord key)
     else result_bind (read_bounded p fs) (\<lambda>bytes.
       result_bind (read_json (sc_read_envelope sc bytes)) (\<lambda>e.
       if en_schema_version e \<noteq> proof_schema_version \<or> en_kind e \<noteq> kind \<or> en_logical_key e \<noteq> key
       then Inl (CorruptRecord ''envelope identity mismatch'')
       else if payload_digest cd sc (en_payload e) \<noteq> en_payload_sha256 e
       then Inl (CorruptRecord ''payload digest mismatch'')
       else read_json (read (en_payload e))))))"

section \<open>The operations of the store\<close>

definition record_manifest ::
  "proof_codec \<Rightarrow> 'j store_codec \<Rightarrow> path \<Rightarrow> races \<Rightarrow> proof_manifest \<Rightarrow> test_inventory \<Rightarrow> shard_plan \<Rightarrow> file_system \<Rightarrow> write_outcome fs_result" where
  "record_manifest cd sc root races ma iv plan fs = fs_bind (manifest_digest cd ma iv plan, fs) (\<lambda>key.
     record_put cd sc root races NoCrash ManifestRecord key (ManifestValue ma))"

definition record_inventory ::
  "proof_codec \<Rightarrow> 'j store_codec \<Rightarrow> path \<Rightarrow> races \<Rightarrow> test_inventory \<Rightarrow> file_system \<Rightarrow> write_outcome fs_result" where
  "record_inventory cd sc root races iv fs = fs_bind (inventory_digest cd iv, fs) (\<lambda>key.
     record_put cd sc root races NoCrash InventoryRecord key (InventoryValue iv))"

definition record_plan ::
  "proof_codec \<Rightarrow> 'j store_codec \<Rightarrow> path \<Rightarrow> races \<Rightarrow> test_inventory \<Rightarrow> shard_plan \<Rightarrow> file_system \<Rightarrow> write_outcome fs_result" where
  "record_plan cd sc root races iv plan fs = fs_bind (plan_digest cd plan iv, fs) (\<lambda>key.
     record_put cd sc root races NoCrash PlanRecord key (PlanValue plan))"

definition record_assignment ::
  "proof_codec \<Rightarrow> 'j store_codec \<Rightarrow> path \<Rightarrow> races \<Rightarrow> controller_key \<Rightarrow> controller_assignment \<Rightarrow> file_system \<Rightarrow> write_outcome fs_result" where
  "record_assignment cd sc root races key a fs = fs_bind (assignment_verify cd key a, fs) (\<lambda>_.
     record_put cd sc root races NoCrash AssignmentRecord (assignment_logical_key a) (AssignmentValue a))"

definition record_disposition ::
  "proof_codec \<Rightarrow> 'j store_codec \<Rightarrow> path \<Rightarrow> races \<Rightarrow> controller_key \<Rightarrow> controller_assignment \<Rightarrow> attempt_disposition
   \<Rightarrow> file_system \<Rightarrow> write_outcome fs_result" where
  "record_disposition cd sc root races key a d fs = fs_bind (disposition_verify cd key a d, fs) (\<lambda>_.
     record_put cd sc root races NoCrash DispositionRecord (disposition_logical_key d) (DispositionValue d))"

definition record_receipt ::
  "proof_codec \<Rightarrow> 'j store_codec \<Rightarrow> path \<Rightarrow> races \<Rightarrow> controller_key \<Rightarrow> shard_receipt \<Rightarrow> file_system \<Rightarrow> write_outcome fs_result" where
  "record_receipt cd sc root races key r fs = fs_bind (receipt_verify cd key r, fs) (\<lambda>_.
     record_put cd sc root races NoCrash ReceiptRecord (receipt_logical_key r) (ReceiptValue r))"

definition load_receipt_record ::
  "proof_codec \<Rightarrow> 'j store_codec \<Rightarrow> path \<Rightarrow> controller_key \<Rightarrow> string \<Rightarrow> file_system \<Rightarrow> shard_receipt proof_result" where
  "load_receipt_record cd sc root key logical_key fs =
     result_bind (record_load cd sc root ReceiptRecord (sc_read_receipt sc) logical_key fs) (\<lambda>r.
     result_bind (receipt_verify cd key r) (\<lambda>_.
     if receipt_logical_key r \<noteq> logical_key then Inl (CorruptRecord ''receipt logical key mismatch'') else Inr r))"

definition load_disposition ::
  "proof_codec \<Rightarrow> 'j store_codec \<Rightarrow> path \<Rightarrow> controller_key \<Rightarrow> controller_assignment \<Rightarrow> string \<Rightarrow> file_system
   \<Rightarrow> attempt_disposition proof_result" where
  "load_disposition cd sc root key a logical_key fs =
     result_bind (record_load cd sc root DispositionRecord (sc_read_disposition sc) logical_key fs) (\<lambda>d.
     result_bind (disposition_verify cd key a d) (\<lambda>_.
     if disposition_logical_key d \<noteq> logical_key then Inl (CorruptRecord ''disposition logical key mismatch'') else Inr d))"

text \<open>
  One step of the machine: an operation of the store, interrupted or not, another program creating a
  file or syncing a directory, or a power loss.
\<close>

inductive store_step :: "proof_codec \<Rightarrow> 'j store_codec \<Rightarrow> path \<Rightarrow> file_system \<Rightarrow> file_system \<Rightarrow> bool"
  for cd :: proof_codec and sc :: "'j store_codec" and root :: path where
  opened: "store_step cd sc root fs (snd (store_open root race fs))"
| put: "store_step cd sc root fs (snd (record_put cd sc root races crash kind key v fs))"
| foreign: "fs_node fs p = None \<Longrightarrow> store_step cd sc root fs (fs_create p n fs)"
| synced: "store_step cd sc root fs (sync_directory d fs)"
| lost: "store_step cd sc root fs (power_loss kept fs)"

definition store_run :: "proof_codec \<Rightarrow> 'j store_codec \<Rightarrow> path \<Rightarrow> file_system \<Rightarrow> file_system \<Rightarrow> bool" where
  "store_run cd sc root = (store_step cd sc root)\<^sup>*\<^sup>*"

section \<open>Durable entries\<close>

text \<open>An entry is settled when it and every directory above it are durable.\<close>

definition settled :: "file_system \<Rightarrow> path \<Rightarrow> bool" where
  "settled fs p \<longleftrightarrow> (\<forall>q. prefix q p \<and> q \<noteq> [] \<longrightarrow> fs_durable fs q \<and> fs_nodes fs q \<noteq> None)"

text \<open>What every operation short of a power loss keeps.\<close>

definition grows :: "file_system \<Rightarrow> file_system \<Rightarrow> bool" where
  "grows fs fs' \<longleftrightarrow> (\<forall>p n. p \<noteq> [] \<and> fs_nodes fs p = Some n \<longrightarrow> fs_nodes fs' p = Some n \<and> (fs_durable fs p \<longrightarrow> fs_durable fs' p))"

lemma grows_refl [simp, intro]: "grows fs fs"
  by (simp add: grows_def)

lemma grows_trans [trans]: "grows fs fs' \<Longrightarrow> grows fs' fs'' \<Longrightarrow> grows fs fs''"
  by (simp add: grows_def)

lemma grows_create: "fs_node fs p = None \<Longrightarrow> grows fs (fs_create p n fs)"
  by (auto simp: grows_def fs_create_def fs_node_def split: if_splits)

lemma grows_race [simp, intro]: "grows fs (fs_race p race fs)"
  using grows_create by (auto simp: fs_race_def split: option.splits)

lemma grows_sync [simp, intro]: "grows fs (sync_directory d fs)"
  by (simp add: grows_def sync_directory_def)

lemma fs_node_grows: "grows fs fs' \<Longrightarrow> fs_node fs p = Some n \<Longrightarrow> fs_node fs' p = Some n"
  by (auto simp: grows_def fs_node_def split: if_splits)

lemma fs_node_sync [simp]: "fs_node (sync_directory d fs) p = fs_node fs p"
  by (simp add: fs_node_def sync_directory_def)

lemma fs_node_create [simp]: "fs_node (fs_create p n fs) q = (if q = p \<and> q \<noteq> [] then Some n else fs_node fs q)"
  by (simp add: fs_node_def fs_create_def)

lemma settled_grows:
  assumes "grows fs fs'" "settled fs p"
  shows "settled fs' p" "fs_node fs' p = fs_node fs p"
proof -
  show "settled fs' p" using assms unfolding settled_def grows_def by blast
  have "p \<noteq> [] \<Longrightarrow> fs_nodes fs p \<noteq> None" using assms(2) by (auto simp: settled_def)
  then show "fs_node fs' p = fs_node fs p" using assms(1) by (auto simp: fs_node_def grows_def)
qed

lemma settled_snoc: "settled fs (p @ [c]) \<longleftrightarrow> settled fs p \<and> fs_durable fs (p @ [c]) \<and> fs_nodes fs (p @ [c]) \<noteq> None"
  by (auto simp: settled_def)

lemma settled_power_loss:
  assumes "settled fs p"
  shows "settled (power_loss kept fs) p" "fs_node (power_loss kept fs) p = fs_node fs p"
proof -
  have "survives kept fs q" if "prefix q p" for q
    using assms that prefix_order.order_trans [of _ q p] unfolding survives_def settled_def by (auto simp: list_all_iff)
  then show "settled (power_loss kept fs) p" "fs_node (power_loss kept fs) p = fs_node fs p"
    using assms by (auto simp: settled_def power_loss_def fs_node_def)
qed

text \<open>A sync settles the entries of a settled directory.\<close>

lemma settled_sync: "settled fs d \<Longrightarrow> fs_node fs (d @ [c]) \<noteq> None \<Longrightarrow> settled (sync_directory d fs) (d @ [c])"
  using settled_grows(1) [OF grows_sync, of fs d d] by (simp add: settled_snoc sync_directory_def fs_node_def)

lemma fs_bind_grows:
  assumes "grows fs (snd m)" "\<And>a fs'. m = (Inr a, fs') \<Longrightarrow> grows fs' (snd (f a fs'))"
  shows "grows fs (snd (fs_bind m f))"
  using assms grows_trans by (cases m; cases "fst m") (fastforce simp: fs_bind_def)+

lemma fs_bind_Inr: "fs_bind m f = (Inr b, fs') \<longleftrightarrow> (\<exists>a fs. m = (Inr a, fs) \<and> f a fs = (Inr b, fs'))"
  by (auto simp: fs_bind_def split: prod.splits sum.splits)

lemma fs_bind_simps [simp]: "fs_bind (Inr a, fs) f = f a fs" "fs_bind (Inl e, fs) f = (Inl e, fs)"
  by (simp_all add: fs_bind_def)

lemma make_directory_grows: "grows fs (snd (make_directory d race fs))"
proof -
  have "grows fs (fs_create d Directory (fs_race d race fs))" if "fs_node (fs_race d race fs) d = None"
    using grows_trans [OF grows_race grows_create [OF that]] .
  then show ?thesis by (auto simp: make_directory_def Let_def split: option.splits fs_node.splits)
qed

lemma ensure_grows: "grows fs (snd (ensure_store_child_directory root d race fs))"
  unfolding ensure_store_child_directory_def by (rule fs_bind_grows) (auto intro: make_directory_grows)

lemma retain_grows: "grows fs (snd (retain directory destination key bytes fs))"
  unfolding retain_def by (rule fs_bind_grows) auto

lemma publish_locked_grows: "grows fs (snd (publish_locked directory destination race crash key bytes fs))"
proof -
  let ?r = "fs_race destination race fs"
  have race: "grows fs ?r" by simp
  have "grows fs (fs_create destination (RegularFile bytes) ?r)" if "fs_node ?r destination = None"
    using grows_trans [OF race grows_create [OF that]] .
  moreover from this have "grows fs (sync_directory directory (fs_create destination (RegularFile bytes) ?r))" if "fs_node ?r destination = None"
    using that grows_trans [OF _ grows_sync] by blast
  ultimately show ?thesis
    using retain_grows grows_trans [OF race retain_grows] by (auto simp: publish_locked_def Let_def)
qed

lemma publish_grows: "grows fs (snd (record_publish cd root races crash kind key bytes fs))"
  unfolding record_publish_def Let_def
  by (intro fs_bind_grows ensure_grows) (auto intro: grows_trans [OF grows_race publish_locked_grows])

lemma put_grows: "grows fs (snd (record_put cd sc root races crash kind key v fs))"
  unfolding record_put_def Let_def by (rule fs_bind_grows) (auto intro: publish_grows)

lemma open_grows: "grows fs (snd (store_open root race fs))"
proof -
  have "grows fs (sync_directory root (sync_directory d fs))" for d fs using grows_trans [OF grows_sync grows_sync] .
  then show ?thesis unfolding store_open_def by (auto intro!: fs_bind_grows make_directory_grows)
qed

text \<open>
  The contract of the file system towards the store: no access disturbs a settled entry. It then
  holds for any number of accesses.
\<close>

locale durable_access =
  fixes access :: "file_system \<Rightarrow> file_system \<Rightarrow> bool"
  assumes access_settled: "access fs fs' \<Longrightarrow> settled fs p \<Longrightarrow> settled fs' p"
    and access_node: "access fs fs' \<Longrightarrow> settled fs p \<Longrightarrow> fs_node fs' p = fs_node fs p"
begin

lemma run_settled:
  assumes "access\<^sup>*\<^sup>* fs fs'" "settled fs p"
  shows "settled fs' p \<and> fs_node fs' p = fs_node fs p"
  using assms by (induction rule: rtranclp_induct) (auto simp: access_settled access_node)

end

lemma store_step_settled:
  assumes "store_step cd sc root fs fs'" "settled fs p"
  shows "settled fs' p \<and> fs_node fs' p = fs_node fs p"
  using assms(1)
proof cases
  case (opened race)
  then show ?thesis using settled_grows [OF open_grows assms(2)] by simp
next
  case (put races crash kind key v)
  show ?thesis unfolding put using settled_grows [OF put_grows assms(2), of cd sc root races crash kind key v] by simp
next
  case (foreign q n)
  then show ?thesis using settled_grows [OF grows_create assms(2)] by simp
next
  case (synced d)
  then show ?thesis using settled_grows [OF grows_sync assms(2)] by simp
next
  case (lost kept)
  then show ?thesis using settled_power_loss [OF assms(2)] by simp
qed

interpretation store: durable_access "store_step cd sc root" for cd sc root
  by unfold_locales (simp_all add: store_step_settled)

section \<open>What the store promises\<close>

lemma opened_store:
  assumes "store_open root race fs = (Inr (), fs')" "settled fs (butlast root)"
  shows "settled fs' root" "fs_node fs' root = Some Directory"
proof -
  from assms(1) obtain fs1 where r: "root \<noteq> []" and m: "make_directory root race fs = (Inr (), fs1)"
    and fs': "fs' = sync_directory root (sync_directory (butlast root) fs1)"
    by (auto simp: store_open_def has_file_name_def store_root_parent_def fs_bind_Inr split: if_splits)
  from m r have d: "fs_node fs1 root = Some Directory"
    by (auto simp: make_directory_def Let_def split: option.splits fs_node.splits if_splits)
  then show "fs_node fs' root = Some Directory" by (simp add: fs')
  have "settled fs1 (butlast root)" using settled_grows(1) [OF make_directory_grows assms(2), of root race] m by simp
  then have "settled (sync_directory (butlast root) fs1) (butlast root @ [last root])"
    by (rule settled_sync) (simp add: r d)
  then show "settled fs' root" unfolding fs' using settled_grows(1) [OF grows_sync] r by simp
qed

lemma child_directory:
  assumes "ensure_store_child_directory root (store_directory root kind) race fs = (Inr (), fs')" "settled fs root"
  shows "settled fs' (store_directory root kind)" "grows fs fs'"
proof -
  from assms(1) obtain fs1 where m: "make_directory (store_directory root kind) race fs = (Inr (), fs1)" and fs': "fs' = sync_directory root fs1"
    by (auto simp: ensure_store_child_directory_def fs_bind_Inr)
  have g: "grows fs fs1" using make_directory_grows [of fs "store_directory root kind" race] m by simp
  then show "grows fs fs'" unfolding fs' using grows_trans by blast
  have "fs_node fs1 (store_directory root kind) = Some Directory"
    using m by (auto simp: make_directory_def store_directory_def Let_def split: option.splits fs_node.splits if_splits)
  then show "settled fs' (store_directory root kind)"
    unfolding fs' store_directory_def by (intro settled_sync settled_grows(1) [OF g assms(2)]) simp
qed

lemma retained:
  assumes "retain directory destination key bytes fs = (Inr out, fs')"
  shows "fs_node fs' destination = Some (RegularFile bytes)" "fs' = sync_directory directory fs"
  using assms by (auto simp: retain_def read_bounded_def fs_bind_Inr split: option.splits fs_node.splits if_splits)

lemma published_locked:
  assumes "publish_locked directory (directory @ [c]) race crash key bytes fs = (Inr out, fs')" "settled fs directory"
  shows "settled fs' (directory @ [c])" "fs_node fs' (directory @ [c]) = Some (RegularFile bytes)"
proof -
  obtain fs1 where fs1: "fs' = sync_directory directory fs1" "grows fs fs1" "fs_node fs1 (directory @ [c]) = Some (RegularFile bytes)"
  proof (cases "fs_node fs (directory @ [c]) = None")
    case False
    then have "retain directory (directory @ [c]) key bytes fs = (Inr out, fs')" using assms(1) by (simp add: publish_locked_def)
    from retained [OF this] that [of fs] show thesis by simp
  next
    case True
    let ?r = "fs_race (directory @ [c]) race fs"
    show thesis
    proof (cases "fs_node ?r (directory @ [c]) = None")
      case False
      then have "retain directory (directory @ [c]) key bytes ?r = (Inr out, fs')"
        using assms(1) True by (simp add: publish_locked_def Let_def split: if_splits)
      from retained [OF this] that [of ?r] show thesis by simp
    next
      case None: True
      have "fs' = sync_directory directory (fs_create (directory @ [c]) (RegularFile bytes) ?r)"
        using assms(1) True None by (simp add: publish_locked_def Let_def split: if_splits)
      then show thesis using that grows_trans [OF grows_race grows_create [OF None]] by simp
    qed
  qed
  show "fs_node fs' (directory @ [c]) = Some (RegularFile bytes)" by (simp add: fs1(1,3))
  show "settled fs' (directory @ [c])" unfolding fs1(1) by (intro settled_sync settled_grows(1) [OF fs1(2) assms(2)]) (simp add: fs1(3))
qed

lemma put_completed:
  assumes "record_put cd sc root races crash kind key v fs = (Inr out, fs')" "settled fs root"
  shows "settled fs' (store_file cd root kind key ''.json'')"
    "fs_node fs' (store_file cd root kind key ''.json'') = Some (RegularFile (sc_envelope_bytes sc (envelope_of cd sc kind key v)))"
    "validate_identifier ''record key'' key = Inr ()" "length (sc_envelope_bytes sc (envelope_of cd sc kind key v)) \<le> max_record_bytes"
proof -
  let ?bytes = "sc_envelope_bytes sc (envelope_of cd sc kind key v)"
  from assms(1) show "validate_identifier ''record key'' key = Inr ()" "length ?bytes \<le> max_record_bytes"
    by (auto simp: record_put_def fs_bind_Inr Let_def split: if_splits)
  from assms(1) have "record_publish cd root races crash kind key ?bytes fs = (Inr out, fs')"
    by (auto simp: record_put_def fs_bind_Inr Let_def split: if_splits)
  then obtain fs1 where e: "ensure_store_child_directory root (store_directory root kind) (rc_directory races) fs = (Inr (), fs1)"
    and p: "publish_locked (store_directory root kind) (store_file cd root kind key ''.json'') (rc_destination races) crash key ?bytes
      (fs_race (store_file cd root kind key ''.lock'') (Some (RegularFile [])) fs1) = (Inr out, fs')"
    by (auto simp: record_publish_def fs_bind_Inr Let_def)
  have "settled (fs_race (store_file cd root kind key ''.lock'') (Some (RegularFile [])) fs1) (store_directory root kind)"
    using settled_grows(1) [OF grows_race child_directory(1) [OF e assms(2)]] .
  from published_locked [OF p [unfolded store_file_def [of cd root kind key "''.json''"]] this]
  show "settled fs' (store_file cd root kind key ''.json'')" "fs_node fs' (store_file cd root kind key ''.json'') = Some (RegularFile ?bytes)"
    by (simp_all add: store_file_def)
qed

lemma record_load_Inr:
  assumes "fs_node fs (store_file cd root kind key ''.json'') = Some (RegularFile (sc_envelope_bytes sc (envelope_of cd sc kind key v)))"
    and "validate_identifier ''record key'' key = Inr ()" "length (sc_envelope_bytes sc (envelope_of cd sc kind key v)) \<le> max_record_bytes"
    and "sc_read_envelope sc (sc_envelope_bytes sc (envelope_of cd sc kind key v)) = Inr (envelope_of cd sc kind key v)"
  shows "record_load cd sc root kind read key fs = read_json (read (sc_to_value sc v))"
  using assms by (simp add: record_load_def reject_non_regular_if_present_def read_bounded_def read_json_def envelope_of_def Let_def)


lemma put_over_settled:
  assumes "fs_node fs (store_file cd root kind key ''.json'') = Some (RegularFile old)"
    and "record_put cd sc root races crash kind key v fs = (Inr out, fs')"
  shows "out = AlreadyPresent \<and> sc_envelope_bytes sc (envelope_of cd sc kind key v) = old"
proof -
  let ?d = "store_directory root kind" and ?p = "store_file cd root kind key ''.json''"
  obtain fs1 where fs1: "grows fs fs1" "publish_locked ?d ?p (rc_destination races) crash key (sc_envelope_bytes sc (envelope_of cd sc kind key v)) fs1 = (Inr out, fs')"
  proof -
    from assms(2) obtain fs1 where e: "ensure_store_child_directory root ?d (rc_directory races) fs = (Inr (), fs1)"
      and p: "publish_locked ?d ?p (rc_destination races) crash key (sc_envelope_bytes sc (envelope_of cd sc kind key v))
        (fs_race (store_file cd root kind key ''.lock'') (Some (RegularFile [])) fs1) = (Inr out, fs')"
      by (auto simp: record_put_def record_publish_def fs_bind_Inr Let_def split: if_splits)
    have "grows fs fs1" using ensure_grows [of fs root ?d "rc_directory races"] e by simp
    from that [OF grows_trans [OF this grows_race] p] show thesis .
  qed
  from fs_node_grows [OF fs1(1) assms(1)] fs1(2) show ?thesis
    by (auto simp: publish_locked_def retain_def read_bounded_def fs_bind_Inr split: if_splits)
qed

text \<open>
  A record is written once: a later write under the same kind and key, whatever happened in between,
  succeeds only if it writes the same bytes, and then it reports that the record was there.
\<close>

theorem records_are_immutable:
  assumes "settled fs root" "record_put cd sc root races crash kind key v fs = (Inr out, fs1)" "store_run cd sc root fs1 fs2"
    and "record_put cd sc root races' crash' kind key v' fs2 = (Inr out', fs3)"
  shows "out' = AlreadyPresent \<and> sc_envelope_bytes sc (envelope_of cd sc kind key v') = sc_envelope_bytes sc (envelope_of cd sc kind key v)"
proof -
  note c = put_completed [OF assms(2,1)]
  have "fs_node fs2 (store_file cd root kind key ''.json'') = Some (RegularFile (sc_envelope_bytes sc (envelope_of cd sc kind key v)))"
    using store.run_settled [OF assms(3) [unfolded store_run_def] c(1)] c(2) by simp
  from put_over_settled [OF this assms(4)] show ?thesis .
qed

lemma fs_node_power_loss: "fs_node (power_loss kept fs) p = fs_node fs p \<or> fs_node (power_loss kept fs) p = None"
  by (simp add: fs_node_def power_loss_def)

lemma reject_power_loss:
  assumes "reject_non_regular_if_present p fs = Inr ()"
  shows "reject_non_regular_if_present p (power_loss kept fs) = Inr ()"
  using assms fs_node_power_loss [of kept fs p] by (auto simp: reject_non_regular_if_present_def split: option.splits)

lemma make_directory_no_crash: "make_directory d race fs \<noteq> (Inl (CrashInjected point), fs')"
  by (auto simp: make_directory_def Let_def not_real_directory_def split: option.splits fs_node.splits if_splits)

lemma retain_no_crash: "retain directory destination key bytes fs \<noteq> (Inl (CrashInjected point), fs')"
  by (auto simp: retain_def read_bounded_def fs_bind_def split: option.splits fs_node.splits if_splits)

lemma publish_locked_crash:
  assumes "publish_locked directory destination race crash key bytes fs = (Inl (CrashInjected point), fs')" "destination \<noteq> []"
  shows "fs_node fs' destination = None \<or> fs_node fs' destination = Some (RegularFile bytes)"
  using assms by (auto simp: publish_locked_def Let_def retain_no_crash split: if_splits)

lemma publish_crash:
  assumes "record_publish cd root races crash kind key bytes fs = (Inl (CrashInjected point), fs')"
  shows "fs_node fs' (store_directory root kind) = Some Directory"
    "reject_non_regular_if_present (store_file cd root kind key ''.lock'') fs' = Inr ()"
    "fs_node fs' (store_file cd root kind key ''.json'') = None \<or> fs_node fs' (store_file cd root kind key ''.json'') = Some (RegularFile bytes)"
proof -
  let ?d = "store_directory root kind" and ?p = "store_file cd root kind key ''.json''" and ?l = "store_file cd root kind key ''.lock''"
  have reject: "reject_non_regular_if_present p fs \<noteq> Inl (CrashInjected point)" for p fs
    by (auto simp: reject_non_regular_if_present_def split: option.splits fs_node.splits)
  from assms obtain fs1 where e: "ensure_store_child_directory root ?d (rc_directory races) fs = (Inr (), fs1)"
    and l: "reject_non_regular_if_present ?l fs1 = Inr ()"
    and p: "publish_locked ?d ?p (rc_destination races) crash key bytes (fs_race ?l (Some (RegularFile [])) fs1) = (Inl (CrashInjected point), fs')"
    using make_directory_no_crash reject
    by (auto simp: record_publish_def ensure_store_child_directory_def fs_bind_def Let_def split: prod.splits sum.splits)
  show "fs_node fs' ?p = None \<or> fs_node fs' ?p = Some (RegularFile bytes)"
    by (rule publish_locked_crash [OF p]) (simp add: store_file_def)
  have g: "grows (fs_race ?l (Some (RegularFile [])) fs1) fs'" using publish_locked_grows p by (metis snd_conv)
  have "fs_node fs1 ?d = Some Directory" using e
    by (auto simp: ensure_store_child_directory_def fs_bind_Inr make_directory_def store_directory_def Let_def split: option.splits fs_node.splits if_splits)
  then show "fs_node fs' ?d = Some Directory" using fs_node_grows [OF grows_trans [OF grows_race g]] by blast
  have "\<exists>b. fs_node (fs_race ?l (Some (RegularFile [])) fs1) ?l = Some (RegularFile b)"
    using l by (auto simp: fs_race_def reject_non_regular_if_present_def store_file_def split: option.splits fs_node.splits)
  then show "reject_non_regular_if_present ?l fs' = Inr ()" using fs_node_grows [OF g] by (auto simp: reject_non_regular_if_present_def)
qed

lemma put_succeeds:
  assumes "validate_identifier ''record key'' key = Inr ()" "length (sc_value_bytes sc (sc_to_value sc v)) \<le> max_payload_bytes"
    and "length (sc_envelope_bytes sc (envelope_of cd sc kind key v)) \<le> max_record_bytes" "fs_node fs root = Some Directory"
    and "fs_node fs (store_directory root kind) = None \<or> fs_node fs (store_directory root kind) = Some Directory"
    and "reject_non_regular_if_present (store_file cd root kind key ''.lock'') fs = Inr ()"
    and "fs_node fs (store_file cd root kind key ''.json'') = None
       \<or> fs_node fs (store_file cd root kind key ''.json'') = Some (RegularFile (sc_envelope_bytes sc (envelope_of cd sc kind key v)))"
  shows "\<exists>out fs'. record_put cd sc root no_races NoCrash kind key v fs = (Inr out, fs')"
proof -
  let ?d = "store_directory root kind" and ?p = "store_file cd root kind key ''.json''" and ?l = "store_file cd root kind key ''.lock''"
  obtain fs1 where e: "ensure_store_child_directory root ?d None fs = (Inr (), fs1)" "\<And>q. q \<noteq> ?d \<Longrightarrow> fs_node fs1 q = fs_node fs q"
    using assms(4,5) by (auto simp: ensure_store_child_directory_def make_directory_def fs_race_def store_directory_def)
  have ne: "?p \<noteq> ?d" "?l \<noteq> ?d" "?p \<noteq> ?l" "?p \<noteq> []" by (simp_all add: store_file_def)
  have node: "fs_node (fs_race ?l (Some (RegularFile [])) fs1) ?p = fs_node fs ?p"
    using e(2) [OF ne(1)] ne(3) by (simp add: fs_race_def)
  have rej: "reject_non_regular_if_present ?l fs1 = Inr ()" "reject_non_regular_if_present ?p fs1 = Inr ()"
    using assms(6,7) e(2) [OF ne(1)] e(2) [OF ne(2)] by (auto simp: reject_non_regular_if_present_def)
  have "\<exists>out fs'. publish_locked ?d ?p None NoCrash key (sc_envelope_bytes sc (envelope_of cd sc kind key v))
      (fs_race ?l (Some (RegularFile [])) fs1) = (Inr out, fs')"
    using assms(3,7) by (auto simp: publish_locked_def retain_def read_bounded_def node fs_race_def [of _ None] Let_def)
  then show ?thesis using assms(1-3) e(1) rej by (simp add: record_put_def record_publish_def no_races_def Let_def)
qed

text \<open>
  A write that was interrupted, before or after publishing, followed by a power loss that may or may
  not keep what was not yet durable, succeeds when it is repeated.
\<close>

theorem interrupted_write_can_be_repeated:
  assumes "settled fs root" "fs_node fs root = Some Directory"
    and "record_put cd sc root races crash kind key v fs = (Inl (CrashInjected point), fs')"
  shows "\<exists>out fs''. record_put cd sc root no_races NoCrash kind key v (power_loss kept fs') = (Inr out, fs'')"
proof -
  let ?bytes = "sc_envelope_bytes sc (envelope_of cd sc kind key v)"
  have "validate_identifier ''record key'' key \<noteq> Inl (CrashInjected point)" by (simp add: validate_identifier_def)
  with assms(3) have v: "validate_identifier ''record key'' key = Inr ()" "length (sc_value_bytes sc (sc_to_value sc v)) \<le> max_payload_bytes"
    "length ?bytes \<le> max_record_bytes" and p: "record_publish cd root races crash kind key ?bytes fs = (Inl (CrashInjected point), fs')"
    by (auto simp: record_put_def fs_bind_def Let_def split: sum.splits if_splits)
  have g: "grows fs fs'" using put_grows assms(3) by (metis snd_conv)
  have root: "fs_node (power_loss kept fs') root = Some Directory"
    using settled_power_loss(2) [OF settled_grows(1) [OF g assms(1)]] fs_node_grows [OF g assms(2)] by simp
  note c = publish_crash [OF p]
  show ?thesis
    by (rule put_succeeds [OF v root _ reject_power_loss [OF c(2)]])
      (use c(1,3) fs_node_power_loss [of kept fs' "store_directory root kind"] fs_node_power_loss [of kept fs' "store_file cd root kind key ''.json''"] in auto)
qed

section \<open>A sample store\<close>

abbreviation sample_store :: path where "sample_store \<equiv> [Normal ''s'']"

definition sample_record :: shard_receipt where "sample_record = sample_receipt 1"

definition sample_record_key :: string where "sample_record_key = receipt_logical_key sample_record"

definition sample_writer :: "unit store_codec" where
  "sample_writer = \<lparr>sc_to_value = (\<lambda>_. ()), sc_value_bytes = (\<lambda>_. ''v''), sc_envelope_bytes = (\<lambda>_. ''e''),
     sc_read_envelope = (\<lambda>_. Inl ''''), sc_read_receipt = (\<lambda>_. Inr sample_record), sc_read_disposition = (\<lambda>_. Inl '''')\<rparr>"

definition sample_store_codec :: "unit store_codec" where
  "sample_store_codec = sample_writer\<lparr>sc_read_envelope :=
     (\<lambda>_. Inr (envelope_of plan_codec sample_writer ReceiptRecord sample_record_key (ReceiptValue sample_record)))\<rparr>"

lemma sample_codec_fields:
  "sc_value_bytes sample_store_codec x = ''v''" "sc_envelope_bytes sample_store_codec e = ''e''"
  "sc_read_receipt sample_store_codec x = Inr sample_record"
  "sc_read_envelope sample_store_codec b = Inr (envelope_of plan_codec sample_store_codec ReceiptRecord sample_record_key (ReceiptValue sample_record))"
  by (simp_all add: sample_store_codec_def sample_writer_def envelope_of_def payload_digest_def)

lemma sample_record_key_text: "sample_record_key = ''d:1:1''"
proof -
  have "sample_record_key = attempt_key (ac_manifest_digest (sample_claims 1)) 1 1"
    by (simp add: sample_record_key_def sample_record_def receipt_logical_key_def sample_receipt_def Let_def unsigned_receipt_def sample_assignment_def sample_claims_def)
  also have "ac_manifest_digest (sample_claims 1) = ''d''"
    by (simp add: sample_claims_def canonical_digest_def framed_digest_def plan_codec_def)
  also have "attempt_key ''d'' 1 1 = ''d:1:1''" by code_simp
  finally show ?thesis .
qed

lemma sample_record_key_valid: "validate_identifier ''record key'' sample_record_key = Inr ()"
  unfolding sample_record_key_text by code_simp

definition sample_files :: file_system where
  "sample_files = \<lparr>fs_nodes = (\<lambda>p. if p = store_file plan_codec sample_store ReceiptRecord sample_record_key ''.lock'' then Some (RegularFile [])
       else if p = sample_store \<or> p = store_directory sample_store ReceiptRecord then Some Directory else None),
     fs_durable = (\<lambda>p. p = sample_store)\<rparr>"

lemma sample_files_nodes:
  "fs_node sample_files sample_store = Some Directory" "fs_node sample_files (store_directory sample_store ReceiptRecord) = Some Directory"
  "fs_node sample_files (store_file plan_codec sample_store ReceiptRecord sample_record_key ''.lock'') = Some (RegularFile [])"
  "fs_node sample_files (store_file plan_codec sample_store ReceiptRecord sample_record_key ''.json'') = None" "settled sample_files sample_store"
  by (simp_all add: sample_files_def fs_node_def store_file_def store_directory_def settled_def prefix_Cons)

lemma sample_put:
  assumes "grows sample_files fs" "fs_node fs (store_file plan_codec sample_store ReceiptRecord sample_record_key ''.json'') \<in> {None, Some (RegularFile ''e'')}"
  shows "\<exists>out fs'. record_put plan_codec sample_store_codec sample_store no_races NoCrash ReceiptRecord sample_record_key
    (ReceiptValue sample_record) fs = (Inr out, fs')"
proof (rule put_succeeds [OF sample_record_key_valid])
  note n = fs_node_grows [OF assms(1) sample_files_nodes(1)] fs_node_grows [OF assms(1) sample_files_nodes(2)] fs_node_grows [OF assms(1) sample_files_nodes(3)]
  show "fs_node fs sample_store = Some Directory" by (rule n)
  show "fs_node fs (store_directory sample_store ReceiptRecord) = None \<or> fs_node fs (store_directory sample_store ReceiptRecord) = Some Directory"
    using n by simp
  show "reject_non_regular_if_present (store_file plan_codec sample_store ReceiptRecord sample_record_key ''.lock'') fs = Inr ()"
    using n by (simp add: reject_non_regular_if_present_def)
qed (use assms(2) in \<open>simp_all add: sample_codec_fields max_payload_bytes_def max_record_bytes_def\<close>)


theorem records_are_immutable_witness:
  "\<exists>fs out fs'. record_put plan_codec sample_store_codec sample_store no_races NoCrash ReceiptRecord sample_record_key
     (ReceiptValue sample_record) fs = (Inr out, fs') \<and> out = AlreadyPresent"
proof -
  from sample_put [OF grows_refl] obtain out fs1 where p: "record_put plan_codec sample_store_codec sample_store no_races NoCrash
      ReceiptRecord sample_record_key (ReceiptValue sample_record) sample_files = (Inr out, fs1)" by (auto simp: sample_files_nodes)
  have "grows sample_files fs1"
    using put_grows [of sample_files plan_codec sample_store_codec sample_store no_races NoCrash ReceiptRecord sample_record_key "ReceiptValue sample_record"] p by simp
  with sample_put [of fs1] put_completed(2) [OF p sample_files_nodes(5)] obtain out' fs2 where
    q: "record_put plan_codec sample_store_codec sample_store no_races NoCrash ReceiptRecord sample_record_key (ReceiptValue sample_record) fs1
      = (Inr out', fs2)" by (auto simp: sample_codec_fields)
  have "store_run plan_codec sample_store_codec sample_store fs1 fs1" by (simp add: store_run_def)
  from records_are_immutable [OF sample_files_nodes(5) p this q] q show ?thesis by blast
qed

theorem interrupted_write_can_be_repeated_witness:
  "\<exists>fs out fs'. record_put plan_codec sample_store_codec sample_store no_races NoCrash ReceiptRecord sample_record_key
     (ReceiptValue sample_record) (power_loss (\<lambda>_. False) fs) = (Inr out, fs')"
proof -
  define fs where "fs = fs_create (store_file plan_codec sample_store ReceiptRecord sample_record_key ''.json'') (RegularFile ''e'')
    (sync_directory sample_store sample_files)"
  have "record_put plan_codec sample_store_codec sample_store no_races AfterPublish ReceiptRecord sample_record_key
      (ReceiptValue sample_record) sample_files = (Inl (CrashInjected ''after_publish''), fs)"
    by (simp add: record_put_def sample_record_key_valid sample_codec_fields max_payload_bytes_def max_record_bytes_def record_publish_def
        ensure_store_child_directory_def make_directory_def sample_files_nodes reject_non_regular_if_present_def fs_race_def no_races_def
        publish_locked_def fs_def Let_def)
  from interrupted_write_can_be_repeated [OF sample_files_nodes(5,1) this, of "\<lambda>_. False"] show ?thesis by blast
qed

end
