(* ===== verification/Merge_Carrier.thy ===== *)
theory Merge_Carrier
  imports Environment_Requeue
begin

text \<open>
  The unattended carrier's planner, \<open>src/src/merge_carrier.rs\<close>: one pull request's GitHub facts give
  one action (rerun interrupted required runs, re-arm after a starved removal, update a branch that
  is behind) or the reason there is none, and the timeline gives the time at which the current head
  was armed. Run attempts and carries are compared only, so they are naturals.

  The lemmas show for each action the facts that must hold when it is proposed.
\<close>

section \<open>Facts, actions and holds\<close>

definition max_redispatches_per_run :: nat where "max_redispatches_per_run = 1"
definition max_redispatches_per_pr_window :: nat where "max_redispatches_per_pr_window = 2"
definition max_carries_per_day :: nat where "max_carries_per_day = 2"
definition redispatch_window_minutes :: int where "redispatch_window_minutes = 60"
definition carrier_min_wait_minutes :: int where "carrier_min_wait_minutes = 10"

definition duration_minutes :: "int \<Rightarrow> duration" where
  "duration_minutes m = duration_seconds (60 * m)"

datatype carrier_class = ClassRedispatch | ClassRearm | ClassUpdateBranch

definition carrier_class_parse :: "string \<Rightarrow> carrier_class option" where
  "carrier_class_parse value =
     (if value = ''redispatch'' then Some ClassRedispatch
      else if value = ''rearm'' then Some ClassRearm
      else if value = ''update_branch'' \<or> value = ''update-branch'' then Some ClassUpdateBranch
      else None)"

datatype carrier_queue_fact =
    FactQueued
  | FactArmedNotQueued
  | FactNeverArmed
  | FactEjected string bool "string option"
  | FactNotOpen
  | FactUnknown string

record required_fact =
  rf_context :: string
  rf_status :: string
  rf_conclusion :: "string option"
  rf_run_id :: "u64 option"

record job_fact =
  jf_name :: string
  jf_status :: string
  jf_conclusion :: "string option"
  jf_runner_name :: "string option"
  jf_created_at :: "time option"
  jf_completed_at :: "time option"
  jf_superseded :: bool
  jf_cancelled_by_actor :: bool

definition interruption_job_of :: "job_fact \<Rightarrow> interruption_job" where
  "interruption_job_of j = \<lparr>ij_name = jf_name j, ij_conclusion = map_option to_ascii_lowercase (jf_conclusion j),
     ij_runner_name = jf_runner_name j, ij_created_at = jf_created_at j, ij_completed_at = jf_completed_at j,
     ij_superseded = jf_superseded j, ij_cancelled_by_actor = jf_cancelled_by_actor j\<rparr>"

record run_fact =
  fr_id :: u64
  fr_workflow :: string
  fr_event :: string
  fr_head_sha :: string
  fr_status :: string
  fr_conclusion :: "string option"
  fr_run_attempt :: u64
  fr_run_started_at :: "time option"
  fr_jobs :: "job_fact list"

record carrier_facts =
  cf_repo :: string
  cf_number :: u64
  cf_head_sha :: string
  cf_draft :: bool
  cf_merge_state :: string
  cf_queue :: carrier_queue_fact
  cf_approved_head :: bool
  cf_approval_evidence :: "string option"
  cf_review_marker :: "string option"
  cf_carry_approval :: "string option"
  cf_carry_approval_detail :: "string option"
  cf_carries_last_day :: "nat option"
  cf_head_is_carry :: bool
  cf_required :: "required_fact list"
  cf_runs :: "run_fact list"
  cf_observed_at :: time

datatype carrier_action =
    ActRedispatch string "u64 list"
  | ActRearm string
  | ActUpdateBranch string

fun carrier_action_class :: "carrier_action \<Rightarrow> carrier_class" where
  "carrier_action_class (ActRedispatch head run_ids) = ClassRedispatch"
| "carrier_action_class (ActRearm head) = ClassRearm"
| "carrier_action_class (ActUpdateBranch head) = ClassUpdateBranch"

datatype carrier_hold =
    HoldQueueStateUnknown string
  | HoldNotOpen
  | HoldQueued
  | HoldDraft
  | HoldConflicting string
  | HoldUnarmed
  | HoldHeadNotApproved
  | HoldHeadMovedSinceRemoval
  | HoldRequiredFailed "string list"
  | HoldRunStillLive "u64 list"
  | HoldRunFactMissing "string list"
  | HoldNotInterruption u64 string
  | HoldCarryNotApproved string
  | HoldCarriedHeadNotReviewed string
  | HoldCarryBudgetUnknown
  | HoldCarryBudgetSpent nat
  | HoldRedispatchBudgetSpent "u64 list"
  | HoldWaitingRequired "string list"
  | HoldAwaitingQueue
  | HoldRemovedForConflict
  | HoldRemovedByPerson string
  | HoldRemovalNotInterruption "string list"
  | HoldRemovalUnclassified string

datatype carrier_decision = Propose carrier_action | Hold carrier_hold

record carrier_plan =
  cp_number :: u64
  cp_head_sha :: string
  cp_decision :: carrier_decision

definition carrier_plan_action :: "carrier_plan \<Rightarrow> carrier_action option" where
  "carrier_plan_action p = (case cp_decision p of Propose action \<Rightarrow> Some action | Hold _ \<Rightarrow> None)"

section \<open>Required checks\<close>

definition is_interruption_conclusion :: "string \<Rightarrow> bool" where
  "is_interruption_conclusion conclusion = (conclusion = ''CANCELLED'')"

definition is_pass_conclusion :: "string \<Rightarrow> bool" where
  "is_pass_conclusion conclusion = (conclusion \<in> {''SUCCESS'', ''NEUTRAL'', ''SKIPPED''})"

definition is_live :: "string \<Rightarrow> bool" where
  "is_live status = (\<not> eq_ignore_ascii_case status ''completed'')"

record required_split =
  sp_failed :: "string list"
  sp_waiting :: "string list"
  sp_interrupted :: "(string \<times> u64 option) list"

definition split_step :: "required_fact \<Rightarrow> required_split \<Rightarrow> required_split" where
  "split_step r s =
     (if \<not> eq_ignore_ascii_case (rf_status r) ''COMPLETED'' then s\<lparr>sp_waiting := sp_waiting s @ [rf_context r]\<rparr>
      else let conclusion = to_ascii_uppercase (unwrap_or (rf_conclusion r) []) in
        if is_pass_conclusion conclusion then s
        else if is_interruption_conclusion conclusion
        then s\<lparr>sp_interrupted := sp_interrupted s @ [(rf_context r, rf_run_id r)]\<rparr>
        else s\<lparr>sp_failed := sp_failed s @ [rf_context r]\<rparr>)"

definition split_required :: "carrier_facts \<Rightarrow> required_split" where
  "split_required facts = fold split_step (cf_required facts) \<lparr>sp_failed = [], sp_waiting = [], sp_interrupted = []\<rparr>"

section \<open>The planner\<close>

definition on_head :: "carrier_facts \<Rightarrow> run_fact \<Rightarrow> bool" where
  "on_head facts run = eq_ignore_ascii_case (fr_head_sha run) (cf_head_sha facts)"

definition no_approval_detail :: "carrier_facts \<Rightarrow> string" where
  "no_approval_detail facts = unwrap_or (cf_carry_approval_detail facts) ''no reviewer approval was read''"

definition plan_carry :: "carrier_facts \<Rightarrow> carrier_decision" where
  "plan_carry facts =
     (if cf_carry_approval facts = None then Hold (HoldCarryNotApproved (no_approval_detail facts))
      else let live = map fr_id (filter (\<lambda>run. on_head facts run \<and> is_live (fr_status run)) (cf_runs facts)) in
        if live \<noteq> [] then Hold (HoldRunStillLive live)
        else case cf_carries_last_day facts of
          None \<Rightarrow> Hold HoldCarryBudgetUnknown
        | Some carries \<Rightarrow> if max_carries_per_day \<le> carries then Hold (HoldCarryBudgetSpent carries)
            else Propose (ActUpdateBranch (cf_head_sha facts)))"

record redispatch_scan =
  rs_missing :: "string list"
  rs_live :: "u64 list"
  rs_spent :: "u64 list"
  rs_eligible :: "u64 list"

definition reran_same_workflow :: "carrier_facts \<Rightarrow> run_fact \<Rightarrow> bool" where
  "reran_same_workflow facts run = list_ex (\<lambda>other. fr_workflow other = fr_workflow run \<and> on_head facts other
     \<and> max_redispatches_per_run \<le> fr_run_attempt other - 1) (cf_runs facts)"

fun scan_interrupted :: "carrier_facts \<Rightarrow> (string \<times> u64 option) list \<Rightarrow> redispatch_scan \<Rightarrow> carrier_hold + redispatch_scan" where
  "scan_interrupted facts [] s = Inr s"
| "scan_interrupted facts ((ctxt, run_id) # rest) s =
     (case Option.bind run_id (\<lambda>i. find (\<lambda>run. fr_id run = i) (cf_runs facts)) of
        None \<Rightarrow> scan_interrupted facts rest (s\<lparr>rs_missing := rs_missing s @ [ctxt]\<rparr>)
      | Some run \<Rightarrow>
          if \<not> on_head facts run then scan_interrupted facts rest (s\<lparr>rs_missing := rs_missing s @ [ctxt]\<rparr>)
          else if is_live (fr_status run) then scan_interrupted facts rest (s\<lparr>rs_live := rs_live s @ [fr_id run]\<rparr>)
          else if reran_same_workflow facts run then scan_interrupted facts rest (s\<lparr>rs_spent := rs_spent s @ [fr_id run]\<rparr>)
          else case classify_jobs (map interruption_job_of (fr_jobs run)) of
            Inl reason \<Rightarrow> Inl (HoldNotInterruption (fr_id run) reason)
          | Inr _ \<Rightarrow> scan_interrupted facts rest
              (if fr_id run \<in> set (rs_eligible s) then s else s\<lparr>rs_eligible := rs_eligible s @ [fr_id run]\<rparr>))"

definition live_same_workflow :: "carrier_facts \<Rightarrow> u64 list \<Rightarrow> u64 list" where
  "live_same_workflow facts eligible = map fr_id (concat (map (\<lambda>cancelled.
       filter (\<lambda>other. fr_id other \<noteq> fr_id cancelled \<and> fr_workflow other = fr_workflow cancelled \<and> on_head facts other
         \<and> is_live (fr_status other)) (cf_runs facts))
     (List.map_filter (\<lambda>run_id. find (\<lambda>run. fr_id run = run_id) (cf_runs facts)) eligible)))"

definition recent_reruns :: "carrier_facts \<Rightarrow> nat" where
  "recent_reruns facts = length (filter (\<lambda>run. on_head facts run \<and> 1 < fr_run_attempt run
     \<and> is_some_and (fr_run_started_at run) (\<lambda>at. cf_observed_at facts - duration_minutes redispatch_window_minutes < at)) (cf_runs facts))"

definition plan_redispatch :: "carrier_facts \<Rightarrow> (string \<times> u64 option) list \<Rightarrow> carrier_decision" where
  "plan_redispatch facts interrupted =
     (case scan_interrupted facts interrupted \<lparr>rs_missing = [], rs_live = [], rs_spent = [], rs_eligible = []\<rparr> of
        Inl h \<Rightarrow> Hold h
      | Inr s \<Rightarrow>
          if rs_missing s \<noteq> [] then Hold (HoldRunFactMissing (rs_missing s))
          else if rs_live s \<noteq> [] then Hold (HoldRunStillLive (rs_live s))
          else if rs_spent s \<noteq> [] then Hold (HoldRedispatchBudgetSpent (rs_spent s))
          else let live = live_same_workflow facts (rs_eligible s) in
            if live \<noteq> [] then Hold (HoldRunStillLive live)
            else let room = max_redispatches_per_pr_window - recent_reruns facts in
              if room = 0 then Hold (HoldRedispatchBudgetSpent (rs_eligible s))
              else Propose (ActRedispatch (cf_head_sha facts) (take room (sort (rs_eligible s)))))"

definition plan_armed :: "carrier_facts \<Rightarrow> string \<Rightarrow> carrier_decision" where
  "plan_armed facts merge_state = (let s = split_required facts in
     if sp_failed s \<noteq> [] then Hold (HoldRequiredFailed (sp_failed s))
     else if sp_interrupted s \<noteq> [] then plan_redispatch facts (sp_interrupted s)
     else if sp_waiting s \<noteq> [] then Hold (HoldWaitingRequired (sp_waiting s))
     else if merge_state = ''BEHIND'' then plan_carry facts
     else Hold HoldAwaitingQueue)"

definition waited_for_a_runner :: "job_fact \<Rightarrow> bool" where
  "waited_for_a_runner j = (case (jf_created_at j, jf_completed_at j) of
       (Some created, Some completed) \<Rightarrow> duration_minutes carrier_min_wait_minutes \<le> completed - created
     | _ \<Rightarrow> False)"

definition carrier_sample :: "run_fact \<Rightarrow> job_fact \<Rightarrow> gate_job_sample" where
  "carrier_sample run j = \<lparr>gs_run_id = fr_id run, gs_event = fr_event run, gs_attempt = fr_run_attempt run,
     gs_status = to_ascii_lowercase (jf_status j), gs_conclusion = map_option to_ascii_lowercase (jf_conclusion j),
     gs_started_at = None, gs_completed_at = jf_completed_at j, gs_created_at = jf_created_at j,
     gs_runner_name = jf_runner_name j, gs_labels = []\<rparr>"

definition job_cause :: "string list \<Rightarrow> run_fact \<Rightarrow> job_fact \<Rightarrow> string option" where
  "job_cause required run j = (case ejection_cause (carrier_sample run j) of
       None \<Rightarrow> None
     | Some cause \<Rightarrow>
         let cause' = (if cause = ''starved'' \<and> \<not> waited_for_a_runner j then ''cancelled_before_wait'' else cause) in
         if to_ascii_lowercase (jf_name j) \<in> set required \<or> cause' = ''starved'' then Some cause' else None)"

fun run_causes :: "string list \<Rightarrow> run_fact list \<Rightarrow> string + string list" where
  "run_causes required [] = Inr []"
| "run_causes required (run # runs) =
     (if is_live (fr_status run) then Inl (''merge-group run '' @ show_nat (fr_id run) @ '' is still live'')
      else if fr_jobs run = [] then Inl (''merge-group run '' @ show_nat (fr_id run) @ '' has no job facts'')
      else result_bind (run_causes required runs) (\<lambda>causes.
        Inr (List.map_filter (job_cause required run) (fr_jobs run) @ causes)))"

definition merge_group_runs :: "carrier_facts \<Rightarrow> string \<Rightarrow> run_fact list" where
  "merge_group_runs facts commit =
     filter (\<lambda>run. fr_event run = ''merge_group'' \<and> eq_ignore_ascii_case (fr_head_sha run) commit) (cf_runs facts)"

definition removal_causes :: "carrier_facts \<Rightarrow> string \<Rightarrow> string + string list" where
  "removal_causes facts commit = (let runs = merge_group_runs facts commit in
     if runs = [] then Inl (''no merge-group run built '' @ commit)
     else result_bind (run_causes (map (\<lambda>r. to_ascii_lowercase (rf_context r)) (cf_required facts)) runs) (\<lambda>causes.
       if causes = [] then Inl ''no required or starved job explains the removal'' else Inr (sort_dedup causes)))"

definition plan_ejected :: "carrier_facts \<Rightarrow> string \<Rightarrow> bool \<Rightarrow> string option \<Rightarrow> carrier_decision" where
  "plan_ejected facts reason new_head merge_group_commit =
     (if new_head then Hold HoldHeadMovedSinceRemoval
      else if to_ascii_lowercase reason = ''merge_conflict'' then Hold HoldRemovedForConflict
      else if to_ascii_lowercase reason \<noteq> ''failed_checks'' then Hold (HoldRemovedByPerson reason)
      else case merge_group_commit of
        None \<Rightarrow> Hold (HoldRemovalUnclassified ''the removal names no merge-group commit'')
      | Some commit \<Rightarrow> (case removal_causes facts commit of
          Inl detail \<Rightarrow> Hold (HoldRemovalUnclassified detail)
        | Inr causes \<Rightarrow>
            let not_starved = filter (\<lambda>cause. cause \<noteq> ''starved'') causes; s = split_required facts in
            if not_starved \<noteq> [] then Hold (HoldRemovalNotInterruption not_starved)
            else if sp_failed s \<noteq> [] then Hold (HoldRequiredFailed (sp_failed s))
            else if sp_waiting s \<noteq> [] \<or> sp_interrupted s \<noteq> []
            then Hold (HoldWaitingRequired (sp_waiting s @ map fst (sp_interrupted s)))
            else Propose (ActRearm (cf_head_sha facts))))"

definition carrier_decide :: "carrier_facts \<Rightarrow> (string \<times> bool \<times> string option) option \<Rightarrow> carrier_decision" where
  "carrier_decide facts ejection =
     (if cf_draft facts then Hold HoldDraft
      else let merge_state = to_ascii_uppercase (cf_merge_state facts) in
        if merge_state \<in> {''DIRTY'', ''CONFLICTING''} then Hold (HoldConflicting (cf_merge_state facts))
        else if \<not> cf_approved_head facts then Hold HoldHeadNotApproved
        else if cf_head_is_carry facts \<and> cf_carry_approval facts = None
        then Hold (HoldCarriedHeadNotReviewed (no_approval_detail facts))
        else case ejection of
          None \<Rightarrow> plan_armed facts merge_state
        | Some (reason, new_head, commit) \<Rightarrow> plan_ejected facts reason new_head commit)"

definition plan_carrier :: "carrier_facts \<Rightarrow> carrier_plan" where
  "plan_carrier facts = \<lparr>cp_number = cf_number facts, cp_head_sha = cf_head_sha facts, cp_decision = (case cf_queue facts of
       FactArmedNotQueued \<Rightarrow> carrier_decide facts None
     | FactEjected reason new_head commit \<Rightarrow> carrier_decide facts (Some (reason, new_head, commit))
     | FactNeverArmed \<Rightarrow> Hold HoldUnarmed
     | FactQueued \<Rightarrow> Hold HoldQueued
     | FactNotOpen \<Rightarrow> Hold HoldNotOpen
     | FactUnknown detail \<Rightarrow> Hold (HoldQueueStateUnknown detail))\<rparr>"

section \<open>When the head was armed\<close>

definition node_time :: "(string \<Rightarrow> time option) \<Rightarrow> json option \<Rightarrow> time option" where
  "node_time parse_time value = Option.bind (Option.bind value as_str) parse_time"

text \<open>\<open>nodes/0\<close> of a JSON pointer: the first element of an array, or the key \<open>0\<close> of an object.\<close>

definition pointer_zero :: "json \<Rightarrow> json option" where
  "pointer_zero v = (case as_array v of Some xs \<Rightarrow> (case xs of [] \<Rightarrow> None | x # _ \<Rightarrow> Some x) | None \<Rightarrow> json_get ''0'' v)"

definition names_head :: "string \<Rightarrow> json option \<Rightarrow> bool" where
  "names_head head oid = is_some_and (Option.bind oid as_str) (\<lambda>x. eq_ignore_ascii_case x head)"

definition arrival_of :: "(string \<Rightarrow> time option) \<Rightarrow> string \<Rightarrow> json \<Rightarrow> time option" where
  "arrival_of parse_time head node =
     (if get_str ''__typename'' node = Some ''HeadRefForcePushedEvent'' \<and> names_head head (json_path [''afterCommit'', ''oid''] node)
      then node_time parse_time (json_get ''createdAt'' node)
      else if get_str ''__typename'' node = Some ''PullRequestCommit'' \<and> names_head head (json_path [''commit'', ''oid''] node)
      then node_time parse_time (Option.bind (Option.bind (json_path [''commit'', ''checkSuites'', ''nodes''] node) pointer_zero)
        (json_get ''createdAt''))
      else None)"

fun iter_max :: "time list \<Rightarrow> time option" where
  "iter_max [] = None"
| "iter_max (t # ts) = (case iter_max ts of None \<Rightarrow> Some t | Some m \<Rightarrow> Some (max t m))"

definition arm_times :: "(string \<Rightarrow> time option) \<Rightarrow> json list \<Rightarrow> time list" where
  "arm_times parse_time nodes = List.map_filter (\<lambda>node. node_time parse_time (json_get ''createdAt'' node))
     (filter (\<lambda>node. get_str ''__typename'' node = Some ''AutoMergeEnabledEvent'') nodes)"

definition head_arm_time :: "(string \<Rightarrow> time option) \<Rightarrow> json \<Rightarrow> string \<Rightarrow> string + time option" where
  "head_arm_time parse_time response head =
     (case json_path [''data'', ''repository'', ''pullRequest'', ''timelineItems''] response of
        None \<Rightarrow> Inl ''queue-state response has no timeline''
      | Some timeline \<Rightarrow> (case Option.bind (json_get ''nodes'' timeline) as_array of
          None \<Rightarrow> Inl ''queue-state timeline has no nodes''
        | Some nodes \<Rightarrow> (case iter_max (List.map_filter (arrival_of parse_time head) nodes) of
            None \<Rightarrow> if unwrap_or (Option.bind (json_path [''pageInfo'', ''hasPreviousPage''] timeline) as_bool) True
                then Inl ''the head's arrival is outside the visible timeline window'' else Inr None
          | Some arrival \<Rightarrow> Inr (iter_max (filter (\<lambda>at. arrival \<le> at) (arm_times parse_time nodes))))))"

section \<open>What each action requires\<close>

definition required_conclusion :: "required_fact \<Rightarrow> string" where
  "required_conclusion r = to_ascii_uppercase (unwrap_or (rf_conclusion r) [])"

definition required_completed :: "required_fact \<Rightarrow> bool" where
  "required_completed r = eq_ignore_ascii_case (rf_status r) ''COMPLETED''"

definition required_green :: "required_fact \<Rightarrow> bool" where
  "required_green r = (required_completed r \<and> is_pass_conclusion (required_conclusion r))"

definition required_cancelled :: "required_fact \<Rightarrow> bool" where
  "required_cancelled r = (required_completed r \<and> is_interruption_conclusion (required_conclusion r))"

definition required_red :: "required_fact \<Rightarrow> bool" where
  "required_red r = (required_completed r \<and> \<not> required_green r \<and> \<not> required_cancelled r)"

lemma not_both_green_and_cancelled: "is_pass_conclusion c \<Longrightarrow> \<not> is_interruption_conclusion c"
  by (auto simp: is_pass_conclusion_def is_interruption_conclusion_def)

lemma split_required_simps:
  "sp_failed (split_required facts) = map rf_context (filter required_red (cf_required facts))"
  "sp_waiting (split_required facts) = map rf_context (filter (\<lambda>r. \<not> required_completed r) (cf_required facts))"
  "sp_interrupted (split_required facts) = map (\<lambda>r. (rf_context r, rf_run_id r)) (filter required_cancelled (cf_required facts))"
proof -
  have "sp_failed (fold split_step rs s) = sp_failed s @ map rf_context (filter required_red rs)
      \<and> sp_waiting (fold split_step rs s) = sp_waiting s @ map rf_context (filter (\<lambda>r. \<not> required_completed r) rs)
      \<and> sp_interrupted (fold split_step rs s) = sp_interrupted s @ map (\<lambda>r. (rf_context r, rf_run_id r)) (filter required_cancelled rs)" for rs s
    by (induction rs arbitrary: s)
      (auto simp: split_step_def required_completed_def required_green_def required_cancelled_def required_red_def
        required_conclusion_def Let_def dest: not_both_green_and_cancelled)
  then show "sp_failed (split_required facts) = map rf_context (filter required_red (cf_required facts))"
    "sp_waiting (split_required facts) = map rf_context (filter (\<lambda>r. \<not> required_completed r) (cf_required facts))"
    "sp_interrupted (split_required facts) = map (\<lambda>r. (rf_context r, rf_run_id r)) (filter required_cancelled (cf_required facts))"
    by (simp_all add: split_required_def)
qed

lemma split_empty:
  "sp_failed (split_required facts) = [] \<longleftrightarrow> (\<forall>r \<in> set (cf_required facts). \<not> required_red r)"
  "sp_waiting (split_required facts) = [] \<longleftrightarrow> (\<forall>r \<in> set (cf_required facts). required_completed r)"
  "sp_interrupted (split_required facts) = [] \<longleftrightarrow> (\<forall>r \<in> set (cf_required facts). \<not> required_cancelled r)"
  by (auto simp: split_required_simps filter_empty_conv)

lemma all_green:
  "sp_failed (split_required facts) = [] \<and> sp_waiting (split_required facts) = [] \<and> sp_interrupted (split_required facts) = []
     \<longleftrightarrow> (\<forall>r \<in> set (cf_required facts). required_green r)"
  unfolding split_empty using not_both_green_and_cancelled
  by (auto simp: required_red_def required_green_def required_cancelled_def)

text \<open>What every proposal has in common.\<close>

definition carrier_admits :: "carrier_facts \<Rightarrow> bool" where
  "carrier_admits facts \<longleftrightarrow> \<not> cf_draft facts \<and> to_ascii_uppercase (cf_merge_state facts) \<notin> {''DIRTY'', ''CONFLICTING''}
     \<and> cf_approved_head facts \<and> (cf_head_is_carry facts \<longrightarrow> cf_carry_approval facts \<noteq> None)"

lemma decide_Propose:
  "carrier_decide facts ejection = Propose a \<longleftrightarrow> carrier_admits facts
     \<and> (case ejection of None \<Rightarrow> plan_armed facts (to_ascii_uppercase (cf_merge_state facts))
        | Some (reason, new_head, commit) \<Rightarrow> plan_ejected facts reason new_head commit) = Propose a"
  by (auto simp: carrier_decide_def carrier_admits_def Let_def split: option.splits prod.splits)

lemma plan_Propose:
  "cp_decision (plan_carrier facts) = Propose a \<longleftrightarrow> carrier_admits facts
     \<and> (cf_queue facts = FactArmedNotQueued \<and> plan_armed facts (to_ascii_uppercase (cf_merge_state facts)) = Propose a
        \<or> (\<exists>reason new_head commit. cf_queue facts = FactEjected reason new_head commit
             \<and> plan_ejected facts reason new_head commit = Propose a))"
  by (cases "cf_queue facts") (auto simp: plan_carrier_def decide_Propose)

lemma plan_armed_Propose:
  "plan_armed facts merge_state = Propose a \<longleftrightarrow> sp_failed (split_required facts) = []
     \<and> (if sp_interrupted (split_required facts) \<noteq> [] then plan_redispatch facts (sp_interrupted (split_required facts)) = Propose a
        else sp_waiting (split_required facts) = [] \<and> merge_state = ''BEHIND'' \<and> plan_carry facts = Propose a)"
  by (simp add: plan_armed_def Let_def)

lemma plan_carry_Propose:
  "plan_carry facts = Propose a \<longleftrightarrow> a = ActUpdateBranch (cf_head_sha facts) \<and> cf_carry_approval facts \<noteq> None
     \<and> (\<forall>run \<in> set (cf_runs facts). on_head facts run \<longrightarrow> \<not> is_live (fr_status run))
     \<and> (\<exists>carries. cf_carries_last_day facts = Some carries \<and> carries < max_carries_per_day)"
  by (auto simp: plan_carry_def Let_def filter_empty_conv split: option.splits)

lemma plan_ejected_Propose:
  "plan_ejected facts reason new_head commit = Propose a \<longleftrightarrow> a = ActRearm (cf_head_sha facts) \<and> \<not> new_head
     \<and> to_ascii_lowercase reason = ''failed_checks'' \<and> (\<forall>r \<in> set (cf_required facts). required_green r)
     \<and> (\<exists>c causes. commit = Some c \<and> removal_causes facts c = Inr causes \<and> set causes \<subseteq> {''starved''})"
  unfolding all_green [symmetric] by (auto simp: plan_ejected_def Let_def filter_empty_conv split: option.splits sum.splits)

lemma plan_redispatch_shape: "plan_redispatch facts xs = Propose a \<Longrightarrow> \<exists>ids. a = ActRedispatch (cf_head_sha facts) ids"
  by (auto simp: plan_redispatch_def Let_def split: sum.splits if_splits)

text \<open>
  A branch is updated exactly when the pull request is armed, behind its base and green, a reviewer
  approved the current head, no run on the head is live and fewer than two carries were made in the
  last day; the update starts from the head the facts name.
\<close>

theorem update_branch_iff:
  "cp_decision (plan_carrier facts) = Propose (ActUpdateBranch head) \<longleftrightarrow>
     head = cf_head_sha facts \<and> cf_queue facts = FactArmedNotQueued \<and> \<not> cf_draft facts \<and> cf_approved_head facts
     \<and> to_ascii_uppercase (cf_merge_state facts) = ''BEHIND'' \<and> (\<forall>r \<in> set (cf_required facts). required_green r)
     \<and> cf_carry_approval facts \<noteq> None \<and> (\<forall>run \<in> set (cf_runs facts). on_head facts run \<longrightarrow> \<not> is_live (fr_status run))
     \<and> (\<exists>carries. cf_carries_last_day facts = Some carries \<and> carries < 2)"
proof -
  have "plan_armed facts m = Propose (ActUpdateBranch head) \<longleftrightarrow> (\<forall>r \<in> set (cf_required facts). required_green r)
      \<and> m = ''BEHIND'' \<and> plan_carry facts = Propose (ActUpdateBranch head)" for m
    using plan_redispatch_shape [of facts "sp_interrupted (split_required facts)" "ActUpdateBranch head"]
    unfolding plan_armed_Propose all_green [symmetric] by auto
  moreover have "plan_ejected facts reason new_head commit \<noteq> Propose (ActUpdateBranch head)" for reason new_head commit
    by (simp add: plan_ejected_Propose)
  ultimately have "cp_decision (plan_carrier facts) = Propose (ActUpdateBranch head) \<longleftrightarrow> carrier_admits facts \<and> cf_queue facts = FactArmedNotQueued
      \<and> (\<forall>r \<in> set (cf_required facts). required_green r) \<and> to_ascii_uppercase (cf_merge_state facts) = ''BEHIND''
      \<and> plan_carry facts = Propose (ActUpdateBranch head)" by (simp add: plan_Propose)
  moreover have "carrier_admits facts = (\<not> cf_draft facts \<and> cf_approved_head facts)"
    if "to_ascii_uppercase (cf_merge_state facts) = ''BEHIND''" "cf_carry_approval facts \<noteq> None"
    using that by (simp add: carrier_admits_def)
  ultimately show ?thesis by (auto simp: plan_carry_Propose max_carries_per_day_def)
qed

lemma run_causes_Inr:
  "run_causes required runs = Inr causes \<longleftrightarrow> (\<forall>run \<in> set runs. \<not> is_live (fr_status run) \<and> fr_jobs run \<noteq> [])
     \<and> causes = concat (map (\<lambda>run. List.map_filter (job_cause required run) (fr_jobs run)) runs)"
  by (induction runs arbitrary: causes) (auto simp: result_bind_Inr_iff)

lemma removal_causes_Inr:
  "removal_causes facts commit = Inr causes \<longleftrightarrow> causes \<noteq> [] \<and> (\<forall>run \<in> set (merge_group_runs facts commit). \<not> is_live (fr_status run) \<and> fr_jobs run \<noteq> [])
     \<and> causes = sort_dedup (concat (map (\<lambda>run. List.map_filter (job_cause (map (\<lambda>r. to_ascii_lowercase (rf_context r)) (cf_required facts)) run)
          (fr_jobs run)) (merge_group_runs facts commit)))"
  by (auto simp: removal_causes_def Let_def result_bind_Inr_iff run_causes_Inr)

text \<open>
  A job that starved: cancelled without a runner, at least ten minutes after it was created. The code
  also takes a conclusion that reads \<open>starved\<close>, which GitHub does not use.
\<close>

definition job_conclusion :: "job_fact \<Rightarrow> string option" where
  "job_conclusion j = map_option to_ascii_lowercase (jf_conclusion j)"

definition job_starved :: "job_fact \<Rightarrow> bool" where
  "job_starved j \<longleftrightarrow> (job_conclusion j = Some ''cancelled'' \<and> \<not> is_some_and (jf_runner_name j) not_blank \<or> job_conclusion j = Some ''starved'')
     \<and> (\<exists>created completed. jf_created_at j = Some created \<and> jf_completed_at j = Some completed
          \<and> 10 * 60 * nanos_per_second \<le> completed - created)"

definition job_passed :: "job_fact \<Rightarrow> bool" where
  "job_passed j \<longleftrightarrow> job_conclusion j \<in> {Some ''success'', Some ''skipped'', Some ''neutral''}"

lemma waited_iff: "waited_for_a_runner j \<longleftrightarrow> (\<exists>created completed. jf_created_at j = Some created \<and> jf_completed_at j = Some completed
     \<and> 10 * 60 * nanos_per_second \<le> completed - created)"
  by (cases "jf_created_at j"; cases "jf_completed_at j")
    (simp_all add: waited_for_a_runner_def duration_minutes_def duration_seconds_def carrier_min_wait_minutes_def)

lemma sample_cause:
  "ejection_cause (carrier_sample run j) = None \<longleftrightarrow> job_passed j"
  "ejection_cause (carrier_sample run j) = Some ''starved'' \<longleftrightarrow>
     job_conclusion j = Some ''cancelled'' \<and> \<not> is_some_and (jf_runner_name j) not_blank \<or> job_conclusion j = Some ''starved''"
  by (cases "job_conclusion j";
      simp add: ejection_cause_def carrier_sample_def gate_job_assigned_def job_passed_def flip: job_conclusion_def; fastforce)+

lemma job_cause_starved: "job_cause required run j = Some ''starved'' \<longleftrightarrow> job_starved j"
  using sample_cause(2) [of run j] unfolding job_starved_def waited_iff [symmetric]
  by (cases "ejection_cause (carrier_sample run j)") (auto simp: job_cause_def Let_def)

lemma job_cause_None:
  "job_cause required run j = None \<longleftrightarrow> job_passed j \<or> (to_ascii_lowercase (jf_name j) \<notin> set required \<and> \<not> job_starved j)"
  using sample_cause [of run j] unfolding job_starved_def waited_iff [symmetric]
  by (cases "ejection_cause (carrier_sample run j)") (auto simp: job_cause_def job_passed_def Let_def)

text \<open>
  (C10) Auto-merge is armed again only on the head the facts name, when the queue removed exactly that head
  for failed checks, every required check of the head is green, and the removal's merge-group runs
  are complete and show starvation only: some job starved, and every job named like a required check
  passed or starved.
\<close>

theorem rearm_only_after_starvation:
  assumes "cp_decision (plan_carrier facts) = Propose (ActRearm head)"
  shows "head = cf_head_sha facts \<and> \<not> cf_draft facts \<and> cf_approved_head facts
     \<and> (\<forall>r \<in> set (cf_required facts). required_green r)
     \<and> (\<exists>reason commit. cf_queue facts = FactEjected reason False (Some commit) \<and> to_ascii_lowercase reason = ''failed_checks''
         \<and> (\<forall>run \<in> set (merge_group_runs facts commit). \<not> is_live (fr_status run) \<and> fr_jobs run \<noteq> []
              \<and> (\<forall>j \<in> set (fr_jobs run). \<forall>r \<in> set (cf_required facts).
                   to_ascii_lowercase (jf_name j) = to_ascii_lowercase (rf_context r) \<longrightarrow> job_passed j \<or> job_starved j))
         \<and> (\<exists>run \<in> set (merge_group_runs facts commit). \<exists>j \<in> set (fr_jobs run). job_starved j))"
proof -
  let ?req = "map (\<lambda>r. to_ascii_lowercase (rf_context r)) (cf_required facts)"
  have "plan_armed facts m \<noteq> Propose (ActRearm head)" for m
    using plan_redispatch_shape [of facts "sp_interrupted (split_required facts)" "ActRearm head"]
    by (auto simp: plan_armed_Propose plan_carry_Propose)
  with assms obtain reason commit causes where q: "carrier_admits facts" "head = cf_head_sha facts"
    "cf_queue facts = FactEjected reason False (Some commit)" "to_ascii_lowercase reason = ''failed_checks''"
    "\<forall>r \<in> set (cf_required facts). required_green r" and c: "removal_causes facts commit = Inr causes" "set causes \<subseteq> {''starved''}"
    by (auto simp: plan_Propose plan_ejected_Propose)
  from c(1) have runs: "\<forall>run \<in> set (merge_group_runs facts commit). \<not> is_live (fr_status run) \<and> fr_jobs run \<noteq> []" and ne: "causes \<noteq> []"
    and cs: "set causes = (\<Union>run \<in> set (merge_group_runs facts commit). set (List.map_filter (job_cause ?req run) (fr_jobs run)))"
    by (auto simp: removal_causes_Inr)
  have cause: "x = ''starved''" if "run \<in> set (merge_group_runs facts commit)" "j \<in> set (fr_jobs run)" "job_cause ?req run j = Some x" for run j x
  proof -
    from that have "x \<in> set causes" unfolding cs by (auto simp: set_map_filter_iff)
    with c(2) show ?thesis by blast
  qed
  have named: "job_passed j \<or> job_starved j" if "run \<in> set (merge_group_runs facts commit)" "j \<in> set (fr_jobs run)" "to_ascii_lowercase (jf_name j) \<in> set ?req" for run j
    using cause [OF that(1,2)] that(3) job_cause_None [of ?req run j] job_cause_starved [of ?req run j] by (cases "job_cause ?req run j") auto
  from ne obtain x where "x \<in> set causes" by (cases causes) auto
  with cs obtain run j where "run \<in> set (merge_group_runs facts commit)" "j \<in> set (fr_jobs run)" "job_cause ?req run j = Some x"
    by (auto simp: set_map_filter_iff)
  with cause job_cause_starved have some: "\<exists>run \<in> set (merge_group_runs facts commit). \<exists>j \<in> set (fr_jobs run). job_starved j" by metis
  have all: "\<forall>run \<in> set (merge_group_runs facts commit). \<not> is_live (fr_status run) \<and> fr_jobs run \<noteq> []
      \<and> (\<forall>j \<in> set (fr_jobs run). \<forall>r \<in> set (cf_required facts).
           to_ascii_lowercase (jf_name j) = to_ascii_lowercase (rf_context r) \<longrightarrow> job_passed j \<or> job_starved j)"
    using runs named by simp
  show ?thesis using q(2,5) q(1) [unfolded carrier_admits_def] by (intro conjI exI [of _ reason] exI [of _ commit] q(3,4) all some) simp_all
qed

text \<open>A run that the carrier may rerun: on the head, complete, not yet rerun, and interrupted.\<close>

definition rerunnable :: "carrier_facts \<Rightarrow> run_fact \<Rightarrow> bool" where
  "rerunnable facts run \<longleftrightarrow> run \<in> set (cf_runs facts) \<and> on_head facts run \<and> \<not> is_live (fr_status run) \<and> \<not> reran_same_workflow facts run
     \<and> (\<exists>hits. classify_jobs (map interruption_job_of (fr_jobs run)) = Inr hits)"

definition run_of :: "carrier_facts \<Rightarrow> u64 \<Rightarrow> run_fact option" where
  "run_of facts i = find (\<lambda>run. fr_id run = i) (cf_runs facts)"

lemma run_of_Some: "run_of facts i = Some run \<Longrightarrow> run \<in> set (cf_runs facts) \<and> fr_id run = i"
  by (auto simp: run_of_def find_Some_iff)

lemma scan_grows:
  assumes "scan_interrupted facts xs s = Inr s'"
  shows "set (rs_missing s) \<subseteq> set (rs_missing s') \<and> set (rs_live s) \<subseteq> set (rs_live s') \<and> set (rs_spent s) \<subseteq> set (rs_spent s')
     \<and> set (rs_eligible s) \<subseteq> set (rs_eligible s')"
  using assms
proof (induction xs arbitrary: s)
  case (Cons x xs)
  then show ?case by (cases x) (auto split: option.splits if_splits sum.splits dest!: Cons.IH)
qed simp

lemma scan_eligible:
  assumes "scan_interrupted facts xs s = Inr s'"
  shows "(distinct (rs_eligible s) \<longrightarrow> distinct (rs_eligible s'))
     \<and> (\<forall>i \<in> set (rs_eligible s'). i \<in> set (rs_eligible s) \<or>
          (\<exists>c run. (c, Some i) \<in> set xs \<and> run_of facts i = Some run \<and> rerunnable facts run))"
  using assms
proof (induction xs arbitrary: s)
  case (Cons x xs)
  obtain c rid where x: "x = (c, rid)" by (cases x)
  show ?case
  proof (cases "Option.bind rid (\<lambda>i. run_of facts i)")
    case None
    with Cons.prems have "scan_interrupted facts xs (s\<lparr>rs_missing := rs_missing s @ [c]\<rparr>) = Inr s'"
      by (simp add: x run_of_def)
    from Cons.IH [OF this] show ?thesis by auto
  next
    case (Some run)
    then obtain i where i: "rid = Some i" "run_of facts i = Some run" by (cases rid) auto
    note r = run_of_Some [OF i(2)]
    show ?thesis
    proof (cases "rerunnable facts run")
      case True
      with Cons.prems i r have "scan_interrupted facts xs (if i \<in> set (rs_eligible s) then s else s\<lparr>rs_eligible := rs_eligible s @ [i]\<rparr>) = Inr s'"
        by (auto simp: x run_of_def rerunnable_def split: sum.splits)
      from Cons.IH [OF this] True i show ?thesis by (auto simp: x split: if_splits)
    next
      case False
      with Cons.prems i r have "scan_interrupted facts xs (s\<lparr>rs_missing := rs_missing s @ [c]\<rparr>) = Inr s'
          \<or> scan_interrupted facts xs (s\<lparr>rs_live := rs_live s @ [i]\<rparr>) = Inr s' \<or> scan_interrupted facts xs (s\<lparr>rs_spent := rs_spent s @ [i]\<rparr>) = Inr s'"
        by (auto simp: x run_of_def rerunnable_def split: if_splits sum.splits)
      then show ?thesis by (auto dest!: Cons.IH)
    qed
  qed
qed simp

lemma scan_nonempty:
  assumes "scan_interrupted facts xs s = Inr s'" "xs \<noteq> []" "rs_missing s' = []" "rs_live s' = []" "rs_spent s' = []"
  shows "rs_eligible s' \<noteq> []"
proof -
  obtain c rid ys where xs: "xs = (c, rid) # ys" using assms(2) by (cases xs) auto
  have "\<exists>s1. scan_interrupted facts ys s1 = Inr s' \<and> (rs_missing s1 \<noteq> [] \<or> rs_live s1 \<noteq> [] \<or> rs_spent s1 \<noteq> [] \<or> rs_eligible s1 \<noteq> [])"
    using assms(1) by (auto simp: xs split: option.splits if_splits sum.splits)
  then obtain s1 where s1: "scan_interrupted facts ys s1 = Inr s'" "rs_missing s1 \<noteq> [] \<or> rs_live s1 \<noteq> [] \<or> rs_spent s1 \<noteq> [] \<or> rs_eligible s1 \<noteq> []" by blast
  from scan_grows [OF s1(1)] s1(2) assms(3-5) show ?thesis by auto
qed

lemma live_same_workflow_empty:
  assumes "live_same_workflow facts eligible = []" "i \<in> set eligible" "run_of facts i = Some run"
    and "other \<in> set (cf_runs facts)" "fr_workflow other = fr_workflow run" "on_head facts other" "is_live (fr_status other)"
  shows "fr_id other = i"
proof -
  have "run \<in> set (List.map_filter (\<lambda>run_id. find (\<lambda>run. fr_id run = run_id) (cf_runs facts)) eligible)"
    using assms(2,3) by (auto simp: set_map_filter_iff run_of_def)
  with assms(1) have "filter (\<lambda>other. fr_id other \<noteq> fr_id run \<and> fr_workflow other = fr_workflow run \<and> on_head facts other
      \<and> is_live (fr_status other)) (cf_runs facts) = []" by (simp add: live_same_workflow_def)
  with assms(4-7) run_of_Some [OF assms(3)] show ?thesis by (auto simp: filter_empty_conv)
qed

lemma plan_redispatch_Propose:
  assumes "plan_redispatch facts xs = Propose (ActRedispatch head ids)" "xs \<noteq> []"
  shows "head = cf_head_sha facts" "ids \<noteq> []" "distinct ids" "length ids + recent_reruns facts \<le> max_redispatches_per_pr_window"
    "i \<in> set ids \<Longrightarrow> \<exists>c run. (c, Some i) \<in> set xs \<and> run_of facts i = Some run \<and> rerunnable facts run
       \<and> (\<forall>other \<in> set (cf_runs facts). fr_workflow other = fr_workflow run \<and> on_head facts other \<longrightarrow> \<not> is_live (fr_status other) \<or> fr_id other = i)"
proof -
  let ?s0 = "\<lparr>rs_missing = [], rs_live = [], rs_spent = [], rs_eligible = []\<rparr>"
  from assms(1) obtain s where s: "scan_interrupted facts xs ?s0 = Inr s" "rs_missing s = []" "rs_live s = []" "rs_spent s = []"
    "live_same_workflow facts (rs_eligible s) = []" "max_redispatches_per_pr_window - recent_reruns facts \<noteq> 0" "head = cf_head_sha facts"
    and ids: "ids = take (max_redispatches_per_pr_window - recent_reruns facts) (sort (rs_eligible s))"
    by (auto simp: plan_redispatch_def Let_def split: sum.splits if_splits)
  show "head = cf_head_sha facts" by (rule s(7))
  have ne: "rs_eligible s \<noteq> []" by (rule scan_nonempty [OF s(1) assms(2) s(2-4)])
  then have "length ids \<noteq> 0" unfolding ids using s(6) by simp
  then show "ids \<noteq> []" by auto
  note e = scan_eligible [OF s(1)]
  from e show "distinct ids" unfolding ids by simp
  show "length ids + recent_reruns facts \<le> max_redispatches_per_pr_window" unfolding ids using s(6) by simp
  assume "i \<in> set ids"
  then have i: "i \<in> set (rs_eligible s)" unfolding ids by (auto dest: in_set_takeD)
  with e obtain c run where r: "(c, Some i) \<in> set xs" "run_of facts i = Some run" "rerunnable facts run" by auto
  have "fr_id other = i" if "other \<in> set (cf_runs facts)" "fr_workflow other = fr_workflow run" "on_head facts other" "is_live (fr_status other)" for other
    using live_same_workflow_empty [OF s(5) i r(2)] that by blast
  with r show "\<exists>c run. (c, Some i) \<in> set xs \<and> run_of facts i = Some run \<and> rerunnable facts run
       \<and> (\<forall>other \<in> set (cf_runs facts). fr_workflow other = fr_workflow run \<and> on_head facts other \<longrightarrow> \<not> is_live (fr_status other) \<or> fr_id other = i)"
    by blast
qed

lemma list_all2_left: "list_all2 P xs ys \<Longrightarrow> x \<in> set xs \<Longrightarrow> \<exists>y. P x y"
  by (induction rule: list_all2_induct) auto

lemma classified_job:
  assumes "classify_jobs (map interruption_job_of js) = Inr hits" "j \<in> set js"
  shows "job_passed j \<or> job_conclusion j = Some ''cancelled'' \<and> \<not> is_some_and (jf_runner_name j) (\<lambda>n. trim n \<noteq> []) \<and> \<not> jf_superseded j \<and> \<not> jf_cancelled_by_actor j"
proof (cases "interruption_passed (interruption_job_of j)")
  case True
  then show ?thesis by (simp add: interruption_passed_def interruption_job_of_def job_passed_def job_conclusion_def)
next
  case False
  let ?f = "filter (\<lambda>j. \<not> interruption_passed j) (map interruption_job_of js)"
  from assms(1) have "list_all2 (\<lambda>j h. classify_job j = Inr h) ?f hits"
    unfolding classify_jobs_def result_bind_Inr_iff collect_results_map_Inr by (metis Inl_not_Inr sum.inject(2))
  moreover have "interruption_job_of j \<in> set ?f" using False assms(2) by simp
  ultimately obtain h where "classify_job (interruption_job_of j) = Inr h" using list_all2_left [of "\<lambda>j h. classify_job j = Inr h" ?f hits] by auto
  then show ?thesis
    by (auto simp: classify_job_Inr is_runnerless_cancel_def has_runner_def interruption_job_of_def job_conclusion_def)
qed


section \<open>The time of the arm\<close>

lemma iter_max_Some: "iter_max ts = Some m \<longleftrightarrow> m \<in> set ts \<and> (\<forall>t \<in> set ts. t \<le> m)"
proof (induction ts arbitrary: m)
  case (Cons t ts)
  show ?case
  proof (cases "iter_max ts")
    case None
    then have "ts = []" by (cases ts) (auto split: option.splits)
    then show ?thesis by auto
  next
    case (Some m')
    with Cons.IH [of m'] have "m' \<in> set ts \<and> (\<forall>t \<in> set ts. t \<le> m')" by simp
    with Some show ?thesis by (auto simp: max_def intro: order_antisym)
  qed
qed simp

lemma iter_max_None [simp]: "iter_max ts = None \<longleftrightarrow> ts = []"
  by (cases ts) (auto split: option.splits)

text \<open>
  The timeline shows the head armed at \<open>t\<close> exactly when the head's arrival is visible and \<open>t\<close> is the
  newest arm event, no earlier than any arrival of the head: an arm of a previous head never counts.
\<close>

theorem head_armed_iff:
  assumes "json_path [''data'', ''repository'', ''pullRequest'', ''timelineItems''] response = Some timeline"
    and "json_get ''nodes'' timeline = Some (JArray nodes)"
  shows "head_arm_time parse_time response head = Inr (Some t) \<longleftrightarrow>
     t \<in> set (arm_times parse_time nodes) \<and> (\<forall>t' \<in> set (arm_times parse_time nodes). t' \<le> t)
     \<and> (\<exists>node \<in> set nodes. \<exists>a. arrival_of parse_time head node = Some a)
     \<and> (\<forall>node \<in> set nodes. \<forall>a. arrival_of parse_time head node = Some a \<longrightarrow> a \<le> t)"
proof -
  let ?as = "List.map_filter (arrival_of parse_time head) nodes"
  have mem: "a \<in> set ?as \<longleftrightarrow> (\<exists>node \<in> set nodes. arrival_of parse_time head node = Some a)" for a by (simp add: set_map_filter_iff)
  show ?thesis
  proof (cases "iter_max ?as")
    case None
    then have none: "\<And>node. node \<in> set nodes \<Longrightarrow> arrival_of parse_time head node = None"
      using mem by (metis empty_iff iter_max_None list.set(1) option.exhaust)
    with None assms show ?thesis by (auto simp: head_arm_time_def)
  next
    case (Some a)
    then have a: "a \<in> set ?as" "\<And>x. x \<in> set ?as \<Longrightarrow> x \<le> a" by (simp_all add: iter_max_Some)
    have "head_arm_time parse_time response head = Inr (Some t) \<longleftrightarrow> iter_max (filter (\<lambda>at. a \<le> at) (arm_times parse_time nodes)) = Some t"
      using Some assms by (simp add: head_arm_time_def)
    also have "\<dots> \<longleftrightarrow> t \<in> set (arm_times parse_time nodes) \<and> a \<le> t \<and> (\<forall>t' \<in> set (arm_times parse_time nodes). t' \<le> t)"
      by (auto simp: iter_max_Some)
    also have "a \<le> t \<longleftrightarrow> (\<forall>x \<in> set ?as. x \<le> t)" using a by (meson dual_order.trans)
    also have "(\<forall>x \<in> set ?as. x \<le> t) \<longleftrightarrow> (\<forall>node \<in> set nodes. \<forall>a. arrival_of parse_time head node = Some a \<longrightarrow> a \<le> t)"
      using mem by blast
    moreover have "\<exists>node \<in> set nodes. \<exists>a. arrival_of parse_time head node = Some a" using a(1) mem by blast
    ultimately show ?thesis by blast
  qed
qed

section \<open>Sample facts\<close>

definition carrier_required :: "string \<Rightarrow> required_fact" where
  "carrier_required conclusion = \<lparr>rf_context = ''build'', rf_status = ''COMPLETED'', rf_conclusion = Some conclusion, rf_run_id = Some 7\<rparr>"

definition carrier_waiting_job :: job_fact where
  "carrier_waiting_job = \<lparr>jf_name = ''build'', jf_status = ''completed'', jf_conclusion = Some ''cancelled'', jf_runner_name = None,
     jf_created_at = Some 0, jf_completed_at = Some (17 * 60 * nanos_per_second), jf_superseded = False, jf_cancelled_by_actor = False\<rparr>"

definition carrier_run :: "string \<Rightarrow> string \<Rightarrow> run_fact" where
  "carrier_run event head = \<lparr>fr_id = 7, fr_workflow = ''w'', fr_event = event, fr_head_sha = head, fr_status = ''completed'',
     fr_conclusion = Some ''cancelled'', fr_run_attempt = 1, fr_run_started_at = Some 0, fr_jobs = [carrier_waiting_job]\<rparr>"

definition carrier_sample_facts :: "carrier_queue_fact \<Rightarrow> string \<Rightarrow> run_fact \<Rightarrow> carrier_facts" where
  "carrier_sample_facts queue conclusion run = \<lparr>cf_repo = ''o/r'', cf_number = 3, cf_head_sha = ''a1'', cf_draft = False, cf_merge_state = ''BLOCKED'',
     cf_queue = queue, cf_approved_head = True, cf_approval_evidence = None, cf_review_marker = None, cf_carry_approval = None,
     cf_carry_approval_detail = None, cf_carries_last_day = None, cf_head_is_carry = False, cf_required = [carrier_required conclusion],
     cf_runs = [run], cf_observed_at = 0\<rparr>"

theorem rearm_only_after_starvation_witness:
  "let facts = carrier_sample_facts (FactEjected ''FAILED_CHECKS'' False (Some ''c0'')) ''SUCCESS'' (carrier_run ''merge_group'' ''c0'') in
   cp_decision (plan_carrier facts) = Propose (ActRearm ''a1'') \<and> (\<forall>r \<in> set (cf_required facts). required_green r)"
proof -
  let ?facts = "carrier_sample_facts (FactEjected ''FAILED_CHECKS'' False (Some ''c0'')) ''SUCCESS'' (carrier_run ''merge_group'' ''c0'')"
  have p: "cp_decision (plan_carrier ?facts) = Propose (ActRearm ''a1'')" by code_simp
  from rearm_only_after_starvation [OF p] p show ?thesis unfolding Let_def by blast
qed


definition carrier_timeline :: json where
  "carrier_timeline = JObject [(''data'', JObject [(''repository'', JObject [(''pullRequest'', JObject [(''timelineItems'',
     JObject [(''nodes'', JArray
       [JObject [(''__typename'', JString ''HeadRefForcePushedEvent''), (''afterCommit'', JObject [(''oid'', JString ''A1'')]), (''createdAt'', JString ''ab'')],
        JObject [(''__typename'', JString ''AutoMergeEnabledEvent''), (''createdAt'', JString ''abc'')]])])])])])]"

theorem head_armed_iff_witness:
  "head_arm_time (\<lambda>s. Some (int (length s))) carrier_timeline ''a1'' = Inr (Some 3)"
proof -
  let ?nodes = "[JObject [(''__typename'', JString ''HeadRefForcePushedEvent''), (''afterCommit'', JObject [(''oid'', JString ''A1'')]), (''createdAt'', JString ''ab'')],
        JObject [(''__typename'', JString ''AutoMergeEnabledEvent''), (''createdAt'', JString ''abc'')]]"
  have path: "json_path [''data'', ''repository'', ''pullRequest'', ''timelineItems''] carrier_timeline = Some (JObject [(''nodes'', JArray ?nodes)])"
    "json_get ''nodes'' (JObject [(''nodes'', JArray ?nodes)]) = Some (JArray ?nodes)"
    by (simp_all add: carrier_timeline_def)
  have times: "arm_times (\<lambda>s. Some (int (length s))) ?nodes = [3]" "map (arrival_of (\<lambda>s. Some (int (length s))) ''a1'') ?nodes = [Some 2, None]"
    by code_simp+
  show ?thesis unfolding head_armed_iff [OF path] times(1) using times(2) by simp
qed

theorem update_branch_iff_witness:
  "let facts = (carrier_sample_facts FactArmedNotQueued ''SUCCESS'' (carrier_run ''pull_request'' ''a1''))
       \<lparr>cf_merge_state := ''behind'', cf_carry_approval := Some ''review:r'', cf_carries_last_day := Some 1\<rparr> in
   cp_decision (plan_carrier facts) = Propose (ActUpdateBranch ''a1'')"
proof -
  have parts: "to_ascii_uppercase ''behind'' = ''BEHIND''" "required_green (carrier_required ''SUCCESS'')"
    "\<not> is_live (fr_status (carrier_run ''pull_request'' ''a1''))" by code_simp+
  show ?thesis unfolding Let_def update_branch_iff using parts by (simp add: carrier_sample_facts_def)
qed

end
