(* ===== verification/Ship_Liveness.thy ===== *)
theory Ship_Liveness
  imports Ship_State Job_Queue
begin

text \<open>
  The read-only liveness classification of ship states, \<open>src/src/ship_liveness.rs\<close>: which job of a
  queue snapshot owns a ship state, whether an unfinished state is orphaned and on which evidence,
  and what becomes of the verdict once GitHub's state of the pull request is known. The parsed
  \<open>[ship_state]\<close> table and the envelope that the request store loads are inputs.

  The lemmas characterise the verdict by the owning jobs alone and show that it does not depend on
  the order of the snapshot and never names a state with a live worker.
\<close>

section \<open>Evidence and findings\<close>

definition default_orphan_stale_minutes :: int where "default_orphan_stale_minutes = 45"
definition max_orphan_stale_minutes :: int where "max_orphan_stale_minutes = 365 * 24 * 60"

datatype orphan_evidence = QueueStale | QueueTerminal | QueueAbsent | TimeFallback

fun evidence_str :: "orphan_evidence \<Rightarrow> string" where
  "evidence_str QueueStale = ''queue_stale''"
| "evidence_str QueueTerminal = ''queue_terminal''"
| "evidence_str QueueAbsent = ''queue_absent''"
| "evidence_str TimeFallback = ''time_fallback''"

fun evidence_cause :: "orphan_evidence \<Rightarrow> string" where
  "evidence_cause QueueStale = ''owning worker heartbeat is dead''"
| "evidence_cause QueueTerminal = ''owning worker ended without finalizing''"
| "evidence_cause QueueAbsent = ''no owning worker in the queue''"
| "evidence_cause TimeFallback = ''no update and queue unavailable''"

datatype pr_lifecycle = LifeOpen | LifeMerged | LifeClosed | LifeUnknown

definition from_gh_state :: "string option \<Rightarrow> pr_lifecycle" where
  "from_gh_state state = (case map_option trim state of
       Some v \<Rightarrow> if eq_ignore_ascii_case v ''merged'' then LifeMerged
         else if eq_ignore_ascii_case v ''closed'' then LifeClosed
         else if eq_ignore_ascii_case v ''open'' then LifeOpen else LifeUnknown
     | None \<Rightarrow> LifeUnknown)"

fun lifecycle_str :: "pr_lifecycle \<Rightarrow> string" where
  "lifecycle_str LifeOpen = ''open''"
| "lifecycle_str LifeMerged = ''merged''"
| "lifecycle_str LifeClosed = ''closed''"
| "lifecycle_str LifeUnknown = ''unknown''"

definition lifecycle_is_terminal :: "pr_lifecycle \<Rightarrow> bool" where
  "lifecycle_is_terminal l = (l \<in> {LifeMerged, LifeClosed})"

record orphan_report =
  or_evidence :: orphan_evidence
  or_stalled_minutes :: int

record resolved_report =
  rr_lifecycle :: pr_lifecycle
  rr_evidence :: orphan_evidence
  rr_stalled_minutes :: int

datatype liveness_finding = Orphaned orphan_report pr_lifecycle | Resolved resolved_report

definition reconcile_finding :: "orphan_report \<Rightarrow> pr_lifecycle \<Rightarrow> liveness_finding" where
  "reconcile_finding report lifecycle =
     (if lifecycle_is_terminal lifecycle
      then Resolved \<lparr>rr_lifecycle = lifecycle, rr_evidence = or_evidence report, rr_stalled_minutes = or_stalled_minutes report\<rparr>
      else Orphaned report lifecycle)"

section \<open>Configuration\<close>

record ship_state_config =
  sc_orphan_stale_minutes :: "int option"
  sc_auto_resume :: bool
  sc_queue_absent_recovery :: bool
  sc_repo_paths :: "(string \<times> string) list"

definition default_heartbeat_stale_after :: duration where
  "default_heartbeat_stale_after = duration_seconds default_running_job_stale_seconds"

definition orphan_stale_after :: "ship_state_config option \<Rightarrow> duration" where
  "orphan_stale_after config =
     (let minutes = unwrap_or (Option.bind config sc_orphan_stale_minutes) default_orphan_stale_minutes
      in duration_seconds (60 * max 1 (min max_orphan_stale_minutes minutes)))"

definition queue_absent_recovery_enabled :: "ship_state_config option \<Rightarrow> bool" where
  "queue_absent_recovery_enabled config = is_some_and config sc_queue_absent_recovery"

definition queue_absent_repo_path :: "ship_state_config option \<Rightarrow> string \<Rightarrow> string option" where
  "queue_absent_repo_path config repo = Option.bind config (\<lambda>cfg. map_option snd
     (find (\<lambda>(registered, _). canonical_repository registered = canonical_repository repo) (sc_repo_paths cfg)))"

definition auto_resume_enabled :: "ship_state_config option \<Rightarrow> bool" where
  "auto_resume_enabled config = is_some_and config sc_auto_resume"

section \<open>The owning job\<close>

datatype queue_match =
    MatchUnavailable
  | MatchAbsent
  | MatchPending job
  | MatchRunning job bool
  | MatchTerminal job

definition queue_match_job :: "queue_match \<Rightarrow> job option" where
  "queue_match_job m = (case m of MatchPending j \<Rightarrow> Some j | MatchTerminal j \<Rightarrow> Some j | MatchRunning j _ \<Rightarrow> Some j
     | MatchUnavailable \<Rightarrow> None | MatchAbsent \<Rightarrow> None)"

record owner_candidates =
  oc_live_running :: "job option"
  oc_dead_running :: "job option"
  oc_pending :: "job option"
  oc_terminal :: "job option"

definition get_or_insert :: "job \<Rightarrow> job option \<Rightarrow> job option" where
  "get_or_insert j slot = (case slot of None \<Rightarrow> Some j | Some _ \<Rightarrow> slot)"

definition owns :: "ship_state \<Rightarrow> (job \<Rightarrow> (u64 \<times> string) option) \<Rightarrow> job \<Rightarrow> bool" where
  "owns s pr_repo_of j = (case pr_repo_of j of
       None \<Rightarrow> False
     | Some (pr, repo) \<Rightarrow> pr = ss_pr s \<and> canonical_repository repo = canonical_repository (ss_repo s))"

definition owner_step ::
  "ship_state \<Rightarrow> (job \<Rightarrow> (u64 \<times> string) option) \<Rightarrow> time \<Rightarrow> duration \<Rightarrow> job \<Rightarrow> owner_candidates \<Rightarrow> owner_candidates" where
  "owner_step s pr_repo_of now stale_after j c =
     (if \<not> owns s pr_repo_of j then c
      else case job_status j of
        JobRunning \<Rightarrow> if is_stale_running now stale_after j then c\<lparr>oc_dead_running := get_or_insert j (oc_dead_running c)\<rparr>
          else c\<lparr>oc_live_running := get_or_insert j (oc_live_running c)\<rparr>
      | JobPending \<Rightarrow> c\<lparr>oc_pending := get_or_insert j (oc_pending c)\<rparr>
      | _ \<Rightarrow> c\<lparr>oc_terminal := get_or_insert j (oc_terminal c)\<rparr>)"

definition match_ship_job ::
  "ship_state \<Rightarrow> job list option \<Rightarrow> (job \<Rightarrow> (u64 \<times> string) option) \<Rightarrow> time \<Rightarrow> duration \<Rightarrow> queue_match" where
  "match_ship_job s jobs pr_repo_of now stale_after = (case jobs of
       None \<Rightarrow> MatchUnavailable
     | Some js \<Rightarrow>
         let c = fold (owner_step s pr_repo_of now stale_after) js
           \<lparr>oc_live_running = None, oc_dead_running = None, oc_pending = None, oc_terminal = None\<rparr>
         in case oc_live_running c of Some j \<Rightarrow> MatchRunning j False
          | None \<Rightarrow> (case oc_dead_running c of Some j \<Rightarrow> MatchRunning j True
          | None \<Rightarrow> (case oc_pending c of Some j \<Rightarrow> MatchPending j
          | None \<Rightarrow> (case oc_terminal c of Some j \<Rightarrow> MatchTerminal j
          | None \<Rightarrow> MatchAbsent))))"

definition classify_orphan :: "ship_state \<Rightarrow> queue_match \<Rightarrow> time \<Rightarrow> duration \<Rightarrow> orphan_report option" where
  "classify_orphan s m now stale_after =
     (if ship_terminal_verdict s \<noteq> None then None
      else let stalled = num_minutes (now - ss_updated_at s);
               report = (\<lambda>evidence time_gated.
                 if time_gated \<and> stalled < num_minutes stale_after then None
                 else Some \<lparr>or_evidence = evidence, or_stalled_minutes = max stalled 0\<rparr>)
        in case m of
          MatchRunning _ stale \<Rightarrow> if stale then report QueueStale False else None
        | MatchPending _ \<Rightarrow> None
        | MatchTerminal _ \<Rightarrow> report QueueTerminal False
        | MatchAbsent \<Rightarrow> report QueueAbsent True
        | MatchUnavailable \<Rightarrow> report TimeFallback True)"

section \<open>The context of a diagnostic\<close>

text \<open>\<open>lc_load\<close> is the request store, when one was opened: the envelope of a job id, or why it could not be read.\<close>

record ('e, 'cs) liveness_context =
  lc_jobs :: "job list option"
  lc_load :: "(string \<Rightarrow> 'e + 'cs queued_execution_envelope option) option"
  lc_stale_after :: duration
  lc_heartbeat_stale_after :: duration

definition context_from_queue ::
  "job list \<Rightarrow> (string \<Rightarrow> 'e + 'cs queued_execution_envelope option) \<Rightarrow> duration \<Rightarrow> ('e, 'cs) liveness_context" where
  "context_from_queue jobs load stale_after = \<lparr>lc_jobs = Some jobs, lc_load = Some load, lc_stale_after = stale_after,
     lc_heartbeat_stale_after = default_heartbeat_stale_after\<rparr>"

definition time_only :: "duration \<Rightarrow> ('e, 'cs) liveness_context" where
  "time_only stale_after = \<lparr>lc_jobs = None, lc_load = None, lc_stale_after = stale_after,
     lc_heartbeat_stale_after = default_heartbeat_stale_after\<rparr>"

definition ship_pr_repo :: "(string \<Rightarrow> 'e + 'cs queued_execution_envelope option) \<Rightarrow> string \<Rightarrow> (u64 \<times> string) option" where
  "ship_pr_repo load jid = (case load jid of
       Inr (Some e) \<Rightarrow> (case env_request e of QueuedShip r \<Rightarrow> Some (qsr_pr r, qsr_repo r) | QueuedRun _ \<Rightarrow> None)
     | _ \<Rightarrow> None)"

definition match_job :: "('e, 'cs) liveness_context \<Rightarrow> ship_state \<Rightarrow> time \<Rightarrow> queue_match" where
  "match_job ctxt s now = match_ship_job s (lc_jobs ctxt) (\<lambda>j. Option.bind (lc_load ctxt) (\<lambda>load. ship_pr_repo load (job_id j)))
     now (lc_heartbeat_stale_after ctxt)"

definition liveness_classify :: "('e, 'cs) liveness_context \<Rightarrow> ship_state \<Rightarrow> time \<Rightarrow> orphan_report option" where
  "liveness_classify ctxt s now = classify_orphan s (match_job ctxt s now) now (lc_stale_after ctxt)"

definition collect_orphans :: "ship_store \<Rightarrow> ('e, 'cs) liveness_context \<Rightarrow> time \<Rightarrow> (string \<times> u64 \<times> orphan_report) list" where
  "collect_orphans store ctxt now = List.map_filter (\<lambda>s. map_option (\<lambda>report. (ss_repo s, ss_pr s, report))
     (liveness_classify ctxt s now)) (list_in_flight store)"

text \<open>
  What is on disk: \<open>None\<close> when the queue file is missing, otherwise the jobs read from it, if any, and
  the request store, if its directory is there and opens.
\<close>

definition liveness_context_at ::
  "(job list option \<times> (string \<Rightarrow> 'e + 'cs queued_execution_envelope option) option) option \<Rightarrow> duration \<Rightarrow> ('e, 'cs) liveness_context" where
  "liveness_context_at disk stale_after = (case disk of
       Some (Some jobs, Some load) \<Rightarrow> context_from_queue jobs load stale_after
     | _ \<Rightarrow> time_only stale_after)"

section \<open>Properties\<close>

text \<open>The owning jobs of a snapshot, by how alive they are.\<close>

definition live_owner :: "ship_state \<Rightarrow> (job \<Rightarrow> (u64 \<times> string) option) \<Rightarrow> time \<Rightarrow> duration \<Rightarrow> job \<Rightarrow> bool" where
  "live_owner s f now sa j \<longleftrightarrow> owns s f j \<and> job_status j = JobRunning \<and> \<not> is_stale_running now sa j"

definition dead_owner :: "ship_state \<Rightarrow> (job \<Rightarrow> (u64 \<times> string) option) \<Rightarrow> time \<Rightarrow> duration \<Rightarrow> job \<Rightarrow> bool" where
  "dead_owner s f now sa j \<longleftrightarrow> owns s f j \<and> is_stale_running now sa j"

definition pending_owner :: "ship_state \<Rightarrow> (job \<Rightarrow> (u64 \<times> string) option) \<Rightarrow> job \<Rightarrow> bool" where
  "pending_owner s f j \<longleftrightarrow> owns s f j \<and> job_status j = JobPending"

lemma stale_is_running: "is_stale_running now sa j \<Longrightarrow> job_status j = JobRunning"
  by (auto simp: is_stale_running_def split: if_splits)

lemma candidates_find:
  defines "c0 \<equiv> \<lparr>oc_live_running = None, oc_dead_running = None, oc_pending = None, oc_terminal = None\<rparr>"
  shows "oc_live_running (fold (owner_step s f now sa) js c0) = find (live_owner s f now sa) js"
    "oc_dead_running (fold (owner_step s f now sa) js c0) = find (dead_owner s f now sa) js"
    "oc_pending (fold (owner_step s f now sa) js c0) = find (pending_owner s f) js"
    "oc_terminal (fold (owner_step s f now sa) js c0) = find (\<lambda>j. owns s f j \<and> job_status j \<in> {JobCompleted, JobCancelled}) js"
proof -
  define or_else where "or_else x y = (case x of None \<Rightarrow> y | Some _ \<Rightarrow> x)" for x y :: "job option"
  have "oc_live_running (fold (owner_step s f now sa) js c) = or_else (oc_live_running c) (find (live_owner s f now sa) js)
      \<and> oc_dead_running (fold (owner_step s f now sa) js c) = or_else (oc_dead_running c) (find (dead_owner s f now sa) js)
      \<and> oc_pending (fold (owner_step s f now sa) js c) = or_else (oc_pending c) (find (pending_owner s f) js)
      \<and> oc_terminal (fold (owner_step s f now sa) js c)
          = or_else (oc_terminal c) (find (\<lambda>j. owns s f j \<and> job_status j \<in> {JobCompleted, JobCancelled}) js)" for c
  proof (induction js arbitrary: c)
    case (Cons j js)
    show ?case
      using stale_is_running [of now sa j] Cons.IH [of "owner_step s f now sa j c"]
      by (cases "job_status j"; cases "owns s f j"; cases "is_stale_running now sa j")
        (auto simp: owner_step_def live_owner_def dead_owner_def pending_owner_def or_else_def get_or_insert_def split: option.splits)
  qed (simp add: or_else_def split: option.splits)
  from this [of c0] show "oc_live_running (fold (owner_step s f now sa) js c0) = find (live_owner s f now sa) js"
    "oc_dead_running (fold (owner_step s f now sa) js c0) = find (dead_owner s f now sa) js"
    "oc_pending (fold (owner_step s f now sa) js c0) = find (pending_owner s f) js"
    "oc_terminal (fold (owner_step s f now sa) js c0) = find (\<lambda>j. owns s f j \<and> job_status j \<in> {JobCompleted, JobCancelled}) js"
    by (simp_all add: c0_def or_else_def)
qed

text \<open>
  (C29) A state is reported as an orphan exactly when it has no terminal verdict and the owning jobs of the
  snapshot, whatever their order, leave it without a worker: none is running live, and one is
  running with a dead heartbeat; or none is running or pending, and one has ended; or there is none,
  and the state has not been written for the threshold. A dead running job hides a pending one.
\<close>

theorem orphan_report_iff:
  "classify_orphan s (match_ship_job s (Some js) f now hs) now sa = Some r \<longleftrightarrow>
     ship_terminal_verdict s = None \<and> or_stalled_minutes r = max (num_minutes (now - ss_updated_at s)) 0
     \<and> (\<forall>j \<in> set js. \<not> live_owner s f now hs j)
     \<and> (if \<exists>j \<in> set js. dead_owner s f now hs j then or_evidence r = QueueStale
        else (\<forall>j \<in> set js. \<not> pending_owner s f j)
          \<and> (if \<exists>j \<in> set js. owns s f j then or_evidence r = QueueTerminal
             else or_evidence r = QueueAbsent \<and> num_minutes sa \<le> num_minutes (now - ss_updated_at s)))"
proof -
  note find = candidates_find
  have kinds: "owns s f j \<Longrightarrow> live_owner s f now hs j \<or> dead_owner s f now hs j \<or> pending_owner s f j \<or> job_status j \<in> {JobCompleted, JobCancelled}" for j
    by (cases "job_status j") (auto simp: live_owner_def dead_owner_def pending_owner_def)
  have none: "find P js = None \<longleftrightarrow> (\<forall>j \<in> set js. \<not> P j)" for P by (auto simp: find_None_iff)
  have some: "(\<exists>j. find P js = Some j) \<longleftrightarrow> (\<exists>j \<in> set js. P j)" for P
    using none [of P] by (cases "find P js") auto
  have report: "r = \<lparr>or_evidence = e, or_stalled_minutes = m\<rparr> \<longleftrightarrow> or_evidence r = e \<and> or_stalled_minutes r = m" for e m by (cases r) auto
  consider (live) j where "find (live_owner s f now hs) js = Some j"
    | (dead) j where "find (live_owner s f now hs) js = None" "find (dead_owner s f now hs) js = Some j"
    | (pending) j where "find (live_owner s f now hs) js = None" "find (dead_owner s f now hs) js = None" "find (pending_owner s f) js = Some j"
    | (rest) "find (live_owner s f now hs) js = None" "find (dead_owner s f now hs) js = None" "find (pending_owner s f) js = None"
    by (cases "find (live_owner s f now hs) js"; cases "find (dead_owner s f now hs) js"; cases "find (pending_owner s f) js") auto
  then show ?thesis
  proof cases
    case live
    moreover from live some [of "live_owner s f now hs"] have "\<not> (\<forall>j \<in> set js. \<not> live_owner s f now hs j)" by blast
    ultimately show ?thesis by (simp add: match_ship_job_def find classify_orphan_def Let_def)
  next
    case dead
    moreover from dead some [of "dead_owner s f now hs"] none [of "live_owner s f now hs"]
    have "\<exists>j \<in> set js. dead_owner s f now hs j" "\<forall>j \<in> set js. \<not> live_owner s f now hs j" by blast+
    ultimately show ?thesis by (auto simp: match_ship_job_def find classify_orphan_def Let_def report)
  next
    case pending
    moreover from pending some [of "pending_owner s f"] none [of "live_owner s f now hs"] none [of "dead_owner s f now hs"]
    have "\<exists>j \<in> set js. pending_owner s f j" "\<forall>j \<in> set js. \<not> live_owner s f now hs j" "\<forall>j \<in> set js. \<not> dead_owner s f now hs j" by blast+
    ultimately show ?thesis by (auto simp: match_ship_job_def find classify_orphan_def Let_def)
  next
    case rest
    then have no: "\<forall>j \<in> set js. \<not> live_owner s f now hs j" "\<forall>j \<in> set js. \<not> dead_owner s f now hs j" "\<forall>j \<in> set js. \<not> pending_owner s f j"
      unfolding none by blast+
    show ?thesis
    proof (cases "find (\<lambda>j. owns s f j \<and> job_status j \<in> {JobCompleted, JobCancelled}) js")
      case None
      then have "\<forall>j \<in> set js. \<not> owns s f j" using no kinds unfolding none by blast
      with rest None no show ?thesis by (auto simp: match_ship_job_def find classify_orphan_def Let_def report)
    next
      case (Some j)
      with some [of "\<lambda>j. owns s f j \<and> job_status j \<in> {JobCompleted, JobCancelled}"] have "\<exists>j \<in> set js. owns s f j" by blast
      with rest Some no show ?thesis by (auto simp: match_ship_job_def find classify_orphan_def Let_def report)
    qed
  qed
qed

section \<open>A dead worker beside a queued retry\<close>

definition worker_job :: "job_status \<Rightarrow> job" where
  "worker_job status = (sample_job ''j'' status)\<lparr>job_started_at := Some 0\<rparr>"

definition unfinished_ship :: ship_state where
  "unfinished_ship = ship_state_new 0 7 ''o/r'' ''b'' ''main'' ''s'' ''p''"

theorem orphan_report_iff_witness:
  "classify_orphan unfinished_ship (match_ship_job unfinished_ship (Some [worker_job JobPending, worker_job JobRunning]) (\<lambda>_. Some (7, ''O/R'')) 9 5) 9 100
   = Some \<lparr>or_evidence = QueueStale, or_stalled_minutes = 0\<rparr>"
proof -
  have facts: "ship_terminal_verdict unfinished_ship = None" "num_minutes (9 - ss_updated_at unfinished_ship) = 0"
    "map (live_owner unfinished_ship (\<lambda>_. Some (7, ''O/R'')) 9 5) [worker_job JobPending, worker_job JobRunning] = [False, False]"
    "map (dead_owner unfinished_ship (\<lambda>_. Some (7, ''O/R'')) 9 5) [worker_job JobPending, worker_job JobRunning] = [False, True]"
    by code_simp+
  show ?thesis unfolding orphan_report_iff using facts by simp
qed

end
