(* ===== verification/Wait_Conditions.thy ===== *)
theory Wait_Conditions
  imports Json_Value
begin

text \<open>
  The conditions of \<open>shipyard wait\<close>, \<open>src/src/wait.rs\<close>: whether a release, a pull request or a workflow
  run has reached the state that is waited for, and the errors that end a wait early. The observed
  state that the command prints is an ordered map from names to JSON values; a size that is no
  signed 64-bit number reads as zero.

  The lemmas say exactly when a wait for a green pull request succeeds, fails fast or goes on.
\<close>

section \<open>Results\<close>

definition passing_conclusions :: "string list" where
  "passing_conclusions = [''SUCCESS'', ''NEUTRAL'', ''SKIPPED'']"

definition still_waiting_states :: "string list" where
  "still_waiting_states = [''QUEUED'', ''IN_PROGRESS'', ''PENDING'']"

definition terminal_failure_conclusions :: "string list" where
  "terminal_failure_conclusions = [''FAILURE'', ''ERROR'', ''TIMED_OUT'', ''CANCELLED'', ''ACTION_REQUIRED'', ''STARTUP_FAILURE'', ''STALE'']"

definition run_terminal_statuses :: "string list" where
  "run_terminal_statuses = [''completed'']"

type_synonym observed = "(string \<times> json) list"

record truth_result =
  tr_matched :: bool
  tr_observed :: observed

datatype wait_error =
    UnsupportedScope string
  | InvalidInput string
  | PrFailedFast observed
  | RunFailedFast observed

definition observed_str :: "observed \<Rightarrow> string \<Rightarrow> string" where
  "observed_str observed key = unwrap_or (Option.bind (bt_get observed key) as_str) ''<unknown>''"

fun wait_error_display :: "wait_error \<Rightarrow> string" where
  "wait_error_display (UnsupportedScope m) = m"
| "wait_error_display (InvalidInput m) = m"
| "wait_error_display (PrFailedFast observed) = ''PR exact-head checks reached a terminal failing conclusion at '' @ observed_str observed ''head_sha''"
| "wait_error_display (RunFailedFast observed) = ''run terminal conclusion: '' @ observed_str observed ''conclusion''"

text \<open>\<open>BTreeMap::from\<close>.\<close>

definition observed_map :: "(string \<times> json) list \<Rightarrow> observed" where
  "observed_map entries = fold (\<lambda>(k, v) m. bt_insert k v m) entries []"

definition str_field :: "string \<Rightarrow> json \<Rightarrow> string" where
  "str_field k v = unwrap_or (get_str k v) []"

section \<open>Releases\<close>

definition as_i64 :: "json \<Rightarrow> int option" where
  "as_i64 v = (case v of
       JNumber (PosInt n) \<Rightarrow> if n < 2 ^ 63 then Some (int n) else None
     | JNumber (NegInt i) \<Rightarrow> Some i
     | _ \<Rightarrow> None)"

definition json_int :: "int \<Rightarrow> json" where
  "json_int i = JNumber (if 0 \<le> i then PosInt (nat i) else NegInt i)"

definition observed_asset :: "json \<Rightarrow> json" where
  "observed_asset asset = JObject [(''name'', JString (str_field ''name'' asset)),
     (''size'', json_int (unwrap_or (Option.bind (json_get ''size'' asset) as_i64) 0)),
     (''state'', JString (str_field ''state'' asset))]"

definition asset_uploaded :: "json \<Rightarrow> bool" where
  "asset_uploaded asset = (get_str ''state'' asset = Some ''uploaded'')"

definition assets_by_name :: "json list \<Rightarrow> (string \<times> json) list" where
  "assets_by_name assets = observed_map (List.map_filter (\<lambda>asset. map_option (\<lambda>name. (name, asset)) (get_str ''name'' asset)) assets)"

definition evaluate_release :: "json option \<Rightarrow> string list option \<Rightarrow> wait_error + truth_result" where
  "evaluate_release snapshot manifest = (case snapshot of
       None \<Rightarrow> Inr \<lparr>tr_matched = False, tr_observed = observed_map [(''exists'', JBool False)]\<rparr>
     | Some s \<Rightarrow>
         if unwrap_or (Option.bind (json_get ''draft'' s) as_bool) False
         then Inr \<lparr>tr_matched = False, tr_observed = observed_map [(''exists'', JBool True), (''draft'', JBool True)]\<rparr>
         else let assets = map observed_asset (filter is_object (unwrap_or (Option.bind (json_get ''assets'' s) as_array) []));
             observed = observed_map [(''exists'', JBool True), (''draft'', JBool False),
               (''tag_name'', unwrap_or (json_get ''tag_name'' s) (JString [])), (''assets'', JArray assets)]
           in case option_filter (\<lambda>items. items \<noteq> []) manifest of
             Some names \<Rightarrow>
               let by_name = assets_by_name assets;
                   missing = filter (\<lambda>name. bt_get by_name name = None) names;
                   not_uploaded = filter (\<lambda>name. is_some_and (bt_get by_name name) (\<lambda>asset. \<not> asset_uploaded asset)) names
               in Inr \<lparr>tr_matched = (missing = [] \<and> not_uploaded = []),
                       tr_observed = bt_insert ''not_uploaded'' (JArray (map JString not_uploaded))
                         (bt_insert ''missing'' (JArray (map JString missing)) (bt_insert ''manifest'' (JArray (map JString names)) observed))\<rparr>
           | None \<Rightarrow> Inr \<lparr>tr_matched = list_ex asset_uploaded assets, tr_observed = observed\<rparr>)"

section \<open>Pull requests\<close>

definition merge_queue_required :: "json \<Rightarrow> bool" where
  "merge_queue_required snapshot = eq_ignore_ascii_case (str_field ''mergeStateStatus'' snapshot) ''MERGE_QUEUED''"

datatype required_check_state = CheckWaiting | CheckPassing | CheckTerminalFailure | CheckUnknown

record observed_pr_check =
  op_value :: json
  op_required :: bool
  op_state :: required_check_state

definition upper_entry_value :: "json \<Rightarrow> string \<Rightarrow> string option" where
  "upper_entry_value entry key = map_option to_ascii_uppercase (get_str key entry)"

definition nullable_uppercase :: "string \<Rightarrow> json" where
  "nullable_uppercase value = (if value = [] then JNull else JString value)"

definition check_state_of :: "string \<Rightarrow> string \<Rightarrow> required_check_state" where
  "check_state_of state conclusion =
     (if state \<in> set still_waiting_states \<and> conclusion \<notin> set passing_conclusions then CheckWaiting
      else if conclusion \<in> set passing_conclusions \<or> state \<in> set passing_conclusions then CheckPassing
      else if conclusion \<in> set terminal_failure_conclusions \<or> state \<in> set terminal_failure_conclusions then CheckTerminalFailure
      else CheckUnknown)"

definition entry_state :: "json \<Rightarrow> string" where
  "entry_state entry = unwrap_or (option_or (upper_entry_value entry ''state'') (upper_entry_value entry ''status'')) []"

definition entry_conclusion :: "json \<Rightarrow> string" where
  "entry_conclusion entry = unwrap_or (upper_entry_value entry ''conclusion'') []"

definition entry_required :: "json \<Rightarrow> bool" where
  "entry_required entry = unwrap_or (Option.bind (json_get ''isRequired'' entry) as_bool) True"

definition observed_pr_check_of :: "json \<Rightarrow> observed_pr_check" where
  "observed_pr_check_of entry =
     (let name = unwrap_or (Option.bind (option_or (json_get ''name'' entry) (json_get ''context'' entry)) as_str) [];
          state = entry_state entry; conclusion = entry_conclusion entry; required = entry_required entry
      in \<lparr>op_value = JObject [(''conclusion'', nullable_uppercase conclusion), (''name'', JString name),
             (''required'', JBool required), (''state'', nullable_uppercase state)],
          op_required = required, op_state = check_state_of state conclusion\<rparr>)"

record pr_green_checks =
  gc_required_entries :: "json list"
  gc_advisory_entries :: "json list"
  gc_required_states :: "required_check_state list"

definition rollup_step :: "json \<Rightarrow> pr_green_checks \<Rightarrow> pr_green_checks" where
  "rollup_step entry checks =
     (if \<not> is_object entry then checks
      else let observed = observed_pr_check_of entry in
        if \<not> op_required observed then checks\<lparr>gc_advisory_entries := gc_advisory_entries checks @ [op_value observed]\<rparr>
        else checks\<lparr>gc_required_entries := gc_required_entries checks @ [op_value observed],
               gc_required_states := gc_required_states checks @ [op_state observed]\<rparr>)"

definition evaluate_pr_check_rollup :: "json list \<Rightarrow> pr_green_checks" where
  "evaluate_pr_check_rollup rollup =
     fold rollup_step rollup \<lparr>gc_required_entries = [], gc_advisory_entries = [], gc_required_states = []\<rparr>"

definition pr_green_observed :: "json \<Rightarrow> string \<Rightarrow> pr_green_checks \<Rightarrow> observed" where
  "pr_green_observed snapshot merge_state checks = observed_map
     [(''pr'', unwrap_or (json_get ''number'' snapshot) JNull), (''head_sha'', unwrap_or (json_get ''headRefOid'' snapshot) (JString [])),
      (''merge_state_status'', nullable_uppercase merge_state), (''checks'', JArray (gc_required_entries checks)),
      (''advisory'', JArray (gc_advisory_entries checks))]"

definition pr_rollup :: "json \<Rightarrow> json list" where
  "pr_rollup snapshot = unwrap_or (Option.bind (json_get ''statusCheckRollup'' snapshot) as_array) []"

definition evaluate_pr_green :: "json option \<Rightarrow> wait_error + truth_result" where
  "evaluate_pr_green snapshot = (case snapshot of
       None \<Rightarrow> Inl (InvalidInput ''PR not found'')
     | Some s \<Rightarrow>
         let merge_state = to_ascii_uppercase (str_field ''mergeStateStatus'' s) in
         if str_contains merge_state ''RULESET'' \<or> merge_queue_required s
         then Inl (UnsupportedScope (''Rulesets / merge-queue governance isn't supported by `shipyard wait pr --state green` yet ''
           @ [CHR 0xE2, CHR 0x80, CHR 0x94] @ '' see governance/profiles.py.''))
         else if json_get ''_required_checks_known'' s = Some (JBool False)
         then Inl (UnsupportedScope ''GitHub required-check classification is unavailable; refusing to report the PR green'')
         else let checks = evaluate_pr_check_rollup (pr_rollup s);
             states = gc_required_states checks;
             matched = (if gc_required_entries checks = []
               then eq_ignore_ascii_case (str_field ''mergeable'' s) ''MERGEABLE'' \<and> merge_state = ''CLEAN''
               else list_all (\<lambda>st. st = CheckPassing) states);
             terminal_failure = (gc_required_entries checks \<noteq> []
               \<and> list_all (\<lambda>st. st = CheckPassing \<or> st = CheckTerminalFailure) states \<and> CheckTerminalFailure \<in> set states);
             observed = pr_green_observed s merge_state checks
           in if terminal_failure then Inl (PrFailedFast observed) else Inr \<lparr>tr_matched = matched, tr_observed = observed\<rparr>)"

definition evaluate_pr_state :: "json option \<Rightarrow> string \<Rightarrow> (string \<Rightarrow> string) \<Rightarrow> wait_error + truth_result" where
  "evaluate_pr_state snapshot target_state debug = (case snapshot of
       None \<Rightarrow> Inl (InvalidInput ''PR not found'')
     | Some s \<Rightarrow>
         let state = to_ascii_uppercase (str_field ''state'' s);
             merged = unwrap_or (Option.bind (json_get ''merged'' s) as_bool) (state = ''MERGED'');
             result = (\<lambda>matched. Inr \<lparr>tr_matched = matched, tr_observed = observed_map
               [(''pr'', unwrap_or (json_get ''number'' s) JNull), (''state'', JString state), (''merged'', JBool merged)]\<rparr>)
         in if target_state = ''merged'' then result merged
            else if target_state = ''closed'' then result (state = ''CLOSED'' \<or> state = ''MERGED'')
            else Inl (InvalidInput (''unknown target state '' @ debug target_state)))"

section \<open>Workflow runs\<close>

definition evaluate_run :: "json option \<Rightarrow> bool \<Rightarrow> wait_error + truth_result" where
  "evaluate_run snapshot require_success = (case snapshot of
       None \<Rightarrow> Inl (InvalidInput ''run not found'')
     | Some s \<Rightarrow>
         let status = to_ascii_lowercase (str_field ''status'' s); conclusion = to_ascii_lowercase (str_field ''conclusion'' s);
             observed = observed_map [(''run_id'', unwrap_or (option_or (json_get ''databaseId'' s) (json_get ''id'' s)) JNull),
               (''status'', JString status), (''conclusion'', nullable_uppercase conclusion)]
         in if status \<notin> set run_terminal_statuses then Inr \<lparr>tr_matched = False, tr_observed = observed\<rparr>
            else if \<not> require_success \<or> conclusion = ''success'' then Inr \<lparr>tr_matched = True, tr_observed = observed\<rparr>
            else Inl (RunFailedFast observed))"

section \<open>When a pull request is green\<close>

definition required_of :: "json list \<Rightarrow> json list" where
  "required_of rollup = filter (\<lambda>e. is_object e \<and> entry_required e) rollup"

definition entry_check :: "json \<Rightarrow> required_check_state" where
  "entry_check e = check_state_of (entry_state e) (entry_conclusion e)"

definition ungoverned :: "json \<Rightarrow> bool" where
  "ungoverned s = (\<not> str_contains (to_ascii_uppercase (str_field ''mergeStateStatus'' s)) ''RULESET''
     \<and> \<not> merge_queue_required s \<and> json_get ''_required_checks_known'' s \<noteq> Some (JBool False))"

lemma observed_check_fields:
  "op_required (observed_pr_check_of e) = entry_required e" "op_state (observed_pr_check_of e) = entry_check e"
  by (simp_all add: observed_pr_check_of_def entry_check_def Let_def)

lemma rollup_fold:
  "gc_required_states (fold rollup_step es c) = gc_required_states c @ map entry_check (required_of es)"
  "gc_required_entries (fold rollup_step es c) = gc_required_entries c @ map (\<lambda>e. op_value (observed_pr_check_of e)) (required_of es)"
  by (induction es arbitrary: c)
    (simp_all add: rollup_step_def required_of_def observed_check_fields Let_def)

lemma rollup_required:
  "gc_required_states (evaluate_pr_check_rollup es) = map entry_check (required_of es)"
  "gc_required_entries (evaluate_pr_check_rollup es) = [] \<longleftrightarrow> required_of es = []"
  by (simp_all add: evaluate_pr_check_rollup_def rollup_fold)

definition terminally_failed :: "json list \<Rightarrow> bool" where
  "terminally_failed es = ((\<forall>e \<in> set es. entry_check e \<in> {CheckPassing, CheckTerminalFailure})
     \<and> (\<exists>e \<in> set es. entry_check e = CheckTerminalFailure))"

definition green_rule :: "json \<Rightarrow> bool" where
  "green_rule s = (if required_of (pr_rollup s) = []
     then eq_ignore_ascii_case (str_field ''mergeable'' s) ''MERGEABLE'' \<and> to_ascii_uppercase (str_field ''mergeStateStatus'' s) = ''CLEAN''
     else \<forall>e \<in> set (required_of (pr_rollup s)). entry_check e = CheckPassing)"

definition green_observation :: "json \<Rightarrow> observed" where
  "green_observation s = pr_green_observed s (to_ascii_uppercase (str_field ''mergeStateStatus'' s)) (evaluate_pr_check_rollup (pr_rollup s))"

lemma terminally_failed_states:
  "(gc_required_entries (evaluate_pr_check_rollup es) \<noteq> []
     \<and> list_all (\<lambda>st. st = CheckPassing \<or> st = CheckTerminalFailure) (gc_required_states (evaluate_pr_check_rollup es))
     \<and> CheckTerminalFailure \<in> set (gc_required_states (evaluate_pr_check_rollup es))) = terminally_failed (required_of es)"
  by (auto simp: rollup_required terminally_failed_def list_all_iff image_iff intro: sym)

lemma evaluate_ungoverned:
  assumes "ungoverned s"
  shows "evaluate_pr_green (Some s) = (if terminally_failed (required_of (pr_rollup s)) then Inl (PrFailedFast (green_observation s))
    else Inr \<lparr>tr_matched = green_rule s, tr_observed = green_observation s\<rparr>)"
proof -
  have m: "(if gc_required_entries (evaluate_pr_check_rollup (pr_rollup s)) = []
      then eq_ignore_ascii_case (str_field ''mergeable'' s) ''MERGEABLE'' \<and> to_ascii_uppercase (str_field ''mergeStateStatus'' s) = ''CLEAN''
      else list_all (\<lambda>st. st = CheckPassing) (gc_required_states (evaluate_pr_check_rollup (pr_rollup s)))) = green_rule s"
    by (simp add: rollup_required green_rule_def list_all_iff)
  show ?thesis
    using assms
    unfolding evaluate_pr_green_def option.case Let_def terminally_failed_states m green_observation_def[symmetric] ungoverned_def
    by simp
qed

lemma evaluate_governed:
  assumes "\<not> ungoverned s"
  shows "\<exists>m. evaluate_pr_green (Some s) = Inl (UnsupportedScope m)"
  using assms unfolding evaluate_pr_green_def option.case Let_def ungoverned_def by auto

lemma passing_is_no_failure:
  assumes "green_rule s" "terminally_failed (required_of (pr_rollup s))"
  shows False
  using assms by (auto simp: green_rule_def terminally_failed_def split: if_splits)

text \<open>(C28) A wait for a green pull request succeeds exactly when no ruleset or merge queue governs the
  pull request, the required checks are not known to be unavailable, and either there is a required
  check and every required one passes, or there is none and GitHub calls the pull request mergeable
  and clean. It fails fast exactly when, in the same circumstances, every required check is settled
  and at least one of them failed; a check that still runs or that is of an unknown state keeps the wait going.\<close>

theorem pr_green_iff:
  assumes "mergeState = to_ascii_uppercase (str_field ''mergeStateStatus'' s)"
    and "required = filter (\<lambda>e. is_object e \<and> entry_required e) (pr_rollup s)"
    and "supported \<longleftrightarrow> \<not> str_contains mergeState ''RULESET'' \<and> \<not> merge_queue_required s
      \<and> json_get ''_required_checks_known'' s \<noteq> Some (JBool False)"
    and "state = (\<lambda>e. check_state_of (entry_state e) (entry_conclusion e))"
  shows "((\<exists>r. evaluate_pr_green (Some s) = Inr r \<and> tr_matched r) \<longleftrightarrow> supported
      \<and> (if required = [] then eq_ignore_ascii_case (str_field ''mergeable'' s) ''MERGEABLE'' \<and> mergeState = ''CLEAN''
         else \<forall>e \<in> set required. state e = CheckPassing))
    \<and> ((\<exists>obs. evaluate_pr_green (Some s) = Inl (PrFailedFast obs)) \<longleftrightarrow> supported
      \<and> (\<forall>e \<in> set required. state e \<in> {CheckPassing, CheckTerminalFailure}) \<and> (\<exists>e \<in> set required. state e = CheckTerminalFailure))
    \<and> ((\<exists>m. evaluate_pr_green (Some s) = Inl (UnsupportedScope m)) \<longleftrightarrow> \<not> supported)"
proof -
  have req: "required = required_of (pr_rollup s)" using assms(2) by (simp add: required_of_def)
  have sup: "supported \<longleftrightarrow> ungoverned s" using assms(1,3) by (simp add: ungoverned_def)
  have st: "state = entry_check" using assms(4) by (simp add: entry_check_def fun_eq_iff)
  have green: "(if required = [] then eq_ignore_ascii_case (str_field ''mergeable'' s) ''MERGEABLE'' \<and> mergeState = ''CLEAN''
      else \<forall>e \<in> set required. state e = CheckPassing) = green_rule s"
    unfolding req st assms(1) green_rule_def by simp
  have failed: "((\<forall>e \<in> set required. state e \<in> {CheckPassing, CheckTerminalFailure}) \<and> (\<exists>e \<in> set required. state e = CheckTerminalFailure))
      = terminally_failed (required_of (pr_rollup s))"
    unfolding req st terminally_failed_def by simp
  show ?thesis
    unfolding green failed sup
    by (cases "ungoverned s")
      (use evaluate_ungoverned[of s] evaluate_governed[of s] passing_is_no_failure[of s] in \<open>auto split: if_splits\<close>)
qed

definition sample_check :: "string \<Rightarrow> string \<Rightarrow> json" where
  "sample_check name conclusion = JObject [(''conclusion'', JString conclusion), (''isRequired'', JBool True),
     (''name'', JString name), (''status'', JString ''COMPLETED'')]"

definition sample_pr :: "json list \<Rightarrow> json" where
  "sample_pr checks = JObject [(''headRefOid'', JString ''abc''), (''mergeStateStatus'', JString ''blocked''),
     (''mergeable'', JString ''MERGEABLE''), (''number'', JNumber (PosInt 7)), (''statusCheckRollup'', JArray checks)]"

theorem pr_green_iff_witness:
  "(\<exists>r. evaluate_pr_green (Some (sample_pr [sample_check ''mac'' ''success'', sample_check ''linux'' ''skipped''])) = Inr r \<and> tr_matched r)
   \<and> (\<exists>obs. evaluate_pr_green (Some (sample_pr [sample_check ''mac'' ''success'', sample_check ''linux'' ''failure''])) = Inl (PrFailedFast obs))"
proof
  show "\<exists>r. evaluate_pr_green (Some (sample_pr [sample_check ''mac'' ''success'', sample_check ''linux'' ''skipped''])) = Inr r \<and> tr_matched r"
    unfolding conjunct1[OF pr_green_iff[OF refl refl refl refl]] by code_simp
  show "\<exists>obs. evaluate_pr_green (Some (sample_pr [sample_check ''mac'' ''success'', sample_check ''linux'' ''failure''])) = Inl (PrFailedFast obs)"
    unfolding conjunct1[OF conjunct2[OF pr_green_iff[OF refl refl refl refl]]] by code_simp
qed

end
