(* ===== verification/Code_Owners.thy ===== *)
theory Code_Owners
  imports Json_Value
begin

text \<open>
  Whether a pull request waits on a code-owner review, \<open>src/src/code_owners.rs\<close>: the parser of
  \<open>CODEOWNERS\<close> and its patterns, the glob matcher of a path segment, the owners of a path, the
  approvals of a head, the verdict and the sequence of GitHub reads that leads to it; with
  \<open>encode_path_segment\<close> of \<open>src/src/required_check_policy.rs\<close> and \<open>is_clean_not_found\<close> of
  \<open>src/src/head_approval.rs\<close>. The command \<open>gh\<close>, the JSON parser and the regular expression that finds
  the last HTTP status in a message are parameters.

  The lemmas relate the backtracking loop of the glob matcher to the usual recursive meaning of a
  glob and say when a head is held for a missing code owner.
\<close>

section \<open>Text\<close>

text \<open>\<open>str::chars\<close>, each character as its bytes, \<open>str::split_whitespace\<close> and \<open>str::trim_end\<close>.\<close>

function chars :: "string \<Rightarrow> string list" where
  "chars [] = []"
| "chars (c # cs) = (c # takeWhile is_continuation cs) # chars (dropWhile is_continuation cs)"
  by pat_completeness auto
termination by (relation "measure length") (auto simp: le_imp_less_Suc length_dropWhile_le)

fun ws_tokens :: "string \<Rightarrow> nat \<Rightarrow> string \<Rightarrow> string list" where
  "ws_tokens tok k [] = (if tok = [] then [] else [tok])"
| "ws_tokens tok (Suc k) (c # cs) = ws_tokens tok k cs"
| "ws_tokens tok 0 (c # cs) = (case find (leads (c # cs)) white_space of
       Some w \<Rightarrow> (if tok = [] then [] else [tok]) @ ws_tokens [] (length w - 1) cs
     | None \<Rightarrow> ws_tokens (tok @ [c]) 0 cs)"

definition split_whitespace :: "string \<Rightarrow> string list" where
  "split_whitespace s = ws_tokens [] 0 s"

definition trim_end :: "string \<Rightarrow> string" where
  "trim_end s = rev (strip_leading (map rev white_space) (rev s))"

definition utf8_bom :: string where
  "utf8_bom = [CHR 0xEF, CHR 0xBB, CHR 0xBF]"

section \<open>Patterns\<close>

definition CODEOWNERS_PATHS :: "string list" where
  "CODEOWNERS_PATHS = [''.github/CODEOWNERS'', ''CODEOWNERS'', ''docs/CODEOWNERS'']"

definition file_list_cap :: nat where
  "file_list_cap = 3000"

record owner_pattern =
  pt_segments :: "string list"
  pt_directory_only :: bool
  pt_owns_contents :: bool

record owner_rule =
  rl_pattern :: owner_pattern
  rl_owners :: "string list"

type_synonym codeowners = "owner_rule list"

definition slash :: "char \<Rightarrow> bool" where
  "slash c = (c = CHR ''/'')"

definition pattern_parse :: "string \<Rightarrow> owner_pattern option" where
  "pattern_parse raw =
     (if prefix ''!'' raw \<or> list_ex (\<lambda>c. c \<in> {CHR ''['', CHR '']'', CHR 0x5C}) raw then None
      else let directory_only = (suffix ''/'' raw \<and> 1 < length raw);
               anchored_at_root = prefix ''/'' raw;
               trimmed = rev (dropWhile slash (rev (dropWhile slash raw)))
        in if trimmed = [] then None
           else let anchored = (anchored_at_root \<or> CHR ''/'' \<in> set trimmed);
                    parts = split_when slash trimmed;
                    segments = (if anchored then parts else ''**'' # parts);
                    final = last segments
             in Some \<lparr>pt_segments = segments, pt_directory_only = directory_only,
                      pt_owns_contents = (final = ''**'' \<or> CHR ''*'' \<notin> set final)\<rparr>)"

text \<open>The loop of \<open>glob_segment\<close> on its positions and the last star it passed.\<close>

definition star_ahead :: "nat \<Rightarrow> (nat \<times> nat) option \<Rightarrow> nat" where
  "star_ahead t star = (case star of Some (sp, st) \<Rightarrow> if t < st then 1 else 0 | None \<Rightarrow> 0)"

definition star_left :: "nat \<Rightarrow> (nat \<times> nat) option \<Rightarrow> nat" where
  "star_left n star = (case star of Some (sp, st) \<Rightarrow> n - st | None \<Rightarrow> Suc n)"

function glob_loop :: "string list \<Rightarrow> string list \<Rightarrow> nat \<Rightarrow> nat \<Rightarrow> (nat \<times> nat) option \<Rightarrow> bool" where
  "glob_loop pattern txt p t star =
     (if t < length txt
      then if p < length pattern \<and> (pattern ! p = ''?'' \<or> pattern ! p = txt ! t) then glob_loop pattern txt (p + 1) (t + 1) star
        else if p < length pattern \<and> pattern ! p = ''*'' then glob_loop pattern txt (p + 1) t (Some (p, t))
        else case star of
            Some (star_p, star_t) \<Rightarrow> glob_loop pattern txt (star_p + 1) (star_t + 1) (Some (star_p, star_t + 1))
          | None \<Rightarrow> False
      else list_all (\<lambda>c. c = ''*'') (drop p pattern))"
  by pat_completeness auto
termination
  by (relation "measures [\<lambda>(pattern, txt, p, t, star). star_ahead t star, \<lambda>(pattern, txt, p, t, star). star_left (length txt) star,
      \<lambda>(pattern, txt, p, t, star). length txt - t, \<lambda>(pattern, txt, p, t, star). length pattern - p]")
    (auto simp: star_ahead_def star_left_def split: option.splits)

declare glob_loop.simps [simp del]

definition glob_segment :: "string \<Rightarrow> string \<Rightarrow> bool" where
  "glob_segment pattern txt = glob_loop (chars pattern) (chars txt) 0 0 None"

fun match_segments :: "string list \<Rightarrow> string list \<Rightarrow> bool" where
  "match_segments [] path = (path = [])"
| "match_segments (first # rest) path =
     (if first = ''**'' then list_ex (\<lambda>skip. match_segments rest (drop skip path)) [0..<length path + 1]
      else case path of segment # tail \<Rightarrow> glob_segment first segment \<and> match_segments rest tail | [] \<Rightarrow> False)"

definition pattern_matches :: "owner_pattern \<Rightarrow> string \<Rightarrow> bool" where
  "pattern_matches pat path =
     (let parts = filter (\<lambda>part. part \<noteq> []) (split_when slash path) in
      if \<not> pt_directory_only pat \<and> match_segments (pt_segments pat) parts then True
      else if \<not> (pt_owns_contents pat \<or> pt_directory_only pat) then False
      else list_ex (\<lambda>len. match_segments (pt_segments pat) (take len parts)) [1..<length parts])"

section \<open>Owners and reviews\<close>

definition parse_line :: "string \<Rightarrow> owner_rule option" where
  "parse_line raw = (let line = trim raw in
     if line = [] \<or> prefix ''#'' line then None
     else case split_whitespace line of
         [] \<Rightarrow> None
       | token # tokens \<Rightarrow> map_option (\<lambda>pat. \<lparr>rl_pattern = pat,
           rl_owners = filter (\<lambda>owner. owner \<noteq> []) (map (dropWhile (\<lambda>c. c = CHR ''@''))
             (takeWhile (\<lambda>token. \<not> prefix ''#'' token) tokens))\<rparr>) (pattern_parse token))"

definition codeowners_parse :: "string \<Rightarrow> codeowners" where
  "codeowners_parse txt = List.map_filter parse_line (str_lines (strip_leading [utf8_bom] txt))"

definition owners_of :: "codeowners \<Rightarrow> string \<Rightarrow> string list option" where
  "owners_of rules path = option_filter (\<lambda>owners. owners \<noteq> [])
     (map_option rl_owners (find (\<lambda>rule. pattern_matches (rl_pattern rule) path) (rev rules)))"

record review =
  rv_login :: string
  rv_state :: string
  rv_commit_id :: string

definition deciding :: "review \<Rightarrow> bool" where
  "deciding review = (to_ascii_uppercase (rv_state review) \<in> {''APPROVED'', ''CHANGES_REQUESTED'', ''DISMISSED''})"

definition approvers_where :: "review list \<Rightarrow> (string \<Rightarrow> bool) \<Rightarrow> string list" where
  "approvers_where reviews commit_matches =
     (let latest = fold (\<lambda>review m. if deciding review then bt_insert (to_ascii_lowercase (rv_login review)) review m else m) reviews []
      in map fst (filter (\<lambda>(_, review). eq_ignore_ascii_case (rv_state review) ''APPROVED'' \<and> commit_matches (rv_commit_id review)) latest))"

definition exact_head_approvers :: "review list \<Rightarrow> string \<Rightarrow> string list" where
  "exact_head_approvers reviews head = approvers_where reviews (\<lambda>commit. eq_ignore_ascii_case commit head)"

definition earlier_head_approvers :: "review list \<Rightarrow> string \<Rightarrow> string list" where
  "earlier_head_approvers reviews head = approvers_where reviews (\<lambda>commit. \<not> eq_ignore_ascii_case commit head)"

section \<open>The verdict\<close>

datatype code_owner_status =
    NotRequired
  | Satisfied "string list"
  | Missing "string list" "string list"
  | Undetermined string

definition is_user :: "string \<Rightarrow> bool" where
  "is_user owner = (CHR ''/'' \<notin> set owner \<and> CHR ''@'' \<notin> set owner)"

record judge_state =
  js_satisfied_by :: "string list"
  js_missing_owners :: "string list"
  js_missing_files :: "string list"
  js_undetermined :: "string option"

definition approved_owner :: "string list \<Rightarrow> string list \<Rightarrow> string option" where
  "approved_owner approvers owners = find (\<lambda>owner. is_user owner \<and> owner \<in> set approvers) (map to_ascii_lowercase owners)"

definition judge_file :: "codeowners \<Rightarrow> string list \<Rightarrow> string option \<Rightarrow> string \<Rightarrow> judge_state \<Rightarrow> judge_state" where
  "judge_file rules approvers author file js = (case owners_of rules file of
       None \<Rightarrow> js
     | Some owners \<Rightarrow>
         let lowered = map to_ascii_lowercase owners in
         case approved_owner approvers owners of
           Some approver \<Rightarrow> js\<lparr>js_satisfied_by := insort_insert approver (js_satisfied_by js)\<rparr>
         | None \<Rightarrow>
             if list_ex (\<lambda>owner. \<not> is_user owner) lowered
             then js\<lparr>js_undetermined := option_or (js_undetermined js)
                 (Some (file @ '' is owned by a team or e-mail owner ('' @ join '' '' owners @ ''); GitHub judges it''))\<rparr>
             else if is_some_and author (\<lambda>a. a \<in> set lowered)
             then js\<lparr>js_undetermined := option_or (js_undetermined js)
                 (Some (file @ '' is owned by the pull request's author; GitHub judges it''))\<rparr>
             else js\<lparr>js_missing_owners := fold insort_insert owners (js_missing_owners js),
                 js_missing_files := (if length (js_missing_files js) < 5 then js_missing_files js @ [file] else js_missing_files js)\<rparr>)"

definition author_login :: "string option \<Rightarrow> string option" where
  "author_login author = option_filter (\<lambda>login. login \<noteq> []) (map_option (\<lambda>login. to_ascii_lowercase (strip_leading [''app/''] login)) author)"

definition judge :: "codeowners \<Rightarrow> string list \<Rightarrow> string list \<Rightarrow> string option \<Rightarrow> code_owner_status" where
  "judge rules files approvers author =
     (let js = fold (judge_file rules approvers (author_login author)) files
            \<lparr>js_satisfied_by = [], js_missing_owners = [], js_missing_files = [], js_undetermined = None\<rparr>
      in if js_missing_owners js \<noteq> [] then Missing (js_missing_owners js) (js_missing_files js)
         else case js_undetermined js of
             Some reason \<Rightarrow> Undetermined reason
           | None \<Rightarrow> if js_satisfied_by js = [] then NotRequired else Satisfied (js_satisfied_by js))"

section \<open>Branch rules\<close>

definition code_owner_rules :: "json \<Rightarrow> json list" where
  "code_owner_rules rules = filter (\<lambda>rule. get_str ''type'' rule = Some ''pull_request''
       \<and> Option.bind (json_path [''parameters'', ''require_code_owner_review''] rule) as_bool = Some True)
     (concat (map (\<lambda>item. case as_array item of Some page \<Rightarrow> page | None \<Rightarrow> [item]) (unwrap_or (as_array rules) [])))"

definition rules_require_code_owner_review :: "json \<Rightarrow> bool" where
  "rules_require_code_owner_review rules = (code_owner_rules rules \<noteq> [])"

definition rules_dismiss_stale_reviews :: "json \<Rightarrow> bool" where
  "rules_dismiss_stale_reviews rules = (code_owner_rules rules \<noteq> []
     \<and> list_all (\<lambda>rule. Option.bind (json_path [''parameters'', ''dismiss_stale_reviews_on_push''] rule) as_bool = Some True) (code_owner_rules rules))"

section \<open>Reading GitHub\<close>

definition hex_digit :: "nat \<Rightarrow> char" where
  "hex_digit n = ''0123456789ABCDEF'' ! n"

definition encode_byte :: "char \<Rightarrow> string" where
  "encode_byte c = (if is_ascii_alphanumeric c \<or> c \<in> set ''-_.~'' then [c]
     else [CHR ''%'', hex_digit (of_char c div 16), hex_digit (of_char c mod 16)])"

definition encode_path_segment :: "string \<Rightarrow> string" where
  "encode_path_segment value = concat (map encode_byte value)"

definition gh_error_stderr :: "string \<Rightarrow> string" where
  "gh_error_stderr detail = unwrap_or (map_option snd
     (Option.bind (split_once '' failed with status '' detail) (\<lambda>(_, rest). split_once '': '' rest))) detail"

definition credential_failure_markers :: "string list" where
  "credential_failure_markers = [''installation'', ''access_token'', ''token'', ''credential'', ''ghapp'', ''bad credentials'']"

text \<open>
  What the verdict reads from outside: \<open>gh\<close>, \<open>serde_json::from_str\<close>, and the digits of the last match of the
  status pattern in a message.
\<close>

record code_owner_env =
  ce_run_gh :: "string list \<Rightarrow> string + string"
  ce_from_str :: "string \<Rightarrow> string + json"
  ce_last_status :: "string \<Rightarrow> string option"

definition gh_error_http_status :: "code_owner_env \<Rightarrow> string \<Rightarrow> nat option" where
  "gh_error_http_status env detail = option_filter (\<lambda>n. n < 2 ^ 16) (Option.bind (ce_last_status env (gh_error_stderr detail)) parse_u64)"

definition is_clean_not_found :: "code_owner_env \<Rightarrow> string \<Rightarrow> bool" where
  "is_clean_not_found env detail = (let stderr = gh_error_stderr detail; lowered = to_ascii_lowercase stderr in
     gh_error_http_status env detail = Some 404
     \<and> list_ex (\<lambda>line. trim line = ''gh: Not Found (HTTP 404)'') (str_lines stderr)
     \<and> \<not> list_ex (str_contains lowered) credential_failure_markers)"

definition gh_json :: "code_owner_env \<Rightarrow> string list \<Rightarrow> string \<Rightarrow> string + json" where
  "gh_json env argv purpose = (case ce_run_gh env argv of
       Inl error \<Rightarrow> Inl (purpose @ '' unreadable: '' @ error)
     | Inr raw \<Rightarrow> map_err (\<lambda>error. purpose @ '' malformed: '' @ error) (ce_from_str env raw))"

definition read_lines :: "code_owner_env \<Rightarrow> string \<Rightarrow> string \<Rightarrow> string + string list" where
  "read_lines env path jq = (case ce_run_gh env [''api'', ''--paginate'', path, ''--jq'', jq] of
       Inl error \<Rightarrow> Inl (path @ '' unreadable: '' @ error)
     | Inr raw \<Rightarrow> Inr (filter (\<lambda>line. line \<noteq> []) (map trim_end (str_lines raw))))"

fun read_codeowners_from :: "code_owner_env \<Rightarrow> string \<Rightarrow> string \<Rightarrow> string list \<Rightarrow> string + string option" where
  "read_codeowners_from env repo base [] = Inr None"
| "read_codeowners_from env repo base (path # paths) =
     (case ce_run_gh env [''api'', ''-H'', ''Accept: application/vnd.github.raw+json'',
         ''repos/'' @ repo @ ''/contents/'' @ path @ ''?ref='' @ encode_path_segment base] of
       Inr txt \<Rightarrow> Inr (Some txt)
     | Inl detail \<Rightarrow> if is_clean_not_found env detail then read_codeowners_from env repo base paths
         else Inl (path @ '' on '' @ base @ '' unreadable: '' @ detail))"

definition read_codeowners :: "code_owner_env \<Rightarrow> string \<Rightarrow> string \<Rightarrow> string + string option" where
  "read_codeowners env repo base = read_codeowners_from env repo base CODEOWNERS_PATHS"

definition codeowners_errors :: "code_owner_env \<Rightarrow> string \<Rightarrow> string \<Rightarrow> string option" where
  "codeowners_errors env repo base =
     (case gh_json env [''api'', ''repos/'' @ repo @ ''/codeowners/errors?ref='' @ encode_path_segment base] ''CODEOWNERS errors'' of
       Inl error \<Rightarrow> Some error
     | Inr errors \<Rightarrow> (case Option.bind (json_get ''errors'' errors) as_array of
           Some list \<Rightarrow> if list = [] then None
             else Some (''GitHub reports '' @ show_nat (length list) @ '' CODEOWNERS error(s) on '' @ base @ ''; GitHub judges it'')
         | None \<Rightarrow> Some ''CODEOWNERS errors malformed''))"

definition parse_review :: "string \<Rightarrow> review option" where
  "parse_review line = (case split_when (\<lambda>c. c = CHR 0x09) line of
       login # state # commit_id # _ \<Rightarrow> Some \<lparr>rv_login = login, rv_state = state, rv_commit_id = commit_id\<rparr>
     | _ \<Rightarrow> None)"

definition reviews_jq :: string where
  "reviews_jq = ''.[] | [(.user.login // '' @ [CHR 0x22, CHR 0x22] @ ''), (.state // '' @ [CHR 0x22, CHR 0x22]
     @ ''), (.commit_id // '' @ [CHR 0x22, CHR 0x22] @ '')] | @tsv''"

text \<open>What becomes of a verdict once earlier approvals and GitHub's reading of the file are asked.\<close>

definition settle_status :: "code_owner_env \<Rightarrow> string \<Rightarrow> string \<Rightarrow> string \<Rightarrow> json \<Rightarrow> review list \<Rightarrow> code_owner_status \<Rightarrow> code_owner_status" where
  "settle_status env repo base head rules reviews status = (case status of
       Missing owners files \<Rightarrow>
         (case (if rules_dismiss_stale_reviews rules then None
             else find (\<lambda>owner. to_ascii_lowercase owner \<in> set (earlier_head_approvers reviews head)) owners) of
           Some owner \<Rightarrow> Undetermined (owner @ '' approved an earlier commit and the rule keeps stale reviews; GitHub judges it'')
         | None \<Rightarrow> (case codeowners_errors env repo base of
               Some reason \<Rightarrow> Undetermined reason
             | None \<Rightarrow> status))
     | _ \<Rightarrow> status)"

definition rules_argv :: "string \<Rightarrow> string \<Rightarrow> string list" where
  "rules_argv repo base = [''api'', ''repos/'' @ repo @ ''/rules/branches/'' @ encode_path_segment base @ ''?per_page=100'', ''--paginate'', ''--slurp'']"

definition files_path :: "string \<Rightarrow> u64 \<Rightarrow> string" where
  "files_path repo pr = ''repos/'' @ repo @ ''/pulls/'' @ show_nat pr @ ''/files?per_page=100''"

definition reviews_path :: "string \<Rightarrow> u64 \<Rightarrow> string" where
  "reviews_path repo pr = ''repos/'' @ repo @ ''/pulls/'' @ show_nat pr @ ''/reviews?per_page=100''"

definition files_jq :: string where
  "files_jq = ''.[] | .filename''"

definition reviews_of :: "string list \<Rightarrow> review list" where
  "reviews_of lines = filter (\<lambda>review. rv_login review \<noteq> []) (List.map_filter parse_review lines)"

definition read_status :: "code_owner_env \<Rightarrow> string \<Rightarrow> string \<Rightarrow> u64 \<Rightarrow> string \<Rightarrow> string option \<Rightarrow> string + code_owner_status" where
  "read_status env repo base pr head author =
     result_bind (gh_json env (rules_argv repo base) ''evaluated branch rules'') (\<lambda>rules.
     if \<not> rules_require_code_owner_review rules then Inr NotRequired
     else result_bind (read_codeowners env repo base) (\<lambda>found. case found of
         None \<Rightarrow> Inr NotRequired
       | Some txt \<Rightarrow>
           result_bind (read_lines env (files_path repo pr) files_jq) (\<lambda>files.
           if file_list_cap \<le> length files
           then Inr (Undetermined (''the diff lists '' @ show_nat (length files) @ '' files, GitHub's cap; GitHub judges it''))
           else result_bind (read_lines env (reviews_path repo pr) reviews_jq) (\<lambda>lines.
             Inr (settle_status env repo base head rules (reviews_of lines)
                  (judge (codeowners_parse txt) files (exact_head_approvers (reviews_of lines) head) author))))))"

section \<open>The meaning of a glob\<close>

fun glob :: "string list \<Rightarrow> string list \<Rightarrow> bool" where
  "glob [] ts = (ts = [])"
| "glob (c # ps) [] = (c = ''*'' \<and> glob ps [])"
| "glob (c # ps) (t # ts) = (if c = ''*'' then glob ps (t # ts) \<or> glob (c # ps) ts else (c = ''?'' \<or> c = t) \<and> glob ps ts)"

lemma glob_Nil: "glob ps [] = list_all (\<lambda>c. c = ''*'') ps"
  by (induction ps) auto

lemma glob_star_drop: "glob (''*'' # ps) (drop k ts) \<Longrightarrow> glob (''*'' # ps) ts"
proof (induction k arbitrary: ts)
  case (Suc k)
  then show ?case by (cases ts) auto
qed simp

lemma glob_star_E:
  assumes "glob (''*'' # ps) ts"
  obtains k where "k \<le> length ts" "glob ps (drop k ts)"
proof -
  have "\<exists>k \<le> length ts. glob ps (drop k ts)"
    using assms
  proof (induction ts)
    case (Cons t ts)
    show ?case
    proof (cases "glob ps (t # ts)")
      case True
      then show ?thesis by (intro exI[of _ 0]) simp
    next
      case False
      then obtain k where "k \<le> length ts" "glob ps (drop k ts)" using Cons by auto
      then show ?thesis by (intro exI[of _ "Suc k"]) simp
    qed
  qed simp
  then show thesis using that by blast
qed

lemma glob_star_split:
  "glob (''*'' # ps) ts \<longleftrightarrow> glob ps ts \<or> (ts \<noteq> [] \<and> glob (''*'' # ps) (tl ts))"
  by (cases ts) auto

lemma glob_literal:
  "glob (seg @ ps) ts \<Longrightarrow> ''*'' \<notin> set seg \<Longrightarrow> length seg \<le> length ts \<and> glob ps (drop (length seg) ts)"
proof (induction seg arbitrary: ts)
  case (Cons c seg)
  then show ?case by (cases ts) auto
qed simp

text \<open>
  The loop remembers the last star it passed and the characters it has matched literally since. The
  state is sound when they are star-free and as many in the pattern as in the text.
\<close>

definition glob_state :: "string list \<Rightarrow> string list \<Rightarrow> nat \<Rightarrow> nat \<Rightarrow> (nat \<times> nat) option \<Rightarrow> bool" where
  "glob_state ps ts p t star = (p \<le> length ps \<and> t \<le> length ts \<and> (case star of None \<Rightarrow> True
     | Some (sp, st) \<Rightarrow> sp < p \<and> ps ! sp = ''*'' \<and> t = st + (p - Suc sp) \<and> ''*'' \<notin> set (take (p - Suc sp) (drop (Suc sp) ps))))"

definition glob_again :: "string list \<Rightarrow> string list \<Rightarrow> (nat \<times> nat) option \<Rightarrow> bool" where
  "glob_again ps ts star = (case star of None \<Rightarrow> False | Some (sp, st) \<Rightarrow> st < length ts \<and> glob (drop sp ps) (drop (Suc st) ts))"

lemma drop_at_star: "p < length ps \<Longrightarrow> ps ! p = c \<Longrightarrow> drop p ps = c # drop (Suc p) ps"
  by (simp add: Cons_nth_drop_Suc[symmetric])

lemma glob_again_cases:
  assumes "glob_state ps ts p t star" "glob_again ps ts star"
  obtains k where "t < k" "k \<le> length ts" "glob (drop p ps) (drop k ts)"
proof -
  obtain sp st where star: "star = Some (sp, st)" and st: "st < length ts" and g: "glob (drop sp ps) (drop (Suc st) ts)"
    using assms(2) by (auto simp: glob_again_def split: option.splits)
  have inv: "sp < p" "p \<le> length ps" "ps ! sp = ''*''" "t = st + (p - Suc sp)" "''*'' \<notin> set (take (p - Suc sp) (drop (Suc sp) ps))"
    using assms(1) star by (auto simp: glob_state_def)
  have "drop sp ps = ''*'' # drop (Suc sp) ps" using inv by (intro drop_at_star) auto
  then obtain k where k: "k \<le> length (drop (Suc st) ts)" "glob (drop (Suc sp) ps) (drop k (drop (Suc st) ts))"
    using g glob_star_E by metis
  have split: "drop (Suc sp) ps = take (p - Suc sp) (drop (Suc sp) ps) @ drop p ps"
    using inv(1) by (metis append_take_drop_id Suc_leI drop_drop le_add_diff_inverse2)
  have len: "length (take (p - Suc sp) (drop (Suc sp) ps)) = p - Suc sp" using inv by simp
  have lit: "p - Suc sp \<le> length (drop k (drop (Suc st) ts)) \<and> glob (drop p ps) (drop (p - Suc sp) (drop k (drop (Suc st) ts)))"
    using glob_literal[of "take (p - Suc sp) (drop (Suc sp) ps)" "drop p ps"] k(2) split len inv(5) by metis
  show thesis
  proof (rule that[of "Suc st + k + (p - Suc sp)"])
    show "t < Suc st + k + (p - Suc sp)" using inv(4) by simp
    show "Suc st + k + (p - Suc sp) \<le> length ts" using conjunct1[OF lit] k(1) st unfolding length_drop by arith
    show "glob (drop p ps) (drop (Suc st + k + (p - Suc sp)) ts)" using lit by (simp add: add_ac)
  qed
qed

lemma glob_state_step:
  assumes "glob_state ps ts p t star" "p < length ps" "t < length ts" "ps ! p \<noteq> ''*''"
  shows "glob_state ps ts (p + 1) (t + 1) star"
proof (cases star)
  case None
  then show ?thesis using assms by (simp add: glob_state_def)
next
  case (Some s)
  then obtain sp st where s: "star = Some (sp, st)" by (cases s) simp
  have i: "sp < p" using assms(1) s by (simp add: glob_state_def)
  then have "take (p - sp) (drop (Suc sp) ps) = take (p - Suc sp) (drop (Suc sp) ps) @ [ps ! p]"
    using assms(2) take_Suc_conv_app_nth[of "p - Suc sp" "drop (Suc sp) ps"] by (simp add: Suc_diff_Suc)
  then show ?thesis using assms i s by (simp add: glob_state_def)
qed

lemma glob_state_star:
  assumes "p < length ps" "t \<le> length ts" "ps ! p = ''*''"
  shows "glob_state ps ts (p + 1) t (Some (p, t))"
  using assms by (simp add: glob_state_def)

lemma glob_at_star:
  assumes "p < length ps" "ps ! p = ''*''" "t < length ts"
  shows "glob (drop p ps) (drop t ts) \<longleftrightarrow> glob (drop (Suc p) ps) (drop t ts) \<or> glob (drop p ps) (drop (Suc t) ts)"
  unfolding drop_at_star[OF assms(1,2)] drop_at_star[OF assms(3) refl] by simp

lemma glob_again_at_star:
  assumes "glob_state ps ts p t star" "t < length ts" "p < length ps" "ps ! p = ''*''"
  shows "glob (drop p ps) (drop t ts) \<or> glob_again ps ts star \<longleftrightarrow> glob (drop (p + 1) ps) (drop t ts) \<or> glob_again ps ts (Some (p, t))"
proof -
  have dp: "drop p ps = ''*'' # drop (Suc p) ps" by (rule drop_at_star[OF assms(3,4)])
  have "glob (drop p ps) (drop t ts)" if again: "glob_again ps ts star"
  proof -
    obtain k where "t < k" "glob (drop p ps) (drop k ts)" using glob_again_cases[OF assms(1) again] by metis
    then have "glob (drop p ps) (drop (k - t) (drop t ts))" by simp
    then show ?thesis unfolding dp by (rule glob_star_drop)
  qed
  moreover have "glob (drop p ps) (drop t ts) \<longleftrightarrow> glob (drop (p + 1) ps) (drop t ts) \<or> glob_again ps ts (Some (p, t))"
    using glob_at_star[OF assms(3,4,2)] assms(2) by (simp add: glob_again_def)
  ultimately show ?thesis by blast
qed

lemma glob_again_back:
  assumes "sp < length ps" "ps ! sp = ''*''" "st < length ts"
  shows "glob_again ps ts (Some (sp, st)) \<longleftrightarrow> glob (drop (sp + 1) ps) (drop (st + 1) ts) \<or> glob_again ps ts (Some (sp, st + 1))"
proof (cases "Suc st < length ts")
  case True
  then show ?thesis using glob_at_star[OF assms(1,2) True] assms(3) by (simp add: glob_again_def)
next
  case False
  then show ?thesis using drop_at_star[OF assms(1,2)] assms(3) by (simp add: glob_again_def)
qed

lemma glob_step:
  assumes "t < length ts" "p < length ps" "ps ! p \<noteq> ''*''"
  shows "glob (drop p ps) (drop t ts) \<longleftrightarrow> (ps ! p = ''?'' \<or> ps ! p = ts ! t) \<and> glob (drop (p + 1) ps) (drop (t + 1) ts)"
proof -
  have "drop t ts = ts ! t # drop (Suc t) ts" using assms(1) by (simp add: Cons_nth_drop_Suc)
  then show ?thesis using drop_at_star[OF assms(2) refl] assms(3) by simp
qed

lemma glob_loop_correct:
  assumes "''*'' \<notin> set ts" "glob_state ps ts p t star"
  shows "glob_loop ps ts p t star \<longleftrightarrow> glob (drop p ps) (drop t ts) \<or> glob_again ps ts star"
  using assms
proof (induction ps ts p t star rule: glob_loop.induct)
  case (1 ps ts p t star)
  note inv = 1(5)
  note unfold = glob_loop.simps[of ps ts p t star]
  let ?hit = "p < length ps \<and> (ps ! p = ''?'' \<or> ps ! p = ts ! t)"
  let ?star = "p < length ps \<and> ps ! p = ''*''"
  consider (fin) "\<not> t < length ts" | (lit) "t < length ts" "?hit" | (star) "t < length ts" "\<not> ?hit" "?star"
    | (retry) "t < length ts" "\<not> ?hit" "\<not> ?star" by blast
  then show ?case
  proof cases
    case fin
    then have t: "drop t ts = []" "t = length ts" using inv by (auto simp: glob_state_def)
    then have "\<not> glob_again ps ts star" using glob_again_cases[OF inv] by (metis not_le)
    moreover have "glob_loop ps ts p t star = list_all (\<lambda>c. c = ''*'') (drop p ps)" using fin unfold by simp
    ultimately show ?thesis using t(1) by (simp add: glob_Nil)
  next
    case lit
    have "ts ! t \<noteq> ''*''" using 1(4) lit nth_mem by metis
    then have ns: "ps ! p \<noteq> ''*''" using lit(2) by auto
    show ?thesis
      using 1(1)[OF lit] 1(4) glob_state_step[OF inv] glob_step[of t ts p ps] lit ns unfold by simp
  next
    case star
    then show ?thesis
      using 1(2)[OF star] 1(4) glob_state_star[of p ps t ts] glob_again_at_star[OF inv] unfold by simp
  next
    case retry
    have nomatch: "\<not> glob (drop p ps) (drop t ts)"
      using retry glob_step[of t ts p ps] by (cases "p < length ps") auto
    show ?thesis
    proof (cases star)
      case None
      have "\<not> glob_loop ps ts p t star" unfolding unfold if_P[OF retry(1)] if_not_P[OF retry(2)] if_not_P[OF retry(3)] by (simp add: None)
      then show ?thesis using nomatch None by (simp add: glob_again_def)
    next
      case (Some s)
      then obtain sp st where s: "star = Some (sp, st)" by (cases s) simp
      have i: "sp < length ps" "ps ! sp = ''*''" "st < length ts" using inv s retry(1) by (auto simp: glob_state_def)
      have "glob_loop ps ts p t star = glob_loop ps ts (sp + 1) (st + 1) (Some (sp, st + 1))"
        unfolding unfold if_P[OF retry(1)] if_not_P[OF retry(2)] if_not_P[OF retry(3)] by (simp add: s)
      then show ?thesis
        using 1(3)[OF retry s refl] 1(4) glob_state_star[of sp ps "st + 1" ts] glob_again_back[OF i] i nomatch s by simp
    qed
  qed
qed

text \<open>
  (C26) The backtracking matcher of a path segment terminates and, on a segment without the character
  \<open>*\<close>, decides the recursive meaning of the pattern, in which a star stands for any run of characters
  and a question mark for one character, be it one byte long or several. On a segment that has a
  star of its own the matcher takes it for the star of the pattern and may miss a match.
\<close>

theorem glob_segment_correct:
  assumes "CHR ''*'' \<notin> set segment"
  shows "glob_segment pattern segment \<longleftrightarrow> glob (chars pattern) (chars segment)"
proof -
  have "''*'' \<notin> set (chars s)" if "CHR ''*'' \<notin> set s" for s
    using that by (induction s rule: chars.induct) (auto dest: set_dropWhileD)
  then show ?thesis
    using glob_loop_correct[of "chars segment" "chars pattern" 0 0 None] assms
    by (simp add: glob_segment_def glob_state_def glob_again_def)
qed

theorem glob_segment_correct_witness:
  "glob_segment ''a*b?c'' ''axxbxbyc'' \<and> \<not> glob_segment ''*a'' ''ab'' \<and> glob (chars ''*'') (chars ''*a'') \<and> \<not> glob_segment ''*'' ''*a''"
proof (intro conjI)
  show "glob_segment ''a*b?c'' ''axxbxbyc''"
    by (subst glob_segment_correct) code_simp+
  show "\<not> glob_segment ''*a'' ''ab''"
    by (subst glob_segment_correct) code_simp+
  show "glob (chars ''*'') (chars ''*a'')" by code_simp
  show "\<not> glob_segment ''*'' ''*a''" by code_simp
qed

section \<open>Approvals\<close>

definition latest_step :: "review \<Rightarrow> (string \<times> review) list \<Rightarrow> (string \<times> review) list" where
  "latest_step review m = (if deciding review then bt_insert (to_ascii_lowercase (rv_login review)) review m else m)"

definition last_deciding :: "review list \<Rightarrow> string \<Rightarrow> review option" where
  "last_deciding reviews login = find (\<lambda>r. deciding r \<and> to_ascii_lowercase (rv_login r) = login) (rev reviews)"

lemma find_append: "find P (xs @ ys) = (case find P xs of Some x \<Rightarrow> Some x | None \<Rightarrow> find P ys)"
  by (induction xs) auto

lemma latest_fold:
  "bt_wf m \<Longrightarrow> bt_wf (fold latest_step reviews m) \<and> bt_get (fold latest_step reviews m) login
     = (case last_deciding reviews login of Some r \<Rightarrow> Some r | None \<Rightarrow> bt_get m login)"
proof (induction reviews arbitrary: m)
  case (Cons r reviews)
  have "bt_wf (latest_step r m)" using Cons.prems by (simp add: latest_step_def bt_wf_insert)
  moreover have "bt_get (latest_step r m) login
      = (if deciding r \<and> to_ascii_lowercase (rv_login r) = login then Some r else bt_get m login)"
    using Cons.prems by (simp add: latest_step_def bt_get_insert)
  ultimately show ?case
    using Cons.IH[of "latest_step r m"] by (simp add: last_deciding_def find_append split: option.splits)
qed (simp add: last_deciding_def)

lemma approvers_where_iff:
  "login \<in> set (approvers_where reviews P) \<longleftrightarrow>
     (\<exists>r. last_deciding reviews login = Some r \<and> eq_ignore_ascii_case (rv_state r) ''APPROVED'' \<and> P (rv_commit_id r))"
proof -
  let ?m = "fold latest_step reviews []"
  have f: "(\<lambda>review m. if deciding review then bt_insert (to_ascii_lowercase (rv_login review)) review m else m) = latest_step"
    by (simp add: latest_step_def fun_eq_iff)
  have m: "bt_wf ?m" "bt_get ?m l = last_deciding reviews l" for l
    using latest_fold[of "[]" reviews l] by (simp_all add: bt_get_def split: option.splits)
  have "(login, r) \<in> set ?m \<longleftrightarrow> last_deciding reviews login = Some r" for r
    using bt_get_Some_iff[OF m(1)] m(2) by metis
  then show ?thesis unfolding approvers_where_def f Let_def by force
qed

section \<open>Which files wait\<close>

definition file_approved :: "codeowners \<Rightarrow> string list \<Rightarrow> string \<Rightarrow> bool" where
  "file_approved rules approvers file = (\<exists>owners. owners_of rules file = Some owners
     \<and> (\<exists>owner \<in> set owners. is_user (to_ascii_lowercase owner) \<and> to_ascii_lowercase owner \<in> set approvers))"

definition file_waits :: "codeowners \<Rightarrow> string list \<Rightarrow> string option \<Rightarrow> string \<Rightarrow> bool" where
  "file_waits rules approvers author file = (\<exists>owners. owners_of rules file = Some owners
     \<and> (\<forall>owner \<in> set owners. is_user (to_ascii_lowercase owner) \<and> to_ascii_lowercase owner \<notin> set approvers
         \<and> author_login author \<noteq> Some (to_ascii_lowercase owner)))"

definition file_unjudged :: "codeowners \<Rightarrow> string list \<Rightarrow> string option \<Rightarrow> string \<Rightarrow> bool" where
  "file_unjudged rules approvers author file = (owners_of rules file \<noteq> None
     \<and> \<not> file_approved rules approvers file \<and> \<not> file_waits rules approvers author file)"

lemma approved_owner_None: "approved_owner approvers owners = None \<longleftrightarrow>
    (\<forall>owner \<in> set owners. \<not> (is_user (to_ascii_lowercase owner) \<and> to_ascii_lowercase owner \<in> set approvers))"
  by (auto simp: approved_owner_def find_None_iff)

lemma insort_insert_not_Nil: "insort_insert x xs \<noteq> []"
  by (metis emptyE insertI1 list.set(1) set_insort_insert)

lemma fold_insort_not_Nil: "fold insort_insert xs ys = [] \<longleftrightarrow> xs = [] \<and> ys = []"
  by (induction xs arbitrary: ys) (auto simp: insort_insert_not_Nil)

lemma owners_of_not_Nil: "owners_of rules file \<noteq> Some []"
  by (simp add: owners_of_def option_filter_def split: option.splits)

lemma judge_file_effect:
  "js_satisfied_by (judge_file rules approvers (author_login author) f js) = [] \<longleftrightarrow> js_satisfied_by js = [] \<and> \<not> file_approved rules approvers f"
  "js_missing_owners (judge_file rules approvers (author_login author) f js) = [] \<longleftrightarrow>
     js_missing_owners js = [] \<and> \<not> file_waits rules approvers author f"
  "js_undetermined (judge_file rules approvers (author_login author) f js) = None \<longleftrightarrow>
     js_undetermined js = None \<and> \<not> file_unjudged rules approvers author f"
proof -
  consider (unowned) "owners_of rules f = None"
    | (approved) owners a where "owners_of rules f = Some owners" "approved_owner approvers owners = Some a"
    | (rest) owners where "owners_of rules f = Some owners" "approved_owner approvers owners = None"
    by (metis not_None_eq)
  then have "(js_satisfied_by (judge_file rules approvers (author_login author) f js) = [] \<longleftrightarrow> js_satisfied_by js = [] \<and> \<not> file_approved rules approvers f)
    \<and> (js_missing_owners (judge_file rules approvers (author_login author) f js) = [] \<longleftrightarrow>
       js_missing_owners js = [] \<and> \<not> file_waits rules approvers author f)
    \<and> (js_undetermined (judge_file rules approvers (author_login author) f js) = None \<longleftrightarrow>
       js_undetermined js = None \<and> \<not> file_unjudged rules approvers author f)"
  proof cases
    case unowned
    then show ?thesis by (simp add: judge_file_def file_approved_def file_waits_def file_unjudged_def)
  next
    case approved
    then have "\<exists>owner \<in> set owners. is_user (to_ascii_lowercase owner) \<and> to_ascii_lowercase owner \<in> set approvers"
      using approved_owner_None[of approvers owners] by auto
    then have "file_approved rules approvers f" "\<not> file_waits rules approvers author f"
      using approved(1) by (auto simp: file_approved_def file_waits_def)
    then show ?thesis using approved by (simp add: judge_file_def file_unjudged_def insort_insert_not_Nil Let_def)
  next
    case rest
    have na: "\<not> file_approved rules approvers f"
      using rest approved_owner_None[of approvers owners] by (auto simp: file_approved_def)
    have w: "file_waits rules approvers author f \<longleftrightarrow> (\<forall>owner \<in> set owners. is_user (to_ascii_lowercase owner)) \<and>
        \<not> is_some_and (author_login author) (\<lambda>a. a \<in> to_ascii_lowercase ` set owners)"
      using rest approved_owner_None[of approvers owners]
      by (auto simp: file_waits_def is_some_and_def split: option.splits)
    have "owners \<noteq> []" using rest(1) owners_of_not_Nil by metis
    then show ?thesis
      using rest na by (auto simp: judge_file_def file_unjudged_def w fold_insort_not_Nil Let_def list_ex_iff option_or_def split: option.splits)
  qed
  then show "js_satisfied_by (judge_file rules approvers (author_login author) f js) = [] \<longleftrightarrow> js_satisfied_by js = [] \<and> \<not> file_approved rules approvers f"
    "js_missing_owners (judge_file rules approvers (author_login author) f js) = [] \<longleftrightarrow>
     js_missing_owners js = [] \<and> \<not> file_waits rules approvers author f"
    "js_undetermined (judge_file rules approvers (author_login author) f js) = None \<longleftrightarrow>
     js_undetermined js = None \<and> \<not> file_unjudged rules approvers author f"
    by simp_all
qed

lemma judge_fold:
  "js_satisfied_by (fold (judge_file rules approvers (author_login author)) files js) = []
     \<longleftrightarrow> js_satisfied_by js = [] \<and> (\<forall>f \<in> set files. \<not> file_approved rules approvers f)"
  "js_missing_owners (fold (judge_file rules approvers (author_login author)) files js) = []
     \<longleftrightarrow> js_missing_owners js = [] \<and> (\<forall>f \<in> set files. \<not> file_waits rules approvers author f)"
  "js_undetermined (fold (judge_file rules approvers (author_login author)) files js) = None
     \<longleftrightarrow> js_undetermined js = None \<and> (\<forall>f \<in> set files. \<not> file_unjudged rules approvers author f)"
  by (induction files arbitrary: js) (simp_all add: judge_file_effect)

lemma judge_cases:
  "judge rules files approvers author = Missing owners waiting \<Longrightarrow> \<exists>f \<in> set files. file_waits rules approvers author f"
  "\<exists>f \<in> set files. file_waits rules approvers author f \<Longrightarrow> \<exists>owners waiting. judge rules files approvers author = Missing owners waiting"
  "\<forall>f \<in> set files. \<not> file_waits rules approvers author f \<Longrightarrow> \<exists>f \<in> set files. file_unjudged rules approvers author f
     \<Longrightarrow> \<exists>reason. judge rules files approvers author = Undetermined reason"
  "\<forall>f \<in> set files. \<not> file_waits rules approvers author f \<and> \<not> file_unjudged rules approvers author f
     \<Longrightarrow> \<exists>f \<in> set files. file_approved rules approvers f \<Longrightarrow> \<exists>a. judge rules files approvers author = Satisfied a"
  "\<forall>f \<in> set files. \<not> file_waits rules approvers author f \<and> \<not> file_unjudged rules approvers author f
     \<Longrightarrow> \<forall>f \<in> set files. \<not> file_approved rules approvers f \<Longrightarrow> judge rules files approvers author = NotRequired"
  unfolding judge_def Let_def by (auto simp: judge_fold split: option.splits if_splits)

text \<open>
  (C27) The verdict on the owned files of a change. It is that an owner is missing exactly when some file
  has an owner, all its owners are users, none of them has approved and none is the author. It is
  satisfied exactly when some file has an owner and every file that has one is approved by one of
  its owners. It is that no review is required exactly when no file has an owner.
\<close>

theorem code_owner_verdict:
  "((\<exists>owners waiting. judge rules files approvers author = Missing owners waiting) \<longleftrightarrow>
     (\<exists>f \<in> set files. \<exists>owners. owners_of rules f = Some owners
        \<and> (\<forall>owner \<in> set owners. is_user (to_ascii_lowercase owner) \<and> to_ascii_lowercase owner \<notin> set approvers
            \<and> author_login author \<noteq> Some (to_ascii_lowercase owner))))
   \<and> ((\<exists>a. judge rules files approvers author = Satisfied a) \<longleftrightarrow>
     (\<exists>f \<in> set files. owners_of rules f \<noteq> None)
     \<and> (\<forall>f \<in> set files. owners_of rules f \<noteq> None \<longrightarrow> (\<exists>owner \<in> set (the (owners_of rules f)).
          is_user (to_ascii_lowercase owner) \<and> to_ascii_lowercase owner \<in> set approvers)))
   \<and> (judge rules files approvers author = NotRequired \<longleftrightarrow> (\<forall>f \<in> set files. owners_of rules f = None))"
proof -
  let ?j = "judge rules files approvers author"
  let ?w = "\<exists>f \<in> set files. file_waits rules approvers author f"
  let ?u = "\<exists>f \<in> set files. file_unjudged rules approvers author f"
  let ?a = "\<exists>f \<in> set files. file_approved rules approvers f"
  have cases: "(?w \<and> (\<exists>owners waiting. ?j = Missing owners waiting)) \<or> (\<not> ?w \<and> ?u \<and> (\<exists>reason. ?j = Undetermined reason))
      \<or> (\<not> ?w \<and> \<not> ?u \<and> ?a \<and> (\<exists>a. ?j = Satisfied a)) \<or> (\<not> ?w \<and> \<not> ?u \<and> \<not> ?a \<and> ?j = NotRequired)"
    using judge_cases by meson
  have owned: "owners_of rules f \<noteq> None \<longleftrightarrow> file_waits rules approvers author f \<or> file_unjudged rules approvers author f \<or> file_approved rules approvers f" for f
    by (auto simp: file_unjudged_def file_waits_def file_approved_def)
  have excl: "file_approved rules approvers f \<Longrightarrow> \<not> file_waits rules approvers author f \<and> \<not> file_unjudged rules approvers author f" for f
    by (auto simp: file_unjudged_def file_waits_def file_approved_def)
  have appr: "(\<exists>owner \<in> set (the (owners_of rules f)). is_user (to_ascii_lowercase owner) \<and> to_ascii_lowercase owner \<in> set approvers)
      \<longleftrightarrow> file_approved rules approvers f" if "owners_of rules f \<noteq> None" for f
    using that by (auto simp: file_approved_def)
  have all: "(\<forall>f \<in> set files. owners_of rules f \<noteq> None \<longrightarrow> (\<exists>owner \<in> set (the (owners_of rules f)).
      is_user (to_ascii_lowercase owner) \<and> to_ascii_lowercase owner \<in> set approvers)) \<longleftrightarrow> \<not> ?w \<and> \<not> ?u"
    using appr owned excl by meson
  have "(\<exists>f \<in> set files. owners_of rules f \<noteq> None) \<longleftrightarrow> ?w \<or> ?u \<or> ?a" using owned by meson
  then show ?thesis unfolding all file_waits_def[symmetric] using cases by (metis code_owner_status.distinct)
qed

section \<open>A head that is held\<close>

lemma settle_Missing:
  assumes "settle_status env repo base head rules reviews status = Missing owners waiting"
  shows "status = Missing owners waiting" "codeowners_errors env repo base = None"
    "rules_dismiss_stale_reviews rules \<or> (\<forall>owner \<in> set owners. to_ascii_lowercase owner \<notin> set (earlier_head_approvers reviews head))"
  using assms by (auto simp: settle_status_def find_None_iff split: code_owner_status.splits option.splits if_splits)

lemma result_bind_InrE:
  assumes "result_bind r f = Inr b"
  obtains a where "r = Inr a" "f a = Inr b"
  using assms by (auto simp: result_bind_def split: sum.splits)

lemma read_status_MissingE:
  assumes "read_status env repo base pr head author = Inr (Missing owners waiting)"
  obtains rules content files lines where "gh_json env (rules_argv repo base) ''evaluated branch rules'' = Inr rules"
    "rules_require_code_owner_review rules" "read_codeowners env repo base = Inr (Some content)"
    "read_lines env (files_path repo pr) files_jq = Inr files" "length files < file_list_cap"
    "read_lines env (reviews_path repo pr) reviews_jq = Inr lines"
    "settle_status env repo base head rules (reviews_of lines)
      (judge (codeowners_parse content) files (exact_head_approvers (reviews_of lines) head) author) = Missing owners waiting"
proof -
  obtain rules where r: "gh_json env (rules_argv repo base) ''evaluated branch rules'' = Inr rules"
      "rules_require_code_owner_review rules"
    using assms unfolding read_status_def by (elim result_bind_InrE) (auto split: if_splits)
  then obtain content where c: "read_codeowners env repo base = Inr (Some content)"
    using assms unfolding read_status_def by (auto simp: result_bind_def split: sum.splits option.splits)
  with r obtain files where f: "read_lines env (files_path repo pr) files_jq = Inr files" "length files < file_list_cap"
    using assms unfolding read_status_def by (auto simp: result_bind_def split: sum.splits if_splits)
  with r c obtain lines where l: "read_lines env (reviews_path repo pr) reviews_jq = Inr lines"
    using assms unfolding read_status_def by (auto simp: result_bind_def split: sum.splits)
  show thesis using that[OF r(1,2) c f l] r c f l assms by (simp add: read_status_def result_bind_def)
qed

text \<open>
  (C25) A head is held for a missing code owner only when the rules of the base require a code-owner
  review, a \<open>CODEOWNERS\<close> file was read in which GitHub reports no error, the list of files is not
  cut off, and some file of the change is owned by users only, of whom none is the author and
  none gave an approval of exactly this head as the latest deciding review; and if the rule keeps
  stale reviews, no owner who could approve has approved an earlier head.
\<close>

theorem held_only_for_missing_owner:
  assumes "read_status env repo base pr head author = Inr (Missing owners waiting)"
  shows "\<exists>rules content files lines reviews.
      gh_json env (rules_argv repo base) ''evaluated branch rules'' = Inr rules \<and> rules_require_code_owner_review rules
    \<and> read_codeowners env repo base = Inr (Some content) \<and> codeowners_errors env repo base = None
    \<and> read_lines env (files_path repo pr) files_jq = Inr files \<and> length files < file_list_cap
    \<and> read_lines env (reviews_path repo pr) reviews_jq = Inr lines \<and> reviews = reviews_of lines
    \<and> (\<exists>f \<in> set files. \<exists>os. owners_of (codeowners_parse content) f = Some os \<and> (\<forall>owner \<in> set os. is_user (to_ascii_lowercase owner)
        \<and> author_login author \<noteq> Some (to_ascii_lowercase owner)
        \<and> (\<forall>r. find (\<lambda>r. deciding r \<and> eq_ignore_ascii_case (rv_login r) owner) (rev reviews) = Some r
            \<longrightarrow> \<not> (eq_ignore_ascii_case (rv_state r) ''APPROVED'' \<and> eq_ignore_ascii_case (rv_commit_id r) head))))
    \<and> (rules_dismiss_stale_reviews rules \<or> (\<forall>owner \<in> set owners. to_ascii_lowercase owner \<notin> set (earlier_head_approvers reviews head)))"
proof -
  obtain rules content files lines where
    reads: "gh_json env (rules_argv repo base) ''evaluated branch rules'' = Inr rules" "rules_require_code_owner_review rules"
      "read_codeowners env repo base = Inr (Some content)" "read_lines env (files_path repo pr) files_jq = Inr files"
      "length files < file_list_cap" "read_lines env (reviews_path repo pr) reviews_jq = Inr lines"
    and st: "settle_status env repo base head rules (reviews_of lines)
      (judge (codeowners_parse content) files (exact_head_approvers (reviews_of lines) head) author) = Missing owners waiting"
    using assms by (rule read_status_MissingE)
  define reviews where "reviews = reviews_of lines"
  note held = settle_Missing[OF st, folded reviews_def]
  obtain f where f: "f \<in> set files" "file_waits (codeowners_parse content) (exact_head_approvers reviews head) author f"
    using judge_cases(1)[OF held(1)] by blast
  have "(\<lambda>r. deciding r \<and> eq_ignore_ascii_case (rv_login r) owner) = (\<lambda>r. deciding r \<and> to_ascii_lowercase (rv_login r) = to_ascii_lowercase owner)" for owner
    by (simp add: eq_ignore_ascii_case_def)
  then have last: "find (\<lambda>r. deciding r \<and> eq_ignore_ascii_case (rv_login r) owner) (rev reviews) = last_deciding reviews (to_ascii_lowercase owner)" for owner
    by (simp add: last_deciding_def)
  have "\<exists>os. owners_of (codeowners_parse content) f = Some os \<and> (\<forall>owner \<in> set os. is_user (to_ascii_lowercase owner)
      \<and> author_login author \<noteq> Some (to_ascii_lowercase owner)
      \<and> (\<forall>r. find (\<lambda>r. deciding r \<and> eq_ignore_ascii_case (rv_login r) owner) (rev reviews) = Some r
          \<longrightarrow> \<not> (eq_ignore_ascii_case (rv_state r) ''APPROVED'' \<and> eq_ignore_ascii_case (rv_commit_id r) head)))"
    using f(2) unfolding file_waits_def exact_head_approvers_def approvers_where_iff last by blast
  then show ?thesis using reads held f(1) reviews_def by blast
qed

section \<open>A change to a file of one owner\<close>

definition sample_owners :: codeowners where
  "sample_owners = [\<lparr>rl_pattern = \<lparr>pt_segments = [''**'', ''*.rs''], pt_directory_only = False, pt_owns_contents = False\<rparr>, rl_owners = [''Alice'']\<rparr>,
     \<lparr>rl_pattern = \<lparr>pt_segments = [''docs''], pt_directory_only = True, pt_owns_contents = True\<rparr>, rl_owners = [''bob'']\<rparr>]"

lemma sample_owners_parsed: "codeowners_parse (''*.rs @Alice'' @ [CHR 0x0A] @ ''/docs/ bob # prose'') = sample_owners"
  by code_simp

theorem code_owner_verdict_witness:
  "(\<exists>owners waiting. judge sample_owners [''src/a.rs'', ''docs/b.md''] [''bob''] None = Missing owners waiting)
   \<and> (\<exists>a. judge sample_owners [''docs/b.md'', ''c.txt''] [''bob''] None = Satisfied a)"
proof
  show "\<exists>owners waiting. judge sample_owners [''src/a.rs'', ''docs/b.md''] [''bob''] None = Missing owners waiting"
    unfolding conjunct1[OF code_owner_verdict]
    by (rule bexI[of _ "''src/a.rs''"], rule exI[of _ "[''Alice'']"]) code_simp+
  show "\<exists>a. judge sample_owners [''docs/b.md'', ''c.txt''] [''bob''] None = Satisfied a"
    unfolding conjunct1[OF conjunct2[OF code_owner_verdict]] by code_simp
qed

definition owner_gh :: "string list \<Rightarrow> string + string" where
  "owner_gh argv = (if argv = rules_argv ''o/r'' ''main'' then Inr ''rules''
     else if argv ! 1 = ''-H'' then Inr ''*.rs @Alice''
     else if argv ! 1 = ''--paginate'' then (if argv ! 2 = files_path ''o/r'' 7 then Inr ''a.rs'' else Inr [])
     else Inr ''errors'')"

definition owner_from_str :: "string \<Rightarrow> string + json" where
  "owner_from_str s = (if s = ''rules'' then Inr (JArray [JObject [(''parameters'', JObject [(''require_code_owner_review'', JBool True)]),
       (''type'', JString ''pull_request'')]])
     else Inr (JObject [(''errors'', JArray [])]))"

definition owner_env :: code_owner_env where
  "owner_env = \<lparr>ce_run_gh = owner_gh, ce_from_str = owner_from_str, ce_last_status = (\<lambda>_. None)\<rparr>"

lemma sample_head_held: "read_status owner_env ''o/r'' ''main'' 7 ''h'' None = Inr (Missing [''Alice''] [''a.rs''])"
  by code_simp

theorem held_only_for_missing_owner_witness:
  "read_status owner_env ''o/r'' ''main'' 7 ''h'' None = Inr (Missing [''Alice''] [''a.rs''])
   \<and> (\<exists>rules. gh_json owner_env (rules_argv ''o/r'' ''main'') ''evaluated branch rules'' = Inr rules \<and> rules_require_code_owner_review rules)"
  using sample_head_held held_only_for_missing_owner[OF sample_head_held] by blast

end
