(* ===== verification/Fleet_Selfheal.thy ===== *)
theory Fleet_Selfheal
  imports Shipyard_Prelude
begin

text \<open>
  The bounded self-heal of the fleet, \<open>src/src/fleet_selfheal.rs\<close>: the observations of a clone, a
  supervisor and the relay chain, the proof that a clone is idle, the three targets that are never
  touched, and the decisions on destroying a clone, restarting a supervisor and changing the relay;
  with the verdicts and boundaries it takes from \<open>src/src/fleet_service.rs\<close>. A load average is an
  IEEE double as its bits and is compared as such; its rendering with two decimals, which only an
  operator reads, is a parameter.

  The lemmas say exactly when each of the three actions is authorised.
\<close>

section \<open>Verdicts and boundaries\<close>

definition em_dash :: string where
  "em_dash = [CHR 0xE2, CHR 0x80, CHR 0x94]"

datatype service_verdict = SvServed | SvIdle | SvDegraded | SvStarved | SvUnserved | SvUnknown

fun service_verdict_str :: "service_verdict \<Rightarrow> string" where
  "service_verdict_str SvServed = ''served''"
| "service_verdict_str SvIdle = ''idle''"
| "service_verdict_str SvDegraded = ''degraded''"
| "service_verdict_str SvStarved = ''starved''"
| "service_verdict_str SvUnserved = ''unserved''"
| "service_verdict_str SvUnknown = ''unknown''"

definition is_raise :: "service_verdict \<Rightarrow> bool" where
  "is_raise v = (v \<in> {SvDegraded, SvStarved, SvUnserved, SvUnknown})"

datatype boundary = BdGrammar | BdScope | BdIdentity | BdPermission | BdParse | BdTransport

fun boundary_str :: "boundary \<Rightarrow> string" where
  "boundary_str BdGrammar = ''grammar''"
| "boundary_str BdScope = ''scope''"
| "boundary_str BdIdentity = ''identity''"
| "boundary_str BdPermission = ''permission''"
| "boundary_str BdParse = ''parse''"
| "boundary_str BdTransport = ''transport''"

definition equivalent_path_may_exist :: "boundary \<Rightarrow> bool" where
  "equivalent_path_may_exist b = (b \<noteq> BdPermission)"

fun boundary_next_action :: "boundary \<Rightarrow> string" where
  "boundary_next_action BdGrammar = ''the verb was refused by a command grammar, not by GitHub '' @ em_dash
     @ '' retry via a permitted equivalent (a raw API call usually is one) before concluding this is not allowed''"
| "boundary_next_action BdScope = ''re-issue the same query in the other scope; a repo-scope census cannot see an ''
     @ ''org-registered runner, and returns the same empty result either way''"
| "boundary_next_action BdIdentity = ''retry as the other configured identity; the operation is available, this ''
     @ ''principal is not the one that can perform it''"
| "boundary_next_action BdPermission = ''grant the missing permission '' @ em_dash
     @ '' unlike the other boundaries, asking differently will not help''"
| "boundary_next_action BdParse = ''fix or remove the malformed value; nothing was asserted about it''"
| "boundary_next_action BdTransport = ''the call did not complete (timeout, transport, or rate limit). This is not an ''
     @ ''authentication fault; do not re-authenticate in response to it''"

section \<open>Comparing doubles\<close>

definition f64_magnitude :: "f64 \<Rightarrow> nat" where
  "f64_magnitude x = unat x mod 2 ^ 63"

definition f64_is_nan :: "f64 \<Rightarrow> bool" where
  "f64_is_nan x = (0x7FF0000000000000 < f64_magnitude x)"

definition f64_order_key :: "f64 \<Rightarrow> int" where
  "f64_order_key x = (if 2 ^ 63 \<le> unat x then - int (f64_magnitude x) else int (f64_magnitude x))"

definition f64_gt :: "f64 \<Rightarrow> f64 \<Rightarrow> bool" where
  "f64_gt x y = (\<not> f64_is_nan x \<and> \<not> f64_is_nan y \<and> f64_order_key y < f64_order_key x)"

text \<open>The double nearest to 0.05.\<close>

definition default_idle_load_ceiling :: f64 where
  "default_idle_load_ceiling = 0x3FA999999999999A"

definition default_blind_cycles_before_restart :: nat where
  "default_blind_cycles_before_restart = 3"

section \<open>Clones\<close>

datatype lane_kind = ReleaseBuild | RequiredGate | Ordinary

fun lane_kind_str :: "lane_kind \<Rightarrow> string" where
  "lane_kind_str ReleaseBuild = ''release_build''"
| "lane_kind_str RequiredGate = ''required_gate''"
| "lane_kind_str Ordinary = ''ordinary''"

datatype clone_job_state = JsActive | JsTerminal | JsUnknown

fun clone_job_state_str :: "clone_job_state \<Rightarrow> string" where
  "clone_job_state_str JsActive = ''active''"
| "clone_job_state_str JsTerminal = ''terminal''"
| "clone_job_state_str JsUnknown = ''unknown''"

definition is_finished :: "clone_job_state \<Rightarrow> bool" where
  "is_finished s = (s = JsTerminal)"

record clone_provenance =
  cp_lane :: lane_kind
  cp_job_state :: clone_job_state
  cp_ttl_secs :: int

record clone_observation =
  co_vmid :: u32
  co_name :: string
  co_created_at :: time
  co_provenance :: "clone_provenance option"
  co_provenance_boundary :: "boundary option"
  co_runner_listener_running :: "bool option"
  co_load_average :: "f64 option"
  co_registered_runner :: "bool option"

record safety =
  sf_provenance_unreadable :: "boundary option"
  sf_release_build_in_flight :: bool
  sf_serves_required_gate :: bool

definition age_secs :: "clone_observation \<Rightarrow> time \<Rightarrow> int" where
  "age_secs obs now = num_seconds (now - co_created_at obs)"

definition clone_ttl_secs :: "clone_observation \<Rightarrow> int option" where
  "clone_ttl_secs obs = map_option cp_ttl_secs (co_provenance obs)"

definition is_past_ttl :: "clone_observation \<Rightarrow> time \<Rightarrow> bool" where
  "is_past_ttl obs now = is_some_and (clone_ttl_secs obs) (\<lambda>ttl. ttl \<le> age_secs obs now)"

definition clone_safety :: "clone_observation \<Rightarrow> safety" where
  "clone_safety obs = (case co_provenance obs of
       None \<Rightarrow> \<lparr>sf_provenance_unreadable = Some (unwrap_or (co_provenance_boundary obs) BdTransport),
         sf_release_build_in_flight = False, sf_serves_required_gate = False\<rparr>
     | Some p \<Rightarrow> \<lparr>sf_provenance_unreadable = None,
         sf_release_build_in_flight = (cp_lane p = ReleaseBuild \<and> \<not> is_finished (cp_job_state p)),
         sf_serves_required_gate = (cp_lane p = RequiredGate)\<rparr>)"

definition safety_ordinary :: safety where
  "safety_ordinary = \<lparr>sf_provenance_unreadable = None, sf_release_build_in_flight = False, sf_serves_required_gate = False\<rparr>"

section \<open>Idleness\<close>

datatype idle_fact = FactProvenance | FactRunnerListener | FactLoad | FactRunnerRegistration

fun idle_fact_str :: "idle_fact \<Rightarrow> string" where
  "idle_fact_str FactProvenance = ''provenance''"
| "idle_fact_str FactRunnerListener = ''runner_listener''"
| "idle_fact_str FactLoad = ''load''"
| "idle_fact_str FactRunnerRegistration = ''runner_registration''"

datatype idle_proof =
    IdleProven
  | IdleProvenanceUnreadable boundary
  | IdleBusy idle_fact string
  | IdlePartial "idle_fact list"
  | IdleAbsent

fun idle_proof_kind :: "idle_proof \<Rightarrow> string" where
  "idle_proof_kind IdleProven = ''proven''"
| "idle_proof_kind (IdleProvenanceUnreadable b) = ''provenance_unreadable''"
| "idle_proof_kind (IdleBusy f d) = ''busy''"
| "idle_proof_kind (IdlePartial u) = ''partial''"
| "idle_proof_kind IdleAbsent = ''absent''"

definition authorises_action :: "idle_proof \<Rightarrow> bool" where
  "authorises_action proof = (proof = IdleProven)"

fun idle_proof_detail :: "idle_proof \<Rightarrow> string" where
  "idle_proof_detail IdleProven = ''provenance readable, no Runner.Listener in the guest, load at rest, and no runner still registered''"
| "idle_proof_detail (IdleProvenanceUnreadable b) =
     ''provenance could not be read ('' @ boundary_str b @ '') '' @ em_dash @ '' '' @ boundary_next_action b"
| "idle_proof_detail (IdleBusy f detail) = ''`'' @ idle_fact_str f @ ''` says the target is working: '' @ detail"
| "idle_proof_detail (IdlePartial unread) = ''never read: ['' @ join '','' (map idle_fact_str unread) @ '']''"
| "idle_proof_detail IdleAbsent = ''no idleness observation was attempted''"

text \<open>\<open>fixed2\<close> renders a double with two decimals.\<close>

definition prove_clone_idle :: "(f64 \<Rightarrow> string) \<Rightarrow> clone_observation \<Rightarrow> idle_proof" where
  "prove_clone_idle fixed2 obs =
     (if co_provenance obs = None then IdleProvenanceUnreadable (unwrap_or (co_provenance_boundary obs) BdTransport)
      else if co_runner_listener_running obs = Some True
      then IdleBusy FactRunnerListener ''a Runner.Listener process is alive inside the guest''
      else if is_some_and (co_load_average obs) (\<lambda>load. f64_gt load default_idle_load_ceiling)
      then IdleBusy FactLoad (''load average '' @ fixed2 (the (co_load_average obs)) @ '' exceeds the ''
        @ fixed2 default_idle_load_ceiling @ '' idle ceiling'')
      else if co_registered_runner obs = Some True
      then IdleBusy FactRunnerRegistration ''a runner for this clone is still registered with GitHub''
      else let unread = (if co_runner_listener_running obs = None then [FactRunnerListener] else [])
             @ (if co_load_average obs = None then [FactLoad] else [])
             @ (if co_registered_runner obs = None then [FactRunnerRegistration] else [])
        in if unread = [] then IdleProven else IdlePartial unread)"

section \<open>Targets that are never touched\<close>

datatype never_touch_case = RunningReleaseBuild | RequiredGateVm | UnreadableProvenance boundary

fun never_touch_kind :: "never_touch_case \<Rightarrow> string" where
  "never_touch_kind RunningReleaseBuild = ''running_release_build''"
| "never_touch_kind RequiredGateVm = ''required_gate_vm''"
| "never_touch_kind (UnreadableProvenance b) = ''unreadable_provenance''"

fun never_touch_detail :: "never_touch_case \<Rightarrow> string" where
  "never_touch_detail RunningReleaseBuild = ''provenance names a release build whose job has not reported terminal '' @ em_dash
     @ '' a release build between phases reads exactly as idle as an orphan does''"
| "never_touch_detail RequiredGateVm = ''provenance names a VM serving a required merge gate '' @ em_dash
     @ '' refused unconditionally, because being wrong here blocks every open PR''"
| "never_touch_detail (UnreadableProvenance b) = ''provenance could not be read ('' @ boundary_str b
     @ ''), so this is an anonymous VMID that cannot be distinguished from a release build or a gate VM '' @ em_dash @ '' '' @ boundary_next_action b"

fun never_touch_boundary :: "never_touch_case \<Rightarrow> boundary option" where
  "never_touch_boundary (UnreadableProvenance b) = Some b"
| "never_touch_boundary RunningReleaseBuild = None"
| "never_touch_boundary RequiredGateVm = None"

definition never_touch :: "safety \<Rightarrow> never_touch_case option" where
  "never_touch safety = (case sf_provenance_unreadable safety of
       Some b \<Rightarrow> Some (UnreadableProvenance b)
     | None \<Rightarrow> if sf_release_build_in_flight safety then Some RunningReleaseBuild
         else if sf_serves_required_gate safety then Some RequiredGateVm else None)"

section \<open>Proposals, actions and refusals\<close>

datatype reap_mode = ReapStop | ReapDestroy

fun reap_mode_str :: "reap_mode \<Rightarrow> string" where
  "reap_mode_str ReapStop = ''stop''"
| "reap_mode_str ReapDestroy = ''destroy''"

definition frees_vmid :: "reap_mode \<Rightarrow> bool" where
  "frees_vmid mode = (mode = ReapDestroy)"

datatype relay_change = DropHop string | Reorder "string list"

record relay_hop =
  rh_name :: string
  rh_reachable :: bool
  rh_connect_failures :: u32
  rh_connect_budget :: u32

definition over_budget :: "relay_hop \<Rightarrow> bool" where
  "over_budget hop = (0 < rh_connect_budget hop \<and> rh_connect_budget hop \<le> rh_connect_failures hop)"

definition hop_is_healthy :: "relay_hop \<Rightarrow> bool" where
  "hop_is_healthy hop = (rh_reachable hop \<and> \<not> over_budget hop)"

type_synonym relay_topology = "relay_hop list"

definition healthy_without :: "relay_topology \<Rightarrow> string \<Rightarrow> nat" where
  "healthy_without hops dropped = length (filter (\<lambda>hop. rh_name hop \<noteq> dropped \<and> hop_is_healthy hop) hops)"

definition is_permutation :: "relay_topology \<Rightarrow> string list \<Rightarrow> bool" where
  "is_permutation hops order = (length order = length hops \<and> sort order = sort (map rh_name hops))"

record supervisor_observation =
  so_lane :: string
  so_consecutive_blind_cycles :: nat
  so_blind_cycles_before_restart :: nat
  so_queued_demand :: nat

definition is_blind_past_threshold :: "supervisor_observation \<Rightarrow> bool" where
  "is_blind_past_threshold obs = (so_blind_cycles_before_restart obs \<le> so_consecutive_blind_cycles obs)"

datatype proposal = ProposeReapClone u32 reap_mode | ProposeRestartSupervisor string | ProposeRelayChange relay_change

datatype heal_action = DestroyClone u32 string | RestartSupervisor string | DropRelayHop string | ReorderRelayHops "string list"

fun heal_action_kind :: "heal_action \<Rightarrow> string" where
  "heal_action_kind (DestroyClone v n) = ''destroy_clone''"
| "heal_action_kind (RestartSupervisor l) = ''restart_supervisor''"
| "heal_action_kind (DropRelayHop h) = ''drop_relay_hop''"
| "heal_action_kind (ReorderRelayHops os) = ''reorder_relay_hops''"

record approved_action =
  aa_action :: heal_action
  aa_decided_at :: time
  aa_justification :: string

datatype refusal = RefuseNeverTouch never_touch_case | IdleUnproven | InsufficientRemedy | WouldSeverRelay | UnknownTarget

fun refusal_kind :: "refusal \<Rightarrow> string" where
  "refusal_kind (RefuseNeverTouch c) = ''never_touch''"
| "refusal_kind IdleUnproven = ''idle_unproven''"
| "refusal_kind InsufficientRemedy = ''insufficient_remedy''"
| "refusal_kind WouldSeverRelay = ''would_sever_relay''"
| "refusal_kind UnknownTarget = ''unknown_target''"

fun refusal_next_action :: "refusal \<Rightarrow> string" where
  "refusal_next_action (RefuseNeverTouch RunningReleaseBuild) =
     ''confirm the release build has finished, then reap by hand; no automated remedy will act on a release build''"
| "refusal_next_action (RefuseNeverTouch RequiredGateVm) =
     ''a gate VM is only ever recycled deliberately '' @ em_dash @ '' verify no PR is depending on it and act by hand''"
| "refusal_next_action (RefuseNeverTouch (UnreadableProvenance b)) =
     ''restore the provenance read before reaping anything in this pool; until it is readable every VMID here is ''
     @ ''anonymous and none of them can be reaped safely''"
| "refusal_next_action IdleUnproven = ''establish the missing idleness facts and re-decide; do not act on a partial proof''"
| "refusal_next_action InsufficientRemedy = ''re-propose the remedy that actually frees the exhausted resource '' @ em_dash
     @ '' for a clone that is a destroy, because a stopped clone still holds its VMID''"
| "refusal_next_action WouldSeverRelay = ''repair or add a hop first; the relay must retain a healthy hop through any change''"
| "refusal_next_action UnknownTarget = ''re-read the topology and re-decide; the proposal names something the current ''
     @ ''observation does not contain''"

record escalation =
  es_proposed :: proposal
  es_refusal :: refusal
  es_verdict :: service_verdict
  es_boundary :: "boundary option"
  es_decided_at :: time
  es_detail :: string
  es_human_action :: string

definition escalation_new :: "proposal \<Rightarrow> refusal \<Rightarrow> string \<Rightarrow> time \<Rightarrow> escalation" where
  "escalation_new proposed refusal detail now =
     (let b = (case refusal of RefuseNeverTouch c \<Rightarrow> never_touch_boundary c | _ \<Rightarrow> None)
      in \<lparr>es_proposed = proposed, es_refusal = refusal, es_verdict = (if b \<noteq> None then SvUnknown else SvDegraded), es_boundary = b,
          es_decided_at = now, es_detail = detail, es_human_action = refusal_next_action refusal\<rparr>)"

datatype self_heal_decision = HealNothing string | HealAct approved_action | HealEscalate escalation

fun self_heal_kind :: "self_heal_decision \<Rightarrow> string" where
  "self_heal_kind (HealNothing r) = ''nothing''"
| "self_heal_kind (HealAct a) = ''act''"
| "self_heal_kind (HealEscalate e) = ''escalate''"

fun self_heal_action :: "self_heal_decision \<Rightarrow> heal_action option" where
  "self_heal_action (HealAct approved) = Some (aa_action approved)"
| "self_heal_action (HealNothing r) = None"
| "self_heal_action (HealEscalate e) = None"

fun self_heal_escalation :: "self_heal_decision \<Rightarrow> escalation option" where
  "self_heal_escalation (HealEscalate e) = Some e"
| "self_heal_escalation (HealNothing r) = None"
| "self_heal_escalation (HealAct a) = None"

fun is_act :: "self_heal_decision \<Rightarrow> bool" where
  "is_act (HealAct a) = True"
| "is_act (HealNothing r) = False"
| "is_act (HealEscalate e) = False"

definition refuse_never_touch :: "proposal \<Rightarrow> never_touch_case \<Rightarrow> time \<Rightarrow> escalation" where
  "refuse_never_touch proposed c now = escalation_new proposed (RefuseNeverTouch c)
     (''refused before any precondition was considered: '' @ never_touch_detail c @ ''. No idle proof overrides this.'') now"

definition refuse_unproven_idle :: "proposal \<Rightarrow> idle_proof \<Rightarrow> time \<Rightarrow> escalation" where
  "refuse_unproven_idle proposed proof now = (case proof of
       IdleProvenanceUnreadable b \<Rightarrow> refuse_never_touch proposed (UnreadableProvenance b) now
     | _ \<Rightarrow> escalation_new proposed IdleUnproven
         (''every precondition for this remedy holds, but idleness is `'' @ idle_proof_kind proof @ ''`: '' @ idle_proof_detail proof
          @ ''. A self-heal that cannot prove the target is idle escalates instead of acting.'') now)"

section \<open>Decisions\<close>

definition show_u32 :: "u32 \<Rightarrow> string" where
  "show_u32 n = show_nat (unat n)"

definition decide_clone_reap :: "(f64 \<Rightarrow> string) \<Rightarrow> clone_observation \<Rightarrow> reap_mode \<Rightarrow> time \<Rightarrow> self_heal_decision" where
  "decide_clone_reap fixed2 obs mode now =
     (let proposed = ProposeReapClone (co_vmid obs) mode; age = show_int (age_secs obs now);
          ttl = show_int (unwrap_or (clone_ttl_secs obs) 0); vmid = show_u32 (co_vmid obs)
      in case never_touch (clone_safety obs) of
        Some c \<Rightarrow> HealEscalate (refuse_never_touch proposed c now)
      | None \<Rightarrow>
          if \<not> is_past_ttl obs now
          then HealNothing (''SKIP '' @ vmid @ '' '' @ em_dash @ '' clone is only '' @ age @ ''s old, inside its '' @ ttl
            @ ''s TTL. Every healthy job starts as a young clone, so this is a steady state, not a fault.'')
          else if \<not> frees_vmid mode
          then HealEscalate (escalation_new proposed InsufficientRemedy
            (''a `'' @ reap_mode_str mode @ ''` leaves clone '' @ vmid @ '' defined and its VMID allocated. The pool allocates by ''
             @ ''VMID, so an orphan holds its ID whether it is running or not, and the next ''
             @ ''dispatch still fails with `no free clone id`. Freeing memory is not the fault.'') now)
          else let proof = prove_clone_idle fixed2 obs in
            if \<not> authorises_action proof then HealEscalate (refuse_unproven_idle proposed proof now)
            else HealAct \<lparr>aa_action = DestroyClone (co_vmid obs) (co_name obs), aa_decided_at = now,
              aa_justification = ''clone '' @ vmid @ '' is '' @ age @ ''s old against a '' @ ttl
                @ ''s TTL, is not a release build or a gate VM, and is provably idle ('' @ idle_proof_detail proof
                @ ''). Destroy '' @ em_dash @ '' not stop '' @ em_dash @ '' because the VMID is the exhausted resource.''\<rparr>)"

definition decide_supervisor_restart :: "supervisor_observation \<Rightarrow> safety \<Rightarrow> idle_proof \<Rightarrow> time \<Rightarrow> self_heal_decision" where
  "decide_supervisor_restart obs safety idle now =
     (let proposed = ProposeRestartSupervisor (so_lane obs); blind = show_nat (so_consecutive_blind_cycles obs);
          threshold = show_nat (so_blind_cycles_before_restart obs)
      in case never_touch safety of
        Some c \<Rightarrow> HealEscalate (refuse_never_touch proposed c now)
      | None \<Rightarrow>
          if \<not> is_blind_past_threshold obs
          then HealNothing (''supervisor `'' @ so_lane obs @ ''` is '' @ blind @ '' consecutive cycles blind, under its '' @ threshold @ '' threshold'')
          else if so_queued_demand obs = 0
          then HealNothing (''supervisor `'' @ so_lane obs @ ''` is '' @ blind @ '' consecutive cycles blind, but nothing is queued on its ''
            @ ''labels. Blindness with no demand costs nothing yet, and a restart is churn ''
            @ ''against the component whose restart orphans half-created clones.'')
          else if \<not> authorises_action idle then HealEscalate (refuse_unproven_idle proposed idle now)
          else HealAct \<lparr>aa_action = RestartSupervisor (so_lane obs), aa_decided_at = now,
            aa_justification = ''supervisor `'' @ so_lane obs @ ''` has been blind for '' @ blind @ '' consecutive cycles (threshold '' @ threshold
              @ '') while '' @ show_nat (so_queued_demand obs) @ '' job(s) wait on its labels, and it is provably not mid-dispatch (''
              @ idle_proof_detail idle @ '')''\<rparr>)"

definition hop_names :: "relay_topology \<Rightarrow> string" where
  "hop_names hops = join '','' (map rh_name hops)"

definition check_hop_drop :: "relay_topology \<Rightarrow> string \<Rightarrow> (refusal \<times> string) + heal_action option" where
  "check_hop_drop hops hop = (case find (\<lambda>candidate. rh_name candidate = hop) hops of
       None \<Rightarrow> Inl (UnknownTarget, ''hop `'' @ hop @ ''` is not in the observed chain ['' @ hop_names hops @ '']'')
     | Some target \<Rightarrow>
         if \<not> over_budget target then Inr None
         else if healthy_without hops hop = 0
         then Inl (WouldSeverRelay, ''dropping `'' @ hop @ ''` would leave 0 healthy hops in ['' @ hop_names hops @ ''] '' @ em_dash
           @ '' the relay would be severed, which is a worse outage than the failing hop it was aimed at'')
         else Inr (Some (DropRelayHop hop)))"

definition check_hop_reorder :: "relay_topology \<Rightarrow> string list \<Rightarrow> (refusal \<times> string) + heal_action option" where
  "check_hop_reorder hops order =
     (if \<not> is_permutation hops order
      then Inl (UnknownTarget, ''proposed order ['' @ join '','' order @ ''] is not a permutation of the observed chain ['' @ hop_names hops @ '']'')
      else if \<not> list_ex over_budget hops then Inr None
      else if \<not> list_ex hop_is_healthy hops
      then Inl (WouldSeverRelay, ''no hop in ['' @ hop_names hops @ ''] is healthy, so re-ordering promotes nothing '' @ em_dash
        @ '' the relay is already severed and needs a hop repaired, not re-arranged'')
      else Inr (Some (ReorderRelayHops order)))"

fun relay_no_fault_reason :: "relay_topology \<Rightarrow> relay_change \<Rightarrow> string" where
  "relay_no_fault_reason hops (DropHop hop) = ''hop `'' @ hop @ ''` is inside its connect budget '' @ em_dash @ '' there is no fault to remedy''"
| "relay_no_fault_reason hops (Reorder order) = ''no hop in ['' @ hop_names hops @ ''] has spent its connect budget '' @ em_dash
     @ '' there is no fault to remedy''"

fun surviving_healthy :: "relay_topology \<Rightarrow> relay_change \<Rightarrow> nat" where
  "surviving_healthy hops (DropHop hop) = healthy_without hops hop"
| "surviving_healthy hops (Reorder order) = length (filter hop_is_healthy hops)"

definition check_relay_change :: "relay_topology \<Rightarrow> relay_change \<Rightarrow> (refusal \<times> string) + heal_action option" where
  "check_relay_change hops change = (case change of DropHop hop \<Rightarrow> check_hop_drop hops hop | Reorder order \<Rightarrow> check_hop_reorder hops order)"

definition decide_relay_change :: "relay_topology \<Rightarrow> relay_change \<Rightarrow> safety \<Rightarrow> idle_proof \<Rightarrow> time \<Rightarrow> self_heal_decision" where
  "decide_relay_change hops change safety idle now =
     (let proposed = ProposeRelayChange change in
      case never_touch safety of
        Some c \<Rightarrow> HealEscalate (refuse_never_touch proposed c now)
      | None \<Rightarrow>
          (case check_relay_change hops change of
            Inl (refusal, detail) \<Rightarrow> HealEscalate (escalation_new proposed refusal detail now)
          | Inr None \<Rightarrow> HealNothing (relay_no_fault_reason hops change)
          | Inr (Some decided) \<Rightarrow>
              if \<not> authorises_action idle then HealEscalate (refuse_unproven_idle proposed idle now)
              else HealAct \<lparr>aa_action = decided, aa_decided_at = now,
                aa_justification = ''the change leaves '' @ show_nat (surviving_healthy hops change)
                  @ '' healthy hop(s) carrying the relay, and no transfer is in flight through it ('' @ idle_proof_detail idle @ '')''\<rparr>))"

section \<open>What is authorised\<close>

lemma never_touch_clone:
  "never_touch (clone_safety obs) = None \<longleftrightarrow> (\<exists>p. co_provenance obs = Some p \<and> cp_lane p \<noteq> RequiredGate
     \<and> (cp_lane p = ReleaseBuild \<longrightarrow> cp_job_state p = JsTerminal))"
  by (auto simp: never_touch_def clone_safety_def is_finished_def split: option.splits)

lemma prove_clone_idle_iff:
  "prove_clone_idle fixed2 obs = IdleProven \<longleftrightarrow> co_provenance obs \<noteq> None \<and> co_runner_listener_running obs = Some False
     \<and> (\<exists>load. co_load_average obs = Some load \<and> \<not> f64_gt load default_idle_load_ceiling) \<and> co_registered_runner obs = Some False"
  unfolding prove_clone_idle_def Let_def
  by (cases "co_runner_listener_running obs"; cases "co_load_average obs"; cases "co_registered_runner obs") (auto simp: is_some_and_def)

lemma decide_clone_reap_action:
  "self_heal_action (decide_clone_reap fixed2 obs mode now) =
     (if never_touch (clone_safety obs) = None \<and> is_past_ttl obs now \<and> frees_vmid mode \<and> authorises_action (prove_clone_idle fixed2 obs)
      then Some (DestroyClone (co_vmid obs) (co_name obs)) else None)"
  unfolding decide_clone_reap_def Let_def by (cases "never_touch (clone_safety obs)") simp_all

text \<open>
  (C24) A clone is destroyed exactly when that is what was proposed, its provenance was read and names
  neither a required gate nor a release build whose job has not ended, it has reached its time to
  live, and all three readings of the guest were made and say that it is at rest.
\<close>

theorem reap_authorised_iff:
  "self_heal_action (decide_clone_reap fixed2 obs mode now) = Some act \<longleftrightarrow>
     act = DestroyClone (co_vmid obs) (co_name obs) \<and> mode = ReapDestroy
     \<and> (\<exists>p. co_provenance obs = Some p \<and> cp_lane p \<noteq> RequiredGate \<and> (cp_lane p = ReleaseBuild \<longrightarrow> cp_job_state p = JsTerminal)
          \<and> cp_ttl_secs p \<le> age_secs obs now)
     \<and> co_runner_listener_running obs = Some False
     \<and> (\<exists>load. co_load_average obs = Some load \<and> \<not> f64_gt load default_idle_load_ceiling)
     \<and> co_registered_runner obs = Some False"
proof -
  have ttl: "is_past_ttl obs now \<longleftrightarrow> cp_ttl_secs p \<le> age_secs obs now" if "co_provenance obs = Some p" for p
    using that by (simp add: is_past_ttl_def clone_ttl_secs_def is_some_and_def)
  show ?thesis
    unfolding decide_clone_reap_action never_touch_clone authorises_action_def prove_clone_idle_iff frees_vmid_def
    using ttl by auto
qed

lemma decide_relay_change_action:
  "self_heal_action (decide_relay_change hops change safety idle now) = Some act \<longleftrightarrow>
     never_touch safety = None \<and> check_relay_change hops change = Inr (Some act) \<and> idle = IdleProven"
  unfolding decide_relay_change_def Let_def
  by (cases "never_touch safety"; cases "check_relay_change hops change") (auto simp: authorises_action_def split: option.splits prod.splits)

lemma healthy_without_pos: "healthy_without hops h \<noteq> 0 \<longleftrightarrow> (\<exists>x \<in> set hops. rh_name x \<noteq> h \<and> hop_is_healthy x)"
  by (auto simp: healthy_without_def filter_empty_conv)

lemma is_permutation_mset: "is_permutation hops order \<longleftrightarrow> mset order = mset (map rh_name hops)"
proof
  assume "is_permutation hops order"
  then show "mset order = mset (map rh_name hops)" unfolding is_permutation_def by (metis mset_sort)
next
  assume m: "mset order = mset (map rh_name hops)"
  then have "sort order = sort (map rh_name hops)" by (intro properties_for_sort) (simp_all del: mset_map)
  then show "is_permutation hops order" using m unfolding is_permutation_def by (metis length_map mset_eq_length)
qed

definition applied_relay :: "relay_topology \<Rightarrow> heal_action \<Rightarrow> string list" where
  "applied_relay hops act = (case act of DropRelayHop h \<Rightarrow> filter (\<lambda>n. n \<noteq> h) (map rh_name hops) | ReorderRelayHops order \<Rightarrow> order
     | _ \<Rightarrow> map rh_name hops)"

text \<open>
  A change of the relay is authorised only when nothing forbids to touch it and it was proven idle;
  it then drops a hop that has spent its connect budget, or puts the hops of the chain into
  another order while one of them has, and it always leaves a healthy hop in the chain.
\<close>

theorem relay_change_keeps_healthy_hop:
  assumes "self_heal_action (decide_relay_change hops change safety idle now) = Some act"
  shows "never_touch safety = None \<and> idle = IdleProven
    \<and> ((\<exists>h. change = DropHop h \<and> act = DropRelayHop h \<and> (\<exists>x \<in> set hops. rh_name x = h \<and> over_budget x))
       \<or> (\<exists>order. change = Reorder order \<and> act = ReorderRelayHops order \<and> mset order = mset (map rh_name hops) \<and> (\<exists>x \<in> set hops. over_budget x)))
    \<and> (\<exists>x \<in> set hops. hop_is_healthy x \<and> rh_name x \<in> set (applied_relay hops act))"
proof -
  have base: "never_touch safety = None" "check_relay_change hops change = Inr (Some act)" "idle = IdleProven"
    using assms decide_relay_change_action by blast+
  show ?thesis
  proof (cases change)
    case (DropHop h)
    then have drop: "check_hop_drop hops h = Inr (Some act)" using base(2) by (simp add: check_relay_change_def)
    then obtain x where x: "find (\<lambda>c. rh_name c = h) hops = Some x" "over_budget x" and act: "act = DropRelayHop h"
        and pos: "healthy_without hops h \<noteq> 0"
      by (auto simp: check_hop_drop_def split: option.splits if_splits)
    have "x \<in> set hops" "rh_name x = h" using find_SomeD[OF x(1)] by blast+
    moreover obtain y where "y \<in> set hops" "rh_name y \<noteq> h" "hop_is_healthy y" using pos healthy_without_pos by metis
    ultimately show ?thesis using base x(2) act DropHop by (auto simp: applied_relay_def)
  next
    case (Reorder order)
    then have "check_hop_reorder hops order = Inr (Some act)" using base(2) by (simp add: check_relay_change_def)
    then have r: "act = ReorderRelayHops order" "mset order = mset (map rh_name hops)" "\<exists>x \<in> set hops. over_budget x" "\<exists>x \<in> set hops. hop_is_healthy x"
      by (auto simp: check_hop_reorder_def is_permutation_mset list_ex_iff split: if_splits)
    then have "set order = rh_name ` set hops" by (metis set_map set_mset_mset)
    then show ?thesis using base r Reorder by (auto simp: applied_relay_def)
  qed
qed

text \<open>
  A supervisor is restarted exactly when nothing forbids to touch it, it has been blind for as many
  cycles as its threshold, a job waits on its labels and it was proven idle.
\<close>

theorem restart_authorised_iff:
  "self_heal_action (decide_supervisor_restart obs safety idle now) = Some act \<longleftrightarrow>
     act = RestartSupervisor (so_lane obs) \<and> never_touch safety = None
     \<and> so_blind_cycles_before_restart obs \<le> so_consecutive_blind_cycles obs \<and> 0 < so_queued_demand obs \<and> idle = IdleProven"
  unfolding decide_supervisor_restart_def Let_def is_blind_past_threshold_def authorises_action_def
  by (cases "never_touch safety") auto

section \<open>An orphan and a failing hop\<close>

definition orphan_clone :: clone_observation where
  "orphan_clone = \<lparr>co_vmid = 200, co_name = ''c'', co_created_at = 0,
     co_provenance = Some \<lparr>cp_lane = Ordinary, cp_job_state = JsTerminal, cp_ttl_secs = 60\<rparr>, co_provenance_boundary = None,
     co_runner_listener_running = Some False, co_load_average = Some 0, co_registered_runner = Some False\<rparr>"

theorem reap_authorised_iff_witness:
  "self_heal_action (decide_clone_reap (\<lambda>_. []) orphan_clone ReapDestroy (duration_seconds 60)) = Some (DestroyClone 200 ''c'')"
  unfolding reap_authorised_iff
  by (simp add: orphan_clone_def age_secs_def duration_seconds_def num_seconds_def nanos_per_second_def f64_gt_def f64_order_key_def f64_magnitude_def default_idle_load_ceiling_def)

definition two_hops :: relay_topology where
  "two_hops = [\<lparr>rh_name = ''a'', rh_reachable = True, rh_connect_failures = 3, rh_connect_budget = 3\<rparr>,
     \<lparr>rh_name = ''b'', rh_reachable = True, rh_connect_failures = 0, rh_connect_budget = 3\<rparr>]"

lemma two_hops_drop:
  "self_heal_action (decide_relay_change two_hops (DropHop ''a'') safety_ordinary IdleProven 0) = Some (DropRelayHop ''a'')"
  unfolding decide_relay_change_action by code_simp

theorem relay_change_keeps_healthy_hop_witness:
  "\<exists>x \<in> set two_hops. hop_is_healthy x \<and> rh_name x \<in> set (applied_relay two_hops (DropRelayHop ''a''))"
  using relay_change_keeps_healthy_hop[OF two_hops_drop] by blast

end
