(* ===== verification/Spec2Isabelle.thy ===== *)
theory Spec2Isabelle
  imports Queue_Scheduler Merge_Queue Queue_Drain Run_Repair Pr_Queue_State Queue_Liveness Auto_Arm Merge_Train Ship_State Work_Item Canary_Job Test_Plan Shadow_Aggregate Proof_Store Merge_Carrier Ship_Liveness Wait_Conditions Code_Owners Fleet_Selfheal
begin

text \<open>
  Shipyard drives pull requests through validation and GitHub's merge queue. A command or the daemon
  enqueues jobs, one per ship or run; a drain admits pending jobs against the machine's capacity and
  the claims of the jobs already running; workers record their progress in the queue, in ship states
  and in host-pool leases; merge-queue observers and stewards decide, from GitHub's answers, what may
  be armed, re-enqueued, re-run or cancelled. This development models those decisions and the durable
  state behind them, in the source's order and with its names.

  \<^bold>\<open>Theories and sources\<close> (files under \<open>src/src/\<close>)

  \<^item> \<open>Shipyard_Prelude\<close>: widths, comparison functions and stable sorting, rows and ordered maps,
    UTF-8 strings, results and options. Two interfaces are stated here as locales and interpreted:
    \<open>comparator\<close> (what \<open>sort_by\<close> and \<open>max_by\<close> need) and \<open>ordered_map\<close>.
  \<^item> \<open>Json_Value\<close>: JSON values and the accessors the parsers use.
  \<^item> \<open>Job\<close> (\<open>job.rs\<close>): the job record and its life cycle.
  \<^item> \<open>Queue_Request\<close> (\<open>queue_request.rs\<close>, the request types of \<open>ship.rs\<close> and of the executors):
    envelopes, their snapshot and restoration, ownership and resource plans.
  \<^item> \<open>Job_Queue\<close> (\<open>queue.rs\<close>): the durable queue, every operation on its rows and the locked
    read-modify-write over the disk. The locale \<open>queue_operation\<close> is what all operations promise.
  \<^item> \<open>Host_Pool\<close> (\<open>host_pool.rs\<close>): pool configuration and leases.
  \<^item> \<open>Queue_Scheduler\<close> (\<open>queue_scheduler.rs\<close>): the admit pass, the rules for ships of one pull
    request, applying a pass to the queue, the merged-pull-request observer. It relies on the queue
    through the locale \<open>drain_queue\<close>, interpreted on the operations of \<open>Job_Queue\<close>.
  \<^item> \<open>Merge_Queue\<close> (\<open>merge_queue.rs\<close>), \<open>Merge_Steward\<close> (\<open>merge_steward.rs\<close>), \<open>Queue_Drain\<close>
    (\<open>queue_drain.rs\<close>), \<open>Run_Repair\<close> (\<open>stale_pr_wedge.rs\<close>, \<open>transient_interruption.rs\<close>): polling,
    pull-request classification, triage and repair of runs.
  \<^item> \<open>Pr_Queue_State\<close> (\<open>pr_queue_state.rs\<close>), \<open>Queue_Liveness\<close> (\<open>merge_queue_liveness.rs\<close>),
    \<open>Environment_Requeue\<close> (\<open>environment_requeue.rs\<close>), \<open>Auto_Arm\<close> (\<open>auto_arm.rs\<close>), \<open>Merge_Train\<close>
    (\<open>merge_train.rs\<close>): what the merge queue did with a pull request, whether it is alive, and what may
    go back into it.
  \<^item> \<open>Ship_State\<close> (\<open>ship_state.rs\<close>, the verdict of \<open>watch.rs\<close>): ship states, the reviewer fence and the
    repository-scoped store with its legacy mirror; the locale \<open>scoped_states\<close> is the store its
    transactions need. \<open>Work_Item\<close> (\<open>ship_state.rs\<close>, \<open>record_identity.rs\<close>): work items of agents.
  \<^item> \<open>Canary_Job\<close> (\<open>parallel_proof_canary_job/\<close>, \<open>put\<close> of \<open>immutable_store.rs\<close>): approved canary jobs, their
    immutable receipts and the life cycle from launch to the acknowledged wake. \<open>canary_run\<close> is any
    interleaving of store accesses by several controllers.
  \<^item> \<open>Proof_Records\<close>, \<open>Union_Find\<close>, \<open>Test_Inventory\<close>, \<open>Test_Plan\<close> (\<open>parallel_proof.rs\<close>): the records of a sharded
    proof, \<open>find\<close> and \<open>union\<close> with the locale of a disjoint-set structure, test inventories with their
    dependency check, and shard plans: components, explicit and balanced assignments, validation.
  \<^item> \<open>Shadow_Proof\<close>, \<open>Shadow_Aggregate\<close> (\<open>parallel_proof.rs\<close>): the manifest of a proof, the authenticators
    (HMAC over the codec), assignments, dispositions and receipts, and \<open>aggregate_shadow_proof\<close> with its
    four overlap checks; the locale \<open>sweep\<close> shows once that a sweep over sorted executions is a
    pairwise check.
  \<^item> \<open>Proof_Store\<close> (\<open>parallel_proof.rs\<close>): \<open>ParallelProofStore\<close> over a file system in which an entry is durable
    once its directory is synced; \<open>store_step\<close> is an operation, an interruption, a foreign write or a
    power loss.
  \<^item> \<open>Merge_Carrier\<close> (\<open>merge_carrier.rs\<close>): the unattended carrier, which plans one action for one pull request
    from GitHub facts; it uses the interruption signature of \<open>Run_Repair\<close> and the ejection cause of
    \<open>Environment_Requeue\<close>.
  \<^item> \<open>Ship_Liveness\<close> (\<open>ship_liveness.rs\<close>): which job of a queue snapshot owns a ship state and when an unfinished
    state is an orphan, on the ship states of \<open>Ship_State\<close> and the staleness of \<open>Job_Queue\<close>.
  \<^item> \<open>Wait_Conditions\<close> (\<open>wait.rs\<close>): the truth conditions of \<open>shipyard wait\<close> on releases, pull requests and runs.
  \<^item> \<open>Code_Owners\<close> (\<open>code_owners.rs\<close>): \<open>CODEOWNERS\<close> patterns with the backtracking glob loop and its recursive
    meaning, the approvals of a head and the verdict whether a head waits on a code owner.
  \<^item> \<open>Fleet_Selfheal\<close> (\<open>fleet_selfheal.rs\<close>): the proof that a clone is idle and the decisions to destroy a clone,
    restart a supervisor or change the relay.

  \<^bold>\<open>What the lemmas show\<close>

  Invariants by induction over operations or steps: distinct rows and jobs that only move forward in
  the queue, leases within every member's limit, fences that only advance. Safety of decisions: no
  two admitted jobs share an exclusive claim, nothing starts that the pass did not admit, a head the
  queue ejected goes back only under the stated conditions, runs are cancelled only when doomed or
  superseded. Refinement: the ship-state files, in any mix of legacy, scoped, corrupt and colliding
  ones, behave as one map from repository and pull request to a state. Equivalence of loops and
  parsers with closed characterisations, round trips of what is stored, bounds and errors.

  \<^bold>\<open>Conventions\<close>

  A time is an integer count of nanoseconds; \<open>u32\<close> values are words, \<open>u64\<close> values naturals with
  the checked and saturating operations written out. Strings are UTF-8 byte lists. A \<open>BTreeMap\<close> is
  its sorted list of entries. Errors are the left of a sum, with the program's message. A locked
  operation is one step on the value the lock protects. What the program reads from elsewhere (the
  clock, the process table, SHA-256, \<open>gh\<close>, the file system's failures) is an argument.
  Recursion is structural or has a termination proof; the only fuel is the page bound that the
  program itself has, and \<open>retry_replace\<close>'s attempts.

  \<^bold>\<open>Not modelled\<close>

  Process and network I/O (executors, \<open>gh\<close>, the daemon, tunnels), the SQLite metrics store, git object
  inspection and artifact transport, and the command line. The version-upgrading decoder and the
  experimental authority checks of \<open>queue_request.rs\<close>, and the cost report of \<open>gate_cost.rs\<close>, are
  not modelled yet.
\<close>


end
